(* ===== verification/Sofie_Prelude.thy ===== *)
theory Sofie_Prelude
  imports Complex_Main "HOL-Library.Multiset" "HOL-Library.List_Lexorder" "HOL-Library.Char_ord"
    "HOL-Library.Product_Lexorder" "HOL-Library.Option_ord"
begin

text \<open>
  Prelude of the development: the names of the basic types, the collections of facts the component
  theories share, and the JavaScript library operations that the modelled TypeScript uses:
  truthiness of optional numbers, \<open>findIndex\<close>/\<open>indexOf\<close>, \<open>slice\<close>, insertion-ordered \<open>Map\<close>s as
  association lists, grouping (\<open>groupByToMapFunc\<close> and \<open>normalizeArrayToMapFunc\<close> of
  \<open>packages/corelib/src/lib.ts\<close>), and \<open>Array.prototype.sort\<close>.

  JavaScript numbers that are times, durations or indices are \<open>int\<close> (milliseconds, exact below
  2^53 in the program); ranks, which the program interpolates by division, are \<open>rat\<close>. Ids are
  strings compared bytewise.
\<close>

named_theorems js_simps \<open>rewrites of the JavaScript library operations\<close>
named_theorems frame_simps \<open>fields an operation leaves alone\<close>

type_synonym time = int
type_synonym rank = rat
type_synonym PartId = string
type_synonym PartInstanceId = string
type_synonym PieceId = string
type_synonym PieceInstanceId = string
type_synonym SegmentId = string
type_synonym RundownId = string
type_synonym ShowStyleBaseId = string

section \<open>Optional values\<close>

text \<open>\<open>undefined\<close> and \<open>0\<close> are the falsy values of an optional number, \<open>undefined\<close> and the empty
  string those of an optional string.\<close>

definition truthy_num :: "int option \<Rightarrow> bool" where
  "truthy_num x = (case x of None \<Rightarrow> False | Some n \<Rightarrow> n \<noteq> 0)"

definition truthy_str :: "string option \<Rightarrow> bool" where
  "truthy_str x = (case x of None \<Rightarrow> False | Some s \<Rightarrow> s \<noteq> [])"

definition nullish :: "'a option \<Rightarrow> 'a \<Rightarrow> 'a" where
  \<comment> \<open>\<open>x ?? d\<close>\<close>
  "nullish x d = (case x of None \<Rightarrow> d | Some v \<Rightarrow> v)"

lemma truthy_num_simps [simp, js_simps]:
  "\<not> truthy_num None" "truthy_num (Some n) \<longleftrightarrow> n \<noteq> 0"
  by (simp_all add: truthy_num_def)

lemma truthy_str_simps [simp, js_simps]:
  "\<not> truthy_str None" "truthy_str (Some s) \<longleftrightarrow> s \<noteq> []"
  by (simp_all add: truthy_str_def)

lemma nullish_simps [simp, js_simps]:
  "nullish None d = d" "nullish (Some v) d = v"
  by (simp_all add: nullish_def)

section \<open>Searching\<close>

text \<open>\<open>xs.findIndex(p)\<close>: the least index, or -1.\<close>

fun find_index :: "('a \<Rightarrow> bool) \<Rightarrow> 'a list \<Rightarrow> nat option" where
  "find_index p [] = None"
| "find_index p (x # xs) = (if p x then Some 0 else map_option Suc (find_index p xs))"

definition index_of :: "'a list \<Rightarrow> 'a \<Rightarrow> nat option" where
  "index_of xs x = find_index (\<lambda>y. y = x) xs"

lemma find_index_None: "find_index p xs = None \<longleftrightarrow> (\<forall>x\<in>set xs. \<not> p x)"
  by (induction xs) auto

lemma find_index_Some:
  "find_index p xs = Some i \<longleftrightarrow> i < length xs \<and> p (xs ! i) \<and> (\<forall>j<i. \<not> p (xs ! j))"
proof (induction xs arbitrary: i)
  case Nil
  then show ?case by simp
next
  case (Cons x xs)
  show ?case
  proof (cases i)
    case 0
    then show ?thesis by (auto simp: find_index_None)
  next
    case (Suc k)
    then show ?thesis
      by (auto simp: Cons.IH less_Suc_eq_0_disj)
  qed
qed

lemma find_index_update:
  "i < length xs \<Longrightarrow> p x \<Longrightarrow> \<forall>j<i. \<not> p (xs ! j) \<Longrightarrow> find_index p (xs[i := x]) = Some i"
  by (simp add: find_index_Some)

lemma find_index_snoc:
  "find_index p (xs @ [x]) = (case find_index p xs of Some i \<Rightarrow> Some i
     | None \<Rightarrow> if p x then Some (length xs) else None)"
  by (induction xs) (auto split: option.split)

lemma index_of_None: "index_of xs x = None \<longleftrightarrow> x \<notin> set xs"
  by (auto simp: index_of_def find_index_None)

lemma index_of_Some: "index_of xs x = Some i \<Longrightarrow> i < length xs \<and> xs ! i = x"
  by (auto simp: index_of_def find_index_Some)

lemma index_of_distinct: "distinct xs \<Longrightarrow> i < length xs \<Longrightarrow> index_of xs (xs ! i) = Some i"
  by (auto simp: index_of_def find_index_Some nth_eq_iff_index_eq)

lemma index_of_inj: "index_of xs x = Some i \<Longrightarrow> index_of xs y = Some i \<Longrightarrow> x = y"
  by (metis index_of_Some)

text \<open>A search over a range of indexes, as the \<open>for\<close> loops of the code make it.\<close>

lemma find_upt_Some:
  "find P [a..<b] = Some i \<longleftrightarrow> a \<le> i \<and> i < b \<and> P i \<and> (\<forall>j. a \<le> j \<longrightarrow> j < i \<longrightarrow> \<not> P j)"
proof
  assume "find P [a..<b] = Some i"
  then obtain k where k: "k < b - a" "P (a + k)" "i = a + k" "\<forall>j<k. \<not> P (a + j)"
    by (auto simp: find_Some_iff)
  have "\<not> P j" if "a \<le> j" "j < i" for j
    using k(4) that k(3) by (metis add_diff_inverse_nat add_less_cancel_left leD)
  with k show "a \<le> i \<and> i < b \<and> P i \<and> (\<forall>j. a \<le> j \<longrightarrow> j < i \<longrightarrow> \<not> P j)" by auto
next
  assume "a \<le> i \<and> i < b \<and> P i \<and> (\<forall>j. a \<le> j \<longrightarrow> j < i \<longrightarrow> \<not> P j)"
  then show "find P [a..<b] = Some i"
    unfolding find_Some_iff by (intro exI [of _ "i - a"]) auto
qed

lemma find_upt_None: "find P [a..<b] = None \<longleftrightarrow> (\<forall>i. a \<le> i \<longrightarrow> i < b \<longrightarrow> \<not> P i)"
  by (auto simp: find_None_iff)

lemma find_upt_nth: "map_option ((!) xs) (find (\<lambda>i. P (xs ! i)) [a..<length xs]) = find P (drop a xs)"
proof (induction xs arbitrary: a)
  case Nil
  then show ?case by simp
next
  case (Cons x xs)
  have suc: "find Q (map Suc is) = map_option Suc (find (\<lambda>i. Q (Suc i)) is)" for Q "is"
    by (induction "is") auto
  have up: "[Suc a..<Suc (length xs)] = map Suc [a..<length xs]" for a
    by (simp add: map_Suc_upt)
  show ?case
  proof (cases a)
    case 0
    have "[0..<length (x # xs)] = 0 # map Suc [0..<length xs]"
      unfolding length_Cons map_Suc_upt by (rule upt_conv_Cons) simp
    then show ?thesis
      using 0 Cons.IH [of 0] by (simp add: suc option.map_comp comp_def)
  next
    case (Suc b)
    with Cons.IH [of b] show ?thesis by (simp add: up suc option.map_comp comp_def del: upt_Suc)
  qed
qed

lemma find_drop:
  assumes "\<And>i. i < length xs \<Longrightarrow> a \<le> i \<longleftrightarrow> R (xs ! i)"
  shows "find P (drop a xs) = find (\<lambda>x. R x \<and> P x) xs"
  using assms
proof (induction xs arbitrary: a)
  case Nil
  then show ?case by simp
next
  case (Cons x xs)
  have t: "a - 1 \<le> i \<longleftrightarrow> R (xs ! i)" if "i < length xs" for i
    using Cons.prems [of "Suc i"] that by auto
  show ?case
    using Cons.IH [OF t] Cons.prems [of 0] by (cases a) auto
qed

text \<open>\<open>_.compact\<close> on a list of documents or \<open>undefined\<close>.\<close>

definition compact :: "'a option list \<Rightarrow> 'a list" where
  "compact xs = List.map_filter id xs"

lemma set_map_filter: "set (List.map_filter f xs) = {y. \<exists>x\<in>set xs. f x = Some y}"
  by (induction xs) (auto split: option.splits)

lemma set_compact [simp]: "set (compact xs) = {y. Some y \<in> set xs}"
  by (auto simp: compact_def set_map_filter)

lemma compact_simps [simp]:
  "compact [] = []" "compact (None # xs) = compact xs" "compact (Some x # xs) = x # compact xs"
  by (simp_all add: compact_def)

lemma distinct_map_compact:
  "(\<And>i j x y. i < j \<Longrightarrow> j < length xs \<Longrightarrow> xs ! i = Some x \<Longrightarrow> xs ! j = Some y \<Longrightarrow> f x \<noteq> f y) \<Longrightarrow>
   distinct (map f (compact xs))"
proof (induction xs)
  case Nil
  then show ?case by simp
next
  case (Cons o' xs)
  have IH: "distinct (map f (compact xs))"
    by (rule Cons.IH) (use Cons.prems [of "Suc _" "Suc _"] in auto)
  show ?case
  proof (cases o')
    case None
    with IH show ?thesis by simp
  next
    case (Some x)
    have "f x \<noteq> f y" if "Some y \<in> set xs" for y
      using that Cons.prems [of 0 "Suc _" x y] Some by (auto simp: in_set_conv_nth)
    with IH Some show ?thesis by auto
  qed
qed

lemma find_Some_set: "find p xs = Some x \<Longrightarrow> x \<in> set xs \<and> p x"
  by (metis find_Some_iff nth_mem)

lemma find_None_set: "find p xs = None \<longleftrightarrow> (\<forall>x\<in>set xs. \<not> p x)"
  by (auto simp: find_None_iff)

section \<open>Calls that may throw\<close>

definition and_then :: "'e + 'a \<Rightarrow> ('a \<Rightarrow> 'e + 'b) \<Rightarrow> 'e + 'b" where
  \<comment> \<open>go on with the result of a call, unless it throws\<close>
  "and_then r f = (case r of Inl e \<Rightarrow> Inl e | Inr x \<Rightarrow> f x)"

declare and_then_def [code_unfold]  \<comment> \<open>a computation stops at the first error\<close>

lemma and_then_simps [simp]:
  "and_then (Inl e) f = Inl e" "and_then (Inr x) f = f x"
  by (simp_all add: and_then_def)

lemma and_then_Inr: "and_then r f = Inr y \<longleftrightarrow> (\<exists>x. r = Inr x \<and> f x = Inr y)"
  by (cases r) simp_all

fun map_or_fail :: "('a \<Rightarrow> 'e + 'b) \<Rightarrow> 'a list \<Rightarrow> 'e + 'b list" where
  \<comment> \<open>the first element whose call throws ends the map\<close>
  "map_or_fail f [] = Inr []"
| "map_or_fail f (x # xs) = and_then (f x) (\<lambda>y. and_then (map_or_fail f xs) (\<lambda>ys. Inr (y # ys)))"

fun fold_or_fail :: "('a \<Rightarrow> 's \<Rightarrow> 'e + 's) \<Rightarrow> 'a list \<Rightarrow> 's \<Rightarrow> 'e + 's" where
  \<comment> \<open>a loop that ends at the first call that throws\<close>
  "fold_or_fail f [] s = Inr s"
| "fold_or_fail f (x # xs) s = and_then (f x s) (fold_or_fail f xs)"

lemma fold_or_fail_append: "fold_or_fail f (xs @ ys) s = and_then (fold_or_fail f xs s) (fold_or_fail f ys)"
  by (induction xs arbitrary: s) (auto simp: and_then_def split: sum.split)

lemma fold_or_fail_invariant:
  assumes "fold_or_fail f xs s = Inr s'" and "P s"
    and "\<And>x s t. x \<in> set xs \<Longrightarrow> P s \<Longrightarrow> f x s = Inr t \<Longrightarrow> P t"
  shows "P s'"
  using assms by (induction xs arbitrary: s) (auto simp: and_then_Inr)

section \<open>Insertion-ordered maps\<close>

text \<open>
  A JavaScript \<open>Map\<close> (or an object used as one) remembers the order in which keys were first set:
  an association list with distinct keys. \<open>map_set\<close> replaces the value of a key in place or adds
  the key at the end, \<open>map_get\<close> is \<open>map_of\<close>, \<open>map_del\<close> removes the key.
\<close>

type_synonym ('k, 'v) js_map = "('k \<times> 'v) list"

abbreviation map_get :: "('k, 'v) js_map \<Rightarrow> 'k \<Rightarrow> 'v option" where
  "map_get m k \<equiv> map_of m k"

fun map_set :: "'k \<Rightarrow> 'v \<Rightarrow> ('k, 'v) js_map \<Rightarrow> ('k, 'v) js_map" where
  "map_set k v [] = [(k, v)]"
| "map_set k v ((k', v') # m) = (if k' = k then (k, v) # m else (k', v') # map_set k v m)"

definition map_del :: "'k \<Rightarrow> ('k, 'v) js_map \<Rightarrow> ('k, 'v) js_map" where
  "map_del k m = filter (\<lambda>e. fst e \<noteq> k) m"

definition map_has :: "('k, 'v) js_map \<Rightarrow> 'k \<Rightarrow> bool" where
  "map_has m k = (map_of m k \<noteq> None)"

definition map_wf :: "('k, 'v) js_map \<Rightarrow> bool" where
  "map_wf m = distinct (map fst m)"

lemma map_get_set [simp, js_simps]:
  "map_get (map_set k v m) k' = (if k' = k then Some v else map_get m k')"
  by (induction m) auto

lemma fst_map_set: "fst ` set (map_set k v m) = insert k (fst ` set m)"
  by (induction k v m rule: map_set.induct) (simp_all add: insert_commute)

lemma map_wf_set [simp, intro]: "map_wf m \<Longrightarrow> map_wf (map_set k v m)"
  unfolding map_wf_def
  by (induction m) (auto simp: fst_map_set simp flip: image_set)

lemma map_wf_Nil [simp]: "map_wf []"
  by (simp add: map_wf_def)

lemma map_get_del [simp, js_simps]:
  "map_get (map_del k m) k' = (if k' = k then None else map_get m k')"
  unfolding map_del_def by (induction m) auto

lemma map_wf_del [simp, intro]: "map_wf m \<Longrightarrow> map_wf (map_del k m)"
  unfolding map_wf_def map_del_def by (induction m) auto

lemma map_keys_set:
  "map fst (map_set k v m) = (if k \<in> fst ` set m then map fst m else map fst m @ [k])"
  by (induction k v m rule: map_set.induct) auto

lemma map_set_in: "(k', v') \<in> set (map_set k v m) \<Longrightarrow> (k' = k \<and> v' = v) \<or> (k', v') \<in> set m"
  by (induction m) (auto split: if_splits)

lemma map_of_rev_wf: "map_wf m \<Longrightarrow> map_of (rev m) = map_of m"
  by (simp add: map_wf_def map_of_inject_set rev_map [symmetric])

section \<open>Insertion-ordered sets\<close>

text \<open>A JavaScript \<open>Set\<close>: the list of its members in the order they were first added.\<close>

type_synonym 'a js_set = "'a list"

definition set_add :: "'a \<Rightarrow> 'a js_set \<Rightarrow> 'a js_set" where
  "set_add x s = (if x \<in> set s then s else s @ [x])"

definition set_delete :: "'a \<Rightarrow> 'a js_set \<Rightarrow> 'a js_set" where
  "set_delete x s = filter (\<lambda>y. y \<noteq> x) s"

lemma set_set_add [simp, js_simps]: "set (set_add x s) = insert x (set s)"
  by (auto simp: set_add_def)

lemma set_fold_set_add [simp]: "set (fold set_add xs s) = set xs \<union> set s"
  by (induction xs arbitrary: s) auto

lemma set_set_delete [simp, js_simps]: "set (set_delete x s) = set s - {x}"
  by (auto simp: set_delete_def)

lemma distinct_set_add [simp, intro]: "distinct s \<Longrightarrow> distinct (set_add x s)"
  by (simp add: set_add_def)

lemma distinct_set_delete [simp, intro]: "distinct s \<Longrightarrow> distinct (set_delete x s)"
  by (simp add: set_delete_def)

text \<open>The interface of a map that the components use, with the laws they rely on.\<close>

locale js_mapping =
  fixes empty :: "'m"
    and put :: "'k \<Rightarrow> 'v \<Rightarrow> 'm \<Rightarrow> 'm"
    and del :: "'k \<Rightarrow> 'm \<Rightarrow> 'm"
    and get :: "'m \<Rightarrow> 'k \<Rightarrow> 'v option"
    and wf :: "'m \<Rightarrow> bool"
  assumes get_empty: "get empty k = None"
    and get_put: "wf m \<Longrightarrow> get (put k v m) k' = (if k' = k then Some v else get m k')"
    and get_del: "wf m \<Longrightarrow> get (del k m) k' = (if k' = k then None else get m k')"
    and wf_empty: "wf empty"
    and wf_put: "wf m \<Longrightarrow> wf (put k v m)"
    and wf_del: "wf m \<Longrightarrow> wf (del k m)"
begin

text \<open>Setting a list of entries in order: the last one of a key wins.\<close>

definition put_all :: "('k \<times> 'v) list \<Rightarrow> 'm \<Rightarrow> 'm" where
  "put_all es m = fold (\<lambda>(k, v). put k v) es m"

lemma wf_put_all: "wf m \<Longrightarrow> wf (put_all es m)"
  unfolding put_all_def by (induction es arbitrary: m) (auto simp: wf_put)

lemma get_put_all:
  "wf m \<Longrightarrow> get (put_all es m) k = (case map_of (rev es) k of None \<Rightarrow> get m k | Some v \<Rightarrow> Some v)"
proof (induction es arbitrary: m)
  case Nil
  then show ?case by (simp add: put_all_def)
next
  case (Cons e es)
  obtain k' v' where e: "e = (k', v')" by force
  have "put_all (e # es) m = put_all es (put k' v' m)"
    by (simp add: put_all_def e)
  then show ?case
    using Cons.IH [OF wf_put [OF Cons.prems]] Cons.prems
    by (auto simp: e get_put map_add_def split: option.splits)
qed

end

interpretation jm: js_mapping "[]" map_set map_del map_of map_wf
  by unfold_locales auto

section \<open>Grouping\<close>

text \<open>\<open>groupByToMapFunc\<close> of corelib: items whose key is \<open>undefined\<close> are dropped.\<close>

fun groupByToMapFunc_add :: "'k \<Rightarrow> 'a \<Rightarrow> ('k, 'a list) js_map \<Rightarrow> ('k, 'a list) js_map" where
  "groupByToMapFunc_add k x [] = [(k, [x])]"
| "groupByToMapFunc_add k x ((k', xs) # m) =
     (if k' = k then (k', xs @ [x]) # m else (k', xs) # groupByToMapFunc_add k x m)"

definition groupByToMapFunc :: "('a \<Rightarrow> 'k option) \<Rightarrow> 'a list \<Rightarrow> ('k, 'a list) js_map" where
  "groupByToMapFunc f xs =
     fold (\<lambda>x m. case f x of None \<Rightarrow> m | Some k \<Rightarrow> groupByToMapFunc_add k x m) xs []"

definition normalizeArrayToMapFunc :: "('a \<Rightarrow> 'k option) \<Rightarrow> 'a list \<Rightarrow> ('k, 'a) js_map" where
  "normalizeArrayToMapFunc f xs =
     fold (\<lambda>x m. case f x of None \<Rightarrow> m | Some k \<Rightarrow> map_set k x m) xs []"

definition groups_get :: "('k, 'a list) js_map \<Rightarrow> 'k \<Rightarrow> 'a list" where
  "groups_get m k = nullish (map_get m k) []"

lemma groups_get_add:
  "groups_get (groupByToMapFunc_add k x m) k' =
     (if k' = k then groups_get m k @ [x] else groups_get m k')"
  unfolding groups_get_def nullish_def by (induction m) auto

lemma fst_group_add: "fst ` set (groupByToMapFunc_add k x m) = insert k (fst ` set m)"
  by (induction k x m rule: groupByToMapFunc_add.induct) (simp_all add: insert_commute)

lemma map_wf_group_add: "map_wf m \<Longrightarrow> map_wf (groupByToMapFunc_add k x m)"
  unfolding map_wf_def
  by (induction m) (auto simp: fst_group_add simp flip: image_set)

lemma groupByToMapFunc_snoc:
  "groupByToMapFunc f (xs @ [x]) =
     (case f x of None \<Rightarrow> groupByToMapFunc f xs
      | Some k \<Rightarrow> groupByToMapFunc_add k x (groupByToMapFunc f xs))"
  by (simp add: groupByToMapFunc_def split: option.split)

lemma groupByToMapFunc_Nil [simp]: "groupByToMapFunc f [] = []"
  by (simp add: groupByToMapFunc_def)

lemma groups_get_groupBy: "groups_get (groupByToMapFunc f xs) k = filter (\<lambda>x. f x = Some k) xs"
proof (induction xs rule: rev_induct)
  case Nil
  then show ?case by (simp add: groups_get_def)
next
  case (snoc x xs)
  then show ?case
    by (auto simp: groupByToMapFunc_snoc groups_get_add split: option.splits)
qed

lemma map_wf_groupBy: "map_wf (groupByToMapFunc f xs)"
  by (induction xs rule: rev_induct)
    (auto simp: groupByToMapFunc_snoc map_wf_group_add split: option.splits)

lemma keys_groupBy: "fst ` set (groupByToMapFunc f xs) = {k. \<exists>x\<in>set xs. f x = Some k}"
  by (induction xs rule: rev_induct)
    (auto simp: groupByToMapFunc_snoc fst_group_add split: option.splits)

lemma groupBy_entry:
  assumes "(k, ys) \<in> set (groupByToMapFunc f xs)"
  shows "ys = filter (\<lambda>x. f x = Some k) xs"
proof -
  have "map_of (groupByToMapFunc f xs) k = Some ys"
    using map_wf_groupBy [of f xs] assms by (simp add: map_wf_def)
  then show ?thesis
    using groups_get_groupBy [of f xs k] by (simp add: groups_get_def)
qed

lemma map_get_groupBy:
  "map_get (groupByToMapFunc f xs) k =
     (if \<exists>x\<in>set xs. f x = Some k then Some (filter (\<lambda>x. f x = Some k) xs) else None)"
proof (cases "map_get (groupByToMapFunc f xs) k")
  case None
  then have "k \<notin> fst ` set (groupByToMapFunc f xs)"
    by (metis map_of_eq_None_iff)
  with None show ?thesis by (auto simp: keys_groupBy)
next
  case (Some ys)
  then have "(k, ys) \<in> set (groupByToMapFunc f xs)" by (rule map_of_SomeD)
  moreover from this have "k \<in> fst ` set (groupByToMapFunc f xs)" by force
  ultimately show ?thesis
    using Some by (auto simp: keys_groupBy dest: groupBy_entry)
qed

text \<open>Each item of a grouping comes from the input, once.\<close>

lemma mset_groupBy:
  "mset (concat (map snd (groupByToMapFunc f xs))) = mset (filter (\<lambda>x. f x \<noteq> None) xs)"
proof (induction xs rule: rev_induct)
  case Nil
  then show ?case by simp
next
  case (snoc x xs)
  have add: "mset (concat (map snd (groupByToMapFunc_add k x m))) =
      mset (concat (map snd m)) + {#x#}" for k and m :: "('b, 'a list) js_map"
    by (induction m) auto
  from snoc show ?case
    by (auto simp: groupByToMapFunc_snoc add split: option.splits)
qed

lemma map_get_normalize:
  "map_get (normalizeArrayToMapFunc f xs) k = find (\<lambda>x. f x = Some k) (rev xs)"
proof (induction xs rule: rev_induct)
  case Nil
  then show ?case by (simp add: normalizeArrayToMapFunc_def)
next
  case (snoc x xs)
  have "normalizeArrayToMapFunc f (xs @ [x]) =
      (case f x of None \<Rightarrow> normalizeArrayToMapFunc f xs
       | Some k \<Rightarrow> map_set k x (normalizeArrayToMapFunc f xs))"
    by (simp add: normalizeArrayToMapFunc_def split: option.split)
  with snoc show ?case by (auto split: option.splits)
qed

section \<open>Sorting\<close>

text \<open>
  \<open>Array.prototype.sort(cmp)\<close> is stable; \<open>gt a b\<close> stands for \<open>cmp(a, b) > 0\<close> (a comparator that
  answers \<open>NaN\<close> answers 0). Where the comparator is consistent, every stable sort gives the same
  list, and the insertion sort below is one; for an inconsistent comparator ECMAScript leaves the
  order to the implementation, so no property is stated there. \<open>_.sortBy\<close> is the same with the
  order of a key, which is the library's \<open>sort_key\<close>.
\<close>

fun js_insert :: "('a \<Rightarrow> 'a \<Rightarrow> bool) \<Rightarrow> 'a \<Rightarrow> 'a list \<Rightarrow> 'a list" where
  "js_insert gt x [] = [x]"
| "js_insert gt x (y # ys) = (if gt x y then y # js_insert gt x ys else x # y # ys)"

definition js_sort :: "('a \<Rightarrow> 'a \<Rightarrow> bool) \<Rightarrow> 'a list \<Rightarrow> 'a list" where
  "js_sort gt xs = foldr (js_insert gt) xs []"

lemma js_sort_simps [simp]:
  "js_sort gt [] = []" "js_sort gt (x # xs) = js_insert gt x (js_sort gt xs)"
  by (simp_all add: js_sort_def)

lemma mset_js_insert: "mset (js_insert gt x xs) = {#x#} + mset xs"
  by (induction xs) auto

lemma mset_js_sort [simp]: "mset (js_sort gt xs) = mset xs"
  by (induction xs) (simp_all add: mset_js_insert)

lemma set_js_insert [simp]: "set (js_insert gt x xs) = insert x (set xs)"
  by (induction xs) auto

lemma set_js_sort [simp]: "set (js_sort gt xs) = set xs"
  by (metis mset_js_sort set_mset_mset)

lemma length_js_sort [simp]: "length (js_sort gt xs) = length xs"
  by (metis mset_js_sort size_mset)

lemma distinct_map_js_sort: "distinct (map f (js_sort gt xs)) = distinct (map f xs)"
  by (metis mset_js_sort distinct_map distinct_count_atmost_1 set_js_sort)

lemma js_sort_key: "js_sort (\<lambda>a b. key b < key a) xs = sort_key key xs"
  for key :: "'a \<Rightarrow> 'b::linorder"
proof -
  have "js_insert (\<lambda>a b. key b < key a) x ys = insort_key key x ys" for x ys
    by (induction ys) (auto simp: not_less)
  then have "js_insert (\<lambda>a b. key b < key a) = insort_key key" by (intro ext)
  then show ?thesis by (simp add: js_sort_def sort_key_def)
qed

text \<open>What a caller of \<open>sort\<close> may rely on: a comparator that is a weak order on the elements sorted.\<close>

locale comparator_on =
  fixes A :: "'a set" and gt :: "'a \<Rightarrow> 'a \<Rightarrow> bool"
  assumes gt_asym: "a \<in> A \<Longrightarrow> b \<in> A \<Longrightarrow> gt a b \<Longrightarrow> \<not> gt b a"
    and gt_neg_trans: "a \<in> A \<Longrightarrow> b \<in> A \<Longrightarrow> c \<in> A \<Longrightarrow> \<not> gt a b \<Longrightarrow> \<not> gt b c \<Longrightarrow> \<not> gt a c"
begin

lemma sorted_js_insert:
  "x \<in> A \<Longrightarrow> set xs \<subseteq> A \<Longrightarrow> sorted_wrt (\<lambda>a b. \<not> gt a b) xs \<Longrightarrow>
   sorted_wrt (\<lambda>a b. \<not> gt a b) (js_insert gt x xs)"
proof (induction xs)
  case Nil
  then show ?case by simp
next
  case (Cons y ys)
  show ?case
  proof (cases "gt x y")
    case True
    with Cons show ?thesis by (auto dest: gt_asym)
  next
    case False
    with Cons.prems have "\<not> gt x z" if "z \<in> set ys" for z
      using gt_neg_trans [of x y z] that by auto
    with False Cons.prems show ?thesis by auto
  qed
qed

lemma sorted_js_sort: "set xs \<subseteq> A \<Longrightarrow> sorted_wrt (\<lambda>a b. \<not> gt a b) (js_sort gt xs)"
  by (induction xs) (simp_all add: sorted_js_insert)

lemma tie_js_insert:
  assumes "x \<in> A" "z \<in> A" "set xs \<subseteq> A" "sorted_wrt (\<lambda>a b. \<not> gt a b) xs"
  shows "filter (\<lambda>y. \<not> gt z y \<and> \<not> gt y z) (js_insert gt x xs) =
    (if \<not> gt z x \<and> \<not> gt x z then [x] else []) @ filter (\<lambda>y. \<not> gt z y \<and> \<not> gt y z) xs"
  using assms
proof (induction xs)
  case Nil
  then show ?case by simp
next
  case (Cons y ys)
  show ?case
  proof (cases "gt x y \<and> \<not> gt z x \<and> \<not> gt x z")
    case True
    then have "gt z y" using Cons.prems gt_neg_trans [of x z y] by auto
    with True Cons show ?thesis by simp
  next
    case False
    with Cons show ?thesis by auto
  qed
qed

lemma stable_js_sort:
  "z \<in> A \<Longrightarrow> set xs \<subseteq> A \<Longrightarrow>
   filter (\<lambda>y. \<not> gt z y \<and> \<not> gt y z) (js_sort gt xs) = filter (\<lambda>y. \<not> gt z y \<and> \<not> gt y z) xs"
  by (induction xs) (simp_all add: tie_js_insert sorted_js_sort)

text \<open>A sorted list is determined by the order of its ties, so every stable sort gives the same list.\<close>

lemma sorted_ties_unique:
  assumes "set xs \<subseteq> A" "set ys \<subseteq> A"
    and "sorted_wrt (\<lambda>a b. \<not> gt a b) xs" "sorted_wrt (\<lambda>a b. \<not> gt a b) ys"
    and "mset xs = mset ys"
    and "\<forall>z\<in>A. filter (\<lambda>y. \<not> gt z y \<and> \<not> gt y z) xs = filter (\<lambda>y. \<not> gt z y \<and> \<not> gt y z) ys"
  shows "xs = ys"
  using assms
proof (induction xs arbitrary: ys)
  case Nil
  then show ?case by simp
next
  case (Cons x xs)
  then obtain y ys' where ys: "ys = y # ys'" by (cases ys) auto
  have refl: "\<not> gt x x" using Cons.prems(1) gt_asym by auto
  have "x \<in> set ys" and "y \<in> set (x # xs)"
    using Cons.prems(5) ys by (metis list.set_intros(1) mset_eq_setD)+
  then have "\<not> gt x y" and "\<not> gt y x"
    using Cons.prems(3,4) ys refl by auto
  moreover have "filter (\<lambda>v. \<not> gt x v \<and> \<not> gt v x) (x # xs) = filter (\<lambda>v. \<not> gt x v \<and> \<not> gt v x) ys"
    using Cons.prems(1,6) by auto
  ultimately have xy: "x = y" using refl ys by simp
  have "xs = ys'"
  proof (rule Cons.IH)
    show "\<forall>z\<in>A. filter (\<lambda>y. \<not> gt z y \<and> \<not> gt y z) xs = filter (\<lambda>y. \<not> gt z y \<and> \<not> gt y z) ys'"
      using Cons.prems(6) ys xy by (auto split: if_splits)
  qed (use Cons.prems ys xy in auto)
  with xy ys show ?case by simp
qed

lemma js_sort_unique:
  assumes "set xs \<subseteq> A" and "sorted_wrt (\<lambda>a b. \<not> gt a b) ys" and "mset ys = mset xs"
    and "\<And>z. z \<in> A \<Longrightarrow>
      filter (\<lambda>y. \<not> gt z y \<and> \<not> gt y z) ys = filter (\<lambda>y. \<not> gt z y \<and> \<not> gt y z) xs"
  shows "js_sort gt xs = ys"
  using assms by (intro sorted_ties_unique) (auto simp: sorted_js_sort stable_js_sort dest: mset_eq_setD)

end

lemma js_insert_map: "js_insert gt (f x) (map f xs) = map f (js_insert (\<lambda>a b. gt (f a) (f b)) x xs)"
  by (induction xs) auto

lemma js_sort_map: "js_sort gt (map f xs) = map f (js_sort (\<lambda>a b. gt (f a) (f b)) xs)"
  by (induction xs) (simp_all add: js_insert_map)

lemma js_insert_cong:
  "\<forall>y\<in>set xs. gt x y = gt' x y \<Longrightarrow> js_insert gt x xs = js_insert gt' x xs"
  by (induction xs) auto

lemma js_sort_cong:
  "\<forall>x\<in>set xs. \<forall>y\<in>set xs. gt x y = gt' x y \<Longrightarrow> js_sort gt xs = js_sort gt' xs"
proof (induction xs)
  case (Cons x xs)
  then show ?case by (simp add: js_insert_cong)
qed simp

section \<open>Choosing the best of several\<close>

text \<open>
  The loop \<open>for (c of xs) if (best === undefined || better(best, c)) best = c\<close>, which the playout
  code writes in several places.
\<close>

fun pick_best_from :: "('a \<Rightarrow> 'a \<Rightarrow> bool) \<Rightarrow> 'a option \<Rightarrow> 'a list \<Rightarrow> 'a option" where
  "pick_best_from better best [] = best"
| "pick_best_from better best (c # cs) =
     pick_best_from better
       (case best of None \<Rightarrow> Some c | Some b \<Rightarrow> if better b c then Some c else Some b) cs"

abbreviation pick_best :: "('a \<Rightarrow> 'a \<Rightarrow> bool) \<Rightarrow> 'a list \<Rightarrow> 'a option" where
  "pick_best better \<equiv> pick_best_from better None"

lemma pick_best_from_in: "pick_best_from better best cs = Some r \<Longrightarrow> Some r = best \<or> r \<in> set cs"
proof (induction cs arbitrary: best)
  case (Cons c cs)
  from Cons.prems Cons.IH show ?case
    by (fastforce split: option.splits if_splits)
qed simp

lemma pick_best_in: "pick_best better cs = Some r \<Longrightarrow> r \<in> set cs"
  by (auto dest: pick_best_from_in)

lemma pick_best_from_None: "pick_best_from better best cs = None \<longleftrightarrow> best = None \<and> cs = []"
  by (induction cs arbitrary: best) (auto split: option.splits)

lemma pick_best_from_snoc:
  "pick_best_from better best (cs @ [c]) =
     (case pick_best_from better best cs of None \<Rightarrow> Some c
      | Some b \<Rightarrow> if better b c then Some c else Some b)"
  by (induction cs arbitrary: best) auto

text \<open>
  \<open>better b c\<close>: the candidate \<open>c\<close> replaces \<open>b\<close>. The contract of such a choice is a strict weak
  order on the candidates.
\<close>

locale choice_on =
  fixes A :: "'a set" and better :: "'a \<Rightarrow> 'a \<Rightarrow> bool"
  assumes better_asym: "a \<in> A \<Longrightarrow> b \<in> A \<Longrightarrow> better a b \<Longrightarrow> \<not> better b a"
    and better_neg_trans: "a \<in> A \<Longrightarrow> b \<in> A \<Longrightarrow> c \<in> A \<Longrightarrow> \<not> better a b \<Longrightarrow> \<not> better b c \<Longrightarrow> \<not> better a c"
begin

lemma better_irrefl: "a \<in> A \<Longrightarrow> \<not> better a a"
  using better_asym by blast

lemma better_trans: "a \<in> A \<Longrightarrow> b \<in> A \<Longrightarrow> c \<in> A \<Longrightarrow> better a b \<Longrightarrow> better b c \<Longrightarrow> better a c"
  using better_asym better_neg_trans by blast

lemma pick_best_from_max:
  "b \<in> A \<Longrightarrow> set cs \<subseteq> A \<Longrightarrow> pick_best_from better (Some b) cs = Some r \<Longrightarrow>
   r \<in> A \<and> \<not> better r b \<and> (\<forall>c\<in>set cs. \<not> better r c)"
proof (induction cs arbitrary: b)
  case Nil
  then show ?case by (simp add: better_irrefl)
next
  case (Cons c cs)
  define b' where "b' = (if better b c then c else b)"
  have b': "b' \<in> A" "\<not> better b' b" "\<not> better b' c"
    using Cons.prems better_irrefl better_asym [of b c] by (auto simp: b'_def)
  have "pick_best_from better (Some b') cs = Some r"
    using Cons.prems(3) by (simp add: b'_def split: if_splits)
  then have r: "r \<in> A" "\<not> better r b'" "\<forall>c\<in>set cs. \<not> better r c"
    using Cons.IH [OF b'(1)] Cons.prems(2) by auto
  then show ?case
    using better_neg_trans [of r b' b] better_neg_trans [of r b' c] b' Cons.prems(1,2) by auto
qed

lemma pick_best_max:
  "set cs \<subseteq> A \<Longrightarrow> pick_best better cs = Some r \<Longrightarrow> r \<in> set cs \<and> (\<forall>c\<in>set cs. \<not> better r c)"
proof (cases cs)
  case (Cons c cs')
  assume "set cs \<subseteq> A" "pick_best better cs = Some r"
  then show ?thesis
    using pick_best_from_max [of c cs' r] pick_best_in [of better cs r] Cons by auto
qed simp

end

end
