(* ===== verification/Sofie_Data.thy ===== *)
theory Sofie_Data
  imports Sofie_Prelude
begin

text \<open>
  The documents of the core data model that the components share: pieces, piece instances, parts,
  part instances and segments, from \<open>packages/corelib/src/dataModel\<close> and the blueprint document
  types they extend. Optional fields are \<open>option\<close>s; an optional boolean that the code only tests
  for truth is a \<open>bool\<close>. Fields that no modelled operation reads (names, notes, private data,
  most of the content) are left out.
\<close>

section \<open>Pieces\<close>

datatype PieceLifespan =
    WithinPart
  | OutOnSegmentChange
  | OutOnSegmentEnd
  | OutOnRundownChange
  | OutOnRundownEnd
  | OutOnShowStyleEnd

datatype IBlueprintPieceType = PieceNormal | PieceInTransition | PieceOutTransition

text \<open>\<open>number | 'now'\<close>\<close>

datatype start_time = Now | At time

text \<open>\<open>a < b\<close> on \<open>number | 'now'\<close>: a comparison with the string is false.\<close>

fun start_lt :: "start_time \<Rightarrow> start_time \<Rightarrow> bool" where
  "start_lt (At a) (At b) = (a < b)"
| "start_lt _ _ = False"

record piece_enable =
  en_start :: start_time
  en_duration :: "int option"

record PieceAbSessionInfo =
  sessionName :: string
  poolName :: string
  ab_optional :: bool

text \<open>The fields of the content of a clip that the start of a hold reads.\<close>

record VTContent =
  fileName :: string
  sourceDuration :: "int option"
  seek :: "int option"

text \<open>What a piece that may be played directly does: it is copied as an ad-lib, or an action of the blueprint runs.\<close>

datatype IBlueprintDirectPlay = DirectPlayAdLibPiece | DirectPlayAdLibAction string

text \<open>\<open>PieceInstancePiece\<close> is \<open>Piece\<close> without the two fields that \<open>Piece\<close> adds below.\<close>

record PieceInstancePiece =
  piece_id :: PieceId
  startPartId :: PartId
  lifespan :: PieceLifespan
  sourceLayerId :: string
  enable :: piece_enable
  virtual :: bool
  pieceType :: IBlueprintPieceType
  prerollDuration :: "int option"
  postrollDuration :: "int option"
  piece_invalid :: bool
  abSessions :: "PieceAbSessionInfo list"  \<comment> \<open>empty when absent\<close>
  extendOnHold :: bool
  piece_content :: "VTContent option"
  toBeQueued :: bool
  allowDirectPlay :: "IBlueprintDirectPlay option"

record Piece = PieceInstancePiece +
  startRundownId :: RundownId
  startSegmentId :: SegmentId

record PieceInstanceInfinite =
  infinitePieceId :: PieceId
  fromHold :: bool
  fromPreviousPart :: bool
  fromPreviousPlayhead :: bool
  infiniteInstanceId :: string
  infiniteInstanceIndex :: int

datatype user_duration = EndRelativeToPart int | EndRelativeToNow int

record PieceInstance =
  pi_id :: PieceInstanceId
  pi_rundownId :: RundownId
  pi_partInstanceId :: PartInstanceId
  isTemporary :: bool
  pi_playlistActivationId :: string
  pi_reset :: bool
  pi_piece :: PieceInstancePiece
  disabled :: bool
  adLibSourceId :: "PieceId option"
  infinite :: "PieceInstanceInfinite option"
  dynamicallyInserted :: "time option"
  userDuration :: "user_duration option"
  pi_reportedStartedPlayback :: "time option"
  pi_reportedStoppedPlayback :: "time option"
  pi_plannedStartedPlayback :: "time option"
  pi_plannedStoppedPlayback :: "time option"

definition getPieceInstanceIdForPiece :: "PartInstanceId \<Rightarrow> PieceId \<Rightarrow> PieceInstanceId" where
  "getPieceInstanceIdForPiece partInstanceId pieceId = partInstanceId @ ''_'' @ pieceId"

definition omitPiecePropertiesForInstance :: "Piece \<Rightarrow> PieceInstancePiece" where
  "omitPiecePropertiesForInstance p = PieceInstancePiece.truncate p"

definition rewrapPieceToInstance ::
  "PieceInstancePiece \<Rightarrow> string \<Rightarrow> RundownId \<Rightarrow> PartInstanceId \<Rightarrow> bool \<Rightarrow> PieceInstance" where
  "rewrapPieceToInstance piece playlistActivationId rundownId partInstanceId isTemp =
     \<lparr>pi_id = getPieceInstanceIdForPiece partInstanceId (piece_id piece),
      pi_rundownId = rundownId,
      pi_partInstanceId = partInstanceId,
      isTemporary = isTemp,
      pi_playlistActivationId = playlistActivationId,
      pi_reset = False,
      pi_piece = piece,
      disabled = False,
      adLibSourceId = None,
      infinite = None,
      dynamicallyInserted = None,
      userDuration = None,
      pi_reportedStartedPlayback = None,
      pi_reportedStoppedPlayback = None,
      pi_plannedStartedPlayback = None,
      pi_plannedStoppedPlayback = None\<rparr>"

definition wrapPieceToInstance ::
  "Piece \<Rightarrow> string \<Rightarrow> PartInstanceId \<Rightarrow> bool \<Rightarrow> PieceInstance" where
  "wrapPieceToInstance piece playlistActivationId partInstanceId isTemp =
     rewrapPieceToInstance (omitPiecePropertiesForInstance piece) playlistActivationId
       (startRundownId piece) partInstanceId (partInstanceId = [] \<or> isTemp)"

section \<open>Parts\<close>

record IBlueprintPartInTransition =
  blockTakeDuration :: int
  previousPartKeepaliveDuration :: int
  partContentDelayDuration :: int

datatype PartHoldMode = HoldModeNone | HoldModeFrom | HoldModeTo

record DBPart =
  part_id :: PartId
  part_rank :: rank
  part_rundownId :: RundownId
  part_segmentId :: SegmentId
  autoNext :: bool
  autoNextOverlap :: "int option"
  inTransition :: "IBlueprintPartInTransition option"
  disableNextInTransition :: bool
  outTransition :: "int option"  \<comment> \<open>the \<open>duration\<close> of the out-transition\<close>
  expectedDuration :: "int option"
  expectedDurationWithTransition :: "int option"
  part_invalid :: bool
  floated :: bool
  untimed :: bool
  part_externalId :: string
  shouldNotifyCurrentPlayingPart :: bool
  holdMode :: "PartHoldMode option"

definition isPartPlayable :: "DBPart \<Rightarrow> bool" where
  "isPartPlayable part = (\<not> part_invalid part \<and> \<not> floated part)"

datatype part_orphaned = AdlibPart | PartDeleted

text \<open>\<open>PartCalculatedTimings\<close> of \<open>playout/timings.ts\<close>; a part instance stores it once taken.\<close>

record PartCalculatedTimings =
  inTransitionStart :: "int option"
  toPartDelay :: int
  toPartPostroll :: int
  fromPartRemaining :: int
  fromPartPostroll :: int

record PartInstanceTimings =
  playOffset :: "time option"
  pit_duration :: "time option"
  pit_take :: "time option"
  setAsNext :: "time option"
  plannedStartedPlayback :: "time option"
  plannedStoppedPlayback :: "time option"
  reportedStartedPlayback :: "time option"
  reportedStoppedPlayback :: "time option"

record DBPartInstance =
  inst_id :: PartInstanceId
  inst_rundownId :: RundownId
  inst_segmentId :: SegmentId
  inst_playlistActivationId :: string
  segmentPlayoutId :: string
  inst_rehearsal :: bool
  inst_reset :: bool
  takeCount :: int
  isTaken :: bool
  inst_timings :: "PartInstanceTimings option"
  inst_part :: DBPart
  partPlayoutTimings :: "PartCalculatedTimings option"
  inst_orphaned :: "part_orphaned option"
  blockTakeUntil :: "time option"
  previousPartEndState :: "string option"  \<comment> \<open>a value of the blueprints\<close>

section \<open>Segments\<close>

datatype SegmentOrphanedReason = SegDeleted | SegHidden | AdlibTesting

record DBSegment =
  seg_id :: SegmentId
  seg_rank :: rank
  seg_externalId :: string
  seg_externalModified :: int
  seg_rundownId :: RundownId
  isHidden :: bool
  seg_orphaned :: "SegmentOrphanedReason option"

text \<open>The identity and show style of a rundown, the only fields the playout logic picks.\<close>

record RundownPick =
  rd_id :: RundownId
  rd_showStyleBaseId :: ShowStyleBaseId

section \<open>Hold\<close>

datatype RundownHoldState = HoldNone | HoldPending | HoldActive | HoldComplete

section \<open>Facts\<close>

lemma start_lt_iff: "start_lt a b \<longleftrightarrow> (\<exists>x y. a = At x \<and> b = At y \<and> x < y)"
  by (cases a; cases b) auto

lemma rewrap_fields [simp]:
  "pi_piece (rewrapPieceToInstance p a r i t) = p"
  "pi_partInstanceId (rewrapPieceToInstance p a r i t) = i"
  "pi_rundownId (rewrapPieceToInstance p a r i t) = r"
  "pi_playlistActivationId (rewrapPieceToInstance p a r i t) = a"
  "isTemporary (rewrapPieceToInstance p a r i t) = t"
  "infinite (rewrapPieceToInstance p a r i t) = None"
  "dynamicallyInserted (rewrapPieceToInstance p a r i t) = None"
  "pi_id (rewrapPieceToInstance p a r i t) = getPieceInstanceIdForPiece i (piece_id p)"
  by (simp_all add: rewrapPieceToInstance_def)

end
