(* ===== verification/Samples.thy ===== *)
theory Samples
  imports Sofie_Data
begin

text \<open>
  Small documents with default fields, from which the concrete inputs of the witnesses are built.
\<close>

definition sample_piece :: PieceInstancePiece where
  "sample_piece = \<lparr>piece_id = ''piece'', startPartId = ''part'', lifespan = WithinPart,
     sourceLayerId = ''cam'', enable = \<lparr>en_start = At 0, en_duration = None\<rparr>, virtual = False,
     pieceType = PieceNormal, prerollDuration = None, postrollDuration = None, piece_invalid = False, abSessions = [],
     extendOnHold = False, piece_content = None, toBeQueued = False, allowDirectPlay = None\<rparr>"

definition sample_planned :: "PieceId \<Rightarrow> PartId \<Rightarrow> PieceLifespan \<Rightarrow> time \<Rightarrow> Piece" where
  "sample_planned i part l t = \<lparr>piece_id = i, startPartId = part, lifespan = l,
     sourceLayerId = ''cam'', enable = \<lparr>en_start = At t, en_duration = None\<rparr>, virtual = False,
     pieceType = PieceNormal, prerollDuration = None, postrollDuration = None, piece_invalid = False, abSessions = [],
     extendOnHold = False, piece_content = None, toBeQueued = False, allowDirectPlay = None, startRundownId = ''rd'', startSegmentId = ''seg''\<rparr>"

definition sample_instance :: "PieceInstancePiece \<Rightarrow> PieceInstance" where
  "sample_instance p = rewrapPieceToInstance p ''activation'' ''rd'' ''inst'' False"

definition sample_part :: "PartId \<Rightarrow> rank \<Rightarrow> SegmentId \<Rightarrow> DBPart" where
  "sample_part i r s = \<lparr>part_id = i, part_rank = r, part_rundownId = ''rd'', part_segmentId = s,
     autoNext = False, autoNextOverlap = None, inTransition = None, disableNextInTransition = False,
     outTransition = None, expectedDuration = None, expectedDurationWithTransition = None,
     part_invalid = False, floated = False, untimed = False, part_externalId = i,
     shouldNotifyCurrentPlayingPart = False, holdMode = None\<rparr>"

definition sample_part_instance :: "PartInstanceId \<Rightarrow> DBPart \<Rightarrow> DBPartInstance" where
  "sample_part_instance i p = \<lparr>inst_id = i, inst_rundownId = part_rundownId p,
     inst_segmentId = part_segmentId p, inst_playlistActivationId = ''activation'',
     segmentPlayoutId = ''sp'', inst_rehearsal = False, inst_reset = False, takeCount = 0,
     isTaken = False, inst_timings = None, inst_part = p, partPlayoutTimings = None,
     inst_orphaned = None, blockTakeUntil = None, previousPartEndState = None\<rparr>"

definition sample_segment :: "SegmentId \<Rightarrow> rank \<Rightarrow> DBSegment" where
  "sample_segment i r = \<lparr>seg_id = i, seg_rank = r, seg_externalId = i, seg_externalModified = 0,
     seg_rundownId = ''rd'', isHidden = False, seg_orphaned = None\<rparr>"

lemmas sample_defs = sample_piece_def sample_planned_def sample_instance_def sample_part_def
  sample_part_instance_def sample_segment_def

end
