(* ===== verification/Part_Timings.thy ===== *)
theory Part_Timings
  imports Sofie_Data Samples
begin

text \<open>
  How two parts overlap when one is taken after the other: the pre-roll and post-roll of a part,
  the in- and out-transitions and the expected duration with the transition taken into account.
  Models \<open>packages/corelib/src/playout/timings.ts\<close>, function by function.
\<close>

section \<open>Pre-roll and post-roll\<close>

text \<open>
  \<open>CalculateTimingsPiece\<close> picks four fields of a piece; a \<open>PieceInstancePiece\<close> has them all, and
  the model passes it whole.
\<close>

type_synonym CalculateTimingsPiece = PieceInstancePiece

fun maxs0 :: "int list \<Rightarrow> int" where
  \<comment> \<open>\<open>Math.max(0, ...xs)\<close>\<close>
  "maxs0 [] = 0"
| "maxs0 (x # xs) = max x (maxs0 xs)"

definition preroll_candidate :: "CalculateTimingsPiece \<Rightarrow> int option" where
  \<comment> \<open>the body of the loop: what the piece pushes to the candidates, if anything\<close>
  "preroll_candidate piece =
     (if pieceType piece \<noteq> PieceNormal then None
      else case en_start (enable piece) of
        Now \<Rightarrow> None
      | At start \<Rightarrow>
          (if truthy_num (prerollDuration piece)
           then Some (max 0 (the (prerollDuration piece) - start)) else None))"

definition calculatePartPreroll :: "CalculateTimingsPiece list \<Rightarrow> int" where
  "calculatePartPreroll pieces = maxs0 (List.map_filter preroll_candidate pieces)"

definition postroll_candidate :: "CalculateTimingsPiece \<Rightarrow> int option" where
  "postroll_candidate piece =
     (if \<not> truthy_num (postrollDuration piece) then None
      else if truthy_num (en_duration (enable piece)) then None
      else postrollDuration piece)"

definition calculatePartPostroll :: "CalculateTimingsPiece list \<Rightarrow> int" where
  "calculatePartPostroll pieces = maxs0 (List.map_filter postroll_candidate pieces)"

section \<open>The overlap of two parts\<close>

record CalculateTimingsFromPart =
  from_autoNext :: bool
  from_autoNextOverlap :: "int option"
  from_disableNextInTransition :: bool
  from_outTransition :: "int option"

definition from_part_of :: "DBPart \<Rightarrow> CalculateTimingsFromPart" where
  "from_part_of p = \<lparr>from_autoNext = autoNext p, from_autoNextOverlap = autoNextOverlap p,
     from_disableNextInTransition = disableNextInTransition p,
     from_outTransition = outTransition p\<rparr>"

text \<open>\<open>Omit<IBlueprintPartInTransition, 'blockTakeDuration'>\<close>: keep-alive and content delay.\<close>

type_synonym transition_pair = "int \<times> int"

definition transition_of :: "IBlueprintPartInTransition \<Rightarrow> transition_pair" where
  "transition_of t = (previousPartKeepaliveDuration t, partContentDelayDuration t)"

definition isInHold :: "RundownHoldState option \<Rightarrow> bool" where
  "isInHold holdState =
     (holdState \<noteq> Some HoldNone \<and> holdState \<noteq> Some HoldComplete \<and> holdState \<noteq> None)"

definition choose_transition ::
  "RundownHoldState option \<Rightarrow> CalculateTimingsFromPart option \<Rightarrow> IBlueprintPartInTransition option
   \<Rightarrow> transition_pair option \<times> bool" where
  \<comment> \<open>\<open>inTransition\<close> and \<open>allowTransitionPiece\<close>\<close>
  "choose_transition holdState fromPart toInTransition =
     (case fromPart of
        None \<Rightarrow> (None, False)
      | Some from \<Rightarrow>
          if isInHold holdState then (None, False)
          else if from_autoNext from \<and> truthy_num (from_autoNextOverlap from)
          then (Some (the (from_autoNextOverlap from), 0), False)
          else if \<not> from_disableNextInTransition from
          then (map_option transition_of toInTransition, True)
          else (None, False))"

definition calculatePartTimings ::
  "RundownHoldState option \<Rightarrow> CalculateTimingsFromPart option \<Rightarrow> CalculateTimingsPiece list option
   \<Rightarrow> IBlueprintPartInTransition option \<Rightarrow> CalculateTimingsPiece list \<Rightarrow> PartCalculatedTimings" where
  "calculatePartTimings holdState fromPart fromPieces toInTransition toPieces =
     (let toPreroll = calculatePartPreroll toPieces;
          fromPostroll = (case (fromPart, fromPieces) of
              (Some _, Some ps) \<Rightarrow> calculatePartPostroll ps | _ \<Rightarrow> 0);
          toPostroll = calculatePartPostroll toPieces;
          (trans, allowPiece) = choose_transition holdState fromPart toInTransition
      in case (trans, fromPart) of
           (Some (keepalive, contentDelay), Some from) \<Rightarrow>
             let outTransitionTime = (case from_outTransition from of
                     Some d \<Rightarrow> d - keepalive | None \<Rightarrow> 0);
                 prerollTime = toPreroll - contentDelay;
                 takeOffset = max 0 (max outTransitionTime prerollTime)
             in \<lparr>inTransitionStart = (if allowPiece then Some takeOffset else None),
                 toPartDelay = takeOffset + contentDelay,
                 toPartPostroll = toPostroll,
                 fromPartRemaining = takeOffset + keepalive + fromPostroll,
                 fromPartPostroll = fromPostroll\<rparr>
         | _ \<Rightarrow>
             let outDuration = (case fromPart of None \<Rightarrow> 0 | Some from \<Rightarrow>
                     nullish (from_outTransition from) 0);
                 takeOffset = max 0 (max outDuration toPreroll)
             in \<lparr>inTransitionStart = None,
                 toPartDelay = takeOffset,
                 toPartPostroll = toPostroll,
                 fromPartRemaining = takeOffset + fromPostroll,
                 fromPartPostroll = fromPostroll\<rparr>)"

definition getPartTimingsOrDefaults ::
  "DBPartInstance \<Rightarrow> PieceInstance list \<Rightarrow> PartCalculatedTimings" where
  "getPartTimingsOrDefaults partInstance pieceInstances =
     (case partPlayoutTimings partInstance of
        Some t \<Rightarrow> t
      | None \<Rightarrow> calculatePartTimings (Some HoldNone) None None
                  (inTransition (inst_part partInstance)) (map pi_piece pieceInstances))"

section \<open>Expected durations\<close>

definition calculateExpectedDurationWithTransition :: "int \<Rightarrow> PartCalculatedTimings \<Rightarrow> int" where
  "calculateExpectedDurationWithTransition rawDuration timings =
     max 0 (rawDuration - (fromPartRemaining timings - toPartDelay timings - fromPartPostroll timings))"

definition empty_from_part :: CalculateTimingsFromPart where
  \<comment> \<open>the literal \<open>{}\<close>\<close>
  "empty_from_part = \<lparr>from_autoNext = False, from_autoNextOverlap = None,
     from_disableNextInTransition = False, from_outTransition = None\<rparr>"

definition calculatePartExpectedDurationWithTransition ::
  "DBPart \<Rightarrow> PieceInstancePiece list \<Rightarrow> int option" where
  "calculatePartExpectedDurationWithTransition part pieces =
     (case expectedDuration part of
        None \<Rightarrow> None
      | Some d \<Rightarrow>
          Some (calculateExpectedDurationWithTransition d
            (calculatePartTimings None (Some empty_from_part) (Some []) (inTransition part) pieces)))"

definition calculatePartInstanceExpectedDurationWithTransition ::
  "DBPartInstance \<Rightarrow> int option" where
  "calculatePartInstanceExpectedDurationWithTransition partInstance =
     (case expectedDuration (inst_part partInstance) of
        None \<Rightarrow> None
      | Some d \<Rightarrow>
          (case partPlayoutTimings partInstance of
             Some t \<Rightarrow> Some (calculateExpectedDurationWithTransition d t)
           | None \<Rightarrow> expectedDurationWithTransition (inst_part partInstance)))"

section \<open>Facts about the two rolls\<close>

lemma maxs0_nonneg [simp]: "0 \<le> maxs0 xs"
  by (induction xs) auto

lemma maxs0_upper: "x \<in> set xs \<Longrightarrow> x \<le> maxs0 xs"
  by (induction xs) auto

lemma maxs0_least: "0 \<le> b \<Longrightarrow> \<forall>x\<in>set xs. x \<le> b \<Longrightarrow> maxs0 xs \<le> b"
  by (induction xs) auto

lemma maxs0_le_iff: "maxs0 xs \<le> b \<longleftrightarrow> 0 \<le> b \<and> (\<forall>x\<in>set xs. x \<le> b)"
  by (metis maxs0_least maxs0_nonneg maxs0_upper order_trans)

lemmas roll_defs = calculatePartPreroll_def calculatePartPostroll_def preroll_candidate_def
  postroll_candidate_def

lemma preroll_nonneg [simp]: "0 \<le> calculatePartPreroll ps"
  by (simp add: calculatePartPreroll_def)

lemma postroll_nonneg [simp]: "0 \<le> calculatePartPostroll ps"
  by (simp add: calculatePartPostroll_def)

lemma preroll_covers:
  assumes "p \<in> set ps" and "pieceType p = PieceNormal" and "en_start (enable p) = At start"
    and "prerollDuration p = Some d" and "d \<noteq> 0"
  shows "d - start \<le> calculatePartPreroll ps"
proof -
  have "preroll_candidate p = Some (max 0 (d - start))"
    using assms by (simp add: preroll_candidate_def)
  then have "max 0 (d - start) \<in> set (List.map_filter preroll_candidate ps)"
    using assms(1) by (force simp: set_map_filter)
  then show ?thesis
    unfolding calculatePartPreroll_def by (auto dest: maxs0_upper)
qed

lemma calculatePartTimings_cases:
  obtains (no_transition) "calculatePartTimings hold from fps tr tps =
      \<lparr>inTransitionStart = None,
       toPartDelay = max 0 (max (case from of None \<Rightarrow> 0 | Some f \<Rightarrow> nullish (from_outTransition f) 0)
         (calculatePartPreroll tps)),
       toPartPostroll = calculatePartPostroll tps,
       fromPartRemaining = max 0 (max (case from of None \<Rightarrow> 0 | Some f \<Rightarrow> nullish (from_outTransition f) 0)
         (calculatePartPreroll tps)) +
         (case (from, fps) of (Some _, Some ps) \<Rightarrow> calculatePartPostroll ps | _ \<Rightarrow> 0),
       fromPartPostroll = (case (from, fps) of (Some _, Some ps) \<Rightarrow> calculatePartPostroll ps | _ \<Rightarrow> 0)\<rparr>"
      and "fst (choose_transition hold from tr) = None"
  | (transition) f keepalive delay allow off where "from = Some f"
      and "choose_transition hold from tr = (Some (keepalive, delay), allow)"
      and "off = max 0 (max (case from_outTransition f of Some d \<Rightarrow> d - keepalive | None \<Rightarrow> 0)
             (calculatePartPreroll tps - delay))"
      and "calculatePartTimings hold from fps tr tps =
      \<lparr>inTransitionStart = (if allow then Some off else None),
       toPartDelay = off + delay,
       toPartPostroll = calculatePartPostroll tps,
       fromPartRemaining = off + keepalive + (case fps of Some ps \<Rightarrow> calculatePartPostroll ps | _ \<Rightarrow> 0),
       fromPartPostroll = (case fps of Some ps \<Rightarrow> calculatePartPostroll ps | _ \<Rightarrow> 0)\<rparr>"
proof (cases "fst (choose_transition hold from tr)")
  case None
  then show thesis
    using that(1) by (cases "choose_transition hold from tr") (simp add: calculatePartTimings_def Let_def)
next
  case (Some pair)
  then obtain f where f: "from = Some f"
    by (auto simp: choose_transition_def split: option.splits)
  obtain keepalive delay where pair: "pair = (keepalive, delay)" by force
  obtain allow where c: "choose_transition hold from tr = (Some (keepalive, delay), allow)"
    using Some pair by (cases "choose_transition hold from tr") auto
  show thesis
    by (rule that(2) [OF f c refl]) (use c f in \<open>simp add: calculatePartTimings_def Let_def\<close>)
qed

section \<open>Properties\<close>

definition effective_transition ::
  "RundownHoldState option \<Rightarrow> CalculateTimingsFromPart option \<Rightarrow> IBlueprintPartInTransition option
   \<Rightarrow> transition_pair" where
  "effective_transition hold from tr = nullish (fst (choose_transition hold from tr)) (0, 0)"

text \<open>
  How the two parts overlap, case by case: for how long the old part is kept, by how much the content of the new one
  is delayed, and whether the piece of an in-transition is shown. There is no overlap without an old part, while hold
  is pending or active, and when the old part forbids a transition; an auto-next with an overlap keeps the old part
  for that long; else the in-transition of the new part decides.
\<close>

definition switch_overlap ::
  "RundownHoldState option \<Rightarrow> CalculateTimingsFromPart option \<Rightarrow> IBlueprintPartInTransition option \<Rightarrow> int \<times> int \<times> bool" where
  "switch_overlap hold from tr =
     (case from of
        None \<Rightarrow> (0, 0, False)
      | Some f \<Rightarrow>
          if hold = Some HoldPending \<or> hold = Some HoldActive then (0, 0, False)
          else if from_autoNext f \<and> from_autoNextOverlap f \<notin> {None, Some 0} then (the (from_autoNextOverlap f), 0, False)
          else if from_disableNextInTransition f then (0, 0, False)
          else (case tr of None \<Rightarrow> (0, 0, False)
            | Some t \<Rightarrow> (previousPartKeepaliveDuration t, partContentDelayDuration t, True)))"

definition leaves_room ::
  "CalculateTimingsFromPart option \<Rightarrow> int \<Rightarrow> int \<Rightarrow> CalculateTimingsPiece list \<Rightarrow> int \<Rightarrow> bool" where
  \<comment> \<open>an offset of the switch: each normal piece with a start has its pre-roll before it, and the out-transition ends\<close>
  "leaves_room from keep delay tps off =
     (0 \<le> off \<and> 0 \<le> off + delay
      \<and> (\<forall>p\<in>set tps. \<forall>s d. pieceType p = PieceNormal \<longrightarrow> en_start (enable p) = At s
           \<longrightarrow> prerollDuration p = Some d \<longrightarrow> d \<noteq> 0 \<longrightarrow> d \<le> off + delay + s)
      \<and> (\<forall>f d. from = Some f \<longrightarrow> from_outTransition f = Some d \<longrightarrow> d \<le> off + keep))"

definition covers_postroll :: "CalculateTimingsPiece list \<Rightarrow> int \<Rightarrow> bool" where
  \<comment> \<open>as long as the post-roll of each piece that does not end by itself\<close>
  "covers_postroll ps n =
     (0 \<le> n \<and> (\<forall>p\<in>set ps. \<forall>d. postrollDuration p = Some d \<longrightarrow> en_duration (enable p) \<in> {None, Some 0} \<longrightarrow> d \<le> n))"

definition is_least :: "(int \<Rightarrow> bool) \<Rightarrow> int \<Rightarrow> bool" where
  "is_least P x = (P x \<and> (\<forall>y. P y \<longrightarrow> x \<le> y))"

lemma is_least_bound: "(\<And>y. P y \<longleftrightarrow> x \<le> y) \<Longrightarrow> is_least P x"
  by (simp add: is_least_def)

lemma preroll_le_iff:
  "calculatePartPreroll ps \<le> x \<longleftrightarrow> 0 \<le> x \<and> (\<forall>p\<in>set ps. \<forall>s d. pieceType p = PieceNormal \<longrightarrow> en_start (enable p) = At s
     \<longrightarrow> prerollDuration p = Some d \<longrightarrow> d \<noteq> 0 \<longrightarrow> d \<le> x + s)"
proof -
  have "(\<forall>c. preroll_candidate p = Some c \<longrightarrow> c \<le> x) \<longleftrightarrow> (\<forall>s d. pieceType p = PieceNormal \<longrightarrow> en_start (enable p) = At s
     \<longrightarrow> prerollDuration p = Some d \<longrightarrow> d \<noteq> 0 \<longrightarrow> d \<le> x + s)" if "0 \<le> x" for p
    using that by (cases "prerollDuration p"; cases "en_start (enable p)")
      (auto simp: preroll_candidate_def truthy_num_def)
  then show ?thesis
    unfolding calculatePartPreroll_def maxs0_le_iff by (fastforce simp: set_map_filter)
qed

lemma postroll_le_iff: "calculatePartPostroll ps \<le> x \<longleftrightarrow> covers_postroll ps x"
proof -
  have "(\<forall>c. postroll_candidate p = Some c \<longrightarrow> c \<le> x) \<longleftrightarrow>
      (\<forall>d. postrollDuration p = Some d \<longrightarrow> en_duration (enable p) \<in> {None, Some 0} \<longrightarrow> d \<le> x)" if "0 \<le> x" for p
    using that by (cases "postrollDuration p"; cases "en_duration (enable p)")
      (auto simp: postroll_candidate_def truthy_num_def)
  then show ?thesis
    unfolding calculatePartPostroll_def maxs0_le_iff covers_postroll_def by (fastforce simp: set_map_filter)
qed

lemma leaves_room_iff:
  "leaves_room from keep delay tps off \<longleftrightarrow>
     0 \<le> off \<and> calculatePartPreroll tps - delay \<le> off
     \<and> (\<forall>f d. from = Some f \<longrightarrow> from_outTransition f = Some d \<longrightarrow> d - keep \<le> off)"
  using preroll_le_iff [of tps "off + delay"] by (auto simp: leaves_room_def)

lemma choose_transition_overlap:
  "switch_overlap hold from tr =
     (case choose_transition hold from tr of (None, _) \<Rightarrow> (0, 0, False) | (Some (keep, delay), allow) \<Rightarrow> (keep, delay, allow))"
proof -
  have "isInHold hold \<longleftrightarrow> hold = Some HoldPending \<or> hold = Some HoldActive"
    unfolding isInHold_def by (cases hold; cases "the hold") auto
  moreover have "truthy_num x \<longleftrightarrow> x \<notin> {None, Some 0}" for x :: "int option"
    by (cases x) (simp_all add: truthy_num_def)
  ultimately have holds: "isInHold hold \<longleftrightarrow> hold = Some HoldPending \<or> hold = Some HoldActive"
      "truthy_num x \<longleftrightarrow> x \<notin> {None, Some 0}" for x :: "int option" by blast+
  show ?thesis
  proof (cases "from")
    case (Some f)
    then show ?thesis unfolding switch_overlap_def choose_transition_def holds
      by (cases tr; cases "from_autoNextOverlap f") (simp_all add: transition_of_def)
  qed (simp add: switch_overlap_def choose_transition_def)
qed

lemma timings_overlap:
  "fromPartRemaining (calculatePartTimings hold from fps tr tps)
     - toPartDelay (calculatePartTimings hold from fps tr tps)
     - fromPartPostroll (calculatePartTimings hold from fps tr tps) =
   fst (effective_transition hold from tr) - snd (effective_transition hold from tr)"
  by (cases rule: calculatePartTimings_cases [of hold "from" fps tr tps])
    (simp_all add: effective_transition_def)

text \<open>
  C28. The timings of a take are optimal: the offset chosen for the switch is the least that is non-negative and
  leaves room for the pre-roll of every normal piece of the new part that has a start, and for the out-transition of
  the old one. The piece of an in-transition starts at that offset. The post-rolls are the least that cover every
  piece with no duration, and the old part is kept for the offset, the overlap of the two parts and its post-roll.
\<close>

theorem calculatePartTimings_optimal:
  "let t = calculatePartTimings hold from fps tr tps;
       (keep, delay, piece) = switch_overlap hold from tr;
       off = toPartDelay t - delay
   in is_least (leaves_room from keep delay tps) off
      \<and> inTransitionStart t = (if piece then Some off else None)
      \<and> is_least (covers_postroll tps) (toPartPostroll t)
      \<and> is_least (covers_postroll (if from = None then [] else nullish fps [])) (fromPartPostroll t)
      \<and> fromPartRemaining t = off + keep + fromPartPostroll t"
proof -
  have post: "is_least (covers_postroll ps) (calculatePartPostroll ps)" for ps
    by (rule is_least_bound) (simp add: postroll_le_iff)
  have zero: "calculatePartPostroll [] = 0" by (simp add: calculatePartPostroll_def)
  show ?thesis
  proof (cases rule: calculatePartTimings_cases [of hold "from" fps tr tps])
    case no_transition
    then have o: "switch_overlap hold from tr = (0, 0, False)"
      by (cases "choose_transition hold from tr") (simp add: choose_transition_overlap)
    have "is_least (leaves_room from 0 0 tps)
        (max 0 (max (case from of None \<Rightarrow> 0 | Some f \<Rightarrow> nullish (from_outTransition f) 0) (calculatePartPreroll tps)))"
      by (rule is_least_bound) (auto simp: leaves_room_iff nullish_def split: option.splits)
    with post [of "[]"] post show ?thesis
      unfolding Let_def o no_transition(1) by (cases "from"; cases fps) (simp_all add: zero)
  next
    case (transition f keep delay allow off)
    then have o: "switch_overlap hold from tr = (keep, delay, allow)" by (simp add: choose_transition_overlap)
    have "is_least (leaves_room from keep delay tps) off"
      by (rule is_least_bound) (auto simp: leaves_room_iff transition(1,3) split: option.splits)
    with post [of "[]"] post transition(1) show ?thesis
      unfolding Let_def o transition(4) by (cases fps) (simp_all add: zero)
  qed
qed

text \<open>
  The expected duration of a part with its transition does not depend on its pieces: it is the
  expected duration less the time the in-transition overlaps with the part before (the keep-alive
  less the content delay), and never negative.
\<close>

theorem expectedDurationWithTransition_eq:
  "calculatePartExpectedDurationWithTransition part pieces =
     map_option (\<lambda>d. max 0 (d - (case inTransition part of None \<Rightarrow> 0
       | Some t \<Rightarrow> previousPartKeepaliveDuration t - partContentDelayDuration t)))
     (expectedDuration part)"
proof -
  have "effective_transition None (Some empty_from_part) (inTransition part) =
      (case inTransition part of None \<Rightarrow> (0, 0) | Some t \<Rightarrow> transition_of t)"
    by (simp add: choose_transition_def effective_transition_def empty_from_part_def isInHold_def
        nullish_def split: option.split)
  then show ?thesis
    by (simp add: calculatePartExpectedDurationWithTransition_def timings_overlap
        calculateExpectedDurationWithTransition_def transition_of_def split: option.split)
qed

text \<open>The properties applied at concrete inputs.\<close>

definition ex_from :: CalculateTimingsFromPart where
  "ex_from = \<lparr>from_autoNext = False, from_autoNextOverlap = None,
     from_disableNextInTransition = False, from_outTransition = Some 500\<rparr>"

definition ex_piece :: PieceInstancePiece where
  "ex_piece = sample_piece\<lparr>enable := \<lparr>en_start = At 100, en_duration = None\<rparr>,
     prerollDuration := Some 400\<rparr>"

theorem calculatePartTimings_optimal_witness:
  "toPartDelay (calculatePartTimings None (Some ex_from) (Some []) None [ex_piece]) = 500
   \<and> is_least (leaves_room (Some ex_from) 0 0 [ex_piece]) 500"
proof -
  have t: "toPartDelay (calculatePartTimings None (Some ex_from) (Some []) None [ex_piece]) = 500"
    by (simp add: calculatePartTimings_def choose_transition_def isInHold_def ex_from_def ex_piece_def
        sample_piece_def roll_defs Let_def)
  have o: "switch_overlap None (Some ex_from) None = (0, 0, False)"
    by (simp add: switch_overlap_def ex_from_def)
  show ?thesis
    using calculatePartTimings_optimal [of None "Some ex_from" "Some []" None "[ex_piece]"] t
    by (simp add: Let_def o)
qed

end
