(* ===== verification/Playlist_Order.thy ===== *)
theory Playlist_Order
  imports Sofie_Data Samples
begin

text \<open>
  The order of a playlist: the timing modes of a playlist and the order of rundowns by their timing
  (\<open>packages/corelib/src/playout/rundownTiming.ts\<close>), and the order of segments, parts, part
  instances and rundowns (\<open>packages/corelib/src/playout/playlist.ts\<close>).
\<close>

section \<open>Playlist timing\<close>

datatype RundownPlaylistTiming =
    TimingNone (none_expectedDuration: "int option")
  | TimingForward (fwd_expectedStart: time) (fwd_expectedDuration: "int option")
      (fwd_expectedEnd: "time option")
  | TimingBack (back_expectedStart: "time option") (back_expectedDuration: "int option")
      (back_expectedEnd: time)

fun getExpectedStart :: "RundownPlaylistTiming \<Rightarrow> time option" where
  "getExpectedStart (TimingForward start _ _) = Some start"
| "getExpectedStart (TimingBack start dur end) =
     (if truthy_num start then start
      else if truthy_num dur then Some (end - the dur) else None)"
| "getExpectedStart (TimingNone _) = None"

fun getExpectedEnd :: "RundownPlaylistTiming \<Rightarrow> time option" where
  "getExpectedEnd (TimingBack _ _ end) = Some end"
| "getExpectedEnd (TimingForward start dur end) =
     (if truthy_num end then end
      else if truthy_num dur then Some (start + the dur) else None)"
| "getExpectedEnd (TimingNone _) = None"

fun getExpectedDuration :: "RundownPlaylistTiming \<Rightarrow> int option" where
  "getExpectedDuration (TimingForward _ dur _) = dur"
| "getExpectedDuration (TimingBack _ dur _) = dur"
| "getExpectedDuration (TimingNone _) = None"

fun sortTimings :: "RundownPlaylistTiming \<Rightarrow> RundownPlaylistTiming \<Rightarrow> int" where
  "sortTimings (TimingForward a _ _) (TimingForward b _ _) = a - b"
| "sortTimings (TimingForward _ _ _) _ = -1"
| "sortTimings _ (TimingForward _ _ _) = 1"
| "sortTimings (TimingBack _ _ a) (TimingBack _ _ b) = a - b"
| "sortTimings (TimingBack _ _ _) _ = -1"
| "sortTimings _ (TimingBack _ _ _) = 1"
| "sortTimings _ _ = 0"

definition timing_key :: "RundownPlaylistTiming \<Rightarrow> int \<times> time" where
  "timing_key t = (case t of TimingForward s _ _ \<Rightarrow> (0, s) | TimingBack _ _ e \<Rightarrow> (1, e)
     | TimingNone _ \<Rightarrow> (2, 0))"

lemma sortTimings_key:
  "0 < sortTimings a b \<longleftrightarrow> timing_key b < timing_key a"
  "sortTimings a b < 0 \<longleftrightarrow> timing_key a < timing_key b"
  by (induction a b rule: sortTimings.induct) (auto simp: timing_key_def less_prod_def)

interpretation timings: comparator_on UNIV "\<lambda>a b. 0 < sortTimings a b"
  by unfold_locales (auto simp: sortTimings_key)

section \<open>Segments and parts\<close>

text \<open>
  The loops fill a \<open>Map\<close> from id to position; a position of an unknown id is
  \<open>Number.POSITIVE_INFINITY\<close>. \<open>pos_gt\<close> is the sign of the difference of two such positions
  (\<open>Infinity - Infinity\<close> is \<open>NaN\<close>, which \<open>sort\<close> takes as 0).
\<close>

fun rank_lookup_from :: "nat \<Rightarrow> string list \<Rightarrow> (string, nat) js_map \<Rightarrow> (string, nat) js_map" where
  "rank_lookup_from i [] m = m"
| "rank_lookup_from i (x # xs) m = rank_lookup_from (Suc i) xs (map_set x i m)"

abbreviation rank_lookup :: "string list \<Rightarrow> (string, nat) js_map" where
  "rank_lookup xs \<equiv> rank_lookup_from 0 xs []"

fun pos_gt :: "nat option \<Rightarrow> nat option \<Rightarrow> bool" where
  "pos_gt None (Some _) = True"
| "pos_gt (Some a) (Some b) = (b < a)"
| "pos_gt _ _ = False"

definition segment_gt :: "RundownId list \<Rightarrow> DBSegment \<Rightarrow> DBSegment \<Rightarrow> bool" where
  "segment_gt rundownIdsInOrder a b =
     (if seg_rundownId a = seg_rundownId b then seg_rank b < seg_rank a
      else pos_gt (map_get (rank_lookup rundownIdsInOrder) (seg_rundownId a))
                  (map_get (rank_lookup rundownIdsInOrder) (seg_rundownId b)))"

definition sortSegmentsInRundowns :: "DBSegment list \<Rightarrow> RundownId list \<Rightarrow> DBSegment list" where
  "sortSegmentsInRundowns segments rundownIdsInOrder = js_sort (segment_gt rundownIdsInOrder) segments"

definition part_gt :: "SegmentId list \<Rightarrow> DBPart \<Rightarrow> DBPart \<Rightarrow> bool" where
  "part_gt segmentIds a b =
     (if part_segmentId a = part_segmentId b then part_rank b < part_rank a
      else pos_gt (map_get (rank_lookup segmentIds) (part_segmentId a))
                  (map_get (rank_lookup segmentIds) (part_segmentId b)))"

definition sortPartsInSortedSegments :: "DBPart list \<Rightarrow> DBSegment list \<Rightarrow> DBPart list" where
  "sortPartsInSortedSegments parts sortedSegments = js_sort (part_gt (map seg_id sortedSegments)) parts"

definition sortPartsInSegments ::
  "DBPart list \<Rightarrow> RundownId list \<Rightarrow> DBSegment list \<Rightarrow> DBPart list" where
  "sortPartsInSegments parts rundownIdsInOrder segments =
     sortPartsInSortedSegments parts (sortSegmentsInRundowns segments rundownIdsInOrder)"

definition part_instance_gt :: "SegmentId list \<Rightarrow> DBPartInstance \<Rightarrow> DBPartInstance \<Rightarrow> bool" where
  "part_instance_gt segmentIds a b =
     (if inst_segmentId a = inst_segmentId b
      then (if part_rank (inst_part a) \<noteq> part_rank (inst_part b)
            then part_rank (inst_part b) < part_rank (inst_part a)
            else takeCount b < takeCount a)
      else pos_gt (map_get (rank_lookup segmentIds) (inst_segmentId a))
                  (map_get (rank_lookup segmentIds) (inst_segmentId b)))"

definition sortPartInstancesInSortedSegments ::
  "DBPartInstance list \<Rightarrow> DBSegment list \<Rightarrow> DBPartInstance list" where
  "sortPartInstancesInSortedSegments partInstances sortedSegments =
     js_sort (part_instance_gt (map seg_id sortedSegments)) partInstances"

section \<open>Rundowns\<close>

text \<open>
  \<open>localeCompare\<close> depends on the collation of the host and is a parameter: \<open>lc a b\<close> is
  \<open>a.localeCompare(b)\<close>. The properties that need it assume what the standard documents, that its
  sign is a consistent comparison.
\<close>

definition sortRundownIDsInPlaylist ::
  "(string \<Rightarrow> string \<Rightarrow> int) \<Rightarrow> RundownId list \<Rightarrow> RundownId list \<Rightarrow> RundownId list" where
  "sortRundownIDsInPlaylist lc sortedPossibleIds unsortedRundownIds =
     (let sortedVerifiedExisting = filter (\<lambda>i. i \<in> set unsortedRundownIds) sortedPossibleIds;
          missingIds = js_sort (\<lambda>a b. 0 < lc a b)
            (filter (\<lambda>i. i \<notin> set sortedVerifiedExisting) unsortedRundownIds)
      in sortedVerifiedExisting @ missingIds)"

definition rundown_gt ::
  "(string \<Rightarrow> string \<Rightarrow> int) \<Rightarrow> RundownId list \<Rightarrow> RundownId \<Rightarrow> RundownId \<Rightarrow> bool" where
  "rundown_gt lc sortedPossibleIds a b =
     (case (index_of sortedPossibleIds a, index_of sortedPossibleIds b) of
        (None, None) \<Rightarrow> 0 < lc a b
      | (None, Some _) \<Rightarrow> True
      | (Some _, None) \<Rightarrow> False
      | (Some i, Some j) \<Rightarrow> j < i)"

definition sortRundownsWithinPlaylist ::
  "(string \<Rightarrow> string \<Rightarrow> int) \<Rightarrow> RundownId list \<Rightarrow> 'a RundownPick_scheme list \<Rightarrow> 'a RundownPick_scheme list" where
  "sortRundownsWithinPlaylist lc sortedPossibleIds unsortedRundowns =
     js_sort (\<lambda>a b. rundown_gt lc sortedPossibleIds (rd_id a) (rd_id b)) unsortedRundowns"

section \<open>Positions\<close>

lemma rank_lookup_other: "k \<notin> set xs \<Longrightarrow> map_get (rank_lookup_from i xs m) k = map_get m k"
  by (induction xs arbitrary: i m) auto

lemma rank_lookup_known:
  "k \<in> set xs \<Longrightarrow> \<exists>j<length xs. map_get (rank_lookup_from i xs m) k = Some (i + j) \<and> xs ! j = k"
proof (induction xs arbitrary: i m)
  case Nil
  then show ?case by simp
next
  case (Cons x xs)
  show ?case
  proof (cases "k \<in> set xs")
    case True
    then obtain j where "j < length xs"
      and "map_get (rank_lookup_from (Suc i) xs (map_set x i m)) k = Some (Suc i + j)" "xs ! j = k"
      using Cons.IH by blast
    then show ?thesis by (intro exI [of _ "Suc j"]) simp
  next
    case False
    with Cons.prems show ?thesis by (simp add: rank_lookup_other)
  qed
qed

lemma rank_lookup_distinct:
  assumes "distinct xs"
  shows "map_get (rank_lookup xs) k = index_of xs k"
proof (cases "k \<in> set xs")
  case True
  then obtain j where "j < length xs" "map_get (rank_lookup xs) k = Some j" "xs ! j = k"
    using rank_lookup_known [of k xs 0 "[]"] by auto
  with assms show ?thesis by (metis index_of_distinct)
next
  case False
  then show ?thesis by (metis rank_lookup_other index_of_None map_of.simps(1))
qed

lemma pos_gt_known:
  assumes "distinct xs" and "k \<in> set xs" and "l \<in> set xs"
  shows "pos_gt (map_get (rank_lookup xs) k) (map_get (rank_lookup xs) l) \<longleftrightarrow>
    the (index_of xs l) < the (index_of xs k)"
  using assms by (cases "index_of xs k"; cases "index_of xs l")
    (auto simp: rank_lookup_distinct index_of_None)

lemma index_known_inj:
  assumes "k \<in> set xs" and "l \<in> set xs"
  shows "the (index_of xs k) = the (index_of xs l) \<longleftrightarrow> k = l"
proof -
  obtain i j where "index_of xs k = Some i" "index_of xs l = Some j"
    using assms by (cases "index_of xs k"; cases "index_of xs l") (auto simp: index_of_None)
  then show ?thesis by (auto dest: index_of_inj)
qed

text \<open>The keys that the comparators compare, where every id is known.\<close>

definition segment_key :: "RundownId list \<Rightarrow> DBSegment \<Rightarrow> nat \<times> rank" where
  "segment_key rds s = (the (index_of rds (seg_rundownId s)), seg_rank s)"

definition part_key :: "SegmentId list \<Rightarrow> DBPart \<Rightarrow> nat \<times> rank" where
  "part_key segs p = (the (index_of segs (part_segmentId p)), part_rank p)"

definition part_instance_key :: "SegmentId list \<Rightarrow> DBPartInstance \<Rightarrow> nat \<times> rank \<times> int" where
  "part_instance_key segs p =
     (the (index_of segs (inst_segmentId p)), part_rank (inst_part p), takeCount p)"

lemma segment_gt_key:
  assumes "distinct rds" and "seg_rundownId a \<in> set rds" and "seg_rundownId b \<in> set rds"
  shows "segment_gt rds a b \<longleftrightarrow> segment_key rds b < segment_key rds a"
  using assms index_known_inj [OF assms(2,3)]
  by (auto simp: segment_gt_def segment_key_def pos_gt_known less_prod_def)

lemma part_gt_key:
  assumes "distinct segs" and "part_segmentId a \<in> set segs" and "part_segmentId b \<in> set segs"
  shows "part_gt segs a b \<longleftrightarrow> part_key segs b < part_key segs a"
  using assms index_known_inj [OF assms(2,3)]
  by (auto simp: part_gt_def part_key_def pos_gt_known less_prod_def)

lemma part_instance_gt_key:
  assumes "distinct segs" and "inst_segmentId a \<in> set segs" and "inst_segmentId b \<in> set segs"
  shows "part_instance_gt segs a b \<longleftrightarrow> part_instance_key segs b < part_instance_key segs a"
  using assms index_known_inj [OF assms(2,3)]
  by (auto simp: part_instance_gt_def part_instance_key_def pos_gt_known less_prod_def)

lemma sortSegments_key:
  assumes "distinct rds" and "seg_rundownId ` set segs \<subseteq> set rds"
  shows "sortSegmentsInRundowns segs rds = sort_key (segment_key rds) segs"
  unfolding sortSegmentsInRundowns_def js_sort_key [symmetric]
  using assms by (intro js_sort_cong) (auto simp: segment_gt_key image_subset_iff)

lemma sortParts_key:
  assumes "distinct (map seg_id segs)" and "part_segmentId ` set parts \<subseteq> seg_id ` set segs"
  shows "sortPartsInSortedSegments parts segs = sort_key (part_key (map seg_id segs)) parts"
  unfolding sortPartsInSortedSegments_def js_sort_key [symmetric]
  using assms by (intro js_sort_cong) (auto simp: part_gt_key image_subset_iff)

lemma set_sortSegments [simp]: "set (sortSegmentsInRundowns segs rds) = set segs"
  by (simp add: sortSegmentsInRundowns_def)

lemma distinct_sortSegments:
  "distinct (map seg_id (sortSegmentsInRundowns segs rds)) = distinct (map seg_id segs)"
  by (simp add: sortSegmentsInRundowns_def distinct_map_js_sort)

section \<open>Properties\<close>

text \<open>
  C29. Sorting the parts of a playlist orders them by the position of their segment and then by
  their rank, the segments being ordered by the position of their rundown and then by rank; parts
  and segments that tie keep their order. The comparators of the code thus implement sorting by
  these keys, wherever the segment of each part and the rundown of each segment are known.
\<close>

theorem sortPartsInSegments_by_keys:
  assumes "distinct rds" and "distinct (map seg_id segs)"
    and "seg_rundownId ` set segs \<subseteq> set rds"
    and "part_segmentId ` set parts \<subseteq> seg_id ` set segs"
  shows "sortPartsInSegments parts rds segs =
    sort_key (part_key (map seg_id (sort_key (segment_key rds) segs))) parts"
proof -
  have "sortPartsInSegments parts rds segs =
      sort_key (part_key (map seg_id (sortSegmentsInRundowns segs rds))) parts"
    unfolding sortPartsInSegments_def
    by (rule sortParts_key) (use assms in \<open>simp_all add: distinct_sortSegments\<close>)
  with assms show ?thesis by (simp add: sortSegments_key)
qed

theorem sortPartsInSegments_by_keys_witness:
  "map part_id (sortPartsInSegments [sample_part ''p1'' 0 ''s1'', sample_part ''p2'' 1 ''s2'', sample_part ''p3'' 0 ''s2'']
     [''rd''] [sample_segment ''s1'' 2, sample_segment ''s2'' 1]) = [''p3'', ''p2'', ''p1'']"
proof -
  have segs: "sort_key (segment_key [''rd'']) [sample_segment ''s1'' 2, sample_segment ''s2'' 1] =
      [sample_segment ''s2'' 1, sample_segment ''s1'' 2]"
    by (simp add: segment_key_def sample_segment_def index_of_def)
  show ?thesis
    by (subst sortPartsInSegments_by_keys, simp_all only: segs)
      (simp_all add: sample_part_def sample_segment_def part_key_def index_of_def)
qed

lemma rundown_gt_wf:
  assumes "comparator_on UNIV (\<lambda>a b. 0 < lc a b)"
  shows "comparator_on UNIV (rundown_gt lc ids)"
proof -
  have asym: "0 < lc a b \<Longrightarrow> \<not> 0 < lc b a"
    and trans: "\<not> 0 < lc a b \<Longrightarrow> \<not> 0 < lc b c \<Longrightarrow> \<not> 0 < lc a c" for a b c
    using comparator_on.gt_asym [OF assms] comparator_on.gt_neg_trans [OF assms] by blast+
  show ?thesis
  proof
    fix a b
    assume "rundown_gt lc ids a b"
    then show "\<not> rundown_gt lc ids b a"
      by (auto simp: rundown_gt_def dest: asym split: option.splits)
  next
    fix a b c
    assume "\<not> rundown_gt lc ids a b" "\<not> rundown_gt lc ids b c"
    then show "\<not> rundown_gt lc ids a c"
      using trans [of a b c] by (simp add: rundown_gt_def split: option.splits)
  qed
qed

lemma rundown_ids_sorted:
  assumes "comparator_on UNIV (\<lambda>a b. 0 < lc a b)" and "distinct ids"
  shows "sorted_wrt (\<lambda>a b. \<not> rundown_gt lc ids a b) (sortRundownIDsInPlaylist lc ids rds)"
proof -
  define known where "known = filter (\<lambda>i. i \<in> set rds) ids"
  define missing where "missing = filter (\<lambda>i. i \<notin> set known) rds"
  have split: "sortRundownIDsInPlaylist lc ids rds = known @ js_sort (\<lambda>a b. 0 < lc a b) missing"
    by (simp add: sortRundownIDsInPlaylist_def known_def missing_def Let_def)
  have none: "index_of ids i = None" if "i \<in> set missing" for i
    using that by (auto simp: index_of_None missing_def known_def)
  have "sorted_wrt (\<lambda>a b. \<not> 0 < lc a b) (js_sort (\<lambda>a b. 0 < lc a b) missing)"
    by (rule comparator_on.sorted_js_sort [OF assms(1)]) simp
  then have "sorted_wrt (\<lambda>a b. \<not> rundown_gt lc ids a b) (js_sort (\<lambda>a b. 0 < lc a b) missing)"
    by (rule sorted_wrt_mono_rel [rotated]) (simp add: rundown_gt_def none)
  moreover have "sorted_wrt (\<lambda>a b. \<not> rundown_gt lc ids a b) known"
  proof -
    have "\<not> rundown_gt lc ids (ids ! i) (ids ! j)" if "i < j" "j < length ids" for i j
      using that index_of_distinct [OF assms(2), of i] index_of_distinct [OF assms(2), of j]
      by (simp add: rundown_gt_def)
    then have "sorted_wrt (\<lambda>a b. \<not> rundown_gt lc ids a b) ids"
      by (simp add: sorted_wrt_iff_nth_less)
    then show ?thesis unfolding known_def by (rule sorted_wrt_filter)
  qed
  moreover have "\<not> rundown_gt lc ids a b" if "a \<in> set known" "b \<in> set missing" for a b
    using that none [of b] index_of_None [of ids a]
    by (auto simp: rundown_gt_def known_def split: option.splits)
  ultimately show ?thesis by (simp add: split sorted_wrt_append)
qed

lemma filter_eq_distinct: "distinct xs \<Longrightarrow> filter (\<lambda>y. y = z) xs = (if z \<in> set xs then [z] else [])"
  by (induction xs) auto

lemma rundown_gt_ties:
  "\<not> rundown_gt lc ids z y \<and> \<not> rundown_gt lc ids y z \<longleftrightarrow>
   (if z \<in> set ids then y = z else y \<notin> set ids \<and> \<not> 0 < lc z y \<and> \<not> 0 < lc y z)"
proof -
  have "index_of ids y = index_of ids z \<longleftrightarrow> y = z" if "z \<in> set ids"
    using that index_of_inj [of ids] by (cases "index_of ids z") (auto simp: index_of_None)
  then show ?thesis
    using index_of_None [of ids y] index_of_None [of ids z]
    by (cases "index_of ids z"; cases "index_of ids y") (auto simp: rundown_gt_def)
qed

lemma mset_rundown_ids:
  assumes "distinct ids" and "distinct rids"
  shows "mset (sortRundownIDsInPlaylist lc ids rids) = mset rids"
proof -
  have "filter (\<lambda>i. i \<notin> set (filter (\<lambda>i. i \<in> set rids) ids)) rids = filter (\<lambda>i. i \<notin> set ids) rids"
    by (rule filter_cong) auto
  moreover have "mset (filter (\<lambda>i. i \<in> set rids) ids) = mset (filter (\<lambda>i. i \<in> set ids) rids)"
    by (rule iffD1 [OF set_eq_iff_mset_eq_distinct]) (use assms in auto)
  ultimately show ?thesis
    by (simp add: sortRundownIDsInPlaylist_def Let_def add.commute)
qed

lemma rundown_ids_ties:
  assumes "comparator_on UNIV (\<lambda>a b. 0 < lc a b)" and "distinct ids" and "distinct rids"
  shows "filter (\<lambda>y. \<not> rundown_gt lc ids z y \<and> \<not> rundown_gt lc ids y z)
           (sortRundownIDsInPlaylist lc ids rids) =
         filter (\<lambda>y. \<not> rundown_gt lc ids z y \<and> \<not> rundown_gt lc ids y z) rids"
proof (cases "z \<in> set ids")
  case True
  have "mset (sortRundownIDsInPlaylist lc ids rids) = mset rids"
    using assms(2,3) by (rule mset_rundown_ids)
  then have "distinct (sortRundownIDsInPlaylist lc ids rids)"
    and "set (sortRundownIDsInPlaylist lc ids rids) = set rids"
    using assms(3) by (metis mset_eq_imp_distinct_iff, metis mset_eq_setD)
  with True show ?thesis
    using assms(3) by (simp add: rundown_gt_ties filter_eq_distinct)
next
  case False
  define missing where "missing = filter (\<lambda>i. i \<notin> set ids) rids"
  define tie where "tie = (\<lambda>y. \<not> 0 < lc z y \<and> \<not> 0 < lc y z)"
  have m: "filter (\<lambda>i. i \<in> set ids \<longrightarrow> i \<notin> set rids) rids = missing"
    unfolding missing_def by (rule filter_cong) auto
  have "filter (\<lambda>y. y \<notin> set ids \<and> tie y) (js_sort (\<lambda>a b. 0 < lc a b) missing) =
      filter tie (js_sort (\<lambda>a b. 0 < lc a b) missing)"
    by (rule filter_cong) (auto simp: missing_def)
  also have "\<dots> = filter tie missing"
    unfolding tie_def by (rule comparator_on.stable_js_sort [OF assms(1)]) simp_all
  also have "\<dots> = filter (\<lambda>y. y \<notin> set ids \<and> tie y) rids"
    by (simp add: missing_def conj_commute)
  finally show ?thesis
    using False unfolding rundown_gt_ties
    by (simp add: sortRundownIDsInPlaylist_def Let_def m tie_def)
qed

text \<open>
  The two routines that order the rundowns of a playlist agree: sorting the rundowns with the
  comparator puts their ids in the order that sorting the ids gives, the known ones first in the
  given order and the others after them by \<open>localeCompare\<close>.
\<close>

theorem sortRundownsWithinPlaylist_ids:
  assumes "comparator_on UNIV (\<lambda>a b. 0 < lc a b)"
    and "distinct ids" and "distinct (map rd_id rundowns)"
  shows "map rd_id (sortRundownsWithinPlaylist lc ids rundowns) =
    sortRundownIDsInPlaylist lc ids (map rd_id rundowns)"
  unfolding sortRundownsWithinPlaylist_def js_sort_map [symmetric]
  by (rule comparator_on.js_sort_unique [OF rundown_gt_wf [OF assms(1)]])
    (use assms in \<open>simp_all add: rundown_ids_sorted rundown_ids_ties mset_rundown_ids\<close>)

definition ex_lc :: "string \<Rightarrow> string \<Rightarrow> int" where
  "ex_lc a b = (if a < b then -1 else if b < a then 1 else 0)"

theorem sortRundownsWithinPlaylist_ids_witness:
  "map rd_id (sortRundownsWithinPlaylist ex_lc [''b'', ''x'', ''a'']
     [\<lparr>rd_id = ''a'', rd_showStyleBaseId = ''s''\<rparr>, \<lparr>rd_id = ''z'', rd_showStyleBaseId = ''s''\<rparr>,
      \<lparr>rd_id = ''y'', rd_showStyleBaseId = ''s''\<rparr>, \<lparr>rd_id = ''b'', rd_showStyleBaseId = ''s''\<rparr>]) =
   [''b'', ''a'', ''y'', ''z'']"
proof -
  have "comparator_on UNIV (\<lambda>a b. 0 < ex_lc a b)"
    by unfold_locales (auto simp: ex_lc_def split: if_splits)
  then show ?thesis
    by (subst sortRundownsWithinPlaylist_ids) (simp_all add: sortRundownIDsInPlaylist_def ex_lc_def)
qed

end
