(* ===== verification/Infinites.thy ===== *)
theory Infinites
  imports Sofie_Data
begin

text \<open>
  Infinite pieces: which pieces of earlier parts, and which piece instances of the part on air, go on
  in the next part. Models \<open>packages/corelib/src/playout/infinites.ts\<close>. A JavaScript \<open>Set\<close> of ids
  is a set, a \<open>Map\<close> an insertion-ordered map, and the ids that \<open>getRandomId\<close> draws are an argument.
\<close>

section \<open>Which of two candidates is to be continued\<close>

definition from_previous_part :: "PieceInstance \<Rightarrow> bool" where
  \<comment> \<open>\<open>p.infinite?.fromPreviousPart\<close>\<close>
  "from_previous_part p = (case infinite p of None \<Rightarrow> False | Some i \<Rightarrow> fromPreviousPart i)"

definition isCandidateMoreImportant :: "PieceInstance \<Rightarrow> PieceInstance \<Rightarrow> bool option" where
  "isCandidateMoreImportant best candidate =
     (if from_previous_part best \<and> \<not> from_previous_part candidate then Some True
      else if \<not> from_previous_part best \<and> from_previous_part candidate then Some False
      else if truthy_num (dynamicallyInserted best) \<and> truthy_num (dynamicallyInserted candidate)
        then Some (the (dynamicallyInserted best) < the (dynamicallyInserted candidate))
      else if truthy_num (dynamicallyInserted best) then Some False
      else if truthy_num (dynamicallyInserted candidate) then Some True
      else if virtual (pi_piece best) \<and> \<not> virtual (pi_piece candidate) then Some False
      else if \<not> virtual (pi_piece best) \<and> virtual (pi_piece candidate) then Some True
      else None)"

definition isCandidateBetterToBeContinued :: "PieceInstance \<Rightarrow> PieceInstance \<Rightarrow> bool" where
  "isCandidateBetterToBeContinued best candidate =
     nullish (isCandidateMoreImportant best candidate)
       (piece_id (pi_piece best) < piece_id (pi_piece candidate))"

section \<open>Show style infinites\<close>

text \<open>\<open>xs.slice(xs.indexOf(x))\<close>: an id that is not found gives \<open>slice(-1)\<close>, the last element only.\<close>

definition slice_from_index_of :: "string list \<Rightarrow> string \<Rightarrow> string list" where
  "slice_from_index_of xs x =
     (case index_of xs x of Some i \<Rightarrow> drop i xs
      | None \<Rightarrow> (if xs = [] then [] else [last xs]))"

definition continueShowStyleEndInfinites ::
  "RundownId list \<Rightarrow> (RundownId, ShowStyleBaseId) js_map \<Rightarrow> RundownId \<Rightarrow> RundownPick \<Rightarrow> bool" where
  "continueShowStyleEndInfinites rundownsToReceiveOnShowStyleEndFrom rundownsToShowstyles
     previousRundownId targetRundown =
     (if Some (rd_showStyleBaseId targetRundown) \<noteq> map_get rundownsToShowstyles previousRundownId
      then False
      else list_all (\<lambda>r. map_get rundownsToShowstyles r = Some (rd_showStyleBaseId targetRundown))
             (slice_from_index_of rundownsToReceiveOnShowStyleEndFrom previousRundownId))"

section \<open>Is a piece active in a part\<close>

definition isPiecePotentiallyActiveInPart ::
  "DBPartInstance option \<Rightarrow> PartId set \<Rightarrow> SegmentId set \<Rightarrow> RundownId list
   \<Rightarrow> (RundownId, ShowStyleBaseId) js_map \<Rightarrow> RundownPick \<Rightarrow> DBPart \<Rightarrow> Piece \<Rightarrow> bool" where
  "isPiecePotentiallyActiveInPart previousPartInstance partsToReceive segmentsToReceive
     rundownsToReceive rundownsToShowstyles rundown part p =
     (if startPartId p = part_id part then True
      else case lifespan p of
        WithinPart \<Rightarrow> False
      | OutOnSegmentEnd \<Rightarrow>
          startSegmentId p = part_segmentId part \<and> startPartId p \<in> partsToReceive
      | OutOnRundownEnd \<Rightarrow>
          (if startRundownId p = part_rundownId part
           then (if startSegmentId p = part_segmentId part
                 then startPartId p \<in> partsToReceive
                 else startSegmentId p \<in> segmentsToReceive)
           else False)
      | OutOnSegmentChange \<Rightarrow>
          (if previousPartInstance \<noteq> None then False
           else startSegmentId p = part_segmentId part \<and> startPartId p \<in> partsToReceive)
      | OutOnRundownChange \<Rightarrow>
          (if previousPartInstance \<noteq> None then False
           else startRundownId p = part_rundownId part \<and> startSegmentId p \<in> segmentsToReceive)
      | OutOnShowStyleEnd \<Rightarrow>
          (case previousPartInstance of
             Some prev \<Rightarrow> continueShowStyleEndInfinites rundownsToReceive rundownsToShowstyles
                            (inst_rundownId prev) rundown
           | None \<Rightarrow> False))"

section \<open>The queries that fetch the pieces\<close>

text \<open>
  The Mongo queries as data, with the conditions they use. \<open>CondNe\<close> is \<open>{$ne: x}\<close>, \<open>CondIn\<close> is
  \<open>{$in: xs}\<close>, \<open>CondEq\<close> a plain value. An absent condition matches everything.
\<close>

datatype id_cond = CondAny | CondEq string | CondNe string | CondIn "string list"

record query_fragment =
  q_lifespans :: "PieceLifespan list"
  q_startRundownId :: id_cond
  q_startSegmentId :: id_cond
  q_startPartId :: id_cond

text \<open>A query over valid pieces: one fragment spread into the query, or an \<open>$or\<close> of several.\<close>

datatype pieces_query =
    QueryStartPart PartId
  | QueryOne query_fragment
  | QueryOr id_cond "query_fragment list"

fun id_matches :: "id_cond \<Rightarrow> string \<Rightarrow> bool" where
  "id_matches CondAny s = True"
| "id_matches (CondEq x) s = (s = x)"
| "id_matches (CondNe x) s = (s \<noteq> x)"
| "id_matches (CondIn xs) s = (s \<in> set xs)"

definition fragment_matches :: "query_fragment \<Rightarrow> Piece \<Rightarrow> bool" where
  "fragment_matches f p =
     (lifespan p \<in> set (q_lifespans f) \<and> id_matches (q_startRundownId f) (startRundownId p)
      \<and> id_matches (q_startSegmentId f) (startSegmentId p)
      \<and> id_matches (q_startPartId f) (startPartId p))"

fun query_matches :: "pieces_query \<Rightarrow> Piece \<Rightarrow> bool" where
  "query_matches (QueryStartPart x) p = (startPartId p = x)"
| "query_matches (QueryOne f) p = (\<not> piece_invalid p \<and> fragment_matches f p)"
| "query_matches (QueryOr c fs) p =
     (\<not> piece_invalid p \<and> id_matches c (startPartId p) \<and> list_ex (\<lambda>f. fragment_matches f p) fs)"

definition buildPiecesStartingInThisPartQuery :: "DBPart \<Rightarrow> pieces_query" where
  "buildPiecesStartingInThisPartQuery part = QueryStartPart (part_id part)"

definition spread_fragment :: "id_cond \<Rightarrow> query_fragment \<Rightarrow> query_fragment" where
  \<comment> \<open>\<open>{ startPartId: c, ...f }\<close>: a \<open>startPartId\<close> of the fragment replaces \<open>c\<close>\<close>
  "spread_fragment c f =
     (if q_startPartId f = CondAny then f\<lparr>q_startPartId := c\<rparr> else f)"

definition past_fragments ::
  "DBPart \<Rightarrow> PartId list \<Rightarrow> SegmentId list \<Rightarrow> RundownId list \<Rightarrow> query_fragment list" where
  "past_fragments part partIds segmentIds rundownIds =
     (if partIds \<noteq> [] then
        [\<lparr>q_lifespans = [OutOnSegmentEnd, OutOnSegmentChange, OutOnRundownEnd, OutOnRundownChange,
                         OutOnShowStyleEnd],
          q_startRundownId = CondEq (part_rundownId part),
          q_startSegmentId = CondEq (part_segmentId part),
          q_startPartId = CondIn partIds\<rparr>] else [])
     @ (if segmentIds \<noteq> [] then
        [\<lparr>q_lifespans = [OutOnRundownEnd, OutOnRundownChange, OutOnShowStyleEnd],
          q_startRundownId = CondEq (part_rundownId part),
          q_startSegmentId = CondIn segmentIds,
          q_startPartId = CondAny\<rparr>] else [])
     @ (if rundownIds \<noteq> [] then
        [\<lparr>q_lifespans = [OutOnShowStyleEnd],
          q_startRundownId = CondIn rundownIds,
          q_startSegmentId = CondAny,
          q_startPartId = CondAny\<rparr>] else [])"

definition buildPastInfinitePiecesForThisPartQuery ::
  "DBPart \<Rightarrow> PartId list \<Rightarrow> SegmentId list \<Rightarrow> RundownId list \<Rightarrow> pieces_query option" where
  "buildPastInfinitePiecesForThisPartQuery part partIds segmentIds rundownIds =
     (case past_fragments part partIds segmentIds rundownIds of
        [] \<Rightarrow> None
      | [f] \<Rightarrow> Some (QueryOne (spread_fragment (CondNe (part_id part)) f))
      | fs \<Rightarrow> Some (QueryOr (CondNe (part_id part)) fs))"

section \<open>Infinites that travel with the playhead\<close>

definition max_by_start :: "PieceInstance list \<Rightarrow> PieceInstance option" where
  \<comment> \<open>\<open>max(pieces, (p) => p.piece.enable.start)\<close> of corelib: the first of the greatest\<close>
  "max_by_start ps =
     pick_best (\<lambda>b c. start_lt (en_start (enable (pi_piece b))) (en_start (enable (pi_piece c)))) ps"

definition markPieceInstanceAsContinuation :: "PieceInstance \<Rightarrow> PieceInstance \<Rightarrow> PieceInstance" where
  "markPieceInstanceAsContinuation previousInstance instance =
     instance\<lparr>pi_id := pi_id instance @ ''_continue'',
       dynamicallyInserted := dynamicallyInserted previousInstance,
       adLibSourceId := adLibSourceId previousInstance,
       pi_reportedStartedPlayback := pi_reportedStartedPlayback previousInstance,
       pi_plannedStartedPlayback := pi_plannedStartedPlayback previousInstance\<rparr>"

definition start_at_zero :: "PieceInstancePiece \<Rightarrow> PieceInstancePiece" where
  "start_at_zero p = p\<lparr>enable := \<lparr>en_start = At 0, en_duration = None\<rparr>\<rparr>"

text \<open>What the function reads of its arguments, as one record.\<close>

record playhead_args =
  pa_activationId :: string
  pa_partsToReceive :: "PartId set"
  pa_segmentsToReceive :: "SegmentId set"
  pa_rundownsToReceive :: "RundownId list"
  pa_rundownsToShowstyles :: "(RundownId, ShowStyleBaseId) js_map"
  pa_currentPartInstance :: DBPartInstance
  pa_playingSegment :: DBSegment
  pa_intoRundown :: RundownPick
  pa_intoPart :: DBPart
  pa_intoSegment :: DBSegment
  pa_newInstanceId :: PartInstanceId
  pa_nextPartIsAfterCurrentPart :: bool
  pa_isTemporary :: bool

definition last_starting :: "PieceInstance list \<Rightarrow> PieceInstance list" where
  \<comment> \<open>the instances that start at \<open>'now'\<close> if there are any, else those with the greatest start\<close>
  "last_starting pieceInstances =
     (let byStart = groupByToMapFunc (\<lambda>p. Some (en_start (enable (pi_piece p)))) pieceInstances;
          now = groups_get byStart Now
      in if now \<noteq> [] then now
         else case pick_best start_lt (map fst byStart) of
                None \<Rightarrow> []
              | Some target \<Rightarrow> groups_get byStart target)"

definition may_continue :: "PieceInstance \<Rightarrow> bool" where
  "may_continue p = (\<not> truthy_num (pi_plannedStoppedPlayback p) \<and> userDuration p = None)"

definition on_change_of_layer :: "playhead_args \<Rightarrow> PieceInstance list \<Rightarrow> PieceInstance option" where
  "on_change_of_layer a pieceInstances =
     (case pick_best isCandidateBetterToBeContinued (last_starting pieceInstances) of
        None \<Rightarrow> None
      | Some p \<Rightarrow>
          if may_continue p \<and>
             (case lifespan (pi_piece p) of
                OutOnSegmentChange \<Rightarrow>
                  inst_segmentId (pa_currentPartInstance a) = part_segmentId (pa_intoPart a)
              | OutOnRundownChange \<Rightarrow> pi_rundownId p = part_rundownId (pa_intoPart a)
              | _ \<Rightarrow> False)
          then Some p else None)"

definition on_end_valid :: "playhead_args \<Rightarrow> PieceLifespan \<Rightarrow> PieceInstance \<Rightarrow> bool" where
  "on_end_valid a mode p =
     (case mode of
        OutOnSegmentEnd \<Rightarrow>
          inst_segmentId (pa_currentPartInstance a) = part_segmentId (pa_intoPart a)
          \<and> startPartId (pi_piece p) \<in> pa_partsToReceive a
      | OutOnRundownEnd \<Rightarrow>
          pi_rundownId p = part_rundownId (pa_intoPart a)
          \<and> (inst_segmentId (pa_currentPartInstance a) \<in> pa_segmentsToReceive a
             \<or> inst_segmentId (pa_currentPartInstance a) = part_segmentId (pa_intoPart a))
      | OutOnShowStyleEnd \<Rightarrow>
          continueShowStyleEndInfinites (pa_rundownsToReceive a) (pa_rundownsToShowstyles a)
            (inst_rundownId (pa_currentPartInstance a)) (pa_intoRundown a)
      | _ \<Rightarrow> False)"

definition on_end_of_layer ::
  "playhead_args \<Rightarrow> PieceInstance list \<Rightarrow> PieceLifespan \<Rightarrow> PieceInstance option" where
  "on_end_of_layer a pieceInstances mode =
     (if \<not> pa_nextPartIsAfterCurrentPart a then None
      else
        let byMode = groupByToMapFunc (\<lambda>p. Some (lifespan (pi_piece p)))
              (filter (\<lambda>p. truthy_num (dynamicallyInserted p)) pieceInstances);
            pieces = filter (\<lambda>p. case infinite p of None \<Rightarrow> False
                | Some i \<Rightarrow> fromPreviousPlayhead i \<or> truthy_num (dynamicallyInserted p))
              (groups_get byMode mode);
            candidate = (case find (\<lambda>p. en_start (enable (pi_piece p)) = Now) pieces of
                Some p \<Rightarrow> Some p | None \<Rightarrow> max_by_start pieces)
        in case candidate of
             None \<Rightarrow> None
           | Some p \<Rightarrow> if may_continue p \<and> on_end_valid a mode p then Some p else None)"

definition infinites_of_layer :: "playhead_args \<Rightarrow> PieceInstance list \<Rightarrow> PieceInstance list" where
  \<comment> \<open>the values of one layer's piece set, in the order its properties were set\<close>
  "infinites_of_layer a pieceInstances =
     compact
       [on_change_of_layer a pieceInstances,
        on_end_of_layer a pieceInstances OutOnRundownEnd,
        on_end_of_layer a pieceInstances OutOnSegmentEnd,
        on_end_of_layer a pieceInstances OutOnShowStyleEnd]"

definition rewrapInstance :: "playhead_args \<Rightarrow> PieceInstance \<Rightarrow> PieceInstance option" where
  "rewrapInstance a p =
     (case infinite p of
        None \<Rightarrow> None
      | Some i \<Rightarrow>
          let instance = markPieceInstanceAsContinuation p
                (rewrapPieceToInstance (pi_piece p) (pa_activationId a)
                   (part_rundownId (pa_intoPart a)) (pa_newInstanceId a) (pa_isTemporary a))
          in Some (instance\<lparr>pi_piece := start_at_zero (pi_piece instance),
               infinite := Some (i\<lparr>infiniteInstanceIndex := infiniteInstanceIndex i + 1,
                 fromPreviousPart := True, fromPreviousPlayhead := True\<rparr>)\<rparr>))"

definition crosses_adlib_testing :: "DBSegment \<Rightarrow> DBSegment \<Rightarrow> bool" where
  "crosses_adlib_testing intoSegment playingSegment =
     (seg_id intoSegment \<noteq> seg_id playingSegment
      \<and> (seg_orphaned intoSegment = Some AdlibTesting \<or> seg_orphaned playingSegment = Some AdlibTesting))"

definition getPlayheadTrackingInfinitesForPart ::
  "playhead_args \<Rightarrow> PieceInstance list \<Rightarrow> PieceInstance list" where
  "getPlayheadTrackingInfinitesForPart a currentPartPieceInstances =
     (if crosses_adlib_testing (pa_intoSegment a) (pa_playingSegment a) then []
      else concat (map (\<lambda>(layer, ps). List.map_filter (rewrapInstance a) (infinites_of_layer a ps))
        (groupByToMapFunc (\<lambda>p. Some (sourceLayerId (pi_piece p))) currentPartPieceInstances)))"

section \<open>The piece instances of a part\<close>

definition doesPieceAStartBeforePieceB ::
  "PartId list \<Rightarrow> ('a PieceInstancePiece_scheme) \<Rightarrow> ('b PieceInstancePiece_scheme) \<Rightarrow> bool" where
  "doesPieceAStartBeforePieceB orderedPartIds a b =
     (if startPartId a = startPartId b then start_lt (en_start (enable a)) (en_start (enable b))
      else case index_of orderedPartIds (startPartId a) of
        None \<Rightarrow> False
      | Some i \<Rightarrow> (case index_of orderedPartIds (startPartId b) of
                    None \<Rightarrow> True
                  | Some j \<Rightarrow> i < j))"

record InfinitePieceSet =
  set_OutOnShowStyleEnd :: "Piece option"
  set_OutOnRundownEnd :: "Piece option"
  set_OutOnSegmentEnd :: "Piece option"

definition empty_piece_set :: InfinitePieceSet where
  "empty_piece_set = \<lparr>set_OutOnShowStyleEnd = None, set_OutOnRundownEnd = None,
     set_OutOnSegmentEnd = None\<rparr>"

text \<open>\<open>pieceSet[mode]\<close>, read and written, for the three modes that are kept per layer.\<close>

fun piece_set_get :: "InfinitePieceSet \<Rightarrow> PieceLifespan \<Rightarrow> Piece option" where
  "piece_set_get s OutOnShowStyleEnd = set_OutOnShowStyleEnd s"
| "piece_set_get s OutOnRundownEnd = set_OutOnRundownEnd s"
| "piece_set_get s OutOnSegmentEnd = set_OutOnSegmentEnd s"
| "piece_set_get s _ = None"

fun piece_set_put :: "PieceLifespan \<Rightarrow> Piece \<Rightarrow> InfinitePieceSet \<Rightarrow> InfinitePieceSet" where
  "piece_set_put OutOnShowStyleEnd p s = s\<lparr>set_OutOnShowStyleEnd := Some p\<rparr>"
| "piece_set_put OutOnRundownEnd p s = s\<lparr>set_OutOnRundownEnd := Some p\<rparr>"
| "piece_set_put OutOnSegmentEnd p s = s\<lparr>set_OutOnSegmentEnd := Some p\<rparr>"
| "piece_set_put _ p s = s"

definition is_on_end :: "PieceLifespan \<Rightarrow> bool" where
  "is_on_end l = (l = OutOnShowStyleEnd \<or> l = OutOnRundownEnd \<or> l = OutOnSegmentEnd)"

definition consider_on_end ::
  "(Piece \<Rightarrow> bool) \<Rightarrow> PartId list \<Rightarrow> PartId \<Rightarrow> Piece \<Rightarrow> (string, InfinitePieceSet) js_map
   \<Rightarrow> (string, InfinitePieceSet) js_map" where
  \<comment> \<open>the body of the loop over the possible pieces; \<open>useIt\<close> is \<open>isPiecePotentiallyActiveInPart\<close>\<close>
  "consider_on_end useIt orderedPartIds partId candidatePiece m =
     (if startPartId candidatePiece \<noteq> partId \<and> is_on_end (lifespan candidatePiece)
         \<and> useIt candidatePiece
      then
        let pieceSet = nullish (map_get m (sourceLayerId candidatePiece)) empty_piece_set
        in case piece_set_get pieceSet (lifespan candidatePiece) of
             None \<Rightarrow> map_set (sourceLayerId candidatePiece)
                       (piece_set_put (lifespan candidatePiece) candidatePiece pieceSet) m
           | Some existing \<Rightarrow>
               if doesPieceAStartBeforePieceB orderedPartIds existing candidatePiece
               then map_set (sourceLayerId candidatePiece)
                      (piece_set_put (lifespan candidatePiece) candidatePiece pieceSet) m
               else m
      else m)"

definition on_end_pieces :: "InfinitePieceSet \<Rightarrow> Piece list" where
  "on_end_pieces s = compact
     [set_OutOnShowStyleEnd s, set_OutOnRundownEnd s, set_OutOnSegmentEnd s]"

record wrap_args =
  wa_activationId :: string
  wa_part :: DBPart
  wa_newInstanceId :: PartInstanceId
  wa_isTemporary :: bool
  wa_nextPartIsAfterCurrentPart :: bool
  wa_playing :: "(PieceId, PieceInstance) js_map"

definition wrapPiece :: "wrap_args \<Rightarrow> string \<Rightarrow> PieceInstancePiece \<Rightarrow> PieceInstance" where
  \<comment> \<open>\<open>random\<close> is the id that \<open>getRandomId()\<close> returns, if it is called\<close>
  "wrapPiece w random p =
     (let instance = rewrapPieceToInstance p (wa_activationId w) (part_rundownId (wa_part w))
            (wa_newInstanceId w) (wa_isTemporary w)
      in if lifespan p = WithinPart then instance
         else
           let existing = (if wa_nextPartIsAfterCurrentPart w then map_get (wa_playing w) (piece_id p)
                 else None);
               existingInfinite = Option.bind existing infinite;
               fromPrevious = (startPartId p \<noteq> part_id (wa_part w));
               instance1 = instance\<lparr>infinite := Some
                 \<lparr>infinitePieceId = piece_id p,
                  fromHold = False,
                  fromPreviousPart = fromPrevious,
                  fromPreviousPlayhead = False,
                  infiniteInstanceId = nullish (map_option infiniteInstanceId existingInfinite) random,
                  infiniteInstanceIndex =
                    nullish (map_option infiniteInstanceIndex existingInfinite) (-1) + 1\<rparr>\<rparr>;
               instance2 = (case existing of
                   Some e \<Rightarrow>
                     if fromPrevious \<or> truthy_num (dynamicallyInserted instance1)
                     then markPieceInstanceAsContinuation e instance1 else instance1
                 | None \<Rightarrow> instance1)
           in if fromPrevious then instance2\<lparr>pi_piece := start_at_zero (pi_piece instance2)\<rparr>
              else instance2)"

definition wrap_pieces :: "wrap_args \<Rightarrow> (nat \<Rightarrow> string) \<Rightarrow> nat \<Rightarrow> Piece list \<Rightarrow> PieceInstance list" where
  \<comment> \<open>\<open>pieces.map(wrapPiece)\<close>; the k-th call of the whole run draws \<open>rnd k\<close>\<close>
  "wrap_pieces w rnd n pieces =
     map (\<lambda>(k, p). wrapPiece w (rnd k) (PieceInstancePiece.truncate p)) (enumerate n pieces)"

text \<open>
  The arguments of \<open>getPieceInstancesForPart\<close>. \<open>gp_playing\<close> is the part instance on air with its
  segment; the caller passes both or neither, and the code continues nothing unless both are there.
\<close>

record pieces_args =
  gp_activationId :: string
  gp_playingPartInstance :: "DBPartInstance option"
  gp_playingSegment :: "DBSegment option"
  gp_playingPieceInstances :: "PieceInstance list"
  gp_rundown :: RundownPick
  gp_segment :: DBSegment
  gp_part :: DBPart
  gp_partsToReceive :: "PartId set"
  gp_segmentsToReceive :: "SegmentId set"
  gp_rundownsToReceive :: "RundownId list"
  gp_rundownsToShowstyles :: "(RundownId, ShowStyleBaseId) js_map"
  gp_orderedPartIds :: "PartId list"
  gp_newInstanceId :: PartInstanceId
  gp_nextPartIsAfterCurrentPart :: bool
  gp_isTemporary :: bool

definition gp_use_it :: "pieces_args \<Rightarrow> Piece \<Rightarrow> bool" where
  "gp_use_it g = isPiecePotentiallyActiveInPart (gp_playingPartInstance g) (gp_partsToReceive g)
     (gp_segmentsToReceive g) (gp_rundownsToReceive g) (gp_rundownsToShowstyles g) (gp_rundown g)
     (gp_part g)"

definition pieces_on_source_layers ::
  "pieces_args \<Rightarrow> Piece list \<Rightarrow> (string, InfinitePieceSet) js_map" where
  "pieces_on_source_layers g possiblePieces =
     fold (consider_on_end (gp_use_it g) (gp_orderedPartIds g) (part_id (gp_part g)))
       possiblePieces []"

definition infinites_from_previous :: "pieces_args \<Rightarrow> PieceInstance list" where
  "infinites_from_previous g =
     (case (gp_playingPartInstance g, gp_playingSegment g) of
        (Some prev, Some seg) \<Rightarrow>
          getPlayheadTrackingInfinitesForPart
            \<lparr>pa_activationId = gp_activationId g,
             pa_partsToReceive = gp_partsToReceive g,
             pa_segmentsToReceive = gp_segmentsToReceive g,
             pa_rundownsToReceive = gp_rundownsToReceive g,
             pa_rundownsToShowstyles = gp_rundownsToShowstyles g,
             pa_currentPartInstance = prev,
             pa_playingSegment = seg,
             pa_intoRundown = gp_rundown g,
             pa_intoPart = gp_part g,
             pa_intoSegment = gp_segment g,
             pa_newInstanceId = gp_newInstanceId g,
             pa_nextPartIsAfterCurrentPart = gp_nextPartIsAfterCurrentPart g,
             pa_isTemporary = gp_isTemporary g\<rparr>
            (gp_playingPieceInstances g)
      | _ \<Rightarrow> [])"

definition gp_wrap_args :: "pieces_args \<Rightarrow> wrap_args" where
  "gp_wrap_args g =
     \<lparr>wa_activationId = gp_activationId g, wa_part = gp_part g,
      wa_newInstanceId = gp_newInstanceId g, wa_isTemporary = gp_isTemporary g,
      wa_nextPartIsAfterCurrentPart = gp_nextPartIsAfterCurrentPart g,
      wa_playing = normalizeArrayToMapFunc (\<lambda>p. map_option infinitePieceId (infinite p))
        (gp_playingPieceInstances g)\<rparr>"

definition getPieceInstancesForPart ::
  "(nat \<Rightarrow> string) \<Rightarrow> pieces_args \<Rightarrow> Piece list \<Rightarrow> PieceInstance list" where
  "getPieceInstancesForPart rnd g possiblePieces =
     (let normalPieces = filter (\<lambda>p. startPartId p = part_id (gp_part g)) possiblePieces;
          onEndPieces = concat (map (\<lambda>(layer, s). on_end_pieces s)
            (pieces_on_source_layers g possiblePieces))
      in wrap_pieces (gp_wrap_args g) rnd 0 normalPieces
         @ infinites_from_previous g
         @ wrap_pieces (gp_wrap_args g) rnd (length normalPieces) onEndPieces)"

section \<open>The choice of a candidate\<close>

text \<open>The key that the candidates are compared by.\<close>

definition candidate_key :: "PieceInstance \<Rightarrow> bool \<times> bool \<times> time \<times> bool \<times> PieceId" where
  "candidate_key p =
     (\<not> from_previous_part p,
      if truthy_num (dynamicallyInserted p) then (True, the (dynamicallyInserted p), False, [])
      else (False, 0, virtual (pi_piece p), piece_id (pi_piece p)))"

lemma better_key: "isCandidateBetterToBeContinued b c \<longleftrightarrow> candidate_key b < candidate_key c"
  by (auto simp: isCandidateBetterToBeContinued_def isCandidateMoreImportant_def candidate_key_def
      less_prod_def)

interpretation continued: choice_on UNIV isCandidateBetterToBeContinued
  by unfold_locales (auto simp: better_key)

text \<open>The position where a piece starts, for pieces of a known part that do not start \<open>'now'\<close>.\<close>

definition start_position :: "PartId list \<Rightarrow> ('a PieceInstancePiece_scheme) \<Rightarrow> nat \<times> time" where
  "start_position orderedPartIds p =
     (the (index_of orderedPartIds (startPartId p)),
      case en_start (enable p) of At t \<Rightarrow> t | Now \<Rightarrow> 0)"

definition has_position :: "PartId list \<Rightarrow> ('a PieceInstancePiece_scheme) \<Rightarrow> bool" where
  "has_position orderedPartIds p =
     (startPartId p \<in> set orderedPartIds \<and> en_start (enable p) \<noteq> Now)"

lemma start_before_position:
  assumes "has_position ids a" and "has_position ids b"
  shows "doesPieceAStartBeforePieceB ids a b \<longleftrightarrow> start_position ids a < start_position ids b"
proof -
  obtain i j where ij: "index_of ids (startPartId a) = Some i" "index_of ids (startPartId b) = Some j"
    using assms by (cases "index_of ids (startPartId a)"; cases "index_of ids (startPartId b)")
      (auto simp: has_position_def index_of_None)
  have "startPartId a = startPartId b \<longleftrightarrow> i = j"
    using ij by (auto dest: index_of_inj)
  with assms ij show ?thesis
    by (auto simp: doesPieceAStartBeforePieceB_def start_position_def has_position_def less_prod_def
        split: start_time.splits)
qed

interpretation latest: choice_on "Collect (has_position ids)" "doesPieceAStartBeforePieceB ids" for ids
  by unfold_locales (auto simp: start_before_position)

end
