(* ===== verification/Infinites_Facts.thy ===== *)
theory Infinites_Facts
  imports Infinites Samples
begin

text \<open>
  What the model of the infinites guarantees: which candidate is continued, what the instances that
  travel with the playhead look like, that the latest infinite of a layer is the one that goes on,
  that every instance made for a part is well formed, and that the queries fetch every piece needed.
\<close>

section \<open>Instances that travel with the playhead\<close>

lemma last_starting_subset: "set (last_starting ps) \<subseteq> set ps"
  by (auto simp: last_starting_def Let_def groups_get_groupBy split: option.splits)

lemma on_change_of_layer_Some:
  assumes "on_change_of_layer a ps = Some p"
  shows "p \<in> set ps \<and> may_continue p \<and>
    (lifespan (pi_piece p) = OutOnSegmentChange
       \<and> inst_segmentId (pa_currentPartInstance a) = part_segmentId (pa_intoPart a)
     \<or> lifespan (pi_piece p) = OutOnRundownChange \<and> pi_rundownId p = part_rundownId (pa_intoPart a))"
proof -
  from assms have "pick_best isCandidateBetterToBeContinued (last_starting ps) = Some p"
    by (auto simp: on_change_of_layer_def split: option.splits if_splits)
  then have "p \<in> set ps"
    using pick_best_in last_starting_subset by fast
  with assms show ?thesis
    by (auto simp: on_change_of_layer_def split: option.splits if_splits PieceLifespan.splits)
qed

lemma on_end_of_layer_Some:
  assumes "on_end_of_layer a ps mode = Some p"
  shows "p \<in> set ps \<and> lifespan (pi_piece p) = mode \<and> may_continue p \<and> on_end_valid a mode p
    \<and> truthy_num (dynamicallyInserted p) \<and> infinite p \<noteq> None \<and> pa_nextPartIsAfterCurrentPart a"
proof -
  define pieces where "pieces = filter (\<lambda>p. case infinite p of None \<Rightarrow> False
      | Some i \<Rightarrow> fromPreviousPlayhead i \<or> truthy_num (dynamicallyInserted p))
    (filter (\<lambda>p. lifespan (pi_piece p) = mode)
      (filter (\<lambda>p. truthy_num (dynamicallyInserted p)) ps))"
  define candidate where "candidate = (case find (\<lambda>p. en_start (enable (pi_piece p)) = Now) pieces of
      Some p \<Rightarrow> Some p | None \<Rightarrow> max_by_start pieces)"
  have eq: "on_end_of_layer a ps mode =
      (if \<not> pa_nextPartIsAfterCurrentPart a then None
       else case candidate of None \<Rightarrow> None
         | Some p \<Rightarrow> if may_continue p \<and> on_end_valid a mode p then Some p else None)"
    unfolding on_end_of_layer_def Let_def groups_get_groupBy candidate_def pieces_def option.inject
    by (rule refl)
  have "candidate = Some p" and valid: "may_continue p" "on_end_valid a mode p"
      "pa_nextPartIsAfterCurrentPart a"
    using assms unfolding eq by (auto split: if_splits option.splits)
  then have "p \<in> set pieces"
    by (auto simp: candidate_def max_by_start_def dest: pick_best_in find_Some_set split: option.splits)
  with valid have "p \<in> set pieces" "may_continue p" "on_end_valid a mode p"
    "pa_nextPartIsAfterCurrentPart a" by simp_all
  then show ?thesis by (auto simp: pieces_def split: option.splits)
qed

lemma infinites_of_layer_iff:
  "p \<in> set (infinites_of_layer a ps) \<longleftrightarrow>
   on_change_of_layer a ps = Some p \<or>
   (\<exists>mode\<in>{OutOnRundownEnd, OutOnSegmentEnd, OutOnShowStyleEnd}. on_end_of_layer a ps mode = Some p)"
  by (auto simp: infinites_of_layer_def)

lemma infinites_of_layer_in:
  assumes "p \<in> set (infinites_of_layer a ps)"
  shows "p \<in> set ps \<and> may_continue p \<and> lifespan (pi_piece p) \<noteq> WithinPart"
  using assms unfolding infinites_of_layer_iff
  by (auto dest!: on_change_of_layer_Some on_end_of_layer_Some)

lemma distinct_infinites_of_layer: "distinct (map (\<lambda>p. lifespan (pi_piece p)) (infinites_of_layer a ps))"
  unfolding infinites_of_layer_def
  by (rule distinct_map_compact)
    (auto simp: less_Suc_eq nth_Cons split: nat.splits
      dest!: on_change_of_layer_Some on_end_of_layer_Some)

lemma rewrapInstance_Some:
  assumes "rewrapInstance a p = Some r"
  obtains i where "infinite p = Some i"
    and "pi_piece r = start_at_zero (pi_piece p)"
    and "infinite r = Some (i\<lparr>infiniteInstanceIndex := infiniteInstanceIndex i + 1,
           fromPreviousPart := True, fromPreviousPlayhead := True\<rparr>)"
    and "pi_partInstanceId r = pa_newInstanceId a" and "pi_rundownId r = part_rundownId (pa_intoPart a)"
    and "dynamicallyInserted r = dynamicallyInserted p"
    and "pi_plannedStartedPlayback r = pi_plannedStartedPlayback p"
  using assms
  by (auto simp: rewrapInstance_def Let_def markPieceInstanceAsContinuation_def rewrapPieceToInstance_def
      split: option.splits)

lemma start_at_zero_fields [simp]:
  "lifespan (start_at_zero p) = lifespan p" "sourceLayerId (start_at_zero p) = sourceLayerId p"
  "piece_id (start_at_zero p) = piece_id p" "startPartId (start_at_zero p) = startPartId p"
  "en_start (enable (start_at_zero p)) = At 0"
  by (simp_all add: start_at_zero_def)

text \<open>A lifespan that lets an instance go on from the current part into the next one.\<close>

definition lifespan_reaches :: "playhead_args \<Rightarrow> PieceInstance \<Rightarrow> bool" where
  "lifespan_reaches a p =
     (case lifespan (pi_piece p) of
        WithinPart \<Rightarrow> False
      | OutOnSegmentChange \<Rightarrow>
          inst_segmentId (pa_currentPartInstance a) = part_segmentId (pa_intoPart a)
      | OutOnRundownChange \<Rightarrow> pi_rundownId p = part_rundownId (pa_intoPart a)
      | l \<Rightarrow> truthy_num (dynamicallyInserted p) \<and> pa_nextPartIsAfterCurrentPart a \<and> on_end_valid a l p)"

lemma infinites_of_layer_reaches:
  "p \<in> set (infinites_of_layer a ps) \<Longrightarrow> lifespan_reaches a p"
  unfolding infinites_of_layer_iff
  by (auto simp: lifespan_reaches_def
      dest!: on_change_of_layer_Some on_end_of_layer_Some)

text \<open>
  Which of two candidates goes on: the choice is exactly the order of a key. An instance of this
  part beats one continued from a previous part, an adlib beats a planned piece and a newer adlib an
  older one, then a virtual piece beats a normal one, and the id decides last. So the choice is a
  strict weak order and does not depend on the order in which candidates are met, ties apart.
\<close>

theorem isCandidateBetterToBeContinued_key:
  "isCandidateBetterToBeContinued best candidate \<longleftrightarrow> candidate_key best < candidate_key candidate"
  by (rule better_key)

text \<open>
  C26. Every instance that travels with the playhead continues an infinite instance of the part on
  air that was neither stopped nor cut by the user and whose lifespan reaches into the next part: it
  belongs to the new part instance, starts at 0, is the next index of the same infinite, and is
  marked as coming from the playhead. Across the border of an adlib-testing segment there is none.
\<close>

theorem playhead_infinites_sound:
  assumes "r \<in> set (getPlayheadTrackingInfinitesForPart a ps)"
  shows "\<not> crosses_adlib_testing (pa_intoSegment a) (pa_playingSegment a) \<and>
    (\<exists>p\<in>set ps. \<exists>i. infinite p = Some i \<and> may_continue p \<and> lifespan_reaches a p
       \<and> pi_piece r = start_at_zero (pi_piece p)
       \<and> infinite r = Some (i\<lparr>infiniteInstanceIndex := infiniteInstanceIndex i + 1,
           fromPreviousPart := True, fromPreviousPlayhead := True\<rparr>)
       \<and> pi_partInstanceId r = pa_newInstanceId a)"
proof -
  obtain layer qs q where q: "\<not> crosses_adlib_testing (pa_intoSegment a) (pa_playingSegment a)"
      "(layer, qs) \<in> set (groupByToMapFunc (\<lambda>p. Some (sourceLayerId (pi_piece p))) ps)"
      "q \<in> set (infinites_of_layer a qs)" "rewrapInstance a q = Some r"
    using assms
    by (auto simp: getPlayheadTrackingInfinitesForPart_def set_map_filter split: if_splits)
  then have "q \<in> set ps"
    using infinites_of_layer_in groupBy_entry by fastforce
  moreover obtain i where "infinite q = Some i" "pi_piece r = start_at_zero (pi_piece q)"
      "infinite r = Some (i\<lparr>infiniteInstanceIndex := infiniteInstanceIndex i + 1,
         fromPreviousPart := True, fromPreviousPlayhead := True\<rparr>)"
      "pi_partInstanceId r = pa_newInstanceId a"
    using q(4) by (elim rewrapInstance_Some)
  ultimately show ?thesis
    using q(1,3) infinites_of_layer_in infinites_of_layer_reaches by blast
qed

definition ex_infinite :: PieceInstance where
  "ex_infinite = (sample_instance (sample_piece\<lparr>lifespan := OutOnRundownChange\<rparr>))
     \<lparr>infinite := Some \<lparr>infinitePieceId = ''piece'', fromHold = False, fromPreviousPart = False,
        fromPreviousPlayhead = False, infiniteInstanceId = ''inf'', infiniteInstanceIndex = 0\<rparr>\<rparr>"

definition ex_playhead :: playhead_args where
  "ex_playhead = \<lparr>pa_activationId = ''activation'', pa_partsToReceive = {''part''},
     pa_segmentsToReceive = {}, pa_rundownsToReceive = [], pa_rundownsToShowstyles = [],
     pa_currentPartInstance = sample_part_instance ''inst'' (sample_part ''part'' 0 ''seg''),
     pa_playingSegment = sample_segment ''seg'' 0,
     pa_intoRundown = \<lparr>rd_id = ''rd'', rd_showStyleBaseId = ''s''\<rparr>,
     pa_intoPart = sample_part ''part2'' 1 ''seg'', pa_intoSegment = sample_segment ''seg'' 0,
     pa_newInstanceId = ''inst2'', pa_nextPartIsAfterCurrentPart = True, pa_isTemporary = False\<rparr>"

lemmas ex_playhead_simps = ex_infinite_def ex_playhead_def sample_defs rewrapPieceToInstance_def
  getPlayheadTrackingInfinitesForPart_def crosses_adlib_testing_def groupByToMapFunc_def
  infinites_of_layer_def on_change_of_layer_def last_starting_def groups_get_def may_continue_def
  on_end_of_layer_def max_by_start_def rewrapInstance_def markPieceInstanceAsContinuation_def

theorem playhead_infinites_sound_witness:
  "\<exists>p\<in>set [ex_infinite]. \<exists>i. infinite p = Some i \<and> may_continue p \<and> lifespan_reaches ex_playhead p
     \<and> infiniteInstanceIndex i + 1 = 1"
proof -
  obtain r where r: "getPlayheadTrackingInfinitesForPart ex_playhead [ex_infinite] = [r]"
      "map_option infiniteInstanceIndex (infinite r) = Some 1"
    by (simp add: ex_playhead_simps Let_def)
  then have "r \<in> set (getPlayheadTrackingInfinitesForPart ex_playhead [ex_infinite])" by simp
  from playhead_infinites_sound [OF this] r(2) show ?thesis by auto
qed

text \<open>
  No two instances that travel with the playhead share both source layer and lifespan.
\<close>

lemma distinct_rewrapped:
  "distinct (map (\<lambda>p. lifespan (pi_piece p)) qs) \<Longrightarrow>
   distinct (map (\<lambda>p. lifespan (pi_piece p)) (List.map_filter (rewrapInstance a) qs))"
proof (induction qs)
  case (Cons q qs)
  then show ?case
    by (auto simp: set_map_filter split: option.splits elim!: rewrapInstance_Some)
qed simp

lemma distinct_by_group:
  assumes "map_wf m" and "\<And>k xs. (k, xs) \<in> set m \<Longrightarrow> distinct (map snd (f xs)) \<and> fst ` set (f xs) \<subseteq> {k}"
  shows "distinct (concat (map (\<lambda>(k, xs). f xs) m))"
  using assms
proof (induction m)
  case (Cons e m)
  obtain k xs where e: "e = (k, xs)" by force
  have "distinct (f xs)"
    using Cons.prems(2) [of k xs] e by (auto simp: distinct_map)
  moreover have "set (f xs) \<inter> set (concat (map (\<lambda>(k, xs). f xs) m)) = {}"
  proof -
    have "fst y \<noteq> k" if "(k', ys) \<in> set m" "y \<in> set (f ys)" for k' ys y
      using Cons.prems that e by (force simp: map_wf_def)
    then show ?thesis using Cons.prems(2) [of k xs] e by fastforce
  qed
  moreover have "distinct (concat (map (\<lambda>(k, xs). f xs) m))"
    by (rule Cons.IH) (use Cons.prems in \<open>auto simp: map_wf_def\<close>)
  ultimately show ?case by (simp add: e)
qed simp

theorem playhead_infinites_distinct:
  "distinct (map (\<lambda>r. (sourceLayerId (pi_piece r), lifespan (pi_piece r)))
     (getPlayheadTrackingInfinitesForPart a ps))"
proof -
  define key :: "PieceInstance \<Rightarrow> string \<times> PieceLifespan"
    where "key = (\<lambda>r. (sourceLayerId (pi_piece r), lifespan (pi_piece r)))"
  define layers where "layers = groupByToMapFunc (\<lambda>p. Some (sourceLayerId (pi_piece p))) ps"
  define f where "f = (\<lambda>qs. map key (List.map_filter (rewrapInstance a) (infinites_of_layer a qs)))"
  have "distinct (map snd (f qs)) \<and> fst ` set (f qs) \<subseteq> {layer}" if "(layer, qs) \<in> set layers" for layer qs
  proof -
    have "qs = filter (\<lambda>p. Some (sourceLayerId (pi_piece p)) = Some layer) ps"
      using that unfolding layers_def by (rule groupBy_entry)
    then have "sourceLayerId (pi_piece q) = layer" if "q \<in> set (infinites_of_layer a qs)" for q
      using infinites_of_layer_in [OF that] by auto
    then show ?thesis
      using distinct_rewrapped [OF distinct_infinites_of_layer, of a a qs]
      by (auto simp: f_def key_def set_map_filter comp_def elim!: rewrapInstance_Some)
  qed
  then have "distinct (concat (map (\<lambda>(layer, qs). f qs) layers))"
    by (intro distinct_by_group) (simp add: layers_def map_wf_groupBy)
  moreover have "map key (getPlayheadTrackingInfinitesForPart a ps) =
      (if crosses_adlib_testing (pa_intoSegment a) (pa_playingSegment a) then []
       else concat (map (\<lambda>(layer, qs). f qs) layers))"
    by (simp add: getPlayheadTrackingInfinitesForPart_def map_concat f_def layers_def comp_def
        case_prod_unfold)
  ultimately show ?thesis by (simp add: key_def)
qed

section \<open>Planned infinites\<close>

lemma consider_on_end_get:
  "piece_set_get (nullish (map_get (consider_on_end useIt ids partId c m) l) empty_piece_set) mode =
     (if startPartId c \<noteq> partId \<and> is_on_end (lifespan c) \<and> useIt c \<and> sourceLayerId c = l \<and> lifespan c = mode
      then (case piece_set_get (nullish (map_get m l) empty_piece_set) mode of
              None \<Rightarrow> Some c
            | Some b \<Rightarrow> if doesPieceAStartBeforePieceB ids b c then Some c else Some b)
      else piece_set_get (nullish (map_get m l) empty_piece_set) mode)"
proof -
  have put: "piece_set_get (piece_set_put (lifespan c) c s) mode' =
      (if lifespan c = mode' then Some c else piece_set_get s mode')" if "is_on_end (lifespan c)" for s mode'
    using that by (cases "lifespan c"; cases mode') (auto simp: is_on_end_def)
  show ?thesis
    by (auto simp: consider_on_end_def Let_def put split: option.splits)
qed

definition eligible_on_end :: "pieces_args \<Rightarrow> string \<Rightarrow> PieceLifespan \<Rightarrow> Piece \<Rightarrow> bool" where
  "eligible_on_end g l mode p =
     (startPartId p \<noteq> part_id (gp_part g) \<and> is_on_end (lifespan p) \<and> gp_use_it g p
      \<and> sourceLayerId p = l \<and> lifespan p = mode)"

lemma on_source_layers_pick_best:
  "piece_set_get (nullish (map_get (pieces_on_source_layers g ps) l) empty_piece_set) mode =
     pick_best (doesPieceAStartBeforePieceB (gp_orderedPartIds g)) (filter (eligible_on_end g l mode) ps)"
proof (induction ps rule: rev_induct)
  case Nil
  then show ?case by (cases mode) (simp_all add: pieces_on_source_layers_def empty_piece_set_def)
next
  case (snoc p ps)
  have "pieces_on_source_layers g (ps @ [p]) =
      consider_on_end (gp_use_it g) (gp_orderedPartIds g) (part_id (gp_part g)) p
        (pieces_on_source_layers g ps)"
    by (simp add: pieces_on_source_layers_def)
  with snoc show ?case
    by (auto simp: consider_on_end_get eligible_on_end_def pick_best_from_snoc split: option.splits)
qed

text \<open>
  Of the planned infinites of one lifespan on one source layer that are active in a part, the
  one that goes on is the one that starts last in the order of the parts: none is chosen only if
  none is eligible, the chosen one is eligible, and no eligible piece starts after it.
\<close>

theorem latest_infinite_goes_on:
  assumes "\<And>p. p \<in> set ps \<Longrightarrow> eligible_on_end g l mode p \<Longrightarrow> has_position (gp_orderedPartIds g) p"
  shows "case piece_set_get (nullish (map_get (pieces_on_source_layers g ps) l) empty_piece_set) mode of
     None \<Rightarrow> \<not> (\<exists>p\<in>set ps. eligible_on_end g l mode p)
   | Some q \<Rightarrow> q \<in> set ps \<and> eligible_on_end g l mode q \<and>
       (\<forall>p\<in>set ps. eligible_on_end g l mode p \<longrightarrow>
          start_position (gp_orderedPartIds g) p \<le> start_position (gp_orderedPartIds g) q)"
proof (cases "pick_best (doesPieceAStartBeforePieceB (gp_orderedPartIds g)) (filter (eligible_on_end g l mode) ps)")
  case None
  then show ?thesis
    by (auto simp: on_source_layers_pick_best pick_best_from_None filter_empty_conv)
next
  case (Some q)
  have sub: "set (filter (eligible_on_end g l mode) ps) \<subseteq> Collect (has_position (gp_orderedPartIds g))"
    using assms by auto
  have q: "q \<in> set (filter (eligible_on_end g l mode) ps)"
    and "\<forall>p\<in>set (filter (eligible_on_end g l mode) ps).
        \<not> doesPieceAStartBeforePieceB (gp_orderedPartIds g) q p"
    using latest.pick_best_max [OF sub Some] by auto
  then show ?thesis
    using Some assms by (simp add: on_source_layers_pick_best start_before_position not_less)
qed

definition ex_pieces_args :: pieces_args where
  "ex_pieces_args = \<lparr>gp_activationId = ''activation'', gp_playingPartInstance = None,
     gp_playingSegment = None, gp_playingPieceInstances = [],
     gp_rundown = \<lparr>rd_id = ''rd'', rd_showStyleBaseId = ''s''\<rparr>, gp_segment = sample_segment ''seg'' 0,
     gp_part = sample_part ''p3'' 2 ''seg'', gp_partsToReceive = {''p1'', ''p2''},
     gp_segmentsToReceive = {}, gp_rundownsToReceive = [], gp_rundownsToShowstyles = [],
     gp_orderedPartIds = [''p1'', ''p2'', ''p3''], gp_newInstanceId = ''inst3'',
     gp_nextPartIsAfterCurrentPart = True, gp_isTemporary = False\<rparr>"

theorem latest_infinite_goes_on_witness:
  "\<exists>q. piece_set_get (nullish (map_get (pieces_on_source_layers ex_pieces_args
       [sample_planned ''a'' ''p2'' OutOnSegmentEnd 0, sample_planned ''b'' ''p1'' OutOnSegmentEnd 9])
       ''cam'') empty_piece_set) OutOnSegmentEnd = Some q
     \<and> start_position [''p1'', ''p2'', ''p3''] (sample_planned ''b'' ''p1'' OutOnSegmentEnd 9)
         \<le> start_position [''p1'', ''p2'', ''p3''] q"
proof -
  let ?ps = "[sample_planned ''a'' ''p2'' OutOnSegmentEnd 0, sample_planned ''b'' ''p1'' OutOnSegmentEnd 9]"
  have e: "eligible_on_end ex_pieces_args ''cam'' OutOnSegmentEnd p" if "p \<in> set ?ps" for p
    using that by (auto simp: eligible_on_end_def is_on_end_def gp_use_it_def
        isPiecePotentiallyActiveInPart_def ex_pieces_args_def sample_defs)
  have o: "gp_orderedPartIds ex_pieces_args = [''p1'', ''p2'', ''p3'']"
    by (simp add: ex_pieces_args_def)
  have "has_position (gp_orderedPartIds ex_pieces_args) p" if "p \<in> set ?ps" for p
    using that by (auto simp: has_position_def o sample_defs)
  from latest_infinite_goes_on [where g = ex_pieces_args and ps = ?ps and l = "''cam''"
      and mode = OutOnSegmentEnd, OF this]
  show ?thesis using e by (auto simp: o split: option.splits)
qed

section \<open>Well-formed instances\<close>

text \<open>
  An instance is well formed in its part: it belongs to the new part instance and its rundown, it
  has infinite data exactly if its lifespan leaves the part, and what comes from a previous part
  starts at 0.
\<close>

definition instance_ok :: "pieces_args \<Rightarrow> PieceInstance \<Rightarrow> bool" where
  "instance_ok g r =
     (pi_partInstanceId r = gp_newInstanceId g \<and> pi_rundownId r = part_rundownId (gp_part g)
      \<and> (infinite r = None \<longleftrightarrow> lifespan (pi_piece r) = WithinPart)
      \<and> (from_previous_part r \<longrightarrow> en_start (enable (pi_piece r)) = At 0))"

lemma wrapPiece_ok: "instance_ok g (wrapPiece (gp_wrap_args g) x p)"
  by (auto simp: wrapPiece_def Let_def instance_ok_def gp_wrap_args_def from_previous_part_def
      markPieceInstanceAsContinuation_def split: option.split)

lemma playhead_ok:
  assumes "r \<in> set (infinites_from_previous g)"
  shows "instance_ok g r"
proof -
  obtain a ps where r: "r \<in> set (getPlayheadTrackingInfinitesForPart a ps)"
    and a: "pa_newInstanceId a = gp_newInstanceId g" "pa_intoPart a = gp_part g"
    using assms unfolding infinites_from_previous_def by (fastforce split: option.splits)
  then obtain qs q where "q \<in> set (infinites_of_layer a qs)" "rewrapInstance a q = Some r"
    by (auto simp: getPlayheadTrackingInfinitesForPart_def set_map_filter split: if_splits)
  then show ?thesis
    using a infinites_of_layer_in [of q a qs]
    by (elim rewrapInstance_Some) (auto simp: instance_ok_def from_previous_part_def)
qed

text \<open>
  Every piece instance made for a part is well formed in it, whichever way it got there.
\<close>

theorem getPieceInstancesForPart_wf:
  "list_all (instance_ok g) (getPieceInstancesForPart rnd g possiblePieces)"
  unfolding getPieceInstancesForPart_def Let_def wrap_pieces_def
  by (auto simp: list_all_iff playhead_ok wrapPiece_ok)

section \<open>Show style infinites within a rundown\<close>

text \<open>
  While the playhead stays in one rundown, the rundown is not among those before it, and the
  show style infinites go on only if the rundown just before it in the playlist has the same show
  style: a rundown that follows one of another show style loses them from part to part.
\<close>

theorem continueShowStyleEnd_within_rundown:
  assumes "rd_id rundown \<notin> set before"
    and "map_get styles (rd_id rundown) = Some (rd_showStyleBaseId rundown)"
  shows "continueShowStyleEndInfinites before styles (rd_id rundown) rundown \<longleftrightarrow>
    (before = [] \<or> map_get styles (last before) = Some (rd_showStyleBaseId rundown))"
proof -
  have "index_of before (rd_id rundown) = None"
    using assms(1) by (simp add: index_of_None)
  with assms(2) show ?thesis
    by (auto simp: continueShowStyleEndInfinites_def slice_from_index_of_def)
qed

theorem continueShowStyleEnd_within_rundown_witness:
  "\<not> continueShowStyleEndInfinites [''rd1''] [(''rd1'', ''news''), (''rd2'', ''sport'')] ''rd2''
     \<lparr>rd_id = ''rd2'', rd_showStyleBaseId = ''sport''\<rparr>"
  using continueShowStyleEnd_within_rundown
    [of "\<lparr>rd_id = ''rd2'', rd_showStyleBaseId = ''sport''\<rparr>" "[''rd1'']"
        "[(''rd1'', ''news''), (''rd2'', ''sport'')]"]
  by simp

section \<open>The queries\<close>

text \<open>
  The queries fetch every piece the model needs: a valid piece that may be active in a part is
  matched by the query for pieces starting in the part or, unless it is a show style infinite, by
  the query for past infinites, provided its segment lies in the rundown it names.
\<close>

theorem past_infinite_query_complete:
  assumes "isPiecePotentiallyActiveInPart prev (set partIds) (set segmentIds) before styles rundown part p"
    and "\<not> piece_invalid p" and "lifespan p \<noteq> OutOnShowStyleEnd"
    and "startSegmentId p = part_segmentId part \<Longrightarrow> startRundownId p = part_rundownId part"
  shows "query_matches (buildPiecesStartingInThisPartQuery part) p
    \<or> (\<exists>q. buildPastInfinitePiecesForThisPartQuery part partIds segmentIds rundownIds = Some q
           \<and> query_matches q p)"
proof (cases "startPartId p = part_id part")
  case True
  then show ?thesis by (simp add: buildPiecesStartingInThisPartQuery_def)
next
  case False
  define fs where "fs = past_fragments part partIds segmentIds rundownIds"
  have "(startRundownId p = part_rundownId part \<and> startSegmentId p = part_segmentId part
          \<and> startPartId p \<in> set partIds
          \<and> lifespan p \<in> {OutOnSegmentEnd, OutOnSegmentChange, OutOnRundownEnd, OutOnRundownChange})
    \<or> (startRundownId p = part_rundownId part \<and> startSegmentId p \<in> set segmentIds
          \<and> lifespan p \<in> {OutOnRundownEnd, OutOnRundownChange})"
    using assms(1,3,4) False
    by (cases "lifespan p") (simp_all add: isPiecePotentiallyActiveInPart_def split: if_splits)
  then obtain f where f: "f \<in> set fs" "fragment_matches f p"
  proof (elim disjE conjE)
    assume *: "startRundownId p = part_rundownId part" "startSegmentId p = part_segmentId part"
      "startPartId p \<in> set partIds"
      "lifespan p \<in> {OutOnSegmentEnd, OutOnSegmentChange, OutOnRundownEnd, OutOnRundownChange}"
    then have "partIds \<noteq> []" by auto
    with * show thesis
      by (intro that [of "fs ! 0"]) (auto simp: fs_def past_fragments_def fragment_matches_def)
  next
    assume *: "startRundownId p = part_rundownId part" "startSegmentId p \<in> set segmentIds"
      "lifespan p \<in> {OutOnRundownEnd, OutOnRundownChange}"
    then have "segmentIds \<noteq> []" by auto
    then have "\<lparr>q_lifespans = [OutOnRundownEnd, OutOnRundownChange, OutOnShowStyleEnd],
        q_startRundownId = CondEq (part_rundownId part), q_startSegmentId = CondIn segmentIds,
        q_startPartId = CondAny\<rparr> \<in> set fs"
      by (simp add: fs_def past_fragments_def)
    then show thesis by (rule that) (use * in \<open>auto simp: fragment_matches_def\<close>)
  qed
  have "fragment_matches (spread_fragment (CondNe (part_id part)) f) p"
    using f(2) False by (auto simp: spread_fragment_def fragment_matches_def)
  then have "\<exists>q. buildPastInfinitePiecesForThisPartQuery part partIds segmentIds rundownIds = Some q
      \<and> query_matches q p"
    using f assms(2) False unfolding buildPastInfinitePiecesForThisPartQuery_def fs_def [symmetric]
    by (auto simp: list_ex_iff split: list.splits)
  then show ?thesis ..
qed

theorem past_infinite_query_complete_witness:
  "query_matches (buildPiecesStartingInThisPartQuery (sample_part ''p2'' 1 ''seg''))
     (sample_planned ''a'' ''p1'' OutOnSegmentEnd 0)
   \<or> (\<exists>q. buildPastInfinitePiecesForThisPartQuery (sample_part ''p2'' 1 ''seg'') [''p1''] [] [] = Some q
        \<and> query_matches q (sample_planned ''a'' ''p1'' OutOnSegmentEnd 0))"
  by (rule past_infinite_query_complete [where prev = None and before = "[]" and styles = "[]"
        and rundown = "\<lparr>rd_id = ''rd'', rd_showStyleBaseId = ''s''\<rparr>"])
    (simp_all add: isPiecePotentiallyActiveInPart_def sample_defs)

end
