(* ===== verification/Process_Prune.thy ===== *)
theory Process_Prune
  imports Infinites Samples
begin

text \<open>
  Which piece instances of a part are shown, and until when: \<open>processAndPrunePieceInstanceTimings\<close>
  and \<open>resolvePrunedPieceInstance\<close> of \<open>packages/corelib/src/playout/processAndPrune.ts\<close>. The code
  keeps, per source layer group, the piece that is active on each stacking level, and writes the end
  cap of an active piece into the object it has pushed to \<open>results\<close>. The aliasing is made explicit:
  an active piece carries the index of its object in \<open>results\<close>, if it was pushed.
\<close>

section \<open>Data\<close>

text \<open>\<open>resolvedEndCap\<close>: \<open>number | { offsetFromNow: number }\<close>\<close>

datatype RelativeResolvedEndCap = EndAt time | OffsetFromNow time

record PieceInstanceWithTimings =
  pwt_instance :: PieceInstance
  resolvedEndCap :: "RelativeResolvedEndCap option"
  priority :: int

datatype infinite_layer = OnShowStyleEnd | OnRundownEnd | OnSegmentEnd | Other

text \<open>The object with an optional property for each stacking level\<close>

type_synonym 'a PieceInstanceOnInfiniteLayers = "infinite_layer \<Rightarrow> 'a option"

record ISourceLayer =
  layer_id :: string
  exclusiveGroup :: "string option"
  layer_rank :: rank
  isSticky :: bool
  stickyOriginalOnly :: bool
  allowDisable :: bool

record ResolvedPieceInstance =
  res_instance :: PieceInstanceWithTimings
  resolvedStart :: time
  resolvedDuration :: "int option"
  timelinePriority :: int

section \<open>Operations\<close>

fun getPieceStartTimeAsReference :: "start_time \<Rightarrow> RelativeResolvedEndCap" where
  "getPieceStartTimeAsReference (At t) = EndAt t"
| "getPieceStartTimeAsReference Now = OffsetFromNow 0"

definition isStartOfAdlib :: "PieceInstance \<Rightarrow> bool" where
  "isStartOfAdlib p =
     (truthy_num (dynamicallyInserted p)
      \<and> \<not> (case infinite p of None \<Rightarrow> False | Some i \<Rightarrow> fromPreviousPart i \<or> fromPreviousPlayhead i))"

definition getPieceStartTimeWithinPart :: "PieceInstance \<Rightarrow> start_time" where
  "getPieceStartTimeWithinPart p =
     (case en_start (enable (pi_piece p)) of
        At t \<Rightarrow> if isStartOfAdlib p then At (t + nullish (prerollDuration (pi_piece p)) 0) else At t
      | Now \<Rightarrow> Now)"

definition isClear :: "PieceInstance \<Rightarrow> bool" where
  "isClear p = virtual (pi_piece p)"

text \<open>An active piece: the instance, and where its object stands in \<open>results\<close>.\<close>

type_synonym active_piece = "PieceInstance \<times> nat option"

definition isCappedByAVirtual ::
  "active_piece PieceInstanceOnInfiniteLayers \<Rightarrow> infinite_layer \<Rightarrow> PieceInstance \<Rightarrow> bool" where
  "isCappedByAVirtual activePieces key newPiece =
     (if (key = OnRundownEnd \<or> key = OnShowStyleEnd)
         \<and> (case activePieces OnSegmentEnd of None \<Rightarrow> False
            | Some (a, _) \<Rightarrow> isCandidateMoreImportant newPiece a = Some True) then True
      else if key = OnShowStyleEnd
         \<and> (case activePieces OnRundownEnd of None \<Rightarrow> False
            | Some (a, _) \<Rightarrow> isCandidateMoreImportant newPiece a = Some True) then True
      else False)"

text \<open>Stop an active piece: a piece that was not pushed has no object that anyone can see.\<close>

definition cap_active ::
  "RelativeResolvedEndCap \<Rightarrow> active_piece \<Rightarrow> PieceInstanceWithTimings list
   \<Rightarrow> PieceInstanceWithTimings list" where
  "cap_active c a results =
     (case snd a of None \<Rightarrow> results
      | Some i \<Rightarrow> results[i := (results ! i)\<lparr>resolvedEndCap := Some c\<rparr>])"

type_synonym prune_state =
  "PieceInstanceWithTimings list \<times> active_piece PieceInstanceOnInfiniteLayers"

definition stops_other :: "active_piece PieceInstanceOnInfiniteLayers \<Rightarrow> infinite_layer \<Rightarrow> bool" where
  "stops_other activePieces key =
     (key = OnSegmentEnd
      \<or> key = OnRundownEnd \<and> activePieces OnSegmentEnd = None
      \<or> key = OnShowStyleEnd \<and> activePieces OnSegmentEnd = None \<and> activePieces OnRundownEnd = None)"

definition updateWithNewPieces ::
  "PieceInstanceWithTimings PieceInstanceOnInfiniteLayers \<Rightarrow> start_time \<Rightarrow> bool \<Rightarrow> infinite_layer
   \<Rightarrow> prune_state \<Rightarrow> prune_state" where
  "updateWithNewPieces newPieces newPiecesStart includeVirtual key s =
     (case s of (results, activePieces) \<Rightarrow>
      (case newPieces key of
        None \<Rightarrow> (results, activePieces)
      | Some newPiece \<Rightarrow>
         (let p = pwt_instance newPiece;
              results = (case activePieces key of
                  Some a \<Rightarrow> cap_active (getPieceStartTimeAsReference newPiecesStart) a results
                | None \<Rightarrow> results);
              listed = (includeVirtual
                \<or> ((\<not> isClear p \<or> key = Other) \<and> \<not> isCappedByAVirtual activePieces key p));
              activePieces = activePieces(key := Some (p, if listed then Some (length results) else None))
          in if \<not> listed then (results, activePieces)
             else let results = results @ [newPiece] in
               if stops_other activePieces key then
                 (case activePieces Other of
                    Some other \<Rightarrow>
                      if newPiecesStart \<noteq> At 0 \<or> isCandidateBetterToBeContinued (fst other) p
                      then (cap_active (getPieceStartTimeAsReference newPiecesStart) other results,
                            activePieces(Other := None))
                      else (results, activePieces)
                  | None \<Rightarrow> (results, activePieces))
               else (results, activePieces))))"

fun layer_of_lifespan :: "PieceLifespan \<Rightarrow> infinite_layer" where
  "layer_of_lifespan OutOnShowStyleEnd = OnShowStyleEnd"
| "layer_of_lifespan OutOnRundownEnd = OnRundownEnd"
| "layer_of_lifespan OutOnSegmentEnd = OnSegmentEnd"
| "layer_of_lifespan _ = Other"

fun layer_priority :: "infinite_layer \<Rightarrow> int" where
  "layer_priority OnShowStyleEnd = 0"
| "layer_priority OnRundownEnd = 1"
| "layer_priority OnSegmentEnd = 2"
| "layer_priority Other = 5"

definition put_on_layer ::
  "PieceInstance \<Rightarrow> PieceInstanceWithTimings PieceInstanceOnInfiniteLayers
   \<Rightarrow> PieceInstanceWithTimings PieceInstanceOnInfiniteLayers" where
  "put_on_layer piece res =
     (let k = layer_of_lifespan (lifespan (pi_piece piece)) in
      if (case res k of None \<Rightarrow> True
          | Some b \<Rightarrow> isCandidateBetterToBeContinued (pwt_instance b) piece)
      then res(k := Some \<lparr>pwt_instance = piece, resolvedEndCap = None, priority = layer_priority k\<rparr>)
      else res)"

definition findPieceInstancesOnInfiniteLayers ::
  "PieceInstance list \<Rightarrow> PieceInstanceWithTimings PieceInstanceOnInfiniteLayers" where
  "findPieceInstancesOnInfiniteLayers pieces = fold put_on_layer pieces (\<lambda>_. None)"

definition exclusive_groups :: "ISourceLayer option list \<Rightarrow> (string, string) js_map" where
  "exclusive_groups sourceLayers =
     fold (\<lambda>l m. case l of None \<Rightarrow> m
            | Some layer \<Rightarrow> if truthy_str (exclusiveGroup layer)
                then map_set (layer_id layer) (the (exclusiveGroup layer)) m else m) sourceLayers []"

definition layer_group :: "ISourceLayer option list \<Rightarrow> PieceInstance \<Rightarrow> string" where
  "layer_group sourceLayers p =
     (let l = sourceLayerId (pi_piece p); g = map_get (exclusive_groups sourceLayers) l in
      if disabled p then l else if truthy_str g then the g else l)"

definition start_at :: "time \<Rightarrow> start_time \<Rightarrow> time" where
  "start_at now s = (case s of Now \<Rightarrow> now | At t \<Rightarrow> t)"

definition piecesByStart :: "time \<Rightarrow> PieceInstance list \<Rightarrow> (start_time \<times> PieceInstance list) list" where
  "piecesByStart nowInPart pieces =
     js_sort (\<lambda>a b. start_at nowInPart (fst b) < start_at nowInPart (fst a))
       (groupByToMapFunc (\<lambda>p. Some (getPieceStartTimeWithinPart p)) pieces)"

definition step_through :: "bool \<Rightarrow> start_time \<times> PieceInstance list \<Rightarrow> prune_state \<Rightarrow> prune_state" where
  "step_through includeVirtual e s =
     (case e of (newPiecesStart, pieces) \<Rightarrow>
      let newPieces = findPieceInstancesOnInfiniteLayers pieces in
      fold (updateWithNewPieces newPieces newPiecesStart includeVirtual)
        [Other, OnSegmentEnd, OnRundownEnd, OnShowStyleEnd] s)"

definition process_group ::
  "time \<Rightarrow> bool \<Rightarrow> PieceInstance list \<Rightarrow> PieceInstanceWithTimings list \<Rightarrow> PieceInstanceWithTimings list" where
  "process_group nowInPart includeVirtual pieces results =
     fst (fold (step_through includeVirtual) (piecesByStart nowInPart pieces) (results, \<lambda>_. None))"

definition starts_and_ends_together :: "PieceInstanceWithTimings \<Rightarrow> bool" where
  "starts_and_ends_together p =
     (case resolvedEndCap p of Some (EndAt t) \<Rightarrow> en_start (enable (pi_piece (pwt_instance p))) = At t
      | _ \<Rightarrow> False)"

definition pruned_groups ::
  "ISourceLayer option list \<Rightarrow> PieceInstance list \<Rightarrow> bool \<Rightarrow> (string, PieceInstance list) js_map" where
  "pruned_groups sourceLayers pieces keepDisabledPieces =
     groupByToMapFunc (\<lambda>p. Some (layer_group sourceLayers p))
       (if keepDisabledPieces then pieces else filter (\<lambda>p. \<not> disabled p) pieces)"

definition processAndPrunePieceInstanceTimings ::
  "ISourceLayer option list \<Rightarrow> PieceInstance list \<Rightarrow> time \<Rightarrow> bool \<Rightarrow> bool
   \<Rightarrow> PieceInstanceWithTimings list" where
  "processAndPrunePieceInstanceTimings sourceLayers pieces nowInPart keepDisabledPieces includeVirtual =
     filter (\<lambda>p. \<not> starts_and_ends_together p)
       (fold (\<lambda>g. process_group nowInPart includeVirtual (snd g))
         (pruned_groups sourceLayers pieces keepDisabledPieces) [])"

definition resolved_caps :: "time \<Rightarrow> PieceInstanceWithTimings \<Rightarrow> int list" where
  "resolved_caps nowInPart p =
     (let s = start_at nowInPart (en_start (enable (pi_piece (pwt_instance p)))) in
      (case resolvedEndCap p of None \<Rightarrow> []
       | Some (EndAt t) \<Rightarrow> [t - s]
       | Some (OffsetFromNow d) \<Rightarrow> [nowInPart + d - s])
      @ (case en_duration (enable (pi_piece (pwt_instance p))) of None \<Rightarrow> [] | Some d \<Rightarrow> [d])
      @ (case userDuration (pwt_instance p) of None \<Rightarrow> []
         | Some (EndRelativeToPart t) \<Rightarrow> [t - s]
         | Some (EndRelativeToNow t) \<Rightarrow> [nowInPart + t - s]))"

definition resolvePrunedPieceInstance :: "time \<Rightarrow> PieceInstanceWithTimings \<Rightarrow> ResolvedPieceInstance" where
  "resolvePrunedPieceInstance nowInPart p =
     \<lparr>res_instance = p,
      resolvedStart = start_at nowInPart (en_start (enable (pi_piece (pwt_instance p)))),
      resolvedDuration =
        (case resolved_caps nowInPart p of [] \<Rightarrow> None | c # cs \<Rightarrow> Some (fold min cs c)),
      timelinePriority = priority p\<rparr>"

section \<open>Caps and starts\<close>

definition cap_time :: "time \<Rightarrow> RelativeResolvedEndCap \<Rightarrow> time" where
  "cap_time now c = (case c of EndAt t \<Rightarrow> t | OffsetFromNow d \<Rightarrow> now + d)"

definition level_of :: "PieceInstance \<Rightarrow> infinite_layer" where
  "level_of p = layer_of_lifespan (lifespan (pi_piece p))"

definition start_in_part :: "time \<Rightarrow> PieceInstance \<Rightarrow> time" where
  "start_in_part now p = start_at now (getPieceStartTimeWithinPart p)"

text \<open>The earlier of two pieces is stopped, at the latest when the later one starts.\<close>

definition stopped_by :: "time \<Rightarrow> PieceInstanceWithTimings \<Rightarrow> PieceInstanceWithTimings \<Rightarrow> bool" where
  "stopped_by now a b =
     (\<exists>c. resolvedEndCap a = Some c \<and> cap_time now c \<le> start_in_part now (pwt_instance b))"

lemma cap_time_start [simp]: "cap_time now (getPieceStartTimeAsReference s) = start_at now s"
  by (cases s) (simp_all add: cap_time_def start_at_def)

section \<open>One layer group\<close>

text \<open>
  The invariant of the walk through one group, at time \<open>t\<close>: the objects pushed before the group are
  as they were (\<open>pre\<close>); an active piece that was pushed is the only uncapped object of its level;
  every capped object is stopped by \<open>t\<close>, and before any later object of its level starts.
\<close>

definition walk_inv ::
  "time \<Rightarrow> PieceInstance set \<Rightarrow> PieceInstanceWithTimings list \<Rightarrow> time \<Rightarrow> prune_state \<Rightarrow> bool" where
  "walk_inv now W pre t s =
     (case s of (results, act) \<Rightarrow>
       length pre \<le> length results \<and> take (length pre) results = pre
       \<and> (\<forall>k p i. act k = Some (p, Some i) \<longrightarrow>
            length pre \<le> i \<and> i < length results \<and> pwt_instance (results ! i) = p
            \<and> level_of p = k \<and> resolvedEndCap (results ! i) = None)
       \<and> (\<forall>i. length pre \<le> i \<longrightarrow> i < length results \<longrightarrow>
            pwt_instance (results ! i) \<in> W
            \<and> priority (results ! i) = layer_priority (level_of (pwt_instance (results ! i)))
            \<and> (\<forall>c. resolvedEndCap (results ! i) = Some c \<longrightarrow> cap_time now c \<le> t)
            \<and> (resolvedEndCap (results ! i) = None \<longrightarrow>
                 (\<exists>p. act (level_of (pwt_instance (results ! i))) = Some (p, Some i))))
       \<and> (\<forall>i j. length pre \<le> i \<longrightarrow> i < j \<longrightarrow> j < length results \<longrightarrow>
            level_of (pwt_instance (results ! i)) = level_of (pwt_instance (results ! j)) \<longrightarrow>
            stopped_by now (results ! i) (results ! j)))"

lemma walk_inv_objects:
  assumes "walk_inv now W pre t (results, act)" "length pre \<le> i" "i < length results"
  shows "pwt_instance (results ! i) \<in> W"
    and "priority (results ! i) = layer_priority (level_of (pwt_instance (results ! i)))"
    and "resolvedEndCap (results ! i) = Some c \<Longrightarrow> cap_time now c \<le> t"
    and "resolvedEndCap (results ! i) = None \<Longrightarrow>
      \<exists>p. act (level_of (pwt_instance (results ! i))) = Some (p, Some i)"
  using assms unfolding walk_inv_def by simp_all

lemma walk_inv_mono: "walk_inv now W pre t s \<Longrightarrow> t \<le> t' \<Longrightarrow> walk_inv now W pre t' s"
  unfolding walk_inv_def by (fastforce split: prod.splits)

definition stop_level :: "RelativeResolvedEndCap \<Rightarrow> infinite_layer \<Rightarrow> prune_state \<Rightarrow> prune_state" where
  "stop_level c k s =
     ((case snd s k of Some a \<Rightarrow> cap_active c a (fst s) | None \<Rightarrow> fst s), (snd s)(k := None))"

definition push_level :: "infinite_layer \<Rightarrow> PieceInstanceWithTimings \<Rightarrow> prune_state \<Rightarrow> prune_state" where
  "push_level k p s = (fst s @ [p], (snd s)(k := Some (pwt_instance p, Some (length (fst s)))))"

lemma stop_level_inv:
  assumes inv: "walk_inv now W pre t s" and c: "cap_time now c = t"
  shows "walk_inv now W pre t (stop_level c k s)"
proof -
  obtain results act where s: "s = (results, act)" by fastforce
  show ?thesis
  proof (cases "\<exists>p i. act k = Some (p, Some i)")
    case False
    then have "stop_level c k s = (results, act(k := None))"
      by (auto simp: stop_level_def s cap_active_def split: option.splits)
    moreover have "(act(k := None)) l = Some (p, Some i) \<longleftrightarrow> act l = Some (p, Some i)" for l p i
      using False by auto
    ultimately show ?thesis
      using inv unfolding walk_inv_def s by (simp only: prod.case simp_thms) (elim conjE, intro conjI; assumption)
  next
    case True
    then obtain p i where a: "act k = Some (p, Some i)" by blast
    let ?r = "results[i := (results ! i)\<lparr>resolvedEndCap := Some c\<rparr>]"
    have st: "stop_level c k s = (?r, act(k := None))"
      by (simp add: stop_level_def s cap_active_def a)
    have i: "length pre \<le> i" "i < length results" "pwt_instance (results ! i) = p" "level_of p = k"
      "resolvedEndCap (results ! i) = None"
      using inv a unfolding walk_inv_def s by auto
    have keep: "pwt_instance (?r ! j) = pwt_instance (results ! j)" "priority (?r ! j) = priority (results ! j)"
      if "j < length results" for j
      using that i(2) by (simp_all add: nth_list_update)
    have capr: "resolvedEndCap (?r ! j) = (if j = i then Some c else resolvedEndCap (results ! j))"
      if "j < length results" for j
      using that i(2) by (simp add: nth_list_update)
    have obj: "pwt_instance (?r ! j) \<in> W
        \<and> priority (?r ! j) = layer_priority (level_of (pwt_instance (?r ! j)))
        \<and> (\<forall>c. resolvedEndCap (?r ! j) = Some c \<longrightarrow> cap_time now c \<le> t)"
      if "length pre \<le> j" "j < length ?r" for j
      using walk_inv_objects [OF inv [unfolded s] that(1)] that(2) c by (simp add: keep capr)
    have act: "length pre \<le> j \<and> j < length ?r \<and> pwt_instance (?r ! j) = q \<and> level_of q = l
        \<and> resolvedEndCap (?r ! j) = None" if "(act(k := None)) l = Some (q, Some j)" for l q j
    proof -
      from that have lj: "l \<noteq> k" "act l = Some (q, Some j)" by (simp_all split: if_splits)
      then have "length pre \<le> j \<and> j < length results \<and> pwt_instance (results ! j) = q
          \<and> level_of q = l \<and> resolvedEndCap (results ! j) = None"
        using inv unfolding walk_inv_def s by simp
      moreover from this have "j \<noteq> i" using lj i by auto
      ultimately show ?thesis by (simp add: keep capr)
    qed
    show ?thesis
      unfolding walk_inv_def st prod.case
    proof (intro conjI allI impI)
      show "length pre \<le> length ?r" using inv unfolding walk_inv_def s by simp
    next
      show "take (length pre) ?r = pre"
        using inv i(1) unfolding walk_inv_def s by (simp add: take_update_swap list_update_beyond)
    next
      fix j assume j: "length pre \<le> j" "j < length ?r" "resolvedEndCap (?r ! j) = None"
      then have "j \<noteq> i" "resolvedEndCap (results ! j) = None"
        by (auto simp: capr split: if_splits)
      then obtain q where q: "act (level_of (pwt_instance (results ! j))) = Some (q, Some j)"
        using walk_inv_objects(4) [OF inv [unfolded s] j(1)] j(2) by auto
      then have "level_of (pwt_instance (results ! j)) \<noteq> k"
        using a \<open>j \<noteq> i\<close> by auto
      with q j show "\<exists>p. (act(k := None)) (level_of (pwt_instance (?r ! j))) = Some (p, Some j)"
        by (simp add: keep)
    next
      fix j l assume jl: "length pre \<le> j" "j < l" "l < length ?r"
        "level_of (pwt_instance (?r ! j)) = level_of (pwt_instance (?r ! l))"
      then have st: "stopped_by now (results ! j) (results ! l)"
        using inv unfolding walk_inv_def s by (simp add: keep)
      then have "j \<noteq> i" using i by (auto simp: stopped_by_def)
      with st jl show "stopped_by now (?r ! j) (?r ! l)"
        by (auto simp: stopped_by_def capr keep)
    qed (use obj act in blast)+
  qed
qed


lemma forget_level_inv:
  "walk_inv now W pre t s \<Longrightarrow> snd s k = None \<Longrightarrow>
   walk_inv now W pre t (fst s, (snd s)(k := Some (p, None)))"
proof -
  assume inv: "walk_inv now W pre t s" and k: "snd s k = None"
  obtain results act where s: "s = (results, act)" by fastforce
  have "(act(k := Some (p, None))) l = Some (q, Some i) \<longleftrightarrow> act l = Some (q, Some i)" for l q i
    using k s by auto
  with inv show ?thesis
    unfolding walk_inv_def s by (simp only: prod.case simp_thms fst_conv snd_conv) (elim conjE, intro conjI; assumption)
qed

lemma push_level_inv:
  assumes inv: "walk_inv now W pre t s" and k: "snd s k = None"
    and p: "pwt_instance p \<in> W" "level_of (pwt_instance p) = k" "resolvedEndCap p = None"
      "priority p = layer_priority k" "start_in_part now (pwt_instance p) = t"
  shows "walk_inv now W pre t (push_level k p s)"
proof -
  obtain results act where s: "s = (results, act)" by fastforce
  have old: "\<exists>c. resolvedEndCap (results ! i) = Some c \<and> cap_time now c \<le> t"
    if "length pre \<le> i" "i < length results" "level_of (pwt_instance (results ! i)) = k" for i
  proof (cases "resolvedEndCap (results ! i)")
    case None
    with walk_inv_objects(4) [OF inv [unfolded s] that(1,2)] k s that show ?thesis by simp
  next
    case (Some c)
    with walk_inv_objects(3) [OF inv [unfolded s] that(1,2)] show ?thesis by simp
  qed
  have obj: "pwt_instance ((results @ [p]) ! i) \<in> W
      \<and> priority ((results @ [p]) ! i) = layer_priority (level_of (pwt_instance ((results @ [p]) ! i)))
      \<and> (\<forall>c. resolvedEndCap ((results @ [p]) ! i) = Some c \<longrightarrow> cap_time now c \<le> t)"
    if "length pre \<le> i" "i < length (results @ [p])" for i
  proof (cases "i < length results")
    case True
    with walk_inv_objects [OF inv [unfolded s] that(1) True] show ?thesis by (simp add: nth_append)
  next
    case False
    with that p show ?thesis by (simp add: nth_append)
  qed
  show ?thesis
    unfolding walk_inv_def push_level_def s prod.case fst_conv snd_conv
  proof (intro conjI allI impI)
    show "length pre \<le> length (results @ [p])" "take (length pre) (results @ [p]) = pre"
      using inv unfolding walk_inv_def s by simp_all
  next
    fix k' q i
    assume "(act(k := Some (pwt_instance p, Some (length results)))) k' = Some (q, Some i)"
    then have *: "k' = k \<and> q = pwt_instance p \<and> i = length results \<or> act k' = Some (q, Some i)"
      by (simp split: if_splits)
    have **: "length pre \<le> i \<and> i < length results \<and> pwt_instance (results ! i) = q
        \<and> level_of q = k' \<and> resolvedEndCap (results ! i) = None" if "act k' = Some (q, Some i)"
      using inv that unfolding walk_inv_def s by simp
    have "length pre \<le> length results" using inv unfolding walk_inv_def s by simp
    with * ** p show "length pre \<le> i" "i < length (results @ [p])"
      "pwt_instance ((results @ [p]) ! i) = q" "level_of q = k'"
      "resolvedEndCap ((results @ [p]) ! i) = None"
      by (auto simp: nth_append)
  next
    fix i assume i: "length pre \<le> i" "i < length (results @ [p])"
      "resolvedEndCap ((results @ [p]) ! i) = None"
    show "\<exists>q. (act(k := Some (pwt_instance p, Some (length results))))
        (level_of (pwt_instance ((results @ [p]) ! i))) = Some (q, Some i)"
    proof (cases "i < length results")
      case True
      then have "level_of (pwt_instance (results ! i)) \<noteq> k"
        using old i by (fastforce simp: nth_append)
      with True i inv show ?thesis unfolding walk_inv_def s by (simp add: nth_append)
    next
      case False
      with i p show ?thesis by (simp add: nth_append)
    qed
  next
    fix i j assume ij: "length pre \<le> i" "i < j" "j < length (results @ [p])"
      "level_of (pwt_instance ((results @ [p]) ! i)) = level_of (pwt_instance ((results @ [p]) ! j))"
    show "stopped_by now ((results @ [p]) ! i) ((results @ [p]) ! j)"
    proof (cases "j < length results")
      case True
      with ij inv show ?thesis unfolding walk_inv_def s by (simp add: nth_append)
    next
      case False
      with ij have "j = length results" "i < length results" by auto
      with ij old [of i] p show ?thesis by (simp add: nth_append stopped_by_def)
    qed
  qed (use obj in blast)+
qed

text \<open>One update is made of three moves.\<close>

lemma updateWithNewPieces_moves:
  fixes start :: start_time and s :: prune_state
  assumes "newPieces key = Some p"
  defines "c \<equiv> getPieceStartTimeAsReference start"
  defines "s1 \<equiv> stop_level c key s"
  shows "updateWithNewPieces newPieces start v key s \<in>
    {(fst s1, (snd s1)(key := Some (pwt_instance p, None))), push_level key p s1,
     stop_level c Other (push_level key p s1)}"
proof -
  obtain results act where s: "s = (results, act)" by fastforce
  show ?thesis
    unfolding updateWithNewPieces_def s prod.case assms(1) option.case Let_def
    by (auto simp: s1_def s c_def stop_level_def push_level_def split: option.splits)
qed

lemma updateWithNewPieces_inv:
  assumes inv: "walk_inv now W pre t s" and t: "start_at now start = t"
    and new: "\<And>p. newPieces key = Some p \<Longrightarrow> pwt_instance p \<in> W \<and> level_of (pwt_instance p) = key
      \<and> resolvedEndCap p = None \<and> priority p = layer_priority key
      \<and> getPieceStartTimeWithinPart (pwt_instance p) = start"
  shows "walk_inv now W pre t (updateWithNewPieces newPieces start v key s)"
proof (cases "newPieces key")
  case None
  with inv show ?thesis by (simp add: updateWithNewPieces_def split: prod.splits)
next
  case (Some p)
  let ?c = "getPieceStartTimeAsReference start"
  have s1: "walk_inv now W pre t (stop_level ?c key s)" "snd (stop_level ?c key s) key = None"
    using stop_level_inv [OF inv] t by (auto simp: stop_level_def)
  then have s2: "walk_inv now W pre t (push_level key p (stop_level ?c key s))"
    using new [OF Some] t by (intro push_level_inv) (simp_all add: start_in_part_def)
  have s3: "walk_inv now W pre t (stop_level ?c Other (push_level key p (stop_level ?c key s)))"
    using stop_level_inv [OF s2] t by simp
  show ?thesis
    using updateWithNewPieces_moves [where newPieces = newPieces and key = key and p = p
        and start = start and s = s and v = v, OF Some]
      forget_level_inv [OF s1] s2 s3 by auto
qed

lemma findPieceInstances_level:
  assumes "findPieceInstancesOnInfiniteLayers pieces k = Some p"
  shows "pwt_instance p \<in> set pieces \<and> level_of (pwt_instance p) = k \<and> resolvedEndCap p = None
    \<and> priority p = layer_priority k"
  using assms
proof (induction pieces arbitrary: p rule: rev_induct)
  case Nil
  then show ?case by (simp add: findPieceInstancesOnInfiniteLayers_def)
next
  case (snoc x xs)
  then show ?case
    by (auto simp: findPieceInstancesOnInfiniteLayers_def put_on_layer_def Let_def level_of_def
        split: if_splits)
qed

text \<open>On each level the code keeps the best of the pieces that start together.\<close>

lemma findPieceInstances_best:
  "map_option pwt_instance (findPieceInstancesOnInfiniteLayers pieces k) =
     pick_best isCandidateBetterToBeContinued (filter (\<lambda>p. level_of p = k) pieces)"
proof (induction pieces rule: rev_induct)
  case Nil
  then show ?case by (simp add: findPieceInstancesOnInfiniteLayers_def)
next
  case (snoc x xs)
  then show ?case
    by (auto simp: findPieceInstancesOnInfiniteLayers_def put_on_layer_def Let_def level_of_def
        pick_best_from_snoc split: option.splits)
qed

lemma step_through_inv:
  assumes inv: "walk_inv now W pre t s" and t: "t \<le> start_at now start"
    and e: "\<And>k p. findPieceInstancesOnInfiniteLayers es k = Some p \<Longrightarrow>
      pwt_instance p \<in> W \<and> getPieceStartTimeWithinPart (pwt_instance p) = start"
  shows "walk_inv now W pre (start_at now start) (step_through v (start, es) s)"
proof -
  let ?n = "findPieceInstancesOnInfiniteLayers es"
  have upd: "walk_inv now W pre (start_at now start) (updateWithNewPieces ?n start v k s')"
    if "walk_inv now W pre (start_at now start) s'" for k s'
    using that e findPieceInstances_level [of es] by (intro updateWithNewPieces_inv) simp_all
  show ?thesis
    using walk_inv_mono [OF inv t] by (simp add: step_through_def upd Let_def)
qed

lemma walk_through:
  assumes "walk_inv now W pre t s" "sorted_wrt (\<lambda>a b. start_at now (fst a) \<le> start_at now (fst b)) es"
    and "\<forall>e\<in>set es. t \<le> start_at now (fst e)"
    and "\<And>e k p. e \<in> set es \<Longrightarrow> findPieceInstancesOnInfiniteLayers (snd e) k = Some p \<Longrightarrow>
      pwt_instance p \<in> W \<and> getPieceStartTimeWithinPart (pwt_instance p) = fst e"
  shows "\<exists>t'. walk_inv now W pre t' (fold (step_through v) es s)"
  using assms
proof (induction es arbitrary: t s)
  case Nil
  then show ?case by auto
next
  case (Cons e es)
  have "walk_inv now W pre (start_at now (fst e)) (step_through v e s)"
    using step_through_inv [OF Cons.prems(1), of "fst e" "snd e" v] Cons.prems(3,4)
    by (metis list.set_intros(1) prod.collapse)
  then have "\<exists>t'. walk_inv now W pre t' (fold (step_through v) es (step_through v e s))"
  proof (rule Cons.IH)
    show "pwt_instance p \<in> W \<and> getPieceStartTimeWithinPart (pwt_instance p) = fst d"
      if "d \<in> set es" "findPieceInstancesOnInfiniteLayers (snd d) k = Some p" for d k p
      using Cons.prems(4) [OF _ that(2)] that(1) by simp
  qed (use Cons.prems(2) in simp_all)
  then show ?case by simp
qed

definition best_at_start :: "PieceInstance list \<Rightarrow> PieceInstance \<Rightarrow> bool" where
  "best_at_start ps p =
     (p \<in> set ps \<and> (\<forall>q\<in>set ps. getPieceStartTimeWithinPart q = getPieceStartTimeWithinPart p
        \<longrightarrow> level_of q = level_of p \<longrightarrow> \<not> isCandidateBetterToBeContinued p q))"

lemma piecesByStart_entry:
  assumes "e \<in> set (piecesByStart now ps)" "findPieceInstancesOnInfiniteLayers (snd e) k = Some p"
  shows "best_at_start ps (pwt_instance p) \<and> getPieceStartTimeWithinPart (pwt_instance p) = fst e"
proof -
  have e: "snd e = filter (\<lambda>p. getPieceStartTimeWithinPart p = fst e) ps"
    using assms(1) groupBy_entry [of "fst e" "snd e" "\<lambda>p. Some (getPieceStartTimeWithinPart p)" ps]
    by (simp add: piecesByStart_def)
  have "pick_best isCandidateBetterToBeContinued (filter (\<lambda>p. level_of p = k) (snd e))
      = Some (pwt_instance p)"
    using assms(2) findPieceInstances_best [of "snd e" k] by simp
  from continued.pick_best_max [OF _ this]
  show ?thesis
    using findPieceInstances_level [OF assms(2)] by (simp add: e best_at_start_def)
qed

lemma piecesByStart_sorted:
  "sorted_wrt (\<lambda>a b. start_at now (fst a) \<le> start_at now (fst b)) (piecesByStart now ps)"
  unfolding piecesByStart_def js_sort_key [of "\<lambda>e. start_at now (fst e)"]
  using sorted_sort_key by (metis (no_types) sorted_map)

lemma process_group_inv:
  "\<exists>t act. walk_inv now (Collect (best_at_start ps)) pre t (process_group now v ps pre, act)"
proof -
  let ?es = "piecesByStart now ps"
  define t where "t = Min (insert 0 ((\<lambda>e. start_at now (fst e)) ` set ?es))"
  have "\<forall>e\<in>set ?es. t \<le> start_at now (fst e)" by (simp add: t_def)
  moreover have "walk_inv now (Collect (best_at_start ps)) pre t (pre, \<lambda>_. None)"
    by (simp add: walk_inv_def)
  ultimately obtain t' where
    "walk_inv now (Collect (best_at_start ps)) pre t' (fold (step_through v) ?es (pre, \<lambda>_. None))"
    using walk_through [OF _ piecesByStart_sorted, where W = "Collect (best_at_start ps)"]
      piecesByStart_entry [of _ now ps] unfolding mem_Collect_eq by blast
  then show ?thesis
    by (metis process_group_def prod.collapse)
qed

section \<open>All groups\<close>

definition same_stack :: "ISourceLayer option list \<Rightarrow> PieceInstanceWithTimings \<Rightarrow> PieceInstanceWithTimings \<Rightarrow> bool" where
  "same_stack sl a b =
     (layer_group sl (pwt_instance a) = layer_group sl (pwt_instance b) \<and> priority a = priority b)"

definition groups_inv ::
  "ISourceLayer option list \<Rightarrow> time \<Rightarrow> (string, PieceInstance list) js_map \<Rightarrow> PieceInstanceWithTimings list \<Rightarrow> bool" where
  "groups_inv sl now gs results =
     ((\<forall>r\<in>set results. priority r = layer_priority (level_of (pwt_instance r))
        \<and> (\<exists>g\<in>set gs. best_at_start (snd g) (pwt_instance r)))
      \<and> sorted_wrt (\<lambda>a b. same_stack sl a b \<longrightarrow> stopped_by now a b) results)"

lemma layer_priority_inj [simp]: "layer_priority a = layer_priority b \<longleftrightarrow> a = b"
  by (cases a; cases b) simp_all

lemma process_group_groups_inv:
  assumes gs: "groups_inv sl now gs pre"
    and g: "\<forall>p\<in>set (snd g). layer_group sl p = fst g"
    and other: "\<forall>h\<in>set gs. \<forall>p\<in>set (snd h). layer_group sl p \<noteq> fst g"
  shows "groups_inv sl now (gs @ [g]) (process_group now v (snd g) pre)"
proof -
  let ?r = "process_group now v (snd g) pre"
  obtain t act where inv: "walk_inv now (Collect (best_at_start (snd g))) pre t (?r, act)"
    using process_group_inv by blast
  have len: "length pre \<le> length ?r" and pre: "take (length pre) ?r = pre"
    using inv unfolding walk_inv_def by simp_all
  have old: "?r ! i = pre ! i" if "i < length pre" for i
    using pre that by (metis nth_take)
  have new: "best_at_start (snd g) (pwt_instance (?r ! i))"
    "priority (?r ! i) = layer_priority (level_of (pwt_instance (?r ! i)))"
    if "length pre \<le> i" "i < length ?r" for i
    using walk_inv_objects(1,2) [OF inv that] by simp_all
  have grp: "layer_group sl (pwt_instance (?r ! i)) = fst g \<longleftrightarrow> length pre \<le> i" if "i < length ?r" for i
  proof (cases "length pre \<le> i")
    case True
    with new(1) [OF True that] g show ?thesis by (simp add: best_at_start_def)
  next
    case False
    then have "pre ! i \<in> set pre" by simp
    with gs obtain h where "h \<in> set gs" "best_at_start (snd h) (pwt_instance (pre ! i))"
      unfolding groups_inv_def by blast
    with other False old [of i] show ?thesis by (simp add: best_at_start_def)
  qed
  have "priority r = layer_priority (level_of (pwt_instance r))
      \<and> (\<exists>h\<in>set (gs @ [g]). best_at_start (snd h) (pwt_instance r))" if "r \<in> set ?r" for r
  proof -
    from that obtain i where i: "i < length ?r" "r = ?r ! i" by (auto simp: in_set_conv_nth)
    show ?thesis
    proof (cases "length pre \<le> i")
      case True
      with new [OF True i(1)] i show ?thesis by auto
    next
      case False
      then have "r \<in> set pre" using i old by simp
      with gs show ?thesis unfolding groups_inv_def by auto
    qed
  qed
  moreover have "same_stack sl (?r ! i) (?r ! j) \<longrightarrow> stopped_by now (?r ! i) (?r ! j)"
    if ij: "i < j" "j < length ?r" for i j
  proof
    assume same: "same_stack sl (?r ! i) (?r ! j)"
    then have b: "length pre \<le> i \<longleftrightarrow> length pre \<le> j"
      using grp [of i] grp [of j] ij by (simp add: same_stack_def)
    show "stopped_by now (?r ! i) (?r ! j)"
    proof (cases "length pre \<le> i")
      case True
      then have "level_of (pwt_instance (?r ! i)) = level_of (pwt_instance (?r ! j))"
        using same new(2) [of i] new(2) [of j] ij b by (simp add: same_stack_def)
      with True ij inv show ?thesis unfolding walk_inv_def by simp
    next
      case False
      with b ij same gs show ?thesis
        unfolding groups_inv_def sorted_wrt_iff_nth_less by (simp add: old)
    qed
  qed
  ultimately show ?thesis
    unfolding groups_inv_def sorted_wrt_iff_nth_less by blast
qed

lemma groups_inv_fold:
  assumes "distinct (map fst hs)" and "\<forall>g\<in>set hs. \<forall>p\<in>set (snd g). layer_group sl p = fst g"
    and "groups_inv sl now gs pre"
    and "\<forall>g\<in>set gs. \<forall>p\<in>set (snd g). layer_group sl p \<notin> fst ` set hs"
  shows "groups_inv sl now (gs @ hs) (fold (\<lambda>g. process_group now v (snd g)) hs pre)"
  using assms
proof (induction hs arbitrary: gs pre)
  case Nil
  then show ?case by simp
next
  case (Cons h hs)
  have "groups_inv sl now (gs @ [h]) (process_group now v (snd h) pre)"
    using Cons.prems by (intro process_group_groups_inv) auto
  moreover have "\<forall>g\<in>set (gs @ [h]). \<forall>p\<in>set (snd g). layer_group sl p \<notin> fst ` set hs"
    using Cons.prems by auto
  ultimately have "groups_inv sl now ((gs @ [h]) @ hs)
      (fold (\<lambda>g. process_group now v (snd g)) hs (process_group now v (snd h) pre))"
    using Cons.prems(1,2) by (intro Cons.IH) simp_all
  then show ?case by simp
qed

definition considered :: "PieceInstance list \<Rightarrow> bool \<Rightarrow> PieceInstance list" where
  "considered pieces keepDisabledPieces =
     (if keepDisabledPieces then pieces else filter (\<lambda>p. \<not> disabled p) pieces)"

lemma pruned_groups_entry:
  "g \<in> set (pruned_groups sl pieces keep) \<Longrightarrow>
   snd g = filter (\<lambda>p. layer_group sl p = fst g) (considered pieces keep)"
  unfolding pruned_groups_def considered_def
  by (rule groupBy_entry [of "fst g" "snd g" "\<lambda>p. Some (layer_group sl p)", simplified]) simp

lemma all_groups_inv:
  "groups_inv sl now (pruned_groups sl pieces keep)
     (fold (\<lambda>g. process_group now v (snd g)) (pruned_groups sl pieces keep) [])"
proof -
  have "distinct (map fst (pruned_groups sl pieces keep))"
    using map_wf_groupBy [of "\<lambda>p. Some (layer_group sl p)" "considered pieces keep"]
    unfolding pruned_groups_def map_wf_def considered_def .
  moreover have "\<forall>g\<in>set (pruned_groups sl pieces keep). \<forall>p\<in>set (snd g). layer_group sl p = fst g"
    by (auto simp: pruned_groups_entry)
  ultimately show ?thesis
    using groups_inv_fold [where gs = "[]" and pre = "[]"] by (simp add: groups_inv_def)
qed

lemma fold_min_le: "fold min cs c \<le> (c::int) \<and> (\<forall>x\<in>set cs. fold min cs c \<le> x)"
proof (induction cs arbitrary: c)
  case (Cons x xs)
  from Cons.IH [of "min x c"] show ?case by simp
qed simp

lemma fold_min_in: "fold min cs c \<in> insert (c::int) (set cs)"
  by (induction cs arbitrary: c) (auto simp: min_def split: if_splits)

lemma resolvedDuration_Some:
  "resolved_caps now p \<noteq> [] \<Longrightarrow>
   \<exists>d. resolvedDuration (resolvePrunedPieceInstance now p) = Some d \<and> d \<in> set (resolved_caps now p)
     \<and> (\<forall>c\<in>set (resolved_caps now p). d \<le> c)"
  using fold_min_le fold_min_in
  by (cases "resolved_caps now p") (auto simp: resolvePrunedPieceInstance_def)

section \<open>Properties\<close>

text \<open>
  C2. The pieces kept for a part do not overlap: of two of them in one layer group and on one
  stacking level, the earlier in the list has a resolved duration, and ends at the latest when the
  later one starts.
\<close>

theorem pruned_pieces_do_not_overlap:
  "sorted_wrt (\<lambda>a b. same_stack sl a b \<longrightarrow>
       (\<exists>d. resolvedDuration (resolvePrunedPieceInstance now a) = Some d
          \<and> resolvedStart (resolvePrunedPieceInstance now a) + d \<le> start_in_part now (pwt_instance b)))
     (processAndPrunePieceInstanceTimings sl pieces now keep v)"
proof -
  let ?all = "fold (\<lambda>g. process_group now v (snd g)) (pruned_groups sl pieces keep) []"
  have "sorted_wrt (\<lambda>a b. same_stack sl a b \<longrightarrow> stopped_by now a b) ?all"
    using all_groups_inv unfolding groups_inv_def by blast
  then have s: "sorted_wrt (\<lambda>a b. same_stack sl a b \<longrightarrow> stopped_by now a b)
      (processAndPrunePieceInstanceTimings sl pieces now keep v)"
    unfolding processAndPrunePieceInstanceTimings_def by (rule sorted_wrt_filter)
  have "\<exists>d. resolvedDuration (resolvePrunedPieceInstance now a) = Some d
      \<and> resolvedStart (resolvePrunedPieceInstance now a) + d \<le> start_in_part now (pwt_instance b)"
    if "stopped_by now a b" for a b
  proof -
    from that obtain c where c: "resolvedEndCap a = Some c"
      "cap_time now c \<le> start_in_part now (pwt_instance b)"
      unfolding stopped_by_def by blast
    then have "cap_time now c - resolvedStart (resolvePrunedPieceInstance now a)
        \<in> set (resolved_caps now a)"
      by (cases c) (simp_all add: resolved_caps_def cap_time_def resolvePrunedPieceInstance_def Let_def)
    then show ?thesis
      using resolvedDuration_Some [of now a] c(2) by fastforce
  qed
  with s show ?thesis by (auto elim: sorted_wrt_mono_rel [rotated])
qed

text \<open>
  C37. Every piece kept is a piece that was given and considered, carries the priority of its
  lifespan, is not cut off at the very time, as a number, at which it starts, and none of the
  considered pieces of its layer group and stacking level that start with it is a better one to
  continue.
\<close>

theorem pruned_pieces_are_best:
  assumes "r \<in> set (processAndPrunePieceInstanceTimings sl pieces now keep v)"
  shows "pwt_instance r \<in> set (considered pieces keep)
    \<and> priority r = layer_priority (layer_of_lifespan (lifespan (pi_piece (pwt_instance r))))
    \<and> (\<forall>t. resolvedEndCap r = Some (EndAt t) \<longrightarrow> en_start (enable (pi_piece (pwt_instance r))) \<noteq> At t)
    \<and> best_at_start (filter (\<lambda>p. layer_group sl p = layer_group sl (pwt_instance r))
           (considered pieces keep)) (pwt_instance r)"
proof -
  let ?all = "fold (\<lambda>g. process_group now v (snd g)) (pruned_groups sl pieces keep) []"
  have r: "r \<in> set ?all" "\<not> starts_and_ends_together r"
    using assms by (simp_all add: processAndPrunePieceInstanceTimings_def)
  from all_groups_inv [of sl now pieces keep v] r(1) obtain g
    where p: "priority r = layer_priority (level_of (pwt_instance r))"
      and g: "g \<in> set (pruned_groups sl pieces keep)" "best_at_start (snd g) (pwt_instance r)"
    unfolding groups_inv_def by blast
  have "pwt_instance r \<in> set (snd g)" using g(2) by (simp add: best_at_start_def)
  then have "layer_group sl (pwt_instance r) = fst g" "pwt_instance r \<in> set (considered pieces keep)"
    using pruned_groups_entry [OF g(1)] by simp_all
  moreover have "\<forall>t. resolvedEndCap r = Some (EndAt t) \<longrightarrow> en_start (enable (pi_piece (pwt_instance r))) \<noteq> At t"
    using r(2) by (auto simp: starts_and_ends_together_def)
  ultimately show ?thesis using p g(2) pruned_groups_entry [OF g(1)] by (simp add: level_of_def)
qed

definition ex_cam :: "PieceId \<Rightarrow> time \<Rightarrow> PieceInstance" where
  "ex_cam i t = sample_instance (sample_piece\<lparr>piece_id := i, enable := \<lparr>en_start = At t, en_duration = None\<rparr>\<rparr>)"

lemma ex_pruned:
  "processAndPrunePieceInstanceTimings [] [ex_cam ''b'' 1000, ex_cam ''a'' 0] 0 False False =
     [\<lparr>pwt_instance = ex_cam ''a'' 0, resolvedEndCap = Some (EndAt 1000), priority = 5\<rparr>,
      \<lparr>pwt_instance = ex_cam ''b'' 1000, resolvedEndCap = None, priority = 5\<rparr>]"
  by (simp add: processAndPrunePieceInstanceTimings_def pruned_groups_def layer_group_def
      exclusive_groups_def truthy_str_def groupByToMapFunc_def process_group_def piecesByStart_def
      getPieceStartTimeWithinPart_def isStartOfAdlib_def truthy_num_def step_through_def start_at_def
      findPieceInstancesOnInfiniteLayers_def put_on_layer_def updateWithNewPieces_def cap_active_def
      isCappedByAVirtual_def isClear_def stops_other_def starts_and_ends_together_def
      ex_cam_def sample_defs rewrapPieceToInstance_def Let_def)

lemma ex_cam_group: "layer_group [] (ex_cam i t) = ''cam''" "disabled (ex_cam i t) = False"
  by (simp_all add: layer_group_def exclusive_groups_def ex_cam_def sample_defs
      rewrapPieceToInstance_def truthy_str_def Let_def)

theorem pruned_pieces_do_not_overlap_witness:
  "let res = processAndPrunePieceInstanceTimings [] [ex_cam ''b'' 1000, ex_cam ''a'' 0] 0 False False
   in \<exists>d. resolvedDuration (resolvePrunedPieceInstance 0 (res ! 0)) = Some d
     \<and> resolvedStart (resolvePrunedPieceInstance 0 (res ! 0)) + d
         \<le> start_in_part 0 (pwt_instance (res ! 1))"
  using pruned_pieces_do_not_overlap [of "[]" 0 "[ex_cam ''b'' 1000, ex_cam ''a'' 0]" False False]
  by (simp add: ex_pruned same_stack_def ex_cam_group Let_def)

theorem pruned_pieces_are_best_witness:
  "best_at_start [ex_cam ''b'' 1000, ex_cam ''a'' 0] (ex_cam ''a'' 0)"
  using pruned_pieces_are_best [of "\<lparr>pwt_instance = ex_cam ''a'' 0, resolvedEndCap = Some (EndAt 1000),
      priority = 5\<rparr>" "[]" "[ex_cam ''b'' 1000, ex_cam ''a'' 0]" 0 False False]
  by (simp add: ex_pruned ex_cam_group considered_def)

end
