(* ===== verification/Select_Next.thy ===== *)
theory Select_Next
  imports Playlist_Order Samples
begin

text \<open>
  The choice of the part that comes next: \<open>selectNextPart\<close> and \<open>moveNextPart\<close> of
  \<open>packages/job-worker/src/playout\<close>. Of the playout model only the ordered segments and parts and
  the current and next part instances are read; what \<open>moveNextPart\<close> hands to
  \<open>setNextPartFromPart\<close> is its result.
\<close>

section \<open>Selecting the next part\<close>

record SelectNextPartResult =
  sel_part :: DBPart
  sel_index :: nat
  consumesQueuedSegmentId :: bool

text \<open>
  The loop \<open>for (let index = offset; index < (length || parts.length); index++)\<close>: an absent length
  and a length of zero both stand for the end of the array.
\<close>

definition search_limit :: "DBPart list \<Rightarrow> int option \<Rightarrow> nat" where
  "search_limit parts len = nat (if truthy_num len then the len else int (length parts))"

definition findFirstPlayablePart ::
  "bool \<Rightarrow> DBPart list \<Rightarrow> nat \<Rightarrow> (DBPart \<Rightarrow> bool) option \<Rightarrow> int option \<Rightarrow> SelectNextPartResult option" where
  "findFirstPlayablePart ignoreUnplayable parts offset condition len =
     map_option (\<lambda>i. \<lparr>sel_part = parts ! i, sel_index = i, consumesQueuedSegmentId = False\<rparr>)
       (find (\<lambda>i. (\<not> ignoreUnplayable \<or> isPartPlayable (parts ! i))
                \<and> (case condition of None \<Rightarrow> True | Some c \<Rightarrow> c (parts ! i)))
          [offset..<search_limit parts len])"

definition segmentStarts :: "DBPart list \<Rightarrow> SegmentId \<Rightarrow> nat option" where
  "segmentStarts parts s = find_index (\<lambda>p. part_segmentId p = s) parts"

text \<open>The loop over the parts of one segment, from index \<open>i\<close>.\<close>

fun next_in_segment ::
  "SegmentId \<Rightarrow> rank \<Rightarrow> nat \<Rightarrow> DBPart list \<Rightarrow> nat option \<Rightarrow> nat option" where
  "next_in_segment s r i [] acc = acc"
| "next_in_segment s r i (p # ps) acc =
     (if part_segmentId p \<noteq> s then acc
      else next_in_segment s r (Suc i) ps (if part_rank p \<le> r then Some (Suc i) else acc))"

fun following_segment_start :: "DBPart list \<Rightarrow> DBSegment list \<Rightarrow> nat option" where
  "following_segment_start parts [] = None"
| "following_segment_start parts (s # ss) =
     (case segmentStarts parts (seg_id s) of Some i \<Rightarrow> Some i
      | None \<Rightarrow> following_segment_start parts ss)"

definition search_from_index :: "DBPartInstance \<Rightarrow> DBSegment list \<Rightarrow> DBPart list \<Rightarrow> nat" where
  "search_from_index prev segments parts =
     (case find_index (\<lambda>p. part_id p = part_id (inst_part prev)) parts of
        Some currentIndex \<Rightarrow> Suc currentIndex
      | None \<Rightarrow>
         (case segmentStarts parts (inst_segmentId prev) of
            Some segmentStartIndex \<Rightarrow>
              nullish (next_in_segment (inst_segmentId prev) (part_rank (inst_part prev))
                 segmentStartIndex (drop segmentStartIndex parts) None) segmentStartIndex
          | None \<Rightarrow>
             (case find_index (\<lambda>s. seg_id s = inst_segmentId prev) segments of
                Some segmentIndex \<Rightarrow>
                  nullish (following_segment_start parts (drop (Suc segmentIndex) segments))
                    (Suc (length parts))
              | None \<Rightarrow> 0)))"

definition over_selected :: "DBPartInstance option \<Rightarrow> DBPart list \<Rightarrow> DBPart list" where
  "over_selected currentlySelected parts0 =
     (case currentlySelected of None \<Rightarrow> parts0
      | Some i \<Rightarrow> map (\<lambda>p. if part_id p = part_id (inst_part i) then inst_part i else p) parts0)"

definition selectNextPart ::
  "SegmentId option \<Rightarrow> bool \<Rightarrow> DBPartInstance option \<Rightarrow> DBPartInstance option \<Rightarrow> DBSegment list
   \<Rightarrow> DBPart list \<Rightarrow> bool \<Rightarrow> SelectNextPartResult option" where
  "selectNextPart queuedSegmentId loop previousPartInstance currentlySelectedPartInstance segments
     parts0 ignoreUnplayable =
     (let parts = over_selected currentlySelectedPartInstance parts0;
          first = findFirstPlayablePart ignoreUnplayable parts;
          searchFromIndex = (case previousPartInstance of None \<Rightarrow> 0
            | Some prev \<Rightarrow> search_from_index prev segments parts);
          nextPart = first searchFromIndex None None;
          nextPart =
            (if truthy_str queuedSegmentId
                \<and> (case previousPartInstance of None \<Rightarrow> True
                   | Some prev \<Rightarrow> (case nextPart of None \<Rightarrow> False
                       | Some n \<Rightarrow> inst_segmentId prev \<noteq> part_segmentId (sel_part n)))
             then (case first 0 (Some (\<lambda>p. Some (part_segmentId p) = queuedSegmentId)) None of
                     Some n \<Rightarrow> Some (n\<lparr>consumesQueuedSegmentId := True\<rparr>)
                   | None \<Rightarrow> nextPart)
             else nextPart)
      in if loop \<and> nextPart = None \<and> previousPartInstance \<noteq> None
         then first 0 None (Some (int searchFromIndex - 1))
         else nextPart)"

section \<open>Moving the next part by hand\<close>

datatype move_error = NoNextAndNoCurrentPart | SegmentNotFound | PartNotFoundAfterInsert | MissingDelta

text \<open>\<open>Inr (Some part)\<close>: the part is set as next. \<open>Inr None\<close>: nothing looked valid.\<close>

type_synonym move_result = "move_error + DBPart option"

text \<open>\<open>xs[i]\<close> on an array: \<open>undefined\<close> out of range\<close>

definition at_index :: "'a list \<Rightarrow> int \<Rightarrow> 'a option" where
  "at_index xs i = (if 0 \<le> i \<and> i < int (length xs) then Some (xs ! nat i) else None)"

definition considerSegments :: "SegmentId \<Rightarrow> DBSegment list \<Rightarrow> DBSegment list" where
  "considerSegments refSegmentId rawSegments =
     filter (\<lambda>s. seg_id s = refSegmentId \<or> \<not> isHidden s \<or> seg_orphaned s = Some AdlibTesting) rawSegments"

definition not_current :: "DBPartInstance option \<Rightarrow> DBPart \<Rightarrow> bool" where
  "not_current current p = (case current of None \<Rightarrow> True | Some c \<Rightarrow> part_id p \<noteq> part_id (inst_part c))"

fun first_part_of_segments ::
  "(SegmentId, DBPart list) js_map \<Rightarrow> DBPartInstance option \<Rightarrow> DBSegment list \<Rightarrow> DBPart option" where
  "first_part_of_segments playable current [] = None"
| "first_part_of_segments playable current (s # ss) =
     (case filter (not_current current) (nullish (map_get playable (seg_id s)) []) of
        p # _ \<Rightarrow> Some p
      | [] \<Rightarrow> first_part_of_segments playable current ss)"

definition move_by_segments ::
  "DBPartInstance option \<Rightarrow> DBPart \<Rightarrow> DBSegment list \<Rightarrow> DBPart list \<Rightarrow> int \<Rightarrow> move_result" where
  "move_by_segments current refPart rawSegments rawParts segmentDelta =
     (let consider = considerSegments (part_segmentId refPart) rawSegments in
      case find_index (\<lambda>s. seg_id s = part_segmentId refPart) consider of
        None \<Rightarrow> Inl SegmentNotFound
      | Some refSegmentIndex \<Rightarrow>
         (let targetSegmentIndex = int refSegmentIndex + segmentDelta in
          case at_index consider targetSegmentIndex of
            None \<Rightarrow> Inr None
          | Some _ \<Rightarrow>
             (let allowedSegments =
                    (if segmentDelta > 0 then drop (nat targetSegmentIndex) consider
                     else rev (take (Suc (nat targetSegmentIndex)) consider));
                  playablePartsBySegment =
                    groupByToMapFunc (\<lambda>p. Some (part_segmentId p)) (filter isPartPlayable rawParts)
              in Inr (first_part_of_segments playablePartsBySegment current allowedSegments))))"

definition move_by_parts ::
  "DBPartInstance option \<Rightarrow> DBPart \<Rightarrow> DBSegment list \<Rightarrow> DBPart list \<Rightarrow> int \<Rightarrow> move_result" where
  "move_by_parts current refPart rawSegments rawParts partDelta =
     (let playable0 = filter (\<lambda>p. part_id refPart = part_id p \<or> isPartPlayable p) rawParts;
          index_in = find_index (\<lambda>p. part_id p = part_id refPart);
          playable = (case index_in playable0 of Some _ \<Rightarrow> playable0
            | None \<Rightarrow> sortPartsInSortedSegments (playable0 @ [refPart\<lparr>part_invalid := True\<rparr>]) rawSegments)
      in case index_in playable of
           None \<Rightarrow> Inl PartNotFoundAfterInsert
         | Some refPartIndex \<Rightarrow>
            (let targetPartIndex = int refPartIndex + partDelta;
                 targetPart = at_index playable targetPartIndex
             in Inr (case targetPart of
                  None \<Rightarrow> None
                | Some p \<Rightarrow> if not_current current p then Some p
                    else at_index playable (targetPartIndex + (if partDelta > 0 then 1 else -1)))))"

definition moveNextPart ::
  "DBPartInstance option \<Rightarrow> DBPartInstance option \<Rightarrow> DBSegment list \<Rightarrow> DBPart list \<Rightarrow> int \<Rightarrow> int
   \<Rightarrow> move_result" where
  "moveNextPart current nxt rawSegments rawParts partDelta segmentDelta =
     (case (case nxt of Some n \<Rightarrow> Some n | None \<Rightarrow> current) of
        None \<Rightarrow> Inl NoNextAndNoCurrentPart
      | Some refPartInstance \<Rightarrow>
         if segmentDelta \<noteq> 0
         then move_by_segments current (inst_part refPartInstance) rawSegments rawParts segmentDelta
         else if partDelta \<noteq> 0
         then move_by_parts current (inst_part refPartInstance) rawSegments rawParts partDelta
         else Inl MissingDelta)"

section \<open>The search\<close>

lemma findFirst_eq:
  "map_option sel_part (findFirstPlayablePart ignore parts a None None) =
     find (\<lambda>p. \<not> ignore \<or> isPartPlayable p) (drop a parts)"
  using find_upt_nth [of parts "\<lambda>p. \<not> ignore \<or> isPartPlayable p" a]
  by (simp add: findFirstPlayablePart_def search_limit_def truthy_num_def option.map_comp comp_def)

lemma findFirst_Some:
  assumes "findFirstPlayablePart ignore parts a c len = Some r"
  shows "a \<le> sel_index r" "sel_index r < search_limit parts len" "sel_part r = parts ! sel_index r"
    "ignore \<Longrightarrow> isPartPlayable (sel_part r)" "\<And>f. c = Some f \<Longrightarrow> f (sel_part r)"
    "\<not> consumesQueuedSegmentId r"
  using assms by (auto simp: findFirstPlayablePart_def find_upt_Some split: option.splits)

lemma search_limit_None [simp]: "search_limit parts None = length parts"
  by (simp add: search_limit_def truthy_num_def)

lemma over_selected_None [simp]: "over_selected None parts = parts"
  by (simp add: over_selected_def)

lemma length_over_selected [simp]: "length (over_selected c parts) = length parts"
  by (simp add: over_selected_def split: option.split)

lemma next_in_segment_bound: "next_in_segment s r i ps acc = Some j \<Longrightarrow> acc = Some j \<or> j \<le> i + length ps"
  by (induction ps arbitrary: i acc) (fastforce split: if_splits)+

lemma segmentStarts_bound: "segmentStarts parts s = Some i \<Longrightarrow> i < length parts"
  by (simp add: segmentStarts_def find_index_Some)

lemma following_segment_start_bound: "following_segment_start parts ss = Some i \<Longrightarrow> i < length parts"
  by (induction ss) (auto split: option.splits dest: segmentStarts_bound)

lemma search_from_index_bound: "search_from_index prev segments parts \<le> Suc (length parts)"
proof -
  have "nullish (next_in_segment s r a (drop a parts) None) a \<le> Suc (length parts)"
    if "segmentStarts parts s = Some a" for s r a
    using segmentStarts_bound [OF that] next_in_segment_bound [of s r a "drop a parts" None]
    by (cases "next_in_segment s r a (drop a parts) None") auto
  moreover have "nullish (following_segment_start parts ss) (Suc (length parts)) \<le> Suc (length parts)" for ss
    using following_segment_start_bound [of parts ss]
    by (cases "following_segment_start parts ss") auto
  ultimately show ?thesis
    by (auto simp: search_from_index_def find_index_Some split: option.split)
qed

section \<open>Where a part that is gone would stand\<close>

text \<open>Parts in running order: by the position of their segment, then by rank.\<close>

definition in_running_order :: "DBSegment list \<Rightarrow> DBPart list \<Rightarrow> bool" where
  "in_running_order segments parts =
     (distinct (map seg_id segments)
      \<and> (\<forall>p\<in>set parts. part_segmentId p \<in> seg_id ` set segments)
      \<and> sorted (map (part_key (map seg_id segments)) parts))"

definition instance_key :: "DBSegment list \<Rightarrow> DBPartInstance \<Rightarrow> nat \<times> rank" where
  "instance_key segments prev =
     (the (index_of (map seg_id segments) (inst_segmentId prev)), part_rank (inst_part prev))"

lemma next_in_segment_eq:
  assumes "sorted (map part_rank (takeWhile (\<lambda>p. part_segmentId p = s) ps))"
  shows "next_in_segment s r i ps acc =
    (case length (takeWhile (\<lambda>p. part_segmentId p = s \<and> part_rank p \<le> r) ps) of
       0 \<Rightarrow> acc | Suc k \<Rightarrow> Some (Suc (i + k)))"
  using assms
proof (induction ps arbitrary: i acc)
  case Nil
  then show ?case by simp
next
  case (Cons p ps)
  have rest: "next_in_segment s r i ps acc = acc"
    if "part_segmentId p = s" "\<not> part_rank p \<le> r" for i acc
  proof -
    have "\<forall>q\<in>set (takeWhile (\<lambda>p. part_segmentId p = s) ps). \<not> part_rank q \<le> r"
      using Cons.prems that by auto
    then have "takeWhile (\<lambda>p. part_segmentId p = s \<and> part_rank p \<le> r) ps = []"
      by (cases ps) auto
    moreover have "sorted (map part_rank (takeWhile (\<lambda>p. part_segmentId p = s) ps))"
      using Cons.prems that by simp
    ultimately show ?thesis using Cons.IH [of i acc] by simp
  qed
  from Cons show ?case by (auto simp: rest split: nat.splits)
qed

lemma keys_mono:
  "in_running_order segments parts \<Longrightarrow> i \<le> j \<Longrightarrow> j < length parts \<Longrightarrow>
   part_key (map seg_id segments) (parts ! i) \<le> part_key (map seg_id segments) (parts ! j)"
  unfolding in_running_order_def using sorted_nth_mono by fastforce

lemma segment_position_eq:
  assumes "in_running_order segments parts" "p \<in> set parts" "s \<in> seg_id ` set segments"
  shows "the (index_of (map seg_id segments) (part_segmentId p)) = the (index_of (map seg_id segments) s)
     \<longleftrightarrow> part_segmentId p = s"
proof -
  have "part_segmentId p \<in> set (map seg_id segments)" "s \<in> set (map seg_id segments)"
    using assms unfolding in_running_order_def by auto
  then obtain i j where "index_of (map seg_id segments) (part_segmentId p) = Some i"
    "index_of (map seg_id segments) s = Some j"
    by (metis index_of_None not_None_eq)
  then show ?thesis using index_of_inj by fastforce
qed

lemma segment_start_key:
  assumes o: "in_running_order segments parts" and a: "segmentStarts parts s = Some a"
    and i: "i < length parts"
  shows "i < a \<longleftrightarrow> fst (part_key (map seg_id segments) (parts ! i)) < the (index_of (map seg_id segments) s)"
proof -
  let ?k = "\<lambda>i. part_key (map seg_id segments) (parts ! i)"
  let ?pos = "the (index_of (map seg_id segments) s)"
  have a': "a < length parts" "part_segmentId (parts ! a) = s" "\<forall>j<a. part_segmentId (parts ! j) \<noteq> s"
    using a by (simp_all add: segmentStarts_def find_index_Some)
  have ka: "fst (?k a) = ?pos" by (simp add: part_key_def a')
  have s: "s \<in> seg_id ` set segments"
    using o a' unfolding in_running_order_def by (metis nth_mem)
  show ?thesis
  proof (cases "i < a")
    case True
    then have "fst (?k i) \<noteq> ?pos"
      using segment_position_eq [OF o nth_mem [OF i] s] a'(3) by (simp add: part_key_def)
    moreover have "?k i \<le> ?k a" using keys_mono [OF o] True a' by simp
    ultimately show ?thesis using True ka by (auto simp: less_eq_prod_def)
  next
    case False
    then have "?k a \<le> ?k i" using keys_mono [OF o] i by simp
    with False ka show ?thesis by (auto simp: less_eq_prod_def)
  qed
qed

text \<open>The parts of one segment are contiguous and sorted by rank.\<close>

lemma segment_ranks_sorted:
  assumes o: "in_running_order segments parts"
  shows "sorted (map part_rank (takeWhile (\<lambda>p. part_segmentId p = s) (drop a parts)))"
proof -
  let ?ps = "takeWhile (\<lambda>p. part_segmentId p = s) (drop a parts)"
  have "sorted (map (part_key (map seg_id segments)) (drop a parts))"
    using o unfolding in_running_order_def by (simp add: sorted_wrt_drop flip: drop_map)
  then have "sorted (map (part_key (map seg_id segments)) ?ps)"
    by (metis map_append sorted_append takeWhile_dropWhile_id)
  moreover have "map (part_key (map seg_id segments)) ?ps =
      map (\<lambda>r. (the (index_of (map seg_id segments) s), r)) (map part_rank ?ps)"
    by (auto simp: part_key_def dest: set_takeWhileD)
  ultimately show ?thesis by (simp add: sorted_map less_eq_prod_def)
qed

lemma search_in_segment:
  assumes o: "in_running_order segments parts" and a: "segmentStarts parts s = Some a"
    and i: "i < length parts"
  shows "nullish (next_in_segment s r a (drop a parts) None) a \<le> i
    \<longleftrightarrow> (the (index_of (map seg_id segments) s), r) < part_key (map seg_id segments) (parts ! i)"
proof -
  let ?key = "\<lambda>i. part_key (map seg_id segments) (parts ! i)"
  let ?pos = "the (index_of (map seg_id segments) s)"
  let ?Q = "\<lambda>p. part_segmentId p = s \<and> part_rank p \<le> r"
  define k where "k = length (takeWhile ?Q (drop a parts))"
  have a': "a < length parts" "part_segmentId (parts ! a) = s"
    using a by (simp_all add: segmentStarts_def find_index_Some)
  have s: "s \<in> seg_id ` set segments"
    using o a' unfolding in_running_order_def by (metis nth_mem)
  have eq: "nullish (next_in_segment s r a (drop a parts) None) a = a + k"
    using next_in_segment_eq [OF segment_ranks_sorted [OF o], of s r a a None]
    by (simp add: k_def split: nat.splits)
  show ?thesis
  proof (cases "i < a")
    case True
    then have "fst (?key i) < ?pos" using segment_start_key [OF o a i] by simp
    with True show ?thesis by (auto simp: eq less_prod_def)
  next
    case ai: False
    show ?thesis
    proof (cases "i < a + k")
      case True
      then have "i - a < k" using ai by simp
      then have "?Q (takeWhile ?Q (drop a parts) ! (i - a))"
        unfolding k_def by (blast dest: nth_mem set_takeWhileD)
      then have "?Q (parts ! i)"
        using \<open>i - a < k\<close> ai i by (simp add: k_def takeWhile_nth)
      with True show ?thesis by (auto simp: eq part_key_def less_prod_def)
    next
      case False
      then have ak: "a + k < length parts" using i by simp
      have "k < length (drop a parts)" using ak by simp
      then have "\<not> ?Q (drop a parts ! k)" unfolding k_def by (rule nth_length_takeWhile)
      then have "\<not> ?Q (parts ! (a + k))" using a' by simp
      moreover have "?pos \<le> fst (?key (a + k))"
        using segment_start_key [OF o a ak] by simp
      moreover have "fst (?key (a + k)) = ?pos \<longleftrightarrow> part_segmentId (parts ! (a + k)) = s"
        using segment_position_eq [OF o nth_mem [OF ak] s] by (simp add: part_key_def)
      ultimately have "(?pos, r) < ?key (a + k)"
        by (auto simp: less_prod_def part_key_def)
      moreover have "?key (a + k) \<le> ?key i" using keys_mono [OF o] False i by simp
      ultimately have "(?pos, r) < ?key i" by (rule less_le_trans)
      with False show ?thesis by (simp add: eq)
    qed
  qed
qed

lemma following_segment_start_Some:
  "following_segment_start parts ss = Some b \<Longrightarrow>
    \<exists>m<length ss. segmentStarts parts (seg_id (ss ! m)) = Some b
       \<and> (\<forall>j<m. segmentStarts parts (seg_id (ss ! j)) = None)"
proof (induction ss)
  case Nil
  then show ?case by simp
next
  case (Cons s ss)
  show ?case
  proof (cases "segmentStarts parts (seg_id s)")
    case None
    with Cons obtain m where "m < length ss" "segmentStarts parts (seg_id (ss ! m)) = Some b"
      "\<forall>j<m. segmentStarts parts (seg_id (ss ! j)) = None"
      by auto
    with None show ?thesis by (intro exI [of _ "Suc m"]) (simp add: All_less_Suc2)
  next
    case (Some i)
    with Cons.prems show ?thesis by (intro exI [of _ 0]) simp
  qed
qed

lemma following_segment_start_None:
  "following_segment_start parts ss = None \<longleftrightarrow> (\<forall>s\<in>set ss. segmentStarts parts (seg_id s) = None)"
  by (induction ss) (auto split: option.split)

lemma segmentStarts_None: "segmentStarts parts s = None \<longleftrightarrow> (\<forall>p\<in>set parts. part_segmentId p \<noteq> s)"
  by (simp add: segmentStarts_def find_index_None)

text \<open>A segment without parts: its place is before the next segment that has some.\<close>

lemma search_after_segment:
  assumes o: "in_running_order segments parts" and none: "segmentStarts parts s = None"
    and s: "index_of (map seg_id segments) s = Some k" and i: "i < length parts"
  shows "nullish (following_segment_start parts (drop (Suc k) segments)) (Suc (length parts)) \<le> i
    \<longleftrightarrow> (k, r) < part_key (map seg_id segments) (parts ! i)"
proof -
  let ?ids = "map seg_id segments"
  have d: "distinct ?ids" using o by (simp add: in_running_order_def)
  have "part_segmentId (parts ! i) \<in> set ?ids"
    using o nth_mem [OF i] unfolding in_running_order_def by auto
  then obtain m where m: "index_of ?ids (part_segmentId (parts ! i)) = Some m"
    by (metis index_of_None not_None_eq)
  have ms: "m < length segments" "seg_id (segments ! m) = part_segmentId (parts ! i)"
    using index_of_Some [OF m] by auto
  have has: "segmentStarts parts (seg_id (segments ! m)) \<noteq> None"
    using nth_mem [OF i] by (auto simp: segmentStarts_None ms(2))
  have key: "(k, r) < part_key ?ids (parts ! i) \<longleftrightarrow> k < m"
  proof -
    have "m \<noteq> k"
    proof
      assume "m = k"
      then have "s = part_segmentId (parts ! i)" using s m index_of_inj by fastforce
      with none nth_mem [OF i] show False by (auto simp: segmentStarts_None)
    qed
    then show ?thesis by (auto simp: part_key_def m less_prod_def)
  qed
  show ?thesis
  proof (cases "following_segment_start parts (drop (Suc k) segments)")
    case None
    have "\<not> k < m"
    proof
      assume "k < m"
      then have "segments ! m \<in> set (drop (Suc k) segments)"
        using ms(1) nth_mem [of "m - Suc k" "drop (Suc k) segments"] by simp
      with None has show False by (simp add: following_segment_start_None)
    qed
    with None i show ?thesis by (simp add: key)
  next
    case (Some b)
    then obtain l where l: "l < length segments - Suc k"
      "segmentStarts parts (seg_id (segments ! (Suc k + l))) = Some b"
      "\<forall>j<l. segmentStarts parts (seg_id (segments ! (Suc k + j))) = None"
      by (auto dest: following_segment_start_Some)
    have pos: "index_of ?ids (seg_id (segments ! (Suc k + l))) = Some (Suc k + l)"
      using index_of_distinct [OF d, of "Suc k + l"] l(1) by simp
    have "i < b \<longleftrightarrow> m < Suc k + l"
      using segment_start_key [OF o l(2) i] by (simp add: pos part_key_def m del: add_Suc)
    moreover have "\<not> (k < m \<and> m < Suc k + l)"
    proof
      assume "k < m \<and> m < Suc k + l"
      then have "m - Suc k < l" "Suc k + (m - Suc k) = m" by auto
      with l(3) has show False by metis
    qed
    ultimately show ?thesis using Some by (auto simp: key)
  qed
qed

section \<open>Properties of the selection\<close>

text \<open>
  What a queued segment makes of the part \<open>n\<close> found after the previous one: when playback leaves the
  segment of the previous part, the first eligible part of the queued segment is selected instead,
  and consumes the queued segment.
\<close>

definition queued_over ::
  "SegmentId option \<Rightarrow> (DBPart \<Rightarrow> bool) \<Rightarrow> DBPartInstance \<Rightarrow> DBPart list \<Rightarrow> DBPart \<Rightarrow> DBPart \<times> bool" where
  "queued_over queued ok prev parts n =
     (if truthy_str queued \<and> inst_segmentId prev \<noteq> part_segmentId n
      then (case find (\<lambda>p. ok p \<and> Some (part_segmentId p) = queued) parts of
              Some p \<Rightarrow> (p, True) | None \<Rightarrow> (n, False))
      else (n, False))"

definition eligible :: "bool \<Rightarrow> DBPart \<Rightarrow> bool" where
  "eligible ignoreUnplayable p = (\<not> ignoreUnplayable \<or> isPartPlayable p)"

abbreviation selection :: "SelectNextPartResult option \<Rightarrow> (DBPart \<times> bool) option" where
  "selection \<equiv> map_option (\<lambda>r. (sel_part r, consumesQueuedSegmentId r))"

lemma findFirst_selection:
  "selection (findFirstPlayablePart ignore parts a c len) =
     map_option (\<lambda>p. (p, False)) (map_option sel_part (findFirstPlayablePart ignore parts a c len))"
  by (simp add: findFirstPlayablePart_def option.map_comp comp_def)

lemma findFirst_eligible:
  "map_option sel_part (findFirstPlayablePart ignore parts a None None) = find (eligible ignore) (drop a parts)"
  unfolding findFirst_eq eligible_def [abs_def] by (rule refl)

lemma findFirst_cond:
  "map_option sel_part (findFirstPlayablePart ignore parts 0 (Some c) None) =
     find (\<lambda>p. eligible ignore p \<and> c p) parts"
  using find_upt_nth [of parts "\<lambda>p. eligible ignore p \<and> c p" 0]
  by (simp add: findFirstPlayablePart_def search_limit_def truthy_num_def option.map_comp comp_def eligible_def)

lemma findFirst_limit:
  assumes "s \<le> Suc (length parts)"
  shows "map_option sel_part (findFirstPlayablePart ignore parts 0 None (Some (int s - 1))) =
     find (eligible ignore) (if s = 1 then parts else take (s - 1) parts)"
proof (cases "s = 1")
  case True
  with findFirst_eligible [of ignore parts 0] show ?thesis
    by (simp add: findFirstPlayablePart_def search_limit_def truthy_num_def)
next
  case False
  let ?t = "take (s - 1) parts"
  have lim: "search_limit parts (Some (int s - 1)) = s - 1"
    using False by (auto simp: search_limit_def truthy_num_def)
  have "find (\<lambda>i. eligible ignore (parts ! i)) [0..<s - 1] = find (\<lambda>i. eligible ignore (?t ! i)) [0..<s - 1]"
    by (rule find_cong) auto
  moreover have "map_option ((!) parts) (find Q [0..<s - 1]) = map_option ((!) ?t) (find Q [0..<s - 1])" for Q
    by (rule option.map_cong [OF refl]) (auto simp: find_upt_Some)
  moreover have "length ?t = s - 1" using assms by simp
  ultimately have "map_option ((!) parts) (find (\<lambda>i. eligible ignore (parts ! i)) [0..<s - 1]) =
      find (eligible ignore) ?t"
    using find_upt_nth [of ?t "eligible ignore" 0] by simp
  with False show ?thesis
    by (simp add: findFirstPlayablePart_def lim option.map_comp comp_def eligible_def)
qed

text \<open>The selection after a previous part, by the index the search starts from.\<close>

lemma selectNextPart_from:
  assumes "parts = over_selected cur parts0" and "s = search_from_index prev segments parts"
  shows "selection (selectNextPart queued loop (Some prev) cur segments parts0 ignore) =
    (case find (eligible ignore) (drop s parts) of
       Some n \<Rightarrow> Some (queued_over queued (eligible ignore) prev parts n)
     | None \<Rightarrow> if loop
         then map_option (\<lambda>p. (p, False)) (find (eligible ignore) (if s = 1 then parts else take (s - 1) parts))
         else None)"
proof -
  let ?first = "findFirstPlayablePart ignore parts"
  let ?queued = "?first 0 (Some (\<lambda>p. Some (part_segmentId p) = queued)) None"
  have loop: "selection (?first 0 None (Some (int s - 1))) =
      map_option (\<lambda>p. (p, False)) (find (eligible ignore) (if s = 1 then parts else take (s - 1) parts))"
    using findFirst_limit [of s parts ignore] search_from_index_bound [of prev segments parts] assms(2)
    by (simp only: findFirst_selection)
  show ?thesis
  proof (cases "?first s None None")
    case None
    then have none: "find (eligible ignore) (drop s parts) = None"
      using findFirst_eligible [of ignore parts s] by simp
    have "selectNextPart queued loop (Some prev) cur segments parts0 ignore =
        (if loop then ?first 0 None (Some (int s - 1)) else None)"
      using None by (simp add: selectNextPart_def Let_def flip: assms)
    with loop none show ?thesis by simp
  next
    case (Some n)
    then have n: "find (eligible ignore) (drop s parts) = Some (sel_part n)" "\<not> consumesQueuedSegmentId n"
      using findFirst_eligible [of ignore parts s] findFirst_Some(6) [OF Some] by simp_all
    have q: "find (\<lambda>p. eligible ignore p \<and> Some (part_segmentId p) = queued) parts = map_option sel_part ?queued"
      by (simp only: findFirst_cond)
    have eq: "selectNextPart queued loop (Some prev) cur segments parts0 ignore =
        (if truthy_str queued \<and> inst_segmentId prev \<noteq> part_segmentId (sel_part n)
         then (case ?queued of Some m \<Rightarrow> Some (m\<lparr>consumesQueuedSegmentId := True\<rparr>) | None \<Rightarrow> Some n)
         else Some n)"
      using Some by (cases ?queued) (simp_all add: selectNextPart_def Let_def flip: assms)
    show ?thesis
      by (cases ?queued) (simp_all add: eq n queued_over_def q)
  qed
qed

text \<open>
  The parts a looping playlist goes back to after a part that is gone: those before its place,
  without the last of them, unless that is the only one or the end of the playlist is reached with
  nothing left of the segment.
\<close>

definition loop_candidates :: "DBSegment list \<Rightarrow> DBPartInstance \<Rightarrow> DBPart list \<Rightarrow> DBPart list" where
  "loop_candidates segments prev parts =
     (let before = filter (\<lambda>p. part_key (map seg_id segments) p \<le> instance_key segments prev) parts in
      if length before = 1
         \<or> length before = length parts \<and> inst_segmentId prev \<notin> part_segmentId ` set parts
      then before else butlast before)"

lemma search_from_index_place:
  assumes o: "in_running_order segments parts"
    and "part_id (inst_part prev) \<notin> part_id ` set parts"
    and "inst_segmentId prev \<in> seg_id ` set segments"
    and s: "s = search_from_index prev segments parts"
  shows "i < length parts \<Longrightarrow>
      s \<le> i \<longleftrightarrow> instance_key segments prev < part_key (map seg_id segments) (parts ! i)"
    and "length parts \<le> s \<Longrightarrow>
      s = (if inst_segmentId prev \<in> part_segmentId ` set parts then length parts else Suc (length parts))"
proof -
  have gone: "find_index (\<lambda>p. part_id p = part_id (inst_part prev)) parts = None"
    using assms(2) unfolding find_index_None by (metis image_eqI)
  obtain k where k: "index_of (map seg_id segments) (inst_segmentId prev) = Some k"
    using assms(3) index_of_None [of "map seg_id segments" "inst_segmentId prev"]
    by (cases "index_of (map seg_id segments) (inst_segmentId prev)") auto
  then have k': "find_index (\<lambda>s. seg_id s = inst_segmentId prev) segments = Some k"
    by (auto simp: index_of_def find_index_Some)
  show "s \<le> i \<longleftrightarrow> instance_key segments prev < part_key (map seg_id segments) (parts ! i)"
    if "i < length parts"
  proof (cases "segmentStarts parts (inst_segmentId prev)")
    case None
    with search_after_segment [OF o None k that] show ?thesis
      by (simp add: s search_from_index_def gone k' k instance_key_def)
  next
    case (Some a)
    with search_in_segment [OF o Some that] show ?thesis
      by (simp add: s search_from_index_def gone instance_key_def)
  qed
  show "s = (if inst_segmentId prev \<in> part_segmentId ` set parts then length parts else Suc (length parts))"
    if long: "length parts \<le> s"
  proof (cases "segmentStarts parts (inst_segmentId prev)")
    case None
    then have "inst_segmentId prev \<notin> part_segmentId ` set parts"
      by (auto simp: segmentStarts_None)
    moreover have "s = nullish (following_segment_start parts (drop (Suc k) segments)) (Suc (length parts))"
      using None by (simp add: s search_from_index_def gone k')
    ultimately show ?thesis
      using long following_segment_start_bound [of parts "drop (Suc k) segments"]
      by (cases "following_segment_start parts (drop (Suc k) segments)") auto
  next
    case (Some a)
    then have "inst_segmentId prev \<in> part_segmentId ` set parts"
      by (metis image_eqI segmentStarts_None option.distinct(1))
    moreover have "s \<le> length parts"
      using segmentStarts_bound [OF Some]
        next_in_segment_bound [of "inst_segmentId prev" "part_rank (inst_part prev)" a "drop a parts" None]
      by (cases "next_in_segment (inst_segmentId prev) (part_rank (inst_part prev)) a (drop a parts) None")
        (auto simp: s search_from_index_def gone Some)
    ultimately show ?thesis using long by simp
  qed
qed

lemma find_append: "find P (xs @ ys) = (case find P xs of Some x \<Rightarrow> Some x | None \<Rightarrow> find P ys)"
  by (induction xs) simp_all

lemma filter_take_drop:
  assumes "\<And>i. i < length xs \<Longrightarrow> s \<le> i \<longleftrightarrow> P (xs ! i)"
  shows "filter (\<lambda>x. \<not> P x) xs = take s xs" and "filter P xs = drop s xs"
proof -
  have not: "\<not> P (xs ! i)" if "i < length xs" "i < s" for i
    using assms [OF that(1)] that(2) by simp
  have pos: "P (xs ! (s + i))" if "i < length xs - s" for i
    using assms [of "s + i"] that by simp
  have t: "\<forall>x\<in>set (take s xs). \<not> P x" by (auto simp: in_set_conv_nth not)
  have d: "\<forall>x\<in>set (drop s xs). P x" by (auto simp: in_set_conv_nth pos)
  have "filter (\<lambda>x. \<not> P x) (take s xs @ drop s xs) = take s xs"
    using t d by (simp add: filter_empty_conv del: append_take_drop_id)
  then show "filter (\<lambda>x. \<not> P x) xs = take s xs" by simp
  have "filter P (take s xs @ drop s xs) = drop s xs"
    using t d by (simp add: filter_empty_conv del: append_take_drop_id)
  then show "filter P xs = drop s xs" by simp
qed

text \<open>
  C38. After a part that is no longer in the playlist, the part found is the first eligible one that
  follows its place in the running order, by segment and then by rank: whether its segment still has
  parts, has lost all of them, or is the last one. Eligible is every part, or every playable one when
  unplayable parts are ignored; the part of the instance that is already next is read from that
  instance. When playback so leaves the segment and a segment is queued, the first eligible part of
  the queued segment is selected instead and consumes the queue. When nothing follows, a looping
  playlist selects the first eligible one of the parts before the place, the last of them left out
  (unless it is the only one, or the part was alone in the last segment that has a place).
\<close>

theorem selectNextPart_after_deleted:
  assumes "in_running_order segments (over_selected cur parts0)"
    and "part_id (inst_part prev) \<notin> part_id ` set parts0"
    and "inst_segmentId prev \<in> seg_id ` set segments"
  shows "selection (selectNextPart queued loop (Some prev) cur segments parts0 ignore) =
    (let parts = over_selected cur parts0 in
     case find (\<lambda>p. instance_key segments prev < part_key (map seg_id segments) p \<and> eligible ignore p) parts of
       Some n \<Rightarrow> Some (queued_over queued (eligible ignore) prev parts n)
     | None \<Rightarrow> if loop
         then map_option (\<lambda>p. (p, False)) (find (eligible ignore) (loop_candidates segments prev parts))
         else None)"
proof -
  let ?after = "\<lambda>p. instance_key segments prev < part_key (map seg_id segments) p"
  define parts where "parts = over_selected cur parts0"
  define s where "s = search_from_index prev segments parts"
  have ids: "map part_id parts = map part_id parts0"
    by (simp add: parts_def over_selected_def split: option.split)
  have "part_id ` set parts = part_id ` set parts0"
    unfolding set_map [symmetric] ids by (rule refl)
  then have gone: "part_id (inst_part prev) \<notin> part_id ` set parts" using assms(2) by simp
  note o = assms(1) [folded parts_def]
  note pos = search_from_index_place(1) [OF o gone assms(3) s_def]
  have before: "filter (\<lambda>p. part_key (map seg_id segments) p \<le> instance_key segments prev) parts = take s parts"
    using filter_take_drop(1) [of parts s ?after, OF pos] by (simp add: not_less)
  have after: "find (\<lambda>p. ?after p \<and> eligible ignore p) parts = find (eligible ignore) (drop s parts)"
    by (rule find_drop [symmetric]) (rule pos)
  have loop: "find (eligible ignore) (if s = 1 then parts else take (s - 1) parts) =
      find (eligible ignore) (loop_candidates segments prev parts)"
    if none: "find (eligible ignore) (drop s parts) = None"
  proof (cases "s < length parts")
    case True
    have "find (eligible ignore) parts = find (eligible ignore) (take s parts)"
      using none find_append [of "eligible ignore" "take s parts" "drop s parts"]
      by (simp split: option.split)
    with True show ?thesis
      by (auto simp: loop_candidates_def before butlast_take Let_def)
  next
    case False
    then have l: "length parts \<le> s" by simp
    note s = search_from_index_place(2) [OF o gone assms(3) s_def l]
    show ?thesis
      by (cases "inst_segmentId prev \<in> part_segmentId ` set parts")
        (auto simp: loop_candidates_def before s Let_def butlast_conv_take)
  qed
  show ?thesis
    unfolding selectNextPart_from [OF parts_def s_def] Let_def parts_def [symmetric] after
    using loop by (cases "find (eligible ignore) (drop s parts)") simp_all
qed

theorem selectNextPart_after_deleted_witness:
  "map_option sel_part (selectNextPart (Some ''s1'') True
       (Some (sample_part_instance ''i'' (sample_part ''gone'' 2 ''s1''))) None
       [sample_segment ''s1'' 0, sample_segment ''s2'' 1]
       [sample_part ''a'' 1 ''s1'', sample_part ''b'' 3 ''s1'', sample_part ''c'' 0 ''s2''] True) =
     Some (sample_part ''b'' 3 ''s1'')"
proof -
  let ?segs = "[sample_segment ''s1'' 0, sample_segment ''s2'' 1]"
  let ?parts = "[sample_part ''a'' 1 ''s1'', sample_part ''b'' 3 ''s1'', sample_part ''c'' 0 ''s2'']"
  let ?prev = "sample_part_instance ''i'' (sample_part ''gone'' 2 ''s1'')"
  have "selection (selectNextPart (Some ''s1'') True (Some ?prev) None ?segs ?parts True) =
      Some (sample_part ''b'' 3 ''s1'', False)"
    by (subst selectNextPart_after_deleted)
      (simp_all add: in_running_order_def instance_key_def part_key_def index_of_def sample_defs
        less_eq_prod_def less_prod_def isPartPlayable_def eligible_def queued_over_def)
  then show ?thesis by auto
qed

text \<open>
  C1. After a part that is in the playlist at index \<open>c\<close>, the part found is the first eligible one
  after it: every part is eligible, or every playable one when unplayable parts are ignored, and the
  part of the instance that is already next is read from that instance. When playback so leaves the
  segment and a segment is queued, the first eligible part of the queued segment is selected instead
  and consumes the queue. When nothing follows, a looping playlist starts over and searches the parts
  before \<open>c\<close>; when \<open>c\<close> is the first part the limit of zero counts as absent: every part is
  searched, and the current part itself may be selected.
\<close>

theorem selectNextPart_after_current:
  assumes "find_index (\<lambda>p. part_id p = part_id (inst_part prev)) (over_selected cur parts0) = Some c"
  shows "selection (selectNextPart queued loop (Some prev) cur segments parts0 ignore) =
    (let parts = over_selected cur parts0 in
     case find (eligible ignore) (drop (Suc c) parts) of
       Some n \<Rightarrow> Some (queued_over queued (eligible ignore) prev parts n)
     | None \<Rightarrow> if loop
         then map_option (\<lambda>p. (p, False)) (find (eligible ignore) (if c = 0 then parts else take c parts))
         else None)"
proof -
  have s: "Suc c = search_from_index prev segments (over_selected cur parts0)"
    using assms by (simp add: search_from_index_def)
  show ?thesis
    unfolding selectNextPart_from [OF refl s] Let_def
    by (cases "c = 0") (simp_all cong: option.case_cong)
qed

theorem selectNextPart_after_current_witness:
  "selection (selectNextPart (Some ''s3'') True
       (Some (sample_part_instance ''i'' (sample_part ''a'' 1 ''s1''))) None
       [sample_segment ''s1'' 0, sample_segment ''s2'' 1, sample_segment ''s3'' 2]
       [sample_part ''a'' 1 ''s1'', (sample_part ''b'' 2 ''s1'')\<lparr>floated := True\<rparr>,
        sample_part ''c'' 0 ''s2'', sample_part ''d'' 0 ''s3''] True) =
     Some (sample_part ''d'' 0 ''s3'', True)"
  by (subst selectNextPart_after_current [where c = 0])
    (simp_all add: sample_defs isPartPlayable_def eligible_def queued_over_def truthy_str_def)

text \<open>
  Whatever is selected stands at its index among the parts, with the instance that is already
  next in place of its part, and is playable when unplayable parts are ignored. The queued segment
  is consumed only by the first playable part of that segment, and only when nothing has played yet
  or playback leaves the segment of the previous part.
\<close>

theorem selectNextPart_sound:
  assumes "selectNextPart queued loop prev cur segments parts0 ignore = Some r"
  shows "sel_index r < length parts0
    \<and> sel_part r = over_selected cur parts0 ! sel_index r
    \<and> (ignore \<longrightarrow> isPartPlayable (sel_part r))
    \<and> (consumesQueuedSegmentId r \<longrightarrow> Some (part_segmentId (sel_part r)) = queued \<and> queued \<noteq> Some [])"
proof -
  let ?parts = "over_selected cur parts0"
  let ?start = "case prev of None \<Rightarrow> 0 | Some p \<Rightarrow> search_from_index p segments ?parts"
  let ?queued = "findFirstPlayablePart ignore ?parts 0 (Some (\<lambda>p. Some (part_segmentId p) = queued)) None"
  define n0 where "n0 = findFirstPlayablePart ignore ?parts ?start None None"
  define left where "left = (truthy_str queued \<and> (case prev of None \<Rightarrow> True
    | Some prev \<Rightarrow> (case n0 of None \<Rightarrow> False | Some n \<Rightarrow> inst_segmentId prev \<noteq> part_segmentId (sel_part n))))"
  define n1 where "n1 = (if left then (case ?queued of
    Some n \<Rightarrow> Some (n\<lparr>consumesQueuedSegmentId := True\<rparr>) | None \<Rightarrow> n0) else n0)"
  have eq: "selectNextPart queued loop prev cur segments parts0 ignore =
      (if loop \<and> n1 = None \<and> prev \<noteq> None
       then findFirstPlayablePart ignore ?parts 0 None (Some (int ?start - 1)) else n1)"
    unfolding selectNextPart_def Let_def n0_def left_def n1_def by (rule refl)
  have "n1 = n0 \<or> (left \<and> (\<exists>n. ?queued = Some n \<and> n1 = Some (n\<lparr>consumesQueuedSegmentId := True\<rparr>)))"
    by (cases ?queued) (simp_all add: n1_def)
  then consider
      "findFirstPlayablePart ignore ?parts ?start None None = Some r"
    | n where "?queued = Some n" "truthy_str queued" "r = n\<lparr>consumesQueuedSegmentId := True\<rparr>"
    | "findFirstPlayablePart ignore ?parts 0 None (Some (int ?start - 1)) = Some r"
    using assms eq unfolding n0_def left_def by (metis (no_types, lifting) option.inject)
  then show ?thesis
  proof cases
    case 1
    with findFirst_Some [OF 1] show ?thesis by simp
  next
    case 2
    with findFirst_Some [OF 2(1)] show ?thesis by (auto simp: truthy_str_def split: option.splits)
  next
    case 3
    have "?start \<le> Suc (length ?parts)"
      using search_from_index_bound [of _ segments ?parts] by (cases prev) simp_all
    with findFirst_Some [OF 3] show ?thesis by (simp add: search_limit_def split: if_splits)
  qed
qed

theorem selectNextPart_sound_witness:
  "part_segmentId (sel_part (the (selectNextPart (Some ''s2'') False None None
     [sample_segment ''s1'' 0, sample_segment ''s2'' 1]
     [sample_part ''a'' 1 ''s1'', sample_part ''b'' 2 ''s2''] True))) = ''s2''"
proof -
  have r: "selectNextPart (Some ''s2'') False None None
      [sample_segment ''s1'' 0, sample_segment ''s2'' 1]
      [sample_part ''a'' 1 ''s1'', sample_part ''b'' 2 ''s2''] True =
      Some \<lparr>sel_part = sample_part ''b'' 2 ''s2'', sel_index = 1, consumesQueuedSegmentId = True\<rparr>"
    by (simp add: selectNextPart_def findFirstPlayablePart_def search_limit_def truthy_num_def
        truthy_str_def isPartPlayable_def sample_defs Let_def)
  show ?thesis using selectNextPart_sound [OF r] r by simp
qed

section \<open>Properties of the manual moves\<close>

lemma at_index_Some: "at_index xs i = Some x \<longleftrightarrow> 0 \<le> i \<and> nat i < length xs \<and> xs ! nat i = x"
  by (auto simp: at_index_def nat_less_iff)

lemma first_part_of_segments_Some:
  assumes "first_part_of_segments m cur ss = Some p"
  shows "\<exists>s\<in>set ss. \<exists>ps. map_get m (seg_id s) = Some ps \<and> p \<in> set ps \<and> not_current cur p"
  using assms
proof (induction ss)
  case (Cons s ss)
  show ?case
  proof (cases "filter (not_current cur) (nullish (map_get m (seg_id s)) [])")
    case Nil
    with Cons show ?thesis by auto
  next
    case (Cons q qs)
    then have "q \<in> set (filter (not_current cur) (nullish (map_get m (seg_id s)) []))" by simp
    moreover have "p = q" using Cons.prems Cons by simp
    ultimately show ?thesis by (cases "map_get m (seg_id s)") auto
  qed
qed simp

lemma move_by_segments_target:
  assumes "move_by_segments cur ref segs parts d = Inr (Some p)"
  shows "p \<in> set parts \<and> isPartPlayable p \<and> not_current cur p"
proof -
  let ?m = "groupByToMapFunc (\<lambda>p. Some (part_segmentId p)) (filter isPartPlayable parts)"
  obtain ss where "first_part_of_segments ?m cur ss = Some p"
    using assms by (auto simp: move_by_segments_def Let_def split: option.splits)
  from first_part_of_segments_Some [OF this] show ?thesis
    by (auto simp: map_get_groupBy split: if_splits)
qed

lemma move_by_parts_target:
  assumes "move_by_parts cur ref segs parts d = Inr (Some p)" and "d \<noteq> 0"
    and dist: "distinct (map part_id parts)"
  shows "p \<in> set parts \<and> isPartPlayable p \<and> not_current cur p"
proof -
  let ?is_ref = "\<lambda>p. part_id p = part_id ref"
  define pl0 where "pl0 = filter (\<lambda>p. part_id ref = part_id p \<or> isPartPlayable p) parts"
  define pl where "pl = (case find_index ?is_ref pl0 of Some _ \<Rightarrow> pl0
    | None \<Rightarrow> sortPartsInSortedSegments (pl0 @ [ref\<lparr>part_invalid := True\<rparr>]) segs)"
  obtain r where r: "find_index ?is_ref pl = Some r"
    and p: "(case at_index pl (int r + d) of None \<Rightarrow> None
      | Some q \<Rightarrow> if not_current cur q then Some q
          else at_index pl (int r + d + (if d > 0 then 1 else -1))) = Some p"
    using assms(1) unfolding move_by_parts_def Let_def pl0_def [symmetric] pl_def [symmetric]
    by (cases "find_index ?is_ref pl") auto
  have d0: "distinct (map part_id pl0)" using dist by (simp add: pl0_def distinct_map_filter)
  have "distinct (map part_id pl)"
  proof (cases "find_index ?is_ref pl0")
    case None
    then have "part_id ref \<notin> part_id ` set pl0" by (auto simp: find_index_None)
    with None d0 show ?thesis
      by (simp add: pl_def sortPartsInSortedSegments_def distinct_map_js_sort)
  next
    case (Some i)
    with d0 show ?thesis by (simp add: pl_def)
  qed
  then have inj: "i = j" if "i < length pl" "j < length pl" "part_id (pl ! i) = part_id (pl ! j)" for i j
    using that by (metis distinct_conv_nth length_map nth_map)
  have sub: "q \<in> set parts \<and> isPartPlayable q \<or> ?is_ref q" if "q \<in> set pl" for q
    using that by (auto simp: pl_def pl0_def sortPartsInSortedSegments_def split: option.splits)
  have rl: "r < length pl" "?is_ref (pl ! r)" using r by (simp_all add: find_index_Some)
  from p obtain k where k: "k < length pl" "p = pl ! k" "k \<noteq> r" "not_current cur p"
  proof (cases "at_index pl (int r + d)")
    case (Some q)
    show thesis
    proof (cases "not_current cur q")
      case True
      have "q = p" using True Some p by simp
      with True Some assms(2) show thesis
        by (intro that [of "nat (int r + d)"]) (auto simp: at_index_Some)
    next
      case False
      then obtain c where c: "cur = Some c" "part_id q = part_id (inst_part c)"
        by (auto simp: not_current_def split: option.splits)
      define l where "l = int r + d + (if d > 0 then 1 else -1)"
      have l: "at_index pl l = Some p" using p Some False by (simp add: l_def)
      have "nat l \<noteq> nat (int r + d)" "nat l \<noteq> r"
        using l Some assms(2) by (auto simp: at_index_Some l_def split: if_splits)
      with l Some c inj [of "nat l" "nat (int r + d)"] show thesis
        by (intro that [of "nat l"]) (auto simp: at_index_Some not_current_def)
    qed
  qed simp
  then have "\<not> ?is_ref p" using inj [of k r] rl by auto
  with sub [of p] k nth_mem show ?thesis by auto
qed

text \<open>
  C39. A manual move sets as next a playable part of the playlist that is not the part on air, and
  fails only when there is neither a next nor a current part, when no delta was given, or when the
  segment of the reference part is unknown.
\<close>

theorem moveNextPart_target:
  assumes "distinct (map part_id parts)"
  shows "case moveNextPart cur nxt segs parts partDelta segmentDelta of
      Inr (Some p) \<Rightarrow> p \<in> set parts \<and> isPartPlayable p \<and> not_current cur p
    | Inr None \<Rightarrow> True
    | Inl e \<Rightarrow> (nxt = None \<and> cur = None) \<or> (partDelta = 0 \<and> segmentDelta = 0)
        \<or> (e = SegmentNotFound \<and> segmentDelta \<noteq> 0)"
proof -
  have found: "\<exists>i. find_index (\<lambda>p. part_id p = part_id ref) (sortPartsInSortedSegments
      (ps @ [ref\<lparr>part_invalid := True\<rparr>]) segs) = Some i" for ref ps
    using find_index_None [of "\<lambda>p. part_id p = part_id ref"
        "sortPartsInSortedSegments (ps @ [ref\<lparr>part_invalid := True\<rparr>]) segs"]
    by (auto simp: sortPartsInSortedSegments_def)
  have "\<exists>x. move_by_parts cur ref segs parts partDelta = Inr x" for ref
    using found [of ref "filter (\<lambda>p. part_id ref = part_id p \<or> isPartPlayable p) parts"]
    by (auto simp: move_by_parts_def Let_def split: option.split)
  moreover have "move_by_segments cur ref segs parts segmentDelta = Inl e \<Longrightarrow> e = SegmentNotFound" for ref e
    by (auto simp: move_by_segments_def Let_def split: option.splits)
  ultimately show ?thesis
    using move_by_parts_target [OF _ _ assms, where cur = cur] move_by_segments_target [where cur = cur]
    unfolding moveNextPart_def
    by (auto split: sum.splits option.splits if_splits) (metis Inr_not_Inl)+
qed

theorem moveNextPart_target_witness:
  "case moveNextPart (Some (sample_part_instance ''i'' (sample_part ''a'' 1 ''s1''))) None
      [sample_segment ''s1'' 0] [sample_part ''a'' 1 ''s1'', sample_part ''b'' 2 ''s1''] 1 0 of
      Inr (Some p) \<Rightarrow> p = sample_part ''b'' 2 ''s1'' \<and> isPartPlayable p
    | _ \<Rightarrow> False"
proof -
  have r: "moveNextPart (Some (sample_part_instance ''i'' (sample_part ''a'' 1 ''s1''))) None
      [sample_segment ''s1'' 0] [sample_part ''a'' 1 ''s1'', sample_part ''b'' 2 ''s1''] 1 0 =
      Inr (Some (sample_part ''b'' 2 ''s1''))"
    by (simp add: moveNextPart_def move_by_parts_def at_index_def not_current_def isPartPlayable_def
        sample_defs Let_def)
  show ?thesis
    using moveNextPart_target [where parts = "[sample_part ''a'' 1 ''s1'', sample_part ''b'' 2 ''s1'']"
        and cur = "Some (sample_part_instance ''i'' (sample_part ''a'' 1 ''s1''))" and nxt = None
        and segs = "[sample_segment ''s1'' 0]" and partDelta = 1 and segmentDelta = 0]
    by (simp add: r) (simp add: sample_defs)
qed

end
