(* ===== verification/Ab_Sessions.thy ===== *)
theory Ab_Sessions
  imports Process_Prune
begin

text \<open>
  The ids of AB playback sessions: \<open>AbSessionHelper\<close> of
  \<open>packages/job-worker/src/playout/abPlayback/abSessionHelper.ts\<close> and the collection of the
  requested sessions in \<open>abPlaybackSessions.ts\<close>. The private array \<open>#knownSessions\<close>, whose objects
  the helper mutates, is the state that each operation takes and returns; the id that
  \<open>getNewSessionId\<close> draws is an argument.
\<close>

section \<open>State\<close>

record ABSessionInfoExt =
  ab_id :: string
  ab_name :: string
  ab_lookaheadForPartId :: "PartId option"
  ab_infiniteInstanceId :: "string option"
  ab_partInstanceIds :: "PartInstanceId list option"
  ab_keep :: bool

type_synonym known_sessions = "ABSessionInfoExt list"

datatype ab_error = UnknownPartInstance

definition allKnownSessions :: "known_sessions \<Rightarrow> known_sessions" where
  "allKnownSessions known = map (\<lambda>s. s\<lparr>ab_keep := False\<rparr>) known"

definition knownSessions :: "known_sessions \<Rightarrow> known_sessions" where
  "knownSessions known = map (\<lambda>s. s\<lparr>ab_keep := False\<rparr>) (filter ab_keep known)"

definition mentions_instance :: "PartInstanceId \<Rightarrow> ABSessionInfoExt \<Rightarrow> bool" where
  \<comment> \<open>\<open>s.partInstanceIds?.includes(id)\<close>\<close>
  "mentions_instance i s = (case ab_partInstanceIds s of None \<Rightarrow> False | Some ids \<Rightarrow> i \<in> set ids)"

section \<open>The session of a piece\<close>

definition infinite_id :: "PieceInstance \<Rightarrow> string option" where
  "infinite_id p = map_option infiniteInstanceId (infinite p)"

definition preserveSession :: "string option \<Rightarrow> ABSessionInfoExt \<Rightarrow> ABSessionInfoExt" where
  "preserveSession infiniteId s =
     s\<lparr>ab_keep := True, ab_infiniteInstanceId := infiniteId, ab_lookaheadForPartId := None\<rparr>"

definition use_session ::
  "(ABSessionInfoExt \<Rightarrow> ABSessionInfoExt) \<Rightarrow> nat \<Rightarrow> known_sessions \<Rightarrow> string \<times> known_sessions" where
  "use_session f i known = (ab_id (known ! i), known[i := f (known ! i)])"

definition infinite_session :: "string option \<Rightarrow> string \<Rightarrow> ABSessionInfoExt \<Rightarrow> bool" where
  "infinite_session infiniteId name s = (ab_infiniteInstanceId s = infiniteId \<and> ab_name s = name)"

definition instance_session :: "PartInstanceId \<Rightarrow> string \<Rightarrow> ABSessionInfoExt \<Rightarrow> bool" where
  "instance_session i name s = (mentions_instance i s \<and> ab_name s = name)"

definition lookahead_session :: "PartId \<Rightarrow> string \<Rightarrow> ABSessionInfoExt \<Rightarrow> bool" where
  "lookahead_session partId name s = (ab_name s = name \<and> ab_lookaheadForPartId s = Some partId)"

definition new_session :: "string \<Rightarrow> string \<Rightarrow> string option \<Rightarrow> PartInstanceId \<Rightarrow> ABSessionInfoExt" where
  "new_session sessionId name infiniteId partInstanceId =
     \<lparr>ab_id = sessionId, ab_name = name, ab_lookaheadForPartId = None,
      ab_infiniteInstanceId = infiniteId,
      ab_partInstanceIds = Some (if truthy_str infiniteId then [] else [partInstanceId]),
      ab_keep = True\<rparr>"

definition part_instance_before :: "DBPartInstance list \<Rightarrow> nat \<Rightarrow> PartInstanceId option" where
  \<comment> \<open>the part instance before the one at an index, if its sessions may be continued\<close>
  "part_instance_before partInstances k =
     (if k > 0 \<and> part_rank (inst_part (partInstances ! (k - 1))) < part_rank (inst_part (partInstances ! k))
      then Some (inst_id (partInstances ! (k - 1))) else None)"

definition getPieceABSessionId ::
  "DBPartInstance list \<Rightarrow> string \<Rightarrow> PieceInstance \<Rightarrow> string \<Rightarrow> known_sessions
   \<Rightarrow> ab_error + (string \<times> known_sessions)" where
  "getPieceABSessionId partInstances newId piece name known =
     (let pid = pi_partInstanceId piece; infiniteId = infinite_id piece;
          preserve = preserveSession infiniteId
      in case find_index (\<lambda>p. inst_id p = pid) partInstances of
           None \<Rightarrow> Inl UnknownPartInstance
         | Some partInstanceIndex \<Rightarrow> Inr
            (case (if truthy_str infiniteId then find_index (infinite_session infiniteId name) known
                   else None) of
               Some i \<Rightarrow> use_session preserve i known
             | None \<Rightarrow>
            (case find_index (instance_session pid name) known of
               Some i \<Rightarrow> use_session preserve i known
             | None \<Rightarrow>
            (case (case part_instance_before partInstances partInstanceIndex of
                     Some b \<Rightarrow> find_index (instance_session b name) known | None \<Rightarrow> None) of
               Some i \<Rightarrow> use_session (\<lambda>s. preserve (s\<lparr>ab_partInstanceIds :=
                   Some (nullish (ab_partInstanceIds s) [] @ [pid])\<rparr>)) i known
             | None \<Rightarrow>
            (case find_index (lookahead_session
                    (part_id (inst_part (partInstances ! partInstanceIndex))) name) known of
               Some i \<Rightarrow> use_session (\<lambda>s. preserve (s\<lparr>ab_partInstanceIds := Some [pid]\<rparr>)) i known
             | None \<Rightarrow> (newId, known @ [new_session newId name infiniteId pid]))))))"

section \<open>The session of a timeline object\<close>

record OnGenerateTimelineObjExt =
  tl_id :: string
  tl_partInstanceId :: "PartInstanceId option"
  infinitePieceInstanceId :: "string option"
  pieceInstanceId :: "PieceInstanceId option"
  isLookahead :: bool
  open_ended :: bool  \<comment> \<open>\<open>enable\<close> is one object without \<open>duration\<close> and \<open>end\<close>\<close>
  tl_priority :: rat
  tl_abSessions :: "PieceAbSessionInfo list"

definition new_lookahead_session ::
  "string \<Rightarrow> string \<Rightarrow> PartId \<Rightarrow> PartInstanceId option \<Rightarrow> ABSessionInfoExt" where
  "new_lookahead_session sessionId name partId partInstanceId =
     \<lparr>ab_id = sessionId, ab_name = name, ab_lookaheadForPartId = Some partId,
      ab_infiniteInstanceId = None,
      ab_partInstanceIds = map_option (\<lambda>i. [i]) partInstanceId, ab_keep = True\<rparr>"

definition getTimelineObjectAbSessionId ::
  "DBPartInstance list \<Rightarrow> string \<Rightarrow> OnGenerateTimelineObjExt \<Rightarrow> string \<Rightarrow> known_sessions
   \<Rightarrow> string option \<times> known_sessions" where
  "getTimelineObjectAbSessionId partInstances newId obj name known =
     (let keep = (\<lambda>s. s\<lparr>ab_keep := True\<rparr>); used = (\<lambda>f i. apfst Some (use_session f i known)) in
      case (if truthy_str (infinitePieceInstanceId obj)
            then find_index (infinite_session (infinitePieceInstanceId obj) name) known else None) of
        Some i \<Rightarrow> used keep i
      | None \<Rightarrow>
     (case (if truthy_str (tl_partInstanceId obj)
            then find_index (instance_session (the (tl_partInstanceId obj)) name) known else None) of
        Some i \<Rightarrow> used keep i
      | None \<Rightarrow>
         if isLookahead obj \<and> truthy_str (tl_partInstanceId obj) then
           (let pid = the (tl_partInstanceId obj);
                partInstance = find (\<lambda>p. inst_id p = pid) partInstances;
                partId = (case partInstance of Some p \<Rightarrow> part_id (inst_part p) | None \<Rightarrow> pid);
                instanceId = (case partInstance of Some _ \<Rightarrow> Some pid | None \<Rightarrow> None)
            in case find_index (lookahead_session partId name) known of
                 Some i \<Rightarrow> used (\<lambda>s. case instanceId of
                     Some p \<Rightarrow> s\<lparr>ab_keep := True, ab_partInstanceIds := Some [p]\<rparr>
                   | None \<Rightarrow> s\<lparr>ab_keep := True\<rparr>) i
               | None \<Rightarrow> (Some newId, known @ [new_lookahead_session newId name partId instanceId]))
         else (None, known)))"

definition AB_MEDIA_PLAYER_AUTO :: string where
  "AB_MEDIA_PLAYER_AUTO = ''__auto__''"

definition validateSessionName :: "string \<Rightarrow> PieceAbSessionInfo \<Rightarrow> string" where
  "validateSessionName instanceId session =
     (let newName = (if sessionName session = AB_MEDIA_PLAYER_AUTO then instanceId
                     else sessionName session)
      in poolName session @ ''_'' @ newName)"

section \<open>Where a piece's session stands after a call\<close>

text \<open>The first check of the helper finds the session at index \<open>k\<close>, and it is as a call leaves it.\<close>

definition settled :: "PieceInstance \<Rightarrow> string \<Rightarrow> known_sessions \<Rightarrow> nat \<Rightarrow> bool" where
  "settled p name known k =
     (k < length known \<and> preserveSession (infinite_id p) (known ! k) = known ! k
      \<and> (if truthy_str (infinite_id p) then find_index (infinite_session (infinite_id p) name) known
          else find_index (instance_session (pi_partInstanceId p) name) known) = Some k)"

lemma preserve_idem [simp]: "preserveSession i (preserveSession i s) = preserveSession i s"
  by (simp add: preserveSession_def)

lemma preserve_sessions [simp]:
  "infinite_session i name (preserveSession i s) \<longleftrightarrow> ab_name s = name"
  "instance_session q name (preserveSession i s) \<longleftrightarrow> instance_session q name s"
  "ab_id (preserveSession i s) = ab_id s" "ab_name (preserveSession i s) = ab_name s"
  by (simp_all add: preserveSession_def infinite_session_def instance_session_def mentions_instance_def)

lemma settled_update:
  assumes "i < length known" "ab_name s = name"
    and "truthy_str (infinite_id p) \<Longrightarrow> \<forall>j<i. \<not> infinite_session (infinite_id p) name (known ! j)"
    and "\<not> truthy_str (infinite_id p) \<Longrightarrow> \<forall>j<i. \<not> instance_session (pi_partInstanceId p) name (known ! j)"
    and "\<not> truthy_str (infinite_id p) \<Longrightarrow> instance_session (pi_partInstanceId p) name s"
  shows "settled p name (known[i := preserveSession (infinite_id p) s]) i"
  using assms by (simp add: settled_def find_index_update)

lemma settled_new:
  assumes "truthy_str (infinite_id p) \<Longrightarrow> find_index (infinite_session (infinite_id p) name) known = None"
    and "find_index (instance_session (pi_partInstanceId p) name) known = None"
  shows "settled p name (known @ [new_session i name (infinite_id p) (pi_partInstanceId p)]) (length known)"
  using assms
  by (simp add: settled_def find_index_snoc new_session_def preserveSession_def infinite_session_def
      instance_session_def mentions_instance_def)

lemma find_index_None_nth: "find_index p xs = None \<Longrightarrow> i < length xs \<Longrightarrow> \<not> p (xs ! i)"
  by (simp add: find_index_None)

lemma getPieceABSessionId_settles:
  assumes "getPieceABSessionId pis newId p name known = Inr (i, known')"
  shows "\<exists>k. settled p name known' k \<and> ab_id (known' ! k) = i"
proof -
  let ?inf = "infinite_session (infinite_id p) name"
  let ?own = "instance_session (pi_partInstanceId p) name"
  let ?pres = "preserveSession (infinite_id p)"
  obtain n where n: "find_index (\<lambda>q. inst_id q = pi_partInstanceId p) pis = Some n"
    using assms by (auto simp: getPieceABSessionId_def Let_def split: option.splits)
  show ?thesis
  proof (cases "if truthy_str (infinite_id p) then find_index ?inf known else None")
    case (Some k)
    then have k: "truthy_str (infinite_id p)" "find_index ?inf known = Some k" by (simp_all split: if_splits)
    then have "settled p name (known[k := ?pres (known ! k)]) k"
      by (intro settled_update) (simp_all add: find_index_Some infinite_session_def)
    with assms k n show ?thesis
      by (intro exI [of _ k]) (auto simp: getPieceABSessionId_def Let_def use_session_def find_index_Some)
  next
    case None
    then have no_inf: "find_index ?inf known = None" if "truthy_str (infinite_id p)" using that by simp
    show ?thesis
    proof (cases "find_index ?own known")
      case (Some k)
      then have "settled p name (known[k := ?pres (known ! k)]) k"
        using no_inf
        by (intro settled_update) (auto simp: find_index_Some find_index_None_nth instance_session_def)
      with assms None Some n show ?thesis
        by (intro exI [of _ k]) (auto simp: getPieceABSessionId_def Let_def use_session_def find_index_Some)
    next
      case no_own: None
      have set: "settled p name (known[k := ?pres s]) k"
        if "k < length known" "ab_name s = name" "mentions_instance (pi_partInstanceId p) s" for k s
      proof (rule settled_update)
        show "\<forall>j<k. \<not> ?own (known ! j)"
          using find_index_None_nth [OF no_own] that(1) by simp
        show "\<forall>j<k. \<not> ?inf (known ! j)" if "truthy_str (infinite_id p)"
          using find_index_None_nth [OF no_inf [OF that]] \<open>k < length known\<close> by simp
        show "?own s" using that by (simp add: instance_session_def)
      qed (use that in simp_all)
      show ?thesis
      proof (cases "case part_instance_before pis n of Some b \<Rightarrow> find_index (instance_session b name) known | None \<Rightarrow> None")
        case (Some k)
        then have "k < length known" "ab_name (known ! k) = name"
          by (auto simp: find_index_Some instance_session_def split: option.splits)
        then have "settled p name (known[k := ?pres ((known ! k)\<lparr>ab_partInstanceIds :=
            Some (nullish (ab_partInstanceIds (known ! k)) [] @ [pi_partInstanceId p])\<rparr>)]) k"
          by (intro set) (simp_all add: mentions_instance_def)
        with assms None no_own Some n \<open>k < length known\<close> show ?thesis
          by (intro exI [of _ k]) (auto simp: getPieceABSessionId_def Let_def use_session_def)
      next
        case no_before: None
        show ?thesis
        proof (cases "find_index (lookahead_session (part_id (inst_part (pis ! n))) name) known")
          case (Some k)
          then have "k < length known" "ab_name (known ! k) = name"
            by (simp_all add: find_index_Some lookahead_session_def)
          then have "settled p name (known[k := ?pres ((known ! k)\<lparr>ab_partInstanceIds :=
              Some [pi_partInstanceId p]\<rparr>)]) k"
            by (intro set) (simp_all add: mentions_instance_def)
          with assms None no_own no_before Some n \<open>k < length known\<close> show ?thesis
            by (intro exI [of _ k]) (auto simp: getPieceABSessionId_def Let_def use_session_def)
        next
          case no_look: None
          have "settled p name (known @ [new_session newId name (infinite_id p) (pi_partInstanceId p)])
              (length known)"
            using no_inf no_own by (intro settled_new) simp_all
          with assms None no_own no_before no_look n show ?thesis
            by (intro exI [of _ "length known"])
              (auto simp: getPieceABSessionId_def Let_def new_session_def)
        qed
      qed
    qed
  qed
qed

lemma settled_again:
  assumes "settled p name known k" and "pi_partInstanceId p \<in> inst_id ` set pis"
  shows "getPieceABSessionId pis newId p name known = Inr (ab_id (known ! k), known)"
proof -
  obtain n where n: "find_index (\<lambda>q. inst_id q = pi_partInstanceId p) pis = Some n"
    using assms(2) by (cases "find_index (\<lambda>q. inst_id q = pi_partInstanceId p) pis")
      (auto simp: find_index_None)
  have "known[k := preserveSession (infinite_id p) (known ! k)] = known"
    using assms(1) by (simp add: settled_def)
  with assms(1) n show ?thesis
    by (simp add: settled_def getPieceABSessionId_def use_session_def Let_def split: if_splits)
qed

lemma getPieceABSessionId_known:
  "getPieceABSessionId pis newId p name known = Inr r \<Longrightarrow> pi_partInstanceId p \<in> inst_id ` set pis"
proof -
  assume "getPieceABSessionId pis newId p name known = Inr r"
  then have "find_index (\<lambda>q. inst_id q = pi_partInstanceId p) pis \<noteq> None"
    by (rule contrapos_pn) (simp add: getPieceABSessionId_def)
  then show ?thesis unfolding find_index_None by (metis image_eqI)
qed

lemma getPieceABSessionId_ids:
  assumes "getPieceABSessionId pis newId p name known = Inr (i, known')"
  shows "map ab_id known' = map ab_id known \<and> i \<in> set (map ab_id known)
    \<or> map ab_id known' = map ab_id known @ [newId] \<and> i = newId"
proof -
  have upd: "map ab_id (known[k := s]) = map ab_id known" if "ab_id s = ab_id (known ! k)" for k s
    using that by (metis list_update_id map_update)
  have use: "map ab_id (snd (use_session f k known)) = map ab_id known
      \<and> fst (use_session f k known) \<in> set (map ab_id known)"
    if "find_index P known = Some k" "\<And>s. ab_id (f s) = ab_id s" for f k P
    using that by (simp add: use_session_def upd find_index_Some)
  have use': "use_session f k known = (i, known') \<Longrightarrow> find_index P known = Some k \<Longrightarrow>
      (\<And>s. ab_id (f s) = ab_id s) \<Longrightarrow> map ab_id known' = map ab_id known \<and> i \<in> set (map ab_id known)" for f k P
    using use [of P k f] by simp
  show ?thesis
    using assms unfolding getPieceABSessionId_def Let_def
    by (auto simp: new_session_def split: option.splits if_splits dest!: use')
qed

lemma preserve_kept: "preserveSession i s = s \<Longrightarrow> s\<lparr>ab_keep := True\<rparr> = s"
proof -
  assume "preserveSession i s = s"
  moreover have "(preserveSession i s)\<lparr>ab_keep := True\<rparr> = preserveSession i s"
    by (simp add: preserveSession_def)
  ultimately show ?thesis by simp
qed

section \<open>Properties\<close>

text \<open>
  Session ids are persistent: once the helper has given a piece an id for a session name, it
  gives the same id again and leaves its sessions as they are, whatever new id it could draw, and
  the timeline objects of that piece get the same id.
\<close>

theorem ab_session_ids_persist:
  assumes "getPieceABSessionId pis newId p name known = Inr (i, known')"
    and "pi_partInstanceId p \<noteq> []"
    and "tl_partInstanceId obj = Some (pi_partInstanceId p)"
    and "infinitePieceInstanceId obj = infinite_id p"
  shows "getPieceABSessionId pis newId' p name known' = Inr (i, known')
    \<and> getTimelineObjectAbSessionId pis newId' obj name known' = (Some i, known')"
proof -
  obtain k where k: "settled p name known' k" "ab_id (known' ! k) = i"
    using getPieceABSessionId_settles [OF assms(1)] by blast
  have "(known' ! k)\<lparr>ab_keep := True\<rparr> = known' ! k"
    using k(1) preserve_kept unfolding settled_def by blast
  then have "known'[k := (known' ! k)\<lparr>ab_keep := True\<rparr>] = known'" by simp
  with k assms(2-4) have "getTimelineObjectAbSessionId pis newId' obj name known' = (Some i, known')"
    by (simp add: getTimelineObjectAbSessionId_def settled_def use_session_def truthy_str_def Let_def
        split: if_splits)
  then show ?thesis
    using settled_again [OF k(1) getPieceABSessionId_known [OF assms(1)]] k(2) by simp
qed

text \<open>
  The ids stay unique: a call adds at most one session, with the id it drew, and returns the
  id of a session it knows, so distinct ids stay distinct when the drawn one is new.
\<close>

theorem ab_session_ids_distinct:
  assumes "getPieceABSessionId pis newId p name known = Inr (i, known')"
    and "distinct (map ab_id known)" and "newId \<notin> ab_id ` set known"
  shows "distinct (map ab_id known') \<and> i \<in> ab_id ` set known' \<and> ab_id ` set known \<subseteq> ab_id ` set known'"
proof -
  have ids: "ab_id ` set xs = set (map ab_id xs)" for xs by simp
  from getPieceABSessionId_ids [OF assms(1)] assms(2,3) show ?thesis
    unfolding ids by (elim disjE conjE) (simp_all only: distinct_append set_append, auto)
qed

text \<open>
  A session goes on from part to part: when a piece of one part instance uses a session and a
  piece of the part instance after it, of a higher rank, asks for a session of the same name that
  has none of its own, it gets the same id. Infinite pieces carry their own session and are left out.
\<close>

theorem ab_session_continues:
  assumes "getPieceABSessionId pis newId a name known = Inr (i, known1)"
    and "find_index (\<lambda>q. inst_id q = pi_partInstanceId a) pis = Some n"
    and "find_index (\<lambda>q. inst_id q = pi_partInstanceId b) pis = Some (Suc n)"
    and "part_rank (inst_part (pis ! n)) < part_rank (inst_part (pis ! Suc n))"
    and "infinite a = None" and "infinite b = None"
    and "find_index (instance_session (pi_partInstanceId b) name) known1 = None"
  shows "\<exists>known2. getPieceABSessionId pis newId' b name known1 = Inr (i, known2)"
proof -
  obtain k where k: "settled a name known1 k" "ab_id (known1 ! k) = i"
    using getPieceABSessionId_settles [OF assms(1)] by blast
  have no: "infinite_id a = None" "infinite_id b = None" "\<not> truthy_str None"
    using assms(5,6) by (simp_all add: infinite_id_def truthy_str_def)
  have own: "find_index (instance_session (pi_partInstanceId a) name) known1 = Some k"
    using k(1) by (simp add: settled_def no)
  have "part_instance_before pis (Suc n) = Some (pi_partInstanceId a)"
    using assms(2,4) by (simp add: part_instance_before_def find_index_Some)
  with own assms(3,7) k(2) show ?thesis
    by (simp add: getPieceABSessionId_def use_session_def Let_def no)
qed

definition ex_a :: PieceInstance where
  "ex_a = (sample_instance sample_piece)\<lparr>pi_partInstanceId := ''i1''\<rparr>"

definition ex_b :: PieceInstance where
  "ex_b = (sample_instance sample_piece)\<lparr>pi_partInstanceId := ''i2''\<rparr>"

definition ex_instances :: "DBPartInstance list" where
  "ex_instances = [sample_part_instance ''i1'' (sample_part ''p1'' 1 ''seg''),
     sample_part_instance ''i2'' (sample_part ''p2'' 2 ''seg'')]"

definition ex_object :: OnGenerateTimelineObjExt where
  "ex_object = \<lparr>tl_id = ''obj'', tl_partInstanceId = Some ''i1'', infinitePieceInstanceId = None,
     pieceInstanceId = Some ''inst_piece'', isLookahead = False, open_ended = True, tl_priority = 1,
     tl_abSessions = []\<rparr>"

definition ex_session :: ABSessionInfoExt where
  "ex_session = new_session ''s0'' ''pool_clip'' None ''i1''"

lemma ex_fields:
  "pi_partInstanceId ex_a = ''i1''" "infinite ex_a = None" "infinite_id ex_a = None"
  "pi_partInstanceId ex_b = ''i2''" "infinite ex_b = None" "infinite_id ex_b = None"
  by (simp_all add: ex_a_def ex_b_def sample_defs infinite_id_def)

lemma ex_first: "getPieceABSessionId ex_instances ''s0'' ex_a ''pool_clip'' [] = Inr (''s0'', [ex_session])"
  by (simp add: getPieceABSessionId_def ex_fields truthy_str_def ex_instances_def sample_defs
      part_instance_before_def ex_session_def Let_def)

theorem ab_session_ids_persist_witness:
  "getPieceABSessionId ex_instances ''s1'' ex_a ''pool_clip'' [ex_session] = Inr (''s0'', [ex_session])
   \<and> getTimelineObjectAbSessionId ex_instances ''s1'' ex_object ''pool_clip'' [ex_session] =
       (Some ''s0'', [ex_session])"
  by (rule ab_session_ids_persist [OF ex_first])
    (simp_all add: ex_fields ex_object_def)

theorem ab_session_ids_distinct_witness:
  "distinct (map ab_id [ex_session]) \<and> ''s0'' \<in> ab_id ` set [ex_session]"
  using ab_session_ids_distinct [OF ex_first] by simp

theorem ab_session_continues_witness:
  "\<exists>known2. getPieceABSessionId ex_instances ''s1'' ex_b ''pool_clip'' [ex_session] = Inr (''s0'', known2)"
  by (rule ab_session_continues [OF ex_first, where n = 0])
    (simp_all add: ex_fields ex_instances_def sample_defs ex_session_def new_session_def
      instance_session_def mentions_instance_def)

end
