(* ===== verification/Ab_Ranges.thy ===== *)
theory Ab_Ranges
  imports Ab_Sessions
begin

text \<open>
  The session requests of one AB pool: \<open>calculateSessionTimeRanges\<close> of
  \<open>packages/job-worker/src/playout/abPlayback/abPlaybackSessions.ts\<close>. The helper's state is
  threaded through the calls in the order the code makes them; the id that the n-th call could draw
  is \<open>rnd n\<close>.
\<close>

section \<open>Requests\<close>

text \<open>\<open>playerId: number | string\<close>\<close>

datatype PlayerId = PlayerNum int | PlayerStr string

record SessionRequest =
  rq_id :: string
  rq_start :: time
  rq_end :: "time option"
  rq_optional :: bool
  lookaheadRank :: "nat option"
  playerId :: "PlayerId option"

record ABSessionAssignment =
  as_sessionId :: string
  as_playerId :: PlayerId
  as_lookahead :: bool

type_synonym ABSessionAssignments = "(string, ABSessionAssignment) js_map"

definition MAX_SAFE_INTEGER :: int where
  "MAX_SAFE_INTEGER = 9007199254740991"

section \<open>Sessions of pieces\<close>

text \<open>One use of a session by a piece: the id, and the time the piece is on air.\<close>

type_synonym session_use = "string \<times> time \<times> time option \<times> bool"

type_synonym helper_state = "nat \<times> known_sessions"

definition resolved_end :: "ResolvedPieceInstance \<Rightarrow> time option" where
  "resolved_end p = map_option (\<lambda>d. resolvedStart p + d) (resolvedDuration p)"

fun piece_sessions ::
  "DBPartInstance list \<Rightarrow> (nat \<Rightarrow> string) \<Rightarrow> string \<Rightarrow> ResolvedPieceInstance \<Rightarrow> PieceAbSessionInfo list
   \<Rightarrow> helper_state \<Rightarrow> ab_error + session_use list \<times> helper_state" where
  "piece_sessions pis rnd pool p [] s = Inr ([], s)"
| "piece_sessions pis rnd pool p (ses # rest) (n, known) =
     (if poolName ses \<noteq> pool then piece_sessions pis rnd pool p rest (n, known)
      else let piece = pwt_instance (res_instance p) in
        case getPieceABSessionId pis (rnd n) piece (validateSessionName (pi_id piece) ses) known of
          Inl e \<Rightarrow> Inl e
        | Inr (i, known') \<Rightarrow>
           (case piece_sessions pis rnd pool p rest (Suc n, known') of
              Inl e \<Rightarrow> Inl e
            | Inr (uses, s) \<Rightarrow> Inr ((i, resolvedStart p, resolved_end p, ab_optional ses) # uses, s)))"

fun session_uses ::
  "DBPartInstance list \<Rightarrow> (nat \<Rightarrow> string) \<Rightarrow> string \<Rightarrow> ResolvedPieceInstance list
   \<Rightarrow> helper_state \<Rightarrow> ab_error + session_use list \<times> helper_state" where
  "session_uses pis rnd pool [] s = Inr ([], s)"
| "session_uses pis rnd pool (p # ps) s =
     (case piece_sessions pis rnd pool p (abSessions (pi_piece (pwt_instance (res_instance p)))) s of
        Inl e \<Rightarrow> Inl e
      | Inr (uses, s) \<Rightarrow>
         (case session_uses pis rnd pool ps s of
            Inl e \<Rightarrow> Inl e
          | Inr (uses2, s) \<Rightarrow> Inr (uses @ uses2, s)))"

definition previous_player :: "ABSessionAssignments \<Rightarrow> string \<Rightarrow> PlayerId option" where
  "previous_player prev i = map_option as_playerId (map_get prev i)"

text \<open>A known session is extended to cover the piece.\<close>

definition track_use ::
  "ABSessionAssignments \<Rightarrow> session_use \<Rightarrow> (string, SessionRequest) js_map \<Rightarrow> (string, SessionRequest) js_map" where
  "track_use prev u reqs =
     (case u of (sessionId, start, end, opt) \<Rightarrow>
      map_set sessionId
        (case map_get reqs sessionId of
           Some val \<Rightarrow>
             \<lparr>rq_id = sessionId, rq_start = min (rq_start val) start,
              rq_end = (case rq_end val of None \<Rightarrow> None
                | Some e \<Rightarrow> (case end of None \<Rightarrow> None | Some e' \<Rightarrow> Some (max e e'))),
              rq_optional = (rq_optional val \<and> opt), lookaheadRank = None,
              playerId = previous_player prev sessionId\<rparr>
         | None \<Rightarrow>
             \<lparr>rq_id = sessionId, rq_start = start, rq_end = end, rq_optional = opt,
              lookaheadRank = None, playerId = previous_player prev sessionId\<rparr>) reqs)"

section \<open>Lookahead\<close>

definition requests_lookahead :: "OnGenerateTimelineObjExt \<Rightarrow> bool" where
  "requests_lookahead obj = (isLookahead obj \<and> open_ended obj \<and> truthy_str (pieceInstanceId obj))"

fun object_sessions ::
  "DBPartInstance list \<Rightarrow> (nat \<Rightarrow> string) \<Rightarrow> string \<Rightarrow> OnGenerateTimelineObjExt \<Rightarrow> PieceAbSessionInfo list
   \<Rightarrow> helper_state \<Rightarrow> string list \<times> helper_state" where
  "object_sessions pis rnd pool obj [] s = ([], s)"
| "object_sessions pis rnd pool obj (ses # rest) (n, known) =
     (if poolName ses \<noteq> pool then object_sessions pis rnd pool obj rest (n, known)
      else case getTimelineObjectAbSessionId pis (rnd n) obj
                  (validateSessionName (the (pieceInstanceId obj)) ses) known of
        (i, known') \<Rightarrow>
         (case object_sessions pis rnd pool obj rest (Suc n, known') of
            (ids, s) \<Rightarrow> (if truthy_str i then the i # ids else ids, s)))"

fun grouped_sessions ::
  "DBPartInstance list \<Rightarrow> (nat \<Rightarrow> string) \<Rightarrow> string \<Rightarrow> (OnGenerateTimelineObjExt \<Rightarrow> bool)
   \<Rightarrow> OnGenerateTimelineObjExt list \<Rightarrow> helper_state
   \<Rightarrow> (string, OnGenerateTimelineObjExt list) js_map
   \<Rightarrow> (string, OnGenerateTimelineObjExt list) js_map \<times> helper_state" where
  "grouped_sessions pis rnd pool sel [] s m = (m, s)"
| "grouped_sessions pis rnd pool sel (obj # objs) s m =
     (if \<not> sel obj then grouped_sessions pis rnd pool sel objs s m
      else case object_sessions pis rnd pool obj (tl_abSessions obj) s of
        (ids, s) \<Rightarrow> grouped_sessions pis rnd pool sel objs s
          (fold (\<lambda>i. groupByToMapFunc_add i obj) ids m))"

text \<open>\<open>_.max(priorities) || -900\<close>, inverted: a highest priority of zero counts as -900.\<close>

definition group_order :: "OnGenerateTimelineObjExt list \<Rightarrow> rat" where
  "group_order objs =
     (let r = fold max (map tl_priority (tl objs)) (tl_priority (hd objs)) in
      - (if r = 0 then -900 else r))"

fun lookahead_requests ::
  "ABSessionAssignments \<Rightarrow> (string, SessionRequest) js_map \<Rightarrow> nat
   \<Rightarrow> (string \<times> OnGenerateTimelineObjExt list) list \<Rightarrow> SessionRequest list" where
  "lookahead_requests prev reqs i [] = []"
| "lookahead_requests prev reqs i ((grp, objs) # gs) =
     (if map_has reqs grp then lookahead_requests prev reqs (Suc i) gs
      else \<lparr>rq_id = grp, rq_start = MAX_SAFE_INTEGER, rq_end = None, rq_optional = False,
             lookaheadRank = Some (Suc i), playerId = previous_player prev grp\<rparr>
           # lookahead_requests prev reqs (Suc i) gs)"

definition calculateSessionTimeRanges ::
  "DBPartInstance list \<Rightarrow> (nat \<Rightarrow> string) \<Rightarrow> ResolvedPieceInstance list \<Rightarrow> OnGenerateTimelineObjExt list
   \<Rightarrow> ABSessionAssignments \<Rightarrow> string \<Rightarrow> helper_state
   \<Rightarrow> ab_error + SessionRequest list \<times> helper_state" where
  "calculateSessionTimeRanges pis rnd resolvedPieces timelineObjects prev pool s =
     (case session_uses pis rnd pool resolvedPieces s of
        Inl e \<Rightarrow> Inl e
      | Inr (uses, s) \<Rightarrow>
         (let sessionRequests = fold (track_use prev) uses [] in
          case grouped_sessions pis rnd pool requests_lookahead timelineObjects s [] of
            (groups, s) \<Rightarrow>
              Inr (map snd sessionRequests
                   @ lookahead_requests prev sessionRequests 0
                       (js_sort (\<lambda>a b. group_order (snd b) < group_order (snd a)) groups), s)))"

section \<open>A request covers the uses of its session\<close>

definition uses_of :: "string \<Rightarrow> session_use list \<Rightarrow> session_use list" where
  "uses_of i us = filter (\<lambda>u. fst u = i) us"

definition use_hull :: "ABSessionAssignments \<Rightarrow> string \<Rightarrow> session_use list \<Rightarrow> SessionRequest" where
  "use_hull prev i us =
     \<lparr>rq_id = i, rq_start = Min ((\<lambda>u. fst (snd u)) ` set us),
      rq_end = (if (\<exists>u\<in>set us. fst (snd (snd u)) = None) then None
                else Some (Max ((\<lambda>u. the (fst (snd (snd u)))) ` set us))),
      rq_optional = (\<forall>u\<in>set us. snd (snd (snd u))), lookaheadRank = None,
      playerId = previous_player prev i\<rparr>"

lemma uses_of_snoc: "uses_of i (us @ [u]) = (if fst u = i then uses_of i us @ [u] else uses_of i us)"
  by (simp add: uses_of_def)

lemma track_uses:
  "map_get (fold (track_use prev) us []) i =
     (if uses_of i us = [] then None else Some (use_hull prev i (uses_of i us)))"
proof (induction us rule: rev_induct)
  case Nil
  then show ?case by (simp add: uses_of_def)
next
  case (snoc u us)
  obtain j s e opt where u: "u = (j, s, e, opt)" by (metis prod_cases4)
  show ?case
  proof (cases "j = i")
    case False
    with snoc u show ?thesis by (simp add: track_use_def map_get_set uses_of_snoc)
  next
    case True
    show ?thesis
    proof (cases "uses_of i us = []")
      case True
      with \<open>j = i\<close> snoc u show ?thesis
        by (cases e) (simp_all add: track_use_def map_get_set uses_of_snoc use_hull_def)
    next
      case False
      then have ne: "set (uses_of i us) \<noteq> {}" by simp
      have g: "map_get (fold (track_use prev) us []) i = Some (use_hull prev i (uses_of i us))"
        using snoc False by simp
      show ?thesis
        unfolding u fold_append comp_def
        using \<open>j = i\<close> g ne False
        by (cases e) (auto simp: track_use_def map_get_set uses_of_snoc use_hull_def min.commute max.commute)
    qed
  qed
qed

lemma map_wf_track: "map_wf (fold (track_use prev) us [])"
  by (induction us rule: rev_induct) (auto simp: track_use_def split: prod.split)

lemma track_entry:
  assumes "(i, r) \<in> set (fold (track_use prev) us [])"
  shows "r = use_hull prev i (uses_of i us) \<and> uses_of i us \<noteq> []"
proof -
  have "map_get (fold (track_use prev) us []) i = Some r"
    using assms map_wf_track [of prev us] by (simp add: map_wf_def)
  then show ?thesis by (simp add: track_uses split: if_splits)
qed

lemma ids_of_entries:
  assumes "\<forall>e\<in>set m. rq_id (snd e) = fst e"
  shows "map rq_id (map snd m) = map fst m"
  using assms by (induction m) auto

lemma lookahead_requests_ids:
  "set (map rq_id (lookahead_requests prev reqs i gs)) \<subseteq> fst ` set gs - {g. map_has reqs g}"
  by (induction prev reqs i gs rule: lookahead_requests.induct) auto

lemma lookahead_requests_distinct:
  "distinct (map fst gs) \<Longrightarrow> distinct (map rq_id (lookahead_requests prev reqs i gs))"
proof (induction gs arbitrary: i)
  case (Cons g gs)
  then have "fst g \<notin> fst ` set gs" "distinct (map rq_id (lookahead_requests prev reqs (Suc i) gs))"
    by simp_all
  moreover from this(1) have "fst g \<notin> set (map rq_id (lookahead_requests prev reqs (Suc i) gs))"
    using lookahead_requests_ids [of prev reqs "Suc i" gs] by blast
  ultimately show ?case by (cases g) simp
qed simp

lemma lookahead_requests_all:
  "\<forall>r\<in>set (lookahead_requests prev reqs i gs).
     rq_start r = MAX_SAFE_INTEGER \<and> rq_end r = None \<and> (\<exists>k>i. lookaheadRank r = Some k)"
proof (induction gs arbitrary: i)
  case (Cons g gs)
  from Cons.IH [of "Suc i"] have "\<forall>r\<in>set (lookahead_requests prev reqs (Suc i) gs).
     rq_start r = MAX_SAFE_INTEGER \<and> rq_end r = None \<and> (\<exists>k>i. lookaheadRank r = Some k)"
    by (meson Suc_lessD)
  then show ?case by (cases g) simp
qed simp

lemma lookahead_requests_ranks:
  "sorted_wrt (\<lambda>a b. the (lookaheadRank a) < the (lookaheadRank b)) (lookahead_requests prev reqs i gs)"
proof (induction gs arbitrary: i)
  case (Cons g gs)
  have "\<forall>r\<in>set (lookahead_requests prev reqs (Suc i) gs). Suc i < the (lookaheadRank r)"
  proof
    fix r assume "r \<in> set (lookahead_requests prev reqs (Suc i) gs)"
    with lookahead_requests_all [of prev reqs "Suc i" gs]
    obtain k where "Suc i < k" "lookaheadRank r = Some k" by blast
    then show "Suc i < the (lookaheadRank r)" by simp
  qed
  with Cons.IH [of "Suc i"] show ?case by (cases g) simp
qed simp

lemma map_wf_grouped:
  "map_wf m \<Longrightarrow> map_wf (fst (grouped_sessions pis rnd pool sel objs s m))"
proof (induction pis rnd pool sel objs s m rule: grouped_sessions.induct)
  case (2 pis rnd pool sel obj objs s m)
  have add: "map_wf (fold (\<lambda>i. groupByToMapFunc_add i obj) ids m)" if "map_wf m" for ids m
    using that by (induction ids arbitrary: m) (simp_all add: map_wf_group_add)
  obtain ids s' where "object_sessions pis rnd pool obj (tl_abSessions obj) s = (ids, s')"
    by (meson surj_pair)
  with 2 show ?case by (cases "sel obj") (simp_all add: add)
qed simp

section \<open>Properties\<close>

text \<open>
  C32. The requests of a pool cover the time its sessions are used. Ids are unique; every use of a
  session by a piece lies within one request, which starts with the first use, ends with the last
  (never, when one of them has no end), is optional when all of them are, and keeps the player of
  the run before. All other requests are lookaheads for sessions that no piece uses, in the distant
  future, and their ranks increase along the list.
\<close>

theorem session_requests_cover_uses:
  assumes "calculateSessionTimeRanges pis rnd pieces objs prev pool s = Inr (reqs, s')"
    and "session_uses pis rnd pool pieces s = Inr (uses, s1)"
  shows "distinct (map rq_id reqs)
    \<and> (\<forall>u\<in>set uses. use_hull prev (fst u) (uses_of (fst u) uses) \<in> set reqs)
    \<and> (\<forall>r\<in>set reqs. lookaheadRank r = None \<longrightarrow> r = use_hull prev (rq_id r) (uses_of (rq_id r) uses))
    \<and> (\<forall>r\<in>set reqs. lookaheadRank r \<noteq> None \<longrightarrow>
         uses_of (rq_id r) uses = [] \<and> rq_start r = MAX_SAFE_INTEGER \<and> rq_end r = None)
    \<and> sorted_wrt (\<lambda>a b. the (lookaheadRank a) < the (lookaheadRank b))
        (filter (\<lambda>r. lookaheadRank r \<noteq> None) reqs)"
proof -
  let ?M = "fold (track_use prev) uses []"
  define gs where "gs = js_sort (\<lambda>a b. group_order (snd b) < group_order (snd a))
    (fst (grouped_sessions pis rnd pool requests_lookahead objs s1 []))"
  define ls where "ls = lookahead_requests prev ?M 0 gs"
  have reqs: "reqs = map snd ?M @ ls"
    using assms by (simp add: calculateSessionTimeRanges_def Let_def gs_def ls_def split: prod.splits)
  have ids: "\<forall>e\<in>set ?M. rq_id (snd e) = fst e"
  proof
    fix e assume "e \<in> set ?M"
    then show "rq_id (snd e) = fst e"
      using track_entry [of "fst e" "snd e" prev uses] by (simp add: use_hull_def)
  qed
  have wf: "distinct (map fst ?M)" using map_wf_track by (simp add: map_wf_def)
  have "map_wf (fst (grouped_sessions pis rnd pool requests_lookahead objs s1 []))"
    by (rule map_wf_grouped) (simp add: map_wf_def)
  then have "distinct (map fst gs)" unfolding gs_def map_wf_def distinct_map_js_sort .
  then have l: "distinct (map rq_id ls)" "set (map rq_id ls) \<inter> {g. map_has ?M g} = {}"
    "\<forall>r\<in>set ls. rq_start r = MAX_SAFE_INTEGER \<and> rq_end r = None \<and> lookaheadRank r \<noteq> None"
    "sorted_wrt (\<lambda>a b. the (lookaheadRank a) < the (lookaheadRank b)) ls"
    using lookahead_requests_ids [of prev ?M 0 gs] lookahead_requests_distinct [of gs prev ?M 0]
      lookahead_requests_all [of prev ?M 0 gs] lookahead_requests_ranks [of prev ?M 0 gs]
    unfolding ls_def by (simp, blast, blast, simp)
  have has: "map_has ?M g \<longleftrightarrow> uses_of g uses \<noteq> []" for g
    by (simp add: map_has_def track_uses)
  have M: "\<forall>r\<in>set (map snd ?M). lookaheadRank r = None \<and> map_has ?M (rq_id r)
      \<and> r = use_hull prev (rq_id r) (uses_of (rq_id r) uses)"
  proof
    fix r assume "r \<in> set (map snd ?M)"
    then obtain i where "(i, r) \<in> set ?M" by auto
    from track_entry [OF this] have "r = use_hull prev i (uses_of i uses)" "uses_of i uses \<noteq> []"
      by simp_all
    then show "lookaheadRank r = None \<and> map_has ?M (rq_id r)
        \<and> r = use_hull prev (rq_id r) (uses_of (rq_id r) uses)"
      by (simp add: has use_hull_def)
  qed
  have "distinct (map rq_id reqs)"
  proof -
    have "set (map rq_id (map snd ?M)) \<subseteq> {g. map_has ?M g}" using M by auto
    then have "set (map rq_id (map snd ?M)) \<inter> set (map rq_id ls) = {}" using l(2) by blast
    then show ?thesis
      unfolding reqs map_append distinct_append ids_of_entries [OF ids] using l(1) wf by simp
  qed
  moreover have "use_hull prev (fst u) (uses_of (fst u) uses) \<in> set reqs" if "u \<in> set uses" for u
  proof -
    have "uses_of (fst u) uses \<noteq> []" using that by (auto simp: uses_of_def filter_empty_conv)
    then have "map_get ?M (fst u) = Some (use_hull prev (fst u) (uses_of (fst u) uses))"
      by (simp add: track_uses)
    then show ?thesis unfolding reqs by (force dest: map_of_SomeD)
  qed
  moreover have "\<forall>r\<in>set ls. uses_of (rq_id r) uses = []"
  proof
    fix r assume "r \<in> set ls"
    then have "rq_id r \<in> set (map rq_id ls)" by simp
    then show "uses_of (rq_id r) uses = []" using l(2) has by blast
  qed
  moreover have "filter (\<lambda>r. lookaheadRank r \<noteq> None) reqs = ls"
    using M l(3) unfolding reqs by (simp add: filter_empty_conv filter_id_conv)
  moreover have "r = use_hull prev (rq_id r) (uses_of (rq_id r) uses)"
    if "r \<in> set reqs" "lookaheadRank r = None" for r
    using that M l(3) unfolding reqs by auto
  moreover have "r \<in> set ls" if "r \<in> set reqs" "lookaheadRank r \<noteq> None" for r
    using that M unfolding reqs by auto
  ultimately show ?thesis
    using l(3,4) by (intro conjI ballI impI) simp_all
qed

definition ex_ab_piece :: PieceInstance where
  "ex_ab_piece = ex_a\<lparr>pi_piece := (pi_piece ex_a)\<lparr>abSessions :=
     [\<lparr>sessionName = ''clip'', poolName = ''pool'', ab_optional = False\<rparr>]\<rparr>\<rparr>"

definition ex_resolved :: ResolvedPieceInstance where
  "ex_resolved = \<lparr>res_instance = \<lparr>pwt_instance = ex_ab_piece, resolvedEndCap = None, priority = 5\<rparr>,
     resolvedStart = 10, resolvedDuration = Some 90, timelinePriority = 5\<rparr>"

definition ex_request :: SessionRequest where
  "ex_request = \<lparr>rq_id = ''s0'', rq_start = 10, rq_end = Some 100, rq_optional = False,
     lookaheadRank = None, playerId = None\<rparr>"

lemma ex_uses:
  "session_uses ex_instances (\<lambda>_. ''s0'') ''pool'' [ex_resolved] (0, []) =
     Inr ([(''s0'', 10, Some 100, False)], (Suc 0, [ex_session]))"
proof -
  have "getPieceABSessionId ex_instances ''s0'' ex_ab_piece ''pool_clip'' [] = Inr (''s0'', [ex_session])"
    using ex_first by (simp add: getPieceABSessionId_def ex_ab_piece_def infinite_id_def Let_def)
  then show ?thesis
    by (simp add: ex_resolved_def ex_ab_piece_def resolved_end_def validateSessionName_def
        AB_MEDIA_PLAYER_AUTO_def Let_def)
qed

lemma ex_ranges:
  "calculateSessionTimeRanges ex_instances (\<lambda>_. ''s0'') [ex_resolved] [] []
     ''pool'' (0, []) = Inr ([ex_request], (Suc 0, [ex_session]))"
  by (simp add: calculateSessionTimeRanges_def ex_uses track_use_def previous_player_def ex_request_def del: session_uses.simps)

theorem session_requests_cover_uses_witness:
  "use_hull [] ''s0'' [(''s0'', 10, Some 100, False)] = ex_request"
  using session_requests_cover_uses [OF ex_ranges ex_uses] by (simp add: uses_of_def)

end
