(* ===== verification/Ab_Resolver.thy ===== *)
theory Ab_Resolver
  imports Ab_Ranges
begin

text \<open>
  The assignment of AB players to session requests: \<open>resolveAbAssignmentsFromRequests\<close> of
  \<open>packages/job-worker/src/playout/abPlayback/abPlaybackResolver.ts\<close>. The request objects that the
  slots, the queue and the result share are kept in one list; a reference to a request is its index
  there. The loop may give up with an error after 200 rounds, as the code does; that it ends is
  proved by the termination of its definition.
\<close>

section \<open>Strings of numbers\<close>

fun show_nat :: "nat \<Rightarrow> string" where
  "show_nat n = (if n < 10 then [char_of (48 + n)] else show_nat (n div 10) @ [char_of (48 + n mod 10)])"

declare show_nat.simps [simp del]

definition show_int :: "int \<Rightarrow> string" where
  "show_int i = (if i < 0 then ''-'' @ show_nat (nat (- i)) else show_nat (nat i))"

definition is_digit :: "char \<Rightarrow> bool" where
  "is_digit c = (48 \<le> (of_char c :: nat) \<and> (of_char c :: nat) \<le> 57)"

definition digits_value :: "string \<Rightarrow> nat" where
  "digits_value s = foldl (\<lambda>n c. 10 * n + (of_char c - 48)) 0 s"

text \<open>\<open>Number(s)\<close> for a plain decimal integer; other notations count as not a number.\<close>

definition js_number :: "string \<Rightarrow> int option" where
  "js_number s =
     (case s of
        [] \<Rightarrow> Some 0
      | c # cs \<Rightarrow>
          if list_all is_digit s then Some (int (digits_value s))
          else if c = CHR ''-'' \<and> cs \<noteq> [] \<and> list_all is_digit cs then Some (- int (digits_value cs))
          else None)"

text \<open>The order of the own keys of an object: array indexes first, in ascending order.\<close>

definition is_array_index :: "string \<Rightarrow> bool" where
  "is_array_index s =
     (s \<noteq> [] \<and> list_all is_digit s \<and> (hd s \<noteq> CHR ''0'' \<or> s = ''0'') \<and> digits_value s < 4294967295)"

definition object_entries :: "(string, 'v) js_map \<Rightarrow> (string \<times> 'v) list" where
  "object_entries m =
     js_sort (\<lambda>a b. digits_value (fst b) < digits_value (fst a)) (filter (\<lambda>e. is_array_index (fst e)) m)
     @ filter (\<lambda>e. \<not> is_array_index (fst e)) m"

fun player_key :: "PlayerId \<Rightarrow> string" where
  "player_key (PlayerNum n) = show_int n"
| "player_key (PlayerStr s) = s"

definition group_key :: "SessionRequest \<Rightarrow> string" where
  \<comment> \<open>\<open>r.playerId ?? 'undefined'\<close>, as the property name that \<open>_.groupBy\<close> uses\<close>
  "group_key r = (case playerId r of None \<Rightarrow> ''undefined'' | Some p \<Rightarrow> player_key p)"

section \<open>State\<close>

record ABResolverOptions =
  idealGapBefore :: int
  nowWindow :: int

record AssignmentResult =
  failedRequired :: "string list"
  failedOptional :: "string list"
  requests :: "SessionRequest list"

record SlotAvailability =
  sa_id :: PlayerId
  before_end :: "time option"  \<comment> \<open>\<open>before?.end\<close>\<close>
  after :: "nat option"
  clashes :: "nat list"

type_synonym ab_slots = "(PlayerId, nat list) js_map"

record resolver =
  rs_requests :: "SessionRequest list"
  rs_slots :: ab_slots
  rs_pending :: "nat list"
  rs_failedRequired :: "string list"
  rs_failedOptional :: "string list"

datatype resolver_error = PendingRequestsInfiniteLoop

section \<open>Choosing among slots\<close>

text \<open>Numbers with both infinities, in their order.\<close>

type_synonym ext = "int \<times> int"

definition fin :: "int \<Rightarrow> ext" where "fin n = (0, n)"
definition pos_inf :: ext where "pos_inf = (1, 0)"
definition neg_inf :: ext where "neg_inf = (-1, 0)"

definition safeMax :: "('a \<Rightarrow> ext) \<Rightarrow> 'a list \<Rightarrow> 'a option" where
  "safeMax f xs = pick_best (\<lambda>b c. f b < f c) xs"

definition safeMin :: "('a \<Rightarrow> ext) \<Rightarrow> 'a list \<Rightarrow> 'a option" where
  "safeMin f xs = pick_best (\<lambda>b c. f c < f b) xs"

definition by_start :: "SessionRequest list \<Rightarrow> nat list \<Rightarrow> nat list" where
  "by_start rs is = js_sort (\<lambda>a b. rq_start (rs ! b) < rq_start (rs ! a)) is"

definition canBeReplaced :: "SessionRequest \<Rightarrow> SessionRequest \<Rightarrow> bool" where
  "canBeReplaced other self = (rq_optional other \<or> \<not> rq_optional self)"

definition beforeHasGap :: "ABResolverOptions \<Rightarrow> SlotAvailability \<Rightarrow> SessionRequest \<Rightarrow> bool" where
  "beforeHasGap opts p req =
     (case before_end p of None \<Rightarrow> True | Some e \<Rightarrow> e < rq_start req - idealGapBefore opts)"

definition after_start :: "ext \<Rightarrow> SessionRequest list \<Rightarrow> SlotAvailability \<Rightarrow> ext" where
  \<comment> \<open>\<open>p.after?.start ?? d\<close>\<close>
  "after_start d rs p = (case after p of None \<Rightarrow> d | Some a \<Rightarrow> fin (rq_start (rs ! a)))"

definition maxGapAfter :: "SessionRequest list \<Rightarrow> SlotAvailability list \<Rightarrow> SlotAvailability option" where
  "maxGapAfter rs sl = safeMax (after_start pos_inf rs) sl"

definition clashesStartsAfterThis ::
  "time \<Rightarrow> SessionRequest list \<Rightarrow> SlotAvailability \<Rightarrow> SessionRequest \<Rightarrow> bool" where
  "clashesStartsAfterThis safeNow rs slot req =
     (\<not> list_ex (\<lambda>c. rq_start (rs ! c) \<le> safeNow \<or> rq_start (rs ! c) < rq_start req
         \<or> \<not> canBeReplaced (rs ! c) req) (clashes slot))"

definition last_clash_start :: "SessionRequest list \<Rightarrow> SlotAvailability \<Rightarrow> ext" where
  \<comment> \<open>\<open>safeMax(p.clashes, (c) => c.start)?.start ?? Number.POSITIVE_INFINITY\<close>\<close>
  "last_clash_start rs p =
     (case safeMax (\<lambda>c. fin (rq_start (rs ! c))) (clashes p) of
        None \<Rightarrow> pos_inf | Some c \<Rightarrow> fin (rq_start (rs ! c)))"

fun availability ::
  "SessionRequest list \<Rightarrow> SessionRequest \<Rightarrow> nat list \<Rightarrow> SlotAvailability \<Rightarrow> SlotAvailability" where
  "availability rs thisReq [] res = res"
| "availability rs thisReq (i # is) res =
     (let req = rs ! i in
      if truthy_num (rq_end req) \<and> the (rq_end req) < rq_start thisReq
      then availability rs thisReq is (res\<lparr>before_end := rq_end req\<rparr>)
      else if (case lookaheadRank req of None \<Rightarrow> False | Some k \<Rightarrow> k \<noteq> 0)
           \<or> (truthy_num (rq_end thisReq) \<and> the (rq_end thisReq) \<le> rq_start req)
      then res\<lparr>after := Some i\<rparr>
      else availability rs thisReq is (res\<lparr>clashes := clashes res @ [i]\<rparr>))"

definition getAvailability ::
  "SessionRequest list \<Rightarrow> PlayerId \<Rightarrow> SessionRequest \<Rightarrow> nat list \<Rightarrow> SlotAvailability" where
  "getAvailability rs i thisReq orderedRequests =
     availability rs thisReq orderedRequests
       \<lparr>sa_id = i, before_end = None, after = None, clashes = []\<rparr>"

section \<open>The queue\<close>

definition unassign :: "nat list \<Rightarrow> SessionRequest list \<Rightarrow> SessionRequest list" where
  \<comment> \<open>\<open>delete p.playerId\<close> for each of them\<close>
  "unassign is rs = fold (\<lambda>i rs. rs[i := (rs ! i)\<lparr>playerId := None\<rparr>]) is rs"

definition invalidate_later :: "SlotAvailability \<Rightarrow> resolver \<Rightarrow> nat list \<times> resolver" where
  \<comment> \<open>whatever starts with the request after the candidate, or later, on any slot\<close>
  "invalidate_later candidate st =
     (case after candidate of
        None \<Rightarrow> ([], st)
      | Some a \<Rightarrow>
         (let rs = rs_requests st; later = (\<lambda>i. rq_start (rs ! a) \<le> rq_start (rs ! i));
              invalidated = concat (map (\<lambda>sl. filter later (snd sl)) (rs_slots st))
          in (invalidated,
              st\<lparr>rs_requests := unassign invalidated rs,
                 rs_slots := map (\<lambda>(p, is). (p, filter (\<lambda>i. \<not> later i) is)) (rs_slots st)\<rparr>)))"

fun splice_by_id :: "SessionRequest list \<Rightarrow> string \<Rightarrow> nat list \<Rightarrow> nat list" where
  "splice_by_id rs x [] = []"
| "splice_by_id rs x (i # is) = (if rq_id (rs ! i) = x then is else i # splice_by_id rs x is)"

definition invalidateOnesStartingAfterOrClashing ::
  "SlotAvailability \<Rightarrow> bool \<Rightarrow> resolver \<Rightarrow> nat list \<times> resolver" where
  "invalidateOnesStartingAfterOrClashing candidate allowClashing st =
     (case invalidate_later candidate st of (invalidated, st) \<Rightarrow>
      if allowClashing then (invalidated, st)
      else (case map_get (rs_slots st) (sa_id candidate) of
        None \<Rightarrow> (invalidated, st)
      | Some slot \<Rightarrow>
         (invalidated @ clashes candidate,
          st\<lparr>rs_requests := unassign (clashes candidate) (rs_requests st),
             rs_slots := map_set (sa_id candidate)
               (fold (\<lambda>i. splice_by_id (rs_requests st) (rq_id (rs_requests st ! i))) (clashes candidate) slot)
               (rs_slots st)\<rparr>)))"

text \<open>A candidate slot, the requests that were invalidated for it (if any were), and the new state.\<close>

type_synonym choice = "SlotAvailability option \<times> nat list option \<times> resolver"

definition claim_with ::
  "bool \<Rightarrow> SlotAvailability option \<Rightarrow> resolver \<Rightarrow> choice" where
  "claim_with allowClashing c st =
     (case c of None \<Rightarrow> (None, None, st)
      | Some slot \<Rightarrow>
         (case invalidateOnesStartingAfterOrClashing slot allowClashing st of
            (invalidated, st) \<Rightarrow> (Some slot, Some invalidated, st)))"

definition or_else :: "(resolver \<Rightarrow> choice) \<Rightarrow> choice \<Rightarrow> choice" where
  \<comment> \<open>\<open>if (!candidate) \<dots>\<close>\<close>
  "or_else f c = (case c of (None, i, st) \<Rightarrow>
      (case f st of (cand, i', st') \<Rightarrow> (cand, (if i' = None then i else i'), st'))
    | _ \<Rightarrow> c)"

definition choose_now ::
  "ABResolverOptions \<Rightarrow> time \<Rightarrow> SessionRequest \<Rightarrow> SlotAvailability list \<Rightarrow> SlotAvailability list
   \<Rightarrow> resolver \<Rightarrow> choice" where
  \<comment> \<open>pack it dense\<close>
  "choose_now opts safeNow req nonClashing clashing st =
     (let rs = rs_requests st;
          gap = maxGapAfter rs (filter (\<lambda>p. beforeHasGap opts p req) nonClashing);
          freeAtStart = filter (\<lambda>p. beforeHasGap opts p req \<and> clashesStartsAfterThis safeNow rs p req) clashing
      in (case gap of Some c \<Rightarrow> Some c
          | None \<Rightarrow> (case maxGapAfter rs nonClashing of Some c \<Rightarrow> Some c
              | None \<Rightarrow> safeMax (last_clash_start rs) freeAtStart), None, st))"

definition choose_later ::
  "ABResolverOptions \<Rightarrow> time \<Rightarrow> SessionRequest \<Rightarrow> SlotAvailability list \<Rightarrow> SlotAvailability list
   \<Rightarrow> resolver \<Rightarrow> choice" where
  \<comment> \<open>spread it out\<close>
  "choose_later opts safeNow req nonClashing clashing st =
     (let rs = rs_requests st;
          nothingAfter = filter (\<lambda>p. after p = None) nonClashing;
          minClearance = rq_start req - idealGapBefore opts;
          withAfter = filter (\<lambda>p. case after p of None \<Rightarrow> False | Some a \<Rightarrow> canBeReplaced (rs ! a) req) nonClashing;
          freeAtStart = filter (\<lambda>p. beforeHasGap opts p req \<and> clashesStartsAfterThis safeNow rs p req) clashing;
          optionals = filter (\<lambda>p. list_all (\<lambda>c. rq_optional (rs ! c)) (clashes p)
             \<and> \<not> rq_optional req \<and> lookaheadRank req = None) clashing
      in or_else (claim_with False (safeMax (last_clash_start rs) optionals))
        (or_else (claim_with False (safeMax (last_clash_start rs) freeAtStart))
          (or_else (claim_with False (safeMax (after_start neg_inf rs) withAfter))
            (safeMin (\<lambda>p. case before_end p of None \<Rightarrow> neg_inf | Some e \<Rightarrow> fin (min minClearance e))
               nothingAfter, None, st))))"

definition choose_slot ::
  "ABResolverOptions \<Rightarrow> time \<Rightarrow> SessionRequest \<Rightarrow> resolver \<Rightarrow> choice" where
  "choose_slot opts safeNow req st =
     (let rs = rs_requests st;
          slotAvailability = map (\<lambda>sl. getAvailability rs (fst sl) req (snd sl)) (rs_slots st);
          nonClashing = filter (\<lambda>p. clashes p = []) slotAvailability;
          clashing = filter (\<lambda>p. clashes p \<noteq> []) slotAvailability;
          touchesStart = filter (\<lambda>p. list_all (\<lambda>c. rq_end (rs ! c) = Some (rq_start req)) (clashes p)) clashing
      in or_else (claim_with True (safeMax (after_start pos_inf rs) touchesStart))
          ((if rq_start req < safeNow then choose_now else choose_later)
             opts safeNow req nonClashing clashing st))"

definition requeue :: "nat list option \<Rightarrow> resolver \<Rightarrow> resolver" where
  "requeue invalidated st =
     (case invalidated of None \<Rightarrow> st
      | Some is \<Rightarrow> st\<lparr>rs_pending := by_start (rs_requests st) (rs_pending st @ is)\<rparr>)"

definition drops_after :: "SessionRequest list \<Rightarrow> SessionRequest \<Rightarrow> SlotAvailability \<Rightarrow> bool" where
  "drops_after rs req candidate =
     (case after candidate of None \<Rightarrow> False
      | Some a \<Rightarrow>
          (lookaheadRank (rs ! a) \<noteq> None \<and> rq_end req = None \<and> lookaheadRank req = None)
          \<or> (truthy_num (rq_end req) \<and> rq_start (rs ! a) \<noteq> 0 \<and> rq_start (rs ! a) < the (rq_end req)))"

definition claim_slot :: "nat \<Rightarrow> SlotAvailability \<Rightarrow> resolver \<Rightarrow> resolver" where
  "claim_slot r candidate st =
     (let rs = rs_requests st; req = rs ! r; dropped = drops_after rs req candidate;
          a = the (after candidate);
          dropId = (if dropped then Some (rq_id (rs ! a)) else None);
          rs = (if dropped then unassign [a] rs else rs);
          rs = rs[r := (rs ! r)\<lparr>playerId := Some (sa_id candidate)\<rparr>];
          pending = (if dropped then rs_pending st @ [a] else rs_pending st);
          slots = (case map_get (rs_slots st) (sa_id candidate) of
             None \<Rightarrow> rs_slots st
           | Some slotRequests \<Rightarrow>
               map_set (sa_id candidate)
                 (by_start rs (filter (\<lambda>i. Some (rq_id (rs ! i)) \<noteq> dropId) (slotRequests @ [r])))
                 (rs_slots st))
      in st\<lparr>rs_requests := rs, rs_slots := slots, rs_pending := pending\<rparr>)"

definition fail_request :: "nat \<Rightarrow> resolver \<Rightarrow> resolver" where
  "fail_request r st =
     (let req = rs_requests st ! r in
      if lookaheadRank req \<noteq> None then st
      else if rq_optional req then st\<lparr>rs_failedOptional := rs_failedOptional st @ [rq_id req]\<rparr>
      else st\<lparr>rs_failedRequired := rs_failedRequired st @ [rq_id req]\<rparr>)"

definition resolve_request :: "ABResolverOptions \<Rightarrow> time \<Rightarrow> nat \<Rightarrow> resolver \<Rightarrow> resolver" where
  "resolve_request opts safeNow r st =
     (case choose_slot opts safeNow (rs_requests st ! r) st of
        (candidate, invalidated, st) \<Rightarrow>
          (case candidate of
             Some c \<Rightarrow> claim_slot r c (requeue invalidated st)
           | None \<Rightarrow> fail_request r (requeue invalidated st)))"

text \<open>\<open>rounds\<close>: the value of \<open>iterations\<close> plus one, so the check \<open>iterations-- < 0\<close> is \<open>rounds = 0\<close>.\<close>

function resolve_loop ::
  "ABResolverOptions \<Rightarrow> time \<Rightarrow> nat \<Rightarrow> resolver \<Rightarrow> resolver_error + resolver" where
  "resolve_loop opts safeNow rounds st =
     (case rs_pending st of
        [] \<Rightarrow> Inr st
      | r # rest \<Rightarrow>
         (let st' = st\<lparr>rs_pending := rest\<rparr> in
          if lookaheadRank (rs_requests st ! r) \<noteq> None then resolve_loop opts safeNow rounds st'
          else if rounds = 0 then Inl PendingRequestsInfiniteLoop
          else resolve_loop opts safeNow (rounds - 1) (resolve_request opts safeNow r st')))"
  by pat_completeness auto
termination
  by (relation "measures [\<lambda>(_, _, n, _). n, \<lambda>(_, _, _, st). length (rs_pending st)]") auto

declare resolve_loop.simps [simp del]

section \<open>Lookahead\<close>

text \<open>
  \<open>lastSessionPerSlot\<close>: from when a player is free for lookahead. \<open>None\<close> stands for minus infinity; a
  player that is not a key is not available.
\<close>

definition last_session_per_slot :: "SessionRequest list \<Rightarrow> ab_slots \<Rightarrow> (string, time option) js_map" where
  "last_session_per_slot rs slots =
     fold (\<lambda>(p, is) m.
        case rev (filter (\<lambda>i. lookaheadRank (rs ! i) = None) is) of
          [] \<Rightarrow> map_set (player_key p) None m
        | i # _ \<Rightarrow> (case rq_end (rs ! i) of
              Some e \<Rightarrow> map_set (player_key p) (Some e) m
            | None \<Rightarrow> m)) slots []"

definition lookaheads_to_assign :: "SessionRequest list \<Rightarrow> nat \<Rightarrow> nat list" where
  "lookaheads_to_assign rs n =
     take n (js_sort (\<lambda>a b. the (lookaheadRank (rs ! b)) < the (lookaheadRank (rs ! a)))
       (filter (\<lambda>i. lookaheadRank (rs ! i) \<noteq> None) [0..<length rs]))"

fun persist_lookaheads ::
  "time \<Rightarrow> (string, PlayerId) js_map \<Rightarrow> nat list \<Rightarrow> SessionRequest list \<Rightarrow> (string, time option) js_map
   \<Rightarrow> nat list \<times> SessionRequest list \<times> (string, time option) js_map" where
  "persist_lookaheads safeNow original [] rs free = ([], rs, free)"
| "persist_lookaheads safeNow original (i # is) rs free =
     (let keep = (\<lambda>rs free. persist_lookaheads safeNow original is rs free);
          cleared = rs[i := (rs ! i)\<lparr>playerId := None\<rparr>]
      in case map_get original (rq_id (rs ! i)) of
           None \<Rightarrow> apfst ((#) i) (keep cleared free)
         | Some prevPlayer \<Rightarrow>
            (case map_get free (player_key prevPlayer) of
               None \<Rightarrow> apfst ((#) i) (keep cleared free)
             | Some slotEnd \<Rightarrow>
                 if (case slotEnd of None \<Rightarrow> False | Some e \<Rightarrow> safeNow \<le> e)
                 then apfst ((#) i) (keep cleared free)
                 else keep (rs[i := (rs ! i)\<lparr>playerId := Some prevPlayer\<rparr>])
                        (map_del (player_key prevPlayer) free)))"

text \<open>
  The player for a slot key: \<open>playerIds.find(id => typeof id === 'number' && id === Number(key))\<close> is
  tested for truth, so the number zero is not recognised.
\<close>

definition slot_player :: "PlayerId list \<Rightarrow> string \<Rightarrow> PlayerId" where
  "slot_player playerIds key =
     (case js_number key of
        Some n \<Rightarrow> if n \<noteq> 0 \<and> PlayerNum n \<in> set playerIds then PlayerNum n else PlayerStr key
      | None \<Rightarrow> PlayerStr key)"

fun assign_remaining ::
  "PlayerId list \<Rightarrow> nat list \<Rightarrow> (string \<times> time option) list \<Rightarrow> SessionRequest list \<Rightarrow> SessionRequest list" where
  "assign_remaining playerIds [] slots rs = rs"
| "assign_remaining playerIds (i # is) [] rs =
     assign_remaining playerIds is [] (rs[i := (rs ! i)\<lparr>playerId := None\<rparr>])"
| "assign_remaining playerIds (i # is) (slot # slots) rs =
     assign_remaining playerIds is slots
       (rs[i := (rs ! i)\<lparr>playerId := Some (slot_player playerIds (fst slot))\<rparr>])"

definition assign_lookaheads ::
  "time \<Rightarrow> PlayerId list \<Rightarrow> (string, PlayerId) js_map \<Rightarrow> ab_slots \<Rightarrow> SessionRequest list \<Rightarrow> SessionRequest list" where
  "assign_lookaheads safeNow playerIds original slots rs =
     (let lastSession = last_session_per_slot rs slots in
      case persist_lookaheads safeNow original (lookaheads_to_assign rs (length lastSession)) rs lastSession of
        (remaining, rs, free) \<Rightarrow>
          assign_remaining playerIds remaining
            (js_sort (\<lambda>a b. (case snd b of None \<Rightarrow> neg_inf | Some e \<Rightarrow> fin e)
                         < (case snd a of None \<Rightarrow> neg_inf | Some e \<Rightarrow> fin e)) (object_entries free)) rs)"

section \<open>The resolver\<close>

definition original_lookaheads :: "SessionRequest list \<Rightarrow> (string, PlayerId) js_map" where
  "original_lookaheads rawRequests =
     fold (\<lambda>r m. case playerId r of
         Some p \<Rightarrow> if lookaheadRank r \<noteq> None then map_set (rq_id r) p m else m
       | None \<Rightarrow> m) rawRequests []"

definition group_indexes :: "SessionRequest list \<Rightarrow> (string, nat list) js_map" where
  "group_indexes rs = groupByToMapFunc (\<lambda>i. Some (group_key (rs ! i))) [0..<length rs]"

definition clear_in_group :: "time \<Rightarrow> nat list \<Rightarrow> SessionRequest list \<Rightarrow> SessionRequest list" where
  "clear_in_group safeNow grp rs =
     unassign (map snd (filter (\<lambda>(prev, nxt). safeNow \<le> rq_start (rs ! nxt)
        \<and> truthy_num (rq_end (rs ! prev)) \<and> the (rq_end (rs ! prev)) < safeNow) (zip grp (List.tl grp)))) rs"

definition initial_slots :: "PlayerId list \<Rightarrow> (string, nat list) js_map \<Rightarrow> ab_slots" where
  "initial_slots playerIds grouped =
     fold (\<lambda>p m. map_set p (nullish (map_get grouped (player_key p)) []) m) playerIds []"

definition resolveAbAssignmentsFromRequests ::
  "ABResolverOptions \<Rightarrow> PlayerId list \<Rightarrow> SessionRequest list \<Rightarrow> time \<Rightarrow> resolver_error + AssignmentResult" where
  "resolveAbAssignmentsFromRequests opts playerIds rawRequests now =
     (let rs = js_sort (\<lambda>a b. rq_start b < rq_start a) rawRequests;
          grouped = group_indexes rs;
          safeNow = now + nowWindow opts
      in if length playerIds = 1
         then Inr \<lparr>failedRequired = [], failedOptional = [],
                   requests = map (\<lambda>r. r\<lparr>playerId := Some (hd playerIds)\<rparr>) rs\<rparr>
         else if map_get grouped ''undefined'' = None
         then Inr \<lparr>failedRequired = [], failedOptional = [], requests = rs\<rparr>
         else
           (let rs = fold (\<lambda>g. clear_in_group safeNow (snd g)) grouped rs;
                grouped = group_indexes rs;
                st = \<lparr>rs_requests = rs, rs_slots = initial_slots playerIds grouped,
                      rs_pending = nullish (map_get grouped ''undefined'') [],
                      rs_failedRequired = [], rs_failedOptional = []\<rparr>
            in case resolve_loop opts safeNow 201 st of
                 Inl e \<Rightarrow> Inl e
               | Inr st \<Rightarrow> Inr \<lparr>failedRequired = rs_failedRequired st,
                    failedOptional = rs_failedOptional st,
                    requests = assign_lookaheads safeNow playerIds (original_lookaheads rawRequests)
                      (rs_slots st) (rs_requests st)\<rparr>))"

end
