(* ===== verification/Ab_Resolver_Facts.thy ===== *)
theory Ab_Resolver_Facts
  imports Ab_Resolver
begin

text \<open>
  What the AB resolver guarantees: no request is lost or changed, every request ends up with a
  player or on one of the failure lists, and only players of the pool are handed out.
\<close>

section \<open>The parts of a request that stay\<close>

definition strip :: "SessionRequest \<Rightarrow> SessionRequest" where
  "strip r = r\<lparr>playerId := None\<rparr>"

lemma strip_fields [simp]:
  "rq_id (strip r) = rq_id r" "rq_start (strip r) = rq_start r" "rq_end (strip r) = rq_end r"
  "rq_optional (strip r) = rq_optional r" "lookaheadRank (strip r) = lookaheadRank r"
  "strip (r\<lparr>playerId := p\<rparr>) = strip r"
  by (simp_all add: strip_def)

lemma strip_fields_eq:
  assumes "map strip rs = map strip rs'" and "i < length rs"
  shows "rq_id (rs ! i) = rq_id (rs' ! i)" "rq_optional (rs ! i) = rq_optional (rs' ! i)"
    "lookaheadRank (rs ! i) = lookaheadRank (rs' ! i)"
proof -
  have "strip (rs ! i) = strip (rs' ! i)"
    using assms by (metis length_map nth_map)
  then show "rq_id (rs ! i) = rq_id (rs' ! i)" "rq_optional (rs ! i) = rq_optional (rs' ! i)"
    "lookaheadRank (rs ! i) = lookaheadRank (rs' ! i)"
    by (metis strip_fields(1), metis strip_fields(4), metis strip_fields(5))
qed

lemma upd_nth: "j < length xs \<Longrightarrow> xs[i := x] ! j = (if i = j then x else xs ! j)"
  by auto

lemma strip_update: "map strip (rs[i := (rs ! i)\<lparr>playerId := p\<rparr>]) = map strip rs"
  by (rule nth_equalityI) (auto simp: upd_nth)

lemma unassign_Nil [simp]: "unassign [] rs = rs"
  by (simp add: unassign_def)

lemma unassign_append: "unassign (xs @ ys) rs = unassign ys (unassign xs rs)"
  by (simp add: unassign_def)

lemma length_unassign [simp]: "length (unassign is rs) = length rs"
  unfolding unassign_def by (induction "is" arbitrary: rs) simp_all

lemma strip_unassign [simp]: "map strip (unassign is rs) = map strip rs"
  unfolding unassign_def by (induction "is" arbitrary: rs) (simp_all add: strip_update)

lemma unassign_nth:
  "j < length rs \<Longrightarrow> unassign is rs ! j = (if j \<in> set is then (rs ! j)\<lparr>playerId := None\<rparr> else rs ! j)"
proof (induction "is" arbitrary: rs)
  case (Cons i "is")
  have "unassign (i # is) rs = unassign is (rs[i := (rs ! i)\<lparr>playerId := None\<rparr>])"
    by (simp add: unassign_def)
  with Cons show ?case by (auto simp: upd_nth)
qed simp

section \<open>Availability\<close>

lemma availability_facts:
  "sa_id (availability rs req is res) = sa_id res
   \<and> set (clashes (availability rs req is res)) \<subseteq> set (clashes res) \<union> set is
   \<and> (\<forall>a. after (availability rs req is res) = Some a \<longrightarrow> after res = Some a \<or> a \<in> set is)"
proof (induction rs req "is" res rule: availability.induct)
  case (1 rs req res)
  then show ?case by simp
next
  case (2 rs req i "is" res)
  show ?case
    using 2(1) [OF refl] 2(2) [OF refl]
    by (simp add: Let_def) blast
qed

definition slot_ok :: "nat \<Rightarrow> PlayerId set \<Rightarrow> SlotAvailability \<Rightarrow> bool" where
  "slot_ok n K c = (sa_id c \<in> K \<and> set (clashes c) \<subseteq> {..<n} \<and> (\<forall>a. after c = Some a \<longrightarrow> a < n))"

definition slots_ok :: "nat \<Rightarrow> PlayerId set \<Rightarrow> ab_slots \<Rightarrow> bool" where
  "slots_ok n K slots = (fst ` set slots = K \<and> (\<forall>sl\<in>set slots. set (snd sl) \<subseteq> {..<n}))"

lemma getAvailability_ok:
  assumes "slots_ok n K slots" and "sl \<in> set slots"
  shows "slot_ok n K (getAvailability rs (fst sl) req (snd sl))"
  using assms availability_facts [of rs req "snd sl" "\<lparr>sa_id = fst sl, before_end = None, after = None, clashes = []\<rparr>"]
  unfolding slots_ok_def slot_ok_def getAvailability_def by force

lemma safeMax_in: "safeMax f xs = Some x \<Longrightarrow> x \<in> set xs"
  unfolding safeMax_def by (rule pick_best_in)

lemma safeMin_in: "safeMin f xs = Some x \<Longrightarrow> x \<in> set xs"
  unfolding safeMin_def by (rule pick_best_in)

section \<open>Invalidation\<close>

text \<open>
  A move of the resolver: some requests lose their player, and all of them are among those that go
  back to the queue; the slots keep their players and only lose requests.
\<close>

definition releases :: "nat \<Rightarrow> PlayerId set \<Rightarrow> resolver \<Rightarrow> nat list \<Rightarrow> resolver \<Rightarrow> bool" where
  "releases n K st bk st' =
     (rs_requests st' = unassign bk (rs_requests st) \<and> set bk \<subseteq> {..<n}
      \<and> slots_ok n K (rs_slots st') \<and> rs_pending st' = rs_pending st
      \<and> rs_failedRequired st' = rs_failedRequired st \<and> rs_failedOptional st' = rs_failedOptional st)"

lemma splice_subset: "set (splice_by_id rs x is) \<subseteq> set is"
  by (induction rs x "is" rule: splice_by_id.induct) auto

lemma fold_splice_subset: "set (fold (\<lambda>i. splice_by_id rs (f i)) cs slot) \<subseteq> set slot"
proof (induction cs arbitrary: slot)
  case (Cons c cs)
  from Cons.IH [of "splice_by_id rs (f c) slot"] splice_subset show ?case by fastforce
qed simp

lemma slots_ok_set:
  assumes "slots_ok n K slots" "p \<in> K" "set is \<subseteq> {..<n}"
  shows "slots_ok n K (map_set p is slots)"
proof -
  have "set (snd sl) \<subseteq> {..<n}" if "sl \<in> set (map_set p is slots)" for sl
  proof -
    have "sl = (p, is) \<or> sl \<in> set slots"
      using map_set_in [of "fst sl" "snd sl" p "is" slots] that by (simp add: prod_eq_iff)
    then show ?thesis using assms(1,3) by (elim disjE) (simp_all add: slots_ok_def)
  qed
  then show ?thesis using assms(1,2) unfolding slots_ok_def by (auto simp: fst_map_set)
qed

lemma slots_ok_get: "slots_ok n K slots \<Longrightarrow> map_get slots p = Some is \<Longrightarrow> set is \<subseteq> {..<n}"
  unfolding slots_ok_def by (metis map_of_SomeD snd_conv)

lemma slots_ok_filter:
  assumes "slots_ok n K slots"
  shows "slots_ok n K (map (\<lambda>(p, is). (p, filter P is)) slots)"
proof -
  have "fst ` set (map (\<lambda>(p, is). (p, filter P is)) slots) = fst ` set slots" by force
  moreover have "set (snd sl) \<subseteq> {..<n}" if "sl \<in> set (map (\<lambda>(p, is). (p, filter P is)) slots)" for sl
    using that assms unfolding slots_ok_def by fastforce
  ultimately show ?thesis using assms unfolding slots_ok_def by simp
qed

lemma slots_ok_concat:
  "slots_ok n K slots \<Longrightarrow> set (concat (map (\<lambda>sl. filter P (snd sl)) slots)) \<subseteq> {..<n}"
  unfolding slots_ok_def by fastforce

lemma invalidate_releases:
  assumes "slots_ok n K (rs_slots st)" and "slot_ok n K c"
    and "invalidateOnesStartingAfterOrClashing c allow st = (bk, st')"
  shows "releases n K st bk st'"
proof -
  obtain b1 st1 where l: "invalidate_later c st = (b1, st1)" by (meson surj_pair)
  have later: "releases n K st b1 st1"
  proof (cases "after c")
    case None
    with l assms(1) show ?thesis by (simp add: invalidate_later_def releases_def)
  next
    case (Some a)
    with l slots_ok_filter [OF assms(1)] slots_ok_concat [OF assms(1)] show ?thesis
      by (auto simp: invalidate_later_def releases_def Let_def simp del: set_concat)
  qed
  show ?thesis
  proof (cases "allow \<or> map_get (rs_slots st1) (sa_id c) = None")
    case True
    with l assms(3) later show ?thesis
      by (cases allow) (simp_all add: invalidateOnesStartingAfterOrClashing_def)
  next
    case False
    then obtain slot where slot: "map_get (rs_slots st1) (sa_id c) = Some slot" by auto
    have ok1: "slots_ok n K (rs_slots st1)" using later by (simp add: releases_def)
    with slots_ok_get [OF ok1 slot] have "slots_ok n K (map_set (sa_id c)
        (fold (\<lambda>i. splice_by_id (rs_requests st1) (rq_id (rs_requests st1 ! i))) (clashes c) slot) (rs_slots st1))"
      using fold_splice_subset [of "rs_requests st1" "\<lambda>i. rq_id (rs_requests st1 ! i)" "clashes c" slot] assms(2)
      by (intro slots_ok_set) (auto simp: slot_ok_def)
    with l assms(2,3) later slot False show ?thesis
      by (auto simp: invalidateOnesStartingAfterOrClashing_def releases_def slot_ok_def unassign_append)
  qed
qed

definition choice_ok :: "nat \<Rightarrow> PlayerId set \<Rightarrow> resolver \<Rightarrow> choice \<Rightarrow> bool" where
  "choice_ok n K st ch =
     (case ch of (cand, bk, st') \<Rightarrow>
        releases n K st (nullish bk []) st' \<and> (\<forall>c. cand = Some c \<longrightarrow> slot_ok n K c)
        \<and> (cand = None \<longrightarrow> st' = st \<and> bk = None))"

lemma claim_with_ok:
  assumes "slots_ok n K (rs_slots st)" and "\<And>c. cand = Some c \<Longrightarrow> slot_ok n K c"
  shows "choice_ok n K st (claim_with allow cand st)"
proof (cases cand)
  case None
  with assms(1) show ?thesis by (simp add: claim_with_def choice_ok_def releases_def)
next
  case (Some c)
  obtain bk st' where i: "invalidateOnesStartingAfterOrClashing c allow st = (bk, st')" by (meson surj_pair)
  with invalidate_releases [OF assms(1) assms(2) [OF Some] i] assms(2) [OF Some] Some
  show ?thesis by (simp add: claim_with_def choice_ok_def)
qed

lemma or_else_ok:
  assumes "choice_ok n K st c" and "choice_ok n K st (f st)"
  shows "choice_ok n K st (or_else f c)"
proof -
  obtain cand bk st1 where c: "c = (cand, bk, st1)" by (metis prod_cases3)
  obtain cand' bk' st2 where f: "f st = (cand', bk', st2)" by (metis prod_cases3)
  show ?thesis
  proof (cases cand)
    case (Some s)
    with assms c show ?thesis by (simp add: or_else_def)
  next
    case None
    with assms(1) c have "st1 = st" "bk = None" by (simp_all add: choice_ok_def)
    with None c f have "or_else f c = (cand', bk', st2)" by (simp add: or_else_def)
    with assms(2) f show ?thesis by simp
  qed
qed

lemma or_else_plain:
  "choice_ok n K st (f st) \<Longrightarrow> slots_ok n K (rs_slots st) \<Longrightarrow> (\<And>c. cand = Some c \<Longrightarrow> slot_ok n K c) \<Longrightarrow>
   choice_ok n K st (or_else f (cand, None, st))"
  by (rule or_else_ok) (simp_all add: choice_ok_def releases_def)

lemma choose_slot_ok:
  assumes ok: "slots_ok n K (rs_slots st)"
  shows "choice_ok n K st (choose_slot opts safeNow req st)"
proof -
  define avail where "avail = map (\<lambda>sl. getAvailability (rs_requests st) (fst sl) req (snd sl)) (rs_slots st)"
  have av: "slot_ok n K c" if "c \<in> set avail" for c
    using that getAvailability_ok [OF ok] by (auto simp: avail_def)
  have mx: "slot_ok n K c" if "safeMax f (filter P avail) = Some c" for f P c
    using safeMax_in [OF that] av by simp
  have mn: "slot_ok n K c" if "safeMin f (filter P avail) = Some c" for f P c
    using safeMin_in [OF that] av by simp
  have "choice_ok n K st (choose_now opts safeNow req (filter P avail) (filter Q avail) st)" for P Q
    unfolding choice_ok_def choose_now_def Let_def prod.case filter_filter maxGapAfter_def
    using ok by (auto simp: releases_def dest: mx split: option.splits)
  moreover have "choice_ok n K st (choose_later opts safeNow req (filter P avail) (filter Q avail) st)" for P Q
    unfolding choose_later_def Let_def filter_filter
    by (intro or_else_ok or_else_plain claim_with_ok ok) (auto dest: mx mn)
  ultimately show ?thesis
    unfolding choose_slot_def Let_def avail_def [symmetric] filter_filter
    by (intro or_else_ok claim_with_ok ok) (auto dest: mx)
qed

section \<open>The loop\<close>

text \<open>The invariant of the loop, over the requests \<open>rs0\<close> it starts from.\<close>

definition loop_inv :: "SessionRequest list \<Rightarrow> PlayerId set \<Rightarrow> resolver \<Rightarrow> bool" where
  "loop_inv rs0 K st =
     (map strip (rs_requests st) = map strip rs0
      \<and> slots_ok (length rs0) K (rs_slots st) \<and> set (rs_pending st) \<subseteq> {..<length rs0}
      \<and> (\<forall>i<length rs0. \<forall>p. playerId (rs_requests st ! i) = Some p \<longrightarrow>
           p \<in> K \<or> playerId (rs0 ! i) = Some p)
      \<and> (\<forall>x\<in>set (rs_failedRequired st). \<exists>r\<in>set rs0. rq_id r = x \<and> \<not> rq_optional r \<and> lookaheadRank r = None)
      \<and> (\<forall>x\<in>set (rs_failedOptional st). \<exists>r\<in>set rs0. rq_id r = x \<and> rq_optional r \<and> lookaheadRank r = None))"

definition settled_request :: "resolver \<Rightarrow> nat \<Rightarrow> bool" where
  "settled_request st i =
     (lookaheadRank (rs_requests st ! i) \<noteq> None \<or> playerId (rs_requests st ! i) \<noteq> None
      \<or> i \<in> set (rs_pending st)
      \<or> rq_id (rs_requests st ! i) \<in> set (rs_failedRequired st) \<union> set (rs_failedOptional st))"

definition nothing_lost :: "SessionRequest list \<Rightarrow> resolver \<Rightarrow> bool" where
  "nothing_lost rs0 st = (\<forall>i<length rs0. settled_request st i)"

lemma loop_inv_length: "loop_inv rs0 K st \<Longrightarrow> length (rs_requests st) = length rs0"
  unfolding loop_inv_def by (metis length_map)

lemma requeue_released:
  assumes "loop_inv rs0 K st" and "releases (length rs0) K st (nullish bk []) st'"
  shows "loop_inv rs0 K (requeue bk st')"
    and "\<And>i. i < length rs0 \<Longrightarrow> settled_request st i \<Longrightarrow> settled_request (requeue bk st') i"
proof -
  have len: "length (rs_requests st) = length rs0" using loop_inv_length [OF assms(1)] .
  have rq: "rs_requests (requeue bk st') = unassign (nullish bk []) (rs_requests st)"
    "rs_slots (requeue bk st') = rs_slots st'"
    "set (rs_pending (requeue bk st')) = set (rs_pending st) \<union> set (nullish bk [])"
    "rs_failedRequired (requeue bk st') = rs_failedRequired st"
    "rs_failedOptional (requeue bk st') = rs_failedOptional st"
    using assms(2) by (cases bk; simp add: requeue_def releases_def by_start_def)+
  show "loop_inv rs0 K (requeue bk st')"
    using assms unfolding loop_inv_def rq
    by (auto simp: releases_def unassign_nth len)
  show "settled_request (requeue bk st') i" if "i < length rs0" "settled_request st i" for i
    using that unfolding settled_request_def rq by (auto simp: unassign_nth len)
qed

lemma claim_slot_inv:
  assumes inv: "loop_inv rs0 K st" and c: "slot_ok (length rs0) K c" and r: "r < length rs0"
  shows "loop_inv rs0 K (claim_slot r c st)"
    and "\<And>i. i < length rs0 \<Longrightarrow> settled_request st i \<or> i = r \<Longrightarrow> settled_request (claim_slot r c st) i"
proof -
  have len: "length (rs_requests st) = length rs0" using loop_inv_length [OF inv] .
  define dropped where "dropped = (if drops_after (rs_requests st) (rs_requests st ! r) c
    then [the (after c)] else [])"
  have d: "set dropped \<subseteq> {..<length rs0}"
    using c by (auto simp: dropped_def drops_after_def slot_ok_def split: option.splits)
  define rs where "rs = (unassign dropped (rs_requests st))[r :=
    (unassign dropped (rs_requests st) ! r)\<lparr>playerId := Some (sa_id c)\<rparr>]"
  have cs: "rs_requests (claim_slot r c st) = rs"
    "set (rs_pending (claim_slot r c st)) = set (rs_pending st) \<union> set dropped"
    "rs_failedRequired (claim_slot r c st) = rs_failedRequired st"
    "rs_failedOptional (claim_slot r c st) = rs_failedOptional st"
    by (simp_all add: claim_slot_def Let_def rs_def dropped_def)
  have slots: "slots_ok (length rs0) K (rs_slots (claim_slot r c st))"
  proof (cases "map_get (rs_slots st) (sa_id c)")
    case None
    with inv show ?thesis by (simp add: claim_slot_def Let_def loop_inv_def)
  next
    case (Some slot)
    have ok: "slots_ok (length rs0) K (rs_slots st)" using inv by (simp add: loop_inv_def)
    with slots_ok_get [OF ok Some] c r Some show ?thesis
      unfolding claim_slot_def Let_def
      by (auto intro!: slots_ok_set simp: slot_ok_def by_start_def)
  qed
  have nth: "rs ! i = (if i = r then (rs_requests st ! i)\<lparr>playerId := Some (sa_id c)\<rparr>
      else if i \<in> set dropped then (rs_requests st ! i)\<lparr>playerId := None\<rparr> else rs_requests st ! i)"
    if "i < length rs0" for i
    using that r by (auto simp: rs_def upd_nth unassign_nth len)
  have "map strip rs = map strip (rs_requests st)"
    unfolding rs_def by (simp add: strip_update)
  with inv c slots d nth show "loop_inv rs0 K (claim_slot r c st)"
    unfolding loop_inv_def cs by (auto simp: slot_ok_def)
  show "settled_request (claim_slot r c st) i" if "i < length rs0" "settled_request st i \<or> i = r" for i
    using that nth unfolding settled_request_def cs by auto
qed

lemma fail_request_inv:
  assumes inv: "loop_inv rs0 K st" and r: "r < length rs0"
  shows "loop_inv rs0 K (fail_request r st)"
    and "\<And>i. i < length rs0 \<Longrightarrow> settled_request st i \<or> i = r \<Longrightarrow> settled_request (fail_request r st) i"
proof -
  have len: "length (rs_requests st) = length rs0" using loop_inv_length [OF inv] .
  have eq: "rq_id (rs_requests st ! r) = rq_id (rs0 ! r)" "rq_optional (rs_requests st ! r) = rq_optional (rs0 ! r)"
    "lookaheadRank (rs_requests st ! r) = lookaheadRank (rs0 ! r)"
    using inv r len strip_fields_eq [of "rs_requests st" rs0 r] by (simp_all add: loop_inv_def)
  have "rs0 ! r \<in> set rs0" using r by simp
  with inv show "loop_inv rs0 K (fail_request r st)"
    unfolding loop_inv_def fail_request_def Let_def eq by auto
  show "settled_request (fail_request r st) i" if "i < length rs0" "settled_request st i \<or> i = r" for i
    using that unfolding settled_request_def fail_request_def Let_def by auto
qed

lemma resolve_request_inv:
  assumes inv: "loop_inv rs0 K st" and r: "r < length rs0"
  shows "loop_inv rs0 K (resolve_request opts safeNow r st)"
    and "\<And>i. i < length rs0 \<Longrightarrow> settled_request st i \<or> i = r \<Longrightarrow>
      settled_request (resolve_request opts safeNow r st) i"
proof -
  obtain cand bk st' where ch: "choose_slot opts safeNow (rs_requests st ! r) st = (cand, bk, st')"
    by (metis prod_cases3)
  have "slots_ok (length rs0) K (rs_slots st)" using inv by (simp add: loop_inv_def)
  from choose_slot_ok [OF this, of opts safeNow "rs_requests st ! r"] ch
  have rel: "releases (length rs0) K st (nullish bk []) st'"
    and c: "\<And>c. cand = Some c \<Longrightarrow> slot_ok (length rs0) K c"
    by (simp_all add: choice_ok_def)
  note q = requeue_released [OF inv rel]
  have eq: "resolve_request opts safeNow r st = (case cand of Some c \<Rightarrow> claim_slot r c (requeue bk st')
      | None \<Rightarrow> fail_request r (requeue bk st'))"
    by (simp add: resolve_request_def ch)
  show "loop_inv rs0 K (resolve_request opts safeNow r st)"
    unfolding eq using claim_slot_inv(1) [OF q(1) c r] fail_request_inv(1) [OF q(1) r]
    by (cases cand) simp_all
  show "settled_request (resolve_request opts safeNow r st) i"
    if "i < length rs0" "settled_request st i \<or> i = r" for i
    unfolding eq using that q(2) claim_slot_inv(2) [OF q(1) c r] fail_request_inv(2) [OF q(1) r]
    by (cases cand) auto
qed

lemma resolve_loop_inv:
  assumes "loop_inv rs0 K st" and "nothing_lost rs0 st"
    and "resolve_loop opts safeNow n st = Inr st'"
  shows "loop_inv rs0 K st' \<and> nothing_lost rs0 st' \<and> rs_pending st' = []"
  using assms
proof (induction opts safeNow n st rule: resolve_loop.induct)
  case (1 opts safeNow n st)
  show ?case
  proof (cases "rs_pending st")
    case Nil
    with 1 show ?thesis by (simp add: resolve_loop.simps [of _ _ _ st])
  next
    case (Cons r rest)
    define s where "s = st\<lparr>rs_pending := rest\<rparr>"
    have r: "r < length rs0" using 1(3) Cons by (simp add: loop_inv_def)
    have s: "loop_inv rs0 K s" using 1(3) Cons by (simp add: loop_inv_def s_def)
    have set: "settled_request s i \<or> i = r" if "i < length rs0" for i
      using 1(4) that Cons by (auto simp: nothing_lost_def settled_request_def s_def)
    show ?thesis
    proof (cases "lookaheadRank (rs_requests st ! r) = None")
      case False
      then have "settled_request s r" by (simp add: settled_request_def s_def)
      with set have "nothing_lost rs0 s" unfolding nothing_lost_def by blast
      moreover have "resolve_loop opts safeNow n s = Inr st'"
        using 1(5) Cons False by (simp add: resolve_loop.simps [of _ _ _ st] Let_def s_def)
      ultimately show ?thesis
        using 1(1) [OF Cons refl False] s by (simp add: s_def)
    next
      case True
      let ?s2 = "resolve_request opts safeNow r s"
      have n: "n \<noteq> 0" and l: "resolve_loop opts safeNow (n - 1) ?s2 = Inr st'"
        using 1(5) Cons True by (auto simp: resolve_loop.simps [of _ _ _ st] Let_def s_def split: if_splits)
      have "loop_inv rs0 K ?s2" "nothing_lost rs0 ?s2"
        using resolve_request_inv [OF s r] set unfolding nothing_lost_def by blast+
      with 1(2) [OF Cons refl _ n] True l show ?thesis by (simp add: s_def)
    qed
  qed
qed

section \<open>Before and after the loop\<close>

lemma clear_groups:
  "map strip (fold (\<lambda>g. clear_in_group safeNow (snd g)) gs rs) = map strip rs
   \<and> (\<forall>i<length rs. \<forall>p. playerId (fold (\<lambda>g. clear_in_group safeNow (snd g)) gs rs ! i) = Some p
        \<longrightarrow> playerId (rs ! i) = Some p)"
proof (induction gs arbitrary: rs)
  case (Cons g gs)
  obtain cl where u: "clear_in_group safeNow (snd g) rs = unassign cl rs"
    by (simp add: clear_in_group_def)
  from Cons.IH [of "unassign cl rs"] show ?case
    by (auto simp: u unassign_nth split: if_splits)
qed simp

lemma group_indexes_get:
  "map_get (group_indexes rs) k =
     (if \<exists>i<length rs. group_key (rs ! i) = k then Some (filter (\<lambda>i. group_key (rs ! i) = k) [0..<length rs])
      else None)"
  by (simp add: group_indexes_def map_get_groupBy)

lemma initial_slots_ok:
  "slots_ok (length rs) (set playerIds) (initial_slots playerIds (group_indexes rs))"
proof (induction playerIds rule: rev_induct)
  case Nil
  then show ?case by (simp add: initial_slots_def slots_ok_def)
next
  case (snoc p ps)
  let ?is = "nullish (map_get (group_indexes rs) (player_key p)) []"
  have "set ?is \<subseteq> {..<length rs}" by (auto simp: group_indexes_get)
  moreover have "initial_slots (ps @ [p]) (group_indexes rs) =
      map_set p ?is (initial_slots ps (group_indexes rs))"
    by (simp add: initial_slots_def)
  ultimately have "set (snd sl) \<subseteq> {..<length rs}"
    if "sl \<in> set (initial_slots (ps @ [p]) (group_indexes rs))" for sl
    using snoc that map_set_in [of "fst sl" "snd sl" p ?is "initial_slots ps (group_indexes rs)"]
    by (auto simp: slots_ok_def)
  with snoc show ?case
    by (simp add: slots_ok_def initial_slots_def fst_map_set)
qed

lemma initial_inv:
  fixes rs :: "SessionRequest list" and playerIds :: "PlayerId list"
  defines "st \<equiv> \<lparr>rs_requests = rs, rs_slots = initial_slots playerIds (group_indexes rs),
     rs_pending = nullish (map_get (group_indexes rs) ''undefined'') [],
     rs_failedRequired = [], rs_failedOptional = []\<rparr>"
  shows "loop_inv rs (set playerIds) st" "nothing_lost rs st"
proof -
  show "loop_inv rs (set playerIds) st"
    using initial_slots_ok by (auto simp: loop_inv_def st_def group_indexes_get)
  show "nothing_lost rs st"
    unfolding nothing_lost_def settled_request_def
    by (auto simp: st_def group_indexes_get group_key_def split: option.splits)
qed

lemma persist_lookaheads_step:
  assumes "persist_lookaheads safeNow original (i # is) rs free = (rem, rs', free')"
  shows "\<exists>p free1 rem1. persist_lookaheads safeNow original is (rs[i := (rs ! i)\<lparr>playerId := p\<rparr>]) free1
      = (rem1, rs', free') \<and> set rem \<subseteq> insert i (set rem1)"
proof -
  have lift: "apfst ((#) i) x = (rem, rs', free') \<Longrightarrow> \<exists>rem1. x = (rem1, rs', free') \<and> set rem \<subseteq> insert i (set rem1)"
    for x by (cases x) auto
  show ?thesis
    using assms unfolding persist_lookaheads.simps Let_def
    by (auto split: option.splits if_splits dest!: lift)
qed

lemma persist_lookaheads_rest:
  "persist_lookaheads safeNow original is rs free = (rem, rs', free') \<Longrightarrow>
   set rem \<subseteq> set is \<and> map strip rs' = map strip rs \<and> (\<forall>j. j \<notin> set is \<longrightarrow> rs' ! j = rs ! j)"
proof (induction "is" arbitrary: rs free rem)
  case (Cons i "is")
  from persist_lookaheads_step [OF Cons.prems] obtain p free1 rem1 where
    k: "persist_lookaheads safeNow original is (rs[i := (rs ! i)\<lparr>playerId := p\<rparr>]) free1 = (rem1, rs', free')"
    "set rem \<subseteq> insert i (set rem1)" by blast
  from Cons.IH [OF k(1)] k(2) show ?case by (auto simp: strip_update)
qed simp

lemma assign_remaining_rest:
  "map strip (assign_remaining playerIds is slots rs) = map strip rs
   \<and> (\<forall>j. j \<notin> set is \<longrightarrow> assign_remaining playerIds is slots rs ! j = rs ! j)"
  by (induction playerIds "is" slots rs rule: assign_remaining.induct) (simp_all add: strip_update)

lemma assign_lookaheads_rest:
  "map strip (assign_lookaheads safeNow playerIds original slots rs) = map strip rs
   \<and> (\<forall>j<length rs. lookaheadRank (rs ! j) = None \<longrightarrow>
        assign_lookaheads safeNow playerIds original slots rs ! j = rs ! j)"
proof -
  let ?last = "last_session_per_slot rs slots"
  let ?is = "lookaheads_to_assign rs (length ?last)"
  obtain rem rs' free where p: "persist_lookaheads safeNow original ?is rs ?last = (rem, rs', free)"
    by (metis prod_cases3)
  have "lookaheadRank (rs ! j) \<noteq> None" if "j \<in> set ?is" for j
    using in_set_takeD [OF that [unfolded lookaheads_to_assign_def]] by simp
  then have out: "j \<notin> set ?is" if "lookaheadRank (rs ! j) = None" for j using that by blast
  have eq: "assign_lookaheads safeNow playerIds original slots rs = assign_remaining playerIds rem
      (js_sort (\<lambda>a b. (case snd b of None \<Rightarrow> neg_inf | Some e \<Rightarrow> fin e)
                         < (case snd a of None \<Rightarrow> neg_inf | Some e \<Rightarrow> fin e)) (object_entries free)) rs'"
    by (simp add: assign_lookaheads_def Let_def p)
  note per = persist_lookaheads_rest [OF p] and asg = assign_remaining_rest [of playerIds rem _ rs']
  have "map strip (assign_lookaheads safeNow playerIds original slots rs) = map strip rs"
    unfolding eq using asg per by simp
  moreover have "assign_lookaheads safeNow playerIds original slots rs ! j = rs ! j"
    if "lookaheadRank (rs ! j) = None" for j
  proof -
    have "j \<notin> set rem" using out [OF that] per by blast
    then show ?thesis unfolding eq using asg per out [OF that] by simp
  qed
  ultimately show ?thesis by simp
qed

text \<open>The outcome of the general case, in terms of the requests \<open>rs\<close> the resolver works on.\<close>

definition outcome_ok ::
  "PlayerId list \<Rightarrow> SessionRequest list \<Rightarrow> AssignmentResult \<Rightarrow> bool" where
  "outcome_ok playerIds rs res =
     (map strip (requests res) = map strip rs
      \<and> (\<forall>i<length rs. lookaheadRank (rs ! i) = None \<longrightarrow>
           (playerId (requests res ! i) \<noteq> None
            \<or> rq_id (rs ! i) \<in> set (failedRequired res) \<union> set (failedOptional res))
         \<and> (\<forall>p. playerId (requests res ! i) = Some p \<longrightarrow> p \<in> set playerIds \<or> playerId (rs ! i) = Some p))
      \<and> (\<forall>x\<in>set (failedRequired res). \<exists>r\<in>set rs. rq_id r = x \<and> \<not> rq_optional r \<and> lookaheadRank r = None)
      \<and> (\<forall>x\<in>set (failedOptional res). \<exists>r\<in>set rs. rq_id r = x \<and> rq_optional r \<and> lookaheadRank r = None))"

lemma loop_outcome:
  assumes inv: "loop_inv rs (set playerIds) st" and all: "nothing_lost rs st" and "rs_pending st = []"
  shows "outcome_ok playerIds rs \<lparr>failedRequired = rs_failedRequired st, failedOptional = rs_failedOptional st,
    requests = assign_lookaheads safeNow playerIds original (rs_slots st) (rs_requests st)\<rparr>"
proof -
  have len: "length (rs_requests st) = length rs" using loop_inv_length [OF inv] .
  have strip: "map strip (rs_requests st) = map strip rs" using inv by (simp add: loop_inv_def)
  have eq: "lookaheadRank (rs_requests st ! i) = lookaheadRank (rs ! i)"
    "rq_id (rs_requests st ! i) = rq_id (rs ! i)" if "i < length rs" for i
    using strip_fields_eq [OF strip] that len by simp_all
  note rest = assign_lookaheads_rest [of safeNow playerIds original "rs_slots st" "rs_requests st"]
  have "playerId (rs_requests st ! i) \<noteq> None
      \<or> rq_id (rs ! i) \<in> set (rs_failedRequired st) \<union> set (rs_failedOptional st)"
    if "i < length rs" "lookaheadRank (rs ! i) = None" for i
    using all assms(3) that eq [OF that(1)] by (auto simp: nothing_lost_def settled_request_def)
  with inv strip rest eq len show ?thesis
    unfolding outcome_ok_def loop_inv_def by simp
qed

lemma outcome_cleared:
  assumes "outcome_ok ids rs res" and "map strip rs = map strip rs0"
    and "\<And>i p. i < length rs0 \<Longrightarrow> playerId (rs ! i) = Some p \<Longrightarrow> playerId (rs0 ! i) = Some p"
  shows "outcome_ok ids rs0 res"
proof -
  have len: "length rs = length rs0" using assms(2) by (metis length_map)
  have eq: "lookaheadRank (rs ! i) = lookaheadRank (rs0 ! i)" "rq_id (rs ! i) = rq_id (rs0 ! i)"
    "rq_optional (rs ! i) = rq_optional (rs0 ! i)" if "i < length rs0" for i
    using strip_fields_eq [OF assms(2)] that len by simp_all
  have ex: "(\<exists>r\<in>set rs. rq_id r = x \<and> P (rq_optional r) \<and> lookaheadRank r = None) \<Longrightarrow>
      \<exists>r\<in>set rs0. rq_id r = x \<and> P (rq_optional r) \<and> lookaheadRank r = None" for x P
  proof -
    assume "\<exists>r\<in>set rs. rq_id r = x \<and> P (rq_optional r) \<and> lookaheadRank r = None"
    then obtain i where "i < length rs0" "rq_id (rs ! i) = x" "P (rq_optional (rs ! i))"
      "lookaheadRank (rs ! i) = None"
      using len by (auto simp: in_set_conv_nth)
    then show ?thesis using eq [of i] by (intro bexI [of _ "rs0 ! i"]) simp_all
  qed
  show ?thesis
    using assms(1,2,3) eq len ex [where P = "\<lambda>b. b"] ex [where P = "\<lambda>b. \<not> b"]
    unfolding outcome_ok_def by simp blast
qed

text \<open>
  C25. The resolver loses nothing. The requests of its result are the given ones, sorted by start,
  with only their players changed; each one that is not a lookahead has a player or is on a failure
  list; such a player is one of the pool, or the one the request came with; and only required
  requests are on the first failure list, only optional ones on the second.
\<close>

theorem ab_resolver_loses_nothing:
  assumes "resolveAbAssignmentsFromRequests opts playerIds rawRequests now = Inr res"
  shows "outcome_ok playerIds (js_sort (\<lambda>a b. rq_start b < rq_start a) rawRequests) res"
proof -
  define rs where "rs = js_sort (\<lambda>a b. rq_start b < rq_start a) rawRequests"
  define safeNow where "safeNow = now + nowWindow opts"
  define rs1 where "rs1 = fold (\<lambda>g. clear_in_group safeNow (snd g)) (group_indexes rs) rs"
  define st where "st = \<lparr>rs_requests = rs1, rs_slots = initial_slots playerIds (group_indexes rs1),
     rs_pending = nullish (map_get (group_indexes rs1) ''undefined'') [],
     rs_failedRequired = [], rs_failedOptional = []\<rparr>"
  have run: "(if length playerIds = 1
      then Inr \<lparr>failedRequired = [], failedOptional = [],
                requests = map (\<lambda>r. r\<lparr>playerId := Some (hd playerIds)\<rparr>) rs\<rparr>
      else if map_get (group_indexes rs) ''undefined'' = None
      then Inr \<lparr>failedRequired = [], failedOptional = [], requests = rs\<rparr>
      else (case resolve_loop opts safeNow 201 st of
          Inl e \<Rightarrow> Inl e
        | Inr st \<Rightarrow> Inr \<lparr>failedRequired = rs_failedRequired st,
             failedOptional = rs_failedOptional st,
             requests = assign_lookaheads safeNow playerIds (original_lookaheads rawRequests)
               (rs_slots st) (rs_requests st)\<rparr>)) = Inr res"
    using assms unfolding resolveAbAssignmentsFromRequests_def Let_def rs_def [symmetric]
      safeNow_def [symmetric] rs1_def [symmetric] st_def [symmetric] .
  show ?thesis
    unfolding rs_def [symmetric]
  proof (cases "length playerIds = 1")
    case True
    then have "hd playerIds \<in> set playerIds" by (cases playerIds) auto
    with True run show "outcome_ok playerIds rs res"
      by (auto simp: outcome_ok_def)
  next
    case False
    show "outcome_ok playerIds rs res"
    proof (cases "map_get (group_indexes rs) ''undefined''")
      case None
      then have "playerId (rs ! i) \<noteq> None" if "i < length rs" for i
        using that by (auto simp: group_indexes_get group_key_def split: if_splits option.splits)
      with False None run show ?thesis by (auto simp: outcome_ok_def)
    next
      case (Some grp)
      with False run obtain st' where l: "resolve_loop opts safeNow 201 st = Inr st'"
        and res: "res = \<lparr>failedRequired = rs_failedRequired st', failedOptional = rs_failedOptional st',
             requests = assign_lookaheads safeNow playerIds (original_lookaheads rawRequests)
               (rs_slots st') (rs_requests st')\<rparr>"
        by (auto split: sum.splits)
      have "loop_inv rs1 (set playerIds) st" "nothing_lost rs1 st"
        using initial_inv [of rs1 playerIds] by (simp_all add: st_def)
      from resolve_loop_inv [OF this l] have "outcome_ok playerIds rs1 res"
        unfolding res by (intro loop_outcome) simp_all
      then show ?thesis
        by (rule outcome_cleared) (use clear_groups [of safeNow "group_indexes rs" rs] in \<open>auto simp: rs1_def\<close>)
    qed
  qed
qed

section \<open>Player keys\<close>

lemma show_nat_digits: "show_nat n \<noteq> [] \<and> list_all is_digit (show_nat n) \<and> digits_value (show_nat n) = n"
proof (induction n rule: show_nat.induct)
  case (1 n)
  have d: "is_digit (char_of (48 + m))" "(of_char (char_of (48 + m) :: char) :: nat) = 48 + m" if "m < 10" for m :: nat
    using that by (simp_all add: is_digit_def)
  show ?case
  proof (cases "n < 10")
    case True
    with d [OF True] show ?thesis by (simp add: show_nat.simps [of n] digits_value_def)
  next
    case False
    have "n mod 10 < 10" by simp
    from 1 [OF False] d [OF this] False show ?thesis
      by (simp add: show_nat.simps [of n] digits_value_def)
  qed
qed

lemma js_number_show: "js_number (show_int n) = Some n"
proof (cases "n < 0")
  case True
  have "show_nat (nat (- n)) \<noteq> []" "list_all is_digit (show_nat (nat (- n)))"
    "digits_value (show_nat (nat (- n))) = nat (- n)"
    using show_nat_digits by blast+
  moreover have "\<not> is_digit (CHR ''-'')" by (simp add: is_digit_def)
  ultimately show ?thesis
    using True by (simp add: show_int_def js_number_def)
next
  case False
  have "show_nat (nat n) \<noteq> []" "list_all is_digit (show_nat (nat n))" "digits_value (show_nat (nat n)) = nat n"
    using show_nat_digits by blast+
  then show ?thesis
    using False by (cases "show_nat (nat n)") (simp_all add: show_int_def js_number_def)
qed

lemma show_int_zero: "show_int 0 = ''0''"
  by code_simp

text \<open>
  A lookahead gets back the id of a numeric player from the string its slot is keyed by, with
  one exception: the player with the number zero comes back as the string \<open>'0'\<close>, because the number
  that was found is tested for truth.
\<close>

theorem lookahead_player_roundtrip:
  assumes "PlayerNum n \<in> set playerIds"
  shows "slot_player playerIds (player_key (PlayerNum n)) =
    (if n = 0 then PlayerStr ''0'' else PlayerNum n)"
  using assms by (simp add: slot_player_def js_number_show show_int_zero)

theorem lookahead_player_roundtrip_witness:
  "slot_player [PlayerNum 0, PlayerNum 7] (player_key (PlayerNum 7)) = PlayerNum 7
   \<and> slot_player [PlayerNum 0, PlayerNum 7] (player_key (PlayerNum 0)) = PlayerStr ''0''"
  using lookahead_player_roundtrip [of 7 "[PlayerNum 0, PlayerNum 7]"]
    lookahead_player_roundtrip [of 0 "[PlayerNum 0, PlayerNum 7]"] by simp

definition ex_req :: "string \<Rightarrow> time \<Rightarrow> time \<Rightarrow> SessionRequest" where
  "ex_req i s e = \<lparr>rq_id = i, rq_start = s, rq_end = Some e, rq_optional = False, lookaheadRank = None,
     playerId = None\<rparr>"

lemma ex_resolve:
  "resolveAbAssignmentsFromRequests \<lparr>idealGapBefore = 1000, nowWindow = 2000\<rparr> [PlayerNum 1, PlayerNum 2]
     [ex_req ''b'' 5000 9000, ex_req ''a'' 0 8000] 0 =
   Inr \<lparr>failedRequired = [], failedOptional = [],
     requests = [(ex_req ''a'' 0 8000)\<lparr>playerId := Some (PlayerNum 1)\<rparr>,
                 (ex_req ''b'' 5000 9000)\<lparr>playerId := Some (PlayerNum 2)\<rparr>]\<rparr>"
  by code_simp

theorem ab_resolver_loses_nothing_witness:
  "outcome_ok [PlayerNum 1, PlayerNum 2] [ex_req ''a'' 0 8000, ex_req ''b'' 5000 9000]
     \<lparr>failedRequired = [], failedOptional = [],
      requests = [(ex_req ''a'' 0 8000)\<lparr>playerId := Some (PlayerNum 1)\<rparr>,
                  (ex_req ''b'' 5000 9000)\<lparr>playerId := Some (PlayerNum 2)\<rparr>]\<rparr>"
  using ab_resolver_loses_nothing [OF ex_resolve] by (simp add: ex_req_def)

end
