(* ===== verification/Overrides.thy ===== *)
theory Overrides
  imports Sofie_Prelude
begin

text \<open>
  Objects with tracked overrides: \<open>packages/corelib/src/settings/objectWithOverrides.ts\<close>. The
  library \<open>object-path\<close> and underscore's \<open>isEqual\<close> are not part of the repository; they are the
  argument \<open>lib\<close> of the operations, and \<open>show_index\<close> prints an array index. Objects are association
  lists in the order of \<open>Object.entries\<close>; a member whose value is \<open>undefined\<close> is absent.
\<close>

section \<open>Values\<close>

datatype json =
    JNull
  | JBool bool
  | JNum rat
  | JStr string
  | JArr "json list"
  | JObj "(string \<times> json) list"

fun json_truthy :: "json option \<Rightarrow> bool" where
  "json_truthy None = False"
| "json_truthy (Some JNull) = False"
| "json_truthy (Some (JBool b)) = b"
| "json_truthy (Some (JNum n)) = (n \<noteq> 0)"
| "json_truthy (Some (JStr s)) = (s \<noteq> [])"
| "json_truthy (Some _) = True"

definition is_object :: "json option \<Rightarrow> bool" where
  \<comment> \<open>\<open>typeof v === 'object'\<close> of a value that is not null\<close>
  "is_object v = (case v of Some (JObj _) \<Rightarrow> True | Some (JArr _) \<Rightarrow> True | _ \<Rightarrow> False)"

record path_lib =
  pl_has :: "json \<Rightarrow> string \<Rightarrow> bool"
  pl_get :: "json \<Rightarrow> string \<Rightarrow> json option"
  pl_set :: "json \<Rightarrow> string \<Rightarrow> json \<Rightarrow> json"
  pl_del :: "json \<Rightarrow> string \<Rightarrow> json"
  pl_isEqual :: "json option \<Rightarrow> json option \<Rightarrow> bool"

section \<open>Overrides\<close>

datatype SomeObjectOverrideOp =
    ObjectOverrideSetOp (op_path: string) (op_value: "json option")
  | ObjectOverrideDeleteOp (op_path: string)

record ObjectWithOverrides =
  defaults :: json
  overrides :: "SomeObjectOverrideOp list"

record ApplyOverridesResult =
  ar_obj :: json
  preserve :: "SomeObjectOverrideOp list"
  unused :: "SomeObjectOverrideOp list"
  ar_invalid :: "SomeObjectOverrideOp list"

definition getParentObjectPath :: "string \<Rightarrow> string option" where
  \<comment> \<open>up to the last dot\<close>
  "getParentObjectPath path =
     (case find_index (\<lambda>c. c = CHR ''.'') (rev path) of
        None \<Rightarrow> None
      | Some i \<Rightarrow> Some (take (length path - Suc i) path))"

lemma getParentObjectPath_shorter: "getParentObjectPath p = Some q \<Longrightarrow> length q < length p"
  by (auto simp: getParentObjectPath_def find_index_Some split: option.splits)

definition wrapDefaultObject :: "json \<Rightarrow> ObjectWithOverrides" where
  "wrapDefaultObject obj = \<lparr>defaults = obj, overrides = []\<rparr>"

definition convertObjectIntoOverrides :: "(string \<times> json) list option \<Rightarrow> ObjectWithOverrides" where
  "convertObjectIntoOverrides rawObj =
     (wrapDefaultObject (JObj []))\<lparr>overrides :=
        map (\<lambda>(k, v). ObjectOverrideSetOp k (Some v)) (nullish rawObj [])\<rparr>"

function canApplyToPath :: "path_lib \<Rightarrow> json \<Rightarrow> string \<Rightarrow> bool" where
  "canApplyToPath lib resultObj path =
     (case getParentObjectPath path of
        None \<Rightarrow> True
      | Some parentPath \<Rightarrow>
         (let parentValue = pl_get lib resultObj parentPath in
          if json_truthy parentValue then is_object parentValue
          else canApplyToPath lib resultObj parentPath))"
  by pat_completeness auto
termination
  by (relation "measure (\<lambda>(_, _, p). length p)") (auto dest: getParentObjectPath_shorter)

declare canApplyToPath.simps [simp del]

definition applySetOp ::
  "path_lib \<Rightarrow> string \<Rightarrow> json option \<Rightarrow> ApplyOverridesResult \<Rightarrow> ApplyOverridesResult" where
  "applySetOp lib path v result =
     (let operation = ObjectOverrideSetOp path v; parentPath = getParentObjectPath path in
      if truthy_str parentPath \<and> \<not> pl_has lib (ar_obj result) (the parentPath)
      then result\<lparr>ar_invalid := ar_invalid result @ [operation]\<rparr>
      else
        let result = result\<lparr>preserve := preserve result @ [operation]\<rparr> in
        if \<not> canApplyToPath lib (ar_obj result) path
        then result\<lparr>ar_invalid := ar_invalid result @ [operation]\<rparr>
        else if pl_isEqual lib (pl_get lib (ar_obj result) path) v
        then result\<lparr>unused := unused result @ [operation]\<rparr>
        else result\<lparr>ar_obj := (case v of None \<Rightarrow> pl_del lib (ar_obj result) path
               | Some x \<Rightarrow> pl_set lib (ar_obj result) path x)\<rparr>)"

definition applyDeleteOp ::
  "path_lib \<Rightarrow> string \<Rightarrow> ApplyOverridesResult \<Rightarrow> ApplyOverridesResult" where
  "applyDeleteOp lib path result =
     (let operation = ObjectOverrideDeleteOp path in
      if \<not> canApplyToPath lib (ar_obj result) path
      then result\<lparr>ar_invalid := ar_invalid result @ [operation]\<rparr>
      else
        let result = (if pl_has lib (ar_obj result) path
              then result\<lparr>ar_obj := pl_del lib (ar_obj result) path\<rparr>
              else result\<lparr>unused := unused result @ [operation]\<rparr>)
        in result\<lparr>preserve := preserve result @ [operation]\<rparr>)"

fun apply_override ::
  "path_lib \<Rightarrow> SomeObjectOverrideOp \<Rightarrow> ApplyOverridesResult \<Rightarrow> ApplyOverridesResult" where
  "apply_override lib (ObjectOverrideSetOp p v) result = applySetOp lib p v result"
| "apply_override lib (ObjectOverrideDeleteOp p) result = applyDeleteOp lib p result"

definition applyAndValidateOverrides :: "path_lib \<Rightarrow> ObjectWithOverrides \<Rightarrow> ApplyOverridesResult" where
  "applyAndValidateOverrides lib obj =
     fold (apply_override lib) (overrides obj)
       \<lparr>ar_obj = defaults obj, preserve = [], unused = [], ar_invalid = []\<rparr>"

section \<open>Updating the overrides from a flat object\<close>

datatype override_error = TypeError

text \<open>\<open>Object.entries\<close> and member access, which fail on \<open>null\<close>.\<close>

definition index_entries :: "json list \<Rightarrow> (nat \<Rightarrow> string) \<Rightarrow> (string \<times> json) list" where
  "index_entries xs show_index = map (\<lambda>i. (show_index i, xs ! i)) [0..<length xs]"

definition object_entries_of :: "(nat \<Rightarrow> string) \<Rightarrow> json \<Rightarrow> override_error + (string \<times> json) list" where
  "object_entries_of show_index v =
     (case v of
        JObj m \<Rightarrow> Inr m
      | JArr xs \<Rightarrow> Inr (index_entries xs show_index)
      | JStr s \<Rightarrow> Inr (index_entries (map (\<lambda>c. JStr [c]) s) show_index)
      | JNull \<Rightarrow> Inl TypeError
      | _ \<Rightarrow> Inr [])"

definition member :: "(nat \<Rightarrow> string) \<Rightarrow> json \<Rightarrow> string \<Rightarrow> override_error + json option" where
  "member show_index v k =
     (case object_entries_of show_index v of
        Inl e \<Rightarrow> Inl e
      | Inr es \<Rightarrow> Inr (case map_of es k of Some x \<Rightarrow> Some x
          | None \<Rightarrow> (case v of JArr xs \<Rightarrow> if k = ''length'' then Some (JNum (of_nat (length xs))) else None
              | JStr s \<Rightarrow> if k = ''length'' then Some (JNum (of_nat (length s))) else None
              | _ \<Rightarrow> None)))"

fun member_overrides ::
  "path_lib \<Rightarrow> (nat \<Rightarrow> string) \<Rightarrow> string \<Rightarrow> json \<Rightarrow> (string \<times> json) list
   \<Rightarrow> override_error + SomeObjectOverrideOp list" where
  "member_overrides lib sh key curValue [] = Inr []"
| "member_overrides lib sh key curValue ((rawKey, rawValue) # es) =
     (case member sh curValue rawKey of
        Inl e \<Rightarrow> Inl e
      | Inr cur \<Rightarrow>
         (case member_overrides lib sh key curValue es of
            Inl e \<Rightarrow> Inl e
          | Inr ops \<Rightarrow> Inr (if pl_isEqual lib (Some rawValue) cur then ops
              else ObjectOverrideSetOp (key @ ''.'' @ rawKey) (Some rawValue) # ops)))"

definition kept_override ::
  "path_lib \<Rightarrow> SomeObjectOverrideOp list \<Rightarrow> json \<Rightarrow> string \<Rightarrow> SomeObjectOverrideOp list" where
  "kept_override lib ovs rawObj key =
     (case find (\<lambda>ov. key = (case getParentObjectPath (op_path ov) of
            Some p \<Rightarrow> if p \<noteq> [] then p else op_path ov | None \<Rightarrow> op_path ov)) ovs of
        None \<Rightarrow> []
      | Some ov \<Rightarrow>
          if pl_has lib rawObj (op_path ov)
             \<and> (case ov of ObjectOverrideDeleteOp _ \<Rightarrow> True
                | ObjectOverrideSetOp p v \<Rightarrow> pl_isEqual lib (pl_get lib rawObj p) v)
          then [ov] else [])"

definition changed_overrides ::
  "path_lib \<Rightarrow> (nat \<Rightarrow> string) \<Rightarrow> json \<Rightarrow> string \<Rightarrow> json
   \<Rightarrow> override_error + SomeObjectOverrideOp list" where
  "changed_overrides lib sh appliedCurObj key v =
     (case object_entries_of sh appliedCurObj of
        Inl e \<Rightarrow> Inl e
      | Inr m \<Rightarrow>
         (case map_of m key of
            None \<Rightarrow> Inr []
          | Some curValue \<Rightarrow>
              if pl_isEqual lib (Some v) (Some curValue) then Inr []
              else if v = JNull \<or> is_object (Some v)
              then (case object_entries_of sh v of
                  Inl e \<Rightarrow> Inl e | Inr es \<Rightarrow> member_overrides lib sh key curValue es)
              else Inr [ObjectOverrideSetOp key (Some v)]))"

fun updated_overrides ::
  "path_lib \<Rightarrow> (nat \<Rightarrow> string) \<Rightarrow> ObjectWithOverrides \<Rightarrow> json \<Rightarrow> (string \<times> json) list
   \<Rightarrow> override_error + SomeObjectOverrideOp list" where
  "updated_overrides lib sh curObj rawObj [] = Inr []"
| "updated_overrides lib sh curObj rawObj ((key, v) # es) =
     (case changed_overrides lib sh (ar_obj (applyAndValidateOverrides lib curObj)) key v of
        Inl e \<Rightarrow> Inl e
      | Inr changed \<Rightarrow>
         (case updated_overrides lib sh curObj rawObj es of
            Inl e \<Rightarrow> Inl e
          | Inr ops \<Rightarrow> Inr (kept_override lib (overrides curObj) rawObj key @ changed @ ops)))"

definition updateOverrides ::
  "path_lib \<Rightarrow> (nat \<Rightarrow> string) \<Rightarrow> ObjectWithOverrides \<Rightarrow> (string \<times> json) list
   \<Rightarrow> override_error + ObjectWithOverrides" where
  "updateOverrides lib sh curObj rawEntries =
     (case updated_overrides lib sh curObj (JObj rawEntries) rawEntries of
        Inl e \<Rightarrow> Inl e
      | Inr ops \<Rightarrow> Inr \<lparr>defaults = defaults curObj, overrides = ops\<rparr>)"

section \<open>Looking up overrides\<close>

definition starts_with :: "string \<Rightarrow> string \<Rightarrow> bool" where
  "starts_with s p = (take (length p) s = p)"

definition ends_with_dot :: "string \<Rightarrow> bool" where
  "ends_with_dot s = (s \<noteq> [] \<and> last s = CHR ''.'')"

definition under_prefix :: "string \<Rightarrow> SomeObjectOverrideOp \<Rightarrow> bool" where
  "under_prefix prefix op =
     (op_path op = prefix
      \<or> starts_with (op_path op) (if ends_with_dot prefix then prefix else prefix @ ''.''))"

definition filterOverrideOpsForPrefix ::
  "SomeObjectOverrideOp list \<Rightarrow> string \<Rightarrow> SomeObjectOverrideOp list \<times> SomeObjectOverrideOp list" where
  "filterOverrideOpsForPrefix allOps prefix =
     (filter (under_prefix prefix) allOps, filter (\<lambda>op. \<not> under_prefix prefix op) allOps)"

fun find_parent_op :: "string \<Rightarrow> SomeObjectOverrideOp list \<Rightarrow> (SomeObjectOverrideOp \<times> string) option" where
  "find_parent_op subPath [] = None"
| "find_parent_op subPath (op # ops) =
     (if subPath = op_path op then None
      else if starts_with subPath (op_path op @ ''.'')
      then (case op of ObjectOverrideDeleteOp _ \<Rightarrow> None
            | ObjectOverrideSetOp p _ \<Rightarrow> Some (op, drop (length p + 1) subPath))
      else find_parent_op subPath ops)"

definition findParentOpToUpdate ::
  "SomeObjectOverrideOp list \<Rightarrow> string \<Rightarrow> (SomeObjectOverrideOp \<times> string) option" where
  "findParentOpToUpdate opsForId subPath = find_parent_op subPath (rev opsForId)"

section \<open>Applying the overrides\<close>

text \<open>An operation either leaves the object alone, or is kept and is neither unused nor invalid.\<close>

lemma apply_override_effect:
  "ar_obj (apply_override lib op r) \<noteq> ar_obj r \<Longrightarrow>
     preserve (apply_override lib op r) = preserve r @ [op] \<and>
     unused (apply_override lib op r) = unused r \<and> ar_invalid (apply_override lib op r) = ar_invalid r"
  by (cases op) (auto simp: applySetOp_def applyDeleteOp_def Let_def split: if_splits)

text \<open>The object reached depends on the object before alone.\<close>

lemma apply_override_obj_cong:
  "ar_obj r = ar_obj r' \<Longrightarrow> ar_obj (apply_override lib op r) = ar_obj (apply_override lib op r')"
  by (cases op) (auto simp: applySetOp_def applyDeleteOp_def Let_def split: option.split)

lemma apply_override_preserve:
  "preserve (apply_override lib op r) = preserve r @ [op]
   \<or> preserve (apply_override lib op r) = preserve r \<and> ar_obj (apply_override lib op r) = ar_obj r
     \<and> ar_invalid (apply_override lib op r) = ar_invalid r @ [op]"
  by (cases op) (auto simp: applySetOp_def applyDeleteOp_def Let_def)

lemma applyAndValidateOverrides_snoc:
  "applyAndValidateOverrides lib \<lparr>defaults = d, overrides = ops @ [op]\<rparr> =
     apply_override lib op (applyAndValidateOverrides lib \<lparr>defaults = d, overrides = ops\<rparr>)"
  by (simp add: applyAndValidateOverrides_def)

lemma reapply_preserved:
  "ar_obj (applyAndValidateOverrides lib
      \<lparr>defaults = d, overrides = preserve (applyAndValidateOverrides lib \<lparr>defaults = d, overrides = ops\<rparr>)\<rparr>)
   = ar_obj (applyAndValidateOverrides lib \<lparr>defaults = d, overrides = ops\<rparr>)"
proof (induction ops rule: rev_induct)
  case Nil
  then show ?case by (simp add: applyAndValidateOverrides_def)
next
  case (snoc op ops)
  show ?case
    using apply_override_preserve [of lib op "applyAndValidateOverrides lib \<lparr>defaults = d, overrides = ops\<rparr>"] snoc
    by (auto simp: applyAndValidateOverrides_snoc intro: apply_override_obj_cong)
qed

text \<open>Saving only the overrides that \<open>applyAndValidateOverrides\<close> lists under \<open>preserve\<close> loses
  nothing: for every \<open>object-path\<close> library, applying them again to the same defaults gives the same
  object.\<close>

theorem preserved_overrides_suffice:
  "ar_obj (applyAndValidateOverrides lib
      (cur\<lparr>overrides := preserve (applyAndValidateOverrides lib cur)\<rparr>))
   = ar_obj (applyAndValidateOverrides lib cur)"
  by (cases cur) (simp add: reapply_preserved)

lemma apply_overrides_sets:
  "set (preserve (fold (apply_override lib) ops r)) \<union> set (ar_invalid (fold (apply_override lib) ops r)) =
     set (preserve r) \<union> set (ar_invalid r) \<union> set ops"
proof (induction ops arbitrary: r)
  case (Cons op ops)
  have "set (preserve (apply_override lib op r)) \<union> set (ar_invalid (apply_override lib op r)) =
      insert op (set (preserve r) \<union> set (ar_invalid r))"
    by (cases op) (auto simp: applySetOp_def applyDeleteOp_def Let_def)
  with Cons show ?case by auto
qed simp

lemma every_override_classified:
  "set (preserve (applyAndValidateOverrides lib cur)) \<union> set (ar_invalid (applyAndValidateOverrides lib cur))
   = set (overrides cur)"
  by (simp add: applyAndValidateOverrides_def apply_overrides_sets)

lemma unused_overrides_have_no_effect:
  "\<lbrakk>ar_obj (fold (apply_override lib) ops r) = d; op \<in> set (unused (apply_override lib op r)) - set (unused r)\<rbrakk>
   \<Longrightarrow> ar_obj (apply_override lib op r) = ar_obj r"
  by (metis DiffE apply_override_effect)

section \<open>Finding the operation to update\<close>

definition related_paths :: "string \<Rightarrow> SomeObjectOverrideOp \<Rightarrow> bool" where
  \<comment> \<open>the operation is at the path or at an ancestor of it\<close>
  "related_paths subPath op = (subPath = op_path op \<or> starts_with subPath (op_path op @ ''.''))"

lemma starts_with_iff: "starts_with s p \<longleftrightarrow> (\<exists>t. s = p @ t)"
  unfolding starts_with_def by (metis append_eq_conv_conj append_take_drop_id)

lemma find_parent_op_Some:
  "find_parent_op sp ops = Some (op, newSub) \<Longrightarrow>
     \<exists>zs p v ys. ops = zs @ op # ys \<and> op = ObjectOverrideSetOp p v \<and> sp = p @ ''.'' @ newSub
        \<and> (\<forall>z\<in>set zs. \<not> related_paths sp z)"
proof (induction ops)
  case Nil
  then show ?case by simp
next
  case (Cons o' ops)
  show ?case
  proof (cases "related_paths sp o'")
    case True
    then have "(\<exists>p v. o' = ObjectOverrideSetOp p v \<and> sp = p @ ''.'' @ newSub) \<and> op = o'"
      using Cons.prems by (cases o') (auto simp: related_paths_def starts_with_iff split: if_splits)
    then show ?thesis by (metis append_Nil empty_iff list.set(1))
  next
    case False
    then have "find_parent_op sp ops = Some (op, newSub)"
      using Cons.prems by (simp add: related_paths_def)
    then obtain zs p v ys where "ops = zs @ op # ys" "op = ObjectOverrideSetOp p v"
      "sp = p @ ''.'' @ newSub" "\<forall>z\<in>set zs. \<not> related_paths sp z"
      using Cons.IH by blast
    then show ?thesis using False by (intro exI [of _ "o' # zs"]) auto
  qed
qed

lemma find_parent_op_skip:
  "\<forall>z\<in>set zs. \<not> related_paths sp z \<Longrightarrow> find_parent_op sp (zs @ ops) = find_parent_op sp ops"
  by (induction zs) (simp_all add: related_paths_def)

lemma find_parent_op_hit:
  "find_parent_op (p @ ''.'' @ newSub) (ObjectOverrideSetOp p v # ys)
     = Some (ObjectOverrideSetOp p v, newSub)"
  by (simp add: starts_with_def)

text \<open>C34. \<open>findParentOpToUpdate\<close> answers a set operation on an ancestor of the path, together with the
  rest of the path below it, exactly when that operation is the last of the list that concerns the
  path or an ancestor of it.\<close>

theorem findParentOpToUpdate_iff:
  "findParentOpToUpdate ops sp = Some (op, newSub) \<longleftrightarrow>
     (\<exists>ys p v zs. ops = ys @ op # zs \<and> op = ObjectOverrideSetOp p v \<and> sp = p @ ''.'' @ newSub
        \<and> (\<forall>z\<in>set zs. \<not> related_paths sp z))"
proof
  assume "findParentOpToUpdate ops sp = Some (op, newSub)"
  then obtain zs p v ys where *: "rev ops = zs @ op # ys" "op = ObjectOverrideSetOp p v"
    "sp = p @ ''.'' @ newSub" "\<forall>z\<in>set zs. \<not> related_paths sp z"
    using find_parent_op_Some [of sp "rev ops" op newSub] unfolding findParentOpToUpdate_def by blast
  then have "ops = rev ys @ op # rev zs"
    by (simp add: rev_eq_append_conv) 
  with * show "\<exists>ys p v zs. ops = ys @ op # zs \<and> op = ObjectOverrideSetOp p v \<and> sp = p @ ''.'' @ newSub
        \<and> (\<forall>z\<in>set zs. \<not> related_paths sp z)"
    by (metis set_rev)
next
  assume "\<exists>ys p v zs. ops = ys @ op # zs \<and> op = ObjectOverrideSetOp p v \<and> sp = p @ ''.'' @ newSub
        \<and> (\<forall>z\<in>set zs. \<not> related_paths sp z)"
  then obtain ys p v zs where *: "ops = ys @ op # zs" "op = ObjectOverrideSetOp p v"
    "sp = p @ ''.'' @ newSub" "\<forall>z\<in>set (rev zs). \<not> related_paths sp z" by auto
  then show "findParentOpToUpdate ops sp = Some (op, newSub)"
    using find_parent_op_skip [OF *(4)] find_parent_op_hit [of p newSub v]
    by (simp add: findParentOpToUpdate_def)
qed

lemma findParentOpToUpdate_iff_witness:
  "findParentOpToUpdate [ObjectOverrideDeleteOp ''a.b'', ObjectOverrideSetOp ''a'' None] ''a.b.c''
     = Some (ObjectOverrideSetOp ''a'' None, ''b.c'')"
  using findParentOpToUpdate_iff [of "[ObjectOverrideDeleteOp ''a.b'', ObjectOverrideSetOp ''a'' None]" "''a.b.c''"
      "ObjectOverrideSetOp ''a'' None" "''b.c''"]
  by (fastforce simp: Cons_eq_append_conv)

section \<open>Updating from an unchanged object\<close>

lemma kept_override_length: "length (kept_override lib ovs rawObj key) \<le> 1"
  by (simp add: kept_override_def split: option.split)

lemma kept_overrides_length:
  "length (concat (map (\<lambda>(k, v). kept_override lib ovs rawObj k) es)) \<le> length es"
proof (induction es)
  case (Cons e es)
  then show ?case
    using kept_override_length [of lib ovs rawObj "fst e"] by (simp add: case_prod_beta)
qed simp

lemma updated_overrides_unchanged:
  assumes "object_entries_of sh (ar_obj (applyAndValidateOverrides lib cur)) = Inr m"
    and "\<forall>(k, v) \<in> set es. \<exists>c. map_of m k = Some c \<and> pl_isEqual lib (Some v) (Some c)"
  shows "updated_overrides lib sh cur rawObj es =
    Inr (concat (map (\<lambda>(k, v). kept_override lib (overrides cur) rawObj k) es))"
  using assms(2)
proof (induction es)
  case (Cons e es)
  obtain k v where e: "e = (k, v)" by (cases e)
  then have "changed_overrides lib sh (ar_obj (applyAndValidateOverrides lib cur)) k v = Inr []"
    using assms(1) Cons.prems by (auto simp: changed_overrides_def)
  with Cons e show ?case by simp
qed simp

text \<open>A concrete library of nested objects, for the examples.\<close>

fun split_path :: "string \<Rightarrow> string \<Rightarrow> string list" where
  "split_path acc [] = [rev acc]"
| "split_path acc (c # cs) = (if c = CHR ''.'' then rev acc # split_path [] cs else split_path (c # acc) cs)"

fun nested_get :: "json \<Rightarrow> string list \<Rightarrow> json option" where
  "nested_get v [] = Some v"
| "nested_get (JObj m) (k # ks) = (case map_of m k of None \<Rightarrow> None | Some v \<Rightarrow> nested_get v ks)"
| "nested_get _ _ = None"

fun nested_set :: "json \<Rightarrow> string list \<Rightarrow> json \<Rightarrow> json" where
  "nested_set v [] x = x"
| "nested_set (JObj m) (k # ks) x =
     JObj (map_set k (nested_set (nullish (map_of m k) (JObj [])) ks x) m)"
| "nested_set v _ x = v"

fun nested_del :: "json \<Rightarrow> string list \<Rightarrow> json" where
  "nested_del (JObj m) [k] = JObj (map_del k m)"
| "nested_del (JObj m) (k # ks) =
     (case map_of m k of None \<Rightarrow> JObj m | Some v \<Rightarrow> JObj (map_set k (nested_del v ks) m))"
| "nested_del v _ = v"

definition nested_lib :: path_lib where
  "nested_lib = \<lparr>pl_has = (\<lambda>v p. nested_get v (split_path [] p) \<noteq> None),
     pl_get = (\<lambda>v p. nested_get v (split_path [] p)),
     pl_set = (\<lambda>v p. nested_set v (split_path [] p)),
     pl_del = (\<lambda>v p. nested_del v (split_path [] p)), pl_isEqual = (=)\<rparr>"

definition two_members_overridden :: ObjectWithOverrides where
  "two_members_overridden =
     \<lparr>defaults = JObj [(''a'', JObj [(''b'', JNum 1), (''c'', JNum 2)])],
      overrides = [ObjectOverrideSetOp ''a.b'' (Some (JNum 10)), ObjectOverrideSetOp ''a.c'' (Some (JNum 20))]\<rparr>"

lemma two_members_applied:
  "ar_obj (applyAndValidateOverrides nested_lib two_members_overridden) =
     JObj [(''a'', JObj [(''b'', JNum 10), (''c'', JNum 20)])]"
  by code_simp

text \<open>Updating an object with overrides from a flat object whose members all equal the current
  ones adds no override, and keeps at most one override of each member: the first whose path is the
  member or directly below it. When two parts of a member are overridden, the second override is
  lost, although nothing was changed.\<close>

theorem updateOverrides_unchanged:
  assumes "object_entries_of sh (ar_obj (applyAndValidateOverrides lib cur)) = Inr m"
    and "\<forall>(k, v) \<in> set es. \<exists>c. map_of m k = Some c \<and> pl_isEqual lib (Some v) (Some c)"
  shows "\<exists>ops. updateOverrides lib sh cur es = Inr \<lparr>defaults = defaults cur, overrides = ops\<rparr>
    \<and> ops = concat (map (\<lambda>(k, v). kept_override lib (overrides cur) (JObj es) k) es)
    \<and> length ops \<le> length es"
  using updated_overrides_unchanged [OF assms] kept_overrides_length [of lib "overrides cur" "JObj es" es]
  by (simp add: updateOverrides_def)

lemma updateOverrides_unchanged_witness:
  "updateOverrides nested_lib (\<lambda>i. '''') two_members_overridden
      [(''a'', JObj [(''b'', JNum 10), (''c'', JNum 20)])] =
     Inr \<lparr>defaults = defaults two_members_overridden,
       overrides = [ObjectOverrideSetOp ''a.b'' (Some (JNum 10))]\<rparr>
   \<and> ar_obj (applyAndValidateOverrides nested_lib \<lparr>defaults = defaults two_members_overridden,
       overrides = [ObjectOverrideSetOp ''a.b'' (Some (JNum 10))]\<rparr>) =
     JObj [(''a'', JObj [(''b'', JNum 10), (''c'', JNum 2)])]"
proof -
  let ?es = "[(''a'', JObj [(''b'', JNum 10), (''c'', JNum 20)])]"
  have "object_entries_of (\<lambda>i. '''') (ar_obj (applyAndValidateOverrides nested_lib two_members_overridden)) = Inr ?es"
    by (simp only: two_members_applied) (simp add: object_entries_of_def)
  from updateOverrides_unchanged [OF this, of ?es]
  have "updateOverrides nested_lib (\<lambda>i. '''') two_members_overridden ?es =
      Inr \<lparr>defaults = defaults two_members_overridden,
        overrides = kept_override nested_lib (overrides two_members_overridden) (JObj ?es) ''a''\<rparr>"
    by (simp add: nested_lib_def)
  moreover have "kept_override nested_lib (overrides two_members_overridden) (JObj ?es) ''a'' =
      [ObjectOverrideSetOp ''a.b'' (Some (JNum 10))]"
    by code_simp
  moreover have "ar_obj (applyAndValidateOverrides nested_lib \<lparr>defaults = defaults two_members_overridden,
       overrides = [ObjectOverrideSetOp ''a.b'' (Some (JNum 10))]\<rparr>) =
     JObj [(''a'', JObj [(''b'', JNum 10), (''c'', JNum 2)])]"
    by code_simp
  ultimately show ?thesis by simp
qed

end
