(* ===== verification/Change_Tracker.thy ===== *)
theory Change_Tracker
  imports Sofie_Prelude
begin

text \<open>
  Which documents of a collection an ingest operation has to write:
  \<open>packages/job-worker/src/ingest/model/implementation/DocumentChangeTracker.ts\<close> and \<open>utils.ts\<close>
  beside it. A document is a value of its type and \<open>did\<close> reads its \<open>_id\<close>. The sets and the map of the
  tracker keep their insertion order, which is the order of the operations written.
\<close>

section \<open>Comparing documents\<close>

record ('i, 'd) DocumentChanges =
  dc_currentIds :: "'i list"
  dc_deletedIds :: "'i list"
  dc_changedDocuments :: "'d list"

definition getDocumentChanges :: "('d \<Rightarrow> 'i) \<Rightarrow> 'i js_set \<Rightarrow> 'd list \<Rightarrow> ('i, 'd) DocumentChanges" where
  "getDocumentChanges did changedIds documents =
     \<lparr>dc_currentIds = map did documents,
      dc_deletedIds = filter (\<lambda>i. i \<notin> set (map did documents)) changedIds,
      dc_changedDocuments = filter (\<lambda>d. did d \<in> set changedIds) documents\<rparr>"

text \<open>\<open>eq\<close> is underscore's \<open>isEqual\<close> on two documents, \<open>mergeFn\<close> the optional merge of the caller.\<close>

fun diff_new_objects ::
  "('d \<Rightarrow> 'i) \<Rightarrow> ('d \<Rightarrow> 'd \<Rightarrow> bool) \<Rightarrow> ('d \<Rightarrow> 'd \<Rightarrow> 'd) option \<Rightarrow> 'i js_set \<Rightarrow> ('i, 'd) js_map
   \<Rightarrow> 'd list \<Rightarrow> 'd list \<Rightarrow> 'i js_set \<times> ('i, 'd) js_map \<times> 'd list" where
  "diff_new_objects did eq mergeFn changedIds oldMap result [] = (changedIds, oldMap, result)"
| "diff_new_objects did eq mergeFn changedIds oldMap result (newObject # rest) =
     (let oldObject = map_get oldMap (did newObject);
          oldMap = map_del (did newObject) oldMap;
          mergedObject = (case (mergeFn, oldObject) of
            (Some f, Some oldD) \<Rightarrow> f oldD newObject | _ \<Rightarrow> newObject)
      in case oldObject of
           Some oldD \<Rightarrow>
             if did mergedObject \<in> set changedIds \<or> \<not> eq oldD mergedObject
             then diff_new_objects did eq mergeFn (set_add (did mergedObject) changedIds) oldMap
                    (result @ [mergedObject]) rest
             else diff_new_objects did eq mergeFn changedIds oldMap (result @ [oldD]) rest
         | None \<Rightarrow>
             diff_new_objects did eq mergeFn (set_add (did mergedObject) changedIds) oldMap
               (result @ [mergedObject]) rest)"

definition diffAndReturnLatestObjects ::
  "('d \<Rightarrow> 'i) \<Rightarrow> ('d \<Rightarrow> 'd \<Rightarrow> bool) \<Rightarrow> ('d \<Rightarrow> 'd \<Rightarrow> 'd) option \<Rightarrow> 'i js_set \<Rightarrow> 'd list \<Rightarrow> 'd list
   \<Rightarrow> 'i js_set \<times> 'd list" where
  "diffAndReturnLatestObjects did eq mergeFn changedIds oldObjects newObjects =
     (let (changed, left, result) = diff_new_objects did eq mergeFn changedIds
            (normalizeArrayToMapFunc (\<lambda>d. Some (did d)) oldObjects) [] newObjects
      in (fold set_add (map fst left) changed, result))"

text \<open>A fragment for \<open>setValuesAndTrackChanges\<close> is a list of members, each as the test whether a
  document has the value already and the update that sets it.\<close>

fun set_fragment :: "(('d \<Rightarrow> bool) \<times> ('d \<Rightarrow> 'd)) list \<Rightarrow> bool \<Rightarrow> 'd \<Rightarrow> bool \<times> 'd" where
  "set_fragment [] changed obj = (changed, obj)"
| "set_fragment ((same, put) # es) changed obj =
     (if changed \<or> \<not> same obj then set_fragment es True (put obj) else set_fragment es changed obj)"

fun setValuesAndTrackChanges ::
  "('d \<Rightarrow> 'i) \<Rightarrow> (('d \<Rightarrow> bool) \<times> ('d \<Rightarrow> 'd)) list \<Rightarrow> 'i js_set \<Rightarrow> 'd list \<Rightarrow> 'i js_set \<times> 'd list" where
  "setValuesAndTrackChanges did newFragment changedIds [] = (changedIds, [])"
| "setValuesAndTrackChanges did newFragment changedIds (obj # objs) =
     (let (changed, obj') = set_fragment newFragment (did obj \<in> set changedIds) obj;
          changedIds = (if changed then set_add (did obj') changedIds else changedIds);
          (changedIds', objs') = setValuesAndTrackChanges did newFragment changedIds objs
      in (changedIds', obj' # objs'))"

definition addManyToSet :: "'i js_set \<Rightarrow> 'i list \<Rightarrow> 'i js_set" where
  "addManyToSet s iter = fold set_add iter s"

section \<open>What is not marked as changed is in the database\<close>

text \<open>A collection \<open>db\<close> by id. The documents of a store that are not marked as changed are the ones of
  the collection, and an id of the collection that the store does not hold is marked.\<close>

definition persisted :: "('d \<Rightarrow> 'i) \<Rightarrow> ('i \<Rightarrow> 'd option) \<Rightarrow> 'i js_set \<Rightarrow> 'd list \<Rightarrow> bool" where
  "persisted did db changed docs =
     ((\<forall>d\<in>set docs. did d \<notin> set changed \<longrightarrow> db (did d) = Some d)
      \<and> (\<forall>i. db i \<noteq> None \<longrightarrow> i \<in> did ` set docs \<union> set changed))"

lemma persistedD1: "persisted did db changed docs \<Longrightarrow> d \<in> set docs \<Longrightarrow> did d \<notin> set changed \<Longrightarrow> db (did d) = Some d"
  and persistedD2: "persisted did db changed docs \<Longrightarrow> db i = Some d \<Longrightarrow> i \<in> did ` set docs \<union> set changed"
  unfolding persisted_def by blast+

lemma diff_new_objects_persisted:
  assumes merge: "\<forall>f a b. mergeFn = Some f \<longrightarrow> did (f a b) = did b"
    and "diff_new_objects did (=) mergeFn changed oldMap result news = (changed', left, result')"
    and "\<And>d. d \<in> set result \<Longrightarrow> did d \<notin> set changed \<Longrightarrow> db (did d) = Some d"
    and "\<And>i d. map_get oldMap i = Some d \<Longrightarrow> did d = i \<and> (i \<notin> set changed \<longrightarrow> db i = Some d)"
    and "\<And>i. db i \<noteq> None \<Longrightarrow> i \<in> did ` set result \<union> fst ` set oldMap \<union> set changed"
  shows "(\<forall>d\<in>set result'. did d \<notin> set changed' \<longrightarrow> db (did d) = Some d)
    \<and> (\<forall>i. db i \<noteq> None \<longrightarrow> i \<in> did ` set result' \<union> fst ` set left \<union> set changed')"
  using assms(2-)
proof (induction news arbitrary: changed oldMap result)
  case Nil
  then show ?case by auto
next
  case (Cons newObject rest)
  let ?i = "did newObject" and ?m = "map_del (did newObject) oldMap"
  have del: "fst ` set ?m = fst ` set oldMap - {?i}"
    by (auto simp: map_del_def)
  show ?case
  proof (cases "map_get oldMap ?i")
    case None
    let ?m' = "case (mergeFn, None :: 'a option) of (Some f, Some oldD) \<Rightarrow> f oldD newObject | _ \<Rightarrow> newObject"
    have m': "?m' = newObject" by (simp split: option.splits)
    have step: "diff_new_objects did (=) mergeFn (set_add ?i changed) ?m (result @ [newObject]) rest
        = (changed', left, result')"
      using Cons.prems(1) None m' by (simp add: Let_def)
    show ?thesis
    proof (rule Cons.IH [OF step])
      fix i
      assume "db i \<noteq> None"
      with Cons.prems(4) [of i] del
      show "i \<in> did ` set (result @ [newObject]) \<union> fst ` set ?m \<union> set (set_add ?i changed)" by auto
    qed (use Cons.prems(2,3) in \<open>auto split: if_splits\<close>)
  next
    case (Some oldD)
    define merged where "merged = (case mergeFn of Some f \<Rightarrow> f oldD newObject | None \<Rightarrow> newObject)"
    have id: "did merged = ?i" using merge by (simp add: merged_def split: option.split)
    have oldD: "did oldD = ?i" "?i \<notin> set changed \<Longrightarrow> db ?i = Some oldD"
      using Cons.prems(3) [OF Some] by auto
    have "diff_new_objects did (=) mergeFn changed oldMap result (newObject # rest) =
       (if did merged \<in> set changed \<or> oldD \<noteq> merged
        then diff_new_objects did (=) mergeFn (set_add (did merged) changed) ?m (result @ [merged]) rest
        else diff_new_objects did (=) mergeFn changed ?m (result @ [oldD]) rest)"
      by (cases mergeFn) (auto simp: Some merged_def Let_def)
    note step = this [unfolded Cons.prems(1) id, symmetric]
    show ?thesis
    proof (cases "?i \<in> set changed \<or> oldD \<noteq> merged")
      case True
      with step have "diff_new_objects did (=) mergeFn (set_add ?i changed) ?m (result @ [merged]) rest = (changed', left, result')"
        by simp
      then show ?thesis
      proof (rule Cons.IH)
        fix i
        assume "db i \<noteq> None"
        with Cons.prems(4) [of i] del id
        show "i \<in> did ` set (result @ [merged]) \<union> fst ` set ?m \<union> set (set_add ?i changed)" by auto
      qed (use Cons.prems(2,3) id in \<open>auto split: if_splits\<close>)
    next
      case False
      with step have "diff_new_objects did (=) mergeFn changed ?m (result @ [oldD]) rest = (changed', left, result')"
        by simp
      then show ?thesis
      proof (rule Cons.IH)
        fix i
        assume "db i \<noteq> None"
        with Cons.prems(4) [of i] del oldD(1)
        show "i \<in> did ` set (result @ [oldD]) \<union> fst ` set ?m \<union> set changed" by auto
      qed (use Cons.prems(2,3) oldD in \<open>auto split: if_splits\<close>)
    qed
  qed
qed

text \<open>Diffing a list of new documents against a store whose unmarked documents are those of the
  database gives a store of which that is true again, whatever the merge function.\<close>

theorem diffAndReturnLatestObjects_persisted:
  assumes merge: "\<forall>f a b. mergeFn = Some f \<longrightarrow> did (f a b) = did b"
    and "persisted did db changed olds"
  shows "case diffAndReturnLatestObjects did (=) mergeFn changed olds news of
    (changed', result) \<Rightarrow> persisted did db changed' result"
proof -
  let ?m = "normalizeArrayToMapFunc (\<lambda>d. Some (did d)) olds"
  obtain changed' left result where step:
    "diff_new_objects did (=) mergeFn changed ?m [] news = (changed', left, result)"
    by (metis prod_cases3)
  have get: "did d = i \<and> (i \<notin> set changed \<longrightarrow> db i = Some d)" if "map_get ?m i = Some d" for i d
    using that assms(2) by (auto simp: map_get_normalize dest!: find_Some_set intro: persistedD1)
  have keys: "i \<in> did ` set ([] :: 'a list) \<union> fst ` set ?m \<union> set changed" if some: "db i \<noteq> None" for i
  proof (cases "i \<in> set changed")
    case False
    obtain y where "db i = Some y" using some by blast
    with False obtain d where "d \<in> set olds" "did d = i"
      using persistedD2 [OF assms(2), of i y] by blast
    then have "find (\<lambda>x. Some (did x) = Some i) (rev olds) \<noteq> None"
      by (auto simp: find_None_set)
    then have "map_get ?m i \<noteq> None" by (simp add: map_get_normalize)
    then show ?thesis by (metis UnI1 UnI2 map_of_eq_None_iff)
  qed simp
  have "(\<forall>d\<in>set result. did d \<notin> set changed' \<longrightarrow> db (did d) = Some d)
    \<and> (\<forall>i. db i \<noteq> None \<longrightarrow> i \<in> did ` set result \<union> fst ` set left \<union> set changed')"
    by (rule diff_new_objects_persisted [OF merge step]) (simp, erule get, erule keys)
  with step show ?thesis
    by (auto simp: diffAndReturnLatestObjects_def persisted_def set_fold_set_add Let_def)
qed

lemma diffAndReturnLatestObjects_persisted_witness:
  "diffAndReturnLatestObjects fst (=) None [] [(1, ''x''), (2, ''y'')] [(1, ''x''), (3, ''z'')] =
     ([3, 2], [(1 :: int, ''x''), (3, ''z'')])
   \<and> persisted fst [1 \<mapsto> (1, ''x''), 2 \<mapsto> (2, ''y'')] [3, 2] [(1 :: int, ''x''), (3, ''z'')]"
proof -
  have run: "diffAndReturnLatestObjects fst (=) None [] [(1, ''x''), (2, ''y'')] [(1, ''x''), (3, ''z'')] =
     ([3, 2], [(1 :: int, ''x''), (3, ''z'')])"
    by (simp add: diffAndReturnLatestObjects_def normalizeArrayToMapFunc_def set_add_def map_del_def)
  have "persisted fst [1 \<mapsto> (1, ''x''), 2 \<mapsto> (2, ''y'')] [] [(1 :: int, ''x''), (2, ''y'')]"
    by (simp add: persisted_def)
  then show ?thesis
    using diffAndReturnLatestObjects_persisted [of None fst "[(1 :: int) \<mapsto> (1, ''x''), 2 \<mapsto> (2, ''y'')]" "[]"
        "[(1 :: int, ''x''), (2, ''y'')]" "[(1, ''x''), (3, ''z'')]"]
    unfolding run by simp
qed

section \<open>The tracker\<close>

record ('i, 'd) DocumentChangeTracker =
  currentIds :: "'i js_set"
  deletedIds :: "'i js_set"
  documentsToSave :: "('i, 'd) js_map"

definition empty_tracker :: "('i, 'd) DocumentChangeTracker" where
  "empty_tracker = \<lparr>currentIds = [], deletedIds = [], documentsToSave = []\<rparr>"

definition addDocumentId :: "'i \<Rightarrow> ('i, 'd) DocumentChangeTracker \<Rightarrow> ('i, 'd) DocumentChangeTracker" where
  "addDocumentId i t =
     (let t = t\<lparr>currentIds := set_add i (currentIds t)\<rparr> in
      if i \<in> set (deletedIds t) then t\<lparr>deletedIds := set_delete i (deletedIds t)\<rparr> else t)"

definition save_document :: "('d \<Rightarrow> 'i) \<Rightarrow> 'd \<Rightarrow> ('i, 'd) DocumentChangeTracker \<Rightarrow> ('i, 'd) DocumentChangeTracker" where
  "save_document did doc t = t\<lparr>documentsToSave := map_set (did doc) doc (documentsToSave t)\<rparr>"

definition addDocument ::
  "('d \<Rightarrow> 'i) \<Rightarrow> 'd \<Rightarrow> bool \<Rightarrow> ('i, 'd) DocumentChangeTracker \<Rightarrow> ('i, 'd) DocumentChangeTracker" where
  "addDocument did doc hasChanges t =
     (let t = addDocumentId (did doc) t in if hasChanges then save_document did doc t else t)"

definition deleteDocument :: "'i \<Rightarrow> ('i, 'd) DocumentChangeTracker \<Rightarrow> ('i, 'd) DocumentChangeTracker" where
  "deleteDocument i t =
     (if i \<notin> set (currentIds t) \<and> \<not> map_has (documentsToSave t) i
      then t\<lparr>deletedIds := set_add i (deletedIds t)\<rparr> else t)"

definition addChanges ::
  "('d \<Rightarrow> 'i) \<Rightarrow> ('i, 'd) DocumentChanges \<Rightarrow> bool
   \<Rightarrow> ('i, 'd) DocumentChangeTracker \<Rightarrow> ('i, 'd) DocumentChangeTracker" where
  "addChanges did changes parentIsDeleted t =
     (let t = fold deleteDocument (dc_deletedIds changes) t;
          t = (if \<not> parentIsDeleted
               then fold (\<lambda>doc. save_document did doc \<circ> addDocumentId (did doc)) (dc_changedDocuments changes) t
               else t)
      in fold (\<lambda>i. if parentIsDeleted then deleteDocument i else addDocumentId i) (dc_currentIds changes) t)"

definition getDeletedIds :: "('i, 'd) DocumentChangeTracker \<Rightarrow> 'i list" where
  "getDeletedIds t = deletedIds t"

datatype ('i, 'd) write_op = ReplaceOne 'i 'd | DeleteMany "'i list"

definition generateWriteOps :: "('i, 'd) DocumentChangeTracker \<Rightarrow> ('i, 'd) write_op list" where
  "generateWriteOps t =
     map (\<lambda>(i, d). ReplaceOne i d) (documentsToSave t)
     @ (if deletedIds t \<noteq> [] then [DeleteMany (deletedIds t)] else [])"

definition generateWriteOpsForLazyDocuments ::
  "('d \<Rightarrow> 'i) \<Rightarrow> bool \<Rightarrow> 'd list \<Rightarrow> 'i js_set \<Rightarrow> ('i, 'd) write_op list" where
  \<comment> \<open>\<open>isLoaded\<close>: the lazy documents were read before; \<open>docs\<close>: what reading them gives\<close>
  "generateWriteOpsForLazyDocuments did isLoaded docs changedIds =
     generateWriteOps
       (if changedIds \<noteq> [] \<or> isLoaded
        then addChanges did (getDocumentChanges did changedIds docs) False empty_tracker
        else empty_tracker)"

section \<open>The tracker against its specification\<close>

text \<open>The calls a user of the tracker makes.\<close>

datatype ('i, 'd) tracker_call =
    AddDocument 'd bool
  | DeleteDocument 'i
  | AddChanges "('i, 'd) DocumentChanges" bool

fun run_call ::
  "('d \<Rightarrow> 'i) \<Rightarrow> ('i, 'd) tracker_call \<Rightarrow> ('i, 'd) DocumentChangeTracker \<Rightarrow> ('i, 'd) DocumentChangeTracker" where
  "run_call did (AddDocument doc b) t = addDocument did doc b t"
| "run_call did (DeleteDocument i) t = deleteDocument i t"
| "run_call did (AddChanges c p) t = addChanges did c p t"

definition run_calls :: "('d \<Rightarrow> 'i) \<Rightarrow> ('i, 'd) tracker_call list \<Rightarrow> ('i, 'd) DocumentChangeTracker" where
  "run_calls did calls = fold (run_call did) calls empty_tracker"

text \<open>
  The specification has no state and no order: a call says which documents exist, which were asked to be
  deleted, and which to save.
\<close>

fun call_live :: "('d \<Rightarrow> 'i) \<Rightarrow> ('i, 'd) tracker_call \<Rightarrow> 'i set" where
  "call_live did (AddDocument doc b) = {did doc}"
| "call_live did (DeleteDocument i) = {}"
| "call_live did (AddChanges c p) =
     (if p then {} else did ` set (dc_changedDocuments c) \<union> set (dc_currentIds c))"

fun call_marked :: "('i, 'd) tracker_call \<Rightarrow> 'i set" where
  "call_marked (AddDocument doc b) = {}"
| "call_marked (DeleteDocument i) = {i}"
| "call_marked (AddChanges c p) = set (dc_deletedIds c) \<union> (if p then set (dc_currentIds c) else {})"

fun call_saves :: "('i, 'd) tracker_call \<Rightarrow> 'd list" where
  "call_saves (AddDocument doc b) = (if b then [doc] else [])"
| "call_saves (DeleteDocument i) = []"
| "call_saves (AddChanges c p) = (if p then [] else dc_changedDocuments c)"

definition saved_last :: "('d \<Rightarrow> 'i) \<Rightarrow> 'd list \<Rightarrow> 'i \<Rightarrow> 'd option" where
  "saved_last did docs i = find (\<lambda>d. did d = i) (rev docs)"

lemma saved_last_snoc [simp]:
  "saved_last did (docs @ [d]) = (saved_last did docs)(did d \<mapsto> d)"
  by (auto simp: saved_last_def)

lemma saved_last_Nil [simp]: "saved_last did [] = Map.empty"
  by (auto simp: saved_last_def)

text \<open>The simulation relation: what the tracker holds after calls with these effects.\<close>

definition tracks ::
  "('d \<Rightarrow> 'i) \<Rightarrow> ('i, 'd) DocumentChangeTracker \<Rightarrow> 'i set \<Rightarrow> 'i set \<Rightarrow> 'd list \<Rightarrow> bool" where
  "tracks did t live marked saves =
     (set (currentIds t) = live \<and> set (deletedIds t) = marked - live
      \<and> map_of (documentsToSave t) = saved_last did saves \<and> map_wf (documentsToSave t)
      \<and> distinct (deletedIds t) \<and> did ` set saves \<subseteq> live)"

lemma tracks_addDocumentId: "tracks did t L M S \<Longrightarrow> tracks did (addDocumentId i t) (insert i L) M S"
  by (auto simp: tracks_def addDocumentId_def Let_def)

lemma tracks_save_document:
  "tracks did t L M S \<Longrightarrow> did d \<in> L \<Longrightarrow> tracks did (save_document did d t) L M (S @ [d])"
  by (auto simp: tracks_def save_document_def fun_eq_iff)

lemma tracks_saved_live: "tracks did t L M S \<Longrightarrow> map_has (documentsToSave t) i \<Longrightarrow> i \<in> L"
proof -
  assume t: "tracks did t L M S" and "map_has (documentsToSave t) i"
  then obtain d where "saved_last did S i = Some d"
    by (auto simp: tracks_def map_has_def)
  then have "d \<in> set S" and "did d = i"
    using find_Some_set [of "\<lambda>d. did d = i" "rev S" d] by (simp_all add: saved_last_def)
  with t show "i \<in> L" by (auto simp: tracks_def)
qed

lemma tracks_deleteDocument: "tracks did t L M S \<Longrightarrow> tracks did (deleteDocument i t) L (insert i M) S"
  using tracks_saved_live [of did t L M S i]
  by (auto simp: tracks_def deleteDocument_def)

lemma tracks_deleteDocuments:
  "tracks did t L M S \<Longrightarrow> tracks did (fold deleteDocument ids t) L (set ids \<union> M) S"
proof (induction ids arbitrary: t M)
  case (Cons i ids)
  from Cons.IH [OF tracks_deleteDocument [OF Cons.prems, of i]] show ?case by simp
qed simp

lemma tracks_addDocumentIds:
  "tracks did t L M S \<Longrightarrow> tracks did (fold addDocumentId ids t) (set ids \<union> L) M S"
proof (induction ids arbitrary: t L)
  case (Cons i ids)
  from Cons.IH [OF tracks_addDocumentId [OF Cons.prems, of i]] show ?case by simp
qed simp

lemma tracks_save_documents:
  "tracks did t L M S \<Longrightarrow>
   tracks did (fold (\<lambda>doc. save_document did doc \<circ> addDocumentId (did doc)) docs t) (did ` set docs \<union> L) M (S @ docs)"
proof (induction docs arbitrary: t L S)
  case (Cons d docs)
  have "tracks did ((save_document did d \<circ> addDocumentId (did d)) t) (insert (did d) L) M (S @ [d])"
    using tracks_save_document [OF tracks_addDocumentId [OF Cons.prems, of "did d"], of d] by simp
  from Cons.IH [OF this] show ?case by simp
qed simp

lemma tracks_run_call:
  assumes "tracks did t L M S"
  shows "tracks did (run_call did c t) (call_live did c \<union> L) (call_marked c \<union> M) (S @ call_saves c)"
proof (cases c)
  case (AddDocument doc b)
  then show ?thesis
    using tracks_addDocumentId [OF assms, of "did doc"]
    by (auto simp: addDocument_def Let_def intro: tracks_save_document)
next
  case (DeleteDocument i)
  with tracks_deleteDocument [OF assms] show ?thesis by simp
next
  case (AddChanges ch p)
  have "tracks did (fold deleteDocument (dc_deletedIds ch) t) L (set (dc_deletedIds ch) \<union> M) S"
    by (rule tracks_deleteDocuments [OF assms])
  note del = this
  show ?thesis
  proof (cases p)
    case True
    with AddChanges tracks_deleteDocuments [OF del, of "dc_currentIds ch"] show ?thesis
      by (simp add: addChanges_def Let_def Un_assoc Un_left_commute Un_commute)
  next
    case False
    with AddChanges tracks_addDocumentIds [OF tracks_save_documents [OF del, of "dc_changedDocuments ch"], of "dc_currentIds ch"]
    show ?thesis
      by (simp add: addChanges_def Let_def Un_assoc Un_left_commute Un_commute)
  qed
qed

lemma tracks_run_calls:
  "tracks did (run_calls did calls) (\<Union>c\<in>set calls. call_live did c) (\<Union>c\<in>set calls. call_marked c)
     (concat (map call_saves calls))"
proof (induction calls rule: rev_induct)
  case Nil
  then show ?case by (simp add: run_calls_def empty_tracker_def tracks_def)
next
  case (snoc c calls)
  then show ?case using tracks_run_call [OF snoc, of c] by (simp add: run_calls_def Un_commute)
qed

fun written :: "('i, 'd) write_op \<Rightarrow> 'i set" where
  "written (ReplaceOne i d) = {i}"
| "written (DeleteMany is) = {}"

fun deleted_by :: "('i, 'd) write_op \<Rightarrow> 'i set" where
  "deleted_by (ReplaceOne i d) = {}"
| "deleted_by (DeleteMany is) = set is"

text \<open>C31. Whatever the calls, the operations generated replace exactly the documents
  saved, each by the version saved last, and delete exactly the documents that some call asked to be deleted
  and that no call reported as existing; no document is both replaced and deleted. The order of
  the calls matters to the versions only.\<close>

theorem generateWriteOps_refines:
  "let ops = generateWriteOps (run_calls did calls);
       live = (\<Union>c\<in>set calls. call_live did c)
   in {(i, d). ReplaceOne i d \<in> set ops} = {(i, d). saved_last did (concat (map call_saves calls)) i = Some d}
      \<and> (\<Union>op\<in>set ops. deleted_by op) = (\<Union>c\<in>set calls. call_marked c) - live
      \<and> (\<Union>op\<in>set ops. written op) \<subseteq> live"
proof -
  let ?t = "run_calls did calls"
  have t: "tracks did ?t (\<Union>c\<in>set calls. call_live did c) (\<Union>c\<in>set calls. call_marked c)
     (concat (map call_saves calls))"
    by (rule tracks_run_calls)
  have rep: "ReplaceOne i d \<in> set (generateWriteOps ?t) \<longleftrightarrow> (i, d) \<in> set (documentsToSave ?t)" for i d
    by (auto simp: generateWriteOps_def)
  have "(i, d) \<in> set (documentsToSave ?t) \<longleftrightarrow> map_of (documentsToSave ?t) i = Some d" for i d
    using t map_of_eq_Some_iff [of "documentsToSave ?t" i d] unfolding tracks_def map_wf_def by blast
  moreover have "i \<in> (\<Union>c\<in>set calls. call_live did c)" if "(i, d) \<in> set (documentsToSave ?t)" for i d
    using tracks_saved_live [OF t, of i] that weak_map_of_SomeI [of i d "documentsToSave ?t"]
    by (auto simp: map_has_def)
  moreover have "(\<Union>op\<in>set (generateWriteOps ?t). deleted_by op) = set (deletedIds ?t)"
    by (auto simp: generateWriteOps_def)
  moreover have "(\<Union>op\<in>set (generateWriteOps ?t). written op) = fst ` set (documentsToSave ?t)"
    by (force simp: generateWriteOps_def)
  moreover have "map_of (documentsToSave ?t) = saved_last did (concat (map call_saves calls))"
    and "set (deletedIds ?t) = (\<Union>c\<in>set calls. call_marked c) - (\<Union>c\<in>set calls. call_live did c)"
    using t by (simp_all add: tracks_def)
  ultimately show ?thesis
    unfolding Let_def rep by (intro conjI) (simp, simp, force)
qed

end
