(* ===== verification/Post_Process.thy ===== *)
theory Post_Process
  imports Sofie_Data
begin

text \<open>
  What becomes of the pieces, ad-libs and actions that a blueprint returns: the functions of
  \<open>packages/job-worker/src/blueprints/postProcess.ts\<close> that give them ids and owners. The hash and the printing of
  numbers are arguments; timeline objects and the ids of expected packages are left out.
\<close>

section \<open>Pieces\<close>

record IBlueprintPiece = PieceInstancePiece +
  piece_externalId :: string

datatype post_process_error =
    PieceWithoutExternalId PartId
  | PieceStartsNow PartId

definition getIdHash ::
  "(string \<Rightarrow> string) \<Rightarrow> (nat \<Rightarrow> string) \<Rightarrow> (string, nat) js_map \<Rightarrow> string \<Rightarrow> string \<times> (string, nat) js_map" where
  \<comment> \<open>with the hash and the printing of numbers\<close>
  "getIdHash hash show_nat usedIds uniqueId =
     (case map_get usedIds uniqueId of
        None \<Rightarrow> (hash uniqueId, map_set uniqueId 0 usedIds)
      | Some n \<Rightarrow> (hash (uniqueId @ ''_'' @ show_nat n), map_set uniqueId (n + 1) usedIds))"

record piece_owner =
  owner_rundownId :: RundownId
  owner_segmentId :: SegmentId
  owner_partId :: PartId
  owner_blueprintId :: string

definition postProcessPiece ::
  "piece_owner \<Rightarrow> bool \<Rightarrow> bool \<Rightarrow> PieceId \<Rightarrow> IBlueprintPiece \<Rightarrow> post_process_error + Piece" where
  \<comment> \<open>a transition and a piece for hold are not infinite\<close>
  "postProcessPiece own allowNowForPiece setInvalid docId orgPiece =
     (let p = PieceInstancePiece.extend
            ((PieceInstancePiece.truncate orgPiece)\<lparr>piece_id := docId, startPartId := owner_partId own, piece_invalid := setInvalid,
               lifespan := (if pieceType orgPiece \<noteq> PieceNormal \<or> extendOnHold orgPiece then WithinPart else lifespan orgPiece)\<rparr>)
            (Piece.fields (owner_rundownId own) (owner_segmentId own))
      in if \<not> allowNowForPiece \<and> en_start (enable p) = Now then Inl (PieceStartsNow (owner_partId own)) else Inr p)"

definition unique_piece_id :: "piece_owner \<Rightarrow> IBlueprintPiece \<Rightarrow> string" where
  "unique_piece_id own p = owner_rundownId own @ ''_'' @ owner_blueprintId own @ ''_'' @ owner_partId own @ ''_piece_''
     @ sourceLayerId p @ ''_'' @ piece_externalId p"

fun postProcessPieces_from ::
  "(string \<Rightarrow> string) \<Rightarrow> (nat \<Rightarrow> string) \<Rightarrow> piece_owner \<Rightarrow> bool \<Rightarrow> bool \<Rightarrow> (string, nat) js_map \<Rightarrow> IBlueprintPiece list
   \<Rightarrow> post_process_error + Piece list" where
  "postProcessPieces_from hash show_nat own allowNow setInvalid usedIds [] = Inr []"
| "postProcessPieces_from hash show_nat own allowNow setInvalid usedIds (p # ps) =
     (if piece_externalId p = [] then Inl (PieceWithoutExternalId (owner_partId own))
      else let (docId, usedIds) = getIdHash hash show_nat usedIds (unique_piece_id own p)
           in and_then (postProcessPiece own allowNow setInvalid docId p)
                (\<lambda>q. and_then (postProcessPieces_from hash show_nat own allowNow setInvalid usedIds ps) (\<lambda>qs. Inr (q # qs))))"

definition postProcessPieces ::
  "(string \<Rightarrow> string) \<Rightarrow> (nat \<Rightarrow> string) \<Rightarrow> piece_owner \<Rightarrow> bool \<Rightarrow> bool \<Rightarrow> IBlueprintPiece list \<Rightarrow> post_process_error + Piece list" where
  "postProcessPieces hash show_nat own allowNow setInvalid ps = postProcessPieces_from hash show_nat own allowNow setInvalid [] ps"

section \<open>Ad-libs and their actions\<close>

text \<open>Of an ad-lib or an action of a part the members its id depends on are kept; an action has no source layer.\<close>

record 'b IBlueprintOwned =
  bo_externalId :: string
  bo_sourceLayerId :: string
  bo_body :: 'b

fun owned_docs ::
  "(string \<Rightarrow> string) \<Rightarrow> (nat \<Rightarrow> string) \<Rightarrow> PartId \<Rightarrow> ('b IBlueprintOwned \<Rightarrow> string) \<Rightarrow> (string, nat) js_map
   \<Rightarrow> 'b IBlueprintOwned list \<Rightarrow> post_process_error + (string \<times> 'b IBlueprintOwned) list" where
  \<comment> \<open>each with its id\<close>
  "owned_docs hash show_nat i uniqueId usedIds [] = Inr []"
| "owned_docs hash show_nat i uniqueId usedIds (a # as) =
     (if bo_externalId a = [] then Inl (PieceWithoutExternalId i)
      else let (docId, usedIds) = getIdHash hash show_nat usedIds (uniqueId a)
           in and_then (owned_docs hash show_nat i uniqueId usedIds as) (\<lambda>ds. Inr ((docId, a) # ds)))"

definition postProcessAdLibPieces ::
  "(string \<Rightarrow> string) \<Rightarrow> (nat \<Rightarrow> string) \<Rightarrow> piece_owner \<Rightarrow> 'b IBlueprintOwned list
   \<Rightarrow> post_process_error + (string \<times> 'b IBlueprintOwned) list" where
  "postProcessAdLibPieces hash show_nat own = owned_docs hash show_nat (owner_partId own)
     (\<lambda>a. owner_rundownId own @ ''_'' @ owner_blueprintId own @ ''_'' @ owner_partId own @ ''_adlib_piece_''
        @ bo_sourceLayerId a @ ''_'' @ bo_externalId a) []"

definition postProcessAdLibActions ::
  "(string \<Rightarrow> string) \<Rightarrow> (nat \<Rightarrow> string) \<Rightarrow> piece_owner \<Rightarrow> 'b IBlueprintOwned list
   \<Rightarrow> post_process_error + (string \<times> 'b IBlueprintOwned) list" where
  "postProcessAdLibActions hash show_nat own = owned_docs hash show_nat (owner_partId own)
     (\<lambda>a. owner_rundownId own @ ''_'' @ owner_blueprintId own @ ''_'' @ owner_partId own @ ''_adlib_action_''
        @ bo_externalId a) []"

end
