(* ===== verification/Ingest_Model.thy ===== *)
theory Ingest_Model
  imports Change_Tracker Overrides Part_Timings Post_Process
begin

text \<open>
  The documents of a rundown while an ingest operation works on them:
  \<open>IngestPartModelImpl\<close>, \<open>IngestSegmentModelImpl\<close>, \<open>IngestModelImpl\<close>, \<open>ExpectedPackagesStore\<close> and
  \<open>SaveIngestModelHelper\<close> of \<open>packages/job-worker/src/ingest/model/implementation\<close>. The models
  remember which documents changed; saving writes those and deletes what is gone. Members that no
  modelled operation reads are one value, the \<open>body\<close> of a document, and \<open>isEqual\<close> is equality of
  documents. The hash behind the ids is the argument \<open>getHash\<close>.
\<close>

section \<open>Documents\<close>

record IngestPartDoc = DBPart +
  part_body :: json

record IngestPieceDoc = Piece +
  piece_body :: json

text \<open>Ad-lib pieces and actions, expected media items, playout items and packages.\<close>

record OwnedDoc =
  od_id :: string
  od_rundownId :: RundownId
  od_segmentId :: "SegmentId option"
  od_partId :: "PartId option"
  od_created :: int
  od_body :: json

datatype ingest_error =
    RundownIdNotSet
  | ExternalIdNotSet
  | SegmentIdInUse SegmentId
  | DuplicatePartId PartId
  | ModelDisposed
  | RundownLockReleased
  | CannotMergeSegments
  | NonUniqueSegmentExternalId string
  | LostIngestRundown
  | LostOldIngestRundown
  | PostProcess post_process_error
  | MosRundownNotFound string
  | MosStoryMissing string
  | PartsWereNotFound "string list"
  | PartsAlreadyExist "string list"
  | CannotSwapWithItself string
  | IngestSegmentNotFound string
  | IngestSegmentMissing string
  | IngestedSegmentNotFound SegmentId
  | StudioNotSet
  | RundownDocNotFound
  | BlueprintRejectedRundown
  | RundownExternalIdNotSet
  | RunningOrderMismatch
  | UserRundownRemoveWhileActive

definition getSegmentId :: "(string \<Rightarrow> string) \<Rightarrow> RundownId \<Rightarrow> string \<Rightarrow> ingest_error + SegmentId" where
  "getSegmentId getHash rundownId segmentExternalId =
     (if rundownId = [] then Inl RundownIdNotSet
      else if segmentExternalId = [] then Inl ExternalIdNotSet
      else Inr (getHash (rundownId @ ''_segment_'' @ segmentExternalId)))"

definition getPartId :: "(string \<Rightarrow> string) \<Rightarrow> RundownId \<Rightarrow> string \<Rightarrow> ingest_error + PartId" where
  "getPartId getHash rundownId partExternalId =
     (if rundownId = [] then Inl RundownIdNotSet
      else if partExternalId = [] then Inl ExternalIdNotSet
      else Inr (getHash (rundownId @ ''_part_'' @ partExternalId)))"

section \<open>Documents and the ids of the changed ones\<close>

record 'd doc_store =
  ds_docs :: "'d list"
  ds_changed :: "string js_set"

definition new_store :: "('d \<Rightarrow> string) \<Rightarrow> bool \<Rightarrow> 'd list \<Rightarrow> 'd doc_store" where
  "new_store did isBeingCreated docs =
     \<lparr>ds_docs = docs, ds_changed = (if isBeingCreated then fold set_add (map did docs) [] else [])\<rparr>"

definition store_changes :: "('d \<Rightarrow> string) \<Rightarrow> 'd doc_store \<Rightarrow> (string, 'd) DocumentChanges" where
  "store_changes did st = getDocumentChanges did (ds_changed st) (ds_docs st)"

definition store_clear :: "'d doc_store \<Rightarrow> 'd doc_store" where
  "store_clear st = st\<lparr>ds_changed := []\<rparr>"

definition store_set ::
  "('d \<Rightarrow> string) \<Rightarrow> ('d \<Rightarrow> 'd \<Rightarrow> 'd) option \<Rightarrow> 'd list \<Rightarrow> 'd doc_store \<Rightarrow> 'd doc_store" where
  "store_set did mergeFn newDocs st =
     (let (changed, docs) = diffAndReturnLatestObjects did (=) mergeFn (ds_changed st) (ds_docs st) newDocs
      in \<lparr>ds_docs = docs, ds_changed = changed\<rparr>)"

definition store_compare ::
  "('d \<Rightarrow> string) \<Rightarrow> ('d \<Rightarrow> 'd \<Rightarrow> 'd) option \<Rightarrow> 'd doc_store \<Rightarrow> 'd doc_store \<Rightarrow> 'd doc_store" where
  \<comment> \<open>diff the objects, but don't update the stored copies\<close>
  "store_compare did mergeFn previous st =
     st\<lparr>ds_changed := fst (diffAndReturnLatestObjects did (=) mergeFn (ds_changed st) (ds_docs previous) (ds_docs st))\<rparr>"

definition store_own ::
  "('d \<Rightarrow> string) \<Rightarrow> (('d \<Rightarrow> bool) \<times> ('d \<Rightarrow> 'd)) list \<Rightarrow> 'd doc_store \<Rightarrow> 'd doc_store" where
  "store_own did fragment st =
     (let (changed, docs) = setValuesAndTrackChanges did fragment (ds_changed st) (ds_docs st)
      in \<lparr>ds_docs = docs, ds_changed = changed\<rparr>)"

section \<open>Expected packages\<close>

record ExpectedPackagesStore =
  expectedMediaItems :: "OwnedDoc doc_store"
  expectedPlayoutItems :: "OwnedDoc doc_store"
  expectedPackages :: "OwnedDoc doc_store"
  es_rundownId :: RundownId
  es_segmentId :: "SegmentId option"
  es_partId :: "PartId option"

definition mutateExpectedPackage :: "OwnedDoc \<Rightarrow> OwnedDoc \<Rightarrow> OwnedDoc" where
  "mutateExpectedPackage oldObj newObj = newObj\<lparr>od_created := od_created oldObj\<rparr>"

definition new_expected_store ::
  "bool \<Rightarrow> RundownId \<Rightarrow> SegmentId option \<Rightarrow> PartId option
   \<Rightarrow> OwnedDoc list \<Rightarrow> OwnedDoc list \<Rightarrow> OwnedDoc list \<Rightarrow> ExpectedPackagesStore" where
  "new_expected_store isBeingCreated rundownId segmentId partId mediaItems playoutItems packages =
     \<lparr>expectedMediaItems = new_store od_id isBeingCreated mediaItems,
      expectedPlayoutItems = new_store od_id isBeingCreated playoutItems,
      expectedPackages = new_store od_id isBeingCreated packages,
      es_rundownId = rundownId, es_segmentId = segmentId, es_partId = partId\<rparr>"

definition expected_hasChanges :: "ExpectedPackagesStore \<Rightarrow> bool" where
  "expected_hasChanges st =
     (ds_changed (expectedMediaItems st) \<noteq> [] \<or> ds_changed (expectedPlayoutItems st) \<noteq> []
      \<or> ds_changed (expectedPackages st) \<noteq> [])"

definition expected_clear :: "ExpectedPackagesStore \<Rightarrow> ExpectedPackagesStore" where
  "expected_clear st = st\<lparr>expectedMediaItems := store_clear (expectedMediaItems st),
     expectedPlayoutItems := store_clear (expectedPlayoutItems st),
     expectedPackages := store_clear (expectedPackages st)\<rparr>"

definition owner_fragment ::
  "RundownId \<Rightarrow> PartId option \<Rightarrow> ((OwnedDoc \<Rightarrow> bool) \<times> (OwnedDoc \<Rightarrow> OwnedDoc)) list" where
  "owner_fragment rundownId partId =
     [((\<lambda>d. od_rundownId d = rundownId), od_rundownId_update (\<lambda>_. rundownId)),
      ((\<lambda>d. od_partId d = partId), od_partId_update (\<lambda>_. partId))]"

definition package_owner_fragment ::
  "RundownId \<Rightarrow> SegmentId option \<Rightarrow> PartId option \<Rightarrow> ((OwnedDoc \<Rightarrow> bool) \<times> (OwnedDoc \<Rightarrow> OwnedDoc)) list" where
  "package_owner_fragment rundownId segmentId partId =
     [((\<lambda>d. od_rundownId d = rundownId), od_rundownId_update (\<lambda>_. rundownId)),
      ((\<lambda>d. od_segmentId d = segmentId), od_segmentId_update (\<lambda>_. segmentId)),
      ((\<lambda>d. od_partId d = partId), od_partId_update (\<lambda>_. partId))]"

definition expected_setOwnerIds ::
  "RundownId \<Rightarrow> SegmentId option \<Rightarrow> PartId option \<Rightarrow> ExpectedPackagesStore \<Rightarrow> ExpectedPackagesStore" where
  "expected_setOwnerIds rundownId segmentId partId st =
     st\<lparr>es_rundownId := rundownId, es_segmentId := segmentId, es_partId := partId,
        expectedPlayoutItems := store_own od_id (owner_fragment rundownId partId) (expectedPlayoutItems st),
        expectedMediaItems := store_own od_id (owner_fragment rundownId partId) (expectedMediaItems st),
        expectedPackages :=
          store_own od_id (package_owner_fragment rundownId segmentId partId) (expectedPackages st)\<rparr>"

definition compareToPreviousData :: "ExpectedPackagesStore \<Rightarrow> ExpectedPackagesStore \<Rightarrow> ExpectedPackagesStore" where
  "compareToPreviousData oldStore st =
     st\<lparr>expectedPlayoutItems := store_compare od_id None (expectedPlayoutItems oldStore) (expectedPlayoutItems st),
        expectedMediaItems := store_compare od_id None (expectedMediaItems oldStore) (expectedMediaItems st),
        expectedPackages :=
          store_compare od_id (Some mutateExpectedPackage) (expectedPackages oldStore) (expectedPackages st)\<rparr>"

definition setExpectedPlayoutItems :: "OwnedDoc list \<Rightarrow> ExpectedPackagesStore \<Rightarrow> ExpectedPackagesStore" where
  "setExpectedPlayoutItems items st =
     st\<lparr>expectedPlayoutItems := store_set od_id None
          (map (\<lambda>d. d\<lparr>od_partId := es_partId st, od_rundownId := es_rundownId st\<rparr>) items)
          (expectedPlayoutItems st)\<rparr>"

definition setExpectedMediaItems :: "OwnedDoc list \<Rightarrow> ExpectedPackagesStore \<Rightarrow> ExpectedPackagesStore" where
  "setExpectedMediaItems items st =
     st\<lparr>expectedMediaItems := store_set od_id None
          (map (\<lambda>d. d\<lparr>od_partId := es_partId st, od_rundownId := es_rundownId st\<rparr>) items)
          (expectedMediaItems st)\<rparr>"

definition setExpectedPackages :: "OwnedDoc list \<Rightarrow> ExpectedPackagesStore \<Rightarrow> ExpectedPackagesStore" where
  "setExpectedPackages packages st =
     st\<lparr>expectedPackages := store_set od_id (Some mutateExpectedPackage)
          (map (\<lambda>d. d\<lparr>od_partId := es_partId st, od_segmentId := es_segmentId st,
                   od_rundownId := es_rundownId st\<rparr>) packages)
          (expectedPackages st)\<rparr>"

section \<open>Parts\<close>

record IngestPartModel =
  partImpl :: IngestPartDoc
  pm_pieces :: "IngestPieceDoc doc_store"
  pm_adLibPieces :: "OwnedDoc doc_store"
  pm_adLibActions :: "OwnedDoc doc_store"
  expectedPackagesStore :: ExpectedPackagesStore
  partHasChanges :: bool

definition compareAndSetPartValue ::
  "(IngestPartDoc \<Rightarrow> 'v) \<Rightarrow> (('v \<Rightarrow> 'v) \<Rightarrow> IngestPartDoc \<Rightarrow> IngestPartDoc) \<Rightarrow> 'v
   \<Rightarrow> IngestPartModel \<Rightarrow> IngestPartModel" where
  "compareAndSetPartValue get upd newValue m =
     (if partHasChanges m \<or> get (partImpl m) \<noteq> newValue
      then m\<lparr>partImpl := upd (\<lambda>_. newValue) (partImpl m), partHasChanges := True\<rparr> else m)"

definition new_part_model ::
  "bool \<Rightarrow> IngestPartDoc \<Rightarrow> IngestPieceDoc list \<Rightarrow> OwnedDoc list \<Rightarrow> OwnedDoc list
   \<Rightarrow> OwnedDoc list \<Rightarrow> OwnedDoc list \<Rightarrow> OwnedDoc list \<Rightarrow> IngestPartModel" where
  "new_part_model isBeingCreated part pieces adLibPieces adLibActions mediaItems playoutItems packages =
     \<lparr>partImpl = part,
      pm_pieces = new_store piece_id isBeingCreated pieces,
      pm_adLibPieces = new_store od_id isBeingCreated adLibPieces,
      pm_adLibActions = new_store od_id isBeingCreated adLibActions,
      expectedPackagesStore = new_expected_store isBeingCreated (part_rundownId part)
        (Some (part_segmentId part)) (Some (part_id part)) mediaItems playoutItems packages,
      partHasChanges = isBeingCreated\<rparr>"

definition part_clearChangedFlags :: "IngestPartModel \<Rightarrow> IngestPartModel" where
  "part_clearChangedFlags m =
     m\<lparr>partHasChanges := False, pm_pieces := store_clear (pm_pieces m),
       pm_adLibPieces := store_clear (pm_adLibPieces m),
       pm_adLibActions := store_clear (pm_adLibActions m),
       expectedPackagesStore := expected_clear (expectedPackagesStore m)\<rparr>"

definition part_checkNoChanges :: "IngestPartModel \<Rightarrow> bool" where
  \<comment> \<open>no error is returned\<close>
  "part_checkNoChanges m =
     (\<not> partHasChanges m \<and> \<not> expected_hasChanges (expectedPackagesStore m)
      \<and> ds_changed (pm_pieces m) = [] \<and> ds_changed (pm_adLibPieces m) = []
      \<and> ds_changed (pm_adLibActions m) = [])"

definition setInvalid :: "bool \<Rightarrow> IngestPartModel \<Rightarrow> IngestPartModel" where
  "setInvalid v = compareAndSetPartValue part_invalid part_invalid_update v"

definition compare_previous_docs ::
  "('d \<Rightarrow> string) \<Rightarrow> 'd doc_store \<Rightarrow> 'd doc_store \<Rightarrow> 'd doc_store" where
  "compare_previous_docs did previous st =
     store_compare did None previous (st\<lparr>ds_changed := addManyToSet (ds_changed st) (ds_changed previous)\<rparr>)"

definition compareToPreviousModel :: "IngestPartModel \<Rightarrow> IngestPartModel \<Rightarrow> IngestPartModel" where
  "compareToPreviousModel previousModel m =
     m\<lparr>expectedPackagesStore :=
         compareToPreviousData (expectedPackagesStore previousModel) (expectedPackagesStore m),
       partHasChanges := partHasChanges m \<or> partHasChanges previousModel \<or> partImpl m \<noteq> partImpl previousModel,
       pm_pieces := compare_previous_docs piece_id (pm_pieces previousModel) (pm_pieces m),
       pm_adLibPieces := compare_previous_docs od_id (pm_adLibPieces previousModel) (pm_adLibPieces m),
       pm_adLibActions := compare_previous_docs od_id (pm_adLibActions previousModel) (pm_adLibActions m)\<rparr>"

definition piece_owner_fragment ::
  "RundownId \<Rightarrow> SegmentId \<Rightarrow> PartId \<Rightarrow> ((IngestPieceDoc \<Rightarrow> bool) \<times> (IngestPieceDoc \<Rightarrow> IngestPieceDoc)) list" where
  "piece_owner_fragment rundownId segmentId partId =
     [((\<lambda>p. startRundownId p = rundownId), startRundownId_update (\<lambda>_. rundownId)),
      ((\<lambda>p. startSegmentId p = segmentId), startSegmentId_update (\<lambda>_. segmentId)),
      ((\<lambda>p. startPartId p = partId), startPartId_update (\<lambda>_. partId))]"

definition part_setOwnerIds :: "RundownId \<Rightarrow> SegmentId \<Rightarrow> IngestPartModel \<Rightarrow> IngestPartModel" where
  "part_setOwnerIds rundownId segmentId m =
     (let m = compareAndSetPartValue part_segmentId part_segmentId_update segmentId m;
          m = compareAndSetPartValue part_rundownId part_rundownId_update rundownId m;
          partId = part_id (partImpl m)
      in m\<lparr>expectedPackagesStore :=
             expected_setOwnerIds rundownId (Some segmentId) (Some partId) (expectedPackagesStore m),
           pm_pieces := store_own piece_id (piece_owner_fragment rundownId segmentId partId) (pm_pieces m),
           pm_adLibPieces := store_own od_id (owner_fragment rundownId (Some partId)) (pm_adLibPieces m),
           pm_adLibActions := store_own od_id (owner_fragment rundownId (Some partId)) (pm_adLibActions m)\<rparr>)"

section \<open>Segments\<close>

record PartWrapper =
  partModel :: IngestPartModel
  pw_deleted :: bool

record IngestSegmentModel =
  segmentImpl :: DBSegment
  partsImpl :: "(PartId, PartWrapper) js_map"
  segmentHasChanges :: bool

definition compareAndSetSegmentValue ::
  "(DBSegment \<Rightarrow> 'v) \<Rightarrow> (('v \<Rightarrow> 'v) \<Rightarrow> DBSegment \<Rightarrow> DBSegment) \<Rightarrow> 'v
   \<Rightarrow> IngestSegmentModel \<Rightarrow> bool \<times> IngestSegmentModel" where
  "compareAndSetSegmentValue get upd newValue m =
     (if segmentHasChanges m \<or> get (segmentImpl m) \<noteq> newValue
      then (True, m\<lparr>segmentImpl := upd (\<lambda>_. newValue) (segmentImpl m), segmentHasChanges := True\<rparr>)
      else (False, m))"

definition map_parts :: "(IngestPartModel \<Rightarrow> IngestPartModel) \<Rightarrow> (PartId, PartWrapper) js_map \<Rightarrow> (PartId, PartWrapper) js_map" where
  \<comment> \<open>the same update of every part that is not deleted\<close>
  "map_parts f ps = map (\<lambda>(i, w). (i, if pw_deleted w then w else w\<lparr>partModel := f (partModel w)\<rparr>)) ps"

definition segment_clearChangedFlags :: "IngestSegmentModel \<Rightarrow> IngestSegmentModel" where
  "segment_clearChangedFlags m =
     m\<lparr>segmentHasChanges := False,
       partsImpl := map_parts part_clearChangedFlags (filter (\<lambda>(i, w). \<not> pw_deleted w) (partsImpl m))\<rparr>"

definition segment_checkNoChanges :: "IngestSegmentModel \<Rightarrow> bool" where
  "segment_checkNoChanges m =
     (\<not> segmentHasChanges m
      \<and> list_all (\<lambda>(i, w). \<not> pw_deleted w \<and> part_checkNoChanges (partModel w)) (partsImpl m))"

definition segment_parts :: "IngestSegmentModel \<Rightarrow> IngestPartModel list" where
  "segment_parts m = map (partModel \<circ> snd) (filter (\<lambda>(i, w). \<not> pw_deleted w) (partsImpl m))"

definition merge_previous_part ::
  "PartId \<times> PartWrapper \<Rightarrow> (PartId, PartWrapper) js_map \<Rightarrow> (PartId, PartWrapper) js_map" where
  "merge_previous_part e ps =
     (case e of (partId, oldPart) \<Rightarrow>
        (case map_get ps partId of
           Some newPart \<Rightarrow>
             map_set partId (newPart\<lparr>partModel :=
               compareToPreviousModel (partModel oldPart) (partModel newPart)\<rparr>) ps
         | None \<Rightarrow> map_set partId \<lparr>partModel = partModel oldPart, pw_deleted = True\<rparr> ps))"

definition new_segment_model ::
  "bool \<Rightarrow> DBSegment \<Rightarrow> IngestPartModel list \<Rightarrow> IngestSegmentModel option \<Rightarrow> IngestSegmentModel" where
  "new_segment_model isBeingCreated segment currentParts previousSegment =
     (let sorted = sort_key (part_rank \<circ> partImpl) currentParts;
          ps = fold (\<lambda>m. map_set (part_id (partImpl m)) \<lparr>partModel = m, pw_deleted = False\<rparr>) sorted []
      in case previousSegment of
           None \<Rightarrow> \<lparr>segmentImpl = segment, partsImpl = ps, segmentHasChanges = isBeingCreated\<rparr>
         | Some prev \<Rightarrow>
             \<lparr>segmentImpl = segment, partsImpl = fold merge_previous_part (partsImpl prev) ps,
              segmentHasChanges = (isBeingCreated \<or> segmentHasChanges prev \<or> segment \<noteq> segmentImpl prev)\<rparr>)"

definition segment_setOwnerIds :: "SegmentId \<Rightarrow> IngestSegmentModel \<Rightarrow> IngestSegmentModel" where
  "segment_setOwnerIds i m =
     m\<lparr>segmentImpl := (segmentImpl m)\<lparr>seg_id := i\<rparr>,
       partsImpl := map_parts (part_setOwnerIds (seg_rundownId (segmentImpl m)) i) (partsImpl m)\<rparr>"

definition getPart :: "PartId \<Rightarrow> IngestSegmentModel \<Rightarrow> IngestPartModel option" where
  "getPart i m = (case map_get (partsImpl m) i of
     Some w \<Rightarrow> if pw_deleted w then None else Some (partModel w) | None \<Rightarrow> None)"

definition getPartIds :: "IngestSegmentModel \<Rightarrow> PartId list" where
  "getPartIds m = map (part_id \<circ> partImpl) (segment_parts m)"

definition setRank :: "rank \<Rightarrow> IngestSegmentModel \<Rightarrow> bool \<times> IngestSegmentModel" where
  "setRank rank = compareAndSetSegmentValue seg_rank seg_rank_update rank"

definition setOrphaned :: "SegmentOrphanedReason option \<Rightarrow> IngestSegmentModel \<Rightarrow> IngestSegmentModel" where
  "setOrphaned orphaned m = snd (compareAndSetSegmentValue seg_orphaned seg_orphaned_update orphaned m)"

definition setHidden :: "bool \<Rightarrow> IngestSegmentModel \<Rightarrow> IngestSegmentModel" where
  "setHidden hidden m = snd (compareAndSetSegmentValue isHidden isHidden_update hidden m)"

definition removeAllParts :: "IngestSegmentModel \<Rightarrow> PartId list \<times> IngestSegmentModel" where
  "removeAllParts m =
     (getPartIds m, m\<lparr>partsImpl := map (\<lambda>(i, w). (i, w\<lparr>pw_deleted := True\<rparr>)) (partsImpl m)\<rparr>)"

definition replacePart ::
  "(string \<Rightarrow> string) \<Rightarrow> IngestPartDoc \<Rightarrow> IngestPieceDoc list \<Rightarrow> OwnedDoc list \<Rightarrow> OwnedDoc list
   \<Rightarrow> IngestSegmentModel \<Rightarrow> ingest_error + (IngestPartModel \<times> IngestSegmentModel)" where
  "replacePart getHash rawPart pieces adLibPieces adLibActions m =
     (case getPartId getHash (seg_rundownId (segmentImpl m)) (part_externalId rawPart) of
        Inl e \<Rightarrow> Inl e
      | Inr partId \<Rightarrow>
          let part = rawPart\<lparr>part_id := partId,
                part_rundownId := seg_rundownId (segmentImpl m),
                part_segmentId := seg_id (segmentImpl m),
                expectedDurationWithTransition :=
                  calculatePartExpectedDurationWithTransition (DBPart.truncate rawPart)
                    (map PieceInstancePiece.truncate pieces)\<rparr>;
              oldPart = map_get (partsImpl m) partId;
              newPart = new_part_model (oldPart = None) part pieces adLibPieces adLibActions [] [] [];
              newPart = part_setOwnerIds (seg_rundownId (segmentImpl m)) (seg_id (segmentImpl m)) newPart;
              newPart = (case oldPart of None \<Rightarrow> newPart
                | Some old \<Rightarrow> compareToPreviousModel (partModel old) newPart)
          in Inr (newPart, m\<lparr>partsImpl :=
               map_set partId \<lparr>partModel = newPart, pw_deleted = False\<rparr> (partsImpl m)\<rparr>))"

section \<open>The rundown\<close>

record SegmentWrapper =
  segmentModel :: IngestSegmentModel
  sw_deleted :: bool

datatype RundownOrphanedReason = RundownDeleted | RundownManual

text \<open>Of the document of the rundown, when there is one yet; what blueprints are given of it is its body.\<close>

record IngestRundownDoc =
  ird_orphaned :: "RundownOrphanedReason option"
  ird_airStatus :: "string option"
  ird_status :: "string option"
  ird_body :: json

record IngestModel =
  im_rundownId :: RundownId
  im_rundown :: "IngestRundownDoc option"
  isLocked :: bool
  disposed :: bool
  segmentsImpl :: "(SegmentId, SegmentWrapper) js_map"
  rundownBaselineExpectedPackagesStore :: ExpectedPackagesStore

definition ingest_getRundown :: "IngestModel \<Rightarrow> ingest_error + IngestRundownDoc" where
  "ingest_getRundown m = (case im_rundown m of None \<Rightarrow> Inl RundownDocNotFound | Some r \<Rightarrow> Inr r)"

definition getSegment :: "SegmentId \<Rightarrow> IngestModel \<Rightarrow> IngestSegmentModel option" where
  "getSegment i m = (case map_get (segmentsImpl m) i of
     Some w \<Rightarrow> if sw_deleted w then None else Some (segmentModel w) | None \<Rightarrow> None)"

definition getSegmentByExternalId ::
  "(string \<Rightarrow> string) \<Rightarrow> string \<Rightarrow> IngestModel \<Rightarrow> ingest_error + IngestSegmentModel option" where
  "getSegmentByExternalId getHash externalId m =
     (case getSegmentId getHash (im_rundownId m) externalId of
        Inl e \<Rightarrow> Inl e | Inr i \<Rightarrow> Inr (getSegment i m))"

definition getAllSegments :: "IngestModel \<Rightarrow> IngestSegmentModel list" where
  "getAllSegments m = map (segmentModel \<circ> snd) (filter (\<lambda>(i, w). \<not> sw_deleted w) (segmentsImpl m))"

definition getOrderedSegments :: "IngestModel \<Rightarrow> IngestSegmentModel list" where
  "getOrderedSegments m = sort_key (seg_rank \<circ> segmentImpl) (getAllSegments m)"

definition getAllOrderedParts :: "IngestModel \<Rightarrow> IngestPartModel list" where
  "getAllOrderedParts m = concat (map segment_parts (getOrderedSegments m))"

definition getAllPieces :: "IngestModel \<Rightarrow> IngestPieceDoc list" where
  "getAllPieces m = concat (map (ds_docs \<circ> pm_pieces) (getAllOrderedParts m))"

definition findPart :: "PartId \<Rightarrow> IngestModel \<Rightarrow> IngestPartModel option" where
  "findPart i m = (case find (\<lambda>s. getPart i s \<noteq> None) (getAllSegments m) of
     None \<Rightarrow> None | Some s \<Rightarrow> getPart i s)"

definition on_segment :: "SegmentId \<Rightarrow> (IngestSegmentModel \<Rightarrow> IngestSegmentModel) \<Rightarrow> IngestModel \<Rightarrow> IngestModel" where
  \<comment> \<open>an operation of a caller on the segment model that \<open>getSegment\<close> returned\<close>
  "on_segment i f m = (case map_get (segmentsImpl m) i of
     Some w \<Rightarrow> if sw_deleted w then m
               else m\<lparr>segmentsImpl := map_set i (w\<lparr>segmentModel := f (segmentModel w)\<rparr>) (segmentsImpl m)\<rparr>
   | None \<Rightarrow> m)"

definition removeSegment :: "SegmentId \<Rightarrow> IngestModel \<Rightarrow> IngestModel" where
  "removeSegment i m = (case map_get (segmentsImpl m) i of
     Some w \<Rightarrow> m\<lparr>segmentsImpl := map_set i (w\<lparr>sw_deleted := True\<rparr>) (segmentsImpl m)\<rparr> | None \<Rightarrow> m)"

definition replaceSegment ::
  "(string \<Rightarrow> string) \<Rightarrow> DBSegment \<Rightarrow> IngestModel \<Rightarrow> ingest_error + (SegmentId \<times> IngestModel)" where
  "replaceSegment getHash rawSegment m =
     (case getSegmentId getHash (im_rundownId m) (seg_externalId rawSegment) of
        Inl e \<Rightarrow> Inl e
      | Inr i \<Rightarrow>
          let segment = rawSegment\<lparr>seg_id := i, seg_rundownId := im_rundownId m\<rparr>;
              oldSegment = map_get (segmentsImpl m) i;
              newSegment = new_segment_model True segment [] (map_option segmentModel oldSegment)
          in Inr (i, m\<lparr>segmentsImpl :=
               map_set i \<lparr>segmentModel = newSegment, sw_deleted = False\<rparr> (segmentsImpl m)\<rparr>))"

definition changeSegmentId :: "SegmentId \<Rightarrow> SegmentId \<Rightarrow> IngestModel \<Rightarrow> ingest_error + (bool \<times> IngestModel)" where
  "changeSegmentId oldId newId m =
     (case map_get (segmentsImpl m) oldId of
        None \<Rightarrow> Inr (False, m)
      | Some existingSegment \<Rightarrow>
          if sw_deleted existingSegment then Inr (False, m)
          else if getSegment newId m \<noteq> None then Inl (SegmentIdInUse newId)
          else Inr (True, m\<lparr>segmentsImpl :=
                 map_set newId (existingSegment\<lparr>segmentModel :=
                     segment_setOwnerIds newId (segmentModel existingSegment)\<rparr>)
                   (map_set oldId
                     \<lparr>segmentModel = new_segment_model False (segmentImpl (segmentModel existingSegment)) [] None,
                      sw_deleted = True\<rparr> (segmentsImpl m))\<rparr>))"

section \<open>Saving\<close>

record SaveIngestModelHelper =
  sh_expectedPackages :: "(string, OwnedDoc) DocumentChangeTracker"
  sh_expectedPlayoutItems :: "(string, OwnedDoc) DocumentChangeTracker"
  sh_expectedMediaItems :: "(string, OwnedDoc) DocumentChangeTracker"
  sh_segments :: "(string, DBSegment) DocumentChangeTracker"
  sh_parts :: "(string, IngestPartDoc) DocumentChangeTracker"
  sh_pieces :: "(string, IngestPieceDoc) DocumentChangeTracker"
  sh_adLibPieces :: "(string, OwnedDoc) DocumentChangeTracker"
  sh_adLibActions :: "(string, OwnedDoc) DocumentChangeTracker"

definition new_save_helper :: SaveIngestModelHelper where
  "new_save_helper = \<lparr>sh_expectedPackages = empty_tracker, sh_expectedPlayoutItems = empty_tracker,
     sh_expectedMediaItems = empty_tracker, sh_segments = empty_tracker, sh_parts = empty_tracker,
     sh_pieces = empty_tracker, sh_adLibPieces = empty_tracker, sh_adLibActions = empty_tracker\<rparr>"

definition addExpectedPackagesStore ::
  "ExpectedPackagesStore \<Rightarrow> bool \<Rightarrow> SaveIngestModelHelper \<Rightarrow> SaveIngestModelHelper" where
  "addExpectedPackagesStore store deleteAll h =
     h\<lparr>sh_expectedPackages :=
         addChanges od_id (store_changes od_id (expectedPackages store)) deleteAll (sh_expectedPackages h),
       sh_expectedPlayoutItems :=
         addChanges od_id (store_changes od_id (expectedPlayoutItems store)) deleteAll (sh_expectedPlayoutItems h),
       sh_expectedMediaItems :=
         addChanges od_id (store_changes od_id (expectedMediaItems store)) deleteAll (sh_expectedMediaItems h)\<rparr>"

definition save_part :: "bool \<Rightarrow> PartWrapper \<Rightarrow> SaveIngestModelHelper \<Rightarrow> SaveIngestModelHelper" where
  "save_part segmentIsDeleted part h =
     (let partIsDeleted = segmentIsDeleted \<or> pw_deleted part;
          m = partModel part;
          h = h\<lparr>sh_parts :=
            (if partIsDeleted then deleteDocument (part_id (partImpl m)) (sh_parts h)
             else addDocument part_id (partImpl m) (partHasChanges m) (sh_parts h))\<rparr>;
          h = addExpectedPackagesStore (expectedPackagesStore m) partIsDeleted h
      in h\<lparr>sh_pieces := addChanges piece_id (store_changes piece_id (pm_pieces m)) partIsDeleted (sh_pieces h),
           sh_adLibPieces :=
             addChanges od_id (store_changes od_id (pm_adLibPieces m)) partIsDeleted (sh_adLibPieces h),
           sh_adLibActions :=
             addChanges od_id (store_changes od_id (pm_adLibActions m)) partIsDeleted (sh_adLibActions h)\<rparr>)"

definition addSegment :: "IngestSegmentModel \<Rightarrow> bool \<Rightarrow> SaveIngestModelHelper \<Rightarrow> SaveIngestModelHelper" where
  "addSegment segment segmentIsDeleted h =
     (let h = h\<lparr>sh_segments :=
        (if segmentIsDeleted then deleteDocument (seg_id (segmentImpl segment)) (sh_segments h)
         else addDocument seg_id (segmentImpl segment) (segmentHasChanges segment) (sh_segments h))\<rparr>
      in fold (\<lambda>(i, part). save_part segmentIsDeleted part) (partsImpl segment) h)"

record SavedOps =
  ops_expectedPackages :: "(string, OwnedDoc) write_op list"
  ops_expectedPlayoutItems :: "(string, OwnedDoc) write_op list"
  ops_expectedMediaItems :: "(string, OwnedDoc) write_op list"
  ops_segments :: "(string, DBSegment) write_op list"
  ops_parts :: "(string, IngestPartDoc) write_op list"
  ops_pieces :: "(string, IngestPieceDoc) write_op list"
  ops_adLibPieces :: "(string, OwnedDoc) write_op list"
  ops_adLibActions :: "(string, OwnedDoc) write_op list"

definition save_commit :: "SaveIngestModelHelper \<Rightarrow> SavedOps" where
  "save_commit h = \<lparr>ops_expectedPackages = generateWriteOps (sh_expectedPackages h),
     ops_expectedPlayoutItems = generateWriteOps (sh_expectedPlayoutItems h),
     ops_expectedMediaItems = generateWriteOps (sh_expectedMediaItems h),
     ops_segments = generateWriteOps (sh_segments h), ops_parts = generateWriteOps (sh_parts h),
     ops_pieces = generateWriteOps (sh_pieces h), ops_adLibPieces = generateWriteOps (sh_adLibPieces h),
     ops_adLibActions = generateWriteOps (sh_adLibActions h)\<rparr>"

fun first_duplicate :: "'a js_set \<Rightarrow> 'a list \<Rightarrow> 'a option" where
  "first_duplicate seen [] = None"
| "first_duplicate seen (i # ids) = (if i \<in> set seen then Some i else first_duplicate (set_add i seen) ids)"

definition saveAllToDatabase :: "IngestModel \<Rightarrow> ingest_error + (SavedOps \<times> IngestModel)" where
  "saveAllToDatabase m =
     (if disposed m then Inl ModelDisposed
      else if \<not> isLocked m then Inl RundownLockReleased
      else case first_duplicate [] (map (part_id \<circ> partImpl) (getAllOrderedParts m)) of
        Some i \<Rightarrow> Inl (DuplicatePartId i)
      | None \<Rightarrow>
          let h = fold (\<lambda>(i, w). addSegment (segmentModel w) (sw_deleted w)) (segmentsImpl m) new_save_helper;
              h = addExpectedPackagesStore (rundownBaselineExpectedPackagesStore m) False h
          in Inr (save_commit h, m\<lparr>
               segmentsImpl := map (\<lambda>(i, w). (i, w\<lparr>segmentModel := segment_clearChangedFlags (segmentModel w)\<rparr>))
                 (filter (\<lambda>(i, w). \<not> sw_deleted w) (segmentsImpl m)),
               rundownBaselineExpectedPackagesStore :=
                 expected_clear (rundownBaselineExpectedPackagesStore m)\<rparr>))"

end
