(* ===== verification/Ingest_Model_Facts.thy ===== *)
theory Ingest_Model_Facts
  imports Ingest_Model
begin

text \<open>
  Saving an ingest model: the segments and parts of the database after \<open>saveAllToDatabase\<close> are those of
  the model, whatever operations ran since the model was in step with the database, renames of a
  segment excepted.
\<close>

section \<open>Applying write operations to a collection\<close>

text \<open>A collection by id, and what MongoDB documents of \<open>replaceOne\<close> with \<open>upsert\<close> and of \<open>deleteMany\<close>.\<close>

fun apply_write_op :: "('i, 'd) write_op \<Rightarrow> ('i \<Rightarrow> 'd option) \<Rightarrow> 'i \<Rightarrow> 'd option" where
  "apply_write_op (ReplaceOne i d) db = db(i \<mapsto> d)"
| "apply_write_op (DeleteMany ids) db = (\<lambda>i. if i \<in> set ids then None else db i)"

definition apply_write_ops :: "('i, 'd) write_op list \<Rightarrow> ('i \<Rightarrow> 'd option) \<Rightarrow> 'i \<Rightarrow> 'd option" where
  "apply_write_ops ops db = fold apply_write_op ops db"

lemma apply_replace_ops:
  "fold apply_write_op (map (\<lambda>(i, d). ReplaceOne i d) m) db i =
     (case map_of (rev m) i of Some d \<Rightarrow> Some d | None \<Rightarrow> db i)"
  by (induction m arbitrary: db) (auto split: option.splits simp: map_add_def)

lemma apply_generateWriteOps:
  assumes "tracks did t L M S"
  shows "apply_write_ops (generateWriteOps t) db i =
    (if i \<in> M - L then None else case saved_last did S i of Some d \<Rightarrow> Some d | None \<Rightarrow> db i)"
proof -
  have "map_wf (documentsToSave t)" "map_of (documentsToSave t) = saved_last did S"
    "set (deletedIds t) = M - L"
    using assms by (auto simp: tracks_def)
  then show ?thesis
    by (cases "deletedIds t") (auto simp: apply_write_ops_def generateWriteOps_def apply_replace_ops map_of_rev_wf)
qed

text \<open>A live document is saved or already there; an id that is not live is marked or unknown.\<close>

lemma apply_ops_live:
  assumes "tracks did t L M S"
    and "i \<in> L \<Longrightarrow> live i \<noteq> None"
    and "\<And>d. live i = Some d \<Longrightarrow> i \<in> L \<and> (if d \<in> set S then True else db i = Some d)"
    and "\<And>d. d \<in> set S \<Longrightarrow> did d = i \<Longrightarrow> live i = Some d"
    and "db i \<noteq> None \<Longrightarrow> i \<in> L \<union> M"
    and "\<And>d. live i = Some d \<Longrightarrow> did d = i"
  shows "apply_write_ops (generateWriteOps t) db i = live i"
proof (cases "live i")
  case None
  then have notL: "i \<notin> L" and S: "\<And>d. d \<in> set S \<Longrightarrow> did d \<noteq> i" using assms(2,4) by auto
  then have "saved_last did S i = None" by (auto simp: saved_last_def find_None_set)
  then show ?thesis
    using None notL assms(5) apply_generateWriteOps [OF assms(1), of db i] by (cases "db i") auto
next
  case (Some d)
  then have L: "i \<in> L" and id: "did d = i" using assms(3,6) by auto
  have "(case saved_last did S i of Some d' \<Rightarrow> Some d' | None \<Rightarrow> db i) = Some d"
  proof (cases "saved_last did S i")
    case None
    then have "d \<notin> set S" using id by (auto simp: saved_last_def find_None_set)
    with None assms(3) [OF Some] show ?thesis by auto
  next
    case (Some d')
    then have "d' \<in> set S" "did d' = i"
      using find_Some_set [of "\<lambda>d. did d = i" "rev S" d'] by (auto simp: saved_last_def)
    with assms(4) have "live i = Some d'" by blast
    with \<open>live i = Some d\<close> Some show ?thesis by simp
  qed
  with L Some show ?thesis using apply_generateWriteOps [OF assms(1), of db i] by simp
qed

section \<open>In step with the database\<close>

definition part_ok :: "(PartId \<Rightarrow> IngestPartDoc option) \<Rightarrow> PartId \<Rightarrow> IngestPartModel \<Rightarrow> bool" where
  "part_ok P i m = (part_id (partImpl m) = i \<and> (\<not> partHasChanges m \<longrightarrow> P i = Some (partImpl m)))"

definition segment_ok :: "(PartId \<Rightarrow> IngestPartDoc option) \<Rightarrow> IngestSegmentModel \<Rightarrow> bool" where
  "segment_ok P s = (map_wf (partsImpl s) \<and> (\<forall>(i, w)\<in>set (partsImpl s). part_ok P i (partModel w)))"

abbreviation part_keys :: "IngestSegmentModel \<Rightarrow> PartId set" where
  "part_keys s \<equiv> fst ` set (partsImpl s)"

definition wrapper_ok ::
  "(SegmentId \<Rightarrow> DBSegment option) \<Rightarrow> (PartId \<Rightarrow> IngestPartDoc option) \<Rightarrow> SegmentId \<Rightarrow> SegmentWrapper \<Rightarrow> bool" where
  "wrapper_ok S P i w =
     (seg_id (segmentImpl (segmentModel w)) = i \<and> segment_ok P (segmentModel w)
      \<and> (\<not> sw_deleted w \<and> \<not> segmentHasChanges (segmentModel w) \<longrightarrow> S i = Some (segmentImpl (segmentModel w))))"

definition all_part_keys :: "(SegmentId, SegmentWrapper) js_map \<Rightarrow> PartId set" where
  "all_part_keys ws = (\<Union>(i, w)\<in>set ws. part_keys (segmentModel w))"

definition in_sync ::
  "IngestModel \<Rightarrow> (SegmentId \<Rightarrow> DBSegment option) \<Rightarrow> (PartId \<Rightarrow> IngestPartDoc option) \<Rightarrow> bool" where
  "in_sync m S P =
     (map_wf (segmentsImpl m) \<and> (\<forall>(i, w)\<in>set (segmentsImpl m). wrapper_ok S P i w)
      \<and> dom S \<subseteq> fst ` set (segmentsImpl m) \<and> dom P \<subseteq> all_part_keys (segmentsImpl m))"

lemma in_syncD:
  assumes "in_sync m S P"
  shows in_sync_wf: "map_wf (segmentsImpl m)"
    and in_sync_wrapper: "(i, w) \<in> set (segmentsImpl m) \<Longrightarrow> wrapper_ok S P i w"
    and in_sync_segments: "S i = Some s \<Longrightarrow> i \<in> fst ` set (segmentsImpl m)"
    and in_sync_parts: "P j = Some p \<Longrightarrow> j \<in> all_part_keys (segmentsImpl m)"
  using assms unfolding in_sync_def dom_def by blast+

lemma all_part_keysI: "(i, w) \<in> set ws \<Longrightarrow> j \<in> part_keys (segmentModel w) \<Longrightarrow> j \<in> all_part_keys ws"
  unfolding all_part_keys_def by blast

text \<open>Replacing or adding one wrapper.\<close>

lemma map_set_entries:
  "map_wf m \<Longrightarrow> set (map_set k v m) = insert (k, v) {e \<in> set m. fst e \<noteq> k}"
proof (induction m)
  case (Cons e m)
  then have "fst e \<notin> fst ` set m" and wf: "map_wf m" by (auto simp: map_wf_def)
  from this(1) have "fst x \<noteq> fst e" if "x \<in> set m" for x using that by (metis image_eqI)
  then have "{x \<in> set m. fst x \<noteq> fst e} = set m" by blast
  with Cons.IH [OF wf] show ?case by (cases e) auto
qed simp

lemma all_part_keys_set:
  assumes "map_wf ws" and "\<And>w'. map_get ws i = Some w' \<Longrightarrow> part_keys (segmentModel w') \<subseteq> part_keys (segmentModel w)"
  shows "all_part_keys ws \<subseteq> all_part_keys (map_set i w ws)"
proof
  fix j
  assume "j \<in> all_part_keys ws"
  then obtain i' w' where w': "(i', w') \<in> set ws" "j \<in> part_keys (segmentModel w')"
    unfolding all_part_keys_def by blast
  show "j \<in> all_part_keys (map_set i w ws)"
  proof (cases "i' = i")
    case True
    then have "map_get ws i = Some w'" using w'(1) assms(1) by (simp add: map_wf_def)
    then have "j \<in> part_keys (segmentModel w)" using assms(2) w'(2) by blast
    moreover have "(i, w) \<in> set (map_set i w ws)" using assms(1) by (simp add: map_set_entries)
    ultimately show ?thesis by (rule all_part_keysI [rotated])
  next
    case False
    then have "(i', w') \<in> set (map_set i w ws)" using w'(1) assms(1) by (simp add: map_set_entries)
    then show ?thesis using w'(2) by (rule all_part_keysI)
  qed
qed

lemma in_sync_set:
  assumes "in_sync m S P" and "wrapper_ok S P i w"
    and "\<And>w'. map_get (segmentsImpl m) i = Some w' \<Longrightarrow> part_keys (segmentModel w') \<subseteq> part_keys (segmentModel w)"
  shows "in_sync (m\<lparr>segmentsImpl := map_set i w (segmentsImpl m)\<rparr>) S P"
proof -
  note wf = in_sync_wf [OF assms(1)]
  have "\<forall>(j, w')\<in>set (map_set i w (segmentsImpl m)). wrapper_ok S P j w'"
    using in_sync_wrapper [OF assms(1)] assms(2) wf by (auto simp: map_set_entries)
  moreover have "dom S \<subseteq> fst ` set (map_set i w (segmentsImpl m))"
    using assms(1) unfolding in_sync_def fst_map_set by blast
  moreover have "dom P \<subseteq> all_part_keys (map_set i w (segmentsImpl m))"
    using assms(1) all_part_keys_set [of "segmentsImpl m" i w, OF wf assms(3)] unfolding in_sync_def by blast
  ultimately show ?thesis
    using wf by (simp add: in_sync_def)
qed

section \<open>Operations on the model of a segment\<close>

text \<open>
  The contract of an operation on a segment model: the parts stay in step, no part is forgotten, and a
  change of the segment is flagged.
\<close>

locale segment_operation =
  fixes f :: "IngestSegmentModel \<Rightarrow> IngestSegmentModel"
  assumes parts_ok: "segment_ok P s \<Longrightarrow> segment_ok P (f s)"
    and parts_kept: "part_keys s \<subseteq> part_keys (f s)"
    and same_id: "seg_id (segmentImpl (f s)) = seg_id (segmentImpl s)"
    and flagged: "\<not> segmentHasChanges (f s) \<Longrightarrow> \<not> segmentHasChanges s \<and> segmentImpl (f s) = segmentImpl s"
begin

lemma wrapper_ok_operation: "wrapper_ok S P i w \<Longrightarrow> wrapper_ok S P i (w\<lparr>segmentModel := f (segmentModel w)\<rparr>)"
  using parts_ok [of P "segmentModel w"] same_id [of "segmentModel w"] flagged [of "segmentModel w"]
  by (auto simp: wrapper_ok_def)

lemma in_sync_on_segment: "in_sync m S P \<Longrightarrow> in_sync (on_segment i f m) S P"
proof (cases "map_get (segmentsImpl m) i")
  case (Some w)
  assume sync: "in_sync m S P"
  show ?thesis
  proof (cases "sw_deleted w")
    case False
    have "wrapper_ok S P i (w\<lparr>segmentModel := f (segmentModel w)\<rparr>)"
      using in_sync_wrapper [OF sync map_of_SomeD [OF Some]] by (rule wrapper_ok_operation)
    then show ?thesis
      using in_sync_set [OF sync, of i "w\<lparr>segmentModel := f (segmentModel w)\<rparr>"] Some False parts_kept
      by (simp add: on_segment_def)
  qed (use sync Some in \<open>simp add: on_segment_def\<close>)
qed (simp add: on_segment_def)

end

lemma segment_ok_map:
  assumes "segment_ok P s" and "\<And>i w. (i, w) \<in> set (partsImpl s) \<Longrightarrow> part_ok P i (partModel w) \<Longrightarrow> part_ok P i (partModel (g w))"
  shows "segment_ok P (s\<lparr>partsImpl := map (\<lambda>(i, w). (i, g w)) (partsImpl s)\<rparr>)"
  using assms by (fastforce simp: segment_ok_def map_wf_def comp_def case_prod_beta)

lemma part_ok_set: "part_ok P i m \<Longrightarrow> segment_ok P s \<Longrightarrow>
  segment_ok P (s\<lparr>partsImpl := map_set i \<lparr>partModel = m, pw_deleted = b\<rparr> (partsImpl s)\<rparr>)"
  by (auto simp: segment_ok_def map_set_entries)

interpretation rank_op: segment_operation "\<lambda>s. snd (setRank r s)"
  by unfold_locales (auto simp: setRank_def compareAndSetSegmentValue_def segment_ok_def split: if_splits)

interpretation orphaned_op: segment_operation "setOrphaned r"
  by unfold_locales (auto simp: setOrphaned_def compareAndSetSegmentValue_def segment_ok_def split: if_splits)

interpretation hidden_op: segment_operation "setHidden r"
  by unfold_locales (auto simp: setHidden_def compareAndSetSegmentValue_def segment_ok_def split: if_splits)

interpretation removeAllParts_op: segment_operation "\<lambda>s. snd (removeAllParts s)"
proof unfold_locales
  show "segment_ok P s \<Longrightarrow> segment_ok P (snd (removeAllParts s))" for P s
    using segment_ok_map [of P s "pw_deleted_update (\<lambda>_. True)"] by (simp add: removeAllParts_def)
qed (force simp: removeAllParts_def)+

text \<open>Operations on the model of a part, called on what \<open>getPart\<close> returned.\<close>

definition on_part :: "PartId \<Rightarrow> (IngestPartModel \<Rightarrow> IngestPartModel) \<Rightarrow> IngestSegmentModel \<Rightarrow> IngestSegmentModel" where
  "on_part i f s = (case map_get (partsImpl s) i of
     Some w \<Rightarrow> if pw_deleted w then s
               else s\<lparr>partsImpl := map_set i \<lparr>partModel = f (partModel w), pw_deleted = False\<rparr> (partsImpl s)\<rparr>
   | None \<Rightarrow> s)"

locale part_operation =
  fixes f :: "IngestPartModel \<Rightarrow> IngestPartModel"
  assumes part_same_id: "part_id (partImpl (f p)) = part_id (partImpl p)"
    and part_flagged: "\<not> partHasChanges (f p) \<Longrightarrow> \<not> partHasChanges p \<and> partImpl (f p) = partImpl p"
begin

lemma part_ok_operation: "part_ok P i p \<Longrightarrow> part_ok P i (f p)"
  using part_same_id [of p] part_flagged [of p] by (auto simp: part_ok_def)

lemma segment_operation_on_part: "segment_operation (on_part i f)"
proof unfold_locales
  show "segment_ok P (on_part i f s)" if ok: "segment_ok P s" for P s
  proof (cases "map_get (partsImpl s) i")
    case (Some w)
    then have "part_ok P i (partModel w)"
      using ok map_of_SomeD [OF Some] by (auto simp: segment_ok_def)
    then show ?thesis
      using part_ok_set [OF part_ok_operation ok] Some ok by (simp add: on_part_def)
  qed (use ok in \<open>simp add: on_part_def\<close>)
qed (auto simp: on_part_def fst_map_set split: option.splits if_splits)

end

sublocale part_operation \<subseteq> on_part_op: segment_operation "on_part i f"
  by (rule segment_operation_on_part)

lemma owner_ids_flag:
  "part_id (partImpl (part_setOwnerIds r s p)) = part_id (partImpl p)"
  "\<not> partHasChanges (part_setOwnerIds r s p) \<Longrightarrow>
     \<not> partHasChanges p \<and> partImpl (part_setOwnerIds r s p) = partImpl p"
  by (auto simp: part_setOwnerIds_def compareAndSetPartValue_def Let_def split: if_splits)

interpretation invalid_op: part_operation "setInvalid b"
  by unfold_locales (auto simp: setInvalid_def compareAndSetPartValue_def split: if_splits)

interpretation owner_op: part_operation "part_setOwnerIds r s"
  by unfold_locales (use owner_ids_flag in blast)+

definition on_expected :: "(ExpectedPackagesStore \<Rightarrow> ExpectedPackagesStore) \<Rightarrow> IngestPartModel \<Rightarrow> IngestPartModel" where
  \<comment> \<open>\<open>setExpectedPlayoutItems\<close> and the like, which a part model passes to its store\<close>
  "on_expected f p = p\<lparr>expectedPackagesStore := f (expectedPackagesStore p)\<rparr>"

interpretation expected_op: part_operation "on_expected f"
  by unfold_locales (auto simp: on_expected_def)

text \<open>Replacing a part.\<close>

lemma compare_previous_part_ok:
  "part_ok P i old \<Longrightarrow> part_id (partImpl p) = i \<Longrightarrow> part_ok P i (compareToPreviousModel old p)"
  by (auto simp: part_ok_def compareToPreviousModel_def)

definition replacePart_or_same ::
  "(string \<Rightarrow> string) \<Rightarrow> IngestPartDoc \<Rightarrow> IngestPieceDoc list \<Rightarrow> OwnedDoc list \<Rightarrow> OwnedDoc list
   \<Rightarrow> IngestSegmentModel \<Rightarrow> IngestSegmentModel" where
  \<comment> \<open>a call that fails changes nothing\<close>
  "replacePart_or_same h raw ps al aa s = (case replacePart h raw ps al aa s of Inl e \<Rightarrow> s | Inr r \<Rightarrow> snd r)"

interpretation replacePart_op: segment_operation "replacePart_or_same h raw ps al aa"
proof unfold_locales
  show "segment_ok P (replacePart_or_same h raw ps al aa s)" if ok: "segment_ok P s" for P s
  proof (cases "getPartId h (seg_rundownId (segmentImpl s)) (part_externalId raw)")
    case (Inl e)
    with ok show ?thesis by (simp add: replacePart_or_same_def replacePart_def)
  next
    case (Inr i)
    define part where "part = raw\<lparr>part_id := i, part_rundownId := seg_rundownId (segmentImpl s),
        part_segmentId := seg_id (segmentImpl s),
        expectedDurationWithTransition := calculatePartExpectedDurationWithTransition (DBPart.truncate raw)
          (map PieceInstancePiece.truncate ps)\<rparr>"
    define old where "old = map_get (partsImpl s) i"
    define p where "p = part_setOwnerIds (seg_rundownId (segmentImpl s)) (seg_id (segmentImpl s))
        (new_part_model (old = None) part ps al aa [] [] [])"
    define p' where "p' = (case old of None \<Rightarrow> p | Some o' \<Rightarrow> compareToPreviousModel (partModel o') p)"
    have "part_id (partImpl p) = i"
      by (simp add: p_def owner_ids_flag new_part_model_def part_def)
    moreover have "partHasChanges p" if "old = None"
      using owner_ids_flag(2) [of "seg_rundownId (segmentImpl s)" "seg_id (segmentImpl s)"
          "new_part_model True part ps al aa [] [] []"] that
      by (auto simp: p_def new_part_model_def)
    moreover have "part_ok P i (partModel o')" if "old = Some o'" for o'
      using ok that map_of_SomeD [of "partsImpl s" i o'] by (auto simp: segment_ok_def old_def)
    ultimately have "part_ok P i p'"
      by (cases old) (auto simp: p'_def part_ok_def [of P i p] intro: compare_previous_part_ok)
    moreover have "replacePart_or_same h raw ps al aa s =
        s\<lparr>partsImpl := map_set i \<lparr>partModel = p', pw_deleted = False\<rparr> (partsImpl s)\<rparr>"
      using Inr unfolding p'_def p_def part_def old_def
      by (simp add: replacePart_or_same_def replacePart_def Let_def)
    ultimately show ?thesis using part_ok_set [OF _ ok] by simp
  qed
qed (auto simp: replacePart_or_same_def replacePart_def Let_def fst_map_set split: sum.splits)

section \<open>Operations on the rundown\<close>

lemma in_sync_removeSegment:
  assumes "in_sync m S P"
  shows "in_sync (removeSegment i m) S P"
proof (cases "map_get (segmentsImpl m) i")
  case (Some w)
  have "wrapper_ok S P i (w\<lparr>sw_deleted := True\<rparr>)"
    using in_sync_wrapper [OF assms map_of_SomeD [OF Some]] by (simp add: wrapper_ok_def)
  then show ?thesis
    using in_sync_set [OF assms, of i "w\<lparr>sw_deleted := True\<rparr>"] Some by (simp add: removeSegment_def)
qed (use assms in \<open>simp add: removeSegment_def\<close>)

text \<open>A segment model without parts takes over the parts of the previous one, as deleted.\<close>

lemma merge_previous_parts:
  "distinct (map fst (ps @ acc)) \<Longrightarrow>
   fold merge_previous_part ps acc =
     acc @ map (\<lambda>(i, w). (i, \<lparr>partModel = partModel w, pw_deleted = True\<rparr>)) ps"
proof (induction ps arbitrary: acc)
  case (Cons e ps)
  obtain i w where e: "e = (i, w)" by (cases e)
  with Cons.prems have new: "i \<notin> fst ` set acc" by auto
  then have "map_set i v acc = acc @ [(i, v)]" for v
    by (induction acc) auto
  moreover have "map_get acc i = None" using new by (simp add: map_of_eq_None_iff)
  ultimately show ?case using Cons e by (simp add: merge_previous_part_def)
qed simp

lemma new_segment_model_ok:
  assumes "\<And>s. prev = Some s \<Longrightarrow> segment_ok P s"
  shows "segment_ok P (new_segment_model b seg [] prev)
    \<and> (\<forall>s. prev = Some s \<longrightarrow> part_keys s = part_keys (new_segment_model b seg [] prev))
    \<and> segmentImpl (new_segment_model b seg [] prev) = seg
    \<and> (b \<longrightarrow> segmentHasChanges (new_segment_model b seg [] prev))"
proof (cases prev)
  case None
  then show ?thesis by (simp add: new_segment_model_def segment_ok_def)
next
  case (Some s)
  then have "segment_ok P s" using assms by blast
  moreover from this have "fold merge_previous_part (partsImpl s) [] =
      map (\<lambda>(i, w). (i, \<lparr>partModel = partModel w, pw_deleted = True\<rparr>)) (partsImpl s)"
    using merge_previous_parts [of "partsImpl s" "[]"] by (simp add: segment_ok_def map_wf_def)
  ultimately show ?thesis
    using Some segment_ok_map [of P s "\<lambda>w. \<lparr>partModel = partModel w, pw_deleted = True\<rparr>"]
    by (simp add: new_segment_model_def segment_ok_def image_image case_prod_beta comp_def)
qed

lemma in_sync_replaceSegment:
  assumes "in_sync m S P" and "replaceSegment h raw m = Inr (i, m')"
  shows "in_sync m' S P"
proof -
  define old where "old = map_get (segmentsImpl m) i"
  define seg where "seg = raw\<lparr>seg_id := i, seg_rundownId := im_rundownId m\<rparr>"
  define s where "s = new_segment_model True seg [] (map_option segmentModel old)"
  have m': "m' = m\<lparr>segmentsImpl := map_set i \<lparr>segmentModel = s, sw_deleted = False\<rparr> (segmentsImpl m)\<rparr>"
    using assms(2) by (auto simp: replaceSegment_def Let_def s_def seg_def old_def split: sum.splits)
  have "segment_ok P (segmentModel w)" if "old = Some w" for w
    using in_sync_wrapper [OF assms(1) map_of_SomeD] that by (auto simp: old_def wrapper_ok_def)
  then have ok: "segment_ok P s \<and> (\<forall>s'. map_option segmentModel old = Some s' \<longrightarrow> part_keys s' = part_keys s)
      \<and> segmentImpl s = seg \<and> (True \<longrightarrow> segmentHasChanges s)"
    unfolding s_def by (intro new_segment_model_ok) auto
  show ?thesis
    unfolding m'
  proof (rule in_sync_set [OF assms(1)])
    show "wrapper_ok S P i \<lparr>segmentModel = s, sw_deleted = False\<rparr>"
      using ok by (simp add: wrapper_ok_def seg_def)
    show "part_keys (segmentModel w') \<subseteq> part_keys (segmentModel \<lparr>segmentModel = s, sw_deleted = False\<rparr>)"
      if "map_get (segmentsImpl m) i = Some w'" for w'
      using ok that by (simp add: old_def)
  qed
qed

inductive ingest_step :: "(string \<Rightarrow> string) \<Rightarrow> IngestModel \<Rightarrow> IngestModel \<Rightarrow> bool" for h where
  step_rank: "ingest_step h m (on_segment i (\<lambda>s. snd (setRank r s)) m)"
| step_orphaned: "ingest_step h m (on_segment i (setOrphaned orph) m)"
| step_hidden: "ingest_step h m (on_segment i (setHidden b) m)"
| step_removeAllParts: "ingest_step h m (on_segment i (\<lambda>s. snd (removeAllParts s)) m)"
| step_replacePart: "ingest_step h m (on_segment i (replacePart_or_same h raw ps al aa) m)"
| step_invalid: "ingest_step h m (on_segment i (on_part j (setInvalid b)) m)"
| step_expected: "ingest_step h m (on_segment i (on_part j (on_expected f)) m)"
| step_removeSegment: "ingest_step h m (removeSegment i m)"
| step_replaceSegment: "replaceSegment h raw m = Inr (i, m') \<Longrightarrow> ingest_step h m m'"

lemmas in_sync_operations =
  rank_op.in_sync_on_segment orphaned_op.in_sync_on_segment hidden_op.in_sync_on_segment
  removeAllParts_op.in_sync_on_segment replacePart_op.in_sync_on_segment
  invalid_op.on_part_op.in_sync_on_segment expected_op.on_part_op.in_sync_on_segment
  in_sync_removeSegment in_sync_replaceSegment

lemma in_sync_step: "ingest_step h m m' \<Longrightarrow> in_sync m S P \<Longrightarrow> in_sync m' S P"
  by (induction rule: ingest_step.induct) (simp_all add: in_sync_operations)

lemma in_sync_steps: "(ingest_step h)\<^sup>*\<^sup>* m m' \<Longrightarrow> in_sync m S P \<Longrightarrow> in_sync m' S P"
  by (induction rule: rtranclp_induct) (auto intro: in_sync_step)

section \<open>What is written\<close>

fun seg_call :: "SegmentId \<times> SegmentWrapper \<Rightarrow> (string, DBSegment) tracker_call" where
  "seg_call (i, w) = (if sw_deleted w then DeleteDocument (seg_id (segmentImpl (segmentModel w)))
     else AddDocument (segmentImpl (segmentModel w)) (segmentHasChanges (segmentModel w)))"

fun part_call :: "bool \<Rightarrow> PartId \<times> PartWrapper \<Rightarrow> (string, IngestPartDoc) tracker_call" where
  "part_call d (i, w) = (if d \<or> pw_deleted w then DeleteDocument (part_id (partImpl (partModel w)))
     else AddDocument (partImpl (partModel w)) (partHasChanges (partModel w)))"

definition part_calls :: "SegmentId \<times> SegmentWrapper \<Rightarrow> (string, IngestPartDoc) tracker_call list" where
  "part_calls e = map (part_call (sw_deleted (snd e))) (partsImpl (segmentModel (snd e)))"

lemma save_part_trackers:
  "sh_segments (save_part d w h) = sh_segments h"
  "sh_parts (save_part d w h) = run_call part_id (part_call d (i, w)) (sh_parts h)"
  by (simp_all add: save_part_def addExpectedPackagesStore_def Let_def)

lemma save_parts_trackers:
  "sh_segments (fold (\<lambda>(i, part). save_part d part) ps h) = sh_segments h"
  "sh_parts (fold (\<lambda>(i, part). save_part d part) ps h) = fold (run_call part_id) (map (part_call d) ps) (sh_parts h)"
  by (induction ps arbitrary: h) (auto simp: save_part_trackers(1) simp del: part_call.simps simp flip: save_part_trackers(2))

lemma addSegment_trackers:
  "sh_segments (addSegment (segmentModel w) (sw_deleted w) h) = run_call seg_id (seg_call (i, w)) (sh_segments h)"
  "sh_parts (addSegment (segmentModel w) (sw_deleted w) h) =
     fold (run_call part_id) (part_calls (i, w)) (sh_parts h)"
  by (simp_all add: addSegment_def Let_def save_parts_trackers part_calls_def)

lemma addSegments_trackers:
  "sh_segments (fold (\<lambda>(i, w). addSegment (segmentModel w) (sw_deleted w)) ws h) =
     fold (run_call seg_id) (map seg_call ws) (sh_segments h)"
  "sh_parts (fold (\<lambda>(i, w). addSegment (segmentModel w) (sw_deleted w)) ws h) =
     fold (run_call part_id) (concat (map part_calls ws)) (sh_parts h)"
  by (induction ws arbitrary: h) (auto simp del: seg_call.simps simp flip: addSegment_trackers)

lemma saved_ops:
  assumes "saveAllToDatabase m = Inr (ops, m')"
  shows "ops_segments ops = generateWriteOps (run_calls seg_id (map seg_call (segmentsImpl m)))"
    and "ops_parts ops = generateWriteOps (run_calls part_id (concat (map part_calls (segmentsImpl m))))"
    and "first_duplicate [] (map (part_id \<circ> partImpl) (getAllOrderedParts m)) = None"
    and "segmentsImpl m' = map (\<lambda>(i, w). (i, w\<lparr>segmentModel := segment_clearChangedFlags (segmentModel w)\<rparr>))
                 (filter (\<lambda>(i, w). \<not> sw_deleted w) (segmentsImpl m))"
  using assms
  by (auto simp: saveAllToDatabase_def Let_def save_commit_def addExpectedPackagesStore_def run_calls_def
      addSegments_trackers new_save_helper_def split: if_splits option.splits)

lemma first_duplicate_None: "first_duplicate seen xs = None \<longleftrightarrow> distinct xs \<and> set seen \<inter> set xs = {}"
  by (induction xs arbitrary: seen) auto

section \<open>The live documents\<close>

lemma getSegment_iff:
  "map_wf (segmentsImpl m) \<Longrightarrow>
   getSegment i m = Some s \<longleftrightarrow> (\<exists>w. (i, w) \<in> set (segmentsImpl m) \<and> \<not> sw_deleted w \<and> segmentModel w = s)"
  unfolding map_wf_def getSegment_def
  by (auto split: option.splits dest: map_of_SomeD) (metis map_of_eq_Some_iff option.inject option.distinct(1))+

lemma getPart_iff:
  "map_wf (partsImpl s) \<Longrightarrow>
   getPart i s = Some p \<longleftrightarrow> (\<exists>w. (i, w) \<in> set (partsImpl s) \<and> \<not> pw_deleted w \<and> partModel w = p)"
  unfolding map_wf_def getPart_def
  by (auto split: option.splits dest: map_of_SomeD) (metis map_of_eq_Some_iff option.inject option.distinct(1))+

lemma set_getAllSegments: "set (getAllSegments m) = {segmentModel w |i w. (i, w) \<in> set (segmentsImpl m) \<and> \<not> sw_deleted w}"
  by (force simp: getAllSegments_def)

lemma set_segment_parts: "set (segment_parts s) = {partModel w |i w. (i, w) \<in> set (partsImpl s) \<and> \<not> pw_deleted w}"
  by (force simp: segment_parts_def)

lemma mset_getAllOrderedParts:
  "mset (getAllOrderedParts m) = mset (concat (map segment_parts (getAllSegments m)))"
proof -
  have "mset (map segment_parts (getOrderedSegments m)) = mset (map segment_parts (getAllSegments m))"
    by (simp add: getOrderedSegments_def)
  then show ?thesis
    unfolding getAllOrderedParts_def mset_concat by (metis mset_map sum_mset_sum_list)
qed

section \<open>Saving\<close>

lemma option_eqI: "(\<And>d. a = Some d \<longleftrightarrow> b = Some d) \<Longrightarrow> a = b"
  by (cases a; cases b) auto

text \<open>Calls of the tracker for documents of which it is known whether they are gone and changed.\<close>

definition entry_call :: "('d \<Rightarrow> 'i) \<Rightarrow> bool \<times> 'd \<times> bool \<Rightarrow> ('i, 'd) tracker_call" where
  "entry_call did e = (case e of (dead, d, changed) \<Rightarrow> if dead then DeleteDocument (did d) else AddDocument d changed)"

definition live_docs :: "(bool \<times> 'd \<times> bool) list \<Rightarrow> 'd list" where
  "live_docs es = map (fst \<circ> snd) (filter (\<lambda>e. \<not> fst e) es)"

lemma set_live_docs: "set (live_docs es) = {d. \<exists>c. (False, d, c) \<in> set es}"
  by (force simp: live_docs_def)

lemma entry_call_effect:
  "call_live did (entry_call did e) = (if fst e then {} else {did (fst (snd e))})"
  "call_marked (entry_call did e) = (if fst e then {did (fst (snd e))} else {})"
  "call_saves (entry_call did e) = (if \<not> fst e \<and> snd (snd e) then [fst (snd e)] else [])"
  by (simp_all add: entry_call_def split: prod.split)

lemma entries_live: "(\<Union>e\<in>set es. if fst e then {} else {did (fst (snd e))}) = did ` set (live_docs es)"
  by (induction es) (auto simp: live_docs_def)

lemma entries_marked: "(\<Union>e\<in>set es. if fst e then {did (fst (snd e))} else {}) = did ` {d. \<exists>c. (True, d, c) \<in> set es}"
  by (force split: if_splits)

lemma entries_saved:
  "set (concat (map call_saves (map (entry_call did) es))) = {d. (False, d, True) \<in> set es}"
  by (force simp: entry_call_effect split: if_splits)

lemma tracks_entries:
  "tracks did (run_calls did (map (entry_call did) es)) (did ` set (live_docs es))
     (did ` {d. \<exists>c. (True, d, c) \<in> set es}) (concat (map call_saves (map (entry_call did) es)))"
  using tracks_run_calls [of did "map (entry_call did) es"]
  by (simp only: list.set_map image_image entry_call_effect entries_live entries_marked)

lemma apply_entries:
  assumes dist: "distinct (map did (live_docs es))"
    and same: "\<And>d. (False, d, False) \<in> set es \<Longrightarrow> db (did d) = Some d"
    and known: "\<And>i. db i \<noteq> None \<Longrightarrow> i \<in> did ` (fst \<circ> snd) ` set es"
  shows "apply_write_ops (generateWriteOps (run_calls did (map (entry_call did) es))) db i =
    map_of (map (\<lambda>d. (did d, d)) (live_docs es)) i"
proof (rule apply_ops_live [OF tracks_entries])
  let ?live = "map_of (map (\<lambda>d. (did d, d)) (live_docs es)) i"
  have live: "?live = Some d \<longleftrightarrow> d \<in> set (live_docs es) \<and> did d = i" for d
    using dist map_of_eq_Some_iff [of "map (\<lambda>d. (did d, d)) (live_docs es)" i d] by (auto simp: comp_def)
  show "?live \<noteq> None" if "i \<in> did ` set (live_docs es)"
    using that by (auto simp: map_of_eq_None_iff image_image)
  show "i \<in> did ` set (live_docs es)
      \<and> (if d \<in> set (concat (map call_saves (map (entry_call did) es))) then True else db i = Some d)"
    if "?live = Some d" for d
  proof -
    from that live have d: "d \<in> set (live_docs es)" "did d = i" by auto
    then obtain c where "(False, d, c) \<in> set es" by (auto simp: set_live_docs)
    with same d show ?thesis
      unfolding entries_saved by (cases c) auto
  qed
  show "?live = Some d" if "d \<in> set (concat (map call_saves (map (entry_call did) es)))" "did d = i" for d
    using that(2) that(1) [unfolded entries_saved] live by (auto simp: set_live_docs)
  show "i \<in> did ` set (live_docs es) \<union> did ` {d. \<exists>c. (True, d, c) \<in> set es}" if "db i \<noteq> None"
  proof -
    from known [OF that] obtain dead d c where "(dead, d, c) \<in> set es" "i = did d" by auto
    then show ?thesis by (cases dead) (auto simp: set_live_docs)
  qed
  show "did d = i" if "?live = Some d" for d using that live by simp
qed

definition seg_entry :: "SegmentId \<times> SegmentWrapper \<Rightarrow> bool \<times> DBSegment \<times> bool" where
  "seg_entry e = (sw_deleted (snd e), segmentImpl (segmentModel (snd e)), segmentHasChanges (segmentModel (snd e)))"

definition part_entries :: "SegmentId \<times> SegmentWrapper \<Rightarrow> (bool \<times> IngestPartDoc \<times> bool) list" where
  "part_entries e = map (\<lambda>(j, w). (sw_deleted (snd e) \<or> pw_deleted w, partImpl (partModel w), partHasChanges (partModel w)))
     (partsImpl (segmentModel (snd e)))"

lemma seg_call_entry: "map seg_call ws = map (entry_call seg_id) (map seg_entry ws)"
  by (auto simp: entry_call_def seg_entry_def)

lemma part_calls_entry: "concat (map part_calls ws) = map (entry_call part_id) (concat (map part_entries ws))"
  by (induction ws) (auto simp: part_calls_def part_entries_def entry_call_def)

lemma live_segments: "live_docs (map seg_entry (segmentsImpl m)) = map segmentImpl (getAllSegments m)"
  by (simp add: live_docs_def getAllSegments_def seg_entry_def filter_map comp_def case_prod_beta')

lemma live_docs_append: "live_docs (xs @ ys) = live_docs xs @ live_docs ys"
  by (simp add: live_docs_def)

lemma live_part_entries:
  "live_docs (part_entries e) = (if sw_deleted (snd e) then [] else map partImpl (segment_parts (segmentModel (snd e))))"
  by (simp add: live_docs_def part_entries_def segment_parts_def filter_map comp_def case_prod_beta')

lemma live_parts:
  "live_docs (concat (map part_entries (segmentsImpl m))) = map partImpl (concat (map segment_parts (getAllSegments m)))"
proof -
  have "live_docs (concat (map part_entries ws)) =
      map partImpl (concat (map segment_parts (map (segmentModel \<circ> snd) (filter (\<lambda>(i, w). \<not> sw_deleted w) ws))))" for ws
    by (induction ws) (auto simp: live_docs_append live_part_entries, simp add: live_docs_def)
  then show ?thesis by (simp add: getAllSegments_def)
qed

lemma saved_segments:
  assumes "in_sync m S P" and "saveAllToDatabase m = Inr (ops, m')"
  shows "apply_write_ops (ops_segments ops) S i = map_option segmentImpl (getSegment i m)"
proof -
  note wf = in_sync_wf [OF assms(1)]
  have ids: "seg_id (segmentImpl (segmentModel w)) = j" if "(j, w) \<in> set (segmentsImpl m)" for j w
    using in_sync_wrapper [OF assms(1) that] by (simp add: wrapper_ok_def)
  have "map seg_id (live_docs (map seg_entry (segmentsImpl m))) = map fst (filter (\<lambda>(i, w). \<not> sw_deleted w) (segmentsImpl m))"
    unfolding live_segments getAllSegments_def using ids by auto
  then have dist: "distinct (map seg_id (live_docs (map seg_entry (segmentsImpl m))))"
    using wf by (simp add: map_wf_def distinct_map_filter)
  have "apply_write_ops (ops_segments ops) S i = map_of (map (\<lambda>d. (seg_id d, d)) (live_docs (map seg_entry (segmentsImpl m)))) i"
    unfolding saved_ops(1) [OF assms(2)] seg_call_entry
  proof (rule apply_entries [OF dist])
    show "S (seg_id d) = Some d" if "(False, d, False) \<in> set (map seg_entry (segmentsImpl m))" for d
      using that in_sync_wrapper [OF assms(1)] by (auto simp: seg_entry_def wrapper_ok_def)
    show "i \<in> seg_id ` (fst \<circ> snd) ` set (map seg_entry (segmentsImpl m))" if "S i \<noteq> None" for i
      using that in_sync_segments [OF assms(1)] ids by (force simp: seg_entry_def image_iff)
  qed
  also have "\<dots> = map_option segmentImpl (getSegment i m)"
  proof (rule option_eqI)
    show "map_of (map (\<lambda>d. (seg_id d, d)) (live_docs (map seg_entry (segmentsImpl m)))) i = Some d \<longleftrightarrow>
        map_option segmentImpl (getSegment i m) = Some d" for d
      using dist map_of_eq_Some_iff [of "map (\<lambda>d. (seg_id d, d)) (live_docs (map seg_entry (segmentsImpl m)))" i d] ids
      by (auto simp: comp_def live_segments set_getAllSegments getSegment_iff [OF wf])
  qed
  finally show ?thesis .
qed

lemma findPart_iff:
  assumes "in_sync m S P"
    and "distinct (map (part_id \<circ> partImpl) (concat (map segment_parts (getAllSegments m))))"
  shows "findPart i m = Some p \<longleftrightarrow> p \<in> set (concat (map segment_parts (getAllSegments m))) \<and> part_id (partImpl p) = i"
proof -
  let ?ps = "concat (map segment_parts (getAllSegments m))"
  have ok: "segment_ok P s" if "s \<in> set (getAllSegments m)" for s
    using that in_sync_wrapper [OF assms(1)] by (auto simp: set_getAllSegments wrapper_ok_def)
  have part: "getPart i s = Some p \<longleftrightarrow> p \<in> set (segment_parts s) \<and> part_id (partImpl p) = i"
    if "s \<in> set (getAllSegments m)" for s p i
    using ok [OF that] getPart_iff [of s i p]
    by (auto simp: segment_ok_def set_segment_parts part_ok_def)
  have unique: "p = p'" if "p \<in> set ?ps" "p' \<in> set ?ps" "part_id (partImpl p) = part_id (partImpl p')" for p p'
    using assms(2) that by (auto simp: distinct_map inj_on_def)
  show ?thesis
  proof
    assume "findPart i m = Some p"
    then obtain s where s: "s \<in> set (getAllSegments m)" "getPart i s = Some p"
      by (auto simp: findPart_def split: option.splits dest: find_Some_set)
    then have "p \<in> set (segment_parts s)" "part_id (partImpl p) = i" using part by blast+
    with s(1) show "p \<in> set ?ps \<and> part_id (partImpl p) = i" by auto
  next
    assume p: "p \<in> set ?ps \<and> part_id (partImpl p) = i"
    then obtain s where "s \<in> set (getAllSegments m)" "getPart i s = Some p" using part by auto
    then have "find (\<lambda>s. getPart i s \<noteq> None) (getAllSegments m) \<noteq> None" by (auto simp: find_None_set)
    then obtain s' where f: "find (\<lambda>s. getPart i s \<noteq> None) (getAllSegments m) = Some s'" by blast
    then have s': "s' \<in> set (getAllSegments m)" "getPart i s' \<noteq> None" by (auto dest: find_Some_set)
    then obtain p' where p': "getPart i s' = Some p'" by blast
    with part [OF s'(1)] have "p' \<in> set (segment_parts s')" "part_id (partImpl p') = i" by blast+
    moreover from this s'(1) have "p' \<in> set ?ps" by auto
    ultimately have "p' = p" using unique p by blast
    with f p' show "findPart i m = Some p" by (simp add: findPart_def)
  qed
qed

lemma distinct_map_mset: "mset xs = mset ys \<Longrightarrow> distinct (map f xs) = distinct (map f ys)"
  by (metis mset_map mset_eq_imp_distinct_iff)

lemma saved_parts:
  assumes "in_sync m S P" and "saveAllToDatabase m = Inr (ops, m')"
  shows "apply_write_ops (ops_parts ops) P i = map_option partImpl (findPart i m)"
proof -
  let ?es = "concat (map part_entries (segmentsImpl m))" and ?ps = "concat (map segment_parts (getAllSegments m))"
  have dist: "distinct (map (part_id \<circ> partImpl) ?ps)"
    using saved_ops(3) [OF assms(2)] distinct_map_mset [OF mset_getAllOrderedParts]
    unfolding first_duplicate_None by blast
  then have dist': "distinct (map part_id (live_docs ?es))" by (simp add: live_parts)
  have ok: "part_ok P j (partModel w)" if "(k, sw) \<in> set (segmentsImpl m)" "(j, w) \<in> set (partsImpl (segmentModel sw))" for k sw j w
    using in_sync_wrapper [OF assms(1) that(1)] that(2) by (auto simp: wrapper_ok_def segment_ok_def)
  have entry: "\<exists>k sw j w. (k, sw) \<in> set (segmentsImpl m) \<and> (j, w) \<in> set (partsImpl (segmentModel sw))
      \<and> d = partImpl (partModel w) \<and> c = partHasChanges (partModel w)" if "(dead, d, c) \<in> set ?es" for dead d c
    using that by (fastforce simp: part_entries_def)
  have "apply_write_ops (ops_parts ops) P i = map_of (map (\<lambda>d. (part_id d, d)) (live_docs ?es)) i"
    unfolding saved_ops(2) [OF assms(2)] part_calls_entry
  proof (rule apply_entries [OF dist'])
    show "P (part_id d) = Some d" if "(False, d, False) \<in> set ?es" for d
      using entry [OF that] ok by (force simp: part_ok_def)
    show "i \<in> part_id ` (fst \<circ> snd) ` set ?es" if some: "P i \<noteq> None" for i
    proof -
      obtain p where "P i = Some p" using some by blast
      then obtain k sw w where w: "(k, sw) \<in> set (segmentsImpl m)" "(i, w) \<in> set (partsImpl (segmentModel sw))"
        using in_sync_parts [OF assms(1)] by (fastforce simp: all_part_keys_def)
      then have "(sw_deleted sw \<or> pw_deleted w, partImpl (partModel w), partHasChanges (partModel w)) \<in> set ?es"
        by (force simp: part_entries_def)
      moreover have "part_id (partImpl (partModel w)) = i" using ok [OF w] by (simp add: part_ok_def)
      ultimately show ?thesis by (force simp: image_iff)
    qed
  qed
  also have "\<dots> = map_option partImpl (findPart i m)"
  proof (rule option_eqI)
    show "map_of (map (\<lambda>d. (part_id d, d)) (live_docs ?es)) i = Some d \<longleftrightarrow> map_option partImpl (findPart i m) = Some d" for d
      using dist' map_of_eq_Some_iff [of "map (\<lambda>d. (part_id d, d)) (live_docs ?es)" i d] findPart_iff [OF assms(1) dist]
      by (auto simp: comp_def live_parts)
  qed
  finally show ?thesis .
qed

section \<open>An example\<close>

definition ex_ingest_segment :: DBSegment where
  "ex_ingest_segment = \<lparr>seg_id = ''s1'', seg_rank = 0, seg_externalId = ''ext1'', seg_externalModified = 0,
     seg_rundownId = ''r'', isHidden = False, seg_orphaned = None\<rparr>"

definition ex_ingest_model :: IngestModel where
  "ex_ingest_model = \<lparr>im_rundownId = ''r'', im_rundown = Some \<lparr>ird_orphaned = None, ird_airStatus = None, ird_status = None, ird_body = JNull\<rparr>, isLocked = True, disposed = False,
     segmentsImpl = [(''s1'', \<lparr>segmentModel = new_segment_model False ex_ingest_segment [] None, sw_deleted = False\<rparr>)],
     rundownBaselineExpectedPackagesStore = new_expected_store False ''r'' None None [] [] []\<rparr>"

abbreviation ex_ingest_db :: "SegmentId \<Rightarrow> DBSegment option" where
  "ex_ingest_db \<equiv> [''s1'' \<mapsto> ex_ingest_segment]"

lemma ex_in_sync: "in_sync ex_ingest_model ex_ingest_db Map.empty"
  by (simp add: in_sync_def ex_ingest_model_def wrapper_ok_def new_segment_model_def segment_ok_def
      ex_ingest_segment_def map_wf_def)

text \<open>C3. From a model that is in step with the database (as one just loaded is), after any operations on
  its segments and parts, a save leaves in the database exactly the segments and the parts that the
  model then holds: every change is written, every removed document is deleted, and nothing else is
  touched. Renaming a segment is not among these operations.\<close>

theorem save_persists_model:
  assumes "in_sync m0 S P" and "(ingest_step h)\<^sup>*\<^sup>* m0 m" and "saveAllToDatabase m = Inr (ops, m')"
  shows "apply_write_ops (ops_segments ops) S i = map_option segmentImpl (getSegment i m)
    \<and> apply_write_ops (ops_parts ops) P j = map_option partImpl (findPart j m)"
  using saved_segments saved_parts in_sync_steps [OF assms(2,1)] assms(3) by blast

lemma save_persists_model_witness:
  "\<exists>ops m'. saveAllToDatabase (on_segment ''s1'' (\<lambda>s. snd (setRank 5 s)) ex_ingest_model) = Inr (ops, m')
     \<and> apply_write_ops (ops_segments ops) ex_ingest_db ''s1'' = Some (ex_ingest_segment\<lparr>seg_rank := 5\<rparr>)"
proof -
  let ?m = "on_segment ''s1'' (\<lambda>s. snd (setRank 5 s)) ex_ingest_model"
  obtain ops m' where save: "saveAllToDatabase ?m = Inr (ops, m')"
    by (simp add: saveAllToDatabase_def on_segment_def ex_ingest_model_def getAllOrderedParts_def getOrderedSegments_def
        getAllSegments_def segment_parts_def new_segment_model_def setRank_def compareAndSetSegmentValue_def
        ex_ingest_segment_def Let_def)
  have step: "(ingest_step id)\<^sup>*\<^sup>* ex_ingest_model ?m" by (blast intro: step_rank)
  have "getSegment ''s1'' ?m = Some (snd (setRank 5 (new_segment_model False ex_ingest_segment [] None)))"
    by (simp add: getSegment_def on_segment_def ex_ingest_model_def)
  moreover have "segmentImpl (snd (setRank 5 (new_segment_model False ex_ingest_segment [] None))) = ex_ingest_segment\<lparr>seg_rank := 5\<rparr>"
    by (simp add: setRank_def compareAndSetSegmentValue_def new_segment_model_def ex_ingest_segment_def)
  ultimately have "apply_write_ops (ops_segments ops) ex_ingest_db ''s1'' = Some (ex_ingest_segment\<lparr>seg_rank := 5\<rparr>)"
    using save_persists_model [OF ex_in_sync step save, of "''s1''" "''p''"] by simp
  with save show ?thesis by blast
qed

section \<open>Renaming a segment\<close>

text \<open>C40. Renaming a segment that has no other change and saving deletes the segment: the document of the
  old id is removed, and the one of the new id is not written, because \<open>setOwnerIds\<close> does not flag
  the segment as changed.\<close>

theorem rename_loses_segment:
  assumes "in_sync m S P" and "getSegment old m = Some s" and "\<not> segmentHasChanges s"
    and "new \<notin> fst ` set (segmentsImpl m)"
    and "changeSegmentId old new m = Inr (r, m1)" and "saveAllToDatabase m1 = Inr (ops, m2)"
  shows "getSegment new m1 \<noteq> None \<and> apply_write_ops (ops_segments ops) S old = None
    \<and> apply_write_ops (ops_segments ops) S new = None"
proof -
  note wf = in_sync_wf [OF assms(1)]
  obtain w where w: "map_get (segmentsImpl m) old = Some w" "\<not> sw_deleted w" "segmentModel w = s"
    using assms(2) by (auto simp: getSegment_def split: option.splits if_splits)
  define W where "W = w\<lparr>segmentModel := segment_setOwnerIds new s\<rparr>"
  define D where "D = \<lparr>segmentModel = new_segment_model False (segmentImpl s) [] None, sw_deleted = True\<rparr>"
  have "getSegment new m = None"
    using assms(4) by (simp add: getSegment_def map_of_eq_None_iff [THEN iffD2])
  then have ws1: "segmentsImpl m1 = map_set new W (map_set old D (segmentsImpl m))"
    using assms(5) w by (auto simp: changeSegmentId_def W_def D_def)
  have old: "(old, w) \<in> set (segmentsImpl m)" using w(1) by (rule map_of_SomeD)
  then have ne: "old \<noteq> new" using assms(4) by force
  have ids: "seg_id (segmentImpl (segmentModel w')) = j" if "(j, w') \<in> set (segmentsImpl m)" for j w'
    using in_sync_wrapper [OF assms(1) that] by (simp add: wrapper_ok_def)
  have set1: "set (segmentsImpl m1) = insert (new, W) (insert (old, D) {e \<in> set (segmentsImpl m). fst e \<noteq> old \<and> fst e \<noteq> new})"
    using wf ne unfolding ws1 by (auto simp: map_set_entries)
  have W: "seg_entry (new, W) = (False, (segmentImpl s)\<lparr>seg_id := new\<rparr>, False)"
    using w(2) assms(3) by (simp add: seg_entry_def W_def segment_setOwnerIds_def)
  have D: "seg_entry (old, D) = (True, segmentImpl s, False)" "seg_id (segmentImpl s) = old"
    using ids [OF old] w(3) by (simp_all add: seg_entry_def D_def new_segment_model_def)
  let ?es = "map seg_entry (segmentsImpl m1)"
  have entry: "(dead, d, c) = (False, (segmentImpl s)\<lparr>seg_id := new\<rparr>, False) \<or> (dead, d, c) = (True, segmentImpl s, False)
      \<or> (seg_id d \<noteq> old \<and> seg_id d \<noteq> new)" if "(dead, d, c) \<in> set ?es" for dead d c
    using that W D ids by (auto simp: set1) (auto simp: seg_entry_def)
  have ops: "apply_write_ops (ops_segments ops) S i =
      (if i \<in> seg_id ` {d. \<exists>c. (True, d, c) \<in> set ?es} - seg_id ` set (live_docs ?es) then None
       else case saved_last seg_id (concat (map call_saves (map (entry_call seg_id) ?es))) i of
         Some d \<Rightarrow> Some d | None \<Rightarrow> S i)" for i
    unfolding saved_ops(1) [OF assms(6)] seg_call_entry by (rule apply_generateWriteOps [OF tracks_entries])
  have "(True, segmentImpl s, False) \<in> set ?es" using D(1) by (auto simp: set1)
  then have "old \<in> seg_id ` {d. \<exists>c. (True, d, c) \<in> set ?es}" using D(2) by blast
  moreover have "old \<notin> seg_id ` set (live_docs ?es)"
    using entry ne unfolding set_live_docs by fastforce
  ultimately have "apply_write_ops (ops_segments ops) S old = None" by (simp add: ops)
  moreover have "saved_last seg_id (concat (map call_saves (map (entry_call seg_id) ?es))) new = None"
    using entry entries_saved [of seg_id ?es] D(2) ne by (fastforce simp: saved_last_def find_None_set)
  moreover have "S new = None"
    using in_sync_segments [OF assms(1), of new] assms(4) by (cases "S new") auto
  moreover have "getSegment new m1 = Some (segmentModel W)"
    using w(2) by (simp add: getSegment_def ws1 W_def)
  ultimately show ?thesis by (simp add: ops)
qed

lemma rename_loses_segment_witness:
  "\<exists>m1 ops m2. changeSegmentId ''s1'' ''s2'' ex_ingest_model = Inr (True, m1) \<and> saveAllToDatabase m1 = Inr (ops, m2)
     \<and> getSegment ''s2'' m1 \<noteq> None \<and> apply_write_ops (ops_segments ops) ex_ingest_db ''s2'' = None"
proof -
  let ?s = "new_segment_model False ex_ingest_segment [] None"
  obtain m1 where rename: "changeSegmentId ''s1'' ''s2'' ex_ingest_model = Inr (True, m1)"
    and m1: "m1 = ex_ingest_model\<lparr>segmentsImpl := [(''s1'', \<lparr>segmentModel = ?s, sw_deleted = True\<rparr>),
        (''s2'', \<lparr>segmentModel = segment_setOwnerIds ''s2'' ?s, sw_deleted = False\<rparr>)]\<rparr>"
    by (simp add: changeSegmentId_def ex_ingest_model_def getSegment_def new_segment_model_def)
  obtain ops m2 where save: "saveAllToDatabase m1 = Inr (ops, m2)"
    by (simp add: m1 saveAllToDatabase_def ex_ingest_model_def getAllOrderedParts_def getOrderedSegments_def
        getAllSegments_def segment_parts_def new_segment_model_def segment_setOwnerIds_def map_parts_def Let_def)
  have "getSegment ''s1'' ex_ingest_model = Some ?s" and "\<not> segmentHasChanges ?s"
    and "''s2'' \<notin> fst ` set (segmentsImpl ex_ingest_model)"
    by (simp_all add: getSegment_def ex_ingest_model_def new_segment_model_def)
  from rename_loses_segment [OF ex_in_sync this rename save] rename save show ?thesis by blast
qed

end
