(* ===== verification/Locks.thy ===== *)
theory Locks
  imports Sofie_Prelude
begin

text \<open>
  The locks of the job worker on playlists and rundowns: \<open>LocksManager\<close> of
  \<open>packages/job-worker/src/locks.ts\<close>, which the parent process runs, and \<open>LocksManager\<close> of
  \<open>packages/job-worker/src/workers/locks.ts\<close>, which each worker thread runs. They talk through
  messages: a thread sends lock and unlock events, the parent reports a change back. Ids are strings;
  an owner is a thread with a lock id, and \<open>context.ts\<close> draws a new random lock id for every request.
\<close>

section \<open>The parent\<close>

type_synonym OwnerAndLockIds = "string \<times> string"

datatype AnyLockEvent =
    LockEvent (ev_resourceId: string) (ev_lockId: string)
  | UnLockEvent (ev_resourceId: string) (ev_lockId: string)

record LockResource =
  holder :: "OwnerAndLockIds option"
  waitingWorkers :: "OwnerAndLockIds list"

definition new_resource :: LockResource where
  "new_resource = \<lparr>holder = None, waitingWorkers = []\<rparr>"

text \<open>A report to a thread: the owner and whether it now has the lock.\<close>

type_synonym lock_report = "OwnerAndLockIds \<times> bool"

definition lockNextWorker :: "LockResource \<Rightarrow> LockResource \<times> lock_report list" where
  "lockNextWorker r =
     (case (holder r, waitingWorkers r) of
        (None, nextWorker # rest) \<Rightarrow>
          (\<lparr>holder = Some nextWorker, waitingWorkers = rest\<rparr>, [(nextWorker, True)])
      | _ \<Rightarrow> (r, []))"

definition lock_rejected :: "OwnerAndLockIds \<Rightarrow> LockResource \<Rightarrow> LockResource \<times> lock_report list" where
  \<comment> \<open>the report that \<open>nextWorker\<close> has the lock was not taken: free it, unless it has moved on\<close>
  "lock_rejected nextWorker r =
     (if holder r = Some nextWorker then lockNextWorker (r\<lparr>holder := None\<rparr>) else (r, []))"

definition handle_lock :: "OwnerAndLockIds \<Rightarrow> LockResource \<Rightarrow> LockResource \<times> lock_report list" where
  "handle_lock own r = lockNextWorker (r\<lparr>waitingWorkers := waitingWorkers r @ [own]\<rparr>)"

definition handle_unlock :: "OwnerAndLockIds \<Rightarrow> LockResource \<Rightarrow> LockResource \<times> lock_report list" where
  "handle_unlock own r =
     (if holder r = Some own
      then (let (r', ns) = lockNextWorker (r\<lparr>holder := None\<rparr>) in (r', (own, False) # ns))
      else lockNextWorker r)"

definition release_thread :: "string \<Rightarrow> LockResource \<Rightarrow> LockResource \<times> lock_report list" where
  "release_thread threadId r =
     (let r = (if waitingWorkers r \<noteq> []
               then r\<lparr>waitingWorkers := filter (\<lambda>w. fst w \<noteq> threadId) (waitingWorkers r)\<rparr> else r)
      in case holder r of
           Some h \<Rightarrow> if fst h = threadId then lockNextWorker (r\<lparr>holder := None\<rparr>) else (r, [])
         | None \<Rightarrow> (r, []))"

type_synonym LocksManager = "(string, LockResource) js_map"

definition getResource :: "LocksManager \<Rightarrow> string \<Rightarrow> LockResource" where
  "getResource m resourceId = nullish (map_get m resourceId) new_resource"

definition on_resource ::
  "string \<Rightarrow> (LockResource \<Rightarrow> LockResource \<times> lock_report list) \<Rightarrow> LocksManager \<Rightarrow> LocksManager \<times> lock_report list" where
  "on_resource resourceId f m =
     (let (r, ns) = f (getResource m resourceId) in (map_set resourceId r m, ns))"

fun handleLockEvent :: "string \<Rightarrow> AnyLockEvent \<Rightarrow> LocksManager \<Rightarrow> LocksManager \<times> lock_report list" where
  "handleLockEvent threadId (LockEvent rid lockId) m = on_resource rid (handle_lock (threadId, lockId)) m"
| "handleLockEvent threadId (UnLockEvent rid lockId) m = on_resource rid (handle_unlock (threadId, lockId)) m"

fun releaseAllForThread :: "string \<Rightarrow> LocksManager \<Rightarrow> LocksManager \<times> lock_report list" where
  "releaseAllForThread threadId [] = ([], [])"
| "releaseAllForThread threadId ((rid, r) # m) =
     (let (r', ns) = release_thread threadId r; (m', ns') = releaseAllForThread threadId m
      in ((rid, r') # m', ns @ ns'))"

text \<open>What an event does to the other resources: nothing.\<close>

lemma getResource_set: "getResource (map_set i r m) j = (if j = i then r else getResource m j)"
  by (simp add: getResource_def)

lemma getResource_on_resource:
  "getResource (fst (on_resource i f m)) j = (if j = i then fst (f (getResource m i)) else getResource m j)"
  by (simp add: on_resource_def getResource_set case_prod_beta)

lemma getResource_releaseAll:
  "getResource (fst (releaseAllForThread t m)) j = fst (release_thread t (getResource m j))"
proof (induction m)
  case Nil
  then show ?case by (simp add: getResource_def new_resource_def release_thread_def)
next
  case (Cons e m)
  then show ?case by (cases e) (auto simp: getResource_def case_prod_beta Let_def)
qed

section \<open>A worker thread\<close>

datatype pending = Aquiring string | Releasing string

type_synonym pendingLocks = "(string, pending) js_map"

datatype lock_error = AlreadyPending | AquireTimedOut | WantedLockGotUnlock | WantedUnlockGotLock

text \<open>How a call to \<open>aquire\<close> or \<open>release\<close> ends.\<close>

datatype lock_outcome = Aquired string string | Released string string | LockFailed lock_error

definition aquire :: "string \<Rightarrow> string \<Rightarrow> pendingLocks \<Rightarrow> lock_error + (pendingLocks \<times> AnyLockEvent)" where
  "aquire lockId resourceId pend =
     (if map_has pend lockId then Inl AlreadyPending
      else Inr (map_set lockId (Aquiring resourceId) pend, LockEvent resourceId lockId))"

definition release :: "string \<Rightarrow> string \<Rightarrow> pendingLocks \<Rightarrow> lock_error + (pendingLocks \<times> AnyLockEvent)" where
  "release lockId resourceId pend =
     (if map_has pend lockId then Inl AlreadyPending
      else Inr (map_set lockId (Releasing resourceId) pend, UnLockEvent resourceId lockId))"

fun pending_outcome :: "string \<Rightarrow> pending \<Rightarrow> bool \<Rightarrow> lock_outcome" where
  "pending_outcome lockId (Aquiring rid) locked =
     (if \<not> locked then LockFailed WantedLockGotUnlock else Aquired lockId rid)"
| "pending_outcome lockId (Releasing rid) locked =
     (if locked then LockFailed WantedUnlockGotLock else Released lockId rid)"

definition changeEvent :: "string \<Rightarrow> bool \<Rightarrow> pendingLocks \<Rightarrow> pendingLocks \<times> lock_outcome option" where
  \<comment> \<open>a change nobody waits for is only logged\<close>
  "changeEvent lockId locked pend =
     (case map_get pend lockId of
        None \<Rightarrow> (pend, None)
      | Some p \<Rightarrow> (map_del lockId pend, Some (pending_outcome lockId p locked)))"

definition lock_timeout :: "string \<Rightarrow> pendingLocks \<Rightarrow> pendingLocks \<times> lock_outcome option" where
  "lock_timeout lockId pend =
     (case map_get pend lockId of
        None \<Rightarrow> (pend, None)
      | Some (Aquiring rid) \<Rightarrow> (map_del lockId pend, Some (LockFailed AquireTimedOut))
      | Some (Releasing rid) \<Rightarrow> (map_del lockId pend, Some (pending_outcome lockId (Releasing rid) True)))"

end
