(* ===== verification/Locks_System.thy ===== *)
theory Locks_System
  imports Locks
begin

text \<open>
  The parent and the worker threads together, as one resource sees them. Messages are delivered in any
  order; a report can fail to arrive, which the parent learns; a thread can be restarted at any moment,
  and after a job its locks are released. A lock id is drawn afresh for every request, which is what
  \<open>getRandomString\<close> of \<open>context.ts\<close> is relied on for, and a job awaits the locks it asked for.
\<close>

section \<open>The system\<close>

datatype pending_kind = PendAquire | PendRelease

record lock_system =
  ls_resource :: LockResource
  ls_pending :: "OwnerAndLockIds \<Rightarrow> pending_kind option"  \<comment> \<open>\<open>pendingLocks\<close> of the owner's thread\<close>
  ls_up :: "(OwnerAndLockIds \<times> bool) multiset"  \<comment> \<open>events on their way: lock or unlock\<close>
  ls_down :: "lock_report multiset"  \<comment> \<open>reports on their way\<close>
  ls_holds :: "OwnerAndLockIds set"  \<comment> \<open>\<open>aquire\<close> returned and \<open>release\<close> was not called\<close>
  ls_used :: "OwnerAndLockIds set"  \<comment> \<open>the ids drawn so far\<close>

definition init_locks :: lock_system where
  "init_locks = \<lparr>ls_resource = new_resource, ls_pending = (\<lambda>_. None), ls_up = {#}, ls_down = {#},
     ls_holds = {}, ls_used = {}\<rparr>"

definition parent_does :: "LockResource \<times> lock_report list \<Rightarrow> lock_system \<Rightarrow> lock_system" where
  "parent_does p s = s\<lparr>ls_resource := fst p, ls_down := ls_down s + mset (snd p)\<rparr>"

inductive lock_step :: "lock_system \<Rightarrow> lock_system \<Rightarrow> bool" where
  aquire_call: "own \<notin> ls_used s \<Longrightarrow>
    lock_step s (s\<lparr>ls_used := insert own (ls_used s), ls_pending := (ls_pending s)(own := Some PendAquire),
      ls_up := add_mset (own, True) (ls_up s)\<rparr>)"
| release_call: "own \<in> ls_holds s \<Longrightarrow> ls_pending s own = None \<Longrightarrow>
    lock_step s (s\<lparr>ls_holds := ls_holds s - {own}, ls_pending := (ls_pending s)(own := Some PendRelease),
      ls_up := add_mset (own, False) (ls_up s)\<rparr>)"
| parent_lock: "(own, True) \<in># ls_up s \<Longrightarrow>
    lock_step s (parent_does (handle_lock own (ls_resource s)) (s\<lparr>ls_up := ls_up s - {#(own, True)#}\<rparr>))"
| parent_unlock: "(own, False) \<in># ls_up s \<Longrightarrow>
    lock_step s (parent_does (handle_unlock own (ls_resource s)) (s\<lparr>ls_up := ls_up s - {#(own, False)#}\<rparr>))"
| granted: "(own, True) \<in># ls_down s \<Longrightarrow> ls_pending s own = Some PendAquire \<Longrightarrow>
    lock_step s (s\<lparr>ls_down := ls_down s - {#(own, True)#}, ls_pending := (ls_pending s)(own := None),
      ls_holds := insert own (ls_holds s)\<rparr>)"
| other_report: "(own, b) \<in># ls_down s \<Longrightarrow> \<not> (b \<and> ls_pending s own = Some PendAquire) \<Longrightarrow>
    lock_step s (s\<lparr>ls_down := ls_down s - {#(own, b)#}, ls_pending := (ls_pending s)(own := None)\<rparr>)"
| report_rejected: "(own, True) \<in># ls_down s \<Longrightarrow>
    lock_step s (parent_does (lock_rejected own (ls_resource s)) (s\<lparr>ls_down := ls_down s - {#(own, True)#}\<rparr>))"
| unlock_report_lost: "(own, False) \<in># ls_down s \<Longrightarrow>
    lock_step s (s\<lparr>ls_down := ls_down s - {#(own, False)#}\<rparr>)"
| timeout: "lock_step s (s\<lparr>ls_pending := (ls_pending s)(own := None)\<rparr>)"
| event_lost: "lock_step s (s\<lparr>ls_up := ls_up s - {#e#}\<rparr>)"
| job_done: "\<forall>l. ls_pending s (t, l) \<noteq> Some PendAquire \<Longrightarrow>
    lock_step s (parent_does (release_thread t (ls_resource s)) (s\<lparr>ls_holds := {own \<in> ls_holds s. fst own \<noteq> t}\<rparr>))"
| thread_restarted:
    "lock_step s (parent_does (release_thread t (ls_resource s)) (s\<lparr>ls_holds := {own \<in> ls_holds s. fst own \<noteq> t},
      ls_pending := (\<lambda>own. if fst own = t then None else ls_pending s own)\<rparr>))"

inductive_cases lock_stepE: "lock_step s s'"

definition lock_reachable :: "lock_system \<Rightarrow> bool" where
  "lock_reachable s = lock_step\<^sup>*\<^sup>* init_locks s"

section \<open>The invariant\<close>

text \<open>A request is in at most one place: asked for, waiting, about to be reported, or held.\<close>

definition places :: "lock_system \<Rightarrow> OwnerAndLockIds \<Rightarrow> nat" where
  "places s own = count (ls_up s) (own, True) + count (mset (waitingWorkers (ls_resource s))) own
     + count (ls_down s) (own, True) + (if own \<in> ls_holds s then 1 else 0)"

definition lock_inv :: "lock_system \<Rightarrow> bool" where
  "lock_inv s =
     ((\<forall>own. places s own \<le> 1)
      \<and> (\<forall>own. own \<notin> ls_used s \<longrightarrow> places s own = 0 \<and> (own, False) \<notin># ls_up s)
      \<and> (\<forall>own\<in>ls_holds s. holder (ls_resource s) = Some own \<and> (own, False) \<notin># ls_up s)
      \<and> (\<forall>own. (own, True) \<in># ls_down s \<longrightarrow> ls_pending s own = Some PendAquire \<longrightarrow> holder (ls_resource s) = Some own)
      \<and> (\<forall>own. ls_pending s own = Some PendAquire \<longrightarrow> own \<notin> ls_holds s \<and> (own, False) \<notin># ls_up s)
      \<and> (holder (ls_resource s) = None \<longrightarrow> waitingWorkers (ls_resource s) = []))"

lemma lock_invD:
  assumes "lock_inv s"
  shows inv_places: "places s own \<le> 1"
    and inv_fresh: "own \<notin> ls_used s \<Longrightarrow> places s own = 0 \<and> (own, False) \<notin># ls_up s"
    and inv_holds: "own \<in> ls_holds s \<Longrightarrow> holder (ls_resource s) = Some own \<and> (own, False) \<notin># ls_up s"
    and inv_report: "(own, True) \<in># ls_down s \<Longrightarrow> ls_pending s own = Some PendAquire \<Longrightarrow> holder (ls_resource s) = Some own"
    and inv_pending: "ls_pending s own = Some PendAquire \<Longrightarrow> own \<notin> ls_holds s \<and> (own, False) \<notin># ls_up s"
    and inv_free: "holder (ls_resource s) = None \<Longrightarrow> waitingWorkers (ls_resource s) = []"
  using assms unfolding lock_inv_def by blast+

lemma lock_invI:
  assumes "\<And>own. places s own \<le> 1"
    and "\<And>own. own \<notin> ls_used s \<Longrightarrow> places s own = 0 \<and> (own, False) \<notin># ls_up s"
    and "\<And>own. own \<in> ls_holds s \<Longrightarrow> holder (ls_resource s) = Some own \<and> (own, False) \<notin># ls_up s"
    and "\<And>own. (own, True) \<in># ls_down s \<Longrightarrow> ls_pending s own = Some PendAquire \<Longrightarrow> holder (ls_resource s) = Some own"
    and "\<And>own. ls_pending s own = Some PendAquire \<Longrightarrow> own \<notin> ls_holds s \<and> (own, False) \<notin># ls_up s"
    and "holder (ls_resource s) = None \<Longrightarrow> waitingWorkers (ls_resource s) = []"
  shows "lock_inv s"
  using assms unfolding lock_inv_def by blast

text \<open>Giving a lock to the next worker moves it from the queue to the reports.\<close>

lemma lockNextWorker_cases:
  obtains "holder r = None" "waitingWorkers r = []" "lockNextWorker r = (r, [])"
  | h where "holder r = Some h" "lockNextWorker r = (r, [])"
  | o' rest where "holder r = None" "waitingWorkers r = o' # rest"
      "lockNextWorker r = (\<lparr>holder = Some o', waitingWorkers = rest\<rparr>, [(o', True)])"
  by (cases "holder r"; cases "waitingWorkers r") (auto simp: lockNextWorker_def)

lemma lock_inv_next:
  assumes "\<And>own. places s own \<le> 1"
    and "\<And>own. own \<notin> ls_used s \<Longrightarrow> places s own = 0 \<and> (own, False) \<notin># ls_up s"
    and "\<And>own. own \<in> ls_holds s \<Longrightarrow> holder (ls_resource s) = Some own \<and> (own, False) \<notin># ls_up s"
    and "\<And>own. (own, True) \<in># ls_down s \<Longrightarrow> ls_pending s own = Some PendAquire \<Longrightarrow> holder (ls_resource s) = Some own"
    and "\<And>own. ls_pending s own = Some PendAquire \<Longrightarrow> own \<notin> ls_holds s \<and> (own, False) \<notin># ls_up s"
  shows "lock_inv (parent_does (lockNextWorker (ls_resource s)) s)"
proof (cases "ls_resource s" rule: lockNextWorker_cases)
  case 1
  with assms show ?thesis by (intro lock_invI) (auto simp: parent_does_def places_def)
next
  case (2 h)
  with assms show ?thesis by (intro lock_invI) (auto simp: parent_does_def places_def)
next
  case (3 o' rest)
  let ?s = "parent_does (lockNextWorker (ls_resource s)) s"
  have same: "places ?s own = places s own" for own
    using 3 by (auto simp: parent_does_def places_def)
  show ?thesis
  proof (rule lock_invI)
    show "own \<in> ls_holds ?s \<Longrightarrow> holder (ls_resource ?s) = Some own \<and> (own, False) \<notin># ls_up ?s" for own
      using assms(3) [of own] 3 by (simp add: parent_does_def)
    show "(own, True) \<in># ls_down ?s \<Longrightarrow> ls_pending ?s own = Some PendAquire \<Longrightarrow> holder (ls_resource ?s) = Some own" for own
      using assms(4) [of own] 3 by (auto simp: parent_does_def)
    show "holder (ls_resource ?s) = None \<Longrightarrow> waitingWorkers (ls_resource ?s) = []"
      using 3 by (simp add: parent_does_def)
  qed (use assms(1,2,5) same in \<open>simp_all add: parent_does_def\<close>)
qed

text \<open>Taking a message away, or a place, keeps the bound on the places.\<close>

lemma count_minus_le: "count (M - N) x \<le> count M x"
  by simp

lemma lock_inv_init: "lock_inv init_locks"
  by (simp add: lock_inv_def init_locks_def new_resource_def places_def)

lemma parent_does_fields [simp]:
  "ls_pending (parent_does p s) = ls_pending s" "ls_up (parent_does p s) = ls_up s"
  "ls_holds (parent_does p s) = ls_holds s" "ls_used (parent_does p s) = ls_used s"
  by (simp_all add: parent_does_def)

lemma lock_inv_handle_lock:
  assumes inv: "lock_inv s" and up: "(own, True) \<in># ls_up s"
  shows "lock_inv (parent_does (handle_lock own (ls_resource s)) (s\<lparr>ls_up := ls_up s - {#(own, True)#}\<rparr>))"
proof -
  define s' where "s' = s\<lparr>ls_up := ls_up s - {#(own, True)#},
    ls_resource := (ls_resource s)\<lparr>waitingWorkers := waitingWorkers (ls_resource s) @ [own]\<rparr>\<rparr>"
  have "places s' o' = places s o'" for o'
    using up by (auto simp: places_def s'_def)
  moreover have "(o', False) \<in># ls_up s' \<longleftrightarrow> (o', False) \<in># ls_up s" for o'
    by (simp add: s'_def in_diff_count)
  ultimately have "lock_inv (parent_does (lockNextWorker (ls_resource s')) s')"
    using lock_invD [OF inv] by (intro lock_inv_next) (simp_all add: s'_def)
  then show ?thesis by (simp add: s'_def parent_does_def handle_lock_def)
qed

text \<open>The parent frees the resource of an owner that no longer counts on it, and gives it on.\<close>

lemma lock_inv_free:
  assumes inv: "lock_inv s"
    and "own \<notin> ls_holds s" and "(own, True) \<in># ls_down s \<Longrightarrow> ls_pending s own \<noteq> Some PendAquire"
    and "holder (ls_resource s) = Some own"
  shows "lock_inv (parent_does (lockNextWorker ((ls_resource s)\<lparr>holder := None\<rparr>)) s)"
proof -
  define s' where "s' = s\<lparr>ls_resource := (ls_resource s)\<lparr>holder := None\<rparr>\<rparr>"
  have "places s' o' = places s o'" for o' by (simp add: places_def s'_def)
  moreover have "o' \<notin> ls_holds s" for o'
    using inv_holds [OF inv, of o'] assms(2,4) by auto
  moreover have "(o', True) \<in># ls_down s \<Longrightarrow> ls_pending s o' \<noteq> Some PendAquire" for o'
    using inv_report [OF inv, of o'] assms(3,4) by auto
  ultimately have "lock_inv (parent_does (lockNextWorker (ls_resource s')) s')"
    using lock_invD [OF inv] by (intro lock_inv_next) (simp_all add: s'_def)
  then show ?thesis by (simp add: s'_def parent_does_def)
qed

lemma lock_inv_lose_up: "lock_inv s \<Longrightarrow> lock_inv (s\<lparr>ls_up := ls_up s - M\<rparr>)"
proof (rule lock_invI)
  fix own
  assume inv: "lock_inv s"
  have le: "places (s\<lparr>ls_up := ls_up s - M\<rparr>) own \<le> places s own" by (simp add: places_def)
  then show "places (s\<lparr>ls_up := ls_up s - M\<rparr>) own \<le> 1" using inv_places [OF inv, of own] by linarith
  show "places (s\<lparr>ls_up := ls_up s - M\<rparr>) own = 0 \<and> (own, False) \<notin># ls_up (s\<lparr>ls_up := ls_up s - M\<rparr>)"
    if "own \<notin> ls_used (s\<lparr>ls_up := ls_up s - M\<rparr>)"
    using inv_fresh [OF inv, of own] le that by (auto dest: in_diffD)
qed (auto dest: in_diffD lock_invD)

lemma lock_inv_lose_down: "lock_inv s \<Longrightarrow> lock_inv (s\<lparr>ls_down := ls_down s - M\<rparr>)"
proof (rule lock_invI)
  fix own
  assume inv: "lock_inv s"
  have le: "places (s\<lparr>ls_down := ls_down s - M\<rparr>) own \<le> places s own" by (simp add: places_def)
  then show "places (s\<lparr>ls_down := ls_down s - M\<rparr>) own \<le> 1" using inv_places [OF inv, of own] by linarith
  show "places (s\<lparr>ls_down := ls_down s - M\<rparr>) own = 0 \<and> (own, False) \<notin># ls_up (s\<lparr>ls_down := ls_down s - M\<rparr>)"
    if "own \<notin> ls_used (s\<lparr>ls_down := ls_down s - M\<rparr>)"
    using inv_fresh [OF inv, of own] le that by simp
qed (auto dest: in_diffD lock_invD)

text \<open>Forgetting requests.\<close>

lemma lock_inv_forget:
  "lock_inv s \<Longrightarrow> \<forall>own. p own = Some PendAquire \<longrightarrow> ls_pending s own = Some PendAquire
   \<Longrightarrow> lock_inv (s\<lparr>ls_pending := p\<rparr>)"
proof (rule lock_invI)
  fix own
  assume inv: "lock_inv s" and "\<forall>own. p own = Some PendAquire \<longrightarrow> ls_pending s own = Some PendAquire"
  have same: "places (s\<lparr>ls_pending := p\<rparr>) own = places s own" by (simp add: places_def)
  show "places (s\<lparr>ls_pending := p\<rparr>) own \<le> 1" unfolding same by (rule inv_places [OF inv])
  show "places (s\<lparr>ls_pending := p\<rparr>) own = 0 \<and> (own, False) \<notin># ls_up (s\<lparr>ls_pending := p\<rparr>)"
    if "own \<notin> ls_used (s\<lparr>ls_pending := p\<rparr>)"
    using inv_fresh [OF inv, of own] that unfolding same by simp
qed (auto dest: lock_invD)

lemma lock_inv_drop_holds:
  assumes inv: "lock_inv s" and "H \<subseteq> ls_holds s"
  shows "lock_inv (s\<lparr>ls_holds := H\<rparr>)"
proof (rule lock_invI)
  fix own
  have le: "places (s\<lparr>ls_holds := H\<rparr>) own \<le> places s own" using assms(2) by (auto simp: places_def)
  then show "places (s\<lparr>ls_holds := H\<rparr>) own \<le> 1" using inv_places [OF inv, of own] by linarith
  show "places (s\<lparr>ls_holds := H\<rparr>) own = 0 \<and> (own, False) \<notin># ls_up (s\<lparr>ls_holds := H\<rparr>)"
    if "own \<notin> ls_used (s\<lparr>ls_holds := H\<rparr>)"
    using inv_fresh [OF inv, of own] le that by simp
qed (use assms in \<open>auto dest: lock_invD\<close>)

lemma lock_inv_waiting_filter:
  assumes inv: "lock_inv s"
  shows "lock_inv (s\<lparr>ls_resource := (ls_resource s)\<lparr>waitingWorkers := filter Q (waitingWorkers (ls_resource s))\<rparr>\<rparr>)"
    (is "lock_inv ?s'")
proof (rule lock_invI)
  fix own
  have "count (mset (filter Q (waitingWorkers (ls_resource s)))) own \<le> count (mset (waitingWorkers (ls_resource s))) own"
    by (simp add: mset_filter)
  then have le: "places ?s' own \<le> places s own" by (simp add: places_def)
  then show "places ?s' own \<le> 1" using inv_places [OF inv, of own] by linarith
  show "places ?s' own = 0 \<and> (own, False) \<notin># ls_up ?s'" if "own \<notin> ls_used ?s'"
    using inv_fresh [OF inv, of own] le that by simp
qed (use inv in \<open>auto dest: lock_invD\<close>)

lemma lock_inv_release_thread:
  assumes inv: "lock_inv s" and "\<And>own. fst own = t \<Longrightarrow> own \<notin> ls_holds s \<and> ls_pending s own \<noteq> Some PendAquire"
  shows "lock_inv (parent_does (release_thread t (ls_resource s)) s)"
proof -
  let ?r = "(ls_resource s)\<lparr>waitingWorkers := filter (\<lambda>w. fst w \<noteq> t) (waitingWorkers (ls_resource s))\<rparr>"
  have inv': "lock_inv (s\<lparr>ls_resource := ?r\<rparr>)" using lock_inv_waiting_filter [OF inv] by simp
  have r: "(if waitingWorkers (ls_resource s) \<noteq> [] then ?r else ls_resource s) = ?r" by simp
  show ?thesis
  proof (cases "\<exists>h. holder (ls_resource s) = Some h \<and> fst h = t")
    case True
    then obtain h where h: "holder (ls_resource s) = Some h" "fst h = t" by blast
    have "lock_inv (parent_does (lockNextWorker (?r\<lparr>holder := None\<rparr>)) (s\<lparr>ls_resource := ?r\<rparr>))"
      using lock_inv_free [OF inv', of h] assms(2) [OF h(2)] h(1) by simp
    then show ?thesis
      unfolding release_thread_def r Let_def using h by (simp add: parent_does_def)
  next
    case False
    then have "release_thread t (ls_resource s) = (?r, [])"
      unfolding release_thread_def r Let_def by (auto split: option.split)
    with inv' show ?thesis by (simp add: parent_does_def)
  qed
qed

lemma lock_inv_step:
  assumes "lock_step s s'" and inv: "lock_inv s"
  shows "lock_inv s'"
  using assms
proof (induction rule: lock_step.induct)
  case (aquire_call own s)
  let ?s' = "s\<lparr>ls_used := insert own (ls_used s), ls_pending := (ls_pending s)(own := Some PendAquire),
      ls_up := add_mset (own, True) (ls_up s)\<rparr>"
  note inv = aquire_call.prems
  have fresh: "places s own = 0" "(own, False) \<notin># ls_up s" using inv_fresh [OF inv aquire_call.hyps] by auto
  then have down: "(own, True) \<notin># ls_down s" by (simp add: places_def not_in_iff)
  have places: "places ?s' o' = (if o' = own then 1 else places s o')" for o'
    using fresh(1) by (simp add: places_def)
  show ?case
  proof (rule lock_invI)
    fix o'
    show "places ?s' o' \<le> 1" using inv_places [OF inv, of o'] by (simp only: places) simp
    show "places ?s' o' = 0 \<and> (o', False) \<notin># ls_up ?s'" if "o' \<notin> ls_used ?s'"
      using inv_fresh [OF inv, of o'] that by (simp add: places)
    show "holder (ls_resource ?s') = Some o'" if "(o', True) \<in># ls_down ?s'" "ls_pending ?s' o' = Some PendAquire"
      using inv_report [OF inv, of o'] down that by (auto split: if_splits)
    show "o' \<notin> ls_holds ?s' \<and> (o', False) \<notin># ls_up ?s'" if "ls_pending ?s' o' = Some PendAquire"
      using inv_pending [OF inv, of o'] fresh that by (auto simp: places_def split: if_splits)
  qed (use inv in \<open>auto dest: lock_invD\<close>)
next
  case (release_call own s)
  let ?s' = "s\<lparr>ls_holds := ls_holds s - {own}, ls_pending := (ls_pending s)(own := Some PendRelease),
      ls_up := add_mset (own, False) (ls_up s)\<rparr>"
  note inv = release_call.prems
  have le: "places ?s' o' \<le> places s o'" for o' by (auto simp: places_def)
  have "own \<in> ls_used s" using inv_fresh [OF inv, of own] release_call.hyps(1) by (auto simp: places_def)
  then have "places ?s' o' = 0 \<and> (o', False) \<notin># ls_up ?s'" if "o' \<notin> ls_used ?s'" for o'
    using inv_fresh [OF inv, of o'] le [of o'] that by auto
  moreover have "o' = own" if "o' \<in> ls_holds s" for o'
    using inv_holds [OF inv that] inv_holds [OF inv release_call.hyps(1)] by simp
  ultimately show ?case
  proof (intro lock_invI)
    fix o'
    show "places ?s' o' \<le> 1" using le [of o'] inv_places [OF inv, of o'] by linarith
    show "holder (ls_resource ?s') = Some o'" if "(o', True) \<in># ls_down ?s'" "ls_pending ?s' o' = Some PendAquire"
      using inv_report [OF inv, of o'] that by (auto split: if_splits)
    show "o' \<notin> ls_holds ?s' \<and> (o', False) \<notin># ls_up ?s'" if "ls_pending ?s' o' = Some PendAquire"
      using inv_pending [OF inv, of o'] that by (auto split: if_splits)
    show "holder (ls_resource ?s') = Some o' \<and> (o', False) \<notin># ls_up ?s'" if "o' \<in> ls_holds ?s'"
      using inv_holds [OF inv, of o'] that by auto
  qed (use inv_free [OF inv] in simp_all)
next
  case (parent_lock own s)
  then show ?case by (intro lock_inv_handle_lock)
next
  case (parent_unlock own s)
  let ?s = "s\<lparr>ls_up := ls_up s - {#(own, False)#}\<rparr>"
  have inv': "lock_inv ?s" using parent_unlock.prems by (rule lock_inv_lose_up)
  show ?case
  proof (cases "holder (ls_resource s) = Some own")
    case True
    have "own \<notin> ls_holds s" "ls_pending s own \<noteq> Some PendAquire"
      using inv_holds [OF parent_unlock.prems, of own] inv_pending [OF parent_unlock.prems, of own] parent_unlock.hyps
      by blast+
    then have "lock_inv (parent_does (lockNextWorker ((ls_resource s)\<lparr>holder := None\<rparr>)) ?s)"
      using lock_inv_free [OF inv', of own] True by simp
    then have "lock_inv (parent_does (fst (lockNextWorker ((ls_resource s)\<lparr>holder := None\<rparr>)),
        (own, False) # snd (lockNextWorker ((ls_resource s)\<lparr>holder := None\<rparr>))) ?s)"
      by (simp add: lock_inv_def parent_does_def places_def)
    with True show ?thesis by (simp add: handle_unlock_def case_prod_beta)
  next
    case False
    have "lock_inv (parent_does (lockNextWorker (ls_resource ?s)) ?s)"
      using lock_invD [OF inv'] by (intro lock_inv_next) blast+
    with False show ?thesis by (simp add: handle_unlock_def)
  qed
next
  case (granted own s)
  note inv = granted.prems
  let ?s' = "s\<lparr>ls_down := ls_down s - {#(own, True)#}, ls_pending := (ls_pending s)(own := None),
      ls_holds := insert own (ls_holds s)\<rparr>"
  have h: "holder (ls_resource s) = Some own" "own \<notin> ls_holds s" "(own, False) \<notin># ls_up s"
    using inv_report [OF inv granted.hyps] inv_pending [OF inv granted.hyps(2)] by auto
  have places: "places ?s' o' = places s o'" for o'
    using h(2) granted.hyps(1) by (auto simp: places_def)
  show ?case
    using lock_invD [OF inv] h unfolding places
    by (intro lock_invI) (simp_all add: places split: if_splits, auto dest: in_diffD)
next
  case (other_report own b s)
  have "lock_inv (s\<lparr>ls_down := ls_down s - {#(own, b)#}\<rparr>)" using other_report.prems by (rule lock_inv_lose_down)
  then show ?case using lock_inv_forget [of _ "(ls_pending s)(own := None)"] by simp
next
  case (report_rejected own s)
  let ?s = "s\<lparr>ls_down := ls_down s - {#(own, True)#}\<rparr>"
  have inv': "lock_inv ?s" using report_rejected.prems by (rule lock_inv_lose_down)
  have "places s own \<le> 1" by (rule inv_places [OF report_rejected.prems])
  moreover obtain n where n: "count (ls_down s) (own, True) = Suc n"
    using report_rejected.hyps by (metis count_eq_zero_iff not0_implies_Suc)
  ultimately have gone: "own \<notin> ls_holds s" "(own, True) \<notin># ls_down ?s"
    unfolding places_def n by (auto simp: not_in_iff n split: if_splits)
  show ?case
  proof (cases "holder (ls_resource s) = Some own")
    case True
    with lock_inv_free [OF inv', of own] gone show ?thesis by (simp add: lock_rejected_def)
  next
    case False
    with inv' show ?thesis by (simp add: lock_rejected_def parent_does_def)
  qed
next
  case (unlock_report_lost own s)
  then show ?case by (intro lock_inv_lose_down)
next
  case (timeout s own)
  then show ?case by (intro lock_inv_forget) auto
next
  case (event_lost s e)
  then show ?case by (intro lock_inv_lose_up)
next
  case (job_done s t)
  have "lock_inv (s\<lparr>ls_holds := {own \<in> ls_holds s. fst own \<noteq> t}\<rparr>)"
    using job_done.prems by (rule lock_inv_drop_holds) blast
  from lock_inv_release_thread [OF this, of t] job_done.hyps show ?case by auto
next
  case (thread_restarted s t)
  have "lock_inv (s\<lparr>ls_holds := {own \<in> ls_holds s. fst own \<noteq> t}\<rparr>)"
    using thread_restarted.prems by (rule lock_inv_drop_holds) blast
  then have "lock_inv (s\<lparr>ls_holds := {own \<in> ls_holds s. fst own \<noteq> t},
      ls_pending := (\<lambda>own. if fst own = t then None else ls_pending s own)\<rparr>)"
    using lock_inv_forget [of _ "\<lambda>own. if fst own = t then None else ls_pending s own"] by simp
  from lock_inv_release_thread [OF this, of t] show ?case by auto
qed

lemma lock_inv_reachable: "lock_reachable s \<Longrightarrow> lock_inv s"
  unfolding lock_reachable_def
  by (induction rule: rtranclp_induct) (auto intro: lock_inv_init lock_inv_step)

text \<open>C24. At any time at most one request holds a resource: whatever the order in which lock and unlock
  events, reports, failed reports, time-outs, finished jobs and restarted threads come, two calls of
  \<open>aquire\<close> that have returned and were not released yet are the same call, and the parent knows it
  as the holder. The termination of a whole worker set, which frees the locks of a thread whose job still
  runs, is not among the events.\<close>

theorem lock_mutual_exclusion:
  assumes "lock_reachable s" and "own1 \<in> ls_holds s" and "own2 \<in> ls_holds s"
  shows "own1 = own2 \<and> holder (ls_resource s) = Some own1"
  using inv_holds [OF lock_inv_reachable [OF assms(1)] assms(2)] inv_holds [OF lock_inv_reachable [OF assms(1)] assms(3)]
  by simp

text \<open>One thread asks, the parent grants, the report arrives.\<close>

definition ex_locked :: lock_system where
  "ex_locked = \<lparr>ls_resource = \<lparr>holder = Some (''t'', ''l''), waitingWorkers = []\<rparr>,
     ls_pending = (\<lambda>_. None), ls_up = {#}, ls_down = {#}, ls_holds = {(''t'', ''l'')}, ls_used = {(''t'', ''l'')}\<rparr>"

lemma ex_locked_reachable: "lock_reachable ex_locked"
proof -
  let ?o = "(''t'', ''l'')"
  let ?s1 = "init_locks\<lparr>ls_used := {?o}, ls_pending := (\<lambda>_. None)(?o := Some PendAquire), ls_up := {#(?o, True)#}\<rparr>"
  let ?s2 = "parent_does (handle_lock ?o (ls_resource ?s1)) (?s1\<lparr>ls_up := ls_up ?s1 - {#(?o, True)#}\<rparr>)"
  have "lock_step init_locks ?s1"
    using aquire_call [of ?o init_locks] by (simp add: init_locks_def)
  moreover have "lock_step ?s1 ?s2" by (rule parent_lock) simp
  moreover have "lock_step ?s2 ex_locked"
    using granted [of ?o ?s2]
    by (simp add: ex_locked_def parent_does_def handle_lock_def lockNextWorker_def init_locks_def new_resource_def fun_upd_idem)
  ultimately show ?thesis
    unfolding lock_reachable_def by (meson converse_rtranclp_into_rtranclp rtranclp.rtrancl_refl)
qed

lemma lock_mutual_exclusion_witness:
  "lock_reachable ex_locked \<and> (''t'', ''l'') \<in> ls_holds ex_locked
   \<and> holder (ls_resource ex_locked) = Some (''t'', ''l'')"
  using lock_mutual_exclusion [OF ex_locked_reachable, of "(''t'', ''l'')" "(''t'', ''l'')"] ex_locked_reachable
  by (simp add: ex_locked_def)

section \<open>Progress of the queue\<close>

text \<open>What happens to one resource of the parent.\<close>

datatype resource_event =
    EvLock OwnerAndLockIds
  | EvUnlock OwnerAndLockIds
  | EvRejected OwnerAndLockIds
  | EvReleaseThread string

fun resource_does :: "resource_event \<Rightarrow> LockResource \<Rightarrow> LockResource \<times> lock_report list" where
  "resource_does (EvLock own) r = handle_lock own r"
| "resource_does (EvUnlock own) r = handle_unlock own r"
| "resource_does (EvRejected own) r = lock_rejected own r"
| "resource_does (EvReleaseThread t) r = release_thread t r"

fun resource_run :: "resource_event list \<Rightarrow> LockResource \<Rightarrow> LockResource \<times> lock_report list" where
  "resource_run [] r = (r, [])"
| "resource_run (e # es) r =
     (let (r, ns) = resource_does e r; (r, ns') = resource_run es r in (r, ns @ ns'))"

text \<open>The events that take the lock from its holder, counted along a run.\<close>

fun frees :: "resource_event \<Rightarrow> LockResource \<Rightarrow> bool" where
  "frees (EvLock own) r = False"
| "frees (EvUnlock own) r = (holder r = Some own)"
| "frees (EvRejected own) r = (holder r = Some own)"
| "frees (EvReleaseThread t) r = (case holder r of None \<Rightarrow> False | Some h \<Rightarrow> fst h = t)"

fun times_freed :: "resource_event list \<Rightarrow> LockResource \<Rightarrow> nat" where
  "times_freed [] r = 0"
| "times_freed (e # es) r = (if frees e r then 1 else 0) + times_freed es (fst (resource_does e r))"

definition no_idle :: "LockResource \<Rightarrow> bool" where
  "no_idle r = (holder r = None \<longrightarrow> waitingWorkers r = [])"

lemma no_idle_next: "no_idle (fst (lockNextWorker r))"
  by (cases r rule: lockNextWorker_cases) (auto simp: no_idle_def)

lemma no_idle_does: "no_idle r \<Longrightarrow> no_idle (fst (resource_does e r))"
proof (cases e)
  case (EvReleaseThread t)
  assume "no_idle r"
  then show ?thesis
    using EvReleaseThread no_idle_next
    by (auto simp: release_thread_def Let_def split: option.split) (auto simp: no_idle_def)
qed (auto simp: handle_lock_def handle_unlock_def lock_rejected_def case_prod_beta no_idle_next)

lemma no_idle_run: "no_idle r \<Longrightarrow> no_idle (fst (resource_run es r))"
  by (induction es arbitrary: r) (auto simp: case_prod_beta Let_def intro: no_idle_does)

lemma in_take_filter: "x \<in> set (take n xs) \<Longrightarrow> Q x \<Longrightarrow> x \<in> set (take n (filter Q xs))"
proof (induction xs arbitrary: n)
  case (Cons y xs)
  then show ?case
    by (cases n) (auto dest: set_take_subset_set_take [of n "Suc n", THEN subsetD] split: if_splits
        intro: subsetD [OF set_take_subset_set_take [OF le_SucI [OF order_refl]]])
qed simp

text \<open>The lock goes to the first of the queue when it is taken from its holder.\<close>

lemma next_in_take:
  assumes "own \<in> set (take (Suc k) (waitingWorkers r))"
  shows "(own, True) \<in> set (snd (lockNextWorker (r\<lparr>holder := None\<rparr>)))
    \<or> (\<exists>k'. k = Suc k' \<and> own \<in> set (take (Suc k') (waitingWorkers (fst (lockNextWorker (r\<lparr>holder := None\<rparr>))))))"
  using assms by (cases "waitingWorkers r"; cases k) (auto simp: lockNextWorker_def)

lemma does_in_take:
  assumes "no_idle r" and "own \<in> set (take (Suc k) (waitingWorkers r))" and "e \<noteq> EvReleaseThread (fst own)"
  shows "(own, True) \<in> set (snd (resource_does e r))
    \<or> (if frees e r then \<exists>k'. k = Suc k' \<and> own \<in> set (take (Suc k') (waitingWorkers (fst (resource_does e r))))
       else own \<in> set (take (Suc k) (waitingWorkers (fst (resource_does e r)))))"
proof -
  have "waitingWorkers r \<noteq> []" using assms(2) by auto
  then obtain h where h: "holder r = Some h" using assms(1) by (auto simp: no_idle_def)
  show ?thesis
  proof (cases e)
    case (EvLock own')
    then show ?thesis using assms(2) h by (auto simp: handle_lock_def lockNextWorker_def)
  next
    case (EvUnlock own')
    show ?thesis
    proof (cases "own' = h")
      case True
      with EvUnlock h next_in_take [OF assms(2)] show ?thesis by (auto simp: handle_unlock_def case_prod_beta)
    next
      case False
      with EvUnlock h assms(2) show ?thesis by (auto simp: handle_unlock_def lockNextWorker_def)
    qed
  next
    case (EvRejected own')
    show ?thesis
    proof (cases "own' = h")
      case True
      with EvRejected h next_in_take [OF assms(2)] show ?thesis by (auto simp: lock_rejected_def)
    next
      case False
      with EvRejected h assms(2) show ?thesis by (auto simp: lock_rejected_def)
    qed
  next
    case (EvReleaseThread t)
    let ?r = "r\<lparr>waitingWorkers := filter (\<lambda>w. fst w \<noteq> t) (waitingWorkers r)\<rparr>"
    have mem: "own \<in> set (take (Suc k) (waitingWorkers ?r))"
      using in_take_filter [OF assms(2), of "\<lambda>w. fst w \<noteq> t"] EvReleaseThread assms(3) by simp
    show ?thesis
    proof (cases "fst h = t")
      case True
      with EvReleaseThread h next_in_take [OF mem] \<open>waitingWorkers r \<noteq> []\<close> show ?thesis
        by (auto simp: release_thread_def Let_def)
    next
      case False
      with EvReleaseThread h mem \<open>waitingWorkers r \<noteq> []\<close> show ?thesis
        by (auto simp: release_thread_def Let_def)
    qed
  qed
qed

lemma run_in_take:
  "no_idle r \<Longrightarrow> own \<in> set (take (Suc k) (waitingWorkers r)) \<Longrightarrow> EvReleaseThread (fst own) \<notin> set es
   \<Longrightarrow> k < times_freed es r \<Longrightarrow> (own, True) \<in> set (snd (resource_run es r))"
proof (induction es arbitrary: r k)
  case (Cons e es)
  have idle: "no_idle (fst (resource_does e r))" using Cons.prems(1) by (rule no_idle_does)
  have "e \<noteq> EvReleaseThread (fst own)" using Cons.prems(3) by auto
  from does_in_take [OF Cons.prems(1,2) this]
  consider "(own, True) \<in> set (snd (resource_does e r))"
    | k' where "frees e r" "k = Suc k'" "own \<in> set (take (Suc k') (waitingWorkers (fst (resource_does e r))))"
    | "\<not> frees e r" "own \<in> set (take (Suc k) (waitingWorkers (fst (resource_does e r))))"
    by (auto split: if_splits)
  then show ?case
  proof cases
    case 1
    then show ?thesis by (simp add: case_prod_beta Let_def)
  next
    case (2 k')
    then show ?thesis using Cons.IH [OF idle 2(3)] Cons.prems(3,4) by (simp add: case_prod_beta Let_def)
  next
    case 3
    then show ?thesis using Cons.IH [OF idle 3(2)] Cons.prems(3,4) by (simp add: case_prod_beta Let_def)
  qed
qed simp

text \<open>C33. Nobody waits for ever: a request that is the (k+1)-th of the queue is told that it has the lock
  by the time the lock has been taken from its holders k+1 times, whether by a release, by a report
  that failed or by the end of a thread's job, and whatever else happens to the resource, unless its
  own thread gives up its locks.\<close>

theorem waiting_request_granted:
  assumes "r = fst (resource_run before new_resource)" and "k < length (waitingWorkers r)"
    and "EvReleaseThread (fst (waitingWorkers r ! k)) \<notin> set es" and "k < times_freed es r"
  shows "(waitingWorkers r ! k, True) \<in> set (snd (resource_run es r))"
proof (rule run_in_take [OF _ _ assms(3,4)])
  show "no_idle r"
    unfolding assms(1) by (rule no_idle_run) (simp add: no_idle_def new_resource_def)
  show "waitingWorkers r ! k \<in> set (take (Suc k) (waitingWorkers r))"
    using assms(2) by (auto simp: in_set_conv_nth intro!: exI [of _ k])
qed

lemma waiting_request_granted_witness:
  "((''c'', ''3''), True) \<in> set (snd (resource_run [EvUnlock (''a'', ''1''), EvReleaseThread ''b'']
     \<lparr>holder = Some (''a'', ''1''), waitingWorkers = [(''b'', ''2''), (''c'', ''3'')]\<rparr>))"
proof -
  have r: "fst (resource_run [EvLock (''a'', ''1''), EvLock (''b'', ''2''), EvLock (''c'', ''3'')] new_resource) =
      \<lparr>holder = Some (''a'', ''1''), waitingWorkers = [(''b'', ''2''), (''c'', ''3'')]\<rparr>"
    by (simp add: handle_lock_def lockNextWorker_def new_resource_def)
  show ?thesis
    using waiting_request_granted [OF r [symmetric], of 1 "[EvUnlock (''a'', ''1''), EvReleaseThread ''b'']"]
    by (simp add: handle_unlock_def lockNextWorker_def)
qed

end
