(* ===== verification/Job_Queue.thy ===== *)
theory Job_Queue
  imports Sofie_Prelude
begin

text \<open>
  The queues that hand the jobs of core to the worker threads: \<open>meteor/server/worker/worker.ts\<close>. The
  promises a worker waits on are numbered; what the code does to promises, to completion handlers and
  to the metrics is a trace of effects, in which queueing and handing out a job are recorded too.
\<close>

section \<open>State\<close>

record JobSpec =
  job_id :: string
  job_name :: string
  job_data :: string

record JobEntry =
  spec :: JobSpec
  completionHandler :: bool  \<comment> \<open>there is one: the job is not shoot-and-forget\<close>

record JobQueue =
  jobs :: "JobEntry option list"  \<comment> \<open>\<open>null\<close> interrupts the worker\<close>
  notifyWorker :: "nat option"
  metricsTotal :: nat
  metricsSuccess :: nat
  metricsErrors :: nat

record RunningJob =
  rj_queueName :: string
  rj_completionHandler :: bool

datatype job_effect =
    Queued string JobEntry
  | HandedOut string JobEntry
  | NotifyResolved nat
  | NotifyRejected nat
  | JobCompleted string time time bool  \<comment> \<open>the completion handler runs; with an error or not\<close>

record job_state =
  queues :: "(string, JobQueue) js_map"
  runningJobs :: "(string, RunningJob) js_map"
  next_promise :: nat
  effects :: "job_effect list"

definition empty_queue :: JobQueue where
  "empty_queue = \<lparr>jobs = [], notifyWorker = None, metricsTotal = 0, metricsSuccess = 0, metricsErrors = 0\<rparr>"

definition init_jobs :: job_state where
  "init_jobs = \<lparr>queues = [], runningJobs = [], next_promise = 0, effects = []\<rparr>"

section \<open>Operations\<close>

definition getOrCreateQueue :: "string \<Rightarrow> job_state \<Rightarrow> JobQueue" where
  \<comment> \<open>every caller writes the queue back, which creates it\<close>
  "getOrCreateQueue name s = nullish (map_get (queues s) name) empty_queue"

definition put_queue :: "string \<Rightarrow> JobQueue \<Rightarrow> job_state \<Rightarrow> job_state" where
  "put_queue name q s = s\<lparr>queues := map_set name q (queues s)\<rparr>"

definition emit :: "job_effect list \<Rightarrow> job_state \<Rightarrow> job_state" where
  "emit es s = s\<lparr>effects := effects s @ es\<rparr>"

definition waitForNextJob :: "string \<Rightarrow> job_state \<Rightarrow> nat option \<times> job_state" where
  \<comment> \<open>None: there is a job already; otherwise the promise to wait on\<close>
  "waitForNextJob name s =
     (let q = getOrCreateQueue name s in
      if jobs q \<noteq> [] then (None, put_queue name q s)
      else let n = next_promise s;
               s = (case notifyWorker q of None \<Rightarrow> s | Some old \<Rightarrow> emit [NotifyRejected old] s)
           in (Some n, (put_queue name (q\<lparr>notifyWorker := Some n\<rparr>) s)\<lparr>next_promise := Suc n\<rparr>))"

definition getNextJob :: "string \<Rightarrow> job_state \<Rightarrow> JobSpec option \<times> job_state" where
  "getNextJob name s =
     (let q = getOrCreateQueue name s in
      case jobs q of
        [] \<Rightarrow> (None, put_queue name q s)
      | None # rest \<Rightarrow> (None, put_queue name (q\<lparr>jobs := rest\<rparr>) s)
      | Some job # rest \<Rightarrow>
          (Some (spec job),
           emit [HandedOut name job]
             ((put_queue name (q\<lparr>jobs := rest\<rparr>) s)\<lparr>runningJobs :=
                map_set (job_id (spec job))
                  \<lparr>rj_queueName = name, rj_completionHandler = completionHandler job\<rparr> (runningJobs s)\<rparr>)))"

definition interruptJobStream :: "string \<Rightarrow> job_state \<Rightarrow> job_state" where
  "interruptJobStream name s =
     (let q = getOrCreateQueue name s in
      case notifyWorker q of
        Some old \<Rightarrow> emit [NotifyResolved old] (put_queue name (q\<lparr>notifyWorker := None\<rparr>) s)
      | None \<Rightarrow> put_queue name (q\<lparr>jobs := None # jobs q\<rparr>) s)"

definition queueJobInner :: "string \<Rightarrow> JobEntry \<Rightarrow> job_state \<Rightarrow> job_state" where
  "queueJobInner name jobToQueue s =
     (let q = getOrCreateQueue name s;
          q = q\<lparr>jobs := jobs q @ [Some jobToQueue], metricsTotal := Suc (metricsTotal q)\<rparr>;
          s = emit [Queued name jobToQueue] s
      in case notifyWorker q of
           Some notify \<Rightarrow> emit [NotifyResolved notify] (put_queue name (q\<lparr>notifyWorker := None\<rparr>) s)
         | None \<Rightarrow> put_queue name q s)"

definition queueJobWithoutResult :: "string \<Rightarrow> JobSpec \<Rightarrow> job_state \<Rightarrow> job_state" where
  \<comment> \<open>the id is a random string, drawn by the caller here\<close>
  "queueJobWithoutResult name job s = queueJobInner name \<lparr>spec = job, completionHandler = False\<rparr> s"

definition queueJobAndWrapResult :: "string \<Rightarrow> JobSpec \<Rightarrow> job_state \<Rightarrow> job_state" where
  "queueJobAndWrapResult name job s = queueJobInner name \<lparr>spec = job, completionHandler = True\<rparr> s"

definition count_result :: "string \<Rightarrow> bool \<Rightarrow> job_state \<Rightarrow> job_state" where
  \<comment> \<open>the metrics of the queue of a finished job\<close>
  "count_result name err s =
     (case map_get (queues s) name of
        None \<Rightarrow> s
      | Some q \<Rightarrow> put_queue name
          (if err then q\<lparr>metricsErrors := Suc (metricsErrors q)\<rparr>
           else q\<lparr>metricsSuccess := Suc (metricsSuccess q)\<rparr>) s)"

definition finish_one :: "string \<Rightarrow> RunningJob \<Rightarrow> time \<Rightarrow> time \<Rightarrow> bool \<Rightarrow> job_state \<Rightarrow> job_state" where
  "finish_one i job startedTime finishedTime err s =
     (let s = count_result (rj_queueName job) err s
      in if rj_completionHandler job then emit [JobCompleted i startedTime finishedTime err] s else s)"

definition jobFinished :: "string \<Rightarrow> time \<Rightarrow> time \<Rightarrow> bool \<Rightarrow> job_state \<Rightarrow> job_state" where
  "jobFinished i startedTime finishedTime err s =
     (case map_get (runningJobs s) i of
        None \<Rightarrow> s
      | Some job \<Rightarrow>
          finish_one i job startedTime finishedTime err (s\<lparr>runningJobs := map_del i (runningJobs s)\<rparr>))"

definition thread_closed :: "time \<Rightarrow> job_state \<Rightarrow> job_state" where
  \<comment> \<open>reject all running jobs\<close>
  "thread_closed now s =
     (fold (\<lambda>(i, job). finish_one i job now now True) (runningJobs s) s)\<lparr>runningJobs := []\<rparr>"

datatype job_op =
    WaitForNextJob string
  | GetNextJob string
  | InterruptJobStream string
  | QueueJob string JobEntry
  | JobFinished string time time bool
  | ThreadClosed time

fun job_step :: "job_op \<Rightarrow> job_state \<Rightarrow> job_state" where
  "job_step (WaitForNextJob name) s = snd (waitForNextJob name s)"
| "job_step (GetNextJob name) s = snd (getNextJob name s)"
| "job_step (InterruptJobStream name) s = interruptJobStream name s"
| "job_step (QueueJob name job) s = queueJobInner name job s"
| "job_step (JobFinished i st ft err) s = jobFinished i st ft err s"
| "job_step (ThreadClosed now) s = thread_closed now s"

definition job_run :: "job_op list \<Rightarrow> job_state" where
  "job_run ops = fold job_step ops init_jobs"

section \<open>First in, first out\<close>

fun queued_in :: "string \<Rightarrow> job_effect \<Rightarrow> JobEntry list" where
  "queued_in name (Queued n j) = (if n = name then [j] else [])"
| "queued_in name _ = []"

fun handed_from :: "string \<Rightarrow> job_effect \<Rightarrow> JobEntry list" where
  "handed_from name (HandedOut n j) = (if n = name then [j] else [])"
| "handed_from name _ = []"

definition all_queued :: "string \<Rightarrow> job_state \<Rightarrow> JobEntry list" where
  "all_queued name s = concat (map (queued_in name) (effects s))"

definition all_handed :: "string \<Rightarrow> job_state \<Rightarrow> JobEntry list" where
  "all_handed name s = concat (map (handed_from name) (effects s))"

definition waiting_jobs :: "JobQueue \<Rightarrow> JobEntry list" where
  "waiting_jobs q = List.map_filter id (jobs q)"

lemma getOrCreateQueue_simps [simp]:
  "getOrCreateQueue n (put_queue m q s) = (if n = m then q else getOrCreateQueue n s)"
  "getOrCreateQueue n (emit es s) = getOrCreateQueue n s"
  "getOrCreateQueue n (s\<lparr>runningJobs := r\<rparr>) = getOrCreateQueue n s"
  "getOrCreateQueue n (s\<lparr>next_promise := p\<rparr>) = getOrCreateQueue n s"
  by (simp_all add: getOrCreateQueue_def put_queue_def emit_def)

lemma effects_simps [simp]:
  "effects (put_queue m q s) = effects s"
  "effects (emit es s) = effects s @ es"
  by (simp_all add: put_queue_def emit_def)

definition fifo_inv :: "string \<Rightarrow> job_state \<Rightarrow> bool" where
  "fifo_inv name s =
     (all_queued name s = all_handed name s @ waiting_jobs (getOrCreateQueue name s)
      \<and> (notifyWorker (getOrCreateQueue name s) = None \<or> jobs (getOrCreateQueue name s) = []))"

lemma count_result_queue:
  "jobs (getOrCreateQueue n (count_result m err s)) = jobs (getOrCreateQueue n s)"
  "notifyWorker (getOrCreateQueue n (count_result m err s)) = notifyWorker (getOrCreateQueue n s)"
  "effects (count_result m err s) = effects s"
  by (auto simp: count_result_def getOrCreateQueue_def put_queue_def split: option.split)

lemma fifo_inv_cong:
  "fifo_inv name s \<Longrightarrow> jobs (getOrCreateQueue name s') = jobs (getOrCreateQueue name s)
   \<Longrightarrow> notifyWorker (getOrCreateQueue name s') = notifyWorker (getOrCreateQueue name s)
   \<Longrightarrow> all_queued name s' = all_queued name s \<Longrightarrow> all_handed name s' = all_handed name s \<Longrightarrow> fifo_inv name s'"
  by (simp add: fifo_inv_def waiting_jobs_def)

lemma fifo_inv_finished: "fifo_inv name s \<Longrightarrow> fifo_inv name (finish_one i job st ft err s)"
  by (erule fifo_inv_cong) (simp_all add: finish_one_def Let_def count_result_queue all_queued_def all_handed_def)

lemma fifo_inv_clear: "fifo_inv name (s\<lparr>runningJobs := r\<rparr>) = fifo_inv name s"
  by (simp add: fifo_inv_def all_queued_def all_handed_def)

lemma fifo_inv_thread_closed: "fifo_inv name s \<Longrightarrow> fifo_inv name (thread_closed now s)"
proof -
  have "fifo_inv name s \<Longrightarrow> fifo_inv name (fold (\<lambda>(i, job). finish_one i job now now True) js s)" for js
    by (induction js arbitrary: s) (auto simp: fifo_inv_finished)
  then show "fifo_inv name s \<Longrightarrow> ?thesis" by (simp add: thread_closed_def fifo_inv_clear)
qed

lemma fifo_inv_step: "fifo_inv name s \<Longrightarrow> fifo_inv name (job_step op s)"
proof (induction op s rule: job_step.induct)
  case (1 n s)
  then show ?case
    by (auto simp: waitForNextJob_def fifo_inv_def all_queued_def all_handed_def waiting_jobs_def Let_def split: option.splits)
next
  case (2 n s)
  then show ?case
    by (auto simp: getNextJob_def fifo_inv_def all_queued_def all_handed_def waiting_jobs_def map_filter_def Let_def
        split: list.splits option.splits)
next
  case (3 n s)
  then show ?case
    by (auto simp: interruptJobStream_def fifo_inv_def all_queued_def all_handed_def waiting_jobs_def map_filter_def Let_def
        split: option.splits)
next
  case (4 n job s)
  then show ?case
    by (auto simp: queueJobInner_def fifo_inv_def all_queued_def all_handed_def waiting_jobs_def map_filter_def Let_def
        split: option.splits)
next
  case (5 i st ft err s)
  then show ?case
    by (auto simp: jobFinished_def fifo_inv_clear intro!: fifo_inv_finished split: option.splits)
next
  case (6 now s)
  then show ?case by (simp add: fifo_inv_thread_closed)
qed

lemma fifo_inv_run: "fifo_inv name (job_run ops)"
proof -
  have "fifo_inv name (fold job_step ops s)" if "fifo_inv name s" for s
    using that by (induction ops arbitrary: s) (simp_all add: fifo_inv_step)
  moreover have "fifo_inv name init_jobs"
    by (simp add: fifo_inv_def init_jobs_def all_queued_def all_handed_def getOrCreateQueue_def empty_queue_def waiting_jobs_def)
  ultimately show ?thesis unfolding job_run_def by blast
qed

text \<open>The jobs of a queue are handed out in the order in which they were queued, each once, and none
  is lost: at any time the jobs queued are those handed out followed by those waiting, whatever
  workers wait, are interrupted, finish or close; and a worker only waits for a notification while
  nothing is in its queue.\<close>

theorem jobs_first_in_first_out:
  "all_queued name (job_run ops) = all_handed name (job_run ops) @ waiting_jobs (getOrCreateQueue name (job_run ops))
   \<and> (notifyWorker (getOrCreateQueue name (job_run ops)) = None \<or> jobs (getOrCreateQueue name (job_run ops)) = [])"
  using fifo_inv_run [of name ops] by (simp add: fifo_inv_def)

section \<open>Completion\<close>

fun queued_any :: "job_effect \<Rightarrow> JobEntry list" where
  "queued_any (Queued n j) = [j]"
| "queued_any _ = []"

fun handed_any :: "job_effect \<Rightarrow> JobEntry list" where
  "handed_any (HandedOut n j) = [j]"
| "handed_any _ = []"

abbreviation entry_id :: "JobEntry \<Rightarrow> string" where
  "entry_id j \<equiv> job_id (spec j)"

text \<open>The ids drawn for the jobs queued so far are different.\<close>

definition ids_distinct :: "job_state \<Rightarrow> bool" where
  "ids_distinct s = distinct (map entry_id (concat (map queued_any (effects s))))"

definition completions :: "string \<Rightarrow> job_state \<Rightarrow> nat" where
  "completions i s = length (filter (\<lambda>e. case e of JobCompleted j _ _ _ \<Rightarrow> j = i | _ \<Rightarrow> False) (effects s))"

definition awaits_completion :: "string \<Rightarrow> job_state \<Rightarrow> nat" where
  "awaits_completion i s =
     (case map_get (runningJobs s) i of None \<Rightarrow> 0 | Some r \<Rightarrow> if rj_completionHandler r then 1 else 0)"

definition handed_with_handler :: "string \<Rightarrow> job_state \<Rightarrow> nat" where
  "handed_with_handler i s =
     length (filter (\<lambda>j. entry_id j = i \<and> completionHandler j) (concat (map handed_any (effects s))))"

definition completion_inv :: "job_state \<Rightarrow> bool" where
  "completion_inv s =
     (map_wf (runningJobs s)
      \<and> fst ` set (runningJobs s) \<subseteq> entry_id ` set (concat (map handed_any (effects s)))
      \<and> (\<forall>i. completions i s + awaits_completion i s = handed_with_handler i s))"

lemma queued_in_any: "set (queued_in k e) \<subseteq> set (queued_any e)"
  by (cases e) auto

lemma queued_in_subset: "set (concat (map (queued_in k) es)) \<subseteq> set (concat (map queued_any es))"
  by (auto dest!: subsetD [OF queued_in_any])

lemma handed_any_from: "j \<in> set (handed_any e) \<Longrightarrow> \<exists>m. j \<in> set (handed_from m e)"
  by (cases e) auto

lemma queued_disjoint:
  "distinct (map entry_id (concat (map queued_any es))) \<Longrightarrow> n \<noteq> m
   \<Longrightarrow> x \<in> set (concat (map (queued_in n) es)) \<Longrightarrow> y \<in> set (concat (map (queued_in m) es)) \<Longrightarrow> entry_id x \<noteq> entry_id y"
proof (induction es)
  case (Cons e es)
  note sub = queued_in_subset [of _ es]
  show ?case
  proof (cases e)
    case (Queued k j)
    then have "entry_id j \<noteq> entry_id z" if "z \<in> set (concat (map (queued_in l) es))" for z l
      using Cons.prems(1) sub [of l] that by auto
    then show ?thesis using Cons Queued by (auto split: if_splits) metis+
  qed (use Cons in auto)
qed simp

lemma distinct_queued_in:
  "distinct (map entry_id (concat (map queued_any es))) \<Longrightarrow> distinct (map entry_id (concat (map (queued_in n) es)))"
proof (induction es)
  case (Cons e es)
  have "set (concat (map (queued_in n) es)) \<subseteq> set (concat (map queued_any es))" by (rule queued_in_subset)
  with Cons show ?case by (cases e) auto
qed simp

lemma handed_any_in: "j \<in> set (concat (map handed_any es)) \<Longrightarrow> \<exists>m. j \<in> set (concat (map (handed_from m) es))"
  using handed_any_from by (induction es) fastforce+

text \<open>A job about to be handed out was not handed out before.\<close>

lemma fresh_handed:
  assumes "ids_distinct s" and "\<And>m. fifo_inv m s" and "j \<in> set (waiting_jobs (getOrCreateQueue name s))"
  shows "entry_id j \<notin> entry_id ` set (concat (map handed_any (effects s)))"
proof
  assume "entry_id j \<in> entry_id ` set (concat (map handed_any (effects s)))"
  then obtain j' m where j': "entry_id j = entry_id j'" "j' \<in> set (all_handed m s)"
    using handed_any_in unfolding all_handed_def by (metis imageE)
  have q: "all_queued k s = all_handed k s @ waiting_jobs (getOrCreateQueue k s)" for k
    using assms(2) by (simp add: fifo_inv_def)
  show False
  proof (cases "m = name")
    case True
    have "distinct (map entry_id (all_queued name s))"
      using assms(1) distinct_queued_in unfolding ids_distinct_def all_queued_def by blast
    then show False using q [of name] j' assms(3) True by (auto simp: image_iff)
  next
    case False
    have "j' \<in> set (all_queued m s)" "j \<in> set (all_queued name s)" using q j'(2) assms(3) by simp_all
    then show False
      using queued_disjoint assms(1) False j'(1) unfolding ids_distinct_def all_queued_def by metis
  qed
qed

lemma completions_simps [simp]:
  "completions i (put_queue m q s) = completions i s"
  "completions i (s\<lparr>runningJobs := r\<rparr>) = completions i s"
  "completions i (s\<lparr>next_promise := n\<rparr>) = completions i s"
  "completions i (count_result m err s) = completions i s"
  "completions i (emit es s) =
     completions i s + length (filter (\<lambda>e. case e of JobCompleted j _ _ _ \<Rightarrow> j = i | _ \<Rightarrow> False) es)"
  by (simp_all add: completions_def count_result_queue)

lemma completion_inv_cong:
  "completion_inv s \<Longrightarrow> runningJobs s' = runningJobs s \<Longrightarrow> (\<And>i. completions i s' = completions i s)
   \<Longrightarrow> concat (map handed_any (effects s')) = concat (map handed_any (effects s)) \<Longrightarrow> completion_inv s'"
  by (simp add: completion_inv_def awaits_completion_def handed_with_handler_def)

lemma count_result_running [simp]: "runningJobs (count_result m err s) = runningJobs s"
  by (simp add: count_result_def put_queue_def split: option.split)

lemma put_emit_running [simp]:
  "runningJobs (put_queue m q s) = runningJobs s" "runningJobs (emit es s) = runningJobs s"
  by (simp_all add: put_queue_def emit_def)

lemma finish_one_effects:
  "completions j (finish_one i job st ft err s) =
     completions j s + (if j = i \<and> rj_completionHandler job then 1 else 0)"
  "concat (map handed_any (effects (finish_one i job st ft err s))) = concat (map handed_any (effects s))"
  "runningJobs (finish_one i job st ft err s) = runningJobs s"
  by (auto simp: finish_one_def count_result_queue Let_def)

lemma completion_inv_finish:
  assumes inv: "completion_inv s" and "map_get (runningJobs s) i = Some job"
  shows "completion_inv (finish_one i job st ft err (s\<lparr>runningJobs := map_del i (runningJobs s)\<rparr>))"
proof -
  have "awaits_completion j (finish_one i job st ft err (s\<lparr>runningJobs := map_del i (runningJobs s)\<rparr>)) =
      (if j = i then 0 else awaits_completion j s)" for j
    by (simp add: awaits_completion_def finish_one_effects)
  moreover have "awaits_completion i s = (if rj_completionHandler job then 1 else 0)"
    using assms(2) by (simp add: awaits_completion_def)
  moreover have total: "completions j s + awaits_completion j s = handed_with_handler j s" for j
    using inv by (simp add: completion_inv_def)
  moreover note total [of i]
  moreover have "map_wf (map_del i (runningJobs s))"
    using inv by (simp add: completion_inv_def)
  moreover have "fst ` set (map_del i (runningJobs s)) \<subseteq> entry_id ` set (concat (map handed_any (effects s)))"
    using inv by (auto simp: completion_inv_def map_del_def)
  ultimately show ?thesis
    by (auto simp: completion_inv_def finish_one_effects handed_with_handler_def)
qed

lemma completion_inv_thread_closed:
  assumes "completion_inv s"
  shows "completion_inv (thread_closed now s)"
proof -
  have eff: "concat (map handed_any (effects (fold (\<lambda>(i, job). finish_one i job now now True) js s))) =
        concat (map handed_any (effects s))
      \<and> (map_wf js \<longrightarrow> completions i (fold (\<lambda>(i, job). finish_one i job now now True) js s) =
        completions i s + (case map_get js i of None \<Rightarrow> 0 | Some r \<Rightarrow> if rj_completionHandler r then 1 else 0))" for i js s
    by (induction js arbitrary: s)
      (auto simp: finish_one_effects map_wf_def map_of_eq_None_iff [THEN iffD2] split: option.split)
  show ?thesis
    using assms eff [of "runningJobs s" s] unfolding thread_closed_def
    by (simp add: completion_inv_def awaits_completion_def handed_with_handler_def)
qed

lemma completion_inv_step:
  assumes inv: "completion_inv s" and fifo: "\<And>m. fifo_inv m s" and dist: "ids_distinct s"
  shows "completion_inv (job_step op s)"
proof (cases op)
  case (WaitForNextJob n)
  with inv show ?thesis
    by (auto simp: waitForNextJob_def Let_def split: option.splits elim!: completion_inv_cong)
next
  case (GetNextJob n)
  show ?thesis
  proof (cases "jobs (getOrCreateQueue n s)")
    case Nil
    with inv GetNextJob show ?thesis
      by (auto simp: getNextJob_def Let_def elim!: completion_inv_cong)
  next
    case (Cons e rest)
    show ?thesis
    proof (cases e)
      case None
      with inv GetNextJob Cons show ?thesis
        by (auto simp: getNextJob_def Let_def elim!: completion_inv_cong)
    next
      case (Some job)
      have "job \<in> set (waiting_jobs (getOrCreateQueue n s))"
        using Cons Some by (simp add: waiting_jobs_def map_filter_def)
      from fresh_handed [OF dist fifo this]
      have fresh: "entry_id job \<notin> entry_id ` set (concat (map handed_any (effects s)))" .
      then have "map_get (runningJobs s) (entry_id job) = None"
        using inv by (auto simp: completion_inv_def map_of_eq_None_iff)
      moreover have "handed_with_handler (entry_id job) s = 0"
        using fresh unfolding handed_with_handler_def length_0_conv filter_empty_conv by (metis image_eqI)
      moreover have total: "completions i s + awaits_completion i s = handed_with_handler i s" for i
        using inv by (simp add: completion_inv_def)
      moreover note total [of "entry_id job"]
      ultimately show ?thesis
        using inv GetNextJob Cons Some
        by (auto simp: getNextJob_def completion_inv_def awaits_completion_def
            handed_with_handler_def fst_map_set split: option.splits)
    qed
  qed
next
  case (InterruptJobStream n)
  with inv show ?thesis
    by (auto simp: interruptJobStream_def Let_def split: option.splits elim!: completion_inv_cong)
next
  case (QueueJob n job)
  with inv show ?thesis
    by (auto simp: queueJobInner_def Let_def split: option.splits elim!: completion_inv_cong)
next
  case (JobFinished i st ft err)
  with inv completion_inv_finish [OF inv, of i _ st ft err] show ?thesis
    by (auto simp: jobFinished_def split: option.splits)
next
  case (ThreadClosed now)
  with inv show ?thesis by (simp add: completion_inv_thread_closed)
qed

lemma effects_grow: "\<exists>es. effects (job_step op s) = effects s @ es"
proof -
  have one: "\<exists>es. effects (finish_one i job st ft err s) = effects s @ es" for i job st ft err s
    by (auto simp: finish_one_def Let_def count_result_queue)
  have closed: "\<exists>es. effects (fold (\<lambda>(i, job). finish_one i job now now True) js s) = effects s @ es" for js s now
  proof (induction js arbitrary: s)
    case (Cons j js)
    obtain i job where j: "j = (i, job)" by (cases j)
    obtain es1 where "effects (finish_one i job now now True s) = effects s @ es1" using one by blast
    moreover obtain es2 where "effects (fold (\<lambda>(i, job). finish_one i job now now True) js (finish_one i job now now True s)) =
        effects (finish_one i job now now True s) @ es2"
      using Cons.IH by blast
    ultimately show ?case by (simp add: j)
  qed simp
  show ?thesis
  proof (cases op)
    case (JobFinished i st ft err)
    then show ?thesis
      using one [of i _ st ft err "s\<lparr>runningJobs := map_del i (runningJobs s)\<rparr>"]
      by (auto simp: jobFinished_def split: option.split)
  next
    case (ThreadClosed now)
    then show ?thesis using closed [of now "runningJobs s" s] by (simp add: thread_closed_def)
  qed (auto simp: waitForNextJob_def getNextJob_def interruptJobStream_def queueJobInner_def Let_def
      split: option.split list.split)
qed

lemma completion_inv_run: "ids_distinct (job_run ops) \<Longrightarrow> completion_inv (job_run ops)"
proof (induction ops rule: rev_induct)
  case Nil
  then show ?case
    by (simp add: job_run_def init_jobs_def completion_inv_def completions_def awaits_completion_def handed_with_handler_def map_wf_def)
next
  case (snoc op ops)
  have run: "job_run (ops @ [op]) = job_step op (job_run ops)" by (simp add: job_run_def)
  have "ids_distinct (job_run ops)"
    using snoc.prems effects_grow [of op "job_run ops"] unfolding run ids_distinct_def by auto
  then show ?case
    using completion_inv_step [OF snoc.IH] fifo_inv_run unfolding run by blast
qed

text \<open>C30. When the jobs have different ids, the completion handler of a job runs once and only once: at any
  time the runs of the handlers of an id, and the running job with that id if it has one, are as many as
  the jobs handed out with that id and a handler. So a job that finishes twice, or finishes after its
  thread closed, is answered once, and no answer is given for a job that was not handed out.\<close>

theorem jobs_complete_once:
  assumes "ids_distinct (job_run ops)"
  shows "completions i (job_run ops) + awaits_completion i (job_run ops) = handed_with_handler i (job_run ops)"
  using completion_inv_run [OF assms] by (simp add: completion_inv_def)

lemma jobs_complete_once_witness:
  "let job = \<lparr>spec = \<lparr>job_id = ''1'', job_name = ''take'', job_data = []\<rparr>, completionHandler = True\<rparr>;
       s = job_run [QueueJob ''studio'' job, GetNextJob ''studio'', ThreadClosed 5, JobFinished ''1'' 0 9 False]
   in completions ''1'' s + awaits_completion ''1'' s = 1 \<and> runningJobs s = []"
proof -
  let ?job = "\<lparr>spec = \<lparr>job_id = ''1'', job_name = ''take'', job_data = []\<rparr>, completionHandler = True\<rparr>"
  let ?ops = "[QueueJob ''studio'' ?job, GetNextJob ''studio'', ThreadClosed 5, JobFinished ''1'' 0 9 False]"
  have s: "effects (job_run ?ops) = [Queued ''studio'' ?job, HandedOut ''studio'' ?job, JobCompleted ''1'' 5 5 True]
      \<and> runningJobs (job_run ?ops) = []"
    by code_simp
  then have "ids_distinct (job_run ?ops)" by (simp add: ids_distinct_def)
  from jobs_complete_once [OF this, of "''1''"] s show ?thesis
    by (simp add: handed_with_handler_def)
qed

end
