(* ===== verification/Job_Queue_Classes.thy ===== *)
theory Job_Queue_Classes
  imports Sofie_Prelude "HOL-Library.Sublist"
begin

text \<open>
  \<open>JobQueueWithClasses\<close> of \<open>packages/shared-lib/src/lib/JobQueueWithClasses.ts\<close>: a queue of functions run
  one at a time. A step of the machine is what runs without an \<open>await\<close>: a call, the microtask that a
  call of \<open>start\<close> schedules, the callback of \<open>setImmediate\<close>, or what the loop does when a job is done.
  The wrappers of execution and resolution are not modelled.
\<close>

section \<open>State and operations\<close>

record job_description =
  className :: "string option"
  jq_job :: nat

record job_queue =
  queue :: "job_description list"
  autoStart :: bool
  paused :: bool
  waitForDonePromise :: bool
  scheduledImmediates :: nat  \<comment> \<open>callbacks of \<open>setImmediate\<close> to come\<close>
  scheduledStarts :: nat  \<comment> \<open>calls of \<open>start\<close> whose microtask is to come\<close>
  running :: "nat list"  \<comment> \<open>the job each running loop awaits\<close>
  started :: "nat list"  \<comment> \<open>all jobs whose function was called, in order\<close>
  added :: "nat list"  \<comment> \<open>all jobs added, in order\<close>

definition new_job_queue :: "bool \<Rightarrow> job_queue" where
  "new_job_queue auto = \<lparr>queue = [], autoStart = auto, paused = True, waitForDonePromise = False,
     scheduledImmediates = 0, scheduledStarts = 0, running = [], started = [], added = []\<rparr>"

definition add_job :: "nat \<Rightarrow> string option \<Rightarrow> job_queue \<Rightarrow> job_queue" where
  "add_job j c q =
     (let q = q\<lparr>queue := queue q @ [\<lparr>className = c, jq_job = j\<rparr>], added := added q @ [j]\<rparr>
      in if autoStart q then q\<lparr>scheduledImmediates := Suc (scheduledImmediates q)\<rparr> else q)"

definition clear_queue :: "job_queue \<Rightarrow> job_queue" where
  "clear_queue q = q\<lparr>queue := []\<rparr>"

definition remove_class :: "string option \<Rightarrow> job_queue \<Rightarrow> job_queue" where
  "remove_class c q = q\<lparr>queue := filter (\<lambda>job. className job \<noteq> c) (queue q)\<rparr>"

definition start :: "job_queue \<Rightarrow> job_queue" where
  "start q = (if \<not> paused q then q else q\<lparr>scheduledStarts := Suc (scheduledStarts q)\<rparr>)"

definition run_loop :: "job_queue \<Rightarrow> job_queue" where
  \<comment> \<open>take the first job and call it, or stop\<close>
  "run_loop q =
     (case queue q of
        [] \<Rightarrow> q\<lparr>waitForDonePromise := False, paused := True\<rparr>
      | firstIn # rest \<Rightarrow>
          q\<lparr>queue := rest, running := running q @ [jq_job firstIn], started := started q @ [jq_job firstIn]\<rparr>)"

definition start_microtask :: "job_queue \<Rightarrow> job_queue" where
  "start_microtask q = run_loop (q\<lparr>scheduledStarts := scheduledStarts q - 1, paused := False\<rparr>)"

definition job_settled :: "nat \<Rightarrow> job_queue \<Rightarrow> job_queue" where
  "job_settled j q = run_loop (q\<lparr>running := remove1 j (running q)\<rparr>)"

definition getWaiting :: "job_queue \<Rightarrow> nat" where
  "getWaiting q = length (queue q)"

definition waitForDone :: "job_queue \<Rightarrow> bool \<times> job_queue" where
  \<comment> \<open>whether the promise is resolved at once\<close>
  "waitForDone q = (if queue q = [] then (True, q) else (False, q\<lparr>waitForDonePromise := True\<rparr>))"

section \<open>The machine\<close>

text \<open>
  The microtasks run before the next callback, so a callback of \<open>setImmediate\<close> finds none pending. A
  call of \<open>start\<close> by the user is a step of its own; whether it comes while another is pending is the
  first argument: \<open>calm\<close> users call it at most once before the microtasks run.
\<close>

inductive jq_step :: "bool \<Rightarrow> job_queue \<Rightarrow> job_queue \<Rightarrow> bool" for calm where
  jq_add: "jq_step calm q (add_job j c q)"
| jq_clear: "jq_step calm q (clear_queue q)"
| jq_remove: "jq_step calm q (remove_class c q)"
| jq_wait: "jq_step calm q (snd (waitForDone q))"
| jq_start: "calm \<longrightarrow> scheduledStarts q = 0 \<Longrightarrow> jq_step calm q (start q)"
| jq_immediate: "scheduledStarts q = 0 \<Longrightarrow> scheduledImmediates q = Suc n
    \<Longrightarrow> jq_step calm q (start (q\<lparr>scheduledImmediates := n\<rparr>))"
| jq_microtask: "0 < scheduledStarts q \<Longrightarrow> jq_step calm q (start_microtask q)"
| jq_settled: "j \<in> set (running q) \<Longrightarrow> jq_step calm q (job_settled j q)"

definition jq_reachable :: "bool \<Rightarrow> job_queue \<Rightarrow> bool" where
  "jq_reachable calm q = (\<exists>auto. (jq_step calm)\<^sup>*\<^sup>* (new_job_queue auto) q)"

lemma jq_reachable_step: "jq_reachable calm q \<Longrightarrow> jq_step calm q q' \<Longrightarrow> jq_reachable calm q'"
  unfolding jq_reachable_def by (blast intro: rtranclp.rtrancl_into_rtrancl)

lemma jq_reachable_new: "jq_reachable calm (new_job_queue auto)"
  by (auto simp: jq_reachable_def)

lemma jq_reachable_induct [consumes 1, case_names init step]:
  assumes "jq_reachable calm q" and "\<And>auto. Q (new_job_queue auto)"
    and "\<And>q q'. jq_reachable calm q \<Longrightarrow> Q q \<Longrightarrow> jq_step calm q q' \<Longrightarrow> Q q'"
  shows "Q q"
proof -
  obtain auto where "(jq_step calm)\<^sup>*\<^sup>* (new_job_queue auto) q" using assms(1) by (auto simp: jq_reachable_def)
  then have "jq_reachable calm q \<and> Q q"
  proof (induction rule: rtranclp_induct)
    case base
    show ?case using assms(2) jq_reachable_new by blast
  next
    case (step q q')
    then show ?case using assms(3) jq_reachable_step by blast
  qed
  then show ?thesis ..
qed

section \<open>In order\<close>

text \<open>The jobs called so far, then those waiting, are in the order in which they were added.\<close>

definition in_order :: "job_queue \<Rightarrow> bool" where
  "in_order q = subseq (started q @ map jq_job (queue q)) (added q)"

lemma in_order_run_loop: "in_order q \<Longrightarrow> in_order (run_loop q)"
  by (cases "queue q") (simp_all add: in_order_def run_loop_def)

lemma in_order_filter:
  "in_order q \<Longrightarrow> subseq js (queue q) \<Longrightarrow> in_order (q\<lparr>queue := js\<rparr>)"
  by (simp add: in_order_def, erule subseq_order.order_trans [rotated])
    (simp add: list_emb_append_mono [OF subseq_order.order_refl] subseq_map)

lemma in_order_new: "in_order (new_job_queue auto)"
  by (simp add: in_order_def new_job_queue_def)

lemma in_order_step: "jq_step calm q q' \<Longrightarrow> in_order q \<Longrightarrow> in_order q'"
proof (induction rule: jq_step.induct)
  case (jq_add q j c)
  then have "subseq ((started q @ map jq_job (queue q)) @ [j]) (added q @ [j])"
    unfolding in_order_def by (intro list_emb_append_mono) simp_all
  then show ?case by (simp add: in_order_def add_job_def Let_def)
next
  case (jq_clear q)
  then show ?case using in_order_filter [of q "[]"] by (simp add: clear_queue_def)
next
  case (jq_remove q c)
  then show ?case using in_order_filter [of q "filter (\<lambda>job. className job \<noteq> c) (queue q)"]
    by (simp add: remove_class_def)
next
  case (jq_wait q)
  then show ?case by (cases "queue q") (simp_all add: waitForDone_def in_order_def)
next
  case (jq_microtask q)
  then show ?case unfolding start_microtask_def by (intro in_order_run_loop) (simp add: in_order_def)
next
  case (jq_settled j q)
  then show ?case unfolding job_settled_def by (intro in_order_run_loop) (simp add: in_order_def)
qed (simp_all add: start_def in_order_def)

section \<open>One at a time\<close>

text \<open>Each loop awaits one job, and a loop runs, or will, exactly when the queue is not paused.\<close>

definition one_loop :: "job_queue \<Rightarrow> bool" where
  "one_loop q = (length (running q) + scheduledStarts q \<le> 1 \<and> (paused q = (running q = [])))"

lemma one_loop_new: "one_loop (new_job_queue auto)"
  by (simp add: one_loop_def new_job_queue_def)

lemma one_loop_run_loop:
  "running q = [] \<Longrightarrow> scheduledStarts q = 0 \<Longrightarrow> \<not> paused q \<Longrightarrow> one_loop (run_loop q)"
  by (cases "queue q") (simp_all add: one_loop_def run_loop_def)

lemma one_loop_step: "jq_step True q q' \<Longrightarrow> one_loop q \<Longrightarrow> one_loop q'"
proof (induction rule: jq_step.induct)
  case (jq_microtask q)
  then have "running q = []" "scheduledStarts q = 1" by (cases "running q"; simp add: one_loop_def)+
  then show ?case unfolding start_microtask_def by (intro one_loop_run_loop) simp_all
next
  case (jq_settled j q)
  then have "running q = [j]" "scheduledStarts q = 0" "\<not> paused q"
    by (cases "running q"; auto simp: one_loop_def)+
  then show ?case unfolding job_settled_def by (intro one_loop_run_loop) simp_all
qed (auto simp: one_loop_def add_job_def Let_def clear_queue_def remove_class_def waitForDone_def start_def)

text \<open>C35. As long as \<open>start\<close> is not called twice before its microtask runs, at most one job of the queue runs
  at any time, and the jobs run in the order in which they were added (less those that were cleared or
  removed).\<close>

theorem jobs_run_one_at_a_time:
  assumes "jq_reachable True q"
  shows "length (running q) \<le> 1 \<and> subseq (started q @ map jq_job (queue q)) (added q)"
proof -
  from assms have "one_loop q \<and> in_order q"
    by (induction rule: jq_reachable_induct)
      (use one_loop_new in_order_new one_loop_step in_order_step in blast)+
  then show ?thesis by (auto simp: one_loop_def in_order_def)
qed

theorem jobs_run_one_at_a_time_witness:
  "let q = start_microtask (start (add_job 2 None (add_job 1 None (new_job_queue False))))
   in running q = [1] \<and> length (running q) \<le> 1 \<and> subseq (started q @ map jq_job (queue q)) (added q)"
proof -
  let ?q2 = "add_job 2 None (add_job 1 None (new_job_queue False))"
  have q2: "jq_reachable True ?q2"
    by (rule jq_reachable_step [OF jq_reachable_step [OF jq_reachable_new jq_add] jq_add])
  have "scheduledStarts ?q2 = 0" by (simp add: add_job_def new_job_queue_def)
  then have "jq_reachable True (start ?q2)" by (intro jq_reachable_step [OF q2 jq_start]) simp
  moreover have "0 < scheduledStarts (start ?q2)" by (simp add: start_def add_job_def new_job_queue_def)
  ultimately have "jq_reachable True (start_microtask (start ?q2))" by (intro jq_reachable_step [OF _ jq_microtask])
  moreover have "running (start_microtask (start ?q2)) = [1]"
    by (simp add: start_def start_microtask_def run_loop_def add_job_def new_job_queue_def)
  ultimately show ?thesis unfolding Let_def using jobs_run_one_at_a_time by blast
qed

text \<open>Two calls of \<open>start\<close> before the microtasks run start two loops, and two jobs run at a time: the check
  of \<open>paused\<close> does not see a start that is only scheduled. And \<open>waitForDone\<close> resolves at once although
  a job is still running.\<close>

theorem double_start_runs_two_jobs:
  "\<exists>q. jq_reachable False q \<and> length (running q) = 2 \<and> fst (waitForDone q)"
proof -
  let ?q2 = "add_job 2 None (add_job 1 None (new_job_queue False))"
  let ?q = "start_microtask (start_microtask (start (start ?q2)))"
  have "jq_reachable False (start (start ?q2))"
    by (intro jq_reachable_step [OF _ jq_start] jq_reachable_step [OF _ jq_add] jq_reachable_new) simp_all
  moreover have "0 < scheduledStarts (start (start ?q2))" "0 < scheduledStarts (start_microtask (start (start ?q2)))"
    by (simp_all add: start_def start_microtask_def run_loop_def add_job_def new_job_queue_def)
  ultimately have "jq_reachable False ?q" by (intro jq_reachable_step [OF _ jq_microtask])
  moreover have "length (running ?q) = 2 \<and> fst (waitForDone ?q)"
    by (simp add: start_def start_microtask_def run_loop_def add_job_def new_job_queue_def waitForDone_def)
  ultimately show ?thesis by blast
qed

end
