(* ===== verification/Job_Queue_Drains.thy ===== *)
theory Job_Queue_Drains
  imports Job_Queue_Classes
begin

text \<open>
  A \<open>JobQueueWithClasses\<close> that is left alone comes to rest: what it does by itself, without calls of the
  user, ends, and a queue that starts by itself has then called all its jobs.
\<close>

section \<open>What the queue does by itself\<close>

inductive jq_internal :: "job_queue \<Rightarrow> job_queue \<Rightarrow> bool" where
  ji_immediate: "scheduledStarts q = 0 \<Longrightarrow> scheduledImmediates q = Suc n
    \<Longrightarrow> jq_internal q (start (q\<lparr>scheduledImmediates := n\<rparr>))"
| ji_microtask: "0 < scheduledStarts q \<Longrightarrow> jq_internal q (start_microtask q)"
| ji_settled: "j \<in> set (running q) \<Longrightarrow> jq_internal q (job_settled j q)"

lemma jq_internal_step: "jq_internal q q' \<Longrightarrow> jq_step calm q q'"
  by (induction rule: jq_internal.induct) (auto intro: jq_step.intros)

definition work_left :: "job_queue \<Rightarrow> nat" where
  "work_left q = 2 * scheduledImmediates q + scheduledStarts q + length (queue q) + length (running q)"

lemma work_left_run_loop: "work_left (run_loop q) = work_left q"
  by (cases "queue q") (simp_all add: work_left_def run_loop_def)

lemma jq_internal_work: "jq_internal q q' \<Longrightarrow> work_left q' < work_left q"
proof (induction rule: jq_internal.induct)
  case (ji_immediate q n)
  then show ?case by (simp add: work_left_def start_def)
next
  case (ji_microtask q)
  then show ?case unfolding start_microtask_def work_left_run_loop by (simp add: work_left_def)
next
  case (ji_settled j q)
  then have "0 < length (running q)" by (cases "running q") simp_all
  with ji_settled show ?case unfolding job_settled_def work_left_run_loop
    by (simp add: work_left_def length_remove1)
qed

lemma jq_internal_steps: "(jq_internal ^^ n) q q' \<Longrightarrow> n + work_left q' \<le> work_left q"
  by (induction n arbitrary: q') (auto dest!: jq_internal_work intro: le_trans, fastforce)

section \<open>Nothing is left waiting\<close>

definition awake :: "job_queue \<Rightarrow> bool" where
  "awake q = ((autoStart q \<longrightarrow> queue q \<noteq> [] \<longrightarrow>
       0 < scheduledImmediates q \<or> 0 < scheduledStarts q \<or> running q \<noteq> [])
     \<and> (\<not> paused q \<longrightarrow> running q \<noteq> []))"

lemma awake_run_loop: "awake (run_loop q)"
  by (cases "queue q") (simp_all add: awake_def run_loop_def)

lemma awake_start: "autoStart q = autoStart q' \<Longrightarrow> queue q = queue q' \<Longrightarrow> paused q = paused q' \<Longrightarrow> running q = running q'
    \<Longrightarrow> awake q' \<Longrightarrow> awake (start q)"
  by (auto simp: awake_def start_def)

lemma awake_step: "jq_step calm q q' \<Longrightarrow> awake q \<Longrightarrow> awake q'"
proof (induction rule: jq_step.induct)
  case (jq_add q j c)
  then show ?case by (simp add: awake_def add_job_def Let_def)
next
  case (jq_clear q)
  then show ?case by (simp add: awake_def clear_queue_def)
next
  case (jq_remove q c)
  then show ?case by (auto simp: awake_def remove_class_def)
next
  case (jq_wait q)
  then show ?case by (simp add: awake_def waitForDone_def)
next
  case (jq_start q)
  then show ?case by (intro awake_start) simp_all
next
  case (jq_immediate q n)
  then show ?case by (intro awake_start) simp_all
next
  case (jq_microtask q)
  then show ?case by (simp add: start_microtask_def awake_run_loop)
next
  case (jq_settled j q)
  then show ?case by (simp add: job_settled_def awake_run_loop)
qed

lemma reachable_awake: "jq_reachable calm q \<Longrightarrow> awake q"
proof (induction rule: jq_reachable_induct)
  case (init auto)
  show ?case by (simp add: awake_def new_job_queue_def)
next
  case (step q q')
  then show ?case by (blast intro: awake_step)
qed

lemma run_loop_jobs:
  "started (run_loop q) @ map jq_job (queue (run_loop q)) = started q @ map jq_job (queue q)"
  "autoStart (run_loop q) = autoStart q"
  by (cases "queue q"; simp add: run_loop_def)+

lemma jq_internal_jobs:
  "jq_internal q q' \<Longrightarrow> started q' @ map jq_job (queue q') = started q @ map jq_job (queue q) \<and> autoStart q' = autoStart q"
  by (induction rule: jq_internal.induct)
    (simp_all add: start_def start_microtask_def job_settled_def run_loop_jobs)

lemma internal_steps_facts:
  assumes "(jq_internal ^^ n) q q'" "jq_reachable calm q"
  shows "jq_reachable calm q' \<and> started q' @ map jq_job (queue q') = started q @ map jq_job (queue q)
    \<and> autoStart q' = autoStart q"
  using assms
proof (induction n arbitrary: q')
  case 0
  then show ?case by simp
next
  case (Suc n)
  then obtain r where r: "(jq_internal ^^ n) q r" "jq_internal r q'" by auto
  with Suc jq_internal_jobs [OF r(2)] jq_reachable_step [OF _ jq_internal_step [OF r(2)]]
  show ?case by metis
qed

text \<open>
  C36. Left alone, a queue takes a bounded number of steps, and when no step is left a queue that starts by itself
  has called every job that was waiting, in order and after those called before, and awaits none.
\<close>

theorem job_queue_drains:
  assumes "jq_reachable calm q" and "autoStart q" and steps: "(jq_internal ^^ n) q q'"
  shows "n \<le> 2 * scheduledImmediates q + scheduledStarts q + length (queue q) + length (running q)
    \<and> ((\<nexists>r. jq_internal q' r) \<longrightarrow> queue q' = [] \<and> running q' = [] \<and> started q' = started q @ map jq_job (queue q))"
proof (intro conjI impI)
  show "n \<le> 2 * scheduledImmediates q + scheduledStarts q + length (queue q) + length (running q)"
    using jq_internal_steps [OF steps] by (simp add: work_left_def)
  assume stuck: "\<nexists>r. jq_internal q' r"
  have running: "running q' = []"
    using stuck ji_settled [of "hd (running q')" q'] by (cases "running q'") auto
  have starts: "scheduledStarts q' = 0" using stuck ji_microtask [of q'] by auto
  have immediates: "scheduledImmediates q' = 0"
    using stuck ji_immediate [OF starts] by (cases "scheduledImmediates q'") auto
  from internal_steps_facts [OF steps assms(1)] assms(2)
  have r: "jq_reachable calm q'" "started q' @ map jq_job (queue q') = started q @ map jq_job (queue q)" "autoStart q'"
    by auto
  from reachable_awake [OF r(1)] r(3) running starts immediates show "queue q' = []" by (auto simp: awake_def)
  with r(2) show "started q' = started q @ map jq_job (queue q)" by simp
  show "running q' = []" by (rule running)
qed

definition ex_waiting :: job_queue where
  "ex_waiting = add_job 2 None (add_job 1 (Some ''a'') (new_job_queue True))"

definition ex_drained :: job_queue where
  "ex_drained = start ((job_settled 2 (job_settled 1 (start_microtask
     (start (ex_waiting\<lparr>scheduledImmediates := 1\<rparr>)))))\<lparr>scheduledImmediates := 0\<rparr>)"

lemma job_queue_drains_witness:
  "work_left ex_waiting = 6 \<and> queue (start_microtask ex_drained) = [] \<and> started (start_microtask ex_drained) = [1, 2]"
proof -
  have r: "jq_reachable True ex_waiting"
    unfolding ex_waiting_def using jq_reachable_step [OF jq_reachable_step [OF jq_reachable_new jq_add] jq_add] .
  have 1: "jq_internal ex_waiting (start (ex_waiting\<lparr>scheduledImmediates := 1\<rparr>))"
    by (rule ji_immediate) code_simp+
  define q1 where "q1 = start (ex_waiting\<lparr>scheduledImmediates := 1\<rparr>)"
  have 2: "jq_internal q1 (start_microtask q1)" by (rule ji_microtask) (unfold q1_def, code_simp)
  define q2 where "q2 = start_microtask q1"
  have 3: "jq_internal q2 (job_settled 1 q2)" by (rule ji_settled) (unfold q2_def q1_def, code_simp)
  define q3 where "q3 = job_settled 1 q2"
  have 4: "jq_internal q3 (job_settled 2 q3)" by (rule ji_settled) (unfold q3_def q2_def q1_def, code_simp)
  define q4 where "q4 = job_settled 2 q3"
  have 5: "jq_internal q4 (start (q4\<lparr>scheduledImmediates := 0\<rparr>))"
    by (rule ji_immediate) (unfold q4_def q3_def q2_def q1_def, code_simp+)
  have e: "start (q4\<lparr>scheduledImmediates := 0\<rparr>) = ex_drained"
    by (simp add: ex_drained_def q4_def q3_def q2_def q1_def)
  have 6: "jq_internal ex_drained (start_microtask ex_drained)" by (rule ji_microtask) code_simp
  have "(jq_internal ^^ 6) ex_waiting (start_microtask ex_drained)"
    using 1 2 3 4 5 6 e unfolding q1_def [symmetric] q2_def [symmetric] q3_def [symmetric] q4_def [symmetric]
    by (simp add: numeral_eq_Suc) (blast intro: relcomppI)
  moreover have "autoStart ex_waiting" by code_simp
  moreover have "\<nexists>r. jq_internal (start_microtask ex_drained) r"
    by (auto elim!: jq_internal.cases) code_simp+
  ultimately have "queue (start_microtask ex_drained) = []"
      "started (start_microtask ex_drained) = started ex_waiting @ map jq_job (queue ex_waiting)"
    using job_queue_drains [OF r, of 6] by blast+
  moreover have "started ex_waiting @ map jq_job (queue ex_waiting) = [1, 2]" "work_left ex_waiting = 6" by code_simp+
  ultimately show ?thesis by simp
qed

end
