(* ===== verification/Playout_Part.thy ===== *)
theory Playout_Part
  imports Part_Timings
begin

text \<open>
  A part instance and its piece instances while a playout operation works on them:
  \<open>PlayoutPieceInstanceModelImpl\<close> and \<open>PlayoutPartInstanceModelImpl\<close> of
  \<open>packages/job-worker/src/playout/model/implementation\<close>, with \<open>setupPieceInstanceInfiniteProperties\<close>
  of \<open>playout/pieces.ts\<close>. A removed piece instance stays in the map as \<open>None\<close> until it is saved. The
  current time and random ids are arguments. A member that is absent and one that is \<open>undefined\<close> are
  one value; so are an optional boolean that is absent and one that is false. An error ends the job, and
  the model with it, so a failing operation has no state.
\<close>

section \<open>Piece instances\<close>

record PlayoutPieceInstanceModel =
  PieceInstanceImpl :: PieceInstance
  HasChanges :: bool

type_synonym 'v piece_field = "('v \<Rightarrow> 'v) \<Rightarrow> PieceInstance \<Rightarrow> PieceInstance"

definition setPieceInstanceValue ::
  "'v piece_field \<Rightarrow> 'v \<Rightarrow> PlayoutPieceInstanceModel \<Rightarrow> PlayoutPieceInstanceModel" where
  "setPieceInstanceValue upd newValue m =
     m\<lparr>PieceInstanceImpl := upd (\<lambda>_. newValue) (PieceInstanceImpl m), HasChanges := True\<rparr>"

definition compareAndSetPieceInstanceValue ::
  "(PieceInstance \<Rightarrow> 'v) \<Rightarrow> 'v piece_field \<Rightarrow> 'v \<Rightarrow> PlayoutPieceInstanceModel
   \<Rightarrow> bool \<times> PlayoutPieceInstanceModel" where
  "compareAndSetPieceInstanceValue get upd newValue m =
     (if get (PieceInstanceImpl m) \<noteq> newValue then (True, setPieceInstanceValue upd newValue m)
      else (False, m))"

definition clearChangedFlag :: "PlayoutPieceInstanceModel \<Rightarrow> PlayoutPieceInstanceModel" where
  "clearChangedFlag m = m\<lparr>HasChanges := False\<rparr>"

definition prepareForHold :: "string \<Rightarrow> PlayoutPieceInstanceModel \<Rightarrow> PlayoutPieceInstanceModel" where
  "prepareForHold randomId m =
     setPieceInstanceValue infinite_update
       (Some \<lparr>infinitePieceId = piece_id (pi_piece (PieceInstanceImpl m)), fromHold = False,
          fromPreviousPart = False, fromPreviousPlayhead = False, infiniteInstanceId = randomId,
          infiniteInstanceIndex = 0\<rparr>) m"

definition setDuration :: "user_duration \<Rightarrow> PlayoutPieceInstanceModel \<Rightarrow> PlayoutPieceInstanceModel" where
  "setDuration duration m =
     snd (compareAndSetPieceInstanceValue userDuration userDuration_update (Some duration) m)"

definition setDisabled :: "bool \<Rightarrow> PlayoutPieceInstanceModel \<Rightarrow> PlayoutPieceInstanceModel" where
  "setDisabled b p = snd (compareAndSetPieceInstanceValue disabled disabled_update b p)"

definition piece_setPlannedStartedPlayback ::
  "time \<Rightarrow> PlayoutPieceInstanceModel \<Rightarrow> bool \<times> PlayoutPieceInstanceModel" where
  "piece_setPlannedStartedPlayback t m =
     compareAndSetPieceInstanceValue pi_plannedStartedPlayback pi_plannedStartedPlayback_update (Some t)
       (snd (compareAndSetPieceInstanceValue pi_plannedStoppedPlayback pi_plannedStoppedPlayback_update
         None m))"

definition piece_setPlannedStoppedPlayback ::
  "time option \<Rightarrow> PlayoutPieceInstanceModel \<Rightarrow> bool \<times> PlayoutPieceInstanceModel" where
  "piece_setPlannedStoppedPlayback t m =
     compareAndSetPieceInstanceValue pi_plannedStoppedPlayback pi_plannedStoppedPlayback_update t m"

definition piece_setReportedStartedPlayback ::
  "time \<Rightarrow> PlayoutPieceInstanceModel \<Rightarrow> bool \<times> PlayoutPieceInstanceModel" where
  "piece_setReportedStartedPlayback t m =
     compareAndSetPieceInstanceValue pi_reportedStartedPlayback pi_reportedStartedPlayback_update (Some t)
       (snd (compareAndSetPieceInstanceValue pi_reportedStoppedPlayback pi_reportedStoppedPlayback_update
         None m))"

definition piece_setReportedStoppedPlayback ::
  "time \<Rightarrow> PlayoutPieceInstanceModel \<Rightarrow> bool \<times> PlayoutPieceInstanceModel" where
  "piece_setReportedStoppedPlayback t m =
     compareAndSetPieceInstanceValue pi_reportedStoppedPlayback pi_reportedStoppedPlayback_update (Some t) m"

text \<open>The spread of the given properties over the piece is a function on the piece.\<close>

definition updatePieceProps ::
  "(PieceInstancePiece \<Rightarrow> PieceInstancePiece) \<Rightarrow> PlayoutPieceInstanceModel \<Rightarrow> PlayoutPieceInstanceModel" where
  "updatePieceProps spread m =
     snd (compareAndSetPieceInstanceValue pi_piece pi_piece_update
       (spread (pi_piece (PieceInstanceImpl m))) m)"

definition setupPieceInstanceInfiniteProperties :: "string \<Rightarrow> PieceInstance \<Rightarrow> PieceInstance" where
  "setupPieceInstanceInfiniteProperties randomId p =
     (if lifespan (pi_piece p) \<noteq> WithinPart
      then p\<lparr>infinite := Some \<lparr>infinitePieceId = piece_id (pi_piece p), fromHold = False,
          fromPreviousPart = False, fromPreviousPlayhead = False, infiniteInstanceId = randomId,
          infiniteInstanceIndex = 0\<rparr>\<rparr>
      else p)"

section \<open>Part instances\<close>

record PlayoutPartInstanceModel =
  partInstanceImpl :: DBPartInstance
  pieceInstancesImpl :: "(PieceInstanceId, PlayoutPieceInstanceModel option) js_map"
  partInstanceHasChanges :: bool

datatype part_instance_error =
    PieceIsNotInfinite
  | PieceIsInfiniteDueToHold
  | PieceInstanceAlreadyExists PieceInstanceId
  | ReplacesNonInfinite PieceInstanceId
  | InsertsNonInfinite PieceInstanceId
  | SnapshotOfDifferentPartInstance
  | SnapshotAlreadyRestored

definition new_part_instance_model ::
  "DBPartInstance \<Rightarrow> PieceInstance list \<Rightarrow> bool \<Rightarrow> PlayoutPartInstanceModel" where
  "new_part_instance_model partInstance ps hasChanges =
     \<lparr>partInstanceImpl = partInstance,
      pieceInstancesImpl = fold (\<lambda>p. map_set (pi_id p)
        (Some \<lparr>PieceInstanceImpl = p, HasChanges = hasChanges\<rparr>)) ps [],
      partInstanceHasChanges = hasChanges\<rparr>"

type_synonym 'v instance_field = "('v \<Rightarrow> 'v) \<Rightarrow> DBPartInstance \<Rightarrow> DBPartInstance"
type_synonym 'v part_field = "('v \<Rightarrow> 'v) \<Rightarrow> DBPart \<Rightarrow> DBPart"

definition setPartInstanceValue ::
  "'v instance_field \<Rightarrow> 'v \<Rightarrow> PlayoutPartInstanceModel \<Rightarrow> PlayoutPartInstanceModel" where
  "setPartInstanceValue upd newValue m =
     m\<lparr>partInstanceImpl := upd (\<lambda>_. newValue) (partInstanceImpl m), partInstanceHasChanges := True\<rparr>"

definition compareAndSetPartInstanceValue ::
  "(DBPartInstance \<Rightarrow> 'v) \<Rightarrow> 'v instance_field \<Rightarrow> 'v \<Rightarrow> PlayoutPartInstanceModel
   \<Rightarrow> bool \<times> PlayoutPartInstanceModel" where
  "compareAndSetPartInstanceValue get upd newValue m =
     (if get (partInstanceImpl m) \<noteq> newValue then (True, setPartInstanceValue upd newValue m)
      else (False, m))"

definition setPartValue ::
  "'v part_field \<Rightarrow> 'v \<Rightarrow> PlayoutPartInstanceModel \<Rightarrow> PlayoutPartInstanceModel" where
  "setPartValue upd newValue m =
     m\<lparr>partInstanceImpl := inst_part_update (upd (\<lambda>_. newValue)) (partInstanceImpl m),
       partInstanceHasChanges := True\<rparr>"

definition inst_compareAndSetPartValue ::
  "(DBPart \<Rightarrow> 'v) \<Rightarrow> 'v part_field \<Rightarrow> 'v \<Rightarrow> PlayoutPartInstanceModel
   \<Rightarrow> bool \<times> PlayoutPartInstanceModel" where
  "inst_compareAndSetPartValue get upd newValue m =
     (if get (inst_part (partInstanceImpl m)) \<noteq> newValue then (True, setPartValue upd newValue m)
      else (False, m))"

definition changedPieceInstanceIds :: "PlayoutPartInstanceModel \<Rightarrow> PieceInstanceId list" where
  "changedPieceInstanceIds m =
     map fst (filter (\<lambda>(i, p). case p of None \<Rightarrow> True | Some p \<Rightarrow> HasChanges p) (pieceInstancesImpl m))"

definition hasAnyChanges :: "PlayoutPartInstanceModel \<Rightarrow> bool" where
  "hasAnyChanges m = (partInstanceHasChanges m \<or> changedPieceInstanceIds m \<noteq> [])"

definition inst_clearChangedFlags :: "PlayoutPartInstanceModel \<Rightarrow> PlayoutPartInstanceModel" where
  "inst_clearChangedFlags m =
     m\<lparr>partInstanceHasChanges := False,
       pieceInstancesImpl := map (\<lambda>(i, p). (i, map_option (\<lambda>p. if HasChanges p then clearChangedFlag p else p) p))
         (filter (\<lambda>(i, p). p \<noteq> None) (pieceInstancesImpl m))\<rparr>"

definition pieceInstances :: "PlayoutPartInstanceModel \<Rightarrow> PlayoutPieceInstanceModel list" where
  "pieceInstances m = compact (map snd (pieceInstancesImpl m))"

definition live_pieces :: "PlayoutPartInstanceModel \<Rightarrow> PieceInstance list" where
  \<comment> \<open>\<open>pieceInstances.map((p) => p.pieceInstance)\<close>, which many callers use\<close>
  "live_pieces m = map PieceInstanceImpl (pieceInstances m)"

definition getPieceInstance :: "PieceInstanceId \<Rightarrow> PlayoutPartInstanceModel \<Rightarrow> PlayoutPieceInstanceModel option" where
  "getPieceInstance i m = nullish (map_get (pieceInstancesImpl m) i) None"

definition put_piece ::
  "PieceInstanceId \<Rightarrow> PlayoutPieceInstanceModel option \<Rightarrow> PlayoutPartInstanceModel \<Rightarrow> PlayoutPartInstanceModel" where
  "put_piece i p m = m\<lparr>pieceInstancesImpl := map_set i p (pieceInstancesImpl m)\<rparr>"

definition on_pieces ::
  "(PlayoutPieceInstanceModel \<Rightarrow> PlayoutPieceInstanceModel) \<Rightarrow> PlayoutPartInstanceModel \<Rightarrow> PlayoutPartInstanceModel" where
  \<comment> \<open>a loop that changes each piece instance that is not removed\<close>
  "on_pieces f m = m\<lparr>pieceInstancesImpl := map (\<lambda>(i, p). (i, map_option f p)) (pieceInstancesImpl m)\<rparr>"

definition inst_on_piece ::
  "PieceInstanceId \<Rightarrow> (PlayoutPieceInstanceModel \<Rightarrow> PlayoutPieceInstanceModel) \<Rightarrow> PlayoutPartInstanceModel
   \<Rightarrow> PlayoutPartInstanceModel" where
  \<comment> \<open>a call on the piece instance of that id, which its model holds\<close>
  "inst_on_piece i f m = (case getPieceInstance i m of None \<Rightarrow> m | Some p \<Rightarrow> put_piece i (Some (f p)) m)"

section \<open>New piece instances\<close>

text \<open>The document that an operation makes for a piece of this part instance\<close>

definition piece_instance_for ::
  "PieceInstancePiece \<Rightarrow> PlayoutPartInstanceModel \<Rightarrow> PieceInstance" where
  "piece_instance_for piece m =
     rewrapPieceToInstance (piece\<lparr>startPartId := part_id (inst_part (partInstanceImpl m))\<rparr>)
       (inst_playlistActivationId (partInstanceImpl m)) (inst_rundownId (partInstanceImpl m))
       (inst_id (partInstanceImpl m)) False"

definition insert_piece_instance ::
  "PieceInstance \<Rightarrow> PlayoutPartInstanceModel \<Rightarrow> PieceInstanceId \<times> PlayoutPartInstanceModel" where
  "insert_piece_instance p m =
     (pi_id p, put_piece (pi_id p) (Some \<lparr>PieceInstanceImpl = p, HasChanges = True\<rparr>) m)"

definition insertAdlibbedPiece ::
  "time \<Rightarrow> string \<Rightarrow> PieceInstancePiece \<Rightarrow> PieceId option \<Rightarrow> PlayoutPartInstanceModel
   \<Rightarrow> PieceInstanceId \<times> PlayoutPartInstanceModel" where
  "insertAdlibbedPiece now randomId piece fromAdlibId m =
     insert_piece_instance (setupPieceInstanceInfiniteProperties randomId
       ((piece_instance_for piece m)\<lparr>adLibSourceId := fromAdlibId,
          dynamicallyInserted := (if isTaken (partInstanceImpl m) then Some now else None)\<rparr>)) m"

definition insertHoldPieceInstance ::
  "time \<Rightarrow> PieceInstance \<Rightarrow> PlayoutPartInstanceModel
   \<Rightarrow> part_instance_error + (PieceInstanceId \<times> PlayoutPartInstanceModel)" where
  "insertHoldPieceInstance now held m =
     (case infinite held of
        None \<Rightarrow> Inl PieceIsNotInfinite
      | Some i \<Rightarrow>
          if infiniteInstanceIndex i \<noteq> 0 \<or> fromPreviousPart i then Inl PieceIsInfiniteDueToHold
          else Inr (insert_piece_instance
            \<lparr>pi_id = pi_id held @ ''_hold'', pi_rundownId = pi_rundownId held,
             pi_partInstanceId = inst_id (partInstanceImpl m), isTemporary = False,
             pi_playlistActivationId = pi_playlistActivationId held, pi_reset = False,
             pi_piece = (pi_piece held)\<lparr>enable := \<lparr>en_start = At 0, en_duration = None\<rparr>, extendOnHold := False\<rparr>,
             disabled = False, adLibSourceId = None,
             infinite = Some \<lparr>infinitePieceId = piece_id (pi_piece held), fromHold = True,
               fromPreviousPart = True, fromPreviousPlayhead = False,
               infiniteInstanceId = infiniteInstanceId i, infiniteInstanceIndex = 1\<rparr>,
             dynamicallyInserted = Some now, userDuration = None,
             pi_reportedStartedPlayback = pi_reportedStartedPlayback held,
             pi_reportedStoppedPlayback = pi_reportedStoppedPlayback held,
             pi_plannedStartedPlayback = pi_plannedStartedPlayback held,
             pi_plannedStoppedPlayback = pi_plannedStoppedPlayback held\<rparr> m))"

definition insertPlannedPiece ::
  "string \<Rightarrow> PieceInstancePiece \<Rightarrow> PlayoutPartInstanceModel
   \<Rightarrow> part_instance_error + (PieceInstanceId \<times> PlayoutPartInstanceModel)" where
  \<comment> \<open>\<open>has\<close> finds removed piece instances as well\<close>
  "insertPlannedPiece randomId piece m =
     (let i = getPieceInstanceIdForPiece (inst_id (partInstanceImpl m)) (piece_id piece) in
      if map_has (pieceInstancesImpl m) i then Inl (PieceInstanceAlreadyExists i)
      else Inr (insert_piece_instance
        (setupPieceInstanceInfiniteProperties randomId (piece_instance_for piece m)) m))"

definition insertVirtualPiece ::
  "time \<Rightarrow> PieceId \<Rightarrow> string \<Rightarrow> time \<Rightarrow> PieceLifespan \<Rightarrow> string \<Rightarrow> PlayoutPartInstanceModel
   \<Rightarrow> PieceInstanceId \<times> PlayoutPartInstanceModel" where
  "insertVirtualPiece now pieceId randomId t l layer m =
     insert_piece_instance (setupPieceInstanceInfiniteProperties randomId
       ((piece_instance_for
          \<lparr>piece_id = pieceId, startPartId = part_id (inst_part (partInstanceImpl m)), lifespan = l,
           sourceLayerId = layer, enable = \<lparr>en_start = At t, en_duration = None\<rparr>, virtual = True,
           pieceType = PieceNormal, prerollDuration = None, postrollDuration = None,
           piece_invalid = False, abSessions = [], extendOnHold = False,
           piece_content = Some \<lparr>fileName = [], sourceDuration = None, seek = None\<rparr>,
           toBeQueued = False, allowDirectPlay = None\<rparr> m)
        \<lparr>dynamicallyInserted := Some now\<rparr>)) m"

definition removePieceInstance :: "PieceInstanceId \<Rightarrow> PlayoutPartInstanceModel \<Rightarrow> bool \<times> PlayoutPartInstanceModel" where
  "removePieceInstance i m =
     (case getPieceInstance i m of Some _ \<Rightarrow> (True, put_piece i None m) | None \<Rightarrow> (False, m))"

definition mergeOrInsertPieceInstance ::
  "(PieceInstance \<Rightarrow> PieceInstance \<Rightarrow> PieceInstance) \<Rightarrow> PieceInstance \<Rightarrow> PlayoutPartInstanceModel
   \<Rightarrow> PieceInstanceId \<times> PlayoutPartInstanceModel" where
  \<comment> \<open>the spread of the given document over the old one, which tells absent members from undefined ones, is an argument\<close>
  "mergeOrInsertPieceInstance spread doc m =
     (case getPieceInstance (pi_id doc) m of
        Some p \<Rightarrow> (pi_id doc, put_piece (pi_id doc)
          (Some \<lparr>PieceInstanceImpl = spread (PieceInstanceImpl p) doc, HasChanges = True\<rparr>) m)
      | None \<Rightarrow> insert_piece_instance doc m)"

definition drop_playhead_infinites :: "PlayoutPartInstanceModel \<Rightarrow> PlayoutPartInstanceModel" where
  "drop_playhead_infinites m =
     m\<lparr>pieceInstancesImpl := map (\<lambda>(i, p). (i, case p of None \<Rightarrow> None
         | Some q \<Rightarrow> (case infinite (PieceInstanceImpl q) of
             Some link \<Rightarrow> if fromPreviousPlayhead link then None else p | None \<Rightarrow> p)))
       (pieceInstancesImpl m)\<rparr>"

fun insert_playhead_infinites ::
  "PieceInstance list \<Rightarrow> PlayoutPartInstanceModel \<Rightarrow> part_instance_error + PlayoutPartInstanceModel" where
  "insert_playhead_infinites [] m = Inr m"
| "insert_playhead_infinites (p # ps) m =
     (if getPieceInstance (pi_id p) m \<noteq> None then Inl (ReplacesNonInfinite (pi_id p))
      else if (case infinite p of None \<Rightarrow> True | Some link \<Rightarrow> \<not> fromPreviousPlayhead link)
      then Inl (InsertsNonInfinite (pi_id p))
      else insert_playhead_infinites ps (snd (insert_piece_instance p m)))"

definition replaceInfinitesFromPreviousPlayhead ::
  "PieceInstance list \<Rightarrow> PlayoutPartInstanceModel \<Rightarrow> part_instance_error + PlayoutPartInstanceModel" where
  "replaceInfinitesFromPreviousPlayhead ps m = insert_playhead_infinites ps (drop_playhead_infinites m)"

section \<open>The part instance itself\<close>

definition markAsReset :: "PlayoutPartInstanceModel \<Rightarrow> PlayoutPartInstanceModel" where
  "markAsReset m =
     on_pieces (\<lambda>p. snd (compareAndSetPieceInstanceValue pi_reset pi_reset_update True p))
       (snd (compareAndSetPartInstanceValue inst_reset inst_reset_update True m))"

definition recalculateExpectedDurationWithTransition :: "PlayoutPartInstanceModel \<Rightarrow> PlayoutPartInstanceModel" where
  "recalculateExpectedDurationWithTransition m =
     snd (inst_compareAndSetPartValue expectedDurationWithTransition expectedDurationWithTransition_update
       (calculatePartExpectedDurationWithTransition (inst_part (partInstanceImpl m))
         (map pi_piece (live_pieces m))) m)"

definition inst_blockTakeUntil :: "time option \<Rightarrow> PlayoutPartInstanceModel \<Rightarrow> PlayoutPartInstanceModel" where
  "inst_blockTakeUntil t m = snd (compareAndSetPartInstanceValue blockTakeUntil blockTakeUntil_update t m)"

definition inst_setOrphaned :: "part_orphaned option \<Rightarrow> PlayoutPartInstanceModel \<Rightarrow> PlayoutPartInstanceModel" where
  "inst_setOrphaned r m = snd (compareAndSetPartInstanceValue inst_orphaned inst_orphaned_update r m)"

definition setPlaylistActivationId :: "string \<Rightarrow> PlayoutPartInstanceModel \<Rightarrow> PlayoutPartInstanceModel" where
  "setPlaylistActivationId i m =
     on_pieces (\<lambda>p. snd (compareAndSetPieceInstanceValue pi_playlistActivationId pi_playlistActivationId_update i p))
       (snd (compareAndSetPartInstanceValue inst_playlistActivationId inst_playlistActivationId_update i m))"

definition inst_setRank :: "rank \<Rightarrow> PlayoutPartInstanceModel \<Rightarrow> PlayoutPartInstanceModel" where
  "inst_setRank r m = snd (inst_compareAndSetPartValue part_rank part_rank_update r m)"

text \<open>The spread of the allowed properties over the part; \<open>None\<close> when none of them is given.\<close>

definition updatePartProps ::
  "(DBPart \<Rightarrow> DBPart) option \<Rightarrow> PlayoutPartInstanceModel \<Rightarrow> bool \<times> PlayoutPartInstanceModel" where
  "updatePartProps trimmedProps m =
     (case trimmedProps of
        None \<Rightarrow> (False, m)
      | Some spread \<Rightarrow> (True, snd (compareAndSetPartInstanceValue inst_part inst_part_update
          (spread (inst_part (partInstanceImpl m))) m)))"

definition storePlayoutTimingsAndPreviousEndState ::
  "PartCalculatedTimings \<Rightarrow> string option \<Rightarrow> PlayoutPartInstanceModel \<Rightarrow> PlayoutPartInstanceModel" where
  "storePlayoutTimingsAndPreviousEndState t e m =
     setPartInstanceValue previousPartEndState_update e
       (setPartInstanceValue partPlayoutTimings_update (Some t)
         (snd (compareAndSetPartInstanceValue isTaken isTaken_update True m)))"

section \<open>Timings\<close>

definition no_timings :: PartInstanceTimings where
  "no_timings = \<lparr>playOffset = None, pit_duration = None, pit_take = None, setAsNext = None,
     plannedStartedPlayback = None, plannedStoppedPlayback = None, reportedStartedPlayback = None,
     reportedStoppedPlayback = None\<rparr>"

definition timings_of :: "PlayoutPartInstanceModel \<Rightarrow> PartInstanceTimings" where
  \<comment> \<open>\<open>{ ...this.partInstanceImpl.timings }\<close>\<close>
  "timings_of m = nullish (inst_timings (partInstanceImpl m)) no_timings"

definition set_timings :: "PartInstanceTimings \<Rightarrow> PlayoutPartInstanceModel \<Rightarrow> bool \<times> PlayoutPartInstanceModel" where
  "set_timings t m = compareAndSetPartInstanceValue inst_timings inst_timings_update (Some t) m"

definition inst_setPlannedStartedPlayback ::
  "time option \<Rightarrow> PlayoutPartInstanceModel \<Rightarrow> PlayoutPartInstanceModel" where
  "inst_setPlannedStartedPlayback t m =
     snd (set_timings ((timings_of m)\<lparr>plannedStartedPlayback := t, plannedStoppedPlayback := None\<rparr>) m)"

definition inst_setPlannedStoppedPlayback ::
  "time option \<Rightarrow> PlayoutPartInstanceModel \<Rightarrow> PlayoutPartInstanceModel" where
  "inst_setPlannedStoppedPlayback t m =
     (let ts = timings_of m in
      if truthy_num (plannedStartedPlayback ts) \<and> \<not> truthy_num (plannedStoppedPlayback ts)
      then snd (set_timings
        (if truthy_num t
         then ts\<lparr>plannedStoppedPlayback := t,
                pit_duration := Some (the t - the (plannedStartedPlayback ts))\<rparr>
         else ts\<lparr>plannedStoppedPlayback := None, pit_duration := None\<rparr>) m)
      else m)"

definition inst_setReportedStartedPlayback ::
  "time \<Rightarrow> PlayoutPartInstanceModel \<Rightarrow> bool \<times> PlayoutPartInstanceModel" where
  "inst_setReportedStartedPlayback t m =
     (let ts = timings_of m in
      if \<not> truthy_num (reportedStartedPlayback ts)
      then set_timings (ts\<lparr>reportedStartedPlayback := Some t, plannedStoppedPlayback := None,
             pit_duration := None\<rparr>) m
      else (False, m))"

definition inst_setReportedStoppedPlayback ::
  "time \<Rightarrow> PlayoutPartInstanceModel \<Rightarrow> bool \<times> PlayoutPartInstanceModel" where
  "inst_setReportedStoppedPlayback t m =
     (let ts = timings_of m in
      if \<not> truthy_num (reportedStoppedPlayback ts)
      then set_timings (ts\<lparr>reportedStoppedPlayback := Some t,
             pit_duration := Some (t - (if truthy_num (reportedStartedPlayback ts)
               then the (reportedStartedPlayback ts) else t))\<rparr>) m
      else (False, m))"

text \<open>
  The loop over the piece instances: \<open>setOnAll &&= ...\<close> makes no further call once one has returned
  false.
\<close>

fun stop_pieces ::
  "time \<Rightarrow> bool \<Rightarrow> (PieceInstanceId \<times> PlayoutPieceInstanceModel option) list
   \<Rightarrow> bool \<times> (PieceInstanceId \<times> PlayoutPieceInstanceModel option) list" where
  "stop_pieces t setOnAll [] = (setOnAll, [])"
| "stop_pieces t setOnAll ((i, p) # ps) =
     (case p of
        Some q \<Rightarrow>
          if truthy_num (pi_reportedStartedPlayback (PieceInstanceImpl q)) \<and> setOnAll
          then (let (b, q') = piece_setReportedStoppedPlayback t q;
                    (b', ps') = stop_pieces t b ps in (b', (i, Some q') # ps'))
          else (let (b', ps') = stop_pieces t setOnAll ps in (b', (i, p) # ps'))
      | None \<Rightarrow> (let (b', ps') = stop_pieces t setOnAll ps in (b', (i, p) # ps')))"

definition setReportedStoppedPlaybackWithPieceInstances ::
  "time \<Rightarrow> PlayoutPartInstanceModel \<Rightarrow> bool \<times> PlayoutPartInstanceModel" where
  "setReportedStoppedPlaybackWithPieceInstances t m =
     (if (case inst_timings (partInstanceImpl m) of None \<Rightarrow> True
          | Some ts \<Rightarrow> \<not> truthy_num (reportedStartedPlayback ts)) then (False, m)
      else let (setOnAll, m) = inst_setReportedStoppedPlayback t m;
               (setOnAll, ps) = stop_pieces t setOnAll (pieceInstancesImpl m)
           in (setOnAll, m\<lparr>pieceInstancesImpl := ps\<rparr>))"

definition setTaken :: "time \<Rightarrow> time \<Rightarrow> int option \<Rightarrow> PlayoutPartInstanceModel \<Rightarrow> PlayoutPartInstanceModel" where
  "setTaken now takeTime offset m =
     (let m = snd (compareAndSetPartInstanceValue isTaken isTaken_update True m);
          ts = (timings_of m)\<lparr>pit_take := Some takeTime, playOffset := Some (nullish offset 0)\<rparr>;
          ts = (case offset of None \<Rightarrow> ts | Some d \<Rightarrow> ts\<lparr>plannedStartedPlayback := Some (now - d)\<rparr>)
      in snd (set_timings ts m))"

section \<open>Snapshots\<close>

record PlayoutPartInstanceModelSnapshot =
  isRestored :: bool
  snap_partInstance :: DBPartInstance
  snap_partInstanceHasChanges :: bool
  snap_pieceInstances :: "(PieceInstanceId, PlayoutPieceInstanceModel option) js_map"

definition snapshotMakeCopy :: "PlayoutPartInstanceModel \<Rightarrow> PlayoutPartInstanceModelSnapshot" where
  "snapshotMakeCopy m =
     \<lparr>isRestored = False, snap_partInstance = partInstanceImpl m,
      snap_partInstanceHasChanges = partInstanceHasChanges m,
      snap_pieceInstances = fold (\<lambda>(i, p). map_set i
        (map_option (\<lambda>q. \<lparr>PieceInstanceImpl = PieceInstanceImpl q, HasChanges = HasChanges q\<rparr>) p))
        (pieceInstancesImpl m) []\<rparr>"

definition snapshotRestore ::
  "PlayoutPartInstanceModelSnapshot \<Rightarrow> PlayoutPartInstanceModel
   \<Rightarrow> part_instance_error + (PlayoutPartInstanceModelSnapshot \<times> PlayoutPartInstanceModel)" where
  "snapshotRestore snapshot m =
     (if inst_id (snap_partInstance snapshot) \<noteq> inst_id (partInstanceImpl m)
      then Inl SnapshotOfDifferentPartInstance
      else if isRestored snapshot then Inl SnapshotAlreadyRestored
      else Inr (snapshot\<lparr>isRestored := True\<rparr>,
        \<lparr>partInstanceImpl = snap_partInstance snapshot,
         pieceInstancesImpl = fold (\<lambda>(i, p). map_set i
           (map_option (\<lambda>q. \<lparr>PieceInstanceImpl = PieceInstanceImpl q, HasChanges = HasChanges q\<rparr>) p))
           (snap_pieceInstances snapshot) [],
         partInstanceHasChanges = snap_partInstanceHasChanges snapshot\<rparr>))"

end
