(* ===== verification/Playout_Model.thy ===== *)
theory Playout_Model
  imports Playout_Part Playlist_Order
begin

text \<open>
  The documents of a playlist while a playout operation works on them: \<open>PlayoutModelImpl\<close>,
  \<open>PlayoutRundownModelImpl\<close> and \<open>PlayoutSegmentModelImpl\<close> of
  \<open>packages/job-worker/src/playout/model/implementation\<close>. The code passes part instance models around by
  reference; here a part instance is named by its id, and a call on it changes the entry of the model. A
  removed part instance stays in the map as \<open>None\<close> until the save. The current time, random ids and
  \<open>localeCompare\<close> are arguments. What the deferred functions do to the database is in
  \<open>Playout_Database\<close>; the timeline, the studio baseline and the callbacks that run before a save are not
  modelled.
\<close>

section \<open>Segments and rundowns\<close>

record PlayoutSegmentModel =
  segment_doc :: DBSegment
  segment_partDocs :: "DBPart list"

definition new_playout_segment :: "DBSegment \<Rightarrow> DBPart list \<Rightarrow> PlayoutSegmentModel" where
  "new_playout_segment segment ps =
     \<lparr>segment_doc = segment, segment_partDocs = js_sort (\<lambda>a b. part_rank b < part_rank a) ps\<rparr>"

definition segment_getPart :: "PartId \<Rightarrow> PlayoutSegmentModel \<Rightarrow> DBPart option" where
  "segment_getPart i s = find (\<lambda>p. part_id p = i) (segment_partDocs s)"

definition segment_getPartIds :: "PlayoutSegmentModel \<Rightarrow> PartId list" where
  "segment_getPartIds s = map part_id (segment_partDocs s)"

record DBRundown = RundownPick +
  rd_externalId :: string
  rd_showStyleVariantId :: string
  from_nrcs :: bool  \<comment> \<open>\<open>source.type === 'nrcs'\<close>\<close>

record PlayoutRundownModel =
  rundown_doc :: DBRundown
  rundown_segments :: "PlayoutSegmentModel list"
  adlibTestingSegmentHasChanged :: bool

definition sort_segments :: "PlayoutSegmentModel list \<Rightarrow> PlayoutSegmentModel list" where
  "sort_segments = js_sort (\<lambda>a b. seg_rank (segment_doc b) < seg_rank (segment_doc a))"

definition new_playout_rundown :: "DBRundown \<Rightarrow> PlayoutSegmentModel list \<Rightarrow> PlayoutRundownModel" where
  "new_playout_rundown r ss =
     \<lparr>rundown_doc = r, rundown_segments = sort_segments ss, adlibTestingSegmentHasChanged = False\<rparr>"

definition rundown_getSegment :: "SegmentId \<Rightarrow> PlayoutRundownModel \<Rightarrow> PlayoutSegmentModel option" where
  "rundown_getSegment i r = find (\<lambda>s. seg_id (segment_doc s) = i) (rundown_segments r)"

definition getSegmentIds :: "PlayoutRundownModel \<Rightarrow> SegmentId list" where
  "getSegmentIds r = map (\<lambda>s. seg_id (segment_doc s)) (rundown_segments r)"

definition rundown_getAllOrderedParts :: "PlayoutRundownModel \<Rightarrow> DBPart list" where
  "rundown_getAllOrderedParts r = concat (map segment_partDocs (rundown_segments r))"

definition getAllPartIds :: "PlayoutRundownModel \<Rightarrow> PartId list" where
  "getAllPartIds r = map part_id (rundown_getAllOrderedParts r)"

definition is_adlib_testing :: "PlayoutSegmentModel \<Rightarrow> bool" where
  "is_adlib_testing s = (seg_orphaned (segment_doc s) = Some AdlibTesting)"

definition getAdlibTestingSegment :: "PlayoutRundownModel \<Rightarrow> PlayoutSegmentModel option" where
  "getAdlibTestingSegment r = find is_adlib_testing (rundown_segments r)"

definition calculateRankForAdlibTestingSegment :: "PlayoutSegmentModel list \<Rightarrow> rank" where
  "calculateRankForAdlibTestingSegment ss =
     fold min (map (\<lambda>s. if is_adlib_testing s then 0 else seg_rank (segment_doc s)) ss) 0 - 1"

definition insertAdlibTestingSegment ::
  "SegmentId \<Rightarrow> time \<Rightarrow> PlayoutRundownModel \<Rightarrow> (SegmentId \<times> PlayoutRundownModel) option" where
  \<comment> \<open>\<open>None\<close>: the user error that ad-lib testing is active already\<close>
  "insertAdlibTestingSegment randomId now r =
     (if find is_adlib_testing (rundown_segments r) \<noteq> None then None
      else Some (randomId, r\<lparr>rundown_segments :=
        new_playout_segment
          \<lparr>seg_id = randomId, seg_rank = calculateRankForAdlibTestingSegment (rundown_segments r),
           seg_externalId = ''__adlib-testing__'', seg_externalModified = now,
           seg_rundownId = rd_id (rundown_doc r), isHidden = False, seg_orphaned = Some AdlibTesting\<rparr> []
        # rundown_segments r, adlibTestingSegmentHasChanged := True\<rparr>))"

definition removeAdlibTestingSegment :: "PlayoutRundownModel \<Rightarrow> bool \<times> PlayoutRundownModel" where
  "removeAdlibTestingSegment r =
     (case find_index is_adlib_testing (rundown_segments r) of
        None \<Rightarrow> (False, r)
      | Some i \<Rightarrow> (True, r\<lparr>rundown_segments := take i (rundown_segments r) @ drop (Suc i) (rundown_segments r),
          adlibTestingSegmentHasChanged := True\<rparr>))"

definition updateAdlibTestingSegmentRank :: "PlayoutRundownModel \<Rightarrow> PlayoutRundownModel" where
  \<comment> \<open>with \<open>setAdlibTestingRank\<close> on the segment found\<close>
  "updateAdlibTestingSegmentRank r =
     (case find_index is_adlib_testing (rundown_segments r) of
        None \<Rightarrow> r
      | Some i \<Rightarrow>
         (let rank = calculateRankForAdlibTestingSegment (rundown_segments r);
              s = rundown_segments r ! i
          in if seg_rank (segment_doc s) = rank then r
             else r\<lparr>rundown_segments := sort_segments
                 ((rundown_segments r)[i := s\<lparr>segment_doc := (segment_doc s)\<lparr>seg_rank := rank\<rparr>\<rparr>]),
               adlibTestingSegmentHasChanged := True\<rparr>))"

definition clearAdlibTestingSegmentChangedFlag :: "PlayoutRundownModel \<Rightarrow> PlayoutRundownModel" where
  "clearAdlibTestingSegmentChangedFlag r = r\<lparr>adlibTestingSegmentHasChanged := False\<rparr>"

section \<open>The playlist and the model\<close>

record SelectedPartInstance =
  sel_partInstanceId :: PartInstanceId
  sel_rundownId :: RundownId
  manuallySelected :: bool
  sel_consumesQueuedSegmentId :: bool

text \<open>The results of a timeline generation are stored as they come.\<close>

record DBRundownPlaylist =
  activationId :: "string option"
  rehearsal :: bool
  holdState :: "RundownHoldState option"
  resetTime :: "time option"
  playlist_loop :: bool
  currentPartInfo :: "SelectedPartInstance option"
  nextPartInfo :: "SelectedPartInstance option"
  nextTimeOffset :: "int option"
  previousPartInfo :: "SelectedPartInstance option"
  queuedSegmentId :: "SegmentId option"
  startedPlayback :: "time option"
  rundownsStartedPlayback :: "(RundownId, time) js_map option"
  lastTakeTime :: "time option"
  rundownIdsInOrder :: "RundownId list"
  previousPersistentState :: "string option"
  trackedAbSessions :: "string option"
  assignedAbSessions :: "string option"

text \<open>What is left to be done once the documents are saved.\<close>

datatype deferred =
    ResetNotLoaded "DBPartInstance \<Rightarrow> bool" "PartInstanceId list"
  | RemoveRehearsalNotLoaded "PartInstanceId list"

record PlayoutModel =
  playlistLocked :: bool
  playlist :: DBRundownPlaylist
  rundownsImpl :: "PlayoutRundownModel list"
  allPartInstances :: "(PartInstanceId, PlayoutPartInstanceModel option) js_map"
  deferredAfterSaveFunctions :: "deferred list"
  playout_disposed :: bool
  playlistHasChanged :: bool
  pendingPartInstanceTimingEvents :: "PartInstanceId js_set"
  pendingNotifyCurrentlyPlayingPartEvent :: "(RundownId, string option) js_map"

datatype playout_error =
    NoCurrentPartInstance
  | PlaylistNotActive
  | AdlibTestingAfterFirstTake
  | NoAdlibTestingSegment
  | AdlibTestingHasContent
  | PartInstanceNotConstructed
  | SavingDisposedModel
  | SavingWithoutLock
  | PartIsInvalid
  | NotPartOfPlaylist
  | RundownNotFound RundownId
  | SegmentNotFoundIn SegmentId
  | PartInstanceError part_instance_error
  | NoValidParts
  | SegmentIsAdlibTesting
  | NoPartInstanceFound
  | CurrentPartNotFound
  | PreviousPartNotFound
  | TakePartInstanceNotFound
  | PartInstanceNotFound PartInstanceId
  | StoppedBeforeStarted
  | OtherPlaylistActive "string list"
  | UserInactiveRundown
  | UserDuringHold
  | UserTakeNoNextPart
  | UserTakeFromIncorrectPart
  | UserTakeRateLimit
  | UserTakeBlocked int
  | UserTakeDuringTransition
  | UserTakeCloseToAutonext
  | UserNoCurrentPart
  | UserHoldNeedsNextPart
  | UserHoldAlreadyActive
  | UserHoldIncompatibleParts
  | UserHoldAfterAdlib
  | UserHoldNotCancelable
  | UserPartNotFound
  | UserPartNotPlayable
  | UserNoCurrentOrNextPart
  | InvalidDelta
  | NoNextAndNoCurrent
  | PartMissingAfterInsert
  | SegmentToMoveFromNotFound
  | PieceInstanceNotFound PartInstanceId
  | UserRundownAlreadyActive
  | UserRundownAlreadyActiveNames "string list"
  | UserRundownResetWhileActive

definition new_playout_model ::
  "bool \<Rightarrow> DBRundownPlaylist \<Rightarrow> PlayoutPartInstanceModel list \<Rightarrow> PlayoutRundownModel list \<Rightarrow> PlayoutModel" where
  "new_playout_model locked p partInstances rs =
     \<lparr>playlistLocked = locked, playlist = p, rundownsImpl = rs,
      allPartInstances = normalizeArrayToMapFunc (\<lambda>p. Some (inst_id (partInstanceImpl (the p)))) (map Some partInstances),
      deferredAfterSaveFunctions = [], playout_disposed = False, playlistHasChanged = False,
      pendingPartInstanceTimingEvents = [], pendingNotifyCurrentlyPlayingPartEvent = []\<rparr>"

section \<open>Reading the model\<close>

definition part_instance_at :: "PartInstanceId \<Rightarrow> PlayoutModel \<Rightarrow> PlayoutPartInstanceModel option" where
  "part_instance_at i m = nullish (map_get (allPartInstances m) i) None"

definition selected_instance :: "SelectedPartInstance option \<Rightarrow> PlayoutModel \<Rightarrow> PlayoutPartInstanceModel option" where
  \<comment> \<open>an empty id is falsy\<close>
  "selected_instance info m =
     (if truthy_str (map_option sel_partInstanceId info)
      then part_instance_at (sel_partInstanceId (the info)) m else None)"

definition previousPartInstance :: "PlayoutModel \<Rightarrow> PlayoutPartInstanceModel option" where
  "previousPartInstance m = selected_instance (previousPartInfo (playlist m)) m"

definition currentPartInstance :: "PlayoutModel \<Rightarrow> PlayoutPartInstanceModel option" where
  "currentPartInstance m = selected_instance (currentPartInfo (playlist m)) m"

definition nextPartInstance :: "PlayoutModel \<Rightarrow> PlayoutPartInstanceModel option" where
  "nextPartInstance m = selected_instance (nextPartInfo (playlist m)) m"

definition selectedPartInstanceIds :: "PlayoutModel \<Rightarrow> PartInstanceId list" where
  "selectedPartInstanceIds m =
     filter (\<lambda>i. i \<noteq> []) (map sel_partInstanceId (compact
       [previousPartInfo (playlist m), currentPartInfo (playlist m), nextPartInfo (playlist m)]))"

definition selectedPartInstances :: "PlayoutModel \<Rightarrow> PlayoutPartInstanceModel list" where
  "selectedPartInstances m = compact [currentPartInstance m, previousPartInstance m, nextPartInstance m]"

definition loadedPartInstances :: "PlayoutModel \<Rightarrow> PlayoutPartInstanceModel list" where
  "loadedPartInstances m = compact (map snd (allPartInstances m))"

definition olderPartInstances :: "PlayoutModel \<Rightarrow> PlayoutPartInstanceModel list" where
  "olderPartInstances m =
     filter (\<lambda>p. inst_id (partInstanceImpl p) \<notin> set (selectedPartInstanceIds m)) (loadedPartInstances m)"

definition sortedLoadedPartInstances :: "PlayoutModel \<Rightarrow> PlayoutPartInstanceModel list" where
  "sortedLoadedPartInstances m =
     js_sort (\<lambda>a b. takeCount (partInstanceImpl b) < takeCount (partInstanceImpl a)) (loadedPartInstances m)"

definition hackDeletedPartInstanceIds :: "PlayoutModel \<Rightarrow> PartInstanceId list" where
  "hackDeletedPartInstanceIds m = map fst (filter (\<lambda>e. snd e = None) (allPartInstances m))"

definition getAllOrderedSegments :: "PlayoutModel \<Rightarrow> PlayoutSegmentModel list" where
  "getAllOrderedSegments m = concat (map rundown_segments (rundownsImpl m))"

definition playout_findPart :: "PartId \<Rightarrow> PlayoutModel \<Rightarrow> DBPart option" where
  "playout_findPart i m =
     (case find (\<lambda>s. segment_getPart i s \<noteq> None) (getAllOrderedSegments m) of
        Some s \<Rightarrow> segment_getPart i s | None \<Rightarrow> None)"

definition playout_getAllOrderedParts :: "PlayoutModel \<Rightarrow> DBPart list" where
  "playout_getAllOrderedParts m = concat (map rundown_getAllOrderedParts (rundownsImpl m))"

definition findSegment :: "SegmentId \<Rightarrow> PlayoutModel \<Rightarrow> PlayoutSegmentModel option" where
  "findSegment i m =
     (case find (\<lambda>r. rundown_getSegment i r \<noteq> None) (rundownsImpl m) of
        Some r \<Rightarrow> rundown_getSegment i r | None \<Rightarrow> None)"

definition getRundown :: "RundownId \<Rightarrow> PlayoutModel \<Rightarrow> PlayoutRundownModel option" where
  "getRundown i m = find (\<lambda>r. rd_id (rundown_doc r) = i) (rundownsImpl m)"

definition getRundownIds :: "(string \<Rightarrow> string \<Rightarrow> int) \<Rightarrow> PlayoutModel \<Rightarrow> RundownId list" where
  "getRundownIds lc m =
     sortRundownIDsInPlaylist lc (rundownIdsInOrder (playlist m)) (map (\<lambda>r. rd_id (rundown_doc r)) (rundownsImpl m))"

definition findPieceInstance ::
  "PieceInstanceId \<Rightarrow> PlayoutModel \<Rightarrow> (PlayoutPartInstanceModel \<times> PlayoutPieceInstanceModel) option" where
  "findPieceInstance i m =
     (case find (\<lambda>p. getPieceInstance i p \<noteq> None) (loadedPartInstances m) of
        Some p \<Rightarrow> map_option (Pair p) (getPieceInstance i p) | None \<Rightarrow> None)"

section \<open>Changing the model\<close>

definition put_part_instance ::
  "PartInstanceId \<Rightarrow> PlayoutPartInstanceModel option \<Rightarrow> PlayoutModel \<Rightarrow> PlayoutModel" where
  "put_part_instance i p m = m\<lparr>allPartInstances := map_set i p (allPartInstances m)\<rparr>"

definition on_part_instance ::
  "PartInstanceId \<Rightarrow> (PlayoutPartInstanceModel \<Rightarrow> PlayoutPartInstanceModel) \<Rightarrow> PlayoutModel \<Rightarrow> PlayoutModel" where
  \<comment> \<open>a call on the part instance of that id; on one that was removed it has no effect on the model\<close>
  "on_part_instance i f m =
     (case part_instance_at i m of None \<Rightarrow> m | Some p \<Rightarrow> put_part_instance i (Some (f p)) m)"

definition on_playlist :: "(DBRundownPlaylist \<Rightarrow> DBRundownPlaylist) \<Rightarrow> PlayoutModel \<Rightarrow> PlayoutModel" where
  "on_playlist f m = m\<lparr>playlist := f (playlist m), playlistHasChanged := True\<rparr>"

definition on_rundown ::
  "RundownId \<Rightarrow> (PlayoutRundownModel \<Rightarrow> PlayoutRundownModel) \<Rightarrow> PlayoutModel \<Rightarrow> PlayoutModel" where
  "on_rundown i f m = m\<lparr>rundownsImpl := map (\<lambda>r. if rd_id (rundown_doc r) = i then f r else r) (rundownsImpl m)\<rparr>"

definition deferAfterSave :: "deferred \<Rightarrow> PlayoutModel \<Rightarrow> PlayoutModel" where
  "deferAfterSave d m = m\<lparr>deferredAfterSaveFunctions := deferredAfterSaveFunctions m @ [d]\<rparr>"

definition activatePlaylist :: "string \<Rightarrow> bool \<Rightarrow> PlayoutModel \<Rightarrow> string \<times> PlayoutModel" where
  "activatePlaylist randomId reh m =
     (randomId, on_playlist (\<lambda>p. p\<lparr>activationId := Some randomId, rehearsal := reh\<rparr>) m)"

definition clearSelectedPartInstances :: "PlayoutModel \<Rightarrow> PlayoutModel" where
  "clearSelectedPartInstances = on_playlist (\<lambda>p. p\<lparr>currentPartInfo := None, nextPartInfo := None,
     previousPartInfo := None, holdState := Some HoldNone, lastTakeTime := None, queuedSegmentId := None\<rparr>)"

definition fixupPieceInstancesForPartInstance :: "DBPartInstance \<Rightarrow> PieceInstance list \<Rightarrow> PieceInstance list" where
  "fixupPieceInstancesForPartInstance inst =
     map (\<lambda>p. p\<lparr>pi_id := getPieceInstanceIdForPiece (inst_id inst) (piece_id (pi_piece p)),
                pi_partInstanceId := inst_id inst\<rparr>)"

definition add_part_instance ::
  "PlayoutPartInstanceModel \<Rightarrow> PlayoutModel \<Rightarrow> PartInstanceId \<times> PlayoutModel" where
  \<comment> \<open>\<open>recalculateExpectedDurationWithTransition\<close> and the entry of the map\<close>
  "add_part_instance p m =
     (let p = recalculateExpectedDurationWithTransition p; i = inst_id (partInstanceImpl p)
      in (i, put_part_instance i (Some p) m))"

definition createAdlibbedPartInstance ::
  "time \<Rightarrow> PartInstanceId \<Rightarrow> (nat \<Rightarrow> string) \<Rightarrow> DBPart \<Rightarrow> PieceInstancePiece list \<Rightarrow> PieceId option
   \<Rightarrow> PieceInstance list \<Rightarrow> PlayoutModel \<Rightarrow> playout_error + (PartInstanceId \<times> PlayoutModel)" where
  "createAdlibbedPartInstance now randomId infiniteIds part pieces fromAdlibId infinitePieceInstances m =
     (case currentPartInstance m of
        None \<Rightarrow> Inl NoCurrentPartInstance
      | Some currentPart \<Rightarrow>
         (let cur = partInstanceImpl currentPart;
              new = \<lparr>inst_id = randomId, inst_rundownId = inst_rundownId cur,
                inst_segmentId = inst_segmentId cur,
                inst_playlistActivationId = inst_playlistActivationId cur,
                segmentPlayoutId = segmentPlayoutId cur, inst_rehearsal = inst_rehearsal cur,
                inst_reset = False, takeCount = takeCount cur + 1, isTaken = False, inst_timings = None,
                inst_part = part\<lparr>part_rundownId := inst_rundownId cur, part_segmentId := inst_segmentId cur\<rparr>,
                partPlayoutTimings = None, inst_orphaned = Some AdlibPart, blockTakeUntil = None,
                previousPartEndState = None\<rparr>;
              p = new_part_instance_model new (fixupPieceInstancesForPartInstance new infinitePieceInstances) True;
              p = fold (\<lambda>(k, piece). snd \<circ> insertAdlibbedPiece now (infiniteIds k) piece fromAdlibId)
                    (enumerate 0 pieces) p
          in Inr (add_part_instance p m)))"

definition createInstanceForPart ::
  "time \<Rightarrow> string \<Rightarrow> string \<Rightarrow> DBPart \<Rightarrow> PieceInstance list \<Rightarrow> PlayoutModel
   \<Rightarrow> playout_error + (PartInstanceId \<times> PlayoutModel)" where
  "createInstanceForPart now randomId randomPlayoutId nextPart ps m =
     (if \<not> truthy_str (activationId (playlist m)) then Inl PlaylistNotActive
      else let cur = map_option partInstanceImpl (currentPartInstance m);
               new = \<lparr>inst_id = part_id nextPart @ ''_'' @ randomId, inst_rundownId = part_rundownId nextPart,
                 inst_segmentId = part_segmentId nextPart,
                 inst_playlistActivationId = the (activationId (playlist m)),
                 segmentPlayoutId = (case cur of
                     Some c \<Rightarrow> if part_segmentId nextPart = inst_segmentId c then segmentPlayoutId c else randomPlayoutId
                   | None \<Rightarrow> randomPlayoutId),
                 inst_rehearsal = rehearsal (playlist m), inst_reset = False,
                 takeCount = (case cur of Some c \<Rightarrow> takeCount c + 1 | None \<Rightarrow> 0), isTaken = False,
                 inst_timings = Some (no_timings\<lparr>setAsNext := Some now\<rparr>), inst_part = nextPart,
                 partPlayoutTimings = None, inst_orphaned = None, blockTakeUntil = None,
                 previousPartEndState = None\<rparr>
           in Inr (add_part_instance
             (new_part_instance_model new (fixupPieceInstancesForPartInstance new ps) True) m))"

definition createAdlibTestingPartInstance ::
  "PartInstanceId \<Rightarrow> string \<Rightarrow> PlayoutRundownModel \<Rightarrow> DBPart \<Rightarrow> PlayoutModel
   \<Rightarrow> playout_error + (PartInstanceId \<times> PlayoutModel)" where
  "createAdlibTestingPartInstance randomId randomPlayoutId r part m =
     (if currentPartInstance m \<noteq> None then Inl AdlibTestingAfterFirstTake
      else case getAdlibTestingSegment r of
        None \<Rightarrow> Inl NoAdlibTestingSegment
      | Some s \<Rightarrow>
          if \<exists>p\<in>set (loadedPartInstances m). inst_segmentId (partInstanceImpl p) = seg_id (segment_doc s)
          then Inl AdlibTestingHasContent
          else if \<not> truthy_str (activationId (playlist m)) then Inl PlaylistNotActive
          else Inr (add_part_instance (new_part_instance_model
            \<lparr>inst_id = randomId, inst_rundownId = rd_id (rundown_doc r), inst_segmentId = seg_id (segment_doc s),
             inst_playlistActivationId = the (activationId (playlist m)), segmentPlayoutId = randomPlayoutId,
             inst_rehearsal = rehearsal (playlist m), inst_reset = False, takeCount = 1, isTaken = False,
             inst_timings = None,
             inst_part = part\<lparr>part_rundownId := rd_id (rundown_doc r), part_segmentId := seg_id (segment_doc s)\<rparr>,
             partPlayoutTimings = None, inst_orphaned = Some AdlibPart, blockTakeUntil = None,
             previousPartEndState = None\<rparr> [] True) m))"

definition cycleSelectedPartInstances :: "time \<Rightarrow> PlayoutModel \<Rightarrow> PlayoutModel" where
  "cycleSelectedPartInstances now = on_playlist (\<lambda>p. p\<lparr>previousPartInfo := currentPartInfo p,
     currentPartInfo := nextPartInfo p, nextPartInfo := None, lastTakeTime := Some now\<rparr>)"

definition setHoldState :: "RundownHoldState \<Rightarrow> PlayoutModel \<Rightarrow> PlayoutModel" where
  "setHoldState h = on_playlist (\<lambda>p. p\<lparr>holdState := Some h\<rparr>)"

definition resetHoldState :: "PlayoutModel \<Rightarrow> PlayoutModel" where
  "resetHoldState = setHoldState HoldNone"

definition queuePartInstanceTimingEvent :: "PartInstanceId \<Rightarrow> PlayoutModel \<Rightarrow> PlayoutModel" where
  "queuePartInstanceTimingEvent i m =
     m\<lparr>pendingPartInstanceTimingEvents := set_add i (pendingPartInstanceTimingEvents m)\<rparr>"

definition deactivatePlaylist :: "time \<Rightarrow> PlayoutModel \<Rightarrow> PlayoutModel" where
  "deactivatePlaylist now m =
     (let m = m\<lparr>playlist := (playlist m)\<lparr>activationId := None\<rparr>\<rparr>;
          m = (case currentPartInstance m of
              None \<Rightarrow> m
            | Some c \<Rightarrow> queuePartInstanceTimingEvent (inst_id (partInstanceImpl c))
                (on_part_instance (inst_id (partInstanceImpl c))
                  (\<lambda>p. snd (setReportedStoppedPlaybackWithPieceInstances now p)) m))
      in (clearSelectedPartInstances m)\<lparr>playlistHasChanged := True\<rparr>)"

definition queueNotifyCurrentlyPlayingPartEvent ::
  "RundownId \<Rightarrow> PlayoutPartInstanceModel option \<Rightarrow> PlayoutModel \<Rightarrow> PlayoutModel" where
  "queueNotifyCurrentlyPlayingPartEvent rundownId p m =
     (case p of
        Some p \<Rightarrow>
          if shouldNotifyCurrentPlayingPart (inst_part (partInstanceImpl p))
          then m\<lparr>pendingNotifyCurrentlyPlayingPartEvent := map_set rundownId
                  (Some (part_externalId (inst_part (partInstanceImpl p)))) (pendingNotifyCurrentlyPlayingPartEvent m)\<rparr>
          else m
      | None \<Rightarrow> m\<lparr>pendingNotifyCurrentlyPlayingPartEvent := map_set rundownId None
                  (pendingNotifyCurrentlyPlayingPartEvent m)\<rparr>)"

definition is_rehearsal :: "PlayoutPartInstanceModel option \<Rightarrow> bool" where
  "is_rehearsal p = (case p of None \<Rightarrow> False | Some p \<Rightarrow> inst_rehearsal (partInstanceImpl p))"

definition removeAllRehearsalPartInstances :: "PlayoutModel \<Rightarrow> PlayoutModel" where
  "removeAllRehearsalPartInstances m =
     deferAfterSave (RemoveRehearsalNotLoaded (map fst (filter (\<lambda>e. is_rehearsal (snd e)) (allPartInstances m))))
       (m\<lparr>allPartInstances := map (\<lambda>(i, p). (i, if is_rehearsal p then None else p)) (allPartInstances m)\<rparr>)"

definition removeUntakenPartInstances :: "PlayoutModel \<Rightarrow> PlayoutModel" where
  "removeUntakenPartInstances m =
     fold (\<lambda>p m. if isTaken (partInstanceImpl p) then m
                 else put_part_instance (inst_id (partInstanceImpl p)) None m) (olderPartInstances m) m"

definition resetPlaylist :: "time \<Rightarrow> string \<Rightarrow> bool \<Rightarrow> PlayoutModel \<Rightarrow> PlayoutModel" where
  "resetPlaylist now randomId regenerateActivationId =
     on_playlist (\<lambda>p. p\<lparr>previousPartInfo := None, currentPartInfo := None, nextPartInfo := None,
       holdState := Some HoldNone, resetTime := Some now, lastTakeTime := None, startedPlayback := None,
       rundownsStartedPlayback := None, previousPersistentState := None, trackedAbSessions := None,
       queuedSegmentId := None,
       activationId := (if regenerateActivationId then Some randomId else activationId p)\<rparr>)"

definition setOnTimelineGenerateResult ::
  "string option \<Rightarrow> string \<Rightarrow> string \<Rightarrow> PlayoutModel \<Rightarrow> PlayoutModel" where
  "setOnTimelineGenerateResult persistentState assigned tracked =
     on_playlist (\<lambda>p. p\<lparr>previousPersistentState := persistentState, assignedAbSessions := Some assigned,
       trackedAbSessions := Some tracked\<rparr>)"

definition setPartInstanceAsNext ::
  "PartInstanceId option \<Rightarrow> bool \<Rightarrow> bool \<Rightarrow> int option \<Rightarrow> PlayoutModel \<Rightarrow> playout_error + PlayoutModel" where
  "setPartInstanceAsNext i setManually consumes offset m =
     (case i of
        None \<Rightarrow> Inr (on_playlist (\<lambda>p. p\<lparr>nextPartInfo := None, nextTimeOffset := None\<rparr>) m)
      | Some i \<Rightarrow>
         (case part_instance_at i m of
            None \<Rightarrow> Inl PartInstanceNotConstructed
          | Some p \<Rightarrow> Inr (on_playlist (\<lambda>pl. pl\<lparr>
              nextPartInfo := Some \<lparr>sel_partInstanceId = inst_id (partInstanceImpl p),
                sel_rundownId = inst_rundownId (partInstanceImpl p),
                manuallySelected = (setManually \<or> inst_orphaned (partInstanceImpl p) \<noteq> None),
                sel_consumesQueuedSegmentId = consumes\<rparr>,
              nextTimeOffset := (if truthy_num offset then offset else None)\<rparr>) m)))"

definition setQueuedSegment :: "SegmentId option \<Rightarrow> PlayoutModel \<Rightarrow> PlayoutModel" where
  "setQueuedSegment s = on_playlist (\<lambda>p. p\<lparr>queuedSegmentId := s\<rparr>)"

definition setRundownStartedPlayback :: "RundownId \<Rightarrow> time \<Rightarrow> PlayoutModel \<Rightarrow> PlayoutModel" where
  "setRundownStartedPlayback rundownId timestamp =
     on_playlist (\<lambda>p.
       (let started = nullish (rundownsStartedPlayback p) [];
            started = (if truthy_num (map_get started rundownId) then started else map_set rundownId timestamp started)
        in p\<lparr>rundownsStartedPlayback := Some started,
             startedPlayback := (if truthy_num (startedPlayback p) then startedPlayback p else Some timestamp)\<rparr>))"

text \<open>Whether \<open>assertNoChanges\<close> finds nothing; the functions deferred before the save are not modelled.\<close>

definition playout_assertNoChanges :: "PlayoutModel \<Rightarrow> bool" where
  "playout_assertNoChanges m =
     (deferredAfterSaveFunctions m = [] \<and> \<not> playlistHasChanged m
      \<and> find adlibTestingSegmentHasChanged (rundownsImpl m) = None
      \<and> filter (\<lambda>e. case snd e of None \<Rightarrow> True | Some p \<Rightarrow> hasAnyChanges p) (allPartInstances m) = [])"

definition dispose :: "PlayoutModel \<Rightarrow> PlayoutModel" where
  "dispose m = m\<lparr>playout_disposed := True, deferredAfterSaveFunctions := []\<rparr>"

end
