(* ===== verification/Playout_Database.thy ===== *)
theory Playout_Database
  imports Playout_Model
begin

text \<open>
  Loading a playout model and saving it: \<open>LoadPlayoutModel.ts\<close>, \<open>SavePlayoutModel.ts\<close>,
  \<open>saveAllToDatabase\<close> of \<open>PlayoutModelImpl\<close> with the functions that \<open>removeAllRehearsalPartInstances\<close> and
  \<open>resetPartInstancesWithPieceInstances\<close> defer, and \<open>runWithPlayoutModel\<close> of \<open>playout/lock.ts\<close>. A collection
  of the database is a list of documents by id; a query is a test on documents. Of the writes that the code
  starts together each concerns a collection of its own. The baseline objects, the timeline and what other
  processes do meanwhile are not modelled.
\<close>

record playout_db =
  db_playlist :: DBRundownPlaylist
  db_segments :: "(SegmentId, DBSegment) js_map"
  db_parts :: "(PartId, DBPart) js_map"
  db_partInstances :: "(PartInstanceId, DBPartInstance) js_map"
  db_pieceInstances :: "(PieceInstanceId, PieceInstance) js_map"

definition findFetch :: "('d \<Rightarrow> bool) \<Rightarrow> (string, 'd) js_map \<Rightarrow> 'd list" where
  "findFetch query c = filter query (map snd c)"

definition update_docs :: "('d \<Rightarrow> bool) \<Rightarrow> ('d \<Rightarrow> 'd) \<Rightarrow> (string, 'd) js_map \<Rightarrow> (string, 'd) js_map" where
  "update_docs query f c = map (\<lambda>(i, d). (i, if query d then f d else d)) c"

definition remove_docs :: "('d \<Rightarrow> bool) \<Rightarrow> (string, 'd) js_map \<Rightarrow> (string, 'd) js_map" where
  "remove_docs query c = filter (\<lambda>e. \<not> query (snd e)) c"

datatype 'd bulk_op = ReplaceDoc string 'd | DeleteWhere "'d \<Rightarrow> bool"

fun apply_bulk_op :: "'d bulk_op \<Rightarrow> (string, 'd) js_map \<Rightarrow> (string, 'd) js_map" where
  "apply_bulk_op (ReplaceDoc i d) c = map_set i d c"
| "apply_bulk_op (DeleteWhere query) c = remove_docs query c"

definition bulkWrite :: "'d bulk_op list \<Rightarrow> (string, 'd) js_map \<Rightarrow> (string, 'd) js_map" where
  "bulkWrite ops c = fold apply_bulk_op ops c"

section \<open>Loading\<close>

definition playlist_selection :: "DBRundownPlaylist \<Rightarrow> PartInstanceId list" where
  \<comment> \<open>\<open>selectedPartInstanceIds\<close> of \<open>loadPartInstances\<close>\<close>
  "playlist_selection p = filter (\<lambda>i. i \<noteq> []) (map sel_partInstanceId (compact
     [currentPartInfo p, nextPartInfo p, previousPartInfo p]))"

definition part_instance_query ::
  "playout_db \<Rightarrow> DBRundownPlaylist \<Rightarrow> RundownId list \<Rightarrow> DBPartInstance \<Rightarrow> bool" where
  "part_instance_query db p rundownIds d =
     (let selected = playlist_selection p;
          segmentIds = map inst_segmentId (findFetch (\<lambda>d. inst_id d \<in> set selected) (db_partInstances db))
      in inst_rundownId d \<in> set rundownIds
         \<and> ((inst_segmentId d \<in> set segmentIds \<and> \<not> inst_reset d) \<or> inst_id d \<in> set selected))"

definition piece_instance_query :: "DBRundownPlaylist \<Rightarrow> RundownId list \<Rightarrow> PieceInstance \<Rightarrow> bool" where
  \<comment> \<open>every piece instance has an activation id, so \<open>$exists: false\<close> finds none\<close>
  "piece_instance_query p rundownIds d =
     (pi_rundownId d \<in> set rundownIds \<and> pi_partInstanceId d \<in> set (playlist_selection p)
      \<and> truthy_str (activationId p) \<and> Some (pi_playlistActivationId d) = activationId p)"

definition loadPartInstances ::
  "playout_db \<Rightarrow> DBRundownPlaylist \<Rightarrow> RundownId list \<Rightarrow> PlayoutPartInstanceModel list" where
  "loadPartInstances db p rundownIds =
     (let groupedPieceInstances = groupByToMapFunc (\<lambda>d. Some (pi_partInstanceId d))
            (findFetch (piece_instance_query p rundownIds) (db_pieceInstances db))
      in map (\<lambda>d. new_part_instance_model d (nullish (map_get groupedPieceInstances (inst_id d)) []) False)
           (findFetch (part_instance_query db p rundownIds) (db_partInstances db)))"

text \<open>The segments that an ingest model hands over, with their parts\<close>

record ingest_content =
  ic_rundownId :: RundownId
  ic_segments :: "(DBSegment \<times> DBPart list) list"

definition loadRundowns ::
  "playout_db \<Rightarrow> ingest_content option \<Rightarrow> DBRundown list \<Rightarrow> PlayoutRundownModel list" where
  "loadRundowns db ingest rundowns =
     (let rundownIds = map rd_id rundowns;
          loadRundownIds = (case ingest of
              Some ic \<Rightarrow> filter (\<lambda>i. i \<noteq> ic_rundownId ic) rundownIds | None \<Rightarrow> rundownIds);
          segments = findFetch (\<lambda>s. seg_rundownId s \<in> set loadRundownIds
            \<or> (seg_rundownId s \<in> set rundownIds \<and> seg_orphaned s = Some AdlibTesting)) (db_segments db);
          parts = findFetch (\<lambda>p. part_rundownId p \<in> set loadRundownIds) (db_parts db);
          groupedParts = groupByToMapFunc (\<lambda>p. Some (part_segmentId p)) parts;
          segmentsWithParts = map (\<lambda>s. new_playout_segment s (nullish (map_get groupedParts (seg_id s)) [])) segments;
          grouped = groupByToMapFunc (\<lambda>s. Some (seg_rundownId (segment_doc s))) segmentsWithParts;
          grouped = (case ingest of
              Some ic \<Rightarrow> map_set (ic_rundownId ic)
                (map (\<lambda>(s, ps). new_playout_segment s ps) (ic_segments ic)) grouped
            | None \<Rightarrow> grouped)
      in map (\<lambda>r. new_playout_rundown r (nullish (map_get grouped (rd_id r)) [])) rundowns)"

definition createPlayoutModelfromInitModel ::
  "playout_db \<Rightarrow> bool \<Rightarrow> DBRundownPlaylist \<Rightarrow> DBRundown list \<Rightarrow> playout_error + PlayoutModel" where
  "createPlayoutModelfromInitModel db locked p rundowns =
     (if \<not> locked then Inl SavingWithoutLock
      else Inr (new_playout_model locked p (loadPartInstances db p (map rd_id rundowns))
        (loadRundowns db None rundowns)))"

definition createPlayoutModelFromIngestModel ::
  "(string \<Rightarrow> string \<Rightarrow> int) \<Rightarrow> playout_db \<Rightarrow> bool \<Rightarrow> DBRundownPlaylist \<Rightarrow> DBRundown list \<Rightarrow> ingest_content \<Rightarrow> PlayoutModel" where
  "createPlayoutModelFromIngestModel lc db locked p rundowns ic =
     new_playout_model locked p (loadPartInstances db p (map rd_id rundowns))
       (loadRundowns db (Some ic) (sortRundownsWithinPlaylist lc (rundownIdsInOrder p) rundowns))"

section \<open>Saving\<close>

definition deleted_part_instances :: "(PartInstanceId, PlayoutPartInstanceModel option) js_map \<Rightarrow> PartInstanceId list" where
  "deleted_part_instances es = map fst (filter (\<lambda>e. snd e = None) es)"

definition part_instance_writes ::
  "PartInstanceId \<times> PlayoutPartInstanceModel option \<Rightarrow> DBPartInstance bulk_op list" where
  "part_instance_writes e = (case e of
      (i, Some p) \<Rightarrow> if partInstanceHasChanges p then [ReplaceDoc i (partInstanceImpl p)] else []
    | (i, None) \<Rightarrow> [])"

definition piece_write ::
  "PieceInstanceId \<times> PlayoutPieceInstanceModel option \<Rightarrow> PieceInstance bulk_op list" where
  "piece_write e = (case e of
      (i, Some p) \<Rightarrow> if HasChanges p then [ReplaceDoc i (PieceInstanceImpl p)] else []
    | (i, None) \<Rightarrow> [])"

definition pieces_of_entry ::
  "PartInstanceId \<times> PlayoutPartInstanceModel option \<Rightarrow> (PieceInstanceId \<times> PlayoutPieceInstanceModel option) list" where
  "pieces_of_entry e = (case snd e of None \<Rightarrow> [] | Some p \<Rightarrow> pieceInstancesImpl p)"

definition writePartInstancesAndPieceInstances ::
  "(PartInstanceId, PlayoutPartInstanceModel option) js_map
   \<Rightarrow> DBPartInstance bulk_op list \<times> PieceInstance bulk_op list
      \<times> (PartInstanceId, PlayoutPartInstanceModel option) js_map" where
  "writePartInstancesAndPieceInstances es =
     (let deletedPartInstanceIds = deleted_part_instances es;
          pieces = concat (map pieces_of_entry es);
          deletedPieceInstanceIds = map fst (filter (\<lambda>e. snd e = None) pieces)
      in (concat (map part_instance_writes es)
            @ (if deletedPartInstanceIds \<noteq> []
               then [DeleteWhere (\<lambda>d. inst_id d \<in> set deletedPartInstanceIds)] else []),
          concat (map piece_write pieces)
            @ (if deletedPartInstanceIds \<noteq> []
               then [DeleteWhere (\<lambda>d. pi_partInstanceId d \<in> set deletedPartInstanceIds)] else [])
            @ (if deletedPieceInstanceIds \<noteq> []
               then [DeleteWhere (\<lambda>d. pi_id d \<in> set deletedPieceInstanceIds)] else []),
          map (\<lambda>(i, p). (i, map_option inst_clearChangedFlags p)) es))"

definition adlib_segment_writes :: "PlayoutRundownModel \<Rightarrow> DBSegment bulk_op list" where
  "adlib_segment_writes r =
     (if adlibTestingSegmentHasChanged r
      then let s = map_option segment_doc (getAdlibTestingSegment r) in
        DeleteWhere (\<lambda>d. seg_rundownId d = rd_id (rundown_doc r)
            \<and> seg_id d \<noteq> (case s of Some s \<Rightarrow> seg_id s | None \<Rightarrow> []) \<and> seg_orphaned d = Some AdlibTesting)
        # (case s of Some s \<Rightarrow> [ReplaceDoc (seg_id s) s] | None \<Rightarrow> [])
      else [])"

definition writeAdlibTestingSegments ::
  "PlayoutRundownModel list \<Rightarrow> DBSegment bulk_op list \<times> PlayoutRundownModel list" where
  "writeAdlibTestingSegments rs =
     (concat (map adlib_segment_writes rs),
      map (\<lambda>r. if adlibTestingSegmentHasChanged r then clearAdlibTestingSegmentChangedFlag r else r) rs)"

definition run_deferred ::
  "(string \<Rightarrow> string \<Rightarrow> int) \<Rightarrow> PlayoutModel \<Rightarrow> deferred \<Rightarrow> playout_db \<Rightarrow> playout_db" where
  "run_deferred lc m d db =
     (let rundownIds = set (getRundownIds lc m);
          inModel = set (map (\<lambda>p. inst_id (partInstanceImpl p)) (loadedPartInstances m))
      in case d of
        ResetNotLoaded selector partInstanceIdsToReset \<Rightarrow>
          let resetInDb = map inst_id (findFetch (\<lambda>d. selector d \<and> inst_id d \<notin> inModel
                \<and> inst_rundownId d \<in> rundownIds \<and> \<not> inst_reset d) (db_partInstances db));
              allToReset = resetInDb @ partInstanceIdsToReset
          in db\<lparr>db_partInstances := (if resetInDb = [] then db_partInstances db
                 else update_docs (\<lambda>d. inst_id d \<in> set resetInDb \<and> inst_rundownId d \<in> rundownIds \<and> \<not> inst_reset d)
                   (\<lambda>d. d\<lparr>inst_reset := True\<rparr>) (db_partInstances db)),
               db_pieceInstances := (if allToReset = [] then db_pieceInstances db
                 else update_docs (\<lambda>d. pi_partInstanceId d \<in> set allToReset \<and> pi_rundownId d \<in> rundownIds
                     \<and> \<not> pi_reset d) (\<lambda>d. d\<lparr>pi_reset := True\<rparr>) (db_pieceInstances db))\<rparr>
      | RemoveRehearsalNotLoaded partInstancesToRemove \<Rightarrow>
          let removeFromDb = map inst_id (findFetch (\<lambda>d. inst_id d \<notin> inModel \<and> inst_rundownId d \<in> rundownIds
                \<and> inst_rehearsal d) (db_partInstances db));
              allToRemove = removeFromDb @ partInstancesToRemove
          in db\<lparr>db_partInstances := (if removeFromDb = [] then db_partInstances db
                 else remove_docs (\<lambda>d. inst_id d \<in> set removeFromDb \<and> inst_rundownId d \<in> rundownIds)
                   (db_partInstances db)),
               db_pieceInstances := (if allToRemove = [] then db_pieceInstances db
                 else remove_docs (\<lambda>d. pi_partInstanceId d \<in> set allToRemove \<and> pi_rundownId d \<in> rundownIds)
                   (db_pieceInstances db))\<rparr>)"

record saved_events =
  timing_events :: "PartInstanceId list"
  notify_events :: "(RundownId \<times> bool \<times> string option) list"

definition write_documents :: "PlayoutModel \<Rightarrow> playout_db \<Rightarrow> PlayoutModel \<times> playout_db" where
  "write_documents m db =
     (let (partOps, pieceOps, es) = writePartInstancesAndPieceInstances (allPartInstances m);
          (segmentOps, rs) = writeAdlibTestingSegments (rundownsImpl m)
      in (m\<lparr>rundownsImpl := rs, allPartInstances := filter (\<lambda>e. snd e \<noteq> None) es, playlistHasChanged := False\<rparr>,
          db\<lparr>db_playlist := (if playlistHasChanged m then playlist m else db_playlist db),
             db_segments := bulkWrite segmentOps (db_segments db),
             db_partInstances := bulkWrite partOps (db_partInstances db),
             db_pieceInstances := bulkWrite pieceOps (db_pieceInstances db)\<rparr>))"

definition playout_saveAllToDatabase ::
  "(string \<Rightarrow> string \<Rightarrow> int) \<Rightarrow> PlayoutModel \<Rightarrow> playout_db \<Rightarrow> playout_error + (PlayoutModel \<times> playout_db \<times> saved_events)" where
  "playout_saveAllToDatabase lc m db =
     (if playout_disposed m then Inl SavingDisposedModel
      else if \<not> playlistLocked m then Inl SavingWithoutLock
      else let (m', db) = write_documents m db;
               db = fold (run_deferred lc m') (deferredAfterSaveFunctions m') db
           in Inr (m'\<lparr>deferredAfterSaveFunctions := [], pendingPartInstanceTimingEvents := [],
                      pendingNotifyCurrentlyPlayingPartEvent := []\<rparr>, db,
               \<lparr>timing_events = pendingPartInstanceTimingEvents m',
                notify_events = map (\<lambda>(r, e). (r, rehearsal (playlist m'), e))
                  (pendingNotifyCurrentlyPlayingPartEvent m')\<rparr>))"

text \<open>A job: an error in it leaves the database as it was.\<close>

definition runWithPlayoutModel ::
  "(string \<Rightarrow> string \<Rightarrow> int) \<Rightarrow> playout_db \<Rightarrow> DBRundown list \<Rightarrow> (playout_db \<Rightarrow> (playout_error + unit))
   \<Rightarrow> (PlayoutModel \<Rightarrow> playout_error + PlayoutModel) \<Rightarrow> playout_error + (playout_db \<times> saved_events)" where
  "runWithPlayoutModel lc db rundowns preInitFcn fcn =
     (case preInitFcn db of
        Inl e \<Rightarrow> Inl e
      | Inr _ \<Rightarrow>
         (case createPlayoutModelfromInitModel db True (db_playlist db)
             (sortRundownsWithinPlaylist lc (rundownIdsInOrder (db_playlist db)) rundowns) of
            Inl e \<Rightarrow> Inl e
          | Inr m \<Rightarrow>
             (case fcn m of
                Inl e \<Rightarrow> Inl e
              | Inr m \<Rightarrow> map_sum id snd (playout_saveAllToDatabase lc m db))))"

end
