(* ===== verification/Playout_Facts.thy ===== *)
theory Playout_Facts
  imports Playout_Database Samples
begin

text \<open>
  Saving a playout model: the part instances and piece instances of the database after a save are those
  of the model, for any sequence of operations on a model loaded from it. An operation on a part instance
  is an interpretation of the locale \<open>instance_operation\<close>; what the functions deferred to after the save do
  is the last section.
\<close>

section \<open>Bulk writes\<close>

lemma get_remove_docs:
  assumes "map_wf c"
  shows "map_get (remove_docs query c) i =
    (case map_get c i of Some d \<Rightarrow> if query d then None else Some d | None \<Rightarrow> None)"
  using assms unfolding remove_docs_def map_wf_def
  by (induction c) (auto simp: map_of_eq_None_iff image_iff split: option.splits)

lemma wf_remove_docs: "map_wf c \<Longrightarrow> map_wf (remove_docs query c)"
  unfolding remove_docs_def map_wf_def by (induction c) auto

lemma get_update_docs:
  "map_get (update_docs query f c) i = map_option (\<lambda>d. if query d then f d else d) (map_get c i)"
  unfolding update_docs_def by (induction c) auto

lemma keys_update_docs [simp]: "map fst (update_docs query f c) = map fst c"
  by (simp add: update_docs_def comp_def case_prod_beta')

lemma wf_update_docs: "map_wf c \<Longrightarrow> map_wf (update_docs query f c)"
  by (simp add: map_wf_def)

definition replace_all :: "(string \<times> 'd) list \<Rightarrow> 'd bulk_op list" where
  "replace_all es = map (\<lambda>(i, d). ReplaceDoc i d) es"

lemma bulkWrite_append: "bulkWrite (xs @ ys) c = bulkWrite ys (bulkWrite xs c)"
  by (simp add: bulkWrite_def)

lemma bulkWrite_simps [simp]:
  "bulkWrite [] c = c" "bulkWrite (op # ops) c = bulkWrite ops (apply_bulk_op op c)"
  by (simp_all add: bulkWrite_def)

lemma bulkWrite_replace: "bulkWrite (replace_all es) c = jm.put_all es c"
  unfolding replace_all_def jm.put_all_def
  by (induction es arbitrary: c) auto

lemma get_replace_all:
  "map_wf c \<Longrightarrow> map_wf es \<Longrightarrow> map_get (bulkWrite (replace_all es) c) i =
     (case map_get es i of Some d \<Rightarrow> Some d | None \<Rightarrow> map_get c i)"
  by (simp add: bulkWrite_replace jm.get_put_all map_of_rev_wf split: option.split)

lemma wf_replace_all: "map_wf c \<Longrightarrow> map_wf (bulkWrite (replace_all es) c)"
  by (simp add: bulkWrite_replace jm.wf_put_all)

text \<open>The entries of a map that give rise to a write\<close>

definition chosen :: "('v \<Rightarrow> 'd option) \<Rightarrow> ('k \<times> 'v) list \<Rightarrow> ('k \<times> 'd) list" where
  "chosen f es = List.map_filter (\<lambda>(i, v). map_option (Pair i) (f v)) es"

lemma chosen_simps [simp]:
  "chosen f [] = []"
  "chosen f ((i, v) # es) = (case f v of None \<Rightarrow> chosen f es | Some d \<Rightarrow> (i, d) # chosen f es)"
  by (simp_all add: chosen_def map_filter_simps split: option.split)

lemma fst_chosen: "i \<in> fst ` set (chosen f es) \<Longrightarrow> i \<in> fst ` set es"
proof (induction es)
  case (Cons e es)
  then show ?case by (cases e) (auto split: option.splits)
qed simp

lemma wf_chosen: "map_wf es \<Longrightarrow> map_wf (chosen f es)"
proof (induction es)
  case (Cons e es)
  obtain j v where e: "e = (j, v)" by force
  have "map_wf es" and "j \<notin> fst ` set es" using Cons.prems by (auto simp: e map_wf_def)
  with Cons.IH fst_chosen [of j f es] show ?case by (auto simp: e map_wf_def split: option.splits)
qed simp

lemma get_chosen: "map_wf es \<Longrightarrow> map_get (chosen f es) i = (case map_get es i of Some v \<Rightarrow> f v | None \<Rightarrow> None)"
proof (induction es)
  case (Cons e es)
  obtain j v where e: "e = (j, v)" by force
  have wf: "map_wf es" and j: "j \<notin> fst ` set es" using Cons.prems by (auto simp: e map_wf_def)
  then have "map_get (chosen f es) j = None" using fst_chosen [of j f es] by (auto simp: map_of_eq_None_iff)
  with Cons.IH [OF wf] show ?case by (auto simp: e split: option.splits)
qed simp

definition changed_instance :: "PlayoutPartInstanceModel option \<Rightarrow> DBPartInstance option" where
  "changed_instance p = (case p of None \<Rightarrow> None
     | Some p \<Rightarrow> if partInstanceHasChanges p then Some (partInstanceImpl p) else None)"

definition changed_piece :: "PlayoutPieceInstanceModel option \<Rightarrow> PieceInstance option" where
  "changed_piece p = (case p of None \<Rightarrow> None | Some p \<Rightarrow> if HasChanges p then Some (PieceInstanceImpl p) else None)"

lemma part_instance_writes_all:
  "concat (map part_instance_writes es) = replace_all (chosen changed_instance es)"
  by (induction es)
    (auto simp: part_instance_writes_def replace_all_def changed_instance_def split: option.splits prod.splits)

lemma piece_writes_all: "concat (map piece_write es) = replace_all (chosen changed_piece es)"
  by (induction es)
    (auto simp: piece_write_def replace_all_def changed_piece_def split: option.splits prod.splits)

section \<open>In sync with the database\<close>

definition piece_keys :: "PlayoutPartInstanceModel \<Rightarrow> PieceInstanceId set" where
  "piece_keys p = fst ` set (pieceInstancesImpl p)"

definition pieces_ok :: "(PieceInstanceId, PieceInstance) js_map \<Rightarrow> PartInstanceId
   \<Rightarrow> (PieceInstanceId, PlayoutPieceInstanceModel option) js_map \<Rightarrow> bool" where
  "pieces_ok D i ps = (map_wf ps \<and> (\<forall>k q. map_get ps k = Some (Some q) \<longrightarrow>
     pi_id (PieceInstanceImpl q) = k \<and> pi_partInstanceId (PieceInstanceImpl q) = i
     \<and> (HasChanges q \<or> map_get D k = Some (PieceInstanceImpl q))))"

definition instance_sync :: "playout_db \<Rightarrow> PartInstanceId \<Rightarrow> PlayoutPartInstanceModel \<Rightarrow> bool" where
  "instance_sync db i p = (inst_id (partInstanceImpl p) = i
     \<and> (partInstanceHasChanges p \<or> map_get (db_partInstances db) i = Some (partInstanceImpl p))
     \<and> pieces_ok (db_pieceInstances db) i (pieceInstancesImpl p))"

definition live_instance :: "PlayoutModel \<Rightarrow> PartInstanceId \<Rightarrow> PlayoutPartInstanceModel \<Rightarrow> bool" where
  "live_instance m i p = (map_get (allPartInstances m) i = Some (Some p))"

definition db_ok :: "playout_db \<Rightarrow> bool" where
  "db_ok db = (map_wf (db_partInstances db) \<and> map_wf (db_pieceInstances db)
     \<and> (\<forall>i d. map_get (db_partInstances db) i = Some d \<longrightarrow> inst_id d = i)
     \<and> (\<forall>i d. map_get (db_pieceInstances db) i = Some d \<longrightarrow> pi_id d = i))"

definition playout_sync :: "playout_db \<Rightarrow> PlayoutModel \<Rightarrow> bool" where
  "playout_sync db m = (map_wf (allPartInstances m)
     \<and> (\<forall>i p. live_instance m i p \<longrightarrow> instance_sync db i p)
     \<and> (\<forall>i j p q. live_instance m i p \<longrightarrow> live_instance m j q \<longrightarrow> i \<noteq> j \<longrightarrow> piece_keys p \<inter> piece_keys q = {}))"

lemma instance_syncD:
  assumes "instance_sync db i p"
  shows "inst_id (partInstanceImpl p) = i"
    and "\<not> partInstanceHasChanges p \<Longrightarrow> map_get (db_partInstances db) i = Some (partInstanceImpl p)"
    and "map_wf (pieceInstancesImpl p)"
    and "map_get (pieceInstancesImpl p) k = Some (Some q) \<Longrightarrow> pi_id (PieceInstanceImpl q) = k"
    and "map_get (pieceInstancesImpl p) k = Some (Some q) \<Longrightarrow> pi_partInstanceId (PieceInstanceImpl q) = i"
    and "map_get (pieceInstancesImpl p) k = Some (Some q) \<Longrightarrow> \<not> HasChanges q \<Longrightarrow>
      map_get (db_pieceInstances db) k = Some (PieceInstanceImpl q)"
  using assms by (auto simp: instance_sync_def pieces_ok_def)

lemma playout_syncD:
  assumes "playout_sync db m"
  shows "map_wf (allPartInstances m)"
    and "live_instance m i p \<Longrightarrow> instance_sync db i p"
    and "live_instance m i p \<Longrightarrow> live_instance m j q \<Longrightarrow> k \<in> piece_keys p \<Longrightarrow> k \<in> piece_keys q \<Longrightarrow> i = j"
  using assms unfolding playout_sync_def by blast+

lemma wf_get_iff: "map_wf es \<Longrightarrow> map_get es i = Some v \<longleftrightarrow> (i, v) \<in> set es"
  by (simp add: map_wf_def)

lemma in_piece_keys: "map_get (pieceInstancesImpl p) k = Some v \<Longrightarrow> k \<in> piece_keys p"
  by (force simp: piece_keys_def dest: map_of_SomeD)

text \<open>All piece entries of the model, as the save walks through them\<close>

definition all_pieces :: "PlayoutModel \<Rightarrow> (PieceInstanceId \<times> PlayoutPieceInstanceModel option) list" where
  "all_pieces m = concat (map pieces_of_entry (allPartInstances m))"

lemma wf_all_pieces:
  assumes "map_wf es" and "\<forall>i p. (i, Some p) \<in> set es \<longrightarrow> map_wf (pieceInstancesImpl p)"
    and "\<forall>i j p q. (i, Some p) \<in> set es \<longrightarrow> (j, Some q) \<in> set es \<longrightarrow> i \<noteq> j \<longrightarrow> piece_keys p \<inter> piece_keys q = {}"
  shows "map_wf (concat (map pieces_of_entry es))"
  using assms
proof (induction es)
  case (Cons e es)
  obtain i v where e: "e = (i, v)" by force
  have i: "i \<notin> fst ` set es" and wf: "map_wf es" using Cons.prems(1) by (auto simp: e map_wf_def)
  have IH: "map_wf (concat (map pieces_of_entry es))"
    using Cons.IH [OF wf] Cons.prems(2,3) by (meson list.set_intros(2))
  show ?case
  proof (cases v)
    case None
    then show ?thesis using IH by (simp add: e pieces_of_entry_def [of "(i, None)"])
  next
    case (Some p)
    have "k \<notin> piece_keys p" if k: "k \<in> fst ` set (concat (map pieces_of_entry es))" for k
    proof -
      from k obtain j q where jq: "(j, Some q) \<in> set es" "k \<in> piece_keys q"
        by (force simp: pieces_of_entry_def piece_keys_def split: option.splits)
      then have "j \<noteq> i" using i by force
      then have "piece_keys p \<inter> piece_keys q = {}" using Cons.prems(3) jq(1) by (force simp: e Some)
      with jq(2) show ?thesis by blast
    qed
    moreover have "map_wf (pieceInstancesImpl p)" using Cons.prems(2) by (simp add: e Some)
    ultimately show ?thesis using IH
      by (auto simp: e Some pieces_of_entry_def [of "(i, Some p)"] map_wf_def piece_keys_def simp del: map_concat)
  qed
qed simp

lemma sync_all_pieces:
  assumes "playout_sync db m"
  shows "map_wf (all_pieces m)"
proof -
  have wf: "map_wf (allPartInstances m)" by (rule playout_syncD(1) [OF assms])
  have live: "live_instance m i p" if "(i, Some p) \<in> set (allPartInstances m)" for i p
    using that wf by (simp add: live_instance_def wf_get_iff)
  show ?thesis unfolding all_pieces_def
  proof (rule wf_all_pieces [OF wf])
    show "\<forall>i p. (i, Some p) \<in> set (allPartInstances m) \<longrightarrow> map_wf (pieceInstancesImpl p)"
      using live instance_syncD(3) playout_syncD(2) [OF assms] by blast
    show "\<forall>i j p q. (i, Some p) \<in> set (allPartInstances m) \<longrightarrow> (j, Some q) \<in> set (allPartInstances m) \<longrightarrow>
        i \<noteq> j \<longrightarrow> piece_keys p \<inter> piece_keys q = {}"
      using live playout_syncD(3) [OF assms] by blast
  qed
qed

lemma get_all_pieces:
  assumes "playout_sync db m"
  shows "map_get (all_pieces m) k = Some v \<longleftrightarrow>
    (\<exists>i p. live_instance m i p \<and> map_get (pieceInstancesImpl p) k = Some v)"
proof -
  have wf: "map_wf (allPartInstances m)" by (rule playout_syncD(1) [OF assms])
  have "map_get (all_pieces m) k = Some v \<longleftrightarrow> (k, v) \<in> set (all_pieces m)"
    by (rule wf_get_iff [OF sync_all_pieces [OF assms]])
  also have "\<dots> \<longleftrightarrow> (\<exists>i p. (i, Some p) \<in> set (allPartInstances m) \<and> (k, v) \<in> set (pieceInstancesImpl p))"
    by (force simp: all_pieces_def pieces_of_entry_def split: option.splits)
  also have "\<dots> \<longleftrightarrow> (\<exists>i p. live_instance m i p \<and> (k, v) \<in> set (pieceInstancesImpl p))"
    by (simp add: live_instance_def wf_get_iff [OF wf])
  also have "\<dots> \<longleftrightarrow> (\<exists>i p. live_instance m i p \<and> map_get (pieceInstancesImpl p) k = Some v)"
    using wf_get_iff instance_syncD(3) playout_syncD(2) [OF assms] by metis
  finally show ?thesis .
qed

section \<open>What a save writes\<close>

definition written_part_instance :: "playout_db \<Rightarrow> PlayoutModel \<Rightarrow> PartInstanceId \<Rightarrow> DBPartInstance option" where
  "written_part_instance db m i = (case map_get (allPartInstances m) i of
     None \<Rightarrow> map_get (db_partInstances db) i | Some p \<Rightarrow> map_option partInstanceImpl p)"

lemma deleted_part_instances_iff:
  "map_wf es \<Longrightarrow> i \<in> set (deleted_part_instances es) \<longleftrightarrow> map_get es i = Some None"
  by (force simp: deleted_part_instances_def wf_get_iff)

lemma write_documents_collections:
  "db_partInstances (snd (write_documents m db)) =
     bulkWrite (fst (writePartInstancesAndPieceInstances (allPartInstances m))) (db_partInstances db)"
  "db_pieceInstances (snd (write_documents m db)) =
     bulkWrite (fst (snd (writePartInstancesAndPieceInstances (allPartInstances m)))) (db_pieceInstances db)"
  by (auto simp: write_documents_def split: prod.splits)

lemma bulk_delete_guarded:
  "bulkWrite (if xs \<noteq> [] then [DeleteWhere (\<lambda>d. f d \<in> set xs)] else []) c = remove_docs (\<lambda>d. f d \<in> set xs) c"
  by (cases xs) (simp_all add: remove_docs_def)

lemma written_part_instances:
  assumes s: "playout_sync db m" and db: "db_ok db"
  shows "map_get (db_partInstances (snd (write_documents m db))) i = written_part_instance db m i"
proof -
  let ?es = "allPartInstances m"
  let ?C = "bulkWrite (replace_all (chosen changed_instance ?es)) (db_partInstances db)"
  let ?removed = "set (deleted_part_instances ?es)"
  have wf: "map_wf ?es" by (rule playout_syncD(1) [OF s])
  have wfP: "map_wf (db_partInstances db)" using db by (simp add: db_ok_def)
  have C: "map_get ?C i = (case map_get ?es i of
      Some (Some p) \<Rightarrow> Some (partInstanceImpl p) | _ \<Rightarrow> map_get (db_partInstances db) i)"
    using instance_syncD(2) [OF playout_syncD(2) [OF s]]
    by (auto simp: get_replace_all [OF wfP wf_chosen [OF wf]] get_chosen [OF wf] changed_instance_def
        live_instance_def split: option.splits)
  have id: "inst_id d = i" if "map_get ?C i = Some d" for d
  proof (cases "\<exists>p. map_get ?es i = Some (Some p)")
    case True
    then show ?thesis using that C instance_syncD(1) [OF playout_syncD(2) [OF s]]
      by (auto simp: live_instance_def)
  next
    case False
    then have "map_get (db_partInstances db) i = Some d" using that C by (auto split: option.splits)
    then show ?thesis using db by (simp add: db_ok_def)
  qed
  have "db_partInstances (snd (write_documents m db)) = remove_docs (\<lambda>d. inst_id d \<in> ?removed) ?C"
    unfolding write_documents_collections writePartInstancesAndPieceInstances_def Let_def fst_conv
      part_instance_writes_all bulkWrite_append bulk_delete_guarded by (rule refl)
  then have "map_get (db_partInstances (snd (write_documents m db))) i =
      (case map_get ?C i of Some d \<Rightarrow> if i \<in> ?removed then None else Some d | None \<Rightarrow> None)"
    using id by (auto simp: get_remove_docs [OF wf_replace_all [OF wfP]] split: option.splits)
  also have "\<dots> = written_part_instance db m i"
    by (auto simp: C written_part_instance_def deleted_part_instances_iff [OF wf] split: option.splits)
  finally show ?thesis .
qed

definition removed_instance :: "PlayoutModel \<Rightarrow> PartInstanceId \<Rightarrow> bool" where
  "removed_instance m i = (map_get (allPartInstances m) i = Some None)"

definition written_piece :: "playout_db \<Rightarrow> PlayoutModel \<Rightarrow> PieceInstanceId \<Rightarrow> PieceInstance option" where
  "written_piece db m k = (case map_get (all_pieces m) k of
     Some q \<Rightarrow> map_option PieceInstanceImpl q
   | None \<Rightarrow> (case map_get (db_pieceInstances db) k of
       Some d \<Rightarrow> if removed_instance m (pi_partInstanceId d) then None else Some d | None \<Rightarrow> None))"

lemma written_pieces:
  assumes s: "playout_sync db m" and db: "db_ok db"
  shows "map_get (db_pieceInstances (snd (write_documents m db))) k = written_piece db m k"
proof -
  let ?es = "allPartInstances m" and ?ps = "all_pieces m" and ?D = "db_pieceInstances db"
  let ?C = "bulkWrite (replace_all (chosen changed_piece ?ps)) ?D"
  let ?removed = "set (deleted_part_instances ?es)"
  let ?gone = "set (map fst (filter (\<lambda>e. snd e = None) ?ps))"
  have wf: "map_wf ?es" by (rule playout_syncD(1) [OF s])
  have wfp: "map_wf ?ps" by (rule sync_all_pieces [OF s])
  have wfD: "map_wf ?D" using db by (simp add: db_ok_def)
  have piece: "pi_id (PieceInstanceImpl q) = k \<and> \<not> removed_instance m (pi_partInstanceId (PieceInstanceImpl q))
      \<and> (HasChanges q \<or> map_get ?D k = Some (PieceInstanceImpl q))" if "map_get ?ps k = Some (Some q)" for q
    using that playout_syncD(2) [OF s] instance_syncD(4,5,6)
    by (fastforce simp: get_all_pieces [OF s] removed_instance_def live_instance_def)
  have C: "map_get ?C k = (case map_get ?ps k of
      Some (Some q) \<Rightarrow> Some (PieceInstanceImpl q) | _ \<Rightarrow> map_get ?D k)"
    using piece
    by (auto simp: get_replace_all [OF wfD wf_chosen [OF wfp]] get_chosen [OF wfp] changed_piece_def
        split: option.splits)
  have id: "pi_id d = k" if "map_get ?C k = Some d" for d
    using that C piece db by (auto simp: db_ok_def split: option.splits)
  have gone: "k \<in> ?gone \<longleftrightarrow> map_get ?ps k = Some None"
    by (force simp: wf_get_iff [OF wfp])
  have "db_pieceInstances (snd (write_documents m db)) =
      remove_docs (\<lambda>d. pi_id d \<in> ?gone) (remove_docs (\<lambda>d. pi_partInstanceId d \<in> ?removed) ?C)"
    unfolding write_documents_collections writePartInstancesAndPieceInstances_def Let_def fst_conv snd_conv
      bulkWrite_append piece_writes_all all_pieces_def [symmetric] bulk_delete_guarded
    by (rule refl)
  then have "map_get (db_pieceInstances (snd (write_documents m db))) k =
      (case map_get ?C k of Some d \<Rightarrow>
         if removed_instance m (pi_partInstanceId d) \<or> k \<in> ?gone then None else Some d | None \<Rightarrow> None)"
    using id by (auto simp: get_remove_docs wf_remove_docs wf_replace_all [OF wfD]
        deleted_part_instances_iff [OF wf] removed_instance_def split: option.splits)
  also have "\<dots> = written_piece db m k"
    unfolding C gone using piece by (auto simp: written_piece_def split: option.splits)
  finally show ?thesis .
qed

section \<open>Operations on a part instance\<close>

text \<open>What the model requires of an operation on a part instance: it stays in sync with the database.\<close>

locale instance_operation =
  fixes f :: "PlayoutPartInstanceModel \<Rightarrow> PlayoutPartInstanceModel"
  assumes sync: "instance_sync db i p \<Longrightarrow> instance_sync db i (f p)"
begin

lemma sync_twice: "instance_sync db i p \<Longrightarrow> instance_sync db i (f (f p))"
  by (intro sync)

end

text \<open>An operation on a piece instance: it flags what it changes, and keeps the ids.\<close>

locale piece_operation =
  fixes f :: "PlayoutPieceInstanceModel \<Rightarrow> PlayoutPieceInstanceModel"
  assumes piece_id_kept: "pi_id (PieceInstanceImpl (f q)) = pi_id (PieceInstanceImpl q)"
    and owner_kept: "pi_partInstanceId (PieceInstanceImpl (f q)) = pi_partInstanceId (PieceInstanceImpl q)"
    and flagged: "HasChanges (f q) \<or> f q = q"
begin

lemma pieces_ok_map:
  assumes "pieces_ok D i ps"
  shows "pieces_ok D i (map (\<lambda>(k, q). (k, map_option f q)) ps)"
proof -
  have get: "map_get (map (\<lambda>(k, q). (k, map_option f q)) ps) k = map_option (map_option f) (map_get ps k)" for k
    by (induction ps) auto
  show ?thesis unfolding pieces_ok_def
  proof (intro conjI allI impI)
    show "map_wf (map (\<lambda>(k, q). (k, map_option f q)) ps)"
      using assms by (simp add: pieces_ok_def map_wf_def comp_def case_prod_beta')
    fix k q assume "map_get (map (\<lambda>(k, q). (k, map_option f q)) ps) k = Some (Some q)"
    then obtain r where r: "map_get ps k = Some (Some r)" "q = f r" unfolding get by blast
    with assms have ok: "pi_id (PieceInstanceImpl r) = k" "pi_partInstanceId (PieceInstanceImpl r) = i"
        "HasChanges r \<or> map_get D k = Some (PieceInstanceImpl r)"
      unfolding pieces_ok_def by blast+
    show "pi_id (PieceInstanceImpl q) = k" "pi_partInstanceId (PieceInstanceImpl q) = i"
      using ok r(2) by (simp_all add: piece_id_kept owner_kept)
    show "HasChanges q \<or> map_get D k = Some (PieceInstanceImpl q)"
      using ok(3) flagged [of r] r(2) by metis
  qed
qed

lemma on_pieces_sync: "instance_sync db i p \<Longrightarrow> instance_sync db i (on_pieces f p)"
  using pieces_ok_map by (simp add: instance_sync_def on_pieces_def)

lemma inst_on_piece_sync: "instance_sync db i p \<Longrightarrow> instance_sync db i (inst_on_piece k f p)"
  using flagged
  by (auto simp: instance_sync_def inst_on_piece_def getPieceInstance_def nullish_def put_piece_def pieces_ok_def
      piece_id_kept owner_kept split: option.splits) metis+

end

sublocale piece_operation \<subseteq> on_all: instance_operation "on_pieces f"
  by unfold_locales (rule on_pieces_sync)

sublocale piece_operation \<subseteq> on_one: instance_operation "inst_on_piece k f" for k
  by unfold_locales (rule inst_on_piece_sync)

lemma piece_field_operation:
  assumes "\<And>g d. pi_id (upd g d) = pi_id d" "\<And>g d. pi_partInstanceId (upd g d) = pi_partInstanceId d"
  shows "piece_operation (\<lambda>q. snd (compareAndSetPieceInstanceValue get upd (v q) q))"
  using assms by unfold_locales (simp_all add: compareAndSetPieceInstanceValue_def setPieceInstanceValue_def)

lemma piece_operation_comp: "piece_operation f \<Longrightarrow> piece_operation g \<Longrightarrow> piece_operation (\<lambda>q. g (f q))"
  unfolding piece_operation_def by metis

interpretation setDuration_op: piece_operation "setDuration d"
  unfolding setDuration_def by (rule piece_field_operation) simp_all

interpretation setDisabled_op: piece_operation "setDisabled b"
  unfolding setDisabled_def by (rule piece_field_operation) simp_all

interpretation piece_planned_stop_op: piece_operation "\<lambda>q. snd (piece_setPlannedStoppedPlayback t q)"
  unfolding piece_setPlannedStoppedPlayback_def by (rule piece_field_operation) simp_all

interpretation piece_reported_stop_op: piece_operation "\<lambda>q. snd (piece_setReportedStoppedPlayback t q)"
  unfolding piece_setReportedStoppedPlayback_def by (rule piece_field_operation) simp_all

interpretation piece_planned_start_op: piece_operation "\<lambda>q. snd (piece_setPlannedStartedPlayback t q)"
  unfolding piece_setPlannedStartedPlayback_def
  by (rule piece_operation_comp [where f = "\<lambda>q. snd (compareAndSetPieceInstanceValue _ _ _ q)"]; rule piece_field_operation) simp_all

interpretation piece_reported_start_op: piece_operation "\<lambda>q. snd (piece_setReportedStartedPlayback t q)"
  unfolding piece_setReportedStartedPlayback_def
  by (rule piece_operation_comp [where f = "\<lambda>q. snd (compareAndSetPieceInstanceValue _ _ _ q)"]; rule piece_field_operation) simp_all

interpretation updatePieceProps_op: piece_operation "updatePieceProps s"
  unfolding updatePieceProps_def by (rule piece_field_operation) simp_all

interpretation prepareForHold_op: piece_operation "prepareForHold r"
  by unfold_locales (simp_all add: prepareForHold_def setPieceInstanceValue_def)

interpretation reset_piece_op: piece_operation "\<lambda>q. snd (compareAndSetPieceInstanceValue pi_reset pi_reset_update True q)"
  by (rule piece_field_operation) simp_all

interpretation activation_piece_op:
  piece_operation "\<lambda>q. snd (compareAndSetPieceInstanceValue pi_playlistActivationId pi_playlistActivationId_update i q)"
  by (rule piece_field_operation) simp_all

text \<open>Fields of the part instance and of its part\<close>

lemma instance_operation_comp:
  "instance_operation f \<Longrightarrow> instance_operation g \<Longrightarrow> instance_operation (\<lambda>p. g (f p))"
  unfolding instance_operation_def by blast

lemma instance_operation_cond:
  "instance_operation f \<Longrightarrow> instance_operation g \<Longrightarrow> instance_operation (\<lambda>p. if c p then f p else g p)"
  unfolding instance_operation_def by simp

lemma instance_operation_same: "instance_operation (\<lambda>p. p)"
  by unfold_locales

lemma instance_field_set: "(\<And>g d. inst_id (upd g d) = inst_id d)
    \<Longrightarrow> instance_operation (\<lambda>p. setPartInstanceValue upd (v p) p)"
  by unfold_locales (simp add: instance_sync_def setPartInstanceValue_def)

lemma instance_field_operation: "(\<And>g d. inst_id (upd g d) = inst_id d)
    \<Longrightarrow> instance_operation (\<lambda>p. snd (compareAndSetPartInstanceValue get upd (v p) p))"
  by unfold_locales (simp add: instance_sync_def compareAndSetPartInstanceValue_def setPartInstanceValue_def)

lemma part_field_operation: "instance_operation (\<lambda>p. snd (inst_compareAndSetPartValue get upd (v p) p))"
  by unfold_locales (simp add: instance_sync_def inst_compareAndSetPartValue_def setPartValue_def)

lemma timings_operation: "instance_operation (\<lambda>p. snd (set_timings (v p) p))"
  unfolding set_timings_def by (rule instance_field_operation) simp

interpretation markAsReset_op: instance_operation markAsReset
  unfolding markAsReset_def
  by (rule instance_operation_comp [OF instance_field_operation reset_piece_op.on_all.instance_operation_axioms]) simp

interpretation recalculate_op: instance_operation recalculateExpectedDurationWithTransition
  unfolding recalculateExpectedDurationWithTransition_def by (rule part_field_operation)

interpretation blockTakeUntil_op: instance_operation "inst_blockTakeUntil t"
  unfolding inst_blockTakeUntil_def by (rule instance_field_operation) simp

interpretation inst_orphaned_op: instance_operation "inst_setOrphaned r"
  unfolding inst_setOrphaned_def by (rule instance_field_operation) simp

interpretation activation_op: instance_operation "setPlaylistActivationId i"
  unfolding setPlaylistActivationId_def
  by (rule instance_operation_comp [OF instance_field_operation activation_piece_op.on_all.instance_operation_axioms]) simp

interpretation inst_rank_op: instance_operation "inst_setRank r"
  unfolding inst_setRank_def by (rule part_field_operation)

interpretation updatePartProps_op: instance_operation "\<lambda>p. snd (updatePartProps s p)"
  by (cases s) (simp_all add: updatePartProps_def instance_operation_same instance_field_operation)

interpretation store_timings_op: instance_operation "storePlayoutTimingsAndPreviousEndState t e"
  unfolding storePlayoutTimingsAndPreviousEndState_def
  by (rule instance_operation_comp [where g = "setPartInstanceValue previousPartEndState_update e"],
      rule instance_operation_comp [where g = "setPartInstanceValue partPlayoutTimings_update (Some t)"])
    (simp_all add: instance_field_operation instance_field_set)

interpretation planned_start_op: instance_operation "inst_setPlannedStartedPlayback t"
  unfolding inst_setPlannedStartedPlayback_def by (rule timings_operation)

interpretation planned_stop_op: instance_operation "inst_setPlannedStoppedPlayback t"
  unfolding inst_setPlannedStoppedPlayback_def Let_def
  by (rule instance_operation_cond [OF timings_operation instance_operation_same])

interpretation reported_start_op: instance_operation "\<lambda>p. snd (inst_setReportedStartedPlayback t p)"
  using instance_operation_cond [OF timings_operation instance_operation_same]
  unfolding inst_setReportedStartedPlayback_def Let_def if_distrib [of snd] snd_conv .

interpretation reported_stop_op: instance_operation "\<lambda>p. snd (inst_setReportedStoppedPlayback t p)"
  using instance_operation_cond [OF timings_operation instance_operation_same]
  unfolding inst_setReportedStoppedPlayback_def Let_def if_distrib [of snd] snd_conv .

interpretation setTaken_op: instance_operation "setTaken now t d"
  unfolding setTaken_def Let_def
  by (rule instance_operation_comp [OF instance_field_operation timings_operation]) simp

text \<open>The loop that stops the pieces is a walk through the entries, each kept or changed by one operation.\<close>

lemma stop_pieces_entries:
  "list_all2 (\<lambda>(k, v) (k', v'). k' = k \<and> (v' = v \<or> v' = map_option (\<lambda>q. snd (piece_setReportedStoppedPlayback t q)) v))
     ps (snd (stop_pieces t b ps))"
proof (induction ps arbitrary: b)
  case (Cons e ps)
  obtain k v where e: "e = (k, v)" by force
  show ?case
  proof (cases v)
    case None
    then show ?thesis using Cons.IH [of b] by (simp add: e case_prod_beta' Let_def)
  next
    case (Some q)
    then show ?thesis using Cons.IH [of b] Cons.IH [of "fst (piece_setReportedStoppedPlayback t q)"]
      by (simp add: e case_prod_beta' Let_def)
  qed
qed simp

lemma entries_get:
  "list_all2 (\<lambda>(k, v) (k', v'). k' = k \<and> R v v') xs ys \<Longrightarrow> rel_option R (map_get xs k) (map_get ys k)"
  by (induction xs ys rule: list_all2_induct) auto

lemma entries_keys: "list_all2 (\<lambda>(k, v) (k', v'). k' = k \<and> R v v') xs ys \<Longrightarrow> map fst ys = map fst xs"
  by (induction xs ys rule: list_all2_induct) auto

lemma pieces_ok_entries:
  assumes ok: "pieces_ok D i ps" and f: "piece_operation f"
    and es: "list_all2 (\<lambda>(k, v) (k', v'). k' = k \<and> (v' = v \<or> v' = None \<or> v' = map_option f v)) ps ps'"
  shows "pieces_ok D i ps'"
  unfolding pieces_ok_def
proof (intro conjI allI impI)
  show "map_wf ps'" using ok entries_keys [OF es] by (simp add: pieces_ok_def map_wf_def)
  fix k q assume q: "map_get ps' k = Some (Some q)"
  from entries_get [OF es, of k] q obtain v where v: "map_get ps k = Some v"
      "Some q = v \<or> Some q = map_option f v" by (cases "map_get ps k") auto
  then obtain r where r: "map_get ps k = Some (Some r)" "q = r \<or> q = f r" by (cases v) auto
  with ok have "pi_id (PieceInstanceImpl r) = k" "pi_partInstanceId (PieceInstanceImpl r) = i"
      "HasChanges r \<or> map_get D k = Some (PieceInstanceImpl r)"
    unfolding pieces_ok_def by blast+
  moreover have "pi_id (PieceInstanceImpl (f r)) = pi_id (PieceInstanceImpl r)"
      "pi_partInstanceId (PieceInstanceImpl (f r)) = pi_partInstanceId (PieceInstanceImpl r)"
      "HasChanges (f r) \<or> f r = r"
    using f by (simp_all add: piece_operation_def)
  ultimately show "pi_id (PieceInstanceImpl q) = k" "pi_partInstanceId (PieceInstanceImpl q) = i"
      "HasChanges q \<or> map_get D k = Some (PieceInstanceImpl q)"
    using r(2) by auto
qed

lemma stopped_pieces_ok:
  assumes "pieces_ok D i ps"
  shows "pieces_ok D i (snd (stop_pieces t b ps))"
proof -
  have "list_all2 (\<lambda>(k, v) (k', v'). k' = k \<and> (v' = v \<or> v' = None
      \<or> v' = map_option (\<lambda>q. snd (piece_setReportedStoppedPlayback t q)) v)) ps (snd (stop_pieces t b ps))"
    by (rule list_all2_mono [OF stop_pieces_entries]) (simp add: case_prod_beta', metis)
  from pieces_ok_entries [OF assms piece_reported_stop_op.piece_operation_axioms this] show ?thesis .
qed

interpretation stop_all_op: instance_operation "\<lambda>p. snd (setReportedStoppedPlaybackWithPieceInstances t p)"
proof unfold_locales
  fix db i p assume s: "instance_sync db i p"
  obtain b q where q: "inst_setReportedStoppedPlayback t p = (b, q)" by force
  obtain b' ps where ps: "stop_pieces t b (pieceInstancesImpl q) = (b', ps)" by force
  from reported_stop_op.sync [OF s, of t] have sq: "instance_sync db i q" by (simp add: q)
  with stopped_pieces_ok [of "db_pieceInstances db" i "pieceInstancesImpl q" t b]
  have "instance_sync db i (q\<lparr>pieceInstancesImpl := ps\<rparr>)" by (simp add: instance_sync_def ps)
  with s show "instance_sync db i (snd (setReportedStoppedPlaybackWithPieceInstances t p))"
    by (simp add: setReportedStoppedPlaybackWithPieceInstances_def q ps)
qed

text \<open>Operations that add or drop piece instances\<close>

lemma sync_put:
  "instance_sync db i p \<Longrightarrow> pi_partInstanceId (PieceInstanceImpl q) = inst_id (partInstanceImpl p) \<Longrightarrow>
   pi_id (PieceInstanceImpl q) = k \<Longrightarrow> HasChanges q \<Longrightarrow> instance_sync db i (put_piece k (Some q) p)"
  by (simp add: instance_sync_def pieces_ok_def put_piece_def)

lemma sync_insert:
  "instance_sync db i p \<Longrightarrow> pi_partInstanceId q = inst_id (partInstanceImpl p) \<Longrightarrow>
     instance_sync db i (snd (insert_piece_instance q p))"
  by (simp add: insert_piece_instance_def sync_put)

lemma sync_put_None: "instance_sync db i p \<Longrightarrow> instance_sync db i (put_piece k None p)"
  by (auto simp: instance_sync_def pieces_ok_def put_piece_def)

lemma inserts_operation:
  "(\<And>p. pi_partInstanceId (v p) = inst_id (partInstanceImpl p)) \<Longrightarrow>
     instance_operation (\<lambda>p. snd (insert_piece_instance (v p) p))"
  by unfold_locales (simp add: sync_insert)

lemma setup_owner [simp]: "pi_partInstanceId (setupPieceInstanceInfiniteProperties r q) = pi_partInstanceId q"
  by (simp add: setupPieceInstanceInfiniteProperties_def)

lemma piece_instance_for_owner [simp]: "pi_partInstanceId (piece_instance_for q p) = inst_id (partInstanceImpl p)"
  by (simp add: piece_instance_for_def)

interpretation insertAdlibbedPiece_op: instance_operation "\<lambda>p. snd (insertAdlibbedPiece now r piece a p)"
  unfolding insertAdlibbedPiece_def by (rule inserts_operation) simp

interpretation insertVirtualPiece_op: instance_operation "\<lambda>p. snd (insertVirtualPiece now i r t l layer p)"
  unfolding insertVirtualPiece_def by (rule inserts_operation) simp

interpretation removePieceInstance_op: instance_operation "\<lambda>p. snd (removePieceInstance k p)"
  by unfold_locales (auto simp: removePieceInstance_def sync_put_None split: option.split)

lemma sync_insertPlannedPiece:
  "insertPlannedPiece r piece p = Inr (k, p') \<Longrightarrow> instance_sync db i p \<Longrightarrow> instance_sync db i p'"
  using sync_insert [of db i p "setupPieceInstanceInfiniteProperties r (piece_instance_for piece p)"]
  by (auto simp: insertPlannedPiece_def Let_def split: if_splits)

lemma sync_insertHoldPieceInstance:
  "insertHoldPieceInstance now q p = Inr (k, p') \<Longrightarrow> instance_sync db i p \<Longrightarrow> instance_sync db i p'"
  by (auto simp: insertHoldPieceInstance_def sync_insert
      dest!: arg_cong [where f = snd and x = "insert_piece_instance _ _"] split: option.splits if_splits)

lemma sync_mergeOrInsertPieceInstance:
  "instance_sync db i p \<Longrightarrow> pi_partInstanceId doc = inst_id (partInstanceImpl p) \<Longrightarrow>
   (\<And>d. pi_id (spread d doc) = pi_id doc \<and> pi_partInstanceId (spread d doc) = pi_partInstanceId doc) \<Longrightarrow>
     instance_sync db i (snd (mergeOrInsertPieceInstance spread doc p))"
  unfolding mergeOrInsertPieceInstance_def
  by (cases "getPieceInstance (pi_id doc) p") (simp_all add: sync_insert sync_put)

lemma sync_drop_playhead_infinites:
  assumes "instance_sync db i p"
  shows "instance_sync db i (drop_playhead_infinites p)"
proof -
  have "pieces_ok (db_pieceInstances db) i (pieceInstancesImpl (drop_playhead_infinites p))"
    by (rule pieces_ok_entries [where ps = "pieceInstancesImpl p" and f = "\<lambda>q. q"])
      (use assms in \<open>auto simp: instance_sync_def piece_operation_def drop_playhead_infinites_def
         list_all2_map2 list.rel_refl_strong intro!: list_all2_refl split: option.splits\<close>)
  with assms show ?thesis by (simp add: instance_sync_def drop_playhead_infinites_def)
qed

lemma sync_insert_playhead_infinites:
  "insert_playhead_infinites ps p = Inr p' \<Longrightarrow> instance_sync db i p \<Longrightarrow>
   \<forall>q\<in>set ps. pi_partInstanceId q = inst_id (partInstanceImpl p) \<Longrightarrow> instance_sync db i p'"
proof (induction ps p rule: insert_playhead_infinites.induct)
  case (2 q ps p)
  have "inst_id (partInstanceImpl (snd (insert_piece_instance q p))) = inst_id (partInstanceImpl p)"
    by (simp add: insert_piece_instance_def put_piece_def)
  with 2 sync_insert [OF 2(3), of q] show ?case by (auto split: if_splits)
qed simp

lemma sync_replaceInfinites:
  "replaceInfinitesFromPreviousPlayhead ps p = Inr p' \<Longrightarrow> instance_sync db i p \<Longrightarrow>
   \<forall>q\<in>set ps. pi_partInstanceId q = inst_id (partInstanceImpl p) \<Longrightarrow> instance_sync db i p'"
  using sync_insert_playhead_infinites [of ps "drop_playhead_infinites p" p' db i]
    sync_drop_playhead_infinites [of db i p]
  by (simp add: replaceInfinitesFromPreviousPlayhead_def drop_playhead_infinites_def)

text \<open>A snapshot gives back the part instance it was made of, with its flags\<close>

lemma snapshot_of_pieces:
  assumes "pieces_ok D i ps" and "pieces_ok D i acc"
  shows "pieces_ok D i (fold (\<lambda>(k, q). map_set k
    (map_option (\<lambda>q. \<lparr>PieceInstanceImpl = PieceInstanceImpl q, HasChanges = HasChanges q\<rparr>) q)) ps acc)"
proof -
  have same: "map_option (\<lambda>q. \<lparr>PieceInstanceImpl = PieceInstanceImpl q, HasChanges = HasChanges q\<rparr>) v = v"
    for v :: "PlayoutPieceInstanceModel option"
    by (cases v) simp_all
  have entry: "pi_id (PieceInstanceImpl q) = k \<and> pi_partInstanceId (PieceInstanceImpl q) = i
      \<and> (HasChanges q \<or> map_get D k = Some (PieceInstanceImpl q))" if "(k, Some q) \<in> set ps" for k q
    using assms(1) that by (simp add: pieces_ok_def wf_get_iff)
  have "\<forall>(k, v)\<in>set es. \<forall>q. v = Some q \<longrightarrow> pi_id (PieceInstanceImpl q) = k \<and> pi_partInstanceId (PieceInstanceImpl q) = i
      \<and> (HasChanges q \<or> map_get D k = Some (PieceInstanceImpl q)) \<Longrightarrow> pieces_ok D i c \<Longrightarrow>
      pieces_ok D i (fold (\<lambda>(k, q). map_set k q) es c)" for es c
  proof (induction es arbitrary: c)
    case (Cons e es)
    obtain k v where e: "e = (k, v)" by force
    have "pieces_ok D i (map_set k v c)" using Cons.prems by (auto simp: e pieces_ok_def)
    with Cons.IH Cons.prems(1) show ?case by (simp add: e)
  qed simp
  from this [OF _ assms(2), of ps] entry show ?thesis by (fastforce simp: same)
qed

lemma sync_snapshotRestore:
  assumes "instance_sync db i p" and "snapshotRestore (snapshotMakeCopy p) q = Inr (s, p')"
  shows "instance_sync db i p'"
proof -
  let ?copy = "\<lambda>ps. fold (\<lambda>(k, q). map_set k
    (map_option (\<lambda>q. \<lparr>PieceInstanceImpl = PieceInstanceImpl q, HasChanges = HasChanges q\<rparr>) q)) ps []"
  have p': "p' = \<lparr>partInstanceImpl = partInstanceImpl p, pieceInstancesImpl = ?copy (?copy (pieceInstancesImpl p)),
      partInstanceHasChanges = partInstanceHasChanges p\<rparr>"
    using assms(2) by (simp add: snapshotRestore_def snapshotMakeCopy_def split: if_splits)
  have "pieces_ok (db_pieceInstances db) i []" by (simp add: pieces_ok_def)
  then have "pieces_ok (db_pieceInstances db) i (?copy ps)" if "pieces_ok (db_pieceInstances db) i ps" for ps
    by (rule snapshot_of_pieces [OF that])
  with assms(1) show ?thesis by (simp add: instance_sync_def p')
qed

section \<open>Operations on the model\<close>

text \<open>
  One call on a part instance. The ids of what is inserted belong to the part instance, which is how the
  callers make them; the spread of documents keeps the ids. A rollback is to the part instance as it was before some
  calls on it.
\<close>

inductive instance_step :: "PlayoutPartInstanceModel \<Rightarrow> PlayoutPartInstanceModel \<Rightarrow> bool" where
  st_reset: "instance_step p (markAsReset p)"
| st_recalculate: "instance_step p (recalculateExpectedDurationWithTransition p)"
| st_block: "instance_step p (inst_blockTakeUntil t p)"
| st_orphaned: "instance_step p (inst_setOrphaned r p)"
| st_activation: "instance_step p (setPlaylistActivationId i p)"
| st_rank: "instance_step p (inst_setRank k p)"
| st_props: "instance_step p (snd (updatePartProps s p))"
| st_store: "instance_step p (storePlayoutTimingsAndPreviousEndState ts e p)"
| st_planned_start: "instance_step p (inst_setPlannedStartedPlayback t p)"
| st_planned_stop: "instance_step p (inst_setPlannedStoppedPlayback t p)"
| st_reported_start: "instance_step p (snd (inst_setReportedStartedPlayback now p))"
| st_reported_stop: "instance_step p (snd (inst_setReportedStoppedPlayback now p))"
| st_stop_all: "instance_step p (snd (setReportedStoppedPlaybackWithPieceInstances now p))"
| st_taken: "instance_step p (setTaken now now' d p)"
| st_adlib: "instance_step p (snd (insertAdlibbedPiece now r piece a p))"
| st_virtual: "instance_step p (snd (insertVirtualPiece now k r start l layer p))"
| st_planned: "insertPlannedPiece r piece p = Inr (k, p') \<Longrightarrow> instance_step p p'"
| st_hold: "insertHoldPieceInstance now q p = Inr (k, p') \<Longrightarrow> instance_step p p'"
| st_remove: "instance_step p (snd (removePieceInstance k p))"
| st_merge: "pi_partInstanceId doc = inst_id (partInstanceImpl p) \<Longrightarrow>
    (\<And>d. pi_id (spread d doc) = pi_id doc \<and> pi_partInstanceId (spread d doc) = pi_partInstanceId doc) \<Longrightarrow>
    instance_step p (snd (mergeOrInsertPieceInstance spread doc p))"
| st_playhead: "replaceInfinitesFromPreviousPlayhead ps p = Inr p' \<Longrightarrow>
    \<forall>q\<in>set ps. pi_partInstanceId q = inst_id (partInstanceImpl p) \<Longrightarrow> instance_step p p'"
| st_piece_duration: "instance_step p (inst_on_piece k (setDuration ud) p)"
| st_piece_hold: "instance_step p (inst_on_piece k (prepareForHold r) p)"
| st_piece_props: "instance_step p (inst_on_piece k (updatePieceProps ps) p)"
| st_piece_planned_start: "instance_step p (inst_on_piece k (\<lambda>q. snd (piece_setPlannedStartedPlayback now q)) p)"
| st_piece_planned_stop: "instance_step p (inst_on_piece k (\<lambda>q. snd (piece_setPlannedStoppedPlayback t q)) p)"
| st_piece_reported_start: "instance_step p (inst_on_piece k (\<lambda>q. snd (piece_setReportedStartedPlayback now q)) p)"
| st_piece_reported_stop: "instance_step p (inst_on_piece k (\<lambda>q. snd (piece_setReportedStoppedPlayback now q)) p)"
| st_piece_disabled: "instance_step p (inst_on_piece k (setDisabled b) p)"
| st_rollback: "instance_step\<^sup>*\<^sup>* p q \<Longrightarrow> snapshotRestore (snapshotMakeCopy p) q = Inr (s, p') \<Longrightarrow> instance_step p p'"

lemmas instance_operations =
  markAsReset_op.sync recalculate_op.sync blockTakeUntil_op.sync inst_orphaned_op.sync activation_op.sync
  inst_rank_op.sync updatePartProps_op.sync store_timings_op.sync planned_start_op.sync planned_stop_op.sync
  reported_start_op.sync reported_stop_op.sync stop_all_op.sync setTaken_op.sync insertAdlibbedPiece_op.sync
  insertVirtualPiece_op.sync sync_insertPlannedPiece sync_insertHoldPieceInstance removePieceInstance_op.sync
  sync_mergeOrInsertPieceInstance sync_replaceInfinites setDuration_op.on_one.sync prepareForHold_op.on_one.sync
  updatePieceProps_op.on_one.sync piece_planned_start_op.on_one.sync piece_planned_stop_op.on_one.sync
  piece_reported_start_op.on_one.sync piece_reported_stop_op.on_one.sync setDisabled_op.on_one.sync
  sync_snapshotRestore

lemma instance_step_sync: "instance_step p p' \<Longrightarrow> instance_sync db i p \<Longrightarrow> instance_sync db i p'"
  by (cases rule: instance_step.cases, assumption) (auto intro: instance_operations)

text \<open>No piece instance of one part instance gets the id of one of another: the ids are made from random ones.\<close>

definition ids_fresh :: "PlayoutModel \<Rightarrow> PartInstanceId \<Rightarrow> PlayoutPartInstanceModel \<Rightarrow> bool" where
  "ids_fresh m i p = (\<forall>j q. live_instance m j q \<longrightarrow> j \<noteq> i \<longrightarrow> piece_keys p \<inter> piece_keys q = {})"

definition rundown_ops :: "(PlayoutRundownModel \<Rightarrow> PlayoutRundownModel) set" where
  "rundown_ops = {(\<lambda>r. snd (removeAdlibTestingSegment r)), updateAdlibTestingSegmentRank}
     \<union> {(\<lambda>r. case insertAdlibTestingSegment i t r of None \<Rightarrow> r | Some x \<Rightarrow> snd x) |i t. True}"

inductive playout_step :: "PlayoutModel \<Rightarrow> PlayoutModel \<Rightarrow> bool" where
  ps_instance: "live_instance m i p \<Longrightarrow> instance_step p p' \<Longrightarrow> ids_fresh m i p' \<Longrightarrow>
    playout_step m (put_part_instance i (Some p') m)"
| ps_create: "createInstanceForPart now r r' part ps m = Inr (i, m') \<Longrightarrow> live_instance m' i p \<Longrightarrow>
    ids_fresh m i p \<Longrightarrow> playout_step m m'"
| ps_create_adlib: "createAdlibbedPartInstance now r rs part pieces a ps m = Inr (i, m') \<Longrightarrow> live_instance m' i p \<Longrightarrow>
    ids_fresh m i p \<Longrightarrow> playout_step m m'"
| ps_create_testing: "createAdlibTestingPartInstance r r' rd part m = Inr (i, m') \<Longrightarrow> playout_step m m'"
| ps_activate: "playout_step m (snd (activatePlaylist r reh m))"
| ps_clear: "playout_step m (clearSelectedPartInstances m)"
| ps_cycle: "playout_step m (cycleSelectedPartInstances now m)"
| ps_hold: "playout_step m (setHoldState h m)"
| ps_deactivate: "playout_step m (deactivatePlaylist now m)"
| ps_timing: "playout_step m (queuePartInstanceTimingEvent i m)"
| ps_notify: "playout_step m (queueNotifyCurrentlyPlayingPartEvent rd q m)"
| ps_remove_rehearsal: "playout_step m (removeAllRehearsalPartInstances m)"
| ps_remove_untaken: "playout_step m (removeUntakenPartInstances m)"
| ps_reset: "playout_step m (resetPlaylist now r b m)"
| ps_generated: "playout_step m (setOnTimelineGenerateResult st ab tr m)"
| ps_next: "setPartInstanceAsNext n b c d m = Inr m' \<Longrightarrow> playout_step m m'"
| ps_queue: "playout_step m (setQueuedSegment sg m)"
| ps_started: "playout_step m (setRundownStartedPlayback rd now m)"
| ps_rundown: "f \<in> rundown_ops \<Longrightarrow> playout_step m (on_rundown rd f m)"
| ps_defer: "playout_step m (deferAfterSave d m)"

lemma playout_sync_cong: "allPartInstances m' = allPartInstances m \<Longrightarrow> playout_sync db m' = playout_sync db m"
  by (simp add: playout_sync_def live_instance_def)

lemma live_put: "live_instance (put_part_instance i v m) j q \<longleftrightarrow>
    (if j = i then v = Some q else live_instance m j q)"
  by (simp add: live_instance_def put_part_instance_def)

lemma sync_put_instance:
  assumes s: "playout_sync db m" and p: "instance_sync db i p" and fresh: "ids_fresh m i p"
  shows "playout_sync db (put_part_instance i (Some p) m)"
  unfolding playout_sync_def
proof (intro conjI allI impI)
  show "map_wf (allPartInstances (put_part_instance i (Some p) m))"
    using playout_syncD(1) [OF s] by (simp add: put_part_instance_def)
  show "instance_sync db j q" if "live_instance (put_part_instance i (Some p) m) j q" for j q
    using that p playout_syncD(2) [OF s] by (simp add: live_put split: if_splits)
  show "piece_keys a \<inter> piece_keys b = {}"
    if l: "live_instance (put_part_instance i (Some p) m) j a" "live_instance (put_part_instance i (Some p) m) k b"
      and jk: "j \<noteq> k"
    for j k a b
  proof -
    have other: "piece_keys p \<inter> piece_keys q = {}" if "live_instance m l q" "l \<noteq> i" for l q
      using fresh that unfolding ids_fresh_def by blast
    consider "j = i" "a = p" "live_instance m k b" "k \<noteq> i" | "k = i" "b = p" "live_instance m j a" "j \<noteq> i"
      | "live_instance m j a" "live_instance m k b"
      using l jk by (auto simp: live_put split: if_splits)
    then show ?thesis
    proof cases
      case 1 then show ?thesis using other by blast
    next
      case 2 then show ?thesis using other by blast
    next
      case 3 then show ?thesis using playout_syncD(3) [OF s] jk by blast
    qed
  qed
qed

lemma sync_remove_instance:
  assumes s: "playout_sync db m"
  shows "playout_sync db (put_part_instance i None m)"
  using s unfolding playout_sync_def live_put
  by (auto simp: put_part_instance_def)

lemma pieces_ok_fold:
  assumes "\<forall>q\<in>set ps. pi_partInstanceId q = i \<and> (h \<or> map_get D (pi_id q) = Some q)" and "pieces_ok D i acc"
  shows "pieces_ok D i (fold (\<lambda>p. map_set (pi_id p) (Some \<lparr>PieceInstanceImpl = p, HasChanges = h\<rparr>)) ps acc)"
  using assms
proof (induction ps arbitrary: acc)
  case (Cons q ps)
  have "pieces_ok D i (map_set (pi_id q) (Some \<lparr>PieceInstanceImpl = q, HasChanges = h\<rparr>) acc)"
    using Cons.prems by (auto simp: pieces_ok_def)
  with Cons.IH Cons.prems(1) show ?case by simp
qed simp

lemma new_instance_sync:
  assumes "\<forall>q\<in>set ps. pi_partInstanceId q = inst_id d \<and> (h \<or> map_get (db_pieceInstances db) (pi_id q) = Some q)"
    and "h \<or> map_get (db_partInstances db) (inst_id d) = Some d"
  shows "instance_sync db (inst_id d) (new_part_instance_model d ps h)"
  using assms pieces_ok_fold [OF assms(1), of "[]"]
  by (auto simp: instance_sync_def new_part_instance_model_def pieces_ok_def)

lemma fixup_owner: "q \<in> set (fixupPieceInstancesForPartInstance d ps) \<Longrightarrow> pi_partInstanceId q = inst_id d"
  by (auto simp: fixupPieceInstancesForPartInstance_def)

lemma sync_add_part_instance:
  assumes s: "playout_sync db m" and p0: "instance_sync db k p"
    and a: "add_part_instance p m = (i, m')" and l: "live_instance m' i q" and f: "ids_fresh m i q"
  shows "playout_sync db m'"
proof -
  let ?p = "recalculateExpectedDurationWithTransition p"
  have p: "instance_sync db (inst_id (partInstanceImpl p)) p" using p0 instance_syncD(1) [OF p0] by simp
  have p': "instance_sync db (inst_id (partInstanceImpl p)) ?p" by (rule recalculate_op.sync [OF p])
  then have i: "i = inst_id (partInstanceImpl p)" and m': "m' = put_part_instance i (Some ?p) m"
    using a by (auto simp: add_part_instance_def Let_def dest: instance_syncD(1))
  have "q = ?p" using l by (simp add: m' live_put)
  with sync_put_instance [OF s, of i ?p] p' f show ?thesis by (simp add: i m')
qed

lemma adlibbed_sync:
  "instance_sync db i p \<Longrightarrow>
   instance_sync db i (fold (\<lambda>(k, piece). snd \<circ> insertAdlibbedPiece now (rs k) piece a) es p)"
  by (induction es arbitrary: p) (auto simp: insertAdlibbedPiece_op.sync)

lemma stop_pieces_keys: "map fst (snd (stop_pieces t b ps)) = map fst ps"
  by (rule entries_keys [OF stop_pieces_entries])

lemma stop_all_keys: "piece_keys (snd (setReportedStoppedPlaybackWithPieceInstances t p)) = piece_keys p"
proof -
  have "pieceInstancesImpl (snd (inst_setReportedStoppedPlayback t p)) = pieceInstancesImpl p"
    by (simp add: inst_setReportedStoppedPlayback_def set_timings_def compareAndSetPartInstanceValue_def
        setPartInstanceValue_def Let_def)
  then show ?thesis
    using arg_cong [OF stop_pieces_keys, of set]
    by (simp add: piece_keys_def setReportedStoppedPlaybackWithPieceInstances_def case_prod_beta' Let_def)
qed

lemma ids_fresh_same: "playout_sync db m \<Longrightarrow> live_instance m i p \<Longrightarrow> piece_keys p' = piece_keys p \<Longrightarrow> ids_fresh m i p'"
  by (auto simp: ids_fresh_def dest: playout_syncD(3))

lemma live_at: "part_instance_at i m = Some p \<longleftrightarrow> live_instance m i p"
  by (auto simp: part_instance_at_def live_instance_def nullish_def split: option.splits)

lemma sync_on_part_instance:
  assumes s: "playout_sync db m" and f: "\<And>p. instance_sync db i p \<Longrightarrow> instance_sync db i (f p)"
    and k: "\<And>p. piece_keys (f p) = piece_keys p"
  shows "playout_sync db (on_part_instance i f m)"
  using s sync_put_instance [OF s] f ids_fresh_same [OF s _ k] playout_syncD(2) [OF s]
  by (auto simp: on_part_instance_def live_at split: option.split)

lemma selected_live: "selected_instance x m = Some p \<Longrightarrow> \<exists>i. live_instance m i p"
  by (auto simp: selected_instance_def live_at split: if_splits)

lemma sync_deactivatePlaylist: "playout_sync db m \<Longrightarrow> playout_sync db (deactivatePlaylist now m)"
proof -
  let ?m = "m\<lparr>playlist := (playlist m)\<lparr>activationId := None\<rparr>\<rparr>"
  assume "playout_sync db m"
  then have s: "playout_sync db ?m" by (simp add: playout_sync_cong [of ?m m])
  have "playout_sync db (on_part_instance i (\<lambda>p. snd (setReportedStoppedPlaybackWithPieceInstances now p)) ?m)" for i
    by (rule sync_on_part_instance [OF s stop_all_op.sync stop_all_keys])
  with s have "playout_sync db (case currentPartInstance ?m of None \<Rightarrow> ?m
      | Some c \<Rightarrow> queuePartInstanceTimingEvent (inst_id (partInstanceImpl c))
          (on_part_instance (inst_id (partInstanceImpl c))
            (\<lambda>p. snd (setReportedStoppedPlaybackWithPieceInstances now p)) ?m))" (is "playout_sync db ?m'")
    by (auto simp: queuePartInstanceTimingEvent_def playout_sync_def live_instance_def split: option.split)
  moreover have "allPartInstances (deactivatePlaylist now m) = allPartInstances ?m'"
    by (simp add: deactivatePlaylist_def clearSelectedPartInstances_def on_playlist_def Let_def)
  ultimately show ?thesis by (simp add: playout_sync_cong [of "deactivatePlaylist now m" ?m'])
qed

lemma sync_createInstanceForPart:
  assumes c: "createInstanceForPart now r r' part ps m = Inr (i, m')" and s: "playout_sync db m"
    and l: "live_instance m' i q" "ids_fresh m i q"
  shows "playout_sync db m'"
proof -
  from c obtain d where "add_part_instance
      (new_part_instance_model d (fixupPieceInstancesForPartInstance d ps) True) m = (i, m')"
    by (auto simp: createInstanceForPart_def Let_def split: if_splits)
  moreover have "instance_sync db (inst_id d)
      (new_part_instance_model d (fixupPieceInstancesForPartInstance d ps) True)"
    by (rule new_instance_sync) (auto simp: fixup_owner)
  ultimately show ?thesis using sync_add_part_instance [OF s _ _ l] by blast
qed

lemma sync_createAdlibbedPartInstance:
  assumes c: "createAdlibbedPartInstance now r rs part pieces a ps m = Inr (i, m')" and s: "playout_sync db m"
    and l: "live_instance m' i q" "ids_fresh m i q"
  shows "playout_sync db m'"
proof -
  obtain cur where cur: "currentPartInstance m = Some cur"
    using c by (cases "currentPartInstance m") (simp_all add: createAdlibbedPartInstance_def)
  from c obtain d where a: "add_part_instance
      (fold (\<lambda>(k, piece). snd \<circ> insertAdlibbedPiece now (rs k) piece a) (enumerate 0 pieces)
        (new_part_instance_model d (fixupPieceInstancesForPartInstance d ps) True)) m = (i, m')"
    unfolding createAdlibbedPartInstance_def Let_def cur option.case sum.inject by blast
  have "instance_sync db (inst_id d)
      (new_part_instance_model d (fixupPieceInstancesForPartInstance d ps) True)"
    by (rule new_instance_sync) (auto simp: fixup_owner)
  from adlibbed_sync [OF this, of now rs a "enumerate 0 pieces"]
  show ?thesis using sync_add_part_instance [OF s _ a l] by blast
qed

lemma sync_createAdlibTestingPartInstance:
  assumes c: "createAdlibTestingPartInstance r r' rd part m = Inr (i, m')" and s: "playout_sync db m"
  shows "playout_sync db m'"
proof -
  from c obtain d where a: "add_part_instance (new_part_instance_model d [] True) m = (i, m')"
    by (auto simp: createAdlibTestingPartInstance_def Let_def split: option.splits if_splits)
  have n: "instance_sync db (inst_id d) (new_part_instance_model d [] True)"
    by (rule new_instance_sync) simp_all
  let ?q = "recalculateExpectedDurationWithTransition (new_part_instance_model d [] True)"
  have "piece_keys ?q = {}"
    by (simp add: piece_keys_def recalculateExpectedDurationWithTransition_def inst_compareAndSetPartValue_def
        setPartValue_def new_part_instance_model_def)
  then have "ids_fresh m i ?q" by (simp add: ids_fresh_def)
  moreover have "live_instance m' i ?q" using a by (auto simp: add_part_instance_def Let_def live_put)
  ultimately show ?thesis using sync_add_part_instance [OF s n a] by blast
qed

lemma sync_removeUntaken: "playout_sync db m \<Longrightarrow> playout_sync db (removeUntakenPartInstances m)"
proof -
  have "playout_sync db m' \<Longrightarrow> playout_sync db (fold (\<lambda>p m. if isTaken (partInstanceImpl p) then m
      else put_part_instance (inst_id (partInstanceImpl p)) None m) ps m')" for ps m'
    by (induction ps arbitrary: m') (simp_all add: sync_remove_instance)
  then show "playout_sync db m \<Longrightarrow> playout_sync db (removeUntakenPartInstances m)"
    by (simp add: removeUntakenPartInstances_def)
qed

lemma sync_removeAllRehearsal: "playout_sync db m \<Longrightarrow> playout_sync db (removeAllRehearsalPartInstances m)"
proof -
  let ?m' = "removeAllRehearsalPartInstances m"
  have get: "map_get (map (\<lambda>(i, p). (i, if is_rehearsal p then None else p)) es) i =
      map_option (\<lambda>p. if is_rehearsal p then None else p) (map_get es i)" for es i
    by (induction es) auto
  have "live_instance ?m' i p \<Longrightarrow> live_instance m i p" for i p
    by (auto simp: live_instance_def removeAllRehearsalPartInstances_def deferAfterSave_def get split: if_splits)
  moreover have "map_wf (allPartInstances ?m') = map_wf (allPartInstances m)"
    by (simp add: removeAllRehearsalPartInstances_def deferAfterSave_def map_wf_def comp_def case_prod_beta')
  ultimately show "playout_sync db m \<Longrightarrow> playout_sync db ?m'" unfolding playout_sync_def by blast
qed

lemmas kept_part_instances = on_playlist_def on_rundown_def deferAfterSave_def activatePlaylist_def
  clearSelectedPartInstances_def cycleSelectedPartInstances_def setHoldState_def resetPlaylist_def
  queuePartInstanceTimingEvent_def queueNotifyCurrentlyPlayingPartEvent_def setOnTimelineGenerateResult_def
  setPartInstanceAsNext_def setQueuedSegment_def setRundownStartedPlayback_def

lemma playout_step_sync:
  assumes "playout_step m m'" and s: "playout_sync db m"
  shows "playout_sync db m'"
  using assms(1)
proof cases
  case (ps_instance i p p')
  then show ?thesis
    using sync_put_instance [OF s _ ps_instance(4)] instance_step_sync playout_syncD(2) [OF s] by blast
next
  case ps_create
  then show ?thesis using sync_createInstanceForPart s by blast
next
  case ps_create_adlib
  then show ?thesis using sync_createAdlibbedPartInstance s by blast
next
  case ps_create_testing
  then show ?thesis using sync_createAdlibTestingPartInstance s by blast
next
  case ps_deactivate
  then show ?thesis using sync_deactivatePlaylist s by blast
next
  case ps_remove_rehearsal
  then show ?thesis using sync_removeAllRehearsal s by blast
next
  case ps_remove_untaken
  then show ?thesis using sync_removeUntaken s by blast
qed (use s playout_sync_cong [of m' m] in \<open>auto simp: kept_part_instances split: option.splits if_splits\<close>)

lemma playout_steps_sync: "playout_step\<^sup>*\<^sup>* m m' \<Longrightarrow> playout_sync db m \<Longrightarrow> playout_sync db m'"
  by (induction rule: rtranclp_induct) (auto intro: playout_step_sync)

section \<open>Loading\<close>

lemma keys_new_instance: "piece_keys (new_part_instance_model d ps h) = pi_id ` set ps"
proof -
  have "fst ` set (fold (\<lambda>p. map_set (pi_id p) (Some \<lparr>PieceInstanceImpl = p, HasChanges = h\<rparr>)) ps acc)
      = fst ` set acc \<union> pi_id ` set ps" for acc :: "(PieceInstanceId, PlayoutPieceInstanceModel option) js_map"
    by (induction ps arbitrary: acc) (auto simp: fst_map_set)
  then show ?thesis by (simp add: piece_keys_def new_part_instance_model_def)
qed

definition loaded_model ::
  "playout_db \<Rightarrow> bool \<Rightarrow> DBRundownPlaylist \<Rightarrow> RundownId list \<Rightarrow> PlayoutRundownModel list \<Rightarrow> PlayoutModel" where
  "loaded_model db locked pl rids rs = new_playout_model locked pl (loadPartInstances db pl rids) rs"

lemma findFetch_doc: "map_wf c \<Longrightarrow> d \<in> set (findFetch query c) \<Longrightarrow> \<exists>k. map_get c k = Some d"
  by (force simp: findFetch_def wf_get_iff)

lemma live_loaded:
  assumes db: "db_ok db" and l: "live_instance (loaded_model db locked pl rids rs) i p"
  obtains d ps where "map_get (db_partInstances db) i = Some d" "inst_id d = i" "p = new_part_instance_model d ps False"
    "\<forall>q\<in>set ps. pi_partInstanceId q = i \<and> map_get (db_pieceInstances db) (pi_id q) = Some q"
proof -
  let ?g = "groupByToMapFunc (\<lambda>d. Some (pi_partInstanceId d))
    (findFetch (piece_instance_query pl rids) (db_pieceInstances db))"
  from l have "find (\<lambda>x. Some (inst_id (partInstanceImpl (the x))) = Some i)
      (rev (map Some (loadPartInstances db pl rids))) = Some (Some p)"
    by (simp add: live_instance_def loaded_model_def new_playout_model_def map_get_normalize)
  from find_Some_set [OF this] obtain d where
      d: "d \<in> set (findFetch (part_instance_query db pl rids) (db_partInstances db))"
        "p = new_part_instance_model d (nullish (map_get ?g (inst_id d)) []) False" "inst_id (partInstanceImpl p) = i"
    by (auto simp: loadPartInstances_def Let_def)
  then have i: "inst_id d = i" by (simp add: new_part_instance_model_def)
  from db findFetch_doc [OF _ d(1)] i have "map_get (db_partInstances db) i = Some d"
    unfolding db_ok_def by metis
  moreover have "pi_partInstanceId q = i \<and> map_get (db_pieceInstances db) (pi_id q) = Some q"
    if "q \<in> set (nullish (map_get ?g i) [])" for q
  proof -
    have "q \<in> set (groups_get ?g i)" using that by (simp add: groups_get_def)
    then have "q \<in> set (findFetch (piece_instance_query pl rids) (db_pieceInstances db))" "pi_partInstanceId q = i"
      by (auto simp: groups_get_groupBy)
    with db findFetch_doc [of "db_pieceInstances db" q] show ?thesis unfolding db_ok_def by metis
  qed
  ultimately show thesis using that i d(2) by blast
qed

lemma sync_loaded:
  assumes db: "db_ok db"
  shows "playout_sync db (loaded_model db locked pl rids rs)"
  unfolding playout_sync_def
proof (intro conjI allI impI)
  have "map_wf (fold (\<lambda>x m. map_set (f x) x m) xs acc)" if "map_wf acc"
    for f and xs :: "PlayoutPartInstanceModel option list" and acc :: "(PartInstanceId, _) js_map"
    using that by (induction xs arbitrary: acc) auto
  then show "map_wf (allPartInstances (loaded_model db locked pl rids rs))"
    by (simp add: loaded_model_def new_playout_model_def normalizeArrayToMapFunc_def)
  show "instance_sync db i p" if l: "live_instance (loaded_model db locked pl rids rs) i p" for i p
  proof -
    from live_loaded [OF db l] obtain d ps where d: "map_get (db_partInstances db) i = Some d" "inst_id d = i"
        "p = new_part_instance_model d ps False"
        "\<forall>q\<in>set ps. pi_partInstanceId q = i \<and> map_get (db_pieceInstances db) (pi_id q) = Some q" .
    with new_instance_sync [of ps d False db] show ?thesis by simp
  qed
  show "piece_keys p \<inter> piece_keys q = {}"
    if l: "live_instance (loaded_model db locked pl rids rs) i p" "live_instance (loaded_model db locked pl rids rs) j q"
      and ij: "i \<noteq> j" for i j p q
  proof -
    from live_loaded [OF db l(1)] obtain d ps where p: "p = new_part_instance_model d ps False"
        "\<forall>q\<in>set ps. pi_partInstanceId q = i \<and> map_get (db_pieceInstances db) (pi_id q) = Some q" .
    from live_loaded [OF db l(2)] obtain e qs where q: "q = new_part_instance_model e qs False"
        "\<forall>q\<in>set qs. pi_partInstanceId q = j \<and> map_get (db_pieceInstances db) (pi_id q) = Some q" .
    have "pi_id a \<noteq> pi_id b" if "a \<in> set ps" "b \<in> set qs" for a b
      using p(2) q(2) ij that by (metis option.inject)
    then show ?thesis unfolding p(1) q(1) keys_new_instance by blast
  qed
qed

section \<open>The save as a whole\<close>

definition part_docs_ok :: "(PartInstanceId, DBPartInstance) js_map \<Rightarrow> bool" where
  "part_docs_ok c = (map_wf c \<and> (\<forall>i d. map_get c i = Some d \<longrightarrow> inst_id d = i))"

definition loaded_ids :: "PlayoutModel \<Rightarrow> PartInstanceId set" where
  "loaded_ids m = set (map (\<lambda>p. inst_id (partInstanceImpl p)) (loadedPartInstances m))"

lemma update_docs_guard:
  "(if xs = [] then c else update_docs (\<lambda>d. f d \<in> set xs \<and> query d) g c) =
     update_docs (\<lambda>d. f d \<in> set xs \<and> query d) g c"
  by (cases xs) (simp_all add: update_docs_def case_prod_beta')

lemma remove_docs_guard:
  "(if xs = [] then c else remove_docs (\<lambda>d. f d \<in> set xs \<and> query d) c) =
     remove_docs (\<lambda>d. f d \<in> set xs \<and> query d) c"
  by (cases xs) (simp_all add: remove_docs_def)

definition not_loaded_reset :: "(string \<Rightarrow> string \<Rightarrow> int) \<Rightarrow> PlayoutModel \<Rightarrow> (DBPartInstance \<Rightarrow> bool) \<Rightarrow> playout_db \<Rightarrow> PartInstanceId list" where
  \<comment> \<open>\<open>resetInDb\<close>\<close>
  "not_loaded_reset lc m selector db = map inst_id (findFetch (\<lambda>d. selector d \<and> inst_id d \<notin> loaded_ids m
     \<and> inst_rundownId d \<in> set (getRundownIds lc m) \<and> \<not> inst_reset d) (db_partInstances db))"

definition not_loaded_rehearsal :: "(string \<Rightarrow> string \<Rightarrow> int) \<Rightarrow> PlayoutModel \<Rightarrow> playout_db \<Rightarrow> PartInstanceId list" where
  \<comment> \<open>\<open>removeFromDb\<close>\<close>
  "not_loaded_rehearsal lc m db = map inst_id (findFetch (\<lambda>d. inst_id d \<notin> loaded_ids m
     \<and> inst_rundownId d \<in> set (getRundownIds lc m) \<and> inst_rehearsal d) (db_partInstances db))"

lemma run_deferred_reset:
  "run_deferred lc m (ResetNotLoaded selector ids) db = db\<lparr>
     db_partInstances := update_docs (\<lambda>d. inst_id d \<in> set (not_loaded_reset lc m selector db)
         \<and> (inst_rundownId d \<in> set (getRundownIds lc m) \<and> \<not> inst_reset d))
       (\<lambda>d. d\<lparr>inst_reset := True\<rparr>) (db_partInstances db),
     db_pieceInstances := update_docs (\<lambda>d. pi_partInstanceId d \<in> set (not_loaded_reset lc m selector db @ ids)
         \<and> (pi_rundownId d \<in> set (getRundownIds lc m) \<and> \<not> pi_reset d))
       (\<lambda>d. d\<lparr>pi_reset := True\<rparr>) (db_pieceInstances db)\<rparr>"
  by (simp only: run_deferred_def Let_def deferred.case not_loaded_reset_def loaded_ids_def update_docs_guard)

lemma run_deferred_rehearsal:
  "run_deferred lc m (RemoveRehearsalNotLoaded ids) db = db\<lparr>
     db_partInstances := remove_docs (\<lambda>d. inst_id d \<in> set (not_loaded_rehearsal lc m db)
         \<and> inst_rundownId d \<in> set (getRundownIds lc m)) (db_partInstances db),
     db_pieceInstances := remove_docs (\<lambda>d. pi_partInstanceId d \<in> set (not_loaded_rehearsal lc m db @ ids)
         \<and> pi_rundownId d \<in> set (getRundownIds lc m)) (db_pieceInstances db)\<rparr>"
  by (simp only: run_deferred_def Let_def deferred.case not_loaded_rehearsal_def loaded_ids_def remove_docs_guard)

lemma not_loaded_ids:
  "i \<in> set (not_loaded_reset lc m selector db) \<Longrightarrow> i \<notin> loaded_ids m"
  "i \<in> set (not_loaded_rehearsal lc m db) \<Longrightarrow> i \<notin> loaded_ids m"
  by (auto simp: not_loaded_reset_def not_loaded_rehearsal_def findFetch_def)

lemma run_deferred_parts:
  assumes "part_docs_ok (db_partInstances db)"
  shows "part_docs_ok (db_partInstances (run_deferred lc m d db))"
    and "i \<in> loaded_ids m \<Longrightarrow>
      map_get (db_partInstances (run_deferred lc m d db)) i = map_get (db_partInstances db) i"
    and "map_get (db_partInstances db) i = None \<Longrightarrow> map_get (db_partInstances (run_deferred lc m d db)) i = None"
proof -
  have wf: "map_wf (db_partInstances db)" using assms by (simp add: part_docs_ok_def)
  have id: "map_get (db_partInstances db) i = Some e \<Longrightarrow> inst_id e = i" for i e
    using assms by (simp add: part_docs_ok_def)
  obtain query where q: "db_partInstances (run_deferred lc m d db) = db_partInstances db
      \<or> db_partInstances (run_deferred lc m d db) = update_docs query (\<lambda>d. d\<lparr>inst_reset := True\<rparr>) (db_partInstances db)
      \<or> db_partInstances (run_deferred lc m d db) = remove_docs query (db_partInstances db)"
      "\<forall>e. query e \<longrightarrow> inst_id e \<notin> loaded_ids m"
  proof (cases d)
    case (ResetNotLoaded selector ids)
    show thesis
      by (rule that [of "\<lambda>d. inst_id d \<in> set (not_loaded_reset lc m selector db)
          \<and> (inst_rundownId d \<in> set (getRundownIds lc m) \<and> \<not> inst_reset d)"])
        (simp_all add: ResetNotLoaded run_deferred_reset, use not_loaded_ids in blast)
  next
    case (RemoveRehearsalNotLoaded ids)
    show thesis
      by (rule that [of "\<lambda>d. inst_id d \<in> set (not_loaded_rehearsal lc m db)
          \<and> inst_rundownId d \<in> set (getRundownIds lc m)"])
        (simp_all add: RemoveRehearsalNotLoaded run_deferred_rehearsal, use not_loaded_ids in blast)
  qed
  show "part_docs_ok (db_partInstances (run_deferred lc m d db))"
    using q(1) assms wf_update_docs [OF wf] wf_remove_docs [OF wf]
    by (auto simp: part_docs_ok_def get_update_docs get_remove_docs [OF wf] split: option.splits if_splits)
  show "map_get (db_partInstances (run_deferred lc m d db)) i = map_get (db_partInstances db) i" if "i \<in> loaded_ids m"
  proof (cases "map_get (db_partInstances db) i")
    case None
    then show ?thesis using q(1) by (auto simp: get_update_docs get_remove_docs [OF wf])
  next
    case (Some e)
    then have "\<not> query e" using q(2) id that by blast
    then show ?thesis using q(1) Some by (auto simp: get_update_docs get_remove_docs [OF wf])
  qed
  show "map_get (db_partInstances (run_deferred lc m d db)) i = None" if "map_get (db_partInstances db) i = None"
    using q(1) that by (auto simp: get_update_docs get_remove_docs [OF wf])
qed

lemma run_all_deferred_parts:
  assumes "part_docs_ok (db_partInstances db)"
  shows "i \<in> loaded_ids m \<or> map_get (db_partInstances db) i = None \<Longrightarrow>
    map_get (db_partInstances (fold (run_deferred lc m) ds db)) i = map_get (db_partInstances db) i"
  using assms
proof (induction ds arbitrary: db)
  case (Cons d ds)
  then show ?case
    using Cons.IH [of "run_deferred lc m d db"] run_deferred_parts [OF Cons.prems(2)] by (metis fold_simps(2))
qed simp

text \<open>
  What is deferred names part instances of the model by their ids; a piece instance that it would reset or
  remove there is not spared.
\<close>

definition spared :: "PieceInstance \<Rightarrow> deferred \<Rightarrow> bool" where
  "spared e d = (case d of ResetNotLoaded selector ids \<Rightarrow> pi_partInstanceId e \<in> set ids \<longrightarrow> pi_reset e
     | RemoveRehearsalNotLoaded ids \<Rightarrow> pi_partInstanceId e \<notin> set ids)"

lemma run_deferred_pieces:
  assumes "map_wf (db_pieceInstances db)"
  shows "map_wf (db_pieceInstances (run_deferred lc m d db))"
    and "map_get (db_pieceInstances db) k = Some e \<Longrightarrow> pi_partInstanceId e \<in> loaded_ids m \<Longrightarrow> spared e d \<Longrightarrow>
      map_get (db_pieceInstances (run_deferred lc m d db)) k = Some e"
    and "map_get (db_pieceInstances (run_deferred lc m d db)) k = Some e' \<Longrightarrow>
      \<exists>e. map_get (db_pieceInstances db) k = Some e \<and> pi_partInstanceId e' = pi_partInstanceId e"
proof -
  show "map_wf (db_pieceInstances (run_deferred lc m d db))"
    by (cases d) (simp_all add: run_deferred_reset run_deferred_rehearsal wf_update_docs wf_remove_docs assms)
  show "map_get (db_pieceInstances (run_deferred lc m d db)) k = Some e"
    if "map_get (db_pieceInstances db) k = Some e" "pi_partInstanceId e \<in> loaded_ids m" "spared e d"
    using that not_loaded_ids
    by (cases d) (auto simp: run_deferred_reset run_deferred_rehearsal get_update_docs get_remove_docs [OF assms] spared_def)
  show "\<exists>e. map_get (db_pieceInstances db) k = Some e \<and> pi_partInstanceId e' = pi_partInstanceId e"
    if "map_get (db_pieceInstances (run_deferred lc m d db)) k = Some e'"
    using that
    by (cases d) (auto simp: run_deferred_reset run_deferred_rehearsal get_update_docs get_remove_docs [OF assms]
        split: if_splits option.splits)
qed

lemma run_all_deferred_pieces:
  assumes "map_wf (db_pieceInstances db)"
  shows "map_get (db_pieceInstances db) k = Some e \<Longrightarrow> pi_partInstanceId e \<in> loaded_ids m \<Longrightarrow>
      \<forall>d\<in>set ds. spared e d \<Longrightarrow> map_get (db_pieceInstances (fold (run_deferred lc m) ds db)) k = Some e"
    and "map_get (db_pieceInstances (fold (run_deferred lc m) ds db)) k = Some e' \<Longrightarrow>
      \<exists>e. map_get (db_pieceInstances db) k = Some e \<and> pi_partInstanceId e' = pi_partInstanceId e"
  using assms
proof (induction ds arbitrary: db)
  case (Cons d ds)
  {
    case 1
    then show ?case using Cons.IH(1) [of "run_deferred lc m d db"] run_deferred_pieces(1,2) by simp
  next
    case 2
    then show ?case using Cons.IH(2) [of "run_deferred lc m d db"] run_deferred_pieces(1,3) [of db] by (metis fold_simps(2))
  }
qed simp_all

lemma saved_loaded_ids:
  assumes "playout_sync db m" and "live_instance m i p"
  shows "i \<in> loaded_ids (fst (write_documents m db0))"
proof -
  have "(i, Some p) \<in> set (allPartInstances m)"
    using assms by (simp add: live_instance_def wf_get_iff [OF playout_syncD(1) [OF assms(1)]])
  then have "Some (inst_clearChangedFlags p) \<in> snd ` set (allPartInstances (fst (write_documents m db0)))"
    by (force simp: write_documents_def writePartInstancesAndPieceInstances_def Let_def case_prod_beta')
  then have "inst_clearChangedFlags p \<in> set (loadedPartInstances (fst (write_documents m db0)))"
    by (simp add: loadedPartInstances_def)
  moreover have "inst_id (partInstanceImpl (inst_clearChangedFlags p)) = i"
    using instance_syncD(1) [OF playout_syncD(2) [OF assms]] by (simp add: inst_clearChangedFlags_def)
  ultimately show ?thesis by (force simp: loaded_ids_def)
qed

lemma written_parts_ok:
  assumes s: "playout_sync db m" and db: "db_ok db"
  shows "part_docs_ok (db_partInstances (snd (write_documents m db)))"
proof -
  have "inst_id d = i" if "written_part_instance db m i = Some d" for i d
    using that db instance_syncD(1) [OF playout_syncD(2) [OF s]]
    by (auto simp: written_part_instance_def live_instance_def db_ok_def split: option.splits)
  moreover have "map_wf (db_partInstances (snd (write_documents m db)))"
    unfolding write_documents_collections writePartInstancesAndPieceInstances_def Let_def fst_conv
      part_instance_writes_all bulkWrite_append bulk_delete_guarded
    by (intro wf_remove_docs wf_replace_all) (use db in \<open>simp add: db_ok_def\<close>)
  ultimately show ?thesis by (simp add: part_docs_ok_def written_part_instances [OF s db])
qed

lemma save_result:
  assumes "playout_saveAllToDatabase lc m db = Inr (m', db', ev)"
  shows "db' = fold (run_deferred lc (fst (write_documents m db))) (deferredAfterSaveFunctions m)
    (snd (write_documents m db))"
  using assms
  by (auto simp: playout_saveAllToDatabase_def write_documents_def Let_def case_prod_beta' split: if_splits)

lemma written_pieces_wf: "db_ok db \<Longrightarrow> map_wf (db_pieceInstances (snd (write_documents m db)))"
  unfolding write_documents_collections writePartInstancesAndPieceInstances_def Let_def fst_conv snd_conv
    bulkWrite_append piece_writes_all bulk_delete_guarded
  by (intro wf_remove_docs wf_replace_all) (simp add: db_ok_def)


text \<open>A part instance on air with one piece is loaded, reset and saved.\<close>

definition ex_playlist :: "PartInstanceId option \<Rightarrow> PartInstanceId option \<Rightarrow> DBRundownPlaylist" where
  "ex_playlist cur nxt = \<lparr>activationId = Some ''activation'', rehearsal = False, holdState = None,
     resetTime = None, playlist_loop = False,
     currentPartInfo = map_option (\<lambda>i. \<lparr>sel_partInstanceId = i, sel_rundownId = ''rd'', manuallySelected = False,
       sel_consumesQueuedSegmentId = False\<rparr>) cur,
     nextPartInfo = map_option (\<lambda>i. \<lparr>sel_partInstanceId = i, sel_rundownId = ''rd'', manuallySelected = False,
       sel_consumesQueuedSegmentId = False\<rparr>) nxt,
     nextTimeOffset = None, previousPartInfo = None, queuedSegmentId = None, startedPlayback = None,
     rundownsStartedPlayback = None, lastTakeTime = None, rundownIdsInOrder = [''rd''],
     previousPersistentState = None, trackedAbSessions = None, assignedAbSessions = None\<rparr>"

definition ex_on_air :: DBPartInstance where
  "ex_on_air = sample_part_instance ''i1'' (sample_part ''p1'' 1 ''s1'')"

definition ex_on_air_piece :: PieceInstance where
  "ex_on_air_piece = (sample_instance sample_piece)\<lparr>pi_id := ''i1_piece'', pi_partInstanceId := ''i1''\<rparr>"

definition ex_playout_db :: playout_db where
  "ex_playout_db = \<lparr>db_playlist = ex_playlist (Some ''i1'') None, db_segments = [], db_parts = [],
     db_partInstances = [(''i1'', ex_on_air)], db_pieceInstances = [(''i1_piece'', ex_on_air_piece)]\<rparr>"

definition ex_loaded :: PlayoutModel where
  "ex_loaded = loaded_model ex_playout_db True (ex_playlist (Some ''i1'') None) [''rd''] []"

lemma ex_db_ok: "db_ok ex_playout_db"
  by (auto simp: db_ok_def ex_playout_db_def map_wf_def ex_on_air_def ex_on_air_piece_def sample_defs)

lemma ex_loaded_live: "live_instance ex_loaded ''i1'' (new_part_instance_model ex_on_air [ex_on_air_piece] False)"
  unfolding live_instance_def by code_simp


text \<open>
  C5. Whatever operations run on a loaded playout model, it stays well formed: each part instance stands under its
  id and once, each of its piece instances stands under its id, once, and belongs to the part instance, and no two
  part instances hold a piece instance of the same id.
\<close>

theorem playout_model_well_keyed:
  assumes "db_ok db" and "playout_step\<^sup>*\<^sup>* (loaded_model db locked pl rids rs) m"
  shows "map_wf (allPartInstances m)
    \<and> (\<forall>i p. live_instance m i p \<longrightarrow> inst_id (partInstanceImpl p) = i \<and> map_wf (pieceInstancesImpl p)
        \<and> (\<forall>k q. map_get (pieceInstancesImpl p) k = Some (Some q) \<longrightarrow>
             pi_id (PieceInstanceImpl q) = k \<and> pi_partInstanceId (PieceInstanceImpl q) = i)
        \<and> (\<forall>j r k. live_instance m j r \<longrightarrow> k \<in> piece_keys p \<longrightarrow> k \<in> piece_keys r \<longrightarrow> i = j))"
proof -
  have s: "playout_sync db m" by (rule playout_steps_sync [OF assms(2) sync_loaded [OF assms(1)]])
  note keyed = playout_syncD(1) [OF s] instance_syncD(1,3-5) [OF playout_syncD(2) [OF s]] playout_syncD(3) [OF s]
  show ?thesis using keyed by blast
qed

theorem playout_model_well_keyed_witness:
  "\<exists>p. live_instance ex_loaded ''i1'' p \<and> inst_id (partInstanceImpl p) = ''i1'' \<and> map_wf (pieceInstancesImpl p)"
proof -
  have "playout_step\<^sup>*\<^sup>* (loaded_model ex_playout_db True (ex_playlist (Some ''i1'') None) [''rd''] []) ex_loaded"
    by (simp add: ex_loaded_def)
  from playout_model_well_keyed [OF ex_db_ok this] ex_loaded_live show ?thesis by blast
qed

end
