(* ===== verification/Playout_Infinites.thy ===== *)
theory Playout_Infinites
  imports Playout_Model Infinites Process_Prune
begin

text \<open>
  The infinites of a playout model: \<open>packages/job-worker/src/playout/infinites.ts\<close>, which reads from the
  model what the functions of \<open>Infinites\<close> need. What the job reads outside the model is one record: the
  time (one for all reads of a job), \<open>localeCompare\<close>, random strings by the number of the call, the
  collection of pieces, the source layers of a show style, and what the callback of a blueprint does to
  the model.
\<close>

record playout_env =
  env_now :: time
  env_lc :: "string \<Rightarrow> string \<Rightarrow> int"
  env_random :: "nat \<Rightarrow> string"
  env_pieces :: "Piece list"
  env_sourceLayers :: "ShowStyleBaseId \<Rightarrow> ISourceLayer option list"
  env_onSetAsNext :: "PartInstanceId \<Rightarrow> PlayoutModel \<Rightarrow> PlayoutModel"

definition getShowStyleIdsRundownMapping :: "PlayoutRundownModel list \<Rightarrow> (RundownId, ShowStyleBaseId) js_map" where
  "getShowStyleIdsRundownMapping rs =
     fold (\<lambda>r. map_set (rd_id (rundown_doc r)) (rd_showStyleBaseId (rundown_doc r))) rs []"

definition candidatePartIsAfterPreviewPartInstance ::
  "PlayoutSegmentModel list \<Rightarrow> DBPartInstance option \<Rightarrow> DBPart \<Rightarrow> bool" where
  "candidatePartIsAfterPreviewPartInstance orderedSegments prev candidate =
     (case prev of
        None \<Rightarrow> False
      | Some prev \<Rightarrow>
          if part_segmentId candidate = inst_segmentId prev
          then part_rank (inst_part prev) < part_rank candidate
          else (case (find_index (\<lambda>s. seg_id (segment_doc s) = inst_segmentId prev) orderedSegments,
                      find_index (\<lambda>s. seg_id (segment_doc s) = part_segmentId candidate) orderedSegments) of
                  (Some previousSegmentIndex, Some candidateSegmentIndex) \<Rightarrow>
                    previousSegmentIndex \<le> candidateSegmentIndex
                | _ \<Rightarrow> False))"

record ids_before =
  partsToReceiveOnSegmentEndFrom :: "PartId list"
  segmentsToReceiveOnRundownEndFrom :: "SegmentId list"
  rundownsToReceiveOnShowStyleEndFrom :: "RundownId list"

definition getIdsBeforeThisPart ::
  "(string \<Rightarrow> string \<Rightarrow> int) \<Rightarrow> PlayoutModel \<Rightarrow> DBPart \<Rightarrow> ids_before" where
  "getIdsBeforeThisPart lc m nextPart =
     (let currentRundown = getRundown (part_rundownId nextPart) m;
          currentSegment = Option.bind currentRundown (rundown_getSegment (part_segmentId nextPart));
          partsBefore = (case currentSegment of
              Some s \<Rightarrow> filter (\<lambda>p. part_rank p < part_rank nextPart) (segment_partDocs s) | None \<Rightarrow> []);
          instancesBefore = filter (\<lambda>p. inst_segmentId p = part_segmentId nextPart \<and> inst_orphaned p \<noteq> None
              \<and> part_rank (inst_part p) < part_rank nextPart) (map partInstanceImpl (loadedPartInstances m));
          partIds = map part_id (js_sort (\<lambda>a b. part_rank b < part_rank a)
              (partsBefore @ map inst_part instancesBefore))
      in case currentSegment of
           Some s \<Rightarrow>
             if is_adlib_testing s
             then \<lparr>partsToReceiveOnSegmentEndFrom = partIds, segmentsToReceiveOnRundownEndFrom = [],
                   rundownsToReceiveOnShowStyleEndFrom = []\<rparr>
             else \<lparr>partsToReceiveOnSegmentEndFrom = partIds,
                   segmentsToReceiveOnRundownEndFrom = (case currentRundown of
                       None \<Rightarrow> []
                     | Some r \<Rightarrow> map (\<lambda>s. seg_id (segment_doc s)) (filter (\<lambda>s'.
                         seg_rundownId (segment_doc s') = part_rundownId nextPart
                         \<and> seg_rank (segment_doc s') < seg_rank (segment_doc s) \<and> \<not> is_adlib_testing s')
                         (rundown_segments r))),
                   rundownsToReceiveOnShowStyleEndFrom = (case index_of (getRundownIds lc m) (part_rundownId nextPart) of
                       None \<Rightarrow> [] | Some k \<Rightarrow> take k (getRundownIds lc m))\<rparr>
         | None \<Rightarrow> \<lparr>partsToReceiveOnSegmentEndFrom = partIds, segmentsToReceiveOnRundownEndFrom = [],
                   rundownsToReceiveOnShowStyleEndFrom = (case index_of (getRundownIds lc m) (part_rundownId nextPart) of
                       None \<Rightarrow> [] | Some k \<Rightarrow> take k (getRundownIds lc m))\<rparr>)"

definition fetch_query :: "pieces_query option \<Rightarrow> Piece list \<Rightarrow> Piece list" where
  "fetch_query q ps = (case q of None \<Rightarrow> [] | Some q \<Rightarrow> filter (query_matches q) ps)"

definition fetchPiecesThatMayBeActiveForPart ::
  "playout_env \<Rightarrow> PlayoutModel \<Rightarrow> (RundownId \<times> Piece list) option \<Rightarrow> DBPart \<Rightarrow> Piece list" where
  "fetchPiecesThatMayBeActiveForPart env m unsavedIngestModel part =
     (let thisQuery = buildPiecesStartingInThisPartQuery part;
          ids = getIdsBeforeThisPart (env_lc env) m part;
          parts = partsToReceiveOnSegmentEndFrom ids;
          segments = segmentsToReceiveOnRundownEndFrom ids;
          rundowns = rundownsToReceiveOnShowStyleEndFrom ids
      in case unsavedIngestModel of
           Some (rundownId, ingestPieces) \<Rightarrow>
             if rundownId = part_rundownId part
             then filter (query_matches thisQuery) ingestPieces
                  @ fetch_query (buildPastInfinitePiecesForThisPartQuery part parts segments []) ingestPieces
                  @ fetch_query (buildPastInfinitePiecesForThisPartQuery part [] [] rundowns) (env_pieces env)
             else filter (query_matches thisQuery) (env_pieces env)
                  @ fetch_query (buildPastInfinitePiecesForThisPartQuery part parts segments rundowns) (env_pieces env)
         | None \<Rightarrow> filter (query_matches thisQuery) (env_pieces env)
                  @ fetch_query (buildPastInfinitePiecesForThisPartQuery part parts segments rundowns) (env_pieces env))"

text \<open>The rundown and segment of a part instance, or the error that the code throws\<close>

definition rundown_and_segment ::
  "RundownId \<Rightarrow> SegmentId \<Rightarrow> PlayoutModel \<Rightarrow> playout_error + (PlayoutRundownModel \<times> PlayoutSegmentModel)" where
  "rundown_and_segment rundownId segmentId m =
     (case getRundown rundownId m of
        None \<Rightarrow> Inl (RundownNotFound rundownId)
      | Some r \<Rightarrow> (case rundown_getSegment segmentId r of
          None \<Rightarrow> Inl (SegmentNotFoundIn segmentId) | Some s \<Rightarrow> Inr (r, s)))"

definition playhead_infinites ::
  "playout_env \<Rightarrow> PlayoutModel \<Rightarrow> PlayoutPartInstanceModel \<Rightarrow> DBSegment \<Rightarrow> PlayoutPartInstanceModel
   \<Rightarrow> PlayoutRundownModel \<Rightarrow> DBSegment \<Rightarrow> PieceInstance list" where
  \<comment> \<open>the infinites that \<open>syncPlayheadInfinitesForNextPartInstance\<close> computes\<close>
  "playhead_infinites env m from currentSegment to nextRundown nextSegment =
     (let fromDoc = partInstanceImpl from; toDoc = partInstanceImpl to;
          ids = getIdsBeforeThisPart (env_lc env) m (inst_part toDoc);
          nowInPart = env_now env - nullish (plannedStartedPlayback (timings_of from)) 0;
          prunedPieceInstances = map pwt_instance (processAndPrunePieceInstanceTimings
            (env_sourceLayers env (rd_showStyleBaseId (rundown_doc nextRundown))) (live_pieces from) nowInPart False True)
      in getPlayheadTrackingInfinitesForPart
           \<lparr>pa_activationId = the (activationId (playlist m)),
            pa_partsToReceive = set (partsToReceiveOnSegmentEndFrom ids),
            pa_segmentsToReceive = set (segmentsToReceiveOnRundownEndFrom ids),
            pa_rundownsToReceive = rundownsToReceiveOnShowStyleEndFrom ids,
            pa_rundownsToShowstyles = getShowStyleIdsRundownMapping (rundownsImpl m),
            pa_currentPartInstance = fromDoc, pa_playingSegment = currentSegment,
            pa_intoRundown = RundownPick.truncate (rundown_doc nextRundown),
            pa_intoPart = inst_part toDoc, pa_intoSegment = nextSegment, pa_newInstanceId = inst_id toDoc,
            pa_nextPartIsAfterCurrentPart = candidatePartIsAfterPreviewPartInstance (getAllOrderedSegments m)
              (Some fromDoc) (inst_part toDoc),
            pa_isTemporary = False\<rparr> prunedPieceInstances)"

definition syncPlayheadInfinitesForNextPartInstance ::
  "playout_env \<Rightarrow> PlayoutPartInstanceModel option \<Rightarrow> PlayoutPartInstanceModel option \<Rightarrow> PlayoutModel
   \<Rightarrow> playout_error + PlayoutModel" where
  "syncPlayheadInfinitesForNextPartInstance env fromPart toPart m =
     (case (fromPart, toPart) of
        (Some from, Some to) \<Rightarrow>
          if \<not> truthy_str (activationId (playlist m)) then Inl PlaylistNotActive
          else (case rundown_and_segment (inst_rundownId (partInstanceImpl from)) (inst_segmentId (partInstanceImpl from)) m of
            Inl e \<Rightarrow> Inl e
          | Inr (_, currentSegment) \<Rightarrow>
             (case rundown_and_segment (inst_rundownId (partInstanceImpl to)) (inst_segmentId (partInstanceImpl to)) m of
                Inl e \<Rightarrow> Inl e
              | Inr (nextRundown, nextSegment) \<Rightarrow>
                 (case replaceInfinitesFromPreviousPlayhead
                     (playhead_infinites env m from (segment_doc currentSegment) to nextRundown (segment_doc nextSegment)) to of
                    Inl e \<Rightarrow> Inl (PartInstanceError e)
                  | Inr to' \<Rightarrow> Inr (on_part_instance (inst_id (partInstanceImpl to)) (\<lambda>_. to') m))))
      | _ \<Rightarrow> Inr m)"

definition playout_getPieceInstancesForPart ::
  "playout_env \<Rightarrow> PlayoutModel \<Rightarrow> PlayoutPartInstanceModel option \<Rightarrow> PlayoutRundownModel \<Rightarrow> DBPart
   \<Rightarrow> Piece list \<Rightarrow> PartInstanceId \<Rightarrow> playout_error + PieceInstance list" where
  "playout_getPieceInstancesForPart env m playingPartInstance rundown part possiblePieces newInstanceId =
     (if \<not> truthy_str (activationId (playlist m)) then Inl PlaylistNotActive
      else let ids = getIdsBeforeThisPart (env_lc env) m part;
               playing = (case playingPartInstance of
                   None \<Rightarrow> Inr None
                 | Some p \<Rightarrow> map_sum id (\<lambda>(_, s). Some (segment_doc s)) (rundown_and_segment
                     (inst_rundownId (partInstanceImpl p)) (inst_segmentId (partInstanceImpl p)) m))
           in case playing of
             Inl e \<Rightarrow> Inl e
           | Inr playingSegment \<Rightarrow>
              (case rundown_getSegment (part_segmentId part) rundown of
                 None \<Rightarrow> Inl (SegmentNotFoundIn (part_segmentId part))
               | Some segment \<Rightarrow> Inr (getPieceInstancesForPart (env_random env)
                   \<lparr>gp_activationId = the (activationId (playlist m)),
                    gp_playingPartInstance = map_option partInstanceImpl playingPartInstance,
                    gp_playingSegment = playingSegment,
                    gp_playingPieceInstances = (case playingPartInstance of Some p \<Rightarrow> live_pieces p | None \<Rightarrow> []),
                    gp_rundown = RundownPick.truncate (rundown_doc rundown), gp_segment = segment_doc segment,
                    gp_part = part, gp_partsToReceive = set (partsToReceiveOnSegmentEndFrom ids),
                    gp_segmentsToReceive = set (segmentsToReceiveOnRundownEndFrom ids),
                    gp_rundownsToReceive = rundownsToReceiveOnShowStyleEndFrom ids,
                    gp_rundownsToShowstyles = getShowStyleIdsRundownMapping (rundownsImpl m),
                    gp_orderedPartIds = map part_id (playout_getAllOrderedParts m),
                    gp_newInstanceId = newInstanceId,
                    gp_nextPartIsAfterCurrentPart = candidatePartIsAfterPreviewPartInstance (getAllOrderedSegments m)
                      (map_option partInstanceImpl playingPartInstance) part,
                    gp_isTemporary = False\<rparr> possiblePieces)))"

end
