(* ===== verification/Set_Next.thy ===== *)
theory Set_Next
  imports Playout_Infinites Select_Next
begin

text \<open>
  Setting the next part of a playlist: \<open>packages/job-worker/src/playout/setNext.ts\<close>, and the resets of
  \<open>playout/lib.ts\<close>. A call that throws ends the job with an error. Besides the model, the functions give the
  ingest jobs they queue. The callback of the blueprint is an argument (\<open>env_onSetAsNext\<close>, the identity when
  there is none); what it throws is logged and goes no further.
\<close>

section \<open>Resetting\<close>

definition resetPartInstancesWithPieceInstances :: "(DBPartInstance \<Rightarrow> bool) \<Rightarrow> PlayoutModel \<Rightarrow> PlayoutModel" where
  "resetPartInstancesWithPieceInstances selector m =
     (let partInstanceIdsToReset = map inst_id (filter (\<lambda>d. \<not> inst_reset d \<and> selector d)
            (map partInstanceImpl (loadedPartInstances m)))
      in deferAfterSave (ResetNotLoaded selector partInstanceIdsToReset)
           (fold (\<lambda>i. on_part_instance i markAsReset) partInstanceIdsToReset m))"

definition trailing_in_old_segment :: "DBPartInstance \<Rightarrow> DBPartInstance \<Rightarrow> DBPartInstance \<Rightarrow> bool" where
  "trailing_in_old_segment cur nxt p =
     (\<not> inst_reset p \<and> inst_id p \<noteq> inst_id cur \<and> inst_id p \<noteq> inst_id nxt
      \<and> inst_segmentId p = inst_segmentId cur \<and> part_rank (inst_part cur) < part_rank (inst_part p))"

definition in_new_segment :: "DBPartInstance option \<Rightarrow> DBPartInstance \<Rightarrow> DBPartInstance \<Rightarrow> bool" where
  "in_new_segment cur nxt p =
     (\<not> inst_reset p \<and> inst_id p \<noteq> inst_id nxt \<and> Some (inst_id p) \<noteq> map_option inst_id cur
      \<and> inst_segmentId p = inst_segmentId nxt)"

definition enters_segment :: "DBPartInstance option \<Rightarrow> DBPartInstance \<Rightarrow> bool" where
  "enters_segment cur nxt = (case cur of
     None \<Rightarrow> True
   | Some cur \<Rightarrow> inst_segmentId nxt \<noteq> inst_segmentId cur
       \<or> (inst_segmentId nxt = inst_segmentId cur \<and> part_rank (inst_part nxt) < part_rank (inst_part cur)))"

definition resetPartInstancesWhenChangingSegment :: "PlayoutModel \<Rightarrow> PlayoutModel" where
  "resetPartInstancesWhenChangingSegment m =
     (case map_option partInstanceImpl (nextPartInstance m) of
        None \<Rightarrow> m
      | Some nxt \<Rightarrow>
         (let cur = map_option partInstanceImpl (currentPartInstance m);
              docs = map partInstanceImpl (loadedPartInstances m);
              trailing = (case cur of Some c \<Rightarrow> filter (trailing_in_old_segment c nxt) docs | None \<Rightarrow> []);
              whole = (if enters_segment cur nxt then filter (in_new_segment cur nxt) docs else []);
              resetPartInstanceIds = fold set_add (map inst_id (trailing @ whole)) []
          in if resetPartInstanceIds \<noteq> []
             then resetPartInstancesWithPieceInstances (\<lambda>d. inst_id d \<in> set resetPartInstanceIds) m
             else m))"

section \<open>Cleaning up\<close>

record orphaned_segments_job =
  job_rundownExternalId :: string
  orphanedHiddenSegmentIds :: "SegmentId list"
  orphanedDeletedSegmentIds :: "SegmentId list"

definition alter_segments ::
  "SegmentId set \<Rightarrow> DBSegment list \<Rightarrow> (RundownId, SegmentId list \<times> SegmentId list) js_map" where
  \<comment> \<open>the deleted and the hidden segments of each rundown; an ad-lib testing segment only makes the entry\<close>
  "alter_segments selected segments =
     fold (\<lambda>s m. if seg_id s \<in> selected then m
       else let (deleted, hidden) = nullish (map_get m (seg_rundownId s)) ([], [])
            in map_set (seg_rundownId s)
                 (if seg_orphaned s = Some SegDeleted then (deleted @ [seg_id s], hidden)
                  else if seg_orphaned s = Some SegHidden then (deleted, hidden @ [seg_id s])
                  else (deleted, hidden)) m) segments []"

definition orphaned_jobs ::
  "PlayoutModel \<Rightarrow> (RundownId, SegmentId list \<times> SegmentId list) js_map \<Rightarrow> orphaned_segments_job list" where
  "orphaned_jobs m alter = concat (map (\<lambda>(rundownId, deleted, hidden).
     case getRundown rundownId m of
       None \<Rightarrow> []
     | Some r \<Rightarrow> if \<not> from_nrcs (rundown_doc r) then []
         else [\<lparr>job_rundownExternalId = rd_externalId (rundown_doc r),
                orphanedHiddenSegmentIds = hidden, orphanedDeletedSegmentIds = deleted\<rparr>]) alter)"

definition PRESERVE_UNSYNCED_PLAYING_SEGMENT_CONTENTS :: bool where
  "PRESERVE_UNSYNCED_PLAYING_SEGMENT_CONTENTS = False"

definition orphaned_to_remove :: "PlayoutModel \<Rightarrow> SegmentId set \<Rightarrow> PartInstanceId list" where
  "orphaned_to_remove m orphanedSegmentIds =
     map inst_id (filter (\<lambda>p. inst_orphaned p = Some PartDeleted \<and> \<not> inst_reset p
         \<and> \<not> (PRESERVE_UNSYNCED_PLAYING_SEGMENT_CONTENTS \<and> inst_segmentId p \<in> orphanedSegmentIds)
         \<and> Some (inst_id p) \<noteq> map_option sel_partInstanceId (currentPartInfo (playlist m))
         \<and> Some (inst_id p) \<noteq> map_option sel_partInstanceId (nextPartInfo (playlist m)))
       (map partInstanceImpl (loadedPartInstances m)))"

definition cleanupOrphanedItems :: "PlayoutModel \<Rightarrow> orphaned_segments_job list \<times> PlayoutModel" where
  "cleanupOrphanedItems m =
     (let selected = inst_segmentId ` partInstanceImpl ` set (selectedPartInstances m);
          segments = filter (\<lambda>s. seg_orphaned s \<noteq> None) (map segment_doc (getAllOrderedSegments m));
          remove = orphaned_to_remove m (seg_id ` set segments)
      in (orphaned_jobs m (alter_segments selected segments),
          if remove \<noteq> [] then resetPartInstancesWithPieceInstances (\<lambda>d. inst_id d \<in> set remove) m else m))"

section \<open>Setting the next part\<close>

text \<open>\<open>SelectNextPartResult\<close> without its index, or a part instance of the model\<close>

datatype next_choice = ChoicePart DBPart bool | ChoiceInstance PartInstanceId

definition prepareExistingPartInstanceForBeingNexted ::
  "playout_env \<Rightarrow> PartInstanceId \<Rightarrow> PlayoutModel \<Rightarrow> playout_error + (PartInstanceId \<times> PlayoutModel)" where
  "prepareExistingPartInstanceForBeingNexted env i m =
     and_then (syncPlayheadInfinitesForNextPartInstance env (currentPartInstance m) (part_instance_at i m) m)
       (\<lambda>m. Inr (i, m))"

definition preparePartInstanceForPartBeingNexted ::
  "playout_env \<Rightarrow> DBPart \<Rightarrow> PlayoutModel \<Rightarrow> playout_error + (PartInstanceId \<times> PlayoutModel)" where
  "preparePartInstanceForPartBeingNexted env nextPart m =
     (case getRundown (part_rundownId nextPart) m of
        None \<Rightarrow> Inl (RundownNotFound (part_rundownId nextPart))
      | Some rundown \<Rightarrow>
          and_then (playout_getPieceInstancesForPart env m (currentPartInstance m) rundown nextPart
              (fetchPiecesThatMayBeActiveForPart env m None nextPart) [])
            (\<lambda>ps. createInstanceForPart (env_now env) (env_random env (length ps)) (env_random env (Suc (length ps)))
              nextPart ps m))"

definition prepare_next ::
  "playout_env \<Rightarrow> next_choice \<Rightarrow> PlayoutModel \<Rightarrow> playout_error + (PartInstanceId \<times> bool \<times> PlayoutModel)" where
  \<comment> \<open>\<open>newPartInstance\<close> and \<open>consumesQueuedSegmentId\<close>\<close>
  "prepare_next env rawNextPart m =
     (let rundownIds = set (getRundownIds (env_lc env) m) in
      case rawNextPart of
        ChoiceInstance i \<Rightarrow>
         (case part_instance_at i m of
            None \<Rightarrow> Inl PartInstanceNotConstructed
          | Some p \<Rightarrow>
              if part_invalid (inst_part (partInstanceImpl p)) then Inl PartIsInvalid
              else if inst_rundownId (partInstanceImpl p) \<notin> rundownIds then Inl NotPartOfPlaylist
              else and_then (prepareExistingPartInstanceForBeingNexted env i m) (\<lambda>(i, m). Inr (i, False, m)))
      | ChoicePart part consumes \<Rightarrow>
          if part_invalid part then Inl PartIsInvalid
          else if part_rundownId part \<notin> rundownIds then Inl NotPartOfPlaylist
          else and_then
            (case nextPartInstance m of
               Some n \<Rightarrow>
                 if part_id (inst_part (partInstanceImpl n)) = part_id part
                 then prepareExistingPartInstanceForBeingNexted env (inst_id (partInstanceImpl n)) m
                 else preparePartInstanceForPartBeingNexted env part m
             | None \<Rightarrow> preparePartInstanceForPartBeingNexted env part m)
            (\<lambda>(i, m). Inr (i, consumes, m)))"

definition reset_other_instances :: "PartInstanceId \<Rightarrow> PlayoutModel \<Rightarrow> PlayoutModel" where
  "reset_other_instances i m =
     (case part_instance_at i m of
        None \<Rightarrow> m
      | Some p \<Rightarrow>
         (let doc = partInstanceImpl p;
              selectedPartInstanceIds = filter (\<lambda>i. i \<noteq> []) (i # map sel_partInstanceId
                (compact [currentPartInfo (playlist m), previousPartInfo (playlist m)]))
          in resetPartInstancesWithPieceInstances (\<lambda>d. inst_id d \<notin> set selectedPartInstanceIds
               \<and> inst_rundownId d = inst_rundownId doc \<and> part_id (inst_part d) = part_id (inst_part doc)) m))"

definition executeOnSetAsNextCallback :: "playout_env \<Rightarrow> PartInstanceId \<Rightarrow> PlayoutModel \<Rightarrow> PlayoutModel" where
  "executeOnSetAsNextCallback env i m =
     (case Option.bind (part_instance_at i m) (\<lambda>p. getRundown (inst_rundownId (partInstanceImpl p)) m) of
        None \<Rightarrow> m | Some _ \<Rightarrow> env_onSetAsNext env i m)"

definition finish_set_next :: "PlayoutModel \<Rightarrow> orphaned_segments_job list \<times> PlayoutModel" where
  "finish_set_next m =
     cleanupOrphanedItems (resetPartInstancesWhenChangingSegment (removeUntakenPartInstances m))"

definition setNextPart ::
  "playout_env \<Rightarrow> next_choice option \<Rightarrow> bool \<Rightarrow> int option \<Rightarrow> PlayoutModel
   \<Rightarrow> playout_error + (orphaned_segments_job list \<times> PlayoutModel)" where
  "setNextPart env rawNextPart setManually offset m =
     (case rawNextPart of
        None \<Rightarrow> and_then (setPartInstanceAsNext None setManually False offset m) (\<lambda>m. Inr (finish_set_next m))
      | Some choice \<Rightarrow>
          if \<not> truthy_str (activationId (playlist m)) then Inl PlaylistNotActive
          else and_then (prepare_next env choice m)
            (\<lambda>(i, consumes, m). and_then (setPartInstanceAsNext (Some i) setManually consumes offset (reset_other_instances i m))
              (\<lambda>m. Inr (finish_set_next (executeOnSetAsNextCallback env i m)))))"

section \<open>Queueing a segment\<close>

definition findFirstPlayablePartOrThrow :: "PlayoutSegmentModel \<Rightarrow> playout_error + DBPart" where
  "findFirstPlayablePartOrThrow s =
     (case find isPartPlayable (segment_partDocs s) of None \<Rightarrow> Inl NoValidParts | Some p \<Rightarrow> Inr p)"

text \<open>The answer to the caller: the part that is next now, or the segment that is queued\<close>

datatype queue_result = NextPartId PartId | QueuedSegmentId "SegmentId option"

definition setNextSegment ::
  "playout_env \<Rightarrow> PlayoutSegmentModel \<Rightarrow> PlayoutModel
   \<Rightarrow> playout_error + (PartId \<times> orphaned_segments_job list \<times> PlayoutModel)" where
  "setNextSegment env s m =
     and_then (findFirstPlayablePartOrThrow s) (\<lambda>part.
       and_then (setNextPart env (Some (ChoicePart part False)) True None (setQueuedSegment None m))
         (\<lambda>(jobs, m). Inr (part_id part, jobs, m)))"

definition queueNextSegment ::
  "playout_env \<Rightarrow> PlayoutSegmentModel option \<Rightarrow> PlayoutModel
   \<Rightarrow> playout_error + (queue_result \<times> orphaned_segments_job list \<times> PlayoutModel)" where
  "queueNextSegment env queuedSegment m =
     (case queuedSegment of
        None \<Rightarrow> Inr (QueuedSegmentId None, [], setQueuedSegment None m)
      | Some s \<Rightarrow>
          if is_adlib_testing s then Inl SegmentIsAdlibTesting
          else and_then (findFirstPlayablePartOrThrow s) (\<lambda>part.
            let segment_of = map_option (\<lambda>p. inst_segmentId (partInstanceImpl p));
                cur = segment_of (currentPartInstance m)
            in if cur = None \<or> cur \<noteq> segment_of (nextPartInstance m)
               then and_then (setNextPart env (Some (ChoicePart part False)) True None (setQueuedSegment None m))
                 (\<lambda>(jobs, m). Inr (NextPartId (part_id part), jobs, m))
               else Inr (QueuedSegmentId (Some (seg_id (segment_doc s))), [],
                      setQueuedSegment (Some (seg_id (segment_doc s))) m)))"

definition doesPartConsumeQueuedSegmentId :: "PlayoutModel \<Rightarrow> DBPart \<Rightarrow> bool" where
  "doesPartConsumeQueuedSegmentId m nextPart =
     (case currentPartInstance m of
        None \<Rightarrow> False
      | Some c \<Rightarrow> inst_segmentId (partInstanceImpl c) \<noteq> part_segmentId nextPart
          \<and> queuedSegmentId (playlist m) = Some (part_segmentId nextPart))"

definition setNextPartFromPart ::
  "playout_env \<Rightarrow> DBPart \<Rightarrow> bool \<Rightarrow> int option \<Rightarrow> PlayoutModel
   \<Rightarrow> playout_error + (orphaned_segments_job list \<times> PlayoutModel)" where
  "setNextPartFromPart env nextPart setManually offset m =
     (if \<not> truthy_str (activationId (playlist m)) then Inl UserInactiveRundown
      else if holdState (playlist m) = Some HoldActive \<or> holdState (playlist m) = Some HoldPending
      then Inl UserDuringHold
      else setNextPart env (Some (ChoicePart nextPart (doesPartConsumeQueuedSegmentId m nextPart))) setManually offset m)"

definition select_and_set_first ::
  "playout_env \<Rightarrow> PlayoutModel \<Rightarrow> playout_error + (orphaned_segments_job list \<times> PlayoutModel)" where
  \<comment> \<open>select the first part of the playlist and set it as next\<close>
  "select_and_set_first env m =
     setNextPart env
       (map_option (\<lambda>r. ChoicePart (sel_part r) (consumesQueuedSegmentId r))
         (selectNextPart (queuedSegmentId (playlist m)) (playlist_loop (playlist m)) None None
           (map segment_doc (getAllOrderedSegments m)) (playout_getAllOrderedParts m) True)) False None m"

definition resetRundownPlaylist ::
  "playout_env \<Rightarrow> string \<Rightarrow> PlayoutModel \<Rightarrow> playout_error + (orphaned_segments_job list \<times> PlayoutModel)" where
  "resetRundownPlaylist env randomId m =
     (let m = resetPlaylist (env_now env) randomId (truthy_str (activationId (playlist m))) m;
          m = resetPartInstancesWithPieceInstances (\<lambda>_. True) (removeAllRehearsalPartInstances m);
          m = m\<lparr>rundownsImpl := map (\<lambda>r. snd (removeAdlibTestingSegment r)) (rundownsImpl m)\<rparr>
      in if truthy_str (activationId (playlist m)) then select_and_set_first env m
         else setNextPart env None False None m)"

end
