(* ===== verification/Set_Next_Facts.thy ===== *)
theory Set_Next_Facts
  imports Set_Next Playout_Facts
begin

text \<open>
  What setting the next part does to the model: which part instance is next, which are reset and which are
  removed, and that a reset reaches the documents of the database that were never loaded. The facts are about
  the documents of the part instances (\<open>doc_at\<close>), which the operations change one by one.
\<close>

section \<open>Documents of the model\<close>

definition doc_at :: "PartInstanceId \<Rightarrow> PlayoutModel \<Rightarrow> DBPartInstance option" where
  "doc_at i m = map_option partInstanceImpl (part_instance_at i m)"

definition playout_wf :: "PlayoutModel \<Rightarrow> bool" where
  "playout_wf m = (map_wf (allPartInstances m) \<and> (\<forall>i d. doc_at i m = Some d \<longrightarrow> inst_id d = i))"

lemma playout_wfD: "playout_wf m \<Longrightarrow> doc_at i m = Some d \<Longrightarrow> inst_id d = i"
  by (simp add: playout_wf_def)

lemma doc_at_put [simp]:
  "doc_at j (put_part_instance i v m) = (if j = i then map_option partInstanceImpl v else doc_at j m)"
  by (simp add: doc_at_def part_instance_at_def put_part_instance_def nullish_def)

lemma doc_at_on:
  "doc_at j (on_part_instance i f m) =
     (if j = i then map_option (\<lambda>p. partInstanceImpl (f p)) (part_instance_at i m) else doc_at j m)"
  by (auto simp: on_part_instance_def doc_at_def part_instance_at_def put_part_instance_def nullish_def
      split: option.split)

lemma doc_at_cong: "allPartInstances m' = allPartInstances m \<Longrightarrow> doc_at i m' = doc_at i m"
  by (simp add: doc_at_def part_instance_at_def)

lemma playout_wf_cong: "allPartInstances m' = allPartInstances m \<Longrightarrow> playout_wf m' = playout_wf m"
  by (simp add: playout_wf_def doc_at_def part_instance_at_def)

lemma playout_wf_keyed:
  assumes wf: "map_wf (allPartInstances m)"
    and ids: "\<forall>(i, p) \<in> set (allPartInstances m). inst_id (partInstanceImpl (the p)) = i"
  shows "playout_wf m"
  unfolding playout_wf_def
proof (intro conjI allI impI wf)
  fix i d assume "doc_at i m = Some d"
  then obtain p where p: "live_instance m i p" "d = partInstanceImpl p" by (auto simp: doc_at_def live_at)
  then have "(i, Some p) \<in> set (allPartInstances m)" using wf by (simp add: live_instance_def wf_get_iff)
  with ids p(2) show "inst_id d = i" by auto
qed

lemma sync_wf: "playout_sync db m \<Longrightarrow> playout_wf m"
  using instance_syncD(1) playout_syncD
  by (fastforce simp: playout_wf_def doc_at_def live_at)

lemma loaded_docs:
  assumes "playout_wf m"
  shows "d \<in> partInstanceImpl ` set (loadedPartInstances m) \<longleftrightarrow> doc_at (inst_id d) m = Some d"
proof -
  have wf: "map_wf (allPartInstances m)" using assms by (simp add: playout_wf_def)
  have "p \<in> set (loadedPartInstances m) \<longleftrightarrow> (\<exists>i. part_instance_at i m = Some p)" for p
    by (force simp: loadedPartInstances_def live_at live_instance_def wf_get_iff [OF wf])
  then have "d \<in> partInstanceImpl ` set (loadedPartInstances m) \<longleftrightarrow> (\<exists>i. doc_at i m = Some d)"
    by (force simp: doc_at_def)
  with assms show ?thesis by (auto simp: playout_wf_def)
qed

lemma playlist_kept [simp]:
  "playlist (on_part_instance i f m) = playlist m"
  "playlist (put_part_instance i v m) = playlist m"
  "playlist (deferAfterSave d m) = playlist m"
  by (simp_all add: on_part_instance_def put_part_instance_def deferAfterSave_def split: option.split)

lemma map_wf_put_part_instance:
  "map_wf (allPartInstances m) \<Longrightarrow> map_wf (allPartInstances (put_part_instance i v m))"
  by (simp add: put_part_instance_def)

lemma map_wf_on_part_instance:
  "map_wf (allPartInstances m) \<Longrightarrow> map_wf (allPartInstances (on_part_instance i f m))"
  by (simp add: on_part_instance_def map_wf_put_part_instance split: option.split)

lemma wf_on_part_instance:
  "playout_wf m \<Longrightarrow> (\<And>p. inst_id (partInstanceImpl (f p)) = inst_id (partInstanceImpl p)) \<Longrightarrow>
     playout_wf (on_part_instance i f m)"
  unfolding playout_wf_def doc_at_on
proof (intro conjI allI impI)
  fix j d
  assume wf: "map_wf (allPartInstances m) \<and> (\<forall>i d. doc_at i m = Some d \<longrightarrow> inst_id d = i)"
    and f: "\<And>p. inst_id (partInstanceImpl (f p)) = inst_id (partInstanceImpl p)"
    and d: "(if j = i then map_option (\<lambda>p. partInstanceImpl (f p)) (part_instance_at i m) else doc_at j m) = Some d"
  show "inst_id d = j"
  proof (cases "j = i")
    case True
    with d obtain p where p: "part_instance_at i m = Some p" "d = partInstanceImpl (f p)" by auto
    then have "doc_at i m = Some (partInstanceImpl p)" by (simp add: doc_at_def)
    with wf f p(2) True show ?thesis by simp
  qed (use d wf in simp)
qed (simp add: map_wf_on_part_instance)

lemma wf_remove: "playout_wf m \<Longrightarrow> playout_wf (put_part_instance i None m)"
  unfolding playout_wf_def doc_at_put by (simp add: map_wf_put_part_instance)

section \<open>Resets\<close>

lemma markAsReset_doc [simp]: "partInstanceImpl (markAsReset p) = (partInstanceImpl p)\<lparr>inst_reset := True\<rparr>"
  by (simp add: markAsReset_def on_pieces_def compareAndSetPartInstanceValue_def setPartInstanceValue_def)

definition reset_if :: "bool \<Rightarrow> DBPartInstance \<Rightarrow> DBPartInstance" where
  "reset_if b d = (if b then d\<lparr>inst_reset := True\<rparr> else d)"

lemma reset_if_simps [simp]:
  "inst_id (reset_if b d) = inst_id d" "inst_part (reset_if b d) = inst_part d"
  "inst_rundownId (reset_if b d) = inst_rundownId d" "inst_segmentId (reset_if b d) = inst_segmentId d"
  "isTaken (reset_if b d) = isTaken d" "inst_orphaned (reset_if b d) = inst_orphaned d"
  "inst_reset (reset_if b d) = (b \<or> inst_reset d)"
  by (simp_all add: reset_if_def)

lemma reset_if_False [simp]: "reset_if False = id"
  by (simp add: reset_if_def fun_eq_iff)

lemma reset_if_twice: "reset_if a (reset_if b d) = reset_if (a \<or> b) d"
  by (simp add: reset_if_def)

lemma doc_at_reset_one:
  "doc_at j (on_part_instance i markAsReset m) = map_option (reset_if (j = i)) (doc_at j m)"
  by (simp add: doc_at_on) (simp add: doc_at_def option.map_comp comp_def reset_if_def)

lemma doc_at_reset_all:
  "doc_at j (fold (\<lambda>i. on_part_instance i markAsReset) is m) = map_option (reset_if (j \<in> set is)) (doc_at j m)"
proof (induction "is" arbitrary: m)
  case Nil
  show ?case by (simp add: option.map_ident)
next
  case (Cons i "is")
  show ?case
    unfolding fold.simps comp_apply Cons.IH doc_at_reset_one
    by (simp add: option.map_comp comp_def reset_if_twice disj_commute)
qed

lemma playlist_reset_all: "playlist (fold (\<lambda>i. on_part_instance i markAsReset) is m) = playlist m"
  by (induction "is" arbitrary: m) simp_all

lemma wf_reset_all: "playout_wf m \<Longrightarrow> playout_wf (fold (\<lambda>i. on_part_instance i markAsReset) is m)"
  by (induction "is" arbitrary: m) (simp_all add: wf_on_part_instance)

lemma playout_wf_defer [simp]: "playout_wf (deferAfterSave d m) = playout_wf m"
  by (rule playout_wf_cong) (simp add: deferAfterSave_def)

lemma doc_at_defer [simp]: "doc_at i (deferAfterSave d m) = doc_at i m"
  by (rule doc_at_cong) (simp add: deferAfterSave_def)

lemma reset_playlist [simp]: "playlist (resetPartInstancesWithPieceInstances selector m) = playlist m"
  by (simp add: resetPartInstancesWithPieceInstances_def Let_def playlist_reset_all)

lemma reset_wf [simp]: "playout_wf m \<Longrightarrow> playout_wf (resetPartInstancesWithPieceInstances selector m)"
  by (simp add: resetPartInstancesWithPieceInstances_def Let_def wf_reset_all)

lemma reset_doc:
  assumes "playout_wf m"
  shows "doc_at i (resetPartInstancesWithPieceInstances selector m) =
    map_option (\<lambda>d. reset_if (selector d) d) (doc_at i m)"
proof (cases "doc_at i m")
  case None
  then show ?thesis by (simp add: resetPartInstancesWithPieceInstances_def Let_def doc_at_reset_all)
next
  case (Some d)
  let ?ids = "map inst_id (filter (\<lambda>d. \<not> inst_reset d \<and> selector d) (map partInstanceImpl (loadedPartInstances m)))"
  have id: "inst_id d = i" using assms Some by (simp add: playout_wf_def)
  have docs: "e \<in> partInstanceImpl ` set (loadedPartInstances m) \<longleftrightarrow> doc_at (inst_id e) m = Some e" for e
    by (rule loaded_docs [OF assms])
  have "i \<in> set ?ids \<longleftrightarrow> \<not> inst_reset d \<and> selector d"
  proof
    assume "i \<in> set ?ids"
    then obtain e where "doc_at (inst_id e) m = Some e" "inst_id e = i" "\<not> inst_reset e" "selector e"
      using docs by auto
    then show "\<not> inst_reset d \<and> selector d" using Some by simp
  next
    assume "\<not> inst_reset d \<and> selector d"
    moreover have "d \<in> partInstanceImpl ` set (loadedPartInstances m)" using docs Some id by simp
    ultimately show "i \<in> set ?ids" using id by force
  qed
  then show ?thesis
    by (auto simp: resetPartInstancesWithPieceInstances_def Let_def doc_at_reset_all Some reset_if_def)
qed

section \<open>Removing, cleaning up\<close>

lemma doc_at_remove_all:
  "doc_at j (fold (\<lambda>p m. if isTaken (partInstanceImpl p) then m
      else put_part_instance (inst_id (partInstanceImpl p)) None m) ps m) =
     (if \<exists>p\<in>set ps. inst_id (partInstanceImpl p) = j \<and> \<not> isTaken (partInstanceImpl p) then None else doc_at j m)"
  by (induction ps arbitrary: m) auto

lemma removeUntaken_playlist [simp]: "playlist (removeUntakenPartInstances m) = playlist m"
proof -
  have "playlist (fold (\<lambda>p m. if isTaken (partInstanceImpl p) then m
      else put_part_instance (inst_id (partInstanceImpl p)) None m) ps m') = playlist m'" for ps m'
    by (induction ps arbitrary: m') simp_all
  then show ?thesis by (simp add: removeUntakenPartInstances_def)
qed

lemma wf_remove_untaken [simp]: "playout_wf m \<Longrightarrow> playout_wf (removeUntakenPartInstances m)"
proof -
  have "playout_wf m' \<Longrightarrow> playout_wf (fold (\<lambda>p m. if isTaken (partInstanceImpl p) then m
      else put_part_instance (inst_id (partInstanceImpl p)) None m) ps m')" for ps m'
    by (induction ps arbitrary: m') (simp_all add: wf_remove)
  then show "playout_wf m \<Longrightarrow> playout_wf (removeUntakenPartInstances m)"
    by (simp add: removeUntakenPartInstances_def)
qed

lemma older_docs:
  assumes "playout_wf m"
  shows "d \<in> partInstanceImpl ` set (olderPartInstances m) \<longleftrightarrow>
    doc_at (inst_id d) m = Some d \<and> inst_id d \<notin> set (selectedPartInstanceIds m)"
  using loaded_docs [OF assms, of d] by (auto simp: olderPartInstances_def)

lemma removeUntaken_doc:
  assumes "playout_wf m"
  shows "doc_at j (removeUntakenPartInstances m) = (case doc_at j m of None \<Rightarrow> None
    | Some d \<Rightarrow> if j \<notin> set (selectedPartInstanceIds m) \<and> \<not> isTaken d then None else Some d)"
proof -
  have "(\<exists>p\<in>set (olderPartInstances m). inst_id (partInstanceImpl p) = j \<and> \<not> isTaken (partInstanceImpl p)) \<longleftrightarrow>
      (\<exists>d \<in> partInstanceImpl ` set (olderPartInstances m). inst_id d = j \<and> \<not> isTaken d)" by auto
  also have "\<dots> \<longleftrightarrow> (\<exists>d. doc_at (inst_id d) m = Some d \<and> inst_id d = j \<and> j \<notin> set (selectedPartInstanceIds m) \<and> \<not> isTaken d)"
    unfolding Bex_def older_docs [OF assms] by blast
  also have "\<dots> \<longleftrightarrow> (\<exists>d. doc_at j m = Some d \<and> j \<notin> set (selectedPartInstanceIds m) \<and> \<not> isTaken d)"
    using assms unfolding playout_wf_def by metis
  finally show ?thesis
    unfolding removeUntakenPartInstances_def doc_at_remove_all by (auto split: option.split)
qed

text \<open>
  What the steps after the selection do to the documents: some of those that are not selected are reset, and
  nothing else changes.
\<close>

definition on_air_ids :: "PlayoutModel \<Rightarrow> PartInstanceId set" where
  "on_air_ids m = sel_partInstanceId ` set (compact [currentPartInfo (playlist m), nextPartInfo (playlist m)])"

lemma on_air_ids_iff: "j \<in> on_air_ids m \<longleftrightarrow>
    Some j = map_option sel_partInstanceId (currentPartInfo (playlist m))
    \<or> Some j = map_option sel_partInstanceId (nextPartInfo (playlist m))"
  by (cases "currentPartInfo (playlist m)"; cases "nextPartInfo (playlist m)")
    (auto simp: on_air_ids_def set_compact)

lemma on_air_ids_cong: "playlist m' = playlist m \<Longrightarrow> on_air_ids m' = on_air_ids m"
  by (simp add: on_air_ids_def)

definition resets_only :: "PlayoutModel \<Rightarrow> PlayoutModel \<Rightarrow> bool" where
  "resets_only m m' = (playlist m' = playlist m \<and> (playout_wf m \<longrightarrow> playout_wf m')
     \<and> (\<exists>b. (\<forall>j. doc_at j m' = map_option (reset_if (b j)) (doc_at j m))
          \<and> (\<forall>j. b j \<longrightarrow> j \<noteq> [] \<longrightarrow> j \<notin> on_air_ids m)))"

lemma resets_only_refl: "resets_only m m"
  unfolding resets_only_def by (intro conjI exI [of _ "\<lambda>_. False"]) (simp_all add: option.map_id)

lemma resets_only_trans: "resets_only m m' \<Longrightarrow> resets_only m' m'' \<Longrightarrow> resets_only m m''"
proof -
  assume 1: "resets_only m m'" and 2: "resets_only m' m''"
  have p: "playlist m' = playlist m" using 1 by (simp add: resets_only_def)
  from 1 obtain a where a: "\<And>j. doc_at j m' = map_option (reset_if (a j)) (doc_at j m)"
      "\<And>j. a j \<Longrightarrow> j \<noteq> [] \<Longrightarrow> j \<notin> on_air_ids m" unfolding resets_only_def by blast
  from 2 obtain b where b: "\<And>j. doc_at j m'' = map_option (reset_if (b j)) (doc_at j m')"
      "\<And>j. b j \<Longrightarrow> j \<noteq> [] \<Longrightarrow> j \<notin> on_air_ids m" unfolding resets_only_def on_air_ids_cong [OF p] by blast
  have "doc_at j m'' = map_option (reset_if (b j \<or> a j)) (doc_at j m)" for j
    by (simp add: a(1) b(1) option.map_comp comp_def reset_if_twice)
  then have "\<exists>c. (\<forall>j. doc_at j m'' = map_option (reset_if (c j)) (doc_at j m))
      \<and> (\<forall>j. c j \<longrightarrow> j \<noteq> [] \<longrightarrow> j \<notin> on_air_ids m)"
    using a(2) b(2) by (intro exI [of _ "\<lambda>j. b j \<or> a j"]) blast
  then show "resets_only m m''" using 1 2 unfolding resets_only_def by simp
qed

lemma resets_only_ids:
  assumes "playout_wf m"
    and "\<And>j. j \<in> ids \<Longrightarrow> j \<noteq> [] \<Longrightarrow> j \<notin> on_air_ids m"
  shows "resets_only m (resetPartInstancesWithPieceInstances (\<lambda>d. inst_id d \<in> ids) m)"
proof -
  have "doc_at j (resetPartInstancesWithPieceInstances (\<lambda>d. inst_id d \<in> ids) m) =
      map_option (reset_if (j \<in> ids)) (doc_at j m)" for j
    using assms(1) unfolding reset_doc [OF assms(1)]
    by (cases "doc_at j m") (simp_all add: playout_wf_def)
  then show ?thesis using assms unfolding resets_only_def by (auto intro!: exI [of _ "\<lambda>j. j \<in> ids"])
qed

lemma selected_doc: "selected_instance info m = Some p \<Longrightarrow>
    \<exists>x. info = Some x \<and> sel_partInstanceId x \<noteq> [] \<and> doc_at (sel_partInstanceId x) m = Some (partInstanceImpl p)"
  by (auto simp: selected_instance_def doc_at_def truthy_str_def split: if_splits option.splits)

lemma selected_None: "selected_instance (Some x) m = None \<Longrightarrow> sel_partInstanceId x \<noteq> [] \<Longrightarrow>
    doc_at (sel_partInstanceId x) m = None"
  by (simp add: selected_instance_def doc_at_def truthy_str_def)

lemma in_selected_ids: "j \<in> set (selectedPartInstanceIds m) \<longleftrightarrow> j \<noteq> [] \<and>
    (Some j = map_option sel_partInstanceId (previousPartInfo (playlist m))
     \<or> Some j = map_option sel_partInstanceId (currentPartInfo (playlist m))
     \<or> Some j = map_option sel_partInstanceId (nextPartInfo (playlist m)))"
  by (cases "previousPartInfo (playlist m)"; cases "currentPartInfo (playlist m)"; cases "nextPartInfo (playlist m)")
    (auto simp: selectedPartInstanceIds_def set_compact)

text \<open>A loaded part instance that is neither the current nor the next one is not on air.\<close>

lemma not_on_air:
  assumes wf: "playout_wf m" and d: "d \<in> partInstanceImpl ` set (loadedPartInstances m)"
    and cur: "map_option (inst_id \<circ> partInstanceImpl) (currentPartInstance m) \<noteq> Some (inst_id d)"
    and nxt: "map_option (inst_id \<circ> partInstanceImpl) (nextPartInstance m) \<noteq> Some (inst_id d)"
    and ne: "inst_id d \<noteq> []"
  shows "inst_id d \<notin> on_air_ids m"
proof
  assume "inst_id d \<in> on_air_ids m"
  then obtain x where x: "x \<in> set (compact [currentPartInfo (playlist m), nextPartInfo (playlist m)])"
      "inst_id d = sel_partInstanceId x" unfolding on_air_ids_def by (rule imageE)
  have doc: "doc_at (inst_id d) m = Some d" using loaded_docs [OF wf] d by simp
  have *: "info \<noteq> Some x" if "map_option (inst_id \<circ> partInstanceImpl) (selected_instance info m) \<noteq> Some (inst_id d)" for info
  proof
    assume info: "info = Some x"
    show False
    proof (cases "selected_instance info m")
      case None
      then show False using selected_None [of x m] doc ne by (simp add: info x(2))
    next
      case (Some p)
      then show False using selected_doc [OF Some] that doc by (simp add: info Some x(2))
    qed
  qed
  show False
    using x(1) * [OF cur [unfolded currentPartInstance_def]] * [OF nxt [unfolded nextPartInstance_def]]
    by (auto simp: set_compact)
qed

lemma changing_segment_resets:
  assumes wf: "playout_wf m"
  shows "resets_only m (resetPartInstancesWhenChangingSegment m)"
proof (cases "nextPartInstance m")
  case None
  then show ?thesis by (simp add: resetPartInstancesWhenChangingSegment_def resets_only_refl)
next
  case (Some n)
  let ?nxt = "partInstanceImpl n" and ?cur = "map_option partInstanceImpl (currentPartInstance m)"
    and ?docs = "map partInstanceImpl (loadedPartInstances m)"
  let ?trailing = "case ?cur of Some c \<Rightarrow> filter (trailing_in_old_segment c ?nxt) ?docs | None \<Rightarrow> []"
    and ?whole = "if enters_segment ?cur ?nxt then filter (in_new_segment ?cur ?nxt) ?docs else []"
  let ?ids = "fold set_add (map inst_id (?trailing @ ?whole)) []"
  have "inst_id d \<notin> on_air_ids m" if "d \<in> set (?trailing @ ?whole)" "inst_id d \<noteq> []" for d
  proof (rule not_on_air [OF wf _ _ _ that(2)])
    show "d \<in> partInstanceImpl ` set (loadedPartInstances m)" using that(1) by (auto split: option.splits if_splits)
    show "map_option (inst_id \<circ> partInstanceImpl) (currentPartInstance m) \<noteq> Some (inst_id d)"
      using that(1)
      by (auto simp: trailing_in_old_segment_def in_new_segment_def split: option.splits if_splits)
    show "map_option (inst_id \<circ> partInstanceImpl) (nextPartInstance m) \<noteq> Some (inst_id d)"
      using that(1) by (auto simp: Some trailing_in_old_segment_def in_new_segment_def split: option.splits if_splits)
  qed
  then have "resets_only m (resetPartInstancesWithPieceInstances (\<lambda>d. inst_id d \<in> set ?ids) m)"
    by (intro resets_only_ids [OF wf]) (simp only: set_fold_set_add, auto)
  then show ?thesis
    unfolding resetPartInstancesWhenChangingSegment_def Some Let_def option.map option.case
    using resets_only_refl by (simp only: split: if_split) blast
qed

lemma cleanup_resets:
  assumes wf: "playout_wf m"
  shows "resets_only m (snd (cleanupOrphanedItems m))"
proof -
  have "j \<notin> on_air_ids m" if "j \<in> set (orphaned_to_remove m ids)" for j ids
    using that by (auto simp: orphaned_to_remove_def on_air_ids_iff)
  then show ?thesis
    by (simp add: cleanupOrphanedItems_def Let_def resets_only_refl resets_only_ids [OF wf])
qed

text \<open>The steps that every change of the selection ends with\<close>

lemma finish_set_next_docs:
  assumes wf: "playout_wf m" and f: "finish_set_next m = (jobs, m')"
  shows "\<exists>b. playlist m' = playlist m \<and> playout_wf m' \<and> (\<forall>j. b j \<longrightarrow> j \<noteq> [] \<longrightarrow> j \<notin> on_air_ids m)
    \<and> (\<forall>j. doc_at j m' = map_option (reset_if (b j)) (case doc_at j m of None \<Rightarrow> None
       | Some d \<Rightarrow> if j \<notin> set (selectedPartInstanceIds m) \<and> \<not> isTaken d then None else Some d))"
proof -
  let ?m = "removeUntakenPartInstances m"
  have wf': "playout_wf ?m" using wf by simp
  have 1: "resets_only ?m (resetPartInstancesWhenChangingSegment ?m)" by (rule changing_segment_resets [OF wf'])
  then have "playout_wf (resetPartInstancesWhenChangingSegment ?m)" using wf' by (simp add: resets_only_def)
  with 1 have r: "resets_only ?m m'"
    using resets_only_trans [OF 1 cleanup_resets] f by (simp add: finish_set_next_def)
  then obtain b where b: "\<forall>j. doc_at j m' = map_option (reset_if (b j)) (doc_at j ?m)"
      "\<forall>j. b j \<longrightarrow> j \<noteq> [] \<longrightarrow> j \<notin> on_air_ids ?m"
    unfolding resets_only_def by blast
  have "on_air_ids ?m = on_air_ids m" by (rule on_air_ids_cong) simp
  then show ?thesis using r b wf' by (intro exI [of _ b]) (simp add: resets_only_def removeUntaken_doc [OF wf])
qed

section \<open>The part instance that is set as next\<close>

lemma insert_playhead_doc:
  "insert_playhead_infinites ps p = Inr p' \<Longrightarrow> partInstanceImpl p' = partInstanceImpl p"
proof (induction ps p rule: insert_playhead_infinites.induct)
  case (2 q ps p)
  then show ?case by (auto simp: insert_piece_instance_def put_piece_def split: if_splits)
qed simp

lemma replace_infinites_doc:
  "replaceInfinitesFromPreviousPlayhead ps p = Inr p' \<Longrightarrow> partInstanceImpl p' = partInstanceImpl p"
  using insert_playhead_doc [of ps "drop_playhead_infinites p" p']
  by (simp add: replaceInfinitesFromPreviousPlayhead_def drop_playhead_infinites_def)

text \<open>Two models with the same playlist and the same documents of part instances\<close>

definition same_docs :: "PlayoutModel \<Rightarrow> PlayoutModel \<Rightarrow> bool" where
  "same_docs m m' = (playlist m' = playlist m \<and> (\<forall>j. doc_at j m' = doc_at j m) \<and> (playout_wf m \<longrightarrow> playout_wf m'))"

lemma same_docs_refl [simp]: "same_docs m m"
  by (simp add: same_docs_def)

lemma sync_infinites_docs:
  assumes wf: "playout_wf m" and to: "part_instance_at i m = Some p"
    and r: "syncPlayheadInfinitesForNextPartInstance env from (Some p) m = Inr m'"
  shows "same_docs m m'"
proof (cases "m' = m")
  case False
  with r obtain p' ps where p': "replaceInfinitesFromPreviousPlayhead ps p = Inr p'"
      "m' = on_part_instance (inst_id (partInstanceImpl p)) (\<lambda>_. p') m"
    unfolding syncPlayheadInfinitesForNextPartInstance_def
    by (auto split: option.splits sum.splits if_splits)
  have doc: "partInstanceImpl p' = partInstanceImpl p" by (rule replace_infinites_doc [OF p'(1)])
  have "doc_at i m = Some (partInstanceImpl p)" by (simp add: doc_at_def to)
  then have "inst_id (partInstanceImpl p) = i" by (rule playout_wfD [OF wf])
  with p'(2) have m': "m' = put_part_instance i (Some p') m" by (simp add: on_part_instance_def to)
  have docs: "doc_at j m' = doc_at j m" for j
    unfolding m' doc_at_put option.map doc by (simp add: doc_at_def to)
  moreover have "map_wf (allPartInstances m')"
    using wf unfolding m' playout_wf_def by (simp add: map_wf_put_part_instance)
  then have "playout_wf m'" using wf unfolding playout_wf_def docs by simp
  ultimately show ?thesis by (simp add: same_docs_def m')
qed simp

lemma prepare_existing_docs:
  assumes wf: "playout_wf m" and d: "doc_at i m = Some d"
    and r: "prepareExistingPartInstanceForBeingNexted env i m = Inr (k, m')"
  shows "k = i \<and> same_docs m m'"
proof -
  obtain p where p: "part_instance_at i m = Some p" using d by (auto simp: doc_at_def)
  with r sync_infinites_docs [OF wf p] show ?thesis
    by (auto simp: prepareExistingPartInstanceForBeingNexted_def and_then_Inr)
qed

lemma recalculated_fields [simp]:
  "inst_id (partInstanceImpl (recalculateExpectedDurationWithTransition p)) = inst_id (partInstanceImpl p)"
  "inst_reset (partInstanceImpl (recalculateExpectedDurationWithTransition p)) = inst_reset (partInstanceImpl p)"
  "isTaken (partInstanceImpl (recalculateExpectedDurationWithTransition p)) = isTaken (partInstanceImpl p)"
  "inst_rundownId (partInstanceImpl (recalculateExpectedDurationWithTransition p)) = inst_rundownId (partInstanceImpl p)"
  "inst_segmentId (partInstanceImpl (recalculateExpectedDurationWithTransition p)) = inst_segmentId (partInstanceImpl p)"
  "part_id (inst_part (partInstanceImpl (recalculateExpectedDurationWithTransition p))) =
     part_id (inst_part (partInstanceImpl p))"
  by (simp_all add: recalculateExpectedDurationWithTransition_def inst_compareAndSetPartValue_def setPartValue_def)

lemma create_instance_docs:
  assumes "createInstanceForPart now r r' part ps m = Inr (i, m')"
  shows "playlist m' = playlist m \<and> (playout_wf m \<longrightarrow> playout_wf m') \<and> (\<forall>j. j \<noteq> i \<longrightarrow> doc_at j m' = doc_at j m)
    \<and> i = part_id part @ ''_'' @ r
    \<and> (\<exists>d. doc_at i m' = Some d \<and> part_id (inst_part d) = part_id part \<and> \<not> inst_reset d)"
proof -
  from assms obtain d ps' where d: "add_part_instance (new_part_instance_model d ps' True) m = (i, m')"
      "inst_id d = part_id part @ ''_'' @ r" "inst_part d = part" "\<not> inst_reset d"
    by (auto simp: createInstanceForPart_def Let_def split: if_splits)
  let ?p = "recalculateExpectedDurationWithTransition (new_part_instance_model d ps' True)"
  have doc: "partInstanceImpl (new_part_instance_model d ps' True) = d" by (simp add: new_part_instance_model_def)
  have m': "i = inst_id d" "m' = put_part_instance i (Some ?p) m"
    using d(1) by (auto simp: add_part_instance_def Let_def doc)
  have "playout_wf m'" if "playout_wf m"
    using that unfolding playout_wf_def m'(2) doc_at_put by (auto simp: map_wf_put_part_instance doc m'(1))
  then show ?thesis using d(2-4) m'(1) by (simp add: m'(2) doc)
qed

definition chosen_doc :: "next_choice \<Rightarrow> PartInstanceId \<Rightarrow> DBPartInstance \<Rightarrow> bool" where
  "chosen_doc choice i d = (case choice of ChoiceInstance k \<Rightarrow> i = k
     | ChoicePart p _ \<Rightarrow> i \<noteq> [] \<and> part_id (inst_part d) = part_id p)"

lemma prepare_next_docs:
  assumes wf: "playout_wf m" and r: "prepare_next env choice m = Inr (i, c, m')"
  shows "playlist m' = playlist m \<and> playout_wf m' \<and> (\<forall>j. j \<noteq> i \<longrightarrow> doc_at j m' = doc_at j m)
    \<and> (\<exists>d. doc_at i m' = Some d \<and> chosen_doc choice i d
         \<and> (inst_reset d \<longrightarrow> doc_at i m = Some d))"
proof (cases choice)
  case (ChoiceInstance k)
  then obtain p where p: "part_instance_at k m = Some p"
      "prepareExistingPartInstanceForBeingNexted env k m = Inr (i, m')"
    using r by (auto simp: prepare_next_def Let_def and_then_Inr split: option.splits if_splits)
  then have d: "doc_at k m = Some (partInstanceImpl p)" by (simp add: doc_at_def)
  from prepare_existing_docs [OF wf d p(2)] d wf show ?thesis
    by (auto simp: same_docs_def ChoiceInstance chosen_doc_def)
next
  case (ChoicePart part cq)
  have new: ?thesis if "preparePartInstanceForPartBeingNexted env part m = Inr (i, m')"
  proof -
    from that obtain r r' ps where "createInstanceForPart (env_now env) r r' part ps m = Inr (i, m')"
      by (auto simp: preparePartInstanceForPartBeingNexted_def and_then_Inr split: option.splits)
    from create_instance_docs [OF this] wf show ?thesis by (auto simp: ChoicePart chosen_doc_def)
  qed
  show ?thesis
  proof (cases "nextPartInstance m")
    case None
    then show ?thesis
      using r new by (auto simp: ChoicePart prepare_next_def Let_def and_then_Inr split: if_splits)
  next
    case (Some n)
    show ?thesis
    proof (cases "part_id (inst_part (partInstanceImpl n)) = part_id part")
      case False
      then show ?thesis
        using r new Some by (auto simp: ChoicePart prepare_next_def Let_def and_then_Inr split: if_splits)
    next
      case True
      then have p: "prepareExistingPartInstanceForBeingNexted env (inst_id (partInstanceImpl n)) m = Inr (i, m')"
        using r Some by (auto simp: ChoicePart prepare_next_def Let_def and_then_Inr split: if_splits)
      have "selected_instance (nextPartInfo (playlist m)) m = Some n" using Some by (simp add: nextPartInstance_def)
      from selected_doc [OF this] obtain x :: SelectedPartInstance where
          x: "sel_partInstanceId x \<noteq> []" "doc_at (sel_partInstanceId x) m = Some (partInstanceImpl n)" by blast
      then have "inst_id (partInstanceImpl n) = sel_partInstanceId x" using playout_wfD [OF wf] by blast
      with p x(2) have "i = sel_partInstanceId x \<and> same_docs m m'" by (intro prepare_existing_docs [OF wf]) simp_all
      with x True wf show ?thesis by (auto simp: same_docs_def ChoicePart chosen_doc_def)
    qed
  qed
qed

text \<open>
  What is assumed of the callback of the blueprint: it leaves the playlist and the identity, place and
  state of the part instances alone. (It may change their pieces, timings and properties.)
\<close>

definition doc_core ::
  "DBPartInstance \<Rightarrow> PartInstanceId \<times> PartId \<times> RundownId \<times> SegmentId \<times> bool \<times> bool \<times> part_orphaned option" where
  "doc_core d = (inst_id d, part_id (inst_part d), inst_rundownId d, inst_segmentId d, inst_reset d, isTaken d,
     inst_orphaned d)"

definition keeps_selection :: "playout_env \<Rightarrow> bool" where
  "keeps_selection env = (\<forall>i m. playlist (env_onSetAsNext env i m) = playlist m
     \<and> (playout_wf m \<longrightarrow> playout_wf (env_onSetAsNext env i m))
     \<and> (\<forall>j. map_option doc_core (doc_at j (env_onSetAsNext env i m)) = map_option doc_core (doc_at j m)))"

lemma callback_docs:
  assumes "keeps_selection env" and "playout_wf m"
  shows "playlist (executeOnSetAsNextCallback env i m) = playlist m"
    and "playout_wf (executeOnSetAsNextCallback env i m)"
    and "map_option doc_core (doc_at j (executeOnSetAsNextCallback env i m)) = map_option doc_core (doc_at j m)"
  using assms by (auto simp: keeps_selection_def executeOnSetAsNextCallback_def split: option.split)

lemma reset_other_docs:
  assumes wf: "playout_wf m" and d: "doc_at i m = Some d"
  shows "playlist (reset_other_instances i m) = playlist m" and "playout_wf (reset_other_instances i m)"
    and "doc_at j (reset_other_instances i m) = map_option (\<lambda>e. reset_if
      (j \<notin> set (filter (\<lambda>i. i \<noteq> []) (i # map sel_partInstanceId
          (compact [currentPartInfo (playlist m), previousPartInfo (playlist m)])))
       \<and> inst_rundownId e = inst_rundownId d \<and> part_id (inst_part e) = part_id (inst_part d)) e) (doc_at j m)"
proof -
  obtain p where p: "part_instance_at i m = Some p" "d = partInstanceImpl p" using d by (auto simp: doc_at_def)
  show "playlist (reset_other_instances i m) = playlist m" "playout_wf (reset_other_instances i m)"
    using wf by (simp_all add: reset_other_instances_def p(1) Let_def)
  show "doc_at j (reset_other_instances i m) = map_option (\<lambda>e. reset_if
      (j \<notin> set (filter (\<lambda>i. i \<noteq> []) (i # map sel_partInstanceId
          (compact [currentPartInfo (playlist m), previousPartInfo (playlist m)])))
       \<and> inst_rundownId e = inst_rundownId d \<and> part_id (inst_part e) = part_id (inst_part d)) e) (doc_at j m)"
    using playout_wfD [OF wf, of j]
    unfolding reset_other_instances_def p(1) option.case Let_def reset_doc [OF wf] p(2) [symmetric]
    by (cases "doc_at j m") simp_all
qed

lemma set_as_next_docs:
  assumes "setPartInstanceAsNext (Some i) manual consumes offset m = Inr m'" and wf: "playout_wf m"
    and d: "doc_at i m = Some d"
  shows "playlist m' = (playlist m)\<lparr>nextPartInfo := Some \<lparr>sel_partInstanceId = i, sel_rundownId = inst_rundownId d,
      manuallySelected = (manual \<or> inst_orphaned d \<noteq> None), sel_consumesQueuedSegmentId = consumes\<rparr>,
      nextTimeOffset := (if truthy_num offset then offset else None)\<rparr>"
    and "playout_wf m'" and "doc_at j m' = doc_at j m"
proof -
  obtain p where p: "part_instance_at i m = Some p" "d = partInstanceImpl p" using d by (auto simp: doc_at_def)
  have m': "m' = on_playlist (\<lambda>pl. pl\<lparr>nextPartInfo := Some \<lparr>sel_partInstanceId = inst_id (partInstanceImpl p),
        sel_rundownId = inst_rundownId (partInstanceImpl p),
        manuallySelected = (manual \<or> inst_orphaned (partInstanceImpl p) \<noteq> None),
        sel_consumesQueuedSegmentId = consumes\<rparr>,
      nextTimeOffset := (if truthy_num offset then offset else None)\<rparr>) m"
    using assms(1) by (simp add: setPartInstanceAsNext_def p)
  have all: "allPartInstances m' = allPartInstances m" by (simp add: m' on_playlist_def)
  show "playlist m' = (playlist m)\<lparr>nextPartInfo := Some \<lparr>sel_partInstanceId = i, sel_rundownId = inst_rundownId d,
      manuallySelected = (manual \<or> inst_orphaned d \<noteq> None), sel_consumesQueuedSegmentId = consumes\<rparr>,
      nextTimeOffset := (if truthy_num offset then offset else None)\<rparr>"
    using playout_wfD [OF wf d] by (simp add: m' on_playlist_def p(2))
  show "playout_wf m'" using wf playout_wf_cong [OF all] by simp
  show "doc_at j m' = doc_at j m" by (rule doc_at_cong [OF all])
qed

definition consumes_queued :: "next_choice \<Rightarrow> bool" where
  "consumes_queued choice = (case choice of ChoicePart _ c \<Rightarrow> c | ChoiceInstance _ \<Rightarrow> False)"

lemma prepare_next_consumes: "prepare_next env choice m = Inr (i, c, m') \<Longrightarrow> c = consumes_queued choice"
  by (auto simp: prepare_next_def Let_def consumes_queued_def and_then_Inr
      split: next_choice.splits option.splits if_splits)

lemma chosen_core: "chosen_doc choice i d \<Longrightarrow> doc_core e = doc_core d \<Longrightarrow> chosen_doc choice i e"
  by (cases choice) (auto simp: chosen_doc_def doc_core_def)

lemma set_next_outcome:
  assumes "keeps_selection env" and "playout_wf m" and "choice \<noteq> ChoiceInstance []"
    and "setNextPart env (Some choice) manual offset m = Inr (jobs, m')"
  shows "\<exists>i d. doc_at i m' = Some d \<and> chosen_doc choice i d
    \<and> playlist m' = (playlist m)\<lparr>nextPartInfo := Some \<lparr>sel_partInstanceId = i, sel_rundownId = inst_rundownId d,
          manuallySelected = (manual \<or> inst_orphaned d \<noteq> None), sel_consumesQueuedSegmentId = consumes_queued choice\<rparr>,
        nextTimeOffset := (if truthy_num offset then offset else None)\<rparr>
    \<and> (inst_reset d \<longrightarrow> (\<exists>e. doc_at i m = Some e \<and> inst_reset e))
    \<and> (\<forall>j e. doc_at j m' = Some e \<longrightarrow> j \<notin> set (selectedPartInstanceIds m') \<longrightarrow> isTaken e
         \<and> (inst_rundownId e = inst_rundownId d \<longrightarrow> part_id (inst_part e) = part_id (inst_part d) \<longrightarrow> inst_reset e))
    \<and> playout_wf m' \<and> (\<exists>c m1. prepare_next env choice m = Inr (i, c, m1))
    \<and> (\<forall>j e. doc_at j m' = Some e \<longrightarrow> j \<noteq> i \<longrightarrow> (\<exists>e0. doc_at j m = Some e0 \<and> (inst_reset e0 \<longrightarrow> inst_reset e)))"
proof -
  from assms(4) obtain i c m1 m3 where
      1: "prepare_next env choice m = Inr (i, c, m1)" and
      3: "setPartInstanceAsNext (Some i) manual c offset (reset_other_instances i m1) = Inr m3" and
      5: "finish_set_next (executeOnSetAsNextCallback env i m3) = (jobs, m')"
    by (auto simp: setNextPart_def and_then_Inr split: if_splits)
  let ?m2 = "reset_other_instances i m1" and ?m4 = "executeOnSetAsNextCallback env i m3"
  from prepare_next_docs [OF assms(2) 1] obtain d where
      m1: "playlist m1 = playlist m" "playout_wf m1" "doc_at i m1 = Some d" "chosen_doc choice i d"
        "inst_reset d \<longrightarrow> doc_at i m = Some d" and
      other: "\<And>j. j \<noteq> i \<Longrightarrow> doc_at j m1 = doc_at j m" by blast
  have i: "i \<noteq> []" using m1(4) assms(3) by (auto simp: chosen_doc_def split: next_choice.splits)
  note m2 = reset_other_docs [OF m1(2,3)]
  have d2: "doc_at i ?m2 = Some d" using i by (simp add: m2(3) m1(3))
  note m3 = set_as_next_docs [OF 3 m2(2) d2]
  note m4 = callback_docs [OF assms(1) m3(2)]
  have core: "map_option doc_core (doc_at j ?m4) = map_option doc_core (doc_at j ?m2)" for j
    by (simp add: m4(3) m3(3))
  have wf': "playout_wf m'" using finish_set_next_docs [OF m4(2) 5] by blast
  from finish_set_next_docs [OF m4(2) 5] obtain b where m': "playlist m' = playlist ?m4"
      "\<forall>j. b j \<longrightarrow> j \<noteq> [] \<longrightarrow> j \<notin> on_air_ids ?m4"
      "\<forall>j. doc_at j m' = map_option (reset_if (b j)) (case doc_at j ?m4 of None \<Rightarrow> None
         | Some d \<Rightarrow> if j \<notin> set (selectedPartInstanceIds ?m4) \<and> \<not> isTaken d then None else Some d)"
    by (elim exE conjE)
  have pl: "playlist m' = (playlist m)\<lparr>nextPartInfo := Some \<lparr>sel_partInstanceId = i, sel_rundownId = inst_rundownId d,
        manuallySelected = (manual \<or> inst_orphaned d \<noteq> None), sel_consumesQueuedSegmentId = consumes_queued choice\<rparr>,
      nextTimeOffset := (if truthy_num offset then offset else None)\<rparr>"
    by (simp add: m'(1) m4(1) m3(1) m2(1) m1(1) prepare_next_consumes [OF 1])
  have sel: "selectedPartInstanceIds ?m4 = selectedPartInstanceIds m'" "on_air_ids ?m4 = on_air_ids m'"
    by (simp_all add: selectedPartInstanceIds_def on_air_ids_def m'(1))
  have nxt: "map_option sel_partInstanceId (nextPartInfo (playlist m')) = Some i" by (simp add: pl)
  then have in_sel: "i \<in> set (selectedPartInstanceIds m')" "i \<in> on_air_ids m'"
    using i by (auto simp: on_air_ids_iff in_selected_ids)
  from core [of i] obtain d4 where d4: "doc_at i ?m4 = Some d4" "doc_core d4 = doc_core d"
    unfolding d2 by (cases "doc_at i ?m4") simp_all
  have "\<not> b i" using m'(2) i in_sel(2) sel(2) by blast
  then have di: "doc_at i m' = Some d4" using in_sel(1) by (simp add: m'(3) d4(1) sel(1))
  have others: "isTaken e \<and> (inst_rundownId e = inst_rundownId d4 \<longrightarrow> part_id (inst_part e) = part_id (inst_part d4) \<longrightarrow> inst_reset e)"
    if e: "doc_at j m' = Some e" "j \<notin> set (selectedPartInstanceIds m')" for j e
  proof -
    from e obtain e4 where e4: "doc_at j ?m4 = Some e4" "isTaken e4" "e = reset_if (b j) e4"
      by (auto simp: m'(3) sel(1) split: option.splits if_splits)
    then obtain e2 where e2: "doc_at j ?m2 = Some e2" "doc_core e4 = doc_core e2"
      using core [of j] by (cases "doc_at j ?m2") auto
    from e2(1) obtain e1 where e1: "e2 = reset_if (j \<notin> set (filter (\<lambda>i. i \<noteq> []) (i # map sel_partInstanceId
          (compact [currentPartInfo (playlist m1), previousPartInfo (playlist m1)])))
       \<and> inst_rundownId e1 = inst_rundownId d \<and> part_id (inst_part e1) = part_id (inst_part d)) e1"
      by (auto simp: m2(3))
    have "j \<notin> set (filter (\<lambda>i. i \<noteq> []) (i # map sel_partInstanceId
          (compact [currentPartInfo (playlist m1), previousPartInfo (playlist m1)])))"
      using e(2) in_sel(1)
      by (cases "previousPartInfo (playlist m)"; cases "currentPartInfo (playlist m)")
        (auto simp: in_selected_ids pl m1(1) set_compact)
    then show ?thesis using e4 e2(2) d4(2) e1 by (simp add: doc_core_def)
  qed
  have kept: "\<exists>e0. doc_at j m = Some e0 \<and> (inst_reset e0 \<longrightarrow> inst_reset e)" if e: "doc_at j m' = Some e" "j \<noteq> i" for j e
  proof -
    from e obtain e4 where e4: "doc_at j ?m4 = Some e4" "e = reset_if (b j) e4"
      by (auto simp: m'(3) split: option.splits if_splits)
    then obtain e2 where e2: "doc_at j ?m2 = Some e2" "doc_core e4 = doc_core e2"
      using core [of j] by (cases "doc_at j ?m2") auto
    then obtain e1 q where e1: "doc_at j m1 = Some e1" "e2 = reset_if q e1" by (auto simp: m2(3))
    have "doc_at j m = Some e1" using e1(1) other e(2) by simp
    with e4(2) e2(2) e1(2) show ?thesis by (auto simp: doc_core_def reset_if_def)
  qed
  have same: "inst_rundownId d4 = inst_rundownId d" "inst_orphaned d4 = inst_orphaned d" "inst_reset d4 = inst_reset d"
    using d4(2) by (simp_all add: doc_core_def)
  have "inst_reset d4 \<longrightarrow> (\<exists>e. doc_at i m = Some e \<and> inst_reset e)" using m1(5) same(3) by auto
  with di chosen_core [OF m1(4) d4(2)] pl others kept wf' 1 show ?thesis unfolding same(1,2) [symmetric] by blast
qed

text \<open>C6. Setting a part or a part instance as next leaves it as the next one, with the given flags, and the
  current and previous ones as they were. The one set is not reset unless it was already. Any other part
  instance that is still in the model was taken, and when it is one of the same part it is reset.\<close>

theorem setNextPart_selects:
  assumes "keeps_selection env" and "playout_wf m" and "choice \<noteq> ChoiceInstance []"
    and "setNextPart env (Some choice) manual offset m = Inr (jobs, m')"
  shows "\<exists>i d. doc_at i m' = Some d \<and> chosen_doc choice i d
    \<and> playlist m' = (playlist m)\<lparr>nextPartInfo := Some \<lparr>sel_partInstanceId = i, sel_rundownId = inst_rundownId d,
          manuallySelected = (manual \<or> inst_orphaned d \<noteq> None), sel_consumesQueuedSegmentId = consumes_queued choice\<rparr>,
        nextTimeOffset := (if truthy_num offset then offset else None)\<rparr>
    \<and> (inst_reset d \<longrightarrow> (\<exists>e. doc_at i m = Some e \<and> inst_reset e))
    \<and> (\<forall>j e. doc_at j m' = Some e \<longrightarrow> j \<notin> set (selectedPartInstanceIds m') \<longrightarrow> isTaken e
         \<and> (inst_rundownId e = inst_rundownId d \<longrightarrow> part_id (inst_part e) = part_id (inst_part d) \<longrightarrow> inst_reset e))"
  using set_next_outcome [OF assms] by blast

definition ex_rundown :: PlayoutRundownModel where
  "ex_rundown = new_playout_rundown \<lparr>rd_id = ''rd'', rd_showStyleBaseId = ''style'', rd_externalId = ''ext'', rd_showStyleVariantId = ''variant'', from_nrcs = True\<rparr>
     [new_playout_segment (sample_segment ''s1'' 0) [sample_part ''p1'' 1 ''s1'', sample_part ''p2'' 2 ''s1'']]"

definition ex_env :: playout_env where
  "ex_env = \<lparr>env_now = 1000, env_lc = \<lambda>_ _. 0, env_random = \<lambda>n. ''r'', env_pieces = [],
     env_sourceLayers = \<lambda>_. [], env_onSetAsNext = \<lambda>_ m. m\<rparr>"

text \<open>The first part is on air; of the second an instance was taken before, and another was never taken.\<close>

definition ex_show :: PlayoutModel where
  "ex_show = new_playout_model True (ex_playlist (Some ''i1'') None)
     [new_part_instance_model (ex_on_air\<lparr>isTaken := True\<rparr>) [ex_on_air_piece] False,
      new_part_instance_model ((sample_part_instance ''i2'' (sample_part ''p2'' 2 ''s1''))\<lparr>isTaken := True\<rparr>) [] False,
      new_part_instance_model (sample_part_instance ''i3'' (sample_part ''p2'' 2 ''s1'')) [] False] [ex_rundown]"

lemma ex_show_wf: "playout_wf ex_show"
proof -
  have "map_wf (allPartInstances ex_show)" unfolding map_wf_def by code_simp
  moreover have "\<forall>(i, p) \<in> set (allPartInstances ex_show). inst_id (partInstanceImpl (the p)) = i" by code_simp
  ultimately show ?thesis by (rule playout_wf_keyed)
qed

lemma ex_env_keeps: "keeps_selection ex_env"
  by (simp add: keeps_selection_def ex_env_def)

lemma ex_set_next: "case setNextPart ex_env (Some (ChoicePart (sample_part ''p2'' 2 ''s1'') False)) True None ex_show of
    Inr (jobs, m') \<Rightarrow> jobs = [] \<and> selectedPartInstanceIds m' = [''i1'', ''p2_r''] \<and> doc_at ''i3'' m' = None
      \<and> map_option inst_reset (doc_at ''i2'' m') = Some True
  | Inl e \<Rightarrow> False"
  by code_simp

theorem setNextPart_selects_witness:
  "\<exists>m' d. setNextPart ex_env (Some (ChoicePart (sample_part ''p2'' 2 ''s1'') False)) True None ex_show = Inr ([], m')
    \<and> doc_at ''p2_r'' m' = Some d \<and> part_id (inst_part d) = ''p2''
    \<and> nextPartInfo (playlist m') = Some \<lparr>sel_partInstanceId = ''p2_r'', sel_rundownId = inst_rundownId d,
        manuallySelected = True, sel_consumesQueuedSegmentId = False\<rparr>
    \<and> doc_at ''i3'' m' = None \<and> map_option inst_reset (doc_at ''i2'' m') = Some True"
proof -
  from ex_set_next obtain m' where
      m': "setNextPart ex_env (Some (ChoicePart (sample_part ''p2'' 2 ''s1'') False)) True None ex_show = Inr ([], m')"
        "selectedPartInstanceIds m' = [''i1'', ''p2_r'']" "doc_at ''i3'' m' = None"
        "map_option inst_reset (doc_at ''i2'' m') = Some True"
    by (auto split: sum.splits prod.splits)
  from setNextPart_selects [OF ex_env_keeps ex_show_wf _ m'(1)] obtain i d where
      d: "doc_at i m' = Some d" "part_id (inst_part d) = ''p2''" "i \<noteq> []"
        "nextPartInfo (playlist m') = Some \<lparr>sel_partInstanceId = i, sel_rundownId = inst_rundownId d,
           manuallySelected = True, sel_consumesQueuedSegmentId = False\<rparr>"
        "currentPartInfo (playlist m') = currentPartInfo (playlist ex_show)"
        "previousPartInfo (playlist m') = previousPartInfo (playlist ex_show)"
    by (auto simp: chosen_doc_def consumes_queued_def sample_defs)
  have "currentPartInfo (playlist ex_show) = Some \<lparr>sel_partInstanceId = ''i1'', sel_rundownId = ''rd'',
      manuallySelected = False, sel_consumesQueuedSegmentId = False\<rparr>" "previousPartInfo (playlist ex_show) = None"
    by code_simp+
  then have "i = ''p2_r''" using m'(2) d(3) by (simp add: selectedPartInstanceIds_def d(4,5,6))
  then show ?thesis using m' d by blast
qed

end
