(* ===== verification/Reset_Facts.thy ===== *)
theory Reset_Facts
  imports Set_Next_Facts
begin

text \<open>
  A reset reaches the database: the part instances that the model holds are reset in it and written by the
  save, and the function deferred to after the save does the rest, with all piece instances of the part
  instances concerned, loaded or not.
\<close>

section \<open>The model after a reset\<close>

lemma markAsReset_pieces:
  "pieceInstancesImpl (markAsReset p) = map (\<lambda>(k, q). (k, map_option (\<lambda>q. snd (compareAndSetPieceInstanceValue
     pi_reset pi_reset_update True q)) q)) (pieceInstancesImpl p)"
  by (simp add: markAsReset_def on_pieces_def compareAndSetPartInstanceValue_def setPartInstanceValue_def)

lemma get_markAsReset:
  "map_get (pieceInstancesImpl (markAsReset p)) k = map_option (map_option (\<lambda>q. snd (compareAndSetPieceInstanceValue
     pi_reset pi_reset_update True q))) (map_get (pieceInstancesImpl p) k)"
proof -
  have "map_get (map (\<lambda>(k, q). (k, map_option f q)) ps) k = map_option (map_option f) (map_get ps k)" for f ps
    by (induction ps) auto
  then show ?thesis by (simp add: markAsReset_pieces)
qed

lemma reset_piece_doc [simp]:
  "PieceInstanceImpl (snd (compareAndSetPieceInstanceValue pi_reset pi_reset_update True q)) =
     (PieceInstanceImpl q)\<lparr>pi_reset := True\<rparr>"
  by (simp add: compareAndSetPieceInstanceValue_def setPieceInstanceValue_def)

lemma keys_markAsReset: "piece_keys (markAsReset p) = piece_keys p"
  by (simp add: piece_keys_def markAsReset_pieces image_image case_prod_beta')

lemma live_on_part_instance:
  "live_instance (on_part_instance i f m) j q \<longleftrightarrow>
     (if j = i then \<exists>p. live_instance m i p \<and> q = f p else live_instance m j q)"
proof (cases "part_instance_at i m")
  case None
  then have "\<not> live_instance m i p" for p using live_at [of i m p] by simp
  then show ?thesis by (auto simp: on_part_instance_def None)
next
  case (Some p)
  then have "live_instance m i r \<longleftrightarrow> r = p" for r using live_at [of i m r] by auto
  then show ?thesis by (auto simp: on_part_instance_def Some live_put)
qed

lemma live_reset_all:
  "distinct is \<Longrightarrow> live_instance (fold (\<lambda>i. on_part_instance i markAsReset) is m) j q \<longleftrightarrow>
     (\<exists>p. live_instance m j p \<and> q = (if j \<in> set is then markAsReset p else p))"
  by (induction "is" arbitrary: m) (auto simp: live_on_part_instance)

lemma removed_on_part_instance: "removed_instance (on_part_instance i f m) j = removed_instance m j"
  by (auto simp: removed_instance_def on_part_instance_def part_instance_at_def put_part_instance_def nullish_def
      split: option.splits)

lemma removed_reset_all: "removed_instance (fold (\<lambda>i. on_part_instance i markAsReset) is m) j = removed_instance m j"
  by (induction "is" arbitrary: m) (simp_all add: removed_on_part_instance)

lemma sync_reset_all:
  "playout_sync db m \<Longrightarrow> playout_sync db (fold (\<lambda>i. on_part_instance i markAsReset) is m)"
proof (induction "is" arbitrary: m)
  case (Cons i "is")
  then have "playout_sync db (on_part_instance i markAsReset m)"
    by (intro sync_on_part_instance markAsReset_op.sync keys_markAsReset)
  with Cons.IH show ?case by simp
qed simp

section \<open>What is loaded, before and after the save\<close>

lemma loaded_after_save:
  assumes s: "playout_sync db m"
  shows "i \<in> loaded_ids (fst (write_documents m db0)) \<longleftrightarrow> (\<exists>p. live_instance m i p)"
proof
  assume "i \<in> loaded_ids (fst (write_documents m db0))"
  then obtain j q where "(j, Some q) \<in> set (allPartInstances (fst (write_documents m db0)))"
      and i: "i = inst_id (partInstanceImpl q)"
    by (force simp: loaded_ids_def loadedPartInstances_def)
  then obtain v where v: "(j, v) \<in> set (allPartInstances m)" "Some q = map_option inst_clearChangedFlags v"
    by (auto simp: write_documents_def writePartInstancesAndPieceInstances_def Let_def case_prod_beta')
  then obtain p where p: "(j, Some p) \<in> set (allPartInstances m)" "q = inst_clearChangedFlags p" by (cases v) auto
  then have l: "live_instance m j p" by (simp add: live_instance_def wf_get_iff [OF playout_syncD(1) [OF s]])
  then have "inst_id (partInstanceImpl p) = j" by (rule instance_syncD(1) [OF playout_syncD(2) [OF s]])
  then have "i = j" by (simp add: i p(2) inst_clearChangedFlags_def)
  with l show "\<exists>p. live_instance m i p" by blast
qed (use saved_loaded_ids [OF s] in blast)

lemma saved_rundown_ids: "getRundownIds lc (fst (write_documents m db)) = getRundownIds lc m"
  by (simp add: getRundownIds_def write_documents_def writeAdlibTestingSegments_def case_prod_beta' Let_def
      clearAdlibTestingSegmentChangedFlag_def comp_def if_distrib [of rundown_doc] cong: if_cong)

lemma getRundownIds_cong:
  "rundownsImpl m' = rundownsImpl m \<Longrightarrow> playlist m' = playlist m \<Longrightarrow> getRundownIds lc m' = getRundownIds lc m"
  by (simp add: getRundownIds_def)

lemma rundowns_reset_all: "rundownsImpl (fold (\<lambda>i. on_part_instance i markAsReset) is m) = rundownsImpl m"
  by (induction "is" arbitrary: m) (simp_all add: on_part_instance_def put_part_instance_def split: option.split)

lemma deferred_reset_all:
  "deferredAfterSaveFunctions (fold (\<lambda>i. on_part_instance i markAsReset) is m) = deferredAfterSaveFunctions m"
  by (induction "is" arbitrary: m) (simp_all add: on_part_instance_def put_part_instance_def split: option.split)

lemma reset_rundown_ids: "getRundownIds lc (resetPartInstancesWithPieceInstances selector m) = getRundownIds lc m"
  by (rule getRundownIds_cong)
    (simp_all add: resetPartInstancesWithPieceInstances_def Let_def rundowns_reset_all deferAfterSave_def playlist_reset_all)

section \<open>The reset in the database\<close>

definition reset_ids :: "(DBPartInstance \<Rightarrow> bool) \<Rightarrow> PlayoutModel \<Rightarrow> PartInstanceId list" where
  \<comment> \<open>\<open>partInstanceIdsToReset\<close>\<close>
  "reset_ids selector m = map inst_id (filter (\<lambda>d. \<not> inst_reset d \<and> selector d)
     (map partInstanceImpl (loadedPartInstances m)))"

lemma reset_eq: "resetPartInstancesWithPieceInstances selector m =
    deferAfterSave (ResetNotLoaded selector (reset_ids selector m))
      (fold (\<lambda>i. on_part_instance i markAsReset) (reset_ids selector m) m)"
  by (simp add: resetPartInstancesWithPieceInstances_def reset_ids_def Let_def)

lemma in_reset_ids:
  assumes s: "playout_sync db m" and l: "live_instance m i p"
  shows "i \<in> set (reset_ids selector m) \<longleftrightarrow> selector (partInstanceImpl p) \<and> \<not> inst_reset (partInstanceImpl p)"
proof -
  have "doc_at i m = Some (partInstanceImpl p)" using l by (simp add: doc_at_def live_at [symmetric])
  moreover have "i \<in> set (reset_ids selector m) \<longleftrightarrow>
      (\<exists>d. d \<in> partInstanceImpl ` set (loadedPartInstances m) \<and> inst_id d = i \<and> selector d \<and> \<not> inst_reset d)"
    by (auto simp: reset_ids_def)
  ultimately show ?thesis unfolding loaded_docs [OF sync_wf [OF s]]
    using playout_wfD [OF sync_wf [OF s]] by (metis option.inject)
qed

lemma reset_ids_live:
  assumes s: "playout_sync db m" and i: "i \<in> set (reset_ids selector m)"
  shows "\<exists>p. live_instance m i p"
proof -
  from i obtain d where "d \<in> partInstanceImpl ` set (loadedPartInstances m)" "inst_id d = i"
    by (auto simp: reset_ids_def)
  then have "doc_at i m = Some d" using loaded_docs [OF sync_wf [OF s]] by blast
  then show ?thesis by (auto simp: doc_at_def live_at)
qed

lemma distinct_reset_ids:
  assumes s: "playout_sync db m"
  shows "distinct (reset_ids selector m)"
proof -
  have wf: "map_wf (allPartInstances m)" by (rule playout_syncD(1) [OF s])
  have "map (inst_id \<circ> partInstanceImpl) (compact (map snd es)) = map fst (filter (\<lambda>e. snd e \<noteq> None) es)"
    if "\<forall>i p. (i, Some p) \<in> set es \<longrightarrow> inst_id (partInstanceImpl p) = i" for es
    using that by (induction es) (auto split: option.splits)
  moreover have "\<forall>i p. (i, Some p) \<in> set (allPartInstances m) \<longrightarrow> inst_id (partInstanceImpl p) = i"
    using instance_syncD(1) [OF playout_syncD(2) [OF s]] by (auto simp: live_instance_def wf_get_iff [OF wf])
  ultimately have "map (inst_id \<circ> partInstanceImpl) (loadedPartInstances m) =
      map fst (filter (\<lambda>e. snd e \<noteq> None) (allPartInstances m))"
    unfolding loadedPartInstances_def by blast
  then have "distinct (map inst_id (map partInstanceImpl (loadedPartInstances m)))"
    using wf by (simp add: map_wf_def distinct_map_filter)
  then show ?thesis unfolding reset_ids_def by (rule distinct_map_filter)
qed

definition live_doc :: "PlayoutModel \<Rightarrow> PartInstanceId \<Rightarrow> bool" where
  "live_doc m i = (\<exists>p. live_instance m i p)"

lemma in_not_loaded_reset:
  assumes "part_docs_ok (db_partInstances db)" and "map_get (db_partInstances db) i = Some e"
  shows "i \<in> set (not_loaded_reset lc m selector db) \<longleftrightarrow>
    selector e \<and> i \<notin> loaded_ids m \<and> inst_rundownId e \<in> set (getRundownIds lc m) \<and> \<not> inst_reset e"
proof -
  have wf: "map_wf (db_partInstances db)" and id: "\<And>i d. map_get (db_partInstances db) i = Some d \<Longrightarrow> inst_id d = i"
    using assms(1) by (auto simp: part_docs_ok_def)
  have "i \<in> set (not_loaded_reset lc m selector db) \<longleftrightarrow> (\<exists>j d. (j, d) \<in> set (db_partInstances db) \<and> inst_id d = i
      \<and> selector d \<and> inst_id d \<notin> loaded_ids m \<and> inst_rundownId d \<in> set (getRundownIds lc m) \<and> \<not> inst_reset d)"
    by (force simp: not_loaded_reset_def findFetch_def)
  also have "\<dots> \<longleftrightarrow> (\<exists>j d. map_get (db_partInstances db) j = Some d \<and> inst_id d = i
      \<and> selector d \<and> inst_id d \<notin> loaded_ids m \<and> inst_rundownId d \<in> set (getRundownIds lc m) \<and> \<not> inst_reset d)"
    by (simp only: wf_get_iff [OF wf])
  also have "\<dots> \<longleftrightarrow> (inst_id e = i \<and> selector e \<and> inst_id e \<notin> loaded_ids m
      \<and> inst_rundownId e \<in> set (getRundownIds lc m) \<and> \<not> inst_reset e)"
    using id assms(2) by (auto dest: id)
  finally show ?thesis using id [OF assms(2)] by simp
qed

lemma reset_same:
  fixes d :: DBPartInstance and q :: PieceInstance
  shows "inst_reset d \<Longrightarrow> d\<lparr>inst_reset := True\<rparr> = d" and "pi_reset q \<Longrightarrow> q\<lparr>pi_reset := True\<rparr> = q"
  by (cases d, simp) (cases q, simp)

lemma map_get_Some_iff: "(\<exists>v. map_get es k = Some v) \<longleftrightarrow> k \<in> fst ` set es"
  by (metis domD domI dom_map_of_conv_image_fst)

lemma reset_written_piece:
  assumes s: "playout_sync db m" and s2: "playout_sync db m2"
    and live2: "\<And>j q. live_instance m2 j q \<longleftrightarrow> (\<exists>p. live_instance m j p \<and> q = (if j \<in> ids then markAsReset p else p))"
    and removed2: "\<And>j. removed_instance m2 j = removed_instance m j"
    and q: "written_piece db m k = Some q" "pi_partInstanceId q = i"
  shows "written_piece db m2 k =
    Some (if k \<in> fst ` set (all_pieces m) \<and> i \<in> ids then q\<lparr>pi_reset := True\<rparr> else q)"
proof (cases "map_get (all_pieces m) k")
  case (Some v)
  with q(1) obtain pm where pm: "v = Some pm" "q = PieceInstanceImpl pm" by (auto simp: written_piece_def)
  with Some obtain j p where p: "live_instance m j p" "map_get (pieceInstancesImpl p) k = Some (Some pm)"
    by (auto simp: get_all_pieces [OF s])
  then have "j = i" using instance_syncD(5) [OF playout_syncD(2) [OF s p(1)] p(2)] q(2) pm(2) by simp
  then have l: "live_instance m2 i (if i \<in> ids then markAsReset p else p)" using p(1) live2 by blast
  let ?pm = "if i \<in> ids then snd (compareAndSetPieceInstanceValue pi_reset pi_reset_update True pm) else pm"
  have "map_get (pieceInstancesImpl (if i \<in> ids then markAsReset p else p)) k = Some (Some ?pm)"
    using p(2) by (simp add: get_markAsReset)
  then have "map_get (all_pieces m2) k = Some (Some ?pm)" using l get_all_pieces [OF s2] by blast
  moreover have "k \<in> fst ` set (all_pieces m)" using Some map_get_Some_iff by metis
  ultimately show ?thesis by (simp add: written_piece_def pm(2))
next
  case None
  have "map_get (all_pieces m2) k \<noteq> Some v" for v
  proof
    assume "map_get (all_pieces m2) k = Some v"
    then obtain j p where p: "live_instance m j p"
        "map_get (pieceInstancesImpl (if j \<in> ids then markAsReset p else p)) k = Some v"
      unfolding get_all_pieces [OF s2] live2 by blast
    then obtain u where "map_get (pieceInstancesImpl p) k = Some u"
      by (auto simp: get_markAsReset split: if_splits)
    then have "map_get (all_pieces m) k = Some u" using p(1) get_all_pieces [OF s] by blast
    with None show False by simp
  qed
  then have "map_get (all_pieces m2) k = None" by (metis option.exhaust)
  moreover have "k \<notin> fst ` set (all_pieces m)" using None map_get_Some_iff by (metis option.distinct(1))
  ultimately show ?thesis
    using q(1) None by (cases "map_get (db_pieceInstances db) k") (simp_all add: written_piece_def removed2)
qed

text \<open>C18. A reset of the part instances that match a selector reaches the database with the next save: every
  part instance of the playlist's rundowns is then as the save alone would have left it, but reset when it
  matched; and so are the piece instances, loaded or not, of those that matched and were not reset before.\<close>

theorem reset_reaches_database:
  assumes db: "db_ok db" and steps: "playout_step\<^sup>*\<^sup>* (loaded_model db locked pl rids rs) m"
    and none: "deferredAfterSaveFunctions m = []"
    and save: "playout_saveAllToDatabase lc (resetPartInstancesWithPieceInstances selector m) db = Inr (m', db', ev)"
    and d: "written_part_instance db m i = Some d" "inst_rundownId d \<in> set (getRundownIds lc m)"
  shows "map_get (db_partInstances db') i = Some (if selector d then d\<lparr>inst_reset := True\<rparr> else d)
    \<and> (\<forall>k q. written_piece db m k = Some q \<longrightarrow> pi_partInstanceId q = i \<longrightarrow> pi_rundownId q \<in> set (getRundownIds lc m) \<longrightarrow>
         map_get (db_pieceInstances db') k =
           Some (if selector d \<and> \<not> inst_reset d then q\<lparr>pi_reset := True\<rparr> else q))"
proof -
  have s: "playout_sync db m" by (rule playout_steps_sync [OF steps sync_loaded [OF db]])
  let ?ids = "reset_ids selector m"
  let ?m1 = "fold (\<lambda>i. on_part_instance i markAsReset) ?ids m"
  let ?m2 = "resetPartInstancesWithPieceInstances selector m"
  define w where "w = fst (write_documents ?m2 db)"
  define D where "D = snd (write_documents ?m2 db)"
  have s1: "playout_sync db ?m1" by (rule sync_reset_all [OF s])
  have all: "allPartInstances ?m2 = allPartInstances ?m1" by (simp add: reset_eq deferAfterSave_def)
  have s2: "playout_sync db ?m2" using s1 playout_sync_cong [OF all] by simp
  have live2: "live_instance ?m2 j q \<longleftrightarrow> (\<exists>p. live_instance m j p \<and> q = (if j \<in> set ?ids then markAsReset p else p))"
    for j q
    using live_reset_all [OF distinct_reset_ids [OF s]] by (simp add: live_instance_def all)
  have removed2: "removed_instance ?m2 j = removed_instance m j" for j
    using removed_reset_all by (simp add: removed_instance_def all)
  have rds: "getRundownIds lc w = getRundownIds lc m" by (simp add: w_def saved_rundown_ids reset_rundown_ids)
  have loaded: "j \<in> loaded_ids w \<longleftrightarrow> (\<exists>p. live_instance m j p)" for j
    unfolding w_def loaded_after_save [OF s2] live2 by blast
  have defs: "deferredAfterSaveFunctions ?m2 = [ResetNotLoaded selector ?ids]"
    using none by (simp add: reset_eq deferAfterSave_def deferred_reset_all)
  have db': "db' = run_deferred lc w (ResetNotLoaded selector ?ids) D"
    using save_result [OF save] by (simp add: defs w_def D_def)
  let ?B = "selector d \<and> \<not> inst_reset d"
  have part: "map_get (db_partInstances D) i = Some (if i \<in> set ?ids then d\<lparr>inst_reset := True\<rparr> else d)
      \<and> (live_doc m i \<longrightarrow> (i \<in> set ?ids \<longleftrightarrow> ?B))"
  proof (cases "live_doc m i")
    case True
    then obtain p where p: "live_instance m i p" by (auto simp: live_doc_def)
    then have "d = partInstanceImpl p" using d(1) by (simp add: written_part_instance_def live_instance_def)
    moreover have "live_instance ?m2 i (if i \<in> set ?ids then markAsReset p else p)" using p live2 by blast
    then have "written_part_instance db ?m2 i = Some (partInstanceImpl (if i \<in> set ?ids then markAsReset p else p))"
      by (simp add: written_part_instance_def live_instance_def)
    ultimately show ?thesis
      using in_reset_ids [OF s p] by (simp add: D_def written_part_instances [OF s2 db])
  next
    case False
    then have m: "map_get (allPartInstances m) i = None" "map_get (db_partInstances db) i = Some d"
      using d(1) by (auto simp: live_doc_def live_instance_def written_part_instance_def split: option.splits)
    have "\<not> live_instance ?m2 i q" for q unfolding live2 using False by (simp add: live_doc_def)
    moreover have "\<not> removed_instance ?m2 i" unfolding removed2 by (simp add: removed_instance_def m(1))
    ultimately have "map_get (allPartInstances ?m2) i = None"
      unfolding live_instance_def removed_instance_def by (metis not_Some_eq)
    moreover have "i \<notin> set ?ids" using False reset_ids_live [OF s] by (auto simp: live_doc_def)
    ultimately show ?thesis
      using False by (simp add: D_def written_part_instances [OF s2 db] written_part_instance_def m(2))
  qed
  have id: "inst_id d = i"
    using d(1) db instance_syncD(1) [OF playout_syncD(2) [OF s]]
    by (auto simp: written_part_instance_def live_instance_def db_ok_def split: option.splits)
  have member: "i \<in> set (not_loaded_reset lc w selector D @ ?ids) \<longleftrightarrow> ?B"
  proof (cases "live_doc m i")
    case True
    then have "i \<notin> set (not_loaded_reset lc w selector D)"
      using not_loaded_ids(1) loaded unfolding live_doc_def by blast
    with True part show ?thesis by simp
  next
    case False
    then have "i \<notin> set ?ids" using reset_ids_live [OF s] by (auto simp: live_doc_def)
    with False part d(2) show ?thesis
      using in_not_loaded_reset [OF written_parts_ok [OF s2 db, folded D_def], of i d lc w selector] loaded
      by (simp add: live_doc_def rds)
  qed
  have 1: "map_get (db_partInstances db') i = Some (if selector d then d\<lparr>inst_reset := True\<rparr> else d)"
  proof -
    have "i \<in> set (not_loaded_reset lc w selector D) \<longleftrightarrow> ?B \<and> i \<notin> set ?ids"
      using member part not_loaded_ids(1) loaded reset_ids_live [OF s] unfolding live_doc_def set_append by blast
    then show ?thesis
      using part d(2) member by (auto simp: db' run_deferred_reset get_update_docs rds id reset_same)
  qed
  have 2: "map_get (db_pieceInstances db') k = Some (if ?B then q\<lparr>pi_reset := True\<rparr> else q)"
    if q: "written_piece db m k = Some q" "pi_partInstanceId q = i" "pi_rundownId q \<in> set (getRundownIds lc m)" for k q
  proof -
    note get = get_all_pieces [OF s] and get2 = get_all_pieces [OF s2]
    have written: "written_piece db ?m2 k = Some (if k \<in> fst ` set (all_pieces m) \<and> i \<in> set ?ids then q\<lparr>pi_reset := True\<rparr> else q)"
      by (rule reset_written_piece [OF s s2 live2 removed2 q(1,2)])
    then have "map_get (db_pieceInstances D) k = Some (if k \<in> fst ` set (all_pieces m) \<and> i \<in> set ?ids then q\<lparr>pi_reset := True\<rparr> else q)"
      by (simp add: D_def written_pieces [OF s2 db])
    then show ?thesis
      using q(2,3) member part not_loaded_ids(1) loaded
      by (auto simp: db' run_deferred_reset get_update_docs rds reset_same)
  qed
  show ?thesis using 1 2 by blast
qed

text \<open>A part instance of another segment, with a piece, that the model does not load\<close>

definition ex_elsewhere :: DBPartInstance where
  "ex_elsewhere = (sample_part_instance ''i9'' (sample_part ''p9'' 1 ''s9''))\<lparr>isTaken := True\<rparr>"

definition ex_elsewhere_piece :: PieceInstance where
  "ex_elsewhere_piece = (sample_instance sample_piece)\<lparr>pi_id := ''i9_piece'', pi_partInstanceId := ''i9''\<rparr>"

definition ex_two_db :: playout_db where
  "ex_two_db = \<lparr>db_playlist = ex_playlist (Some ''i1'') None, db_segments = [], db_parts = [],
     db_partInstances = [(''i1'', ex_on_air), (''i9'', ex_elsewhere)],
     db_pieceInstances = [(''i1_piece'', ex_on_air_piece), (''i9_piece'', ex_elsewhere_piece)]\<rparr>"

abbreviation ex_two_loaded :: PlayoutModel where
  "ex_two_loaded \<equiv> loaded_model ex_two_db True (ex_playlist (Some ''i1'') None) [''rd''] [ex_rundown]"

lemma ex_two_ok: "db_ok ex_two_db"
  by (auto simp: db_ok_def ex_two_db_def map_wf_def ex_on_air_def ex_on_air_piece_def ex_elsewhere_def
      ex_elsewhere_piece_def sample_defs)

theorem reset_reaches_database_witness:
  "\<exists>m' db' ev. playout_saveAllToDatabase (\<lambda>_ _. 0) (resetPartInstancesWithPieceInstances (\<lambda>_. True) ex_two_loaded) ex_two_db
      = Inr (m', db', ev)
    \<and> map_get (allPartInstances ex_two_loaded) ''i9'' = None
    \<and> map_get (db_partInstances db') ''i9'' = Some (ex_elsewhere\<lparr>inst_reset := True\<rparr>)
    \<and> map_get (db_pieceInstances db') ''i9_piece'' = Some (ex_elsewhere_piece\<lparr>pi_reset := True\<rparr>)"
proof -
  let ?m = "resetPartInstancesWithPieceInstances (\<lambda>_. True) ex_two_loaded"
  have "playlistLocked ?m \<and> \<not> playout_disposed ?m" by code_simp
  then obtain m' db' ev where save: "playout_saveAllToDatabase (\<lambda>_ _. 0) ?m ex_two_db = Inr (m', db', ev)"
    by (auto simp: playout_saveAllToDatabase_def case_prod_beta' Let_def)
  have none: "map_get (allPartInstances ex_two_loaded) ''i9'' = None" by code_simp
  have deferred: "deferredAfterSaveFunctions ex_two_loaded = []" by code_simp
  have part: "written_part_instance ex_two_db ex_two_loaded ''i9'' = Some ex_elsewhere"
    unfolding written_part_instance_def none by code_simp
  have "map_get (all_pieces ex_two_loaded) ''i9_piece'' = None" by code_simp
  moreover have "map_get (db_pieceInstances ex_two_db) ''i9_piece'' = Some ex_elsewhere_piece" by code_simp
  moreover have owner: "pi_partInstanceId ex_elsewhere_piece = ''i9''" by code_simp
  ultimately have piece: "written_piece ex_two_db ex_two_loaded ''i9_piece'' = Some ex_elsewhere_piece"
    by (simp add: written_piece_def removed_instance_def none)
  have rds: "inst_rundownId ex_elsewhere \<in> set (getRundownIds (\<lambda>_ _. 0) ex_two_loaded)"
    "pi_rundownId ex_elsewhere_piece \<in> set (getRundownIds (\<lambda>_ _. 0) ex_two_loaded)" by code_simp+
  have "\<not> inst_reset ex_elsewhere" by code_simp
  with reset_reaches_database [OF ex_two_ok rtranclp.rtrancl_refl deferred save part rds(1)] piece owner rds(2)
  show ?thesis using save none by auto
qed

end
