(* ===== verification/Instance_Ranks.thy ===== *)
theory Instance_Ranks
  imports Playout_Facts
begin

text \<open>
  The ranks of part instances after an ingest operation or an ad-lib:
  \<open>packages/job-worker/src/updatePartInstanceRanksAndOrphanedState.ts\<close>. A part instance without a part (an
  orphan) keeps its place after the part that it followed before. Ranks are rationals, so the interpolation
  is exact. The lists of segments that the code passes have no segment twice.
\<close>

section \<open>The order before\<close>

record BeforePartMapItem =
  before_id :: PartId
  before_rank :: rank

record OriginalPartInstanceOrderMapItem =
  afterPartId :: "PartId option"
  afterPartInstanceIds :: "PartInstanceId list"

definition instance_ids_where :: "(rank \<Rightarrow> bool) \<Rightarrow> DBPartInstance list \<Rightarrow> PartInstanceId list" where
  "instance_ids_where query ds = map inst_id (filter (\<lambda>d. query (part_rank (inst_part d))) ds)"

fun between_parts ::
  "BeforePartMapItem \<Rightarrow> BeforePartMapItem list \<Rightarrow> DBPartInstance list \<Rightarrow> OriginalPartInstanceOrderMapItem list" where
  \<comment> \<open>the loop over the parts, with \<open>previousPartInfo\<close>, and what comes after the last part\<close>
  "between_parts prev [] ds =
     [\<lparr>afterPartId = Some (before_id prev), afterPartInstanceIds = instance_ids_where (\<lambda>r. before_rank prev \<le> r) ds\<rparr>]"
| "between_parts prev (info # infos) ds =
     \<lparr>afterPartId = Some (before_id prev),
      afterPartInstanceIds = instance_ids_where (\<lambda>r. before_rank prev \<le> r \<and> r < before_rank info) ds\<rparr>
     # between_parts info infos ds"

definition original_order :: "BeforePartMapItem list \<Rightarrow> DBPartInstance list \<Rightarrow> OriginalPartInstanceOrderMapItem list" where
  \<comment> \<open>the groups of one segment\<close>
  "original_order partInfos adlibInstances =
     (let sortedInstances = js_sort (\<lambda>a b. part_rank (inst_part b) < part_rank (inst_part a)) adlibInstances
      in if adlibInstances = [] then []
         else case partInfos of
           [] \<Rightarrow> [\<lparr>afterPartId = None, afterPartInstanceIds = map inst_id sortedInstances\<rparr>]
         | first # _ \<Rightarrow>
             \<lparr>afterPartId = None, afterPartInstanceIds = instance_ids_where (\<lambda>r. r < before_rank first) sortedInstances\<rparr>
             # between_parts first partInfos sortedInstances)"

definition compileOriginalPartInstanceOrderMap ::
  "(SegmentId, BeforePartMapItem list) js_map \<Rightarrow> DBPartInstance list
   \<Rightarrow> (SegmentId, OriginalPartInstanceOrderMapItem list) js_map" where
  "compileOriginalPartInstanceOrderMap beforePartMap adlibbedPartInstances =
     (let grouped = groupByToMapFunc (\<lambda>d. Some (inst_segmentId d)) adlibbedPartInstances
      in fold (\<lambda>(segmentId, partInfos). map_set segmentId
           (original_order partInfos (nullish (map_get grouped segmentId) []))) beforePartMap [])"

section \<open>The parts now\<close>

record PartInstancesAfterPartInfo =
  group_partRank :: rank
  group_segmentId :: SegmentId
  group_partInstanceIds :: "PartInstanceId list"

record follow_state =
  targetPartInstancesParentMap :: "(PartId, PartInstancesAfterPartInfo) js_map"
  partInstancesAtStartOfSegment :: "(SegmentId, PartInstanceId list) js_map"
  previousPartInstancesGroup :: "PartId option"  \<comment> \<open>the key of the group that was set last in this segment\<close>

definition follow_group ::
  "(PartId, DBPart) js_map \<Rightarrow> SegmentId \<Rightarrow> OriginalPartInstanceOrderMapItem \<Rightarrow> follow_state \<Rightarrow> follow_state" where
  "follow_group partsMap segmentId g st =
     (if \<not> truthy_str (afterPartId g)
      then st\<lparr>partInstancesAtStartOfSegment := map_set segmentId (afterPartInstanceIds g) (partInstancesAtStartOfSegment st)\<rparr>
      else case map_get partsMap (the (afterPartId g)) of
        Some newPart \<Rightarrow>
          st\<lparr>targetPartInstancesParentMap := map_set (part_id newPart)
               \<lparr>group_partRank = part_rank newPart, group_segmentId = part_segmentId newPart,
                group_partInstanceIds = afterPartInstanceIds g\<rparr> (targetPartInstancesParentMap st),
             previousPartInstancesGroup := Some (part_id newPart)\<rparr>
      | None \<Rightarrow>
         (case previousPartInstancesGroup st of
            Some k \<Rightarrow>
             (case map_get (targetPartInstancesParentMap st) k of
                Some previous \<Rightarrow> st\<lparr>targetPartInstancesParentMap := map_set k
                  (previous\<lparr>group_partInstanceIds := group_partInstanceIds previous @ afterPartInstanceIds g\<rparr>)
                  (targetPartInstancesParentMap st)\<rparr>
              | None \<Rightarrow> st)
          | None \<Rightarrow>
              st\<lparr>partInstancesAtStartOfSegment := map_set segmentId
                (nullish (map_get (partInstancesAtStartOfSegment st) segmentId) [] @ afterPartInstanceIds g)
                (partInstancesAtStartOfSegment st)\<rparr>))"

definition follow_segment ::
  "(PartId, DBPart) js_map \<Rightarrow> (SegmentId, OriginalPartInstanceOrderMapItem list) js_map
   \<Rightarrow> SegmentId \<Rightarrow> follow_state \<Rightarrow> follow_state" where
  "follow_segment partsMap partInstancesMap segmentId st =
     (case map_get partInstancesMap segmentId of
        None \<Rightarrow> st
      | Some groups \<Rightarrow> fold (follow_group partsMap segmentId) groups (st\<lparr>previousPartInstancesGroup := None\<rparr>))"

definition groupPartInstancesByThePartTheyFollow ::
  "(PartId, DBPart) js_map \<Rightarrow> SegmentId list \<Rightarrow> (SegmentId, OriginalPartInstanceOrderMapItem list) js_map
   \<Rightarrow> (PartId, PartInstancesAfterPartInfo) js_map \<times> (SegmentId, PartInstanceId list) js_map" where
  "groupPartInstancesByThePartTheyFollow partsMap changedSegmentIds partInstancesMap =
     (let st = fold (follow_segment partsMap partInstancesMap) changedSegmentIds
            \<lparr>targetPartInstancesParentMap = [], partInstancesAtStartOfSegment = [], previousPartInstancesGroup = None\<rparr>
      in (targetPartInstancesParentMap st, partInstancesAtStartOfSegment st))"

section \<open>The new ranks\<close>

definition in_segment :: "(PartInstanceId, DBPartInstance) js_map \<Rightarrow> SegmentId \<Rightarrow> PartInstanceId \<Rightarrow> bool" where
  "in_segment orphans segmentId i = (map_option inst_segmentId (map_get orphans i) = Some segmentId)"

definition start_ranks :: "PartInstanceId list \<Rightarrow> (PartInstanceId \<times> rank) list" where
  "start_ranks ids = map (\<lambda>(k, i). (i, of_int (int k - int (length ids)))) (enumerate 0 ids)"

definition following_ranks :: "rank \<Rightarrow> PartInstanceId list \<Rightarrow> (PartInstanceId \<times> rank) list" where
  "following_ranks partRank ids =
     (let increment = 1 / of_nat (length ids + 1)
      in map (\<lambda>(k, i). (i, partRank + increment * of_nat (k + 1))) (enumerate 0 ids))"

definition compileNewPartInstanceRanks ::
  "(PartId, DBPart) js_map \<Rightarrow> SegmentId list \<Rightarrow> (SegmentId, BeforePartMapItem list) js_map
   \<Rightarrow> DBPartInstance list \<Rightarrow> (PartInstanceId, rank) js_map" where
  "compileNewPartInstanceRanks partsMap changedSegmentIds beforePartMap orphanedPartInstances =
     (let partInstancesMap = compileOriginalPartInstanceOrderMap beforePartMap orphanedPartInstances;
          orphans = normalizeArrayToMapFunc (\<lambda>d. Some (inst_id d)) orphanedPartInstances;
          (target, atStart) = groupPartInstancesByThePartTheyFollow partsMap changedSegmentIds partInstancesMap;
          startRanks = concat (map (\<lambda>(segmentId, ids). start_ranks (filter (in_segment orphans segmentId) ids)) atStart);
          followingRanks = concat (map (\<lambda>(_, g). following_ranks (group_partRank g)
              (filter (in_segment orphans (group_segmentId g)) (group_partInstanceIds g))) target)
      in fold (\<lambda>(i, r). map_set i r) (startRanks @ followingRanks) [])"

section \<open>The updates\<close>

definition updatePartInstanceRanksAfterAdlib :: "PartInstanceId \<Rightarrow> PlayoutModel \<Rightarrow> PlayoutModel" where
  "updatePartInstanceRanksAfterAdlib i m =
     (case part_instance_at i m of
        None \<Rightarrow> m
      | Some partInstance \<Rightarrow>
         (let segmentId = inst_segmentId (partInstanceImpl partInstance);
              orphaned = filter (\<lambda>d. \<not> inst_reset d \<and> inst_orphaned d \<noteq> None \<and> inst_segmentId d = segmentId)
                (map partInstanceImpl (loadedPartInstances m));
              beforePartMap = (case findSegment segmentId m of
                  Some s \<Rightarrow> [(segmentId, map (\<lambda>p. \<lparr>before_id = part_id p, before_rank = part_rank p\<rparr>) (segment_partDocs s))]
                | None \<Rightarrow> []);
              partsMap = fold (\<lambda>p. map_set (part_id p) p) (playout_getAllOrderedParts m) []
          in fold (\<lambda>(i, r). on_part_instance i (inst_setRank r))
               (compileNewPartInstanceRanks partsMap [segmentId] beforePartMap orphaned) m))"

definition instance_update :: "(PartId, DBPart) js_map \<Rightarrow> DBPartInstance \<Rightarrow> (DBPartInstance \<Rightarrow> DBPartInstance) option" where
  \<comment> \<open>the \<open>updateOne\<close> of a part instance, if there is one\<close>
  "instance_update partsMap d =
     (case map_get partsMap (part_id (inst_part d)) of
        None \<Rightarrow> if inst_orphaned d = None then Some (\<lambda>d. d\<lparr>inst_orphaned := Some PartDeleted\<rparr>) else None
      | Some part \<Rightarrow>
          if inst_orphaned d = Some PartDeleted
          then Some (\<lambda>e. (if part_rank (inst_part d) \<noteq> part_rank part
                          then inst_part_update (part_rank_update (\<lambda>_. part_rank part)) e else e)\<lparr>inst_orphaned := None\<rparr>)
          else if part_rank (inst_part d) \<noteq> part_rank part
          then Some (inst_part_update (part_rank_update (\<lambda>_. part_rank part)))
          else None)"

definition updateNormalPartInstanceRanksAndFindOrphans ::
  "(PartId, DBPart) js_map \<Rightarrow> SegmentId list \<Rightarrow> (PartInstanceId, DBPartInstance) js_map
   \<Rightarrow> (PartInstanceId \<times> (DBPartInstance \<Rightarrow> DBPartInstance)) list \<times> DBPartInstance list" where
  "updateNormalPartInstanceRanksAndFindOrphans partsMap changedSegmentIds c =
     (let found = js_sort (\<lambda>a b. takeCount b < takeCount a)
            (findFetch (\<lambda>d. \<not> inst_reset d \<and> inst_segmentId d \<in> set changedSegmentIds) c)
      in (List.map_filter (\<lambda>d. map_option (Pair (inst_id d)) (instance_update partsMap d)) found,
          filter (\<lambda>d. map_get partsMap (part_id (inst_part d)) = None) found))"

definition update_ones ::
  "(PartInstanceId \<times> (DBPartInstance \<Rightarrow> DBPartInstance)) list \<Rightarrow> (PartInstanceId, DBPartInstance) js_map
   \<Rightarrow> (PartInstanceId, DBPartInstance) js_map" where
  "update_ones ops c = fold (\<lambda>(i, f). update_docs (\<lambda>d. inst_id d = i) f) ops c"

definition updatePartInstanceRanksAndOrphanedState ::
  "DBPart list \<Rightarrow> SegmentId list \<Rightarrow> (SegmentId, BeforePartMapItem list) js_map
   \<Rightarrow> (PartInstanceId, DBPartInstance) js_map \<Rightarrow> (PartInstanceId, DBPartInstance) js_map" where
  \<comment> \<open>of the ingest model the ordered parts, of the database the part instances\<close>
  "updatePartInstanceRanksAndOrphanedState orderedParts changedSegmentIds beforePartMap c =
     (let partsMap = fold (\<lambda>p. map_set (part_id p) p) orderedParts [];
          (writeOps, orphaned) = updateNormalPartInstanceRanksAndFindOrphans partsMap changedSegmentIds c;
          ranks = compileNewPartInstanceRanks partsMap changedSegmentIds beforePartMap orphaned;
          orphanedMap = normalizeArrayToMapFunc (\<lambda>d. Some (inst_id d)) orphaned;
          rankOps = filter (\<lambda>(i, r). map_option (\<lambda>d. part_rank (inst_part d)) (map_get orphanedMap i) \<noteq> Some r) ranks
      in update_ones (writeOps @ map (\<lambda>(i, r). (i, inst_part_update (part_rank_update (\<lambda>_. r)))) rankOps) c)"

section \<open>Where the new ranks lie\<close>

lemma start_ranks_bounds:
  assumes "(i, r) \<in> set (start_ranks ids)"
  shows "i \<in> set ids" "- of_nat (length ids) \<le> r" "r \<le> - 1"
proof -
  obtain k where k: "k < length ids" "i = ids ! k" "r = of_int (int k - int (length ids))"
    using assms by (auto simp: start_ranks_def in_set_enumerate_eq)
  then show "i \<in> set ids" by simp
  have "- int (length ids) \<le> int k - int (length ids)" by simp
  then have "of_int (- int (length ids)) \<le> (of_int (int k - int (length ids)) :: rat)" by (simp only: of_int_le_iff)
  with k show "- of_nat (length ids) \<le> r" by simp
  have "int k - int (length ids) \<le> - 1" using k by simp
  then have "(of_int (int k - int (length ids)) :: rat) \<le> of_int (- 1)" by (simp only: of_int_le_iff)
  with k show "r \<le> - 1" by simp
qed

lemma following_ranks_bounds:
  assumes "(i, r) \<in> set (following_ranks partRank ids)"
  shows "i \<in> set ids" "partRank < r" "r < partRank + 1"
proof -
  obtain k where k: "k < length ids" "i = ids ! k"
      and r: "r = partRank + of_nat (k + 1) / of_nat (length ids + 1)"
    using assms by (auto simp: following_ranks_def Let_def in_set_enumerate_eq)
  from k show "i \<in> set ids" by simp
  have "0 < (of_nat (k + 1) / of_nat (length ids + 1) :: rat)" by (intro divide_pos_pos) (simp_all del: of_nat_Suc)
  with r show "partRank < r" by simp
  have "(of_nat (k + 1) :: rat) < of_nat (length ids + 1)" using k by (simp only: of_nat_less_iff)
  then have "(of_nat (k + 1) / of_nat (length ids + 1) :: rat) < 1" by (subst divide_less_eq_1_pos) (simp_all del: of_nat_Suc)
  with r show "r < partRank + 1" by simp
qed

definition group_of_part :: "(PartId, DBPart) js_map \<Rightarrow> PartInstancesAfterPartInfo \<Rightarrow> bool" where
  \<comment> \<open>the group carries the rank and the segment of a part that exists\<close>
  "group_of_part partsMap g =
     (\<exists>i p. map_get partsMap i = Some p \<and> group_partRank g = part_rank p \<and> group_segmentId g = part_segmentId p)"

definition groups_of_parts :: "(PartId, DBPart) js_map \<Rightarrow> follow_state \<Rightarrow> bool" where
  "groups_of_parts partsMap st = (\<forall>g\<in>snd ` set (targetPartInstancesParentMap st). group_of_part partsMap g)"

lemma groups_of_parts_set:
  assumes "groups_of_parts partsMap st" "group_of_part partsMap g"
  shows "groups_of_parts partsMap (st\<lparr>targetPartInstancesParentMap := map_set k g (targetPartInstancesParentMap st)\<rparr>)"
  using assms by (auto simp: groups_of_parts_def dest!: map_set_in)

lemma groups_of_parts_other [simp]:
  "groups_of_parts partsMap (st\<lparr>partInstancesAtStartOfSegment := x\<rparr>) = groups_of_parts partsMap st"
  "groups_of_parts partsMap (st\<lparr>previousPartInstancesGroup := y\<rparr>) = groups_of_parts partsMap st"
  by (simp_all add: groups_of_parts_def)

lemma groups_of_parts_group:
  assumes "groups_of_parts partsMap st"
  shows "groups_of_parts partsMap (follow_group partsMap segmentId g st)"
proof -
  have new: "group_of_part partsMap
      \<lparr>group_partRank = part_rank p, group_segmentId = part_segmentId p, group_partInstanceIds = ids\<rparr>"
    if "map_get partsMap i = Some p" for i p ids
    using that by (auto simp: group_of_part_def)
  have longer: "group_of_part partsMap (h\<lparr>group_partInstanceIds := ids\<rparr>)"
    if "map_get (targetPartInstancesParentMap st) k = Some h" for k h ids
    using assms map_of_SomeD [OF that] by (force simp: groups_of_parts_def group_of_part_def)
  show ?thesis
    using assms unfolding follow_group_def
    by (auto simp: groups_of_parts_set new longer split: option.split)
qed

lemma groups_of_parts_segment:
  assumes "groups_of_parts partsMap st"
  shows "groups_of_parts partsMap (follow_segment partsMap partInstancesMap segmentId st)"
proof -
  have "groups_of_parts partsMap (fold (follow_group partsMap segmentId) groups st')"
    if "groups_of_parts partsMap st'" for groups st'
    using that by (induction groups arbitrary: st') (simp_all add: groups_of_parts_group)
  moreover have "groups_of_parts partsMap (st\<lparr>previousPartInstancesGroup := None\<rparr>)"
    using assms by (simp add: groups_of_parts_def)
  ultimately show ?thesis using assms by (simp add: follow_segment_def split: option.split)
qed

lemma groups_of_parts_target:
  "groups_of_parts partsMap (fold (follow_segment partsMap partInstancesMap) segments
     \<lparr>targetPartInstancesParentMap = [], partInstancesAtStartOfSegment = [], previousPartInstancesGroup = None\<rparr>)"
proof -
  have "groups_of_parts partsMap (fold (follow_segment partsMap partInstancesMap) segments st)"
    if "groups_of_parts partsMap st" for st
    using that by (induction segments arbitrary: st) (simp_all add: groups_of_parts_segment)
  moreover have "groups_of_parts partsMap
      \<lparr>targetPartInstancesParentMap = [], partInstancesAtStartOfSegment = [], previousPartInstancesGroup = None\<rparr>"
    by (simp add: groups_of_parts_def)
  ultimately show ?thesis .
qed

lemma fold_set_in:
  "map_get (fold (\<lambda>(k, v). map_set k v) es m) i = Some r \<Longrightarrow> (i, r) \<in> set es \<or> map_get m i = Some r"
  by (induction es arbitrary: m) (fastforce split: if_splits)+

lemma in_segment_orphan:
  assumes "in_segment (normalizeArrayToMapFunc (\<lambda>d. Some (inst_id d)) orphans) segmentId i"
  shows "\<exists>d\<in>set orphans. inst_id d = i \<and> inst_segmentId d = segmentId"
  using assms by (auto simp: in_segment_def map_get_normalize dest!: find_Some_set)

text \<open>A new rank belongs to an orphan, and is above the rank of a part of its segment by less than one or is negative.\<close>

definition rank_in_bounds :: "(PartId, DBPart) js_map \<Rightarrow> DBPartInstance \<Rightarrow> rank \<Rightarrow> bool" where
  "rank_in_bounds partsMap d r =
     ((\<exists>i p. map_get partsMap i = Some p \<and> part_segmentId p = inst_segmentId d
         \<and> part_rank p < r \<and> r < part_rank p + 1) \<or> r \<le> - 1)"

lemma new_rank_orphan:
  assumes "map_get (compileNewPartInstanceRanks partsMap segments before orphans) i = Some r"
  shows "\<exists>d\<in>set orphans. inst_id d = i \<and> rank_in_bounds partsMap d r"
proof -
  define om where "om = normalizeArrayToMapFunc (\<lambda>d. Some (inst_id d)) orphans"
  define st where "st = fold (follow_segment partsMap (compileOriginalPartInstanceOrderMap before orphans)) segments
     \<lparr>targetPartInstancesParentMap = [], partInstancesAtStartOfSegment = [], previousPartInstancesGroup = None\<rparr>"
  have ok: "groups_of_parts partsMap st" unfolding st_def by (rule groups_of_parts_target)
  from assms consider
      (start) segmentId ids where "(i, r) \<in> set (start_ranks (filter (in_segment om segmentId) ids))"
    | (follow) k g where "(k, g) \<in> set (targetPartInstancesParentMap st)"
        "(i, r) \<in> set (following_ranks (group_partRank g)
            (filter (in_segment om (group_segmentId g)) (group_partInstanceIds g)))"
    by (auto simp: compileNewPartInstanceRanks_def groupPartInstancesByThePartTheyFollow_def Let_def
        om_def [symmetric] st_def [symmetric] dest!: fold_set_in)
  then show ?thesis
  proof cases
    case start
    from start_ranks_bounds [OF start] have "in_segment om segmentId i" "r \<le> - 1" by auto
    with in_segment_orphan [of orphans segmentId i] show ?thesis by (auto simp: om_def rank_in_bounds_def)
  next
    case follow
    from following_ranks_bounds [OF follow(2)]
    have "in_segment om (group_segmentId g) i" "group_partRank g < r" "r < group_partRank g + 1" by auto
    moreover from ok follow(1) obtain j p where
      "map_get partsMap j = Some p" "group_partRank g = part_rank p" "group_segmentId g = part_segmentId p"
      by (force simp: groups_of_parts_def group_of_part_def)
    ultimately show ?thesis using in_segment_orphan [of orphans "group_segmentId g" i]
      unfolding om_def rank_in_bounds_def by metis
  qed
qed

section \<open>What the updates write\<close>

definition updates_of :: "PartInstanceId \<Rightarrow> (PartInstanceId \<times> (DBPartInstance \<Rightarrow> DBPartInstance)) list
    \<Rightarrow> DBPartInstance \<Rightarrow> DBPartInstance" where
  "updates_of i ops = fold (\<lambda>(j, f). if j = i then f else id) ops"

lemma updates_of_append: "updates_of i (xs @ ys) = updates_of i ys \<circ> updates_of i xs"
  by (simp add: updates_of_def)

lemma updates_of_other: "\<forall>(j, f)\<in>set ops. j \<noteq> i \<Longrightarrow> updates_of i ops = id"
  unfolding updates_of_def by (induction ops) auto

lemma updates_of_one:
  assumes "distinct (map fst ops)" "(i, f) \<in> set ops"
  shows "updates_of i ops = f"
  using assms
proof (induction ops)
  case Nil
  then show ?case by simp
next
  case (Cons op ops)
  show ?case
  proof (cases "op = (i, f)")
    case True
    with Cons.prems(1) have "\<forall>(j, g)\<in>set ops. j \<noteq> i" by force
    from updates_of_other [OF this] True show ?thesis by (simp add: updates_of_def)
  next
    case False
    with Cons.prems have mem: "(i, f) \<in> set ops" by simp
    then have "i \<in> fst ` set ops" by force
    with Cons.prems(1) have "fst op \<noteq> i" by auto
    with Cons.IH [OF _ mem] Cons.prems(1) show ?thesis by (simp add: updates_of_def case_prod_beta')
  qed
qed

lemma update_ones_get:
  assumes "\<And>k d. map_get c k = Some d \<Longrightarrow> inst_id d = k"
      and "\<forall>(j, f)\<in>set ops. \<forall>d. inst_id (f d) = inst_id d"
  shows "map_get (update_ones ops c) i = map_option (updates_of i ops) (map_get c i)"
  using assms
proof (induction ops arbitrary: c)
  case Nil
  then show ?case by (simp add: update_ones_def updates_of_def option.map_ident)
next
  case (Cons op ops)
  obtain j f where op: "op = (j, f)" by force
  define c' where "c' = update_docs (\<lambda>d. inst_id d = j) f c"
  have ids: "inst_id d = k" if "map_get c' k = Some d" for k d
    using that Cons.prems by (auto simp: c'_def get_update_docs op split: if_splits)
  have "map_get (update_ones (op # ops) c) i = map_get (update_ones ops c') i"
    by (simp add: update_ones_def op c'_def)
  also have "\<dots> = map_option (updates_of i ops) (map_get c' i)"
    using Cons.IH [OF ids] Cons.prems(2) by simp
  also have "map_get c' i = map_option (if j = i then f else id) (map_get c i)"
    using Cons.prems(1) by (cases "map_get c i") (auto simp: c'_def get_update_docs)
  finally show ?case by (simp add: updates_of_def op option.map_comp comp_def)
qed

lemma instance_update_id: "instance_update partsMap d = Some f \<Longrightarrow> inst_id (f e) = inst_id e"
  by (auto simp: instance_update_def split: option.splits if_splits)

lemma map_wf_new_ranks: "map_wf (compileNewPartInstanceRanks partsMap segments before orphans)"
proof -
  have "map_wf (fold (\<lambda>(i, r). map_set i r) es m)" if "map_wf m"
    for es :: "(PartInstanceId \<times> rank) list" and m
    using that by (induction es arbitrary: m) auto
  then show ?thesis by (simp add: compileNewPartInstanceRanks_def Let_def split: prod.split)
qed

text \<open>The part instance as the update leaves it; the ranks are those of the orphans.\<close>

definition synced_instance ::
  "(PartId, DBPart) js_map \<Rightarrow> (PartInstanceId, rank) js_map \<Rightarrow> DBPartInstance \<Rightarrow> DBPartInstance" where
  "synced_instance partsMap ranks d =
     (case map_get partsMap (part_id (inst_part d)) of
        Some part \<Rightarrow> d\<lparr>inst_part := (inst_part d)\<lparr>part_rank := part_rank part\<rparr>,
                       inst_orphaned := if inst_orphaned d = Some PartDeleted then None else inst_orphaned d\<rparr>
      | None \<Rightarrow> d\<lparr>inst_part := (inst_part d)\<lparr>part_rank := nullish (map_get ranks (inst_id d)) (part_rank (inst_part d))\<rparr>,
                   inst_orphaned := Some (nullish (inst_orphaned d) PartDeleted)\<rparr>)"

lemma instance_update_synced:
  "(case instance_update partsMap d of Some f \<Rightarrow> f d | None \<Rightarrow> d) =
     (case map_get partsMap (part_id (inst_part d)) of
        Some part \<Rightarrow> synced_instance partsMap ranks d
      | None \<Rightarrow> d\<lparr>inst_orphaned := Some (nullish (inst_orphaned d) PartDeleted)\<rparr>)"
  by (cases d; cases "inst_part d") (auto simp: instance_update_def synced_instance_def split: option.split)

definition found_instances :: "SegmentId list \<Rightarrow> (PartInstanceId, DBPartInstance) js_map \<Rightarrow> DBPartInstance list" where
  "found_instances changedSegmentIds c = js_sort (\<lambda>a b. takeCount b < takeCount a)
     (findFetch (\<lambda>d. \<not> inst_reset d \<and> inst_segmentId d \<in> set changedSegmentIds) c)"

lemma found_instances_facts:
  assumes wf: "map_wf c" and ids: "\<And>k d. map_get c k = Some d \<Longrightarrow> inst_id d = k"
  shows "distinct (map inst_id (found_instances changed c))"
    "d \<in> set (found_instances changed c) \<longleftrightarrow>
       map_get c (inst_id d) = Some d \<and> \<not> inst_reset d \<and> inst_segmentId d \<in> set changed"
proof -
  have "map inst_id (map snd c) = map fst c"
    using wf ids by (auto simp: wf_get_iff)
  with wf have d: "distinct (map inst_id (map snd c))" by (simp only: map_wf_def)
  then show "distinct (map inst_id (found_instances changed c))"
    by (simp add: found_instances_def distinct_map_js_sort findFetch_def distinct_map_filter del: map_map)
  show "d \<in> set (found_instances changed c) \<longleftrightarrow>
       map_get c (inst_id d) = Some d \<and> \<not> inst_reset d \<and> inst_segmentId d \<in> set changed"
  proof -
    have "d \<in> snd ` set c \<longleftrightarrow> map_get c (inst_id d) = Some d"
    proof
      assume "d \<in> snd ` set c"
      then obtain k where "map_get c k = Some d" using wf by (auto simp: wf_get_iff)
      with ids show "map_get c (inst_id d) = Some d" by metis
    next
      assume "map_get c (inst_id d) = Some d"
      from map_of_SomeD [OF this] show "d \<in> snd ` set c" by (rule rev_image_eqI) simp
    qed
    then show ?thesis by (auto simp: found_instances_def findFetch_def)
  qed
qed

lemma updateNormalPartInstanceRanksAndFindOrphans_eq:
  "updateNormalPartInstanceRanksAndFindOrphans partsMap changed c =
     (List.map_filter (\<lambda>d. map_option (Pair (inst_id d)) (instance_update partsMap d)) (found_instances changed c),
      filter (\<lambda>d. map_get partsMap (part_id (inst_part d)) = None) (found_instances changed c))"
  by (simp add: updateNormalPartInstanceRanksAndFindOrphans_def found_instances_def Let_def)

lemma distinct_map_filter_pairs:
  "distinct (map k xs) \<Longrightarrow> distinct (map fst (List.map_filter (\<lambda>x. map_option (Pair (k x)) (f x)) xs))"
proof -
  have "map fst (List.map_filter (\<lambda>x. map_option (Pair (k x)) (f x)) xs) = map k (filter (\<lambda>x. f x \<noteq> None) xs)"
    by (induction xs) (auto simp: List.map_filter_simps split: option.split)
  then show "distinct (map k xs) \<Longrightarrow> ?thesis" by (simp add: distinct_map_filter)
qed

lemma write_ops_of:
  assumes "distinct (map inst_id ds)" "d \<in> set ds"
  shows "updates_of (inst_id d) (List.map_filter (\<lambda>d. map_option (Pair (inst_id d)) (instance_update partsMap d)) ds) =
     (case instance_update partsMap d of Some f \<Rightarrow> f | None \<Rightarrow> id)"
proof (cases "instance_update partsMap d")
  case None
  have "e = d" if "e \<in> set ds" "inst_id e = inst_id d" for e
    using assms that by (auto simp: distinct_map inj_on_def)
  with None have "e \<in> set ds \<Longrightarrow> instance_update partsMap e = Some f \<Longrightarrow> inst_id e \<noteq> inst_id d" for e f
    by fastforce
  with None show ?thesis by (subst updates_of_other) (auto simp: set_map_filter)
next
  case (Some f)
  with assms(2) have "(inst_id d, f) \<in>
      set (List.map_filter (\<lambda>d. map_option (Pair (inst_id d)) (instance_update partsMap d)) ds)"
    by (force simp: set_map_filter)
  from updates_of_one [OF distinct_map_filter_pairs [OF assms(1)] this] Some show ?thesis by simp
qed

definition rank_ops :: "DBPartInstance list \<Rightarrow> (PartInstanceId, rank) js_map
    \<Rightarrow> (PartInstanceId \<times> (DBPartInstance \<Rightarrow> DBPartInstance)) list" where
  "rank_ops orphans ranks = map (\<lambda>(i, r). (i, inst_part_update (part_rank_update (\<lambda>_. r))))
     (filter (\<lambda>(i, r). map_option (\<lambda>d. part_rank (inst_part d))
        (map_get (normalizeArrayToMapFunc (\<lambda>d. Some (inst_id d)) orphans) i) \<noteq> Some r) ranks)"

lemma rank_ops_of:
  assumes ranks: "map_wf ranks" and ids: "distinct (map inst_id orphans)" and d: "d \<in> set orphans"
      and e: "inst_id e = inst_id d" "inst_part e = inst_part d"
  shows "updates_of (inst_id d) (rank_ops orphans ranks) e =
     e\<lparr>inst_part := (inst_part e)\<lparr>part_rank := nullish (map_get ranks (inst_id d)) (part_rank (inst_part e))\<rparr>\<rparr>"
proof -
  have "find (\<lambda>x. Some (inst_id x) = Some (inst_id d)) (rev orphans) = Some d"
  proof (cases "find (\<lambda>x. Some (inst_id x) = Some (inst_id d)) (rev orphans)")
    case None
    with d show ?thesis by (auto simp: find_None_set)
  next
    case (Some x)
    from find_Some_set [OF this] d ids have "x = d" by (auto simp: distinct_map inj_on_def)
    with Some show ?thesis by simp
  qed
  then have at: "map_get (normalizeArrayToMapFunc (\<lambda>d. Some (inst_id d)) orphans) (inst_id d) = Some d"
    by (simp only: map_get_normalize)
  have dist: "distinct (map fst (rank_ops orphans ranks))"
    using ranks by (simp add: rank_ops_def map_wf_def comp_def case_prod_beta' distinct_map_filter)
  show ?thesis
  proof (cases "\<exists>r. map_get ranks (inst_id d) = Some r \<and> r \<noteq> part_rank (inst_part d)")
    case True
    then obtain r where r: "map_get ranks (inst_id d) = Some r" "r \<noteq> part_rank (inst_part d)" by blast
    then have "(inst_id d, inst_part_update (part_rank_update (\<lambda>_. r))) \<in> set (rank_ops orphans ranks)"
      by (force simp: rank_ops_def at dest: map_of_SomeD)
    from updates_of_one [OF dist this] r show ?thesis by simp
  next
    case False
    then have "\<forall>(j, f)\<in>set (rank_ops orphans ranks). j \<noteq> inst_id d"
      using ranks by (auto simp: rank_ops_def at wf_get_iff)
    from updates_of_other [OF this] False e show ?thesis
      by (cases "map_get ranks (inst_id d)") auto
  qed
qed

lemma rank_ops_other:
  assumes "\<And>d. d \<in> set orphans \<Longrightarrow> inst_id d \<noteq> i" and "\<And>j r. map_get ranks j = Some r \<Longrightarrow> j \<in> inst_id ` set orphans"
      and "map_wf ranks"
  shows "updates_of i (rank_ops orphans ranks) = id"
proof (rule updates_of_other)
  have "i \<notin> inst_id ` set orphans" using assms(1) by auto
  then have "(i, r) \<notin> set ranks" for r using assms(2,3) by (auto simp: wf_get_iff)
  then show "\<forall>(j, f)\<in>set (rank_ops orphans ranks). j \<noteq> i" by (auto simp: rank_ops_def)
qed

lemma updatePartInstanceRanksAndOrphanedState_eq:
  "updatePartInstanceRanksAndOrphanedState ps changed before c =
     (let partsMap = fold (\<lambda>p. map_set (part_id p) p) ps [];
          found = found_instances changed c;
          orphans = filter (\<lambda>d. map_get partsMap (part_id (inst_part d)) = None) found
      in update_ones (List.map_filter (\<lambda>d. map_option (Pair (inst_id d)) (instance_update partsMap d)) found
           @ rank_ops orphans (compileNewPartInstanceRanks partsMap changed before orphans)) c)"
  by (simp add: updatePartInstanceRanksAndOrphanedState_def updateNormalPartInstanceRanksAndFindOrphans_eq
      rank_ops_def Let_def)

lemma parts_map_None:
  "map_get (fold (\<lambda>p. map_set (part_id p) p) ps m) k = None \<longleftrightarrow> map_get m k = None \<and> k \<notin> part_id ` set ps"
  by (induction ps arbitrary: m) auto

lemma parts_map_Some:
  "map_get (fold (\<lambda>p. map_set (part_id p) p) ps m) k = Some p \<Longrightarrow>
     (p \<in> set ps \<and> part_id p = k) \<or> map_get m k = Some p"
  by (induction ps arbitrary: m) (fastforce split: if_splits)+

text \<open>What the update makes of one part instance.\<close>

lemma updatePartInstanceRanks_get:
  assumes wf: "map_wf c" and ids: "\<And>k d. map_get c k = Some d \<Longrightarrow> inst_id d = k"
      and d: "map_get c i = Some d"
  shows "map_get (updatePartInstanceRanksAndOrphanedState ps changed before c) i = Some
    (if inst_reset d \<or> inst_segmentId d \<notin> set changed then d
     else let partsMap = fold (\<lambda>p. map_set (part_id p) p) ps []
          in synced_instance partsMap (compileNewPartInstanceRanks partsMap changed before
               (filter (\<lambda>d. map_get partsMap (part_id (inst_part d)) = None) (found_instances changed c))) d)"
proof -
  define pm where "pm = fold (\<lambda>p. map_set (part_id p) p) ps []"
  define found where "found = found_instances changed c"
  define orphans where "orphans = filter (\<lambda>d. map_get pm (part_id (inst_part d)) = None) found"
  define ranks where "ranks = compileNewPartInstanceRanks pm changed before orphans"
  define writes where "writes = List.map_filter (\<lambda>d. map_option (Pair (inst_id d)) (instance_update pm d)) found"
  note found = found_instances_facts [OF wf ids, where changed = changed, folded found_def]
  have i: "inst_id d = i" using ids [OF d] .
  have distinct_orphans: "distinct (map inst_id orphans)"
    using found(1) by (simp add: orphans_def distinct_map_filter)
  have in_found: "e \<in> set found \<Longrightarrow> inst_id e = i \<Longrightarrow> e = d" for e using found(2) [of e] d by simp
  have ranked: "map_get ranks j = Some r \<Longrightarrow> j \<in> inst_id ` set orphans" for j r
    using new_rank_orphan [of pm changed before orphans j r] by (auto simp: ranks_def)
  have wf_ranks: "map_wf ranks" by (simp add: ranks_def map_wf_new_ranks)
  have "\<forall>(j, f)\<in>set (writes @ rank_ops orphans ranks). \<forall>d. inst_id (f d) = inst_id d"
    by (auto simp: writes_def set_map_filter rank_ops_def dest: instance_update_id)
  from update_ones_get [OF ids this] d
  have "map_get (updatePartInstanceRanksAndOrphanedState ps changed before c) i =
      Some (updates_of i (rank_ops orphans ranks) (updates_of i writes d))"
    by (simp add: updatePartInstanceRanksAndOrphanedState_eq Let_def pm_def [symmetric] found_def [symmetric]
        orphans_def [symmetric] ranks_def [symmetric] writes_def [symmetric] updates_of_append)
  also have "updates_of i (rank_ops orphans ranks) (updates_of i writes d) =
      (if inst_reset d \<or> inst_segmentId d \<notin> set changed then d else synced_instance pm ranks d)"
  proof (cases "d \<in> set found")
    case False
    with in_found have ne: "e \<in> set found \<Longrightarrow> inst_id e \<noteq> i" for e by auto
    then have "e \<in> set orphans \<Longrightarrow> inst_id e \<noteq> i" for e by (simp add: orphans_def)
    from rank_ops_other [OF this ranked wf_ranks]
    have "updates_of i (rank_ops orphans ranks) = id" .
    moreover have "updates_of i writes = id"
      using ne by (intro updates_of_other) (auto simp: writes_def set_map_filter)
    moreover have "inst_reset d \<or> inst_segmentId d \<notin> set changed" using False found(2) [of d] d i by auto
    ultimately show ?thesis by simp
  next
    case True
    then have changed: "\<not> inst_reset d" "inst_segmentId d \<in> set changed" using found(2) by auto
    have w: "updates_of i writes d = (case instance_update pm d of Some f \<Rightarrow> f d | None \<Rightarrow> d)"
      using write_ops_of [OF found(1) True, of pm] by (simp add: writes_def i split: option.split)
    show ?thesis
    proof (cases "map_get pm (part_id (inst_part d))")
      case None
      with True have "d \<in> set orphans" by (simp add: orphans_def)
      have w': "updates_of i writes d = d\<lparr>inst_orphaned := Some (nullish (inst_orphaned d) PartDeleted)\<rparr>"
        using w instance_update_synced [where partsMap = pm and d = d] None by simp
      from rank_ops_of [OF wf_ranks distinct_orphans \<open>d \<in> set orphans\<close>, of "updates_of i writes d"] None changed
      show ?thesis by (simp add: w' i synced_instance_def)
    next
      case (Some p)
      have "inst_id e \<noteq> i" if "e \<in> set orphans" for e
        using that in_found [of e] Some by (auto simp: orphans_def)
      from rank_ops_other [OF this ranked wf_ranks]
      have "updates_of i (rank_ops orphans ranks) = id" .
      moreover have "updates_of i writes d = synced_instance pm ranks d"
        using w instance_update_synced [where partsMap = pm and d = d and ranks = ranks] Some by simp
      ultimately show ?thesis using changed by simp
    qed
  qed
  finally show ?thesis by (simp add: pm_def orphans_def found_def ranks_def Let_def)
qed

section \<open>The properties\<close>

text \<open>
  C20. After \<open>updatePartInstanceRanksAndOrphanedState\<close> every part instance of the changed segments that is not
  reset agrees with the ingested parts: if its part is there it has the rank of the part and is not marked
  as part-deleted, otherwise it is orphaned, and its rank is the old one or lies just above a part of its segment
  or below zero. The part instances that are reset or belong to other segments are as before.
\<close>

theorem instances_agree_with_parts:
  assumes wf: "map_wf c" and ids: "\<And>k d. map_get c k = Some d \<Longrightarrow> inst_id d = k"
      and d: "map_get c i = Some d"
  shows "\<exists>d'. map_get (updatePartInstanceRanksAndOrphanedState ps changed before c) i = Some d'
    \<and> (if inst_reset d \<or> inst_segmentId d \<notin> set changed then d' = d
       else if \<exists>p\<in>set ps. part_id p = part_id (inst_part d)
       then (\<exists>p\<in>set ps. part_id p = part_id (inst_part d) \<and> part_rank (inst_part d') = part_rank p)
         \<and> inst_orphaned d' = (if inst_orphaned d = Some PartDeleted then None else inst_orphaned d)
       else inst_orphaned d' = Some (nullish (inst_orphaned d) PartDeleted)
         \<and> (part_rank (inst_part d') = part_rank (inst_part d) \<or> part_rank (inst_part d') \<le> - 1
           \<or> (\<exists>p\<in>set ps. part_segmentId p = inst_segmentId d
                \<and> part_rank p < part_rank (inst_part d') \<and> part_rank (inst_part d') < part_rank p + 1)))"
proof -
  define pm where "pm = fold (\<lambda>p. map_set (part_id p) p) ps []"
  define orphans where "orphans = filter (\<lambda>d. map_get pm (part_id (inst_part d)) = None) (found_instances changed c)"
  define ranks where "ranks = compileNewPartInstanceRanks pm changed before orphans"
  have pm_Some: "p \<in> set ps \<and> part_id p = k" if "map_get pm k = Some p" for p k
    using that parts_map_Some [of ps "[]" k p] by (simp add: pm_def)
  have pm_None: "map_get pm k = None \<longleftrightarrow> \<not> (\<exists>p\<in>set ps. part_id p = k)" for k
    by (auto simp: pm_def parts_map_None)
  have id: "inst_id d = i" using ids [OF d] .
  have bounds: "r \<le> - 1 \<or> (\<exists>p\<in>set ps. part_segmentId p = inst_segmentId d \<and> part_rank p < r \<and> r < part_rank p + 1)"
    if r: "map_get ranks i = Some r" for r
  proof -
    from new_rank_orphan [OF r [unfolded ranks_def]]
    obtain e where e: "e \<in> set orphans" "inst_id e = i" "rank_in_bounds pm e r" by blast
    from e(1) have "map_get c (inst_id e) = Some e"
      using found_instances_facts(2) [OF wf ids] by (auto simp: orphans_def)
    with e(2) d have "e = d" by simp
    with e(3) pm_Some show ?thesis unfolding rank_in_bounds_def by blast
  qed
  note get = updatePartInstanceRanks_get [OF wf ids d, of ps changed before, unfolded Let_def,
      folded pm_def, folded orphans_def, folded ranks_def]
  show ?thesis
  proof (cases "map_get pm (part_id (inst_part d))")
    case (Some p)
    with pm_Some [OF Some] get show ?thesis by (auto simp: synced_instance_def)
  next
    case None
    with bounds get pm_None [of "part_id (inst_part d)"] show ?thesis
      by (cases "map_get ranks i") (auto simp: synced_instance_def id)
  qed
qed

text \<open>
  An ad-lib between two parts whose first part is now deleted, a part with a new rank and a part instance whose
  part is back. The parts were p1 (rank 0), p2 (rank 1) and p3 (rank 2); p2 was deleted.
\<close>

definition ex_orphan :: "PartInstanceId \<Rightarrow> PartId \<Rightarrow> rank \<Rightarrow> part_orphaned option \<Rightarrow> DBPartInstance" where
  "ex_orphan i p r orphaned = (sample_part_instance i (sample_part p r ''s1''))\<lparr>inst_orphaned := orphaned\<rparr>"

definition ex_before :: "(SegmentId, BeforePartMapItem list) js_map" where
  "ex_before = [(''s1'', [\<lparr>before_id = ''p1'', before_rank = 0\<rparr>, \<lparr>before_id = ''p2'', before_rank = 1\<rparr>,
     \<lparr>before_id = ''p3'', before_rank = 2\<rparr>])]"

definition ex_rank_parts :: "DBPart list" where
  "ex_rank_parts = [sample_part ''p1'' 0 ''s1'', sample_part ''p3'' 1 ''s1'']"

definition ex_rank_db :: "(PartInstanceId, DBPartInstance) js_map" where
  "ex_rank_db = [(''i1'', ex_orphan ''i1'' ''p1'' 0 (Some PartDeleted)), (''i2'', ex_orphan ''i2'' ''p2'' 1 None),
     (''ia'', ex_orphan ''ia'' ''adlib'' (3/2) (Some AdlibPart)), (''i3'', ex_orphan ''i3'' ''p3'' 2 None)]"

lemma instances_agree_with_parts_witness:
  "map_wf ex_rank_db \<and> map (\<lambda>(i, d). (i, part_rank (inst_part d), inst_orphaned d))
     (updatePartInstanceRanksAndOrphanedState ex_rank_parts [''s1''] ex_before ex_rank_db) =
       [(''i1'', 0, None), (''i2'', 1/3, Some PartDeleted), (''ia'', 2/3, Some AdlibPart), (''i3'', 1, None)]
   \<and> (\<exists>d'. map_get (updatePartInstanceRanksAndOrphanedState ex_rank_parts [''s1''] ex_before ex_rank_db) ''ia'' = Some d'
        \<and> inst_orphaned d' = Some AdlibPart)"
proof -
  have wf: "map_wf ex_rank_db" by code_simp
  have ids: "inst_id d = k" if "map_get ex_rank_db k = Some d" for k d
    using that by (auto simp: ex_rank_db_def ex_orphan_def sample_part_instance_def split: if_splits)
  define d where "d = ex_orphan ''ia'' ''adlib'' (3/2) (Some AdlibPart)"
  have d: "map_get ex_rank_db ''ia'' = Some d" unfolding d_def by code_simp
  have facts: "\<not> inst_reset d" "inst_segmentId d \<in> set [''s1'']" "inst_orphaned d = Some AdlibPart"
      "\<not> (\<exists>p\<in>set ex_rank_parts. part_id p = part_id (inst_part d))"
    unfolding d_def by code_simp+
  have eval: "map (\<lambda>(i, d). (i, part_rank (inst_part d), inst_orphaned d))
     (updatePartInstanceRanksAndOrphanedState ex_rank_parts [''s1''] ex_before ex_rank_db) =
       [(''i1'', 0, None), (''i2'', 1/3, Some PartDeleted), (''ia'', 2/3, Some AdlibPart), (''i3'', 1, None)]"
    by code_simp
  from instances_agree_with_parts [OF wf ids d, of ex_rank_parts "[''s1'']" ex_before] facts wf eval
  show ?thesis by auto
qed

end
