(* ===== verification/Orphan_Places.thy ===== *)
theory Orphan_Places
  imports Instance_Ranks
begin

text \<open>
  The interpolation of \<open>compileNewPartInstanceRanks\<close>: an orphaned part instance that stood between two parts
  before an ingest operation stands within one rank after the first of them, when that part still exists.
\<close>

section \<open>The groups before\<close>

lemma in_instance_ids_where:
  assumes "distinct (map inst_id ds)" "d \<in> set ds"
  shows "inst_id d \<in> set (instance_ids_where q ds) \<longleftrightarrow> q (part_rank (inst_part d))"
  using assms by (auto simp: instance_ids_where_def distinct_map inj_on_def)

lemma between_parts_all:
  assumes "sorted (map before_rank (prev # infos))" "g \<in> set (between_parts prev infos ds)"
  shows "afterPartId g \<in> Some ` before_id ` set (prev # infos)"
    "\<exists>q. afterPartInstanceIds g = instance_ids_where q ds \<and> (\<forall>r. q r \<longrightarrow> before_rank prev \<le> r)"
  using assms
proof (induction prev infos ds rule: between_parts.induct)
  case (1 prev ds)
  {
    case 1 then show ?case by simp
  next
    case 2 then show ?case by auto
  }
next
  case (2 prev info infos ds)
  {
    case 1 with 2(1) show ?case by fastforce
  next
    case 2
    show ?case
    proof (cases "g \<in> set (between_parts info infos ds)")
      case True
      with "2.IH"(2) 2 obtain q where "afterPartInstanceIds g = instance_ids_where q ds" "\<forall>r. q r \<longrightarrow> before_rank info \<le> r"
        by auto
      moreover have "before_rank prev \<le> before_rank info" using 2 by simp
      ultimately show ?thesis by fastforce
    next
      case False
      with 2 show ?thesis by auto
    qed
  }
qed

definition ends_before :: "rank \<Rightarrow> BeforePartMapItem list \<Rightarrow> bool" where
  "ends_before r infos = (infos = [] \<or> r < before_rank (hd infos))"

lemma between_parts_split:
  assumes "prev # infos = xs @ info # ys" "sorted (map before_rank (prev # infos))"
  shows "\<exists>gs1 g gs2. between_parts prev infos ds = gs1 @ g # gs2
    \<and> afterPartId g = Some (before_id info)
    \<and> afterPartInstanceIds g = instance_ids_where (\<lambda>r. before_rank info \<le> r \<and> ends_before r ys) ds
    \<and> (\<forall>h\<in>set gs1. \<exists>q. afterPartInstanceIds h = instance_ids_where q ds \<and> (\<forall>r. q r \<longrightarrow> r < before_rank info))
    \<and> (\<forall>h\<in>set gs2. afterPartId h \<in> Some ` before_id ` set ys
         \<and> (\<exists>q. afterPartInstanceIds h = instance_ids_where q ds \<and> (\<forall>r. q r \<longrightarrow> \<not> ends_before r ys)))"
  using assms
proof (induction xs arbitrary: prev infos)
  case Nil
  show ?case
  proof (cases ys)
    case [simp]: Nil
    from Nil.prems show ?thesis
      by (intro exI [of _ "[]"] exI [of _ "hd (between_parts prev infos ds)"]) (auto simp: ends_before_def)
  next
    case (Cons y ys')
    define g where "g = \<lparr>afterPartId = Some (before_id info),
      afterPartInstanceIds = instance_ids_where (\<lambda>r. before_rank info \<le> r \<and> r < before_rank y) ds\<rparr>"
    have "between_parts prev infos ds = [] @ g # between_parts y ys' ds"
      using Nil.prems Cons by (simp add: g_def)
    moreover have "sorted (map before_rank (y # ys'))" using Nil.prems Cons by simp
    note rest = between_parts_all [OF this]
    have "\<forall>h\<in>set (between_parts y ys' ds). afterPartId h \<in> Some ` before_id ` set ys
        \<and> (\<exists>q. afterPartInstanceIds h = instance_ids_where q ds \<and> (\<forall>r. q r \<longrightarrow> \<not> ends_before r ys))"
      using rest by (simp add: Cons ends_before_def not_less)
    ultimately show ?thesis
      by (intro exI [of _ "[]"] exI [of _ g] exI [of _ "between_parts y ys' ds"])
        (auto simp: g_def ends_before_def Cons)
  qed
next
  case (Cons x xs)
  obtain i infos' where infos: "infos = i # infos'" "i # infos' = xs @ info # ys"
    using Cons.prems(1) by (cases infos) auto
  have sorted: "sorted (map before_rank (i # infos'))" using Cons.prems(2) infos(1) by simp
  have "info \<in> set (i # infos')" unfolding infos(2) by simp
  with sorted have le: "before_rank i \<le> before_rank info" by auto
  define h where "h = \<lparr>afterPartId = Some (before_id prev),
      afterPartInstanceIds = instance_ids_where (\<lambda>r. before_rank prev \<le> r \<and> r < before_rank i) ds\<rparr>"
  have "\<exists>q. afterPartInstanceIds h = instance_ids_where q ds \<and> (\<forall>r. q r \<longrightarrow> r < before_rank info)"
    using le by (intro exI [of _ "\<lambda>r. before_rank prev \<le> r \<and> r < before_rank i"]) (auto simp: h_def)
  moreover have "between_parts prev infos ds = h # between_parts i infos' ds" by (simp add: infos(1) h_def)
  moreover from Cons.IH [OF infos(2) sorted] obtain gs1 g gs2 where
    "between_parts i infos' ds = gs1 @ g # gs2"
    "afterPartId g = Some (before_id info)"
    "afterPartInstanceIds g = instance_ids_where (\<lambda>r. before_rank info \<le> r \<and> ends_before r ys) ds"
    "\<forall>h\<in>set gs1. \<exists>q. afterPartInstanceIds h = instance_ids_where q ds \<and> (\<forall>r. q r \<longrightarrow> r < before_rank info)"
    "\<forall>h\<in>set gs2. afterPartId h \<in> Some ` before_id ` set ys
         \<and> (\<exists>q. afterPartInstanceIds h = instance_ids_where q ds \<and> (\<forall>r. q r \<longrightarrow> \<not> ends_before r ys))"
    by (elim exE conjE)
  ultimately show ?case by (intro exI [of _ "h # gs1"] exI [of _ g] exI [of _ gs2]) auto
qed

lemma original_order_split:
  assumes ds: "distinct (map inst_id ds)" "d \<in> set ds"
      and infos: "infos = xs @ info # ys" "sorted (map before_rank infos)" "distinct (map before_id infos)"
      and between: "before_rank info \<le> part_rank (inst_part d)" "ends_before (part_rank (inst_part d)) ys"
  shows "\<exists>gs1 g gs2. original_order infos ds = gs1 @ g # gs2
    \<and> afterPartId g = Some (before_id info) \<and> inst_id d \<in> set (afterPartInstanceIds g)
    \<and> (\<forall>h\<in>set gs1 \<union> set gs2. inst_id d \<notin> set (afterPartInstanceIds h))
    \<and> (\<forall>h\<in>set gs2. afterPartId h \<noteq> Some (before_id info))"
proof -
  define sds where "sds = js_sort (\<lambda>a b. part_rank (inst_part b) < part_rank (inst_part a)) ds"
  have sds: "distinct (map inst_id sds)" "d \<in> set sds"
    using ds by (simp_all add: sds_def distinct_map_js_sort)
  note ids = in_instance_ids_where [OF sds]
  have "infos \<noteq> []" using infos(1) by simp
  then obtain first infos' where first: "infos = first # infos'" by (meson list.exhaust)
  have "before_rank first \<le> before_rank info" using infos(1,2) first by (cases xs) auto
  then have start: "inst_id d \<notin> set (instance_ids_where (\<lambda>r. r < before_rank first) sds)"
    using between(1) by (simp add: ids)
  have split: "first # infos = (first # xs) @ info # ys" using infos(1) by simp
  have "sorted (map before_rank (first # infos))" using infos(2) by (simp add: first)
  from between_parts_split [OF split this, of sds] obtain gs1 g gs2 where gs:
    "between_parts first infos sds = gs1 @ g # gs2"
    "afterPartId g = Some (before_id info)"
    "afterPartInstanceIds g = instance_ids_where (\<lambda>r. before_rank info \<le> r \<and> ends_before r ys) sds"
    "\<forall>h\<in>set gs1. \<exists>q. afterPartInstanceIds h = instance_ids_where q sds \<and> (\<forall>r. q r \<longrightarrow> r < before_rank info)"
    "\<forall>h\<in>set gs2. afterPartId h \<in> Some ` before_id ` set ys
         \<and> (\<exists>q. afterPartInstanceIds h = instance_ids_where q sds \<and> (\<forall>r. q r \<longrightarrow> \<not> ends_before r ys))"
    by (elim exE conjE)
  define g0 where "g0 = \<lparr>afterPartId = None, afterPartInstanceIds = instance_ids_where (\<lambda>r. r < before_rank first) sds\<rparr>"
  have "original_order infos ds = (g0 # gs1) @ g # gs2"
    using ds(2) first gs(1) by (auto simp: original_order_def sds_def [symmetric] g0_def)
  moreover have "inst_id d \<in> set (afterPartInstanceIds g)" using between by (simp add: gs(3) ids)
  moreover have "inst_id d \<notin> set (afterPartInstanceIds h)" if h: "h \<in> set (g0 # gs1)" for h
  proof (cases "h = g0")
    case True
    with start show ?thesis by (simp add: g0_def)
  next
    case False
    with h gs(4) obtain q where "afterPartInstanceIds h = instance_ids_where q sds" "\<forall>r. q r \<longrightarrow> r < before_rank info"
      by auto
    with between(1) show ?thesis by (auto simp: ids not_less [symmetric])
  qed
  moreover have "inst_id d \<notin> set (afterPartInstanceIds h)" if h: "h \<in> set gs2" for h
    using gs(5) h between(2) by (auto simp: ids)
  moreover have "afterPartId h \<noteq> Some (before_id info)" if h: "h \<in> set gs2" for h
  proof -
    from gs(5) h have "afterPartId h \<in> Some ` before_id ` set ys" by blast
    with infos(1,3) show ?thesis by auto
  qed
  ultimately show ?thesis using gs(2) by (intro exI [of _ "g0 # gs1"] exI [of _ g] exI [of _ gs2]) auto
qed

section \<open>The groups now\<close>

definition absent :: "PartInstanceId \<Rightarrow> follow_state \<Rightarrow> bool" where
  "absent i st =
     ((\<forall>g\<in>snd ` set (targetPartInstancesParentMap st). i \<notin> set (group_partInstanceIds g))
      \<and> (\<forall>ids\<in>snd ` set (partInstancesAtStartOfSegment st). i \<notin> set ids))"

text \<open>The instance stands in the group of the part and nowhere else.\<close>

definition placed :: "PartInstanceId \<Rightarrow> DBPart \<Rightarrow> follow_state \<Rightarrow> bool" where
  "placed i p st =
     ((\<exists>g. map_get (targetPartInstancesParentMap st) (part_id p) = Some g \<and> i \<in> set (group_partInstanceIds g))
      \<and> (\<forall>g\<in>snd ` set (targetPartInstancesParentMap st). i \<in> set (group_partInstanceIds g)
           \<longrightarrow> group_partRank g = part_rank p \<and> group_segmentId g = part_segmentId p)
      \<and> (\<forall>ids\<in>snd ` set (partInstancesAtStartOfSegment st). i \<notin> set ids))"

lemma absent_group:
  assumes "absent i st" "i \<notin> set (afterPartInstanceIds g)"
  shows "absent i (follow_group partsMap segmentId g st)"
proof -
  have start: "i \<notin> set (nullish (map_get (partInstancesAtStartOfSegment st) segmentId) [])"
    using assms(1) by (cases "map_get (partInstancesAtStartOfSegment st) segmentId")
      (force simp: absent_def dest: map_of_SomeD)+
  have target: "i \<notin> set (group_partInstanceIds h)" if "map_get (targetPartInstancesParentMap st) k = Some h" for h k
    using assms(1) map_of_SomeD [OF that] by (force simp: absent_def)
  show ?thesis
    using assms start target unfolding follow_group_def absent_def
    by (auto split: option.split dest!: map_set_in) (force+)?
qed

lemma absent_groups:
  "absent i st \<Longrightarrow> \<forall>g\<in>set groups. i \<notin> set (afterPartInstanceIds g)
     \<Longrightarrow> absent i (fold (follow_group partsMap segmentId) groups st)"
  by (induction groups arbitrary: st) (simp_all add: absent_group)

lemma placed_at_group:
  assumes "absent i st" "i \<in> set (afterPartInstanceIds g)"
      and "truthy_str (afterPartId g)" "map_get partsMap (the (afterPartId g)) = Some p"
  shows "placed i p (follow_group partsMap segmentId g st)"
  using assms by (auto simp: placed_def follow_group_def absent_def dest!: map_set_in)

lemma placed_group:
  assumes placed: "placed i p st" and g: "i \<notin> set (afterPartInstanceIds g)" "afterPartId g \<noteq> Some (part_id p)"
      and keyed: "\<And>k q. map_get partsMap k = Some q \<Longrightarrow> part_id q = k"
  shows "placed i p (follow_group partsMap segmentId g st)"
proof -
  have start: "i \<notin> set (nullish (map_get (partInstancesAtStartOfSegment st) segmentId) [])"
    using placed by (cases "map_get (partInstancesAtStartOfSegment st) segmentId")
      (force simp: placed_def dest: map_of_SomeD)+
  show ?thesis
  proof (cases "\<not> truthy_str (afterPartId g)")
    case True
    with placed g(1) show ?thesis by (auto simp: follow_group_def placed_def dest!: map_set_in)
  next
    case truthy: False
    show ?thesis
    proof (cases "map_get partsMap (the (afterPartId g))")
      case (Some q)
      have "part_id q \<noteq> part_id p" using keyed [OF Some] g(2) truthy by (cases "afterPartId g") auto
      with Some truthy placed g(1) show ?thesis
        by (auto simp: follow_group_def placed_def dest!: map_set_in)
    next
      case None
      show ?thesis
      proof (cases "previousPartInstancesGroup st")
        case prev: None
        with None truthy placed g(1) start show ?thesis
          by (auto simp: follow_group_def placed_def dest!: map_set_in)
      next
        case (Some k)
        show ?thesis
        proof (cases "map_get (targetPartInstancesParentMap st) k")
          case target: None
          with None truthy placed Some show ?thesis by (simp add: follow_group_def)
        next
          case target: (Some h)
          have "h \<in> snd ` set (targetPartInstancesParentMap st)" using map_of_SomeD [OF target] by force
          with None truthy placed Some target g(1) show ?thesis
            by (auto simp: follow_group_def placed_def dest!: map_set_in)
        qed
      qed
    qed
  qed
qed

lemma placed_groups:
  assumes "placed i p st" "\<And>k q. map_get partsMap k = Some q \<Longrightarrow> part_id q = k"
      and "\<forall>g\<in>set groups. i \<notin> set (afterPartInstanceIds g) \<and> afterPartId g \<noteq> Some (part_id p)"
  shows "placed i p (fold (follow_group partsMap segmentId) groups st)"
  using assms by (induction groups arbitrary: st) (simp_all add: placed_group)

section \<open>Other segments\<close>

lemma between_parts_ids:
  "g \<in> set (between_parts prev infos ds) \<Longrightarrow>
     set (afterPartInstanceIds g) \<subseteq> inst_id ` set ds \<and> afterPartId g \<in> Some ` before_id ` set (prev # infos)"
  by (induction prev infos ds rule: between_parts.induct) (auto simp: instance_ids_where_def)

lemma original_order_ids:
  "g \<in> set (original_order infos ds) \<Longrightarrow> set (afterPartInstanceIds g) \<subseteq> inst_id ` set ds
     \<and> (afterPartId g = None \<or> afterPartId g \<in> Some ` before_id ` set infos)"
proof (cases infos)
  case Nil
  assume "g \<in> set (original_order infos ds)"
  with Nil show ?thesis by (auto simp: original_order_def Let_def split: if_splits)
next
  case (Cons first rest)
  define sds where "sds = js_sort (\<lambda>a b. part_rank (inst_part b) < part_rank (inst_part a)) ds"
  have sds: "set sds = set ds" by (simp add: sds_def)
  assume "g \<in> set (original_order infos ds)"
  then consider "g = \<lparr>afterPartId = None, afterPartInstanceIds = instance_ids_where (\<lambda>r. r < before_rank first) sds\<rparr>"
    | "g \<in> set (between_parts first infos sds)"
    using Cons by (auto simp: original_order_def sds_def [symmetric] split: if_splits)
  then show ?thesis
  proof cases
    case 1
    then show ?thesis by (auto simp: instance_ids_where_def sds)
  next
    case 2
    from between_parts_ids [OF this] show ?thesis by (auto simp: sds Cons)
  qed
qed

lemma original_order_map_get:
  assumes "map_wf before"
  shows "map_get (compileOriginalPartInstanceOrderMap before orphans) s =
    map_option (\<lambda>infos. original_order infos (filter (\<lambda>d. inst_segmentId d = s) orphans)) (map_get before s)"
proof -
  define f where "f s infos = original_order infos (filter (\<lambda>d. inst_segmentId d = s) orphans)"
    for s and infos :: "BeforePartMapItem list"
  have grouped: "nullish (map_get (groupByToMapFunc (\<lambda>d. Some (inst_segmentId d)) orphans) s) [] =
      filter (\<lambda>d. inst_segmentId d = s) orphans" for s
    using groups_get_groupBy [of "\<lambda>d. Some (inst_segmentId d)" orphans s] by (simp add: groups_get_def)
  have "compileOriginalPartInstanceOrderMap before orphans = jm.put_all (map (\<lambda>(s, infos). (s, f s infos)) before) []"
    by (simp add: compileOriginalPartInstanceOrderMap_def jm.put_all_def grouped f_def [symmetric] fold_map comp_def
        case_prod_beta')
  moreover have "map_wf (map (\<lambda>(s, infos). (s, f s infos)) before)"
    using assms by (simp add: map_wf_def comp_def case_prod_beta')
  ultimately have "map_get (compileOriginalPartInstanceOrderMap before orphans) s =
      map_get (map (\<lambda>(s, infos). (s, f s infos)) before) s"
    by (simp add: jm.get_put_all map_of_rev_wf split: option.split)
  also have "\<dots> = map_option (f s) (map_get before s)"
    by (induction before) auto
  finally show ?thesis by (simp add: f_def [abs_def])
qed

lemma following_ranks_has: "i \<in> set ids \<Longrightarrow> \<exists>r. (i, r) \<in> set (following_ranks q ids)"
proof -
  assume "i \<in> set ids"
  then obtain k where "k < length ids" "ids ! k = i" by (auto simp: in_set_conv_nth)
  then have "(k, i) \<in> set (enumerate 0 ids)" by (simp add: in_set_enumerate_eq)
  then have "(i, q + 1 / of_nat (length ids + 1) * of_nat (k + 1)) \<in> set (following_ranks q ids)"
    unfolding following_ranks_def Let_def by (force simp del: of_nat_Suc of_nat_add)
  then show ?thesis by blast
qed

lemma fold_set_found:
  assumes "(i, r) \<in> set es"
  shows "\<exists>r'. map_get (fold (\<lambda>(k, v). map_set k v) es []) i = Some r' \<and> (i, r') \<in> set es"
proof -
  have "map_get (fold (\<lambda>(k, v). map_set k v) es []) i = map_get (rev es) i"
    using jm.get_put_all [of "[]" es i] by (simp add: jm.put_all_def split: option.split)
  moreover have "map_get (rev es) i \<noteq> None"
    using assms weak_map_of_SomeI [of i r "rev es"] by auto
  ultimately obtain r' where "map_get (fold (\<lambda>(k, v). map_set k v) es []) i = Some r'" "map_get (rev es) i = Some r'"
    by auto
  with map_of_SomeD [of "rev es" i r'] show ?thesis by auto
qed

section \<open>The place of an orphan\<close>

lemma absent_segments:
  assumes "absent i st"
      and "\<And>s groups g. s \<in> set segs \<Longrightarrow> map_get m s = Some groups \<Longrightarrow> g \<in> set groups \<Longrightarrow> i \<notin> set (afterPartInstanceIds g)"
  shows "absent i (fold (follow_segment partsMap m) segs st)"
  using assms
proof (induction segs arbitrary: st)
  case (Cons s segs)
  have "absent i (st\<lparr>previousPartInstancesGroup := None\<rparr>)" using Cons.prems(1) by (simp add: absent_def)
  then have "absent i (follow_segment partsMap m s st)"
    using Cons.prems by (auto simp: follow_segment_def intro!: absent_groups split: option.split)
  with Cons show ?case by auto
qed simp

lemma placed_segments:
  assumes "placed i p st" and keyed: "\<And>k q. map_get partsMap k = Some q \<Longrightarrow> part_id q = k"
      and "\<And>s groups g. s \<in> set segs \<Longrightarrow> map_get m s = Some groups \<Longrightarrow> g \<in> set groups
         \<Longrightarrow> i \<notin> set (afterPartInstanceIds g) \<and> afterPartId g \<noteq> Some (part_id p)"
  shows "placed i p (fold (follow_segment partsMap m) segs st)"
  using assms(1,3)
proof (induction segs arbitrary: st)
  case (Cons s segs)
  have "placed i p (st\<lparr>previousPartInstancesGroup := None\<rparr>)" using Cons.prems(1) by (simp add: placed_def)
  then have "placed i p (follow_segment partsMap m s st)"
    using Cons.prems by (auto simp: follow_segment_def intro!: placed_groups [OF _ keyed] split: option.split)
  with Cons show ?case by auto
qed simp

lemma placed_rank:
  assumes placed: "placed i p (fold (follow_segment partsMap (compileOriginalPartInstanceOrderMap before orphans)) segs
      \<lparr>targetPartInstancesParentMap = [], partInstancesAtStartOfSegment = [], previousPartInstancesGroup = None\<rparr>)"
      and segment: "in_segment (normalizeArrayToMapFunc (\<lambda>d. Some (inst_id d)) orphans) (part_segmentId p) i"
  shows "\<exists>r. map_get (compileNewPartInstanceRanks partsMap segs before orphans) i = Some r
    \<and> part_rank p < r \<and> r < part_rank p + 1"
proof -
  define om where "om = normalizeArrayToMapFunc (\<lambda>d. Some (inst_id d)) orphans"
  define st where "st = fold (follow_segment partsMap (compileOriginalPartInstanceOrderMap before orphans)) segs
      \<lparr>targetPartInstancesParentMap = [], partInstancesAtStartOfSegment = [], previousPartInstancesGroup = None\<rparr>"
  define starts where "starts = concat (map (\<lambda>(s, ids). start_ranks (filter (in_segment om s) ids))
      (partInstancesAtStartOfSegment st))"
  define follows where "follows = concat (map (\<lambda>(_, g). following_ranks (group_partRank g)
      (filter (in_segment om (group_segmentId g)) (group_partInstanceIds g))) (targetPartInstancesParentMap st))"
  note placed = placed [folded st_def]
  have result: "compileNewPartInstanceRanks partsMap segs before orphans = fold (\<lambda>(i, r). map_set i r) (starts @ follows) []"
    by (simp add: compileNewPartInstanceRanks_def groupPartInstancesByThePartTheyFollow_def Let_def
        om_def [symmetric] st_def [symmetric] starts_def follows_def)
  obtain g where g: "(part_id p, g) \<in> set (targetPartInstancesParentMap st)" "i \<in> set (group_partInstanceIds g)"
    using placed by (auto simp: placed_def dest: map_of_SomeD)
  have "group_segmentId g = part_segmentId p" using placed g by (force simp: placed_def)
  with segment g(2) obtain r where "(i, r) \<in> set (following_ranks (group_partRank g)
      (filter (in_segment om (group_segmentId g)) (group_partInstanceIds g)))"
    using following_ranks_has [of i "filter (in_segment om (group_segmentId g)) (group_partInstanceIds g)"]
    by (auto simp: om_def)
  with g(1) have "(i, r) \<in> set (starts @ follows)" by (force simp: follows_def)
  from fold_set_found [OF this] obtain r' where
    r': "map_get (compileNewPartInstanceRanks partsMap segs before orphans) i = Some r'" "(i, r') \<in> set (starts @ follows)"
    unfolding result by blast
  have "(i, r') \<notin> set starts"
  proof
    assume "(i, r') \<in> set starts"
    then obtain s ids where "(s, ids) \<in> set (partInstancesAtStartOfSegment st)"
        "(i, r') \<in> set (start_ranks (filter (in_segment om s) ids))"
      by (auto simp: starts_def)
    with start_ranks_bounds(1) [of i r'] placed show False by (force simp: placed_def)
  qed
  with r'(2) obtain k h where h: "(k, h) \<in> set (targetPartInstancesParentMap st)"
      "(i, r') \<in> set (following_ranks (group_partRank h)
         (filter (in_segment om (group_segmentId h)) (group_partInstanceIds h)))"
    by (auto simp: follows_def)
  from following_ranks_bounds [OF h(2)] have in_h: "i \<in> set (group_partInstanceIds h)"
    and "group_partRank h < r'" "r' < group_partRank h + 1" by auto
  moreover have "group_partRank h = part_rank p" using placed h(1) in_h by (force simp: placed_def)
  ultimately show ?thesis using r'(1) by auto
qed

lemma orphan_in_segment:
  assumes "distinct (map inst_id orphans)" "d \<in> set orphans"
  shows "in_segment (normalizeArrayToMapFunc (\<lambda>d. Some (inst_id d)) orphans) (inst_segmentId d) (inst_id d)"
proof -
  have "map_get (normalizeArrayToMapFunc (\<lambda>d. Some (inst_id d)) orphans) (inst_id d) \<noteq> None"
    using assms(2) by (auto simp: map_get_normalize find_None_set)
  then obtain e where e: "map_get (normalizeArrayToMapFunc (\<lambda>d. Some (inst_id d)) orphans) (inst_id d) = Some e"
    by blast
  then have "e \<in> set orphans" "inst_id e = inst_id d" by (auto simp: map_get_normalize dest!: find_Some_set)
  with assms have "e = d" by (auto simp: distinct_map inj_on_def)
  with e show ?thesis by (simp add: in_segment_def)
qed

text \<open>
  C19. An orphaned part instance that stood after a part and before the next one keeps its place when the part
  is still in its segment: its new rank is above the new rank of the part by more than zero and less than one,
  wherever the part went and whatever happened to the parts behind it.
\<close>

theorem orphan_keeps_place:
  assumes d: "distinct (map inst_id orphans)" "d \<in> set orphans"
      and segs: "distinct segs" "inst_segmentId d \<in> set segs"
      and before: "map_wf before" "map_get before (inst_segmentId d) = Some (xs @ info # ys)"
      and infos: "sorted (map before_rank (xs @ info # ys))" "distinct (map before_id (xs @ info # ys))"
      and others: "\<And>s infos. map_get before s = Some infos \<Longrightarrow> s \<noteq> inst_segmentId d
        \<Longrightarrow> before_id info \<notin> before_id ` set infos"
      and between: "before_rank info \<le> part_rank (inst_part d)"
        "ys = [] \<or> part_rank (inst_part d) < before_rank (hd ys)"
      and keyed: "\<And>k q. map_get partsMap k = Some q \<Longrightarrow> part_id q = k"
      and p: "map_get partsMap (before_id info) = Some p" "part_segmentId p = inst_segmentId d" "before_id info \<noteq> ''''"
  shows "\<exists>r. map_get (compileNewPartInstanceRanks partsMap segs before orphans) (inst_id d) = Some r
    \<and> part_rank p < r \<and> r < part_rank p + 1"
proof (rule placed_rank)
  define i s where "i = inst_id d" and "s = inst_segmentId d"
  define m where "m = compileOriginalPartInstanceOrderMap before orphans"
  define inS where "inS s = filter (\<lambda>d. inst_segmentId d = s) orphans" for s
  have pid: "part_id p = before_id info" using keyed [OF p(1)] .
  have m: "map_get m s' = map_option (\<lambda>infos. original_order infos (inS s')) (map_get before s')" for s'
    unfolding m_def inS_def by (rule original_order_map_get [OF before(1)])
  have in_own: "distinct (map inst_id (inS s))" "d \<in> set (inS s)"
    using d by (auto simp: inS_def s_def distinct_map_filter)
  from original_order_split [OF in_own refl infos between(1)] between(2) obtain gs1 g gs2 where
    gs: "original_order (xs @ info # ys) (inS s) = gs1 @ g # gs2"
    and g: "afterPartId g = Some (before_id info)" "i \<in> set (afterPartInstanceIds g)"
    and gs1: "\<forall>h\<in>set gs1. i \<notin> set (afterPartInstanceIds h)"
    and gs2: "\<forall>h\<in>set gs2. i \<notin> set (afterPartInstanceIds h) \<and> afterPartId h \<noteq> Some (part_id p)"
    unfolding i_def ends_before_def pid by blast
  have other: "i \<notin> set (afterPartInstanceIds h) \<and> afterPartId h \<noteq> Some (part_id p)"
    if h: "s' \<noteq> s" "map_get m s' = Some groups" "h \<in> set groups" for s' groups h
  proof -
    from h obtain infos' where i': "map_get before s' = Some infos'" "h \<in> set (original_order infos' (inS s'))"
      by (auto simp: m)
    have "i \<notin> inst_id ` set (inS s')"
      using d h(1) by (auto simp: inS_def i_def s_def distinct_map inj_on_def)
    moreover have "before_id info \<notin> before_id ` set infos'" using others [OF i'(1)] h(1) by (simp add: s_def)
    ultimately show ?thesis using original_order_ids [OF i'(2)] pid by auto
  qed
  obtain ss1 ss2 where ss: "segs = ss1 @ s # ss2" "s \<notin> set ss1" "s \<notin> set ss2"
    using segs by (metis s_def split_list distinct.simps(2) distinct_append disjoint_insert(1) list.simps(15))
  define st0 where "st0 = \<lparr>targetPartInstancesParentMap = [], partInstancesAtStartOfSegment = [],
      previousPartInstancesGroup = None\<rparr>"
  have "absent i st0" by (simp add: absent_def st0_def)
  then have "absent i (fold (follow_segment partsMap m) ss1 st0)"
  proof (rule absent_segments)
    fix s' groups h
    assume "s' \<in> set ss1" "map_get m s' = Some groups" "h \<in> set groups"
    with other [of s' groups h] ss(2) show "i \<notin> set (afterPartInstanceIds h)" by auto
  qed
  then have "absent i ((fold (follow_segment partsMap m) ss1 st0)\<lparr>previousPartInstancesGroup := None\<rparr>)"
    by (simp add: absent_def)
  from absent_groups [OF this gs1]
  have "placed i p (follow_segment partsMap m s (fold (follow_segment partsMap m) ss1 st0))"
    using before(2) gs g gs2 p by (auto simp: follow_segment_def m s_def [symmetric]
        intro!: placed_groups [OF _ keyed] placed_at_group)
  then have "placed i p (fold (follow_segment partsMap m) ss2
      (follow_segment partsMap m s (fold (follow_segment partsMap m) ss1 st0)))"
  proof (rule placed_segments [OF _ keyed])
    fix s' groups h
    assume "s' \<in> set ss2" "map_get m s' = Some groups" "h \<in> set groups"
    with other [of s' groups h] ss(3)
    show "i \<notin> set (afterPartInstanceIds h) \<and> afterPartId h \<noteq> Some (part_id p)" by auto
  qed
  then show "placed (inst_id d) p (fold (follow_segment partsMap (compileOriginalPartInstanceOrderMap before orphans)) segs
      \<lparr>targetPartInstancesParentMap = [], partInstancesAtStartOfSegment = [], previousPartInstancesGroup = None\<rparr>)"
    by (simp add: ss(1) m_def [symmetric] st0_def [symmetric] i_def [symmetric])
  show "in_segment (normalizeArrayToMapFunc (\<lambda>d. Some (inst_id d)) orphans) (part_segmentId p) (inst_id d)"
    using orphan_in_segment [OF d] p(2) by simp
qed

lemma orphan_keeps_place_witness:
  "\<exists>r. map_get (compileNewPartInstanceRanks [(''p1'', sample_part ''p1'' 4 ''s1'')] [''s1''] ex_before
      [ex_orphan ''i2'' ''p2'' 1 (Some PartDeleted), ex_orphan ''ia'' ''adlib'' (1/2) (Some AdlibPart)]) ''ia'' = Some r
    \<and> 4 < r \<and> r < 5"
proof -
  define d where "d = ex_orphan ''ia'' ''adlib'' (1/2) (Some AdlibPart)"
  define info where "info = \<lparr>before_id = ''p1'', before_rank = 0\<rparr>"
  define ys where "ys = [\<lparr>before_id = ''p2'', before_rank = 1\<rparr>, \<lparr>before_id = ''p3'', before_rank = 2\<rparr>]"
  have fields: "inst_id d = ''ia''" "inst_segmentId d = ''s1''" "part_rank (inst_part d) = 1/2"
    unfolding d_def by code_simp+
  have before: "map_wf ex_before" "map_get ex_before ''s1'' = Some ([] @ info # ys)"
    unfolding info_def ys_def by code_simp+
  have infos: "sorted (map before_rank ([] @ info # ys))" "distinct (map before_id ([] @ info # ys))"
    by (simp_all add: info_def ys_def)
  have orphans: "distinct (map inst_id [ex_orphan ''i2'' ''p2'' 1 (Some PartDeleted), d])" unfolding d_def by code_simp
  have others: "before_id info \<notin> before_id ` set infos" if "map_get ex_before s = Some infos" "s \<noteq> inst_segmentId d"
    for s infos using that by (simp add: ex_before_def fields)
  have "\<exists>r. map_get (compileNewPartInstanceRanks [(''p1'', sample_part ''p1'' 4 ''s1'')] [''s1''] ex_before
      [ex_orphan ''i2'' ''p2'' 1 (Some PartDeleted), d]) (inst_id d) = Some r
    \<and> part_rank (sample_part ''p1'' 4 ''s1'') < r \<and> r < part_rank (sample_part ''p1'' 4 ''s1'') + 1"
    by (rule orphan_keeps_place [OF orphans _ _ _ before(1) _ infos others])
      (use before(2) in \<open>auto simp: fields info_def ys_def sample_part_def split: if_splits\<close>)
  then show ?thesis by (simp add: fields d_def [symmetric] sample_part_def)
qed

end
