(* ===== verification/Take.thy ===== *)
theory Take
  imports Set_Next Process_Prune
begin

text \<open>
  Taking the next part on air, hold, and the activation of a playlist: \<open>take.ts\<close>, \<open>holdJobs.ts\<close>,
  \<open>activePlaylistActions.ts\<close>, \<open>timings/partPlayback.ts\<close> and what they use of \<open>lib.ts\<close>, \<open>resolvedPieces.ts\<close>,
  \<open>adlibUtils.ts\<close> and \<open>timeline/multi-gateway.ts\<close>, all in \<open>packages/job-worker/src/playout\<close>, with
  \<open>packages/corelib/src/studio/playout.ts\<close>. The current time is the same throughout a job. Arguments of the
  model are: the generation of the timeline, the callbacks of the blueprint (one that is absent is the
  identity), the settings of the studio and the latencies of its playout devices.
\<close>

section \<open>The environment of a job\<close>

text \<open>
  \<open>_.sortBy\<close> calls its second argument with the element and its index: the function given to it in
  \<open>getExpectedLatency\<close>, written as a comparison of two elements, compares each latency with its index.
\<close>

record ExpectedLatency =
  latency_average :: rat
  latency_safe :: int
  latency_fastest :: int

definition sortBy_comparison :: "int list \<Rightarrow> int list" where
  "sortBy_comparison latencies = map snd (js_sort (\<lambda>(i, a) (j, b). sgn (b - int j) < sgn (a - int i)) (enumerate 0 latencies))"

definition getExpectedLatency :: "int list \<Rightarrow> ExpectedLatency" where
  "getExpectedLatency deviceLatencies =
     (if deviceLatencies \<noteq> []
      then let latencies = sortBy_comparison deviceLatencies
           in \<lparr>latency_average = of_int (sum_list latencies) / of_nat (length latencies),
               latency_safe = latencies ! (length latencies * 95 div 100),
               latency_fastest = latencies ! 0\<rparr>
      else \<lparr>latency_average = 0, latency_safe = 0, latency_fastest = 0\<rparr>)"

record take_env =
  base_env :: playout_env
  env_minimumTakeSpan :: int
  env_forceMultiGatewayMode :: bool
  env_multiGatewayNowSafeLatency :: "int option"
  env_playoutDevices :: "int list list"  \<comment> \<open>the latencies of each device of the type \<open>PLAYOUT\<close>\<close>
  env_updateTimeline :: "PlayoutModel \<Rightarrow> PlayoutModel"
  env_onTake :: "PlayoutModel \<Rightarrow> bool \<times> PlayoutModel"  \<comment> \<open>\<open>isTakeAborted\<close>\<close>
  env_getEndStateForPart :: "string option \<Rightarrow> DBPartInstance \<Rightarrow> ResolvedPieceInstance list \<Rightarrow> time \<Rightarrow> string option"

abbreviation take_now :: "take_env \<Rightarrow> time" where
  "take_now env \<equiv> env_now (base_env env)"

definition isMultiGatewayMode :: "take_env \<Rightarrow> bool" where
  "isMultiGatewayMode env = (env_forceMultiGatewayMode env \<or> 1 < length (env_playoutDevices env))"

definition calculateNowOffsetLatency :: "take_env \<Rightarrow> time option" where
  "calculateNowOffsetLatency env =
     (if isMultiGatewayMode env
      then let worstLatency = maxs0 (map (\<lambda>d. latency_safe (getExpectedLatency d)) (env_playoutDevices env));
               safe = env_multiGatewayNowSafeLatency env
           in Some (worstLatency + (if truthy_num safe then the safe else 30))
      else None)"

definition planned_start :: "DBPartInstance \<Rightarrow> time option" where
  \<comment> \<open>\<open>timings?.plannedStartedPlayback\<close>\<close>
  "planned_start d = Option.bind (inst_timings d) plannedStartedPlayback"

section \<open>Stopping pieces\<close>

definition getResolvedPiecesForCurrentPartInstance ::
  "ISourceLayer option list \<Rightarrow> PlayoutPartInstanceModel \<Rightarrow> time \<Rightarrow> ResolvedPieceInstance list" where
  "getResolvedPiecesForCurrentPartInstance sourceLayers p now =
     (let partStarted = planned_start (partInstanceImpl p);
          nowInPart = (if truthy_num partStarted then now - the partStarted else 0)
      in map (resolvePrunedPieceInstance nowInPart)
           (processAndPrunePieceInstanceTimings sourceLayers (live_pieces p) nowInPart False False))"

definition stops :: "(PieceInstance \<Rightarrow> bool) \<Rightarrow> time \<Rightarrow> time \<Rightarrow> ResolvedPieceInstance \<Rightarrow> bool" where
  \<comment> \<open>none of the \<open>continue\<close>s is reached\<close>
  "stops pieceFilter stopAt relativeStopAt r =
     (let p = pwt_instance (res_instance r)
      in \<not> virtual (pi_piece p) \<and> userDuration p = None \<and> pieceFilter p \<and> resolvedStart r \<le> relativeStopAt
         \<and> \<not> (truthy_num (pi_plannedStoppedPlayback p) \<and> the (pi_plannedStoppedPlayback p) \<le> stopAt))"

definition stop_piece ::
  "take_env \<Rightarrow> PartInstanceId \<Rightarrow> int \<Rightarrow> time \<Rightarrow> nat \<times> ResolvedPieceInstance
   \<Rightarrow> PieceInstanceId list \<times> PlayoutModel \<Rightarrow> PieceInstanceId list \<times> PlayoutModel" where
  "stop_piece env i offsetRelativeToNow relativeStopAt = (\<lambda>(k, r) (stopped, m).
     let p = pwt_instance (res_instance r) in
     if lifespan (pi_piece p) \<in> {WithinPart, OutOnSegmentChange, OutOnRundownChange}
     then case findPieceInstance (pi_id p) m of
            Some (owner, _) \<Rightarrow>
              (stopped @ [pi_id p],
               on_part_instance (inst_id (partInstanceImpl owner)) (inst_on_piece (pi_id p)
                 (setDuration (if isMultiGatewayMode env then EndRelativeToNow offsetRelativeToNow
                    else EndRelativeToPart relativeStopAt))) m)
          | None \<Rightarrow> (stopped, m)
     else (stopped @ [pi_id p],
           on_part_instance i (\<lambda>q. snd (insertVirtualPiece (take_now env) (env_random (base_env env) (2 * k))
             (env_random (base_env env) (2 * k + 1)) relativeStopAt (lifespan (pi_piece p))
             (sourceLayerId (pi_piece p)) q)) m))"

definition innerStopPieces ::
  "take_env \<Rightarrow> ISourceLayer option list \<Rightarrow> PartInstanceId \<Rightarrow> (PieceInstance \<Rightarrow> bool) \<Rightarrow> int option \<Rightarrow> PlayoutModel
   \<Rightarrow> playout_error + (PieceInstanceId list \<times> PlayoutModel)" where
  "innerStopPieces env sourceLayers i pieceFilter timeOffset m =
     (case part_instance_at i m of
        None \<Rightarrow> Inl (PartInstanceNotFound i)
      | Some p \<Rightarrow>
         (case planned_start (partInstanceImpl p) of
            None \<Rightarrow> Inl StoppedBeforeStarted
          | Some lastStartedPlayback \<Rightarrow>
             (let offsetRelativeToNow = nullish timeOffset 0 + nullish (calculateNowOffsetLatency env) 0;
                  stopAt = take_now env + offsetRelativeToNow;
                  relativeStopAt = stopAt - lastStartedPlayback
              in Inr (fold (stop_piece env i offsetRelativeToNow relativeStopAt)
                   (enumerate 0 (filter (stops pieceFilter stopAt relativeStopAt)
                     (getResolvedPiecesForCurrentPartInstance sourceLayers p (take_now env)))) ([], m)))))"

section \<open>Hold\<close>

definition held_content :: "time \<Rightarrow> PieceInstance \<Rightarrow> VTContent option" where
  \<comment> \<open>the content of a clip that is extended goes on from where the clip is\<close>
  "held_content now p =
     map_option (\<lambda>content.
       if fileName content \<noteq> [] \<and> truthy_num (sourceDuration content) \<and> truthy_num (pi_plannedStartedPlayback p)
       then content\<lparr>seek := Some (min (the (sourceDuration content)) (now - the (pi_plannedStartedPlayback p)))\<rparr>
       else content) (piece_content (pi_piece p))"

definition hold_piece ::
  "take_env \<Rightarrow> PartInstanceId \<Rightarrow> PartInstanceId \<Rightarrow> nat \<Rightarrow> PieceInstanceId \<Rightarrow> PlayoutModel
   \<Rightarrow> playout_error + PlayoutModel" where
  "hold_piece env fromId toId k pieceId m =
     (case Option.bind (part_instance_at fromId m) (getPieceInstance pieceId) of
        None \<Rightarrow> Inr m
      | Some p \<Rightarrow>
          if infinite (PieceInstanceImpl p) \<noteq> None then Inr m
          else let held = prepareForHold (env_random (base_env env) k) p;
                   m = on_part_instance fromId (put_piece pieceId (Some held)) m
               in (case part_instance_at toId m of
                    None \<Rightarrow> Inr m
                  | Some holdTo \<Rightarrow>
                     (case insertHoldPieceInstance (take_now env) (PieceInstanceImpl held) holdTo of
                        Inl e \<Rightarrow> Inl (PartInstanceError e)
                      | Inr (newId, holdTo) \<Rightarrow> Inr (put_part_instance toId (Some (inst_on_piece newId
                          (updatePieceProps (\<lambda>piece. piece\<lparr>piece_content := held_content (take_now env) (PieceInstanceImpl held)\<rparr>))
                          holdTo)) m))))"

fun hold_pieces ::
  "take_env \<Rightarrow> PartInstanceId \<Rightarrow> PartInstanceId \<Rightarrow> nat \<Rightarrow> PieceInstanceId list \<Rightarrow> PlayoutModel
   \<Rightarrow> playout_error + PlayoutModel" where
  "hold_pieces env fromId toId k [] m = Inr m"
| "hold_pieces env fromId toId k (i # is) m =
     and_then (hold_piece env fromId toId k i m) (hold_pieces env fromId toId (Suc k) is)"

definition activateHold ::
  "take_env \<Rightarrow> PartInstanceId option \<Rightarrow> PartInstanceId \<Rightarrow> PlayoutModel \<Rightarrow> playout_error + PlayoutModel" where
  "activateHold env holdFrom toId m =
     (case holdFrom of
        None \<Rightarrow> Inl PreviousPartNotFound
      | Some fromId \<Rightarrow>
         (let pieceInstancesToCopy = (case part_instance_at fromId m of
              None \<Rightarrow> []
            | Some p \<Rightarrow> map pi_id (filter (\<lambda>q. extendOnHold (pi_piece q)) (live_pieces p)))
          in hold_pieces env fromId toId 0 pieceInstancesToCopy (setHoldState HoldActive m)))"

definition from_hold :: "PieceInstance \<Rightarrow> bool" where
  "from_hold p = (case infinite p of None \<Rightarrow> False | Some link \<Rightarrow> fromHold link)"

definition completeHold ::
  "take_env \<Rightarrow> ISourceLayer option list \<Rightarrow> PartInstanceId option \<Rightarrow> PlayoutModel \<Rightarrow> playout_error + PlayoutModel" where
  "completeHold env sourceLayers cur m =
     (let m = setHoldState HoldComplete m in
      if currentPartInfo (playlist m) = None then Inr m
      else case cur of
        None \<Rightarrow> Inl CurrentPartNotFound
      | Some i \<Rightarrow> and_then (innerStopPieces env sourceLayers i from_hold None m) (\<lambda>(_, m). Inr m))"

section \<open>Reports of the playback\<close>

definition reportPartInstanceHasStarted ::
  "take_env \<Rightarrow> PartInstanceId \<Rightarrow> time \<Rightarrow> PlayoutModel \<Rightarrow> PlayoutModel" where
  "reportPartInstanceHasStarted env i timestamp m =
     (case part_instance_at i m of
        None \<Rightarrow> m
      | Some p \<Rightarrow>
         (let (timestampUpdated, p) = inst_setReportedStartedPlayback timestamp p;
              m = put_part_instance i (Some p) m;
              m = (if isMultiGatewayMode env then m
                   else let m = (if timestamp \<noteq> 0
                          then on_part_instance i (inst_setPlannedStartedPlayback (Some timestamp)) m else m)
                        in case previousPartInstance m of
                             Some prev \<Rightarrow> if timestampUpdated
                               then on_part_instance (inst_id (partInstanceImpl prev))
                                      (inst_setPlannedStoppedPlayback (Some timestamp)) m
                               else m
                           | None \<Rightarrow> m);
              m = (if untimed (inst_part (partInstanceImpl p)) then m
                   else setRundownStartedPlayback (inst_rundownId (partInstanceImpl p)) timestamp m)
          in if timestampUpdated then queuePartInstanceTimingEvent (inst_id (partInstanceImpl p)) m else m))"

definition reportPartInstanceHasStopped ::
  "take_env \<Rightarrow> PartInstanceId \<Rightarrow> time \<Rightarrow> PlayoutModel \<Rightarrow> PlayoutModel" where
  "reportPartInstanceHasStopped env i timestamp m =
     (case part_instance_at i m of
        None \<Rightarrow> m
      | Some p \<Rightarrow>
         (let (timestampUpdated, p) = inst_setReportedStoppedPlayback timestamp p;
              p = (if timestampUpdated \<and> \<not> isMultiGatewayMode env
                   then inst_setPlannedStoppedPlayback (Some timestamp) p else p);
              m = put_part_instance i (Some p) m
          in if timestampUpdated then queuePartInstanceTimingEvent (inst_id (partInstanceImpl p)) m else m))"

section \<open>The steps of a take\<close>

definition AUTOTAKE_UPDATE_DEBOUNCE :: int where "AUTOTAKE_UPDATE_DEBOUNCE = 5000"
definition AUTOTAKE_TAKE_DEBOUNCE :: int where "AUTOTAKE_TAKE_DEBOUNCE = 1000"

definition isTooCloseToAutonext :: "time \<Rightarrow> DBPartInstance option \<Rightarrow> bool \<Rightarrow> bool" where
  "isTooCloseToAutonext now cur isTake =
     (case cur of
        None \<Rightarrow> False
      | Some d \<Rightarrow>
          autoNext (inst_part d)
          \<and> (case planned_start d of
               None \<Rightarrow> False
             | Some start \<Rightarrow> truthy_num (expectedDuration (inst_part d))
                 \<and> \<bar>the (expectedDuration (inst_part d)) - (now - start)\<bar>
                     < (if isTake then AUTOTAKE_TAKE_DEBOUNCE else AUTOTAKE_UPDATE_DEBOUNCE)))"

definition clearQueuedSegmentId ::
  "DBPartInstance option \<Rightarrow> SelectedPartInstance option \<Rightarrow> PlayoutModel \<Rightarrow> PlayoutModel" where
  "clearQueuedSegmentId takenPartInstance takenPartInfo m =
     (case (takenPartInfo, takenPartInstance) of
        (Some info, Some d) \<Rightarrow>
          if sel_consumesQueuedSegmentId info \<and> queuedSegmentId (playlist m) = Some (inst_segmentId d)
          then setQueuedSegment None m else m
      | _ \<Rightarrow> m)"

definition resetPreviousSegment :: "PlayoutModel \<Rightarrow> PlayoutModel" where
  "resetPreviousSegment m =
     (case previousPartInstance m of
        None \<Rightarrow> m
      | Some prev \<Rightarrow>
         (let segmentId = inst_segmentId (partInstanceImpl prev) in
          if playlist_loop (playlist m)
             \<and> map_option (\<lambda>p. inst_segmentId (partInstanceImpl p)) (currentPartInstance m) \<noteq> Some segmentId
          then fold (\<lambda>i. on_part_instance i markAsReset)
                 (map inst_id (filter (\<lambda>d. inst_segmentId d = segmentId) (map partInstanceImpl (loadedPartInstances m)))) m
          else m))"

definition first_of_infinite :: "PieceInstance \<Rightarrow> bool" where
  "first_of_infinite p = (case infinite p of None \<Rightarrow> True | Some link \<Rightarrow> infiniteInstanceIndex link = 0)"

definition updatePartInstanceOnTake ::
  "take_env \<Rightarrow> ISourceLayer option list \<Rightarrow> PartInstanceId \<Rightarrow> PartInstanceId option \<Rightarrow> PlayoutModel \<Rightarrow> PlayoutModel" where
  "updatePartInstanceOnTake env sourceLayers i cur m =
     (let current = Option.bind cur (\<lambda>c. part_instance_at c m);
          previousPartEndState = Option.bind current (\<lambda>c. env_getEndStateForPart env
            (previousPersistentState (playlist m)) (partInstanceImpl c)
            (getResolvedPiecesForCurrentPartInstance sourceLayers c (take_now env)) (take_now env))
      in on_part_instance i (\<lambda>p.
           let tmpTakePieces = processAndPrunePieceInstanceTimings sourceLayers (live_pieces p) 0 False False;
               timings = calculatePartTimings (holdState (playlist m))
                 (map_option (\<lambda>c. from_part_of (inst_part (partInstanceImpl c))) current)
                 (Some (case current of None \<Rightarrow> [] | Some c \<Rightarrow> map pi_piece (live_pieces c)))
                 (inTransition (inst_part (partInstanceImpl p)))
                 (map pi_piece (filter first_of_infinite (map pwt_instance tmpTakePieces)))
           in storePlayoutTimingsAndPreviousEndState timings previousPartEndState p) m)"

definition afterTake :: "take_env \<Rightarrow> PartInstanceId \<Rightarrow> PlayoutModel \<Rightarrow> PlayoutModel" where
  "afterTake env i m =
     (let m = env_updateTimeline env m in
      case part_instance_at i m of
        None \<Rightarrow> m
      | Some p \<Rightarrow> queueNotifyCurrentlyPlayingPartEvent (inst_rundownId (partInstanceImpl p)) (Some p) m)"

definition afterTakeUpdateTimingsAndEvents :: "take_env \<Rightarrow> time \<Rightarrow> PlayoutModel \<Rightarrow> PlayoutModel" where
  \<comment> \<open>what changes the model; the callbacks of the blueprint only read\<close>
  "afterTakeUpdateTimingsAndEvents env takeDoneTime m =
     (case currentPartInstance m of
        None \<Rightarrow> m
      | Some c \<Rightarrow>
          if env_playoutDevices env \<noteq> [] then m
          else let prev = previousPartInstance m;
                   m = reportPartInstanceHasStarted env (inst_id (partInstanceImpl c)) takeDoneTime m
               in (case prev of
                    None \<Rightarrow> m
                  | Some p \<Rightarrow> reportPartInstanceHasStopped env (inst_id (partInstanceImpl p)) takeDoneTime m))"

section \<open>The take\<close>

definition take_refused ::
  "time \<Rightarrow> DBPartInstance option \<Rightarrow> DBPartInstance option \<Rightarrow> playout_error option" where
  \<comment> \<open>the user errors of \<open>performTakeToNextedPart\<close>: of the current part instance, given the previous one\<close>
  "take_refused now prev cur =
     (case cur of
        None \<Rightarrow> None
      | Some c \<Rightarrow>
          if truthy_num (blockTakeUntil c) \<and> now < the (blockTakeUntil c)
          then Some (UserTakeBlocked (the (blockTakeUntil c) - now))
          else if (case prev of None \<Rightarrow> False | Some p \<Rightarrow> \<not> disableNextInTransition (inst_part p))
            \<and> truthy_num (planned_start c)
            \<and> (case inTransition (inst_part c) of None \<Rightarrow> False
               | Some t \<Rightarrow> now < the (planned_start c) + blockTakeDuration t)
          then Some UserTakeDuringTransition
          else if isTooCloseToAutonext now cur True then Some UserTakeCloseToAutonext
          else None)"

definition next_choice_of :: "SelectNextPartResult option \<Rightarrow> next_choice option" where
  "next_choice_of = map_option (\<lambda>r. ChoicePart (sel_part r) (consumesQueuedSegmentId r))"

definition select_after :: "DBPartInstance \<Rightarrow> PlayoutModel \<Rightarrow> next_choice option" where
  "select_after d m = next_choice_of (selectNextPart (queuedSegmentId (playlist m)) (playlist_loop (playlist m))
     (Some d) None (map segment_doc (getAllOrderedSegments m)) (playout_getAllOrderedParts m) True)"

text \<open>What a take gives: the ingest jobs it queues, whether it was the first one when
  \<open>afterTakeUpdateTimingsAndEvents\<close> is deferred to before the save, and the model.\<close>

type_synonym take_outcome = "orphaned_segments_job list \<times> bool option \<times> PlayoutModel"

definition clear_planned :: "PlayoutPartInstanceModel \<Rightarrow> PlayoutPartInstanceModel" where
  "clear_planned p = inst_setPlannedStoppedPlayback None (inst_setPlannedStartedPlayback None p)"

definition move_to_taken ::
  "take_env \<Rightarrow> ISourceLayer option list \<Rightarrow> PartInstanceId \<Rightarrow> PartInstanceId option \<Rightarrow> int option \<Rightarrow> PlayoutModel
   \<Rightarrow> PlayoutModel" where
  "move_to_taken env sourceLayers i cur timeOffset m =
     resetPreviousSegment (on_part_instance i (setTaken (take_now env) (take_now env) timeOffset)
       (cycleSelectedPartInstances (take_now env) (updatePartInstanceOnTake env sourceLayers i cur m)))"

definition take_next ::
  "take_env \<Rightarrow> ISourceLayer option list \<Rightarrow> PlayoutPartInstanceModel \<Rightarrow> PartInstanceId option \<Rightarrow> int option
   \<Rightarrow> PlayoutModel \<Rightarrow> playout_error + take_outcome" where
  \<comment> \<open>after the callback \<open>onTake\<close>, when it did not abort the take; the part instance is the one nexted before\<close>
  "take_next env sourceLayers takePartInstance cur timeOffset m =
     (let i = inst_id (partInstanceImpl takePartInstance);
          m = on_part_instance i clear_planned m;
          taken = partInstanceImpl (nullish (part_instance_at i m) takePartInstance);
          isFirstTake = (\<not> truthy_num (startedPlayback (playlist m)) \<and> \<not> untimed (inst_part taken));
          m = clearQueuedSegmentId (Some taken) (nextPartInfo (playlist m)) m
      in and_then (setNextPart (base_env env) (select_after taken m) False None (move_to_taken env sourceLayers i cur timeOffset m))
           (\<lambda>(jobs, m). and_then (if holdState (playlist m) = Some HoldPending then activateHold env cur i m else Inr m)
             (\<lambda>m. Inr (jobs, Some isFirstTake, afterTake env i m))))"

definition performTakeToNextedPart :: "take_env \<Rightarrow> PlayoutModel \<Rightarrow> playout_error + take_outcome" where
  "performTakeToNextedPart env m =
     (if \<not> truthy_str (activationId (playlist m)) then Inl PlaylistNotActive
      else let timeOffset = (if truthy_num (nextTimeOffset (playlist m)) then nextTimeOffset (playlist m) else None);
               current = currentPartInstance m; nxt = nextPartInstance m;
               cur = map_option (\<lambda>p. inst_id (partInstanceImpl p)) current
           in case (if nxt \<noteq> None then nxt else current) of
                None \<Rightarrow> Inl NoPartInstanceFound
              | Some currentOrNext \<Rightarrow>
                 (case getRundown (inst_rundownId (partInstanceImpl currentOrNext)) m of
                    None \<Rightarrow> Inl (RundownNotFound (inst_rundownId (partInstanceImpl currentOrNext)))
                  | Some currentRundown \<Rightarrow>
                     (case take_refused (take_now env) (map_option partInstanceImpl (previousPartInstance m))
                             (map_option partInstanceImpl current) of
                        Some e \<Rightarrow> Inl e
                      | None \<Rightarrow>
                         (let sourceLayers = env_sourceLayers (base_env env) (rd_showStyleBaseId (rundown_doc currentRundown))
                          in if holdState (playlist m) = Some HoldActive
                             then and_then (completeHold env sourceLayers cur m)
                                    (\<lambda>m. Inr ([], None, env_updateTimeline env m))
                             else let m = (if holdState (playlist m) = Some HoldComplete then setHoldState HoldNone m else m)
                                  in case nxt of
                                       None \<Rightarrow> Inl TakePartInstanceNotFound
                                     | Some takePartInstance \<Rightarrow>
                                         if getRundown (inst_rundownId (partInstanceImpl takePartInstance)) m = None
                                         then Inl (RundownNotFound (inst_rundownId (partInstanceImpl takePartInstance)))
                                         else let (isTakeAborted, m) = env_onTake env m
                                              in if isTakeAborted then Inr ([], None, env_updateTimeline env m)
                                                 else take_next env sourceLayers takePartInstance cur timeOffset m))))"

section \<open>Jobs\<close>

definition take_allowed :: "PartInstanceId option \<Rightarrow> DBRundownPlaylist \<Rightarrow> playout_error option" where
  "take_allowed fromPartInstanceId p =
     (if \<not> truthy_str (activationId p) then Some UserInactiveRundown
      else if nextPartInfo p = None \<and> holdState p \<noteq> Some HoldActive then Some UserTakeNoNextPart
      else if map_option sel_partInstanceId (currentPartInfo p) \<noteq> fromPartInstanceId then Some UserTakeFromIncorrectPart
      else None)"

definition last_take_time :: "PlayoutModel \<Rightarrow> time" where
  "last_take_time m =
     (let lastTakeTime = nullish (lastTakeTime (playlist m)) 0;
          planned = Option.bind (currentPartInstance m) (\<lambda>p. planned_start (partInstanceImpl p))
      in if currentPartInfo (playlist m) \<noteq> None \<and> truthy_num planned then max lastTakeTime (the planned) else lastTakeTime)"

definition handleTakeNextPart ::
  "take_env \<Rightarrow> PartInstanceId option \<Rightarrow> PlayoutModel \<Rightarrow> playout_error + (orphaned_segments_job list \<times> PlayoutModel)" where
  \<comment> \<open>with what is deferred to before the save; the check of the playlist runs before the model is loaded\<close>
  "handleTakeNextPart env fromPartInstanceId m =
     (case take_allowed fromPartInstanceId (playlist m) of
        Some e \<Rightarrow> Inl e
      | None \<Rightarrow>
          if last_take_time m \<noteq> 0 \<and> take_now env - last_take_time m < env_minimumTakeSpan env then Inl UserTakeRateLimit
          else and_then (performTakeToNextedPart env m) (\<lambda>(jobs, deferred, m).
            Inr (jobs, if deferred = None then m else afterTakeUpdateTimingsAndEvents env (take_now env) m)))"

definition handleActivateHold :: "take_env \<Rightarrow> PlayoutModel \<Rightarrow> playout_error + PlayoutModel" where
  "handleActivateHold env m =
     (let p = playlist m in
      if \<not> truthy_str (activationId p) then Inl UserInactiveRundown
      else if currentPartInfo p = None then Inl UserNoCurrentPart
      else if nextPartInfo p = None then Inl UserHoldNeedsNextPart
      else if holdState p \<noteq> None \<and> holdState p \<noteq> Some HoldNone then Inl UserHoldAlreadyActive
      else case (currentPartInstance m, nextPartInstance m) of
             (None, _) \<Rightarrow> Inl (PartInstanceNotFound (sel_partInstanceId (the (currentPartInfo p))))
           | (_, None) \<Rightarrow> Inl (PartInstanceNotFound (sel_partInstanceId (the (nextPartInfo p))))
           | (Some c, Some n) \<Rightarrow>
               if holdMode (inst_part (partInstanceImpl c)) \<noteq> Some HoldModeFrom
                  \<or> holdMode (inst_part (partInstanceImpl n)) \<noteq> Some HoldModeTo
                  \<or> part_segmentId (inst_part (partInstanceImpl c)) \<noteq> part_segmentId (inst_part (partInstanceImpl n))
               then Inl UserHoldIncompatibleParts
               else if \<exists>q\<in>set (live_pieces c). truthy_num (dynamicallyInserted q)
                       \<and> (case infinite q of None \<Rightarrow> True
                          | Some link \<Rightarrow> \<not> fromPreviousPart link \<and> \<not> fromPreviousPlayhead link)
               then Inl UserHoldAfterAdlib
               else Inr (env_updateTimeline env (setHoldState HoldPending m)))"

definition handleDeactivateHold :: "take_env \<Rightarrow> PlayoutModel \<Rightarrow> playout_error + PlayoutModel" where
  "handleDeactivateHold env m =
     (if \<not> truthy_str (activationId (playlist m)) then Inl UserInactiveRundown
      else if holdState (playlist m) \<noteq> Some HoldPending then Inl UserHoldNotCancelable
      else Inr (env_updateTimeline env (setHoldState HoldNone m)))"

section \<open>Activation\<close>

definition activate_select_first ::
  "take_env \<Rightarrow> PlayoutModel \<Rightarrow> playout_error + (orphaned_segments_job list \<times> PlayoutModel)" where
  "activate_select_first env m = select_and_set_first (base_env env) (clearSelectedPartInstances m)"

definition leave_adlib_testing :: "bool \<Rightarrow> PlayoutModel \<Rightarrow> playout_error + PlayoutModel" where
  \<comment> \<open>an ad-lib testing segment on air does not survive an activation that is no rehearsal\<close>
  "leave_adlib_testing reh m =
     (case currentPartInstance m of
        None \<Rightarrow> Inr m
      | Some c \<Rightarrow>
          if reh then Inr m
          else let d = partInstanceImpl c in
            if getRundown (inst_rundownId d) m = None then Inl (RundownNotFound (inst_rundownId d))
            else (case findSegment (inst_segmentId d) m of
                   None \<Rightarrow> Inl (SegmentNotFoundIn (inst_segmentId d))
                 | Some s \<Rightarrow> Inr (if is_adlib_testing s
                     then on_rundown (inst_rundownId d) (\<lambda>r. snd (removeAdlibTestingSegment r))
                            (on_part_instance (inst_id d) markAsReset m)
                     else m)))"

definition activateRundownPlaylist ::
  "take_env \<Rightarrow> string list \<Rightarrow> bool \<Rightarrow> string \<Rightarrow> string \<Rightarrow> PlayoutModel
   \<Rightarrow> playout_error + (orphaned_segments_job list \<times> PlayoutModel)" where
  \<comment> \<open>given the ids of the other playlists that are active, and two random ids\<close>
  "activateRundownPlaylist env otherActiveIds reh resetId newActivationId m =
     (if otherActiveIds \<noteq> [] then Inl (OtherPlaylistActive otherActiveIds)
      else and_then (if truthy_str (activationId (playlist m)) then Inr ([], m)
                     else resetRundownPlaylist (base_env env) resetId m)
        (\<lambda>(jobs, m). and_then (leave_adlib_testing reh (snd (activatePlaylist newActivationId reh m)))
          (\<lambda>m'. let current = currentPartInstance (snd (activatePlaylist newActivationId reh m)) in
             and_then
               (if case Option.bind current (\<lambda>c. part_instance_at (inst_id (partInstanceImpl c)) m') of
                     None \<Rightarrow> True | Some c \<Rightarrow> inst_reset (partInstanceImpl c)
                then activate_select_first env m'
                else let m' = fold (\<lambda>p. on_part_instance (inst_id (partInstanceImpl p)) (setPlaylistActivationId newActivationId))
                                (selectedPartInstances m') m'
                     in case nextPartInstance m' of
                          None \<Rightarrow> Inr ([], m')
                        | Some n \<Rightarrow>
                            if getRundown (inst_rundownId (partInstanceImpl n)) m' = None
                            then Inl (RundownNotFound (inst_rundownId (partInstanceImpl n))) else Inr ([], m'))
               (\<lambda>(jobs', m). Inr (jobs @ jobs', env_updateTimeline env m)))))"

definition deactivateRundownPlaylistInner ::
  "take_env \<Rightarrow> PlayoutModel \<Rightarrow> playout_error + (orphaned_segments_job list \<times> PlayoutModel)" where
  "deactivateRundownPlaylistInner env m =
     (let current = currentPartInstance m;
          m = (case current of
              None \<Rightarrow> m
            | Some c \<Rightarrow> queueNotifyCurrentlyPlayingPartEvent (inst_rundownId (partInstanceImpl c)) None m)
      in and_then (setNextPart (base_env env) None False None (deactivatePlaylist (take_now env) m))
           (\<lambda>(jobs, m). Inr (jobs, case current of
              None \<Rightarrow> m
            | Some c \<Rightarrow> on_part_instance (inst_id (partInstanceImpl c)) (inst_setPlannedStoppedPlayback (Some (take_now env))) m)))"

section \<open>Callbacks of the playout gateway\<close>

definition autonext_taken ::
  "take_env \<Rightarrow> PartInstanceId \<Rightarrow> time \<Rightarrow> PlayoutModel \<Rightarrow> playout_error + (orphaned_segments_job list \<times> PlayoutModel)" where
  \<comment> \<open>the next part has started: \<open>clearQueuedSegmentId\<close> is given \<open>nextPartInfo\<close> after the cycle, which is null\<close>
  "autonext_taken env i started m =
     (let cur = map_option partInstanceImpl (currentPartInstance m);
          m = resetHoldState (cycleSelectedPartInstances (take_now env) m);
          m = reportPartInstanceHasStarted env i started m
      in case part_instance_at i m of
           None \<Rightarrow> Inl (PartInstanceNotFound i)
         | Some playing \<Rightarrow>
            (case getRundown (inst_rundownId (partInstanceImpl playing)) m of
               None \<Rightarrow> Inl (RundownNotFound (inst_rundownId (partInstanceImpl playing)))
             | Some rundown \<Rightarrow>
                (let currentRundown = Option.bind cur (\<lambda>c. getRundown (inst_rundownId c) m);
                     showStyle = rd_showStyleBaseId (rundown_doc (nullish currentRundown rundown));
                     m = updatePartInstanceOnTake env (env_sourceLayers (base_env env) showStyle) i
                           (map_option inst_id cur) m;
                     m = resetPreviousSegment (clearQueuedSegmentId (Some (partInstanceImpl playing)) (nextPartInfo (playlist m)) m)
                 in and_then (setNextPart (base_env env) (select_after (partInstanceImpl playing) m) False None m)
                      (\<lambda>(jobs, m). Inr (jobs, afterTake env i m)))))"

definition onPartPlaybackStarted ::
  "take_env \<Rightarrow> PartInstanceId \<Rightarrow> time \<Rightarrow> PlayoutModel \<Rightarrow> playout_error + (orphaned_segments_job list \<times> PlayoutModel)" where
  \<comment> \<open>a part that was not selected is only logged: \<open>lastIncorrectPartPlaybackReported\<close> is never written\<close>
  "onPartPlaybackStarted env i started m =
     (case part_instance_at i m of
        None \<Rightarrow> Inl (PartInstanceNotFound i)
      | Some playing \<Rightarrow>
         (let d = partInstanceImpl playing in
          if truthy_num (Option.bind (inst_timings d) reportedStartedPlayback) then Inr ([], m)
          else if getRundown (inst_rundownId d) m = None then Inl (RundownNotFound (inst_rundownId d))
          else if map_option sel_partInstanceId (currentPartInfo (playlist m)) = Some i
          then Inr ([], afterTake env i (reportPartInstanceHasStarted env i started m))
          else if map_option sel_partInstanceId (nextPartInfo (playlist m)) = Some i
          then autonext_taken env i started m
          else Inr ([], m)))"

definition RESET_IGNORE_ERRORS :: int where "RESET_IGNORE_ERRORS = 2000"

definition onPartPlaybackStopped ::
  "take_env \<Rightarrow> PartInstanceId \<Rightarrow> time \<Rightarrow> PlayoutModel \<Rightarrow> playout_error + PlayoutModel" where
  "onPartPlaybackStopped env i stoppedPlayback m =
     (case part_instance_at i m of
        Some p \<Rightarrow>
         (let ts = inst_timings (partInstanceImpl p) in
          if truthy_num (Option.bind ts reportedStartedPlayback) \<and> \<not> truthy_num (Option.bind ts reportedStoppedPlayback)
          then Inr (reportPartInstanceHasStopped env i stoppedPlayback m) else Inr m)
      | None \<Rightarrow>
          if \<not> truthy_str (activationId (playlist m)) then Inr m
          else if RESET_IGNORE_ERRORS < take_now env - nullish (resetTime (playlist m)) 0 then Inr m
          else Inl (PartInstanceNotFound i))"

end
