(* ===== verification/Take_Facts.thy ===== *)
theory Take_Facts
  imports Take Set_Next_Facts
begin

text \<open>
  What a take does to the selection of the playlist and to the part instances: the frame of its steps
  (\<open>same_show\<close>, \<open>keeps_docs\<close>), the part instances that come to air, the states of hold, and the time between
  two takes. The generation of the timeline and the callbacks are assumed to leave the selection alone.
\<close>

section \<open>The frame of an operation\<close>

definition show_core ::
  "DBRundownPlaylist \<Rightarrow> string option \<times> RundownHoldState option \<times> bool \<times> SelectedPartInstance option
   \<times> SelectedPartInstance option \<times> SelectedPartInstance option \<times> SegmentId option \<times> time option \<times> int option" where
  "show_core p = (activationId p, holdState p, playlist_loop p, currentPartInfo p, nextPartInfo p,
     previousPartInfo p, queuedSegmentId p, lastTakeTime p, nextTimeOffset p)"

definition keeps_docs :: "PlayoutModel \<Rightarrow> PlayoutModel \<Rightarrow> bool" where
  "keeps_docs m m' = ((playout_wf m \<longrightarrow> playout_wf m')
     \<and> (\<forall>j. map_option doc_core (doc_at j m') = map_option doc_core (doc_at j m)))"

definition same_show :: "PlayoutModel \<Rightarrow> PlayoutModel \<Rightarrow> bool" where
  "same_show m m' = (show_core (playlist m') = show_core (playlist m) \<and> keeps_docs m m')"

lemma keeps_docs_refl [simp]: "keeps_docs m m"
  by (simp add: keeps_docs_def)

lemma keeps_docs_trans: "keeps_docs a b \<Longrightarrow> keeps_docs b c \<Longrightarrow> keeps_docs a c"
  by (simp add: keeps_docs_def)

lemma keeps_docs_cong: "allPartInstances m' = allPartInstances m \<Longrightarrow> keeps_docs m m'"
  unfolding keeps_docs_def using doc_at_cong [of m' m] playout_wf_cong [of m' m] by simp

lemma same_show_refl [simp]: "same_show m m"
  by (simp add: same_show_def)

lemma same_show_trans: "same_show a b \<Longrightarrow> same_show b c \<Longrightarrow> same_show a c"
  by (auto simp: same_show_def intro: keeps_docs_trans)

lemma keeps_docs_doc:
  "keeps_docs m m' \<Longrightarrow> doc_at i m = Some d \<Longrightarrow> \<exists>e. doc_at i m' = Some e \<and> doc_core e = doc_core d"
  unfolding keeps_docs_def by (metis map_option_eq_Some option.simps(9))

lemma keeps_docs_put:
  assumes "part_instance_at i m = Some p" "doc_core (partInstanceImpl q) = doc_core (partInstanceImpl p)"
  shows "keeps_docs m (put_part_instance i (Some q) m)"
  unfolding keeps_docs_def
proof (intro conjI impI allI)
  have d: "doc_at i m = Some (partInstanceImpl p)" using assms(1) by (simp add: doc_at_def)
  show "map_option doc_core (doc_at j (put_part_instance i (Some q) m)) = map_option doc_core (doc_at j m)" for j
    using assms(2) d by simp
  assume wf: "playout_wf m"
  have "inst_id (partInstanceImpl q) = i" using playout_wfD [OF wf d] assms(2) by (simp add: doc_core_def)
  with wf show "playout_wf (put_part_instance i (Some q) m)"
    by (auto simp: playout_wf_def map_wf_put_part_instance)
qed

lemma keeps_docs_on:
  assumes "\<And>p. doc_core (partInstanceImpl (f p)) = doc_core (partInstanceImpl p)"
  shows "keeps_docs m (on_part_instance i f m)"
  using keeps_docs_put [of i m] assms by (auto simp: on_part_instance_def split: option.split)

text \<open>Operations on a part instance that leave its core alone\<close>

lemma timings_core [simp]:
  "doc_core (partInstanceImpl (snd (set_timings t p))) = doc_core (partInstanceImpl p)"
  "doc_core (partInstanceImpl (inst_setPlannedStartedPlayback x p)) = doc_core (partInstanceImpl p)"
  "doc_core (partInstanceImpl (inst_setPlannedStoppedPlayback x p)) = doc_core (partInstanceImpl p)"
  "doc_core (partInstanceImpl (snd (inst_setReportedStartedPlayback y p))) = doc_core (partInstanceImpl p)"
  "doc_core (partInstanceImpl (snd (inst_setReportedStoppedPlayback y p))) = doc_core (partInstanceImpl p)"
  by (simp_all add: doc_core_def set_timings_def compareAndSetPartInstanceValue_def setPartInstanceValue_def
      inst_setPlannedStartedPlayback_def inst_setPlannedStoppedPlayback_def inst_setReportedStartedPlayback_def
      inst_setReportedStoppedPlayback_def Let_def)

lemma piece_ops_core [simp]:
  "partInstanceImpl (inst_on_piece k f p) = partInstanceImpl p"
  "partInstanceImpl (put_piece k v p) = partInstanceImpl p"
  "partInstanceImpl (snd (insert_piece_instance x p)) = partInstanceImpl p"
  "partInstanceImpl (snd (insertVirtualPiece t a b c l s p)) = partInstanceImpl p"
  by (simp_all add: inst_on_piece_def put_piece_def insert_piece_instance_def insertVirtualPiece_def Let_def
      split: option.split)

lemma show_core_kept [simp]:
  "playlist (queuePartInstanceTimingEvent i m) = playlist m"
  "playlist (queueNotifyCurrentlyPlayingPartEvent rd q m) = playlist m"
  "show_core (playlist (setRundownStartedPlayback rd t m)) = show_core (playlist m)"
  by (simp_all add: queuePartInstanceTimingEvent_def queueNotifyCurrentlyPlayingPartEvent_def show_core_def
      setRundownStartedPlayback_def on_playlist_def Let_def split: option.split)

lemma other_ops_docs [simp]:
  "keeps_docs m (queuePartInstanceTimingEvent i m)"
  "keeps_docs m (queueNotifyCurrentlyPlayingPartEvent rd q m)"
  "keeps_docs m (setRundownStartedPlayback rd t m)"
  "keeps_docs m (setHoldState h m)"
  "keeps_docs m (setQueuedSegment s m)"
  "keeps_docs m (cycleSelectedPartInstances t m)"
  by (rule keeps_docs_cong, simp add: queuePartInstanceTimingEvent_def queueNotifyCurrentlyPlayingPartEvent_def
      setRundownStartedPlayback_def setHoldState_def setQueuedSegment_def cycleSelectedPartInstances_def
      on_playlist_def split: option.split)+

lemma same_show_on:
  assumes "\<And>p. doc_core (partInstanceImpl (f p)) = doc_core (partInstanceImpl p)"
  shows "same_show m (on_part_instance i f m)"
  using keeps_docs_on [OF assms] by (simp add: same_show_def)

lemma same_show_started: "same_show m (setRundownStartedPlayback rd t m)"
  and same_show_event: "same_show m (queuePartInstanceTimingEvent i m)"
  and same_show_notify: "same_show m (queueNotifyCurrentlyPlayingPartEvent rd q m)"
  by (simp_all add: same_show_def)

section \<open>Frames of the steps\<close>

lemma same_show_fold:
  assumes "\<And>x acc. same_show (snd acc) (snd (f x acc))"
  shows "same_show (snd acc) (snd (fold f xs acc))"
proof (induction xs arbitrary: acc)
  case Nil
  show ?case by simp
next
  case (Cons x xs)
  show ?case using same_show_trans [OF assms Cons.IH] by simp
qed

lemma stop_piece_same: "same_show (snd acc) (snd (stop_piece env i off rel kr acc))"
proof -
  obtain k r stopped m where kr: "kr = (k, r)" "acc = (stopped, m)" by (cases kr, cases acc) blast
  show ?thesis by (auto simp: kr stop_piece_def Let_def intro!: same_show_on split: option.split)
qed

lemma innerStopPieces_same:
  assumes "innerStopPieces env layers i f t m = Inr (ids, m')"
  shows "same_show m m'"
proof -
  from assms obtain off rel rs where "fold (stop_piece env i off rel) rs ([], m) = (ids, m')"
    by (auto simp: innerStopPieces_def Let_def split: option.splits)
  with same_show_fold [of "stop_piece env i off rel" "([], m)" rs, OF stop_piece_same] show ?thesis
    by (metis snd_conv)
qed

lemma hold_piece_same:
  assumes "hold_piece env a b k i m = Inr m'"
  shows "same_show m m'"
proof -
  let ?on = "\<lambda>q. on_part_instance a (put_piece i (Some q)) m"
  consider "m' = m" | q where "m' = ?on q"
    | q p e x where "part_instance_at b (?on q) = Some p" "insertHoldPieceInstance (take_now env) e p = Inr x"
        "m' = put_part_instance b (Some (inst_on_piece (fst x) (updatePieceProps
           (\<lambda>piece. piece\<lparr>piece_content := held_content (take_now env) e\<rparr>)) (snd x))) (?on q)"
    using assms by (fastforce simp: hold_piece_def Let_def split: option.splits if_splits sum.splits)
  then show ?thesis
  proof cases
    case 1
    then show ?thesis by simp
  next
    case 2
    then show ?thesis by (simp add: same_show_on)
  next
    case (3 q p e x)
    have "partInstanceImpl (snd x) = partInstanceImpl p"
      using 3(2) by (auto simp: insertHoldPieceInstance_def split: option.splits if_splits)
    then have "keeps_docs (?on q) m'" unfolding 3(3) by (intro keeps_docs_put [OF 3(1)]) simp
    moreover have "keeps_docs m (?on q)" by (rule keeps_docs_on) simp
    ultimately show ?thesis using keeps_docs_trans by (auto simp: same_show_def 3(3))
  qed
qed

lemma hold_pieces_same: "hold_pieces env a b k is m = Inr m' \<Longrightarrow> same_show m m'"
proof (induction env a b k "is" m rule: hold_pieces.induct)
  case (2 env a b k i "is" m)
  from "2.prems" obtain m1 where "hold_piece env a b k i m = Inr m1" "hold_pieces env a b (Suc k) is m1 = Inr m'"
    by (auto simp: and_then_Inr)
  with "2.IH" hold_piece_same same_show_trans show ?case by blast
qed simp

lemma activateHold_docs:
  assumes "activateHold env from i m = Inr m'"
  shows "show_core (playlist m') = show_core ((playlist m)\<lparr>holdState := Some HoldActive\<rparr>) \<and> keeps_docs m m'"
proof -
  from assms obtain k "is" where "hold_pieces env k i 0 is (setHoldState HoldActive m) = Inr m'"
    by (auto simp: activateHold_def Let_def split: option.splits)
  from hold_pieces_same [OF this] have "same_show (setHoldState HoldActive m) m'" .
  moreover have "playlist (setHoldState HoldActive m) = (playlist m)\<lparr>holdState := Some HoldActive\<rparr>"
    by (simp add: setHoldState_def on_playlist_def)
  ultimately show ?thesis
    using keeps_docs_trans [OF other_ops_docs(4) [of m HoldActive]] by (simp add: same_show_def)
qed

lemma completeHold_docs:
  assumes "completeHold env layers cur m = Inr m'"
  shows "show_core (playlist m') = show_core ((playlist m)\<lparr>holdState := Some HoldComplete\<rparr>) \<and> keeps_docs m m'"
proof -
  have pl: "playlist (setHoldState HoldComplete m) = (playlist m)\<lparr>holdState := Some HoldComplete\<rparr>"
    by (simp add: setHoldState_def on_playlist_def)
  from assms consider "m' = setHoldState HoldComplete m"
    | i ids where "innerStopPieces env layers i from_hold None (setHoldState HoldComplete m) = Inr (ids, m')"
    by (auto simp: completeHold_def Let_def and_then_Inr split: if_splits option.splits)
  then have "same_show (setHoldState HoldComplete m) m'" by cases (auto intro: innerStopPieces_same)
  then show ?thesis using keeps_docs_trans [OF other_ops_docs(4) [of m HoldComplete]] pl by (simp add: same_show_def)
qed

lemma same_show_put_instance:
  "part_instance_at i m = Some p \<Longrightarrow> doc_core (partInstanceImpl q) = doc_core (partInstanceImpl p) \<Longrightarrow>
     same_show m (put_part_instance i (Some q) m)"
  by (simp add: same_show_def keeps_docs_put)

lemma started_same: "same_show m (reportPartInstanceHasStarted env i t m)"
proof (cases "part_instance_at i m")
  case None
  then show ?thesis by (simp add: reportPartInstanceHasStarted_def)
next
  case (Some p)
  obtain b q where q: "inst_setReportedStartedPlayback t p = (b, q)" by force
  then have core: "doc_core (partInstanceImpl q) = doc_core (partInstanceImpl p)"
    using timings_core(4) [of t p] by simp
  define m1 where "m1 = put_part_instance i (Some q) m"
  define m1' where "m1' = (if t \<noteq> 0 then on_part_instance i (inst_setPlannedStartedPlayback (Some t)) m1 else m1)"
  define m2 where "m2 = (if isMultiGatewayMode env then m1
     else case previousPartInstance m1' of
               Some prev \<Rightarrow> if b then on_part_instance (inst_id (partInstanceImpl prev))
                                  (inst_setPlannedStoppedPlayback (Some t)) m1' else m1'
             | None \<Rightarrow> m1')"
  define m3 where "m3 = (if untimed (inst_part (partInstanceImpl q)) then m2
      else setRundownStartedPlayback (inst_rundownId (partInstanceImpl q)) t m2)"
  have 1: "same_show m m1" unfolding m1_def by (rule same_show_put_instance [OF Some core])
  have "same_show m1 m1'" by (simp add: m1'_def same_show_on)
  with 1 have 4: "same_show m m1'" by (rule same_show_trans)
  have "m2 = m1 \<or> same_show m1' m2" by (auto simp: m2_def same_show_on split: option.split)
  with 1 same_show_trans [OF 4] have 2: "same_show m m2" by blast
  have "same_show m2 m3" by (simp add: m3_def same_show_started)
  with 2 have 3: "same_show m m3" by (rule same_show_trans)
  have "reportPartInstanceHasStarted env i t m =
      (if b then queuePartInstanceTimingEvent (inst_id (partInstanceImpl q)) m3 else m3)"
    unfolding m3_def m2_def m1'_def m1_def
    by (simp only: reportPartInstanceHasStarted_def Some option.case q Let_def prod.case)
  with 3 same_show_trans [OF 3 same_show_event] show ?thesis by simp
qed

lemma stopped_same: "same_show m (reportPartInstanceHasStopped env i t m)"
proof (cases "part_instance_at i m")
  case None
  then show ?thesis by (simp add: reportPartInstanceHasStopped_def)
next
  case (Some p)
  obtain b q where q: "inst_setReportedStoppedPlayback t p = (b, q)" by force
  then have core: "doc_core (partInstanceImpl q) = doc_core (partInstanceImpl p)"
    using timings_core(5) [of t p] by simp
  define q' where "q' = (if b \<and> \<not> isMultiGatewayMode env then inst_setPlannedStoppedPlayback (Some t) q else q)"
  have "same_show m (put_part_instance i (Some q') m)"
    by (rule same_show_put_instance [OF Some]) (simp add: q'_def core)
  moreover have "reportPartInstanceHasStopped env i t m =
      (if b then queuePartInstanceTimingEvent (inst_id (partInstanceImpl q')) (put_part_instance i (Some q') m)
       else put_part_instance i (Some q') m)"
    by (simp only: reportPartInstanceHasStopped_def Some option.case q Let_def prod.case q'_def)
  ultimately show ?thesis using same_show_trans [OF _ same_show_event] by simp
qed

lemma afterTakeUpdate_same: "same_show m (afterTakeUpdateTimingsAndEvents env t m)"
  using same_show_trans [OF started_same stopped_same] started_same
  by (simp add: afterTakeUpdateTimingsAndEvents_def Let_def split: option.split)

section \<open>Setting the next part keeps what is on air\<close>

lemma new_next_instance:
  assumes r: "prepare_next env (ChoicePart part c) m = Inr (i, c', m')" and "nextPartInfo (playlist m) = None"
  shows "\<exists>n. i = part_id part @ ''_'' @ env_random env n"
proof -
  have "nextPartInstance m = None" using assms(2) by (simp add: nextPartInstance_def selected_instance_def)
  with r have "preparePartInstanceForPartBeingNexted env part m = Inr (i, m')"
    by (auto simp: prepare_next_def Let_def and_then_Inr split: if_splits)
  then obtain r' n ps where "createInstanceForPart (env_now env) (env_random env n) r' part ps m = Inr (i, m')"
    by (auto simp: preparePartInstanceForPartBeingNexted_def and_then_Inr split: option.splits)
  with create_instance_docs show ?thesis by blast
qed

lemma finish_keeps_current:
  assumes wf: "playout_wf m" and f: "finish_set_next m = (jobs, m')"
    and cur: "currentPartInfo (playlist m) = Some x" "sel_partInstanceId x \<noteq> []"
  shows "playlist m' = playlist m" "playout_wf m'" "doc_at (sel_partInstanceId x) m' = doc_at (sel_partInstanceId x) m"
proof -
  from finish_set_next_docs [OF wf f] obtain b where m': "playlist m' = playlist m" "playout_wf m'"
      "\<forall>j. b j \<longrightarrow> j \<noteq> [] \<longrightarrow> j \<notin> on_air_ids m"
      "\<forall>j. doc_at j m' = map_option (reset_if (b j)) (case doc_at j m of None \<Rightarrow> None
         | Some d \<Rightarrow> if j \<notin> set (selectedPartInstanceIds m) \<and> \<not> isTaken d then None else Some d)"
    by (elim exE conjE)
  show "playlist m' = playlist m" "playout_wf m'" using m' by simp_all
  have "\<not> b (sel_partInstanceId x)" using m'(3) cur by (auto simp: on_air_ids_iff)
  moreover have "sel_partInstanceId x \<in> set (selectedPartInstanceIds m)" using cur by (simp add: in_selected_ids)
  ultimately show "doc_at (sel_partInstanceId x) m' = doc_at (sel_partInstanceId x) m"
    by (simp add: m'(4) split: option.split)
qed

lemma set_next_keeps_current:
  assumes env: "keeps_selection env" and wf: "playout_wf m" and r: "setNextPart env c False None m = Inr (jobs, m')"
    and choice: "c = None \<or> (\<exists>part q. c = Some (ChoicePart part q))"
    and sel: "nextPartInfo (playlist m) = None" "currentPartInfo (playlist m) = Some x" "sel_partInstanceId x \<noteq> []"
    and fresh: "\<And>p n. doc_at (p @ ''_'' @ env_random env n) m = None"
    and d: "doc_at (sel_partInstanceId x) m = Some d"
  shows "\<exists>y. playlist m' = (playlist m)\<lparr>nextPartInfo := y, nextTimeOffset := None\<rparr> \<and> playout_wf m'
    \<and> (y = None \<longleftrightarrow> c = None) \<and> map_option doc_core (doc_at (sel_partInstanceId x) m') = Some (doc_core d)"
proof (cases c)
  case None
  let ?m = "on_playlist (\<lambda>p. p\<lparr>nextPartInfo := None, nextTimeOffset := None\<rparr>) m"
  have f: "finish_set_next ?m = (jobs, m')" using r None by (simp add: setNextPart_def setPartInstanceAsNext_def)
  have all: "allPartInstances ?m = allPartInstances m" by (simp add: on_playlist_def)
  have cur: "currentPartInfo (playlist ?m) = Some x" using sel by (simp add: on_playlist_def)
  note m' = finish_keeps_current [OF _ f cur sel(3)]
  show ?thesis using m' wf d playout_wf_cong [OF all] doc_at_cong [OF all] None
    by (auto simp: on_playlist_def intro!: exI [of _ None])
next
  case (Some ch)
  with choice obtain part q where ch: "ch = ChoicePart part q" by blast
  let ?i = "sel_partInstanceId x"
  from r Some obtain i c' m1 m3 where
      1: "prepare_next env ch m = Inr (i, c', m1)" and
      3: "setPartInstanceAsNext (Some i) False c' None (reset_other_instances i m1) = Inr m3" and
      5: "finish_set_next (executeOnSetAsNextCallback env i m3) = (jobs, m')"
    by (auto simp: setNextPart_def and_then_Inr split: if_splits)
  from new_next_instance [OF 1 [unfolded ch] sel(1)] obtain n where n: "i = part_id part @ ''_'' @ env_random env n" ..
  have "doc_at i m = None" unfolding n by (rule fresh)
  with d have ne: "i \<noteq> ?i" by auto
  from prepare_next_docs [OF wf 1] obtain e where m1: "playlist m1 = playlist m" "playout_wf m1"
      "\<forall>j. j \<noteq> i \<longrightarrow> doc_at j m1 = doc_at j m" "doc_at i m1 = Some e" by blast
  note m2 = reset_other_docs [OF m1(2,4)]
  have "?i \<in> set (filter (\<lambda>i. i \<noteq> []) (i # map sel_partInstanceId
      (compact [currentPartInfo (playlist m1), previousPartInfo (playlist m1)])))"
    using sel(2,3) by (simp add: m1(1))
  then have d2: "doc_at ?i (reset_other_instances i m1) = Some d" using m1(3) ne d by (simp add: m2(3))
  obtain e2 where e2: "doc_at i (reset_other_instances i m1) = Some e2" by (simp add: m2(3) m1(4))
  note m3 = set_as_next_docs [OF 3 m2(2) e2]
  note m4 = callback_docs [OF env m3(2), where i = i]
  have cur: "currentPartInfo (playlist (executeOnSetAsNextCallback env i m3)) = Some x"
    using sel(2) by (simp add: m4(1) m3(1) m2(1) m1(1))
  note m' = finish_keeps_current [OF m4(2) 5 cur sel(3)]
  have "map_option doc_core (doc_at ?i m') = Some (doc_core d)"
    by (simp only: m'(3) m4(3) m3(3) d2 option.map)
  moreover obtain z where "playlist m' = (playlist m)\<lparr>nextPartInfo := Some z, nextTimeOffset := None\<rparr>"
    using that by (simp add: m'(1) m4(1) m3(1) m2(1) m1(1))
  ultimately show ?thesis using m'(2) Some by (intro exI [of _ "Some z"]) simp
qed

section \<open>The part instance that is taken\<close>

text \<open>
  What is assumed of the blueprint and of the generation of the timeline: they leave the selection and the
  identity, place and state of the part instances alone.
\<close>

definition take_env_ok :: "take_env \<Rightarrow> bool" where
  "take_env_ok env = (keeps_selection (base_env env) \<and> (\<forall>m. same_show m (env_updateTimeline env m))
     \<and> (\<forall>m. same_show m (snd (env_onTake env m))))"

definition taken_core where
  "taken_core d = doc_core (d\<lparr>isTaken := True\<rparr>)"

lemma taken_core_cong: "doc_core d = doc_core e \<Longrightarrow> taken_core d = taken_core e"
  by (simp add: taken_core_def doc_core_def)

lemma taken_core_twice: "doc_core d = taken_core e \<Longrightarrow> taken_core d = taken_core e"
  by (simp add: taken_core_def doc_core_def)

lemma store_timings_core [simp]:
  "doc_core (partInstanceImpl (storePlayoutTimingsAndPreviousEndState t e p)) = taken_core (partInstanceImpl p)"
  by (simp add: storePlayoutTimingsAndPreviousEndState_def setPartInstanceValue_def compareAndSetPartInstanceValue_def
      taken_core_def doc_core_def)

lemma setTaken_core [simp]: "doc_core (partInstanceImpl (setTaken n t off p)) = taken_core (partInstanceImpl p)"
  by (simp add: setTaken_def set_timings_def setPartInstanceValue_def compareAndSetPartInstanceValue_def
      taken_core_def doc_core_def Let_def split: option.split)

lemma taken_on:
  assumes f: "\<And>p. doc_core (partInstanceImpl (f p)) = taken_core (partInstanceImpl p)"
    and wf: "playout_wf m" and d: "doc_at i m = Some d"
  shows "playout_wf (on_part_instance i f m)"
    and "\<exists>e. doc_at i (on_part_instance i f m) = Some e \<and> doc_core e = taken_core d"
proof -
  have "inst_id (partInstanceImpl (f p)) = inst_id (partInstanceImpl p)" for p
    using f [of p] by (simp add: doc_core_def taken_core_def)
  then show "playout_wf (on_part_instance i f m)" by (rule wf_on_part_instance [OF wf])
  from d obtain p where "part_instance_at i m = Some p" "d = partInstanceImpl p" by (auto simp: doc_at_def)
  then show "\<exists>e. doc_at i (on_part_instance i f m) = Some e \<and> doc_core e = taken_core d"
    by (simp add: doc_at_on f)
qed

lemma resetPreviousSegment_current:
  assumes wf: "playout_wf m" and cur: "currentPartInfo (playlist m) = Some x" "sel_partInstanceId x \<noteq> []"
    and d: "doc_at (sel_partInstanceId x) m = Some d"
  shows "playlist (resetPreviousSegment m) = playlist m" "playout_wf (resetPreviousSegment m)"
    "doc_at (sel_partInstanceId x) (resetPreviousSegment m) = Some d"
proof -
  from d obtain p where p: "part_instance_at (sel_partInstanceId x) m = Some p" "d = partInstanceImpl p"
    by (auto simp: doc_at_def)
  have c: "currentPartInstance m = Some p"
    using cur p by (simp add: currentPartInstance_def selected_instance_def truthy_str_def)
  show "playlist (resetPreviousSegment m) = playlist m"
    by (simp add: resetPreviousSegment_def Let_def playlist_reset_all split: option.split)
  show "playout_wf (resetPreviousSegment m)"
    using wf by (simp add: resetPreviousSegment_def Let_def wf_reset_all split: option.split)
  show "doc_at (sel_partInstanceId x) (resetPreviousSegment m) = Some d"
  proof (cases "resetPreviousSegment m = m")
    case True
    with d show ?thesis by simp
  next
    case False
    then obtain prev where prev: "previousPartInstance m = Some prev"
        "inst_segmentId d \<noteq> inst_segmentId (partInstanceImpl prev)"
        "resetPreviousSegment m = fold (\<lambda>i. on_part_instance i markAsReset)
           (map inst_id (filter (\<lambda>d. inst_segmentId d = inst_segmentId (partInstanceImpl prev))
             (map partInstanceImpl (loadedPartInstances m)))) m"
      by (auto simp: resetPreviousSegment_def Let_def c p(2) split: option.splits if_splits)
    have "sel_partInstanceId x \<notin> set (map inst_id (filter (\<lambda>d. inst_segmentId d = inst_segmentId (partInstanceImpl prev))
             (map partInstanceImpl (loadedPartInstances m))))"
    proof
      assume "sel_partInstanceId x \<in> set (map inst_id (filter (\<lambda>d. inst_segmentId d = inst_segmentId (partInstanceImpl prev))
             (map partInstanceImpl (loadedPartInstances m))))"
      then obtain q where "q \<in> set (loadedPartInstances m)" "inst_id (partInstanceImpl q) = sel_partInstanceId x"
          "inst_segmentId (partInstanceImpl q) = inst_segmentId (partInstanceImpl prev)" by auto
      then obtain e where e: "e \<in> partInstanceImpl ` set (loadedPartInstances m)" "inst_id e = sel_partInstanceId x"
          "inst_segmentId e = inst_segmentId (partInstanceImpl prev)" by blast
      from e(1) loaded_docs [OF wf] have "doc_at (inst_id e) m = Some e" by simp
      with e(2,3) d prev(2) show False by simp
    qed
    then show ?thesis unfolding prev(3) doc_at_reset_all d by simp
  qed
qed

lemma playlist_update_on_take [simp]: "playlist (updatePartInstanceOnTake env layers i cur m) = playlist m"
  by (simp add: updatePartInstanceOnTake_def Let_def)

lemma move_to_taken_docs:
  assumes wf: "playout_wf m" and nxt: "nextPartInfo (playlist m) = Some x" "sel_partInstanceId x \<noteq> []"
    and d: "doc_at (sel_partInstanceId x) m = Some d"
  shows "playlist (move_to_taken env layers (sel_partInstanceId x) cur off m) =
      (playlist m)\<lparr>previousPartInfo := currentPartInfo (playlist m), currentPartInfo := Some x, nextPartInfo := None,
        lastTakeTime := Some (take_now env)\<rparr>"
    and "playout_wf (move_to_taken env layers (sel_partInstanceId x) cur off m)"
    and "\<exists>e. doc_at (sel_partInstanceId x) (move_to_taken env layers (sel_partInstanceId x) cur off m) = Some e
      \<and> doc_core e = taken_core d"
proof -
  let ?i = "sel_partInstanceId x"
  let ?u = "updatePartInstanceOnTake env layers ?i cur m"
  let ?c = "cycleSelectedPartInstances (take_now env) ?u"
  let ?t = "on_part_instance ?i (setTaken (take_now env) (take_now env) off) ?c"
  have u: "playout_wf ?u" "\<exists>e. doc_at ?i ?u = Some e \<and> doc_core e = taken_core d"
    unfolding updatePartInstanceOnTake_def Let_def by (rule taken_on [OF _ wf d], simp)+
  have all: "allPartInstances ?c = allPartInstances ?u" by (simp add: cycleSelectedPartInstances_def on_playlist_def)
  have c: "playout_wf ?c" using u(1) playout_wf_cong [OF all] by simp
  from u(2) obtain e where e: "doc_at ?i ?c = Some e" "doc_core e = taken_core d"
    using doc_at_cong [OF all] by auto
  have t: "playout_wf ?t" by (rule taken_on(1) [OF _ c e(1)]) simp
  obtain f where f: "doc_at ?i ?t = Some f" "doc_core f = taken_core e"
    using taken_on(2) [where f = "setTaken (take_now env) (take_now env) off", OF setTaken_core c e(1)] by blast
  have pl: "playlist ?t = (playlist m)\<lparr>previousPartInfo := currentPartInfo (playlist m), currentPartInfo := Some x,
      nextPartInfo := None, lastTakeTime := Some (take_now env)\<rparr>"
    using nxt(1) by (simp add: cycleSelectedPartInstances_def on_playlist_def)
  have cur: "currentPartInfo (playlist ?t) = Some x" unfolding pl by simp
  note r = resetPreviousSegment_current [OF t cur nxt(2) f(1)]
  show "playlist (move_to_taken env layers ?i cur off m) =
      (playlist m)\<lparr>previousPartInfo := currentPartInfo (playlist m), currentPartInfo := Some x, nextPartInfo := None,
        lastTakeTime := Some (take_now env)\<rparr>"
    by (simp only: move_to_taken_def r(1) pl)
  show "playout_wf (move_to_taken env layers ?i cur off m)" unfolding move_to_taken_def by (rule r(2))
  show "\<exists>e. doc_at ?i (move_to_taken env layers ?i cur off m) = Some e \<and> doc_core e = taken_core d"
    unfolding move_to_taken_def using r(3) f(2) taken_core_twice [OF e(2)] by auto
qed

lemma no_doc_on: "doc_at j m = None \<Longrightarrow> doc_at j (on_part_instance i f m) = None"
  by (auto simp: doc_at_on) (simp add: doc_at_def)

lemma no_doc_move:
  assumes "doc_at j m = None"
  shows "doc_at j (move_to_taken env layers i cur off m) = None"
proof -
  have cycle: "doc_at j (cycleSelectedPartInstances t m) = doc_at j m" for t m
    by (rule doc_at_cong) (simp add: cycleSelectedPartInstances_def on_playlist_def)
  have reset: "doc_at j m = None \<Longrightarrow> doc_at j (resetPreviousSegment m) = None" for m
    by (simp add: resetPreviousSegment_def Let_def doc_at_reset_all split: option.split)
  show ?thesis unfolding move_to_taken_def
    by (intro reset no_doc_on) (simp add: cycle updatePartInstanceOnTake_def Let_def no_doc_on assms)
qed

lemma clear_planned_same: "same_show m (on_part_instance i clear_planned m)"
  by (rule same_show_on) (simp add: clear_planned_def)

lemma keeps_no_doc: "keeps_docs m m' \<Longrightarrow> doc_at j m = None \<Longrightarrow> doc_at j m' = None"
  unfolding keeps_docs_def by (metis option.map_disc_iff)

lemma clear_queued_docs:
  "keeps_docs m (clearQueuedSegmentId d info m)"
  "playlist (clearQueuedSegmentId d info m) = (playlist m)\<lparr>queuedSegmentId :=
     (case (info, d) of (Some x, Some e) \<Rightarrow> if sel_consumesQueuedSegmentId x \<and> queuedSegmentId (playlist m) = Some (inst_segmentId e)
        then None else queuedSegmentId (playlist m) | _ \<Rightarrow> queuedSegmentId (playlist m))\<rparr>"
  by (auto simp: clearQueuedSegmentId_def setQueuedSegment_def on_playlist_def
      intro: keeps_docs_cong split: option.split)

lemma select_after_part: "select_after d m = None \<or> (\<exists>part q. select_after d m = Some (ChoicePart part q))"
  by (auto simp: select_after_def next_choice_of_def)

lemma afterTake_same:
  assumes "take_env_ok env"
  shows "same_show m (afterTake env i m)"
proof -
  have "same_show m (env_updateTimeline env m)" using assms by (simp add: take_env_ok_def)
  then show ?thesis using same_show_trans [OF _ same_show_notify] by (simp add: afterTake_def Let_def split: option.split)
qed

text \<open>The playlist after a take, but for the part that is next then\<close>

definition taken_playlist ::
  "time \<Rightarrow> SelectedPartInstance \<Rightarrow> SegmentId \<Rightarrow> SelectedPartInstance option \<Rightarrow> DBRundownPlaylist \<Rightarrow> DBRundownPlaylist" where
  "taken_playlist now x segmentId y p = p\<lparr>previousPartInfo := currentPartInfo p, currentPartInfo := Some x, nextPartInfo := y,
     nextTimeOffset := None, lastTakeTime := Some now,
     queuedSegmentId := (if sel_consumesQueuedSegmentId x \<and> queuedSegmentId p = Some segmentId then None else queuedSegmentId p),
     holdState := (if holdState p = Some HoldPending then Some HoldActive else holdState p)\<rparr>"

lemma take_next_outcome:
  assumes env: "take_env_ok env" and wf: "playout_wf m"
    and nxt: "nextPartInfo (playlist m) = Some x" "sel_partInstanceId x \<noteq> []"
    and p: "inst_id (partInstanceImpl p) = sel_partInstanceId x"
    and d: "doc_at (sel_partInstanceId x) m = Some d"
    and fresh: "\<And>p n. doc_at (p @ ''_'' @ env_random (base_env env) n) m = None"
    and r: "take_next env layers p cur off m = Inr (jobs, deferred, m')"
  shows "(\<exists>y. show_core (playlist m') = show_core (taken_playlist (take_now env) x (inst_segmentId d) y (playlist m)))
    \<and> playout_wf m' \<and> deferred \<noteq> None \<and> (\<exists>e. doc_at (sel_partInstanceId x) m' = Some e \<and> doc_core e = taken_core d)"
proof -
  let ?i = "sel_partInstanceId x"
  define m1 where "m1 = on_part_instance ?i clear_planned m"
  have s1: "playlist m1 = playlist m" "keeps_docs m m1"
    using clear_planned_same [of m ?i] by (simp_all add: m1_def same_show_def)
  obtain d1 where d1: "doc_at ?i m1 = Some d1" "doc_core d1 = doc_core d" using keeps_docs_doc [OF s1(2) d] by blast
  then obtain p1 where p1: "part_instance_at ?i m1 = Some p1" "partInstanceImpl p1 = d1" by (auto simp: doc_at_def)
  have seg: "inst_segmentId d1 = inst_segmentId d" using d1(2) by (simp add: doc_core_def)
  define m2 where "m2 = clearQueuedSegmentId (Some d1) (nextPartInfo (playlist m)) m1"
  have s2: "playlist m2 = (playlist m)\<lparr>queuedSegmentId := queuedSegmentId (taken_playlist (take_now env) x (inst_segmentId d) None (playlist m))\<rparr>"
    and k2: "keeps_docs m m2"
    using nxt(1) s1 seg keeps_docs_trans [OF s1(2) clear_queued_docs(1)]
    by (simp_all add: m2_def clear_queued_docs(2) taken_playlist_def)
  have nxt2: "nextPartInfo (playlist m2) = Some x" using nxt(1) by (simp add: s2)
  have wf2: "playout_wf m2" using k2 wf by (simp add: keeps_docs_def)
  obtain d2 where d2: "doc_at ?i m2 = Some d2" "doc_core d2 = doc_core d" using keeps_docs_doc [OF k2 d] by blast
  define m3 where "m3 = move_to_taken env layers ?i cur off m2"
  note s3 = move_to_taken_docs [OF wf2 nxt2 nxt(2) d2(1), of env layers cur off, folded m3_def]
  obtain d3 where d3: "doc_at ?i m3 = Some d3" "doc_core d3 = taken_core d"
    using s3(3) taken_core_cong [OF d2(2)] by auto
  have fresh3: "doc_at (p @ ''_'' @ env_random (base_env env) n) m3 = None" for p n
    unfolding m3_def by (rule no_doc_move [OF keeps_no_doc [OF k2 fresh]])
  from r obtain m4 m5 where
      4: "setNextPart (base_env env) (select_after d1 m2) False None m3 = Inr (jobs, m4)" and
      5: "(if holdState (playlist m4) = Some HoldPending then activateHold env cur ?i m4 else Inr m4) = Inr m5" and
      6: "m' = afterTake env ?i m5" "deferred \<noteq> None"
    by (auto simp: take_next_def Let_def p m1_def [symmetric] p1 m2_def [symmetric] m3_def [symmetric] and_then_Inr)
  have sel3: "nextPartInfo (playlist m3) = None" "currentPartInfo (playlist m3) = Some x" by (simp_all add: s3(1))
  have "keeps_selection (base_env env)" using env by (simp add: take_env_ok_def)
  from set_next_keeps_current [OF this s3(2) 4 select_after_part sel3 nxt(2) fresh3 d3(1)]
  obtain y where m4: "playlist m4 = (playlist m3)\<lparr>nextPartInfo := y, nextTimeOffset := None\<rparr>" "playout_wf m4"
      "map_option doc_core (doc_at ?i m4) = Some (doc_core d3)" by blast
  have "keeps_docs m4 m5 \<and> show_core (playlist m5) = show_core ((playlist m4)\<lparr>holdState :=
      (if holdState (playlist m4) = Some HoldPending then Some HoldActive else holdState (playlist m4))\<rparr>)"
    using 5 activateHold_docs by (auto split: if_splits)
  then have m5: "keeps_docs m4 m5" "show_core (playlist m5) = show_core ((playlist m4)\<lparr>holdState :=
      (if holdState (playlist m4) = Some HoldPending then Some HoldActive else holdState (playlist m4))\<rparr>)" by blast+
  from afterTake_same [OF env] have m6: "keeps_docs m5 m'" "show_core (playlist m') = show_core (playlist m5)"
    by (simp_all add: same_show_def 6(1))
  have k: "keeps_docs m4 m'" using keeps_docs_trans [OF m5(1) m6(1)] .
  have "show_core (playlist m') = show_core (taken_playlist (take_now env) x (inst_segmentId d) y (playlist m))"
    unfolding m6(2) m5(2) m4(1) s3(1) s2 by (simp add: taken_playlist_def show_core_def)
  moreover from m4(3) obtain d4 where "doc_at ?i m4 = Some d4" "doc_core d4 = taken_core d" using d3(2) by auto
  with keeps_docs_doc [OF k] have "\<exists>e. doc_at ?i m' = Some e \<and> doc_core e = taken_core d" by fastforce
  moreover have "playout_wf m'" using k m4(2) by (simp add: keeps_docs_def)
  ultimately show ?thesis using 6(2) by blast
qed

section \<open>The take job\<close>

lemma handleTake_perform:
  assumes "handleTakeNextPart env from m = Inr (jobs, m')"
  shows "\<exists>deferred m2. performTakeToNextedPart env m = Inr (jobs, deferred, m2) \<and> same_show m2 m'
    \<and> take_allowed from (playlist m) = None
    \<and> \<not> (last_take_time m \<noteq> 0 \<and> take_now env - last_take_time m < env_minimumTakeSpan env)"
  using assms afterTakeUpdate_same
  by (auto simp: handleTakeNextPart_def and_then_Inr split: option.splits if_splits)

definition hold_cleared :: "PlayoutModel \<Rightarrow> PlayoutModel" where
  "hold_cleared m = (if holdState (playlist m) = Some HoldComplete then setHoldState HoldNone m else m)"

lemma hold_cleared_docs:
  "keeps_docs m (hold_cleared m)"
  "show_core (playlist (hold_cleared m)) = show_core ((playlist m)\<lparr>holdState :=
     (if holdState (playlist m) = Some HoldComplete then Some HoldNone else holdState (playlist m))\<rparr>)"
  by (simp_all add: hold_cleared_def) (simp_all add: setHoldState_def on_playlist_def)

text \<open>The three ways in which a take ends: it completes hold, it is aborted by the blueprint, or the next part goes on air.\<close>

lemma perform_cases:
  assumes "performTakeToNextedPart env m = Inr (jobs, deferred, m2)"
  obtains (hold) layers cur m1 where "holdState (playlist m) = Some HoldActive"
      "completeHold env layers cur m = Inr m1" "m2 = env_updateTimeline env m1" "jobs = []"
  | (aborted) "holdState (playlist m) \<noteq> Some HoldActive" "fst (env_onTake env (hold_cleared m))"
      "m2 = env_updateTimeline env (snd (env_onTake env (hold_cleared m)))" "jobs = []"
  | (taken) p layers cur off where "holdState (playlist m) \<noteq> Some HoldActive" "nextPartInstance m = Some p"
      "\<not> fst (env_onTake env (hold_cleared m))"
      "take_next env layers p cur off (snd (env_onTake env (hold_cleared m))) = Inr (jobs, deferred, m2)"
proof -
  define layers where "layers k = env_sourceLayers (base_env env) (rd_showStyleBaseId (rundown_doc k))" for k :: PlayoutRundownModel
  define off where "off = (if truthy_num (nextTimeOffset (playlist m)) then nextTimeOffset (playlist m) else None)"
  define cur where "cur = map_option (\<lambda>p. inst_id (partInstanceImpl p)) (currentPartInstance m)"
  obtain b k where o: "env_onTake env (hold_cleared m) = (b, k)" by force
  show ?thesis
  proof (cases "holdState (playlist m) = Some HoldActive")
    case True
    with assms obtain r m1 where h: "completeHold env (layers r) cur m = Inr m1" "m2 = env_updateTimeline env m1" "jobs = []"
      by (auto simp: performTakeToNextedPart_def Let_def and_then_Inr layers_def cur_def split: option.splits if_splits)
    show ?thesis by (rule hold [OF True h])
  next
    case False
    with assms obtain r p where p: "nextPartInstance m = Some p"
        "(if b then Inr ([], None, env_updateTimeline env k) else take_next env (layers r) p cur off k) = Inr (jobs, deferred, m2)"
      unfolding performTakeToNextedPart_def Let_def hold_cleared_def [symmetric] o layers_def cur_def off_def
      by (auto split: option.splits if_splits)
    show ?thesis
    proof (cases b)
      case True
      with p False o show ?thesis by (intro aborted) auto
    next
      case not_aborted: False
      with p False o show ?thesis by (intro taken [of p]) auto
    qed
  qed
qed

definition cleared_playlist :: "DBRundownPlaylist \<Rightarrow> DBRundownPlaylist" where
  "cleared_playlist p = p\<lparr>holdState := (if holdState p = Some HoldComplete then Some HoldNone else holdState p)\<rparr>"

lemma take_result:
  assumes env: "take_env_ok env" and wf: "playout_wf m"
    and fresh: "\<And>p n. doc_at (p @ ''_'' @ env_random (base_env env) n) m = None"
    and r: "handleTakeNextPart env from m = Inr (jobs, m')"
    and "holdState (playlist m) \<noteq> Some HoldActive" and not_aborted: "\<And>k. \<not> fst (env_onTake env k)"
  shows "\<exists>x d e y. nextPartInfo (playlist m) = Some x \<and> doc_at (sel_partInstanceId x) m = Some d
    \<and> doc_at (sel_partInstanceId x) m' = Some e \<and> doc_core e = taken_core d
    \<and> show_core (playlist m') =
         show_core (taken_playlist (take_now env) x (inst_segmentId d) y (cleared_playlist (playlist m))) \<and> playout_wf m'"
proof -
  from handleTake_perform [OF r] obtain deferred m2 where p: "performTakeToNextedPart env m = Inr (jobs, deferred, m2)"
      and s: "show_core (playlist m') = show_core (playlist m2)" "keeps_docs m2 m'"
    by (auto simp: same_show_def)
  obtain q layers cur off where
      q: "nextPartInstance m = Some q" and
      t: "take_next env layers q cur off (snd (env_onTake env (hold_cleared m))) = Inr (jobs, deferred, m2)"
    using assms(5) not_aborted by (cases rule: perform_cases [OF p]) blast+
  define k where "k = snd (env_onTake env (hold_cleared m))"
  from selected_doc [OF q [unfolded nextPartInstance_def]] obtain x where
      x: "nextPartInfo (playlist m) = Some x" "sel_partInstanceId x \<noteq> []"
        "doc_at (sel_partInstanceId x) m = Some (partInstanceImpl q)" by blast
  have "same_show (hold_cleared m) k" using env by (simp add: take_env_ok_def k_def)
  then have k: "keeps_docs m k" "show_core (playlist k) = show_core (cleared_playlist (playlist m))"
    using keeps_docs_trans [OF hold_cleared_docs(1)] hold_cleared_docs(2) [of m]
    by (simp_all add: same_show_def cleared_playlist_def)
  have nxt: "nextPartInfo (playlist k) = Some x"
    using k(2) x(1) by (simp add: show_core_def cleared_playlist_def)
  have wfk: "playout_wf k" using k(1) wf by (simp add: keeps_docs_def)
  from keeps_docs_doc [OF k(1) x(3)] obtain d where
      d: "doc_at (sel_partInstanceId x) k = Some d" "doc_core d = doc_core (partInstanceImpl q)" by blast
  have "inst_id (partInstanceImpl q) = sel_partInstanceId x" by (rule playout_wfD [OF wf x(3)])
  from take_next_outcome [OF env wfk nxt x(2) this d(1) keeps_no_doc [OF k(1) fresh] t [folded k_def]]
  obtain y e where out: "show_core (playlist m2) = show_core (taken_playlist (take_now env) x (inst_segmentId d) y (playlist k))"
      "doc_at (sel_partInstanceId x) m2 = Some e" "doc_core e = taken_core d" and wf2: "playout_wf m2" by blast
  have wf': "playout_wf m'" using s(2) wf2 by (simp add: keeps_docs_def)
  from keeps_docs_doc [OF s(2) out(2)] obtain e' where
      e: "doc_at (sel_partInstanceId x) m' = Some e'" "doc_core e' = taken_core (partInstanceImpl q)"
    using out(3) taken_core_cong [OF d(2)] by auto
  have "inst_segmentId d = inst_segmentId (partInstanceImpl q)" using d(2) by (simp add: doc_core_def)
  then have "show_core (playlist m') =
      show_core (taken_playlist (take_now env) x (inst_segmentId (partInstanceImpl q)) y (cleared_playlist (playlist m)))"
    using s(1) out(1) k(2) by (simp add: show_core_def taken_playlist_def)
  with x(1,3) e wf' show ?thesis by blast
qed

text \<open>
  C7. A take that is neither the end of hold nor aborted by the blueprint puts the next part on air: it was asked
  for from the part that was current, the selection moves on by one, the time of the take is recorded, the queued
  segment is cleared when the part consumes it, a hold that was pending is active and one that was complete is
  over. The part instance is the one that was next, marked as taken and not reset.
\<close>

theorem take_moves_on:
  assumes "take_env_ok env" and "playout_wf m"
    and "\<And>p n. doc_at (p @ ''_'' @ env_random (base_env env) n) m = None"
    and r: "handleTakeNextPart env from m = Inr (jobs, m')"
    and "holdState (playlist m) \<noteq> Some HoldActive" and "\<And>k. \<not> fst (env_onTake env k)"
  shows "from = map_option sel_partInstanceId (currentPartInfo (playlist m))
    \<and> (\<exists>x d e. nextPartInfo (playlist m) = Some x \<and> doc_at (sel_partInstanceId x) m = Some d
      \<and> doc_at (sel_partInstanceId x) m' = Some e
      \<and> currentPartInfo (playlist m') = Some x \<and> previousPartInfo (playlist m') = currentPartInfo (playlist m)
      \<and> lastTakeTime (playlist m') = Some (take_now env)
      \<and> queuedSegmentId (playlist m') = (if sel_consumesQueuedSegmentId x \<and> queuedSegmentId (playlist m) = Some (inst_segmentId d)
           then None else queuedSegmentId (playlist m))
      \<and> holdState (playlist m') = (if holdState (playlist m) = Some HoldPending then Some HoldActive
           else if holdState (playlist m) = Some HoldComplete then Some HoldNone else holdState (playlist m))
      \<and> isTaken e \<and> inst_reset e = inst_reset d \<and> inst_segmentId e = inst_segmentId d
      \<and> part_id (inst_part e) = part_id (inst_part d))"
proof -
  have allowed: "from = map_option sel_partInstanceId (currentPartInfo (playlist m))"
    using handleTake_perform [OF r] by (auto simp: take_allowed_def split: if_splits)
  from take_result [OF assms] obtain x d e y where t: "nextPartInfo (playlist m) = Some x"
      "doc_at (sel_partInstanceId x) m = Some d" "doc_at (sel_partInstanceId x) m' = Some e" "doc_core e = taken_core d"
      "show_core (playlist m') =
         show_core (taken_playlist (take_now env) x (inst_segmentId d) y (cleared_playlist (playlist m)))" by blast
  have "currentPartInfo (playlist m') = Some x" "previousPartInfo (playlist m') = currentPartInfo (playlist m)"
      "lastTakeTime (playlist m') = Some (take_now env)"
      "queuedSegmentId (playlist m') = (if sel_consumesQueuedSegmentId x \<and> queuedSegmentId (playlist m) = Some (inst_segmentId d)
         then None else queuedSegmentId (playlist m))"
      "holdState (playlist m') = (if holdState (playlist m) = Some HoldPending then Some HoldActive
         else if holdState (playlist m) = Some HoldComplete then Some HoldNone else holdState (playlist m))"
    using t(5) by (simp_all add: show_core_def taken_playlist_def cleared_playlist_def)
  moreover have "isTaken e" "inst_reset e = inst_reset d" "inst_segmentId e = inst_segmentId d"
      "part_id (inst_part e) = part_id (inst_part d)"
    using t(4) by (simp_all add: taken_core_def doc_core_def)
  ultimately show ?thesis using allowed t(1-3) by blast
qed


text \<open>The first of two parts is on air and hold is pending when the second is taken; another take follows.\<close>

definition ex_take_env :: "time \<Rightarrow> take_env" where
  "ex_take_env now = \<lparr>base_env = ex_env\<lparr>env_now := now\<rparr>, env_minimumTakeSpan = 500, env_forceMultiGatewayMode = False,
     env_multiGatewayNowSafeLatency = None, env_playoutDevices = [[]], env_updateTimeline = \<lambda>m. m,
     env_onTake = \<lambda>m. (False, m), env_getEndStateForPart = \<lambda>_ _ _ _. None\<rparr>"

definition ex_taking :: "RundownHoldState option \<Rightarrow> time option \<Rightarrow> PlayoutModel" where
  "ex_taking h t = new_playout_model True ((ex_playlist (Some ''i1'') (Some ''i2''))\<lparr>holdState := h, lastTakeTime := t\<rparr>)
     [new_part_instance_model (ex_on_air\<lparr>isTaken := True, inst_part := (inst_part ex_on_air)\<lparr>holdMode := Some HoldModeFrom\<rparr>\<rparr>)
        [ex_on_air_piece\<lparr>pi_piece := (pi_piece ex_on_air_piece)\<lparr>extendOnHold := True\<rparr>\<rparr>] False,
      new_part_instance_model (sample_part_instance ''i2'' ((sample_part ''p2'' 2 ''s1'')\<lparr>holdMode := Some HoldModeTo\<rparr>)) [] False] [ex_rundown]"

lemma ex_take_env_ok: "take_env_ok (ex_take_env now)"
  using ex_env_keeps by (simp add: take_env_ok_def ex_take_env_def keeps_selection_def)

lemma ex_taking_wf: "playout_wf (ex_taking h t)"
proof -
  have all: "allPartInstances (ex_taking h t) = allPartInstances (ex_taking None None)"
    by (simp add: ex_taking_def new_playout_model_def)
  have "map_wf (allPartInstances (ex_taking None None))" unfolding map_wf_def by code_simp
  moreover have "\<forall>(i, p) \<in> set (allPartInstances (ex_taking None None)). inst_id (partInstanceImpl (the p)) = i" by code_simp
  ultimately show ?thesis using playout_wf_keyed [of "ex_taking None None"] playout_wf_cong [OF all] by simp
qed

lemma ex_taking_fresh: "doc_at (p @ ''_'' @ env_random (base_env (ex_take_env now)) n) (ex_taking h t) = None"
proof -
  have all: "allPartInstances (ex_taking h t) = allPartInstances (ex_taking None None)"
    by (simp add: ex_taking_def new_playout_model_def)
  have keys: "fst ` set (allPartInstances (ex_taking None None)) = {''i1'', ''i2''}" by code_simp
  have "last (p @ ''_r'') \<noteq> last ''i1''" "last (p @ ''_r'') \<noteq> last ''i2''" by simp_all
  then have "p @ ''_r'' \<notin> {''i1'', ''i2''}" by (metis insertE singletonD)
  then have "map_get (allPartInstances (ex_taking None None)) (p @ ''_r'') = None"
    unfolding map_of_eq_None_iff keys .
  then show ?thesis
    by (simp add: doc_at_cong [OF all] ex_take_env_def ex_env_def) (simp add: doc_at_def part_instance_at_def)
qed

text \<open>A take goes through when each of its steps does.\<close>

lemma take_goes_through:
  assumes "take_allowed from (playlist m) = None"
    and "last_take_time m \<noteq> 0 \<longrightarrow> env_minimumTakeSpan env \<le> take_now env - last_take_time m"
    and "truthy_str (activationId (playlist m))" and "holdState (playlist m) \<noteq> Some HoldActive"
    and "nextPartInstance m = Some p"
    and "getRundown (inst_rundownId (partInstanceImpl p)) m = Some r"
    and "getRundown (inst_rundownId (partInstanceImpl p)) (hold_cleared m) \<noteq> None"
    and "take_refused (take_now env) (map_option partInstanceImpl (previousPartInstance m))
           (map_option partInstanceImpl (currentPartInstance m)) = None"
    and "env_onTake env (hold_cleared m) = (False, k)"
    and "\<not> isl (take_next env (env_sourceLayers (base_env env) (rd_showStyleBaseId (rundown_doc r))) p
           (map_option (\<lambda>p. inst_id (partInstanceImpl p)) (currentPartInstance m))
           (if truthy_num (nextTimeOffset (playlist m)) then nextTimeOffset (playlist m) else None) k)"
  obtains jobs m' where "handleTakeNextPart env from m = Inr (jobs, m')"
proof -
  from assms(10) obtain jobs deferred m2 where t:
      "take_next env (env_sourceLayers (base_env env) (rd_showStyleBaseId (rundown_doc r))) p
         (map_option (\<lambda>p. inst_id (partInstanceImpl p)) (currentPartInstance m))
         (if truthy_num (nextTimeOffset (playlist m)) then nextTimeOffset (playlist m) else None) k = Inr (jobs, deferred, m2)"
    by (metis sum.collapse(2) prod_cases3)
  have "performTakeToNextedPart env m = Inr (jobs, deferred, m2)"
    using assms(3-9) t unfolding performTakeToNextedPart_def Let_def hold_cleared_def [symmetric] by simp
  with assms(1,2) that show ?thesis by (auto simp: handleTakeNextPart_def)
qed

definition ex_take_ready :: "PlayoutModel \<Rightarrow> time \<Rightarrow> bool" where
  \<comment> \<open>what the steps of the take of the second part ask for, with its last step\<close>
  "ex_take_ready m now =
     (take_allowed (Some ''i1'') (playlist m) = None
     \<and> (last_take_time m = 0 \<or> 500 \<le> now - last_take_time m)
     \<and> truthy_str (activationId (playlist m)) \<and> nextPartInstance m \<noteq> None
     \<and> inst_rundownId (partInstanceImpl (the (nextPartInstance m))) = ''rd''
     \<and> getRundown ''rd'' m \<noteq> None
     \<and> take_refused now (map_option partInstanceImpl (previousPartInstance m))
           (map_option partInstanceImpl (currentPartInstance m)) = None
     \<and> map_option (\<lambda>p. inst_id (partInstanceImpl p)) (currentPartInstance m) = Some ''i1''
     \<and> \<not> truthy_num (nextTimeOffset (playlist m))
     \<and> \<not> isl (take_next (ex_take_env now) [] (the (nextPartInstance m)) (Some ''i1'') None m))"

lemma ex_take_steps: "ex_take_ready (ex_taking (Some HoldPending) None) 1000" "ex_take_ready (ex_taking None (Some 1000)) 1500"
  by code_simp+

lemma ex_take:
  assumes "ex_take_ready m now" and "holdState (playlist m) \<in> {None, Some HoldPending}"
  obtains jobs m' where "handleTakeNextPart (ex_take_env now) (Some ''i1'') m = Inr (jobs, m')"
proof (rule take_goes_through [of "Some ''i1''" "m" "ex_take_env now" "the (nextPartInstance m)"
      "the (getRundown ''rd'' m)" "m"])
  have k: "hold_cleared m = m" using assms(2) by (auto simp: hold_cleared_def)
  have e: "env_minimumTakeSpan (ex_take_env now) = 500" "take_now (ex_take_env now) = now"
      "env_sourceLayers (base_env (ex_take_env now)) s = []" "env_onTake (ex_take_env now) x = (False, x)" for s x
    by (simp_all add: ex_take_env_def ex_env_def)
  note r = assms(1) [unfolded ex_take_ready_def]
  show "take_allowed (Some ''i1'') (playlist m) = None" using r by blast
  show "last_take_time m \<noteq> 0 \<longrightarrow> env_minimumTakeSpan (ex_take_env now) \<le> take_now (ex_take_env now) - last_take_time m"
    using r unfolding e by blast
  show "truthy_str (activationId (playlist m))" using r by blast
  show "holdState (playlist m) \<noteq> Some HoldActive" using assms(2) by auto
  show "nextPartInstance m = Some (the (nextPartInstance m))"
    using r by (metis option.exhaust_sel)
  show "getRundown (inst_rundownId (partInstanceImpl (the (nextPartInstance m)))) m
      = Some (the (getRundown ''rd'' m))"
    using r by (metis option.exhaust_sel)
  show "getRundown (inst_rundownId (partInstanceImpl (the (nextPartInstance m)))) (hold_cleared m) \<noteq> None"
    using r unfolding k by metis
  show "take_refused (take_now (ex_take_env now)) (map_option partInstanceImpl (previousPartInstance m))
      (map_option partInstanceImpl (currentPartInstance m)) = None" using r unfolding e by blast
  show "env_onTake (ex_take_env now) (hold_cleared m) = (False, m)" by (simp only: e k)
  show "\<not> isl (take_next (ex_take_env now)
      (env_sourceLayers (base_env (ex_take_env now)) (rd_showStyleBaseId (rundown_doc (the (getRundown ''rd'' m)))))
      (the (nextPartInstance m))
      (map_option (\<lambda>p. inst_id (partInstanceImpl p)) (currentPartInstance m))
      (if truthy_num (nextTimeOffset (playlist m)) then nextTimeOffset (playlist m) else None)
      m)"
    using r unfolding e by (simp only: if_False not_False_eq_True)
qed (use that in blast)

lemma ex_take_playlist:
  "nextPartInfo (playlist (ex_taking h t)) = Some \<lparr>sel_partInstanceId = ''i2'', sel_rundownId = ''rd'', manuallySelected = False,
     sel_consumesQueuedSegmentId = False\<rparr>"
  "holdState (playlist (ex_taking h t)) = h"
  by (simp_all add: ex_taking_def new_playout_model_def ex_playlist_def)

theorem take_moves_on_witness:
  "\<exists>jobs m' e. handleTakeNextPart (ex_take_env 1000) (Some ''i1'') (ex_taking (Some HoldPending) None) = Inr (jobs, m')
    \<and> holdState (playlist m') = Some HoldActive \<and> lastTakeTime (playlist m') = Some 1000
    \<and> map_option sel_partInstanceId (currentPartInfo (playlist m')) = Some ''i2''
    \<and> doc_at ''i2'' m' = Some e \<and> isTaken e"
proof -
  from ex_take [OF ex_take_steps(1)] ex_take_playlist(2) [of "Some HoldPending" None] obtain jobs m' where
    r: "handleTakeNextPart (ex_take_env 1000) (Some ''i1'') (ex_taking (Some HoldPending) None) = Inr (jobs, m')" by blast
  have env: "take_now (ex_take_env 1000) = 1000" "\<And>k. \<not> fst (env_onTake (ex_take_env 1000) k)"
    by (simp_all add: ex_take_env_def ex_env_def)
  have "holdState (playlist (ex_taking (Some HoldPending) None)) \<noteq> Some HoldActive" by (simp add: ex_take_playlist)
  from take_moves_on [OF ex_take_env_ok ex_taking_wf ex_taking_fresh r this env(2)] obtain x e where
    "nextPartInfo (playlist (ex_taking (Some HoldPending) None)) = Some x" "doc_at (sel_partInstanceId x) m' = Some e"
    "currentPartInfo (playlist m') = Some x" "lastTakeTime (playlist m') = Some (take_now (ex_take_env 1000))"
    "holdState (playlist m') = (if holdState (playlist (ex_taking (Some HoldPending) None)) = Some HoldPending then Some HoldActive
       else if holdState (playlist (ex_taking (Some HoldPending) None)) = Some HoldComplete then Some HoldNone
       else holdState (playlist (ex_taking (Some HoldPending) None)))" "isTaken e" by blast
  with r env(1) show ?thesis by (auto simp: ex_take_playlist)
qed


end
