(* ===== verification/Show_Cycle.thy ===== *)
theory Show_Cycle
  imports Take_Facts
begin

text \<open>
  What a report of the playout gateway that the next part plays by itself does to the selection.
\<close>

section \<open>The next part plays by itself\<close>

definition autonext_playlist ::
  "time \<Rightarrow> SelectedPartInstance \<Rightarrow> SelectedPartInstance option \<Rightarrow> DBRundownPlaylist \<Rightarrow> DBRundownPlaylist" where
  "autonext_playlist now x y p = p\<lparr>previousPartInfo := currentPartInfo p, currentPartInfo := Some x, nextPartInfo := y,
     nextTimeOffset := None, lastTakeTime := Some now, holdState := Some HoldNone\<rparr>"

lemma clear_queued_none [simp]: "clearQueuedSegmentId d None m = m"
  by (simp add: clearQueuedSegmentId_def)

lemma started_no_doc: "doc_at j m = None \<Longrightarrow> doc_at j (reportPartInstanceHasStarted env i t m) = None"
  using started_same [of m env i t] keeps_no_doc by (auto simp: same_show_def)

lemma no_doc_reset_previous: "doc_at j m = None \<Longrightarrow> doc_at j (resetPreviousSegment m) = None"
  by (simp add: resetPreviousSegment_def Let_def doc_at_reset_all split: option.split)

lemma autonext_outcome:
  assumes env: "take_env_ok env" and wf: "playout_wf m"
    and nxt: "nextPartInfo (playlist m) = Some x" "sel_partInstanceId x \<noteq> []"
    and d: "doc_at (sel_partInstanceId x) m = Some d"
    and fresh: "\<And>p n. doc_at (p @ ''_'' @ env_random (base_env env) n) m = None"
    and r: "autonext_taken env (sel_partInstanceId x) t m = Inr (jobs, m')"
  shows "(\<exists>y. show_core (playlist m') = show_core (autonext_playlist (take_now env) x y (playlist m)))
    \<and> playout_wf m' \<and> (\<exists>e. doc_at (sel_partInstanceId x) m' = Some e \<and> doc_core e = taken_core d)"
proof -
  let ?i = "sel_partInstanceId x"
  define m1 where "m1 = resetHoldState (cycleSelectedPartInstances (take_now env) m)"
  have all1: "allPartInstances m1 = allPartInstances m"
    by (simp add: m1_def resetHoldState_def setHoldState_def cycleSelectedPartInstances_def on_playlist_def)
  have pl1: "playlist m1 = (playlist m)\<lparr>previousPartInfo := currentPartInfo (playlist m), currentPartInfo := Some x,
      nextPartInfo := None, lastTakeTime := Some (take_now env), holdState := Some HoldNone\<rparr>"
    using nxt(1) by (simp add: m1_def resetHoldState_def setHoldState_def cycleSelectedPartInstances_def on_playlist_def)
  define m2 where "m2 = reportPartInstanceHasStarted env ?i t m1"
  have s2: "same_show m1 m2" unfolding m2_def by (rule started_same)
  have k2: "keeps_docs m m2" using keeps_docs_trans [OF keeps_docs_cong [OF all1]] s2 by (simp add: same_show_def)
  have wf2: "playout_wf m2" using k2 wf by (simp add: keeps_docs_def)
  obtain d2 where d2: "doc_at ?i m2 = Some d2" "doc_core d2 = doc_core d" using keeps_docs_doc [OF k2 d] by blast
  from r obtain playing cur layers where p: "part_instance_at ?i m2 = Some playing" and
      r2: "(let m = updatePartInstanceOnTake env layers ?i cur m2;
                m = resetPreviousSegment (clearQueuedSegmentId (Some (partInstanceImpl playing)) (nextPartInfo (playlist m)) m)
            in and_then (setNextPart (base_env env) (select_after (partInstanceImpl playing) m) False None m)
                 (\<lambda>(jobs, m). Inr (jobs, afterTake env ?i m))) = Inr (jobs, m')"
    unfolding autonext_taken_def Let_def m1_def [symmetric] m2_def [symmetric] by (auto split: option.splits)
  define m3 where "m3 = updatePartInstanceOnTake env layers ?i cur m2"
  have pl3: "playlist m3 = playlist m2" by (simp add: m3_def)
  have wf3: "playout_wf m3" and d3': "\<exists>e. doc_at ?i m3 = Some e \<and> doc_core e = taken_core d2"
    unfolding m3_def updatePartInstanceOnTake_def Let_def by (rule taken_on [OF _ wf2 d2(1)], simp)+
  obtain d3 where d3: "doc_at ?i m3 = Some d3" "doc_core d3 = taken_core d"
    using d3' taken_core_cong [OF d2(2)] by auto
  have core2: "show_core (playlist m2) = show_core (playlist m1)" using s2 by (simp add: same_show_def)
  then have cur3: "currentPartInfo (playlist m3) = Some x" "nextPartInfo (playlist m3) = None"
    by (simp_all add: pl3 show_core_def pl1)
  note s4 = resetPreviousSegment_current [OF wf3 cur3(1) nxt(2) d3(1)]
  define m4 where "m4 = resetPreviousSegment m3"
  have fresh4: "doc_at (p @ ''_'' @ env_random (base_env env) n) m4 = None" for p n
    unfolding m4_def m3_def updatePartInstanceOnTake_def Let_def
    by (intro no_doc_reset_previous no_doc_on keeps_no_doc [OF k2 fresh])
  from r2 obtain m5 where
      5: "setNextPart (base_env env) (select_after (partInstanceImpl playing) m4) False None m4 = Inr (jobs, m5)" and
      6: "m' = afterTake env ?i m5"
    by (auto simp: Let_def m3_def [symmetric] cur3(2) m4_def [symmetric] and_then_Inr)
  have sel4: "nextPartInfo (playlist m4) = None" "currentPartInfo (playlist m4) = Some x"
    using cur3 by (simp_all add: m4_def s4(1))
  have "keeps_selection (base_env env)" using env by (simp add: take_env_ok_def)
  from set_next_keeps_current [OF this s4(2) [folded m4_def] 5 select_after_part sel4 nxt(2) fresh4 s4(3) [folded m4_def]]
  obtain y where m5: "playlist m5 = (playlist m4)\<lparr>nextPartInfo := y, nextTimeOffset := None\<rparr>" "playout_wf m5"
      "map_option doc_core (doc_at ?i m5) = Some (doc_core d3)" by blast
  from afterTake_same [OF env] have m6: "keeps_docs m5 m'" "show_core (playlist m') = show_core (playlist m5)"
    by (simp_all add: same_show_def 6)
  have "show_core (playlist m') = show_core (autonext_playlist (take_now env) x y (playlist m))"
    using core2 unfolding m6(2) m5(1) m4_def s4(1) pl3 by (simp add: autonext_playlist_def show_core_def pl1)
  moreover from m5(3) obtain d5 where "doc_at ?i m5 = Some d5" "doc_core d5 = taken_core d" using d3(2) by auto
  with keeps_docs_doc [OF m6(1)] have "\<exists>e. doc_at ?i m' = Some e \<and> doc_core e = taken_core d" by fastforce
  moreover have "playout_wf m'" using m6(1) m5(2) by (simp add: keeps_docs_def)
  ultimately show ?thesis by blast
qed

text \<open>A report that a part has started changes the show only when that part is the next one.\<close>

lemma report_cases:
  assumes "onPartPlaybackStarted env i t m = Inr (jobs, m')"
  obtains (autonext) "map_option sel_partInstanceId (nextPartInfo (playlist m)) = Some i"
      "map_option sel_partInstanceId (currentPartInfo (playlist m)) \<noteq> Some i"
      "doc_at i m \<noteq> None" "autonext_taken env i t m = Inr (jobs, m')"
  | (current) "m' = afterTake env i (reportPartInstanceHasStarted env i t m)"
  | (ignored) "m' = m"
  using assms by (auto simp: onPartPlaybackStarted_def Let_def doc_at_def split: option.splits if_splits)

lemma report_same:
  assumes "take_env_ok env"
  shows "same_show m (afterTake env i (reportPartInstanceHasStarted env i t m))"
  by (rule same_show_trans [OF started_same afterTake_same [OF assms]])

text \<open>
  C11. When the playout gateway reports that the next part has started by itself, and it was not reported before,
  that part is the current one and the selection moves on, hold is over, and the part instance is marked as taken.
  The queued segment stays, also when the part consumes it. A start that was planned for the part does not matter.
\<close>

theorem autonext_moves_on:
  assumes "take_env_ok env" and wf: "playout_wf m"
    and fresh: "\<And>p n. doc_at (p @ ''_'' @ env_random (base_env env) n) m = None"
    and nxt: "nextPartInfo (playlist m) = Some x" "sel_partInstanceId x \<noteq> []"
      "map_option sel_partInstanceId (currentPartInfo (playlist m)) \<noteq> Some (sel_partInstanceId x)"
    and d: "doc_at (sel_partInstanceId x) m = Some d" "\<not> truthy_num (Option.bind (inst_timings d) reportedStartedPlayback)"
    and r: "onPartPlaybackStarted env (sel_partInstanceId x) t m = Inr (jobs, m')"
  shows "currentPartInfo (playlist m') = Some x \<and> previousPartInfo (playlist m') = currentPartInfo (playlist m)
    \<and> lastTakeTime (playlist m') = Some (take_now env) \<and> holdState (playlist m') = Some HoldNone
    \<and> queuedSegmentId (playlist m') = queuedSegmentId (playlist m)
    \<and> (\<exists>e. doc_at (sel_partInstanceId x) m' = Some e \<and> isTaken e \<and> inst_reset e = inst_reset d
         \<and> part_id (inst_part e) = part_id (inst_part d))"
proof -
  have "autonext_taken env (sel_partInstanceId x) t m = Inr (jobs, m')"
    using r d nxt by (auto simp: onPartPlaybackStarted_def Let_def doc_at_def split: option.splits if_splits)
  from autonext_outcome [OF assms(1) wf nxt(1,2) d(1) fresh this] obtain y e where
    o: "show_core (playlist m') = show_core (autonext_playlist (take_now env) x y (playlist m))"
      "doc_at (sel_partInstanceId x) m' = Some e" "doc_core e = taken_core d" by blast
  from o(1) show ?thesis using o(2,3)
    by (simp add: show_core_def autonext_playlist_def taken_core_def doc_core_def)
qed

text \<open>The show with two parts again: its second part starts by itself, after a start was planned for it.\<close>

definition ex_planned :: PlayoutModel where
  "ex_planned = on_part_instance ''i2'' (inst_setPlannedStartedPlayback (Some 985)) (ex_taking None None)"

lemma ex_autonext: "\<not> isl (onPartPlaybackStarted (ex_take_env 1000) ''i2'' 990 ex_planned)"
  by code_simp

lemma ex_planned_doc: "map_option (\<lambda>d. (planned_start d, Option.bind (inst_timings d) reportedStartedPlayback))
    (doc_at ''i2'' ex_planned) = Some (Some 985, None)"
  by code_simp

lemma ex_planned_keeps: "keeps_docs (ex_taking None None) ex_planned"
  unfolding ex_planned_def by (rule keeps_docs_on) simp

theorem autonext_moves_on_witness:
  "\<exists>jobs m' e. onPartPlaybackStarted (ex_take_env 1000) ''i2'' 990 ex_planned = Inr (jobs, m')
    \<and> map_option sel_partInstanceId (currentPartInfo (playlist m')) = Some ''i2''
    \<and> holdState (playlist m') = Some HoldNone \<and> doc_at ''i2'' m' = Some e \<and> isTaken e"
proof -
  let ?x = "\<lparr>sel_partInstanceId = ''i2'', sel_rundownId = ''rd'', manuallySelected = False, sel_consumesQueuedSegmentId = False\<rparr>"
  from ex_autonext obtain jobs m' where
    r: "onPartPlaybackStarted (ex_take_env 1000) ''i2'' 990 ex_planned = Inr (jobs, m')"
    by (metis sum.collapse(2) surj_pair)
  from ex_planned_doc obtain d where d: "doc_at ''i2'' ex_planned = Some d"
      "Option.bind (inst_timings d) reportedStartedPlayback = None" by auto
  then have unreported: "\<not> truthy_num (Option.bind (inst_timings d) reportedStartedPlayback)" by (simp add: truthy_num_def)
  have wf: "playout_wf ex_planned" using ex_planned_keeps ex_taking_wf by (simp add: keeps_docs_def)
  have pl: "playlist ex_planned = playlist (ex_taking None None)" by (simp add: ex_planned_def)
  have cur: "map_option sel_partInstanceId (currentPartInfo (playlist ex_planned)) = Some ''i1''"
    unfolding pl by (simp add: ex_taking_def new_playout_model_def ex_playlist_def)
  have id: "sel_partInstanceId ?x = ''i2''" by simp
  note m = autonext_moves_on [OF ex_take_env_ok wf keeps_no_doc [OF ex_planned_keeps ex_taking_fresh]
      ex_take_playlist(1) [of None None, folded pl], unfolded id, OF _ _ d(1) unreported r]
  have "currentPartInfo (playlist m') = Some ?x \<and> holdState (playlist m') = Some HoldNone
      \<and> (\<exists>e. doc_at ''i2'' m' = Some e \<and> isTaken e)"
    using m cur by auto
  with r show ?thesis by auto
qed

end
