(* ===== verification/Playout_Jobs.thy ===== *)
theory Playout_Jobs
  imports Take
begin

text \<open>
  Jobs that change what is next or whether a playlist is active: \<open>playout/setNextJobs.ts\<close>, the hand-over at the
  end of \<open>playout/moveNextPart.ts\<close>, \<open>playout/activePlaylistJobs.ts\<close> and \<open>ingest/updateNext.ts\<close>, all in
  \<open>packages/job-worker/src\<close>. The function that each job runs before the model is loaded reads the playlist only,
  and comes first here. The other playlists that are active are arguments, by id and name; what the jobs on them
  do is not part of the model of this playlist.
\<close>

section \<open>Changing what is next\<close>

definition in_hold :: "DBRundownPlaylist \<Rightarrow> bool" where
  \<comment> \<open>\<open>playlist.holdState && playlist.holdState !== RundownHoldState.COMPLETE\<close>\<close>
  "in_hold p = (holdState p \<noteq> None \<and> holdState p \<noteq> Some HoldNone \<and> holdState p \<noteq> Some HoldComplete)"

definition next_change_allowed :: "DBRundownPlaylist \<Rightarrow> playout_error option" where
  "next_change_allowed p =
     (if \<not> truthy_str (activationId p) then Some UserInactiveRundown
      else if in_hold p then Some UserDuringHold
      else None)"

definition handleSetNextPart ::
  "take_env \<Rightarrow> PartId \<Rightarrow> bool option \<Rightarrow> int option \<Rightarrow> PlayoutModel
   \<Rightarrow> playout_error + (orphaned_segments_job list \<times> PlayoutModel)" where
  "handleSetNextPart env nextPartId setManually offset m =
     (case next_change_allowed (playlist m) of
        Some e \<Rightarrow> Inl e
      | None \<Rightarrow>
         (case playout_findPart nextPartId m of
            None \<Rightarrow> Inl UserPartNotFound
          | Some part \<Rightarrow>
              if \<not> isPartPlayable part then Inl UserPartNotPlayable
              else and_then (setNextPartFromPart (base_env env) part (nullish setManually False) offset m)
                     (\<lambda>(jobs, m). Inr (jobs, env_updateTimeline env m))))"

definition moved_part :: "int \<Rightarrow> int \<Rightarrow> PlayoutModel \<Rightarrow> playout_error + DBPart option" where
  \<comment> \<open>the part that \<open>moveNextPart\<close> chooses, with its errors\<close>
  "moved_part partDelta segmentDelta m =
     (case moveNextPart (map_option partInstanceImpl (currentPartInstance m)) (map_option partInstanceImpl (nextPartInstance m))
             (map segment_doc (getAllOrderedSegments m)) (playout_getAllOrderedParts m) partDelta segmentDelta of
        Inr part \<Rightarrow> Inr part
      | Inl NoNextAndNoCurrentPart \<Rightarrow> Inl NoNextAndNoCurrent
      | Inl SegmentNotFound \<Rightarrow> Inl SegmentToMoveFromNotFound
      | Inl PartNotFoundAfterInsert \<Rightarrow> Inl PartMissingAfterInsert
      | Inl MissingDelta \<Rightarrow> Inl InvalidDelta)"

definition handleMoveNextPart ::
  "take_env \<Rightarrow> int \<Rightarrow> int \<Rightarrow> PlayoutModel
   \<Rightarrow> playout_error + (PartId option \<times> orphaned_segments_job list \<times> PlayoutModel)" where
  "handleMoveNextPart env partDelta segmentDelta m =
     (let p = playlist m in
      if partDelta = 0 \<and> segmentDelta = 0 then Inl InvalidDelta
      else if \<not> truthy_str (activationId p) then Inl UserInactiveRundown
      else if holdState p = Some HoldActive \<or> holdState p = Some HoldPending then Inl UserDuringHold
      else if nextPartInfo p = None \<and> currentPartInfo p = None then Inl UserNoCurrentOrNextPart
      else and_then (moved_part partDelta segmentDelta m)
        (\<lambda>target. case target of
           None \<Rightarrow> Inr (None, [], m)
         | Some part \<Rightarrow> and_then (setNextPartFromPart (base_env env) part True None m)
             (\<lambda>(jobs, m). Inr (Some (part_id part), jobs, if part_id part \<noteq> [] then env_updateTimeline env m else m))))"

definition handleSetNextSegment ::
  "take_env \<Rightarrow> SegmentId \<Rightarrow> PlayoutModel \<Rightarrow> playout_error + (PartId \<times> orphaned_segments_job list \<times> PlayoutModel)" where
  "handleSetNextSegment env nextSegmentId m =
     (case next_change_allowed (playlist m) of
        Some e \<Rightarrow> Inl e
      | None \<Rightarrow>
         (case findSegment nextSegmentId m of
            None \<Rightarrow> Inl (SegmentNotFoundIn nextSegmentId)
          | Some s \<Rightarrow> and_then (setNextSegment (base_env env) s m)
              (\<lambda>(i, jobs, m). Inr (i, jobs, env_updateTimeline env m))))"

definition handleQueueNextSegment ::
  "take_env \<Rightarrow> SegmentId option \<Rightarrow> PlayoutModel
   \<Rightarrow> playout_error + (queue_result \<times> orphaned_segments_job list \<times> PlayoutModel)" where
  "handleQueueNextSegment env queuedId m =
     (case next_change_allowed (playlist m) of
        Some e \<Rightarrow> Inl e
      | None \<Rightarrow>
         and_then
           (if truthy_str queuedId
            then (case findSegment (the queuedId) m of
                None \<Rightarrow> Inl (SegmentNotFoundIn (the queuedId)) | Some s \<Rightarrow> Inr (Some s))
            else Inr None)
           (\<lambda>queuedSegment. and_then (queueNextSegment (base_env env) queuedSegment m)
              (\<lambda>(r, jobs, m). Inr (r, jobs, env_updateTimeline env m))))"

section \<open>After an ingest operation\<close>

definition ensureNextPartIsValid ::
  "take_env \<Rightarrow> PlayoutModel \<Rightarrow> playout_error + (bool \<times> orphaned_segments_job list \<times> PlayoutModel)" where
  \<comment> \<open>whether the timeline should be updated\<close>
  "ensureNextPartIsValid env m =
     (let p = playlist m;
          cur = map_option partInstanceImpl (currentPartInstance m);
          nxt = map_option partInstanceImpl (nextPartInstance m);
          deleted = (\<lambda>d. inst_orphaned d = Some PartDeleted);
          manual = (case nextPartInfo p of None \<Rightarrow> False | Some info \<Rightarrow> manuallySelected info);
          select = selectNextPart (queuedSegmentId p) (playlist_loop p) cur nxt
            (map segment_doc (getAllOrderedSegments m)) (playout_getAllOrderedParts m) True;
          set_next = and_then (setNextPart (base_env env) (next_choice_of select) False None m)
            (\<lambda>(jobs, m). Inr (True, jobs, m))
      in if \<not> truthy_str (activationId p) then Inr (False, [], m)
         else case nxt of
           None \<Rightarrow> if select = None \<and> nextPartInfo p = None then Inr (False, [], m) else set_next
         | Some n \<Rightarrow>
             if manual \<and> isPartPlayable (inst_part n) \<and> \<not> deleted n then Inr (False, [], m)
             else if isTooCloseToAutonext (take_now env) cur False then Inr (False, [], m)
             else if deleted n
             then (if select = None \<and> nextPartInfo p = None then Inr (False, [], m) else set_next)
             else if cur \<noteq> None
                  \<and> (case select of None \<Rightarrow> True | Some r \<Rightarrow> part_id (sel_part r) \<noteq> part_id (inst_part n)
                       \<or> \<not> isPartPlayable (inst_part n))
             then set_next else Inr (False, [], m))"

section \<open>Activation\<close>

definition checkNoOtherPlaylistsActive :: "(string \<times> string) list \<Rightarrow> playout_error option" where
  "checkNoOtherPlaylistsActive others =
     (if others \<noteq> [] then Some (UserRundownAlreadyActiveNames (map snd others)) else None)"

text \<open>The random ids of a job: of the reset before the activation, of the one within it, and of the activation\<close>

type_synonym activation_ids = "string \<times> string \<times> string"

definition handlePrepareRundownPlaylistForBroadcast ::
  "take_env \<Rightarrow> (string \<times> string) list \<Rightarrow> activation_ids \<Rightarrow> PlayoutModel
   \<Rightarrow> playout_error + (orphaned_segments_job list \<times> PlayoutModel)" where
  "handlePrepareRundownPlaylistForBroadcast env others = (\<lambda>(r1, r2, r3) m.
     if truthy_str (activationId (playlist m)) then Inl UserRundownAlreadyActive
     else case checkNoOtherPlaylistsActive others of
            Some e \<Rightarrow> Inl e
          | None \<Rightarrow> and_then (resetRundownPlaylist (base_env env) r1 m)
              (\<lambda>(jobs, m). and_then (activateRundownPlaylist env (map fst others) True r2 r3 m)
                (\<lambda>(jobs', m). Inr (jobs @ jobs', m))))"

datatype activate_mode = ActivateActive | ActivateRehearsal

definition reset_allowed ::
  "bool \<Rightarrow> activate_mode option \<Rightarrow> bool \<Rightarrow> (string \<times> string) list \<Rightarrow> bool \<Rightarrow> (string \<times> string) list
   \<Rightarrow> DBRundownPlaylist \<Rightarrow> playout_error option" where
  \<comment> \<open>given the playlists that are active, whether a job that deactivates one of them fails, and which are active after\<close>
  "reset_allowed allowRundownResetOnAir activate forceActivate others deactivationFails othersAfter p =
     (if truthy_str (activationId p) \<and> \<not> rehearsal p \<and> \<not> allowRundownResetOnAir
      then Some UserRundownResetWhileActive
      else if activate = None then None
      else if \<not> forceActivate then checkNoOtherPlaylistsActive others
      else if others \<noteq> [] \<and> deactivationFails then checkNoOtherPlaylistsActive othersAfter
      else None)"

definition handleResetRundownPlaylist ::
  "take_env \<Rightarrow> bool \<Rightarrow> activate_mode option \<Rightarrow> bool \<Rightarrow> (string \<times> string) list \<Rightarrow> bool \<Rightarrow> (string \<times> string) list
   \<Rightarrow> activation_ids \<Rightarrow> PlayoutModel \<Rightarrow> playout_error + (orphaned_segments_job list \<times> PlayoutModel)" where
  "handleResetRundownPlaylist env allowRundownResetOnAir activate forceActivate others deactivationFails othersAfter =
     (\<lambda>(r1, r2, r3) m.
       case reset_allowed allowRundownResetOnAir activate forceActivate others deactivationFails othersAfter (playlist m) of
         Some e \<Rightarrow> Inl e
       | None \<Rightarrow> and_then (resetRundownPlaylist (base_env env) r1 m)
           (\<lambda>(jobs, m). case activate of
              Some mode \<Rightarrow>
                and_then (activateRundownPlaylist env (map fst (if forceActivate then othersAfter else others))
                    (mode \<noteq> ActivateActive) r2 r3 m)
                  (\<lambda>(jobs', m). Inr (jobs @ jobs', m))
            | None \<Rightarrow> Inr (jobs, if truthy_str (activationId (playlist m)) then env_updateTimeline env m else m)))"

definition handleActivateRundownPlaylist ::
  "take_env \<Rightarrow> (string \<times> string) list \<Rightarrow> bool \<Rightarrow> activation_ids \<Rightarrow> PlayoutModel
   \<Rightarrow> playout_error + (orphaned_segments_job list \<times> PlayoutModel)" where
  "handleActivateRundownPlaylist env others reh = (\<lambda>(r1, r2, r3) m.
     case checkNoOtherPlaylistsActive others of
       Some e \<Rightarrow> Inl e
     | None \<Rightarrow> activateRundownPlaylist env (map fst others) reh r2 r3 m)"

end
