(* ===== verification/Activation_Facts.thy ===== *)
theory Activation_Facts
  imports Playout_Jobs Take_Facts
begin

text \<open>
  What the activation of a playlist leaves: nothing on air, the first part next, and every part instance of an
  earlier run reset. Documents are followed through the operations by \<open>drops_or_resets\<close>: each is kept, reset or
  removed.
\<close>

section \<open>Operations that only reset or remove part instances\<close>

definition drops_or_resets :: "PlayoutModel \<Rightarrow> PlayoutModel \<Rightarrow> bool" where
  "drops_or_resets m m' = ((playout_wf m \<longrightarrow> playout_wf m')
     \<and> (\<forall>j e. doc_at j m' = Some e \<longrightarrow> (\<exists>d. doc_at j m = Some d \<and> (inst_reset d \<longrightarrow> inst_reset e))))"

lemma drops_refl [simp]: "drops_or_resets m m"
  by (simp add: drops_or_resets_def)

lemma drops_trans: "drops_or_resets a b \<Longrightarrow> drops_or_resets b c \<Longrightarrow> drops_or_resets a c"
  unfolding drops_or_resets_def by (metis (full_types))

lemma drops_cong: "allPartInstances m' = allPartInstances m \<Longrightarrow> drops_or_resets m m'"
  unfolding drops_or_resets_def using doc_at_cong [of m' m] playout_wf_cong [of m' m] by simp

lemma drops_None: "drops_or_resets m m' \<Longrightarrow> doc_at j m = None \<Longrightarrow> doc_at j m' = None"
  unfolding drops_or_resets_def by (metis not_None_eq)

lemma keeps_docs_back:
  assumes "keeps_docs m m'" and "doc_at j m' = Some e"
  obtains d where "doc_at j m = Some d" "doc_core d = doc_core e"
proof -
  from assms have "map_option doc_core (doc_at j m) = map_option doc_core (doc_at j m')" unfolding keeps_docs_def by metis
  with assms(2) that show ?thesis by auto
qed

lemma remove_rehearsal_drops: "drops_or_resets m (removeAllRehearsalPartInstances m)"
proof -
  let ?m = "removeAllRehearsalPartInstances m"
  have get: "map_of (map (\<lambda>(i, p). (i, if is_rehearsal p then None else p)) es) i =
      map_option (\<lambda>p. if is_rehearsal p then None else p) (map_of es i)" for es :: "(_ \<times> PlayoutPartInstanceModel option) list" and i
    by (induction es) auto
  have part: "part_instance_at j ?m = (case part_instance_at j m of None \<Rightarrow> None
      | Some p \<Rightarrow> if is_rehearsal (Some p) then None else Some p)" for j
    by (simp add: removeAllRehearsalPartInstances_def deferAfterSave_def part_instance_at_def get nullish_def split: option.split)
  have doc: "doc_at j ?m = Some e \<Longrightarrow> doc_at j m = Some e" for j e
    by (auto simp: doc_at_def part split: option.splits if_splits)
  have "map_wf (allPartInstances m) \<Longrightarrow> map_wf (allPartInstances ?m)"
    by (simp add: removeAllRehearsalPartInstances_def deferAfterSave_def map_wf_def case_prod_beta comp_def)
  with doc show ?thesis unfolding drops_or_resets_def playout_wf_def by blast
qed

lemma set_nothing_next:
  assumes "setNextPart env None manual offset m = Inr (jobs, m')" and wf: "playout_wf m"
  shows "playlist m' = (playlist m)\<lparr>nextPartInfo := None, nextTimeOffset := None\<rparr> \<and> drops_or_resets m m'"
proof -
  let ?m = "on_playlist (\<lambda>p. p\<lparr>nextPartInfo := None, nextTimeOffset := None\<rparr>) m"
  have f: "finish_set_next ?m = (jobs, m')" using assms(1) by (simp add: setNextPart_def setPartInstanceAsNext_def)
  have all: "allPartInstances ?m = allPartInstances m" by (simp add: on_playlist_def)
  have wf1: "playout_wf ?m" using wf playout_wf_cong [OF all] by simp
  from finish_set_next_docs [OF wf1 f] obtain b where m': "playlist m' = playlist ?m" "playout_wf m'"
      "\<forall>j. doc_at j m' = map_option (reset_if (b j)) (case doc_at j ?m of None \<Rightarrow> None
         | Some d \<Rightarrow> if j \<notin> set (selectedPartInstanceIds ?m) \<and> \<not> isTaken d then None else Some d)"
    by (elim exE conjE)
  have "drops_or_resets ?m m'" unfolding drops_or_resets_def
  proof (intro conjI impI allI m'(2))
    fix j e assume "doc_at j m' = Some e"
    then obtain d where "doc_at j ?m = Some d" "e = reset_if (b j) d"
      unfolding m'(3) [rule_format] by (auto split: option.splits if_splits)
    then show "\<exists>d. doc_at j ?m = Some d \<and> (inst_reset d \<longrightarrow> inst_reset e)" by auto
  qed
  then have "drops_or_resets m m'" by (rule drops_trans [OF drops_cong [OF all]])
  then show ?thesis using m'(1) by (simp add: on_playlist_def)
qed

section \<open>The activation\<close>

lemma all_reset_docs:
  assumes "playout_wf m" and "doc_at j (resetPartInstancesWithPieceInstances (\<lambda>_. True) m) = Some e"
  shows "inst_reset e" "\<exists>d. doc_at j m = Some d"
  using assms(2) by (auto simp: reset_doc [OF assms(1)])

lemma reset_inactive_playlist:
  assumes wf: "playout_wf m" and inactive: "\<not> truthy_str (activationId (playlist m))"
    and r: "resetRundownPlaylist env i m = Inr (jobs, m')"
  shows "activationId (playlist m') = activationId (playlist m)" and "currentPartInfo (playlist m') = None"
    and "playout_wf m'" and "doc_at j m' = Some e \<Longrightarrow> inst_reset e" and "doc_at j m = None \<Longrightarrow> doc_at j m' = None"
proof -
  define m1 where "m1 = resetPlaylist (env_now env) i False m"
  define m2 where "m2 = removeAllRehearsalPartInstances m1"
  define m3 where "m3 = resetPartInstancesWithPieceInstances (\<lambda>_. True) m2"
  define m4 where "m4 = m3\<lparr>rundownsImpl := map (\<lambda>r. snd (removeAdlibTestingSegment r)) (rundownsImpl m3)\<rparr>"
  have all1: "allPartInstances m1 = allPartInstances m" by (simp add: m1_def resetPlaylist_def on_playlist_def)
  have d2: "drops_or_resets m m2"
    unfolding m2_def by (rule drops_trans [OF drops_cong [OF all1] remove_rehearsal_drops])
  have wf2: "playout_wf m2" using d2 wf by (simp add: drops_or_resets_def)
  have all4: "allPartInstances m4 = allPartInstances m3" by (simp add: m4_def)
  have wf4: "playout_wf m4" using wf2 playout_wf_cong [OF all4] by (simp add: m3_def)
  have pl4: "playlist m4 = playlist m1"
    by (simp add: m4_def m3_def m2_def removeAllRehearsalPartInstances_def deferAfterSave_def)
  have pl1: "activationId (playlist m1) = activationId (playlist m)" "currentPartInfo (playlist m1) = None"
    by (simp_all add: m1_def resetPlaylist_def on_playlist_def)
  have n: "setNextPart env None False None m4 = Inr (jobs, m')"
  proof -
    have "resetRundownPlaylist env i m = (if truthy_str (activationId (playlist m4))
        then select_and_set_first env m4 else setNextPart env None False None m4)"
      unfolding resetRundownPlaylist_def Let_def m1_def m2_def m3_def m4_def using inactive by simp
    with r inactive show ?thesis by (simp add: pl4 pl1(1))
  qed
  from set_nothing_next [OF n wf4] have s: "playlist m' = (playlist m4)\<lparr>nextPartInfo := None, nextTimeOffset := None\<rparr>"
      "drops_or_resets m4 m'" by blast+
  show "activationId (playlist m') = activationId (playlist m)" "currentPartInfo (playlist m') = None"
    by (simp_all add: s(1) pl4 pl1)
  show "playout_wf m'" using s(2) wf4 by (simp add: drops_or_resets_def)
  have reset4: "doc_at j m4 = Some d \<Longrightarrow> inst_reset d \<and> (\<exists>f. doc_at j m2 = Some f)" for j d
    using all_reset_docs [OF wf2] doc_at_cong [OF all4] by (simp add: m3_def)
  show "doc_at j m' = Some e \<Longrightarrow> inst_reset e" using s(2) reset4 unfolding drops_or_resets_def by blast
  assume "doc_at j m = None"
  then have "doc_at j m2 = None" by (rule drops_None [OF d2])
  then have "doc_at j m4 = None" using reset4 by (metis not_None_eq)
  then show "doc_at j m' = None" by (rule drops_None [OF s(2)])
qed

lemma select_first_docs:
  assumes env: "keeps_selection env" and wf: "playout_wf m" and nxt: "nextPartInfo (playlist m) = None"
    and fresh: "\<And>p n. doc_at (p @ ''_'' @ env_random env n) m = None"
    and reset: "\<And>j e. doc_at j m = Some e \<Longrightarrow> inst_reset e"
    and r: "select_and_set_first env m = Inr (jobs, m')"
  shows "\<exists>y. playlist m' = (playlist m)\<lparr>nextPartInfo := y, nextTimeOffset := None\<rparr> \<and> playout_wf m'
    \<and> (\<forall>j e. doc_at j m' = Some e \<longrightarrow> inst_reset e = (map_option sel_partInstanceId y \<noteq> Some j))
    \<and> (\<forall>x. y = Some x \<longrightarrow> (\<exists>d p n. doc_at (sel_partInstanceId x) m' = Some d
           \<and> sel_partInstanceId x = p @ ''_'' @ env_random env n))"
proof -
  define c where "c = map_option (\<lambda>r. ChoicePart (sel_part r) (consumesQueuedSegmentId r))
    (selectNextPart (queuedSegmentId (playlist m)) (playlist_loop (playlist m)) None None
      (map segment_doc (getAllOrderedSegments m)) (playout_getAllOrderedParts m) True)"
  have s: "setNextPart env c False None m = Inr (jobs, m')" using r by (simp add: select_and_set_first_def c_def)
  show ?thesis
  proof (cases c)
    case None
    with set_nothing_next [OF _ wf] s have n: "playlist m' = (playlist m)\<lparr>nextPartInfo := None, nextTimeOffset := None\<rparr>"
        "drops_or_resets m m'" by blast+
    have "inst_reset e" if "doc_at j m' = Some e" for j e
      using n(2) reset that unfolding drops_or_resets_def by blast
    then show ?thesis using n wf by (intro exI [of _ None]) (auto simp: drops_or_resets_def)
  next
    case (Some ch)
    then obtain part q where ch: "ch = ChoicePart part q" by (auto simp: c_def)
    note o = set_next_outcome [OF env wf _ s [unfolded Some]]
    from o ch obtain i d where d: "doc_at i m' = Some d" "inst_reset d \<longrightarrow> (\<exists>e. doc_at i m = Some e \<and> inst_reset e)"
        "playlist m' = (playlist m)\<lparr>nextPartInfo := Some \<lparr>sel_partInstanceId = i, sel_rundownId = inst_rundownId d,
            manuallySelected = (False \<or> inst_orphaned d \<noteq> None), sel_consumesQueuedSegmentId = consumes_queued ch\<rparr>,
          nextTimeOffset := (if truthy_num None then None else None)\<rparr>"
        "playout_wf m'" and d5: "\<exists>c m1. prepare_next env ch m = Inr (i, c, m1)" and
        others: "\<forall>j e. doc_at j m' = Some e \<longrightarrow> j \<noteq> i \<longrightarrow> (\<exists>e0. doc_at j m = Some e0 \<and> (inst_reset e0 \<longrightarrow> inst_reset e))"
      by blast
    from d5 obtain c' m1 where "prepare_next env (ChoicePart part q) m = Inr (i, c', m1)" unfolding ch by blast
    from new_next_instance [OF this nxt] obtain n where n: "i = part_id part @ ''_'' @ env_random env n" ..
    then have k: "doc_at i m = None" using fresh by simp
    with k d(2) have "\<not> inst_reset d" by auto
    moreover have "inst_reset e" if "doc_at j m' = Some e" "j \<noteq> i" for j e using others reset that by blast
    ultimately show ?thesis using d(1,3,4) n
      by (intro exI [of _ "nextPartInfo (playlist m')"]) (auto simp: truthy_num_def)
  qed
qed

lemma leave_testing_idle: "currentPartInfo (playlist m) = None \<Longrightarrow> leave_adlib_testing reh m = Inr m"
  by (simp add: leave_adlib_testing_def currentPartInstance_def selected_instance_def)

text \<open>
  C9. Activating a playlist that was not active starts the show over: nothing is on air or queued, hold is off, no
  take is remembered; every part instance of an earlier run is reset, and the only one that is not is new and is
  the next one.
\<close>

theorem activation_starts_over:
  assumes env: "take_env_ok env" and wf: "playout_wf m"
    and fresh: "\<And>p n. doc_at (p @ ''_'' @ env_random (base_env env) n) m = None"
    and inactive: "\<not> truthy_str (activationId (playlist m))"
    and r: "handleActivateRundownPlaylist env others reh (r1, r2, r3) m = Inr (jobs, m')"
  shows "others = [] \<and> activationId (playlist m') = Some r3 \<and> currentPartInfo (playlist m') = None
    \<and> previousPartInfo (playlist m') = None \<and> queuedSegmentId (playlist m') = None
    \<and> lastTakeTime (playlist m') = None \<and> holdState (playlist m') = Some HoldNone
    \<and> (\<forall>j e. doc_at j m' = Some e \<longrightarrow>
         inst_reset e = (map_option sel_partInstanceId (nextPartInfo (playlist m')) \<noteq> Some j))
    \<and> (case nextPartInfo (playlist m') of None \<Rightarrow> True
       | Some x \<Rightarrow> doc_at (sel_partInstanceId x) m = None \<and> doc_at (sel_partInstanceId x) m' \<noteq> None)"
proof -
  from r have others: "others = []" and
      a: "activateRundownPlaylist env [] reh r2 r3 m = Inr (jobs, m')"
    by (auto simp: handleActivateRundownPlaylist_def checkNoOtherPlaylistsActive_def split: if_splits)
  from a inactive obtain jobs1 m1 where 1: "resetRundownPlaylist (base_env env) r2 m = Inr (jobs1, m1)"
    by (auto simp: activateRundownPlaylist_def and_then_Inr)
  note s1 = reset_inactive_playlist [OF wf inactive 1]
  define m2 where "m2 = snd (activatePlaylist r3 reh m1)"
  define m3 where "m3 = clearSelectedPartInstances m2"
  have all: "allPartInstances m3 = allPartInstances m1" "allPartInstances m2 = allPartInstances m1"
    by (simp_all add: m3_def m2_def clearSelectedPartInstances_def activatePlaylist_def on_playlist_def)
  have cur: "currentPartInfo (playlist m2) = None" using s1(2) by (simp add: m2_def activatePlaylist_def on_playlist_def)
  then have idle: "currentPartInstance m2 = None" by (simp add: currentPartInstance_def selected_instance_def)
  from a obtain jobs2 m4 where 4: "select_and_set_first (base_env env) m3 = Inr (jobs2, m4)" and
      5: "m' = env_updateTimeline env m4"
    using inactive
    by (auto simp: activateRundownPlaylist_def 1 m2_def [symmetric] leave_testing_idle [OF cur] idle Let_def
        activate_select_first_def m3_def [symmetric] and_then_Inr)
  have wf3: "playout_wf m3" using s1(3) playout_wf_cong [OF all(1)] by simp
  have pl3: "nextPartInfo (playlist m3) = None" "activationId (playlist m3) = Some r3" "currentPartInfo (playlist m3) = None"
      "previousPartInfo (playlist m3) = None" "queuedSegmentId (playlist m3) = None" "lastTakeTime (playlist m3) = None"
      "holdState (playlist m3) = Some HoldNone"
    by (simp_all add: m3_def m2_def clearSelectedPartInstances_def activatePlaylist_def on_playlist_def)
  have fresh3: "doc_at (p @ ''_'' @ env_random (base_env env) n) m3 = None" for p n
    using s1(5) [OF fresh] doc_at_cong [OF all(1)] by simp
  have reset3: "inst_reset e" if "doc_at j m3 = Some e" for j e using s1(4) that doc_at_cong [OF all(1)] by simp
  have "keeps_selection (base_env env)" using env by (simp add: take_env_ok_def)
  from select_first_docs [OF this wf3 pl3(1) fresh3 _ 4] reset3 obtain y where
      y: "playlist m4 = (playlist m3)\<lparr>nextPartInfo := y, nextTimeOffset := None\<rparr>"
        "\<forall>j e. doc_at j m4 = Some e \<longrightarrow> inst_reset e = (map_option sel_partInstanceId y \<noteq> Some j)"
        "\<forall>x. y = Some x \<longrightarrow> (\<exists>d p n. doc_at (sel_partInstanceId x) m4 = Some d
           \<and> sel_partInstanceId x = p @ ''_'' @ env_random (base_env env) n)" by blast
  have same: "same_show m4 m'" using env by (simp add: take_env_ok_def 5)
  then have keeps: "keeps_docs m4 m'" by (simp add: same_show_def)
  have core: "show_core (playlist m') = show_core ((playlist m3)\<lparr>nextPartInfo := y, nextTimeOffset := None\<rparr>)"
    using same y(1) by (simp add: same_show_def)
  have nxt: "nextPartInfo (playlist m') = y" using core by (simp add: show_core_def)
  have "inst_reset e = (map_option sel_partInstanceId y \<noteq> Some j)" if e: "doc_at j m' = Some e" for j e
  proof -
    from keeps_docs_back [OF keeps e] obtain d where "doc_at j m4 = Some d" "inst_reset d = inst_reset e"
      by (auto simp: doc_core_def)
    with y(2) show ?thesis by metis
  qed
  moreover have "doc_at (sel_partInstanceId x) m = None \<and> doc_at (sel_partInstanceId x) m' \<noteq> None" if x: "y = Some x" for x
  proof -
    from y(3) x obtain d p n where "doc_at (sel_partInstanceId x) m4 = Some d"
        "sel_partInstanceId x = p @ ''_'' @ env_random (base_env env) n" by blast
    with keeps_docs_doc [OF keeps] fresh show ?thesis by fastforce
  qed
  ultimately show ?thesis using others core pl3 nxt by (simp add: show_core_def split: option.split)
qed

text \<open>A playlist that is not active, with a part instance of an earlier run\<close>

definition ex_idle :: PlayoutModel where
  "ex_idle = new_playout_model True ((ex_playlist None None)\<lparr>activationId := None\<rparr>)
     [new_part_instance_model (ex_on_air\<lparr>isTaken := True\<rparr>) [ex_on_air_piece] False] [ex_rundown]"

lemma ex_idle_wf: "playout_wf ex_idle"
proof -
  have "map_wf (allPartInstances ex_idle)" unfolding map_wf_def by code_simp
  moreover have "\<forall>(i, p) \<in> set (allPartInstances ex_idle). inst_id (partInstanceImpl (the p)) = i" by code_simp
  ultimately show ?thesis by (rule playout_wf_keyed)
qed

lemma ex_idle_fresh: "doc_at (p @ ''_'' @ env_random (base_env (ex_take_env now)) n) ex_idle = None"
proof -
  have keys: "fst ` set (allPartInstances ex_idle) = {''i1''}" by code_simp
  have "last (p @ ''_r'') \<noteq> last ''i1''" by simp
  then have "p @ ''_r'' \<notin> {''i1''}" by (metis singletonD)
  then have "map_get (allPartInstances ex_idle) (p @ ''_r'') = None" unfolding map_of_eq_None_iff keys .
  then show ?thesis by (simp add: ex_take_env_def ex_env_def) (simp add: doc_at_def part_instance_at_def)
qed

lemma ex_activation: "case handleActivateRundownPlaylist (ex_take_env 1000) [] False (''a'', ''b'', ''c'') ex_idle of
    Inr (jobs, m) \<Rightarrow> map_option sel_partInstanceId (nextPartInfo (playlist m)) = Some ''p1_r''
      \<and> map_option inst_reset (doc_at ''i1'' m) = Some True
  | Inl e \<Rightarrow> False"
  by code_simp

theorem activation_starts_over_witness:
  "\<exists>jobs m'. handleActivateRundownPlaylist (ex_take_env 1000) [] False (''a'', ''b'', ''c'') ex_idle = Inr (jobs, m')
    \<and> activationId (playlist m') = Some ''c'' \<and> currentPartInfo (playlist m') = None
    \<and> map_option sel_partInstanceId (nextPartInfo (playlist m')) = Some ''p1_r'' \<and> doc_at ''p1_r'' m' \<noteq> None"
proof -
  from ex_activation obtain jobs m' where
    r: "handleActivateRundownPlaylist (ex_take_env 1000) [] False (''a'', ''b'', ''c'') ex_idle = Inr (jobs, m')"
      "map_option sel_partInstanceId (nextPartInfo (playlist m')) = Some ''p1_r''"
    by (auto split: sum.splits prod.splits)
  have inactive: "\<not> truthy_str (activationId (playlist ex_idle))" by (simp add: ex_idle_def new_playout_model_def truthy_str_def)
  from activation_starts_over [OF ex_take_env_ok ex_idle_wf ex_idle_fresh inactive r(1)] r show ?thesis by auto
qed

end
