(* ===== verification/Next_Part_Facts.thy ===== *)
theory Next_Part_Facts
  imports Activation_Facts
begin

text \<open>
  What the jobs around the next part leave in the playlist. After an ingest operation the next part is the one that
  is selected automatically, unless one of three reasons to leave it alone holds.
\<close>

definition next_doc :: "PlayoutModel \<Rightarrow> DBPartInstance option" where
  "next_doc m = map_option partInstanceImpl (nextPartInstance m)"

definition current_doc :: "PlayoutModel \<Rightarrow> DBPartInstance option" where
  "current_doc m = map_option partInstanceImpl (currentPartInstance m)"

definition selection_of :: "PlayoutModel \<Rightarrow> SelectNextPartResult option" where
  "selection_of m = selectNextPart (queuedSegmentId (playlist m)) (playlist_loop (playlist m)) (current_doc m) (next_doc m)
     (map segment_doc (getAllOrderedSegments m)) (playout_getAllOrderedParts m) True"

definition next_is_selection :: "PlayoutModel \<Rightarrow> PlayoutModel \<Rightarrow> bool" where
  \<comment> \<open>the next part of the second model is the one selected in the first\<close>
  "next_is_selection m m' =
     (map_option (\<lambda>d. part_id (inst_part d)) (next_doc m') = map_option (\<lambda>r. part_id (sel_part r)) (selection_of m)
      \<and> (selection_of m = None \<longrightarrow> nextPartInfo (playlist m') = None))"

definition next_stays :: "time \<Rightarrow> PlayoutModel \<Rightarrow> bool" where
  "next_stays now m = (\<exists>n. next_doc m = Some n
     \<and> (isTooCloseToAutonext now (current_doc m) False
        \<or> inst_orphaned n \<noteq> Some PartDeleted \<and> current_doc m = None
        \<or> inst_orphaned n \<noteq> Some PartDeleted \<and> isPartPlayable (inst_part n)
           \<and> map_option manuallySelected (nextPartInfo (playlist m)) = Some True))"

lemma next_doc_at:
  assumes "nextPartInfo (playlist m) = Some info" and "sel_partInstanceId info \<noteq> []"
  shows "next_doc m = doc_at (sel_partInstanceId info) m"
  using assms by (simp add: next_doc_def nextPartInstance_def selected_instance_def doc_at_def truthy_str_def)

lemma next_doc_info: "next_doc m = Some d \<Longrightarrow> nextPartInfo (playlist m) \<noteq> None"
  by (cases "nextPartInfo (playlist m)")
    (simp_all add: next_doc_def nextPartInstance_def selected_instance_def truthy_str_def)

lemma set_selection_next:
  assumes "take_env_ok env" "playout_wf m"
    and "setNextPart (base_env env) (next_choice_of (selection_of m)) False None m = Inr (jobs, m')"
  shows "next_is_selection m m'"
proof (cases "selection_of m")
  case None
  with assms(3) set_nothing_next [OF _ assms(2)] have "nextPartInfo (playlist m') = None" by (simp add: next_choice_of_def)
  moreover from this next_doc_info have "next_doc m' = None" by (cases "next_doc m'") blast+
  ultimately show ?thesis using None by (simp add: next_is_selection_def)
next
  case (Some r)
  let ?c = "ChoicePart (sel_part r) (consumesQueuedSegmentId r)"
  have s: "setNextPart (base_env env) (Some ?c) False None m = Inr (jobs, m')"
    using assms(3) Some by (simp add: next_choice_of_def)
  have env: "keeps_selection (base_env env)" using assms(1) by (simp add: take_env_ok_def)
  obtain i d where d: "doc_at i m' = Some d" "chosen_doc ?c i d"
      "nextPartInfo (playlist m') = Some \<lparr>sel_partInstanceId = i, sel_rundownId = inst_rundownId d,
          manuallySelected = (False \<or> inst_orphaned d \<noteq> None), sel_consumesQueuedSegmentId = consumes_queued ?c\<rparr>"
    using set_next_outcome [OF env assms(2) _ s] by auto
  then have "next_doc m' = Some d" using next_doc_at [OF d(3)] by (simp add: chosen_doc_def)
  with d(2) Some show ?thesis by (simp add: next_is_selection_def chosen_doc_def)
qed

lemma ensureNextPartIsValid_eq:
  "ensureNextPartIsValid env m =
     (let none = (selection_of m = None \<and> nextPartInfo (playlist m) = None);
          set_next = and_then (setNextPart (base_env env) (next_choice_of (selection_of m)) False None m)
            (\<lambda>(jobs, m). Inr (True, jobs, m));
          stay = Inr (False, [], m)
      in if \<not> truthy_str (activationId (playlist m)) then stay
         else case next_doc m of
           None \<Rightarrow> if none then stay else set_next
         | Some n \<Rightarrow>
             if (case nextPartInfo (playlist m) of None \<Rightarrow> False | Some info \<Rightarrow> manuallySelected info)
                \<and> isPartPlayable (inst_part n) \<and> inst_orphaned n \<noteq> Some PartDeleted then stay
             else if isTooCloseToAutonext (take_now env) (current_doc m) False then stay
             else if inst_orphaned n = Some PartDeleted then (if none then stay else set_next)
             else if current_doc m \<noteq> None
                  \<and> (case selection_of m of None \<Rightarrow> True | Some r \<Rightarrow> part_id (sel_part r) \<noteq> part_id (inst_part n)
                       \<or> \<not> isPartPlayable (inst_part n))
             then set_next else stay)"
  unfolding ensureNextPartIsValid_def Let_def selection_of_def next_doc_def current_doc_def ..

text \<open>
  C14. After an ingest operation the next part of an active playlist is the one that would be selected now, or none
  when nothing can be selected; it is left as it was only when an autonext is close, when nothing is on air, or when
  the user chose it and it is still there and playable.
\<close>

theorem next_part_follows_ingest:
  assumes env: "take_env_ok env" and wf: "playout_wf m" and active: "truthy_str (activationId (playlist m))"
    and r: "ensureNextPartIsValid env m = Inr (changed, jobs, m')"
  shows "next_is_selection m m' \<or> m' = m \<and> next_stays (take_now env) m"
proof -
  let ?set = "and_then (setNextPart (base_env env) (next_choice_of (selection_of m)) False None m) (\<lambda>(jobs, m). Inr (True, jobs, m))"
  have set: "next_is_selection m m'" if "?set = Inr (changed, jobs, m')"
    using that set_selection_next [OF env wf] by (auto simp: and_then_Inr)
  let ?none = "selection_of m = None \<and> nextPartInfo (playlist m) = None"
  show ?thesis
  proof (cases "next_doc m")
    case None
    with r active have "(if ?none then Inr (False, [], m) else ?set) = Inr (changed, jobs, m')"
      by (simp only: ensureNextPartIsValid_eq Let_def option.case simp_thms if_True if_False)
    with set None show ?thesis by (auto simp: next_is_selection_def split: if_splits)
  next
    case (Some n)
    then have "\<not> ?none" using next_doc_info by blast
    let ?deleted = "inst_orphaned n = Some PartDeleted"
    let ?manual = "case nextPartInfo (playlist m) of None \<Rightarrow> False | Some info \<Rightarrow> manuallySelected info"
    have "(if ?manual \<and> isPartPlayable (inst_part n) \<and> \<not> ?deleted then Inr (False, [], m)
        else if isTooCloseToAutonext (take_now env) (current_doc m) False then Inr (False, [], m)
        else if ?deleted then ?set
        else if current_doc m \<noteq> None
                \<and> (case selection_of m of None \<Rightarrow> True | Some r \<Rightarrow> part_id (sel_part r) \<noteq> part_id (inst_part n)
                     \<or> \<not> isPartPlayable (inst_part n))
           then ?set else Inr (False, [], m)) = Inr (changed, jobs, m')"
      using r active \<open>\<not> ?none\<close>
      by (simp only: ensureNextPartIsValid_eq Let_def Some option.case simp_thms if_True if_False)
    with set Some show ?thesis
      by (auto simp: next_stays_def next_is_selection_def split: if_splits option.splits)
  qed
qed

theorem next_part_follows_ingest_witness:
  "\<exists>jobs m'. ensureNextPartIsValid (ex_take_env 1000) ex_show = Inr (True, jobs, m')
    \<and> map_option (\<lambda>d. part_id (inst_part d)) (next_doc m') = Some ''p2''"
proof -
  have "case ensureNextPartIsValid (ex_take_env 1000) ex_show of Inl _ \<Rightarrow> False | Inr (changed, _) \<Rightarrow> changed" by code_simp
  then obtain jobs m' where r: "ensureNextPartIsValid (ex_take_env 1000) ex_show = Inr (True, jobs, m')"
    by (auto split: sum.splits)
  have active: "truthy_str (activationId (playlist ex_show))" by code_simp
  have "\<not> next_stays (take_now (ex_take_env 1000)) ex_show"
  proof -
    have "next_doc ex_show = None" by (simp add: next_doc_def nextPartInstance_def selected_instance_def ex_show_def
        new_playout_model_def ex_playlist_def truthy_str_def)
    then show ?thesis by (simp add: next_stays_def)
  qed
  with next_part_follows_ingest [OF ex_take_env_ok ex_show_wf active r] have "next_is_selection ex_show m'" by blast
  moreover have "map_option (\<lambda>r. part_id (sel_part r)) (selection_of ex_show) = Some ''p2''" by code_simp
  ultimately show ?thesis using r by (auto simp: next_is_selection_def)
qed

end
