(* ===== verification/Adlibs.thy ===== *)
theory Adlibs
  imports Take Instance_Ranks
begin

text \<open>
  Ad-libs: \<open>adlibUtils.ts\<close> (but for \<open>innerStopPieces\<close>, which \<open>Take\<close> holds), \<open>adlibJobs.ts\<close> and \<open>pieces.ts\<close> of
  \<open>packages/job-worker/src/playout\<close>, with \<open>getRank\<close> of \<open>corelib/src/lib.ts\<close>. The collections that a job reads beside
  the playout model, the action of a blueprint and the random ids are arguments. An ad-lib has the fields of a piece;
  those that an ad-lib document does not have hold what their absence means.
\<close>

section \<open>Pieces and ad-libs\<close>

definition piece_start :: "time \<Rightarrow> PieceInstancePiece \<Rightarrow> time" where
  "piece_start nowInPart p = (case en_start (enable p) of Now \<Rightarrow> nowInPart | At t \<Rightarrow> t)"

definition comparePieceStart :: "PieceInstancePiece \<Rightarrow> PieceInstancePiece \<Rightarrow> time \<Rightarrow> int" where
  "comparePieceStart a b nowInPart =
     (if pieceType a = PieceOutTransition \<and> pieceType b \<noteq> PieceOutTransition then 1
      else if pieceType a \<noteq> PieceOutTransition \<and> pieceType b = PieceOutTransition then - 1
      else let aStart = piece_start nowInPart a; bStart = piece_start nowInPart b in
        if aStart < bStart then - 1
        else if bStart < aStart then 1
        else let aIsInTransition = pieceType a = PieceInTransition; bIsInTransition = pieceType b = PieceInTransition in
          if aIsInTransition \<and> \<not> bIsInTransition then - 1
          else if \<not> aIsInTransition \<and> bIsInTransition then 1
          else if piece_id a < piece_id b then - 1
          else if piece_id b < piece_id a then 1 else 0)"

definition sortPieceInstancesByStart :: "PieceInstance list \<Rightarrow> time \<Rightarrow> PieceInstance list" where
  "sortPieceInstancesByStart pieces nowInPart =
     js_sort (\<lambda>a b. 0 < comparePieceStart (pi_piece a) (pi_piece b) nowInPart) pieces"

definition sortPiecesByStart :: "PieceInstancePiece list \<Rightarrow> PieceInstancePiece list" where
  "sortPiecesByStart pieces = js_sort (\<lambda>a b. 0 < comparePieceStart a b 0) pieces"

record AdLibPiece = PieceInstancePiece +
  adlib_expectedDuration :: "int option"
  adlib_floated :: bool

record BucketAdLib = AdLibPiece +
  bucket_showStyleVariantId :: "string option"  \<comment> \<open>\<open>null\<close>: any variant\<close>

definition adlib_of_piece :: "PieceInstancePiece \<Rightarrow> AdLibPiece" where
  \<comment> \<open>a piece where an ad-lib is expected\<close>
  "adlib_of_piece p = PieceInstancePiece.extend p (AdLibPiece.fields None False)"

definition convertPieceToAdLibPiece :: "PieceId \<Rightarrow> PieceInstancePiece \<Rightarrow> AdLibPiece" where
  "convertPieceToAdLibPiece newId p =
     (adlib_of_piece p)\<lparr>piece_id := newId, adlib_expectedDuration := en_duration (enable p)\<rparr>"

definition adlib_duration :: "AdLibPiece \<Rightarrow> int option" where
  "adlib_duration p =
     (if truthy_num (adlib_expectedDuration p) then adlib_expectedDuration p
      else if truthy_num (en_duration (enable p)) then en_duration (enable p) else None)"

definition convertAdLibToGenericPiece :: "PieceId \<Rightarrow> AdLibPiece \<Rightarrow> bool \<Rightarrow> PieceInstancePiece" where
  "convertAdLibToGenericPiece newPieceId adLibPiece isBeingQueued =
     (PieceInstancePiece.truncate adLibPiece)\<lparr>piece_id := newPieceId, pieceType := PieceNormal,
       enable := \<lparr>en_start = (if isBeingQueued then At 0 else Now),
         en_duration = (if \<not> isBeingQueued \<and> lifespan adLibPiece = WithinPart then adlib_duration adLibPiece else None)\<rparr>\<rparr>"

section \<open>Queueing a part\<close>

definition truthy_rank :: "rank option \<Rightarrow> bool" where
  "truthy_rank r = (r \<noteq> None \<and> r \<noteq> Some 0)"

definition getRank :: "rank option \<Rightarrow> rank option \<Rightarrow> nat \<Rightarrow> nat \<Rightarrow> rank" where
  \<comment> \<open>of two numbers; the rank zero is falsy\<close>
  "getRank before after i n =
     (let (newRankMin, newRankMax) =
        (if truthy_rank after
         then if truthy_rank before then (the before, the after) else (the after - 1, the after)
         else if truthy_rank before then (the before, the before + 1) else (0, 1))
      in newRankMin + of_nat (i + 1) / of_nat (n + 1) * (newRankMax - newRankMin))"

datatype adlib_error =
    PlayoutError playout_error
  | CurrentPartInstanceNotFound
  | UserAdlibCurrentPart
  | UserPieceAsAdlibNotFound
  | UserPieceAsAdlibNotDirectPlayable
  | UserPieceAsAdlibCurrentlyLive PieceInstanceId
  | UserBucketAdlibIncompatible
  | UserAdlibNotFound
  | UserAdlibUnplayable
  | SourceLayerNotFound string
  | UserSourceLayerNotSticky
  | UserSourceLayerStickyNothingFound
  | PartYetToStart PartInstanceId
  | UserDisableNoPieceFound

definition of_playout :: "playout_error + 'a \<Rightarrow> adlib_error + 'a" where
  "of_playout = map_sum PlayoutError id"

text \<open>The random ids of the new part, its instance, the new piece, and the chains of infinites that begin.\<close>

record adlib_ids =
  new_part_id :: PartId
  new_instance_id :: PartInstanceId
  new_piece_id :: PieceId
  new_infinite_id :: "nat \<Rightarrow> string"

definition updateRankForAdlibbedPartInstance :: "PartInstanceId \<Rightarrow> PlayoutModel \<Rightarrow> adlib_error + PlayoutModel" where
  "updateRankForAdlibbedPartInstance i m =
     (case currentPartInstance m of
        None \<Rightarrow> Inl CurrentPartInstanceNotFound
      | Some c \<Rightarrow>
         (let r = part_rank (inst_part (partInstanceImpl c))
          in Inr (updatePartInstanceRanksAfterAdlib i
               (on_part_instance i (inst_setRank (getRank (Some r) (Some (of_int \<lfloor>r + 1\<rfloor>)) 0 1)) m))))"

definition insertQueuedPartWithPieces ::
  "playout_env \<Rightarrow> adlib_ids \<Rightarrow> PlayoutRundownModel \<Rightarrow> PlayoutPartInstanceModel \<Rightarrow> DBPart \<Rightarrow> PieceInstancePiece list
   \<Rightarrow> PieceId option \<Rightarrow> PlayoutModel \<Rightarrow> adlib_error + (PartInstanceId \<times> orphaned_segments_job list \<times> PlayoutModel)" where
  "insertQueuedPartWithPieces env ids rundown current newPart initialPieces fromAdlibId m =
     (let d = partInstanceImpl current;
          newPartFull = newPart\<lparr>part_segmentId := inst_segmentId d, part_rundownId := inst_rundownId d\<rparr>
      in and_then (of_playout (playout_getPieceInstancesForPart env m (Some current) rundown newPartFull
             (fetchPiecesThatMayBeActiveForPart env m None newPartFull) []))
         (\<lambda>infinites. and_then (of_playout (createAdlibbedPartInstance (env_now env) (new_instance_id ids)
             (new_infinite_id ids) newPart initialPieces fromAdlibId infinites m))
         (\<lambda>(i, m). and_then (updateRankForAdlibbedPartInstance i m)
         (\<lambda>m. and_then (of_playout (setNextPart env (Some (ChoiceInstance i)) False None m))
         (\<lambda>(jobs, m). Inr (i, jobs, m))))))"

definition queued_part :: "PartId \<Rightarrow> int option \<Rightarrow> DBPart" where
  \<comment> \<open>the rank is corrected when the part is inserted\<close>
  "queued_part i duration = \<lparr>part_id = i, part_rank = 99999, part_rundownId = [], part_segmentId = [],
     autoNext = False, autoNextOverlap = None, inTransition = None, disableNextInTransition = False,
     outTransition = None, expectedDuration = duration, expectedDurationWithTransition = duration,
     part_invalid = False, floated = False, untimed = False, part_externalId = [],
     shouldNotifyCurrentPlayingPart = False, holdMode = None\<rparr>"

definition sync_next :: "take_env \<Rightarrow> PlayoutPartInstanceModel option \<Rightarrow> PlayoutModel \<Rightarrow> adlib_error + PlayoutModel" where
  "sync_next env from m = of_playout (syncPlayheadInfinitesForNextPartInstance (base_env env) from (nextPartInstance m) m)"

definition innerStartOrQueueAdLibPiece ::
  "take_env \<Rightarrow> adlib_ids \<Rightarrow> PlayoutRundownModel \<Rightarrow> bool \<Rightarrow> PartInstanceId \<Rightarrow> AdLibPiece \<Rightarrow> PlayoutModel
   \<Rightarrow> adlib_error + (PartInstanceId option \<times> orphaned_segments_job list \<times> PlayoutModel)" where
  "innerStartOrQueueAdLibPiece env ids rundown queue i adLibPiece m =
     (case part_instance_at i m of
        None \<Rightarrow> Inl (PlayoutError (PartInstanceNotFound i))
      | Some current \<Rightarrow>
          if queue \<or> toBeQueued adLibPiece
          then and_then (insertQueuedPartWithPieces (base_env env) ids rundown current
                   (queued_part (new_part_id ids) (adlib_expectedDuration adLibPiece))
                   [convertAdLibToGenericPiece (new_piece_id ids) adLibPiece True] (Some (piece_id adLibPiece)) m)
                 (\<lambda>(k, jobs, m). Inr (Some k, jobs, env_updateTimeline env m))
          else let (_, current) = insertAdlibbedPiece (take_now env) (new_infinite_id ids 0)
                     (convertAdLibToGenericPiece (new_piece_id ids) adLibPiece False) (Some (piece_id adLibPiece)) current
               in and_then (sync_next env (Some current) (put_part_instance i (Some current) m))
                    (\<lambda>m. Inr (None, [], env_updateTimeline env m)))"

section \<open>Pieces that were played or planned\<close>

definition innerFindLastPieceOnLayer ::
  "playout_env \<Rightarrow> PlayoutModel \<Rightarrow> PieceInstance list \<Rightarrow> string list \<Rightarrow> bool \<Rightarrow> (PieceInstance \<Rightarrow> bool) \<Rightarrow> PieceInstance option" where
  \<comment> \<open>in the collection of piece instances\<close>
  "innerFindLastPieceOnLayer env m found layers originalOnly customQuery =
     (let latest = js_sort (\<lambda>a b. the (pi_plannedStartedPlayback a) < the (pi_plannedStartedPlayback b))
            (filter (\<lambda>p. customQuery p \<and> Some (pi_playlistActivationId p) = activationId (playlist m)
               \<and> pi_rundownId p \<in> set (getRundownIds (env_lc env) m) \<and> sourceLayerId (pi_piece p) \<in> set layers
               \<and> pi_plannedStartedPlayback p \<noteq> None \<and> (originalOnly \<longrightarrow> dynamicallyInserted p = None)) found)
      in case latest of [] \<Rightarrow> None | p # _ \<Rightarrow> Some p)"

definition starts_later_first :: "Piece \<Rightarrow> Piece \<Rightarrow> bool" where
  "starts_later_first a b = (case (en_start (enable a), en_start (enable b)) of
     (At s, At t) \<Rightarrow> s < t | (At _, Now) \<Rightarrow> True | (Now, _) \<Rightarrow> False)"

definition innerFindLastScriptedPieceOnLayer ::
  "playout_env \<Rightarrow> PlayoutModel \<Rightarrow> string list \<Rightarrow> (Piece \<Rightarrow> bool) \<Rightarrow> Piece option" where
  "innerFindLastScriptedPieceOnLayer env m layers customQuery =
     (if currentPartInfo (playlist m) = None \<or> \<not> truthy_str (activationId (playlist m)) then None
      else case map_option partInstanceImpl (currentPartInstance m) of
        None \<Rightarrow> None
      | Some cur \<Rightarrow>
         (let pieces = filter (\<lambda>p. customQuery p \<and> startRundownId p \<in> set (getRundownIds (env_lc env) m)
                \<and> sourceLayerId p \<in> set layers) (env_pieces env);
              parts = filter (\<lambda>p. part_id p \<in> startPartId ` set pieces \<and> part_rank p \<le> part_rank (inst_part cur))
                (playout_getAllOrderedParts m)
          in if parts = [] then None
             else let partStarted = planned_start cur;
                      nowInPart = (if truthy_num partStarted then env_now env - the partStarted else 0);
                      inPart = js_sort starts_later_first (filter (\<lambda>p. startPartId p = part_id (last parts)
                        \<and> (case en_start (enable p) of Now \<Rightarrow> True | At t \<Rightarrow> t \<le> nowInPart)) pieces)
                  in case inPart of [] \<Rightarrow> None
                     | p # _ \<Rightarrow> find (\<lambda>q. piece_id q = piece_id p) (env_pieces env)))"

section \<open>Jobs\<close>

definition in_hold_now :: "DBRundownPlaylist \<Rightarrow> bool" where
  "in_hold_now p = (holdState p = Some HoldActive \<or> holdState p = Some HoldPending)"

definition adlib_allowed :: "DBRundownPlaylist \<Rightarrow> adlib_error option" where
  "adlib_allowed p =
     (if \<not> truthy_str (activationId p) then Some (PlayoutError UserInactiveRundown)
      else if in_hold_now p then Some (PlayoutError UserDuringHold) else None)"

definition is_current :: "PartInstanceId \<Rightarrow> DBRundownPlaylist \<Rightarrow> bool" where
  "is_current i p = (map_option sel_partInstanceId (currentPartInfo p) = Some i)"

text \<open>
  Whether the piece copied is live. Its resolved start is relative to the part, and the code compares its end with the
  time of the day.
\<close>

definition is_live_copy :: "time \<Rightarrow> ISourceLayer option list \<Rightarrow> PlayoutPartInstanceModel \<Rightarrow> PieceInstance \<Rightarrow> bool" where
  "is_live_copy now sourceLayers current p =
     (truthy_num (pi_plannedStartedPlayback p) \<and> the (pi_plannedStartedPlayback p) \<le> now
      \<and> (case find (\<lambda>r. pi_id (pwt_instance (res_instance r)) = pi_id p)
             (getResolvedPiecesForCurrentPartInstance sourceLayers current now) of
           None \<Rightarrow> False
         | Some r \<Rightarrow> (case resolvedDuration r of
               None \<Rightarrow> False
             | Some d \<Rightarrow> infinite (pwt_instance (res_instance r)) \<noteq> None \<or> now \<le> resolvedStart r + d)))"

definition pieceTakeNowAsAdlib ::
  "take_env \<Rightarrow> adlib_ids \<Rightarrow> ISourceLayer option list \<Rightarrow> PlayoutPartInstanceModel \<Rightarrow> PieceInstancePiece
   \<Rightarrow> PieceInstance option \<Rightarrow> PlayoutModel \<Rightarrow> adlib_error + PlayoutModel" where
  \<comment> \<open>with the piece instance to copy, when it is one\<close>
  "pieceTakeNowAsAdlib env ids sourceLayers current pieceToCopy copied m =
     (let (_, current) = insertAdlibbedPiece (take_now env) (new_infinite_id ids 0)
            (convertAdLibToGenericPiece (new_piece_id ids) (adlib_of_piece pieceToCopy) False) (Some (piece_id pieceToCopy)) current;
          i = inst_id (partInstanceImpl current);
          finish = (\<lambda>current. let m = put_part_instance i (Some current) m
             in and_then (sync_next env (currentPartInstance m) m) (\<lambda>m. Inr (env_updateTimeline env m)))
      in case copied of
           None \<Rightarrow> finish current
         | Some p \<Rightarrow>
             if pi_partInstanceId p \<noteq> i then finish current
             else if is_live_copy (take_now env) sourceLayers current p then Inl (UserPieceAsAdlibCurrentlyLive (pi_id p))
             else finish (inst_on_piece (pi_id p) (setDisabled True) current))"

definition handleTakePieceAsAdlibNow ::
  "take_env \<Rightarrow> adlib_ids \<Rightarrow> (string \<Rightarrow> PlayoutRundownModel \<Rightarrow> PlayoutModel \<Rightarrow> adlib_error + PlayoutModel)
   \<Rightarrow> PartInstanceId \<Rightarrow> string \<Rightarrow> PlayoutModel \<Rightarrow> adlib_error + PlayoutModel" where
  \<comment> \<open>an action of the blueprint is an argument\<close>
  "handleTakePieceAsAdlibNow env ids executeAction partInstanceId idToCopy m =
     (case adlib_allowed (playlist m) of
        Some e \<Rightarrow> Inl e
      | None \<Rightarrow>
          if \<not> is_current partInstanceId (playlist m) then Inl UserAdlibCurrentPart
          else (case currentPartInstance m of
            None \<Rightarrow> Inl (PlayoutError UserInactiveRundown)
          | Some current \<Rightarrow>
             (case getRundown (inst_rundownId (partInstanceImpl current)) m of
                None \<Rightarrow> Inl (PlayoutError (RundownNotFound (inst_rundownId (partInstanceImpl current))))
              | Some rundown \<Rightarrow>
                 (let copied = map_option (\<lambda>(_, q). PieceInstanceImpl q) (findPieceInstance idToCopy m);
                      pieceToCopy = (case copied of
                          Some p \<Rightarrow> Some (pi_piece p)
                        | None \<Rightarrow> map_option PieceInstancePiece.truncate (find (\<lambda>p. piece_id p = idToCopy
                            \<and> startRundownId p \<in> set (getRundownIds (env_lc (base_env env)) m)) (env_pieces (base_env env))))
                  in case pieceToCopy of
                       None \<Rightarrow> Inl UserPieceAsAdlibNotFound
                     | Some piece \<Rightarrow>
                        (case allowDirectPlay piece of
                           None \<Rightarrow> Inl UserPieceAsAdlibNotDirectPlayable
                         | Some DirectPlayAdLibPiece \<Rightarrow> pieceTakeNowAsAdlib env ids
                             (env_sourceLayers (base_env env) (rd_showStyleBaseId (rundown_doc rundown))) current piece copied m
                         | Some (DirectPlayAdLibAction a) \<Rightarrow> executeAction a rundown m)))))"

text \<open>The collections of ad-libs; the ones of buckets are those of the studio.\<close>

record adlib_collections =
  baselineAdLibPieces :: "(RundownId \<times> AdLibPiece) list"
  adLibPieces :: "(RundownId \<times> AdLibPiece) list"
  bucketAdLibPieces :: "BucketAdLib list"

datatype adlib_kind = BaselineAdLib | NormalAdLib | BucketAdLibOf

definition find_adlib :: "(RundownId \<times> AdLibPiece) list \<Rightarrow> RundownId set \<Rightarrow> PieceId \<Rightarrow> AdLibPiece option" where
  "find_adlib c rundownIds i = map_option snd (find (\<lambda>(r, p). piece_id p = i \<and> r \<in> rundownIds) c)"

definition adlib_to_start ::
  "adlib_collections \<Rightarrow> adlib_kind \<Rightarrow> PieceId \<Rightarrow> PlayoutRundownModel \<Rightarrow> PlayoutModel \<Rightarrow> adlib_error + AdLibPiece option" where
  "adlib_to_start c kind i rundown m =
     (let variant = rd_showStyleVariantId (rundown_doc rundown);
          safeRundownIds = (\<lambda>r. rd_id (rundown_doc r)) `
            set (filter (\<lambda>r. rd_showStyleVariantId (rundown_doc r) = variant) (rundownsImpl m))
      in case kind of
           BaselineAdLib \<Rightarrow> Inr (find_adlib (baselineAdLibPieces c) safeRundownIds i)
         | NormalAdLib \<Rightarrow> Inr (find_adlib (adLibPieces c) safeRundownIds i)
         | BucketAdLibOf \<Rightarrow>
            (case find (\<lambda>b. piece_id b = i) (bucketAdLibPieces c) of
               None \<Rightarrow> Inr None
             | Some b \<Rightarrow>
                 if bucket_showStyleVariantId b \<noteq> Some variant then Inl UserBucketAdlibIncompatible
                 else Inr (Some (AdLibPiece.truncate b))))"

definition handleAdLibPieceStart ::
  "take_env \<Rightarrow> adlib_ids \<Rightarrow> adlib_collections \<Rightarrow> PartInstanceId \<Rightarrow> PieceId \<Rightarrow> adlib_kind \<Rightarrow> bool \<Rightarrow> PlayoutModel
   \<Rightarrow> adlib_error + (orphaned_segments_job list \<times> PlayoutModel)" where
  "handleAdLibPieceStart env ids c partInstanceId adLibPieceId kind queue m =
     (case adlib_allowed (playlist m) of
        Some e \<Rightarrow> Inl e
      | None \<Rightarrow>
          if \<not> queue \<and> \<not> is_current partInstanceId (playlist m) then Inl UserAdlibCurrentPart
          else (case part_instance_at partInstanceId m of
            None \<Rightarrow> Inl (PlayoutError (PartInstanceNotFound partInstanceId))
          | Some p \<Rightarrow>
             (case getRundown (inst_rundownId (partInstanceImpl p)) m of
                None \<Rightarrow> Inl (PlayoutError (RundownNotFound (inst_rundownId (partInstanceImpl p))))
              | Some rundown \<Rightarrow>
                  and_then (adlib_to_start c kind adLibPieceId rundown m)
                    (\<lambda>found. case found of
                       None \<Rightarrow> Inl UserAdlibNotFound
                     | Some adLibPiece \<Rightarrow>
                         if piece_invalid adLibPiece \<or> adlib_floated adLibPiece then Inl UserAdlibUnplayable
                         else and_then (innerStartOrQueueAdLibPiece env ids rundown queue partInstanceId adLibPiece m)
                           (\<lambda>(_, jobs, m). Inr (jobs, m))))))"

definition source_layer :: "take_env \<Rightarrow> PlayoutRundownModel \<Rightarrow> string \<Rightarrow> ISourceLayer option" where
  "source_layer env rundown i = find (\<lambda>l. layer_id l = i)
     (compact (env_sourceLayers (base_env env) (rd_showStyleBaseId (rundown_doc rundown))))"

definition layer_job_allowed :: "DBRundownPlaylist \<Rightarrow> adlib_error option" where
  "layer_job_allowed p =
     (case adlib_allowed p of
        Some e \<Rightarrow> Some e
      | None \<Rightarrow> if currentPartInfo p = None then Some (PlayoutError UserNoCurrentPart) else None)"

definition handleStartStickyPieceOnSourceLayer ::
  "take_env \<Rightarrow> adlib_ids \<Rightarrow> PieceId \<Rightarrow> PieceInstance list \<Rightarrow> string \<Rightarrow> PlayoutModel
   \<Rightarrow> adlib_error + (orphaned_segments_job list \<times> PlayoutModel)" where
  \<comment> \<open>with the id of the ad-lib that is made of the piece found\<close>
  "handleStartStickyPieceOnSourceLayer env ids adlibId played layerId m =
     (case layer_job_allowed (playlist m) of
        Some e \<Rightarrow> Inl e
      | None \<Rightarrow>
         (case currentPartInstance m of
            None \<Rightarrow> Inl (PlayoutError UserNoCurrentPart)
          | Some current \<Rightarrow>
             (case getRundown (inst_rundownId (partInstanceImpl current)) m of
                None \<Rightarrow> Inl (PlayoutError (RundownNotFound (inst_rundownId (partInstanceImpl current))))
              | Some rundown \<Rightarrow>
                 (case source_layer env rundown layerId of
                    None \<Rightarrow> Inl (SourceLayerNotFound layerId)
                  | Some layer \<Rightarrow>
                      if \<not> isSticky layer then Inl UserSourceLayerNotSticky
                      else (case innerFindLastPieceOnLayer (base_env env) m played [layer_id layer] (stickyOriginalOnly layer)
                               (\<lambda>_. True) of
                              None \<Rightarrow> Inl UserSourceLayerStickyNothingFound
                            | Some p \<Rightarrow> and_then (innerStartOrQueueAdLibPiece env ids rundown False
                                  (inst_id (partInstanceImpl current)) (convertPieceToAdLibPiece adlibId (pi_piece p)) m)
                                (\<lambda>(_, jobs, m). Inr (jobs, m)))))))"

definition handleStopPiecesOnSourceLayers ::
  "take_env \<Rightarrow> PartInstanceId \<Rightarrow> string list \<Rightarrow> PlayoutModel \<Rightarrow> adlib_error + PlayoutModel" where
  "handleStopPiecesOnSourceLayers env partInstanceId layers m =
     (if layers = [] then Inr m
      else case layer_job_allowed (playlist m) of
        Some e \<Rightarrow> Inl e
      | None \<Rightarrow>
         (case part_instance_at partInstanceId m of
            None \<Rightarrow> Inl (PlayoutError (PartInstanceNotFound partInstanceId))
          | Some p \<Rightarrow>
              if \<not> truthy_num (planned_start (partInstanceImpl p)) then Inl (PartYetToStart partInstanceId)
              else (case getRundown (inst_rundownId (partInstanceImpl p)) m of
                 None \<Rightarrow> Inl (PlayoutError (RundownNotFound (inst_rundownId (partInstanceImpl p))))
               | Some rundown \<Rightarrow>
                   and_then (of_playout (innerStopPieces env
                       (env_sourceLayers (base_env env) (rd_showStyleBaseId (rundown_doc rundown))) partInstanceId
                       (\<lambda>q. sourceLayerId (pi_piece q) \<in> set layers) None m))
                     (\<lambda>(changed, m). if changed = [] then Inr m
                        else and_then (sync_next env (currentPartInstance m) m) (\<lambda>m. Inr (env_updateTimeline env m))))))"

text \<open>The next piece that may be disabled, or the last one that was\<close>

definition may_disable :: "(string \<Rightarrow> ISourceLayer option) \<Rightarrow> PieceInstance \<Rightarrow> bool" where
  "may_disable layers p = (case layers (sourceLayerId (pi_piece p)) of
     None \<Rightarrow> False
   | Some l \<Rightarrow> allowDisable l \<and> \<not> virtual (pi_piece p) \<and> pieceType (pi_piece p) = PieceNormal)"

definition layer_order :: "(string \<Rightarrow> ISourceLayer option) \<Rightarrow> PieceInstance \<Rightarrow> rank" where
  \<comment> \<open>a rank of zero counts as absent\<close>
  "layer_order layers p =
     (let r = map_option layer_rank (layers (sourceLayerId (pi_piece p))) in if truthy_rank r then the r else - 9999)"

definition getNextPiece ::
  "(string \<Rightarrow> ISourceLayer option) \<Rightarrow> bool \<Rightarrow> time \<Rightarrow> PlayoutPartInstanceModel \<Rightarrow> bool \<Rightarrow> PieceInstance option" where
  "getNextPiece layers undo now p ignoreStartedPlayback =
     (let started = planned_start (partInstanceImpl p);
          nowInPart = (if \<not> ignoreStartedPlayback \<and> truthy_num started then now - the started else 0);
          sortedByLayer = js_sort (\<lambda>a b. layer_order layers b < layer_order layers a) (filter (may_disable layers) (live_pieces p));
          sortedPieces = js_sort (\<lambda>a b. 0 < comparePieceStart (pi_piece a) (pi_piece b) nowInPart) sortedByLayer
      in find (\<lambda>q. (case en_start (enable (pi_piece q)) of Now \<Rightarrow> False | At t \<Rightarrow> nowInPart \<le> t) \<and> disabled q = undo)
           (if undo then rev sortedPieces else sortedPieces))"

fun first_candidate ::
  "(PlayoutPartInstanceModel \<Rightarrow> bool \<Rightarrow> PieceInstance option) \<Rightarrow> (PlayoutPartInstanceModel option \<times> bool) list
   \<Rightarrow> (PartInstanceId \<times> PieceInstanceId) option" where
  "first_candidate next_piece [] = None"
| "first_candidate next_piece ((None, _) # ps) = first_candidate next_piece ps"
| "first_candidate next_piece ((Some p, ignore) # ps) =
     (case next_piece p ignore of
        Some q \<Rightarrow> Some (inst_id (partInstanceImpl p), pi_id q) | None \<Rightarrow> first_candidate next_piece ps)"

definition handleDisableNextPiece :: "take_env \<Rightarrow> bool \<Rightarrow> PlayoutModel \<Rightarrow> adlib_error + PlayoutModel" where
  "handleDisableNextPiece env undo m =
     (if \<not> truthy_str (activationId (playlist m)) then Inl (PlayoutError UserInactiveRundown)
      else case currentPartInfo (playlist m) of
        None \<Rightarrow> Inl (PlayoutError UserNoCurrentPart)
      | Some info \<Rightarrow>
         (case currentPartInstance m of
            None \<Rightarrow> Inl (PlayoutError (PartInstanceNotFound (sel_partInstanceId info)))
          | Some current \<Rightarrow>
             (case getRundown (inst_rundownId (partInstanceImpl current)) m of
                None \<Rightarrow> Inl (PlayoutError (RundownNotFound (inst_rundownId (partInstanceImpl current))))
              | Some rundown \<Rightarrow>
                 (let ps = [(Some current, False), (nextPartInstance m, True)]
                  in case first_candidate (getNextPiece (source_layer env rundown) undo (take_now env)) (if undo then rev ps else ps) of
                       None \<Rightarrow> Inl UserDisableNoPieceFound
                     | Some (i, k) \<Rightarrow>
                         Inr (env_updateTimeline env (on_part_instance i (inst_on_piece k (setDisabled (\<not> undo))) m))))))"

end
