(* ===== verification/Adlib_Actions.thy ===== *)
theory Adlib_Actions
  imports Adlibs Playout_Jobs Post_Process
begin

text \<open>
  What an action of a blueprint may do to the playout model, and what follows it: the changing operations of
  \<open>blueprints/context/services/PartAndPieceInstanceActionService.ts\<close> and \<open>blueprints/context/adlibActions.ts\<close>,
  \<open>playout/adlibAction.ts\<close> and \<open>playout/adlibTesting.ts\<close>, all in \<open>packages/job-worker/src\<close>. A blueprint is a
  sequence of calls: which calls it makes is its own affair, and it fails with the first call that throws. Timeline
  objects, packages and the documents handed back to it are left out, as are calls that reach devices or the datastore.
\<close>

section \<open>Errors\<close>

datatype action_error =
    AdlibError adlib_error
  | PostProcessError post_process_error
  | InsertWithoutActivePart
  | RundownOfPartInstanceNotFound
  | NoValidProperties
  | PieceInstanceCouldNotBeFound
  | CannotUpdateContinuedInfinite
  | OnlyCurrentOrNextPieces
  | PartInstanceCouldNotBeFound
  | CannotQueueWithoutCurrent
  | NextPartAlreadyModified
  | TooCloseToAutonextToQueue
  | NewPartWithoutPieces
  | QueuedPartNotPlayable
  | StopWithoutCurrentPart
  | RemoveWithoutNextPart
  | BlockTakeInThePast
  | BlockTakeWithoutCurrentPart
  | RundownOfInstanceMissing RundownId
  | SegmentOfInstanceMissing SegmentId
  | UserAdlibTestingNotAllowed
  | UserAdlibTestingAlreadyActive

definition post_processed :: "post_process_error + 'a \<Rightarrow> action_error + 'a" where
  "post_processed = map_sum PostProcessError id"

definition of_adlib :: "adlib_error + 'a \<Rightarrow> action_error + 'a" where
  "of_adlib = map_sum AdlibError id"

section \<open>The state of an action\<close>

datatype ActionPartChange = NoChange | SafeChange

definition change_max :: "ActionPartChange \<Rightarrow> ActionPartChange \<Rightarrow> ActionPartChange" where
  "change_max a b = (if a = SafeChange then SafeChange else b)"

record action_state =
  action_model :: PlayoutModel
  currentPartState :: ActionPartChange
  nextPartState :: ActionPartChange
  queuedPartInstanceId :: "PartInstanceId option"
  takeAfterExecute :: bool

datatype which_part = TheCurrentPart | TheNextPart

text \<open>The surroundings of an action; each call has random ids of its own.\<close>

record action_env =
  job_env :: take_env
  action_ids :: "nat \<Rightarrow> adlib_ids"
  action_hash :: "string \<Rightarrow> string"
  action_show_nat :: "nat \<Rightarrow> string"
  action_blueprintId :: string
  action_rundown :: PlayoutRundownModel

abbreviation action_layers :: "action_env \<Rightarrow> ISourceLayer option list" where
  "action_layers env \<equiv> env_sourceLayers (base_env (job_env env)) (rd_showStyleBaseId (rundown_doc (action_rundown env)))"

definition getPartInstance :: "which_part \<Rightarrow> PlayoutModel \<Rightarrow> PlayoutPartInstanceModel option" where
  "getPartInstance part m = (case part of TheCurrentPart \<Rightarrow> currentPartInstance m | TheNextPart \<Rightarrow> nextPartInstance m)"

definition mark_changed :: "which_part \<Rightarrow> action_state \<Rightarrow> action_state" where
  "mark_changed part st = (case part of
     TheCurrentPart \<Rightarrow> st\<lparr>currentPartState := change_max (currentPartState st) SafeChange\<rparr>
   | TheNextPart \<Rightarrow> st\<lparr>nextPartState := change_max (nextPartState st) SafeChange\<rparr>)"

definition findLastPieceOnLayer ::
  "action_env \<Rightarrow> PlayoutModel \<Rightarrow> PieceInstance list \<Rightarrow> string list \<Rightarrow> bool \<Rightarrow> bool \<Rightarrow> (PieceInstance \<Rightarrow> bool) \<Rightarrow> PieceInstance option" where
  \<comment> \<open>with the filter on private data\<close>
  "findLastPieceOnLayer env m played layers excludeCurrentPart originalOnly piecePrivateDataFilter =
     innerFindLastPieceOnLayer (base_env (job_env env)) m played layers originalOnly
       (\<lambda>p. piecePrivateDataFilter p \<and> (excludeCurrentPart \<and> currentPartInfo (playlist m) \<noteq> None
          \<longrightarrow> Some (pi_partInstanceId p) \<noteq> map_option sel_partInstanceId (currentPartInfo (playlist m))))"

definition findLastScriptedPieceOnLayer ::
  "action_env \<Rightarrow> PlayoutModel \<Rightarrow> string list \<Rightarrow> bool \<Rightarrow> (Piece \<Rightarrow> bool) \<Rightarrow> Piece option" where
  "findLastScriptedPieceOnLayer env m layers excludeCurrentPart piecePrivateDataFilter =
     innerFindLastScriptedPieceOnLayer (base_env (job_env env)) m layers
       (\<lambda>p. piecePrivateDataFilter p \<and> (excludeCurrentPart
          \<longrightarrow> Some (startPartId p) \<noteq> map_option (\<lambda>c. part_id (inst_part (partInstanceImpl c))) (currentPartInstance m)))"

section \<open>The calls of a blueprint\<close>

definition insertPiece ::
  "action_env \<Rightarrow> adlib_ids \<Rightarrow> which_part \<Rightarrow> IBlueprintPiece \<Rightarrow> action_state \<Rightarrow> action_error + action_state" where
  "insertPiece env ids part rawPiece st =
     (let m = action_model st in
      case getPartInstance part m of
        None \<Rightarrow> Inl InsertWithoutActivePart
      | Some p \<Rightarrow>
         (let d = partInstanceImpl p in
          if getRundown (inst_rundownId d) m = None then Inl RundownOfPartInstanceNotFound
          else and_then (post_processed (postProcessPieces (action_hash env) (action_show_nat env)
              \<lparr>owner_rundownId = inst_rundownId d, owner_segmentId = inst_segmentId d, owner_partId = part_id (inst_part d),
               owner_blueprintId = action_blueprintId env\<rparr> (part = TheCurrentPart) False [rawPiece]))
            (\<lambda>pieces. Inr (mark_changed part (st\<lparr>action_model := on_part_instance (inst_id d)
               (\<lambda>p. snd (insertAdlibbedPiece (take_now (job_env env)) (new_infinite_id ids 0)
                  ((PieceInstancePiece.truncate (hd pieces))\<lparr>piece_id := new_piece_id ids\<rparr>) None p)) m\<rparr>)))))"

definition updatePieceInstance ::
  "PieceInstanceId \<Rightarrow> (PieceInstancePiece \<Rightarrow> PieceInstancePiece) option \<Rightarrow> action_state \<Rightarrow> action_error + action_state" where
  \<comment> \<open>with the spread of the allowed properties, when one is given\<close>
  "updatePieceInstance pieceInstanceId trimmedPiece st =
     (let m = action_model st; selects = (\<lambda>info i. map_option sel_partInstanceId info = Some i) in
      case trimmedPiece of
        None \<Rightarrow> Inl NoValidProperties
      | Some spread \<Rightarrow>
         (case findPieceInstance pieceInstanceId m of
            None \<Rightarrow> Inl PieceInstanceCouldNotBeFound
          | Some (owner, q) \<Rightarrow>
             (let d = PieceInstanceImpl q;
                  updatesCurrentPart = selects (currentPartInfo (playlist m)) (pi_partInstanceId d);
                  updatesNextPart = selects (nextPartInfo (playlist m)) (pi_partInstanceId d)
              in if (case infinite d of None \<Rightarrow> False | Some link \<Rightarrow> fromPreviousPart link) then Inl CannotUpdateContinuedInfinite
                 else if \<not> updatesCurrentPart \<and> \<not> updatesNextPart then Inl OnlyCurrentOrNextPieces
                 else let st = st\<lparr>action_model := on_part_instance (inst_id (partInstanceImpl owner))
                            (inst_on_piece pieceInstanceId (updatePieceProps spread)) m\<rparr>;
                          st = (if updatesNextPart then mark_changed TheNextPart st else st)
                      in Inr (if updatesCurrentPart then mark_changed TheCurrentPart st else st))))"

definition updatePartInstance ::
  "which_part \<Rightarrow> (DBPart \<Rightarrow> DBPart) option \<Rightarrow> action_state \<Rightarrow> action_error + action_state" where
  "updatePartInstance part props st =
     (case getPartInstance part (action_model st) of
        None \<Rightarrow> Inl PartInstanceCouldNotBeFound
      | Some p \<Rightarrow>
         (let (changed, p) = updatePartProps props p
          in if \<not> changed then Inl NoValidProperties
             else Inr (mark_changed part (st\<lparr>action_model :=
               put_part_instance (inst_id (partInstanceImpl p)) (Some p) (action_model st)\<rparr>))))"

definition queuePart ::
  "action_env \<Rightarrow> adlib_ids \<Rightarrow> DBPart \<Rightarrow> IBlueprintPiece list \<Rightarrow> action_state
   \<Rightarrow> action_error + (orphaned_segments_job list \<times> action_state)" where
  "queuePart env ids rawPart rawPieces st =
     (let m = action_model st in
      case currentPartInstance m of
        None \<Rightarrow> Inl CannotQueueWithoutCurrent
      | Some c \<Rightarrow>
         (let d = partInstanceImpl c;
              newPart = rawPart\<lparr>part_id := new_part_id ids, part_rank := 99999, part_invalid := False, floated := False,
                expectedDurationWithTransition := None\<rparr>
          in if nextPartState st \<noteq> NoChange then Inl NextPartAlreadyModified
             else if isTooCloseToAutonext (take_now (job_env env)) (Some d) True then Inl TooCloseToAutonextToQueue
             else if rawPieces = [] then Inl NewPartWithoutPieces
             else and_then (post_processed (postProcessPieces (action_hash env) (action_show_nat env)
                 \<lparr>owner_rundownId = inst_rundownId d, owner_segmentId = inst_segmentId d, owner_partId = part_id newPart,
                  owner_blueprintId = action_blueprintId env\<rparr> False False rawPieces))
               (\<lambda>pieces. if \<not> isPartPlayable newPart then Inl QueuedPartNotPlayable
                  else and_then (of_adlib (insertQueuedPartWithPieces (base_env (job_env env)) ids (action_rundown env) c newPart
                      (map PieceInstancePiece.truncate pieces) None m))
                    (\<lambda>(i, jobs, m). Inr (jobs, st\<lparr>action_model := m, nextPartState := SafeChange, queuedPartInstanceId := Some i\<rparr>)))))"

definition action_moveNextPart ::
  "action_env \<Rightarrow> int \<Rightarrow> int \<Rightarrow> action_state \<Rightarrow> action_error + (orphaned_segments_job list \<times> action_state)" where
  "action_moveNextPart env partDelta segmentDelta st =
     (let m = action_model st in
      and_then (of_adlib (of_playout (moved_part partDelta segmentDelta m))) (\<lambda>target. case target of
          None \<Rightarrow> Inr ([], st)
        | Some part \<Rightarrow> and_then (of_adlib (of_playout (setNextPartFromPart (base_env (job_env env)) part True None m)))
            (\<lambda>(jobs, m). Inr (jobs, st\<lparr>action_model := m\<rparr>))))"

definition stopPiecesByRule ::
  "action_env \<Rightarrow> (PieceInstance \<Rightarrow> bool) \<Rightarrow> int option \<Rightarrow> action_state \<Rightarrow> action_error + action_state" where
  "stopPiecesByRule env rule timeOffset st =
     (let m = action_model st in
      if currentPartInfo (playlist m) = None then Inr st
      else case currentPartInstance m of
        None \<Rightarrow> Inl StopWithoutCurrentPart
      | Some c \<Rightarrow> and_then (of_adlib (of_playout (innerStopPieces (job_env env) (action_layers env)
            (inst_id (partInstanceImpl c)) rule timeOffset m)))
          (\<lambda>(stoppedIds, m). let st = st\<lparr>action_model := m\<rparr>
             in Inr (if stoppedIds \<noteq> [] then mark_changed TheCurrentPart st else st)))"

definition stopPiecesOnLayers ::
  "action_env \<Rightarrow> string list \<Rightarrow> int option \<Rightarrow> action_state \<Rightarrow> action_error + action_state" where
  "stopPiecesOnLayers env layers timeOffset st =
     (if layers = [] then Inr st else stopPiecesByRule env (\<lambda>p. sourceLayerId (pi_piece p) \<in> set layers) timeOffset st)"

definition stopPieceInstances ::
  "action_env \<Rightarrow> PieceInstanceId list \<Rightarrow> int option \<Rightarrow> action_state \<Rightarrow> action_error + action_state" where
  "stopPieceInstances env ids timeOffset st =
     (if ids = [] then Inr st else stopPiecesByRule env (\<lambda>p. pi_id p \<in> set ids) timeOffset st)"

definition removePieceInstances :: "PieceInstanceId list \<Rightarrow> action_state \<Rightarrow> action_error + action_state" where
  "removePieceInstances ids st =
     (case nextPartInstance (action_model st) of
        None \<Rightarrow> Inl RemoveWithoutNextPart
      | Some p \<Rightarrow> Inr (mark_changed TheNextPart (st\<lparr>action_model := on_part_instance (inst_id (partInstanceImpl p))
          (fold (\<lambda>i. snd \<circ> removePieceInstance i) ids) (action_model st)\<rparr>)))"

definition action_blockTakeUntil :: "action_env \<Rightarrow> time option \<Rightarrow> action_state \<Rightarrow> action_error + action_state" where
  "action_blockTakeUntil env t st =
     (if (case t of None \<Rightarrow> False | Some t \<Rightarrow> t < take_now (job_env env)) then Inl BlockTakeInThePast
      else case currentPartInstance (action_model st) of
        None \<Rightarrow> Inl BlockTakeWithoutCurrentPart
      | Some c \<Rightarrow> Inr (st\<lparr>action_model :=
          on_part_instance (inst_id (partInstanceImpl c)) (inst_blockTakeUntil t) (action_model st)\<rparr>))"

definition takeAfterExecuteAction :: "bool \<Rightarrow> action_state \<Rightarrow> action_state" where
  "takeAfterExecuteAction b st = st\<lparr>takeAfterExecute := b\<rparr>"

datatype blueprint_call =
    InsertPiece which_part IBlueprintPiece
  | UpdatePieceInstance PieceInstanceId "(PieceInstancePiece \<Rightarrow> PieceInstancePiece) option"
  | UpdatePartInstance which_part "(DBPart \<Rightarrow> DBPart) option"
  | QueuePart DBPart "IBlueprintPiece list"
  | MoveNextPart int int
  | StopPiecesOnLayers "string list" "int option"
  | StopPieceInstances "PieceInstanceId list" "int option"
  | RemovePieceInstances "PieceInstanceId list"
  | BlockTakeUntil "time option"
  | TakeAfterExecute bool

definition no_jobs :: "action_error + action_state \<Rightarrow> action_error + (orphaned_segments_job list \<times> action_state)" where
  "no_jobs = map_sum id (Pair [])"

fun perform_call ::
  "action_env \<Rightarrow> adlib_ids \<Rightarrow> blueprint_call \<Rightarrow> action_state \<Rightarrow> action_error + (orphaned_segments_job list \<times> action_state)" where
  "perform_call env ids (InsertPiece part p) st = no_jobs (insertPiece env ids part p st)"
| "perform_call env ids (UpdatePieceInstance i spread) st = no_jobs (updatePieceInstance i spread st)"
| "perform_call env ids (UpdatePartInstance part spread) st = no_jobs (updatePartInstance part spread st)"
| "perform_call env ids (QueuePart part ps) st = queuePart env ids part ps st"
| "perform_call env ids (MoveNextPart p s) st = action_moveNextPart env p s st"
| "perform_call env ids (StopPiecesOnLayers layers t) st = no_jobs (stopPiecesOnLayers env layers t st)"
| "perform_call env ids (StopPieceInstances is t) st = no_jobs (stopPieceInstances env is t st)"
| "perform_call env ids (RemovePieceInstances is) st = no_jobs (removePieceInstances is st)"
| "perform_call env ids (BlockTakeUntil t) st = no_jobs (action_blockTakeUntil env t st)"
| "perform_call env ids (TakeAfterExecute b) st = Inr ([], takeAfterExecuteAction b st)"

fun run_calls ::
  "action_env \<Rightarrow> nat \<Rightarrow> blueprint_call list \<Rightarrow> action_state \<Rightarrow> action_error + (orphaned_segments_job list \<times> action_state)" where
  "run_calls env k [] st = Inr ([], st)"
| "run_calls env k (c # cs) st =
     and_then (perform_call env (action_ids env k) c st)
       (\<lambda>(jobs, st). and_then (run_calls env (Suc k) cs st) (\<lambda>(more, st). Inr (jobs @ more, st)))"

section \<open>After the blueprint\<close>

definition validateAdlibTestingSegmentProperties :: "PlayoutPartInstanceModel \<Rightarrow> PlayoutPartInstanceModel" where
  "validateAdlibTestingSegmentProperties p =
     snd (inst_compareAndSetPartValue untimed untimed_update True
       (snd (inst_compareAndSetPartValue autoNext autoNext_update False (inst_setOrphaned (Some AdlibPart) p))))"

definition validateAdlibTestingPartInstanceProperties ::
  "PlayoutPartInstanceModel \<Rightarrow> PlayoutModel \<Rightarrow> action_error + PlayoutModel" where
  "validateAdlibTestingPartInstanceProperties p m =
     (let d = partInstanceImpl p in
      case getRundown (inst_rundownId d) m of
        None \<Rightarrow> Inl (RundownOfInstanceMissing (inst_rundownId d))
      | Some r \<Rightarrow> (case rundown_getSegment (inst_segmentId d) r of
            None \<Rightarrow> Inl (SegmentOfInstanceMissing (inst_segmentId d))
          | Some s \<Rightarrow> Inr (if is_adlib_testing s then on_part_instance (inst_id d) validateAdlibTestingSegmentProperties m else m)))"

definition applyActionSideEffects :: "take_env \<Rightarrow> action_state \<Rightarrow> action_error + action_state" where
  "applyActionSideEffects env st =
     (let m = action_model st in
      and_then (if currentPartState st \<noteq> NoChange \<or> nextPartState st \<noteq> NoChange
          then of_adlib (sync_next env (currentPartInstance m) m) else Inr m)
      (\<lambda>m. and_then (case nextPartInstance m of
            Some n \<Rightarrow> if nextPartState st \<noteq> NoChange
              then validateAdlibTestingPartInstanceProperties n
                (on_part_instance (inst_id (partInstanceImpl n)) recalculateExpectedDurationWithTransition m)
              else Inr m
          | None \<Rightarrow> Inr m)
      (\<lambda>m. and_then (case currentPartInstance m of
            Some c \<Rightarrow> if currentPartState st \<noteq> NoChange then validateAdlibTestingPartInstanceProperties c m else Inr m
          | None \<Rightarrow> Inr m)
      (\<lambda>m. Inr (st\<lparr>action_model := m\<rparr>)))))"

definition applyAnyExecutionSideEffects ::
  "take_env \<Rightarrow> action_state \<Rightarrow> action_error + (orphaned_segments_job list \<times> bool option \<times> action_state)" where
  \<comment> \<open>with what a take defers to before the save\<close>
  "applyAnyExecutionSideEffects env st =
     and_then (applyActionSideEffects env st) (\<lambda>st.
       if takeAfterExecute st
       then and_then (of_adlib (of_playout (performTakeToNextedPart env (action_model st))))
              (\<lambda>(jobs, deferred, m). Inr (jobs, deferred, st\<lparr>action_model := m\<rparr>))
       else Inr ([], None, if currentPartState st \<noteq> NoChange \<or> nextPartState st \<noteq> NoChange
              then st\<lparr>action_model := env_updateTimeline env (action_model st)\<rparr> else st))"

definition new_action_state :: "PlayoutModel \<Rightarrow> action_state" where
  "new_action_state m = \<lparr>action_model = m, currentPartState = NoChange, nextPartState = NoChange,
     queuedPartInstanceId = None, takeAfterExecute = False\<rparr>"

definition executeActionInner ::
  "action_env \<Rightarrow> blueprint_call list \<Rightarrow> PlayoutModel
   \<Rightarrow> action_error + (orphaned_segments_job list \<times> bool option \<times> action_state)" where
  "executeActionInner env calls m =
     and_then (run_calls env 0 calls (new_action_state m)) (\<lambda>(jobs, st).
       and_then (applyAnyExecutionSideEffects (job_env env) st) (\<lambda>(more, deferred, st). Inr (jobs @ more, deferred, st)))"

definition handleExecuteAdlibAction ::
  "action_env \<Rightarrow> blueprint_call list \<Rightarrow> PlayoutModel
   \<Rightarrow> action_error + (orphaned_segments_job list \<times> PartInstanceId option \<times> bool \<times> PlayoutModel)" where
  \<comment> \<open>for a blueprint that has actions; the rundown of the surroundings is the one on air\<close>
  "handleExecuteAdlibAction env calls m =
     (if \<not> truthy_str (activationId (playlist m)) then Inl (AdlibError (PlayoutError UserInactiveRundown))
      else case currentPartInfo (playlist m) of
        None \<Rightarrow> Inl (AdlibError (PlayoutError UserNoCurrentPart))
      | Some info \<Rightarrow>
         (case getRundown (sel_rundownId info) m of
            None \<Rightarrow> Inl (AdlibError (PlayoutError (RundownNotFound (sel_rundownId info))))
          | Some rundown \<Rightarrow>
              and_then (executeActionInner (env\<lparr>action_rundown := rundown\<rparr>) calls m)
                (\<lambda>(jobs, deferred, st). Inr (jobs, queuedPartInstanceId st, takeAfterExecute st,
                   if deferred = None then action_model st
                   else afterTakeUpdateTimingsAndEvents (job_env env) (take_now (job_env env)) (action_model st)))))"

section \<open>Ad-lib testing\<close>

definition adlib_testing_part :: "PartId \<Rightarrow> DBPart" where
  "adlib_testing_part i = (queued_part i (Some 0))\<lparr>part_rank := 0, untimed := True\<rparr>"

definition handleActivateAdlibTesting ::
  "take_env \<Rightarrow> bool \<Rightarrow> adlib_ids \<Rightarrow> SegmentId \<Rightarrow> string \<Rightarrow> RundownId \<Rightarrow> PlayoutModel
   \<Rightarrow> action_error + (orphaned_segments_job list \<times> PlayoutModel)" where
  \<comment> \<open>with the setting of the studio, and the random ids of the segment and its playout\<close>
  "handleActivateAdlibTesting env allowAdlibTestingSegment ids segmentId playoutId rundownId m =
     (if \<not> allowAdlibTestingSegment then Inl UserAdlibTestingNotAllowed
      else if \<not> truthy_str (activationId (playlist m)) then Inl (AdlibError (PlayoutError UserInactiveRundown))
      else if currentPartInfo (playlist m) \<noteq> None then Inl (AdlibError (PlayoutError UserRundownAlreadyActive))
      else case getRundown rundownId m of
        None \<Rightarrow> Inl (AdlibError (PlayoutError (RundownNotFound rundownId)))
      | Some rundown \<Rightarrow>
         (case insertAdlibTestingSegment segmentId (take_now env) rundown of
            None \<Rightarrow> Inl UserAdlibTestingAlreadyActive
          | Some (_, rundown) \<Rightarrow>
              and_then (of_adlib (of_playout (createAdlibTestingPartInstance (new_instance_id ids) playoutId rundown
                  (adlib_testing_part (new_part_id ids)) (on_rundown rundownId (\<lambda>_. rundown) m))))
                (\<lambda>(i, m). and_then (of_adlib (of_playout (setPartInstanceAsNext (Some i) True False None m)))
                  (\<lambda>m. and_then (of_adlib (of_playout (performTakeToNextedPart env m)))
                    (\<lambda>(jobs, deferred, m). Inr (jobs, if deferred = None then m
                       else afterTakeUpdateTimingsAndEvents env (take_now env) m))))))"

end
