(* ===== verification/Adlib_Facts.thy ===== *)
theory Adlib_Facts
  imports Adlibs Take_Facts
begin

text \<open>
  What ad-libs do to a playlist: one that is queued is the next part and leaves what is on air alone, and disabling
  the next piece takes the first piece in time that may be disabled.
\<close>

section \<open>A part instance of the model as the next one\<close>

definition but_next where
  \<comment> \<open>what a playlist says of the show, except for what is next\<close>
  "but_next p = show_core (p\<lparr>nextPartInfo := None, nextTimeOffset := None\<rparr>)"

lemma on_air_core:
  assumes wf: "playout_wf m" and f: "finish_set_next m = (jobs, m')"
    and "j \<in> on_air_ids m" "j \<noteq> []"
  shows "doc_at j m' = doc_at j m"
proof -
  from finish_set_next_docs [OF wf f] obtain b where b: "\<forall>j. b j \<longrightarrow> j \<noteq> [] \<longrightarrow> j \<notin> on_air_ids m"
      "\<forall>j. doc_at j m' = map_option (reset_if (b j)) (case doc_at j m of None \<Rightarrow> None
         | Some d \<Rightarrow> if j \<notin> set (selectedPartInstanceIds m) \<and> \<not> isTaken d then None else Some d)"
    by (elim exE conjE)
  have "\<not> b j" using b(1) assms(3,4) by blast
  moreover have "j \<in> set (selectedPartInstanceIds m)" using assms(3,4) by (auto simp: in_selected_ids on_air_ids_iff)
  ultimately show ?thesis by (simp add: b(2) split: option.split)
qed

lemma set_instance_next:
  assumes env: "keeps_selection env" and wf: "playout_wf m" and d: "doc_at i m = Some d" and i: "i \<noteq> []"
    and r: "setNextPart env (Some (ChoiceInstance i)) manual offset m = Inr (jobs, m')"
  shows "map_option sel_partInstanceId (nextPartInfo (playlist m')) = Some i"
    and "but_next (playlist m') = but_next (playlist m)"
    and "map_option doc_core (doc_at i m') = Some (doc_core d)"
    and "currentPartInfo (playlist m) = Some x \<Longrightarrow> sel_partInstanceId x \<noteq> [] \<Longrightarrow>
      map_option doc_core (doc_at (sel_partInstanceId x) m') = map_option doc_core (doc_at (sel_partInstanceId x) m)"
    and "playout_wf m'"
proof -
  let ?c = "ChoiceInstance i"
  from r obtain k c m1 m3 where
      1: "prepare_next env ?c m = Inr (k, c, m1)" and
      3: "setPartInstanceAsNext (Some k) manual c offset (reset_other_instances k m1) = Inr m3" and
      5: "finish_set_next (executeOnSetAsNextCallback env k m3) = (jobs, m')"
    by (auto simp: setNextPart_def and_then_Inr split: if_splits)
  from 1 obtain p where p: "part_instance_at i m = Some p" "prepareExistingPartInstanceForBeingNexted env i m = Inr (k, m1)"
    by (auto simp: prepare_next_def Let_def and_then_Inr split: option.splits if_splits)
  from prepare_existing_docs [OF wf d p(2)] have k: "k = i" and m1: "same_docs m m1" by simp_all
  have wf1: "playout_wf m1" and d1: "doc_at i m1 = Some d" and pl1: "playlist m1 = playlist m"
    using m1 wf d by (simp_all add: same_docs_def)
  note m2 = reset_other_docs [OF wf1 d1]
  have d2: "doc_at i (reset_other_instances i m1) = Some d" using i by (simp add: m2(3) d1)
  note m3 = set_as_next_docs [OF 3 [unfolded k] m2(2) d2]
  let ?m4 = "executeOnSetAsNextCallback env i m3"
  note m4 = callback_docs [OF env m3(2)]
  have fin: "finish_set_next ?m4 = (jobs, m')" using 5 k by simp
  from finish_set_next_docs [OF m4(2) fin] have pl': "playlist m' = playlist ?m4" and wf': "playout_wf m'" by blast+
  show "playout_wf m'" by (rule wf')
  show sel: "map_option sel_partInstanceId (nextPartInfo (playlist m')) = Some i"
    by (simp add: pl' m4(1) m3(1))
  show "but_next (playlist m') = but_next (playlist m)"
    by (simp add: pl' m4(1) m3(1) m2(1) pl1 show_core_def but_next_def)
  have "i \<in> on_air_ids ?m4" using sel by (auto simp: on_air_ids_iff pl')
  from on_air_core [OF m4(2) fin this i] show "map_option doc_core (doc_at i m') = Some (doc_core d)"
    by (simp add: m4(3) m3(3) d2)
  assume x: "currentPartInfo (playlist m) = Some x" "sel_partInstanceId x \<noteq> []"
  let ?j = "sel_partInstanceId x"
  have cur: "currentPartInfo (playlist ?m4) = Some x" by (simp add: m4(1) m3(1) m2(1) pl1 x(1))
  then have "?j \<in> on_air_ids ?m4" by (simp add: on_air_ids_iff)
  from on_air_core [OF m4(2) fin this x(2)] have "doc_at ?j m' = doc_at ?j ?m4" .
  moreover have "?j \<in> set (filter (\<lambda>i. i \<noteq> []) (i # map sel_partInstanceId
      (compact [currentPartInfo (playlist m1), previousPartInfo (playlist m1)])))" using x by (simp add: pl1)
  then have "doc_at ?j (reset_other_instances i m1) = doc_at ?j m1" by (simp add: m2(3) option.map_ident)
  ultimately show "map_option doc_core (doc_at ?j m') = map_option doc_core (doc_at ?j m)"
    using m1 by (simp add: m4(3) m3(3) same_docs_def)
qed

section \<open>Queued ad-libs\<close>

lemma create_adlibbed_docs:
  assumes "createAdlibbedPartInstance now randomId infiniteIds part pieces from ps m = Inr (i, m')"
    and cur: "currentPartInstance m = Some c"
  shows "i = randomId" and "playlist m' = playlist m" and "playout_wf m \<Longrightarrow> playout_wf m'"
    and "j \<noteq> i \<Longrightarrow> doc_at j m' = doc_at j m"
    and "\<exists>d. doc_at i m' = Some d \<and> doc_core d = (randomId, part_id part, inst_rundownId (partInstanceImpl c),
      inst_segmentId (partInstanceImpl c), False, False, Some AdlibPart)"
proof -
  let ?insert = "\<lambda>(k, piece). snd \<circ> insertAdlibbedPiece now (infiniteIds k) piece from"
  have ins: "partInstanceImpl (fold ?insert kps p) = partInstanceImpl p" for kps p
    by (induction kps arbitrary: p) (auto simp: insertAdlibbedPiece_def)
  from assms obtain d ps' where a: "add_part_instance (fold ?insert (enumerate 0 pieces) (new_part_instance_model d ps' True)) m = (i, m')"
      and d: "doc_core d = (randomId, part_id part, inst_rundownId (partInstanceImpl c),
        inst_segmentId (partInstanceImpl c), False, False, Some AdlibPart)" "inst_id d = randomId"
    by (auto simp: createAdlibbedPartInstance_def Let_def doc_core_def)
  let ?p = "recalculateExpectedDurationWithTransition (fold ?insert (enumerate 0 pieces) (new_part_instance_model d ps' True))"
  have doc: "partInstanceImpl (fold ?insert (enumerate 0 pieces) (new_part_instance_model d ps' True)) = d"
    by (simp add: ins) (simp add: new_part_instance_model_def)
  have m': "i = inst_id d" "m' = put_part_instance i (Some ?p) m"
    using a by (auto simp: add_part_instance_def Let_def doc)
  show i: "i = randomId" using m'(1) d(2) by simp
  show "playlist m' = playlist m" by (simp add: m'(2) put_part_instance_def)
  show "playout_wf m'" if "playout_wf m"
    using that unfolding playout_wf_def m'(2) doc_at_put by (auto simp: map_wf_put_part_instance doc m'(1))
  show "doc_at j m' = doc_at j m" if "j \<noteq> i" using that by (simp add: m'(2))
  have "doc_core (partInstanceImpl ?p) = doc_core d"
    by (simp add: recalculateExpectedDurationWithTransition_def inst_compareAndSetPartValue_def setPartValue_def doc_core_def doc)
  with d(1) show "\<exists>d. doc_at i m' = Some d \<and> doc_core d = (randomId, part_id part, inst_rundownId (partInstanceImpl c),
      inst_segmentId (partInstanceImpl c), False, False, Some AdlibPart)" by (simp add: m'(2))
qed

lemma setRank_core [simp]: "doc_core (partInstanceImpl (inst_setRank r p)) = doc_core (partInstanceImpl p)"
  by (simp add: inst_setRank_def inst_compareAndSetPartValue_def setPartValue_def doc_core_def)

lemma ranks_after_adlib_same: "same_show m (updatePartInstanceRanksAfterAdlib i m)"
proof -
  have "same_show m (fold (\<lambda>(i, r). on_part_instance i (inst_setRank r)) rs m)" for rs
  proof (induction rs arbitrary: m)
    case (Cons x rs)
    obtain i r where x: "x = (i, r)" by (cases x)
    have "same_show m (on_part_instance i (inst_setRank r) m)" by (rule same_show_on) simp
    from same_show_trans [OF this Cons.IH] show ?case by (simp add: x)
  qed simp
  then show ?thesis by (simp add: updatePartInstanceRanksAfterAdlib_def Let_def split: option.split)
qed

lemma rank_of_adlib_same: "updateRankForAdlibbedPartInstance i m = Inr m' \<Longrightarrow> same_show m m'"
  using same_show_trans [OF same_show_on ranks_after_adlib_same, of "inst_setRank _"]
  by (auto simp: updateRankForAdlibbedPartInstance_def Let_def split: option.splits)

lemma of_playout_Inr [simp]: "of_playout r = Inr x \<longleftrightarrow> r = Inr x"
  by (cases r) (simp_all add: of_playout_def)

lemma insert_queued_docs:
  assumes env: "keeps_selection env" and wf: "playout_wf m" and cur: "currentPartInstance m = Some c"
    and x: "currentPartInfo (playlist m) = Some x" "sel_partInstanceId x \<noteq> []"
    and new: "new_instance_id ids \<noteq> []" "doc_at (new_instance_id ids) m = None"
    and r: "insertQueuedPartWithPieces env ids rundown p part pieces from m = Inr (i, jobs, m')"
  shows "i = new_instance_id ids" and "map_option sel_partInstanceId (nextPartInfo (playlist m')) = Some i"
    and "but_next (playlist m') = but_next (playlist m)"
    and "map_option doc_core (doc_at i m') = Some (i, part_id part, inst_rundownId (partInstanceImpl c),
      inst_segmentId (partInstanceImpl c), False, False, Some AdlibPart)"
    and "map_option doc_core (doc_at (sel_partInstanceId x) m') = map_option doc_core (doc_at (sel_partInstanceId x) m)"
    and "playout_wf m'"
proof -
  let ?j = "sel_partInstanceId x"
  from r obtain ps m1 m2 where
      1: "createAdlibbedPartInstance (env_now env) (new_instance_id ids) (new_infinite_id ids) part pieces from ps m = Inr (i, m1)" and
      2: "updateRankForAdlibbedPartInstance i m1 = Inr m2" and
      3: "setNextPart env (Some (ChoiceInstance i)) False None m2 = Inr (jobs, m')"
    by (auto simp: insertQueuedPartWithPieces_def Let_def and_then_Inr)
  note m1 = create_adlibbed_docs [OF 1 cur]
  show i: "i = new_instance_id ids" by (rule m1(1))
  from rank_of_adlib_same [OF 2] have m2: "show_core (playlist m2) = show_core (playlist m1)" "keeps_docs m1 m2"
    by (simp_all add: same_show_def)
  have wf2: "playout_wf m2" using m2(2) m1(3) [OF wf] by (simp add: keeps_docs_def)
  from m1(5) obtain d where d: "doc_at i m1 = Some d" "doc_core d = (i, part_id part, inst_rundownId (partInstanceImpl c),
      inst_segmentId (partInstanceImpl c), False, False, Some AdlibPart)" by (auto simp: i)
  from keeps_docs_doc [OF m2(2) d(1)] obtain e where e: "doc_at i m2 = Some e" "doc_core e = doc_core d" by blast
  have ne: "i \<noteq> []" using new(1) i by simp
  note s = set_instance_next [OF env wf2 e(1) ne 3]
  show "map_option sel_partInstanceId (nextPartInfo (playlist m')) = Some i" by (rule s(1))
  show "map_option doc_core (doc_at i m') = Some (i, part_id part, inst_rundownId (partInstanceImpl c),
      inst_segmentId (partInstanceImpl c), False, False, Some AdlibPart)" using s(3) e(2) d(2) by simp
  have pl: "show_core (playlist m2) = show_core (playlist m)" using m2(1) m1(2) by simp
  then show "but_next (playlist m') = but_next (playlist m)"
    using s(2) by (simp add: show_core_def but_next_def)
  have "currentPartInfo (playlist m2) = Some x" using pl x(1) by (simp add: show_core_def)
  from s(4) [OF this x(2)] have "map_option doc_core (doc_at ?j m') = map_option doc_core (doc_at ?j m2)" .
  also have "\<dots> = map_option doc_core (doc_at ?j m1)" using m2(2) by (simp add: keeps_docs_def)
  also have "\<dots> = map_option doc_core (doc_at ?j m)"
  proof -
    from selected_doc [OF cur [unfolded currentPartInstance_def]] x have "doc_at ?j m = Some (partInstanceImpl c)" by auto
    then have "?j \<noteq> i" using new(2) i by auto
    then show ?thesis using m1(4) [of ?j] by simp
  qed
  finally show "map_option doc_core (doc_at ?j m') = map_option doc_core (doc_at ?j m)" .
  show "playout_wf m'" by (rule s(5))
qed

text \<open>
  C13. An ad-lib that is queued becomes the next part: a new part instance in the segment on air, marked as an ad-lib,
  is next. What is on air, the hold and the queued segment stay as they are.
\<close>

theorem queued_adlib_is_next:
  assumes env: "take_env_ok env" and wf: "playout_wf m" and cur: "currentPartInstance m = Some c"
    and new: "new_instance_id ids \<noteq> []" "doc_at (new_instance_id ids) m = None"
    and queued: "queue \<or> toBeQueued adlib"
    and r: "innerStartOrQueueAdLibPiece env ids rundown queue i adlib m = Inr (k, jobs, m')"
  shows "k = Some (new_instance_id ids) \<and> map_option sel_partInstanceId (nextPartInfo (playlist m')) = k
    \<and> map_option doc_core (doc_at (new_instance_id ids) m') = Some (new_instance_id ids, new_part_id ids,
        inst_rundownId (partInstanceImpl c), inst_segmentId (partInstanceImpl c), False, False, Some AdlibPart)
    \<and> but_next (playlist m') = but_next (playlist m)
    \<and> map_option doc_core (doc_at (inst_id (partInstanceImpl c)) m') = Some (doc_core (partInstanceImpl c))"
proof -
  obtain x :: SelectedPartInstance where x: "currentPartInfo (playlist m) = Some x" "sel_partInstanceId x \<noteq> []"
      "doc_at (sel_partInstanceId x) m = Some (partInstanceImpl c)"
    using selected_doc [OF cur [unfolded currentPartInstance_def]] by blast
  have id: "inst_id (partInstanceImpl c) = sel_partInstanceId x" by (rule playout_wfD [OF wf x(3)])
  have keeps: "keeps_selection (base_env env)" and tl: "same_show a (env_updateTimeline env a)" for a
    using env by (simp_all add: take_env_ok_def)
  from r queued obtain p j m1 where p: "insertQueuedPartWithPieces (base_env env) ids rundown p
      (queued_part (new_part_id ids) (adlib_expectedDuration adlib))
      [convertAdLibToGenericPiece (new_piece_id ids) adlib True] (Some (piece_id adlib)) m = Inr (j, jobs, m1)"
      and m': "k = Some j" "m' = env_updateTimeline env m1"
    by (auto simp: innerStartOrQueueAdLibPiece_def and_then_Inr split: option.splits if_splits)
  note q = insert_queued_docs [OF keeps wf cur x(1,2) new p]
  from tl [of m1] have s: "show_core (playlist m') = show_core (playlist m1)" "keeps_docs m1 m'"
    by (simp_all add: same_show_def m')
  have "nextPartInfo (playlist m') = nextPartInfo (playlist m1)" "but_next (playlist m') = but_next (playlist m1)"
    using s(1) by (simp_all add: show_core_def but_next_def)
  moreover have "map_option doc_core (doc_at l m') = map_option doc_core (doc_at l m1)" for l
    using s(2) by (simp add: keeps_docs_def)
  ultimately show ?thesis using q x(3) by (simp add: m' id queued_part_def)
qed

definition ex_adlib_ids :: adlib_ids where
  "ex_adlib_ids = \<lparr>new_part_id = ''new_part'', new_instance_id = ''new'', new_piece_id = ''new_piece'', new_infinite_id = \<lambda>_. ''inf''\<rparr>"

theorem queued_adlib_is_next_witness:
  "\<exists>jobs m'. innerStartOrQueueAdLibPiece (ex_take_env 1000) ex_adlib_ids ex_rundown True ''i1'' (adlib_of_piece sample_piece) ex_show
      = Inr (Some ''new'', jobs, m')
    \<and> map_option sel_partInstanceId (nextPartInfo (playlist m')) = Some ''new''
    \<and> map_option (\<lambda>d. part_id (inst_part d)) (doc_at ''new'' m') = Some ''new_part''"
proof -
  let ?r = "innerStartOrQueueAdLibPiece (ex_take_env 1000) ex_adlib_ids ex_rundown True ''i1'' (adlib_of_piece sample_piece) ex_show"
  have "\<not> isl ?r" by code_simp
  then obtain k jobs m' where r: "?r = Inr (k, jobs, m')" by (metis sum.collapse(2) prod_cases3)
  obtain c where c: "currentPartInstance ex_show = Some c"
  proof -
    have "map_option (\<lambda>c. inst_id (partInstanceImpl c)) (currentPartInstance ex_show) = Some ''i1''" by code_simp
    with that show ?thesis by (auto simp: map_option_eq_Some)
  qed
  have new: "doc_at (new_instance_id ex_adlib_ids) ex_show = None"
  proof -
    have "map_option inst_id (doc_at (new_instance_id ex_adlib_ids) ex_show) = None" by code_simp
    then show ?thesis by simp
  qed
  have ids: "new_instance_id ex_adlib_ids = ''new''" "new_part_id ex_adlib_ids = ''new_part''" by (simp_all add: ex_adlib_ids_def)
  have ne: "new_instance_id ex_adlib_ids \<noteq> []" by (simp add: ids)
  from queued_adlib_is_next [OF ex_take_env_ok ex_show_wf c ne new _ r] r show ?thesis
    by (auto simp: ids doc_core_def)
qed

section \<open>The piece that is disabled\<close>

lemma comparePieceStart_refl [simp]: "comparePieceStart a a t = 0"
  by (simp add: comparePieceStart_def Let_def)

interpretation by_start: comparator_on UNIV "\<lambda>a b. 0 < comparePieceStart (f a) (f b) t" for f t
proof
  fix a b :: 'a assume "0 < comparePieceStart (f a) (f b) t"
  then show "\<not> 0 < comparePieceStart (f b) (f a) t"
    by (auto simp: comparePieceStart_def Let_def split: if_splits)
next
  fix a b c :: 'a assume "\<not> 0 < comparePieceStart (f a) (f b) t" "\<not> 0 < comparePieceStart (f b) (f c) t"
  then show "\<not> 0 < comparePieceStart (f a) (f c) t"
    by (auto simp: comparePieceStart_def Let_def not_less split: if_splits)
qed

definition may_toggle :: "(string \<Rightarrow> ISourceLayer option) \<Rightarrow> bool \<Rightarrow> time \<Rightarrow> PieceInstance \<Rightarrow> bool" where
  \<comment> \<open>a normal piece on a layer that allows it: disabled already for an undo, enabled otherwise, and not begun\<close>
  "may_toggle layers undo nowInPart q =
     ((case layers (sourceLayerId (pi_piece q)) of None \<Rightarrow> False | Some l \<Rightarrow> allowDisable l)
      \<and> \<not> virtual (pi_piece q) \<and> pieceType (pi_piece q) = PieceNormal \<and> disabled q = undo
      \<and> (case en_start (enable (pi_piece q)) of Now \<Rightarrow> False | At t \<Rightarrow> nowInPart \<le> t))"

definition starts_no_later :: "PieceInstance \<Rightarrow> PieceInstance \<Rightarrow> bool" where
  \<comment> \<open>by the time in the part, then by id\<close>
  "starts_no_later q r = (case (en_start (enable (pi_piece q)), en_start (enable (pi_piece r))) of
     (At s, At t) \<Rightarrow> s < t \<or> s = t \<and> piece_id (pi_piece q) \<le> piece_id (pi_piece r) | _ \<Rightarrow> False)"

lemma starts_no_later_iff:
  "may_toggle layers undo t q \<Longrightarrow> may_toggle layers undo t r \<Longrightarrow>
     starts_no_later q r \<longleftrightarrow> \<not> 0 < comparePieceStart (pi_piece q) (pi_piece r) t"
  by (auto simp: may_toggle_def starts_no_later_def comparePieceStart_def piece_start_def Let_def not_less not_le
      split: start_time.splits)

definition now_in_part :: "time \<Rightarrow> bool \<Rightarrow> PlayoutPartInstanceModel \<Rightarrow> time" where
  "now_in_part now ignore p =
     (let started = planned_start (partInstanceImpl p)
      in if \<not> ignore \<and> truthy_num started then now - the started else 0)"

definition first_to_toggle ::
  "(string \<Rightarrow> ISourceLayer option) \<Rightarrow> bool \<Rightarrow> time \<Rightarrow> PlayoutPartInstanceModel \<Rightarrow> PieceInstance \<Rightarrow> bool" where
  "first_to_toggle layers undo nowInPart p q =
     (q \<in> set (live_pieces p) \<and> may_toggle layers undo nowInPart q
      \<and> (\<forall>r\<in>set (live_pieces p). may_toggle layers undo nowInPart r \<longrightarrow>
           (if undo then starts_no_later r q else starts_no_later q r)))"

lemma find_first_sorted:
  assumes "sorted_wrt R xs" and "find P xs = Some x" and "\<And>y. R y y"
  shows "x \<in> set xs" "P x" "y \<in> set xs \<Longrightarrow> P y \<Longrightarrow> R x y"
proof -
  from assms(2) obtain i where i: "i < length xs" "P (xs ! i)" "x = xs ! i" "\<forall>j<i. \<not> P (xs ! j)"
    by (auto simp: find_Some_iff)
  then show "x \<in> set xs" "P x" by auto
  assume "y \<in> set xs" "P y"
  then obtain k where k: "k < length xs" "y = xs ! k" by (auto simp: in_set_conv_nth)
  with i(4) \<open>P y\<close> have "i \<le> k" by (metis not_less)
  with sorted_wrt_nth_less [OF assms(1), of i k] k i(3) assms(3) show "R x y" by (cases "i = k") auto
qed

lemma getNextPiece_Some:
  assumes "getNextPiece layers undo now p ignore = Some q"
  shows "first_to_toggle layers undo (now_in_part now ignore p) p q"
proof -
  let ?t = "now_in_part now ignore p"
  define xs where "xs = js_sort (\<lambda>a b. 0 < comparePieceStart (pi_piece a) (pi_piece b) ?t)
    (js_sort (\<lambda>a b. layer_order layers b < layer_order layers a) (filter (may_disable layers) (live_pieces p)))"
  define P where "P = (\<lambda>q :: PieceInstance. (case en_start (enable (pi_piece q)) of Now \<Rightarrow> False | At t \<Rightarrow> ?t \<le> t) \<and> disabled q = undo)"
  have f: "find P (if undo then rev xs else xs) = Some q"
    using assms unfolding getNextPiece_def xs_def P_def now_in_part_def Let_def .
  have set: "set xs = set (filter (may_disable layers) (live_pieces p))" by (simp add: xs_def)
  have sorted: "sorted_wrt (\<lambda>a b. \<not> 0 < comparePieceStart (pi_piece a) (pi_piece b) ?t) xs"
    unfolding xs_def by (rule by_start.sorted_js_sort) simp
  have P: "may_toggle layers undo ?t r \<longleftrightarrow> r \<in> set xs \<and> P r" if "r \<in> set (live_pieces p)" for r
    using that by (auto simp: set may_toggle_def may_disable_def P_def split: option.splits)
  show ?thesis
  proof (cases undo)
    case True
    have "sorted_wrt (\<lambda>a b. \<not> 0 < comparePieceStart (pi_piece b) (pi_piece a) ?t) (rev xs)"
      using sorted by (simp add: sorted_wrt_rev)
    note q = find_first_sorted [OF this f [unfolded if_P [OF True]]]
    show ?thesis unfolding first_to_toggle_def if_P [OF True]
    proof (intro conjI ballI impI)
      show "q \<in> set (live_pieces p)" using q(1) by (simp add: set)
      then show may: "may_toggle layers undo ?t q" using q(1,2) P by simp
      fix r assume r: "r \<in> set (live_pieces p)" "may_toggle layers undo ?t r"
      with P q(3) [of r] show "starts_no_later r q" unfolding starts_no_later_iff [OF r(2) may] by simp
    qed
  next
    case False
    note q = find_first_sorted [OF sorted f [unfolded if_not_P [OF False]]]
    show ?thesis unfolding first_to_toggle_def if_not_P [OF False]
    proof (intro conjI ballI impI)
      show "q \<in> set (live_pieces p)" using q(1) by (simp add: set)
      then show may: "may_toggle layers undo ?t q" using q(1,2) P by simp
      fix r assume r: "r \<in> set (live_pieces p)" "may_toggle layers undo ?t r"
      with P q(3) [of r] show "starts_no_later q r" unfolding starts_no_later_iff [OF may r(2)] by simp
    qed
  qed
qed

lemma getNextPiece_None:
  "getNextPiece layers undo now p ignore = None \<longleftrightarrow>
     (\<forall>q\<in>set (live_pieces p). \<not> may_toggle layers undo (now_in_part now ignore p) q)"
  by (auto simp: getNextPiece_def Let_def find_None_iff may_toggle_def may_disable_def now_in_part_def split: option.splits)

text \<open>
  C22. Disabling the next piece disables the first piece, by its time in the part and then by its id, of the normal
  pieces of the part on air whose layer allows it, that are not virtual, not disabled and have not begun, and takes
  one of the next part only when there is none. An undo goes the other way, from the last disabled piece of the next
  part. The job fails only when there is no such piece.
\<close>

theorem disable_next_piece_toggles_first:
  assumes active: "truthy_str (activationId (playlist m))" and cur: "currentPartInstance m = Some c"
    and rundown: "getRundown (inst_rundownId (partInstanceImpl c)) m = Some rundown"
  shows "let candidates = (\<lambda>p ignore. {q. first_to_toggle (source_layer env rundown) undo (now_in_part (take_now env) ignore p) p q});
      here = candidates c False; there = (case nextPartInstance m of None \<Rightarrow> {} | Some n \<Rightarrow> candidates n True) in
    case handleDisableNextPiece env undo m of
      Inl e \<Rightarrow> e = UserDisableNoPieceFound \<and> here = {} \<and> there = {}
    | Inr m' \<Rightarrow> (\<exists>p q. m' = env_updateTimeline env (on_part_instance (inst_id (partInstanceImpl p))
          (inst_on_piece (pi_id q) (setDisabled (\<not> undo))) m)
        \<and> (p = c \<and> q \<in> here \<and> (undo \<longrightarrow> there = {})
           \<or> nextPartInstance m = Some p \<and> q \<in> there \<and> (\<not> undo \<longrightarrow> here = {})))"
proof -
  let ?next = "getNextPiece (source_layer env rundown) undo (take_now env)"
  let ?cs = "\<lambda>p ignore. {q. first_to_toggle (source_layer env rundown) undo (now_in_part (take_now env) ignore p) p q}"
  have none: "?next p ignore = None \<Longrightarrow> ?cs p ignore = {}" for p ignore
    unfolding getNextPiece_None first_to_toggle_def by blast
  have some: "?next p ignore = Some q \<Longrightarrow> q \<in> ?cs p ignore" for p q ignore
    by (simp add: getNextPiece_Some)
  obtain info where info: "currentPartInfo (playlist m) = Some info"
    using cur by (cases "currentPartInfo (playlist m)") (auto simp: currentPartInstance_def selected_instance_def)
  let ?ps = "[(Some c, False), (nextPartInstance m, True)]"
  have h: "handleDisableNextPiece env undo m = (case first_candidate ?next (if undo then rev ?ps else ?ps) of
        None \<Rightarrow> Inl UserDisableNoPieceFound
      | Some (i, k) \<Rightarrow> Inr (env_updateTimeline env (on_part_instance i (inst_on_piece k (setDisabled (\<not> undo))) m)))"
    using active info cur rundown by (simp add: handleDisableNextPiece_def Let_def)
  show ?thesis
  proof (cases "nextPartInstance m")
    case None
    then show ?thesis using none [of c False] some [of c False]
      unfolding h Let_def by (cases "?next c False") auto
  next
    case (Some n)
    then show ?thesis using none [of c False] some [of c False] none [of n True] some [of n True]
      unfolding h Let_def by (cases "?next c False"; cases "?next n True"; cases undo) auto
  qed
qed

definition ex_disable_env :: take_env where
  "ex_disable_env = (ex_take_env 1000)\<lparr>base_env := ex_env\<lparr>env_sourceLayers := \<lambda>_. [Some
     \<lparr>layer_id = ''cam'', exclusiveGroup = None, layer_rank = 0, isSticky = False, stickyOriginalOnly = False,
      allowDisable = True\<rparr>]\<rparr>\<rparr>"

theorem disable_next_piece_toggles_first_witness:
  "\<exists>m' (q :: PieceInstance). handleDisableNextPiece ex_disable_env False ex_show = Inr m'
    \<and> m' = on_part_instance ''i1'' (inst_on_piece (pi_id q) (setDisabled True)) ex_show \<and> \<not> disabled q"
proof -
  have "\<not> isl (handleDisableNextPiece ex_disable_env False ex_show)" by code_simp
  then obtain m' where r: "handleDisableNextPiece ex_disable_env False ex_show = Inr m'" by (metis sum.collapse(2))
  obtain c where c: "currentPartInstance ex_show = Some c" "inst_id (partInstanceImpl c) = ''i1''"
      "inst_rundownId (partInstanceImpl c) = ''rd''"
  proof -
    have "map_option (\<lambda>c. (inst_id (partInstanceImpl c), inst_rundownId (partInstanceImpl c))) (currentPartInstance ex_show)
        = Some (''i1'', ''rd'')" by code_simp
    with that show ?thesis by (auto simp: map_option_eq_Some)
  qed
  obtain rundown where rd: "getRundown (inst_rundownId (partInstanceImpl c)) ex_show = Some rundown"
    by (auto simp: c(3) getRundown_def ex_show_def new_playout_model_def ex_rundown_def new_playout_rundown_def)
  have active: "truthy_str (activationId (playlist ex_show))" by code_simp
  have none: "nextPartInstance ex_show = None"
    by (simp add: nextPartInstance_def selected_instance_def ex_show_def new_playout_model_def ex_playlist_def truthy_str_def)
  from disable_next_piece_toggles_first [OF active c(1) rd, of ex_disable_env False] r none
  obtain q where "m' = env_updateTimeline ex_disable_env (on_part_instance (inst_id (partInstanceImpl c))
        (inst_on_piece (pi_id q) (setDisabled True)) ex_show)"
      "first_to_toggle (source_layer ex_disable_env rundown) False (now_in_part (take_now ex_disable_env) False c) c q"
    unfolding Let_def by (simp only: sum.case option.simps simp_thms mem_Collect_eq) blast
  then have q: "m' = env_updateTimeline ex_disable_env (on_part_instance ''i1'' (inst_on_piece (pi_id q) (setDisabled True)) ex_show)"
      "\<not> disabled q" by (simp_all add: c(2) first_to_toggle_def may_toggle_def)
  have "env_updateTimeline ex_disable_env x = x" for x by (simp add: ex_disable_env_def ex_take_env_def)
  then show ?thesis using r q by auto
qed

end
