(* ===== verification/Adlib_Action_Facts.thy ===== *)
theory Adlib_Action_Facts
  imports Adlib_Actions Adlib_Facts
begin

text \<open>
  What an action of a blueprint cannot do: unless it takes, it leaves the selection on air and hold alone, and it queues
  one part at most.
\<close>

section \<open>Steps that leave alone what is on air\<close>

definition keeps_air :: "PlayoutModel \<Rightarrow> PlayoutModel \<Rightarrow> bool" where
  "keeps_air m m' = (playout_wf m \<longrightarrow> playout_wf m' \<and> but_next (playlist m') = but_next (playlist m))"

lemma keeps_air_refl [simp]: "keeps_air m m"
  by (simp add: keeps_air_def)

lemma keeps_air_trans: "keeps_air a b \<Longrightarrow> keeps_air b c \<Longrightarrow> keeps_air a c"
  by (simp add: keeps_air_def)

lemma same_show_keeps_air: "same_show m m' \<Longrightarrow> keeps_air m m'"
  by (auto simp: same_show_def keeps_docs_def keeps_air_def show_core_def but_next_def)

lemma keeps_air_on:
  assumes "\<And>p. inst_id (partInstanceImpl (f p)) = inst_id (partInstanceImpl p)"
  shows "keeps_air m (on_part_instance i f m)"
  by (simp add: keeps_air_def wf_on_part_instance [OF _ assms])

lemma same_core_id: "doc_core d = doc_core e \<Longrightarrow> inst_id d = inst_id e"
  by (simp add: doc_core_def)

lemma set_next_keeps_air:
  assumes "keeps_selection env" and "choice \<noteq> ChoiceInstance []"
    and "setNextPart env (Some choice) manual offset m = Inr (jobs, m')"
  shows "keeps_air m m'"
  unfolding keeps_air_def
proof
  assume "playout_wf m"
  from set_next_outcome [OF assms(1) this assms(2,3)]
  show "playout_wf m' \<and> but_next (playlist m') = but_next (playlist m)"
    by (auto simp: but_next_def show_core_def)
qed

lemma queued_keeps_air:
  assumes env: "keeps_selection env" and cur: "currentPartInstance m = Some c" and new: "new_instance_id ids \<noteq> []"
    and r: "insertQueuedPartWithPieces env ids rundown p part pieces from m = Inr (i, jobs, m')"
  shows "keeps_air m m'"
proof -
  from r obtain ps m1 m2 where
      1: "createAdlibbedPartInstance (env_now env) (new_instance_id ids) (new_infinite_id ids) part pieces from ps m = Inr (i, m1)" and
      2: "updateRankForAdlibbedPartInstance i m1 = Inr m2" and
      3: "setNextPart env (Some (ChoiceInstance i)) False None m2 = Inr (jobs, m')"
    by (auto simp: insertQueuedPartWithPieces_def Let_def and_then_Inr)
  note m1 = create_adlibbed_docs [OF 1 cur]
  have a: "keeps_air m m1" by (simp add: keeps_air_def m1(2,3))
  have b: "keeps_air m1 m2" by (rule same_show_keeps_air) (rule rank_of_adlib_same [OF 2])
  have "ChoiceInstance i \<noteq> ChoiceInstance []" using new m1(1) by simp
  from keeps_air_trans [OF keeps_air_trans [OF a b] set_next_keeps_air [OF env this 3]] show ?thesis .
qed

lemma sync_next_keeps_air:
  assumes "sync_next env from m = Inr m'"
  shows "keeps_air m m'"
proof (cases "nextPartInstance m")
  case (Some n)
  then obtain i where "part_instance_at i m = Some n"
    by (auto simp: nextPartInstance_def selected_instance_def split: if_splits)
  with sync_infinites_docs [of m i n "base_env env" "from" m'] assms Some show ?thesis
    by (auto simp: sync_next_def keeps_air_def same_docs_def)
next
  case None
  with assms have "m' = m"
    by (auto simp: sync_next_def syncPlayheadInfinitesForNextPartInstance_def split: option.splits)
  then show ?thesis by simp
qed

section \<open>The calls\<close>

lemma of_adlib_Inr [simp]: "of_adlib r = Inr x \<longleftrightarrow> r = Inr x"
  by (cases r) (simp_all add: of_adlib_def)

lemma post_processed_Inr [simp]: "post_processed r = Inr x \<longleftrightarrow> r = Inr x"
  by (cases r) (simp_all add: post_processed_def)

lemma no_jobs_Inr [simp]: "no_jobs r = Inr (jobs, st) \<longleftrightarrow> jobs = [] \<and> r = Inr st"
  by (cases r) (auto simp: no_jobs_def)

lemma mark_changed_model [simp]: "action_model (mark_changed part st) = action_model st"
  by (simp add: mark_changed_def split: which_part.split)

lemma keeps_air_mark [simp]: "keeps_air m (action_model (mark_changed part st)) \<longleftrightarrow> keeps_air m (action_model st)"
  by simp

lemma insertPiece_keeps_air: "insertPiece env ids part p st = Inr st' \<Longrightarrow> keeps_air (action_model st) (action_model st')"
  by (auto simp: insertPiece_def Let_def and_then_Inr insertAdlibbedPiece_def split: option.splits if_splits
      intro!: keeps_air_on)

lemma updatePieceInstance_keeps_air:
  "updatePieceInstance i spread st = Inr st' \<Longrightarrow> keeps_air (action_model st) (action_model st')"
  by (auto simp: updatePieceInstance_def Let_def split: option.splits if_splits intro!: keeps_air_on)

lemma updatePartInstance_keeps_air:
  assumes "updatePartInstance part props st = Inr st'"
  shows "keeps_air (action_model st) (action_model st')"
proof -
  let ?m = "action_model st"
  from assms obtain p spread where p: "getPartInstance part ?m = Some p"
      and st': "action_model st' = put_part_instance (inst_id (partInstanceImpl (snd (updatePartProps (Some spread) p))))
        (Some (snd (updatePartProps (Some spread) p))) ?m"
    by (auto simp: updatePartInstance_def updatePartProps_def Let_def split: option.splits prod.splits if_splits)
  have "inst_id (partInstanceImpl (snd (updatePartProps (Some spread) p))) = inst_id (partInstanceImpl p)"
    by (simp add: updatePartProps_def compareAndSetPartInstanceValue_def setPartInstanceValue_def)
  then show ?thesis
    by (auto simp: keeps_air_def st' playout_wf_def doc_at_put map_wf_put_part_instance)
qed

lemma queuePart_keeps_air:
  assumes "keeps_selection (base_env (job_env env))" and "new_instance_id ids \<noteq> []"
    and "queuePart env ids part ps st = Inr (jobs, st')"
  shows "keeps_air (action_model st) (action_model st')"
  using assms(3) queued_keeps_air [OF assms(1) _ assms(2)]
  by (auto simp: queuePart_def Let_def and_then_Inr split: option.splits if_splits)

lemma moveNextPart_keeps_air:
  assumes "keeps_selection (base_env (job_env env))" and "action_moveNextPart env p s st = Inr (jobs, st')"
  shows "keeps_air (action_model st) (action_model st')"
proof -
  from assms(2) consider "st' = st" | part m where
      "setNextPartFromPart (base_env (job_env env)) part True None (action_model st) = Inr (jobs, m)" "action_model st' = m"
    by (auto simp: action_moveNextPart_def Let_def and_then_Inr split: option.splits)
  then show ?thesis
  proof cases
    case 2
    then obtain q where "setNextPart (base_env (job_env env)) (Some (ChoicePart part q)) True None (action_model st) = Inr (jobs, m)"
      by (auto simp: setNextPartFromPart_def split: if_splits)
    from set_next_keeps_air [OF assms(1) _ this] 2(2) show ?thesis by simp
  qed simp
qed

lemma stopPieces_keeps_air:
  "stopPiecesByRule env rule t st = Inr st' \<Longrightarrow> keeps_air (action_model st) (action_model st')"
  using same_show_keeps_air [OF innerStopPieces_same]
  by (auto simp: stopPiecesByRule_def Let_def and_then_Inr split: option.splits if_splits)

lemma removed_pieces_doc: "partInstanceImpl (fold (\<lambda>i. snd \<circ> removePieceInstance i) is p) = partInstanceImpl p"
  by (induction "is" arbitrary: p) (simp_all add: removePieceInstance_def split: option.split)

lemma removePieces_keeps_air: "removePieceInstances is st = Inr st' \<Longrightarrow> keeps_air (action_model st) (action_model st')"
  by (auto simp: removePieceInstances_def removed_pieces_doc split: option.splits intro!: keeps_air_on)

lemma blockTake_keeps_air: "action_blockTakeUntil env t st = Inr st' \<Longrightarrow> keeps_air (action_model st) (action_model st')"
  by (auto simp: action_blockTakeUntil_def inst_blockTakeUntil_def compareAndSetPartInstanceValue_def
      setPartInstanceValue_def split: option.splits if_splits intro!: keeps_air_on)

lemmas calls_keep_air = insertPiece_keeps_air updatePieceInstance_keeps_air updatePartInstance_keeps_air
  stopPieces_keeps_air removePieces_keeps_air blockTake_keeps_air

lemma stop_ops_keep_air:
  "stopPiecesOnLayers env layers t st = Inr st' \<Longrightarrow> keeps_air (action_model st) (action_model st')"
  "stopPieceInstances env is t st = Inr st' \<Longrightarrow> keeps_air (action_model st) (action_model st')"
  by (auto simp: stopPiecesOnLayers_def stopPieceInstances_def split: if_splits dest: stopPieces_keeps_air)

lemma perform_call_keeps_air:
  assumes "keeps_selection (base_env (job_env env))" and "new_instance_id ids \<noteq> []"
    and "perform_call env ids c st = Inr (jobs, st')"
  shows "keeps_air (action_model st) (action_model st')"
  using assms(3)
proof (cases c)
  case (QueuePart part ps)
  with assms(3) queuePart_keeps_air [OF assms(1,2)] show ?thesis by simp
next
  case (MoveNextPart p s)
  with assms(3) moveNextPart_keeps_air [OF assms(1)] show ?thesis by simp
qed (auto simp: takeAfterExecuteAction_def dest: calls_keep_air stop_ops_keep_air)

lemma run_calls_keeps_air:
  assumes "keeps_selection (base_env (job_env env))" and "\<And>k. new_instance_id (action_ids env k) \<noteq> []"
    and "run_calls env k calls st = Inr (jobs, st')"
  shows "keeps_air (action_model st) (action_model st')"
  using assms(3)
proof (induction calls arbitrary: k st jobs)
  case (Cons c cs)
  then obtain j1 st1 j2 where "perform_call env (action_ids env k) c st = Inr (j1, st1)"
      "run_calls env (Suc k) cs st1 = Inr (j2, st')" by (auto simp: and_then_Inr)
  with perform_call_keeps_air [OF assms(1,2)] Cons.IH show ?case by (blast intro: keeps_air_trans)
qed simp

section \<open>After the calls\<close>

lemma testing_properties_keep_air:
  assumes "validateAdlibTestingPartInstanceProperties p m = Inr m'"
  shows "keeps_air m m'"
proof -
  have "keeps_air m (on_part_instance i validateAdlibTestingSegmentProperties m)" for i
    by (rule keeps_air_on) (simp add: validateAdlibTestingSegmentProperties_def inst_compareAndSetPartValue_def
        setPartValue_def inst_setOrphaned_def compareAndSetPartInstanceValue_def setPartInstanceValue_def)
  with assms show ?thesis
    by (auto simp: validateAdlibTestingPartInstanceProperties_def Let_def split: option.splits if_splits)
qed

lemma side_effects_keep_air:
  assumes "applyActionSideEffects env st = Inr st'"
  shows "keeps_air (action_model st) (action_model st')" and "takeAfterExecute st' = takeAfterExecute st"
    and "queuedPartInstanceId st' = queuedPartInstanceId st"
proof -
  let ?m = "action_model st"
  from assms obtain m1 m2 m3 where
      1: "(if currentPartState st \<noteq> NoChange \<or> nextPartState st \<noteq> NoChange
          then of_adlib (sync_next env (currentPartInstance ?m) ?m) else Inr ?m) = Inr m1" and
      2: "(case nextPartInstance m1 of
            Some n \<Rightarrow> if nextPartState st \<noteq> NoChange
              then validateAdlibTestingPartInstanceProperties n
                (on_part_instance (inst_id (partInstanceImpl n)) recalculateExpectedDurationWithTransition m1)
              else Inr m1
          | None \<Rightarrow> Inr m1) = Inr m2" and
      3: "(case currentPartInstance m2 of
            Some c \<Rightarrow> if currentPartState st \<noteq> NoChange then validateAdlibTestingPartInstanceProperties c m2 else Inr m2
          | None \<Rightarrow> Inr m2) = Inr m3" and
      st': "st' = st\<lparr>action_model := m3\<rparr>"
    unfolding applyActionSideEffects_def Let_def and_then_Inr by blast
  have a: "keeps_air ?m m1" using 1 by (auto split: if_splits dest: sync_next_keeps_air)
  have "keeps_air m1 (on_part_instance i recalculateExpectedDurationWithTransition m1)" for i
    by (rule keeps_air_on) simp
  with 2 have b: "keeps_air m1 m2"
    by (auto split: option.splits if_splits dest!: testing_properties_keep_air intro: keeps_air_trans)
  have c: "keeps_air m2 m3"
    using 3 by (auto split: option.splits if_splits dest: testing_properties_keep_air)
  from keeps_air_trans [OF keeps_air_trans [OF a b] c] show "keeps_air ?m (action_model st')" by (simp add: st')
qed (use assms in \<open>auto simp: applyActionSideEffects_def Let_def and_then_Inr\<close>)

text \<open>
  C21. Whatever a blueprint calls in an action, one that does not take leaves on air what is on air: the current and
  the previous selection, hold, the activation and the queued segment are those before. Only what is next may change.
\<close>

theorem action_without_take_leaves_air:
  assumes env: "take_env_ok (job_env env)" and ids: "\<And>k. new_instance_id (action_ids env k) \<noteq> []"
    and wf: "playout_wf m" and r: "executeActionInner env calls m = Inr (jobs, deferred, st)"
    and no_take: "\<not> takeAfterExecute st"
  shows "but_next (playlist (action_model st)) = but_next (playlist m) \<and> playout_wf (action_model st) \<and> deferred = None"
proof -
  have keeps: "keeps_selection (base_env (job_env env))"
      and tl: "\<And>a. keeps_air a (env_updateTimeline (job_env env) a)"
    using env by (simp_all add: take_env_ok_def same_show_keeps_air)
  from r obtain j1 st1 j2 st2 where
      1: "run_calls env 0 calls (new_action_state m) = Inr (j1, st1)" and
      2: "applyActionSideEffects (job_env env) st1 = Inr st2" and
      3: "(if takeAfterExecute st2
       then and_then (of_adlib (of_playout (performTakeToNextedPart (job_env env) (action_model st2))))
              (\<lambda>(jobs, deferred, m). Inr (jobs, deferred, st2\<lparr>action_model := m\<rparr>))
       else Inr ([], None, if currentPartState st2 \<noteq> NoChange \<or> nextPartState st2 \<noteq> NoChange
              then st2\<lparr>action_model := env_updateTimeline (job_env env) (action_model st2)\<rparr> else st2)) = Inr (j2, deferred, st)"
    by (auto simp: executeActionInner_def applyAnyExecutionSideEffects_def and_then_Inr)
  have a: "keeps_air m (action_model st1)"
    using run_calls_keeps_air [OF keeps ids 1] by (simp add: new_action_state_def)
  have "\<not> takeAfterExecute st2" using 3 no_take by (auto simp: and_then_Inr split: if_splits)
  with 3 have "deferred = None" "keeps_air (action_model st2) (action_model st)"
    using tl by (auto split: if_splits)
  moreover from this(2) have "keeps_air m (action_model st)"
    by (rule keeps_air_trans [OF keeps_air_trans [OF a side_effects_keep_air(1) [OF 2]]])
  ultimately show ?thesis using wf by (simp add: keeps_air_def)
qed

definition ex_action_piece :: IBlueprintPiece where
  "ex_action_piece = PieceInstancePiece.extend sample_piece \<lparr>piece_externalId = ''ext''\<rparr>"

definition ex_action_env :: action_env where
  "ex_action_env = \<lparr>job_env = ex_take_env 1000, action_ids = \<lambda>_. ex_adlib_ids, action_hash = id, action_show_nat = \<lambda>_. ''1'',
     action_blueprintId = ''bp'', action_rundown = ex_rundown\<rparr>"

definition ex_calls :: "blueprint_call list" where
  "ex_calls = [InsertPiece TheCurrentPart ex_action_piece, QueuePart (sample_part ''q'' 1 ''s1'') [ex_action_piece],
     UpdatePartInstance TheNextPart (Some (\<lambda>p. p\<lparr>autoNext := True\<rparr>))]"

lemma ex_action:
  obtains jobs deferred st where "executeActionInner ex_action_env ex_calls ex_show = Inr (jobs, deferred, st)"
    and "\<not> takeAfterExecute st" and "queuedPartInstanceId st = Some ''new''"
proof -
  have "case executeActionInner ex_action_env ex_calls ex_show of
      Inr (jobs, deferred, st) \<Rightarrow> \<not> takeAfterExecute st \<and> queuedPartInstanceId st = Some ''new''
    | Inl _ \<Rightarrow> False" by code_simp
  with that show ?thesis by (auto split: sum.splits prod.splits)
qed

theorem action_without_take_leaves_air_witness:
  "\<exists>jobs st. executeActionInner ex_action_env ex_calls ex_show = Inr (jobs, None, st)
    \<and> but_next (playlist (action_model st)) = but_next (playlist ex_show)"
proof -
  obtain jobs deferred st where r: "executeActionInner ex_action_env ex_calls ex_show = Inr (jobs, deferred, st)"
    "\<not> takeAfterExecute st" by (rule ex_action)
  have "take_env_ok (job_env ex_action_env)" using ex_take_env_ok by (simp add: ex_action_env_def)
  moreover have "new_instance_id (action_ids ex_action_env k) \<noteq> []" for k by (simp add: ex_action_env_def ex_adlib_ids_def)
  ultimately show ?thesis using action_without_take_leaves_air [OF _ _ ex_show_wf r(1,2)] r(1) by auto
qed

section \<open>One part at most is queued\<close>

fun queues :: "blueprint_call \<Rightarrow> bool" where
  "queues (QueuePart part ps) = True"
| "queues _ = False"

text \<open>
  What counts as a change of the next part: queueing one, and inserting, updating or removing what belongs to it. A
  piece belongs to the next part when its part instance is the one selected as next in the model at that time.
\<close>

fun changes_next :: "PlayoutModel \<Rightarrow> blueprint_call \<Rightarrow> bool" where
  "changes_next m (QueuePart part ps) = True"
| "changes_next m (InsertPiece part p) = (part = TheNextPart)"
| "changes_next m (UpdatePartInstance part spread) = (part = TheNextPart)"
| "changes_next m (UpdatePieceInstance i spread) = (case findPieceInstance i m of None \<Rightarrow> False
     | Some (owner, q) \<Rightarrow> map_option sel_partInstanceId (nextPartInfo (playlist m)) = Some (pi_partInstanceId (PieceInstanceImpl q)))"
| "changes_next m (RemovePieceInstances is) = True"
| "changes_next m _ = False"

lemma mark_changed_fields [simp]:
  "queuedPartInstanceId (mark_changed part st) = queuedPartInstanceId st"
  "nextPartState (mark_changed part st) = NoChange \<longleftrightarrow> part = TheCurrentPart \<and> nextPartState st = NoChange"
  by (auto simp: mark_changed_def change_max_def split: which_part.split)

lemma perform_call_next:
  assumes "perform_call env ids c st = Inr (jobs, st')"
  shows "nextPartState st' = NoChange \<Longrightarrow> nextPartState st = NoChange \<and> \<not> changes_next (action_model st) c"
    and "queues c \<Longrightarrow> nextPartState st = NoChange"
    and "queuedPartInstanceId st' \<noteq> None \<longleftrightarrow> queuedPartInstanceId st \<noteq> None \<or> queues c"
proof -
  have *: "(nextPartState st' = NoChange \<longrightarrow> nextPartState st = NoChange \<and> \<not> changes_next (action_model st) c)
    \<and> (queues c \<longrightarrow> nextPartState st = NoChange)
    \<and> (queuedPartInstanceId st' \<noteq> None \<longleftrightarrow> queuedPartInstanceId st \<noteq> None \<or> queues c)"
  proof (cases c)
    case (InsertPiece part p)
    with assms show ?thesis
      by (cases part) (auto simp: insertPiece_def Let_def and_then_Inr split: option.splits if_splits)
  next
    case (UpdatePieceInstance i spread)
    with assms show ?thesis by (auto simp: updatePieceInstance_def Let_def split: option.splits if_splits)
  next
    case (UpdatePartInstance part spread)
    with assms show ?thesis
      by (cases part) (auto simp: updatePartInstance_def Let_def split: option.splits if_splits prod.splits)
  next
    case (QueuePart part ps)
    with assms show ?thesis by (auto simp: queuePart_def Let_def and_then_Inr split: option.splits if_splits)
  next
    case (MoveNextPart p s)
    with assms show ?thesis by (auto simp: action_moveNextPart_def Let_def and_then_Inr split: option.splits)
  next
    case (StopPiecesOnLayers layers t)
    with assms show ?thesis
      by (auto simp: stopPiecesOnLayers_def stopPiecesByRule_def Let_def and_then_Inr split: option.splits if_splits)
  next
    case (StopPieceInstances ids t)
    with assms show ?thesis
      by (auto simp: stopPieceInstances_def stopPiecesByRule_def Let_def and_then_Inr split: option.splits if_splits)
  next
    case (RemovePieceInstances ids)
    with assms show ?thesis by (auto simp: removePieceInstances_def split: option.splits)
  next
    case (BlockTakeUntil t)
    with assms show ?thesis by (auto simp: action_blockTakeUntil_def split: option.splits if_splits)
  next
    case (TakeAfterExecute b)
    with assms show ?thesis by (auto simp: takeAfterExecuteAction_def)
  qed
  show "nextPartState st' = NoChange \<Longrightarrow> nextPartState st = NoChange \<and> \<not> changes_next (action_model st) c" using * by blast
  show "queues c \<Longrightarrow> nextPartState st = NoChange" using * by blast
  show "queuedPartInstanceId st' \<noteq> None \<longleftrightarrow> queuedPartInstanceId st \<noteq> None \<or> queues c" using * by blast
qed

lemma run_calls_append:
  "run_calls env k (xs @ ys) st = Inr (jobs, st') \<longleftrightarrow>
     (\<exists>j1 s j2. run_calls env k xs st = Inr (j1, s) \<and> run_calls env (k + length xs) ys s = Inr (j2, st') \<and> jobs = j1 @ j2)"
proof (induction xs arbitrary: k st jobs)
  case (Cons x xs)
  show ?case
  proof (cases "perform_call env (action_ids env k) x st")
    case (Inr r)
    obtain j0 s0 where r: "r = (j0, s0)" by (cases r)
    show ?thesis
      using Cons.IH [of "Suc k" s0] unfolding append_Cons run_calls.simps Inr r
      by (auto simp: and_then_Inr split: sum.splits)
  qed simp
qed simp

lemma run_calls_queue:
  assumes "run_calls env k calls st = Inr (jobs, st')"
  shows "nextPartState st \<noteq> NoChange \<Longrightarrow> c \<in> set calls \<Longrightarrow> \<not> queues c"
    and "length (filter queues calls) \<le> 1"
    and "queuedPartInstanceId st' \<noteq> None \<longleftrightarrow> queuedPartInstanceId st \<noteq> None \<or> (\<exists>c\<in>set calls. queues c)"
proof -
  have "(nextPartState st \<noteq> NoChange \<longrightarrow> (\<forall>c\<in>set calls. \<not> queues c))
    \<and> length (filter queues calls) \<le> 1
    \<and> (queuedPartInstanceId st' \<noteq> None \<longleftrightarrow> queuedPartInstanceId st \<noteq> None \<or> (\<exists>c\<in>set calls. queues c))"
    using assms
  proof (induction calls arbitrary: k st jobs)
    case (Cons c cs)
    then obtain j1 st1 j2 where c: "perform_call env (action_ids env k) c st = Inr (j1, st1)"
        and "run_calls env (Suc k) cs st1 = Inr (j2, st')" by (auto simp: and_then_Inr)
    note IH = Cons.IH [OF this(2)] and call = perform_call_next [OF c]
    have "queues c \<Longrightarrow> filter queues cs = []"
      using IH call(1) by (cases c) (auto simp: filter_empty_conv)
    with IH call show ?case by auto
  qed simp
  then show "nextPartState st \<noteq> NoChange \<Longrightarrow> c \<in> set calls \<Longrightarrow> \<not> queues c"
    and "length (filter queues calls) \<le> 1"
    and "queuedPartInstanceId st' \<noteq> None \<longleftrightarrow> queuedPartInstanceId st \<noteq> None \<or> (\<exists>c\<in>set calls. queues c)" by blast+
qed



end
