(* ===== verification/Hold_Cycle.thy ===== *)
theory Hold_Cycle
  imports Show_Cycle Next_Part_Facts Adlib_Action_Facts
begin

text \<open>
  Hold over the course of a show: each job of the playout, from the activation of the playlist to an action of the
  blueprint, is a step of a state machine for hold, so that whatever sequence of jobs runs, hold follows its cycle.
\<close>

section \<open>What a step does to hold\<close>

definition turns_hold ::
  "(RundownHoldState option \<Rightarrow> RundownHoldState option \<Rightarrow> bool) \<Rightarrow> PlayoutModel \<Rightarrow> PlayoutModel \<Rightarrow> bool" where
  "turns_hold R m m' = (playout_wf m \<longrightarrow> playout_wf m' \<and> R (holdState (playlist m)) (holdState (playlist m')))"

abbreviation keeps_hold :: "PlayoutModel \<Rightarrow> PlayoutModel \<Rightarrow> bool" where
  "keeps_hold \<equiv> turns_hold (=)"

abbreviation resets_hold :: "PlayoutModel \<Rightarrow> PlayoutModel \<Rightarrow> bool" where
  "resets_hold \<equiv> turns_hold (\<lambda>_ h. h = Some HoldNone)"

lemma keeps_hold_refl [simp]: "keeps_hold m m"
  by (simp add: turns_hold_def)

lemma turns_then_keeps: "turns_hold R a b \<Longrightarrow> keeps_hold b c \<Longrightarrow> turns_hold R a c"
  unfolding turns_hold_def by metis

lemma keeps_then_turns: "keeps_hold a b \<Longrightarrow> turns_hold R b c \<Longrightarrow> turns_hold R a c"
  by (simp add: turns_hold_def)

lemma turns_hold_mono: "turns_hold R m m' \<Longrightarrow> (\<And>h h'. R h h' \<Longrightarrow> S h h') \<Longrightarrow> turns_hold S m m'"
  by (simp add: turns_hold_def)

lemma resets_again: "turns_hold R a b \<Longrightarrow> resets_hold b c \<Longrightarrow> resets_hold a c"
  by (simp add: turns_hold_def)

lemma turns_hold_cong:
  "allPartInstances m' = allPartInstances m \<Longrightarrow> R (holdState (playlist m)) (holdState (playlist m')) \<Longrightarrow> turns_hold R m m'"
  unfolding turns_hold_def using playout_wf_cong [of m' m] by simp

lemma same_show_keeps_hold: "same_show m m' \<Longrightarrow> keeps_hold m m'"
  by (simp add: same_show_def keeps_docs_def show_core_def turns_hold_def)

lemma keeps_air_keeps_hold: "keeps_air m m' \<Longrightarrow> keeps_hold m m'"
  by (simp add: keeps_air_def but_next_def show_core_def turns_hold_def)

lemma keeps_hold_on:
  assumes "\<And>p. inst_id (partInstanceImpl (f p)) = inst_id (partInstanceImpl p)"
  shows "keeps_hold m (on_part_instance i f m)"
  by (rule keeps_air_keeps_hold) (rule keeps_air_on [OF assms])

lemma set_next_keeps_hold:
  assumes env: "keeps_selection env" and choice: "choice = None \<or> (\<exists>part q. choice = Some (ChoicePart part q))"
    and r: "setNextPart env choice manual offset m = Inr (jobs, m')"
  shows "keeps_hold m m'"
proof (cases choice)
  case None
  with r set_nothing_next show ?thesis by (fastforce simp: turns_hold_def drops_or_resets_def)
next
  case (Some c)
  with choice have "c \<noteq> ChoiceInstance []" by auto
  from set_next_keeps_air [OF env this r [unfolded Some]] show ?thesis by (rule keeps_air_keeps_hold)
qed

lemma from_part_keeps_hold:
  assumes "keeps_selection env" and "setNextPartFromPart env part manual offset m = Inr (jobs, m')"
  shows "keeps_hold m m'"
proof -
  from assms(2) have "setNextPart env (Some (ChoicePart part (doesPartConsumeQueuedSegmentId m part))) manual offset m =
      Inr (jobs, m')" by (simp add: setNextPartFromPart_def split: if_splits)
  from set_next_keeps_hold [OF assms(1) _ this] show ?thesis by simp
qed

lemma queued_segment_keeps_hold: "keeps_hold m (setQueuedSegment s m)"
  by (rule turns_hold_cong) (simp_all add: setQueuedSegment_def on_playlist_def)

section \<open>A take\<close>

definition hold_on_air :: "RundownHoldState option \<Rightarrow> RundownHoldState option" where
  "hold_on_air h = (if h = Some HoldPending then Some HoldActive else h)"

lemma move_to_taken_keeps_hold: "keeps_hold m (move_to_taken env layers i cur off m)"
proof -
  define u where "u = updatePartInstanceOnTake env layers i cur m"
  define c where "c = cycleSelectedPartInstances (take_now env) u"
  define t where "t = on_part_instance i (setTaken (take_now env) (take_now env) off) c"
  have core: "doc_core d = taken_core e \<Longrightarrow> inst_id d = inst_id e" for d e
    by (simp add: doc_core_def taken_core_def)
  have u: "keeps_hold m u"
    unfolding u_def updatePartInstanceOnTake_def Let_def by (rule keeps_hold_on) (rule core, simp)
  have c: "keeps_hold u c"
    unfolding c_def by (rule turns_hold_cong) (simp_all add: cycleSelectedPartInstances_def on_playlist_def)
  have t: "keeps_hold c t" unfolding t_def by (rule keeps_hold_on) (rule core, simp)
  have "keeps_hold t (resetPreviousSegment t)"
    by (simp add: turns_hold_def resetPreviousSegment_def Let_def playlist_reset_all wf_reset_all split: option.split)
  with u c t have "keeps_hold m (resetPreviousSegment t)" by (blast intro: turns_then_keeps)
  then show ?thesis by (simp add: move_to_taken_def t_def c_def u_def)
qed

lemma take_next_hold:
  assumes env: "take_env_ok env" and r: "take_next env layers p cur off m = Inr (jobs, deferred, m')"
  shows "turns_hold (\<lambda>h h'. h' = hold_on_air h) m m'"
proof -
  let ?i = "inst_id (partInstanceImpl p)"
  define m1 where "m1 = on_part_instance ?i clear_planned m"
  define taken where "taken = partInstanceImpl (nullish (part_instance_at ?i m1) p)"
  have pl1: "playlist m1 = playlist m" by (simp add: m1_def)
  define m2 where "m2 = clearQueuedSegmentId (Some taken) (nextPartInfo (playlist m)) m1"
  define m3 where "m3 = move_to_taken env layers ?i cur off m2"
  from r obtain m4 m5 where
      4: "setNextPart (base_env env) (select_after taken m2) False None m3 = Inr (jobs, m4)" and
      5: "(if holdState (playlist m4) = Some HoldPending then activateHold env cur ?i m4 else Inr m4) = Inr m5" and
      6: "m' = afterTake env ?i m5"
    by (auto simp: take_next_def Let_def m1_def [symmetric] pl1 taken_def [symmetric] m2_def [symmetric]
        m3_def [symmetric] and_then_Inr)
  have 1: "keeps_hold m m1" unfolding m1_def by (rule same_show_keeps_hold) (rule clear_planned_same)
  have "keeps_docs m1 m2" unfolding m2_def by (rule clear_queued_docs(1))
  moreover have "holdState (playlist m2) = holdState (playlist m1)" by (simp add: m2_def clear_queued_docs(2))
  ultimately have 2: "keeps_hold m1 m2" by (simp add: turns_hold_def keeps_docs_def)
  have 3: "keeps_hold m2 m3" unfolding m3_def by (rule move_to_taken_keeps_hold)
  have "keeps_selection (base_env env)" using env by (simp add: take_env_ok_def)
  from set_next_keeps_hold [OF this select_after_part 4] have "keeps_hold m3 m4" .
  with 1 2 3 have a: "keeps_hold m m4" by (blast intro: turns_then_keeps)
  have "turns_hold (\<lambda>h h'. h' = hold_on_air h) m4 m5"
    using 5 activateHold_docs by (auto simp: turns_hold_def hold_on_air_def keeps_docs_def show_core_def split: if_splits)
  with a have "turns_hold (\<lambda>h h'. h' = hold_on_air h) m m5" by (rule keeps_then_turns)
  then show ?thesis unfolding 6 by (rule turns_then_keeps) (rule same_show_keeps_hold [OF afterTake_same [OF env]])
qed

section \<open>Hold as a state machine\<close>

text \<open>
  The jobs of a show, with the arguments their callers give; the random ids of an ad-lib are those of the
  environment. To play a piece again is one of two jobs: a piece is copied (\<open>TakePieceNow\<close>), or the action that
  stands for it is run (\<open>TakeActionNow\<close>, with the calls of the blueprint; the checks before it are left out, so
  that it runs in more states than in the code).
\<close>

datatype show_job =
    ActivateHold
  | DeactivateHold
  | TakeNext "PartInstanceId option"
  | PlaybackStarted PartInstanceId time
  | PlaybackStopped PartInstanceId time
  | ActivatePlaylist "(string \<times> string) list" bool activation_ids
  | PrepareForBroadcast "(string \<times> string) list" activation_ids
  | ResetPlaylist bool "activate_mode option" bool "(string \<times> string) list" bool "(string \<times> string) list" activation_ids
  | DeactivatePlaylist
  | SetNextTo PartId "bool option" "int option"
  | MoveNext int int
  | SetNextSegment SegmentId
  | QueueSegment "SegmentId option"
  | UpdateNextAfterIngest
  | StartAdLib adlib_collections PartInstanceId PieceId adlib_kind bool
  | StartStickyPiece PieceId "PieceInstance list" string
  | StopPiecesOnSourceLayers PartInstanceId "string list"
  | DisableNextPiece bool
  | TakePieceNow PartInstanceId string
  | TakeActionNow PlayoutRundownModel "blueprint_call list"
  | ExecuteAction "blueprint_call list"
  | ActivateAdlibTesting bool SegmentId string RundownId

text \<open>The end of a job: whether it took, and the model.\<close>

definition ended :: "bool \<Rightarrow> ('a \<Rightarrow> PlayoutModel) \<Rightarrow> action_error + 'a \<Rightarrow> action_error + (bool \<times> PlayoutModel)" where
  "ended took model = map_sum id (\<lambda>x. (took, model x))"

abbreviation playout_job :: "playout_error + 'a \<Rightarrow> action_error + 'a" where
  "playout_job r \<equiv> of_adlib (of_playout r)"

fun run_show_job :: "action_env \<Rightarrow> show_job \<Rightarrow> PlayoutModel \<Rightarrow> action_error + (bool \<times> PlayoutModel)" where
  "run_show_job env ActivateHold m = ended False id (playout_job (handleActivateHold (job_env env) m))"
| "run_show_job env DeactivateHold m = ended False id (playout_job (handleDeactivateHold (job_env env) m))"
| "run_show_job env (TakeNext from) m = ended True snd (playout_job (handleTakeNextPart (job_env env) from m))"
| "run_show_job env (PlaybackStarted i t) m = ended False snd (playout_job (onPartPlaybackStarted (job_env env) i t m))"
| "run_show_job env (PlaybackStopped i t) m = ended False id (playout_job (onPartPlaybackStopped (job_env env) i t m))"
| "run_show_job env (ActivatePlaylist others reh ids) m =
     ended False snd (playout_job (handleActivateRundownPlaylist (job_env env) others reh ids m))"
| "run_show_job env (PrepareForBroadcast others ids) m =
     ended False snd (playout_job (handlePrepareRundownPlaylistForBroadcast (job_env env) others ids m))"
| "run_show_job env (ResetPlaylist allow activate force others fails after ids) m =
     ended False snd (playout_job (handleResetRundownPlaylist (job_env env) allow activate force others fails after ids m))"
| "run_show_job env DeactivatePlaylist m = ended False snd (playout_job (deactivateRundownPlaylistInner (job_env env) m))"
| "run_show_job env (SetNextTo i manual offset) m =
     ended False snd (playout_job (handleSetNextPart (job_env env) i manual offset m))"
| "run_show_job env (MoveNext p s) m = ended False (snd \<circ> snd) (playout_job (handleMoveNextPart (job_env env) p s m))"
| "run_show_job env (SetNextSegment s) m = ended False (snd \<circ> snd) (playout_job (handleSetNextSegment (job_env env) s m))"
| "run_show_job env (QueueSegment s) m = ended False (snd \<circ> snd) (playout_job (handleQueueNextSegment (job_env env) s m))"
| "run_show_job env UpdateNextAfterIngest m = ended False (snd \<circ> snd) (playout_job (ensureNextPartIsValid (job_env env) m))"
| "run_show_job env (StartAdLib c i k kind queue) m =
     ended False snd (of_adlib (handleAdLibPieceStart (job_env env) (action_ids env 0) c i k kind queue m))"
| "run_show_job env (StartStickyPiece k played layer) m =
     ended False snd (of_adlib (handleStartStickyPieceOnSourceLayer (job_env env) (action_ids env 0) k played layer m))"
| "run_show_job env (StopPiecesOnSourceLayers i layers) m =
     ended False id (of_adlib (handleStopPiecesOnSourceLayers (job_env env) i layers m))"
| "run_show_job env (DisableNextPiece undo) m = ended False id (of_adlib (handleDisableNextPiece (job_env env) undo m))"
| "run_show_job env (TakePieceNow i k) m = ended False id (of_adlib (handleTakePieceAsAdlibNow (job_env env)
       (action_ids env 0) (\<lambda>_ _ _. Inl UserPieceAsAdlibNotDirectPlayable) i k m))"
| "run_show_job env (TakeActionNow rundown calls) m =
     map_sum id (\<lambda>(jobs, deferred, st). (takeAfterExecute st, action_model st))
       (executeActionInner (env\<lparr>action_rundown := rundown\<rparr>) calls m)"
| "run_show_job env (ExecuteAction calls) m =
     map_sum id (\<lambda>(jobs, queued, took, m). (took, m)) (handleExecuteAdlibAction env calls m)"
| "run_show_job env (ActivateAdlibTesting allow s playoutId r) m =
     ended True snd (handleActivateAdlibTesting (job_env env) allow (action_ids env 0) s playoutId r m)"

definition no_hold :: "RundownHoldState option \<Rightarrow> bool" where
  "no_hold h = (h = None \<or> h = Some HoldNone)"

definition starts_over :: "show_job \<Rightarrow> bool" where
  \<comment> \<open>jobs that always end with hold off\<close>
  "starts_over j = (case j of PrepareForBroadcast _ _ \<Rightarrow> True | ResetPlaylist _ _ _ _ _ _ _ \<Rightarrow> True
     | DeactivatePlaylist \<Rightarrow> True | _ \<Rightarrow> False)"

definition may_end_hold :: "show_job \<Rightarrow> bool" where
  \<comment> \<open>an autonext, and the activation of a playlist that was not active or has nothing on air\<close>
  "may_end_hold j = (case j of PlaybackStarted _ _ \<Rightarrow> True | ActivatePlaylist _ _ _ \<Rightarrow> True | _ \<Rightarrow> False)"

text \<open>The steps of hold: of a job, and whether it took.\<close>

inductive hold_step :: "show_job \<times> bool \<Rightarrow> RundownHoldState option \<Rightarrow> RundownHoldState option \<Rightarrow> bool" where
  activate: "no_hold h \<Longrightarrow> hold_step (ActivateHold, False) h (Some HoldPending)"
| deactivate: "hold_step (DeactivateHold, False) (Some HoldPending) (Some HoldNone)"
| take_extends: "hold_step (j, True) (Some HoldPending) (Some HoldActive)"
| take_aborted: "hold_step (j, True) (Some HoldPending) (Some HoldPending)"
| take_completes: "hold_step (j, True) (Some HoldActive) (Some HoldComplete)"
| take_leaves: "hold_step (j, True) (Some HoldComplete) (Some HoldNone)"
| take_plain: "no_hold h \<Longrightarrow> hold_step (j, True) h h"
| hold_off: "starts_over j \<or> may_end_hold j \<Longrightarrow> hold_step (j, False) h (Some HoldNone)"
| stays: "j \<noteq> ActivateHold \<Longrightarrow> j \<noteq> DeactivateHold \<Longrightarrow> \<not> starts_over j \<Longrightarrow> hold_step (j, False) h h"

section \<open>Every job is a step of hold\<close>

lemma hold_cases: "h = Some HoldActive \<or> h = Some HoldPending \<or> h = Some HoldComplete \<or> no_hold h"
  by (cases h; cases "the h") (auto simp: no_hold_def)

lemma take_step: "h \<noteq> Some HoldActive \<Longrightarrow>
    hold_step (j, True) h (hold_on_air (if h = Some HoldComplete then Some HoldNone else h))"
  using hold_cases [of h] by (auto simp: hold_on_air_def no_hold_def intro: hold_step.intros)

lemma aborted_step: "h \<noteq> Some HoldActive \<Longrightarrow>
    hold_step (j, True) h (if h = Some HoldComplete then Some HoldNone else h)"
  using hold_cases [of h] by (auto simp: no_hold_def intro: hold_step.intros)

lemma perform_take_step:
  assumes env: "take_env_ok env" and p: "performTakeToNextedPart env m = Inr (jobs, deferred, m')"
  shows "turns_hold (hold_step (j, True)) m m'"
proof -
  have timeline: "keeps_hold k (env_updateTimeline env k)" for k
    using env by (simp add: take_env_ok_def same_show_keeps_hold)
  define k where "k = snd (env_onTake env (hold_cleared m))"
  have "same_show (hold_cleared m) k" using env by (simp add: take_env_ok_def k_def)
  moreover have "turns_hold (\<lambda>h h'. h' = (if h = Some HoldComplete then Some HoldNone else h)) m (hold_cleared m)"
    using hold_cleared_docs [of m] by (simp add: turns_hold_def keeps_docs_def show_core_def)
  ultimately have k: "turns_hold (\<lambda>h h'. h' = (if h = Some HoldComplete then Some HoldNone else h)) m k"
    by (blast intro: turns_then_keeps same_show_keeps_hold)
  show ?thesis
  proof (cases rule: perform_cases [OF p])
    case (1 layers cur m1)
    from completeHold_docs [OF 1(2)] 1(1) have "turns_hold (hold_step (j, True)) m m1"
      by (simp add: turns_hold_def keeps_docs_def show_core_def take_completes)
    then show ?thesis unfolding 1(3) by (rule turns_then_keeps) (rule timeline)
  next
    case 2
    from k aborted_step [OF 2(1)] have "turns_hold (hold_step (j, True)) m k" by (simp add: turns_hold_def)
    then show ?thesis unfolding 2(3) k_def [symmetric] by (rule turns_then_keeps) (rule timeline)
  next
    case (3 q layers cur off)
    from take_next_hold [OF env 3(4) [folded k_def]] k take_step [OF 3(1)] show ?thesis
      by (simp add: turns_hold_def)
  qed
qed

lemma take_job_step:
  assumes "take_env_ok env" and "handleTakeNextPart env from m = Inr (jobs, m')"
  shows "turns_hold (hold_step (j, True)) m m'"
proof -
  from handleTake_perform [OF assms(2)] obtain deferred m2 where
    "performTakeToNextedPart env m = Inr (jobs, deferred, m2)" "same_show m2 m'" by blast
  with perform_take_step [OF assms(1)] show ?thesis by (blast intro: turns_then_keeps same_show_keeps_hold)
qed

lemma select_first_keeps_hold:
  assumes env: "keeps_selection env" and r: "select_and_set_first env m = Inr (jobs, m')"
  shows "keeps_hold m m'"
proof -
  define r' where "r' = selectNextPart (queuedSegmentId (playlist m)) (playlist_loop (playlist m)) None None
    (map segment_doc (getAllOrderedSegments m)) (playout_getAllOrderedParts m) True"
  from r have "setNextPart env (map_option (\<lambda>r. ChoicePart (sel_part r) (consumesQueuedSegmentId r)) r') False None m =
      Inr (jobs, m')" by (simp add: select_and_set_first_def r'_def)
  from set_next_keeps_hold [OF env _ this] show ?thesis by (cases r') auto
qed

lemma reset_resets_hold:
  assumes env: "keeps_selection env" and r: "resetRundownPlaylist env i m = Inr (jobs, m')"
  shows "resets_hold m m'"
proof -
  define m1 where "m1 = resetPlaylist (env_now env) i (truthy_str (activationId (playlist m))) m"
  define m2 where "m2 = removeAllRehearsalPartInstances m1"
  define m3 where "m3 = resetPartInstancesWithPieceInstances (\<lambda>_. True) m2"
  define m4 where "m4 = m3\<lparr>rundownsImpl := map (\<lambda>r. snd (removeAdlibTestingSegment r)) (rundownsImpl m3)\<rparr>"
  have all1: "allPartInstances m1 = allPartInstances m" by (simp add: m1_def resetPlaylist_def on_playlist_def)
  have "drops_or_resets m m2"
    unfolding m2_def by (rule drops_trans [OF drops_cong [OF all1] remove_rehearsal_drops])
  then have wf2: "playout_wf m2" if "playout_wf m" using that by (simp add: drops_or_resets_def)
  have "allPartInstances m4 = allPartInstances m3" by (simp add: m4_def)
  then have wf4: "playout_wf m4" if "playout_wf m"
    using wf2 [OF that] playout_wf_cong [of m4 m3] by (simp add: m3_def)
  have "playlist m4 = playlist m1"
    by (simp add: m4_def m3_def m2_def removeAllRehearsalPartInstances_def deferAfterSave_def)
  then have "resets_hold m m4"
    using wf4 by (simp add: turns_hold_def m1_def resetPlaylist_def on_playlist_def)
  moreover from r have "keeps_hold m4 m'"
    unfolding resetRundownPlaylist_def Let_def m1_def [symmetric] m2_def [symmetric] m3_def [symmetric] m4_def [symmetric]
    by (auto split: if_splits intro: set_next_keeps_hold [OF env] select_first_keeps_hold [OF env])
  ultimately show ?thesis by (rule turns_then_keeps)
qed

abbreviation stays_or_off :: "RundownHoldState option \<Rightarrow> RundownHoldState option \<Rightarrow> bool" where
  "stays_or_off h h' \<equiv> h' = h \<or> h' = Some HoldNone"

lemma leave_testing_keeps_hold: "leave_adlib_testing reh m = Inr m' \<Longrightarrow> keeps_hold m m'"
proof -
  assume r: "leave_adlib_testing reh m = Inr m'"
  then consider "m' = m" | i d where "m' = on_rundown i (\<lambda>r. snd (removeAdlibTestingSegment r)) (on_part_instance d markAsReset m)"
    by (auto simp: leave_adlib_testing_def Let_def split: option.splits if_splits)
  then show ?thesis
  proof cases
    case (2 i d)
    have "keeps_hold m (on_part_instance d markAsReset m)" by (rule keeps_hold_on) simp
    moreover have "keeps_hold k (on_rundown i f k)" for f k by (rule turns_hold_cong) (simp_all add: on_rundown_def)
    ultimately show ?thesis unfolding 2 by (rule turns_then_keeps)
  qed simp
qed

lemma fold_keeps_hold:
  assumes "\<And>x k. keeps_hold k (f x k)"
  shows "keeps_hold m (fold f xs m)"
proof (induction xs arbitrary: m)
  case (Cons x xs)
  from turns_then_keeps [OF assms Cons.IH] show ?case by simp
qed simp

lemma activate_hold:
  assumes env: "take_env_ok env" and r: "activateRundownPlaylist env others reh r2 r3 m = Inr (jobs, m')"
  shows "turns_hold stays_or_off m m'"
proof -
  have keeps: "keeps_selection (base_env env)" using env by (simp add: take_env_ok_def)
  from r obtain jobs1 m1 where
      1: "(if truthy_str (activationId (playlist m)) then Inr ([], m) else resetRundownPlaylist (base_env env) r2 m) = Inr (jobs1, m1)"
    by (auto simp: activateRundownPlaylist_def and_then_Inr split: if_splits)
  define m2 where "m2 = snd (activatePlaylist r3 reh m1)"
  from r 1 obtain m3 where 3: "leave_adlib_testing reh m2 = Inr m3"
    by (auto simp: activateRundownPlaylist_def and_then_Inr m2_def split: if_splits)
  define m4 where "m4 = fold (\<lambda>p. on_part_instance (inst_id (partInstanceImpl p)) (setPlaylistActivationId r3))
    (selectedPartInstances m3) m3"
  have "turns_hold stays_or_off m m1"
    using 1 reset_resets_hold [OF keeps] by (auto simp: turns_hold_def split: if_splits)
  moreover have "keeps_hold m1 m2"
    unfolding m2_def by (rule turns_hold_cong) (simp_all add: activatePlaylist_def on_playlist_def)
  ultimately have a: "turns_hold stays_or_off m m3"
    using leave_testing_keeps_hold [OF 3] by (blast intro: turns_then_keeps)
  from r 1 3 obtain jobs2 m5 where m5: "activate_select_first env m3 = Inr (jobs2, m5) \<or> m5 = m4"
      "m' = env_updateTimeline env m5"
    unfolding activateRundownPlaylist_def and_then_Inr Let_def m4_def
    by (auto simp: and_then_Inr m2_def [symmetric] split: if_splits option.splits)
  have "turns_hold stays_or_off m3 m5"
  proof (cases "m5 = m4")
    case True
    have "keeps_hold m3 m4" unfolding m4_def
      by (rule fold_keeps_hold, rule keeps_hold_on)
        (simp add: setPlaylistActivationId_def on_pieces_def compareAndSetPartInstanceValue_def setPartInstanceValue_def)
    with True show ?thesis by (auto intro: turns_hold_mono)
  next
    case False
    with m5(1) have "select_and_set_first (base_env env) (clearSelectedPartInstances m3) = Inr (jobs2, m5)"
      by (simp add: activate_select_first_def)
    from select_first_keeps_hold [OF keeps this] have "keeps_hold (clearSelectedPartInstances m3) m5" .
    moreover have "resets_hold m3 (clearSelectedPartInstances m3)"
      by (rule turns_hold_cong) (simp_all add: clearSelectedPartInstances_def on_playlist_def)
    ultimately have "resets_hold m3 m5" by (blast intro: turns_then_keeps)
    then show ?thesis by (auto intro: turns_hold_mono)
  qed
  with a have "turns_hold stays_or_off m m5" unfolding turns_hold_def by metis
  moreover have "keeps_hold m5 m'" using env by (simp add: take_env_ok_def m5(2) same_show_keeps_hold)
  ultimately show ?thesis by (rule turns_then_keeps)
qed

lemma deactivate_resets_hold:
  assumes env: "take_env_ok env" and r: "deactivateRundownPlaylistInner env m = Inr (jobs, m')"
  shows "resets_hold m m'"
proof -
  have keeps: "keeps_selection (base_env env)" using env by (simp add: take_env_ok_def)
  define m1 where "m1 = (case currentPartInstance m of
      None \<Rightarrow> m | Some c \<Rightarrow> queueNotifyCurrentlyPlayingPartEvent (inst_rundownId (partInstanceImpl c)) None m)"
  have 1: "keeps_hold m m1"
    by (simp add: m1_def same_show_keeps_hold [OF same_show_notify] split: option.split)
  define m2 where "m2 = m1\<lparr>playlist := (playlist m1)\<lparr>activationId := None\<rparr>\<rparr>"
  define m3 where "m3 = (case currentPartInstance m2 of None \<Rightarrow> m2
     | Some c \<Rightarrow> queuePartInstanceTimingEvent (inst_id (partInstanceImpl c))
         (on_part_instance (inst_id (partInstanceImpl c))
           (\<lambda>p. snd (setReportedStoppedPlaybackWithPieceInstances (take_now env) p)) m2))"
  have d: "deactivatePlaylist (take_now env) m1 = (clearSelectedPartInstances m3)\<lparr>playlistHasChanged := True\<rparr>"
    unfolding deactivatePlaylist_def m3_def m2_def Let_def by (rule refl)
  have "keeps_hold m1 m2" by (rule turns_hold_cong) (simp_all add: m2_def)
  moreover have "keeps_hold m2 m3"
  proof (cases "currentPartInstance m2")
    case (Some c)
    have "keeps_hold m2 (on_part_instance (inst_id (partInstanceImpl c))
        (\<lambda>p. snd (setReportedStoppedPlaybackWithPieceInstances (take_now env) p)) m2)"
      by (rule keeps_hold_on) (simp add: setReportedStoppedPlaybackWithPieceInstances_def case_prod_beta' Let_def
          same_core_id [OF timings_core(5)])
    then show ?thesis unfolding m3_def Some option.case
      by (rule turns_then_keeps) (rule same_show_keeps_hold [OF same_show_event])
  qed (simp add: m3_def)
  moreover have "resets_hold m3 (deactivatePlaylist (take_now env) m1)"
    unfolding d by (rule turns_hold_cong) (simp_all add: clearSelectedPartInstances_def on_playlist_def)
  ultimately have 4: "resets_hold m (deactivatePlaylist (take_now env) m1)"
    using 1 by (blast intro: resets_again turns_then_keeps)
  from r obtain m5 where 5: "setNextPart (base_env env) None False None (deactivatePlaylist (take_now env) m1) = Inr (jobs, m5)"
      and m': "m' = (case currentPartInstance m of None \<Rightarrow> m5
        | Some c \<Rightarrow> on_part_instance (inst_id (partInstanceImpl c)) (inst_setPlannedStoppedPlayback (Some (take_now env))) m5)"
    by (auto simp: deactivateRundownPlaylistInner_def Let_def m1_def [symmetric] and_then_Inr)
  have "keeps_hold m5 m'"
    unfolding m' by (cases "currentPartInstance m") (simp_all add: same_show_keeps_hold [OF same_show_on])
  with 4 set_next_keeps_hold [OF keeps _ 5] show ?thesis by (blast intro: turns_then_keeps)
qed

text \<open>Reports of the playback\<close>

lemma autonext_resets_hold:
  assumes env: "take_env_ok env" and r: "autonext_taken env i t m = Inr (jobs, m')"
  shows "resets_hold m m'"
proof -
  have keeps: "keeps_selection (base_env env)" using env by (simp add: take_env_ok_def)
  define m1 where "m1 = resetHoldState (cycleSelectedPartInstances (take_now env) m)"
  define m2 where "m2 = reportPartInstanceHasStarted env i t m1"
  from r obtain playing cur layers where p: "part_instance_at i m2 = Some playing" and
      r2: "(let m = updatePartInstanceOnTake env layers i cur m2;
                m = resetPreviousSegment (clearQueuedSegmentId (Some (partInstanceImpl playing)) (nextPartInfo (playlist m)) m)
            in and_then (setNextPart (base_env env) (select_after (partInstanceImpl playing) m) False None m)
                 (\<lambda>(jobs, m). Inr (jobs, afterTake env i m))) = Inr (jobs, m')"
    unfolding autonext_taken_def Let_def m1_def [symmetric] m2_def [symmetric] by (auto split: option.splits)
  define m3 where "m3 = updatePartInstanceOnTake env layers i cur m2"
  define m4 where "m4 = clearQueuedSegmentId (Some (partInstanceImpl playing)) (nextPartInfo (playlist m3)) m3"
  define m5 where "m5 = resetPreviousSegment m4"
  have core: "doc_core d = taken_core e \<Longrightarrow> inst_id d = inst_id e" for d e
    by (simp add: doc_core_def taken_core_def)
  have "resets_hold m m1"
    unfolding m1_def by (rule turns_hold_cong)
      (simp_all add: resetHoldState_def setHoldState_def cycleSelectedPartInstances_def on_playlist_def)
  moreover have "keeps_hold m1 m2" unfolding m2_def by (rule same_show_keeps_hold) (rule started_same)
  moreover have "keeps_hold m2 m3"
    unfolding m3_def updatePartInstanceOnTake_def Let_def by (rule keeps_hold_on) (rule core, simp)
  moreover have "keeps_docs m3 m4" unfolding m4_def by (rule clear_queued_docs(1))
  then have "keeps_hold m3 m4" by (simp add: turns_hold_def keeps_docs_def m4_def clear_queued_docs(2))
  moreover have "keeps_hold m4 m5"
    by (simp add: turns_hold_def m5_def resetPreviousSegment_def Let_def playlist_reset_all wf_reset_all split: option.split)
  ultimately have 5: "resets_hold m m5" by (blast intro: turns_then_keeps)
  from r2 obtain m6 where
      6: "setNextPart (base_env env) (select_after (partInstanceImpl playing) m5) False None m5 = Inr (jobs, m6)"
      "m' = afterTake env i m6"
    by (auto simp: Let_def m3_def [symmetric] m4_def [symmetric] m5_def [symmetric] and_then_Inr)
  have "keeps_hold m6 m'" unfolding 6(2) by (rule same_show_keeps_hold) (rule afterTake_same [OF env])
  with 5 set_next_keeps_hold [OF keeps select_after_part 6(1)] show ?thesis by (blast intro: turns_then_keeps)
qed

lemma report_turns_hold:
  assumes env: "take_env_ok env" and r: "onPartPlaybackStarted env i t m = Inr (jobs, m')"
  shows "turns_hold stays_or_off m m'"
proof (cases rule: report_cases [OF r])
  case 1
  show ?thesis by (rule turns_hold_mono [OF autonext_resets_hold [OF env 1(4)]]) simp
next
  case 2
  show ?thesis unfolding 2 by (rule turns_hold_mono [OF same_show_keeps_hold [OF report_same [OF env]]]) simp
next
  case 3
  then show ?thesis by (simp add: turns_hold_def)
qed

lemma stopped_report_same: "onPartPlaybackStopped env i t m = Inr m' \<Longrightarrow> same_show m m'"
  using stopped_same by (auto simp: onPartPlaybackStopped_def Let_def split: option.splits if_splits)

text \<open>Ad-libs\<close>

lemma start_adlib_keeps_hold:
  assumes env: "take_env_ok env" and new: "new_instance_id ids \<noteq> []"
    and r: "innerStartOrQueueAdLibPiece env ids rundown queue i adlib m = Inr (k, jobs, m')"
  shows "keeps_hold m m'"
proof -
  have keeps: "keeps_selection (base_env env)" and tl: "keeps_hold a (env_updateTimeline env a)" for a
    using env by (simp_all add: take_env_ok_def same_show_keeps_hold)
  from r obtain current where c: "part_instance_at i m = Some current"
    by (auto simp: innerStartOrQueueAdLibPiece_def split: option.splits)
  show ?thesis
  proof (cases "queue \<or> toBeQueued adlib")
    case True
    with r c obtain p part a j m1 where q: "insertQueuedPartWithPieces (base_env env) ids rundown current part p a m = Inr (j, jobs, m1)"
        and m': "m' = env_updateTimeline env m1"
      by (auto simp: innerStartOrQueueAdLibPiece_def and_then_Inr)
    from q obtain c' where cur: "currentPartInstance m = Some c'"
      by (auto simp: insertQueuedPartWithPieces_def Let_def and_then_Inr createAdlibbedPartInstance_def split: option.splits)
    from keeps_air_keeps_hold [OF queued_keeps_air [OF keeps cur new q]] show ?thesis
      unfolding m' by (rule turns_then_keeps) (rule tl)
  next
    case False
    obtain x q where q: "insertAdlibbedPiece (take_now env) (new_infinite_id ids 0)
        (convertAdLibToGenericPiece (new_piece_id ids) adlib False) (Some (piece_id adlib)) current = (x, q)" by force
    have "partInstanceImpl (snd (insertAdlibbedPiece (take_now env) (new_infinite_id ids 0)
        (convertAdLibToGenericPiece (new_piece_id ids) adlib False) (Some (piece_id adlib)) current)) = partInstanceImpl current"
      by (simp add: insertAdlibbedPiece_def)
    then have 1: "keeps_hold m (put_part_instance i (Some q) m)"
      by (intro same_show_keeps_hold same_show_put_instance [OF c]) (simp add: q)
    from r False c q obtain m1 where "sync_next env (Some q) (put_part_instance i (Some q) m) = Inr m1"
        and m': "m' = env_updateTimeline env m1"
      by (auto simp: innerStartOrQueueAdLibPiece_def and_then_Inr)
    from this(1) have "keeps_hold (put_part_instance i (Some q) m) m1"
      by (intro keeps_air_keeps_hold sync_next_keeps_air)
    with 1 show ?thesis unfolding m' by (blast intro: turns_then_keeps tl)
  qed
qed

lemma current_instance_at:
  assumes "playout_wf m" and "currentPartInstance m = Some c"
  shows "part_instance_at (inst_id (partInstanceImpl c)) m = Some c"
proof -
  from assms(2) obtain i where i: "part_instance_at i m = Some c"
    by (auto simp: currentPartInstance_def selected_instance_def split: if_splits option.splits)
  then have "doc_at i m = Some (partInstanceImpl c)" by (simp add: doc_at_def)
  from playout_wfD [OF assms(1) this] i show ?thesis by simp
qed

lemma take_piece_keeps_hold:
  assumes env: "take_env_ok env"
    and r: "handleTakePieceAsAdlibNow env ids (\<lambda>_ _ _. Inl e) i k m = Inr m'"
  shows "keeps_hold m m'"
proof -
  have tl: "keeps_hold a (env_updateTimeline env a)" for a using env by (simp add: take_env_ok_def same_show_keeps_hold)
  from r obtain current rundown piece copied layers where cur: "currentPartInstance m = Some current"
      and 1: "pieceTakeNowAsAdlib env ids layers current piece copied m = Inr m'"
    by (auto simp: handleTakePieceAsAdlibNow_def Let_def split: option.splits if_splits IBlueprintDirectPlay.splits)
  have c: "part_instance_at (inst_id (partInstanceImpl current)) m = Some current" if "playout_wf m"
    using current_instance_at [OF that cur] .
  obtain x q where q: "insertAdlibbedPiece (take_now env) (new_infinite_id ids 0)
      (convertAdLibToGenericPiece (new_piece_id ids) (adlib_of_piece piece) False) (Some (piece_id piece)) current = (x, q)" by force
  have impl: "partInstanceImpl q = partInstanceImpl current"
    using arg_cong [OF q, of "\<lambda>r. partInstanceImpl (snd r)"] by (simp add: insertAdlibbedPiece_def)
  have finish: "keeps_hold m m'"
    if 2: "partInstanceImpl c = partInstanceImpl current"
      "and_then (sync_next env (currentPartInstance (put_part_instance (inst_id (partInstanceImpl q)) (Some c) m))
          (put_part_instance (inst_id (partInstanceImpl q)) (Some c) m)) (\<lambda>m. Inr (env_updateTimeline env m)) = Inr m'" for c
  proof -
    from 2 obtain m1 where m1: "sync_next env (currentPartInstance (put_part_instance (inst_id (partInstanceImpl q)) (Some c) m))
        (put_part_instance (inst_id (partInstanceImpl q)) (Some c) m) = Inr m1" and m': "m' = env_updateTimeline env m1"
      by (auto simp: and_then_Inr)
    have "keeps_hold m (put_part_instance (inst_id (partInstanceImpl q)) (Some c) m)"
      using same_show_keeps_hold [OF same_show_put_instance [OF c]] 2(1) by (simp add: turns_hold_def impl)
    moreover from m1 have "keeps_hold (put_part_instance (inst_id (partInstanceImpl q)) (Some c) m) m1"
      by (intro keeps_air_keeps_hold sync_next_keeps_air)
    ultimately show ?thesis unfolding m' by (blast intro: turns_then_keeps tl)
  qed
  from 1 obtain c where "c = q \<or> (\<exists>k. c = inst_on_piece k (setDisabled True) q)"
      "and_then (sync_next env (currentPartInstance (put_part_instance (inst_id (partInstanceImpl q)) (Some c) m))
          (put_part_instance (inst_id (partInstanceImpl q)) (Some c) m)) (\<lambda>m. Inr (env_updateTimeline env m)) = Inr m'"
    unfolding pieceTakeNowAsAdlib_def q Let_def prod.case
    by (cases copied) (simp_all split: if_splits, blast+)
  moreover from this(1) have "partInstanceImpl c = partInstanceImpl current" by (auto simp: impl)
  ultimately show ?thesis by (intro finish)
qed

lemma adlib_jobs_keep_hold:
  assumes env: "take_env_ok env" and new: "new_instance_id ids \<noteq> []"
  shows "handleAdLibPieceStart env ids c i k kind queue m = Inr (jobs, m') \<Longrightarrow> keeps_hold m m'"
    and "handleStartStickyPieceOnSourceLayer env ids k played layer m = Inr (jobs, m') \<Longrightarrow> keeps_hold m m'"
    and "handleStopPiecesOnSourceLayers env i layers m = Inr m' \<Longrightarrow> keeps_hold m m'"
    and "handleDisableNextPiece env undo m = Inr m' \<Longrightarrow> keeps_hold m m'"
    and "handleTakePieceAsAdlibNow env ids (\<lambda>_ _ _. Inl e) i p m = Inr m' \<Longrightarrow> keeps_hold m m'"
proof -
  note take_piece_keeps_hold [OF env]
  then show "handleTakePieceAsAdlibNow env ids (\<lambda>_ _ _. Inl e) i p m = Inr m' \<Longrightarrow> keeps_hold m m'" .
  have tl: "keeps_hold a (env_updateTimeline env a)" for a using env by (simp add: take_env_ok_def same_show_keeps_hold)
  show "keeps_hold m m'" if "handleAdLibPieceStart env ids c i k kind queue m = Inr (jobs, m')"
    using that start_adlib_keeps_hold [OF env new]
    by (auto simp: handleAdLibPieceStart_def and_then_Inr split: option.splits if_splits)
  show "keeps_hold m m'" if "handleStartStickyPieceOnSourceLayer env ids k played layer m = Inr (jobs, m')"
    using that start_adlib_keeps_hold [OF env new]
    by (auto simp: handleStartStickyPieceOnSourceLayer_def and_then_Inr split: option.splits if_splits)
  show "keeps_hold m m'" if r: "handleStopPiecesOnSourceLayers env i layers m = Inr m'"
  proof (cases "layers = []")
    case True
    with r show ?thesis by (simp add: handleStopPiecesOnSourceLayers_def)
  next
    case False
    with r obtain ls f changed m1 where 1: "innerStopPieces env ls i f None m = Inr (changed, m1)"
        and 2: "(if changed = [] then Inr m1 else and_then (sync_next env (currentPartInstance m1) m1)
          (\<lambda>m. Inr (env_updateTimeline env m))) = Inr m'"
      by (auto simp: handleStopPiecesOnSourceLayers_def and_then_Inr split: option.splits if_splits)
    have "keeps_hold m1 m'"
      using 2 by (auto simp: and_then_Inr split: if_splits
          intro: turns_then_keeps [OF keeps_air_keeps_hold [OF sync_next_keeps_air] tl])
    with same_show_keeps_hold [OF innerStopPieces_same [OF 1]] show ?thesis by (rule turns_then_keeps)
  qed
  show "keeps_hold m m'" if r: "handleDisableNextPiece env undo m = Inr m'"
  proof -
    from r obtain i k b where m': "m' = env_updateTimeline env (on_part_instance i (inst_on_piece k (setDisabled b)) m)"
      by (auto simp: handleDisableNextPiece_def Let_def split: option.splits if_splits)
    have "keeps_hold m (on_part_instance i (inst_on_piece k (setDisabled b)) m)" by (rule keeps_hold_on) simp
    then show ?thesis unfolding m' by (rule turns_then_keeps) (rule tl)
  qed
qed

text \<open>Actions and ad-lib testing\<close>

lemma action_turns_hold:
  assumes env: "take_env_ok (job_env env)" and ids: "\<And>k. new_instance_id (action_ids env k) \<noteq> []"
    and r: "executeActionInner env calls m = Inr (jobs, deferred, st)"
  shows "turns_hold (if takeAfterExecute st then hold_step (j, True) else (=)) m (action_model st)"
proof -
  have keeps: "keeps_selection (base_env (job_env env))" and tl: "keeps_hold a (env_updateTimeline (job_env env) a)" for a
    using env by (simp_all add: take_env_ok_def same_show_keeps_hold)
  from r obtain j1 st1 j2 st2 where
      1: "run_calls env 0 calls (new_action_state m) = Inr (j1, st1)" and
      2: "applyActionSideEffects (job_env env) st1 = Inr st2" and
      3: "(if takeAfterExecute st2
       then and_then (of_adlib (of_playout (performTakeToNextedPart (job_env env) (action_model st2))))
              (\<lambda>(jobs, deferred, m). Inr (jobs, deferred, st2\<lparr>action_model := m\<rparr>))
       else Inr ([], None, if currentPartState st2 \<noteq> NoChange \<or> nextPartState st2 \<noteq> NoChange
              then st2\<lparr>action_model := env_updateTimeline (job_env env) (action_model st2)\<rparr> else st2)) = Inr (j2, deferred, st)"
    by (auto simp: executeActionInner_def applyAnyExecutionSideEffects_def and_then_Inr)
  have a: "keeps_air m (action_model st1)"
    using run_calls_keeps_air [OF keeps ids 1] by (simp add: new_action_state_def)
  have b: "keeps_hold m (action_model st2)"
    by (rule keeps_air_keeps_hold) (rule keeps_air_trans [OF a side_effects_keep_air(1) [OF 2]])
  show ?thesis
  proof (cases "takeAfterExecute st2")
    case True
    with 3 obtain j3 d3 m3 where "performTakeToNextedPart (job_env env) (action_model st2) = Inr (j3, d3, m3)"
        "st = st2\<lparr>action_model := m3\<rparr>" by (auto simp: and_then_Inr)
    with True keeps_then_turns [OF b perform_take_step [OF env]] show ?thesis by simp
  next
    case False
    with 3 have "\<not> takeAfterExecute st" "keeps_hold (action_model st2) (action_model st)"
      using tl by (auto split: if_splits)
    with turns_then_keeps [OF b] show ?thesis by simp
  qed
qed

lemma action_job_turns_hold:
  assumes env: "take_env_ok (job_env env)" and ids: "\<And>k. new_instance_id (action_ids env k) \<noteq> []"
    and r: "handleExecuteAdlibAction env calls m = Inr (jobs, queued, took, m')"
  shows "turns_hold (if took then hold_step (j, True) else (=)) m m'"
proof -
  from r obtain rundown j1 deferred st where
      1: "executeActionInner (env\<lparr>action_rundown := rundown\<rparr>) calls m = Inr (j1, deferred, st)" and
      2: "took = takeAfterExecute st" "m' = (if deferred = None then action_model st
         else afterTakeUpdateTimingsAndEvents (job_env env) (take_now (job_env env)) (action_model st))"
    by (auto simp: handleExecuteAdlibAction_def and_then_Inr split: option.splits if_splits)
  have "turns_hold (if took then hold_step (j, True) else (=)) m (action_model st)"
    using action_turns_hold [OF _ _ 1, of j] env ids by (simp add: 2(1))
  moreover have "keeps_hold (action_model st) m'"
    using same_show_keeps_hold [OF afterTakeUpdate_same] by (simp add: 2(2))
  ultimately show ?thesis by (rule turns_then_keeps)
qed

lemma adlib_testing_turns_hold:
  assumes env: "take_env_ok env" and r: "handleActivateAdlibTesting env allow ids s playoutId rd m = Inr (jobs, m')"
  shows "turns_hold (hold_step (j, True)) m m'"
proof -
  from r obtain rundown x rundown' i m1 m2 deferred m3 where
      1: "createAdlibTestingPartInstance (new_instance_id ids) playoutId rundown'
        (adlib_testing_part (new_part_id ids)) (on_rundown rd (\<lambda>_. rundown') m) = Inr (i, m1)" and
      2: "setPartInstanceAsNext (Some i) True False None m1 = Inr m2" and
      3: "performTakeToNextedPart env m2 = Inr (jobs, deferred, m3)" and
      4: "m' = (if deferred = None then m3 else afterTakeUpdateTimingsAndEvents env (take_now env) m3)"
    by (auto simp: handleActivateAdlibTesting_def and_then_Inr split: option.splits if_splits)
  let ?m0 = "on_rundown rd (\<lambda>_. rundown') m"
  have a: "keeps_hold m ?m0" by (rule turns_hold_cong) (simp_all add: on_rundown_def)
  from 1 obtain q where "add_part_instance q ?m0 = (i, m1)"
    by (auto simp: createAdlibTestingPartInstance_def Let_def split: option.splits if_splits)
  then obtain p where p: "m1 = put_part_instance (inst_id (partInstanceImpl p)) (Some p) ?m0"
    by (auto simp only: add_part_instance_def Let_def prod.inject)
  have "keeps_hold ?m0 m1"
    by (auto simp: turns_hold_def p playout_wf_def map_wf_put_part_instance)
  moreover have "keeps_hold m1 m2"
    using 2 by (intro turns_hold_cong) (auto simp: setPartInstanceAsNext_def on_playlist_def split: option.splits)
  ultimately have "keeps_hold m m2" using a by (blast intro: turns_then_keeps)
  from keeps_then_turns [OF this perform_take_step [OF env 3]] have "turns_hold (hold_step (j, True)) m m3" .
  moreover have "keeps_hold m3 m'" using same_show_keeps_hold [OF afterTakeUpdate_same] by (simp add: 4)
  ultimately show ?thesis by (rule turns_then_keeps)
qed

text \<open>Changing what is next\<close>

lemma next_jobs_keep_hold:
  assumes env: "take_env_ok env"
  shows "handleSetNextPart env i manual offset m = Inr (jobs, m') \<Longrightarrow> keeps_hold m m'"
    and "handleMoveNextPart env p s m = Inr (target, jobs, m') \<Longrightarrow> keeps_hold m m'"
    and "handleSetNextSegment env sid m = Inr (k, jobs, m') \<Longrightarrow> keeps_hold m m'"
    and "handleQueueNextSegment env qid m = Inr (q, jobs, m') \<Longrightarrow> keeps_hold m m'"
    and "ensureNextPartIsValid env m = Inr (b, jobs, m') \<Longrightarrow> keeps_hold m m'"
proof -
  have keeps: "keeps_selection (base_env env)" and tl: "keeps_hold a (env_updateTimeline env a)" for a
    using env by (simp_all add: take_env_ok_def same_show_keeps_hold)
  note from_part = from_part_keeps_hold [OF keeps] and queued = queued_segment_keeps_hold
  have set_part: "keeps_hold a c" if "setNextPart (base_env env) (Some (ChoicePart part False)) True None (setQueuedSegment None a) = Inr (js, c)"
    for part a js c by (rule keeps_then_turns [OF queued set_next_keeps_hold [OF keeps _ that]]) blast
  show "keeps_hold m m'" if r: "handleSetNextPart env i manual offset m = Inr (jobs, m')"
    using r turns_then_keeps [OF from_part tl]
    by (auto simp: handleSetNextPart_def and_then_Inr split: option.splits if_splits)
  show "keeps_hold m m'" if r: "handleMoveNextPart env p s m = Inr (target, jobs, m')"
    using r from_part turns_then_keeps [OF from_part tl]
    by (auto simp: handleMoveNextPart_def Let_def and_then_Inr split: option.splits if_splits)
  show "keeps_hold m m'" if r: "handleSetNextSegment env sid m = Inr (k, jobs, m')"
    using r turns_then_keeps [OF set_part tl]
    by (auto simp: handleSetNextSegment_def setNextSegment_def and_then_Inr split: option.splits)
  show "keeps_hold m m'" if r: "handleQueueNextSegment env qid m = Inr (q, jobs, m')"
  proof -
    from r obtain seg q1 j1 m1 where 1: "queueNextSegment (base_env env) seg m = Inr (q1, j1, m1)"
        and m': "m' = env_updateTimeline env m1"
      by (auto simp: handleQueueNextSegment_def and_then_Inr split: option.splits)
    have "keeps_hold m m1"
      using 1 queued set_part by (auto simp: queueNextSegment_def Let_def and_then_Inr split: option.splits if_splits)
    then show ?thesis unfolding m' by (rule turns_then_keeps) (rule tl)
  qed
  show "keeps_hold m m'" if r: "ensureNextPartIsValid env m = Inr (b, jobs, m')"
  proof -
    have "keeps_hold m c" if "setNextPart (base_env env) (next_choice_of (selection_of m)) False None m = Inr (js, c)" for js c
      by (rule set_next_keeps_hold [OF keeps _ that]) (auto simp: next_choice_of_def)
    with r show ?thesis
      unfolding ensureNextPartIsValid_eq Let_def by (auto simp: and_then_Inr split: option.splits if_splits)
  qed
qed

section \<open>The cycle\<close>

lemma ended_Inr [simp]: "ended b f r = Inr (took, m') \<longleftrightarrow> took = b \<and> (\<exists>x. r = Inr x \<and> m' = f x)"
  by (cases r) (auto simp: ended_def)

lemma activate_result:
  assumes "handleActivateHold env m = Inr m'"
  shows "m' = env_updateTimeline env (setHoldState HoldPending m) \<and> no_hold (holdState (playlist m))"
  using assms by (auto simp: handleActivateHold_def Let_def no_hold_def split: if_splits option.splits)

lemma hold_set_then_timeline:
  assumes "take_env_ok env"
  shows "turns_hold (\<lambda>_ h'. h' = Some h) m (env_updateTimeline env (setHoldState h m))"
proof -
  have "turns_hold (\<lambda>_ h'. h' = Some h) m (setHoldState h m)"
    by (rule turns_hold_cong) (simp_all add: setHoldState_def on_playlist_def)
  moreover have "keeps_hold (setHoldState h m) (env_updateTimeline env (setHoldState h m))"
    using assms by (simp add: take_env_ok_def same_show_keeps_hold)
  ultimately show ?thesis by (rule turns_then_keeps)
qed

lemma activation_jobs_turn_hold:
  assumes env: "take_env_ok env"
  shows "handleActivateRundownPlaylist env others reh ids m = Inr (jobs, m') \<Longrightarrow> turns_hold stays_or_off m m'"
    and "handlePrepareRundownPlaylistForBroadcast env others ids m = Inr (jobs, m') \<Longrightarrow> resets_hold m m'"
    and "handleResetRundownPlaylist env allow activate force others fails after ids m = Inr (jobs, m') \<Longrightarrow> resets_hold m m'"
proof -
  obtain r1 r2 r3 where ids: "ids = (r1, r2, r3)" by (cases ids)
  have keeps: "keeps_selection (base_env env)" and tl: "keeps_hold a (env_updateTimeline env a)" for a
    using env by (simp_all add: take_env_ok_def same_show_keeps_hold)
  note reset = reset_resets_hold [OF keeps] and act = activate_hold [OF env]
  have reset_act: "resets_hold a c" if "resets_hold a b" "turns_hold stays_or_off b c" for a b c
    using that unfolding turns_hold_def by metis
  show "turns_hold stays_or_off m m'" if "handleActivateRundownPlaylist env others reh ids m = Inr (jobs, m')"
    using that act by (auto simp: handleActivateRundownPlaylist_def ids split: option.splits)
  show "resets_hold m m'" if "handlePrepareRundownPlaylistForBroadcast env others ids m = Inr (jobs, m')"
    using that reset_act [OF reset act]
    by (auto simp: handlePrepareRundownPlaylistForBroadcast_def ids and_then_Inr split: option.splits if_splits)
  show "resets_hold m m'" if r: "handleResetRundownPlaylist env allow activate force others fails after ids m = Inr (jobs, m')"
  proof -
    from r obtain j1 m1 where 1: "resetRundownPlaylist (base_env env) r1 m = Inr (j1, m1)"
      by (auto simp: handleResetRundownPlaylist_def ids and_then_Inr split: option.splits)
    have "turns_hold stays_or_off m1 m'"
    proof (cases activate)
      case None
      with r 1 have "m' = (if truthy_str (activationId (playlist m1)) then env_updateTimeline env m1 else m1)"
        by (auto simp: handleResetRundownPlaylist_def ids and_then_Inr split: option.splits)
      with tl [of m1] show ?thesis by (auto simp: turns_hold_def)
    next
      case (Some mode)
      with r 1 act show ?thesis by (auto simp: handleResetRundownPlaylist_def ids and_then_Inr split: option.splits)
    qed
    with reset [OF 1] show ?thesis by (rule reset_act)
  qed
qed

text \<open>What is assumed of the surroundings of a job: its callbacks leave the selection alone, new ids are not empty.\<close>

definition show_env_ok :: "action_env \<Rightarrow> bool" where
  "show_env_ok env = (take_env_ok (job_env env) \<and> (\<forall>k. new_instance_id (action_ids env k) \<noteq> []))"

text \<open>The jobs that leave hold alone, and those that may turn it off\<close>

definition leaves_hold :: "show_job \<Rightarrow> bool" where
  "leaves_hold j = (case j of PlaybackStopped _ _ \<Rightarrow> True | SetNextTo _ _ _ \<Rightarrow> True | MoveNext _ _ \<Rightarrow> True
     | SetNextSegment _ \<Rightarrow> True | QueueSegment _ \<Rightarrow> True | UpdateNextAfterIngest \<Rightarrow> True | StartAdLib _ _ _ _ _ \<Rightarrow> True
     | StartStickyPiece _ _ _ \<Rightarrow> True | StopPiecesOnSourceLayers _ _ \<Rightarrow> True | DisableNextPiece _ \<Rightarrow> True
     | TakePieceNow _ _ \<Rightarrow> True | _ \<Rightarrow> False)"

lemma leaving_job:
  assumes ok: "show_env_ok env" and j: "leaves_hold j" and r: "run_show_job env j m = Inr (took, m')"
  shows "\<not> took \<and> keeps_hold m m'"
proof -
  have env: "take_env_ok (job_env env)" and ids: "new_instance_id (action_ids env 0) \<noteq> []"
    using ok by (simp_all add: show_env_ok_def)
  note next_jobs = next_jobs_keep_hold [OF env] and adlib_jobs = adlib_jobs_keep_hold [OF env ids]
  show ?thesis
  proof (cases j)
    case PlaybackStopped
    with r same_show_keeps_hold [OF stopped_report_same] show ?thesis by auto
  next
    case SetNextTo
    with r next_jobs(1) show ?thesis by auto
  next
    case MoveNext
    with r next_jobs(2) show ?thesis by auto
  next
    case SetNextSegment
    with r next_jobs(3) show ?thesis by auto
  next
    case QueueSegment
    with r next_jobs(4) show ?thesis by auto
  next
    case UpdateNextAfterIngest
    with r next_jobs(5) show ?thesis by auto
  next
    case StartAdLib
    with r adlib_jobs(1) show ?thesis by auto
  next
    case StartStickyPiece
    with r adlib_jobs(2) show ?thesis by auto
  next
    case StopPiecesOnSourceLayers
    with r adlib_jobs(3) show ?thesis by auto
  next
    case DisableNextPiece
    with r adlib_jobs(4) show ?thesis by auto
  next
    case TakePieceNow
    with r adlib_jobs(5) show ?thesis by auto
  qed (use j in \<open>simp_all add: leaves_hold_def\<close>)
qed

lemma ending_job:
  assumes ok: "show_env_ok env" and r: "run_show_job env j m = Inr (took, m')"
  shows "starts_over j \<Longrightarrow> \<not> took \<and> resets_hold m m'"
    and "may_end_hold j \<Longrightarrow> \<not> took \<and> turns_hold stays_or_off m m'"
proof -
  have env: "take_env_ok (job_env env)" using ok by (simp add: show_env_ok_def)
  note jobs = activation_jobs_turn_hold [OF env]
  show "\<not> took \<and> resets_hold m m'" if "starts_over j"
  proof (cases j)
    case PrepareForBroadcast
    with r show ?thesis by (auto intro: jobs(2))
  next
    case ResetPlaylist
    with r show ?thesis by (auto intro: jobs(3))
  next
    case DeactivatePlaylist
    with r deactivate_resets_hold [OF env] show ?thesis by auto
  qed (use that in \<open>simp_all add: starts_over_def\<close>)
  show "\<not> took \<and> turns_hold stays_or_off m m'" if "may_end_hold j"
  proof (cases j)
    case ActivatePlaylist
    with r show ?thesis by (auto intro: jobs(1))
  next
    case PlaybackStarted
    with r report_turns_hold [OF env] show ?thesis by auto
  qed (use that in \<open>simp_all add: may_end_hold_def\<close>)
qed

lemma show_job_step:
  assumes ok: "show_env_ok env" and r: "run_show_job env j m = Inr (took, m')"
  shows "turns_hold (hold_step (j, took)) m m'"
proof -
  have env: "take_env_ok (job_env env)" and ids: "\<And>k. new_instance_id (action_ids env k) \<noteq> []"
    using ok by (simp_all add: show_env_ok_def)
  have stay: "turns_hold (hold_step (j, took)) m m'"
    if "\<not> took \<and> keeps_hold m m'" "j \<noteq> ActivateHold" "j \<noteq> DeactivateHold" "\<not> starts_over j"
    by (rule turns_hold_mono [OF conjunct2 [OF that(1)]]) (use that in \<open>simp add: stays\<close>)
  have acted: "turns_hold (hold_step (j, took)) m m'"
    if "turns_hold (if took then hold_step (j, True) else (=)) m m'" "j \<noteq> ActivateHold" "j \<noteq> DeactivateHold" "\<not> starts_over j"
    using that stay by (cases took) simp_all
  consider "leaves_hold j" | "starts_over j" | "may_end_hold j" | "j = ActivateHold" | "j = DeactivateHold"
    | i where "j = TakeNext i" | rundown calls where "j = TakeActionNow rundown calls" | calls where "j = ExecuteAction calls"
    | a s p rd where "j = ActivateAdlibTesting a s p rd"
    by (cases j) (auto simp: leaves_hold_def starts_over_def may_end_hold_def)
  then show ?thesis
  proof cases
    case 1
    then show ?thesis using stay leaving_job [OF ok 1 r] by (auto simp: leaves_hold_def starts_over_def split: show_job.splits)
  next
    case 2
    with ending_job(1) [OF ok r] have "\<not> took" "resets_hold m m'" by simp_all
    then show ?thesis using 2 by (simp add: turns_hold_def hold_off)
  next
    case 3
    with ending_job(2) [OF ok r] have "\<not> took" "turns_hold stays_or_off m m'" by simp_all
    moreover have "j \<noteq> ActivateHold" "j \<noteq> DeactivateHold" "\<not> starts_over j"
      using 3 by (auto simp: may_end_hold_def starts_over_def split: show_job.splits)
    ultimately show ?thesis using 3 by (auto simp: turns_hold_def intro: stays hold_off)
  next
    case 4
    with r have "handleActivateHold (job_env env) m = Inr m'" "took = False" by auto
    with activate_result [OF this(1)] hold_set_then_timeline [OF env, of HoldPending m] 4 show ?thesis
      by (simp add: turns_hold_def hold_step.intros)
  next
    case 5
    with r have "m' = env_updateTimeline (job_env env) (setHoldState HoldNone m)"
        "holdState (playlist m) = Some HoldPending" "took = False"
      by (auto simp: handleDeactivateHold_def split: if_splits)
    with hold_set_then_timeline [OF env, of HoldNone m] 5 show ?thesis
      by (simp add: turns_hold_def hold_step.intros)
  next
    case (6 i)
    with r take_job_step [OF env] show ?thesis by auto
  next
    case (7 rundown calls)
    with r obtain jobs deferred st where
        e: "executeActionInner (env\<lparr>action_rundown := rundown\<rparr>) calls m = Inr (jobs, deferred, st)"
        and st: "took = takeAfterExecute st" "m' = action_model st"
      by (cases "executeActionInner (env\<lparr>action_rundown := rundown\<rparr>) calls m") auto
    from action_turns_hold [OF _ _ e, of j] env ids acted 7 show ?thesis by (simp add: st starts_over_def)
  next
    case (8 calls)
    with r obtain jobs queued where e: "handleExecuteAdlibAction env calls m = Inr (jobs, queued, took, m')"
      by (cases "handleExecuteAdlibAction env calls m") auto
    from action_job_turns_hold [OF env ids e, of j] acted 8 show ?thesis by (simp add: starts_over_def)
  next
    case 9
    with r adlib_testing_turns_hold [OF env] show ?thesis by auto
  qed
qed

text \<open>
  A show is a sequence of jobs, each with its own environment; the model of a job is the one that the job before it
  left. Recorded are the jobs, and which of them took.
\<close>

inductive show_run :: "(show_job \<times> bool) list \<Rightarrow> PlayoutModel \<Rightarrow> PlayoutModel \<Rightarrow> bool" where
  no_job: "show_run [] m m"
| job: "show_run evs m m1 \<Longrightarrow> show_env_ok env \<Longrightarrow> run_show_job env j m1 = Inr (took, m2) \<Longrightarrow>
    show_run (evs @ [(j, took)]) m m2"

inductive hold_path :: "(show_job \<times> bool) list \<Rightarrow> RundownHoldState option \<Rightarrow> RundownHoldState option \<Rightarrow> bool" where
  no_step: "hold_path [] h h"
| step: "hold_path evs h h1 \<Longrightarrow> hold_step e h1 h2 \<Longrightarrow> hold_path (evs @ [e]) h h2"

lemma show_run_path:
  "show_run evs m m' \<Longrightarrow> playout_wf m \<Longrightarrow>
     playout_wf m' \<and> hold_path evs (holdState (playlist m)) (holdState (playlist m'))"
proof (induction rule: show_run.induct)
  case (no_job m)
  then show ?case by (simp add: hold_path.no_step)
next
  case (job evs m m1 env j took m2)
  with show_job_step [OF job.hyps(2,3)] show ?case by (auto simp: turns_hold_def intro: hold_path.step)
qed

definition hold_pending_since :: "(show_job \<times> bool) list \<Rightarrow> bool" where
  \<comment> \<open>hold was activated, and since then neither deactivated nor the show reset or ended\<close>
  "hold_pending_since evs = (\<exists>before after. evs = before @ (ActivateHold, False) # after
     \<and> (\<forall>(j, took)\<in>set after. j \<noteq> DeactivateHold \<and> \<not> starts_over j))"

definition hold_taken :: "(show_job \<times> bool) list \<Rightarrow> bool" where
  \<comment> \<open>a take followed while hold was pending, and since then the show was neither reset nor ended\<close>
  "hold_taken evs = (\<exists>before j after. evs = before @ (j, True) # after \<and> hold_pending_since before
     \<and> (\<forall>(j, took)\<in>set after. \<not> starts_over j))"

lemma hold_pending_since_snoc:
  "hold_pending_since (evs @ [(ActivateHold, False)])"
  "hold_pending_since evs \<Longrightarrow> j \<noteq> DeactivateHold \<Longrightarrow> \<not> starts_over j \<Longrightarrow> hold_pending_since (evs @ [(j, took)])"
  unfolding hold_pending_since_def by fastforce+

lemma hold_taken_snoc:
  "hold_pending_since evs \<Longrightarrow> hold_taken (evs @ [(j, True)])"
  "hold_taken evs \<Longrightarrow> \<not> starts_over j \<Longrightarrow> hold_taken (evs @ [(j, took)])"
  unfolding hold_taken_def by fastforce+

lemma taking_jobs:
  "show_run evs m m' \<Longrightarrow> (j, True) \<in> set evs \<Longrightarrow>
     (\<exists>i. j = TakeNext i) \<or> (\<exists>calls. j = ExecuteAction calls) \<or> (\<exists>r calls. j = TakeActionNow r calls) \<or> (\<exists>a s p r. j = ActivateAdlibTesting a s p r)"
proof (induction rule: show_run.induct)
  case (job evs m m1 env k took m2)
  then show ?case by (cases k) auto
qed simp

lemma taking_job_not_over: "(j, True) \<in> set evs \<Longrightarrow> show_run evs m m' \<Longrightarrow> j \<noteq> DeactivateHold \<and> \<not> starts_over j"
  using taking_jobs by (fastforce simp: starts_over_def)

inductive_cases hold_step_elim: "hold_step e h h'"

lemma hold_path_history:
  assumes "hold_path evs h h'" and "no_hold h"
    and "\<And>j. (j, True) \<in> set evs \<Longrightarrow> j \<noteq> DeactivateHold \<and> \<not> starts_over j"
  shows "(h' = Some HoldPending \<longrightarrow> hold_pending_since evs) \<and> (h' \<in> {Some HoldActive, Some HoldComplete} \<longrightarrow> hold_taken evs)"
  using assms
proof (induction rule: hold_path.induct)
  case (step evs h h1 e h2)
  obtain j took where e: "e = (j, took)" by (cases e)
  have IH: "(h1 = Some HoldPending \<longrightarrow> hold_pending_since evs) \<and> (h1 \<in> {Some HoldActive, Some HoldComplete} \<longrightarrow> hold_taken evs)"
    using step.IH step.prems by auto
  have over: "took \<Longrightarrow> j \<noteq> DeactivateHold \<and> \<not> starts_over j" using step.prems(2) [of j] by (simp add: e)
  from step.hyps(2) show ?case
    by (rule hold_step_elim) (use IH over in \<open>auto simp: e no_hold_def intro: hold_pending_since_snoc hold_taken_snoc\<close>)
qed (auto simp: no_hold_def)

text \<open>
  C8. Whatever jobs of a show run from where hold is off, in any order and with any callbacks that leave the selection
  alone, its hold state follows the cycle of hold. The jobs are those that change hold, what is next or what is on
  air: activation, reset and deactivation of the playlist, hold, takes, reports of the playback, setting the next part
  or segment, an ingest operation's update of the next part, ad-libs, pieces played again and actions. While hold is pending it was activated, and since then neither deactivated nor the show reset or
  ended; while it is active or complete, a take followed that activation, by the take job, by an action or by ad-lib
  testing, and the show was neither reset nor ended since.
\<close>

theorem hold_follows_its_cycle:
  assumes "show_run evs m m'" and "playout_wf m" and "no_hold (holdState (playlist m))"
  shows "hold_path evs (holdState (playlist m)) (holdState (playlist m'))
    \<and> (case holdState (playlist m') of
          Some HoldPending \<Rightarrow> hold_pending_since evs
        | Some HoldActive \<Rightarrow> hold_taken evs
        | Some HoldComplete \<Rightarrow> hold_taken evs
        | _ \<Rightarrow> True)"
proof -
  from show_run_path [OF assms(1,2)]
  have p: "hold_path evs (holdState (playlist m)) (holdState (playlist m'))" ..
  from hold_path_history [OF p assms(3) taking_job_not_over [OF _ assms(1)]] p show ?thesis
    by (simp split: option.split RundownHoldState.split)
qed

text \<open>The show with two parts again: hold is activated and then taken.\<close>

lemma ex_pending_ready: "ex_take_ready (setHoldState HoldPending (ex_taking None None)) 1000"
  by code_simp

lemma ex_activate: "\<not> isl (handleActivateHold (ex_take_env 1000) (ex_taking None None))"
  by code_simp

theorem hold_follows_its_cycle_witness:
  "\<exists>m'. show_run [(ActivateHold, False), (TakeNext (Some ''i1''), True)] (ex_taking None None) m'
    \<and> hold_path [(ActivateHold, False), (TakeNext (Some ''i1''), True)] None (holdState (playlist m'))
    \<and> (case holdState (playlist m') of
          Some HoldPending \<Rightarrow> hold_pending_since [(ActivateHold, False), (TakeNext (Some ''i1''), True)]
        | Some HoldActive \<Rightarrow> hold_taken [(ActivateHold, False), (TakeNext (Some ''i1''), True)]
        | Some HoldComplete \<Rightarrow> hold_taken [(ActivateHold, False), (TakeNext (Some ''i1''), True)]
        | _ \<Rightarrow> True)"
proof -
  let ?env = "ex_take_env 1000" and ?m = "ex_taking None None"
  let ?m1 = "setHoldState HoldPending ?m"
  have je: "job_env ex_action_env = ?env" by (simp add: ex_action_env_def)
  have ok: "show_env_ok ex_action_env"
    using ex_take_env_ok by (simp add: show_env_ok_def ex_action_env_def ex_adlib_ids_def)
  have "env_updateTimeline ?env ?m1 = ?m1" by (simp add: ex_take_env_def)
  then have a: "run_show_job ex_action_env ActivateHold ?m = Inr (False, ?m1)"
    using ex_activate activate_result [of ?env ?m] by (cases "handleActivateHold ?env ?m") (auto simp: je)
  have "holdState (playlist ?m1) \<in> {None, Some HoldPending}" by (simp add: setHoldState_def on_playlist_def)
  from ex_take [OF ex_pending_ready this] obtain jobs m' where
    "handleTakeNextPart ?env (Some ''i1'') ?m1 = Inr (jobs, m')" by blast
  then have t: "run_show_job ex_action_env (TakeNext (Some ''i1'')) ?m1 = Inr (True, m')" by (simp add: je)
  have r: "show_run ([] @ [(ActivateHold, False)] @ [(TakeNext (Some ''i1''), True)]) ?m m'"
    using show_run.job [OF show_run.job [OF show_run.no_job ok a] ok t] by simp
  have n: "no_hold (holdState (playlist ?m))" by (simp add: ex_take_playlist no_hold_def)
  from hold_follows_its_cycle [OF r ex_taking_wf n, unfolded append_Nil append_Cons ex_take_playlist(2)]
  show ?thesis using r [unfolded append_Nil append_Cons] by blast
qed

end
