(* ===== verification/Playback_Timings.thy ===== *)
theory Playback_Timings
  imports Take
begin

text \<open>
  When pieces play: the reports of the playout gateway (\<open>playout/timings/piecePlayback.ts\<close>), the pieces of a
  timeline with their absolute times (\<open>playout/resolvedPieces.ts\<close>), and the concrete times that replace \<open>now\<close>
  when several gateways play one timeline (\<open>playout/timeline/multi-gateway.ts\<close>), in \<open>packages/job-worker/src\<close>.
  A timeline object is what these functions read of it. The objects and their ids are those of the generated
  timeline, which is an argument.
\<close>

section \<open>Reports of pieces\<close>

definition reportPieceHasStarted ::
  "take_env \<Rightarrow> PartInstanceId \<Rightarrow> PieceInstanceId \<Rightarrow> time \<Rightarrow> PlayoutModel \<Rightarrow> PlayoutModel" where
  "reportPieceHasStarted env i k timestamp m =
     (case Option.bind (part_instance_at i m) (getPieceInstance k) of
        None \<Rightarrow> m
      | Some p \<Rightarrow>
         (let started = (\<lambda>p. let p = snd (piece_setReportedStartedPlayback timestamp p)
                in if isMultiGatewayMode env then p else snd (piece_setPlannedStartedPlayback timestamp p));
              (timestampChanged, reported) = piece_setReportedStartedPlayback timestamp p
          in if \<not> timestampChanged then on_part_instance i (put_piece k (Some reported)) m
             else let m = on_part_instance i (put_piece k (Some (started p))) m;
                      m = (case (infinite (PieceInstanceImpl p), nextPartInstance m) of
                          (Some link, Some n) \<Rightarrow>
                            if inst_id (partInstanceImpl n) \<noteq> i
                            then on_part_instance (inst_id (partInstanceImpl n)) (on_pieces (\<lambda>q.
                              if map_option infiniteInstanceId (infinite (PieceInstanceImpl q)) = Some (infiniteInstanceId link)
                              then started q else q)) m
                            else m
                        | _ \<Rightarrow> m)
                  in queuePartInstanceTimingEvent i m))"

definition reportPieceHasStopped ::
  "take_env \<Rightarrow> PartInstanceId \<Rightarrow> PieceInstanceId \<Rightarrow> time \<Rightarrow> PlayoutModel \<Rightarrow> PlayoutModel" where
  "reportPieceHasStopped env i k timestamp m =
     (case Option.bind (part_instance_at i m) (getPieceInstance k) of
        None \<Rightarrow> m
      | Some p \<Rightarrow>
         (let (timestampChanged, q) = piece_setReportedStoppedPlayback timestamp p;
              q = (if timestampChanged \<and> \<not> isMultiGatewayMode env
                   then snd (piece_setPlannedStoppedPlayback (Some timestamp) q) else q);
              m = on_part_instance i (put_piece k (Some q)) m
          in if timestampChanged then queuePartInstanceTimingEvent (pi_partInstanceId (PieceInstanceImpl q)) m else m))"

definition piece_is_playing :: "PlayoutPieceInstanceModel \<Rightarrow> bool" where
  "piece_is_playing p = (truthy_num (pi_reportedStartedPlayback (PieceInstanceImpl p))
     \<and> \<not> truthy_num (pi_reportedStoppedPlayback (PieceInstanceImpl p)))"

definition onPiecePlaybackStarted ::
  "take_env \<Rightarrow> PartInstanceId \<Rightarrow> PieceInstanceId \<Rightarrow> time \<Rightarrow> PlayoutModel \<Rightarrow> playout_error + PlayoutModel" where
  "onPiecePlaybackStarted env i k started m =
     (let inactive = \<not> truthy_str (activationId (playlist m)) in
      case part_instance_at i m of
        None \<Rightarrow> if inactive then Inr m else Inl (PartInstanceNotFound i)
      | Some p \<Rightarrow>
         (case getPieceInstance k p of
            None \<Rightarrow> if inactive then Inr m else Inl (PieceInstanceNotFound i)
          | Some q \<Rightarrow> Inr (if piece_is_playing q then m else reportPieceHasStarted env i k started m)))"

definition onPiecePlaybackStopped ::
  "take_env \<Rightarrow> PartInstanceId \<Rightarrow> PieceInstanceId \<Rightarrow> time \<Rightarrow> PlayoutModel \<Rightarrow> playout_error + PlayoutModel" where
  "onPiecePlaybackStopped env i k stopped m =
     (case part_instance_at i m of
        None \<Rightarrow> Inr m
      | Some p \<Rightarrow>
         (case getPieceInstance k p of
            None \<Rightarrow> if \<not> truthy_str (activationId (playlist m)) then Inr m else Inl (PieceInstanceNotFound i)
          | Some q \<Rightarrow> Inr (if piece_is_playing q then reportPieceHasStopped env i k stopped m else m)))"

section \<open>Pieces with absolute times\<close>

record SelectedPartInstanceTimelineInfo =
  ti_nowInPart :: time
  ti_partStarted :: "time option"
  ti_partInstance :: DBPartInstance
  ti_pieceInstances :: "PieceInstanceWithTimings list"

definition offsetResolvedStartAndCapDuration ::
  "time \<Rightarrow> time option \<Rightarrow> ResolvedPieceInstance \<Rightarrow> ResolvedPieceInstance" where
  "offsetResolvedStartAndCapDuration partStarted endCap r =
     (let r = r\<lparr>resolvedStart := resolvedStart r + partStarted\<rparr>
      in case endCap of
           None \<Rightarrow> r
         | Some cap \<Rightarrow>
             (let partEndCap = cap - resolvedStart r
              in r\<lparr>resolvedDuration := Some (case resolvedDuration r of
                   None \<Rightarrow> partEndCap | Some d \<Rightarrow> min d partEndCap)\<rparr>))"

definition infinite_id_of :: "ResolvedPieceInstance \<Rightarrow> string option" where
  "infinite_id_of r = map_option infiniteInstanceId (infinite (pwt_instance (res_instance r)))"

text \<open>
  The map from the ids of infinites to the resolved pieces of the current part has references: it gives the index
  of the last piece with the id, and a change of the piece is a change in the list.
\<close>

definition continuing_infinite :: "ResolvedPieceInstance list \<Rightarrow> ResolvedPieceInstance \<Rightarrow> nat option" where
  "continuing_infinite currents r =
     (case infinite_id_of r of
        None \<Rightarrow> None
      | Some i \<Rightarrow> find (\<lambda>n. infinite_id_of (currents ! n) = Some i) (rev [0..<length currents]))"

fun merge_infinites ::
  "(ResolvedPieceInstance \<Rightarrow> ResolvedPieceInstance \<Rightarrow> ResolvedPieceInstance) \<Rightarrow> ResolvedPieceInstance list
   \<Rightarrow> ResolvedPieceInstance list \<Rightarrow> ResolvedPieceInstance list \<times> ResolvedPieceInstance list" where
  \<comment> \<open>the current pieces after the merge, and the pieces that do not continue into one of them\<close>
  "merge_infinites change currents [] = (currents, [])"
| "merge_infinites change currents (r # rs) =
     (case continuing_infinite currents r of
        Some n \<Rightarrow> merge_infinites change (currents[n := change r (currents ! n)]) rs
      | None \<Rightarrow> map_prod id (\<lambda>others. r # others) (merge_infinites change currents rs))"

definition extend_back :: "ResolvedPieceInstance \<Rightarrow> ResolvedPieceInstance \<Rightarrow> ResolvedPieceInstance" where
  "extend_back earlier r =
     r\<lparr>resolvedDuration := map_option (\<lambda>d. d + (resolvedStart r - resolvedStart earlier)) (resolvedDuration r),
       resolvedStart := resolvedStart earlier\<rparr>"

definition extend_forward :: "ResolvedPieceInstance \<Rightarrow> ResolvedPieceInstance \<Rightarrow> ResolvedPieceInstance" where
  "extend_forward later r =
     r\<lparr>resolvedDuration := map_option (\<lambda>d. d + resolvedStart later - resolvedStart r) (resolvedDuration later)\<rparr>"

definition mergeInfinitesIntoCurrentPart ::
  "ResolvedPieceInstance list \<Rightarrow> ResolvedPieceInstance list \<Rightarrow> ResolvedPieceInstance list \<Rightarrow> ResolvedPieceInstance list" where
  "mergeInfinitesIntoCurrentPart previous currents nexts =
     (let (currents, before) = merge_infinites extend_back currents previous;
          (currents, after) = merge_infinites extend_forward currents nexts
      in currents @ before @ after)"

definition resolve_part ::
  "SelectedPartInstanceTimelineInfo \<Rightarrow> time \<Rightarrow> time option \<Rightarrow> ResolvedPieceInstance list" where
  "resolve_part info started endCap =
     map (\<lambda>p. offsetResolvedStartAndCapDuration started endCap (resolvePrunedPieceInstance (ti_nowInPart info) p))
       (ti_pieceInstances info)"

definition getResolvedPiecesForPartInstancesOnTimeline ::
  "SelectedPartInstanceTimelineInfo option \<Rightarrow> SelectedPartInstanceTimelineInfo option
   \<Rightarrow> SelectedPartInstanceTimelineInfo option \<Rightarrow> time \<Rightarrow> ResolvedPieceInstance list" where
  \<comment> \<open>of the previous, current and next part instance\<close>
  "getResolvedPiecesForPartInstancesOnTimeline prev cur nxt now =
     (case cur of
        None \<Rightarrow> []
      | Some c \<Rightarrow>
         (let part = inst_part (ti_partInstance c);
              currentPartStarted = nullish (ti_partStarted c) now;
              nextPartStarted = (if truthy_num (expectedDuration part) \<and> autoNext part
                then Some (currentPartStarted + the (expectedDuration part)) else None)
          in mergeInfinitesIntoCurrentPart
               (case prev of
                  None \<Rightarrow> []
                | Some p \<Rightarrow> if truthy_num (ti_partStarted p)
                    then resolve_part p (the (ti_partStarted p)) (Some currentPartStarted) else [])
               (resolve_part c currentPartStarted nextPartStarted)
               (case (nxt, nextPartStarted) of
                  (Some n, Some started) \<Rightarrow> resolve_part n started None
                | _ \<Rightarrow> [])))"

section \<open>Concrete times on the timeline\<close>

text \<open>
  The start and the end of an \<open>enable\<close>: a number, \<open>now\<close>, or another expression. What else an \<open>enable\<close> may hold is
  one value, and goes when the object gets a new \<open>enable\<close>. An object that has an array of them is left alone.
\<close>

datatype tl_time = TlAt time | TlNow | TlExpr string

record tl_enable =
  tl_start :: "tl_time option"
  tl_end :: "tl_time option"
  tl_other :: "string option"

datatype tl_enables = OneEnable tl_enable | ManyEnables "tl_enable list"

record timeline_obj =
  tl_enables :: tl_enables
  inGroup :: "string option"
  isPieceTimeline :: bool

type_synonym timeline_objs = "(string, timeline_obj) js_map"

text \<open>
  The groups of the parts, by id. The object of a group on the timeline shares its \<open>enable\<close> with the group, as long
  as the blueprint gives the objects back: a change of the group is a change of the object. The value of
  \<open>groups_shared\<close> says whether it did.
\<close>

record RundownTimelineTimingContext =
  currentPartGroup :: string
  currentPartDuration :: "int option"
  previousPartOverlap :: "int option"
  nextPartGroup :: "string option"
  nextPartOverlap :: "int option"
  groups_shared :: bool

record PartGroupTimings =
  currentStartTime :: time
  currentEndTime :: "time option"
  nextStartTime :: "time option"

definition getPartGroupId :: "string \<Rightarrow> string" where
  "getPartGroupId i = ''part_group_'' @ i"

definition getPieceControlObjectId :: "PieceInstanceId \<Rightarrow> string" where
  "getPieceControlObjectId i = ''piece_group_control_'' @ i"

definition getInfinitePartGroupId :: "PieceInstanceId \<Rightarrow> string" where
  "getInfinitePartGroupId i = getPartGroupId i @ ''_infinite''"

definition on_enable :: "string \<Rightarrow> (tl_enable \<Rightarrow> tl_enable) \<Rightarrow> timeline_objs \<Rightarrow> timeline_objs" where
  \<comment> \<open>a change of the one \<open>enable\<close> of an object, when there is such an object\<close>
  "on_enable i f objs =
     (case map_get objs i of
        None \<Rightarrow> objs
      | Some obj \<Rightarrow> (case tl_enables obj of
            OneEnable e \<Rightarrow> map_set i (obj\<lparr>tl_enables := OneEnable (f e)\<rparr>) objs
          | ManyEnables _ \<Rightarrow> objs))"

definition set_group_start ::
  "RundownTimelineTimingContext \<Rightarrow> string \<Rightarrow> time \<Rightarrow> timeline_objs \<Rightarrow> timeline_objs" where
  "set_group_start ctx g t objs =
     (if groups_shared ctx then on_enable g (\<lambda>e. e\<lparr>tl_start := Some (TlAt t)\<rparr>) objs else objs)"

definition updatePartInstancePlannedTimes ::
  "time \<Rightarrow> RundownTimelineTimingContext \<Rightarrow> PartInstanceId option \<Rightarrow> PlayoutPartInstanceModel \<Rightarrow> PartInstanceId option
   \<Rightarrow> timeline_objs \<times> PlayoutModel \<Rightarrow> PartGroupTimings \<times> timeline_objs \<times> PlayoutModel" where
  "updatePartInstancePlannedTimes targetNowTime ctx prev current nxt = (\<lambda>(objs, m).
     let i = inst_id (partInstanceImpl current);
         planned = planned_start (partInstanceImpl current);
         start = (if truthy_num planned then the planned else targetNowTime);
         (objs, m) = (if truthy_num planned then (objs, m)
            else (set_group_start ctx (currentPartGroup ctx) targetNowTime objs,
                  on_part_instance i (inst_setPlannedStartedPlayback (Some targetNowTime)) m));
         m = (case prev of
             None \<Rightarrow> m
           | Some p \<Rightarrow> on_part_instance p
               (inst_setPlannedStoppedPlayback (Some (start + nullish (previousPartOverlap ctx) 0))) m);
         currentEnd = (if truthy_num (currentPartDuration ctx) then Some (start + the (currentPartDuration ctx)) else None)
     in case (nxt, nextPartGroup ctx) of
          (Some n, Some g) \<Rightarrow>
            if truthy_num currentEnd
            then let nextStart = the currentEnd - nullish (nextPartOverlap ctx) 0
                 in (\<lparr>currentStartTime = start, currentEndTime = currentEnd, nextStartTime = Some nextStart\<rparr>,
                     set_group_start ctx g nextStart objs,
                     on_part_instance n (inst_setPlannedStartedPlayback (Some nextStart)) m)
            else (\<lparr>currentStartTime = start, currentEndTime = currentEnd, nextStartTime = None\<rparr>, objs,
                  on_part_instance n (inst_setPlannedStartedPlayback None) m)
        | (Some n, None) \<Rightarrow>
            (\<lparr>currentStartTime = start, currentEndTime = currentEnd, nextStartTime = None\<rparr>, objs,
             on_part_instance n (inst_setPlannedStartedPlayback None) m)
        | (None, _) \<Rightarrow>
            (\<lparr>currentStartTime = start, currentEndTime = currentEnd, nextStartTime = None\<rparr>, objs, m))"

text \<open>Pieces and objects that start now get concrete starts, and pieces that end now concrete ends.\<close>

definition start_piece :: "time \<Rightarrow> PlayoutPieceInstanceModel \<Rightarrow> PlayoutPieceInstanceModel" where
  "start_piece nowInPart p =
     (if en_start (enable (pi_piece (PieceInstanceImpl p))) = Now
      then updatePieceProps (\<lambda>piece. piece\<lparr>enable := (enable piece)\<lparr>en_start := At nowInPart\<rparr>\<rparr>) p else p)"

definition starts_now :: "timeline_obj \<Rightarrow> bool" where
  "starts_now obj = (case tl_enables obj of OneEnable e \<Rightarrow> tl_start e = Some TlNow | ManyEnables _ \<Rightarrow> False)"

definition enable_at :: "time \<Rightarrow> timeline_obj \<Rightarrow> timeline_obj" where
  "enable_at t obj = obj\<lparr>tl_enables := OneEnable \<lparr>tl_start = Some (TlAt t), tl_end = None, tl_other = None\<rparr>\<rparr>"

definition start_obj :: "time \<Rightarrow> time \<Rightarrow> string \<Rightarrow> timeline_obj \<Rightarrow> timeline_obj" where
  "start_obj targetNowTime nowInPart g obj =
     (if isPieceTimeline obj \<and> starts_now obj
      then if inGroup obj = Some g then enable_at nowInPart obj
           else if \<not> truthy_str (inGroup obj) then enable_at targetNowTime obj else obj
      else obj)"

definition end_piece :: "time \<Rightarrow> PlayoutPieceInstanceModel \<Rightarrow> PlayoutPieceInstanceModel" where
  "end_piece nowInPart p =
     (case userDuration (PieceInstanceImpl p) of
        Some (EndRelativeToNow relativeToNow) \<Rightarrow> setDuration (EndRelativeToPart (relativeToNow + nowInPart)) p
      | _ \<Rightarrow> p)"

definition end_now :: "time \<Rightarrow> tl_enable \<Rightarrow> tl_enable" where
  "end_now t e = (if tl_end e = Some TlNow then e\<lparr>tl_end := Some (TlAt t)\<rparr> else e)"

definition end_objs :: "time \<Rightarrow> time \<Rightarrow> PieceInstance \<Rightarrow> timeline_objs \<Rightarrow> timeline_objs" where
  "end_objs targetNowTime nowInPart p objs =
     (case userDuration p of
        Some (EndRelativeToNow relativeToNow) \<Rightarrow>
          on_enable (getInfinitePartGroupId (pi_id p)) (end_now (targetNowTime + relativeToNow))
            (on_enable (getPieceControlObjectId (pi_id p)) (end_now (relativeToNow + nowInPart)) objs)
      | _ \<Rightarrow> objs)"

definition deNowifyCurrentPieces ::
  "time \<Rightarrow> RundownTimelineTimingContext \<Rightarrow> PlayoutPartInstanceModel \<Rightarrow> time \<Rightarrow> timeline_objs \<times> PlayoutModel
   \<Rightarrow> string list \<times> timeline_objs \<times> PlayoutModel" where
  \<comment> \<open>with the ids of \<open>objectsNotDeNowified\<close>\<close>
  "deNowifyCurrentPieces targetNowTime ctx current start = (\<lambda>(objs, m).
     let nowInPart = targetNowTime - start;
         i = inst_id (partInstanceImpl current);
         m = on_part_instance i (on_pieces (start_piece nowInPart)) m;
         objs = map (\<lambda>(k, obj). (k, start_obj targetNowTime nowInPart (currentPartGroup ctx) obj)) objs;
         notDone = map fst (filter (\<lambda>(k, obj). isPieceTimeline obj \<and> starts_now obj) objs);
         ps = (case part_instance_at i m of None \<Rightarrow> [] | Some p \<Rightarrow> live_pieces p)
     in (notDone, fold (end_objs targetNowTime nowInPart) ps objs,
         on_part_instance i (on_pieces (end_piece nowInPart)) m))"

text \<open>
  The planned times of the piece instances. The user's duration of a piece ends relative to the part; the code takes
  it for the planned end, which is an absolute time like the others.
\<close>

definition setPlannedTimingsOnPieceInstance ::
  "time \<Rightarrow> time option \<Rightarrow> PlayoutPieceInstanceModel \<Rightarrow> PlayoutPieceInstanceModel" where
  "setPlannedTimingsOnPieceInstance partPlannedStart partPlannedEnd p =
     (let d = PieceInstanceImpl p in
      if (case infinite d of None \<Rightarrow> False | Some link \<Rightarrow> 0 < infiniteInstanceIndex link)
         \<and> truthy_num (pi_plannedStartedPlayback d)
      then p
      else case en_start (enable (pi_piece d)) of
             Now \<Rightarrow> p
           | At s \<Rightarrow>
               (let plannedStart = partPlannedStart + s;
                    duration = en_duration (enable (pi_piece d));
                    plannedEnd = (case userDuration d of
                        Some (EndRelativeToPart e) \<Rightarrow> Some e
                      | _ \<Rightarrow> if truthy_num duration then Some (plannedStart + the duration) else partPlannedEnd)
                in snd (piece_setPlannedStoppedPlayback plannedEnd (snd (piece_setPlannedStartedPlayback plannedStart p)))))"

definition start_expression :: "time \<Rightarrow> tl_enable \<Rightarrow> tl_enable" where
  \<comment> \<open>the start of a group of an infinite, when it is a string\<close>
  "start_expression t e = (case tl_start e of
     Some TlNow \<Rightarrow> e\<lparr>tl_start := Some (TlAt t)\<rparr> | Some (TlExpr _) \<Rightarrow> e\<lparr>tl_start := Some (TlAt t)\<rparr> | _ \<Rightarrow> e)"

definition preserveOrTrackInfiniteTimings ::
  "PlayoutPieceInstanceModel \<Rightarrow> (string, time) js_map \<times> timeline_objs
   \<Rightarrow> PlayoutPieceInstanceModel \<times> (string, time) js_map \<times> timeline_objs" where
  "preserveOrTrackInfiniteTimings p = (\<lambda>(existing, objs).
     case infinite (PieceInstanceImpl p) of
       None \<Rightarrow> (p, existing, objs)
     | Some link \<Rightarrow>
        (let found = map_get existing (infiniteInstanceId link);
             planned = pi_plannedStartedPlayback (PieceInstanceImpl p);
             q = (if truthy_num found then snd (piece_setPlannedStartedPlayback (the found) p) else p);
             existing = (if \<not> truthy_num found \<and> truthy_num planned
               then map_set (infiniteInstanceId link) (the planned) existing else existing);
             startedAt = (if found \<noteq> None then found else planned)
         in (q, existing, if truthy_num startedAt
               then on_enable (getInfinitePartGroupId (pi_id (PieceInstanceImpl p))) (start_expression (the startedAt)) objs
               else objs)))"

definition time_piece ::
  "PartInstanceId \<Rightarrow> time \<Rightarrow> time option \<Rightarrow> PieceInstanceId \<Rightarrow> (string, time) js_map \<times> timeline_objs \<times> PlayoutModel
   \<Rightarrow> (string, time) js_map \<times> timeline_objs \<times> PlayoutModel" where
  "time_piece i start end k = (\<lambda>(existing, objs, m).
     case Option.bind (part_instance_at i m) (getPieceInstance k) of
       None \<Rightarrow> (existing, objs, m)
     | Some p \<Rightarrow>
        (let (q, existing, objs) = preserveOrTrackInfiniteTimings (setPlannedTimingsOnPieceInstance start end p) (existing, objs)
         in (existing, objs, on_part_instance i (put_piece k (Some q)) m)))"

definition infinite_starts :: "PieceInstance list \<Rightarrow> (string, time) js_map" where
  "infinite_starts ps = fold (\<lambda>p existing.
     case (infinite p, pi_plannedStartedPlayback p) of
       (Some link, Some t) \<Rightarrow> if t \<noteq> 0 then map_set (infiniteInstanceId link) t existing else existing
     | _ \<Rightarrow> existing) ps []"

definition updatePlannedTimingsForPieceInstances ::
  "PartInstanceId option \<Rightarrow> PartInstanceId \<Rightarrow> PartInstanceId option \<Rightarrow> PartGroupTimings \<Rightarrow> timeline_objs \<times> PlayoutModel
   \<Rightarrow> timeline_objs \<times> PlayoutModel" where
  \<comment> \<open>of the previous, current and next part instance\<close>
  "updatePlannedTimingsForPieceInstances prev i nxt timings = (\<lambda>(objs, m).
     let pieces_of = (\<lambda>i m. case part_instance_at i m of None \<Rightarrow> [] | Some p \<Rightarrow> live_pieces p);
         existing = infinite_starts (case prev of None \<Rightarrow> [] | Some p \<Rightarrow> pieces_of p m);
         st = fold (time_piece i (currentStartTime timings) (currentEndTime timings)) (map pi_id (pieces_of i m)) (existing, objs, m)
     in snd (case nxt of
          None \<Rightarrow> st
        | Some n \<Rightarrow>
            if truthy_num (nextStartTime timings)
            then fold (time_piece n (the (nextStartTime timings)) None) (map pi_id (pieces_of n (snd (snd st)))) st
            else st))"

text \<open>
  The absolute start of an object follows the groups that it is in. Groups that contain each other would make the
  code recurse without end; the value is \<open>None\<close> then, and \<open>Some None\<close> when there is no absolute start.
\<close>

definition own_start :: "timeline_obj \<Rightarrow> time option" where
  "own_start obj = (case tl_enables obj of
     ManyEnables _ \<Rightarrow> None
   | OneEnable e \<Rightarrow> (case tl_start e of Some (TlAt t) \<Rightarrow> Some t | _ \<Rightarrow> None))"

definition parent_of :: "timeline_objs \<Rightarrow> timeline_obj \<Rightarrow> timeline_obj option" where
  "parent_of objs obj = Option.bind (inGroup obj) (map_get objs)"

partial_function (option) getStartTime :: "timeline_objs \<Rightarrow> timeline_obj \<Rightarrow> time option option" where
  "getStartTime objs obj =
     (if \<not> truthy_str (inGroup obj) then Some (own_start obj)
      else case own_start obj of
        None \<Rightarrow> Some None
      | Some myStart \<Rightarrow>
         (case parent_of objs obj of
            None \<Rightarrow> Some None
          | Some parent \<Rightarrow>
              Option.bind (getStartTime objs parent) (\<lambda>parentStart. Some (map_option (\<lambda>s. s + myStart) parentStart))))"

declare getStartTime.simps [code]

definition deNowifyInfinite :: "time \<Rightarrow> string \<Rightarrow> timeline_objs \<Rightarrow> timeline_objs option" where
  "deNowifyInfinite targetNowTime k objs =
     (case map_get objs k of
        None \<Rightarrow> Some objs
      | Some obj \<Rightarrow>
          if \<not> starts_now obj then Some objs
          else if \<not> truthy_str (inGroup obj) then Some (map_set k (enable_at targetNowTime obj) objs)
          else (case parent_of objs obj of
                 None \<Rightarrow> Some objs
               | Some parent \<Rightarrow> Option.bind (getStartTime objs parent) (\<lambda>parentStart. Some (case parentStart of
                   None \<Rightarrow> objs
                 | Some s \<Rightarrow> map_set k (enable_at (targetNowTime - s) obj) objs))))"

fun deNowifyInfinites :: "time \<Rightarrow> string list \<Rightarrow> timeline_objs \<Rightarrow> timeline_objs option" where
  "deNowifyInfinites targetNowTime [] objs = Some objs"
| "deNowifyInfinites targetNowTime (k # ks) objs =
     Option.bind (deNowifyInfinite targetNowTime k objs) (deNowifyInfinites targetNowTime ks)"

definition deNowifyMultiGatewayTimeline ::
  "take_env \<Rightarrow> (string \<times> timeline_obj) list \<Rightarrow> RundownTimelineTimingContext option \<Rightarrow> PlayoutModel
   \<Rightarrow> (timeline_objs \<times> PlayoutModel) option" where
  \<comment> \<open>the objects come with their ids; a later one takes the place of an earlier one of the same id\<close>
  "deNowifyMultiGatewayTimeline env timelineObjs timingContext m =
     (let objs = fold (\<lambda>(k, obj). map_set k obj) timelineObjs [] in
      case (timingContext, currentPartInstance m) of
        (Some ctx, Some current) \<Rightarrow>
          (let targetNowTime = take_now env + nullish (calculateNowOffsetLatency env) 0;
               id_of = map_option (\<lambda>p. inst_id (partInstanceImpl p));
               prev = id_of (previousPartInstance m); nxt = id_of (nextPartInstance m);
               i = inst_id (partInstanceImpl current);
               (timings, objs, m) = updatePartInstancePlannedTimes targetNowTime ctx prev current nxt (objs, m);
               (notDone, objs, m) = deNowifyCurrentPieces targetNowTime ctx current (currentStartTime timings) (objs, m);
               (objs, m) = updatePlannedTimingsForPieceInstances prev i nxt timings (objs, m)
           in Option.bind (deNowifyInfinites targetNowTime notDone objs) (\<lambda>objs. Some (objs, m)))
      | _ \<Rightarrow> Some (objs, m))"

end
