(* ===== verification/Playback_Facts.thy ===== *)
theory Playback_Facts
  imports Playback_Timings Take_Facts
begin

text \<open>
  What the times of pieces are after they were resolved or made concrete: an infinite that spans parts is one piece
  from its first start to its last end, and a timeline for several gateways has no piece left that starts or ends
  now. Following the groups of the timeline ends when no group contains itself.
\<close>

section \<open>Infinites over several parts\<close>

definition resolved_end :: "ResolvedPieceInstance \<Rightarrow> time option" where
  "resolved_end r = map_option (\<lambda>d. resolvedStart r + d) (resolvedDuration r)"

definition one_per_infinite :: "ResolvedPieceInstance list \<Rightarrow> bool" where
  "one_per_infinite rs = distinct (filter (\<lambda>i. i \<noteq> None) (map infinite_id_of rs))"

lemma extended_id [simp]:
  "infinite_id_of (extend_back p r) = infinite_id_of r" "infinite_id_of (extend_forward p r) = infinite_id_of r"
  by (simp_all add: infinite_id_of_def extend_back_def extend_forward_def)

lemma extended_times [simp]:
  "resolvedStart (extend_back p r) = resolvedStart p" "resolved_end (extend_back p r) = resolved_end r"
  "resolvedStart (extend_forward p r) = resolvedStart r" "resolved_end (extend_forward p r) = resolved_end p"
  by (simp_all add: extend_back_def extend_forward_def resolved_end_def option.map_comp comp_def add.commute)

lemma distinct_filter_nth:
  "distinct (filter P xs) \<Longrightarrow> a < length xs \<Longrightarrow> b < length xs \<Longrightarrow> xs ! a = xs ! b \<Longrightarrow> P (xs ! a) \<Longrightarrow> a = b"
proof (induction xs arbitrary: a b)
  case (Cons x xs)
  have "distinct (filter P xs)" using Cons.prems(1) by (simp split: if_splits)
  note IH = Cons.IH [OF this]
  show ?case
  proof (cases a; cases b)
    fix n assume "a = 0" "b = Suc n"
    with Cons.prems have "x \<in> set (filter P xs)" "P x" by auto
    with Cons.prems(1) show ?thesis by simp
  next
    fix n assume "a = Suc n" "b = 0"
    with Cons.prems have "x \<in> set (filter P xs)" "P x" by auto
    with Cons.prems(1) show ?thesis by simp
  qed (use IH Cons.prems in auto)
qed simp

lemma one_per_infinite_nth:
  assumes "one_per_infinite rs" "a < length rs" "b < length rs" "infinite_id_of (rs ! a) = Some i"
    "infinite_id_of (rs ! b) = Some i"
  shows "a = b"
  using assms distinct_filter_nth [of "\<lambda>i. i \<noteq> None" "map infinite_id_of rs" a b] by (simp add: one_per_infinite_def)

lemma continuing_infinite_iff:
  assumes "one_per_infinite rs" "n < length rs" "infinite_id_of (rs ! n) = Some i"
  shows "continuing_infinite rs r = Some n \<longleftrightarrow> infinite_id_of r = Some i"
proof (cases "infinite_id_of r")
  case None
  then show ?thesis by (simp add: continuing_infinite_def)
next
  case (Some j)
  have "continuing_infinite rs r = Some n" if j: "j = i"
  proof (cases "continuing_infinite rs r")
    case None
    with j Some assms(2,3) show ?thesis by (auto simp: continuing_infinite_def find_None_iff)
  next
    case (Some k)
    then have "k < length rs" "infinite_id_of (rs ! k) = Some j"
      using \<open>infinite_id_of r = Some j\<close> by (auto simp: continuing_infinite_def find_Some_iff rev_nth)
    with j one_per_infinite_nth [OF assms(1) _ assms(2) _ assms(3)] Some show ?thesis by auto
  qed
  moreover have "j = i" if "continuing_infinite rs r = Some n"
    using that Some assms(2,3) by (auto simp: continuing_infinite_def find_Some_iff)
  ultimately show ?thesis using Some by auto
qed

lemma update_ids:
  assumes "\<And>r c. infinite_id_of (change r c) = infinite_id_of c"
  shows "map infinite_id_of (cs[k := change r (cs ! k)]) = map infinite_id_of cs"
  by (cases "k < length cs") (auto intro!: nth_equalityI simp: nth_list_update assms)

lemma same_ids:
  assumes ids: "map infinite_id_of xs = map infinite_id_of ys"
    and "one_per_infinite ys" "n < length ys" "infinite_id_of (ys ! n) = x"
  shows "one_per_infinite xs" "n < length xs" "infinite_id_of (xs ! n) = x"
proof -
  have len: "length xs = length ys" using arg_cong [OF ids, of length] by simp
  show "one_per_infinite xs" "n < length xs" using assms len by (simp_all add: one_per_infinite_def)
  show "infinite_id_of (xs ! n) = x" using arg_cong [OF ids, of "\<lambda>l. l ! n"] assms(3,4) len by simp
qed

lemma merge_infinites_nth:
  assumes "\<And>r c. infinite_id_of (change r c) = infinite_id_of c"
  shows "one_per_infinite cs \<Longrightarrow> n < length cs \<Longrightarrow> infinite_id_of (cs ! n) = Some i \<Longrightarrow>
    length (fst (merge_infinites change cs rs)) = length cs
    \<and> map infinite_id_of (fst (merge_infinites change cs rs)) = map infinite_id_of cs
    \<and> fst (merge_infinites change cs rs) ! n = fold change (filter (\<lambda>r. infinite_id_of r = Some i) rs) (cs ! n)"
proof (induction rs arbitrary: cs)
  case (Cons r rs)
  show ?case
  proof (cases "continuing_infinite cs r")
    case None
    then have "infinite_id_of r \<noteq> Some i" using continuing_infinite_iff [OF Cons.prems, of r] by simp
    with None Cons.IH [OF Cons.prems] show ?thesis by simp
  next
    case (Some k)
    let ?cs = "cs[k := change r (cs ! k)]"
    have ids: "map infinite_id_of ?cs = map infinite_id_of cs" by (rule update_ids [OF assms])
    note n = same_ids [OF ids Cons.prems(1-3)]
    have "k = n \<longleftrightarrow> infinite_id_of r = Some i"
      using continuing_infinite_iff [OF Cons.prems, of r] Some by auto
    with Some Cons.IH [OF n] ids Cons.prems(2) show ?thesis by (auto simp: nth_list_update)
  qed
qed simp

lemma merge_infinites_others:
  assumes "\<And>r c. infinite_id_of (change r c) = infinite_id_of c"
  shows "one_per_infinite cs \<Longrightarrow> n < length cs \<Longrightarrow> infinite_id_of (cs ! n) = Some i \<Longrightarrow>
    r \<in> set (snd (merge_infinites change cs rs)) \<Longrightarrow> infinite_id_of r \<noteq> Some i"
proof (induction rs arbitrary: cs)
  case (Cons x rs)
  show ?case
  proof (cases "continuing_infinite cs x")
    case None
    then have "infinite_id_of x \<noteq> Some i" using continuing_infinite_iff [OF Cons.prems(1-3), of x] by simp
    with None Cons.IH [OF Cons.prems(1-3)] Cons.prems(4) show ?thesis by auto
  next
    case (Some k)
    let ?cs = "cs[k := change x (cs ! k)]"
    have ids: "map infinite_id_of ?cs = map infinite_id_of cs" by (rule update_ids [OF assms])
    note n = same_ids [OF ids Cons.prems(1-3)]
    from Cons.IH [OF n] Cons.prems(4) Some show ?thesis by simp
  qed
qed simp

lemma one_per_infinite_filter:
  "one_per_infinite rs \<Longrightarrow> filter (\<lambda>r. infinite_id_of r = Some i) rs =
     (case find (\<lambda>r. infinite_id_of r = Some i) rs of None \<Rightarrow> [] | Some r \<Rightarrow> [r])"
proof (induction rs)
  case (Cons r rs)
  have rs: "one_per_infinite rs" using Cons.prems by (simp add: one_per_infinite_def split: if_splits)
  show ?case
  proof (cases "infinite_id_of r = Some i")
    case True
    with Cons.prems have "Some i \<notin> infinite_id_of ` set rs" by (auto simp: one_per_infinite_def)
    then have "filter (\<lambda>r. infinite_id_of r = Some i) rs = []" by (force simp: filter_empty_conv)
    with True show ?thesis by simp
  qed (use Cons.IH rs in simp)
qed simp

text \<open>
  C27. An infinite of the part on air that was playing in the previous part, or goes on in the next one, is one
  resolved piece: it starts where it started in the previous part and ends where it ends in the next one, and no
  other piece is left for it.
\<close>

theorem merged_infinite_spans_parts:
  assumes "one_per_infinite previous" and cs: "one_per_infinite currents" and "one_per_infinite nexts"
    and n: "n < length currents" and i: "infinite_id_of (currents ! n) = Some i"
  shows "let merged = mergeInfinitesIntoCurrentPart previous currents nexts; is_i = (\<lambda>r. infinite_id_of r = Some i) in
    resolvedStart (merged ! n) = resolvedStart (nullish (find is_i previous) (currents ! n))
    \<and> resolved_end (merged ! n) = resolved_end (nullish (find is_i nexts) (currents ! n))
    \<and> filter is_i merged = [merged ! n]"
proof -
  let ?is = "\<lambda>r. infinite_id_of r = Some i"
  define c1 where "c1 = fst (merge_infinites extend_back currents previous)"
  define c2 where "c2 = fst (merge_infinites extend_forward c1 nexts)"
  let ?b = "snd (merge_infinites extend_back currents previous)" and ?a = "snd (merge_infinites extend_forward c1 nexts)"
  have m: "mergeInfinitesIntoCurrentPart previous currents nexts = c2 @ ?b @ ?a"
    by (simp add: mergeInfinitesIntoCurrentPart_def c1_def c2_def Let_def case_prod_beta)
  note 1 = merge_infinites_nth [where change = extend_back, OF _ cs n i, of previous, simplified, folded c1_def]
  have ids1: "map infinite_id_of c1 = map infinite_id_of currents" using 1 by blast
  note p1 = same_ids [OF ids1 cs n i]
  note 2 = merge_infinites_nth [where change = extend_forward, OF _ p1, of nexts, simplified, folded c2_def]
  have ids2: "map infinite_id_of c2 = map infinite_id_of c1" using 2 by blast
  note c2n = same_ids [OF ids2 p1]
  have c1n: "c1 ! n = (case find ?is previous of None \<Rightarrow> currents ! n | Some p \<Rightarrow> extend_back p (currents ! n))"
    using 1 one_per_infinite_filter [OF assms(1)] by (simp split: option.split)
  have c2n': "c2 ! n = (case find ?is nexts of None \<Rightarrow> c1 ! n | Some p \<Rightarrow> extend_forward p (c1 ! n))"
    using 2 one_per_infinite_filter [OF assms(3)] by (simp split: option.split)
  have "filter ?is ?b = []" "filter ?is ?a = []"
    using merge_infinites_others [where change = extend_back, OF _ cs n i]
      merge_infinites_others [where change = extend_forward, OF _ p1] by (auto simp: filter_empty_conv)
  moreover have "filter ?is c2 = [c2 ! n]"
  proof -
    from c2n have "c2 ! n \<in> set (filter ?is c2)" by simp
    with one_per_infinite_filter [OF c2n(1), of i] show ?thesis by (auto split: option.splits)
  qed
  ultimately show ?thesis using c2n(2)
    by (simp add: Let_def m nth_append c2n' c1n split: option.split)
qed

definition ex_span :: "time \<Rightarrow> int option \<Rightarrow> ResolvedPieceInstance" where
  "ex_span start duration = \<lparr>res_instance = \<lparr>pwt_instance = (sample_instance sample_piece)\<lparr>infinite := Some
       \<lparr>infinitePieceId = ''piece'', fromHold = False, fromPreviousPart = False, fromPreviousPlayhead = False,
        infiniteInstanceId = ''inf'', infiniteInstanceIndex = 0\<rparr>\<rparr>, resolvedEndCap = None, priority = 0\<rparr>,
     resolvedStart = start, resolvedDuration = duration, timelinePriority = 0\<rparr>"

theorem merged_infinite_spans_parts_witness:
  "let merged = mergeInfinitesIntoCurrentPart [ex_span 10 (Some 90)] [ex_span 100 (Some 50)] [ex_span 150 (Some 30)] in
    resolvedStart (merged ! 0) = 10 \<and> resolved_end (merged ! 0) = Some 180 \<and> length merged = 1"
proof -
  have o: "one_per_infinite [ex_span a b]" for a b by (simp add: one_per_infinite_def)
  have i: "infinite_id_of (ex_span a b) = Some ''inf''" for a b
    by (simp add: ex_span_def infinite_id_of_def)
  have e: "resolvedStart (ex_span a b) = a" "resolved_end (ex_span a b) = map_option (\<lambda>d. a + d) b" for a b
    by (simp_all add: ex_span_def resolved_end_def)
  have l: "length (mergeInfinitesIntoCurrentPart [ex_span 10 (Some 90)] [ex_span 100 (Some 50)] [ex_span 150 (Some 30)]) = 1"
    by code_simp
  from merged_infinite_spans_parts [OF o o o, of 0 "100" "Some 50" "''inf''" "10" "Some 90" 150 "Some 30"] l
  show ?thesis by (simp add: i e Let_def)
qed

section \<open>Groups of the timeline\<close>

definition group_edges :: "timeline_objs \<Rightarrow> (string \<times> string) set" where
  "group_edges objs = {(g, k). \<exists>obj. map_get objs k = Some obj \<and> inGroup obj = Some g \<and> map_get objs g \<noteq> None}"

lemma finite_group_edges: "finite (group_edges objs)"
proof (rule finite_subset)
  show "group_edges objs \<subseteq> (fst ` set objs) \<times> (fst ` set objs)"
    by (auto simp: group_edges_def dest: map_of_SomeD intro: rev_image_eqI)
qed simp

lemma getStartTime_returns:
  assumes "acyclic (group_edges objs)" and "map_get objs k = Some obj"
  shows "\<exists>s. getStartTime objs obj = Some s"
proof -
  have "wf (group_edges objs)" by (rule finite_acyclic_wf [OF finite_group_edges assms(1)])
  then show ?thesis using assms(2)
  proof (induction k arbitrary: obj rule: wf_induct_rule)
    case (less k)
    show ?case
    proof (cases "parent_of objs obj")
      case None
      then show ?thesis by (subst getStartTime.simps) (simp split: option.split)
    next
      case (Some parent)
      then obtain g where g: "inGroup obj = Some g" "map_get objs g = Some parent"
        by (auto simp: parent_of_def bind_eq_Some_conv)
      with less.prems have "(g, k) \<in> group_edges objs" by (auto simp: group_edges_def)
      from less.IH [OF this g(2)] obtain s where "getStartTime objs parent = Some s" ..
      with Some show ?thesis by (subst getStartTime.simps) (simp split: option.split)
    qed
  qed
qed

text \<open>What each step keeps of the timeline: the groups, and that the objects reached before do not start now.\<close>

definition no_start_now :: "string \<Rightarrow> timeline_objs \<Rightarrow> bool" where
  "no_start_now g objs = (\<forall>k obj. map_get objs k = Some obj \<longrightarrow> isPieceTimeline obj \<longrightarrow>
     \<not> truthy_str (inGroup obj) \<or> inGroup obj = Some g \<longrightarrow> \<not> starts_now obj)"

definition same_groups :: "timeline_objs \<Rightarrow> timeline_objs \<Rightarrow> bool" where
  "same_groups objs objs' = (\<forall>k. map_option inGroup (map_get objs' k) = map_option inGroup (map_get objs k))"

lemma same_groupsD:
  assumes "same_groups objs objs'"
  shows "map_get objs' g = None \<longleftrightarrow> map_get objs g = None"
    and "(\<exists>obj. map_get objs' k = Some obj \<and> inGroup obj = Some g) \<longleftrightarrow> (\<exists>obj. map_get objs k = Some obj \<and> inGroup obj = Some g)"
proof -
  have g: "map_option inGroup (map_get objs' x) = map_option inGroup (map_get objs x)" for x
    using assms by (simp add: same_groups_def)
  show "map_get objs' g = None \<longleftrightarrow> map_get objs g = None" using g [of g]
    by (cases "map_get objs' g"; cases "map_get objs g") auto
  show "(\<exists>obj. map_get objs' k = Some obj \<and> inGroup obj = Some g) \<longleftrightarrow> (\<exists>obj. map_get objs k = Some obj \<and> inGroup obj = Some g)"
    using g [of k] by (cases "map_get objs' k"; cases "map_get objs k") auto
qed

lemma same_groups_edges:
  assumes "same_groups objs objs'"
  shows "group_edges objs' = group_edges objs"
proof -
  have e: "group_edges o' = {(g, k). (\<exists>obj. map_get o' k = Some obj \<and> inGroup obj = Some g) \<and> map_get o' g \<noteq> None}" for o'
    unfolding group_edges_def by blast
  show ?thesis unfolding e [of objs] e [of objs'] same_groupsD [OF assms] ..
qed

lemma same_groups_refl [simp]: "same_groups objs objs"
  by (simp add: same_groups_def)

lemma same_groups_trans: "same_groups a b \<Longrightarrow> same_groups b c \<Longrightarrow> same_groups a c"
  by (simp add: same_groups_def)

lemma same_groups_enable [simp]: "same_groups objs (on_enable k f objs)"
proof (cases "map_get objs k")
  case (Some obj)
  then show ?thesis by (cases "tl_enables obj") (simp_all add: same_groups_def on_enable_def)
qed (simp add: on_enable_def)

lemma no_start_now_enable:
  assumes "\<And>e. tl_start (f e) = Some TlNow \<Longrightarrow> tl_start e = Some TlNow" and "no_start_now g objs"
  shows "no_start_now g (on_enable k f objs)"
proof (cases "map_get objs k")
  case None
  with assms(2) show ?thesis by (simp add: on_enable_def)
next
  case (Some obj)
  show ?thesis
  proof (cases "tl_enables obj")
    case (OneEnable e)
    let ?obj = "obj\<lparr>tl_enables := OneEnable (f e)\<rparr>"
    have "on_enable k f objs = map_set k ?obj objs" by (simp add: on_enable_def Some OneEnable)
    moreover have "starts_now ?obj \<Longrightarrow> starts_now obj" using assms(1) by (simp add: starts_now_def OneEnable)
    ultimately show ?thesis using assms(2) Some unfolding no_start_now_def by (auto split: if_splits)
  next
    case (ManyEnables es)
    with assms(2) Some show ?thesis by (simp add: on_enable_def)
  qed
qed

lemma end_now_start [simp]: "tl_start (end_now t e) = tl_start e"
  by (simp add: end_now_def)

lemma start_expression_start: "tl_start (start_expression t e) \<noteq> Some TlNow"
  by (simp add: start_expression_def split: option.split tl_time.split)

lemma on_enable_keeps:
  assumes "\<And>e. tl_start (f e) = Some TlNow \<Longrightarrow> tl_start e = Some TlNow" and "no_start_now g o1" "same_groups objs o1"
  shows "no_start_now g (on_enable k f o1) \<and> same_groups objs (on_enable k f o1)"
  using no_start_now_enable [OF assms(1,2)] same_groups_trans [OF assms(3) same_groups_enable] by blast

lemma enable_at_simps [simp]: "inGroup (enable_at t obj) = inGroup obj" "\<not> starts_now (enable_at t obj)"
  by (simp_all add: enable_at_def starts_now_def)

lemma start_obj_simps [simp]:
  "inGroup (start_obj t n g obj) = inGroup obj" "isPieceTimeline (start_obj t n g obj) = isPieceTimeline obj"
  by (simp_all add: start_obj_def enable_at_def)

lemma map_get_map_val: "map_get (map (\<lambda>(k, v). (k, f v)) m) k = map_option f (map_get m k)"
  by (induction m) auto

lemma start_objs:
  "no_start_now g (map (\<lambda>(k, obj). (k, start_obj t n g obj)) objs)"
  "same_groups objs (map (\<lambda>(k, obj). (k, start_obj t n g obj)) objs)"
proof -
  have "\<not> starts_now (start_obj t n g obj)"
    if "isPieceTimeline obj" "\<not> truthy_str (inGroup obj) \<or> inGroup obj = Some g" for obj
    using that by (cases "starts_now obj") (auto simp: start_obj_def)
  then show "no_start_now g (map (\<lambda>(k, obj). (k, start_obj t n g obj)) objs)"
    by (auto simp: no_start_now_def map_get_map_val)
  show "same_groups objs (map (\<lambda>(k, obj). (k, start_obj t n g obj)) objs)"
    by (simp add: same_groups_def map_get_map_val option.map_comp comp_def)
qed

lemma end_objs_keep:
  assumes "no_start_now g o1" "same_groups objs o1"
  shows "no_start_now g (end_objs t n p o1) \<and> same_groups objs (end_objs t n p o1)"
proof (cases "\<exists>r. userDuration p = Some (EndRelativeToNow r)")
  case True
  then obtain r where r: "userDuration p = Some (EndRelativeToNow r)" ..
  have "no_start_now g (on_enable k (end_now s) o2) \<and> same_groups objs (on_enable k (end_now s) o2)"
    if "no_start_now g o2 \<and> same_groups objs o2" for k s o2
    using on_enable_keeps [of "end_now s" g o2 objs k] that by simp
  from this [OF this] assms r show ?thesis by (simp add: end_objs_def)
next
  case False
  then have "end_objs t n p o1 = o1" by (cases "userDuration p" rule: option.exhaust)
    (auto simp: end_objs_def split: user_duration.split)
  with assms show ?thesis by simp
qed

lemma end_all_keep:
  "no_start_now g o1 \<Longrightarrow> same_groups objs o1 \<Longrightarrow>
     no_start_now g (fold (end_objs t n) ps o1) \<and> same_groups objs (fold (end_objs t n) ps o1)"
proof (induction ps arbitrary: o1)
  case (Cons p ps)
  from end_objs_keep [OF Cons.prems, of t n p] Cons.IH [of "end_objs t n p o1"] show ?case by simp
qed simp

lemma preserve_keeps:
  assumes "no_start_now g o1" "same_groups objs o1" and "preserveOrTrackInfiniteTimings p (e, o1) = (q, e', o2)"
  shows "no_start_now g o2 \<and> same_groups objs o2"
proof (cases "infinite (PieceInstanceImpl p)")
  case None
  with assms show ?thesis by (simp add: preserveOrTrackInfiniteTimings_def)
next
  case (Some link)
  define found where "found = map_get e (infiniteInstanceId link)"
  define since where "since = (if found \<noteq> None then found else pi_plannedStartedPlayback (PieceInstanceImpl p))"
  from Some assms(3) have "o2 = (if truthy_num since
      then on_enable (getInfinitePartGroupId (pi_id (PieceInstanceImpl p))) (start_expression (the since)) o1 else o1)"
    by (auto simp: preserveOrTrackInfiniteTimings_def Let_def since_def found_def)
  moreover have "no_start_now g (on_enable k (start_expression t) o1) \<and> same_groups objs (on_enable k (start_expression t) o1)"
    for k t
    by (rule on_enable_keeps [OF _ assms(1,2)]) (simp add: start_expression_start)
  ultimately show ?thesis using assms(1,2) by simp
qed

lemma deNowifyInfinite_keeps:
  assumes "no_start_now g o1" "same_groups objs o1" and "acyclic (group_edges objs)"
  shows "\<exists>o2. deNowifyInfinite t k o1 = Some o2 \<and> no_start_now g o2 \<and> same_groups objs o2"
proof -
  have set: "no_start_now g (map_set k (enable_at s obj) o1) \<and> same_groups objs (map_set k (enable_at s obj) o1)"
    if "map_get o1 k = Some obj" for s obj
  proof -
    have k: "map_option inGroup (map_get objs k) = Some (inGroup obj)"
    proof -
      have "map_option inGroup (map_get o1 k) = map_option inGroup (map_get objs k)"
        using assms(2) by (simp add: same_groups_def del: map_option_eq_Some)
      with that show ?thesis by (simp del: map_option_eq_Some)
    qed
    have "same_groups objs (map_set k (enable_at s obj) o1)"
      unfolding same_groups_def map_get_set
    proof
      fix x show "map_option inGroup (if x = k then Some (enable_at s obj) else map_get o1 x) = map_option inGroup (map_get objs x)"
        using assms(2) k by (cases "x = k") (simp_all add: same_groups_def del: map_option_eq_Some)
    qed
    moreover have "no_start_now g (map_set k (enable_at s obj) o1)" using assms(1) by (simp add: no_start_now_def)
    ultimately show ?thesis by blast
  qed
  have ac: "acyclic (group_edges o1)" using same_groups_edges [OF assms(2)] assms(3) by simp
  show ?thesis
  proof (cases "map_get o1 k")
    case None
    with assms show ?thesis by (simp add: deNowifyInfinite_def)
  next
    case (Some obj)
    show ?thesis
    proof (cases "parent_of o1 obj")
      case None
      with Some assms set show ?thesis by (simp add: deNowifyInfinite_def)
    next
      case par: (Some parent)
      then obtain h where "map_get o1 h = Some parent" by (auto simp: parent_of_def bind_eq_Some_conv)
      from getStartTime_returns [OF ac this] obtain s where "getStartTime o1 parent = Some s" ..
      with Some par assms set show ?thesis by (simp add: deNowifyInfinite_def split: option.split)
    qed
  qed
qed

lemma deNowifyInfinites_keep:
  assumes ac: "acyclic (group_edges objs)"
  shows "no_start_now g o1 \<Longrightarrow> same_groups objs o1 \<Longrightarrow>
    \<exists>o2. deNowifyInfinites t ks o1 = Some o2 \<and> no_start_now g o2 \<and> same_groups objs o2"
proof (induction ks arbitrary: o1)
  case (Cons k ks)
  from deNowifyInfinite_keeps [OF Cons.prems ac, of t k]
  obtain o2 where o2: "deNowifyInfinite t k o1 = Some o2" "no_start_now g o2" "same_groups objs o2" by blast
  from Cons.IH [OF o2(2,3)] o2(1) show ?case by simp
qed simp

text \<open>The pieces of a part instance, and what holds of each of them.\<close>

definition pieces_satisfy :: "(PlayoutPieceInstanceModel \<Rightarrow> bool) \<Rightarrow> PartInstanceId \<Rightarrow> PlayoutModel \<Rightarrow> bool" where
  "pieces_satisfy P i m = (\<exists>p. part_instance_at i m = Some p \<and> (\<forall>k q. getPieceInstance k p = Some q \<longrightarrow> P q))"

definition settled :: "PlayoutPieceInstanceModel \<Rightarrow> bool" where
  "settled q = (en_start (enable (pi_piece (PieceInstanceImpl q))) \<noteq> Now
     \<and> (\<forall>t. userDuration (PieceInstanceImpl q) \<noteq> Some (EndRelativeToNow t)))"

lemma part_instance_at_on [simp]:
  "part_instance_at j (on_part_instance i f m) = (if j = i then map_option f (part_instance_at i m) else part_instance_at j m)"
  by (simp add: on_part_instance_def part_instance_at_def put_part_instance_def nullish_def split: option.split)

lemma getPieceInstance_on_pieces [simp]: "getPieceInstance k (on_pieces f p) = map_option f (getPieceInstance k p)"
  by (simp add: getPieceInstance_def on_pieces_def map_get_map_val nullish_def split: option.split)

lemma getPieceInstance_put_piece [simp]:
  "getPieceInstance k (put_piece j v p) = (if k = j then v else getPieceInstance k p)"
  by (simp add: getPieceInstance_def put_piece_def nullish_def)

lemma piece_after_change [simp]:
  "pi_piece (PieceInstanceImpl (updatePieceProps f q)) = f (pi_piece (PieceInstanceImpl q))"
  "userDuration (PieceInstanceImpl (updatePieceProps f q)) = userDuration (PieceInstanceImpl q)"
  "pi_piece (PieceInstanceImpl (setDuration d q)) = pi_piece (PieceInstanceImpl q)"
  "userDuration (PieceInstanceImpl (setDuration d q)) = Some d"
  by (simp_all add: updatePieceProps_def setDuration_def compareAndSetPieceInstanceValue_def setPieceInstanceValue_def)

lemma started_ended_settled: "settled (end_piece n (start_piece n q))"
proof -
  have "en_start (enable (pi_piece (PieceInstanceImpl (start_piece n q)))) \<noteq> Now" by (simp add: start_piece_def)
  moreover have "pi_piece (PieceInstanceImpl (end_piece n p)) = pi_piece (PieceInstanceImpl p)" for p
    by (simp add: end_piece_def split: option.split user_duration.split)
  moreover have "userDuration (PieceInstanceImpl (end_piece n p)) \<noteq> Some (EndRelativeToNow t)" for p t
    by (simp add: end_piece_def split: option.split user_duration.split)
  ultimately show ?thesis by (simp add: settled_def)
qed

lemma settled_times [simp]:
  "settled (snd (piece_setPlannedStartedPlayback t q)) = settled q"
  "settled (snd (piece_setPlannedStoppedPlayback u q)) = settled q"
  by (simp_all add: settled_def piece_setPlannedStoppedPlayback_def piece_setPlannedStartedPlayback_def
      compareAndSetPieceInstanceValue_def setPieceInstanceValue_def)

lemma planned_settled: "settled q \<Longrightarrow> settled (setPlannedTimingsOnPieceInstance s e q)"
  by (simp add: setPlannedTimingsOnPieceInstance_def Let_def split: start_time.split)

lemma preserve_settled:
  "settled p \<Longrightarrow> preserveOrTrackInfiniteTimings p (e, objs) = (q, e', objs') \<Longrightarrow> settled q"
  by (cases "infinite (PieceInstanceImpl p)") (auto simp: preserveOrTrackInfiniteTimings_def Let_def)

definition timed_ok :: "string \<Rightarrow> PartInstanceId \<Rightarrow> timeline_objs \<Rightarrow> timeline_objs \<times> PlayoutModel \<Rightarrow> bool" where
  "timed_ok g i objs = (\<lambda>(o1, m). pieces_satisfy settled i m \<and> no_start_now g o1 \<and> same_groups objs o1)"

lemma time_piece_keeps:
  assumes "timed_ok g i objs (snd st)"
  shows "timed_ok g i objs (snd (time_piece j s e k st))"
proof -
  obtain ex o1 m where st: "st = (ex, o1, m)" by (cases st)
  show ?thesis
  proof (cases "Option.bind (part_instance_at j m) (getPieceInstance k)")
    case None
    with assms show ?thesis by (simp add: time_piece_def st)
  next
    case (Some p)
    obtain q ex' o2 where q: "preserveOrTrackInfiniteTimings (setPlannedTimingsOnPieceInstance s e p) (ex, o1) = (q, ex', o2)"
      using prod_cases3 by blast
    have r: "time_piece j s e k st = (ex', o2, on_part_instance j (put_piece k (Some q)) m)"
      by (simp add: time_piece_def st Some q)
    from assms have ok: "pieces_satisfy settled i m" "no_start_now g o1" "same_groups objs o1"
      by (simp_all add: timed_ok_def st)
    have "pieces_satisfy settled i (on_part_instance j (put_piece k (Some q)) m)"
    proof (cases "j = i")
      case True
      with ok(1) Some have "settled p" by (auto simp: pieces_satisfy_def)
      then have "settled q" by (rule preserve_settled [OF planned_settled q])
      with True ok(1) show ?thesis by (auto simp: pieces_satisfy_def)
    next
      case False
      with ok(1) show ?thesis by (simp add: pieces_satisfy_def)
    qed
    with preserve_keeps [OF ok(2,3) q] show ?thesis by (simp add: timed_ok_def r)
  qed
qed

lemma time_pieces_keep:
  "timed_ok g i objs (snd st) \<Longrightarrow> timed_ok g i objs (snd (fold (time_piece j s e) ks st))"
  by (induction ks arbitrary: st) (simp_all add: time_piece_keeps del: split_paired_All)

lemma planned_times_keep:
  assumes "timed_ok g i objs om"
  shows "timed_ok g i objs (updatePlannedTimingsForPieceInstances prev i nxt timings om)"
proof -
  obtain o1 m where om: "om = (o1, m)" by (cases om)
  have k: "timed_ok g i objs (snd (fold (time_piece j s e) ks (ex, o1, m)))" for ex j s e ks
    by (rule time_pieces_keep) (use assms om in simp)
  show ?thesis unfolding updatePlannedTimingsForPieceInstances_def om Let_def
    by (simp add: k time_pieces_keep split: option.split del: split_paired_All)
qed

lemma deNowifyCurrentPieces_settles:
  assumes "part_instance_at (inst_id (partInstanceImpl current)) m = Some p" and "same_groups objs o1"
    and "deNowifyCurrentPieces t ctx current s (o1, m) = (ks, om)"
  shows "timed_ok (currentPartGroup ctx) (inst_id (partInstanceImpl current)) objs om"
proof -
  let ?i = "inst_id (partInstanceImpl current)" and ?g = "currentPartGroup ctx"
  let ?objs = "map (\<lambda>(k, obj). (k, start_obj t (t - s) ?g obj)) o1"
  from assms(1,3) have om: "om = (fold (end_objs t (t - s)) (live_pieces (on_pieces (start_piece (t - s)) p)) ?objs,
      on_part_instance ?i (on_pieces (end_piece (t - s))) (on_part_instance ?i (on_pieces (start_piece (t - s))) m))"
    by (simp add: deNowifyCurrentPieces_def Let_def)
  have "pieces_satisfy settled ?i (snd om)"
    using assms(1) by (auto simp: om pieces_satisfy_def started_ended_settled)
  moreover have "same_groups objs ?objs" by (rule same_groups_trans [OF assms(2) start_objs(2)])
  ultimately show ?thesis using end_all_keep [OF start_objs(1)] by (simp add: timed_ok_def om)
qed

lemma set_group_start_same: "same_groups objs (set_group_start ctx g t objs)"
  by (simp add: set_group_start_def)

lemma planned_part_times_keep:
  assumes "updatePartInstancePlannedTimes t ctx prev current nxt (objs, m) = (timings, o1, m1)"
    and "part_instance_at i m = Some p"
  shows "same_groups objs o1 \<and> (\<exists>p'. part_instance_at i m1 = Some p')"
proof -
  have same: "same_groups objs (set_group_start ctx a b (set_group_start ctx c d objs))" for a b c d
    by (rule same_groups_trans [OF set_group_start_same set_group_start_same])
  show ?thesis using assms
    by (auto simp: updatePartInstancePlannedTimes_def Let_def set_group_start_same same split: option.splits if_splits)
qed

text \<open>
  C12. Making a timeline for several gateways concrete ends, as long as no group of the timeline contains itself. Then no
  piece of the part instance on air starts now or was told to end relative to now, and no piece object in its group
  or outside all groups starts now.
\<close>

theorem multi_gateway_timeline_concrete:
  assumes "playout_wf m" and cur: "currentPartInstance m = Some current"
    and ac: "acyclic (group_edges (fold (\<lambda>(k, obj). map_set k obj) timelineObjs []))"
  shows "\<exists>objs' m'. deNowifyMultiGatewayTimeline env timelineObjs (Some ctx) m = Some (objs', m')
    \<and> pieces_satisfy settled (inst_id (partInstanceImpl current)) m' \<and> no_start_now (currentPartGroup ctx) objs'"
proof -
  let ?i = "inst_id (partInstanceImpl current)" and ?g = "currentPartGroup ctx"
  let ?id = "map_option (\<lambda>p. inst_id (partInstanceImpl p))"
  define t where "t = take_now env + nullish (calculateNowOffsetLatency env) 0"
  define objs where "objs = fold (\<lambda>(k, obj). map_set k obj) timelineObjs []"
  obtain timings o1 m1 where 1: "updatePartInstancePlannedTimes t ctx (?id (previousPartInstance m)) current
      (?id (nextPartInstance m)) (objs, m) = (timings, o1, m1)" using prod_cases3 by blast
  obtain ks om where 2: "deNowifyCurrentPieces t ctx current (currentStartTime timings) (o1, m1) = (ks, om)"
    by (rule prod.exhaust)
  obtain o3 m3 where 3: "updatePlannedTimingsForPieceInstances (?id (previousPartInstance m)) ?i
      (?id (nextPartInstance m)) timings om = (o3, m3)" by (rule prod.exhaust)
  obtain o2 m2 where om: "om = (o2, m2)" by (rule prod.exhaust)
  obtain k where x: "doc_at k m = Some (partInstanceImpl current)"
    using selected_doc [OF cur [unfolded currentPartInstance_def]] by blast
  have "doc_at ?i m \<noteq> None" using playout_wfD [OF assms(1) x] x by simp
  then have "\<exists>p. part_instance_at ?i m = Some p" by (simp add: doc_at_def)
  then obtain p1 where p1: "part_instance_at ?i m1 = Some p1" and s1: "same_groups objs o1"
    using planned_part_times_keep [OF 1] by blast
  have "timed_ok ?g ?i objs om" by (rule deNowifyCurrentPieces_settles [OF p1 s1 2])
  from planned_times_keep [OF this, of "?id (previousPartInstance m)" "?id (nextPartInstance m)" timings] 3
  have 4: "pieces_satisfy settled ?i m3" "no_start_now ?g o3" "same_groups objs o3" by (simp_all add: timed_ok_def)
  from deNowifyInfinites_keep [OF _ 4(2,3), of t ks] ac
  obtain o4 where o4: "deNowifyInfinites t ks o3 = Some o4" "no_start_now ?g o4" by (auto simp: objs_def)
  have "deNowifyMultiGatewayTimeline env timelineObjs (Some ctx) m = Some (o4, m3)"
    using cur 1 2 3 o4(1) unfolding deNowifyMultiGatewayTimeline_def Let_def t_def objs_def om by simp
  with 4(1) o4(2) show ?thesis by blast
qed

text \<open>A piece of the part on air starts now and ends shortly after; its object is in the group of the part.\<close>

definition ex_now :: PlayoutModel where
  "ex_now = new_playout_model True (ex_playlist (Some ''i1'') None)
     [new_part_instance_model ex_on_air [ex_on_air_piece\<lparr>userDuration := Some (EndRelativeToNow 20),
        pi_piece := (pi_piece ex_on_air_piece)\<lparr>enable := \<lparr>en_start = Now, en_duration = None\<rparr>\<rparr>\<rparr>] False] [ex_rundown]"

definition ex_start :: "tl_time \<Rightarrow> string option \<Rightarrow> bool \<Rightarrow> timeline_obj" where
  "ex_start t g b = \<lparr>tl_enables = OneEnable \<lparr>tl_start = Some t, tl_end = None, tl_other = None\<rparr>, inGroup = g, isPieceTimeline = b\<rparr>"

definition ex_timing :: RundownTimelineTimingContext where
  "ex_timing = \<lparr>currentPartGroup = ''g'', currentPartDuration = None, previousPartOverlap = None, nextPartGroup = None,
     nextPartOverlap = None, groups_shared = True\<rparr>"

lemma ex_now_wf: "playout_wf ex_now"
proof -
  have "map_wf (allPartInstances ex_now)" unfolding map_wf_def by code_simp
  moreover have "\<forall>(i, p) \<in> set (allPartInstances ex_now). inst_id (partInstanceImpl (the p)) = i" by code_simp
  ultimately show ?thesis by (rule playout_wf_keyed)
qed

theorem multi_gateway_timeline_concrete_witness:
  "\<exists>objs' m'. deNowifyMultiGatewayTimeline (ex_take_env 1000)
      [(''g'', ex_start (TlAt 900) None False), (''o'', ex_start TlNow (Some ''g'') True)] (Some ex_timing) ex_now = Some (objs', m')
    \<and> pieces_satisfy settled ''i1'' m' \<and> no_start_now ''g'' objs'"
proof -
  obtain c where c: "currentPartInstance ex_now = Some c" "inst_id (partInstanceImpl c) = ''i1''"
  proof -
    have "map_option (\<lambda>c. inst_id (partInstanceImpl c)) (currentPartInstance ex_now) = Some ''i1''" by code_simp
    with that show ?thesis by (auto simp: map_option_eq_Some)
  qed
  have "group_edges [(''g'', ex_start (TlAt 900) None False), (''o'', ex_start TlNow (Some ''g'') True)] = {(''g'', ''o'')}"
    by (auto simp: group_edges_def ex_start_def split: if_splits)
  then have "acyclic (group_edges (fold (\<lambda>(k, obj). map_set k obj)
      [(''g'', ex_start (TlAt 900) None False), (''o'', ex_start TlNow (Some ''g'') True)] []))"
    by (simp add: acyclic_insert wf_acyclic)
  from multi_gateway_timeline_concrete [OF ex_now_wf c(1) this, of "ex_take_env 1000" ex_timing] c(2)
  show ?thesis by (simp add: ex_timing_def)
qed

end
