(* ===== verification/Ingest_Data.thy ===== *)
theory Ingest_Data
  imports Ingest_Model
begin

text \<open>
  What newsroom systems send, and how MOS stories are grouped into segments: \<open>ingest/ingestCache.ts\<close> (its documents),
  \<open>ingest/mosDevice/lib.ts\<close> and \<open>mosToIngest.ts\<close> of \<open>packages/job-worker/src\<close>, with the first stage of the ingest jobs,
  which changes the ingest data: \<open>mosStoryJobs.ts\<close>, \<open>mosRundownJobs.ts\<close>, \<open>ingestPartJobs.ts\<close>, \<open>ingestSegmentJobs.ts\<close>
  and \<open>ingestRundownJobs.ts\<close>. A MOS string is its characters; the payload of a story is one value. The hash and the
  current time are arguments.
\<close>

section \<open>The documents\<close>

record LocalIngestPart =
  ip_externalId :: string
  ip_name :: string
  ip_rank :: rank
  ip_payload :: "json option"
  ip_modified :: time

record LocalIngestSegment =
  is_externalId :: string
  is_name :: string
  is_rank :: rank
  is_payload :: "json option"
  is_parts :: "LocalIngestPart list"
  is_modified :: time

record LocalIngestRundown =
  ir_externalId :: string
  ir_name :: string
  ir_type :: string
  ir_segments :: "LocalIngestSegment list"
  ir_payload :: "json option"
  ir_modified :: time

text \<open>The data of a gateway is of the same shape, but for the time of its modification, which is then set.\<close>

definition makeNewIngestPart :: "time \<Rightarrow> LocalIngestPart \<Rightarrow> LocalIngestPart" where
  "makeNewIngestPart now p = p\<lparr>ip_modified := now\<rparr>"

definition makeNewIngestSegment :: "time \<Rightarrow> LocalIngestSegment \<Rightarrow> LocalIngestSegment" where
  "makeNewIngestSegment now s = s\<lparr>is_parts := map (makeNewIngestPart now) (is_parts s), is_modified := now\<rparr>"

definition makeNewIngestRundown :: "time \<Rightarrow> LocalIngestRundown \<Rightarrow> LocalIngestRundown" where
  "makeNewIngestRundown now r = r\<lparr>ir_segments := map (makeNewIngestSegment now) (ir_segments r), ir_modified := now\<rparr>"

section \<open>Stories as parts\<close>

record mos_story =
  story_ID :: string
  story_Slug :: "string option"
  story_payload :: json

record AnnotatedIngestPart =
  ap_externalId :: string
  ap_partId :: PartId
  ap_segmentName :: string
  ap_ingest :: LocalIngestPart

definition before_semicolon :: "string \<Rightarrow> string" where
  "before_semicolon s = takeWhile (\<lambda>c. c \<noteq> CHR '';'') s"

definition getSegmentExternalId :: "RundownId \<Rightarrow> LocalIngestPart \<Rightarrow> string" where
  "getSegmentExternalId rundownId p = rundownId @ ''_'' @ before_semicolon (ip_name p) @ ''_'' @ ip_externalId p"

definition existing_parts_map :: "AnnotatedIngestPart list \<Rightarrow> (string, AnnotatedIngestPart) js_map" where
  "existing_parts_map ps = fold (\<lambda>p. map_set (ap_externalId p) p) ps []"

definition story_to_part ::
  "(string \<Rightarrow> string) \<Rightarrow> time \<Rightarrow> RundownId \<Rightarrow> bool \<Rightarrow> (string, AnnotatedIngestPart) js_map \<Rightarrow> nat \<times> mos_story option
   \<Rightarrow> ingest_error + AnnotatedIngestPart option" where
  "story_to_part getHash now rundownId undefinedPayload existing = (\<lambda>(i, story). case story of
       None \<Rightarrow> Inr None
     | Some s \<Rightarrow>
        (let externalId = story_ID s;
             name = (case story_Slug s of None \<Rightarrow> [] | Some slug \<Rightarrow> slug)
         in and_then (getPartId getHash rundownId externalId) (\<lambda>partId. Inr (Some
              \<lparr>ap_externalId = externalId, ap_partId = partId, ap_segmentName = before_semicolon name,
               ap_ingest = \<lparr>ip_externalId = externalId, ip_name = name, ip_rank = of_nat i,
                 ip_payload = (if undefinedPayload then None else Some (JObj [])),
                 ip_modified = (case map_get existing externalId of None \<Rightarrow> now | Some p \<Rightarrow> ip_modified (ap_ingest p))\<rparr>\<rparr>))))"

definition storiesToIngestParts ::
  "(string \<Rightarrow> string) \<Rightarrow> time \<Rightarrow> RundownId \<Rightarrow> mos_story option list \<Rightarrow> bool \<Rightarrow> AnnotatedIngestPart list
   \<Rightarrow> ingest_error + AnnotatedIngestPart option list" where
  "storiesToIngestParts getHash now rundownId stories undefinedPayload existing =
     map_or_fail (story_to_part getHash now rundownId undefinedPayload (existing_parts_map existing)) (enumerate 0 stories)"

section \<open>Parts as segments\<close>

type_synonym part_group = "string \<times> LocalIngestPart list"

definition add_to_groups :: "AnnotatedIngestPart \<Rightarrow> part_group list \<Rightarrow> part_group list" where
  "add_to_groups part groups =
     (if groups \<noteq> [] \<and> fst (last groups) = ap_segmentName part
      then butlast groups @ [(fst (last groups), snd (last groups) @ [ap_ingest part])]
      else groups @ [(ap_segmentName part, [ap_ingest part])])"

definition rank_parts :: "LocalIngestPart list \<Rightarrow> LocalIngestPart list" where
  "rank_parts ps = map (\<lambda>(i, p). p\<lparr>ip_rank := of_nat i\<rparr>) (enumerate 0 ps)"

definition groupIngestParts :: "AnnotatedIngestPart list \<Rightarrow> part_group list" where
  "groupIngestParts parts = map (\<lambda>(name, ps). (name, rank_parts ps)) (fold add_to_groups parts [])"

definition groupedPartsToSegments :: "RundownId \<Rightarrow> part_group list \<Rightarrow> LocalIngestSegment list" where
  "groupedPartsToSegments rundownId groups = map (\<lambda>(i, name, ps).
     \<lparr>is_externalId = getSegmentExternalId rundownId (hd ps), is_name = name, is_rank = of_nat i, is_payload = None,
      is_parts = ps, is_modified = Max (set (map ip_modified ps))\<rparr>) (enumerate 0 groups)"

definition groupPartsIntoIngestSegments :: "RundownId \<Rightarrow> AnnotatedIngestPart list \<Rightarrow> LocalIngestSegment list" where
  "groupPartsIntoIngestSegments rundownId parts = groupedPartsToSegments rundownId (groupIngestParts parts)"

definition touch_segment :: "time \<Rightarrow> LocalIngestSegment list \<Rightarrow> LocalIngestSegment \<Rightarrow> LocalIngestSegment" where
  "touch_segment now reference s =
     (if is_modified s = 0 then s\<lparr>is_modified := now\<rparr>
      else case find (\<lambda>r. is_externalId r = is_externalId s) reference of
        None \<Rightarrow> s\<lparr>is_modified := now\<rparr>
      | Some ref \<Rightarrow> if length (is_parts ref) \<noteq> length (is_parts s) then s\<lparr>is_modified := now\<rparr> else s)"

definition makeChangeToIngestParts ::
  "time \<Rightarrow> RundownId \<Rightarrow> AnnotatedIngestPart list \<Rightarrow> (AnnotatedIngestPart list \<Rightarrow> ingest_error + AnnotatedIngestPart list)
   \<Rightarrow> ingest_error + LocalIngestSegment list" where
  "makeChangeToIngestParts now rundownId ingestParts modifyFunction =
     (let referenceIngestSegments = groupPartsIntoIngestSegments rundownId ingestParts
      in and_then (modifyFunction ingestParts) (\<lambda>modifiedParts.
           Inr (map (touch_segment now referenceIngestSegments) (groupPartsIntoIngestSegments rundownId modifiedParts))))"

section \<open>Changes of the ingest data\<close>

datatype UpdateIngestRundownAction =
    RejectUpdate
  | DeleteIngestRundown
  | UpdateIngestRundown LocalIngestRundown

definition getRundownId :: "(string \<Rightarrow> string) \<Rightarrow> string \<Rightarrow> string \<Rightarrow> ingest_error + RundownId" where
  "getRundownId getHash studioId rundownExternalId =
     (if studioId = [] then Inl StudioNotSet
      else if rundownExternalId = [] then Inl RundownExternalIdNotSet
      else Inr (getHash (studioId @ ''_'' @ rundownExternalId)))"

record ingest_env =
  ie_getHash :: "string \<Rightarrow> string"
  ie_now :: time
  ie_studioId :: string

abbreviation env_rundownId :: "('z) ingest_env_scheme \<Rightarrow> string \<Rightarrow> ingest_error + RundownId" where
  "env_rundownId env rundownExternalId \<equiv> getRundownId (ie_getHash env) (ie_studioId env) rundownExternalId"

definition update_existing ::
  "string \<Rightarrow> (LocalIngestRundown \<Rightarrow> ingest_error + LocalIngestRundown) \<Rightarrow> LocalIngestRundown option
   \<Rightarrow> ingest_error + UpdateIngestRundownAction" where
  \<comment> \<open>most jobs change the data of a rundown that exists, in place\<close>
  "update_existing rundownExternalId f r = (case r of
     None \<Rightarrow> Inl (MosRundownNotFound rundownExternalId)
   | Some r \<Rightarrow> and_then (f r) (\<lambda>r. Inr (UpdateIngestRundown r)))"

subsection \<open>MOS stories\<close>

definition getAnnotatedIngestParts :: "LocalIngestRundown \<Rightarrow> AnnotatedIngestPart list" where
  "getAnnotatedIngestParts r = concat (map (\<lambda>s. map (\<lambda>p.
     \<lparr>ap_externalId = ip_externalId p, ap_partId = [], ap_segmentName = is_name s, ap_ingest = p\<rparr>) (is_parts s)) (ir_segments r))"

fun update_first :: "('a \<Rightarrow> bool) \<Rightarrow> ('a \<Rightarrow> 'a) \<Rightarrow> 'a list \<Rightarrow> 'a list" where
  \<comment> \<open>the object that find gives is changed in place\<close>
  "update_first p f [] = []"
| "update_first p f (x # xs) = (if p x then f x # xs else x # update_first p f xs)"

definition has_part :: "string \<Rightarrow> LocalIngestSegment \<Rightarrow> bool" where
  "has_part externalId s = (\<exists>p\<in>set (is_parts s). ip_externalId p = externalId)"

definition full_story_data :: "mos_story \<Rightarrow> LocalIngestRundown \<Rightarrow> ingest_error + LocalIngestRundown" where
  "full_story_data story r =
     (if \<not> (\<exists>s\<in>set (ir_segments r). has_part (story_ID story) s) then Inl (MosStoryMissing (story_ID story))
      else Inr (r\<lparr>ir_segments := update_first (has_part (story_ID story))
        (\<lambda>s. s\<lparr>is_parts := update_first (\<lambda>p. ip_externalId p = story_ID story)
           (\<lambda>p. p\<lparr>ip_payload := Some (story_payload story)\<rparr>) (is_parts s)\<rparr>) (ir_segments r)\<rparr>))"

definition change_stories ::
  "('z) ingest_env_scheme \<Rightarrow> string \<Rightarrow> (AnnotatedIngestPart list \<Rightarrow> ingest_error + AnnotatedIngestPart list)
   \<Rightarrow> LocalIngestRundown \<Rightarrow> ingest_error + LocalIngestRundown" where
  "change_stories env rundownExternalId f r =
     and_then (env_rundownId env rundownExternalId) (\<lambda>rundownId.
       and_then (makeChangeToIngestParts (ie_now env) rundownId (getAnnotatedIngestParts r) f)
         (\<lambda>segments. Inr (r\<lparr>ir_segments := segments\<rparr>)))"

definition delete_stories_data ::
  "('z) ingest_env_scheme \<Rightarrow> string \<Rightarrow> string list \<Rightarrow> LocalIngestRundown \<Rightarrow> ingest_error + LocalIngestRundown" where
  "delete_stories_data env rundownExternalId storyIds r =
     (let ids = map ap_externalId (getAnnotatedIngestParts r);
          missingIds = filter (\<lambda>i. i \<notin> set ids) storyIds
      in if missingIds \<noteq> [] then Inl (PartsWereNotFound missingIds)
         else change_stories env rundownExternalId (\<lambda>ps. Inr (filter (\<lambda>p. ap_externalId p \<notin> set storyIds) ps)) r)"

definition splice :: "nat \<Rightarrow> nat \<Rightarrow> 'a list \<Rightarrow> 'a list \<Rightarrow> 'a list" where
  "splice i deleteCount new xs = take i xs @ new @ drop (i + deleteCount) xs"

definition insert_point :: "string option \<Rightarrow> AnnotatedIngestPart list \<Rightarrow> ingest_error + nat" where
  \<comment> \<open>before the part of that id, or at the end\<close>
  "insert_point beforeId ps =
     (let i = nullish beforeId [] in
      if i = [] then Inr (length ps)
      else case find_index (\<lambda>p. ap_externalId p = i) ps of
        None \<Rightarrow> Inl (PartsWereNotFound [i]) | Some n \<Rightarrow> Inr n)"

definition insert_parts ::
  "nat \<Rightarrow> bool \<Rightarrow> AnnotatedIngestPart list \<Rightarrow> AnnotatedIngestPart list \<Rightarrow> ingest_error + AnnotatedIngestPart list" where
  "insert_parts insertIndex replace newParts ps =
     (let modified = (if replace then splice insertIndex 1 [] ps else ps);
          colliding = filter (\<lambda>i. i \<in> set (map ap_externalId newParts)) (map ap_externalId modified)
      in if colliding \<noteq> [] then Inl (PartsAlreadyExist colliding) else Inr (splice insertIndex 0 newParts modified))"

definition insert_stories_data ::
  "('z) ingest_env_scheme \<Rightarrow> string \<Rightarrow> string option \<Rightarrow> mos_story option list \<Rightarrow> bool \<Rightarrow> LocalIngestRundown
   \<Rightarrow> ingest_error + LocalIngestRundown" where
  "insert_stories_data env rundownExternalId insertBeforeStoryId newStories replace r =
     (let ingestParts = getAnnotatedIngestParts r in
      and_then (insert_point insertBeforeStoryId ingestParts) (\<lambda>insertIndex.
      and_then (env_rundownId env rundownExternalId) (\<lambda>rundownId.
      and_then (storiesToIngestParts (ie_getHash env) (ie_now env) rundownId newStories True ingestParts) (\<lambda>newParts.
        change_stories env rundownExternalId (insert_parts insertIndex replace (compact newParts)) r))))"

definition swap_parts :: "string \<Rightarrow> string \<Rightarrow> AnnotatedIngestPart list \<Rightarrow> ingest_error + AnnotatedIngestPart list" where
  "swap_parts story0 story1 ps =
     (case find_index (\<lambda>p. ap_externalId p = story0) ps of
        None \<Rightarrow> Inl (PartsWereNotFound [story0])
      | Some i \<Rightarrow> (case find_index (\<lambda>p. ap_externalId p = story1) ps of
            None \<Rightarrow> Inl (PartsWereNotFound [story1])
          | Some j \<Rightarrow> Inr (ps[i := ps ! j, j := ps ! i])))"

definition swap_stories_data ::
  "('z) ingest_env_scheme \<Rightarrow> string \<Rightarrow> string \<Rightarrow> string \<Rightarrow> LocalIngestRundown \<Rightarrow> ingest_error + LocalIngestRundown" where
  "swap_stories_data env rundownExternalId story0 story1 r =
     change_stories env rundownExternalId (swap_parts story0 story1) r"

definition move_parts :: "string list \<Rightarrow> string option \<Rightarrow> AnnotatedIngestPart list \<Rightarrow> ingest_error + AnnotatedIngestPart list" where
  "move_parts storyIds insertBeforeStoryId ps =
     (let movingParts = sort_key (\<lambda>p. the (index_of storyIds (ap_externalId p)))
            (filter (\<lambda>p. ap_externalId p \<in> set storyIds) ps);
          filteredParts = filter (\<lambda>p. ap_externalId p \<notin> set storyIds) ps;
          missingIds = filter (\<lambda>i. i \<notin> set (map ap_externalId movingParts)) storyIds
      in if missingIds \<noteq> [] then Inl (PartsWereNotFound missingIds)
         else and_then (insert_point insertBeforeStoryId filteredParts)
                (\<lambda>insertIndex. Inr (splice insertIndex 0 movingParts filteredParts)))"

definition move_stories_data ::
  "('z) ingest_env_scheme \<Rightarrow> string \<Rightarrow> string list \<Rightarrow> string option \<Rightarrow> LocalIngestRundown
   \<Rightarrow> ingest_error + LocalIngestRundown" where
  "move_stories_data env rundownExternalId storyIds insertBeforeStoryId r =
     change_stories env rundownExternalId (move_parts storyIds insertBeforeStoryId) r"

subsection \<open>MOS rundowns\<close>

record mos_running_order =
  ro_ID :: string
  ro_Slug :: string
  ro_Stories :: "mos_story option list"
  ro_payload :: json

definition part_cache ::
  "(string \<Rightarrow> string) \<Rightarrow> RundownId \<Rightarrow> LocalIngestRundown \<Rightarrow> ingest_error + (PartId, LocalIngestPart) js_map" where
  "part_cache getHash rundownId r =
     fold_or_fail (\<lambda>p m. and_then (getPartId getHash rundownId (ip_externalId p)) (\<lambda>i. Inr (map_set i p m)))
       (concat (map is_parts (ir_segments r))) []"

definition keep_payload ::
  "(PartId, LocalIngestPart) js_map \<Rightarrow> (string \<Rightarrow> PartId option) \<Rightarrow> LocalIngestPart \<Rightarrow> LocalIngestPart" where
  "keep_payload cache partId_of p =
     (case Option.bind (partId_of (ip_externalId p)) (map_get cache) of
        None \<Rightarrow> p | Some cached \<Rightarrow> if ip_payload p = None then p\<lparr>ip_payload := ip_payload cached\<rparr> else p)"

definition mos_rundown_data ::
  "('z) ingest_env_scheme \<Rightarrow> string \<Rightarrow> mos_running_order \<Rightarrow> bool \<Rightarrow> LocalIngestRundown option
   \<Rightarrow> ingest_error + UpdateIngestRundownAction" where
  \<comment> \<open>the groups hold the objects of the annotated parts, whose payload is set after they are grouped\<close>
  "mos_rundown_data env rundownExternalId ro isUpdateOperation old =
     and_then (env_rundownId env rundownExternalId) (\<lambda>rundownId.
     and_then (storiesToIngestParts (ie_getHash env) (ie_now env) rundownId (ro_Stories ro) isUpdateOperation []) (\<lambda>parts.
     (let parts = compact parts;
          groupedStories = groupIngestParts parts;
          partId_of = (\<lambda>e. map_option ap_partId (find (\<lambda>p. ap_externalId p = e) parts))
      in and_then (case old of
             Some r \<Rightarrow> if isUpdateOperation then part_cache (ie_getHash env) rundownId r else Inr []
           | None \<Rightarrow> Inr [])
         (\<lambda>cache. let groups = map (\<lambda>(name, ps). (name, map (keep_payload cache partId_of) ps)) groupedStories
            in Inr (UpdateIngestRundown \<lparr>ir_externalId = rundownExternalId, ir_name = ro_Slug ro, ir_type = ''mos'',
                 ir_segments = groupedPartsToSegments rundownId groups, ir_payload = Some (ro_payload ro),
                 ir_modified = ie_now env\<rparr>)))))"

subsection \<open>Parts, segments and rundowns of other gateways\<close>

definition with_segment ::
  "string \<Rightarrow> (LocalIngestSegment \<Rightarrow> LocalIngestSegment) \<Rightarrow> LocalIngestRundown \<Rightarrow> ingest_error + LocalIngestRundown" where
  "with_segment externalId f r =
     (if \<not> (\<exists>s\<in>set (ir_segments r). is_externalId s = externalId) then Inl (IngestSegmentNotFound externalId)
      else Inr (r\<lparr>ir_segments := update_first (\<lambda>s. is_externalId s = externalId) f (ir_segments r)\<rparr>))"

definition removed_part_data :: "time \<Rightarrow> string \<Rightarrow> string \<Rightarrow> LocalIngestRundown \<Rightarrow> ingest_error + LocalIngestRundown" where
  "removed_part_data now segmentExternalId partExternalId = with_segment segmentExternalId
     (\<lambda>s. s\<lparr>is_parts := filter (\<lambda>p. ip_externalId p \<noteq> partExternalId) (is_parts s), is_modified := now\<rparr>)"

definition updated_part_data ::
  "time \<Rightarrow> string \<Rightarrow> LocalIngestPart \<Rightarrow> LocalIngestRundown \<Rightarrow> ingest_error + LocalIngestRundown" where
  "updated_part_data now segmentExternalId ingestPart = with_segment segmentExternalId
     (\<lambda>s. s\<lparr>is_parts := filter (\<lambda>p. ip_externalId p \<noteq> ip_externalId ingestPart) (is_parts s) @ [makeNewIngestPart now ingestPart],
        is_modified := now\<rparr>)"

definition regenerate_segment_data :: "string \<Rightarrow> LocalIngestRundown \<Rightarrow> ingest_error + LocalIngestRundown" where
  "regenerate_segment_data segmentExternalId = with_segment segmentExternalId (\<lambda>s. s)"

definition removed_segment_data :: "time \<Rightarrow> string \<Rightarrow> LocalIngestRundown \<Rightarrow> ingest_error + LocalIngestRundown" where
  "removed_segment_data now segmentExternalId r =
     (let segments = filter (\<lambda>s. is_externalId s \<noteq> segmentExternalId) (ir_segments r)
      in if length segments = length (ir_segments r) then Inl (IngestSegmentNotFound segmentExternalId)
         else Inr (r\<lparr>ir_segments := segments, ir_modified := now\<rparr>))"

definition updated_segment_data :: "time \<Rightarrow> LocalIngestSegment \<Rightarrow> LocalIngestRundown \<Rightarrow> ingest_error + LocalIngestRundown" where
  "updated_segment_data now ingestSegment r =
     Inr (r\<lparr>ir_segments := filter (\<lambda>s. is_externalId s \<noteq> is_externalId ingestSegment) (ir_segments r)
              @ [makeNewIngestSegment now ingestSegment], ir_modified := now\<rparr>)"

definition segment_ranks_data :: "(string, rank) js_map \<Rightarrow> LocalIngestRundown \<Rightarrow> ingest_error + LocalIngestRundown" where
  "segment_ranks_data newRanks r =
     Inr (r\<lparr>ir_segments := map (\<lambda>s. s\<lparr>is_rank := nullish (map_get newRanks (is_externalId s)) (is_rank s)\<rparr>) (ir_segments r)\<rparr>)"

definition updated_rundown_data ::
  "time \<Rightarrow> string \<Rightarrow> bool \<Rightarrow> LocalIngestRundown \<Rightarrow> LocalIngestRundown option \<Rightarrow> ingest_error + UpdateIngestRundownAction" where
  "updated_rundown_data now rundownExternalId isCreateAction ingestRundown old =
     (if old \<noteq> None \<or> isCreateAction then Inr (UpdateIngestRundown (makeNewIngestRundown now ingestRundown))
      else Inl (MosRundownNotFound rundownExternalId))"

definition updated_metadata_data :: "time \<Rightarrow> LocalIngestRundown \<Rightarrow> LocalIngestRundown \<Rightarrow> ingest_error + LocalIngestRundown" where
  "updated_metadata_data now ingestRundown r = Inr ((makeNewIngestRundown now ingestRundown)\<lparr>ir_segments := ir_segments r\<rparr>)"

end
