(* ===== verification/Segment_Generation.thy ===== *)
theory Segment_Generation
  imports Ingest_Data
begin

text \<open>
  Segments from ingest data: \<open>ingest/generationSegment.ts\<close> and \<open>ingest/lib.ts\<close> of \<open>packages/job-worker/src\<close>. The
  blueprint is an argument, which gives a segment with parts for the data of a segment, or throws. Segments are
  generated one after the other, as when the blueprint answers in order. Notes, and the messages of invalid parts, are
  part of the body of a document; what is expected of packages, and whether packages were found since the blueprint
  ran, are arguments.
\<close>

section \<open>The surroundings\<close>

record IngestBlueprintPiece = IBlueprintPiece +
  bpiece_body :: json

record BlueprintResultPart =
  bp_part :: IngestPartDoc
  bp_pieces :: "IngestBlueprintPiece list"
  bp_adLibPieces :: "json IBlueprintOwned list"
  bp_actions :: "json IBlueprintOwned list"

record BlueprintResultSegment =
  bs_isHidden :: bool
  bs_parts :: "BlueprintResultPart list"

text \<open>
  The blueprint runs a second time, with the packages found meanwhile, when \<open>ge_needsReload\<close> says so. It selects a show
  style for a rundown or rejects it (\<open>ge_acceptsRundown\<close>), and gives its document or throws (\<open>ge_getRundown\<close>).
\<close>

record generation_env = ingest_env +
  ge_getSegment :: "bool \<Rightarrow> LocalIngestSegment \<Rightarrow> BlueprintResultSegment option"
  ge_needsReload :: "IngestSegmentModel \<Rightarrow> bool"
  ge_updateExpectedPackages :: "IngestPartModel \<Rightarrow> IngestPartModel"
  ge_preserveOrphanedSegmentPositionInRundown :: bool
  ge_blueprintId :: string
  ge_show_nat :: "nat \<Rightarrow> string"
  ge_acceptsRundown :: "LocalIngestRundown \<Rightarrow> bool"
  ge_getRundown :: "LocalIngestRundown \<Rightarrow> json option"

definition canRundownBeUpdated :: "IngestRundownDoc option \<Rightarrow> bool \<Rightarrow> bool" where
  "canRundownBeUpdated rundown isCreateAction =
     (case rundown of None \<Rightarrow> True | Some r \<Rightarrow> \<not> (ird_orphaned r \<noteq> None \<and> \<not> isCreateAction))"

definition canSegmentBeUpdated :: "IngestRundownDoc option \<Rightarrow> IngestSegmentModel option \<Rightarrow> bool \<Rightarrow> bool" where
  "canSegmentBeUpdated rundown segment isCreateAction =
     (if \<not> canRundownBeUpdated rundown False then False
      else case segment of
        None \<Rightarrow> True
      | Some s \<Rightarrow>
          if seg_orphaned (segmentImpl s) = Some SegDeleted \<and> \<not> isCreateAction then False
          else seg_orphaned (segmentImpl s) \<noteq> Some AdlibTesting)"

section \<open>One segment\<close>

definition owned_doc :: "RundownId \<Rightarrow> PartId \<Rightarrow> string \<times> json IBlueprintOwned \<Rightarrow> OwnedDoc" where
  "owned_doc rundownId partId = (\<lambda>(i, a). \<lparr>od_id = i, od_rundownId = rundownId, od_segmentId = None, od_partId = Some partId,
     od_created = 0, od_body = bo_body a\<rparr>)"

definition ingest_piece :: "Piece \<Rightarrow> IngestBlueprintPiece \<Rightarrow> IngestPieceDoc" where
  "ingest_piece p org = Piece.extend p \<lparr>piece_body = bpiece_body org\<rparr>"

definition put_part :: "IngestPartModel \<Rightarrow> IngestSegmentModel \<Rightarrow> IngestSegmentModel" where
  \<comment> \<open>a change of the part model that is in the segment\<close>
  "put_part p m = m\<lparr>partsImpl := map_set (part_id (partImpl p)) \<lparr>partModel = p, pw_deleted = False\<rparr> (partsImpl m)\<rparr>"

definition processed :: "post_process_error + 'a \<Rightarrow> ingest_error + 'a" where
  "processed = map_sum PostProcess id"

definition updateModelWithGeneratedPart ::
  "generation_env \<Rightarrow> nat \<times> BlueprintResultPart \<Rightarrow> IngestSegmentModel \<Rightarrow> ingest_error + IngestSegmentModel" where
  "updateModelWithGeneratedPart env = (\<lambda>(i, blueprintPart) m.
     (let raw = bp_part blueprintPart; rundownId = seg_rundownId (segmentImpl m); segmentId = seg_id (segmentImpl m) in
      and_then (getPartId (ie_getHash env) rundownId (part_externalId raw)) (\<lambda>partId.
      (let part = raw\<lparr>part_rank := of_nat i\<rparr>;
           own = \<lparr>owner_rundownId = rundownId, owner_segmentId = segmentId, owner_partId = partId,
             owner_blueprintId = ge_blueprintId env\<rparr>
       in and_then (processed (postProcessPieces (ie_getHash env) (ge_show_nat env) own False (part_invalid part)
              (map IBlueprintPiece.truncate (bp_pieces blueprintPart)))) (\<lambda>pieces.
          and_then (processed (postProcessAdLibPieces (ie_getHash env) (ge_show_nat env) own (bp_adLibPieces blueprintPart)))
            (\<lambda>adlibs.
          and_then (processed (postProcessAdLibActions (ie_getHash env) (ge_show_nat env) own (bp_actions blueprintPart)))
            (\<lambda>actions.
          and_then (replacePart (ie_getHash env) part (map2 ingest_piece pieces (bp_pieces blueprintPart))
              (map (owned_doc rundownId partId) adlibs) (map (owned_doc rundownId partId) actions) m)
            (\<lambda>(p, m). Inr (put_part (ge_updateExpectedPackages env p) m)))))))))"

definition new_ingest_segment :: "LocalIngestSegment \<Rightarrow> bool \<Rightarrow> DBSegment" where
  "new_ingest_segment s hidden = \<lparr>seg_id = [], seg_rank = is_rank s, seg_externalId = is_externalId s,
     seg_externalModified = is_modified s, seg_rundownId = [], isHidden = hidden, seg_orphaned = None\<rparr>"

definition createInternalErrorSegment :: "LocalIngestSegment \<Rightarrow> DBSegment" where
  "createInternalErrorSegment s = new_ingest_segment s False"

definition put_segment :: "SegmentId \<Rightarrow> IngestSegmentModel \<Rightarrow> IngestModel \<Rightarrow> IngestModel" where
  "put_segment i s m = m\<lparr>segmentsImpl := map_set i \<lparr>segmentModel = s, sw_deleted = False\<rparr> (segmentsImpl m)\<rparr>"

definition updateModelWithGeneratedSegment ::
  "generation_env \<Rightarrow> LocalIngestSegment \<Rightarrow> BlueprintResultSegment \<Rightarrow> IngestModel \<Rightarrow> ingest_error + (SegmentId \<times> IngestModel)" where
  "updateModelWithGeneratedSegment env s result m =
     and_then (replaceSegment (ie_getHash env) (new_ingest_segment s (bs_isHidden result)) m) (\<lambda>(i, m).
       (case getSegment i m of
          None \<Rightarrow> Inr (i, m)
        | Some segment \<Rightarrow>
            and_then (fold_or_fail (updateModelWithGeneratedPart env) (enumerate 0 (bs_parts result)) segment)
              (\<lambda>segment. Inr (i, put_segment i segment m))))"

definition regenerateSegmentAndUpdateModel ::
  "generation_env \<Rightarrow> bool \<Rightarrow> LocalIngestSegment \<Rightarrow> IngestModel \<Rightarrow> ingest_error + (SegmentId \<times> IngestModel)" where
  "regenerateSegmentAndUpdateModel env reloaded s m =
     and_then (ingest_getRundown m) (\<lambda>_. case ge_getSegment env reloaded s of
         None \<Rightarrow> replaceSegment (ie_getHash env) (createInternalErrorSegment s) m
       | Some result \<Rightarrow> updateModelWithGeneratedSegment env s result m)"

section \<open>Segments that are gone but kept\<close>

definition rankPad :: rank where
  "rankPad = 1 / 10000"

definition MIN_SAFE_INTEGER :: rank where
  "MIN_SAFE_INTEGER = - 9007199254740991"

definition orphaned_rank :: "DBSegment \<Rightarrow> DBSegment option \<Rightarrow> DBSegment option \<Rightarrow> DBSegment option \<Rightarrow> rank" where
  "orphaned_rank newSegment previousSegment nextSegment previousPreviousSegment =
     (case previousSegment of
        None \<Rightarrow> MIN_SAFE_INTEGER
      | Some previous \<Rightarrow>
          if seg_id previous = seg_id newSegment
          then if seg_rank newSegment < seg_rank previous then seg_rank newSegment + rankPad
               else (case previousPreviousSegment of
                   Some previousPrevious \<Rightarrow>
                     if seg_rank previous < seg_rank newSegment then seg_rank previousPrevious + rankPad
                     else seg_rank previous + rankPad
                 | None \<Rightarrow> seg_rank previous + rankPad)
          else (case nextSegment of
              None \<Rightarrow> seg_rank previous + rankPad
            | Some next \<Rightarrow>
                if seg_id next = seg_id newSegment \<and> seg_rank newSegment < seg_rank next
                then (case previousPreviousSegment of
                    Some previousPrevious \<Rightarrow>
                      if seg_rank previousPrevious < seg_rank newSegment then seg_rank previousPrevious + rankPad
                      else seg_rank previous + rankPad
                  | None \<Rightarrow> MIN_SAFE_INTEGER)
                else seg_rank previous + rankPad))"

definition segment_doc_at :: "SegmentId list \<Rightarrow> nat \<Rightarrow> IngestModel \<Rightarrow> DBSegment option" where
  \<comment> \<open>the document that is now at that place of the list\<close>
  "segment_doc_at ids i m = (if i < length ids then map_option segmentImpl (getSegment (ids ! i) m) else None)"

definition move_orphaned :: "DBSegment \<Rightarrow> SegmentId list \<Rightarrow> SegmentId \<Rightarrow> IngestModel \<Rightarrow> IngestModel" where
  "move_orphaned newSegment ids orphaned m =
     (case index_of ids orphaned of
        None \<Rightarrow> m
      | Some removedInd \<Rightarrow>
          on_segment orphaned (snd \<circ> setRank (orphaned_rank newSegment (segment_doc_at ids (removedInd + 1) m)
            (if removedInd = 0 then None else segment_doc_at ids (removedInd - 1) m) (segment_doc_at ids (removedInd + 2) m))) m)"

definition preserveOrphanedSegmentPositionInRundown :: "generation_env \<Rightarrow> DBSegment \<Rightarrow> IngestModel \<Rightarrow> IngestModel" where
  "preserveOrphanedSegmentPositionInRundown env newSegment m =
     (if \<not> ge_preserveOrphanedSegmentPositionInRundown env then m
      else let allSegmentsByRank = map segmentImpl (getOrderedSegments m);
               orphanedDeletedSegments = filter (\<lambda>s. seg_orphaned s = Some SegDeleted) allSegmentsByRank
           in fold (move_orphaned newSegment (map seg_id allSegmentsByRank)) (map seg_id orphanedDeletedSegments) m)"

section \<open>Segments of an ingest operation\<close>

definition regenerateSegmentAndUpdateModelFull ::
  "generation_env \<Rightarrow> LocalIngestSegment \<Rightarrow> IngestModel \<Rightarrow> ingest_error + (SegmentId \<times> IngestModel)" where
  "regenerateSegmentAndUpdateModelFull env ingestSegment m =
     (let s = ingestSegment\<lparr>is_parts := sort_key ip_rank (is_parts ingestSegment)\<rparr> in
      and_then (getSegmentId (ie_getHash env) (im_rundownId m) (is_externalId s)) (\<lambda>_.
      and_then (regenerateSegmentAndUpdateModel env False s m) (\<lambda>(i, m).
      and_then (if (case getSegment i m of None \<Rightarrow> False | Some segment \<Rightarrow> ge_needsReload env segment)
          then regenerateSegmentAndUpdateModel env True s m else Inr (i, m))
        (\<lambda>(i, m). Inr (i, case getSegment i m of None \<Rightarrow> m
           | Some segment \<Rightarrow> preserveOrphanedSegmentPositionInRundown env (segmentImpl segment) m)))))"

definition calculateSegmentsFromIngestData ::
  "generation_env \<Rightarrow> LocalIngestSegment list \<Rightarrow> IngestModel \<Rightarrow> ingest_error + (SegmentId list \<times> IngestModel)" where
  "calculateSegmentsFromIngestData env ingestSegments m =
     and_then (ingest_getRundown m) (\<lambda>_.
       fold_or_fail (\<lambda>s (ids, m). and_then (regenerateSegmentAndUpdateModelFull env s m) (\<lambda>(i, m). Inr (ids @ [i], m)))
         ingestSegments ([], m))"

text \<open>What the commit of an ingest operation is told.\<close>

record CommitIngestData =
  changedSegmentIds :: "SegmentId list"
  removedSegmentIds :: "SegmentId list"
  renamedSegments :: "(SegmentId, SegmentId) js_map option"
  removeRundown :: bool
  returnRemoveFailure :: bool

definition commit_data :: "SegmentId list \<Rightarrow> SegmentId list \<Rightarrow> CommitIngestData" where
  "commit_data changed removed = \<lparr>changedSegmentIds = changed, removedSegmentIds = removed, renamedSegments = None,
     removeRundown = False, returnRemoveFailure = False\<rparr>"

definition updateSegmentFromIngestData ::
  "generation_env \<Rightarrow> LocalIngestSegment \<Rightarrow> bool \<Rightarrow> IngestModel \<Rightarrow> ingest_error + (CommitIngestData option \<times> IngestModel)" where
  "updateSegmentFromIngestData env ingestSegment isNewSegment m =
     and_then (ingest_getRundown m) (\<lambda>rundown.
     and_then (getSegmentId (ie_getHash env) (im_rundownId m) (is_externalId ingestSegment)) (\<lambda>segmentId.
       if \<not> isNewSegment \<and> getSegment segmentId m = None then Inl (IngestedSegmentNotFound segmentId)
       else if \<not> canSegmentBeUpdated (Some rundown) (getSegment segmentId m) isNewSegment then Inr (None, m)
       else and_then (calculateSegmentsFromIngestData env [ingestSegment] m) (\<lambda>(changed, m). Inr (Some (commit_data changed []), m))))"

definition segment_to_regenerate :: "IngestRundownDoc \<Rightarrow> LocalIngestRundown \<Rightarrow> IngestModel \<Rightarrow> SegmentId \<Rightarrow> LocalIngestSegment option" where
  "segment_to_regenerate rundown r m segmentId =
     (case getSegment segmentId m of
        None \<Rightarrow> None
      | Some segment \<Rightarrow>
          if \<not> canSegmentBeUpdated (Some rundown) (Some segment) False then None
          else find (\<lambda>s. is_externalId s = seg_externalId (segmentImpl segment)) (ir_segments r))"

definition regenerateSegmentsFromIngestData ::
  "generation_env \<Rightarrow> LocalIngestRundown \<Rightarrow> SegmentId list \<Rightarrow> IngestModel
   \<Rightarrow> ingest_error + (CommitIngestData option \<times> SegmentId list \<times> IngestModel)" where
  "regenerateSegmentsFromIngestData env r segmentIds m =
     (if segmentIds = [] then Inr (None, [], m)
      else and_then (ingest_getRundown m) (\<lambda>rundown.
        let skippedSegments = filter (\<lambda>i. segment_to_regenerate rundown r m i = None) segmentIds;
            ingestSegments = compact (map (segment_to_regenerate rundown r m) segmentIds)
        in and_then (calculateSegmentsFromIngestData env ingestSegments m)
             (\<lambda>(changed, m). Inr (Some (commit_data changed []), skippedSegments, m))))"

definition calculateSegmentsAndRemovalsFromIngestData ::
  "generation_env \<Rightarrow> LocalIngestRundown \<Rightarrow> IngestModel \<Rightarrow> ingest_error + (SegmentId list \<times> SegmentId list \<times> IngestModel)" where
  "calculateSegmentsAndRemovalsFromIngestData env r m =
     and_then (calculateSegmentsFromIngestData env (ir_segments r) m) (\<lambda>(changed, m).
       let removed = filter (\<lambda>i. i \<notin> set changed) (map (seg_id \<circ> segmentImpl) (getAllSegments m))
       in Inr (changed @ removed, removed, fold (\<lambda>i. on_segment i (setOrphaned (Some SegDeleted))) removed m))"

section \<open>The rundown\<close>

definition setRundownData :: "json \<Rightarrow> IngestModel \<Rightarrow> IngestModel" where
  "setRundownData body m = m\<lparr>im_rundown := Some
     \<lparr>ird_orphaned = None, ird_airStatus = Option.bind (im_rundown m) ird_airStatus,
      ird_status = Option.bind (im_rundown m) ird_status, ird_body = body\<rparr>\<rparr>"

definition regenerateRundownAndBaselineFromIngestData ::
  "generation_env \<Rightarrow> LocalIngestRundown \<Rightarrow> IngestModel \<Rightarrow> IngestModel option" where
  \<comment> \<open>nothing, when the blueprint throws; the baseline is left out\<close>
  "regenerateRundownAndBaselineFromIngestData env r m = map_option (\<lambda>body. setRundownData body m) (ge_getRundown env r)"

definition updateRundownFromIngestData ::
  "generation_env \<Rightarrow> LocalIngestRundown \<Rightarrow> bool \<Rightarrow> IngestModel \<Rightarrow> ingest_error + (CommitIngestData option \<times> IngestModel)" where
  "updateRundownFromIngestData env r isCreateAction m =
     (if \<not> canRundownBeUpdated (im_rundown m) isCreateAction then Inr (None, m)
      else if \<not> ge_acceptsRundown env r then Inl BlueprintRejectedRundown
      else case regenerateRundownAndBaselineFromIngestData env r m of
        None \<Rightarrow> Inr (None, m)
      | Some m \<Rightarrow> and_then (calculateSegmentsAndRemovalsFromIngestData env r m)
          (\<lambda>(changed, removed, m). Inr (Some (commit_data changed removed), m)))"

definition updateRundownMetadataFromIngestData ::
  "generation_env \<Rightarrow> LocalIngestRundown \<Rightarrow> IngestModel \<Rightarrow> ingest_error + (CommitIngestData option \<times> IngestModel)" where
  "updateRundownMetadataFromIngestData env r m =
     (if \<not> canRundownBeUpdated (im_rundown m) False then Inr (None, m)
      else case im_rundown m of
        None \<Rightarrow> Inl RundownDocNotFound
      | Some existingRundown \<Rightarrow>
          if \<not> ge_acceptsRundown env r then Inl BlueprintRejectedRundown
          else (case regenerateRundownAndBaselineFromIngestData env r m of
            None \<Rightarrow> Inr (None, m)
          | Some m \<Rightarrow>
              if Some (ird_body existingRundown) = map_option ird_body (im_rundown m) then Inr (Some (commit_data [] []), m)
              else and_then (calculateSegmentsAndRemovalsFromIngestData env r m)
                (\<lambda>(changed, removed, m). Inr (Some (commit_data changed removed), m))))"

end
