(* ===== verification/Ingest_Jobs.thy ===== *)
theory Ingest_Jobs
  imports Segment_Generation
begin

text \<open>
  The ingest jobs of \<open>packages/job-worker/src/ingest\<close>: \<open>mosDevice/diff.ts\<close>, the second stage of the jobs in
  \<open>mosDevice/mosStoryJobs.ts\<close>, \<open>mosDevice/mosRundownJobs.ts\<close>, \<open>ingestPartJobs.ts\<close>, \<open>ingestSegmentJobs.ts\<close> and
  \<open>ingestRundownJobs.ts\<close>, which brings the model of the rundown in step with the changed ingest data, and
  \<open>runIngestJob\<close> of \<open>lock.ts\<close> around both up to the commit. Objects keyed by the external ids of segments are maps in
  the order of insertion: such an id is no array index.
\<close>

section \<open>The difference of two lists of segments\<close>

type_synonym SegmentEntries = "(string, LocalIngestSegment) js_map"

definition compileSegmentEntries :: "LocalIngestSegment list \<Rightarrow> ingest_error + SegmentEntries" where
  "compileSegmentEntries segments = fold_or_fail (\<lambda>s entries.
     if map_has entries (is_externalId s) then Inl (NonUniqueSegmentExternalId (is_externalId s))
     else Inr (map_set (is_externalId s) s entries)) segments []"

record DiffSegmentEntries =
  df_added :: SegmentEntries
  df_changed :: SegmentEntries
  df_removed :: SegmentEntries
  df_unchanged :: SegmentEntries
  df_onlyRankChanged :: "(string, rank) js_map"
  df_externalIdChanged :: "(string, string) js_map"

definition old_segment_map :: "IngestSegmentModel list \<Rightarrow> (string, DBSegment) js_map" where
  "old_segment_map segments = fold (\<lambda>s. map_set (seg_externalId (segmentImpl s)) (segmentImpl s)) segments []"

definition diff_new_entry ::
  "SegmentEntries \<Rightarrow> (string, DBSegment) js_map option \<Rightarrow> string \<times> LocalIngestSegment \<Rightarrow> DiffSegmentEntries \<Rightarrow> DiffSegmentEntries" where
  "diff_new_entry oldEntries oldSegmentMap = (\<lambda>(i, new) diff.
     (let added = diff\<lparr>df_added := map_set i new (df_added diff)\<rparr>;
          oldSegment = Option.bind oldSegmentMap (\<lambda>m. map_get m (is_externalId new))
      in if oldSegmentMap \<noteq> None \<and> oldSegment = None then added
         else case map_get oldEntries i of
           None \<Rightarrow> added
         | Some old \<Rightarrow>
            (let modifiedIsEqual = (case oldSegment of Some s \<Rightarrow> is_modified new = seg_externalModified s | None \<Rightarrow> True);
                 ingestContentIsEqual = (new\<lparr>is_rank := 0\<rparr> = old\<lparr>is_rank := 0\<rparr>);
                 rankIsEqual = (case oldSegment of Some s \<Rightarrow> is_rank new = seg_rank s | None \<Rightarrow> is_rank new = is_rank old)
             in if modifiedIsEqual \<and> ingestContentIsEqual \<and> rankIsEqual
                then diff\<lparr>df_unchanged := map_set i new (df_unchanged diff)\<rparr>
                else let diff = diff\<lparr>df_changed := map_set i new (df_changed diff)\<rparr>
                  in if ingestContentIsEqual \<and> \<not> rankIsEqual
                     then diff\<lparr>df_onlyRankChanged := map_set i (is_rank new) (df_onlyRankChanged diff)\<rparr> else diff)))"

definition diff_old_entry :: "SegmentEntries \<Rightarrow> string \<times> LocalIngestSegment \<Rightarrow> DiffSegmentEntries \<Rightarrow> DiffSegmentEntries" where
  "diff_old_entry newEntries = (\<lambda>(i, old) diff.
     if map_get newEntries i = None then diff\<lparr>df_removed := map_set i old (df_removed diff)\<rparr> else diff)"

definition renamed_to :: "SegmentEntries \<Rightarrow> LocalIngestSegment \<Rightarrow> LocalIngestSegment option" where
  \<comment> \<open>the added segment of the same name, or else one that shares a part\<close>
  "renamed_to added old =
     (case find (\<lambda>s. is_name s = is_name old) (map snd added) of
        Some s \<Rightarrow> Some s
      | None \<Rightarrow> find (\<lambda>s. \<exists>p\<in>set (is_parts old). \<exists>q\<in>set (is_parts s). ip_externalId q = ip_externalId p) (map snd added))"

definition diff_removed_entry :: "string \<times> LocalIngestSegment \<Rightarrow> DiffSegmentEntries \<Rightarrow> DiffSegmentEntries" where
  "diff_removed_entry = (\<lambda>(i, old) diff. case renamed_to (df_added diff) old of
     None \<Rightarrow> diff
   | Some s \<Rightarrow> diff\<lparr>df_externalIdChanged := map_set i (is_externalId s) (df_externalIdChanged diff)\<rparr>)"

definition diffSegmentEntries ::
  "SegmentEntries \<Rightarrow> SegmentEntries \<Rightarrow> IngestSegmentModel list option \<Rightarrow> DiffSegmentEntries" where
  "diffSegmentEntries oldEntries newEntries oldSegments =
     (let diff = \<lparr>df_added = [], df_changed = [], df_removed = [], df_unchanged = [], df_onlyRankChanged = [],
            df_externalIdChanged = []\<rparr>;
          diff = fold (diff_new_entry oldEntries (map_option old_segment_map oldSegments)) newEntries diff;
          diff = fold (diff_old_entry newEntries) oldEntries diff
      in fold diff_removed_entry (df_removed diff) diff)"

section \<open>Applying it\<close>

definition truthy_number :: "rank option \<Rightarrow> bool" where
  "truthy_number r = (r \<noteq> None \<and> r \<noteq> Some 0)"

definition apply_rename ::
  "('z) ingest_env_scheme \<Rightarrow> DiffSegmentEntries \<Rightarrow> bool \<Rightarrow> string \<times> string
   \<Rightarrow> (SegmentId, SegmentId) js_map \<times> IngestModel \<Rightarrow> ingest_error + ((SegmentId, SegmentId) js_map \<times> IngestModel)" where
  "apply_rename env segmentDiff canDiscardParts = (\<lambda>(oldExternalId, newExternalId) (renamed, m).
     and_then (getSegmentId (ie_getHash env) (im_rundownId m) oldExternalId) (\<lambda>oldSegmentId.
     and_then (getSegmentId (ie_getHash env) (im_rundownId m) newExternalId) (\<lambda>newSegmentId.
     (let renamed = map_set oldSegmentId newSegmentId renamed in
      if getSegment oldSegmentId m = None then Inr (renamed, m)
      else if getSegment newSegmentId m \<noteq> None
      then if \<not> (canDiscardParts \<and> \<not> truthy_number (map_get (df_onlyRankChanged segmentDiff) oldExternalId))
           then Inl CannotMergeSegments
           else Inr (renamed, removeSegment oldSegmentId m)
      else and_then (changeSegmentId oldSegmentId newSegmentId m) (\<lambda>(_, m). Inr (renamed, m))))))"

definition applyExternalIdDiff ::
  "('z) ingest_env_scheme \<Rightarrow> DiffSegmentEntries \<Rightarrow> bool \<Rightarrow> IngestModel
   \<Rightarrow> ingest_error + ((SegmentId, SegmentId) js_map \<times> IngestModel)" where
  "applyExternalIdDiff env segmentDiff canDiscardParts m =
     fold_or_fail (apply_rename env segmentDiff canDiscardParts) (df_externalIdChanged segmentDiff) ([], m)"

definition segment_diff ::
  "LocalIngestRundown \<Rightarrow> LocalIngestRundown \<Rightarrow> IngestModel \<Rightarrow> ingest_error + DiffSegmentEntries" where
  "segment_diff old new m =
     and_then (compileSegmentEntries (ir_segments old)) (\<lambda>oldEntries.
     and_then (compileSegmentEntries (ir_segments new)) (\<lambda>newEntries.
       Inr (diffSegmentEntries oldEntries newEntries (Some (getOrderedSegments m)))))"

definition diffAndUpdateSegmentIds ::
  "('z) ingest_env_scheme \<Rightarrow> LocalIngestRundown \<Rightarrow> LocalIngestRundown \<Rightarrow> IngestModel
   \<Rightarrow> ingest_error + ((SegmentId, SegmentId) js_map \<times> IngestModel)" where
  "diffAndUpdateSegmentIds env old new m =
     and_then (segment_diff old new m) (\<lambda>diff. applyExternalIdDiff env diff False m)"

definition on_external_segment ::
  "('z) ingest_env_scheme \<Rightarrow> (IngestSegmentModel \<Rightarrow> IngestSegmentModel) \<Rightarrow> string \<Rightarrow> IngestModel \<Rightarrow> ingest_error + IngestModel" where
  "on_external_segment env f externalId m =
     and_then (getSegmentId (ie_getHash env) (im_rundownId m) externalId) (\<lambda>i. Inr (on_segment i f m))"

definition orphan_removed ::
  "('z) ingest_env_scheme \<Rightarrow> string \<Rightarrow> SegmentId list \<times> IngestModel \<Rightarrow> ingest_error + (SegmentId list \<times> IngestModel)" where
  "orphan_removed env externalId = (\<lambda>(orphanedSegmentIds, m).
     and_then (getSegmentId (ie_getHash env) (im_rundownId m) externalId) (\<lambda>i. case getSegment i m of
         None \<Rightarrow> Inr (orphanedSegmentIds, m)
       | Some s \<Rightarrow> Inr (orphanedSegmentIds @ [seg_id (segmentImpl s)],
           on_segment i (\<lambda>s. snd (removeAllParts (setOrphaned (Some SegDeleted) s))) m)))"

definition segments_to_regenerate :: "DiffSegmentEntries \<Rightarrow> LocalIngestSegment list" where
  "segments_to_regenerate diff = sort_key is_rank (map snd (df_added diff)
     @ filter (\<lambda>s. \<not> truthy_number (map_get (df_onlyRankChanged diff) (is_externalId s))) (map snd (df_changed diff)))"

definition diffAndApplyChanges ::
  "generation_env \<Rightarrow> LocalIngestRundown option \<Rightarrow> LocalIngestRundown option \<Rightarrow> IngestModel
   \<Rightarrow> ingest_error + (CommitIngestData option \<times> IngestModel)" where
  "diffAndApplyChanges env newIngestRundown oldIngestRundown m =
     (case (newIngestRundown, oldIngestRundown) of
        (None, _) \<Rightarrow> Inl LostIngestRundown
      | (_, None) \<Rightarrow> Inl LostOldIngestRundown
      | (Some new, Some old) \<Rightarrow>
          and_then (ingest_getRundown m) (\<lambda>rundown.
          if \<not> canRundownBeUpdated (Some rundown) False then Inr (None, m)
          else and_then (segment_diff old new m) (\<lambda>diff.
            and_then (fold_or_fail (\<lambda>(i, r). on_external_segment env (snd \<circ> setRank r) i) (df_onlyRankChanged diff) m) (\<lambda>m.
            and_then (applyExternalIdDiff env diff True m) (\<lambda>(renamed, m).
            and_then (calculateSegmentsFromIngestData env (segments_to_regenerate diff) m) (\<lambda>(changed, m).
            and_then (fold_or_fail (orphan_removed env) (map fst (df_removed diff)) ([], m)) (\<lambda>(orphaned, m).
              Inr (Some \<lparr>changedSegmentIds = changed, removedSegmentIds = orphaned, renamedSegments = Some renamed,
                removeRundown = False, returnRemoveFailure = False\<rparr>, m))))))))"

section \<open>Jobs\<close>

type_synonym update_stage = "LocalIngestRundown option \<Rightarrow> ingest_error + UpdateIngestRundownAction"
type_synonym calc_stage = "LocalIngestRundown option \<Rightarrow> LocalIngestRundown option \<Rightarrow> IngestModel
  \<Rightarrow> ingest_error + (CommitIngestData option \<times> IngestModel)"

text \<open>
  A job leaves the ingest data that is stored, and then has failed, was rejected, or has the model and what the commit
  is told.
\<close>

datatype ingest_outcome =
    JobFailed ingest_error
  | JobRejected
  | JobCalculated "CommitIngestData option" IngestModel

definition runIngestJob ::
  "('z) ingest_env_scheme \<Rightarrow> string \<Rightarrow> update_stage \<Rightarrow> calc_stage \<Rightarrow> LocalIngestRundown option \<times> IngestModel
   \<Rightarrow> LocalIngestRundown option \<times> ingest_outcome" where
  \<comment> \<open>the data is saved even when the second stage throws\<close>
  "runIngestJob env rundownExternalId updateCacheFcn calcFcn = (\<lambda>(oldIngestRundown, m).
     let calculate = (\<lambda>newIngestRundown. (newIngestRundown, case calcFcn newIngestRundown oldIngestRundown m of
           Inl e \<Rightarrow> JobFailed e | Inr (commit, m) \<Rightarrow> JobCalculated commit m))
     in case env_rundownId env rundownExternalId of
          Inl e \<Rightarrow> (oldIngestRundown, JobFailed e)
        | Inr _ \<Rightarrow> (case updateCacheFcn oldIngestRundown of
            Inl e \<Rightarrow> (oldIngestRundown, JobFailed e)
          | Inr RejectUpdate \<Rightarrow> (oldIngestRundown, JobRejected)
          | Inr DeleteIngestRundown \<Rightarrow> calculate None
          | Inr (UpdateIngestRundown r) \<Rightarrow> calculate (Some r)))"

definition segment_calc ::
  "generation_env \<Rightarrow> (LocalIngestSegment \<Rightarrow> bool) \<Rightarrow> string \<Rightarrow> bool \<Rightarrow> calc_stage" where
  \<comment> \<open>regenerate the first segment that is looked for\<close>
  "segment_calc env p name isCreateAction new old m =
     (case Option.bind new (\<lambda>r. find p (ir_segments r)) of
        None \<Rightarrow> Inl (IngestSegmentMissing name)
      | Some s \<Rightarrow> updateSegmentFromIngestData env s isCreateAction m)"

subsection \<open>MOS\<close>

definition handleMosFullStory ::
  "generation_env \<Rightarrow> string \<Rightarrow> mos_story \<Rightarrow> LocalIngestRundown option \<times> IngestModel \<Rightarrow> LocalIngestRundown option \<times> ingest_outcome" where
  "handleMosFullStory env e story = runIngestJob env e (update_existing e (full_story_data story))
     (segment_calc env (has_part (story_ID story)) (story_ID story) False)"

definition handleMosDeleteStory ::
  "generation_env \<Rightarrow> string \<Rightarrow> string list \<Rightarrow> LocalIngestRundown option \<times> IngestModel
   \<Rightarrow> LocalIngestRundown option \<times> ingest_outcome" where
  "handleMosDeleteStory env e stories st =
     (if stories = [] then (fst st, JobRejected)
      else runIngestJob env e (update_existing e (delete_stories_data env e stories)) (diffAndApplyChanges env) st)"

definition handleMosInsertStories ::
  "generation_env \<Rightarrow> string \<Rightarrow> string option \<Rightarrow> mos_story option list \<Rightarrow> bool \<Rightarrow> LocalIngestRundown option \<times> IngestModel
   \<Rightarrow> LocalIngestRundown option \<times> ingest_outcome" where
  "handleMosInsertStories env e before stories replace =
     runIngestJob env e (update_existing e (insert_stories_data env e before stories replace)) (diffAndApplyChanges env)"

definition handleMosSwapStories ::
  "generation_env \<Rightarrow> string \<Rightarrow> string \<Rightarrow> string \<Rightarrow> LocalIngestRundown option \<times> IngestModel
   \<Rightarrow> LocalIngestRundown option \<times> ingest_outcome" where
  "handleMosSwapStories env e story0 story1 st =
     (if story0 = story1 then (fst st, JobFailed (CannotSwapWithItself story0))
      else runIngestJob env e (update_existing e (swap_stories_data env e story0 story1)) (diffAndApplyChanges env) st)"

definition handleMosMoveStories ::
  "generation_env \<Rightarrow> string \<Rightarrow> string list \<Rightarrow> string option \<Rightarrow> LocalIngestRundown option \<times> IngestModel
   \<Rightarrow> LocalIngestRundown option \<times> ingest_outcome" where
  "handleMosMoveStories env e stories before =
     runIngestJob env e (update_existing e (move_stories_data env e stories before)) (diffAndApplyChanges env)"

definition mos_rundown_calc :: "generation_env \<Rightarrow> bool \<Rightarrow> calc_stage" where
  "mos_rundown_calc env isUpdateOperation new old m =
     (case new of
        None \<Rightarrow> Inl LostIngestRundown
      | Some new \<Rightarrow>
          if \<not> canRundownBeUpdated (im_rundown m) (\<not> isUpdateOperation) then Inr (None, m)
          else and_then (case (im_rundown m, old) of
                 (Some _, Some old) \<Rightarrow> and_then (diffAndUpdateSegmentIds env old new m) (\<lambda>(renamed, m). Inr (Some renamed, m))
               | _ \<Rightarrow> Inr (None, m))
             (\<lambda>(renamed, m). and_then (updateRundownFromIngestData env new (\<not> isUpdateOperation) m)
               (\<lambda>(commit, m). Inr (map_option (\<lambda>c. c\<lparr>renamedSegments := renamed\<rparr>) commit, m))))"

definition handleMosRundownData ::
  "generation_env \<Rightarrow> string \<Rightarrow> mos_running_order \<Rightarrow> bool \<Rightarrow> LocalIngestRundown option \<times> IngestModel
   \<Rightarrow> LocalIngestRundown option \<times> ingest_outcome" where
  "handleMosRundownData env e ro isUpdateOperation st =
     (if ro_ID ro \<noteq> e then (fst st, JobFailed RunningOrderMismatch)
      else runIngestJob env e (mos_rundown_data env e ro isUpdateOperation) (mos_rundown_calc env isUpdateOperation) st)"

definition metadata_calc :: "generation_env \<Rightarrow> calc_stage" where
  "metadata_calc env new old m = (case new of
     None \<Rightarrow> Inl LostIngestRundown | Some new \<Rightarrow> updateRundownMetadataFromIngestData env new m)"

definition handleMosRundownMetadata ::
  "generation_env \<Rightarrow> string \<Rightarrow> (json option \<Rightarrow> json option) \<Rightarrow> LocalIngestRundown option \<times> IngestModel
   \<Rightarrow> LocalIngestRundown option \<times> ingest_outcome" where
  \<comment> \<open>with the extension of the payload\<close>
  "handleMosRundownMetadata env e extend_payload = runIngestJob env e (update_existing e (\<lambda>r.
       Inr (r\<lparr>ir_payload := extend_payload (ir_payload r), ir_modified := ie_now env\<rparr>))) (metadata_calc env)"

definition ready_to_air_calc :: "generation_env \<Rightarrow> string \<Rightarrow> calc_stage" where
  "ready_to_air_calc env status new old m =
     (case new of
        None \<Rightarrow> Inl LostIngestRundown
      | Some new \<Rightarrow>
         (case im_rundown m of
            None \<Rightarrow> Inr (None, m)
          | Some rundown \<Rightarrow>
              if ird_airStatus rundown = Some status \<or> ird_orphaned rundown \<noteq> None then Inr (None, m)
              else updateRundownMetadataFromIngestData env new (m\<lparr>im_rundown := Some (rundown\<lparr>ird_airStatus := Some status\<rparr>)\<rparr>)))"

definition handleMosRundownReadyToAir ::
  "generation_env \<Rightarrow> string \<Rightarrow> string \<Rightarrow> LocalIngestRundown option \<times> IngestModel \<Rightarrow> LocalIngestRundown option \<times> ingest_outcome" where
  "handleMosRundownReadyToAir env e status = runIngestJob env e (update_existing e Inr) (ready_to_air_calc env status)"

definition handleMosRundownStatus :: "string \<Rightarrow> IngestRundownDoc option \<Rightarrow> ingest_error + IngestRundownDoc" where
  \<comment> \<open>on the document in the database, under the lock of the rundown\<close>
  "handleMosRundownStatus status rundown =
     (case rundown of
        None \<Rightarrow> Inl RundownDocNotFound
      | Some r \<Rightarrow> Inr (if canRundownBeUpdated (Some r) False then r\<lparr>ird_status := Some status\<rparr> else r))"

subsection \<open>Other gateways\<close>

definition handleRemovedPart ::
  "generation_env \<Rightarrow> string \<Rightarrow> string \<Rightarrow> string \<Rightarrow> LocalIngestRundown option \<times> IngestModel
   \<Rightarrow> LocalIngestRundown option \<times> ingest_outcome" where
  "handleRemovedPart env e segmentExternalId partExternalId =
     runIngestJob env e (update_existing e (removed_part_data (ie_now env) segmentExternalId partExternalId))
       (segment_calc env (\<lambda>s. is_externalId s = segmentExternalId) segmentExternalId False)"

definition handleUpdatedPart ::
  "generation_env \<Rightarrow> string \<Rightarrow> string \<Rightarrow> LocalIngestPart \<Rightarrow> LocalIngestRundown option \<times> IngestModel
   \<Rightarrow> LocalIngestRundown option \<times> ingest_outcome" where
  "handleUpdatedPart env e segmentExternalId ingestPart =
     runIngestJob env e (update_existing e (updated_part_data (ie_now env) segmentExternalId ingestPart))
       (segment_calc env (\<lambda>s. is_externalId s = segmentExternalId) segmentExternalId False)"

definition handleRegenerateSegment ::
  "generation_env \<Rightarrow> string \<Rightarrow> string \<Rightarrow> LocalIngestRundown option \<times> IngestModel \<Rightarrow> LocalIngestRundown option \<times> ingest_outcome" where
  "handleRegenerateSegment env e segmentExternalId =
     runIngestJob env e (update_existing e (regenerate_segment_data segmentExternalId))
       (segment_calc env (\<lambda>s. is_externalId s = segmentExternalId) segmentExternalId False)"

definition handleUpdatedSegment ::
  "generation_env \<Rightarrow> string \<Rightarrow> LocalIngestSegment \<Rightarrow> bool \<Rightarrow> LocalIngestRundown option \<times> IngestModel
   \<Rightarrow> LocalIngestRundown option \<times> ingest_outcome" where
  "handleUpdatedSegment env e ingestSegment isCreateAction =
     runIngestJob env e (update_existing e (updated_segment_data (ie_now env) ingestSegment))
       (segment_calc env (\<lambda>s. is_externalId s = is_externalId ingestSegment) (is_externalId ingestSegment) isCreateAction)"

definition removed_segment_calc :: "('z) ingest_env_scheme \<Rightarrow> string \<Rightarrow> calc_stage" where
  "removed_segment_calc env segmentExternalId new old m =
     and_then (ingest_getRundown m) (\<lambda>rundown.
     and_then (getSegmentId (ie_getHash env) (im_rundownId m) segmentExternalId) (\<lambda>segmentId.
       Inr (if canSegmentBeUpdated (Some rundown) (getSegment segmentId m) False then Some (commit_data [] [segmentId]) else None, m)))"

definition handleRemovedSegment ::
  "generation_env \<Rightarrow> string \<Rightarrow> string \<Rightarrow> LocalIngestRundown option \<times> IngestModel \<Rightarrow> LocalIngestRundown option \<times> ingest_outcome" where
  "handleRemovedSegment env e segmentExternalId =
     runIngestJob env e (update_existing e (removed_segment_data (ie_now env) segmentExternalId)) (removed_segment_calc env segmentExternalId)"

definition rank_segment ::
  "('z) ingest_env_scheme \<Rightarrow> string \<times> rank \<Rightarrow> SegmentId list \<times> IngestModel \<Rightarrow> ingest_error + (SegmentId list \<times> IngestModel)" where
  "rank_segment env = (\<lambda>(externalId, r) (changed, m).
     and_then (getSegmentId (ie_getHash env) (im_rundownId m) externalId) (\<lambda>i. case getSegment i m of
         None \<Rightarrow> Inr (changed, m)
       | Some s \<Rightarrow> Inr (if fst (setRank r s) then changed @ [seg_id (segmentImpl s)] else changed,
           on_segment i (snd \<circ> setRank r) m)))"

definition handleUpdatedSegmentRanks ::
  "generation_env \<Rightarrow> string \<Rightarrow> (string, rank) js_map \<Rightarrow> LocalIngestRundown option \<times> IngestModel
   \<Rightarrow> LocalIngestRundown option \<times> ingest_outcome" where
  "handleUpdatedSegmentRanks env e newRanks = runIngestJob env e (update_existing e (segment_ranks_data newRanks))
     (\<lambda>new old m. and_then (fold_or_fail (rank_segment env) newRanks ([], m)) (\<lambda>(changed, m). Inr (Some (commit_data changed []), m)))"

definition still_orphaned :: "SegmentOrphanedReason \<Rightarrow> SegmentId list \<Rightarrow> IngestModel \<Rightarrow> SegmentId list" where
  "still_orphaned reason ids m = map seg_id (filter (\<lambda>s. seg_orphaned s = Some reason \<and> seg_id s \<in> set ids)
     (map segmentImpl (getOrderedSegments m)))"

definition unhide :: "SegmentId \<Rightarrow> SegmentId list \<times> IngestModel \<Rightarrow> SegmentId list \<times> IngestModel" where
  "unhide i = (\<lambda>(changed, m).
     if i \<notin> set changed \<and> (case getSegment i m of None \<Rightarrow> False
          | Some s \<Rightarrow> isHidden (segmentImpl s) \<and> seg_orphaned (segmentImpl s) = Some SegHidden)
     then (changed @ [i], on_segment i (setOrphaned None) m) else (changed, m))"

definition orphaned_segments_calc :: "generation_env \<Rightarrow> SegmentId list \<Rightarrow> SegmentId list \<Rightarrow> calc_stage" where
  "orphaned_segments_calc env orphanedHiddenSegmentIds orphanedDeletedSegmentIds new old m =
     (case new of
        None \<Rightarrow> Inl LostIngestRundown
      | Some r \<Rightarrow>
         (let hiddenSegmentIds = still_orphaned SegHidden orphanedHiddenSegmentIds m;
              stillDeletedSegmentIds = still_orphaned SegDeleted orphanedDeletedSegmentIds m
          in and_then (regenerateSegmentsFromIngestData env r hiddenSegmentIds m) (\<lambda>(result, _, m).
            (let changed = (case result of None \<Rightarrow> [] | Some c \<Rightarrow> changedSegmentIds c);
                 (changed, m) = fold unhide hiddenSegmentIds (changed, m)
             in Inr (if changed = [] \<and> stillDeletedSegmentIds = [] then None
                     else Some (commit_data changed stillDeletedSegmentIds), m)))))"

definition handleRemoveOrphanedSegemnts ::
  "generation_env \<Rightarrow> string \<Rightarrow> SegmentId list \<Rightarrow> SegmentId list \<Rightarrow> LocalIngestRundown option \<times> IngestModel
   \<Rightarrow> LocalIngestRundown option \<times> ingest_outcome" where
  "handleRemoveOrphanedSegemnts env e hidden deleted = runIngestJob env e
     (\<lambda>r. Inr (case r of None \<Rightarrow> DeleteIngestRundown | Some r \<Rightarrow> UpdateIngestRundown r)) (orphaned_segments_calc env hidden deleted)"

definition removed_rundown_calc :: "bool \<Rightarrow> calc_stage" where
  "removed_rundown_calc forceDelete new old m =
     and_then (ingest_getRundown m) (\<lambda>rundown.
       if \<not> (forceDelete \<or> canRundownBeUpdated (Some rundown) False) then Inl UserRundownRemoveWhileActive
       else Inr (Some ((commit_data [] [])\<lparr>removeRundown := True, returnRemoveFailure := True\<rparr>), m))"

definition handleRemovedRundown ::
  "('z) ingest_env_scheme \<Rightarrow> string \<Rightarrow> bool \<Rightarrow> LocalIngestRundown option \<times> IngestModel \<Rightarrow> LocalIngestRundown option \<times> ingest_outcome" where
  "handleRemovedRundown env e forceDelete = runIngestJob env e (\<lambda>_. Inr DeleteIngestRundown) (removed_rundown_calc forceDelete)"

definition handleUpdatedRundown ::
  "generation_env \<Rightarrow> string \<Rightarrow> LocalIngestRundown \<Rightarrow> bool \<Rightarrow> LocalIngestRundown option \<times> IngestModel
   \<Rightarrow> LocalIngestRundown option \<times> ingest_outcome" where
  "handleUpdatedRundown env e ingestRundown isCreateAction =
     runIngestJob env e (updated_rundown_data (ie_now env) e isCreateAction ingestRundown)
       (\<lambda>new old m. case new of None \<Rightarrow> Inl LostIngestRundown | Some r \<Rightarrow> updateRundownFromIngestData env r isCreateAction m)"

definition handleUpdatedRundownMetaData ::
  "generation_env \<Rightarrow> string \<Rightarrow> LocalIngestRundown \<Rightarrow> LocalIngestRundown option \<times> IngestModel
   \<Rightarrow> LocalIngestRundown option \<times> ingest_outcome" where
  "handleUpdatedRundownMetaData env e ingestRundown =
     runIngestJob env e (update_existing e (updated_metadata_data (ie_now env) ingestRundown)) (metadata_calc env)"

definition handleRegenerateRundown ::
  "generation_env \<Rightarrow> string \<Rightarrow> LocalIngestRundown option \<times> IngestModel \<Rightarrow> LocalIngestRundown option \<times> ingest_outcome" where
  "handleRegenerateRundown env e = runIngestJob env e (update_existing e Inr)
     (\<lambda>new old m. case new of
        None \<Rightarrow> Inr (None, m)
      | Some r \<Rightarrow> if im_rundown m = None then Inl (MosRundownNotFound e) else updateRundownFromIngestData env r False m)"

definition handleUserUnsyncRundown :: "IngestRundownDoc option \<Rightarrow> IngestRundownDoc option" where
  \<comment> \<open>on the document in the database\<close>
  "handleUserUnsyncRundown rundown =
     map_option (\<lambda>r. if ird_orphaned r = None then r\<lparr>ird_orphaned := Some RundownManual\<rparr> else r) rundown"

end
