(* ===== verification/Mos_Story_Facts.thy ===== *)
theory Mos_Story_Facts
  imports Ingest_Data
begin

text \<open>
  The changes of MOS stories act on the flat list of stories of a rundown, and the segments are its runs of stories of
  one name: the edits refine edits of a list of ids.
\<close>

section \<open>Grouping\<close>

lemma add_to_groups_flat:
  "concat (map (\<lambda>(n, g). map (Pair n) g) (add_to_groups p gs))
     = concat (map (\<lambda>(n, g). map (Pair n) g) gs) @ [(ap_segmentName p, ap_ingest p)]"
proof (cases "gs \<noteq> [] \<and> fst (last gs) = ap_segmentName p")
  case True
  then obtain hs g where "gs = hs @ [(ap_segmentName p, g)]" by (metis append_butlast_last_id prod.collapse)
  then show ?thesis by (simp add: add_to_groups_def)
qed (auto simp: add_to_groups_def)

lemma add_to_groups_runs:
  assumes "successively (\<noteq>) (map fst gs)" and "\<forall>g\<in>set gs. snd g \<noteq> []"
  shows "successively (\<noteq>) (map fst (add_to_groups p gs)) \<and> (\<forall>g\<in>set (add_to_groups p gs). snd g \<noteq> [])"
proof (cases "gs \<noteq> [] \<and> fst (last gs) = ap_segmentName p")
  case True
  then obtain hs g where "gs = hs @ [(ap_segmentName p, g)]" by (metis append_butlast_last_id prod.collapse)
  with assms show ?thesis by (simp add: add_to_groups_def)
next
  case False
  then have "add_to_groups p gs = gs @ [(ap_segmentName p, [ap_ingest p])]" by (auto simp: add_to_groups_def)
  moreover have "last (map fst gs) \<noteq> ap_segmentName p" if "gs \<noteq> []" using False that by (simp add: last_map)
  ultimately show ?thesis using assms by (auto simp: successively_append_iff)
qed

lemma fold_groups:
  "concat (map (\<lambda>(n, g). map (Pair n) g) (fold add_to_groups ps gs))
     = concat (map (\<lambda>(n, g). map (Pair n) g) gs) @ map (\<lambda>p. (ap_segmentName p, ap_ingest p)) ps"
  by (induction ps arbitrary: gs) (simp_all add: add_to_groups_flat)

lemma fold_groups_runs:
  "successively (\<noteq>) (map fst gs) \<Longrightarrow> \<forall>g\<in>set gs. snd g \<noteq> [] \<Longrightarrow>
     successively (\<noteq>) (map fst (fold add_to_groups ps gs)) \<and> (\<forall>g\<in>set (fold add_to_groups ps gs). snd g \<noteq> [])"
proof (induction ps arbitrary: gs)
  case (Cons p ps)
  from add_to_groups_runs [OF Cons.prems] Cons.IH [of "add_to_groups p gs"] show ?case by simp
qed simp

definition unranked :: "LocalIngestPart \<Rightarrow> LocalIngestPart" where
  "unranked p = p\<lparr>ip_rank := 0\<rparr>"

lemma map_enumerate_snd: "map (\<lambda>(i, x). f x) (enumerate n xs) = map f xs"
  using map_map [of f snd "enumerate n xs"] by (simp add: case_prod_beta' comp_def)

lemma rank_parts_unranked: "map (\<lambda>p. f (unranked p)) (rank_parts ps) = map (\<lambda>p. f (unranked p)) ps"
  using map_enumerate_snd [of "\<lambda>p. f (unranked p)" 0 ps] by (simp add: rank_parts_def unranked_def comp_def case_prod_beta')

text \<open>Segments as MOS makes them: runs of stories of one name, ranked from zero, and so are their parts.\<close>

definition mos_segments :: "RundownId \<Rightarrow> LocalIngestSegment list \<Rightarrow> bool" where
  "mos_segments rundownId segments =
     (successively (\<noteq>) (map is_name segments) \<and> map is_rank segments = map of_nat [0..<length segments]
      \<and> (\<forall>s\<in>set segments. is_parts s \<noteq> [] \<and> is_externalId s = getSegmentExternalId rundownId (hd (is_parts s))
           \<and> map ip_rank (is_parts s) = map of_nat [0..<length (is_parts s)]))"

definition named_stories :: "LocalIngestSegment list \<Rightarrow> (string \<times> LocalIngestPart) list" where
  "named_stories segments = concat (map (\<lambda>s. map (\<lambda>p. (is_name s, unranked p)) (is_parts s)) segments)"

lemma rank_parts_ranks: "map ip_rank (rank_parts ps) = map of_nat [0..<length ps]"
proof -
  have "map ip_rank (rank_parts ps) = map (of_nat \<circ> fst) (enumerate 0 ps)"
    by (simp add: rank_parts_def comp_def case_prod_beta')
  then show ?thesis by (simp flip: map_map)
qed

lemma rank_parts_Nil [simp]: "rank_parts ps = [] \<longleftrightarrow> ps = []"
  by (simp add: rank_parts_def flip: length_0_conv)

lemma touch_segment_fields [simp]:
  "is_name (touch_segment now ref s) = is_name s" "is_rank (touch_segment now ref s) = is_rank s"
  "is_parts (touch_segment now ref s) = is_parts s" "is_externalId (touch_segment now ref s) = is_externalId s"
  by (simp_all add: touch_segment_def split: option.split)

lemma mos_segments_touch [simp]: "mos_segments rundownId (map (touch_segment now ref) segments) = mos_segments rundownId segments"
  by (simp add: mos_segments_def comp_def)

lemma named_stories_touch [simp]: "named_stories (map (touch_segment now ref) segments) = named_stories segments"
  by (simp add: named_stories_def comp_def)

lemma grouped_segments:
  "mos_segments rundownId (groupPartsIntoIngestSegments rundownId ps)"
  "named_stories (groupPartsIntoIngestSegments rundownId ps) = map (\<lambda>p. (ap_segmentName p, unranked (ap_ingest p))) ps"
proof -
  define gs where "gs = fold add_to_groups ps []"
  have runs: "successively (\<noteq>) (map fst gs)" "\<forall>g\<in>set gs. snd g \<noteq> []"
    using fold_groups_runs [of "[]" ps] by (simp_all add: gs_def)
  have flat: "concat (map (\<lambda>(n, g). map (Pair n) g) gs) = map (\<lambda>p. (ap_segmentName p, ap_ingest p)) ps"
    using fold_groups [of ps "[]"] by (simp add: gs_def)
  define seg where "seg = (\<lambda>(i :: nat, name, g). \<lparr>is_externalId = getSegmentExternalId rundownId (hd g), is_name = name,
    is_rank = rat_of_nat i, is_payload = None, is_parts = g, is_modified = Max (set (map ip_modified g))\<rparr>)"
  define hs where "hs = map (\<lambda>(name, ps). (name, rank_parts ps)) gs"
  have S: "groupPartsIntoIngestSegments rundownId ps = map seg (enumerate 0 hs)"
    by (simp add: groupPartsIntoIngestSegments_def groupedPartsToSegments_def groupIngestParts_def gs_def hs_def seg_def
        case_prod_beta' )
  have names: "map (is_name \<circ> seg) (enumerate 0 hs) = map fst gs"
    using map_enumerate_snd [of fst 0 hs] by (simp add: seg_def hs_def comp_def case_prod_beta')
  have ranks: "map (is_rank \<circ> seg) (enumerate 0 hs) = map of_nat [0..<length hs]"
  proof -
    have "map (is_rank \<circ> seg) (enumerate 0 hs) = map (of_nat \<circ> fst) (enumerate 0 hs)"
      by (simp add: seg_def comp_def case_prod_beta')
    then show ?thesis by (simp flip: map_map)
  qed
  have parts: "is_parts s \<noteq> [] \<and> is_externalId s = getSegmentExternalId rundownId (hd (is_parts s))
      \<and> map ip_rank (is_parts s) = map of_nat [0..<length (is_parts s)]" if s: "s \<in> set (map seg (enumerate 0 hs))" for s
  proof -
    from s obtain i name g where "(i, name, g) \<in> set (enumerate 0 hs)" and seg: "s = seg (i, name, g)" by auto
    then have "i < length hs" "hs ! i = (name, g)" by (simp_all add: in_set_enumerate_eq)
    then have "(name, g) \<in> set hs" by (metis nth_mem)
    then obtain ps where ps: "(name, ps) \<in> set gs" "g = rank_parts ps" by (auto simp: hs_def)
    with runs(2) have "ps \<noteq> []" by auto
    then show ?thesis by (simp add: seg seg_def ps(2) rank_parts_ranks) (simp add: rank_parts_def)
  qed
  have "successively (\<noteq>) (map is_name (map seg (enumerate 0 hs)))" by (simp only: map_map names runs(1))
  moreover have "map is_rank (map seg (enumerate 0 hs)) = map of_nat [0..<length (map seg (enumerate 0 hs))]"
    by (simp only: map_map ranks length_map length_enumerate)
  ultimately show "mos_segments rundownId (groupPartsIntoIngestSegments rundownId ps)"
    unfolding mos_segments_def S using parts by blast
  have "named_stories (map seg (enumerate 0 hs)) = concat (map (\<lambda>(n, g). map (\<lambda>p. (n, unranked p)) g) hs)"
    using map_enumerate_snd [of "\<lambda>(n, g). map (\<lambda>p. (n, unranked p)) g" 0 hs]
    by (simp add: named_stories_def seg_def comp_def case_prod_beta')
  also have "\<dots> = concat (map (\<lambda>(n, g). map (\<lambda>p. (n, unranked p)) g) gs)"
    by (simp add: hs_def comp_def case_prod_beta' rank_parts_unranked)
  also have "\<dots> = map (map_prod id unranked) (concat (map (\<lambda>(n, g). map (Pair n) g) gs))"
    by (simp add: map_concat comp_def case_prod_beta')
  also have "\<dots> = map (\<lambda>p. (ap_segmentName p, unranked (ap_ingest p))) ps" by (simp add: flat comp_def)
  finally show "named_stories (groupPartsIntoIngestSegments rundownId ps) = map (\<lambda>p. (ap_segmentName p, unranked (ap_ingest p))) ps"
    by (simp add: S)
qed

section \<open>Edits of the list of stories\<close>

datatype story_edit =
    DeleteStories "string list"
  | InsertStories "string option" "mos_story option list" bool
  | SwapStories string string
  | MoveStories "string list" "string option"

fun story_data ::
  "('z) ingest_env_scheme \<Rightarrow> string \<Rightarrow> story_edit \<Rightarrow> LocalIngestRundown \<Rightarrow> ingest_error + LocalIngestRundown" where
  "story_data env e (DeleteStories ids) = delete_stories_data env e ids"
| "story_data env e (InsertStories before stories replace) = insert_stories_data env e before stories replace"
| "story_data env e (SwapStories a b) = swap_stories_data env e a b"
| "story_data env e (MoveStories ids before) = move_stories_data env e ids before"

definition story_ids :: "LocalIngestRundown \<Rightarrow> string list" where
  "story_ids r = map (ip_externalId \<circ> snd) (named_stories (ir_segments r))"

definition position :: "string option \<Rightarrow> string list \<Rightarrow> nat option" where
  \<comment> \<open>before the story of that id, or at the end\<close>
  "position before xs = (case before of None \<Rightarrow> Some (length xs) | Some i \<Rightarrow> if i = [] then Some (length xs) else index_of xs i)"

fun edit_ids :: "story_edit \<Rightarrow> string list \<Rightarrow> string list option" where
  "edit_ids (DeleteStories ids) xs = (if set ids \<subseteq> set xs then Some (filter (\<lambda>x. x \<notin> set ids) xs) else None)"
| "edit_ids (InsertStories before stories replace) xs =
     (case position before xs of
        None \<Rightarrow> None
      | Some n \<Rightarrow>
         (let new = map story_ID (compact stories); rest = drop (if replace then Suc n else n) xs
          in if set new \<inter> set (take n xs @ rest) \<noteq> {} then None else Some (take n xs @ new @ rest)))"
| "edit_ids (SwapStories a b) xs =
     (if a \<in> set xs \<and> b \<in> set xs then Some (map (\<lambda>x. if x = a then b else if x = b then a else x) xs) else None)"
| "edit_ids (MoveStories ids before) xs =
     (let rest = filter (\<lambda>x. x \<notin> set ids) xs
      in if \<not> set ids \<subseteq> set xs then None
         else map_option (\<lambda>n. take n rest @ ids @ drop n rest) (position before rest))"

definition edit_ok :: "story_edit \<Rightarrow> bool" where
  \<comment> \<open>ids are not empty, and an edit names a story once\<close>
  "edit_ok e = (case e of
     InsertStories before stories replace \<Rightarrow> [] \<notin> set (map story_ID (compact stories)) \<and> distinct (map story_ID (compact stories))
   | MoveStories ids before \<Rightarrow> distinct ids
   | SwapStories a b \<Rightarrow> a \<noteq> b
   | DeleteStories ids \<Rightarrow> True)"

text \<open>The segments of the stories: by name, as it was before the edit, or as the slug of an inserted story says.\<close>

definition segment_name :: "LocalIngestRundown \<Rightarrow> string \<Rightarrow> string option" where
  "segment_name r i = map_option is_name (find (\<lambda>s. i \<in> ip_externalId ` set (is_parts s)) (ir_segments r))"

definition slug_name :: "mos_story \<Rightarrow> string" where
  \<comment> \<open>what the slug has before its semicolon\<close>
  "slug_name s = takeWhile (\<lambda>c. c \<noteq> CHR '';'') (case story_Slug s of None \<Rightarrow> [] | Some slug \<Rightarrow> slug)"

definition inserted_names :: "story_edit \<Rightarrow> (string \<times> string) list" where
  "inserted_names e = (case e of
     InsertStories before stories replace \<Rightarrow> map (\<lambda>s. (story_ID s, slug_name s)) (compact stories) | _ \<Rightarrow> [])"

definition name_after :: "story_edit \<Rightarrow> LocalIngestRundown \<Rightarrow> string \<Rightarrow> string option" where
  "name_after e r i = (case map_of (inserted_names e) i of Some n \<Rightarrow> Some n | None \<Rightarrow> segment_name r i)"

section \<open>The edits of the code refine those of the ids\<close>

abbreviation ids_of :: "AnnotatedIngestPart list \<Rightarrow> string list" where
  "ids_of ps \<equiv> map ap_externalId ps"

abbreviation names_of :: "AnnotatedIngestPart list \<Rightarrow> (string \<times> string) list" where
  "names_of ps \<equiv> map (\<lambda>p. (ap_externalId p, ap_segmentName p)) ps"

definition keeps_names :: "story_edit \<Rightarrow> AnnotatedIngestPart list \<Rightarrow> AnnotatedIngestPart list \<Rightarrow> bool" where
  "keeps_names e ps ps' = (\<forall>x\<in>set (names_of ps'). x \<in> set (inserted_names e)
     \<or> x \<in> set (names_of ps) \<and> fst x \<notin> fst ` set (inserted_names e))"

definition coherent :: "AnnotatedIngestPart list \<Rightarrow> bool" where
  "coherent ps = (\<forall>p\<in>set ps. ap_externalId p = ip_externalId (ap_ingest p))"

definition refines_edit ::
  "story_edit \<Rightarrow> AnnotatedIngestPart list \<Rightarrow> ingest_error + AnnotatedIngestPart list \<Rightarrow> bool" where
  "refines_edit e ps result = (case result of
     Inl _ \<Rightarrow> edit_ids e (ids_of ps) = None
   | Inr ps' \<Rightarrow> edit_ids e (ids_of ps) = Some (ids_of ps') \<and> coherent ps' \<and> keeps_names e ps ps')"

lemma annotated_parts:
  "map (\<lambda>p. (ap_segmentName p, unranked (ap_ingest p))) (getAnnotatedIngestParts r) = named_stories (ir_segments r)"
  "coherent (getAnnotatedIngestParts r)" "ids_of (getAnnotatedIngestParts r) = story_ids r"
  by (auto simp: getAnnotatedIngestParts_def named_stories_def coherent_def story_ids_def map_concat comp_def unranked_def)

lemma keeps_names_subset: "set ps' \<subseteq> set ps \<Longrightarrow> inserted_names e = [] \<Longrightarrow> keeps_names e ps ps'"
  by (auto simp: keeps_names_def)

lemma inserted_names_simps [simp]:
  "inserted_names (DeleteStories ids) = []" "inserted_names (SwapStories a b) = []" "inserted_names (MoveStories ids before) = []"
  "inserted_names (InsertStories before stories replace) = map (\<lambda>s. (story_ID s, slug_name s)) (compact stories)"
  by (simp_all add: inserted_names_def)

text \<open>The name of the segment of a story is the one the flat list of stories gives.\<close>

abbreviation flat_names :: "LocalIngestRundown \<Rightarrow> (string \<times> string) list" where
  "flat_names r \<equiv> map (\<lambda>(n, p). (ip_externalId p, n)) (named_stories (ir_segments r))"

lemma segment_name_flat: "segment_name r i = map_of (flat_names r) i"
proof -
  have "map_of (map (\<lambda>(n, p). (ip_externalId p, n)) (named_stories ss)) i =
      map_option is_name (find (\<lambda>s. i \<in> ip_externalId ` set (is_parts s)) ss)" for ss
  proof (induction ss)
    case (Cons s ss)
    have here: "map_of (map (\<lambda>p. (ip_externalId p, n)) ps) i = (if i \<in> ip_externalId ` set ps then Some n else None)"
      for n and ps :: "LocalIngestPart list" by (induction ps) auto
    have "map_of (map (\<lambda>(n, p). (ip_externalId p, n)) (named_stories (s # ss))) i =
        (map_of (map (\<lambda>(n, p). (ip_externalId p, n)) (named_stories ss))
          ++ map_of (map (\<lambda>p. (ip_externalId p, is_name s)) (is_parts s))) i"
      by (simp add: named_stories_def comp_def unranked_def)
    with Cons.IH here [of "is_name s" "is_parts s"] show ?case
      by (cases "i \<in> ip_externalId ` set (is_parts s)") (simp_all add: map_add_def)
  qed (simp add: named_stories_def)
  then show ?thesis by (simp add: segment_name_def)
qed

lemma find_index_ids: "find_index (\<lambda>p. ap_externalId p = i) ps = index_of (ids_of ps) i"
  unfolding index_of_def by (induction ps) simp_all

lemma insert_point_eq: "insert_point before ps = (case position before (ids_of ps) of
    None \<Rightarrow> Inl (PartsWereNotFound [nullish before []]) | Some n \<Rightarrow> Inr n)"
  by (simp add: insert_point_def position_def nullish_def find_index_ids split: option.split)

lemma delete_refines:
  "filter (\<lambda>i. i \<notin> set (ids_of ps)) ids = [] \<Longrightarrow> coherent ps \<Longrightarrow>
     refines_edit (DeleteStories ids) ps (Inr (filter (\<lambda>p. ap_externalId p \<notin> set ids) ps))"
  by (auto simp: refines_edit_def coherent_def filter_empty_conv filter_map comp_def intro!: keeps_names_subset)

lemma swap_refines:
  assumes "distinct (ids_of ps)" and "a \<noteq> b" and "coherent ps"
  shows "refines_edit (SwapStories a b) ps (swap_parts a b ps)"
proof (cases "a \<in> set (ids_of ps) \<and> b \<in> set (ids_of ps)")
  case True
  then obtain i j where i: "index_of (ids_of ps) a = Some i" and j: "index_of (ids_of ps) b = Some j"
    by (metis index_of_None not_None_eq)
  note i' = index_of_Some [OF i] and j' = index_of_Some [OF j]
  let ?qs = "ps[i := ps ! j, j := ps ! i]"
  have "i \<noteq> j" using i' j' assms(2) by auto
  have "ids_of ?qs = map (\<lambda>x. if x = a then b else if x = b then a else x) (ids_of ps)"
  proof (rule nth_equalityI)
    fix k assume "k < length (ids_of ?qs)"
    then have k: "k < length ps" by simp
    have nth: "ids_of ps ! k = ids_of ps ! l \<longleftrightarrow> k = l" if "l < length (ids_of ps)" for l
      by (rule nth_eq_iff_index_eq [OF assms(1) _ that]) (use k in simp)
    have eq: "ids_of ps ! k = a \<longleftrightarrow> k = i" "ids_of ps ! k = b \<longleftrightarrow> k = j"
      using nth [OF conjunct1 [OF i']] nth [OF conjunct1 [OF j']] unfolding conjunct2 [OF i'] conjunct2 [OF j'] .
    have "ids_of ?qs ! k = (if k = j then ids_of ps ! i else if k = i then ids_of ps ! j else ids_of ps ! k)"
      using k conjunct1 [OF i'] conjunct1 [OF j'] by (simp add: nth_list_update)
    also have "\<dots> = (if ids_of ps ! k = a then b else if ids_of ps ! k = b then a else ids_of ps ! k)"
      unfolding eq conjunct2 [OF i'] conjunct2 [OF j'] using \<open>i \<noteq> j\<close> by simp
    finally show "ids_of ?qs ! k = map (\<lambda>x. if x = a then b else if x = b then a else x) (ids_of ps) ! k"
      using k by simp
  qed simp
  moreover have sub: "set ?qs \<subseteq> set ps"
  proof -
    have "set ?qs \<subseteq> insert (ps ! i) (set (ps[i := ps ! j]))" by (rule set_update_subset_insert)
    also have "\<dots> \<subseteq> set ps" using set_update_subset_insert [of ps i "ps ! j"] i' j' by auto
    finally show ?thesis .
  qed
  moreover have "coherent ?qs" using assms(3) sub by (auto simp: coherent_def)
  moreover have "keeps_names (SwapStories a b) ps ?qs" by (rule keeps_names_subset [OF sub]) simp
  ultimately show ?thesis using True i j by (simp add: refines_edit_def swap_parts_def find_index_ids)
next
  case False
  then show ?thesis
    by (auto simp: refines_edit_def swap_parts_def find_index_ids index_of_None index_of_Some split: option.split dest: index_of_Some)
qed

lemma sorted_by_ids:
  assumes "distinct ids" and "distinct (ids_of ps)" and "set ids \<subseteq> set (ids_of ps)"
  shows "ids_of (sort_key (\<lambda>p. the (index_of ids (ap_externalId p))) (filter (\<lambda>p. ap_externalId p \<in> set ids) ps)) = ids"
    (is "ids_of ?xs = ids")
proof -
  let ?key = "\<lambda>i. the (index_of ids i)"
  have set: "set (ids_of ?xs) = set ids" using assms(3) by auto
  have len: "length ?xs = length ids"
  proof -
    have "distinct (ids_of ?xs)" using assms(2) by (simp add: distinct_map inj_on_def)
    with set assms(1) show ?thesis by (metis distinct_card length_map)
  qed
  have "distinct (ids_of ?xs)" using assms(2) by (simp add: distinct_map inj_on_def)
  moreover have inj: "inj_on ?key (set ids)"
  proof (rule inj_onI)
    fix x y assume "x \<in> set ids" "y \<in> set ids" and eq: "?key x = ?key y"
    then obtain i j where "index_of ids x = Some i" "index_of ids y = Some j" by (metis index_of_None not_None_eq)
    then show "x = y" using eq index_of_inj by simp
  qed
  ultimately have "distinct (map ?key (ids_of ?xs))" using set by (simp only: distinct_map)
  moreover have "sorted (map ?key (ids_of ?xs))" using sorted_sort_key [of "\<lambda>p. ?key (ap_externalId p)" "filter (\<lambda>p. ap_externalId p \<in> set ids) ps"]
    unfolding map_map comp_def .
  moreover have "map ?key ids = [0..<length ids]"
    by (rule nth_equalityI) (simp_all add: index_of_distinct assms(1))
  then have "sorted (map ?key ids) \<and> distinct (map ?key ids)" by simp
  ultimately have eq: "map ?key (ids_of ?xs) = map ?key ids"
    using set by (metis sorted_distinct_set_unique list.set_map)
  have "inj_on ?key (set (ids_of ?xs) \<union> set ids)" using inj unfolding set by simp
  from inj_on_map_eq_map [OF this] eq show ?thesis by blast
qed

lemma move_refines:
  assumes "distinct (ids_of ps)" and "distinct ids" and "coherent ps"
  shows "refines_edit (MoveStories ids before) ps (move_parts ids before ps)"
proof -
  let ?xs = "sort_key (\<lambda>p. the (index_of ids (ap_externalId p))) (filter (\<lambda>p. ap_externalId p \<in> set ids) ps)"
  let ?rest = "filter (\<lambda>p. ap_externalId p \<notin> set ids) ps"
  have rest: "ids_of ?rest = filter (\<lambda>x. x \<notin> set ids) (ids_of ps)" by (simp add: filter_map comp_def)
  have missing: "filter (\<lambda>i. i \<notin> set (ids_of ?xs)) ids = [] \<longleftrightarrow> set ids \<subseteq> set (ids_of ps)"
    by (auto simp: filter_empty_conv)
  have sub: "set (splice n 0 ?xs ?rest) \<subseteq> set ps" for n
    by (auto simp: splice_def dest: in_set_takeD in_set_dropD)
  then have coh: "coherent (splice n 0 ?xs ?rest) \<and> keeps_names (MoveStories ids before) ps (splice n 0 ?xs ?rest)" for n
    using assms(3) by (auto simp: coherent_def intro!: keeps_names_subset)
  show ?thesis
  proof (cases "set ids \<subseteq> set (ids_of ps)")
    case True
    then show ?thesis
      unfolding refines_edit_def move_parts_def Let_def edit_ids.simps using coh sorted_by_ids [OF assms(2,1) True]
      by (simp only: missing) (simp add: insert_point_eq splice_def take_map drop_map flip: rest split: option.split)
  next
    case False
    then show ?thesis unfolding refines_edit_def move_parts_def Let_def using missing by simp
  qed
qed

lemma story_to_part_ids:
  assumes "rundownId \<noteq> []" and "story_ID s \<noteq> []"
  obtains p where "story_to_part getHash now rundownId u existing (i, Some s) = Inr (Some p)"
    and "ap_externalId p = story_ID s" and "ip_externalId (ap_ingest p) = story_ID s" and "ap_segmentName p = slug_name s"
  using assms by (simp add: story_to_part_def Let_def getPartId_def slug_name_def before_semicolon_def)

lemma stories_to_parts:
  assumes "rundownId \<noteq> []" and "[] \<notin> set (map story_ID (compact stories))"
  shows "\<exists>xs. map_or_fail (story_to_part getHash now rundownId u existing) (enumerate n stories) = Inr xs
    \<and> names_of (compact xs) = map (\<lambda>s. (story_ID s, slug_name s)) (compact stories) \<and> coherent (compact xs)"
  using assms(2)
proof (induction stories arbitrary: n)
  case Nil
  then show ?case by (simp add: coherent_def)
next
  case (Cons story stories)
  then obtain xs where xs: "map_or_fail (story_to_part getHash now rundownId u existing) (enumerate (Suc n) stories) = Inr xs"
      "names_of (compact xs) = map (\<lambda>s. (story_ID s, slug_name s)) (compact stories)" "coherent (compact xs)"
    by (cases story) auto
  show ?case
  proof (cases story)
    case None
    then show ?thesis using xs by (simp add: story_to_part_def)
  next
    case (Some s)
    with Cons.prems have "story_ID s \<noteq> []" by auto
    from story_to_part_ids [OF assms(1) this] obtain p where
      "story_to_part getHash now rundownId u existing (n, Some s) = Inr (Some p)"
      "ap_externalId p = story_ID s" "ip_externalId (ap_ingest p) = story_ID s" "ap_segmentName p = slug_name s" .
    then show ?thesis using xs Some by (simp add: coherent_def)
  qed
qed

lemma insert_refines:
  assumes pos: "position before (ids_of ps) = Some n"
    and names: "names_of new = map (\<lambda>s. (story_ID s, slug_name s)) (compact stories)"
    and "coherent ps" and "coherent new"
  shows "refines_edit (InsertStories before stories replace) ps (insert_parts n replace new ps)"
proof -
  let ?e = "InsertStories before stories replace"
  have new: "ids_of new = map story_ID (compact stories)"
    using arg_cong [OF names, of "map fst"] by (simp add: comp_def)
  let ?rest = "drop (if replace then Suc n else n) ps"
  let ?modified = "if replace then splice n 1 [] ps else ps"
  have modified: "ids_of ?modified = take n (ids_of ps) @ ids_of ?rest"
    by (simp add: splice_def take_map drop_map flip: map_append)
  have n: "n \<le> length ps"
    using pos by (auto simp: position_def split: option.splits if_splits dest!: index_of_Some)
  have result: "splice n 0 new ?modified = take n ps @ new @ ?rest"
    using n by (simp add: splice_def)
  have coll: "filter (\<lambda>i. i \<in> set (ids_of new)) (ids_of ?modified) = []
      \<longleftrightarrow> set (ids_of new) \<inter> set (take n (ids_of ps) @ ids_of ?rest) = {}"
    unfolding modified filter_empty_conv by blast
  have "coherent (take n ps @ new @ ?rest)"
    using assms(3,4) by (auto simp: coherent_def dest: in_set_takeD in_set_dropD split: if_splits)
  moreover have "keeps_names ?e ps (take n ps @ new @ ?rest)"
    if free: "set (ids_of new) \<inter> set (take n (ids_of ps) @ ids_of ?rest) = {}"
  proof -
    have ids: "fst ` set (inserted_names ?e) = set (ids_of new)" by (simp add: new image_image)
    have ins: "set (inserted_names ?e) = set (names_of new)" by (simp add: names)
    have old: "ap_externalId p \<notin> set (ids_of new) \<and> p \<in> set ps" if "p \<in> set (take n ps) \<union> set ?rest" for p
      using free that by (auto simp: take_map dest: in_set_takeD in_set_dropD split: if_splits)
    show ?thesis unfolding keeps_names_def ids unfolding ins
    proof
      fix x assume "x \<in> set (names_of (take n ps @ new @ ?rest))"
      then obtain p where p: "x = (ap_externalId p, ap_segmentName p)" "p \<in> set new \<or> p \<in> set (take n ps) \<union> set ?rest"
        by auto
      from p(2) show "x \<in> set (names_of new) \<or> x \<in> set (names_of ps) \<and> fst x \<notin> set (ids_of new)"
      proof
        assume "p \<in> set new"
        then show ?thesis by (auto simp: p(1))
      next
        assume "p \<in> set (take n ps) \<union> set ?rest"
        from old [OF this] show ?thesis by (auto simp: p(1))
      qed
    qed
  qed
  ultimately show ?thesis
    unfolding refines_edit_def insert_parts_def Let_def edit_ids.simps pos option.case coll result
    by (simp add: new take_map drop_map Int_Un_distrib)
qed

lemma change_stories_result:
  assumes "env_rundownId env e = Inr rundownId"
  shows "change_stories env e f r = (case f (getAnnotatedIngestParts r) of Inl x \<Rightarrow> Inl x
    | Inr ps \<Rightarrow> Inr (r\<lparr>ir_segments := map (touch_segment (ie_now env)
        (groupPartsIntoIngestSegments rundownId (getAnnotatedIngestParts r))) (groupPartsIntoIngestSegments rundownId ps)\<rparr>))"
  using assms by (simp add: change_stories_def makeChangeToIngestParts_def Let_def split: sum.split)

lemma change_refines:
  assumes "env_rundownId env e = Inr rundownId"
    and "refines_edit edit (getAnnotatedIngestParts r) (f (getAnnotatedIngestParts r))"
  shows "case change_stories env e f r of
      Inl _ \<Rightarrow> edit_ids edit (story_ids r) = None
    | Inr r' \<Rightarrow> edit_ids edit (story_ids r) = Some (story_ids r') \<and> mos_segments rundownId (ir_segments r')
        \<and> (\<forall>x\<in>set (flat_names r'). x \<in> set (inserted_names edit)
             \<or> x \<in> set (flat_names r) \<and> fst x \<notin> fst ` set (inserted_names edit))"
proof (cases "f (getAnnotatedIngestParts r)")
  case (Inl x)
  then show ?thesis using assms(2) by (simp add: change_stories_result [OF assms(1)] refines_edit_def annotated_parts)
next
  case (Inr ps)
  then have "coherent ps" "edit_ids edit (story_ids r) = Some (ids_of ps)"
      "keeps_names edit (getAnnotatedIngestParts r) ps"
    using assms(2) by (simp_all add: refines_edit_def annotated_parts)
  moreover have "map (ip_externalId \<circ> snd \<circ> (\<lambda>p. (ap_segmentName p, unranked (ap_ingest p)))) ps = ids_of ps"
    using calculation(1) by (simp add: coherent_def unranked_def)
  moreover have "flat_names r = names_of (getAnnotatedIngestParts r)"
    using annotated_parts(2) [of r] by (auto simp: coherent_def unranked_def simp flip: annotated_parts(1))
  moreover have "map (\<lambda>p. (ip_externalId (unranked (ap_ingest p)), ap_segmentName p)) ps = names_of ps"
    using calculation(1) by (simp add: coherent_def unranked_def)
  ultimately show ?thesis
    by (simp add: change_stories_result [OF assms(1)] Inr story_ids_def grouped_segments keeps_names_def comp_def)
qed

lemma names_after:
  assumes "distinct (story_ids r)" and "distinct (map fst (inserted_names edit))"
    and names: "\<forall>x\<in>set (flat_names r'). x \<in> set (inserted_names edit)
      \<or> x \<in> set (flat_names r) \<and> fst x \<notin> fst ` set (inserted_names edit)"
    and i: "i \<in> set (story_ids r')" and "distinct (story_ids r')"
  shows "segment_name r' i = name_after edit r i"
proof -
  have ids: "map fst (flat_names k) = story_ids k" for k
    by (simp add: story_ids_def comp_def case_prod_beta')
  from i have "i \<in> fst ` set (flat_names r')" by (simp only: ids [symmetric] set_map)
  then obtain x where "i = fst x" "x \<in> set (flat_names r')" by (rule imageE)
  then obtain n where n: "(i, n) \<in> set (flat_names r')" using that [of "snd x"] by (simp only: prod.collapse)
  then have "segment_name r' i = Some n"
    using assms(5) unfolding segment_name_flat ids [symmetric] by (rule map_of_is_SomeI [rotated])
  moreover have "name_after edit r i = Some n"
  proof (cases "(i, n) \<in> set (inserted_names edit)")
    case True
    with map_of_is_SomeI [OF assms(2)] show ?thesis by (simp add: name_after_def)
  next
    case False
    with names n have old: "(i, n) \<in> set (flat_names r)" "i \<notin> fst ` set (inserted_names edit)" by force+
    then have "map_of (inserted_names edit) i = None" by (simp only: map_of_eq_None_iff not_False_eq_True)
    moreover have "segment_name r i = Some n"
      using old(1) assms(1) unfolding segment_name_flat ids [symmetric] by (rule map_of_is_SomeI [rotated])
    ultimately show ?thesis by (simp add: name_after_def)
  qed
  ultimately show ?thesis by simp
qed

lemma position_le: "position before xs = Some n \<Longrightarrow> n \<le> length xs"
  by (auto simp: position_def split: option.splits if_splits dest!: index_of_Some)

lemma insert_between_distinct:
  assumes "distinct xs" and "distinct ys" and "set ys \<inter> set (take n xs @ drop m xs) = {}" and "n \<le> m"
  shows "distinct (take n xs @ ys @ drop m xs)"
  using assms set_take_disj_set_drop_if_distinct [OF assms(1,4)] by (auto simp: distinct_append)

lemma edit_ids_distinct:
  assumes "distinct xs" and "edit_ok e" and "edit_ids e xs = Some ys"
  shows "distinct ys"
proof (cases e)
  case (SwapStories a b)
  then show ?thesis using assms by (auto simp: distinct_map inj_on_def split: if_splits)
next
  case (InsertStories before stories replace)
  with assms(3) obtain n where "position before xs = Some n" by (auto split: option.splits)
  then have "ys = take n xs @ map story_ID (compact stories) @ drop (if replace then Suc n else n) xs"
      "set (map story_ID (compact stories)) \<inter> set (take n xs @ drop (if replace then Suc n else n) xs) = {}"
    using assms(3) by (auto simp: InsertStories Let_def split: if_splits)
  moreover have "distinct (map story_ID (compact stories))" using assms(2) by (simp add: InsertStories edit_ok_def)
  ultimately show ?thesis
    using insert_between_distinct [OF assms(1), of "map story_ID (compact stories)" n "if replace then Suc n else n"] by simp
next
  case (MoveStories ids before)
  let ?rest = "filter (\<lambda>x. x \<notin> set ids) xs"
  from MoveStories assms(3) obtain n where "ys = take n ?rest @ ids @ drop n ?rest"
    by (auto simp: Let_def split: if_splits)
  moreover have "distinct ?rest" "distinct ids" using assms(1,2) MoveStories by (simp_all add: edit_ok_def)
  moreover have "set ids \<inter> set (take n ?rest @ drop n ?rest) = {}" by auto
  ultimately show ?thesis using insert_between_distinct [of ?rest ids n n] by simp
qed (use assms in \<open>auto split: if_splits\<close>)

text \<open>
  C16. Deleting, inserting, swapping and moving MOS stories does to the list of the stories of a rundown what the
  edit says, and is refused exactly when it names a story that is not there or inserts one that is: moved stories
  stand in the order asked for before the story named. A story stays in a segment of the name it was in before, and
  an inserted one comes into a segment with the name before the semicolon of its slug. The segments are the runs of
  stories of one name: neighbours differ in name and none is empty. They are numbered from zero, and so are the
  stories in them.
\<close>

theorem story_edits_refine_ids:
  assumes rid: "env_rundownId env e = Inr rundownId" "rundownId \<noteq> []"
    and unique: "distinct (story_ids r)" and ok: "edit_ok edit"
  shows "case story_data env e edit r of
      Inl _ \<Rightarrow> edit_ids edit (story_ids r) = None
    | Inr r' \<Rightarrow> edit_ids edit (story_ids r) = Some (story_ids r') \<and> distinct (story_ids r')
        \<and> (\<forall>i\<in>set (story_ids r'). segment_name r' i = name_after edit r i)
        \<and> mos_segments rundownId (ir_segments r')"
proof -
  let ?ps = "getAnnotatedIngestParts r"
  note parts = annotated_parts [of r]
  have uniq: "distinct (ids_of ?ps)" using unique by (simp add: parts)
  have "case story_data env e edit r of
      Inl _ \<Rightarrow> edit_ids edit (story_ids r) = None
    | Inr r' \<Rightarrow> edit_ids edit (story_ids r) = Some (story_ids r') \<and> mos_segments rundownId (ir_segments r')
        \<and> (\<forall>x\<in>set (flat_names r'). x \<in> set (inserted_names edit)
             \<or> x \<in> set (flat_names r) \<and> fst x \<notin> fst ` set (inserted_names edit))"
  proof (cases edit)
    case (DeleteStories ids)
    show ?thesis
    proof (cases "filter (\<lambda>i. i \<notin> set (ids_of ?ps)) ids = []")
      case True
      from change_refines [where f = "\<lambda>ps. Inr (filter (\<lambda>p. ap_externalId p \<notin> set ids) ps)", OF rid(1) delete_refines [OF True parts(2)]] True show ?thesis
        unfolding DeleteStories by (simp add: delete_stories_data_def)
    next
      case False
      then show ?thesis unfolding DeleteStories by (auto simp: delete_stories_data_def Let_def parts(3) filter_empty_conv)
    qed
  next
    case (InsertStories before stories replace)
    show ?thesis
    proof (cases "position before (story_ids r)")
      case None
      then show ?thesis unfolding InsertStories by (simp add: insert_stories_data_def insert_point_eq parts(3))
    next
      case (Some n)
      have "[] \<notin> set (map story_ID (compact stories))" using ok by (simp add: InsertStories edit_ok_def)
      then obtain xs where xs: "storiesToIngestParts (ie_getHash env) (ie_now env) rundownId stories True ?ps = Inr xs"
          "names_of (compact xs) = map (\<lambda>s. (story_ID s, slug_name s)) (compact stories)" "coherent (compact xs)"
        unfolding storiesToIngestParts_def using stories_to_parts [OF rid(2)] by blast
      have "insert_stories_data env e before stories replace r
          = change_stories env e (insert_parts n replace (compact xs)) r"
        by (simp add: insert_stories_data_def insert_point_eq parts(3) Some rid(1) xs(1))
      with change_refines [where f = "insert_parts n replace (compact xs)", OF rid(1)
            insert_refines [OF _ xs(2) parts(2) xs(3), of before n replace]] Some
      show ?thesis unfolding InsertStories by (simp add: parts(3))
    qed
  next
    case (SwapStories a b)
    with ok have "a \<noteq> b" by (simp add: edit_ok_def)
    from change_refines [where f = "swap_parts a b", OF rid(1) swap_refines [OF uniq this parts(2)]] show ?thesis
      unfolding SwapStories by (simp add: swap_stories_data_def)
  next
    case (MoveStories ids before)
    with ok have "distinct ids" by (simp add: edit_ok_def)
    from change_refines [where f = "move_parts ids before", OF rid(1) move_refines [OF uniq this parts(2)]] show ?thesis
      unfolding MoveStories by (simp add: move_stories_data_def)
  qed
  moreover have "distinct (map fst (inserted_names edit))"
    using ok by (cases edit) (simp_all add: edit_ok_def comp_def)
  ultimately show ?thesis
    using edit_ids_distinct [OF unique ok] names_after [OF unique] by (cases "story_data env e edit r") auto
qed

definition ex_mos_env :: ingest_env where
  "ex_mos_env = \<lparr>ie_getHash = id, ie_now = 100, ie_studioId = ''studio''\<rparr>"

definition ex_story :: "string \<Rightarrow> string \<Rightarrow> LocalIngestPart" where
  "ex_story i name = \<lparr>ip_externalId = i, ip_name = name, ip_rank = 0, ip_payload = None, ip_modified = 1\<rparr>"

definition ex_running_order :: LocalIngestRundown where
  "ex_running_order = \<lparr>ir_externalId = ''ro'', ir_name = ''News'', ir_type = ''mos'', ir_segments =
     [\<lparr>is_externalId = ''s1'', is_name = ''INTRO'', is_rank = 0, is_payload = None,
       is_parts = [ex_story ''a'' ''INTRO;1'', ex_story ''b'' ''INTRO;2''], is_modified = 1\<rparr>,
      \<lparr>is_externalId = ''s2'', is_name = ''SPORT'', is_rank = 1, is_payload = None,
       is_parts = [ex_story ''c'' ''SPORT;1''], is_modified = 1\<rparr>], ir_payload = None, ir_modified = 1\<rparr>"

theorem story_edits_refine_ids_witness:
  "\<exists>r'. story_data ex_mos_env ''ro'' (MoveStories [''c'', ''a''] (Some ''b'')) ex_running_order = Inr r'
    \<and> story_ids r' = [''c'', ''a'', ''b''] \<and> map (segment_name r') [''c'', ''a'', ''b''] = map Some [''SPORT'', ''INTRO'', ''INTRO'']
    \<and> mos_segments ''studio_ro'' (ir_segments r')"
proof -
  let ?e = "MoveStories [''c'', ''a''] (Some ''b'')"
  have ids: "story_ids ex_running_order = [''a'', ''b'', ''c'']" by code_simp
  have names: "map (name_after ?e ex_running_order) [''c'', ''a'', ''b''] = map Some [''SPORT'', ''INTRO'', ''INTRO'']"
    by code_simp
  have "env_rundownId ex_mos_env ''ro'' = Inr ''studio_ro''" by code_simp
  moreover have "edit_ok ?e" by (simp add: edit_ok_def)
  moreover have "edit_ids ?e [''a'', ''b'', ''c''] = Some [''c'', ''a'', ''b'']" by code_simp
  ultimately have "case story_data ex_mos_env ''ro'' ?e ex_running_order of Inl _ \<Rightarrow> False
      | Inr r' \<Rightarrow> story_ids r' = [''c'', ''a'', ''b'']
          \<and> (\<forall>i\<in>set (story_ids r'). segment_name r' i = name_after ?e ex_running_order i)
          \<and> mos_segments ''studio_ro'' (ir_segments r')"
    using story_edits_refine_ids [of ex_mos_env "''ro''" "''studio_ro''" ex_running_order ?e]
    unfolding ids by (cases "story_data ex_mos_env ''ro'' ?e ex_running_order") (simp_all del: story_data.simps edit_ids.simps)
  then obtain r' where "story_data ex_mos_env ''ro'' ?e ex_running_order = Inr r'"
      "story_ids r' = [''c'', ''a'', ''b'']" "\<forall>i\<in>set (story_ids r'). segment_name r' i = name_after ?e ex_running_order i"
      "mos_segments ''studio_ro'' (ir_segments r')"
    by (auto simp del: story_data.simps edit_ids.simps split: sum.splits)
  moreover from this names have "map (segment_name r') [''c'', ''a'', ''b''] = map Some [''SPORT'', ''INTRO'', ''INTRO'']" by simp
  ultimately show ?thesis by blast
qed

end
