(* ===== verification/Mos_Diff_Facts.thy ===== *)
theory Mos_Diff_Facts
  imports Ingest_Jobs Mos_Story_Facts
begin

text \<open>
  A diff of ingest data brings the model in step with it: every segment that is there has its rank and id, those that are
  gone are orphaned without parts, those that did not change are left alone.
\<close>

section \<open>The entries of a diff\<close>

lemma map_set_new: "k \<notin> fst ` set m \<Longrightarrow> map_set k v m = m @ [(k, v)]"
  by (induction m) auto

lemma fold_map_set_filter:
  "distinct (map fst m @ map fst xs) \<Longrightarrow>
     fold (\<lambda>e m. if P e then map_set (fst e) (f e) m else m) xs m = m @ map (\<lambda>e. (fst e, f e)) (filter P xs)"
proof (induction xs arbitrary: m)
  case (Cons x xs)
  have "distinct (map fst (if P x then map_set (fst x) (f x) m else m) @ map fst xs)"
    using Cons.prems by (auto simp: map_set_new)
  from Cons.IH [OF this] Cons.prems show ?case by (auto simp: map_set_new)
qed simp

lemma compileSegmentEntries_Inr:
  assumes "compileSegmentEntries segments = Inr entries"
  shows "entries = map (\<lambda>s. (is_externalId s, s)) segments" and "distinct (map is_externalId segments)"
proof -
  let ?add = "\<lambda>s entries. if map_has entries (is_externalId s) then Inl (NonUniqueSegmentExternalId (is_externalId s))
     else Inr (map_set (is_externalId s) s entries)"
  have "fold_or_fail ?add ss es = Inr entries \<Longrightarrow> distinct (map fst es) \<Longrightarrow>
      entries = es @ map (\<lambda>s. (is_externalId s, s)) ss \<and> distinct (map fst es @ map is_externalId ss)" for ss es
  proof (induction ss arbitrary: es)
    case (Cons s ss)
    then have new: "is_externalId s \<notin> fst ` set es" and "fold_or_fail ?add ss (es @ [(is_externalId s, s)]) = Inr entries"
      by (auto simp: map_has_def map_of_eq_None_iff map_set_new split: if_splits)
    from Cons.IH [OF this(2)] new Cons.prems(2) show ?case by auto
  qed simp
  from this [of segments "[]"] assms show "entries = map (\<lambda>s. (is_externalId s, s)) segments"
    and "distinct (map is_externalId segments)" by (simp_all add: compileSegmentEntries_def)
qed

definition old_doc_of :: "(string, DBSegment) js_map \<Rightarrow> LocalIngestSegment \<Rightarrow> DBSegment option" where
  "old_doc_of docs new = map_get docs (is_externalId new)"

definition is_added :: "SegmentEntries \<Rightarrow> (string, DBSegment) js_map \<Rightarrow> string \<times> LocalIngestSegment \<Rightarrow> bool" where
  "is_added oldEntries docs e = (old_doc_of docs (snd e) = None \<or> map_get oldEntries (fst e) = None)"

definition same_content :: "SegmentEntries \<Rightarrow> string \<times> LocalIngestSegment \<Rightarrow> bool" where
  "same_content oldEntries e = ((snd e)\<lparr>is_rank := 0\<rparr> = (the (map_get oldEntries (fst e)))\<lparr>is_rank := 0\<rparr>)"

definition same_rank :: "(string, DBSegment) js_map \<Rightarrow> string \<times> LocalIngestSegment \<Rightarrow> bool" where
  "same_rank docs e = (is_rank (snd e) = seg_rank (the (old_doc_of docs (snd e))))"

definition is_unchanged :: "SegmentEntries \<Rightarrow> (string, DBSegment) js_map \<Rightarrow> string \<times> LocalIngestSegment \<Rightarrow> bool" where
  "is_unchanged oldEntries docs e = (\<not> is_added oldEntries docs e \<and> same_content oldEntries e \<and> same_rank docs e
     \<and> is_modified (snd e) = seg_externalModified (the (old_doc_of docs (snd e))))"

definition only_rank :: "SegmentEntries \<Rightarrow> (string, DBSegment) js_map \<Rightarrow> string \<times> LocalIngestSegment \<Rightarrow> bool" where
  "only_rank oldEntries docs e = (\<not> is_added oldEntries docs e \<and> same_content oldEntries e \<and> \<not> same_rank docs e)"

lemma diff_new_entry_fields:
  "df_added (diff_new_entry O' (Some docs) e d)
     = (if is_added O' docs e then map_set (fst e) (snd e) (df_added d) else df_added d)"
  "df_changed (diff_new_entry O' (Some docs) e d)
     = (if \<not> is_added O' docs e \<and> \<not> is_unchanged O' docs e then map_set (fst e) (snd e) (df_changed d) else df_changed d)"
  "df_unchanged (diff_new_entry O' (Some docs) e d)
     = (if is_unchanged O' docs e then map_set (fst e) (snd e) (df_unchanged d) else df_unchanged d)"
  "df_onlyRankChanged (diff_new_entry O' (Some docs) e d)
     = (if only_rank O' docs e then map_set (fst e) (is_rank (snd e)) (df_onlyRankChanged d) else df_onlyRankChanged d)"
  "df_removed (diff_new_entry O' (Some docs) e d) = df_removed d"
  "df_externalIdChanged (diff_new_entry O' (Some docs) e d) = df_externalIdChanged d"
  by (cases e; cases "old_doc_of docs (snd e)"; cases "map_get O' (fst e)";
      simp add: diff_new_entry_def is_added_def is_unchanged_def only_rank_def same_content_def same_rank_def old_doc_of_def Let_def;
      fail)+

lemma fold_field:
  assumes "\<And>e d. F (g e d) = (if P e then map_set (fst e) (f e) (F d) else F d)" and "F d = []" and "distinct (map fst xs)"
  shows "F (fold g xs d) = map (\<lambda>e. (fst e, f e)) (filter P xs)"
proof -
  have "F (fold g xs d) = fold (\<lambda>e m. if P e then map_set (fst e) (f e) m else m) xs (F d)"
    by (induction xs arbitrary: d) (simp_all add: assms(1))
  with fold_map_set_filter [of "[]" xs P f] assms(2,3) show ?thesis by simp
qed

lemma fold_kept: "(\<And>e d. F (g e d) = F d) \<Longrightarrow> F (fold g xs d) = F d"
  by (induction xs arbitrary: d) simp_all

lemma diff_old_entry_fields:
  "df_removed (diff_old_entry N e d) = (if map_get N (fst e) = None then map_set (fst e) (snd e) (df_removed d) else df_removed d)"
  "df_added (diff_old_entry N e d) = df_added d" "df_changed (diff_old_entry N e d) = df_changed d"
  "df_unchanged (diff_old_entry N e d) = df_unchanged d" "df_onlyRankChanged (diff_old_entry N e d) = df_onlyRankChanged d"
  "df_externalIdChanged (diff_old_entry N e d) = df_externalIdChanged d"
  by (simp_all add: diff_old_entry_def case_prod_beta')

lemma diff_removed_entry_fields:
  "df_externalIdChanged (diff_removed_entry e d) = (if renamed_to (df_added d) (snd e) \<noteq> None
     then map_set (fst e) (is_externalId (the (renamed_to (df_added d) (snd e)))) (df_externalIdChanged d)
     else df_externalIdChanged d)"
  "df_removed (diff_removed_entry e d) = df_removed d" "df_added (diff_removed_entry e d) = df_added d"
  "df_changed (diff_removed_entry e d) = df_changed d" "df_unchanged (diff_removed_entry e d) = df_unchanged d"
  "df_onlyRankChanged (diff_removed_entry e d) = df_onlyRankChanged d"
  by (simp_all add: diff_removed_entry_def case_prod_beta' split: option.split)

lemma fold_removed:
  assumes "df_externalIdChanged d = []" and "distinct (map fst xs)"
  shows "df_externalIdChanged (fold diff_removed_entry xs d) = map (\<lambda>e. (fst e, is_externalId (the (renamed_to (df_added d) (snd e)))))
     (filter (\<lambda>e. renamed_to (df_added d) (snd e) \<noteq> None) xs)"
proof -
  let ?P = "\<lambda>e. renamed_to (df_added d) (snd e) \<noteq> None"
  let ?f = "\<lambda>e. is_externalId (the (renamed_to (df_added d) (snd e)))"
  have "df_added c = df_added d \<Longrightarrow> df_externalIdChanged (fold diff_removed_entry xs c)
      = fold (\<lambda>e m. if ?P e then map_set (fst e) (?f e) m else m) xs (df_externalIdChanged c)" for c xs
    by (induction xs arbitrary: c) (simp_all add: diff_removed_entry_fields)
  from this [OF refl] fold_map_set_filter [of "[]" xs ?P ?f] assms show ?thesis by simp
qed

lemma diff_entries:
  assumes N: "distinct (map fst N)" and O': "distinct (map fst O')"
    and d: "d = diffSegmentEntries O' N (Some segments)" and docs: "docs = old_segment_map segments"
  shows "df_added d = filter (is_added O' docs) N"
    and "df_changed d = filter (\<lambda>e. \<not> is_added O' docs e \<and> \<not> is_unchanged O' docs e) N"
    and "df_unchanged d = filter (is_unchanged O' docs) N"
    and "df_onlyRankChanged d = map (\<lambda>e. (fst e, is_rank (snd e))) (filter (only_rank O' docs) N)"
    and "df_removed d = filter (\<lambda>e. map_get N (fst e) = None) O'"
    and "df_externalIdChanged d = map (\<lambda>e. (fst e, is_externalId (the (renamed_to (df_added d) (snd e)))))
      (filter (\<lambda>e. renamed_to (df_added d) (snd e) \<noteq> None) (df_removed d))"
proof -
  define d0 where "d0 = \<lparr>df_added = [], df_changed = [], df_removed = [], df_unchanged = [], df_onlyRankChanged = [],
    df_externalIdChanged = []\<rparr>"
  define d1 where "d1 = fold (diff_new_entry O' (Some docs)) N d0"
  define d2 where "d2 = fold (diff_old_entry N) O' d1"
  have d3: "d = fold diff_removed_entry (df_removed d2) d2"
    by (simp add: d docs diffSegmentEntries_def Let_def d0_def d1_def d2_def)
  note f1 = diff_new_entry_fields and f2 = diff_old_entry_fields and f3 = diff_removed_entry_fields
  have 1: "df_added d1 = filter (is_added O' docs) N"
    using fold_field [of df_added, OF f1(1) _ N] by (simp add: d1_def d0_def)
  have 2: "df_changed d1 = filter (\<lambda>e. \<not> is_added O' docs e \<and> \<not> is_unchanged O' docs e) N"
    using fold_field [of df_changed, OF f1(2) _ N] by (simp add: d1_def d0_def)
  have 3: "df_unchanged d1 = filter (is_unchanged O' docs) N"
    using fold_field [of df_unchanged, OF f1(3) _ N] by (simp add: d1_def d0_def)
  have 4: "df_onlyRankChanged d1 = map (\<lambda>e. (fst e, is_rank (snd e))) (filter (only_rank O' docs) N)"
    using fold_field [of df_onlyRankChanged, OF f1(4) _ N] by (simp add: d1_def d0_def)
  have empty: "df_removed d1 = []" "df_externalIdChanged d1 = []"
    unfolding d1_def
    by (simp_all add: f1 fold_kept [where F = df_removed] fold_kept [where F = df_externalIdChanged]) (simp_all add: d0_def)
  have 5: "df_removed d2 = filter (\<lambda>e. map_get N (fst e) = None) O'"
    using fold_field [of df_removed, OF f2(1) empty(1) O'] by (simp add: d2_def)
  have d2: "df_added d2 = df_added d1" "df_changed d2 = df_changed d1" "df_unchanged d2 = df_unchanged d1"
    "df_onlyRankChanged d2 = df_onlyRankChanged d1" "df_externalIdChanged d2 = []"
    unfolding d2_def using empty(2)
    by (simp_all add: f2 fold_kept [where F = df_added] fold_kept [where F = df_changed] fold_kept [where F = df_unchanged]
        fold_kept [where F = df_onlyRankChanged] fold_kept [where F = df_externalIdChanged])
  have d3': "df_added d = df_added d2" "df_changed d = df_changed d2" "df_unchanged d = df_unchanged d2"
    "df_onlyRankChanged d = df_onlyRankChanged d2" "df_removed d = df_removed d2"
    unfolding d3
    by (simp_all add: f3 fold_kept [where F = df_added] fold_kept [where F = df_changed] fold_kept [where F = df_unchanged]
        fold_kept [where F = df_onlyRankChanged] fold_kept [where F = df_removed])
  show "df_added d = filter (is_added O' docs) N" using 1 d2(1) d3'(1) by simp
  show "df_changed d = filter (\<lambda>e. \<not> is_added O' docs e \<and> \<not> is_unchanged O' docs e) N" using 2 d2(2) d3'(2) by simp
  show "df_unchanged d = filter (is_unchanged O' docs) N" using 3 d2(3) d3'(3) by simp
  show "df_onlyRankChanged d = map (\<lambda>e. (fst e, is_rank (snd e))) (filter (only_rank O' docs) N)"
    using 4 d2(4) d3'(4) by simp
  show "df_removed d = filter (\<lambda>e. map_get N (fst e) = None) O'" using 5 d3'(5) by simp
  have "distinct (map fst (df_removed d2))" unfolding 5 using O' by (rule distinct_map_filter)
  from fold_removed [OF d2(5) this]
  show "df_externalIdChanged d = map (\<lambda>e. (fst e, is_externalId (the (renamed_to (df_added d) (snd e)))))
      (filter (\<lambda>e. renamed_to (df_added d) (snd e) \<noteq> None) (df_removed d))"
    unfolding d3' by (simp only: d3)
qed

section \<open>Steps on the segments of the model\<close>

lemma getSegment_on: "getSegment k (on_segment i f m) = (if k = i then map_option f (getSegment i m) else getSegment k m)"
  by (cases "map_get (segmentsImpl m) i"; cases "k = i") (simp_all add: getSegment_def on_segment_def)

lemma getSegment_remove: "getSegment k (removeSegment i m) = (if k = i then None else getSegment k m)"
  by (cases "map_get (segmentsImpl m) i"; cases "k = i") (simp_all add: getSegment_def removeSegment_def)

lemma getSegment_put: "getSegment k (put_segment i s m) = (if k = i then Some s else getSegment k m)"
  by (simp add: getSegment_def put_segment_def)

lemma model_kept [simp]:
  "im_rundownId (on_segment i f m) = im_rundownId m" "im_rundown (on_segment i f m) = im_rundown m"
  "im_rundownId (removeSegment i m) = im_rundownId m" "im_rundown (removeSegment i m) = im_rundown m"
  "im_rundownId (put_segment i s m) = im_rundownId m" "im_rundown (put_segment i s m) = im_rundown m"
  by (simp_all add: on_segment_def removeSegment_def put_segment_def split: option.split)

lemma changeSegmentId_Inr:
  assumes "changeSegmentId a b m = Inr (c, m')" and "getSegment a m \<noteq> None"
  shows "im_rundownId m' = im_rundownId m" and "im_rundown m' = im_rundown m"
    and "a \<noteq> b \<Longrightarrow> getSegment a m' = None"
    and "k \<noteq> a \<Longrightarrow> k \<noteq> b \<Longrightarrow> getSegment k m' = getSegment k m"
  using assms by (auto simp: changeSegmentId_def getSegment_def split: option.splits if_splits)

text \<open>What a step leaves alone: all segments but those of the external ids it works on.\<close>

definition sid :: "('z) ingest_env_scheme \<Rightarrow> IngestModel \<Rightarrow> string \<Rightarrow> SegmentId" where
  "sid env m x = ie_getHash env (im_rundownId m @ ''_segment_'' @ x)"

definition frame :: "('z) ingest_env_scheme \<Rightarrow> string set \<Rightarrow> IngestModel \<Rightarrow> IngestModel \<Rightarrow> bool" where
  "frame env X m m' = (im_rundownId m' = im_rundownId m \<and> im_rundown m' = im_rundown m
     \<and> (\<forall>x. x \<notin> X \<longrightarrow> getSegment (sid env m x) m' = getSegment (sid env m x) m))"

lemma sid_eq: "getSegmentId (ie_getHash env) (im_rundownId m) x = Inr i \<Longrightarrow> i = sid env m x"
  by (simp add: getSegmentId_def sid_def split: if_splits)

lemma sid_cong: "im_rundownId m' = im_rundownId m \<Longrightarrow> sid env m' = sid env m"
  by (simp add: sid_def fun_eq_iff)

lemma sid_inj: "inj (ie_getHash env) \<Longrightarrow> sid env m x = sid env m y \<longleftrightarrow> x = y"
  by (auto simp: sid_def dest: injD)

lemma frame_refl [simp]: "frame env X m m"
  by (simp add: frame_def)

lemma frame_trans: "frame env X m m' \<Longrightarrow> frame env Y m' m'' \<Longrightarrow> frame env (X \<union> Y) m m''"
  using sid_cong [of m' m env] by (auto simp: frame_def)

lemma frame_mono: "frame env X m m' \<Longrightarrow> X \<subseteq> Y \<Longrightarrow> frame env Y m m'"
  by (auto simp: frame_def)

lemma frame_on: "inj (ie_getHash env) \<Longrightarrow> frame env {x} m (on_segment (sid env m x) f m)"
  by (simp add: frame_def getSegment_on sid_inj)

lemma frame_fold:
  assumes "fold_or_fail f xs m = Inr m'"
    and "\<And>x a b. x \<in> set xs \<Longrightarrow> f x a = Inr b \<Longrightarrow> frame env (X x) (proj a) (proj b)"
  shows "frame env (\<Union> (X ` set xs)) (proj m) (proj m')"
  using assms
proof (induction xs arbitrary: m)
  case (Cons x xs)
  then obtain c where "f x m = Inr c" "fold_or_fail f xs c = Inr m'" by (auto simp: and_then_Inr)
  with Cons.IH [of c] Cons.prems(2) have "frame env (X x) (proj m) (proj c)" "frame env (\<Union> (X ` set xs)) (proj c) (proj m')"
    by auto
  from frame_trans [OF this] show ?case by simp
qed simp

lemma setRank_fields [simp]:
  "seg_id (segmentImpl (snd (setRank r s))) = seg_id (segmentImpl s)"
  "seg_externalId (segmentImpl (snd (setRank r s))) = seg_externalId (segmentImpl s)"
  "seg_rank (segmentImpl (snd (setRank r s))) = r"
  by (auto simp: setRank_def compareAndSetSegmentValue_def)

text \<open>The segment of an external id that a step sets, and that later steps leave alone, stays.\<close>

lemma fold_sets:
  assumes "fold_or_fail f xs m = Inr m'" and "x \<in> set xs" and "distinct (map key xs)"
    and "\<And>y a b. f y a = Inr b \<Longrightarrow> frame env {key y} (proj a) (proj b)"
    and "\<And>a b. f x a = Inr b \<Longrightarrow> Q (getSegment (sid env (proj a) (key x)) (proj a)) (getSegment (sid env (proj a) (key x)) (proj b))"
  shows "Q (getSegment (sid env (proj m) (key x)) (proj m)) (getSegment (sid env (proj m) (key x)) (proj m'))"
  using assms(1-3)
proof (induction xs arbitrary: m)
  case (Cons y ys)
  then obtain c where c: "f y m = Inr c" "fold_or_fail f ys c = Inr m'" by (auto simp: and_then_Inr)
  note fr = assms(4) [OF c(1)]
  then have sid: "sid env (proj c) = sid env (proj m)" by (intro sid_cong) (simp add: frame_def)
  show ?case
  proof (cases "x = y")
    case True
    then have "key x \<notin> key ` set ys" using Cons.prems(3) by auto
    moreover have "frame env (\<Union>y\<in>set ys. {key y}) (proj c) (proj m')"
      by (rule frame_fold [OF c(2), of env "\<lambda>y. {key y}" proj, OF assms(4)])
    ultimately have "getSegment (sid env (proj c) (key x)) (proj m') = getSegment (sid env (proj c) (key x)) (proj c)"
      unfolding frame_def by blast
    with assms(5) c(1) True show ?thesis by (simp add: sid)
  next
    case False
    with Cons.prems have "x \<in> set ys" "key x \<noteq> key y" "distinct (map key ys)" by (auto simp: rev_image_eqI)
    with Cons.IH [OF c(2)] fr show ?thesis by (simp add: sid frame_def)
  qed
qed simp

lemma rank_step:
  assumes "inj (ie_getHash env)" and "on_external_segment env (snd \<circ> setRank r) x m = Inr m'"
  shows "frame env {x} m m'"
    and "getSegment (sid env m x) m' = map_option (snd \<circ> setRank r) (getSegment (sid env m x) m)"
proof -
  from assms(2) have "m' = on_segment (sid env m x) (snd \<circ> setRank r) m"
    by (auto simp: on_external_segment_def and_then_Inr dest: sid_eq)
  then show "frame env {x} m m'" "getSegment (sid env m x) m' = map_option (snd \<circ> setRank r) (getSegment (sid env m x) m)"
    by (simp_all add: frame_on [OF assms(1)] getSegment_on)
qed

lemma rename_step:
  assumes inj: "inj (ie_getHash env)" and r: "apply_rename env d discard (a, b) (renamed, m) = Inr (renamed', m')"
  shows "frame env {a, b} m m'"
proof -
  from r consider "m' = m" | "m' = removeSegment (sid env m a) m" |
      c where "changeSegmentId (sid env m a) (sid env m b) m = Inr (c, m')" "getSegment (sid env m a) m \<noteq> None"
    unfolding apply_rename_def Let_def prod.case and_then_Inr
    by (elim exE conjE) (auto dest!: sid_eq simp: and_then_Inr split: if_splits)
  then show ?thesis
  proof cases
    case 1
    then show ?thesis by simp
  next
    case 2
    then show ?thesis by (simp add: frame_def getSegment_remove sid_inj [OF inj])
  next
    case 3
    note ch = changeSegmentId_Inr [OF 3]
    have "getSegment (sid env m x) m' = getSegment (sid env m x) m" if "x \<notin> {a, b}" for x
      by (rule ch(4)) (use that in \<open>simp_all add: sid_inj [OF inj]\<close>)
    then show ?thesis by (simp add: frame_def ch(1,2))
  qed
qed

lemma orphan_step:
  assumes "inj (ie_getHash env)" and "orphan_removed env x (ids, m) = Inr (ids', m')"
  shows "frame env {x} m m'"
    and "case getSegment (sid env m x) m' of None \<Rightarrow> True
      | Some s \<Rightarrow> seg_orphaned (segmentImpl s) = Some SegDeleted \<and> segment_parts s = []"
proof -
  have gone: "segment_parts (snd (removeAllParts s)) = []" for s
    by (auto simp: segment_parts_def removeAllParts_def filter_empty_conv)
  have orphaned: "seg_orphaned (segmentImpl (snd (removeAllParts (setOrphaned x s)))) = x" for x s
    by (auto simp: removeAllParts_def setOrphaned_def compareAndSetSegmentValue_def)
  from assms(2) consider "m' = m" "getSegment (sid env m x) m = None" |
      "m' = on_segment (sid env m x) (\<lambda>s. snd (removeAllParts (setOrphaned (Some SegDeleted) s))) m"
    by (auto simp: orphan_removed_def and_then_Inr split: option.splits dest!: sid_eq)
  then have "frame env {x} m m' \<and> (case getSegment (sid env m x) m' of None \<Rightarrow> True
      | Some s \<Rightarrow> seg_orphaned (segmentImpl s) = Some SegDeleted \<and> segment_parts s = [])"
  proof cases
    case 2
    then show ?thesis by (simp add: frame_on [OF assms(1)] getSegment_on gone orphaned split: option.split)
  qed simp
  then show "frame env {x} m m'" "case getSegment (sid env m x) m' of None \<Rightarrow> True
      | Some s \<Rightarrow> seg_orphaned (segmentImpl s) = Some SegDeleted \<and> segment_parts s = []" by blast+
qed

text \<open>A segment that is regenerated.\<close>

definition follows :: "LocalIngestSegment \<Rightarrow> IngestSegmentModel option \<Rightarrow> bool" where
  "follows s segment = (case segment of None \<Rightarrow> False
     | Some m \<Rightarrow> seg_externalId (segmentImpl m) = is_externalId s \<and> seg_rank (segmentImpl m) = is_rank s)"

lemma generated_part_segment:
  "updateModelWithGeneratedPart env ip m = Inr m' \<Longrightarrow> segmentImpl m' = segmentImpl m"
  by (cases ip) (auto simp: updateModelWithGeneratedPart_def Let_def and_then_Inr replacePart_def put_part_def split: sum.splits)

lemma replaceSegment_Inr:
  assumes "replaceSegment (ie_getHash env) raw m = Inr (i, m')"
  shows "i = sid env m (seg_externalId raw)" and "im_rundownId m' = im_rundownId m" and "im_rundown m' = im_rundown m"
    and "k \<noteq> i \<Longrightarrow> getSegment k m' = getSegment k m"
    and "\<exists>s. getSegment i m' = Some s \<and> segmentImpl s = raw\<lparr>seg_id := i, seg_rundownId := im_rundownId m\<rparr>"
  using assms
  by (auto simp: replaceSegment_def Let_def getSegment_def new_segment_model_def split: sum.splits option.splits dest: sid_eq)

lemma generated_segment:
  assumes "updateModelWithGeneratedSegment env s result m = Inr (i, m')"
  shows "i = sid env m (is_externalId s)" and "im_rundownId m' = im_rundownId m" and "im_rundown m' = im_rundown m"
    and "k \<noteq> i \<Longrightarrow> getSegment k m' = getSegment k m" and "follows s (getSegment i m')"
proof -
  let ?raw = "new_ingest_segment s (bs_isHidden result)"
  from assms obtain m1 where 1: "replaceSegment (ie_getHash env) ?raw m = Inr (i, m1)"
    by (auto simp: updateModelWithGeneratedSegment_def and_then_Inr split: option.splits)
  note r = replaceSegment_Inr [OF 1]
  from r(5) obtain t where t: "getSegment i m1 = Some t"
      "segmentImpl t = ?raw\<lparr>seg_id := i, seg_rundownId := im_rundownId m\<rparr>" by blast
  with assms 1 obtain u where u: "fold_or_fail (updateModelWithGeneratedPart env) (enumerate 0 (bs_parts result)) t = Inr u"
      "m' = put_segment i u m1"
    by (auto simp: updateModelWithGeneratedSegment_def and_then_Inr)
  have "segmentImpl u = segmentImpl t"
    using fold_or_fail_invariant [OF u(1), of "\<lambda>x. segmentImpl x = segmentImpl t"] generated_part_segment by auto
  then show "follows s (getSegment i m')"
    by (simp add: u(2) getSegment_put follows_def t(2) new_ingest_segment_def)
  show "i = sid env m (is_externalId s)" using r(1) by (simp add: new_ingest_segment_def)
  show "im_rundownId m' = im_rundownId m" "im_rundown m' = im_rundown m" by (simp_all add: u(2) r(2,3))
  show "k \<noteq> i \<Longrightarrow> getSegment k m' = getSegment k m" by (simp add: u(2) getSegment_put r(4))
qed

lemma regenerated_segment:
  assumes inj: "inj (ie_getHash env)" and r: "regenerateSegmentAndUpdateModel env reloaded s m = Inr (i, m')"
  shows "i = sid env m (is_externalId s)" and "frame env {is_externalId s} m m'" and "follows s (getSegment i m')"
proof -
  have "i = sid env m (is_externalId s) \<and> im_rundownId m' = im_rundownId m \<and> im_rundown m' = im_rundown m
    \<and> (\<forall>k. k \<noteq> i \<longrightarrow> getSegment k m' = getSegment k m) \<and> follows s (getSegment i m')"
  proof (cases "ge_getSegment env reloaded s")
    case None
    with r have "replaceSegment (ie_getHash env) (createInternalErrorSegment s) m = Inr (i, m')"
      by (auto simp: regenerateSegmentAndUpdateModel_def and_then_Inr)
    from replaceSegment_Inr [OF this] show ?thesis
      by (auto simp: createInternalErrorSegment_def new_ingest_segment_def follows_def)
  next
    case (Some result)
    with r have "updateModelWithGeneratedSegment env s result m = Inr (i, m')"
      by (auto simp: regenerateSegmentAndUpdateModel_def and_then_Inr)
    from generated_segment [OF this] show ?thesis by blast
  qed
  then show "i = sid env m (is_externalId s)" "frame env {is_externalId s} m m'" "follows s (getSegment i m')"
    by (auto simp: frame_def sid_inj [OF inj])
qed

lemma follows_sorted [simp]: "follows (s\<lparr>is_parts := ps\<rparr>) = follows s"
  by (simp add: follows_def fun_eq_iff split: option.split)

lemma regenerated_full:
  assumes inj: "inj (ie_getHash env)" and off: "\<not> ge_preserveOrphanedSegmentPositionInRundown env"
    and r: "regenerateSegmentAndUpdateModelFull env s m = Inr (i, m')"
  shows "i = sid env m (is_externalId s)" and "frame env {is_externalId s} m m'"
    and "follows s (getSegment (sid env m (is_externalId s)) m')"
proof -
  let ?s = "s\<lparr>is_parts := sort_key ip_rank (is_parts s)\<rparr>"
  from r obtain j m1 where 1: "regenerateSegmentAndUpdateModel env False ?s m = Inr (j, m1)" and
      2: "(if (case getSegment j m1 of None \<Rightarrow> False | Some segment \<Rightarrow> ge_needsReload env segment)
          then regenerateSegmentAndUpdateModel env True ?s m1 else Inr (j, m1)) = Inr (i, m')"
    by (auto simp: regenerateSegmentAndUpdateModelFull_def Let_def and_then_Inr preserveOrphanedSegmentPositionInRundown_def off
        split: option.splits)
  note a = regenerated_segment [OF inj 1]
  have "i = sid env m (is_externalId s) \<and> frame env {is_externalId s} m m' \<and> follows s (getSegment i m')"
  proof (cases "(i, m') = (j, m1)")
    case True
    with a show ?thesis by simp
  next
    case False
    with 2 have "regenerateSegmentAndUpdateModel env True ?s m1 = Inr (i, m')" by (auto split: if_splits)
    note b = regenerated_segment [OF inj this]
    from a(2) have "sid env m1 = sid env m" by (intro sid_cong) (simp add: frame_def)
    with b frame_trans [OF a(2) b(2)] show ?thesis by simp
  qed
  then show "i = sid env m (is_externalId s)" "frame env {is_externalId s} m m'"
    "follows s (getSegment (sid env m (is_externalId s)) m')" by auto
qed

text \<open>Documents as they are loaded: each segment is kept under the id of its external id.\<close>

definition loaded_segments :: "('z) ingest_env_scheme \<Rightarrow> IngestModel \<Rightarrow> bool" where
  "loaded_segments env m = (map_wf (segmentsImpl m)
     \<and> (\<forall>s\<in>set (getAllSegments m). getSegment (sid env m (seg_externalId (segmentImpl s))) m = Some s))"

lemma getSegment_in_all: "getSegment i m = Some s \<Longrightarrow> s \<in> set (getAllSegments m)"
  by (force simp: getSegment_def getAllSegments_def dest: map_of_SomeD split: option.splits if_splits)

lemma old_segment_map_get:
  assumes "loaded_segments env m" and "map_get (old_segment_map (getOrderedSegments m)) x = Some d"
  obtains s where "getSegment (sid env m x) m = Some s" and "segmentImpl s = d" and "seg_externalId d = x"
proof -
  have "map_get (fold (\<lambda>s. map_set (seg_externalId (segmentImpl s)) (segmentImpl s)) ss a) x = Some d \<Longrightarrow>
      map_get a x = Some d \<or> (\<exists>s\<in>set ss. seg_externalId (segmentImpl s) = x \<and> segmentImpl s = d)" for ss a
  proof (induction ss arbitrary: a)
    case (Cons s ss)
    then have "map_get (fold (\<lambda>s. map_set (seg_externalId (segmentImpl s)) (segmentImpl s)) ss
        (map_set (seg_externalId (segmentImpl s)) (segmentImpl s) a)) x = Some d" by simp
    from Cons.IH [OF this] show ?case by (auto split: if_splits)
  qed simp
  from this [of "getOrderedSegments m" "[]"] assms(2) obtain s where
      "s \<in> set (getAllSegments m)" "seg_externalId (segmentImpl s) = x" "segmentImpl s = d"
    by (auto simp: old_segment_map_def getOrderedSegments_def)
  with assms(1) that show ?thesis by (auto simp: loaded_segments_def)
qed

lemma old_segment_map_has:
  assumes "s \<in> set (getAllSegments m)"
  shows "map_get (old_segment_map (getOrderedSegments m)) (seg_externalId (segmentImpl s)) \<noteq> None"
proof -
  let ?f = "\<lambda>s. map_set (seg_externalId (segmentImpl s)) (segmentImpl s)"
  have kept: "map_get a x \<noteq> None \<Longrightarrow> map_get (fold ?f ss a) x \<noteq> None" for ss a x
    by (induction ss arbitrary: a) auto
  have "s \<in> set ss \<Longrightarrow> map_get (fold ?f ss a) (seg_externalId (segmentImpl s)) \<noteq> None" for ss a
  proof (induction ss arbitrary: a)
    case (Cons t ss)
    show ?case
    proof (cases "s = t")
      case True
      then have "map_get (?f t a) (seg_externalId (segmentImpl s)) \<noteq> None" by simp
      from kept [OF this] show ?thesis by simp
    next
      case False
      with Cons show ?thesis by simp
    qed
  qed simp
  then show ?thesis using assms by (simp add: old_segment_map_def getOrderedSegments_def)
qed

section \<open>The whole difference\<close>

lemma apply_steps:
  assumes inj: "inj (ie_getHash env)" and off: "\<not> ge_preserveOrphanedSegmentPositionInRundown env"
    and r: "diffAndApplyChanges env (Some new) (Some old) m = Inr (Some c, m')"
  obtains d m1 m2 m3 where "segment_diff old new m = Inr d"
    and "frame env (fst ` set (df_onlyRankChanged d)) m m1"
    and "\<And>x r. distinct (map fst (df_onlyRankChanged d)) \<Longrightarrow> (x, r) \<in> set (df_onlyRankChanged d) \<Longrightarrow>
      getSegment (sid env m x) m1 = map_option (snd \<circ> setRank r) (getSegment (sid env m x) m)"
    and "frame env (fst ` set (df_externalIdChanged d) \<union> snd ` set (df_externalIdChanged d)) m1 m2"
    and "frame env (is_externalId ` set (segments_to_regenerate d)) m2 m3"
    and "\<And>s. distinct (map is_externalId (segments_to_regenerate d)) \<Longrightarrow> s \<in> set (segments_to_regenerate d) \<Longrightarrow>
      follows s (getSegment (sid env m (is_externalId s)) m3)"
    and "frame env (fst ` set (df_removed d)) m3 m'"
    and "\<And>x. distinct (map fst (df_removed d)) \<Longrightarrow> x \<in> fst ` set (df_removed d) \<Longrightarrow>
      (case getSegment (sid env m x) m' of None \<Rightarrow> True
       | Some s \<Rightarrow> seg_orphaned (segmentImpl s) = Some SegDeleted \<and> segment_parts s = [])"
proof -
  let ?rank = "\<lambda>(i, r). on_external_segment env (snd \<circ> setRank r) i"
  let ?regen = "\<lambda>s (ids, m). and_then (regenerateSegmentAndUpdateModelFull env s m) (\<lambda>(i, m). Inr (ids @ [i], m))"
  from r obtain d m1 renamed m2 changed m3 orphaned where
      d: "segment_diff old new m = Inr d" and
      1: "fold_or_fail ?rank (df_onlyRankChanged d) m = Inr m1" and
      2: "fold_or_fail (apply_rename env d True) (df_externalIdChanged d) ([], m1) = Inr (renamed, m2)" and
      3: "fold_or_fail ?regen (segments_to_regenerate d) ([], m2) = Inr (changed, m3)" and
      4: "fold_or_fail (orphan_removed env) (map fst (df_removed d)) ([], m3) = Inr (orphaned, m')"
    by (auto simp: diffAndApplyChanges_def and_then_Inr applyExternalIdDiff_def calculateSegmentsFromIngestData_def split: if_splits)
  have s1: "frame env {fst y} (id a) (id b)" if "?rank y a = Inr b" for y a b
    using rank_step(1) [OF inj] that by (cases y) auto
  have s2: "frame env {fst y, snd y} (snd a) (snd b)" if "apply_rename env d True y a = Inr b" for y a b
    using rename_step [OF inj] that by (cases y; cases a; cases b) auto
  have s3: "frame env {is_externalId y} (snd a) (snd b)" if "?regen y a = Inr b" for y a b
    using regenerated_full(2) [OF inj off] that by (cases a; cases b) (auto simp: and_then_Inr)
  have s4: "frame env {y} (snd a) (snd b)" if "orphan_removed env y a = Inr b" for y a b
    using orphan_step(1) [OF inj] that by (cases a; cases b) auto
  have f1: "frame env (fst ` set (df_onlyRankChanged d)) m m1"
    using frame_fold [OF 1, of env "\<lambda>y. {fst y}" id, OF s1] by (simp add: UNION_singleton_eq_range)
  have f2: "frame env (fst ` set (df_externalIdChanged d) \<union> snd ` set (df_externalIdChanged d)) m1 m2"
    by (rule frame_mono [OF frame_fold [OF 2, of env "\<lambda>y. {fst y, snd y}" snd, OF s2, simplified]]) auto
  have f3: "frame env (is_externalId ` set (segments_to_regenerate d)) m2 m3"
    using frame_fold [OF 3, of env "\<lambda>y. {is_externalId y}" snd, OF s3] by (simp add: UNION_singleton_eq_range)
  have f4: "frame env (fst ` set (df_removed d)) m3 m'"
    using frame_fold [OF 4, of env "\<lambda>y. {y}" snd, OF s4] by (simp add: UNION_singleton_eq_range)
  have sids: "sid env m1 = sid env m" "sid env m2 = sid env m" "sid env m3 = sid env m"
    using f1 f2 f3 by (simp_all add: sid_def frame_def fun_eq_iff)
  have ranks: "getSegment (sid env m x) m1 = map_option (snd \<circ> setRank r) (getSegment (sid env m x) m)"
    if "distinct (map fst (df_onlyRankChanged d))" "(x, r) \<in> set (df_onlyRankChanged d)" for x r
  proof -
    have "getSegment (sid env (id a) (fst (x, r))) (id b)
        = map_option (snd \<circ> setRank r) (getSegment (sid env (id a) (fst (x, r))) (id a))" if "?rank (x, r) a = Inr b" for a b
      using rank_step(2) [OF inj] that by simp
    from fold_sets [where proj = id and key = fst and Q = "\<lambda>a b. b = map_option (snd \<circ> setRank r) a", OF 1 that(2,1) s1 this]
    show ?thesis by simp
  qed
  have regen: "follows s (getSegment (sid env m (is_externalId s)) m3)"
    if "distinct (map is_externalId (segments_to_regenerate d))" "s \<in> set (segments_to_regenerate d)" for s
  proof -
    have "follows s (getSegment (sid env (snd a) (is_externalId s)) (snd b))" if "?regen s a = Inr b" for a b
      using regenerated_full(3) [OF inj off] that by (cases a; cases b) (auto simp: and_then_Inr)
    from fold_sets [where proj = snd and key = is_externalId and Q = "\<lambda>_. follows s", OF 3 that(2,1) s3 this]
    show ?thesis by (simp add: sids)
  qed
  have gone: "case getSegment (sid env m x) m' of None \<Rightarrow> True
      | Some s \<Rightarrow> seg_orphaned (segmentImpl s) = Some SegDeleted \<and> segment_parts s = []"
    if "distinct (map fst (df_removed d))" "x \<in> fst ` set (df_removed d)" for x
  proof -
    let ?Q = "\<lambda>_ b. case b of None \<Rightarrow> True
      | Some s \<Rightarrow> seg_orphaned (segmentImpl s) = Some SegDeleted \<and> segment_parts s = []"
    have "?Q (getSegment (sid env (snd a) (id x)) (snd a)) (getSegment (sid env (snd a) (id x)) (snd b))"
      if "orphan_removed env x a = Inr b" for a b
      using orphan_step(2) [OF inj] that by (cases a; cases b) simp
    from fold_sets [where proj = snd and key = id and Q = ?Q, OF 4 _ _ _ this] that s4
    show ?thesis by (simp add: sids)
  qed
  from that [OF d f1 ranks f2 f3 regen f4 gone] show thesis .
qed

lemma renamed_to_added: "renamed_to added old = Some s \<Longrightarrow> s \<in> snd ` set added"
  by (auto simp: renamed_to_def split: option.splits dest!: find_Some_set)

lemma distinct_regenerate:
  assumes d: "distinct (map is_externalId segments)"
  shows "distinct (map is_externalId (sort_key f (filter P segments @ filter Q (filter (\<lambda>s. \<not> P s \<and> R s) segments))))"
proof -
  have "inj_on is_externalId (set segments)" "distinct segments" using d by (simp_all add: distinct_map)
  then show ?thesis by (auto simp: distinct_map intro: inj_on_subset)
qed

abbreviation entry_of :: "LocalIngestSegment \<Rightarrow> string \<times> LocalIngestSegment" where
  "entry_of s \<equiv> (is_externalId s, s)"

lemma diff_of_segments:
  assumes "segment_diff old new m = Inr d"
  defines "docs \<equiv> old_segment_map (getOrderedSegments m)"
  defines "added \<equiv> \<lambda>s. is_added (map entry_of (ir_segments old)) docs (entry_of s)"
    and "unchanged \<equiv> \<lambda>s. is_unchanged (map entry_of (ir_segments old)) docs (entry_of s)"
    and "ranked \<equiv> \<lambda>s. only_rank (map entry_of (ir_segments old)) docs (entry_of s)"
  shows "distinct (map is_externalId (ir_segments new))" and "distinct (map is_externalId (ir_segments old))"
    and "df_onlyRankChanged d = map (\<lambda>s. (is_externalId s, is_rank s)) (filter ranked (ir_segments new))"
    and "set (segments_to_regenerate d) = {s \<in> set (ir_segments new). added s
      \<or> \<not> added s \<and> \<not> unchanged s \<and> \<not> truthy_number (map_get (df_onlyRankChanged d) (is_externalId s))}"
    and "distinct (map is_externalId (segments_to_regenerate d))"
    and "fst ` set (df_removed d) = is_externalId ` set (ir_segments old) - is_externalId ` set (ir_segments new)"
    and "distinct (map fst (df_removed d))"
    and "fst ` set (df_externalIdChanged d) \<subseteq> fst ` set (df_removed d)"
    and "snd ` set (df_externalIdChanged d) \<subseteq> is_externalId ` {s \<in> set (ir_segments new). added s}"
proof -
  let ?N = "map entry_of (ir_segments new)" and ?O = "map entry_of (ir_segments old)"
  from assms(1) show new: "distinct (map is_externalId (ir_segments new))"
    and old: "distinct (map is_externalId (ir_segments old))"
    by (auto simp: segment_diff_def and_then_Inr dest: compileSegmentEntries_Inr)
  from assms(1) have d: "d = diffSegmentEntries ?O ?N (Some (getOrderedSegments m))"
    by (auto simp: segment_diff_def and_then_Inr dest: compileSegmentEntries_Inr)
  have N: "distinct (map fst ?N)" "distinct (map fst ?O)" using new old by (simp_all add: comp_def)
  note e = diff_entries [OF N d docs_def [THEN meta_eq_to_obj_eq]]
  have e1: "df_added d = map entry_of (filter added (ir_segments new))"
    using e(1) by (simp add: filter_map comp_def added_def)
  have e2: "df_changed d = map entry_of (filter (\<lambda>s. \<not> added s \<and> \<not> unchanged s) (ir_segments new))"
    using e(2) by (simp add: filter_map comp_def added_def unchanged_def)
  show only: "df_onlyRankChanged d = map (\<lambda>s. (is_externalId s, is_rank s)) (filter ranked (ir_segments new))"
    using e(4) by (simp add: filter_map comp_def ranked_def)
  have e5: "df_removed d = map entry_of (filter (\<lambda>s. map_get ?N (is_externalId s) = None) (ir_segments old))"
    using e(5) by (simp add: filter_map comp_def)
  let ?Q = "\<lambda>s. \<not> truthy_number (map_get (df_onlyRankChanged d) (is_externalId s))"
  have regen: "segments_to_regenerate d = sort_key is_rank (filter added (ir_segments new)
      @ filter ?Q (filter (\<lambda>s. \<not> added s \<and> \<not> unchanged s) (ir_segments new)))"
    by (simp add: segments_to_regenerate_def e1 e2 comp_def)
  show "set (segments_to_regenerate d) = {s \<in> set (ir_segments new). added s \<or> \<not> added s \<and> \<not> unchanged s \<and> ?Q s}"
    unfolding regen by auto
  show "distinct (map is_externalId (segments_to_regenerate d))"
    unfolding regen by (rule distinct_regenerate [OF new])
  show removed: "fst ` set (df_removed d) = is_externalId ` set (ir_segments old) - is_externalId ` set (ir_segments new)"
    unfolding e5 by (auto simp: map_of_eq_None_iff image_iff)
  show "distinct (map fst (df_removed d))"
    unfolding e5 using old by (simp add: comp_def distinct_map inj_on_def)
  show "fst ` set (df_externalIdChanged d) \<subseteq> fst ` set (df_removed d)" using e(6) by (auto intro: rev_image_eqI)
  show "snd ` set (df_externalIdChanged d) \<subseteq> is_externalId ` {s \<in> set (ir_segments new). added s}"
  proof
    fix b assume "b \<in> snd ` set (df_externalIdChanged d)"
    then obtain old t where "renamed_to (df_added d) old = Some t" "b = is_externalId t" by (subst (asm) e(6)) auto
    with renamed_to_added [OF this(1)] show "b \<in> is_externalId ` {s \<in> set (ir_segments new). added s}" by (auto simp: e1)
  qed
qed

lemma known_document:
  assumes "loaded_segments env m" and "\<not> is_added O' (old_segment_map (getOrderedSegments m)) (entry_of s)"
  obtains g where "getSegment (sid env m (is_externalId s)) m = Some g" and "seg_externalId (segmentImpl g) = is_externalId s"
    and "old_doc_of (old_segment_map (getOrderedSegments m)) s = Some (segmentImpl g)"
  using assms old_segment_map_get [OF assms(1), of "is_externalId s"] by (auto simp: is_added_def old_doc_of_def)

text \<open>
  C15. When stories are inserted, moved or deleted and the difference is applied, without an error, by a studio that does
  not keep the positions of orphaned segments and with hashes that differ, the model follows the newsroom system:
  every segment of the new data is there under its id, with its external id and rank; a segment that is no longer in
  the data is gone, or is orphaned and has no parts; and a segment whose data and document agree, with the old data and
  with the document in the model, is not touched.
\<close>

theorem model_follows_ingest:
  assumes inj: "inj (ie_getHash env)" and off: "\<not> ge_preserveOrphanedSegmentPositionInRundown env"
    and loaded: "loaded_segments env m"
    and r: "diffAndApplyChanges env (Some new) (Some old) m = Inr (Some c, m')"
  shows "(\<forall>s\<in>set (ir_segments new). follows s (getSegment (sid env m (is_externalId s)) m'))
    \<and> (\<forall>s\<in>set (ir_segments old). is_externalId s \<notin> is_externalId ` set (ir_segments new) \<longrightarrow>
        (case getSegment (sid env m (is_externalId s)) m' of None \<Rightarrow> True
         | Some segment \<Rightarrow> seg_orphaned (segmentImpl segment) = Some SegDeleted \<and> segment_parts segment = []))
    \<and> (\<forall>s\<in>set (ir_segments new). \<forall>segment. s \<in> set (ir_segments old) \<longrightarrow>
        getSegment (sid env m (is_externalId s)) m = Some segment \<longrightarrow>
        seg_externalId (segmentImpl segment) = is_externalId s \<longrightarrow> seg_rank (segmentImpl segment) = is_rank s \<longrightarrow>
        seg_externalModified (segmentImpl segment) = is_modified s \<longrightarrow>
        getSegment (sid env m (is_externalId s)) m' = Some segment)"
proof -
  obtain d m1 m2 m3 where d: "segment_diff old new m = Inr d"
    and f1: "frame env (fst ` set (df_onlyRankChanged d)) m m1"
    and ranks: "\<And>x r. distinct (map fst (df_onlyRankChanged d)) \<Longrightarrow> (x, r) \<in> set (df_onlyRankChanged d) \<Longrightarrow>
      getSegment (sid env m x) m1 = map_option (snd \<circ> setRank r) (getSegment (sid env m x) m)"
    and f2: "frame env (fst ` set (df_externalIdChanged d) \<union> snd ` set (df_externalIdChanged d)) m1 m2"
    and f3: "frame env (is_externalId ` set (segments_to_regenerate d)) m2 m3"
    and regen: "\<And>s. distinct (map is_externalId (segments_to_regenerate d)) \<Longrightarrow> s \<in> set (segments_to_regenerate d) \<Longrightarrow>
      follows s (getSegment (sid env m (is_externalId s)) m3)"
    and f4: "frame env (fst ` set (df_removed d)) m3 m'"
    and gone: "\<And>x. distinct (map fst (df_removed d)) \<Longrightarrow> x \<in> fst ` set (df_removed d) \<Longrightarrow>
      (case getSegment (sid env m x) m' of None \<Rightarrow> True
       | Some s \<Rightarrow> seg_orphaned (segmentImpl s) = Some SegDeleted \<and> segment_parts s = [])"
    by (rule apply_steps [OF inj off r]) blast
  note D = diff_of_segments [OF d]
  define O' docs where "O' = map entry_of (ir_segments old)" and "docs = old_segment_map (getOrderedSegments m)"
  have sids: "sid env m1 = sid env m" "sid env m2 = sid env m" "sid env m3 = sid env m"
    using f1 f2 f3 by (simp_all add: sid_def frame_def fun_eq_iff)
  have same: "s = t" if "s \<in> set (ir_segments new)" "t \<in> set (ir_segments new)" "is_externalId s = is_externalId t" for s t
    using that D(1) by (auto simp: distinct_map inj_on_def)
  have only_distinct: "distinct (map fst (df_onlyRankChanged d))"
    unfolding D(3) using distinct_map_filter [OF D(1)] by (simp add: comp_def)
  have late: "getSegment (sid env m (is_externalId s)) m' = getSegment (sid env m (is_externalId s)) m3"
    if "s \<in> set (ir_segments new)" for s
    using f4 that unfolding frame_def D(6) sids by blast
  have kept: "getSegment (sid env m (is_externalId s)) m3 = getSegment (sid env m (is_externalId s)) m1"
    if s: "s \<in> set (ir_segments new)" "s \<notin> set (segments_to_regenerate d)" for s
  proof -
    have "is_externalId s \<notin> is_externalId ` set (segments_to_regenerate d)" using s same unfolding D(4) by blast
    moreover have "is_externalId s \<notin> fst ` set (df_externalIdChanged d) \<union> snd ` set (df_externalIdChanged d)"
      using D(8,9) s same unfolding D(4,6) by blast
    ultimately show ?thesis using f2 f3 unfolding frame_def sids by simp
  qed
  have ranked: "is_externalId s \<in> fst ` set (df_onlyRankChanged d) \<longleftrightarrow> only_rank O' docs (entry_of s)"
    if s: "s \<in> set (ir_segments new)" for s
  proof
    assume "is_externalId s \<in> fst ` set (df_onlyRankChanged d)"
    then obtain t where "t \<in> set (ir_segments new)" "only_rank O' docs (entry_of t)" "is_externalId t = is_externalId s"
      unfolding D(3) O'_def docs_def by auto
    with same [of t s] s show "only_rank O' docs (entry_of s)" by auto
  next
    assume "only_rank O' docs (entry_of s)"
    then have "(is_externalId s, is_rank s) \<in> set (df_onlyRankChanged d)" using s by (auto simp: D(3) O'_def docs_def)
    then show "is_externalId s \<in> fst ` set (df_onlyRankChanged d)" by (rule rev_image_eqI) simp
  qed
  have unranked: "getSegment (sid env m (is_externalId s)) m1 = getSegment (sid env m (is_externalId s)) m"
    if "s \<in> set (ir_segments new)" "\<not> only_rank O' docs (entry_of s)" for s
    using f1 that ranked unfolding frame_def by blast
  have "follows s (getSegment (sid env m (is_externalId s)) m')" if s: "s \<in> set (ir_segments new)" for s
  proof (cases "s \<in> set (segments_to_regenerate d)")
    case True
    from regen [OF D(5) this] show ?thesis by (simp add: late [OF s])
  next
    case False
    then have "\<not> is_added O' docs (entry_of s)" and cs: "is_unchanged O' docs (entry_of s)
        \<or> truthy_number (map_get (df_onlyRankChanged d) (is_externalId s))"
      using s unfolding D(4) O'_def docs_def by auto
    from known_document [OF loaded this(1) [unfolded docs_def]] obtain g where
        g: "getSegment (sid env m (is_externalId s)) m = Some g" "seg_externalId (segmentImpl g) = is_externalId s"
          "old_doc_of docs s = Some (segmentImpl g)" by (auto simp: docs_def)
    show ?thesis
    proof (cases "only_rank O' docs (entry_of s)")
      case True
      then have "(is_externalId s, is_rank s) \<in> set (df_onlyRankChanged d)"
        using s by (auto simp: D(3) O'_def docs_def)
      from ranks [OF only_distinct this] g show ?thesis by (simp add: late [OF s] kept [OF s False] follows_def)
    next
      case untouched: False
      then have "map_get (df_onlyRankChanged d) (is_externalId s) = None" using ranked [OF s] by (simp add: map_of_eq_None_iff)
      with cs have "seg_rank (segmentImpl g) = is_rank s"
        using g(3) by (auto simp: truthy_number_def is_unchanged_def same_rank_def)
      with g show ?thesis by (simp add: late [OF s] kept [OF s False] unranked [OF s untouched] follows_def)
    qed
  qed
  moreover have "getSegment (sid env m (is_externalId s)) m' = Some g"
    if s: "s \<in> set (ir_segments new)" "s \<in> set (ir_segments old)" and g: "getSegment (sid env m (is_externalId s)) m = Some g"
      "seg_externalId (segmentImpl g) = is_externalId s" "seg_rank (segmentImpl g) = is_rank s"
      "seg_externalModified (segmentImpl g) = is_modified s" for s g
  proof -
    have "map_get O' (is_externalId s) = Some s" using s(2) D(2) by (simp add: O'_def map_of_eq_Some_iff comp_def image_iff)
    moreover have "old_doc_of docs s \<noteq> None"
      using old_segment_map_has [OF getSegment_in_all [OF g(1)]] g(2) by (simp add: docs_def old_doc_of_def)
    ultimately have new: "\<not> is_added O' docs (entry_of s)" and "same_content O' (entry_of s)"
      by (simp_all add: is_added_def same_content_def)
    moreover from known_document [OF loaded new [unfolded docs_def]] g(1) have "old_doc_of docs s = Some (segmentImpl g)"
      by (auto simp: docs_def)
    ultimately have "is_unchanged O' docs (entry_of s)" "\<not> only_rank O' docs (entry_of s)"
      using g by (simp_all add: is_unchanged_def only_rank_def same_rank_def)
    moreover from this have "s \<notin> set (segments_to_regenerate d)"
      unfolding D(4) using new ranked [OF s(1)] by (auto simp: O'_def docs_def)
    ultimately show ?thesis using g(1) by (simp add: late [OF s(1)] kept [OF s(1)] unranked [OF s(1)])
  qed
  ultimately show ?thesis using gone [OF D(7)] unfolding D(6) by blast
qed

definition ex_generation_env :: generation_env where
  "ex_generation_env = ingest_env.extend ex_mos_env \<lparr>ge_getSegment = \<lambda>_ _. Some \<lparr>bs_isHidden = False, bs_parts = []\<rparr>,
     ge_needsReload = \<lambda>_. False, ge_updateExpectedPackages = id, ge_preserveOrphanedSegmentPositionInRundown = False,
     ge_blueprintId = ''bp'', ge_show_nat = \<lambda>_. ''1'', ge_acceptsRundown = \<lambda>_. True, ge_getRundown = \<lambda>_. Some JNull\<rparr>"

definition ex_segment_doc :: "string \<Rightarrow> rank \<Rightarrow> DBSegment" where
  "ex_segment_doc x r = \<lparr>seg_id = ''r_segment_'' @ x, seg_rank = r, seg_externalId = x, seg_externalModified = 1,
     seg_rundownId = ''r'', isHidden = False, seg_orphaned = None\<rparr>"

definition ex_mos_model :: IngestModel where
  "ex_mos_model = \<lparr>im_rundownId = ''r'', im_rundown = Some \<lparr>ird_orphaned = None, ird_airStatus = None, ird_status = None,
      ird_body = JNull\<rparr>, isLocked = True, disposed = False,
     segmentsImpl = map (\<lambda>(x, r). (''r_segment_'' @ x,
       \<lparr>segmentModel = new_segment_model False (ex_segment_doc x r) [] None, sw_deleted = False\<rparr>)) [(''s1'', 0), (''s2'', 1)],
     rundownBaselineExpectedPackagesStore = new_expected_store False ''r'' None None [] [] []\<rparr>"

definition ex_new_order :: LocalIngestRundown where
  "ex_new_order = ex_running_order\<lparr>ir_segments := [(ir_segments ex_running_order ! 0),
     \<lparr>is_externalId = ''s3'', is_name = ''WEATHER'', is_rank = 1, is_payload = None,
       is_parts = [ex_story ''d'' ''WEATHER;1''], is_modified = 2\<rparr>]\<rparr>"

theorem model_follows_ingest_witness:
  "\<exists>c m'. diffAndApplyChanges ex_generation_env (Some ex_new_order) (Some ex_running_order) ex_mos_model = Inr (Some c, m')
    \<and> (case getSegment ''r_segment_s3'' m' of None \<Rightarrow> False | Some s \<Rightarrow> seg_rank (segmentImpl s) = 1)"
proof -
  have "case diffAndApplyChanges ex_generation_env (Some ex_new_order) (Some ex_running_order) ex_mos_model of
      Inr (Some c, m') \<Rightarrow> True | _ \<Rightarrow> False" by code_simp
  then obtain c m' where r: "diffAndApplyChanges ex_generation_env (Some ex_new_order) (Some ex_running_order) ex_mos_model
      = Inr (Some c, m')" by (auto split: sum.splits prod.splits option.splits)
  have "inj (ie_getHash ex_generation_env)" "\<not> ge_preserveOrphanedSegmentPositionInRundown ex_generation_env"
    by (simp_all add: ex_generation_env_def ex_mos_env_def ingest_env.defs)
  moreover have "map_wf (segmentsImpl ex_mos_model)" unfolding map_wf_def by code_simp
  then have "loaded_segments ex_generation_env ex_mos_model"
    by (simp add: loaded_segments_def) (simp add: getAllSegments_def getSegment_def ex_mos_model_def sid_def ex_generation_env_def
        ex_mos_env_def ingest_env.defs new_segment_model_def ex_segment_doc_def)
  ultimately have "follows s (getSegment (sid ex_generation_env ex_mos_model (is_externalId s)) m')"
    if "s \<in> set (ir_segments ex_new_order)" for s
    using model_follows_ingest [OF _ _ _ r] that by blast
  from this [of "ir_segments ex_new_order ! 1"] have "follows (ir_segments ex_new_order ! 1) (getSegment ''r_segment_s3'' m')"
    by (simp add: ex_new_order_def sid_def ex_generation_env_def ex_mos_env_def ingest_env.defs ex_mos_model_def)
  with r show ?thesis by (auto simp: follows_def ex_new_order_def split: option.splits)
qed

end
