(* ===== verification/Ingest_Cache.thy ===== *)
theory Ingest_Cache
  imports Ingest_Data Playout_Database
begin

text \<open>
  The ingest data of a rundown in the database: \<open>packages/job-worker/src/ingest/ingestCache.ts\<close>, one document for the
  rundown and each of its segments and parts. What is stored is what is fetched. The data of a document has no
  modified time of its own, but fetching gives it one, and puts the parts into the data of their segment: the
  documents that are compared with the new ones are changed by it.
\<close>

section \<open>Documents\<close>

datatype cache_data =
    CachedRundown LocalIngestRundown
  | CachedSegment LocalIngestSegment
  | CachedPart LocalIngestPart

text \<open>The modified time that is omitted from the data is zero there, and kept beside it when it is set.\<close>

record IngestDataCacheObj =
  ic_id :: string
  ic_rundownId :: RundownId
  ic_segmentId :: "SegmentId option"
  ic_partId :: "PartId option"
  ic_modified :: time
  ic_data :: cache_data
  ic_data_modified :: "time option"

definition generateCacheForPart ::
  "(string \<Rightarrow> string) \<Rightarrow> RundownId \<Rightarrow> SegmentId \<Rightarrow> LocalIngestPart \<Rightarrow> ingest_error + IngestDataCacheObj" where
  "generateCacheForPart getHash rundownId segmentId part =
     and_then (getPartId getHash rundownId (ip_externalId part)) (\<lambda>partId.
       Inr \<lparr>ic_id = rundownId @ ''_'' @ partId, ic_rundownId = rundownId, ic_segmentId = Some segmentId,
         ic_partId = Some partId, ic_modified = ip_modified part, ic_data = CachedPart (part\<lparr>ip_modified := 0\<rparr>),
         ic_data_modified = None\<rparr>)"

definition generateCacheForSegment ::
  "(string \<Rightarrow> string) \<Rightarrow> RundownId \<Rightarrow> LocalIngestSegment \<Rightarrow> ingest_error + IngestDataCacheObj list" where
  "generateCacheForSegment getHash rundownId s =
     and_then (getSegmentId getHash rundownId (is_externalId s)) (\<lambda>segmentId.
     and_then (map_or_fail (generateCacheForPart getHash rundownId segmentId) (is_parts s)) (\<lambda>parts.
       Inr (\<lparr>ic_id = rundownId @ ''_'' @ segmentId, ic_rundownId = rundownId, ic_segmentId = Some segmentId, ic_partId = None,
          ic_modified = is_modified s, ic_data = CachedSegment (s\<lparr>is_parts := [], is_modified := 0\<rparr>),
          ic_data_modified = None\<rparr> # parts)))"

definition generateCacheForRundown ::
  "(string \<Rightarrow> string) \<Rightarrow> RundownId \<Rightarrow> LocalIngestRundown \<Rightarrow> ingest_error + IngestDataCacheObj list" where
  "generateCacheForRundown getHash rundownId r =
     and_then (map_or_fail (generateCacheForSegment getHash rundownId) (ir_segments r)) (\<lambda>segments.
       Inr (\<lparr>ic_id = rundownId, ic_rundownId = rundownId, ic_segmentId = None, ic_partId = None,
          ic_modified = ir_modified r, ic_data = CachedRundown (r\<lparr>ir_segments := [], ir_modified := 0\<rparr>),
          ic_data_modified = None\<rparr> # concat segments))"

section \<open>Fetching\<close>

definition cached_segment :: "IngestDataCacheObj list \<Rightarrow> (IngestDataCacheObj \<times> LocalIngestSegment) option" where
  "cached_segment objs =
     (case find (\<lambda>e. case ic_data e of CachedSegment _ \<Rightarrow> True | _ \<Rightarrow> False) objs of
        None \<Rightarrow> None
      | Some e \<Rightarrow> (case ic_data e of CachedSegment s \<Rightarrow> Some (e, s) | _ \<Rightarrow> None))"

definition cached_parts :: "IngestDataCacheObj list \<Rightarrow> LocalIngestPart list" where
  "cached_parts objs = compact (map (\<lambda>e. case ic_data e of
     CachedPart p \<Rightarrow> Some (p\<lparr>ip_modified := ic_modified e\<rparr>) | _ \<Rightarrow> None) objs)"

definition fetch_segment :: "IngestDataCacheObj list \<Rightarrow> LocalIngestSegment option" where
  "fetch_segment objs = map_option (\<lambda>(e, s).
     s\<lparr>is_modified := ic_modified e, is_parts := sort_key ip_rank (is_parts s @ cached_parts objs)\<rparr>) (cached_segment objs)"

definition cached_rundown :: "IngestDataCacheObj list \<Rightarrow> (IngestDataCacheObj \<times> LocalIngestRundown) option" where
  "cached_rundown docs =
     (case find (\<lambda>e. case ic_data e of CachedRundown _ \<Rightarrow> True | _ \<Rightarrow> False) docs of
        None \<Rightarrow> None
      | Some e \<Rightarrow> (case ic_data e of CachedRundown r \<Rightarrow> Some (e, r) | _ \<Rightarrow> None))"

definition segment_groups :: "IngestDataCacheObj list \<Rightarrow> (SegmentId, IngestDataCacheObj list) js_map" where
  \<comment> \<open>of the documents that have a segment\<close>
  "segment_groups docs = groupByToMapFunc (\<lambda>e. if truthy_str (ic_segmentId e) then ic_segmentId e else None) docs"

definition fetchRundown :: "IngestDataCacheObj list \<Rightarrow> LocalIngestRundown option" where
  "fetchRundown docs = map_option (\<lambda>(e, r). r\<lparr>ir_modified := ic_modified e,
     ir_segments := sort_key is_rank (ir_segments r @ compact (map (fetch_segment \<circ> snd) (segment_groups docs)))\<rparr>)
     (cached_rundown docs)"

definition fetched_doc :: "IngestDataCacheObj list \<Rightarrow> IngestDataCacheObj \<Rightarrow> IngestDataCacheObj" where
  \<comment> \<open>the document after its data was fetched: the code works on the data itself\<close>
  "fetched_doc docs d =
     (let objs = groups_get (segment_groups docs) (nullish (ic_segmentId d) []) in
      case ic_data d of
        CachedRundown _ \<Rightarrow> if map_option fst (cached_rundown docs) = Some d
          then d\<lparr>ic_data := (case fetchRundown docs of None \<Rightarrow> ic_data d | Some r \<Rightarrow> CachedRundown (r\<lparr>ir_modified := 0\<rparr>)),
             ic_data_modified := Some (ic_modified d)\<rparr> else d
      | CachedSegment _ \<Rightarrow> if map_option fst (cached_segment objs) = Some d
          then d\<lparr>ic_data := (case fetch_segment objs of None \<Rightarrow> ic_data d | Some s \<Rightarrow> CachedSegment (s\<lparr>is_modified := 0\<rparr>)),
             ic_data_modified := Some (ic_modified d)\<rparr> else d
      | CachedPart _ \<Rightarrow> if cached_segment objs \<noteq> None then d\<lparr>ic_data_modified := Some (ic_modified d)\<rparr> else d)"

section \<open>The cache of a job\<close>

record RundownIngestDataCache =
  rc_rundownId :: RundownId
  rc_documents :: "IngestDataCacheObj list"
  rc_changedDocumentIds :: "string js_set"

definition create_ingest_cache :: "RundownId \<Rightarrow> (string, IngestDataCacheObj) js_map \<Rightarrow> RundownIngestDataCache" where
  "create_ingest_cache rundownId c =
     \<lparr>rc_rundownId = rundownId, rc_documents = findFetch (\<lambda>d. ic_rundownId d = rundownId) c, rc_changedDocumentIds = []\<rparr>"

definition cache_fetchRundown :: "RundownIngestDataCache \<Rightarrow> LocalIngestRundown option \<times> RundownIngestDataCache" where
  "cache_fetchRundown c =
     (let r = fetchRundown (rc_documents c)
      in (r, if r = None then c else c\<lparr>rc_documents := map (fetched_doc (rc_documents c)) (rc_documents c)\<rparr>))"

definition cache_update ::
  "(string \<Rightarrow> string) \<Rightarrow> LocalIngestRundown \<Rightarrow> RundownIngestDataCache \<Rightarrow> ingest_error + RundownIngestDataCache" where
  "cache_update getHash r c =
     and_then (generateCacheForRundown getHash (rc_rundownId c) r) (\<lambda>cacheEntries.
       let (changed, docs) = diffAndReturnLatestObjects ic_id (=) None (rc_changedDocumentIds c) (rc_documents c) cacheEntries
       in Inr (c\<lparr>rc_documents := docs, rc_changedDocumentIds := changed\<rparr>))"

definition cache_delete :: "RundownIngestDataCache \<Rightarrow> RundownIngestDataCache" where
  "cache_delete c = c\<lparr>rc_documents := [],
     rc_changedDocumentIds := fold set_add (map ic_id (rc_documents c)) (rc_changedDocumentIds c)\<rparr>"

definition cache_saveToDatabase :: "RundownIngestDataCache \<Rightarrow> IngestDataCacheObj bulk_op list" where
  "cache_saveToDatabase c =
     (let documentsMap = normalizeArrayToMapFunc (\<lambda>d. Some (ic_id d)) (rc_documents c);
          removedIds = filter (\<lambda>i. map_get documentsMap i = None) (rc_changedDocumentIds c);
          updates = compact (map (\<lambda>i. map_option (ReplaceDoc i) (map_get documentsMap i)) (rc_changedDocumentIds c))
      in updates @ (if removedIds \<noteq> [] then [DeleteWhere (\<lambda>d. ic_id d \<in> set removedIds)] else []))"

end
