(* ===== verification/Ingest_Cache_Facts.thy ===== *)
theory Ingest_Cache_Facts
  imports Ingest_Cache Playout_Facts
begin

text \<open>
  What the ingest data cache stores is what it fetches: the documents of a rundown, in whatever order the database
  gives them, are put together again as the rundown they were generated from, and saving the cache leaves just those
  documents, whatever was fetched before.
\<close>

section \<open>The documents of a rundown\<close>

definition sid_of :: "(string \<Rightarrow> string) \<Rightarrow> RundownId \<Rightarrow> LocalIngestSegment \<Rightarrow> SegmentId" where
  "sid_of h rid s = h (rid @ ''_segment_'' @ is_externalId s)"

definition pid_of :: "(string \<Rightarrow> string) \<Rightarrow> RundownId \<Rightarrow> LocalIngestPart \<Rightarrow> PartId" where
  "pid_of h rid p = h (rid @ ''_part_'' @ ip_externalId p)"

definition part_doc_of :: "(string \<Rightarrow> string) \<Rightarrow> RundownId \<Rightarrow> SegmentId \<Rightarrow> LocalIngestPart \<Rightarrow> IngestDataCacheObj" where
  "part_doc_of h rid sid p = \<lparr>ic_id = rid @ ''_'' @ pid_of h rid p, ic_rundownId = rid, ic_segmentId = Some sid,
     ic_partId = Some (pid_of h rid p), ic_modified = ip_modified p, ic_data = CachedPart (p\<lparr>ip_modified := 0\<rparr>),
     ic_data_modified = None\<rparr>"

definition segment_doc_of :: "(string \<Rightarrow> string) \<Rightarrow> RundownId \<Rightarrow> LocalIngestSegment \<Rightarrow> IngestDataCacheObj" where
  "segment_doc_of h rid s = \<lparr>ic_id = rid @ ''_'' @ sid_of h rid s, ic_rundownId = rid, ic_segmentId = Some (sid_of h rid s),
     ic_partId = None, ic_modified = is_modified s, ic_data = CachedSegment (s\<lparr>is_parts := [], is_modified := 0\<rparr>),
     ic_data_modified = None\<rparr>"

definition rundown_doc_of :: "RundownId \<Rightarrow> LocalIngestRundown \<Rightarrow> IngestDataCacheObj" where
  "rundown_doc_of rid r = \<lparr>ic_id = rid, ic_rundownId = rid, ic_segmentId = None, ic_partId = None,
     ic_modified = ir_modified r, ic_data = CachedRundown (r\<lparr>ir_segments := [], ir_modified := 0\<rparr>),
     ic_data_modified = None\<rparr>"

definition docs_of_segment :: "(string \<Rightarrow> string) \<Rightarrow> RundownId \<Rightarrow> LocalIngestSegment \<Rightarrow> IngestDataCacheObj list" where
  "docs_of_segment h rid s = segment_doc_of h rid s # map (part_doc_of h rid (sid_of h rid s)) (is_parts s)"

definition docs_of_rundown :: "(string \<Rightarrow> string) \<Rightarrow> RundownId \<Rightarrow> LocalIngestRundown \<Rightarrow> IngestDataCacheObj list" where
  "docs_of_rundown h rid r = rundown_doc_of rid r # concat (map (docs_of_segment h rid) (ir_segments r))"

named_theorems doc_ofs

lemmas [doc_ofs] = part_doc_of_def segment_doc_of_def rundown_doc_of_def docs_of_segment_def docs_of_rundown_def

lemma and_then_InrE: "and_then x f = Inr z \<Longrightarrow> (\<And>y. x = Inr y \<Longrightarrow> f y = Inr z \<Longrightarrow> P) \<Longrightarrow> P"
  by (cases x) (auto simp: and_then_def)

lemma map_or_fail_is_map:
  "map_or_fail f xs = Inr ys \<Longrightarrow> (\<And>x y. x \<in> set xs \<Longrightarrow> f x = Inr y \<Longrightarrow> y = g x) \<Longrightarrow> ys = map g xs"
  by (induction xs arbitrary: ys) (auto elim!: and_then_InrE)

lemma part_doc_generated: "generateCacheForPart h rid sid p = Inr d \<Longrightarrow> d = part_doc_of h rid sid p"
  by (auto simp: generateCacheForPart_def getPartId_def part_doc_of_def pid_of_def split: if_splits elim!: and_then_InrE)

lemma segment_docs_generated: "generateCacheForSegment h rid s = Inr ds \<Longrightarrow> ds = docs_of_segment h rid s"
  unfolding generateCacheForSegment_def
  by (auto simp: getSegmentId_def docs_of_segment_def segment_doc_of_def sid_of_def split: if_splits elim!: and_then_InrE
      intro!: map_or_fail_is_map part_doc_generated)

lemma rundown_docs_generated: "generateCacheForRundown h rid r = Inr ds \<Longrightarrow> ds = docs_of_rundown h rid r"
  unfolding generateCacheForRundown_def docs_of_rundown_def rundown_doc_of_def
  by (auto elim!: and_then_InrE intro!: arg_cong [where f = concat] map_or_fail_is_map segment_docs_generated)

section \<open>Putting them together\<close>

text \<open>Ranks and external ids that tell segments and parts apart.\<close>

definition well_ranked :: "LocalIngestRundown \<Rightarrow> bool" where
  "well_ranked r = (sorted_wrt (<) (map is_rank (ir_segments r)) \<and> distinct (map is_externalId (ir_segments r))
     \<and> (\<forall>s\<in>set (ir_segments r). sorted_wrt (<) (map ip_rank (is_parts s)))
     \<and> distinct (map ip_externalId (concat (map is_parts (ir_segments r)))))"

lemma mset_compact: "mset (compact xs) = image_mset the (filter_mset (\<lambda>x. x \<noteq> None) (mset xs))"
  by (induction xs) (auto simp: compact_def map_filter_simps split: option.splits)

lemma sort_unique:
  assumes "sorted_wrt (<) (map f ys)" and "mset xs = mset ys"
  shows "sort_key (f :: 'a \<Rightarrow> 'b :: linorder) xs = ys"
proof -
  have "sorted (map f ys)" "distinct (map f ys)" using assms(1) by (simp_all add: strict_sorted_iff)
  then show ?thesis
    using assms(2) mset_eq_setD [OF assms(2)] by (intro sort_key_inj_key_eq) (simp_all add: distinct_map)
qed

lemma find_only:
  assumes "x \<in> set xs" "P x" "\<And>y. y \<in> set xs \<Longrightarrow> P y \<Longrightarrow> y = x"
  shows "find P xs = Some x"
proof (cases "find P xs")
  case None
  with assms(1,2) show ?thesis by (simp add: find_None_set)
next
  case (Some y)
  with find_Some_set [OF Some] assms(3) [of y] show ?thesis by simp
qed

lemma compact_Some: "compact (map Some xs) = xs"
  by (induction xs) simp_all

lemma fetch_segment_docs:
  assumes "mset objs = mset (docs_of_segment h rid s)" and "sorted_wrt (<) (map ip_rank (is_parts s))"
  shows "fetch_segment objs = Some s"
proof -
  have set: "set objs = set (docs_of_segment h rid s)" using assms(1) by (rule mset_eq_setD)
  have "find (\<lambda>e. case ic_data e of CachedSegment _ \<Rightarrow> True | _ \<Rightarrow> False) objs = Some (segment_doc_of h rid s)"
    by (rule find_only) (auto simp: set doc_ofs)
  then have seg: "cached_segment objs = Some (segment_doc_of h rid s, s\<lparr>is_parts := [], is_modified := 0\<rparr>)"
    by (simp add: cached_segment_def segment_doc_of_def)
  have "cached_parts (docs_of_segment h rid s) = is_parts s"
    by (simp add: cached_parts_def doc_ofs comp_def compact_Some)
  moreover have "mset (cached_parts objs) = mset (cached_parts (docs_of_segment h rid s))"
    using assms(1) by (simp add: cached_parts_def mset_compact del: mset_map add: mset_map)
  ultimately have "sort_key ip_rank (cached_parts objs) = is_parts s"
    by (intro sort_unique [OF assms(2)]) simp
  then show ?thesis by (simp add: fetch_segment_def seg segment_doc_of_def)
qed

lemma filter_concat_one:
  assumes "distinct (map g ss)" and "s \<in> set ss" and "\<And>s e. s \<in> set ss \<Longrightarrow> e \<in> set (D s) \<Longrightarrow> key e = Some (g s)"
  shows "filter (\<lambda>e. key e = Some (g s)) (concat (map D ss)) = D s"
  using assms
proof (induction ss)
  case (Cons a ss)
  have none: "filter (\<lambda>e. key e = Some (g s)) (concat (map D ss)) = []" if "g s \<notin> g ` set ss"
  proof -
    have "key e \<noteq> Some (g s)" if "t \<in> set ss" "e \<in> set (D t)" for t e
      using Cons.prems(3) [of t e] that \<open>g s \<notin> g ` set ss\<close> by (auto intro: image_eqI [of "g s" g t])
    then show ?thesis by (auto simp: filter_empty_conv)
  qed
  have same: "filter (\<lambda>e. key e = Some (g a)) (D a) = D a"
    using Cons.prems(3) [of a] by (simp add: filter_id_conv)
  show ?case
  proof (cases "s = a")
    case True
    with none Cons.prems(1) same show ?thesis by simp
  next
    case False
    with Cons.prems(2) have "s \<in> set ss" by simp
    have "g a \<notin> g ` set ss" using Cons.prems(1) by simp
    with imageI [OF \<open>s \<in> set ss\<close>, of g] have "g s \<noteq> g a" by metis
    then have "filter (\<lambda>e. key e = Some (g s)) (D a) = []" using Cons.prems(3) [of a] by (auto simp: filter_empty_conv)
    with Cons \<open>s \<in> set ss\<close> show ?thesis by simp
  qed
qed simp

abbreviation segment_key :: "IngestDataCacheObj \<Rightarrow> SegmentId option" where
  "segment_key e \<equiv> (if truthy_str (ic_segmentId e) then ic_segmentId e else None)"

lemma segment_docs_key:
  assumes "\<And>x. h x \<noteq> []" and "e \<in> set (docs_of_segment h rid s)"
  shows "segment_key e = Some (sid_of h rid s)"
proof -
  have "ic_segmentId e = Some (sid_of h rid s)"
    using assms(2) by (auto simp: docs_of_segment_def segment_doc_of_def part_doc_of_def)
  moreover have "sid_of h rid s \<noteq> []" unfolding sid_of_def by (rule assms(1))
  ultimately show ?thesis by simp
qed

lemma sid_of_distinct:
  "inj h \<Longrightarrow> distinct (map is_externalId ss) \<Longrightarrow> distinct (map (sid_of h rid) ss)"
  by (induction ss) (auto simp: sid_of_def inj_eq)

lemma segment_group_docs:
  assumes inj: "inj h" "\<And>x. h x \<noteq> []" and r: "well_ranked r" and docs: "mset docs = mset (docs_of_rundown h rid r)"
    and s: "s \<in> set (ir_segments r)"
  shows "mset (filter (\<lambda>e. segment_key e = Some (sid_of h rid s)) docs) = mset (docs_of_segment h rid s)"
proof -
  let ?P = "\<lambda>e. segment_key e = Some (sid_of h rid s)"
  have dist: "distinct (map (sid_of h rid) (ir_segments r))"
    using r inj(1) by (simp add: well_ranked_def sid_of_distinct)
  have "filter ?P (docs_of_rundown h rid r) = filter ?P (concat (map (docs_of_segment h rid) (ir_segments r)))"
    by (simp add: docs_of_rundown_def rundown_doc_of_def)
  also have "\<dots> = docs_of_segment h rid s"
    by (rule filter_concat_one [where g = "sid_of h rid" and D = "docs_of_segment h rid" and key = "\<lambda>e. segment_key e", OF dist s])
      (rule segment_docs_key [OF inj(2)])
  finally have "filter ?P (docs_of_rundown h rid r) = docs_of_segment h rid s" .
  moreover have "mset (filter ?P docs) = mset (filter ?P (docs_of_rundown h rid r))" unfolding mset_filter docs ..
  ultimately show ?thesis by simp
qed

lemma fetched_segments:
  assumes inj: "inj h" "\<And>x. h x \<noteq> []" and r: "well_ranked r" and docs: "mset docs = mset (docs_of_rundown h rid r)"
  shows "mset (compact (map (fetch_segment \<circ> snd) (segment_groups docs))) = mset (ir_segments r)"
proof -
  let ?sid = "sid_of h rid" and ?groups = "segment_groups docs" and ?segs = "ir_segments r"
  define segment where "segment = the_inv_into (set ?segs) ?sid"
  have dist: "distinct (map ?sid ?segs)" using r inj(1) by (simp add: well_ranked_def sid_of_distinct)
  then have seg: "segment (?sid s) = s" if "s \<in> set ?segs" for s
    using that by (simp add: segment_def distinct_map the_inv_into_f_f)
  have set: "set docs = set (docs_of_rundown h rid r)" using docs by (rule mset_eq_setD)
  have keys: "fst ` set ?groups = ?sid ` set ?segs"
  proof -
    have "k \<in> ?sid ` set ?segs" if e: "e \<in> set docs" "segment_key e = Some k" for e k
    proof -
      have "segment_key (rundown_doc_of rid r) = None" by (simp add: rundown_doc_of_def)
      with e obtain s where s: "s \<in> set ?segs" "e \<in> set (docs_of_segment h rid s)"
        by (auto simp: set docs_of_rundown_def simp del: option.distinct)
      with e(2) segment_docs_key [OF inj(2) s(2)] show ?thesis by (simp add: image_iff) blast
    qed
    moreover have "\<exists>e\<in>set docs. segment_key e = Some (?sid s)" if "s \<in> set ?segs" for s
    proof -
      have "segment_doc_of h rid s \<in> set (docs_of_segment h rid s)" by (simp add: docs_of_segment_def)
      with that have "segment_doc_of h rid s \<in> set docs" by (auto simp: set docs_of_rundown_def)
      with segment_docs_key [OF inj(2) \<open>segment_doc_of h rid s \<in> set (docs_of_segment h rid s)\<close>] show ?thesis
        by (rule bexI)
    qed
    ultimately have "{k. \<exists>e\<in>set docs. segment_key e = Some k} = ?sid ` set ?segs" by blast
    then show ?thesis unfolding segment_groups_def keys_groupBy .
  qed
  have "(fetch_segment \<circ> snd) g = Some (segment (fst g))" if g: "g \<in> set ?groups" for g
  proof -
    obtain k ys where kys: "g = (k, ys)" by (cases g)
    from g keys obtain s where s: "s \<in> set ?segs" "k = ?sid s" by (force simp: kys)
    have "ys = filter (\<lambda>e. segment_key e = Some (?sid s)) docs"
      using g unfolding kys segment_groups_def s(2) by (rule groupBy_entry)
    then have "mset ys = mset (docs_of_segment h rid s)" by (simp only: segment_group_docs [OF inj r docs s(1)])
    then have "fetch_segment ys = Some s"
      by (rule fetch_segment_docs) (use r s(1) in \<open>simp add: well_ranked_def\<close>)
    then show ?thesis by (simp add: kys s seg)
  qed
  then have "map (fetch_segment \<circ> snd) ?groups = map Some (map (segment \<circ> fst) ?groups)" by simp
  then have c: "compact (map (fetch_segment \<circ> snd) ?groups) = map segment (map fst ?groups)"
    by (simp add: compact_Some [unfolded comp_def] compact_Some flip: map_map)
  have "distinct (map fst ?groups)" using map_wf_groupBy by (simp add: map_wf_def segment_groups_def)
  moreover have "set (map fst ?groups) = set (map ?sid ?segs)" using keys by simp
  ultimately have same: "mset (map fst ?groups) = mset (map ?sid ?segs)"
    using set_eq_iff_mset_eq_distinct [OF _ dist] by blast
  have "mset (map segment (map fst ?groups)) = image_mset segment (mset (map fst ?groups))" by (rule mset_map)
  also have "\<dots> = mset (map segment (map ?sid ?segs))" unfolding same by (rule mset_map [symmetric])
  also have "map segment (map ?sid ?segs) = ?segs" by (simp add: seg map_idI)
  finally show ?thesis by (simp only: c)
qed

lemma fetch_rundown_docs:
  assumes inj: "inj h" "\<And>x. h x \<noteq> []" and r: "well_ranked r" and docs: "mset docs = mset (docs_of_rundown h rid r)"
  shows "fetchRundown docs = Some r"
proof -
  have set: "set docs = set (docs_of_rundown h rid r)" using docs by (rule mset_eq_setD)
  have "find (\<lambda>e. case ic_data e of CachedRundown _ \<Rightarrow> True | _ \<Rightarrow> False) docs = Some (rundown_doc_of rid r)"
    by (rule find_only) (auto simp: set doc_ofs)
  then have "cached_rundown docs = Some (rundown_doc_of rid r, r\<lparr>ir_segments := [], ir_modified := 0\<rparr>)"
    by (simp add: cached_rundown_def rundown_doc_of_def)
  moreover have "sort_key is_rank (compact (map (fetch_segment \<circ> snd) (segment_groups docs))) = ir_segments r"
    by (rule sort_unique) (use r fetched_segments [OF inj r docs] in \<open>simp_all add: well_ranked_def\<close>)
  ultimately show ?thesis by (simp add: fetchRundown_def rundown_doc_of_def)
qed

section \<open>Saving\<close>

definition stored :: "(string, IngestDataCacheObj) js_map \<Rightarrow> bool" where
  \<comment> \<open>a collection by id, whose documents have no modified time in their data\<close>
  "stored c = (map_wf c \<and> (\<forall>(i, d)\<in>set c. ic_id d = i \<and> ic_data_modified d = None))"

lemma stored_get: "stored c \<Longrightarrow> map_get c i = Some d \<longleftrightarrow> (i, d) \<in> set c"
  by (auto simp: stored_def map_wf_def dest: map_of_SomeD)

lemma diff_new_result:
  "diff_new_objects did (=) None changed oldMap result news = (changed', left, result') \<Longrightarrow> result' = result @ news"
proof (induction news arbitrary: changed oldMap result)
  case (Cons a news)
  from Cons.prems obtain changed1 where
    "diff_new_objects did (=) None changed1 (map_del (did a) oldMap) (result @ [a]) news = (changed', left, result')"
    by (auto simp: Let_def split: option.splits if_splits)
  from Cons.IH [OF this] show ?case by simp
qed simp

lemma diff_latest_result:
  "diffAndReturnLatestObjects did (=) None changed olds news = (changed', result) \<Longrightarrow> result = news"
  by (auto simp: diffAndReturnLatestObjects_def dest: diff_new_result split: prod.splits)

lemma rundown_ids_distinct:
  assumes inj: "inj h" and r: "well_ranked r"
  shows "distinct (map ic_id (docs_of_rundown h rid r))"
proof -
  let ?segs = "ir_segments r" and ?seg = "\<lambda>s. rid @ ''_'' @ sid_of h rid s" and ?part = "\<lambda>p. rid @ ''_'' @ pid_of h rid p"
  have one: "map ic_id (docs_of_segment h rid s) = ?seg s # map ?part (is_parts s)" for s
    by (simp add: doc_ofs comp_def)
  have ids: "mset (map ic_id (concat (map (docs_of_segment h rid) ss)))
      = mset (map ?seg ss @ map ?part (concat (map is_parts ss)))" for ss
    by (induction ss) (simp_all add: one)
  have f: "distinct (map (\<lambda>x. rid @ ''_'' @ h (rid @ k @ x)) xs)" if "distinct xs" for k xs
    by (rule distinct_map [THEN iffD2]) (use that in \<open>simp add: inj_on_def inj_eq [OF inj]\<close>)
  have "?seg s \<noteq> ?part p" for s p by (simp add: sid_of_def pid_of_def inj_eq [OF inj])
  moreover have "distinct (map ?seg ?segs)"
    using f [of "map is_externalId ?segs" "''_segment_''"] r by (simp add: sid_of_def well_ranked_def comp_def)
  moreover have "distinct (map ?part (concat (map is_parts ?segs)))"
    using f [of "map ip_externalId (concat (map is_parts ?segs))" "''_part_''"] r
    unfolding pid_of_def well_ranked_def map_map comp_def by blast
  ultimately have "distinct (map ?seg ?segs @ map ?part (concat (map is_parts ?segs)))" by auto
  then have "distinct (map ic_id (concat (map (docs_of_segment h rid) ?segs)))"
    using mset_eq_imp_distinct_iff [OF ids] by blast
  moreover have "\<exists>x. ic_id e = rid @ ''_'' @ x" if "e \<in> set (docs_of_segment h rid s)" for e s
    using that by (auto simp: doc_ofs)
  then have "rid \<notin> ic_id ` set (concat (map (docs_of_segment h rid) ?segs))" by fastforce
  ultimately show ?thesis by (simp add: docs_of_rundown_def rundown_doc_of_def)
qed

lemma compact_pairs:
  "compact (map (\<lambda>i. map_option (g i) (M i)) is) = map (\<lambda>(i, d). g i d) (compact (map (\<lambda>i. map_option (Pair i) (M i)) is))"
proof (induction "is")
  case (Cons i "is")
  then show ?case by (cases "M i") simp_all
qed simp

lemma fetched_doc_id:
  "ic_id (fetched_doc docs d) = ic_id d" "fetched_doc docs d = d \<or> ic_data_modified (fetched_doc docs d) \<noteq> None"
  by (cases "ic_data d"; simp add: fetched_doc_def Let_def)+

lemma get_saved:
  assumes "map_wf c" and "\<And>i d. map_get c i = Some d \<Longrightarrow> ic_id d = i"
    and dist: "distinct (map ic_id (rc_documents cache))"
  shows "map_get (bulkWrite (cache_saveToDatabase cache) c) i =
      (if i \<in> set (rc_changedDocumentIds cache) then find (\<lambda>d. ic_id d = i) (rc_documents cache) else map_get c i)"
    and "map_wf (bulkWrite (cache_saveToDatabase cache) c)"
proof -
  let ?ids = "rc_changedDocumentIds cache" and ?docs = "rc_documents cache"
  define M where "M = map_get (normalizeArrayToMapFunc (\<lambda>d. Some (ic_id d)) ?docs)"
  define es where "es = (\<lambda>is. compact (map (\<lambda>i. map_option (Pair i) (M i)) is))"
  define removed where "removed = filter (\<lambda>i. M i = None) ?ids"
  have M: "M i = find (\<lambda>d. ic_id d = i) ?docs" for i
  proof (cases "find (\<lambda>d. ic_id d = i) ?docs")
    case None
    then have "find (\<lambda>d. ic_id d = i) (rev ?docs) = None" by (simp add: find_None_set)
    with None show ?thesis by (simp add: M_def map_get_normalize)
  next
    case (Some d)
    then have "find (\<lambda>d. ic_id d = i) (rev ?docs) = Some d"
      using dist by (intro find_only) (auto dest: find_Some_set simp: distinct_map inj_on_def)
    with Some show ?thesis by (simp add: M_def map_get_normalize)
  qed
  have look: "map_of (rev (es is)) i = (if i \<in> set is then M i else None)" for "is" i
  proof (induction "is")
    case (Cons a "is")
    then show ?case by (cases "M a") (auto simp: es_def map_add_def split: option.splits)
  qed (simp add: es_def)
  have ops: "cache_saveToDatabase cache = replace_all (es ?ids)
      @ (if removed \<noteq> [] then [DeleteWhere (\<lambda>d. ic_id d \<in> set removed)] else [])"
    by (simp add: cache_saveToDatabase_def Let_def replace_all_def es_def M_def removed_def compact_pairs [of ReplaceDoc])
  have wf: "map_wf (bulkWrite (replace_all (es ?ids)) c)" by (rule wf_replace_all [OF assms(1)])
  have get: "map_get (bulkWrite (replace_all (es ?ids)) c) i = (if i \<in> set ?ids \<and> M i \<noteq> None then M i else map_get c i)" for i
    by (auto simp: bulkWrite_replace jm.get_put_all [OF assms(1)] look split: option.split)
  have "ic_id d = i" if "map_get (bulkWrite (replace_all (es ?ids)) c) i = Some d" for i d
    using that assms(2) by (auto simp: get M dest: find_Some_set split: if_splits)
  note id = this
  have "map_get (remove_docs (\<lambda>d. ic_id d \<in> set removed) (bulkWrite (replace_all (es ?ids)) c)) i
      = (if i \<in> set ?ids then M i else map_get c i)"
  proof (cases "map_get (bulkWrite (replace_all (es ?ids)) c) i")
    case None
    with get [of i] show ?thesis by (simp add: get_remove_docs [OF wf] split: if_splits)
  next
    case (Some d)
    have v: "(if i \<in> set ?ids \<and> M i \<noteq> None then M i else map_get c i) = Some d" using Some unfolding get .
    show ?thesis using v by (auto simp: get_remove_docs [OF wf] Some id [OF Some] removed_def split: if_splits)
  qed
  moreover have "removed = [] \<Longrightarrow> i \<in> set ?ids \<Longrightarrow> M i \<noteq> None" by (auto simp: removed_def filter_empty_conv)
  ultimately show "map_get (bulkWrite (cache_saveToDatabase cache) c) i =
      (if i \<in> set ?ids then find (\<lambda>d. ic_id d = i) ?docs else map_get c i)"
    by (auto simp: ops bulkWrite_append get simp flip: M)
  show "map_wf (bulkWrite (cache_saveToDatabase cache) c)"
    using wf by (simp add: ops bulkWrite_append wf_remove_docs)
qed

lemma saved_docs:
  assumes hash: "inj h" "\<And>x. h x \<noteq> []" and c: "stored c" and r: "well_ranked r"
    and save: "cache_update h r (snd (cache_fetchRundown (create_ingest_cache rid c))) = Inr cache"
  shows "stored (bulkWrite (cache_saveToDatabase cache) c)"
    and "{d. \<exists>i. map_get (bulkWrite (cache_saveToDatabase cache) c) i = Some d \<and> ic_rundownId d = rid}
      = set (docs_of_rundown h rid r)"
proof -
  let ?news = "docs_of_rundown h rid r" and ?c = "bulkWrite (cache_saveToDatabase cache) c"
  define docs where "docs = findFetch (\<lambda>d. ic_rundownId d = rid) c"
  define olds where "olds = (if fetchRundown docs = None then docs else map (fetched_doc docs) docs)"
  have start: "snd (cache_fetchRundown (create_ingest_cache rid c))
      = \<lparr>rc_rundownId = rid, rc_documents = olds, rc_changedDocumentIds = []\<rparr>"
    by (simp add: cache_fetchRundown_def create_ingest_cache_def Let_def docs_def olds_def)
  obtain news where gen: "generateCacheForRundown h rid r = Inr news"
    using save unfolding start cache_update_def by (auto elim!: and_then_InrE)
  note news = rundown_docs_generated [OF gen]
  obtain changed result where diff: "diffAndReturnLatestObjects ic_id (=) None [] olds ?news = (changed, result)"
    by (cases "diffAndReturnLatestObjects ic_id (=) None [] olds ?news")
  note result = diff_latest_result [OF diff]
  have cache: "cache = \<lparr>rc_rundownId = rid, rc_documents = ?news, rc_changedDocumentIds = changed\<rparr>"
    using save diff unfolding start cache_update_def by (auto simp: gen news result and_then_def)
  have ids: "distinct (map ic_id ?news)" by (rule rundown_ids_distinct [OF hash(1) r])
  have docs: "d \<in> set docs \<longleftrightarrow> ic_rundownId d = rid \<and> (ic_id d, d) \<in> set c" for d
    using c by (force simp: docs_def findFetch_def stored_def)
  have by_id: "map ic_id (map snd c) = map fst c" using c by (auto simp: stored_def)
  then have "distinct (map ic_id (map snd c))" using c by (simp only: stored_def map_wf_def)
  then have "distinct (map ic_id docs)" unfolding docs_def findFetch_def by (rule distinct_map_filter)
  moreover have olds_ids: "map ic_id olds = map ic_id docs" by (simp add: olds_def fetched_doc_id)
  ultimately have dist: "distinct (map ic_id olds)" by simp
  define D where "D = map_of (map (\<lambda>d. (ic_id d, d)) olds)"
  have D: "D i = Some d \<longleftrightarrow> d \<in> set olds \<and> ic_id d = i" for i d
    using dist by (auto simp: D_def comp_def)
  have "persisted ic_id D [] olds" by (auto simp: persisted_def D)
  then have P: "persisted ic_id D changed ?news"
    using diffAndReturnLatestObjects_persisted [of None ic_id D "[]" olds ?news] by (simp add: diff result)
  have kept: "d \<in> set docs" if d: "d \<in> set ?news" "ic_id d \<notin> set changed" for d
  proof -
    have "d \<in> set olds" using persistedD1 [OF P d] by (simp add: D)
    moreover have "ic_data_modified d = None" using d(1) by (auto simp: doc_ofs)
    moreover from calculation(1) obtain e where "e \<in> set docs" "d = e \<or> d = fetched_doc docs e"
      by (auto simp: olds_def split: if_splits)
    ultimately show ?thesis using fetched_doc_id(2) [of docs e] by auto
  qed
  have gone: "ic_id d \<in> ic_id ` set ?news \<union> set changed" if "d \<in> set docs" for d
  proof -
    have "ic_id d \<in> set (map ic_id olds)" using that by (simp add: olds_ids)
    then obtain e where "D (ic_id d) = Some e" by (auto simp: D)
    then show ?thesis by (rule persistedD2 [OF P])
  qed
  have found: "find (\<lambda>d. ic_id d = i) ?news = Some d \<longleftrightarrow> d \<in> set ?news \<and> ic_id d = i" for i d
    using ids find_only [of d ?news "\<lambda>d. ic_id d = i"] by (auto simp: distinct_map inj_on_def dest: find_Some_set)
  have wf: "map_wf c" and key: "map_get c i = Some d \<Longrightarrow> ic_id d = i \<and> ic_data_modified d = None" for i d
    using c by (auto simp: stored_def dest: map_of_SomeD)
  have get: "map_get ?c i = Some d \<longleftrightarrow>
      (if i \<in> set changed then d \<in> set ?news \<and> ic_id d = i else map_get c i = Some d)" for i d
    using get_saved(1) [OF wf, of cache i] key ids by (simp add: cache found)
  show st: "stored ?c"
  proof -
    have wf': "map_wf ?c" using get_saved(2) [OF wf, of cache] key ids by (simp add: cache)
    have "ic_id d = i \<and> ic_data_modified d = None" if "(i, d) \<in> set ?c" for i d
    proof -
      have "map_get ?c i = Some d" using that wf' by (simp add: map_wf_def)
      moreover have "ic_data_modified d = None" if "d \<in> set ?news" using that by (auto simp: doc_ofs)
      ultimately show ?thesis using key [of i d] by (auto simp: get split: if_splits)
    qed
    with wf' show ?thesis by (auto simp: stored_def)
  qed
  have owner: "ic_rundownId d = rid" if "d \<in> set ?news" for d using that by (auto simp: doc_ofs)
  have old: "map_get c (ic_id d) = Some d \<longleftrightarrow> d \<in> set docs" if "ic_rundownId d = rid" for d
    using that by (simp add: docs stored_get [OF c])
  show "{d. \<exists>i. map_get ?c i = Some d \<and> ic_rundownId d = rid} = set ?news"
  proof (intro set_eqI iffI)
    fix d
    assume "d \<in> {d. \<exists>i. map_get ?c i = Some d \<and> ic_rundownId d = rid}"
    then obtain i where i: "map_get ?c i = Some d" and rid: "ic_rundownId d = rid" by blast
    show "d \<in> set ?news"
    proof (cases "i \<in> set changed")
      case True
      with i show ?thesis by (simp add: get)
    next
      case False
      with i key [of i d] have d: "map_get c (ic_id d) = Some d" "ic_id d \<notin> set changed" by (auto simp: get)
      then have "d \<in> set docs" using old [OF rid] by simp
      with gone d(2) obtain e where e: "e \<in> set ?news" "ic_id e = ic_id d" by force
      with kept [of e] d(2) have "e \<in> set docs" by simp
      with e d(1) old [OF owner [OF e(1)]] show ?thesis by simp
    qed
  next
    fix d
    assume d: "d \<in> set ?news"
    then have "map_get ?c (ic_id d) = Some d" using kept [of d] old [OF owner] by (auto simp: get)
    with d show "d \<in> {d. \<exists>i. map_get ?c i = Some d \<and> ic_rundownId d = rid}" using owner by blast
  qed
qed

text \<open>
  C17. What an ingest job saves, the next one reads: the data of a rundown, whose external ids differ and whose segments and
  parts have increasing ranks, is stored by saving the cache of a job, whatever it had fetched before, and fetched again
  from the documents of the rundown in whatever order the database gives them. The hash has no collisions and is
  not empty.
\<close>

theorem ingest_data_round_trip:
  assumes "inj getHash" and "\<And>x. getHash x \<noteq> []" and "stored c" and "well_ranked r"
    and "cache_update getHash r (snd (cache_fetchRundown (create_ingest_cache rundownId c))) = Inr cache"
    and "mset c' = mset (bulkWrite (cache_saveToDatabase cache) c)"
  shows "stored c' \<and> fst (cache_fetchRundown (create_ingest_cache rundownId c')) = Some r"
proof -
  let ?c = "bulkWrite (cache_saveToDatabase cache) c" and ?news = "docs_of_rundown getHash rundownId r"
  note saved = saved_docs [OF assms(1-5)]
  have set: "set c' = set ?c" using assms(6) by (rule mset_eq_setD)
  have "distinct (map fst c') \<longleftrightarrow> distinct (map fst ?c)"
    using assms(6) by (intro mset_eq_imp_distinct_iff) simp
  with saved(1) have st: "stored c'" by (simp add: stored_def map_wf_def set)
  define docs where "docs = findFetch (\<lambda>d. ic_rundownId d = rundownId) c'"
  have "d \<in> set docs \<longleftrightarrow> d \<in> set ?news" for d
    unfolding saved(2) [symmetric] docs_def findFetch_def by (force simp: stored_get [OF saved(1)] set)
  moreover have "map ic_id (map snd c') = map fst c'" using st by (auto simp: stored_def)
  then have "distinct docs" unfolding docs_def findFetch_def
    using st by (intro distinct_filter) (metis distinct_map stored_def map_wf_def)
  moreover have "distinct ?news"
    using rundown_ids_distinct [OF assms(1,4)] by (simp add: distinct_map)
  ultimately have "mset docs = mset ?news" by (intro iffD1 [OF set_eq_iff_mset_eq_distinct]) auto
  from st fetch_rundown_docs [OF assms(1,2,4) this] show ?thesis
    by (simp add: cache_fetchRundown_def create_ingest_cache_def Let_def docs_def)
qed

definition ex_cached_part :: "string \<Rightarrow> rank \<Rightarrow> LocalIngestPart" where
  "ex_cached_part i rank = \<lparr>ip_externalId = i, ip_name = i, ip_rank = rank, ip_payload = None, ip_modified = 5\<rparr>"

definition ex_cached_rundown :: LocalIngestRundown where
  "ex_cached_rundown = \<lparr>ir_externalId = ''r'', ir_name = ''news'', ir_type = ''mos'',
     ir_segments = [\<lparr>is_externalId = ''s1'', is_name = ''opening'', is_rank = 0, is_payload = None,
        is_parts = [ex_cached_part ''p1'' 0, ex_cached_part ''p2'' 1], is_modified = 5\<rparr>,
       \<lparr>is_externalId = ''s2'', is_name = ''weather'', is_rank = 1, is_payload = None,
        is_parts = [ex_cached_part ''p3'' 0], is_modified = 7\<rparr>],
     ir_payload = None, ir_modified = 7\<rparr>"

lemma ingest_data_round_trip_witness:
  "\<exists>cache. cache_update ((#) CHR ''h'') ex_cached_rundown (snd (cache_fetchRundown (create_ingest_cache ''rid''
        [(''rid'', rundown_doc_of ''rid'' (ex_cached_rundown\<lparr>ir_segments := []\<rparr>))]))) = Inr cache
    \<and> fst (cache_fetchRundown (create_ingest_cache ''rid'' (rev (bulkWrite (cache_saveToDatabase cache)
        [(''rid'', rundown_doc_of ''rid'' (ex_cached_rundown\<lparr>ir_segments := []\<rparr>))])))) = Some ex_cached_rundown"
proof -
  let ?c = "[(''rid'', rundown_doc_of ''rid'' (ex_cached_rundown\<lparr>ir_segments := []\<rparr>))]" and ?h = "(#) CHR ''h''"
  have "isl (generateCacheForRundown ?h ''rid'' ex_cached_rundown) = False"
    by (simp add: ex_cached_rundown_def ex_cached_part_def generateCacheForRundown_def generateCacheForSegment_def
        generateCacheForPart_def getSegmentId_def getPartId_def and_then_def)
  then obtain ds where "generateCacheForRundown ?h ''rid'' ex_cached_rundown = Inr ds"
    by (cases "generateCacheForRundown ?h ''rid'' ex_cached_rundown") auto
  then have "\<exists>cache. cache_update ?h ex_cached_rundown (snd (cache_fetchRundown (create_ingest_cache ''rid'' ?c))) = Inr cache"
    by (auto simp: cache_update_def cache_fetchRundown_def create_ingest_cache_def Let_def and_then_def split: prod.split)
  then obtain cache where cache:
    "cache_update ?h ex_cached_rundown (snd (cache_fetchRundown (create_ingest_cache ''rid'' ?c))) = Inr cache" by blast
  have "stored ?c" by (simp add: stored_def map_wf_def rundown_doc_of_def)
  moreover have "well_ranked ex_cached_rundown" by (simp add: well_ranked_def ex_cached_rundown_def ex_cached_part_def)
  moreover have "inj ?h" by (simp add: inj_def)
  ultimately show ?thesis
    using ingest_data_round_trip [of ?h ?c ex_cached_rundown "''rid''" cache "rev (bulkWrite (cache_saveToDatabase cache) ?c)"]
      cache by auto
qed

end
