(* ===== verification/Spec2Isabelle.thy ===== *)
theory Spec2Isabelle
  imports Part_Timings Playlist_Order Infinites_Facts Process_Prune Select_Next Ab_Resolver_Facts
    Overrides Ingest_Model_Facts Locks_System Job_Queue Job_Queue_Drains Playout_Facts Reset_Facts
    Orphan_Places Hold_Cycle Activation_Facts Playback_Facts Next_Part_Facts Adlib_Action_Facts
    Mos_Diff_Facts Ingest_Cache_Facts
begin

text \<open>
  Sofie core runs television shows. A playlist holds rundowns, these hold segments, and these parts with their
  pieces. Ingest writes segments and parts from a newsroom system; playout makes instances of parts and pieces,
  selects which is on air and which is next, and generates a timeline for the devices. The development models
  the logic of both in \<open>packages/job-worker\<close> and \<open>packages/corelib\<close>, the queues and locks through which the jobs
  run, and some of \<open>packages/shared-lib\<close> and \<open>meteor/server\<close>. Paths below are relative to \<open>packages\<close> unless they
  start with \<open>meteor\<close>.

  \<^bold>\<open>How the parts interact\<close>

  The server queues a job (\<open>Job_Queue\<close>), a worker thread takes the locks of the playlist (\<open>Locks\<close>), loads the
  model (\<open>Playout_Database\<close>), runs the operation on it and saves it. An ingest job changes the stored ingest data
  (\<open>Ingest_Data\<close>), regenerates the segments this concerns in an ingest model (\<open>Ingest_Model\<close>), and then updates
  the ranks of the part instances (\<open>Instance_Ranks\<close>). A playout job sets the next part (\<open>Set_Next\<close>), which selects it (\<open>Select_Next\<close>), makes its instance with the pieces that continue into
  it (\<open>Playout_Infinites\<close>, \<open>Infinites\<close>), and a take (\<open>Take\<close>) puts it on air with the timings of \<open>Part_Timings\<close>.
  The players of AB playback are assigned to the pieces found (\<open>Ab_Sessions\<close>, \<open>Ab_Ranges\<close>, \<open>Ab_Resolver\<close>).

  \<^bold>\<open>The theories\<close>

  \<^item> \<open>Sofie_Prelude\<close>, \<open>Sofie_Data\<close>, \<open>Samples\<close>: JavaScript's maps, sorting and truthiness; the documents of
    \<open>corelib/src/dataModel\<close>; documents the witnesses use.
  \<^item> \<open>Part_Timings\<close>, \<open>Playlist_Order\<close>: \<open>corelib/src/playout/timings.ts\<close>, \<open>rundownTiming.ts\<close> and \<open>playlist.ts\<close>. The
    take offset is the least delay that leaves room for every preroll and transition; the sorts are permutations ordered by
    their keys.
  \<^item> \<open>Infinites\<close>, \<open>Infinites_Facts\<close>, \<open>Process_Prune\<close>: \<open>infinites.ts\<close> and \<open>processAndPrune.ts\<close> beside them. Which
    piece goes on, that the queries fetch all that may, that what is kept on a layer does not overlap.
  \<^item> \<open>Select_Next\<close>: \<open>job-worker/src/playout/selectNextPart.ts\<close> and \<open>moveNextPart.ts\<close>.
  \<^item> \<open>Ab_Sessions\<close>, \<open>Ab_Ranges\<close>, \<open>Ab_Resolver\<close>, \<open>Ab_Resolver_Facts\<close>: \<open>playout/abPlayback\<close>. No request is lost, and
    players come from the pool. The resolver's bound of 200 rounds is the code's; reaching it is its error.
  \<^item> \<open>Playout_Part\<close>, \<open>Playout_Model\<close>, \<open>Playout_Infinites\<close>, \<open>Playout_Database\<close>: the models of
    \<open>playout/model/implementation\<close>, \<open>playout/infinites.ts\<close> and \<open>playout/lock.ts\<close>. A model that can change under a
    job is a value that each operation takes and returns; a reference to a part instance is its id.
    \<open>Playout_Facts\<close> states that what a save leaves in the database is the model, through a locale for the operations on
    one part instance and their rollback, and that the model stays keyed by its ids. \<open>Reset_Facts\<close> follows a reset into the database.
  \<^item> \<open>Set_Next\<close>, \<open>Set_Next_Facts\<close>: \<open>playout/setNext.ts\<close> and the resets of \<open>playout/lib.ts\<close>; what setting the next part
    does to the selection and to every other part instance.
  \<^item> \<open>Take\<close>, \<open>Take_Facts\<close>, \<open>Show_Cycle\<close>: \<open>playout/take.ts\<close>, \<open>holdJobs.ts\<close>, \<open>activePlaylistActions.ts\<close> and
    \<open>timings/partPlayback.ts\<close>. How a take or an autonext moves the selection, and how far apart takes are.
  \<^item> \<open>Playout_Jobs\<close>, \<open>Activation_Facts\<close>, \<open>Next_Part_Facts\<close>: \<open>playout/setNextJobs.ts\<close>, \<open>activePlaylistJobs.ts\<close> and
    \<open>ingest/updateNext.ts\<close>, the jobs around the operations above; an activation starts the show over, and the next
    part follows what ingest changes.
  \<^item> \<open>Adlibs\<close>, \<open>Adlib_Facts\<close>: \<open>playout/adlibUtils.ts\<close>, \<open>adlibJobs.ts\<close> and \<open>pieces.ts\<close>. A queued ad-lib is next and
    leaves alone what is on air; which piece is disabled.
  \<^item> \<open>Adlib_Actions\<close>, \<open>Adlib_Action_Facts\<close>: the changing calls of an action of a blueprint in
    \<open>blueprints/context/services/PartAndPieceInstanceActionService.ts\<close>, and \<open>playout/adlibAction.ts\<close> and
    \<open>adlibTesting.ts\<close> around them. No sequence of calls changes what is on air without a take.
  \<^item> \<open>Hold_Cycle\<close>: hold as a state machine whose steps are the jobs of the playout theories above, so that whatever
    sequence of jobs runs, hold follows its cycle.
  \<^item> \<open>Playback_Timings\<close>, \<open>Playback_Facts\<close>: \<open>playout/timings/piecePlayback.ts\<close>, \<open>resolvedPieces.ts\<close> and
    \<open>timeline/multi-gateway.ts\<close>. An infinite over several parts is resolved to one piece; a timeline for several
    gateways gets concrete times, which returns as long as no group contains itself.
  \<^item> \<open>Instance_Ranks\<close>, \<open>Orphan_Places\<close>: \<open>job-worker/src/updatePartInstanceRanksAndOrphanedState.ts\<close>.
  \<^item> \<open>Overrides\<close>: \<open>corelib/src/settings/objectWithOverrides.ts\<close>.
  \<^item> \<open>Change_Tracker\<close>, \<open>Ingest_Model\<close>, \<open>Ingest_Model_Facts\<close>: \<open>job-worker/src/ingest/model/implementation\<close>; the
    tracked changes are those that bring the database in step with the model.
  \<^item> \<open>Post_Process\<close>: what becomes of the pieces, ad-libs and actions of a blueprint, \<open>blueprints/postProcess.ts\<close>.
  \<^item> \<open>Ingest_Data\<close>, \<open>Mos_Story_Facts\<close>: the data that newsroom systems send, \<open>ingest/mosDevice/mosToIngest.ts\<close>, and the
    first stage of the jobs of \<open>mosStoryJobs.ts\<close>, \<open>mosRundownJobs.ts\<close>, \<open>ingestPartJobs.ts\<close>, \<open>ingestSegmentJobs.ts\<close>
    and \<open>ingestRundownJobs.ts\<close>, which changes it. An edit of stories refines the edit of the list of their ids.
  \<^item> \<open>Ingest_Cache\<close>, \<open>Ingest_Cache_Facts\<close>: \<open>ingest/ingestCache.ts\<close>, how that data is stored, and that what is stored is
    what the next job reads.
  \<^item> \<open>Segment_Generation\<close>, \<open>Ingest_Jobs\<close>, \<open>Mos_Diff_Facts\<close>: \<open>ingest/generationSegment.ts\<close>, \<open>generationRundown.ts\<close>,
    \<open>mosDevice/diff.ts\<close>, and the jobs up to what \<open>ingest/lock.ts\<close> hands to the commit. After the difference of the
    data is applied, the model has the segments of the new data.
  \<^item> \<open>Locks\<close>, \<open>Locks_System\<close>: \<open>job-worker/src/locks.ts\<close> and \<open>workers/locks.ts\<close>, the parent and its threads with
    the messages between them as a transition system; mutual exclusion, and the order in which requests are granted. The
    termination of a worker set (\<open>terminate\<close> of \<open>workers/parent-base.ts\<close>), which frees the locks of jobs that still
    run, is not a step.
  \<^item> \<open>Job_Queue\<close>, \<open>Job_Queue_Classes\<close>, \<open>Job_Queue_Drains\<close>: \<open>meteor/server/worker/worker.ts\<close> and
    \<open>shared-lib/src/lib/JobQueueWithClasses.ts\<close>, whose steps are what runs between two \<open>await\<close>s. A measure on the
    steps that wait shows that a queue left alone comes to rest.

  \<^bold>\<open>Conventions\<close>

  An operation that throws has a sum as its result, with the error to the left; a job ends at its first error
  (\<open>and_then\<close>). Times and durations are integers of milliseconds, ranks rationals: the numbers of the program are
  doubles, which hold such integers exactly, while the interpolation of ranks is exact only in the model. The time
  is one for all reads of a job. Arguments of the model are what is not in the repository or not a function:
  random ids, \<open>localeCompare\<close>, hashes, \<open>object-path\<close>, the callbacks of blueprints, the generation of the timeline, the
  settings of the studio and the devices. Theorems state what they need of them: that new ids are not in use, that
  callbacks leave the selection alone.

  \<^bold>\<open>Not modelled\<close>

  The generation of the timeline and the lookahead, whose objects have their meaning in \<open>superfly-timeline\<close>; the
  contexts of blueprints, but for the changing calls of their actions; of ingest the commit (\<open>ingest/commit.ts\<close>), the
  show style, notes, baseline and expected packages of a rundown, and the parsing of MOS messages; the driver of the database and what other processes write meanwhile;
  publications, migrations, the server's API, the user interface and the gateways, which connect to libraries that
  are not in the repository and carry little logic of their own.
\<close>

end
